(* ===== verification/Argus_Prelude.thy ===== *)
theory Argus_Prelude
  imports Complex_Main "HOL-Library.AList"
begin

text \<open>
  The prelude of the development: Python values, dictionaries and exceptions as the
  component theories use them, the lemma collections, and the generic facts on
  association lists that carry the component proofs.

  \<^item> A Python dictionary is an association list in insertion order. Assignment is
    \<open>dict_set\<close> (overwrite in place, append when new), \<open>del d[k]\<close> and \<open>pop\<close> are
    \<open>dict_del\<close>, \<open>d.get(k)\<close> is \<open>dict_get\<close>.
  \<^item> An exception is a value of type \<open>exn\<close>; an operation that may raise returns
    \<open>exn + 'a\<close>, with \<open>Inl\<close> for the raised exception.
  \<^item> \<open>Any\<close> values (tool arguments, workflow contexts, configuration trees) are the JSON
    fragment \<open>pyval\<close> without floats.
  \<^item> Clock readings (\<open>time.monotonic()\<close>) are rationals given as arguments; float rounding
    is not modelled. Log output is not modelled.
\<close>

section \<open>Lemma collections\<close>

named_theorems dict_simps "lookup, keys and distinctness of updated dictionaries"
named_theorems inv_intros "operations that keep a component's invariant"

section \<open>Values, exceptions\<close>

datatype exn =
    ValueError string
  | KeyError string
  | TypeError string
  | RuntimeError string
  | NotImplementedError string
  | AssertionError string
  | TimeoutError
  | ConnectionError string
  | McpError int string
  | AuthenticationError string
  | AuthorizationError string
  | ConfigurationError string
  | BackendServerError string
  | CapabilityConflictError string string string
  | PluginError string string exn
  | WorkflowValidationError string
  | WorkflowExecutionError string
  | OtherException string string

type_synonym 'a res = "exn + 'a"

text \<open>\<open>type(exc).__name__\<close> and \<open>str(exc)\<close>.\<close>

fun exn_class :: "exn \<Rightarrow> string" where
  "exn_class (ValueError m) = ''ValueError''"
| "exn_class (KeyError m) = ''KeyError''"
| "exn_class (TypeError m) = ''TypeError''"
| "exn_class (RuntimeError m) = ''RuntimeError''"
| "exn_class (NotImplementedError m) = ''NotImplementedError''"
| "exn_class (AssertionError m) = ''AssertionError''"
| "exn_class TimeoutError = ''TimeoutError''"
| "exn_class (ConnectionError m) = ''ConnectionError''"
| "exn_class (McpError c m) = ''McpError''"
| "exn_class (AuthenticationError m) = ''AuthenticationError''"
| "exn_class (AuthorizationError m) = ''AuthorizationError''"
| "exn_class (ConfigurationError m) = ''ConfigurationError''"
| "exn_class (BackendServerError m) = ''BackendServerError''"
| "exn_class (CapabilityConflictError c a b) = ''CapabilityConflictError''"
| "exn_class (PluginError p h e) = ''PluginError''"
| "exn_class (WorkflowValidationError m) = ''WorkflowValidationError''"
| "exn_class (WorkflowExecutionError m) = ''WorkflowExecutionError''"
| "exn_class (OtherException c m) = c"

fun exn_str :: "exn \<Rightarrow> string" where
  "exn_str (ValueError m) = m"
| "exn_str (KeyError m) = CHR 0x27 # m @ [CHR 0x27]"
| "exn_str (TypeError m) = m"
| "exn_str (RuntimeError m) = m"
| "exn_str (NotImplementedError m) = m"
| "exn_str (AssertionError m) = m"
| "exn_str TimeoutError = []"
| "exn_str (ConnectionError m) = m"
| "exn_str (McpError c m) = m"
| "exn_str (AuthenticationError m) = m"
| "exn_str (AuthorizationError m) = m"
| "exn_str (ConfigurationError m) = m"
| "exn_str (BackendServerError m) = ''Backend server error: '' @ m"
| "exn_str (CapabilityConflictError c a b) =
     ''Capability name conflict: '' @ [CHR 0x27] @ c @ [CHR 0x27] @ '' is provided by both '' @
     [CHR 0x27] @ a @ [CHR 0x27] @ '' and '' @ [CHR 0x27] @ b @ [CHR 0x27] @
     ''. Ensure server names or capability prefixes are unique, or configure a conflict resolution strategy.''"
| "exn_str (PluginError p h e) =
     ''Plugin '' @ [CHR 0x27] @ p @ [CHR 0x27] @ '' failed in '' @ h @ '': '' @ exn_str e"
| "exn_str (WorkflowValidationError m) = m"
| "exn_str (WorkflowExecutionError m) = m"
| "exn_str (OtherException c m) = m"

datatype pyval =
    PNone
  | PBool bool
  | PInt int
  | PStr string
  | PList "pyval list"
  | PDict "(string \<times> pyval) list"
  | PObj string string

text \<open>\<open>PObj c s\<close> is an object of any other class \<open>c\<close>, which prints as \<open>s\<close>.\<close>

fun py_truthy :: "pyval \<Rightarrow> bool" where
  "py_truthy PNone = False"
| "py_truthy (PBool b) = b"
| "py_truthy (PInt i) = (i \<noteq> 0)"
| "py_truthy (PStr s) = (s \<noteq> [])"
| "py_truthy (PList xs) = (xs \<noteq> [])"
| "py_truthy (PDict d) = (d \<noteq> [])"
| "py_truthy (PObj c s) = True"

section \<open>Dictionaries in insertion order\<close>

type_synonym ('k, 'v) dict = "('k \<times> 'v) list"

abbreviation dict_get :: "('k, 'v) dict \<Rightarrow> 'k \<Rightarrow> 'v option" where
  "dict_get d k \<equiv> map_of d k"

abbreviation dict_set :: "'k \<Rightarrow> 'v \<Rightarrow> ('k, 'v) dict \<Rightarrow> ('k, 'v) dict" where
  "dict_set k v d \<equiv> AList.update k v d"

abbreviation dict_del :: "'k \<Rightarrow> ('k, 'v) dict \<Rightarrow> ('k, 'v) dict" where
  "dict_del k d \<equiv> AList.delete k d"

abbreviation dict_keys :: "('k, 'v) dict \<Rightarrow> 'k list" where
  "dict_keys d \<equiv> map fst d"

abbreviation dict_wf :: "('k, 'v) dict \<Rightarrow> bool" where
  "dict_wf d \<equiv> distinct (map fst d)"

text \<open>\<open>d.get(k, default)\<close>.\<close>

definition dict_get_or :: "'v \<Rightarrow> ('k, 'v) dict \<Rightarrow> 'k \<Rightarrow> 'v" where
  "dict_get_or x d k = (case dict_get d k of None \<Rightarrow> x | Some v \<Rightarrow> v)"

text \<open>\<open>d.update(e)\<close>: the entries of \<open>e\<close> assigned in order.\<close>

definition dict_update :: "('k, 'v) dict \<Rightarrow> ('k, 'v) dict \<Rightarrow> ('k, 'v) dict" where
  "dict_update d e = fold (\<lambda>(k, v). dict_set k v) e d"

lemma dict_get_set [dict_simps, simp]:
  "dict_get (dict_set k v d) k' = (if k' = k then Some v else dict_get d k')"
  by (simp add: update_conv')

lemma dict_get_del [dict_simps, simp]:
  "dict_get (dict_del k d) k' = (if k' = k then None else dict_get d k')"
  by (simp add: delete_conv')

lemma dict_set_keys [dict_simps, simp]:
  "set (dict_keys (dict_set k v d)) = insert k (set (dict_keys d))"
  by (induction d) auto

lemma dict_set_fst_image [dict_simps, simp]:
  "fst ` set (dict_set k v d) = insert k (fst ` set d)"
  using dict_set_keys [of k v d] by (simp add: image_set [symmetric] del: dict_set_keys)

lemma dict_del_fst_image [dict_simps, simp]:
  "fst ` set (dict_del k d) = fst ` set d - {k}"
  by (induction d) auto

lemma dict_wf_set [dict_simps, simp]: "dict_wf d \<Longrightarrow> dict_wf (dict_set k v d)"
  by (rule distinct_update)

lemma dict_wf_del [dict_simps, simp]: "dict_wf d \<Longrightarrow> dict_wf (dict_del k d)"
  by (rule distinct_delete)

lemma dict_get_Some_iff [dict_simps]: "dict_wf d \<Longrightarrow> dict_get d k = Some v \<longleftrightarrow> (k, v) \<in> set d"
  by (rule map_of_eq_Some_iff)

lemma dict_get_None_iff [dict_simps]: "dict_get d k = None \<longleftrightarrow> k \<notin> fst ` set d"
  by (rule map_of_eq_None_iff)

lemma dict_dom [dict_simps]: "dom (dict_get d) = fst ` set d"
  by (rule dom_map_of_conv_image_fst)

lemma dict_update_Nil [simp]: "dict_update d [] = d"
  by (simp add: dict_update_def)

lemma dict_update_Cons [simp]: "dict_update d (p # e) = dict_update (dict_set (fst p) (snd p) d) e"
  by (simp add: dict_update_def case_prod_beta)

lemma dict_get_update:
  "dict_wf e \<Longrightarrow> dict_get (dict_update d e) k =
    (case dict_get e k of None \<Rightarrow> dict_get d k | Some v \<Rightarrow> Some v)"
proof (induction e arbitrary: d)
  case (Cons p e)
  then have "dict_get e (fst p) = None"
    by (simp add: dict_get_None_iff)
  with Cons show ?case
    by (cases "k = fst p") (simp_all split: option.split)
qed simp

lemma dict_wf_update [simp]: "dict_wf d \<Longrightarrow> dict_wf (dict_update d e)"
  by (induction e arbitrary: d) simp_all

lemma dict_set_new: "k \<notin> fst ` set d \<Longrightarrow> dict_set k v d = d @ [(k, v)]"
  by (induction d) auto

section \<open>Lists\<close>

lemma distinct_map_filter_eq:
  "distinct (map f xs) \<Longrightarrow> distinct (map f (filter P xs))"
  by (induction xs) auto

lemma length_filter_partition: "length (filter P xs) + length (filter (\<lambda>x. \<not> P x) xs) = length xs"
  by (rule sum_length_filter_compl)

section \<open>Printing numbers\<close>

definition digit_char :: "nat \<Rightarrow> char" where
  "digit_char n = char_of (48 + n)"

fun show_nat :: "nat \<Rightarrow> string" where
  "show_nat n = (if n < 10 then [digit_char n] else show_nat (n div 10) @ [digit_char (n mod 10)])"

declare show_nat.simps [simp del]

definition show_int :: "int \<Rightarrow> string" where
  "show_int i = (if i < 0 then CHR ''-'' # show_nat (nat (- i)) else show_nat (nat i))"

text \<open>\<open>round\<close> to an integer, halves to even, and the format \<open>:.0f\<close>.\<close>

definition round_even :: "rat \<Rightarrow> int" where
  "round_even x =
     (let f = \<lfloor>x\<rfloor>; d = x - of_int f
      in if d < 1 / 2 then f else if d > 1 / 2 then f + 1 else if even f then f else f + 1)"

definition fmt0 :: "rat \<Rightarrow> string" where
  "fmt0 x = show_int (round_even x)"

lemma digit_char_inj: "a < 10 \<Longrightarrow> b < 10 \<Longrightarrow> digit_char a = digit_char b \<longleftrightarrow> a = b"
proof -
  assume "a < 10" "b < 10"
  moreover have "(of_char (digit_char n) :: nat) = 48 + n" if "n < 10" for n
    using that by (simp add: digit_char_def of_char_of)
  ultimately show ?thesis by (metis add_left_cancel)
qed

lemma show_nat_nonempty [simp]: "show_nat n \<noteq> []"
  by (subst show_nat.simps) simp

lemma show_nat_inj: "show_nat a = show_nat b \<Longrightarrow> a = b"
proof (induction a arbitrary: b rule: show_nat.induct)
  case (1 a)
  show ?case
  proof (cases "a < 10 \<or> b < 10")
    case True
    with "1.prems" show ?thesis
      using show_nat_nonempty [of "a div 10"] show_nat_nonempty [of "b div 10"]
      by (auto simp: show_nat.simps [of a] show_nat.simps [of b] digit_char_inj
          simp del: show_nat_nonempty split: if_splits)
  next
    case False
    with "1.prems" have "show_nat (a div 10) = show_nat (b div 10)" "a mod 10 = b mod 10"
      by (simp_all add: show_nat.simps [of a] show_nat.simps [of b] digit_char_inj)
    with "1.IH" False have "a div 10 = b div 10" "a mod 10 = b mod 10" by simp_all
    then show ?thesis by (metis div_mult_mod_eq)
  qed
qed

end
