(* ===== verification/Circuit_Breaker.thy ===== *)
theory Circuit_Breaker
  imports Argus_Prelude
begin

text \<open>
  \<open>bridge/health/circuit_breaker.py\<close>: the per-backend circuit breaker, its contract as the
  locale \<open>breaker\<close> (what the session pool and the health checker rely on) and its history
  specification: a breaker admits a request exactly when fewer than the threshold of failures
  were recorded since the last success or reset, or the cooldown has passed since the last
  failure. Each operation takes the reading of \<open>time.monotonic()\<close> it makes.
\<close>

section \<open>Definitions\<close>

datatype CircuitState = CLOSED | OPEN | HALF_OPEN

fun circuit_state_value :: "CircuitState \<Rightarrow> string" where
  "circuit_state_value CLOSED = ''closed''"
| "circuit_state_value OPEN = ''open''"
| "circuit_state_value HALF_OPEN = ''half-open''"

record CircuitBreaker =
  cb_name :: string
  failure_threshold :: int
  cooldown_seconds :: rat
  cb_state :: CircuitState
  consecutive_failures :: int
  last_failure_time :: rat
  last_success_time :: rat

definition DEFAULT_FAILURE_THRESHOLD :: int where "DEFAULT_FAILURE_THRESHOLD = 3"
definition DEFAULT_COOLDOWN_SECONDS :: rat where "DEFAULT_COOLDOWN_SECONDS = 60"

definition new_breaker :: "string \<Rightarrow> int \<Rightarrow> rat \<Rightarrow> CircuitBreaker" where
  "new_breaker name threshold cooldown =
     \<lparr>cb_name = name, failure_threshold = threshold, cooldown_seconds = cooldown,
      cb_state = CLOSED, consecutive_failures = 0, last_failure_time = 0, last_success_time = 0\<rparr>"

text \<open>The \<open>state\<close> property: reading it moves an open breaker whose cooldown has passed.\<close>

definition read_state :: "rat \<Rightarrow> CircuitBreaker \<Rightarrow> CircuitState \<times> CircuitBreaker" where
  "read_state now b =
     (let b' = (if cb_state b = OPEN \<and> now - last_failure_time b \<ge> cooldown_seconds b
                then b\<lparr>cb_state := HALF_OPEN\<rparr> else b)
      in (cb_state b', b'))"

definition allows_request :: "rat \<Rightarrow> CircuitBreaker \<Rightarrow> bool \<times> CircuitBreaker" where
  "allows_request now b =
     (case read_state now b of (s, b') \<Rightarrow> (s = CLOSED \<or> s = HALF_OPEN, b'))"

definition record_success :: "rat \<Rightarrow> CircuitBreaker \<Rightarrow> CircuitBreaker" where
  "record_success now b =
     b\<lparr>cb_state := CLOSED, consecutive_failures := 0, last_success_time := now\<rparr>"

definition record_failure :: "rat \<Rightarrow> CircuitBreaker \<Rightarrow> CircuitBreaker" where
  "record_failure now b =
     (let b1 = b\<lparr>consecutive_failures := consecutive_failures b + 1, last_failure_time := now\<rparr>
      in if (cb_state b1 = CLOSED \<or> cb_state b1 = HALF_OPEN)
            \<and> consecutive_failures b1 \<ge> failure_threshold b1
         then b1\<lparr>cb_state := OPEN\<rparr> else b1)"

definition reset_breaker :: "CircuitBreaker \<Rightarrow> CircuitBreaker" where
  "reset_breaker b = b\<lparr>cb_state := CLOSED, consecutive_failures := 0\<rparr>"

record breaker_snapshot =
  snap_state :: string
  snap_failures :: int
  snap_threshold :: int
  snap_cooldown :: rat

definition breaker_to_dict :: "rat \<Rightarrow> CircuitBreaker \<Rightarrow> breaker_snapshot \<times> CircuitBreaker" where
  "breaker_to_dict now b =
     (case read_state now b of (s, b') \<Rightarrow>
       (\<lparr>snap_state = circuit_state_value s, snap_failures = consecutive_failures b',
         snap_threshold = failure_threshold b', snap_cooldown = cooldown_seconds b'\<rparr>, b'))"

lemmas breaker_defs = read_state_def allows_request_def record_success_def record_failure_def
  reset_breaker_def Let_def

section \<open>The contract of a breaker\<close>

text \<open>
  \<open>good\<close> is the implementation's invariant, \<open>fails\<close> the number of failures since the last
  success, \<open>limit\<close> and \<open>cool\<close> its parameters. The clients are the session pool and the
  health checker.
\<close>

locale breaker =
  fixes allows :: "rat \<Rightarrow> 'b \<Rightarrow> bool \<times> 'b"
    and success :: "rat \<Rightarrow> 'b \<Rightarrow> 'b"
    and failure :: "rat \<Rightarrow> 'b \<Rightarrow> 'b"
    and good :: "'b \<Rightarrow> bool"
    and fails :: "'b \<Rightarrow> int"
    and limit :: "'b \<Rightarrow> int"
    and cool :: "'b \<Rightarrow> rat"
  assumes good_allows: "good b \<Longrightarrow> good (snd (allows t b))"
    and good_success: "good b \<Longrightarrow> good (success t b)"
    and good_failure: "good b \<Longrightarrow> good (failure t b)"
    and fails_allows: "fails (snd (allows t b)) = fails b"
    and fails_success: "fails (success t b) = 0"
    and fails_failure: "fails (failure t b) = fails b + 1"
    and limit_keep: "limit (snd (allows t b)) = limit b" "limit (success t b) = limit b"
      "limit (failure t b) = limit b"
    and cool_keep: "cool (snd (allows t b)) = cool b" "cool (success t b) = cool b"
      "cool (failure t b) = cool b"
    and below_limit_allows: "good b \<Longrightarrow> fails b < limit b \<Longrightarrow> fst (allows t b)"
    and tripped_blocks: "good b \<Longrightarrow> limit b \<le> fails (failure t b) \<Longrightarrow> t' < t + cool b \<Longrightarrow>
      \<not> fst (allows t' (failure t b))"
    and cooled_allows: "t + cool b \<le> t' \<Longrightarrow> fst (allows t' (failure t b))"
begin

lemma fold_failure_keep:
  "good b \<Longrightarrow> good (fold failure ts b)"
  "fails (fold failure ts b) = fails b + int (length ts)"
  "limit (fold failure ts b) = limit b"
  "cool (fold failure ts b) = cool b"
  by (induction ts arbitrary: b) (simp_all add: good_failure fails_failure limit_keep cool_keep)

text \<open>A burst of failures long enough trips the breaker for the whole cooldown.\<close>

lemma burst_blocks:
  assumes "good b" "ts \<noteq> []" "limit b \<le> fails b + int (length ts)" "t' < last ts + cool b"
  shows "\<not> fst (allows t' (fold failure ts b))"
proof -
  have ts: "ts = butlast ts @ [last ts]" using assms(2) by simp
  let ?b = "fold failure (butlast ts) b"
  have "fold failure ts b = failure (last ts) ?b" by (subst ts) simp
  moreover have "good ?b" "limit ?b = limit b" "cool ?b = cool b"
    using assms(1) by (simp_all add: fold_failure_keep)
  moreover have "fails (failure (last ts) ?b) = fails b + int (length ts)"
    using assms(2) by (cases ts) (simp_all add: fails_failure fold_failure_keep)
  ultimately show ?thesis using assms(3,4) tripped_blocks [of ?b "last ts" t'] by simp
qed

lemma burst_cools:
  assumes "ts \<noteq> []" "last ts + cool b \<le> t'"
  shows "fst (allows t' (fold failure ts b))"
proof -
  have ts: "ts = butlast ts @ [last ts]" using assms(1) by simp
  show ?thesis
    by (subst ts) (use assms(2) cooled_allows in \<open>simp add: fold_failure_keep\<close>)
qed

lemma success_allows: "good b \<Longrightarrow> 0 < limit b \<Longrightarrow> fst (allows t' (success t b))"
  by (simp add: below_limit_allows good_success fails_success limit_keep)

end

section \<open>The implementation meets the contract\<close>

definition breaker_ok :: "CircuitBreaker \<Rightarrow> bool" where
  "breaker_ok b \<longleftrightarrow> 0 \<le> consecutive_failures b \<and>
     (cb_state b \<noteq> CLOSED \<longrightarrow> failure_threshold b \<le> consecutive_failures b)"

lemma CircuitState_remaining:
  "s \<noteq> CLOSED \<Longrightarrow> s \<noteq> HALF_OPEN \<Longrightarrow> s = OPEN" "s \<noteq> OPEN \<Longrightarrow> s \<noteq> HALF_OPEN \<Longrightarrow> s = CLOSED"
  by (cases s; simp)+

interpretation cb: breaker allows_request record_success record_failure breaker_ok
  consecutive_failures failure_threshold cooldown_seconds
  by unfold_locales
    (auto simp: breaker_ok_def breaker_defs intro: CircuitState_remaining split: if_splits)

lemma new_breaker_ok: "breaker_ok (new_breaker n k c)"
  by (simp add: breaker_ok_def new_breaker_def)

lemma reset_breaker_ok: "breaker_ok b \<Longrightarrow> breaker_ok (reset_breaker b)"
  by (simp add: breaker_ok_def reset_breaker_def)

text \<open>
  A burst of failures that brings the number of consecutive failures to the threshold
  closes the backend to traffic for the whole cooldown after the last of them, and the first
  request at or after the end of the cooldown is let through as a probe.
\<close>

theorem breaker_trips_for_cooldown:
  assumes "breaker_ok b" "ts \<noteq> []"
    and "failure_threshold b \<le> consecutive_failures b + int (length ts)"
  shows "fst (allows_request t (fold record_failure ts b)) \<longleftrightarrow> last ts + cooldown_seconds b \<le> t"
  using cb.burst_blocks [OF assms, of t] cb.burst_cools [OF assms(2), of b t]
  by (meson not_le)

theorem breaker_trips_for_cooldown_witness:
  "\<not> fst (allows_request 70 (fold record_failure [10, 11, 12] (new_breaker ''git'' 3 60)))"
  using breaker_trips_for_cooldown [OF new_breaker_ok [of "''git''" 3 60], of "[10, 11, 12]" 70]
  by (simp add: new_breaker_def)

section \<open>History specification\<close>

datatype breaker_event = Success rat | Failure rat | Reset | Query rat

fun breaker_step :: "breaker_event \<Rightarrow> CircuitBreaker \<Rightarrow> CircuitBreaker" where
  "breaker_step (Success t) b = record_success t b"
| "breaker_step (Failure t) b = record_failure t b"
| "breaker_step Reset b = reset_breaker b"
| "breaker_step (Query t) b = snd (allows_request t b)"

fun event_time :: "breaker_event \<Rightarrow> rat option" where
  "event_time (Success t) = Some t"
| "event_time (Failure t) = Some t"
| "event_time Reset = None"
| "event_time (Query t) = Some t"

text \<open>The clock never goes back.\<close>

definition monotone_history :: "breaker_event list \<Rightarrow> bool" where
  "monotone_history es \<longleftrightarrow> sorted (List.map_filter event_time es)"

text \<open>What the history says, without any state machine.\<close>

fun spec_failures :: "breaker_event list \<Rightarrow> int \<Rightarrow> int" where
  "spec_failures [] k = k"
| "spec_failures (Success t # es) k = spec_failures es 0"
| "spec_failures (Reset # es) k = spec_failures es 0"
| "spec_failures (Failure t # es) k = spec_failures es (k + 1)"
| "spec_failures (Query t # es) k = spec_failures es k"

fun spec_last_failure :: "breaker_event list \<Rightarrow> rat \<Rightarrow> rat" where
  "spec_last_failure [] l = l"
| "spec_last_failure (Failure t # es) l = spec_last_failure es t"
| "spec_last_failure (_ # es) l = spec_last_failure es l"

lemma breaker_step_keep [simp]:
  "failure_threshold (breaker_step e b) = failure_threshold b"
  "cooldown_seconds (breaker_step e b) = cooldown_seconds b"
  by (cases e; simp add: breaker_defs)+

lemma spec_failures_run:
  "consecutive_failures (fold breaker_step es b) = spec_failures es (consecutive_failures b)"
proof (induction es arbitrary: b)
  case (Cons e es)
  then show ?case by (cases e) (simp_all add: breaker_defs)
qed simp

lemma spec_last_failure_run:
  "last_failure_time (fold breaker_step es b) = spec_last_failure es (last_failure_time b)"
proof (induction es arbitrary: b)
  case (Cons e es)
  then show ?case by (cases e) (simp_all add: breaker_defs)
qed simp

text \<open>The state the breaker is in agrees with its counters at time \<open>t\<close> and later.\<close>

definition agrees_at :: "rat \<Rightarrow> CircuitBreaker \<Rightarrow> bool" where
  "agrees_at t b \<longleftrightarrow> (cb_state b = CLOSED \<longleftrightarrow> consecutive_failures b < failure_threshold b) \<and>
     (cb_state b = HALF_OPEN \<longrightarrow> cooldown_seconds b \<le> t - last_failure_time b)"

lemma agrees_later: "agrees_at t b \<Longrightarrow> t \<le> t' \<Longrightarrow> agrees_at t' b"
  by (auto simp: agrees_at_def)

lemma agrees_step:
  assumes "agrees_at t b" "0 < failure_threshold b" "\<forall>t'. event_time e = Some t' \<longrightarrow> t \<le> t'"
  shows "agrees_at (case event_time e of None \<Rightarrow> t | Some t' \<Rightarrow> t') (breaker_step e b)"
  using assms by (cases e; cases "cb_state b") (auto simp: agrees_at_def breaker_defs)

lemma agrees_run:
  assumes "agrees_at t b" "0 < failure_threshold b" "monotone_history es"
    "\<forall>t' \<in> set (List.map_filter event_time es). t \<le> t'" "t \<le> u"
    "\<forall>t' \<in> set (List.map_filter event_time es). t' \<le> u"
  shows "agrees_at u (fold breaker_step es b)"
  using assms
proof (induction es arbitrary: t b)
  case Nil
  then show ?case by (auto intro: agrees_later)
next
  case (Cons e es)
  let ?t = "case event_time e of None \<Rightarrow> t | Some t' \<Rightarrow> t'"
  have "agrees_at ?t (breaker_step e b)"
    using Cons.prems by (intro agrees_step) (auto simp: List.map_filter_simps)
  then have "agrees_at u (fold breaker_step es (breaker_step e b))"
    using Cons.prems
    by (intro Cons.IH [of ?t])
      (auto simp: monotone_history_def List.map_filter_simps split: option.splits)
  then show ?case by simp
qed

text \<open>
  C7: The breaker refines its history specification. After any sequence of successes,
  failures, resets and queries at non-decreasing times, a request at a later time \<open>t\<close> is
  admitted exactly when fewer than \<open>threshold\<close> failures were recorded since the last success
  or reset, or at least \<open>cooldown\<close> seconds have passed since the last failure: the three-state
  machine adds nothing else.
\<close>

theorem breaker_refines_history:
  assumes "0 < k" "monotone_history (es @ [Query t])" "\<forall>t' \<in> set (List.map_filter event_time es). 0 \<le> t'" "0 \<le> t"
  shows "fst (allows_request t (fold breaker_step es (new_breaker n k c))) \<longleftrightarrow>
    spec_failures es 0 < k \<or> c \<le> t - spec_last_failure es 0"
proof -
  let ?b = "fold breaker_step es (new_breaker n k c)"
  have mono: "monotone_history es" "\<forall>t' \<in> set (List.map_filter event_time es). t' \<le> t"
    using assms(2) by (auto simp: monotone_history_def List.map_filter_def sorted_append)
  have "agrees_at t ?b"
    by (rule agrees_run [of 0]) (use assms mono in \<open>auto simp: agrees_at_def new_breaker_def\<close>)
  moreover have "failure_threshold ?b = k" "cooldown_seconds ?b = c"
    by (induction es rule: rev_induct) (simp_all add: new_breaker_def)
  moreover have "consecutive_failures ?b = spec_failures es 0"
    "last_failure_time ?b = spec_last_failure es 0"
    by (simp_all add: spec_failures_run spec_last_failure_run new_breaker_def)
  ultimately show ?thesis
    by (cases "cb_state ?b") (auto simp: agrees_at_def breaker_defs)
qed

theorem breaker_refines_history_witness:
  "fst (allows_request 75 (fold breaker_step
     [Failure 1, Success 2, Failure 10, Failure 11, Query 11, Failure 12] (new_breaker ''git'' 3 60))) \<and>
   \<not> fst (allows_request 71 (fold breaker_step
     [Failure 1, Success 2, Failure 10, Failure 11, Query 11, Failure 12] (new_breaker ''git'' 3 60)))"
  using breaker_refines_history
      [of 3 "[Failure 1, Success 2, Failure 10, Failure 11, Query 11, Failure 12]" 75 "''git''" 60]
    breaker_refines_history
      [of 3 "[Failure 1, Success 2, Failure 10, Failure 11, Query 11, Failure 12]" 71 "''git''" 60]
  by (simp add: monotone_history_def List.map_filter_simps)

end
