(* ===== verification/Backend_Lifecycle.thy ===== *)
theory Backend_Lifecycle
  imports Argus_Prelude
begin

text \<open>
  \<open>runtime/models.py\<close>: the lifecycle tables of the service and of a backend, and the status
  record of a backend with its phase, error and condition log. The locale \<open>lifecycle\<close> is what
  the two transition tables have in common: a final state nothing leaves and from every state
  a way to it.
\<close>

section \<open>The two state types\<close>

datatype ServiceState = SvcPENDING | SvcSTARTING | SvcRUNNING | SvcSTOPPING | SvcSTOPPED | SvcERROR

datatype BackendPhase = PENDING | INITIALIZING | RETRYING | READY | DEGRADED | FAILED | SHUTTING_DOWN

instantiation ServiceState :: enum
begin

definition "enum_ServiceState =
  [SvcPENDING, SvcSTARTING, SvcRUNNING, SvcSTOPPING, SvcSTOPPED, SvcERROR]"

definition "enum_all_ServiceState P \<longleftrightarrow>
  P SvcPENDING \<and> P SvcSTARTING \<and> P SvcRUNNING \<and> P SvcSTOPPING \<and> P SvcSTOPPED \<and> P SvcERROR"

definition "enum_ex_ServiceState P \<longleftrightarrow>
  P SvcPENDING \<or> P SvcSTARTING \<or> P SvcRUNNING \<or> P SvcSTOPPING \<or> P SvcSTOPPED \<or> P SvcERROR"

instance
proof
  show univ: "(UNIV :: ServiceState set) = set enum_class.enum"
    by (auto simp: enum_ServiceState_def intro: ServiceState.exhaust)
  show "distinct (enum_class.enum :: ServiceState list)"
    by (simp add: enum_ServiceState_def)
  show "enum_class.enum_all P \<longleftrightarrow> Ball UNIV P" for P :: "ServiceState \<Rightarrow> bool"
    by (simp add: univ enum_ServiceState_def enum_all_ServiceState_def)
  show "enum_class.enum_ex P \<longleftrightarrow> Bex UNIV P" for P :: "ServiceState \<Rightarrow> bool"
    by (simp add: univ enum_ServiceState_def enum_ex_ServiceState_def)
qed

end

instantiation BackendPhase :: enum
begin

definition "enum_BackendPhase =
  [PENDING, INITIALIZING, RETRYING, READY, DEGRADED, FAILED, SHUTTING_DOWN]"

definition "enum_all_BackendPhase P \<longleftrightarrow>
  P PENDING \<and> P INITIALIZING \<and> P RETRYING \<and> P READY \<and> P DEGRADED \<and> P FAILED \<and> P SHUTTING_DOWN"

definition "enum_ex_BackendPhase P \<longleftrightarrow>
  P PENDING \<or> P INITIALIZING \<or> P RETRYING \<or> P READY \<or> P DEGRADED \<or> P FAILED \<or> P SHUTTING_DOWN"

instance
proof
  show univ: "(UNIV :: BackendPhase set) = set enum_class.enum"
    by (auto simp: enum_BackendPhase_def intro: BackendPhase.exhaust)
  show "distinct (enum_class.enum :: BackendPhase list)"
    by (simp add: enum_BackendPhase_def)
  show "enum_class.enum_all P \<longleftrightarrow> Ball UNIV P" for P :: "BackendPhase \<Rightarrow> bool"
    by (simp add: univ enum_BackendPhase_def enum_all_BackendPhase_def)
  show "enum_class.enum_ex P \<longleftrightarrow> Bex UNIV P" for P :: "BackendPhase \<Rightarrow> bool"
    by (simp add: univ enum_BackendPhase_def enum_ex_BackendPhase_def)
qed

end

section \<open>Transition tables\<close>

fun VALID_TRANSITIONS :: "ServiceState \<Rightarrow> ServiceState list" where
  "VALID_TRANSITIONS SvcPENDING = [SvcSTARTING]"
| "VALID_TRANSITIONS SvcSTARTING = [SvcRUNNING, SvcERROR]"
| "VALID_TRANSITIONS SvcRUNNING = [SvcSTOPPING]"
| "VALID_TRANSITIONS SvcSTOPPING = [SvcSTOPPED, SvcERROR]"
| "VALID_TRANSITIONS SvcSTOPPED = []"
| "VALID_TRANSITIONS SvcERROR = [SvcSTARTING, SvcSTOPPING]"

definition is_valid_transition :: "ServiceState \<Rightarrow> ServiceState \<Rightarrow> bool" where
  "is_valid_transition current target \<longleftrightarrow> target \<in> set (VALID_TRANSITIONS current)"

fun BACKEND_TRANSITIONS :: "BackendPhase \<Rightarrow> BackendPhase list" where
  "BACKEND_TRANSITIONS PENDING = [INITIALIZING]"
| "BACKEND_TRANSITIONS INITIALIZING = [READY, FAILED]"
| "BACKEND_TRANSITIONS RETRYING = [INITIALIZING, FAILED]"
| "BACKEND_TRANSITIONS READY = [DEGRADED, FAILED, SHUTTING_DOWN]"
| "BACKEND_TRANSITIONS DEGRADED = [READY, FAILED, SHUTTING_DOWN]"
| "BACKEND_TRANSITIONS FAILED = [INITIALIZING, RETRYING, SHUTTING_DOWN]"
| "BACKEND_TRANSITIONS SHUTTING_DOWN = []"

definition is_valid_backend_transition :: "BackendPhase \<Rightarrow> BackendPhase \<Rightarrow> bool" where
  "is_valid_backend_transition current target \<longleftrightarrow> target \<in> set (BACKEND_TRANSITIONS current)"

fun phase_value :: "BackendPhase \<Rightarrow> string" where
  "phase_value PENDING = ''pending''"
| "phase_value INITIALIZING = ''initializing''"
| "phase_value RETRYING = ''retrying''"
| "phase_value READY = ''ready''"
| "phase_value DEGRADED = ''degraded''"
| "phase_value FAILED = ''failed''"
| "phase_value SHUTTING_DOWN = ''shutting_down''"

section \<open>The status record of a backend\<close>

record BackendCondition =
  cond_timestamp :: rat
  cond_type :: string
  cond_status :: string
  cond_message :: string

record BackendStatusRecord =
  rec_name :: string
  phase :: BackendPhase
  tool_count :: int
  resource_count :: int
  prompt_count :: int
  rec_latency_ms :: "rat option"
  rec_error :: "string option"
  conditions :: "BackendCondition list"

definition new_status_record :: "string \<Rightarrow> BackendStatusRecord" where
  "new_status_record n =
     \<lparr>rec_name = n, phase = PENDING, tool_count = 0, resource_count = 0, prompt_count = 0,
      rec_latency_ms = None, rec_error = None, conditions = []\<rparr>"

definition phase_status :: "BackendPhase \<Rightarrow> string" where
  "phase_status p =
     (if p \<in> {READY} then ''OK''
      else if p \<in> {DEGRADED, INITIALIZING, SHUTTING_DOWN} then ''Warning''
      else ''Error'')"

definition transition ::
    "rat \<Rightarrow> BackendPhase \<Rightarrow> string \<Rightarrow> BackendStatusRecord \<Rightarrow> BackendStatusRecord res" where
  "transition now new_phase message r =
     (if \<not> is_valid_backend_transition (phase r) new_phase
      then Inl (ValueError (''Invalid backend transition: '' @ phase_value (phase r) @ '' -> '' @
                            phase_value new_phase))
      else let r1 = r\<lparr>phase := new_phase,
                      conditions := conditions r @
                        [\<lparr>cond_timestamp = now, cond_type = phase_value new_phase,
                          cond_status = phase_status new_phase, cond_message = message\<rparr>]\<rparr>
           in Inr (if new_phase = FAILED \<and> message \<noteq> [] then r1\<lparr>rec_error := Some message\<rparr>
                   else if new_phase = READY then r1\<lparr>rec_error := None\<rparr>
                   else r1))"

definition add_condition ::
    "rat \<Rightarrow> string \<Rightarrow> string \<Rightarrow> string \<Rightarrow> BackendStatusRecord \<Rightarrow> BackendStatusRecord" where
  "add_condition now ctype status message r =
     r\<lparr>conditions := conditions r @
        [\<lparr>cond_timestamp = now, cond_type = ctype, cond_status = status, cond_message = message\<rparr>]\<rparr>"

definition is_operational :: "BackendStatusRecord \<Rightarrow> bool" where
  "is_operational r \<longleftrightarrow> phase r \<in> {READY, DEGRADED}"

definition recent_conditions :: "BackendStatusRecord \<Rightarrow> BackendCondition list" where
  "recent_conditions r = rev (drop (length (conditions r) - 10) (conditions r))"

section \<open>What the two tables have in common\<close>

locale lifecycle =
  fixes valid :: "'s \<Rightarrow> 's \<Rightarrow> bool"
    and final :: 's
    and toward :: "'s \<Rightarrow> 's"
    and dist :: "'s \<Rightarrow> nat"
  assumes final_stuck: "\<not> valid final s"
    and toward_valid: "s \<noteq> final \<Longrightarrow> valid s (toward s)"
    and toward_closer: "s \<noteq> final \<Longrightarrow> dist (toward s) < dist s"
begin

lemma final_only_last: "successively valid ss \<Longrightarrow> final \<notin> set (butlast ss)"
  by (induction ss rule: induct_list012) (auto simp: final_stuck)

lemma final_reachable: "\<exists>ss. successively valid (s # ss) \<and> last (s # ss) = final"
proof (induction "dist s" arbitrary: s rule: less_induct)
  case less
  show ?case
  proof (cases "s = final")
    case True
    then show ?thesis by (intro exI [of _ "[]"]) simp
  next
    case False
    with less toward_closer obtain ss where
      "successively valid (toward s # ss)" "last (toward s # ss) = final" by blast
    with False toward_valid show ?thesis
      by (intro exI [of _ "toward s # ss"]) simp
  qed
qed

end

fun service_toward :: "ServiceState \<Rightarrow> ServiceState" where
  "service_toward SvcPENDING = SvcSTARTING"
| "service_toward SvcSTARTING = SvcRUNNING"
| "service_toward SvcRUNNING = SvcSTOPPING"
| "service_toward SvcSTOPPING = SvcSTOPPED"
| "service_toward SvcSTOPPED = SvcSTOPPED"
| "service_toward SvcERROR = SvcSTOPPING"

fun service_dist :: "ServiceState \<Rightarrow> nat" where
  "service_dist SvcPENDING = 4"
| "service_dist SvcSTARTING = 3"
| "service_dist SvcRUNNING = 2"
| "service_dist SvcSTOPPING = 1"
| "service_dist SvcSTOPPED = 0"
| "service_dist SvcERROR = 2"

interpretation service: lifecycle is_valid_transition SvcSTOPPED service_toward service_dist
proof
  fix s
  show "\<not> is_valid_transition SvcSTOPPED s" by (simp add: is_valid_transition_def)
  assume "s \<noteq> SvcSTOPPED"
  then show "is_valid_transition s (service_toward s)" "service_dist (service_toward s) < service_dist s"
    by (cases s; simp add: is_valid_transition_def)+
qed

fun phase_toward :: "BackendPhase \<Rightarrow> BackendPhase" where
  "phase_toward PENDING = INITIALIZING"
| "phase_toward INITIALIZING = READY"
| "phase_toward RETRYING = INITIALIZING"
| "phase_toward _ = SHUTTING_DOWN"

fun phase_dist :: "BackendPhase \<Rightarrow> nat" where
  "phase_dist PENDING = 3"
| "phase_dist RETRYING = 3"
| "phase_dist INITIALIZING = 2"
| "phase_dist SHUTTING_DOWN = 0"
| "phase_dist _ = 1"

interpretation backend: lifecycle is_valid_backend_transition SHUTTING_DOWN phase_toward phase_dist
proof
  fix s
  show "\<not> is_valid_backend_transition SHUTTING_DOWN s" by (simp add: is_valid_backend_transition_def)
  assume "s \<noteq> SHUTTING_DOWN"
  then show "is_valid_backend_transition s (phase_toward s)" "phase_dist (phase_toward s) < phase_dist s"
    by (cases s; simp add: is_valid_backend_transition_def)+
qed

section \<open>Histories of a status record\<close>

datatype rec_op = Transition rat BackendPhase string | AddCondition rat string string string

text \<open>A rejected transition raises and leaves the record as it was.\<close>

fun rec_step :: "rec_op \<Rightarrow> BackendStatusRecord \<Rightarrow> BackendStatusRecord" where
  "rec_step (Transition now p m) r = (case transition now p m r of Inl e \<Rightarrow> r | Inr r' \<Rightarrow> r')"
| "rec_step (AddCondition now t st m) r = add_condition now t st m r"

lemma transition_Inr:
  "transition now p m r = Inr r' \<longleftrightarrow> is_valid_backend_transition (phase r) p \<and>
     r' = r\<lparr>phase := p, conditions := conditions r @
         [\<lparr>cond_timestamp = now, cond_type = phase_value p, cond_status = phase_status p, cond_message = m\<rparr>],
       rec_error := (if p = FAILED \<and> m \<noteq> [] then Some m else if p = READY then None else rec_error r)\<rparr>"
  by (auto simp: transition_def Let_def)

lemma rec_step_phase:
  "phase (rec_step op r) = phase r \<or> is_valid_backend_transition (phase r) (phase (rec_step op r))"
  by (cases op) (auto simp: add_condition_def transition_Inr split: sum.split)

fun phases_of :: "BackendStatusRecord \<Rightarrow> rec_op list \<Rightarrow> BackendPhase list" where
  "phases_of r [] = [phase r]"
| "phases_of r (op # ops) =
     (if phase (rec_step op r) = phase r then phases_of (rec_step op r) ops
      else phase r # phases_of (rec_step op r) ops)"

lemma phases_of_hd: "\<exists>ps. phases_of r ops = phase r # ps"
proof (induction ops arbitrary: r)
  case (Cons op ops)
  show ?case
    using Cons [of "rec_step op r"] by auto
qed simp

lemma phases_of_valid: "successively is_valid_backend_transition (phases_of r ops)"
proof (induction ops arbitrary: r)
  case (Cons op ops)
  obtain ps where "phases_of (rec_step op r) ops = phase (rec_step op r) # ps"
    using phases_of_hd by blast
  with Cons [of "rec_step op r"] rec_step_phase [of op r] show ?case by auto
qed simp

lemma ready_no_error_step:
  assumes "phase r = READY \<longrightarrow> rec_error r = None"
  shows "phase (rec_step op r) = READY \<longrightarrow> rec_error (rec_step op r) = None"
  using assms by (cases op) (auto simp: add_condition_def transition_Inr split: sum.split)

lemma ready_no_error_run:
  "phase r = READY \<longrightarrow> rec_error r = None \<Longrightarrow>
   phase (fold rec_step ops r) = READY \<longrightarrow> rec_error (fold rec_step ops r) = None"
  by (induction ops arbitrary: r) (simp_all add: ready_no_error_step)

text \<open>
  Whatever sequence of transitions and conditions is applied to a fresh status record,
  the phases it goes through form a path of the transition table, shutting down is only ever
  its last phase, a ready backend shows no error, and shutdown stays reachable from the phase
  it is in.
\<close>

theorem status_record_lifecycle:
  fixes ops n
  defines "r \<equiv> fold rec_step ops (new_status_record n)"
  shows "successively is_valid_backend_transition (phases_of (new_status_record n) ops) \<and>
    SHUTTING_DOWN \<notin> set (butlast (phases_of (new_status_record n) ops)) \<and>
    (phase r = READY \<longrightarrow> rec_error r = None) \<and>
    (\<exists>ps. successively is_valid_backend_transition (phase r # ps) \<and> last (phase r # ps) = SHUTTING_DOWN)"
proof (intro conjI)
  show v: "successively is_valid_backend_transition (phases_of (new_status_record n) ops)"
    by (rule phases_of_valid)
  from v show "SHUTTING_DOWN \<notin> set (butlast (phases_of (new_status_record n) ops))"
    by (rule backend.final_only_last)
  show "phase r = READY \<longrightarrow> rec_error r = None"
    unfolding r_def by (rule ready_no_error_run) (simp add: new_status_record_def)
  show "\<exists>ps. successively is_valid_backend_transition (phase r # ps) \<and> last (phase r # ps) = SHUTTING_DOWN"
    by (rule backend.final_reachable)
qed

theorem status_record_lifecycle_witness:
  "phase (fold rec_step [Transition 1 INITIALIZING [], Transition 2 READY []] (new_status_record ''git'')) = READY \<and>
   rec_error (fold rec_step [Transition 1 INITIALIZING [], Transition 2 READY []] (new_status_record ''git'')) = None"
proof -
  have p: "phase (fold rec_step [Transition 1 INITIALIZING [], Transition 2 READY []]
      (new_status_record ''git'')) = READY"
    by (simp add: transition_def new_status_record_def is_valid_backend_transition_def Let_def)
  with status_record_lifecycle [of "''git''" "[Transition 1 INITIALIZING [], Transition 2 READY []]"]
  show ?thesis by blast
qed

end
