(* ===== verification/Conflict.thy ===== *)
theory Conflict
  imports Argus_Prelude
begin

text \<open>
  \<open>bridge/conflict.py\<close>: what happens when two backends expose the same capability name.
  The abstract class \<open>ConflictStrategy\<close> with its four subclasses is a datatype with one
  constructor per subclass, carrying the subclass's fields; the two abstract methods are
  functions that dispatch on it. The locale \<open>keeping_strategy\<close> is the contract of the
  strategies that never evict a registered capability.
\<close>

section \<open>Definitions\<close>

datatype ConflictAction = SKIP | REPLACE | ERROR | RENAME string

datatype ConflictStrategy =
    FirstWinsStrategy
  | PrefixStrategy string
  | PriorityStrategy "string list" string
  | ErrorStrategy

text \<open>\<open>{name: idx for idx, name in enumerate(order)}\<close>: a later duplicate overwrites.\<close>

definition priority_table :: "string list \<Rightarrow> (string, nat) dict" where
  "priority_table order =
     fold (\<lambda>(idx, name). dict_set name idx) (enumerate 0 order) []"

definition get_priority :: "string list \<Rightarrow> string \<Rightarrow> nat" where
  "get_priority order server_name =
     dict_get_or (length order) (priority_table order) server_name"

fun transform_name :: "ConflictStrategy \<Rightarrow> string \<Rightarrow> string \<Rightarrow> string" where
  "transform_name FirstWinsStrategy server_name original_name = original_name"
| "transform_name (PrefixStrategy separator) server_name original_name =
     server_name @ separator @ original_name"
| "transform_name (PriorityStrategy order separator) server_name original_name = original_name"
| "transform_name ErrorStrategy server_name original_name = original_name"

fun handle_conflict ::
    "ConflictStrategy \<Rightarrow> string \<Rightarrow> string \<Rightarrow> string \<Rightarrow> ConflictAction res" where
  "handle_conflict FirstWinsStrategy exposed_name existing_server new_server = Inr SKIP"
| "handle_conflict (PrefixStrategy separator) exposed_name existing_server new_server = Inr SKIP"
| "handle_conflict (PriorityStrategy order separator) exposed_name existing_server new_server =
     (if get_priority order new_server < get_priority order existing_server then Inr REPLACE
      else Inr (RENAME (new_server @ separator @ exposed_name)))"
| "handle_conflict ErrorStrategy exposed_name existing_server new_server =
     Inl (CapabilityConflictError exposed_name existing_server new_server)"

definition VALID_STRATEGIES :: "string list" where
  "VALID_STRATEGIES = [''first-wins'', ''prefix'', ''priority'', ''error'']"

definition create_strategy ::
    "string \<Rightarrow> string \<Rightarrow> string list option \<Rightarrow> ConflictStrategy res" where
  "create_strategy strategy separator priority_order =
     (if strategy \<notin> set VALID_STRATEGIES then Inl (ValueError ''Unknown conflict strategy'')
      else if strategy = ''first-wins'' then Inr FirstWinsStrategy
      else if strategy = ''prefix'' then Inr (PrefixStrategy separator)
      else if strategy = ''priority'' then
        (case priority_order of
           None \<Rightarrow> Inl (ValueError ''Priority strategy requires a non-empty 'order' list.'')
         | Some order \<Rightarrow>
             (if order = [] then
                Inl (ValueError ''Priority strategy requires a non-empty 'order' list.'')
              else Inr (PriorityStrategy order separator)))
      else if strategy = ''error'' then Inr ErrorStrategy
      else Inr FirstWinsStrategy)"

section \<open>The contract of the strategies that keep what is registered\<close>

locale keeping_strategy =
  fixes st :: ConflictStrategy
  assumes no_replace: "handle_conflict st exposed existing new \<noteq> Inr REPLACE"

interpretation first_wins: keeping_strategy FirstWinsStrategy
  by unfold_locales simp

interpretation prefix: keeping_strategy "PrefixStrategy sep" for sep
  by unfold_locales simp

interpretation error_st: keeping_strategy ErrorStrategy
  by unfold_locales simp

section \<open>Priorities\<close>

lemma priority_table_notin:
  "n \<notin> set order \<Longrightarrow> dict_get (fold (\<lambda>(idx, name). dict_set name idx) (enumerate i order) d) n = dict_get d n"
  by (induction order arbitrary: i d) auto

lemma priority_table_bound:
  "n \<in> set order \<Longrightarrow>
    \<exists>j < length order. order ! j = n \<and> dict_get (fold (\<lambda>(idx, name). dict_set name idx) (enumerate i order) d) n = Some (i + j)"
proof (induction order arbitrary: i d)
  case (Cons x order)
  show ?case
  proof (cases "n \<in> set order")
    case True
    from Cons.IH [OF this, of "Suc i" "dict_set x i d"] obtain j where
      "j < length order" "order ! j = n"
      "dict_get (fold (\<lambda>(idx, name). dict_set name idx) (enumerate (Suc i) order) (dict_set x i d)) n
        = Some (Suc i + j)" by blast
    then show ?thesis by (intro exI [of _ "Suc j"]) simp
  next
    case False
    with Cons.prems show ?thesis
      by (auto simp: priority_table_notin intro!: exI [of _ 0])
  qed
qed simp

lemma get_priority_listed:
  assumes "n \<in> set order"
  shows "get_priority order n < length order \<and> order ! get_priority order n = n"
  using priority_table_bound [OF assms, of 0 "[]"]
  by (auto simp: get_priority_def priority_table_def dict_get_or_def)

lemma get_priority_unlisted: "n \<notin> set order \<Longrightarrow> get_priority order n = length order"
  by (simp add: get_priority_def priority_table_def dict_get_or_def priority_table_notin)

lemma get_priority_le: "get_priority order n \<le> length order"
  by (cases "n \<in> set order") (auto simp: get_priority_unlisted dest: get_priority_listed)

lemma get_priority_inj:
  "a \<in> set order \<Longrightarrow> get_priority order a = get_priority order b \<Longrightarrow> a = b"
  by (metis get_priority_listed get_priority_unlisted less_irrefl)

lemma handle_conflict_priority_asym:
  "handle_conflict (PriorityStrategy order sep) n a b = Inr REPLACE \<Longrightarrow>
   handle_conflict (PriorityStrategy order sep) n b a = Inr (RENAME (a @ sep @ n))"
  by (auto split: if_splits)

section \<open>Prefixed names\<close>

text \<open>Server names without the separator character make prefixed names unambiguous.\<close>

lemma prefix_split_unique:
  assumes "s1 @ c # n1 = s2 @ c # n2" "c \<notin> set s1" "c \<notin> set s2"
  shows "s1 = s2 \<and> n1 = n2"
  using assms
proof (induction s1 arbitrary: s2)
  case Nil
  then show ?case by (cases s2) auto
next
  case (Cons x s1)
  then show ?case by (cases s2) auto
qed

lemma prefix_transform_inj:
  assumes "transform_name (PrefixStrategy [c]) s1 n1 = transform_name (PrefixStrategy [c]) s2 n2"
    and "c \<notin> set s1" "c \<notin> set s2"
  shows "s1 = s2 \<and> n1 = n2"
  using prefix_split_unique [of s1 c n1 s2 n2] assms by simp

end
