(* ===== verification/Glob.thy ===== *)
theory Glob
  imports Argus_Prelude
begin

text \<open>
  Python's \<open>fnmatch.fnmatch(name, pat)\<close> on POSIX, as the capability filters and the
  authorization policies call it: \<open>*\<close>, \<open>?\<close>, \<open>[seq]\<close>, \<open>[!seq]\<close>, ranges, an unclosed
  bracket as a literal, an inverted range as an empty one. A pattern is parsed to tokens
  and the tokens are matched against the whole name. \<open>glob_lang\<close> is the declarative
  reading: a token list matches the concatenations of what its tokens match.
\<close>

section \<open>Definitions\<close>

datatype gtok = GStar | GAny | GLit char | GCls bool "(char \<times> char) list"

text \<open>The members of a bracket expression: \<open>a-b\<close> is a range, any other character is itself.\<close>

fun cls_items :: "string \<Rightarrow> (char \<times> char) list" where
  "cls_items (a # b # c # cs) =
     (if b = CHR ''-'' then (a, c) # cls_items cs else (a, a) # cls_items (b # c # cs))"
| "cls_items [a, b] = [(a, a), (b, b)]"
| "cls_items [a] = [(a, a)]"
| "cls_items [] = []"

fun upto_close :: "string \<Rightarrow> (string \<times> string) option" where
  "upto_close [] = None"
| "upto_close (c # cs) =
     (if c = CHR '']'' then Some ([], cs)
      else map_option (\<lambda>(s, r). (c # s, r)) (upto_close cs))"

text \<open>
  What follows an opening bracket: whether the class is negated, its members, and the rest
  of the pattern; \<open>None\<close> when the bracket is never closed. A \<open>]\<close> in first position is a
  member.
\<close>

definition close_bracket :: "string \<Rightarrow> (bool \<times> string \<times> string) option" where
  "close_bracket cs =
     (let neg = (case cs of [] \<Rightarrow> False | c # _ \<Rightarrow> c = CHR 0x21);
          cs1 = (if neg then tl cs else cs)
      in case cs1 of
           [] \<Rightarrow> None
         | c # r \<Rightarrow> map_option (\<lambda>(s, r'). (neg, c # s, r')) (upto_close r))"

lemma upto_close_length: "upto_close cs = Some (s, r) \<Longrightarrow> length r < length cs"
  by (induction cs arbitrary: s r) (fastforce split: if_splits)+

lemma close_bracket_length: "close_bracket cs = Some (neg, s, r) \<Longrightarrow> length r < length cs"
  by (auto simp: close_bracket_def Let_def split: list.splits if_splits
      dest!: upto_close_length)

function glob_parse :: "string \<Rightarrow> gtok list" where
  "glob_parse [] = []"
| "glob_parse (c # cs) =
     (if c = CHR ''*'' then GStar # glob_parse cs
      else if c = CHR ''?'' then GAny # glob_parse cs
      else if c = CHR ''['' then
        (case close_bracket cs of
           None \<Rightarrow> GLit c # glob_parse cs
         | Some (neg, s, r) \<Rightarrow> GCls neg (cls_items s) # glob_parse r)
      else GLit c # glob_parse cs)"
  by pat_completeness auto
termination
  by (relation "measure length") (auto dest: close_bracket_length less_SucI)

definition in_range :: "char \<Rightarrow> char \<times> char \<Rightarrow> bool" where
  "in_range c p \<longleftrightarrow> (of_char (fst p) :: nat) \<le> of_char c \<and> (of_char c :: nat) \<le> of_char (snd p)"

fun tok_ok :: "gtok \<Rightarrow> char \<Rightarrow> bool" where
  "tok_ok GStar c = True"
| "tok_ok GAny c = True"
| "tok_ok (GLit d) c = (c = d)"
| "tok_ok (GCls neg items) c = ((\<exists>p \<in> set items. in_range c p) \<noteq> neg)"

fun glob_match :: "gtok list \<Rightarrow> string \<Rightarrow> bool" where
  "glob_match [] s = (s = [])"
| "glob_match (GStar # ts) [] = glob_match ts []"
| "glob_match (GStar # ts) (c # s) = (glob_match ts (c # s) \<or> glob_match (GStar # ts) s)"
| "glob_match (t # ts) [] = False"
| "glob_match (t # ts) (c # s) = (tok_ok t c \<and> glob_match ts s)"

definition fnmatch :: "string \<Rightarrow> string \<Rightarrow> bool" where
  "fnmatch name pat = glob_match (glob_parse pat) name"

section \<open>The declarative reading\<close>

fun tok_lang :: "gtok \<Rightarrow> string set" where
  "tok_lang GStar = UNIV"
| "tok_lang t = {[c] |c. tok_ok t c}"

fun glob_lang :: "gtok list \<Rightarrow> string set" where
  "glob_lang [] = {[]}"
| "glob_lang (t # ts) = {u @ v |u v. u \<in> tok_lang t \<and> v \<in> glob_lang ts}"

lemma glob_match_star: "glob_match (GStar # ts) s \<longleftrightarrow> (\<exists>u v. s = u @ v \<and> glob_match ts v)"
proof (induction s)
  case (Cons c s)
  have "(\<exists>u v. c # s = u @ v \<and> glob_match ts v) \<longleftrightarrow>
      glob_match ts (c # s) \<or> (\<exists>u v. s = u @ v \<and> glob_match ts v)"
    by (auto simp: Cons_eq_append_conv)
  with Cons show ?case by simp
qed simp

lemma glob_match_single:
  "t \<noteq> GStar \<Longrightarrow> glob_match (t # ts) s \<longleftrightarrow> (\<exists>c v. s = c # v \<and> tok_ok t c \<and> glob_match ts v)"
  by (cases s; cases t) auto

lemma glob_match_lang: "glob_match ts s \<longleftrightarrow> s \<in> glob_lang ts"
proof (induction ts arbitrary: s)
  case (Cons t ts)
  show ?case
  proof (cases "t = GStar")
    case True
    with Cons show ?thesis by (auto simp: glob_match_star)
  next
    case False
    then have "tok_lang t = {[c] |c. tok_ok t c}" by (cases t) simp_all
    with False Cons show ?thesis
      by (auto simp: glob_match_single) (metis append_Cons append_Nil)
  qed
qed simp

lemma glob_lang_append: "glob_lang (ts @ us) = {u @ v |u v. u \<in> glob_lang ts \<and> v \<in> glob_lang us}"
proof (induction ts)
  case (Cons t ts)
  then show ?case
    by (auto, (metis append_assoc)+)
qed simp

section \<open>Patterns as the configuration files write them\<close>

definition plain_char :: "char \<Rightarrow> bool" where
  "plain_char c \<longleftrightarrow> c \<noteq> CHR ''*'' \<and> c \<noteq> CHR ''?'' \<and> c \<noteq> CHR ''[''"

lemma glob_parse_plain_append:
  "\<forall>c \<in> set p. plain_char c \<Longrightarrow> glob_parse (p @ q) = map GLit p @ glob_parse q"
  by (induction p) (auto simp: plain_char_def)

lemma glob_lang_lits: "glob_lang (map GLit p) = {p}"
  by (induction p) auto

lemma fnmatch_star [simp]: "fnmatch name ''*''"
  by (simp add: fnmatch_def glob_match_lang)

lemma fnmatch_plain:
  assumes "\<forall>c \<in> set p. plain_char c"
  shows "fnmatch name p \<longleftrightarrow> name = p"
  using glob_parse_plain_append [OF assms, of "[]"]
  by (simp add: fnmatch_def glob_match_lang glob_lang_lits)

lemma fnmatch_prefix_star:
  assumes "\<forall>c \<in> set p. plain_char c"
  shows "fnmatch name (p @ ''*'') \<longleftrightarrow> (\<exists>rest. name = p @ rest)"
  using glob_parse_plain_append [OF assms, of "''*''"]
  by (simp add: fnmatch_def glob_match_lang glob_lang_append glob_lang_lits)

end
