(* ===== verification/Capability_Filter.thy ===== *)
theory Capability_Filter
  imports Glob
begin

text \<open>
  \<open>bridge/filter.py\<close> and \<open>bridge/rename.py\<close>: per-server allow/deny glob lists and per-server
  name and description overrides.
\<close>

section \<open>Filters\<close>

record CapabilityFilter =
  allow :: "string list"
  deny :: "string list"

text \<open>The pure-Python constructor: a missing list is the empty list.\<close>

definition build_filter :: "string list option \<Rightarrow> string list option \<Rightarrow> CapabilityFilter" where
  "build_filter al de =
     \<lparr>allow = (case al of None \<Rightarrow> [] | Some xs \<Rightarrow> xs),
      deny = (case de of None \<Rightarrow> [] | Some xs \<Rightarrow> xs)\<rparr>"

definition is_active :: "CapabilityFilter \<Rightarrow> bool" where
  "is_active f \<longleftrightarrow> allow f \<noteq> [] \<or> deny f \<noteq> []"

definition is_allowed :: "CapabilityFilter \<Rightarrow> string \<Rightarrow> bool" where
  "is_allowed f name =
     (if deny f \<noteq> [] \<and> (\<exists>pat \<in> set (deny f). fnmatch name pat) then False
      else if allow f \<noteq> [] then (\<exists>pat \<in> set (allow f). fnmatch name pat)
      else True)"

lemma is_allowed_iff:
  "is_allowed f name \<longleftrightarrow>
     (\<forall>pat \<in> set (deny f). \<not> fnmatch name pat) \<and>
     (allow f = [] \<or> (\<exists>pat \<in> set (allow f). fnmatch name pat))"
  by (auto simp: is_allowed_def)

lemma is_allowed_inactive: "\<not> is_active f \<Longrightarrow> is_allowed f name"
  by (simp add: is_active_def is_allowed_def)

lemma is_allowed_deny_mono:
  "is_allowed f name \<Longrightarrow> set (deny g) \<subseteq> set (deny f) \<Longrightarrow> allow g = allow f \<Longrightarrow> is_allowed g name"
  by (auto simp: is_allowed_iff)

section \<open>Renames\<close>

record override =
  ov_name :: "string option"
  ov_description :: "string option"

record RenameMap =
  overrides :: "(string, override) dict"
  forward :: "(string, string) dict"

fun forward_of :: "(string, override) dict \<Rightarrow> (string, string) dict \<Rightarrow> (string, string) dict" where
  "forward_of [] fwd = fwd"
| "forward_of ((orig, cfg) # rest) fwd =
     forward_of rest (case ov_name cfg of None \<Rightarrow> fwd | Some new_name \<Rightarrow> dict_set orig new_name fwd)"

definition build_rename_map :: "(string, override) dict option \<Rightarrow> RenameMap" where
  "build_rename_map ov =
     (let d = (case ov of None \<Rightarrow> [] | Some d \<Rightarrow> d)
      in \<lparr>overrides = d, forward = forward_of d []\<rparr>)"

definition get_new_name :: "RenameMap \<Rightarrow> string \<Rightarrow> string" where
  "get_new_name m original_name = dict_get_or original_name (forward m) original_name"

definition get_description_override :: "RenameMap \<Rightarrow> string \<Rightarrow> string option" where
  "get_description_override m original_name =
     (case dict_get (overrides m) original_name of None \<Rightarrow> None | Some cfg \<Rightarrow> ov_description cfg)"

definition has_override :: "RenameMap \<Rightarrow> string \<Rightarrow> bool" where
  "has_override m original_name \<longleftrightarrow> dict_get (overrides m) original_name \<noteq> None"

lemma forward_of_get:
  "dict_wf d \<Longrightarrow> dict_get (forward_of d fwd) n =
     (case Option.bind (dict_get d n) ov_name of None \<Rightarrow> dict_get fwd n | Some m \<Rightarrow> Some m)"
proof (induction d arbitrary: fwd)
  case (Cons p d)
  obtain orig cfg where p: "p = (orig, cfg)" by (cases p)
  with Cons.prems have "dict_get d orig = None" by (simp add: dict_get_None_iff)
  with Cons p show ?case by (auto split: option.splits)
qed simp

lemma get_new_name_build:
  assumes "dict_wf d"
  shows "get_new_name (build_rename_map (Some d)) n =
    (case dict_get d n of None \<Rightarrow> n
     | Some cfg \<Rightarrow> (case ov_name cfg of None \<Rightarrow> n | Some m \<Rightarrow> m))"
  by (auto simp: get_new_name_def build_rename_map_def dict_get_or_def Let_def
      forward_of_get [OF assms] split: option.splits)

end
