(* ===== verification/Capability_Registry.thy ===== *)
theory Capability_Registry
  imports Conflict Capability_Filter
begin

text \<open>
  \<open>bridge/capability_registry.py\<close>: discovery, filtering, renaming, conflict resolution and
  routing of the capabilities the backends expose.

  What a backend's \<open>list_tools\<close>, \<open>list_resources\<close> or \<open>list_prompts\<close> call does is an
  argument (\<open>list_result res\<close>): the exception it raised, or what it returned. Everything a
  discovery task does after that call has no suspension point, so a task is one step; the
  order in which the tasks of \<open>discover_and_register\<close> complete is an argument.
\<close>

section \<open>Data\<close>

datatype cap_type = Tools | Resources | Prompts

record cap =
  cap_name :: string
  cap_description :: "string option"

text \<open>An element of a returned list: an object of the expected MCP class or something else.\<close>

datatype raw_item = Item cap | Alien

text \<open>
  What the list method returned: an object whose attribute named after the capability type
  is a list, a bare list, \<open>None\<close>, or anything else.
\<close>

datatype list_result = WithAttr "raw_item list" | Bare "raw_item list" | ReturnedNone | Unparsable

type_synonym routes = "(string, string \<times> string) dict"

record registry =
  tools :: "cap list"
  resources :: "cap list"
  prompts :: "cap list"
  route_map :: routes
  strategy :: ConflictStrategy
  filters :: "(string, (cap_type, CapabilityFilter) dict) dict"
  rename_maps :: "(string, RenameMap) dict"

definition init_registry ::
    "ConflictStrategy option \<Rightarrow> (string, (cap_type, CapabilityFilter) dict) dict option \<Rightarrow>
     (string, RenameMap) dict option \<Rightarrow> registry" where
  "init_registry st fs rs =
     \<lparr>tools = [], resources = [], prompts = [], route_map = [],
      strategy = (case st of None \<Rightarrow> FirstWinsStrategy | Some s \<Rightarrow> s),
      filters = (case fs of None \<Rightarrow> [] | Some f \<Rightarrow> f),
      rename_maps = (case rs of None \<Rightarrow> [] | Some r \<Rightarrow> r)\<rparr>"

section \<open>Discovery of one capability type of one server\<close>

fun parse_list_result :: "list_result \<Rightarrow> raw_item list" where
  "parse_list_result (WithAttr items) = items"
| "parse_list_result (Bare items) = items"
| "parse_list_result ReturnedNone = []"
| "parse_list_result Unparsable = []"

definition svr_filter :: "registry \<Rightarrow> string \<Rightarrow> cap_type \<Rightarrow> CapabilityFilter option" where
  "svr_filter r svr ct = dict_get (dict_get_or [] (filters r) svr) ct"

definition passes_filter :: "registry \<Rightarrow> string \<Rightarrow> cap_type \<Rightarrow> string \<Rightarrow> bool" where
  "passes_filter r svr ct name =
     (case svr_filter r svr ct of None \<Rightarrow> True | Some f \<Rightarrow> is_allowed f name)"

definition apply_filter_and_rename ::
    "registry \<Rightarrow> string \<Rightarrow> cap_type \<Rightarrow> cap \<Rightarrow> (string \<times> cap) option" where
  "apply_filter_and_rename r svr ct item =
     (if \<not> passes_filter r svr ct (cap_name item) then None
      else Some (cap_name item,
        (case dict_get (rename_maps r) svr of
           None \<Rightarrow> item
         | Some m \<Rightarrow>
             (if ct = Tools then
                (let new_name = get_new_name m (cap_name item);
                     desc_override = get_description_override m (cap_name item);
                     item1 = (if new_name \<noteq> cap_name item then item\<lparr>cap_name := new_name\<rparr> else item)
                 in (case desc_override of None \<Rightarrow> item1
                     | Some d \<Rightarrow> item1\<lparr>cap_description := Some d\<rparr>))
              else item))))"

text \<open>
  Name collisions. The aggregated list is the one of the capability type under discovery; the
  route map is shared by the three types. The result is the exposed name or \<open>None\<close> to skip.
\<close>

definition resolve_conflict ::
    "ConflictStrategy \<Rightarrow> string \<Rightarrow> string \<Rightarrow> cap list \<times> routes \<Rightarrow>
     (string option \<times> cap list \<times> routes) res" where
  "resolve_conflict st svr exp_cap_name s =
     (case s of (agg, rm) \<Rightarrow>
       (case dict_get rm exp_cap_name of
          None \<Rightarrow> Inr (Some exp_cap_name, agg, rm)
        | Some (exist_svr_name, _) \<Rightarrow>
            (if exist_svr_name = svr then Inr (None, agg, rm)
             else case handle_conflict st exp_cap_name exist_svr_name svr of
                Inl e \<Rightarrow> Inl e
              | Inr SKIP \<Rightarrow> Inr (None, agg, rm)
              | Inr REPLACE \<Rightarrow>
                  Inr (Some exp_cap_name, filter (\<lambda>c. cap_name c \<noteq> exp_cap_name) agg,
                       dict_del exp_cap_name rm)
              | Inr (RENAME new_name) \<Rightarrow>
                  (if dict_get rm new_name \<noteq> None then Inr (None, agg, rm)
                   else Inr (Some new_name, agg, rm))
              | Inr ERROR \<Rightarrow> Inr (None, agg, rm))))"

text \<open>One iteration of the registration loop.\<close>

definition register_item ::
    "registry \<Rightarrow> string \<Rightarrow> cap_type \<Rightarrow> raw_item \<Rightarrow> cap list \<times> routes \<Rightarrow> (cap list \<times> routes) res" where
  "register_item r svr ct raw s =
     (case raw of
        Alien \<Rightarrow> Inr s
      | Item item \<Rightarrow>
          (if cap_name item = [] then Inr s
           else case apply_filter_and_rename r svr ct item of
              None \<Rightarrow> Inr s
            | Some (orig_name, item') \<Rightarrow>
                (case resolve_conflict (strategy r) svr
                        (transform_name (strategy r) svr (cap_name item')) s of
                   Inl e \<Rightarrow> Inl e
                 | Inr (None, s') \<Rightarrow> Inr s'
                 | Inr (Some resolved_name, agg, rm) \<Rightarrow>
                     Inr (agg @ [item'\<lparr>cap_name := resolved_name\<rparr>],
                          dict_set resolved_name (svr, orig_name) rm))))"

text \<open>
  The loop: an exception (only the error strategy raises one) leaves it with what is
  registered so far; the method catches and logs it.
\<close>

fun register_items ::
    "registry \<Rightarrow> string \<Rightarrow> cap_type \<Rightarrow> raw_item list \<Rightarrow> cap list \<times> routes \<Rightarrow> cap list \<times> routes" where
  "register_items r svr ct [] s = s"
| "register_items r svr ct (x # xs) s =
     (case register_item r svr ct x s of Inl e \<Rightarrow> s | Inr s' \<Rightarrow> register_items r svr ct xs s')"

definition discover_caps_by_type ::
    "registry \<Rightarrow> string \<Rightarrow> cap_type \<Rightarrow> list_result res \<Rightarrow> cap list \<times> routes \<Rightarrow> cap list \<times> routes" where
  "discover_caps_by_type r svr ct outcome s =
     (case outcome of
        Inl e \<Rightarrow> s
      | Inr lr \<Rightarrow> register_items r svr ct (parse_list_result lr) s)"

section \<open>Operations of the registry\<close>

fun caps_of :: "registry \<Rightarrow> cap_type \<Rightarrow> cap list" where
  "caps_of r Tools = tools r"
| "caps_of r Resources = resources r"
| "caps_of r Prompts = prompts r"

fun set_caps :: "cap_type \<Rightarrow> cap list \<Rightarrow> registry \<Rightarrow> registry" where
  "set_caps Tools xs r = r\<lparr>tools := xs\<rparr>"
| "set_caps Resources xs r = r\<lparr>resources := xs\<rparr>"
| "set_caps Prompts xs r = r\<lparr>prompts := xs\<rparr>"

text \<open>A session answers the three list calls.\<close>

type_synonym session = "cap_type \<Rightarrow> list_result res"
type_synonym task = "string \<times> cap_type \<times> list_result res"

text \<open>One discovery task run against the registry's own lists.\<close>

definition run_task :: "task \<Rightarrow> registry \<Rightarrow> registry" where
  "run_task t r =
     (case t of (svr, ct, outcome) \<Rightarrow>
       (let s = discover_caps_by_type r svr ct outcome (caps_of r ct, route_map r)
        in (set_caps ct (fst s) r)\<lparr>route_map := snd s\<rparr>))"

fun discover_tasks :: "(string \<times> session option) list \<Rightarrow> task list" where
  "discover_tasks [] = []"
| "discover_tasks ((svr, None) # rest) = discover_tasks rest"
| "discover_tasks ((svr, Some s) # rest) =
     (svr, Tools, s Tools) # (svr, Resources, s Resources) # (svr, Prompts, s Prompts)
     # discover_tasks rest"

text \<open>
  \<open>discover_and_register\<close>. The method fills fresh lists while \<open>self._route_map\<close> already
  points to the fresh route map, and installs the lists at the end. Its state while it runs
  is the live registry, the fresh lists (held in a registry of their own, whose route map is
  the live one) and the tasks that have not completed.
\<close>

record discovery =
  live :: registry
  fresh :: registry
  pending :: "task list"

definition begin_discovery :: "(string \<times> session option) list \<Rightarrow> registry \<Rightarrow> discovery" where
  "begin_discovery sessions r =
     \<lparr>live = r\<lparr>route_map := []\<rparr>,
      fresh = r\<lparr>tools := [], resources := [], prompts := [], route_map := []\<rparr>,
      pending = discover_tasks sessions\<rparr>"

definition complete_task :: "task \<Rightarrow> discovery \<Rightarrow> discovery" where
  "complete_task t d =
     (let f = run_task t (fresh d)
      in \<lparr>live = (live d)\<lparr>route_map := route_map f\<rparr>, fresh = f, pending = remove1 t (pending d)\<rparr>)"

definition commit_discovery :: "discovery \<Rightarrow> registry" where
  "commit_discovery d =
     (live d)\<lparr>tools := tools (fresh d), resources := resources (fresh d),
             prompts := prompts (fresh d)\<rparr>"

text \<open>The whole call, for the order in which \<open>asyncio.gather\<close> happens to complete the tasks.\<close>

definition discover_and_register ::
    "(string \<times> session option) list \<Rightarrow> task list \<Rightarrow> registry \<Rightarrow> registry" where
  "discover_and_register sessions order r =
     commit_discovery (fold complete_task order (begin_discovery sessions r))"

definition discover_single_backend :: "string \<Rightarrow> session \<Rightarrow> registry \<Rightarrow> registry" where
  "discover_single_backend svr s r =
     run_task (svr, Prompts, s Prompts)
       (run_task (svr, Resources, s Resources) (run_task (svr, Tools, s Tools) r))"

definition get_aggregated_tools :: "registry \<Rightarrow> cap list" where
  "get_aggregated_tools r = tools r"

definition get_aggregated_resources :: "registry \<Rightarrow> cap list" where
  "get_aggregated_resources r = resources r"

definition get_aggregated_prompts :: "registry \<Rightarrow> cap list" where
  "get_aggregated_prompts r = prompts r"

definition resolve_capability :: "registry \<Rightarrow> string \<Rightarrow> (string \<times> string) option" where
  "resolve_capability r exp_cap_name = dict_get (route_map r) exp_cap_name"

definition remove_backend :: "string \<Rightarrow> registry \<Rightarrow> nat \<times> registry" where
  "remove_backend svr r =
     (let keys = map fst (filter (\<lambda>(k, s, _). s = svr) (route_map r));
          keep = filter (\<lambda>c. cap_name c \<notin> set keys);
          r' = r\<lparr>route_map := fold dict_del keys (route_map r),
                 tools := keep (tools r), resources := keep (resources r),
                 prompts := keep (prompts r)\<rparr>
      in ((length (tools r) - length (tools r')) + (length (resources r) - length (resources r'))
            + (length (prompts r) - length (prompts r')), r'))"

section \<open>Interleavings with the readers\<close>

text \<open>
  One step of a running discovery: some pending task completes. A run ends when nothing is
  pending; the commit is one further step.
\<close>

inductive disc_step :: "discovery \<Rightarrow> discovery \<Rightarrow> bool" where
  complete: "t \<in> set (pending d) \<Longrightarrow> disc_step d (complete_task t d)"

inductive disc_reach :: "(string \<times> session option) list \<Rightarrow> registry \<Rightarrow> discovery \<Rightarrow> bool"
  for sessions r where
  start: "disc_reach sessions r (begin_discovery sessions r)"
| step: "disc_reach sessions r d \<Longrightarrow> disc_step d d' \<Longrightarrow> disc_reach sessions r d'"

inductive_cases disc_stepE: "disc_step d d'"

section \<open>What one registration does\<close>

lemma resolve_conflict_None:
  "resolve_conflict st svr n (agg, rm) = Inr (None, s') \<Longrightarrow> s' = (agg, rm)"
  by (auto simp: resolve_conflict_def split: option.splits if_splits sum.splits ConflictAction.splits)

lemma resolve_conflict_Some:
  assumes "resolve_conflict st svr n (agg, rm) = Inr (Some m, agg', rm')"
  shows "m \<notin> fst ` set rm \<and> agg' = agg \<and> rm' = rm \<or>
    agg' = filter (\<lambda>c. cap_name c \<noteq> m) agg \<and> rm' = dict_del m rm \<and>
    (\<exists>e. handle_conflict st m e svr = Inr REPLACE)"
  using assms
  by (auto simp: resolve_conflict_def dict_get_None_iff [symmetric] simp del: not_None_eq
      split: option.splits if_splits sum.splits ConflictAction.splits)

text \<open>
  Every way a registration can change the state: nothing, or the item joins the list and the
  route map under a name that was free, or under the name of an evicted entry.
\<close>

definition listed_item :: "registry \<Rightarrow> string \<Rightarrow> cap_type \<Rightarrow> raw_item list \<Rightarrow> string \<Rightarrow> bool" where
  "listed_item r svr ct raws orig \<longleftrightarrow>
     (\<exists>c. Item c \<in> set raws \<and> cap_name c = orig) \<and> orig \<noteq> [] \<and> passes_filter r svr ct orig"

lemma register_itemE:
  assumes "register_item r svr ct raw (agg, rm) = Inr s'"
  obtains (skip) "s' = (agg, rm)"
  | (fresh) c orig where "listed_item r svr ct [raw] orig" "cap_name c \<notin> fst ` set rm"
      "s' = (agg @ [c], dict_set (cap_name c) (svr, orig) rm)"
  | (evict) c orig e where "listed_item r svr ct [raw] orig"
      "handle_conflict (strategy r) (cap_name c) e svr = Inr REPLACE"
      "s' = (filter (\<lambda>x. cap_name x \<noteq> cap_name c) agg @ [c],
             dict_set (cap_name c) (svr, orig) (dict_del (cap_name c) rm))"
proof (cases "s' = (agg, rm)")
  case False
  then obtain item where raw: "raw = Item item"
    using assms by (cases raw) (auto simp: register_item_def)
  with assms False have ne: "cap_name item \<noteq> []"
    by (auto simp: register_item_def split: if_splits)
  with assms False raw obtain orig item' where
    fr: "apply_filter_and_rename r svr ct item = Some (orig, item')"
    by (auto simp: register_item_def split: option.splits)
  then have orig: "listed_item r svr ct [raw] orig"
    using raw ne by (auto simp: apply_filter_and_rename_def listed_item_def split: if_splits)
  from assms False raw ne fr obtain m agg' rm' where
    rc: "resolve_conflict (strategy r) svr (transform_name (strategy r) svr (cap_name item')) (agg, rm)
          = Inr (Some m, agg', rm')"
    and s': "s' = (agg' @ [item'\<lparr>cap_name := m\<rparr>], dict_set m (svr, orig) rm')"
    by (auto simp: register_item_def dest: resolve_conflict_None split: sum.splits option.splits)
  from resolve_conflict_Some [OF rc] show thesis
    using that(2) [of orig "item'\<lparr>cap_name := m\<rparr>"] that(3) [of orig "item'\<lparr>cap_name := m\<rparr>"] orig s'
    by auto
qed (rule that(1))

section \<open>The advertised lists and the route map agree\<close>

abbreviation names_of :: "cap list \<Rightarrow> string set" where
  "names_of xs \<equiv> cap_name ` set xs"

lemma names_of_filter: "names_of (filter (\<lambda>x. cap_name x \<noteq> m) xs) = names_of xs - {m}"
  by auto

lemma UN_split_one: "(\<Union>ct. f ct) = f ct0 \<union> (\<Union>ct \<in> - {ct0}. f ct)"
  by auto

text \<open>Of one list under discovery, where \<open>others\<close> are the names in the other two lists.\<close>

definition in_step :: "string set \<Rightarrow> cap list \<times> routes \<Rightarrow> bool" where
  "in_step others s \<longleftrightarrow> dict_wf (snd s) \<and> distinct (map cap_name (fst s)) \<and>
     names_of (fst s) \<union> others = fst ` set (snd s)"

lemma register_item_in_step:
  assumes "in_step others s" "register_item r svr ct raw s = Inr s'"
  shows "in_step others s'"
proof (cases s)
  case (Pair agg rm)
  with assms(2) have "register_item r svr ct raw (agg, rm) = Inr s'" by simp
  then show ?thesis
  proof (cases rule: register_itemE)
    case (fresh c orig)
    then show ?thesis using assms(1) Pair by (auto simp: in_step_def)
  next
    case (evict c orig)
    then have "names_of (fst s') = insert (cap_name c) (names_of agg)"
      by (auto simp: names_of_filter)
    with evict show ?thesis using assms(1) Pair
      by (auto simp: in_step_def distinct_map_filter_eq)
  qed (use assms(1) Pair in simp)
qed

lemma register_items_in_step:
  "in_step others s \<Longrightarrow> in_step others (register_items r svr ct raws s)"
  by (induction raws arbitrary: s) (auto split: sum.split dest: register_item_in_step)

lemma discover_in_step:
  "in_step others s \<Longrightarrow> in_step others (discover_caps_by_type r svr ct outcome s)"
  by (auto simp: discover_caps_by_type_def register_items_in_step split: sum.split)

definition reg_consistent :: "registry \<Rightarrow> bool" where
  "reg_consistent r \<longleftrightarrow> dict_wf (route_map r) \<and>
     (\<forall>ct. distinct (map cap_name (caps_of r ct))) \<and>
     (\<Union>ct. names_of (caps_of r ct)) = fst ` set (route_map r)"

lemma all_cap_type: "(\<forall>ct. P ct) \<longleftrightarrow> P Tools \<and> P Resources \<and> P Prompts"
  by (metis cap_type.exhaust)

lemma caps_of_run_task:
  "caps_of (run_task (svr, ct, outcome) r) ct' =
    (if ct' = ct then fst (discover_caps_by_type r svr ct outcome (caps_of r ct, route_map r))
     else caps_of r ct')"
  by (cases ct; cases ct') (simp_all add: run_task_def Let_def)

lemma route_map_run_task:
  "route_map (run_task (svr, ct, outcome) r) =
    snd (discover_caps_by_type r svr ct outcome (caps_of r ct, route_map r))"
  by (simp add: run_task_def Let_def)

lemma run_task_conf [simp]:
  "strategy (run_task t r) = strategy r" "filters (run_task t r) = filters r"
  "rename_maps (run_task t r) = rename_maps r"
  by (cases t; cases "fst (snd t)"; simp add: run_task_def Let_def)+

lemma reg_consistent_in_step:
  "reg_consistent r \<longleftrightarrow>
    (\<forall>ct. in_step (\<Union>ct' \<in> - {ct}. names_of (caps_of r ct')) (caps_of r ct, route_map r))"
proof -
  have "names_of (caps_of r ct) \<union> (\<Union>ct' \<in> - {ct}. names_of (caps_of r ct')) =
      (\<Union>ct. names_of (caps_of r ct))" for ct by auto
  then show ?thesis by (auto simp: reg_consistent_def in_step_def)
qed

lemma run_task_consistent [inv_intros]:
  assumes "reg_consistent r"
  shows "reg_consistent (run_task t r)"
proof -
  obtain svr ct outcome where t: "t = (svr, ct, outcome)" by (cases t)
  let ?s = "discover_caps_by_type r svr ct outcome (caps_of r ct, route_map r)"
  have st: "in_step (\<Union>ct' \<in> - {ct}. names_of (caps_of r ct')) ?s"
    by (rule discover_in_step) (use assms in \<open>simp add: reg_consistent_in_step\<close>)
  have "(\<Union>ct'. names_of (caps_of (run_task t r) ct')) =
      names_of (fst ?s) \<union> (\<Union>ct' \<in> - {ct}. names_of (caps_of r ct'))"
    by (simp add: t caps_of_run_task UN_split_one [of _ ct])
  with st assms show ?thesis
    by (auto simp: reg_consistent_def in_step_def t caps_of_run_task route_map_run_task)
qed

lemma discover_single_consistent [inv_intros]:
  "reg_consistent r \<Longrightarrow> reg_consistent (discover_single_backend svr s r)"
  by (simp add: discover_single_backend_def run_task_consistent)

lemma init_consistent [inv_intros]: "reg_consistent (init_registry st fs rs)"
  by (auto simp: reg_consistent_def init_registry_def all_cap_type elim: caps_of.elims)

lemma caps_of_empty:
  "caps_of (r\<lparr>tools := [], resources := [], prompts := [], route_map := rm\<rparr>) ct = []"
  by (cases ct) simp_all

lemma emptied_consistent:
  "reg_consistent (r\<lparr>tools := [], resources := [], prompts := [], route_map := []\<rparr>)"
  by (simp add: reg_consistent_def caps_of_empty)

subsection \<open>A whole discovery\<close>

text \<open>The fresh lists and the live route map after some tasks have completed.\<close>

lemma fold_complete_task:
  "fresh (fold complete_task ts d) = fold run_task ts (fresh d)"
  "live (fold complete_task ts d) =
     (if ts = [] then live d else (live d)\<lparr>route_map := route_map (fold run_task ts (fresh d))\<rparr>)"
  by (induction ts arbitrary: d) (simp_all add: complete_task_def Let_def)

lemma fold_run_task_conf [simp]:
  "strategy (fold run_task ts r) = strategy r" "filters (fold run_task ts r) = filters r"
  "rename_maps (fold run_task ts r) = rename_maps r"
  by (induction ts arbitrary: r) simp_all

lemma discover_and_register_eq:
  "discover_and_register sessions order r =
     fold run_task order (r\<lparr>tools := [], resources := [], prompts := [], route_map := []\<rparr>)"
proof -
  let ?e = "r\<lparr>tools := [], resources := [], prompts := [], route_map := []\<rparr>"
  have l: "live (fold complete_task order (begin_discovery sessions r)) =
      r\<lparr>route_map := route_map (fold run_task order ?e)\<rparr>"
    by (cases "order = []") (simp_all add: fold_complete_task begin_discovery_def)
  have f: "fresh (fold complete_task order (begin_discovery sessions r)) = fold run_task order ?e"
    by (simp add: fold_complete_task begin_discovery_def)
  have "strategy (fold run_task order ?e) = strategy r"
    "filters (fold run_task order ?e) = filters r"
    "rename_maps (fold run_task order ?e) = rename_maps r" by simp_all
  with l f show ?thesis
    by (simp add: discover_and_register_def commit_discovery_def)
qed

lemma fold_run_task_consistent:
  "reg_consistent r \<Longrightarrow> reg_consistent (fold run_task ts r)"
  by (induction ts arbitrary: r) (simp_all add: run_task_consistent)

lemma discover_consistent [inv_intros]:
  "reg_consistent (discover_and_register sessions order r)"
  by (simp add: discover_and_register_eq fold_run_task_consistent emptied_consistent)

subsection \<open>Removing a backend\<close>

definition keys_of :: "string \<Rightarrow> routes \<Rightarrow> string list" where
  "keys_of svr rm = map fst (filter (\<lambda>(k, s, _). s = svr) rm)"

lemma fold_dict_del:
  "dict_get (fold dict_del ks d) k = (if k \<in> set ks then None else dict_get d k)"
  "fst ` set (fold dict_del ks d) = fst ` set d - set ks"
  "dict_wf d \<Longrightarrow> dict_wf (fold dict_del ks d)"
  by (induction ks arbitrary: d) auto

lemma keys_of_iff: "dict_wf rm \<Longrightarrow> k \<in> set (keys_of svr rm) \<longleftrightarrow> (\<exists>orig. dict_get rm k = Some (svr, orig))"
  by (force simp: keys_of_def dict_get_Some_iff)

lemma caps_of_remove_backend:
  "caps_of (snd (remove_backend svr r)) ct =
     filter (\<lambda>c. cap_name c \<notin> set (keys_of svr (route_map r))) (caps_of r ct)"
  by (cases ct) (simp_all add: remove_backend_def keys_of_def Let_def)

lemma route_map_remove_backend:
  "route_map (snd (remove_backend svr r)) = fold dict_del (keys_of svr (route_map r)) (route_map r)"
  by (simp add: remove_backend_def keys_of_def Let_def)

lemma remove_backend_consistent [inv_intros]:
  assumes "reg_consistent r"
  shows "reg_consistent (snd (remove_backend svr r))"
proof -
  have "(\<Union>ct. names_of (caps_of (snd (remove_backend svr r)) ct)) =
      (\<Union>ct. names_of (caps_of r ct)) - set (keys_of svr (route_map r))"
    by (auto simp: caps_of_remove_backend)
  with assms show ?thesis
    by (simp add: reg_consistent_def route_map_remove_backend fold_dict_del caps_of_remove_backend
        distinct_map_filter_eq)
qed

lemma resolve_after_remove:
  assumes "dict_wf (route_map r)"
  shows "resolve_capability (snd (remove_backend svr r)) n =
    (case resolve_capability r n of
       Some (s, orig) \<Rightarrow> if s = svr then None else Some (s, orig)
     | None \<Rightarrow> None)"
  using keys_of_iff [OF assms, of n svr]
  by (auto simp: resolve_capability_def route_map_remove_backend fold_dict_del split: option.split)

lemma remove_backend_count:
  "fst (remove_backend svr r) =
     length (filter (\<lambda>c. cap_name c \<in> set (keys_of svr (route_map r)))
               (tools r @ resources r @ prompts r))"
proof -
  have "length xs - length (filter (\<lambda>c. \<not> P c) xs) = length (filter P xs)"
    for P and xs :: "cap list"
    using length_filter_partition [of P xs] by simp
  then show ?thesis by (simp add: remove_backend_def keys_of_def Let_def)
qed

section \<open>Where routes come from\<close>

text \<open>
  Server \<open>svr\<close> offered \<open>orig\<close> as a capability of type \<open>ct\<close>: it has a session whose list
  call returned an item of that name, and the server's filter lets it through.
\<close>

definition offered ::
    "(string \<times> session option) list \<Rightarrow> registry \<Rightarrow> string \<Rightarrow> cap_type \<Rightarrow> string \<Rightarrow> bool" where
  "offered sessions r svr ct orig \<longleftrightarrow>
     (\<exists>s lr. (svr, Some s) \<in> set sessions \<and> s ct = Inr lr \<and>
        listed_item r svr ct (parse_list_result lr) orig)"

definition sourced :: "(string \<Rightarrow> string \<Rightarrow> bool) \<Rightarrow> routes \<Rightarrow> bool" where
  "sourced L rm \<longleftrightarrow> (\<forall>k s orig. (k, s, orig) \<in> set rm \<longrightarrow> L s orig)"

lemma sourced_set: "sourced L rm \<Longrightarrow> L s orig \<Longrightarrow> sourced L (dict_set k (s, orig) rm)"
  by (induction rm) (auto simp: sourced_def)

lemma sourced_del: "sourced L rm \<Longrightarrow> sourced L (dict_del k rm)"
  by (induction rm) (auto simp: sourced_def)

lemma listed_item_mono:
  "listed_item r svr ct xs orig \<Longrightarrow> set xs \<subseteq> set ys \<Longrightarrow> listed_item r svr ct ys orig"
  by (auto simp: listed_item_def)

lemma register_items_sourced:
  "sourced L (snd s) \<Longrightarrow> (\<And>orig. listed_item r svr ct raws orig \<Longrightarrow> L svr orig) \<Longrightarrow>
    sourced L (snd (register_items r svr ct raws s))"
proof (induction raws arbitrary: s)
  case (Cons x xs)
  have tl: "L svr orig" if "listed_item r svr ct xs orig" for orig
    using that by (auto intro!: Cons.prems(2) elim: listed_item_mono)
  have hd: "L svr orig" if "listed_item r svr ct [x] orig" for orig
    using that by (auto intro!: Cons.prems(2) elim: listed_item_mono)
  show ?case
  proof (cases "register_item r svr ct x s")
    case (Inr s')
    obtain agg rm where s: "s = (agg, rm)" by (cases s)
    with Inr have "register_item r svr ct x (agg, rm) = Inr s'" by simp
    then have "sourced L (snd s')"
      by (cases rule: register_itemE)
        (use Cons.prems(1) s hd in \<open>auto intro!: sourced_set sourced_del\<close>)
    with Inr tl show ?thesis by (simp add: Cons.IH)
  qed (use Cons.prems in simp)
qed simp

text \<open>The strategies that keep registered entries also keep every list item's own route.\<close>

definition backed :: "(string \<Rightarrow> cap_type \<Rightarrow> string \<Rightarrow> bool) \<Rightarrow> cap_type \<Rightarrow> cap list \<Rightarrow> routes \<Rightarrow> bool" where
  "backed L ct xs rm \<longleftrightarrow>
     (\<forall>c \<in> set xs. \<exists>s orig. dict_get rm (cap_name c) = Some (s, orig) \<and> L s ct orig)"

abbreviation keeps_routes :: "routes \<Rightarrow> routes \<Rightarrow> bool" where
  "keeps_routes rm rm' \<equiv> dict_get rm \<subseteq>\<^sub>m dict_get rm'"

lemma backed_mono: "backed L ct xs rm \<Longrightarrow> keeps_routes rm rm' \<Longrightarrow> backed L ct xs rm'"
  unfolding backed_def map_le_def by (metis domI)

context keeping_strategy
begin

lemma register_item_keeps:
  assumes "strategy r = st" "register_item r svr ct raw (agg, rm) = Inr (agg', rm')"
    and "\<And>orig. listed_item r svr ct [raw] orig \<Longrightarrow> L svr ct orig"
  shows "keeps_routes rm rm' \<and> (backed L ct agg rm \<longrightarrow> backed L ct agg' rm')"
  using assms(2)
proof (cases rule: register_itemE)
  case (fresh c orig)
  then have k: "keeps_routes rm rm'"
    by (auto simp: map_le_def dict_get_None_iff [symmetric])
  moreover have "backed L ct [c] rm'"
    using fresh assms(3) by (auto simp: backed_def)
  ultimately show ?thesis
    using fresh backed_mono [OF _ k] by (auto simp: backed_def)
next
  case (evict c orig e)
  with no_replace assms(1) show ?thesis by metis
qed simp

lemma register_items_keeps:
  assumes "strategy r = st" and "\<And>orig. listed_item r svr ct raws orig \<Longrightarrow> L svr ct orig"
  shows "keeps_routes (snd s) (snd (register_items r svr ct raws s)) \<and>
    (backed L ct (fst s) (snd s) \<longrightarrow>
     backed L ct (fst (register_items r svr ct raws s)) (snd (register_items r svr ct raws s)))"
  using assms(2)
proof (induction raws arbitrary: s)
  case (Cons x xs)
  have tl: "L svr ct orig" if "listed_item r svr ct xs orig" for orig
    using that by (auto intro!: Cons.prems elim: listed_item_mono)
  have hd: "L svr ct orig" if "listed_item r svr ct [x] orig" for orig
    using that by (auto intro!: Cons.prems elim: listed_item_mono)
  show ?case
  proof (cases "register_item r svr ct x s")
    case (Inr s')
    then have "keeps_routes (snd s) (snd s') \<and>
        (backed L ct (fst s) (snd s) \<longrightarrow> backed L ct (fst s') (snd s'))"
      using register_item_keeps [where L = L, OF assms(1), of svr ct x "fst s" "snd s" "fst s'" "snd s'"] hd
      by simp
    moreover have "keeps_routes (snd s') (snd (register_items r svr ct xs s')) \<and>
        (backed L ct (fst s') (snd s') \<longrightarrow>
         backed L ct (fst (register_items r svr ct xs s')) (snd (register_items r svr ct xs s')))"
      using Cons.IH tl by blast
    ultimately show ?thesis
      using Inr by (auto intro: map_le_trans)
  qed simp
qed simp

lemma run_task_keeps:
  assumes "strategy r = st" and "\<And>orig lr. snd (snd t) = Inr lr \<Longrightarrow>
      listed_item r (fst t) (fst (snd t)) (parse_list_result lr) orig \<Longrightarrow>
      L (fst t) (fst (snd t)) orig"
    and "\<forall>ct. backed L ct (caps_of r ct) (route_map r)"
  shows "\<forall>ct. backed L ct (caps_of (run_task t r) ct) (route_map (run_task t r))"
proof -
  obtain svr ct outcome where t: "t = (svr, ct, outcome)" by (cases t)
  let ?s = "discover_caps_by_type r svr ct outcome (caps_of r ct, route_map r)"
  have "keeps_routes (route_map r) (snd ?s) \<and> backed L ct (fst ?s) (snd ?s)"
  proof (cases outcome)
    case (Inr lr)
    with register_items_keeps [OF assms(1), of svr ct "parse_list_result lr" L "(caps_of r ct, route_map r)"]
      assms(2,3) t show ?thesis
      by (simp add: discover_caps_by_type_def)
  qed (use assms(3) in \<open>simp add: discover_caps_by_type_def\<close>)
  with assms(3) show ?thesis
    by (auto simp: t caps_of_run_task route_map_run_task intro: backed_mono)
qed

lemma fold_run_task_keeps:
  assumes "strategy r = st"
    and "\<And>t orig lr. t \<in> set ts \<Longrightarrow> snd (snd t) = Inr lr \<Longrightarrow>
      listed_item r (fst t) (fst (snd t)) (parse_list_result lr) orig \<Longrightarrow>
      L (fst t) (fst (snd t)) orig"
    and "\<forall>ct. backed L ct (caps_of r ct) (route_map r)"
  shows "\<forall>ct. backed L ct (caps_of (fold run_task ts r) ct) (route_map (fold run_task ts r))"
  using assms
proof (induction ts arbitrary: r)
  case (Cons t ts)
  have conf: "listed_item (run_task t r) svr ct raws = listed_item r svr ct raws" for svr ct raws
    by (simp add: listed_item_def passes_filter_def svr_filter_def fun_eq_iff)
  have "\<forall>ct. backed L ct (caps_of (run_task t r) ct) (route_map (run_task t r))"
    using Cons.prems(1,3) by (intro run_task_keeps) (auto intro: Cons.prems(2))
  then have "\<forall>ct. backed L ct (caps_of (fold run_task ts (run_task t r)) ct)
      (route_map (fold run_task ts (run_task t r)))"
    by (intro Cons.IH) (auto simp: Cons.prems(1) conf intro: Cons.prems(2))
  then show ?case by simp
qed simp

end

section \<open>Runs of the registry\<close>

text \<open>The calls the service and the health checker make, in any sequence.\<close>

datatype reg_op =
    Discover "(string \<times> session option) list" "task list"
  | Rediscover string session
  | Remove string

fun reg_step :: "reg_op \<Rightarrow> registry \<Rightarrow> registry" where
  "reg_step (Discover sessions order) r = discover_and_register sessions order r"
| "reg_step (Rediscover svr s) r = discover_single_backend svr s r"
| "reg_step (Remove svr) r = snd (remove_backend svr r)"

lemma reg_step_consistent: "reg_consistent r \<Longrightarrow> reg_consistent (reg_step op r)"
  by (cases op) (auto intro: inv_intros)

lemma reg_run_consistent: "reg_consistent r \<Longrightarrow> reg_consistent (fold reg_step ops r)"
  by (induction ops arbitrary: r) (simp_all add: reg_step_consistent)

text \<open>
  C1: After any sequence of discoveries, re-discoveries and removals, in any completion order
  of the discovery tasks and under every conflict strategy, no list advertises a name twice
  and a name is advertised (as tool, resource or prompt) exactly when a request for it
  resolves to a backend.
\<close>

theorem advertised_iff_resolvable:
  fixes st fs rs ops
  defines "r \<equiv> fold reg_step ops (init_registry st fs rs)"
  shows "(\<forall>ct. distinct (map cap_name (caps_of r ct))) \<and>
    ((\<exists>ct. n \<in> cap_name ` set (caps_of r ct)) \<longleftrightarrow> resolve_capability r n \<noteq> None)"
proof -
  have "reg_consistent r"
    unfolding r_def by (intro reg_run_consistent init_consistent)
  then show ?thesis
    by (auto simp: reg_consistent_def resolve_capability_def dict_get_None_iff set_eq_iff
        simp del: not_None_eq)
qed

lemma discover_tasks_iff:
  "(svr, ct, out) \<in> set (discover_tasks sessions) \<longleftrightarrow>
    (\<exists>s. (svr, Some s) \<in> set sessions \<and> out = s ct)"
  by (induction sessions rule: discover_tasks.induct) (auto; cases ct; auto)+

lemma offered_task:
  assumes "t \<in> set (discover_tasks sessions)" "snd (snd t) = Inr lr"
    "listed_item r (fst t) (fst (snd t)) (parse_list_result lr) orig"
  shows "offered sessions r (fst t) (fst (snd t)) orig"
proof -
  obtain svr ct out where "t = (svr, ct, out)" by (cases t)
  with assms show ?thesis by (auto simp: offered_def discover_tasks_iff) metis
qed

lemma offered_conf:
  "filters r' = filters r \<Longrightarrow> offered sessions r' = offered sessions r"
  by (simp add: offered_def listed_item_def passes_filter_def svr_filter_def fun_eq_iff)

text \<open>
  C5: Under the first-wins, prefix and error strategies every advertised capability leads to
  the backend that offered it: a listed tool (resource, prompt) resolves to a server that
  returned a tool (resource, prompt) of that original name, which the server's filter lets
  through.
\<close>

theorem advertised_routes_to_its_backend:
  assumes "\<And>order sep. strategy r \<noteq> PriorityStrategy order sep"
    and "set order \<subseteq> set (discover_tasks sessions)"
    and "c \<in> set (caps_of (discover_and_register sessions order r) ct)"
  shows "\<exists>svr orig. resolve_capability (discover_and_register sessions order r) (cap_name c)
      = Some (svr, orig) \<and> offered sessions r svr ct orig"
proof -
  let ?e = "r\<lparr>tools := [], resources := [], prompts := [], route_map := []\<rparr>"
  have ks: "keeping_strategy (strategy r)"
    using assms(1) by (cases "strategy r")
      (auto intro: first_wins.keeping_strategy_axioms prefix.keeping_strategy_axioms
        error_st.keeping_strategy_axioms)
  have "\<forall>ct. backed (offered sessions ?e) ct (caps_of (fold run_task order ?e) ct)
      (route_map (fold run_task order ?e))"
    using assms(2)
    by (intro keeping_strategy.fold_run_task_keeps [OF ks])
      (auto simp: backed_def caps_of_empty intro!: offered_task)
  then have "backed (offered sessions r) ct (caps_of (discover_and_register sessions order r) ct)
      (route_map (discover_and_register sessions order r))"
    by (simp add: discover_and_register_eq offered_conf [of ?e r])
  with assms(3) show ?thesis by (auto simp: backed_def resolve_capability_def)
qed

text \<open>A small installation: two backends that both offer \<open>search\<close>.\<close>

definition ex_item :: "string \<Rightarrow> raw_item" where
  "ex_item n = Item \<lparr>cap_name = n, cap_description = None\<rparr>"

definition ex_session :: "string list \<Rightarrow> string list \<Rightarrow> session" where
  "ex_session ts ps = (\<lambda>ct. case ct of
       Tools \<Rightarrow> Inr (WithAttr (map ex_item ts))
     | Resources \<Rightarrow> Inr ReturnedNone
     | Prompts \<Rightarrow> Inr (WithAttr (map ex_item ps)))"

definition ex_sessions :: "(string \<times> session option) list" where
  "ex_sessions = [(''git'', Some (ex_session [''search'', ''clone''] [])),
     (''web'', Some (ex_session [''search'', ''fetch''] []))]"

definition ex_registry :: "ConflictStrategy \<Rightarrow> registry" where
  "ex_registry st = init_registry (Some st)
     (Some [(''git'', [(Tools, build_filter None (Some [''cl*'']))])]) None"

theorem advertised_routes_to_its_backend_witness:
  "\<exists>svr orig. resolve_capability
       (discover_and_register ex_sessions (discover_tasks ex_sessions) (ex_registry FirstWinsStrategy))
       ''search'' = Some (svr, orig) \<and>
     offered ex_sessions (ex_registry FirstWinsStrategy) svr Tools orig"
proof -
  let ?c = "\<lparr>cap_name = ''search'', cap_description = None\<rparr>"
  have s: "strategy (ex_registry FirstWinsStrategy) \<noteq> PriorityStrategy order sep" for order sep
    by (simp add: ex_registry_def init_registry_def)
  have m: "?c \<in> set (caps_of (discover_and_register ex_sessions (discover_tasks ex_sessions)
      (ex_registry FirstWinsStrategy)) Tools)"
    by code_simp
  from advertised_routes_to_its_backend [OF s subset_refl m] show ?thesis by simp
qed

text \<open>
  A capability hidden by its server's filter is neither advertised nor routed. Under every
  strategy and completion order, whatever name resolves after a discovery leads to a server
  with a session that listed the original name, and the filter of that server allows it.
\<close>

theorem routes_pass_filters:
  assumes "set order \<subseteq> set (discover_tasks sessions)"
    and "resolve_capability (discover_and_register sessions order r) n = Some (svr, orig)"
  shows "\<exists>ct. offered sessions r svr ct orig \<and> passes_filter r svr ct orig"
proof -
  let ?e = "r\<lparr>tools := [], resources := [], prompts := [], route_map := []\<rparr>"
  let ?L = "\<lambda>s orig. \<exists>ct. offered sessions r s ct orig"
  have step: "sourced ?L (route_map (run_task t r'))"
    if "t \<in> set order" "sourced ?L (route_map r')" "filters r' = filters r" for t r'
  proof -
    obtain s ct out where t: "t = (s, ct, out)" by (cases t)
    show ?thesis
    proof (cases out)
      case (Inr lr)
      have "?L s orig" if "listed_item r' s ct (parse_list_result lr) orig" for orig
        using offered_task [of t sessions lr r' orig] that Inr t \<open>t \<in> set order\<close> assms(1)
        by (auto simp: offered_conf [OF \<open>filters r' = filters r\<close>])
      with Inr t that(2) show ?thesis
        by (simp add: route_map_run_task discover_caps_by_type_def register_items_sourced)
    qed (use t that(2) in \<open>simp add: route_map_run_task discover_caps_by_type_def\<close>)
  qed
  have "sourced ?L (route_map (fold run_task ts r'))"
    if "set ts \<subseteq> set order" "sourced ?L (route_map r')" "filters r' = filters r" for ts r'
    using that by (induction ts arbitrary: r') (simp_all add: step)
  from this [of order ?e] have "sourced ?L (route_map (discover_and_register sessions order r))"
    by (simp add: discover_and_register_eq sourced_def)
  moreover have "(n, svr, orig) \<in> set (route_map (discover_and_register sessions order r))"
    using assms(2) by (simp add: resolve_capability_def map_of_SomeD)
  ultimately obtain ct where "offered sessions r svr ct orig"
    unfolding sourced_def by blast
  then show ?thesis by (auto simp: offered_def listed_item_def)
qed

theorem routes_pass_filters_witness:
  "\<exists>ct. offered ex_sessions (ex_registry (PriorityStrategy [''web''] ''_'')) ''web'' ct ''search'' \<and>
     passes_filter (ex_registry (PriorityStrategy [''web''] ''_'')) ''web'' ct ''search''"
proof (rule routes_pass_filters [OF subset_refl])
  show "resolve_capability (discover_and_register ex_sessions (discover_tasks ex_sessions)
      (ex_registry (PriorityStrategy [''web''] ''_''))) ''search'' = Some (''web'', ''search'')"
    by code_simp
qed

section \<open>The prefix strategy loses nothing\<close>

definition pfx_routes :: "char \<Rightarrow> routes \<Rightarrow> bool" where
  "pfx_routes ch rm \<longleftrightarrow>
     (\<forall>k s orig. dict_get rm k = Some (s, orig) \<longrightarrow> k = s @ ch # orig \<and> ch \<notin> set s)"

lemma resolve_conflict_prefix:
  assumes "pfx_routes ch rm" "ch \<notin> set svr"
  shows "resolve_conflict (PrefixStrategy [ch]) svr (svr @ ch # n) (agg, rm) =
    Inr (if dict_get rm (svr @ ch # n) = None then Some (svr @ ch # n) else None, agg, rm) \<and>
    (dict_get rm (svr @ ch # n) \<noteq> None \<longrightarrow> dict_get rm (svr @ ch # n) = Some (svr, n))"
proof (cases "dict_get rm (svr @ ch # n)")
  case (Some p)
  obtain s orig where p: "p = (s, orig)" by (cases p)
  with Some assms(1) have "svr @ ch # n = s @ ch # orig" "ch \<notin> set s"
    by (auto simp: pfx_routes_def)
  with prefix_split_unique [of svr ch n s orig] assms(2) have "s = svr" "orig = n" by auto
  with Some p show ?thesis by (simp add: resolve_conflict_def)
qed (simp add: resolve_conflict_def)

lemma register_item_prefix:
  assumes "strategy r = PrefixStrategy [ch]" "rename_maps r = []" "ch \<notin> set svr" "pfx_routes ch rm"
  shows "\<exists>agg' rm'. register_item r svr ct raw (agg, rm) = Inr (agg', rm') \<and> pfx_routes ch rm' \<and>
    (\<forall>orig. listed_item r svr ct [raw] orig \<longrightarrow> dict_get rm' (svr @ ch # orig) = Some (svr, orig))"
proof (cases "\<exists>c. raw = Item c \<and> cap_name c \<noteq> [] \<and> passes_filter r svr ct (cap_name c)")
  case False
  then have "register_item r svr ct raw (agg, rm) = Inr (agg, rm)"
    by (cases raw) (auto simp: register_item_def apply_filter_and_rename_def)
  with False assms(4) show ?thesis by (auto simp: listed_item_def)
next
  case True
  then obtain c where c: "raw = Item c" "cap_name c \<noteq> []" "passes_filter r svr ct (cap_name c)" by blast
  then have fr: "apply_filter_and_rename r svr ct c = Some (cap_name c, c)"
    using assms(2) by (simp add: apply_filter_and_rename_def)
  let ?k = "svr @ ch # cap_name c"
  show ?thesis
  proof (cases "dict_get rm ?k")
    case None
    with c fr assms resolve_conflict_prefix [OF assms(4,3), of "cap_name c" agg]
    have "register_item r svr ct raw (agg, rm) =
        Inr (agg @ [c\<lparr>cap_name := ?k\<rparr>], dict_set ?k (svr, cap_name c) rm)"
      by (simp add: register_item_def)
    with c assms(3,4) show ?thesis by (auto simp: pfx_routes_def listed_item_def)
  next
    case (Some p)
    with c fr assms resolve_conflict_prefix [OF assms(4,3), of "cap_name c" agg]
    have "register_item r svr ct raw (agg, rm) = Inr (agg, rm)" "dict_get rm ?k = Some (svr, cap_name c)"
      by (simp_all add: register_item_def)
    with c assms(4) show ?thesis by (auto simp: listed_item_def)
  qed
qed

lemma register_items_prefix:
  assumes "strategy r = PrefixStrategy [ch]" "rename_maps r = []" "ch \<notin> set svr" "pfx_routes ch (snd s)"
  shows "pfx_routes ch (snd (register_items r svr ct raws s)) \<and>
    (\<forall>orig. listed_item r svr ct raws orig \<longrightarrow>
       dict_get (snd (register_items r svr ct raws s)) (svr @ ch # orig) = Some (svr, orig))"
  using assms(4)
proof (induction raws arbitrary: s)
  case (Cons x xs)
  from register_item_prefix [OF assms(1-3) Cons.prems, of ct x "fst s"] obtain agg' rm' where
    step: "register_item r svr ct x s = Inr (agg', rm')" "pfx_routes ch rm'"
    "\<And>orig. listed_item r svr ct [x] orig \<Longrightarrow> dict_get rm' (svr @ ch # orig) = Some (svr, orig)"
    by auto
  let ?s' = "register_items r svr ct xs (agg', rm')"
  have keep: "keeps_routes rm' (snd ?s')"
    using prefix.register_items_keeps [of r "[ch]" svr ct xs "\<lambda>_ _ _. True" "(agg', rm')"] assms(1)
    by simp
  have "dict_get (snd ?s') (svr @ ch # orig) = Some (svr, orig)"
    if "listed_item r svr ct (x # xs) orig" for orig
  proof (cases "listed_item r svr ct [x] orig")
    case True
    with step(3) keep show ?thesis by (auto simp: map_le_def dom_def)
  next
    case False
    with that have "listed_item r svr ct xs orig" by (auto simp: listed_item_def)
    with Cons.IH [of "(agg', rm')"] step(2) show ?thesis by simp
  qed
  with Cons.IH [of "(agg', rm')"] step(1,2) show ?case by simp
qed (simp add: listed_item_def)

lemma run_task_prefix:
  assumes "strategy r = PrefixStrategy [ch]" "rename_maps r = []" "ch \<notin> set (fst t)"
    "pfx_routes ch (route_map r)"
  shows "pfx_routes ch (route_map (run_task t r)) \<and> keeps_routes (route_map r) (route_map (run_task t r)) \<and>
    (\<forall>lr orig. snd (snd t) = Inr lr \<longrightarrow>
       listed_item r (fst t) (fst (snd t)) (parse_list_result lr) orig \<longrightarrow>
       dict_get (route_map (run_task t r)) (fst t @ ch # orig) = Some (fst t, orig))"
proof -
  obtain svr ct outcome where t: "t = (svr, ct, outcome)" by (cases t)
  show ?thesis
  proof (cases outcome)
    case (Inr lr)
    with register_items_prefix [OF assms(1-3), of "(caps_of r ct, route_map r)" ct "parse_list_result lr"]
      prefix.register_items_keeps [of r "[ch]" svr ct "parse_list_result lr" "\<lambda>_ _ _. True"
        "(caps_of r ct, route_map r)"] assms t
    show ?thesis by (simp add: route_map_run_task discover_caps_by_type_def)
  qed (use assms t in \<open>simp add: route_map_run_task discover_caps_by_type_def\<close>)
qed

lemma fold_run_task_prefix:
  assumes "strategy r = PrefixStrategy [ch]" "rename_maps r = []" "\<forall>t \<in> set ts. ch \<notin> set (fst t)"
    "pfx_routes ch (route_map r)"
  shows "keeps_routes (route_map r) (route_map (fold run_task ts r)) \<and>
    (\<forall>t \<in> set ts. \<forall>lr orig. snd (snd t) = Inr lr \<longrightarrow>
       listed_item r (fst t) (fst (snd t)) (parse_list_result lr) orig \<longrightarrow>
       dict_get (route_map (fold run_task ts r)) (fst t @ ch # orig) = Some (fst t, orig))"
  using assms
proof (induction ts arbitrary: r)
  case (Cons t ts)
  have conf: "listed_item (run_task t r) = listed_item r"
    by (simp add: listed_item_def passes_filter_def svr_filter_def fun_eq_iff)
  from run_task_prefix [of r ch t] Cons.prems have
    1: "pfx_routes ch (route_map (run_task t r))"
      "keeps_routes (route_map r) (route_map (run_task t r))"
      "\<And>lr orig. snd (snd t) = Inr lr \<Longrightarrow>
         listed_item r (fst t) (fst (snd t)) (parse_list_result lr) orig \<Longrightarrow>
         dict_get (route_map (run_task t r)) (fst t @ ch # orig) = Some (fst t, orig)"
    by simp_all
  from Cons.IH [of "run_task t r"] Cons.prems 1(1) have
    2: "keeps_routes (route_map (run_task t r)) (route_map (fold run_task ts (run_task t r)))"
      "\<And>u lr orig. u \<in> set ts \<Longrightarrow> snd (snd u) = Inr lr \<Longrightarrow>
         listed_item r (fst u) (fst (snd u)) (parse_list_result lr) orig \<Longrightarrow>
         dict_get (route_map (fold run_task ts (run_task t r))) (fst u @ ch # orig) = Some (fst u, orig)"
    by (auto simp: conf)
  from 2(1) 1(3) have "dict_get (route_map (fold run_task ts (run_task t r))) (fst t @ ch # orig)
      = Some (fst t, orig)"
    if "snd (snd t) = Inr lr" "listed_item r (fst t) (fst (snd t)) (parse_list_result lr) orig" for lr orig
    using that by (auto simp: map_le_def dom_def)
  with 1(2) 2 show ?case by (auto intro: map_le_trans)
qed simp

text \<open>
  Under the prefix strategy with a one-character separator that no server name contains,
  and without renames, discovery loses nothing: every capability a backend offers (of any
  type, allowed by its filter) resolves under its prefixed name to that backend and that
  original name, in every completion order of the tasks.
\<close>

theorem prefix_keeps_every_capability:
  assumes "strategy r = PrefixStrategy [ch]" "rename_maps r = []"
    and "\<forall>(svr, _) \<in> set sessions. ch \<notin> set svr"
    and "set order = set (discover_tasks sessions)"
    and "offered sessions r svr ct orig"
  shows "resolve_capability (discover_and_register sessions order r) (svr @ [ch] @ orig) = Some (svr, orig)"
proof -
  let ?e = "r\<lparr>tools := [], resources := [], prompts := [], route_map := []\<rparr>"
  from assms(5) obtain s lr where
    s: "(svr, Some s) \<in> set sessions" "s ct = Inr lr" "listed_item r svr ct (parse_list_result lr) orig"
    by (auto simp: offered_def)
  then have t: "(svr, ct, s ct) \<in> set order" using assms(4) by (auto simp: discover_tasks_iff)
  have l: "listed_item ?e svr ct (parse_list_result lr) orig"
    using s(3) by (simp add: listed_item_def passes_filter_def svr_filter_def)
  have "\<forall>t \<in> set order. ch \<notin> set (fst t)"
    using assms(3,4) by (force simp: discover_tasks_iff)
  with fold_run_task_prefix [of ?e ch order] assms(1,2) t l s(2)
  have "dict_get (route_map (fold run_task order ?e)) (svr @ ch # orig) = Some (svr, orig)"
    by (fastforce simp: pfx_routes_def)
  then show ?thesis by (simp add: resolve_capability_def discover_and_register_eq)
qed

theorem prefix_keeps_every_capability_witness:
  "resolve_capability (discover_and_register ex_sessions (rev (discover_tasks ex_sessions))
      (ex_registry (PrefixStrategy ''_''))) (''web'' @ ''_'' @ ''search'') = Some (''web'', ''search'')"
proof (rule prefix_keeps_every_capability)
  show "offered ex_sessions (ex_registry (PrefixStrategy ''_'')) ''web'' Tools ''search''"
    by (auto simp: offered_def ex_sessions_def ex_session_def listed_item_def ex_item_def
        passes_filter_def svr_filter_def ex_registry_def init_registry_def dict_get_or_def)
  show "set (rev (discover_tasks ex_sessions)) = set (discover_tasks ex_sessions)"
    by (rule set_rev)
qed (simp_all add: ex_registry_def init_registry_def ex_sessions_def)

section \<open>Removal, and the corners of discovery\<close>

text \<open>
  Hiding an unhealthy backend removes exactly its capabilities: afterwards nothing
  resolves to it, every other name resolves as before, the lists and the route map still
  agree, and the returned number is the number of list entries that led to it.
\<close>

theorem remove_backend_exact:
  assumes "reg_consistent r"
  shows "reg_consistent (snd (remove_backend svr r)) \<and>
    resolve_capability (snd (remove_backend svr r)) n =
      (case resolve_capability r n of
         Some (s, orig) \<Rightarrow> if s = svr then None else Some (s, orig)
       | None \<Rightarrow> None) \<and>
    fst (remove_backend svr r) =
      length (filter (\<lambda>c. \<exists>orig. resolve_capability r (cap_name c) = Some (svr, orig))
        (tools r @ resources r @ prompts r))"
proof -
  have wf: "dict_wf (route_map r)" using assms by (simp add: reg_consistent_def)
  show ?thesis
    using remove_backend_consistent [OF assms] resolve_after_remove [OF wf]
    by (simp add: remove_backend_count keys_of_iff [OF wf] resolve_capability_def)
qed

theorem remove_backend_exact_witness:
  "resolve_capability (snd (remove_backend ''git'' (discover_and_register ex_sessions
      (discover_tasks ex_sessions) (ex_registry FirstWinsStrategy)))) ''search'' = None"
proof -
  let ?r = "discover_and_register ex_sessions (discover_tasks ex_sessions) (ex_registry FirstWinsStrategy)"
  have "resolve_capability ?r ''search'' = Some (''git'', ''search'')" by code_simp
  then show ?thesis
    using remove_backend_exact [OF discover_consistent, of "''git''" ex_sessions
        "discover_tasks ex_sessions" "ex_registry FirstWinsStrategy" "''search''"]
    by simp
qed

text \<open>
  Every interleaving of the discovery tasks ends, at the commit, in a registry whose lists
  and route map agree.
\<close>

lemma disc_reach_fresh:
  "disc_reach sessions r d \<Longrightarrow> reg_consistent (fresh d) \<and> route_map (live d) = route_map (fresh d)"
proof (induction rule: disc_reach.induct)
  case start
  then show ?case by (simp add: begin_discovery_def emptied_consistent)
next
  case (step d d')
  then show ?case
    by (auto simp: complete_task_def Let_def run_task_consistent elim!: disc_stepE)
qed

lemma caps_of_commit: "caps_of (commit_discovery d) ct = caps_of (fresh d) ct"
  by (cases ct) (simp_all add: commit_discovery_def)

lemma commit_consistent:
  "disc_reach sessions r d \<Longrightarrow> reg_consistent (commit_discovery d)"
  using disc_reach_fresh [of sessions r d]
  by (simp add: reg_consistent_def caps_of_commit) (simp add: commit_discovery_def)

text \<open>
  A reader between the start of a discovery and its commit may see a registry that is
  neither the old nor the new one: the lists still advertise the old capabilities while the
  route map has already been emptied, so an advertised tool does not resolve. (The comment at
  the commit promises that readers see either complete old or complete new state.) The state
  committed at the end is consistent in every interleaving.
\<close>

theorem discovery_not_atomic_for_readers:
  "(\<exists>sessions r d c. reg_consistent r \<and> disc_reach sessions r d \<and>
      c \<in> set (tools (live d)) \<and> resolve_capability (live d) (cap_name c) = None) \<and>
   (\<forall>sessions r d. disc_reach sessions r d \<longrightarrow> reg_consistent (commit_discovery d))"
proof -
  let ?r = "discover_and_register ex_sessions (discover_tasks ex_sessions) (ex_registry FirstWinsStrategy)"
  let ?c = "\<lparr>cap_name = ''search'', cap_description = None\<rparr>"
  have "?c \<in> set (tools (live (begin_discovery ex_sessions ?r)))"
    "resolve_capability (live (begin_discovery ex_sessions ?r)) (cap_name ?c) = None"
    by code_simp+
  then show ?thesis
    using discover_consistent disc_reach.start commit_consistent by blast
qed

theorem discovery_not_atomic_for_readers_witness:
  "reg_consistent (commit_discovery (begin_discovery ex_sessions (ex_registry FirstWinsStrategy)))"
  using discovery_not_atomic_for_readers disc_reach.start by blast

text \<open>
  The priority strategy can advertise a tool that no longer exists behind its name. The
  three capability types share one route map, but a replacement evicts the loser only from the
  list of the type being discovered: a prompt of a higher-priority server takes over the route
  of a lower-priority server's tool, which stays in the tool list although the server its name
  resolves to offers no tool at all.
\<close>

theorem priority_replaces_across_types:
  "\<exists>sessions r c svr orig.
     c \<in> set (tools (discover_and_register sessions (discover_tasks sessions) r)) \<and>
     resolve_capability (discover_and_register sessions (discover_tasks sessions) r) (cap_name c)
       = Some (svr, orig) \<and>
     \<not> offered sessions r svr Tools orig"
proof -
  let ?ss = "[(''low'', Some (ex_session [''summary''] [])), (''high'', Some (ex_session [] [''summary'']))]"
  let ?r = "init_registry (Some (PriorityStrategy [''high'', ''low''] ''_'')) None None"
  let ?c = "\<lparr>cap_name = ''summary'', cap_description = None\<rparr>"
  have "?c \<in> set (tools (discover_and_register ?ss (discover_tasks ?ss) ?r))"
    "resolve_capability (discover_and_register ?ss (discover_tasks ?ss) ?r) (cap_name ?c)
      = Some (''high'', ''summary'')"
    by code_simp+
  moreover have "\<not> offered ?ss ?r ''high'' Tools ''summary''"
    by (auto simp: offered_def ex_session_def listed_item_def)
  ultimately show ?thesis by blast
qed

text \<open>
  The error strategy never stops the gateway. A collision raises inside the registration
  loop, the discovery task swallows the exception, and the rest of that server's list is
  dropped without an error reaching the caller: discovery is total and the state is the one
  before the colliding item.
\<close>

theorem error_strategy_drops_the_rest:
  assumes "strategy r = ErrorStrategy"
    and "apply_filter_and_rename r svr ct item = Some (orig, item')" "cap_name item \<noteq> []"
    and "dict_get rm (cap_name item') = Some (other, o')" "other \<noteq> svr"
  shows "register_items r svr ct (Item item # rest) (agg, rm) = (agg, rm)"
  using assms by (simp add: register_item_def resolve_conflict_def)

theorem error_strategy_drops_the_rest_witness:
  "register_items (ex_registry ErrorStrategy) ''web'' Tools (map ex_item [''search'', ''fetch''])
     ([], [(''search'', ''git'', ''search'')]) = ([], [(''search'', ''git'', ''search'')])"
proof -
  let ?i = "\<lparr>cap_name = ''search'', cap_description = None\<rparr>"
  have "strategy (ex_registry ErrorStrategy) = ErrorStrategy"
    "apply_filter_and_rename (ex_registry ErrorStrategy) ''web'' Tools ?i = Some (''search'', ?i)"
    by code_simp+
  from error_strategy_drops_the_rest [OF this, of "[(''search'', ''git'', ''search'')]" "''git''" "''search''"
      "[ex_item ''fetch'']" "[]"]
  show ?thesis by (simp add: ex_item_def)
qed

end
