(* ===== verification/Health_Checker.thy ===== *)
theory Health_Checker
  imports Circuit_Breaker Backend_Lifecycle Capability_Registry
begin

text \<open>
  \<open>bridge/health/checker.py\<close>: one probe of one backend and everything it changes: the health
  record and its breaker, the exposed capabilities, the backend's status record, the scheduled
  re-discoveries and the notifications. The manager's sessions and status records that the
  checker reads and writes are part of the state. What \<open>session.list_tools()\<close> does (or the
  timeout around it) is an argument: \<open>None\<close> when the probe answers, \<open>Some e\<close> when it raises.
\<close>

section \<open>Definitions\<close>

datatype HealthState = HEALTHY | HsDEGRADED | UNHEALTHY | UNKNOWN

record BackendHealth =
  health_state :: HealthState
  circuit :: CircuitBreaker
  last_check :: rat
  last_latency_ms :: rat
  last_error :: "string option"

definition new_health :: "CircuitBreaker \<Rightarrow> BackendHealth" where
  "new_health cb = \<lparr>health_state = UNKNOWN, circuit = cb, last_check = 0, last_latency_ms = 0,
     last_error = None\<rparr>"

record HealthChecker =
  hc_failure_threshold :: int
  hc_cooldown :: rat
  degraded_latency_ms :: rat
  health :: "(string, BackendHealth) dict"
  \<comment> \<open>the manager's and the registry's state the checker works on\<close>
  hc_sessions :: "(string, session) dict"
  status_records :: "(string, BackendStatusRecord) dict"
  hc_registry :: registry
  \<comment> \<open>effects\<close>
  restores :: "string list"
  notified :: "(string \<times> HealthState \<times> HealthState) list"

text \<open>The readings of the clock that one check makes, by the place that makes them.\<close>

record readings =
  t_admit :: rat
  t_start :: rat
  t_end :: rat
  t_record :: rat
  t_admit_after :: rat
  t_check :: rat
  t_cond :: rat

definition probe_health :: "HealthChecker \<Rightarrow> string \<Rightarrow> BackendHealth" where
  "probe_health hc name =
     (case dict_get (health hc) name of
        Some h \<Rightarrow> h
      | None \<Rightarrow> new_health (new_breaker name (hc_failure_threshold hc) (hc_cooldown hc)))"

fun phase_map :: "HealthState \<Rightarrow> BackendPhase option" where
  "phase_map HEALTHY = Some READY"
| "phase_map HsDEGRADED = Some DEGRADED"
| "phase_map UNHEALTHY = Some FAILED"
| "phase_map UNKNOWN = None"

definition sync_message :: "BackendHealth \<Rightarrow> string" where
  "sync_message h =
     (if health_state h = HsDEGRADED then ''High latency: '' @ fmt0 (last_latency_ms h) @ ''ms''
      else if health_state h = UNHEALTHY then
        (case last_error h of None \<Rightarrow> ''Health check failed''
         | Some e \<Rightarrow> if e = [] then ''Health check failed'' else e)
      else ''Healthy ('' @ fmt0 (last_latency_ms h) @ ''ms)'')"

definition sync_status_record :: "rat \<Rightarrow> string \<Rightarrow> BackendHealth \<Rightarrow> HealthChecker \<Rightarrow> HealthChecker" where
  "sync_status_record now name h hc =
     (case dict_get (status_records hc) name of
        None \<Rightarrow> hc
      | Some r \<Rightarrow>
          (case phase_map (health_state h) of
             None \<Rightarrow> hc
           | Some target_phase \<Rightarrow>
               (if target_phase = phase r then hc
                else let msg = sync_message h;
                         r' = (case transition now target_phase msg r of
                                 Inr r1 \<Rightarrow> r1\<lparr>rec_latency_ms := Some (last_latency_ms h)\<rparr>
                               | Inl e \<Rightarrow> add_condition now ''HealthCheck'' ''Warning''
                                   (''Skipped transition to '' @ phase_value target_phase @ '': '' @ msg) r)
                     in hc\<lparr>status_records := dict_set name r' (status_records hc)\<rparr>)))"

definition hide_backend_capabilities :: "string \<Rightarrow> HealthChecker \<Rightarrow> HealthChecker" where
  "hide_backend_capabilities name hc =
     hc\<lparr>hc_registry := snd (remove_backend name (hc_registry hc))\<rparr>"

text \<open>Schedules \<open>discover_single_backend\<close>; the task runs later.\<close>

definition restore_backend_capabilities :: "string \<Rightarrow> HealthChecker \<Rightarrow> HealthChecker" where
  "restore_backend_capabilities name hc =
     (case dict_get (hc_sessions hc) name of
        None \<Rightarrow> hc
      | Some s \<Rightarrow> hc\<lparr>restores := restores hc @ [name]\<rparr>)"

definition notify :: "string \<Rightarrow> HealthState \<Rightarrow> HealthState \<Rightarrow> HealthChecker \<Rightarrow> HealthChecker" where
  "notify name old new hc =
     (if old \<noteq> new then hc\<lparr>notified := notified hc @ [(name, old, new)]\<rparr> else hc)"

text \<open>The outcome of a probe of a backend that has a session.\<close>

definition probed :: "HealthChecker \<Rightarrow> readings \<Rightarrow> exn option \<Rightarrow> BackendHealth \<Rightarrow> BackendHealth" where
  "probed hc t outcome h =
     (case outcome of
        None \<Rightarrow>
          (let latency_ms = (t_end t - t_start t) * 1000
           in h\<lparr>last_latency_ms := latency_ms, last_error := None,
                circuit := record_success (t_record t) (circuit h),
                health_state := (if latency_ms > degraded_latency_ms hc then HsDEGRADED else HEALTHY)\<rparr>)
      | Some e \<Rightarrow>
          (case allows_request (t_admit_after t) (record_failure (t_record t) (circuit h)) of
             (ok, cb) \<Rightarrow>
               h\<lparr>last_error := Some (exn_class e @ '': '' @ exn_str e), circuit := cb,
                 health_state := (if ok then HsDEGRADED else UNHEALTHY)\<rparr>))"

definition check :: "readings \<Rightarrow> string \<Rightarrow> exn option \<Rightarrow> HealthChecker \<Rightarrow> HealthChecker" where
  "check t name outcome hc =
     (case allows_request (t_admit t) (circuit (probe_health hc name)) of (admitted, cb) \<Rightarrow>
       (let h0 = (probe_health hc name)\<lparr>circuit := cb\<rparr>;
            old_state = health_state h0
        in if \<not> admitted then hc\<lparr>health := dict_set name h0 (health hc)\<rparr>
           else case dict_get (hc_sessions hc) name of
             None \<Rightarrow>
               (let h1 = h0\<lparr>health_state := UNHEALTHY, last_error := Some ''No active session'',
                            circuit := record_failure (t_record t) cb, last_check := t_check t\<rparr>;
                    hc1 = hc\<lparr>health := dict_set name h1 (health hc)\<rparr>
                in notify name old_state UNHEALTHY (sync_status_record (t_cond t) name h1 hc1))
           | Some s \<Rightarrow>
               (let h1 = (probed hc t outcome h0)\<lparr>last_check := t_check t\<rparr>;
                    hc1 = hc\<lparr>health := dict_set name h1 (health hc)\<rparr>;
                    hc2 = (if health_state h1 = UNHEALTHY then hide_backend_capabilities name hc1
                           else if old_state = UNHEALTHY \<and> health_state h1 \<in> {HEALTHY, HsDEGRADED}
                           then restore_backend_capabilities name hc1
                           else hc1)
                in notify name old_state (health_state h1) (sync_status_record (t_cond t) name h1 hc2))))"

text \<open>\<open>reset_backend\<close>: the operator's force-reset.\<close>

definition reset_backend :: "string \<Rightarrow> HealthChecker \<Rightarrow> HealthChecker" where
  "reset_backend name hc =
     (case dict_get (health hc) name of
        None \<Rightarrow> hc
      | Some h \<Rightarrow> hc\<lparr>health := dict_set name
          (h\<lparr>circuit := reset_breaker (circuit h), health_state := UNKNOWN\<rparr>) (health hc)\<rparr>)"

text \<open>A scheduled re-discovery runs, with the session it was scheduled for.\<close>

definition run_restore :: "string \<Rightarrow> session \<Rightarrow> HealthChecker \<Rightarrow> HealthChecker" where
  "run_restore name s hc =
     hc\<lparr>hc_registry := discover_single_backend name s (hc_registry hc),
        restores := remove1 name (restores hc)\<rparr>"

section \<open>Frame lemmas\<close>

lemma sync_frame [simp]:
  "hc_registry (sync_status_record n name h hc) = hc_registry hc"
  "health (sync_status_record n name h hc) = health hc"
  "restores (sync_status_record n name h hc) = restores hc"
  "hc_sessions (sync_status_record n name h hc) = hc_sessions hc"
  by (simp_all add: sync_status_record_def Let_def split: option.split)

lemma notify_frame [simp]:
  "hc_registry (notify name a b hc) = hc_registry hc" "health (notify name a b hc) = health hc"
  "restores (notify name a b hc) = restores hc" "status_records (notify name a b hc) = status_records hc"
  "hc_sessions (notify name a b hc) = hc_sessions hc"
  by (simp_all add: notify_def)

lemma hide_frame [simp]:
  "health (hide_backend_capabilities name hc) = health hc"
  "restores (hide_backend_capabilities name hc) = restores hc"
  "status_records (hide_backend_capabilities name hc) = status_records hc"
  "hc_registry (hide_backend_capabilities name hc) = snd (remove_backend name (hc_registry hc))"
  by (simp_all add: hide_backend_capabilities_def)

lemma restore_frame [simp]:
  "health (restore_backend_capabilities name hc) = health hc"
  "status_records (restore_backend_capabilities name hc) = status_records hc"
  "hc_registry (restore_backend_capabilities name hc) = hc_registry hc"
  by (simp_all add: restore_backend_capabilities_def split: option.split)

text \<open>The health record a check leaves behind.\<close>

definition admitted :: "readings \<Rightarrow> string \<Rightarrow> HealthChecker \<Rightarrow> bool" where
  "admitted t name hc \<longleftrightarrow> fst (allows_request (t_admit t) (circuit (probe_health hc name)))"

lemma check_probed:
  assumes "admitted t name hc" "dict_get (hc_sessions hc) name = Some s"
  shows "dict_get (health (check t name outcome hc)) name =
    Some ((probed hc t outcome ((probe_health hc name)
        \<lparr>circuit := snd (allows_request (t_admit t) (circuit (probe_health hc name)))\<rparr>))\<lparr>last_check := t_check t\<rparr>)"
  using assms by (simp add: check_def admitted_def Let_def case_prod_beta)

lemma check_registry:
  "hc_registry (check t name outcome hc) = hc_registry hc \<or>
   hc_registry (check t name outcome hc) = snd (remove_backend name (hc_registry hc))"
  by (simp add: check_def Let_def case_prod_beta split: option.split)

lemma check_registry_consistent [inv_intros]:
  "reg_consistent (hc_registry hc) \<Longrightarrow> reg_consistent (hc_registry (check t name outcome hc))"
  using check_registry [of t name outcome hc] by (auto simp: remove_backend_consistent)

section \<open>Failing probes\<close>

lemma probed_failed:
  assumes "breaker_ok (circuit h)" "t_admit_after t < t_record t + cooldown_seconds (circuit h)"
  shows "health_state (probed hc t (Some e) h) =
    (if failure_threshold (circuit h) \<le> consecutive_failures (circuit h) + 1 then UNHEALTHY else HsDEGRADED)"
proof (cases "failure_threshold (circuit h) \<le> consecutive_failures (circuit h) + 1")
  case True
  with assms cb.tripped_blocks [of "circuit h" "t_record t" "t_admit_after t"]
  show ?thesis by (simp add: probed_def case_prod_beta cb.fails_failure)
next
  case False
  with assms cb.below_limit_allows [of "record_failure (t_record t) (circuit h)" "t_admit_after t"]
  show ?thesis
    by (simp add: probed_def case_prod_beta cb.fails_failure cb.good_failure cb.limit_keep)
qed

lemma probed_circuit:
  "circuit (probed hc t (Some e) h) =
     snd (allows_request (t_admit_after t) (record_failure (t_record t) (circuit h)))"
  by (simp add: probed_def case_prod_beta)

text \<open>A backend with \<open>j\<close> failures on record that is still below the threshold.\<close>

definition failing_below :: "string \<Rightarrow> int \<Rightarrow> HealthChecker \<Rightarrow> bool" where
  "failing_below name j hc \<longleftrightarrow>
     (let b = circuit (probe_health hc name)
      in breaker_ok b \<and> consecutive_failures b = j \<and> j < hc_failure_threshold hc \<and>
         failure_threshold b = hc_failure_threshold hc \<and> cooldown_seconds b = hc_cooldown hc)"

lemma check_params [simp]:
  "hc_failure_threshold (check t name outcome hc) = hc_failure_threshold hc"
  "hc_cooldown (check t name outcome hc) = hc_cooldown hc"
  "hc_sessions (check t name outcome hc) = hc_sessions hc"
  by (simp_all add: check_def Let_def case_prod_beta notify_def sync_status_record_def
      hide_backend_capabilities_def restore_backend_capabilities_def split: option.split)

lemma failing_check:
  fixes e :: exn
  assumes "failing_below name j hc" "dict_get (hc_sessions hc) name = Some s"
    "t_admit_after t < t_record t + hc_cooldown hc"
  defines "hc' \<equiv> check t name (Some e) hc"
  shows "j + 1 < hc_failure_threshold hc \<Longrightarrow> failing_below name (j + 1) hc' \<and>
      hc_registry hc' = hc_registry hc \<and> health_state (probe_health hc' name) = HsDEGRADED"
    and "hc_failure_threshold hc \<le> j + 1 \<Longrightarrow>
      hc_registry hc' = snd (remove_backend name (hc_registry hc)) \<and>
      health_state (probe_health hc' name) = UNHEALTHY"
proof -
  let ?b = "circuit (probe_health hc name)"
  let ?bq = "snd (allows_request (t_admit t) ?b)"
  let ?hq = "(probe_health hc name)\<lparr>circuit := ?bq\<rparr>"
  have b: "breaker_ok ?b" "consecutive_failures ?b = j" "j < failure_threshold ?b"
    "failure_threshold ?b = hc_failure_threshold hc" "cooldown_seconds ?b = hc_cooldown hc"
    using assms(1) by (simp_all add: failing_below_def Let_def)
  then have adm: "admitted t name hc" by (simp add: admitted_def cb.below_limit_allows)
  have b0: "breaker_ok ?bq" "consecutive_failures ?bq = j"
    "failure_threshold ?bq = hc_failure_threshold hc" "cooldown_seconds ?bq = hc_cooldown hc"
    using b by (simp_all add: cb.good_allows cb.fails_allows cb.limit_keep cb.cool_keep)
  have h': "probe_health hc' name = (probed hc t (Some e) ?hq)\<lparr>last_check := t_check t\<rparr>"
    using check_probed [OF adm assms(2), of "Some e"] by (simp add: probe_health_def hc'_def)
  have st: "health_state (probed hc t (Some e) ?hq) =
      (if hc_failure_threshold hc \<le> j + 1 then UNHEALTHY else HsDEGRADED)"
    using probed_failed [of ?hq t hc e] b0 assms(3) by simp
  have reg: "hc_registry hc' = (if hc_failure_threshold hc \<le> j + 1
      then snd (remove_backend name (hc_registry hc)) else hc_registry hc)"
    using adm assms(2) st by (simp add: hc'_def check_def admitted_def Let_def case_prod_beta)
  show "failing_below name (j + 1) hc' \<and> hc_registry hc' = hc_registry hc \<and>
      health_state (probe_health hc' name) = HsDEGRADED"
    if "j + 1 < hc_failure_threshold hc"
    using that h' st reg b0
    by (simp add: failing_below_def Let_def probed_circuit hc'_def cb.good_allows cb.good_failure
        cb.fails_allows cb.fails_failure cb.limit_keep cb.cool_keep)
  show "hc_registry hc' = snd (remove_backend name (hc_registry hc)) \<and>
      health_state (probe_health hc' name) = UNHEALTHY"
    if "hc_failure_threshold hc \<le> j + 1"
    using that h' st reg by simp
qed

abbreviation failing_checks :: "string \<Rightarrow> exn \<Rightarrow> readings list \<Rightarrow> HealthChecker \<Rightarrow> HealthChecker" where
  "failing_checks name e ts hc \<equiv> fold (\<lambda>t. check t name (Some e)) ts hc"

lemma failing_checks_below:
  assumes "failing_below name j hc" "dict_get (hc_sessions hc) name = Some s"
    "\<forall>t \<in> set ts. t_admit_after t < t_record t + hc_cooldown hc"
    "j + int (length ts) < hc_failure_threshold hc"
  shows "failing_below name (j + int (length ts)) (failing_checks name e ts hc) \<and>
    hc_registry (failing_checks name e ts hc) = hc_registry hc \<and>
    hc_sessions (failing_checks name e ts hc) = hc_sessions hc \<and>
    hc_failure_threshold (failing_checks name e ts hc) = hc_failure_threshold hc \<and>
    hc_cooldown (failing_checks name e ts hc) = hc_cooldown hc \<and>
    (ts \<noteq> [] \<longrightarrow> health_state (probe_health (failing_checks name e ts hc) name) = HsDEGRADED)"
  using assms
proof (induction ts arbitrary: j hc)
  case (Cons t ts)
  let ?hcn = "check t name (Some e) hc"
  from failing_check(1) [OF Cons.prems(1,2), of t e] Cons.prems
  have 1: "failing_below name (j + 1) ?hcn" "hc_registry ?hcn = hc_registry hc"
    "health_state (probe_health ?hcn name) = HsDEGRADED" by simp_all
  with Cons.IH [of "j + 1" ?hcn] Cons.prems show ?case
    by (cases ts) (simp_all add: algebra_simps)
qed simp

text \<open>
  A backend is taken out of service after exactly \<open>failure_threshold\<close> failed probes in a
  row, not earlier. From the first check on, while fewer probes have failed the backend is
  only degraded and every capability stays routed; with the last of them it becomes unhealthy
  and nothing resolves to it any more, while other backends' names resolve as before.
\<close>

theorem hidden_after_threshold_failures:
  assumes "dict_get (health hc) name = None" "dict_get (hc_sessions hc) name = Some s"
    and "reg_consistent (hc_registry hc)"
    and "\<forall>t \<in> set (ts @ [t]). t_admit_after t < t_record t + hc_cooldown hc"
    and "int (length ts) + 1 = hc_failure_threshold hc"
  shows "hc_registry (failing_checks name e ts hc) = hc_registry hc \<and>
    (ts \<noteq> [] \<longrightarrow> health_state (probe_health (failing_checks name e ts hc) name) = HsDEGRADED) \<and>
    health_state (probe_health (failing_checks name e (ts @ [t]) hc) name) = UNHEALTHY \<and>
    resolve_capability (hc_registry (failing_checks name e (ts @ [t]) hc)) n =
      (case resolve_capability (hc_registry hc) n of
         Some (svr, orig) \<Rightarrow> if svr = name then None else Some (svr, orig)
       | None \<Rightarrow> None)"
proof -
  have "failing_below name 0 hc"
    using assms(1,5) by (simp add: failing_below_def probe_health_def new_health_def new_breaker_ok)
      (simp add: new_breaker_def)
  from failing_checks_below [OF this assms(2), of ts e] assms(4,5)
  have 1: "failing_below name (int (length ts)) (failing_checks name e ts hc)"
    "hc_registry (failing_checks name e ts hc) = hc_registry hc"
    "dict_get (hc_sessions (failing_checks name e ts hc)) name = Some s"
    "hc_failure_threshold (failing_checks name e ts hc) = hc_failure_threshold hc"
    "hc_cooldown (failing_checks name e ts hc) = hc_cooldown hc"
    "ts \<noteq> [] \<longrightarrow> health_state (probe_health (failing_checks name e ts hc) name) = HsDEGRADED"
    using assms(2) by auto
  have "t_admit_after t < t_record t + hc_cooldown (failing_checks name e ts hc)"
    using assms(4) 1(5) by simp
  from failing_check(2) [OF 1(1,3) this, of e] 1(2,4) assms(5)
  have 2: "hc_registry (failing_checks name e (ts @ [t]) hc) = snd (remove_backend name (hc_registry hc))"
    "health_state (probe_health (failing_checks name e (ts @ [t]) hc) name) = UNHEALTHY"
    by simp_all
  have "dict_wf (route_map (hc_registry hc))" using assms(3) by (simp add: reg_consistent_def)
  with 1 2 show ?thesis by (simp add: resolve_after_remove)
qed

definition ex_checker :: HealthChecker where
  "ex_checker = \<lparr>hc_failure_threshold = 3, hc_cooldown = 60, degraded_latency_ms = 5000, health = [],
     hc_sessions = [(''git'', ex_session [''search''] [])],
     status_records = [(''git'', (new_status_record ''git'')\<lparr>phase := READY\<rparr>)],
     hc_registry = discover_and_register ex_sessions (discover_tasks ex_sessions) (ex_registry FirstWinsStrategy),
     restores = [], notified = []\<rparr>"

definition ex_readings :: "rat \<Rightarrow> readings" where
  "ex_readings t = \<lparr>t_admit = t, t_start = t, t_end = t + 1, t_record = t + 1, t_admit_after = t + 1,
     t_check = t + 1, t_cond = t + 1\<rparr>"

lemma ex_checker_resolves:
  "resolve_capability (hc_registry ex_checker) ''search'' = Some (''git'', ''search'')"
  unfolding ex_checker_def by code_simp

theorem hidden_after_threshold_failures_witness:
  "resolve_capability (hc_registry (failing_checks ''git'' TimeoutError
     ([ex_readings 30, ex_readings 60] @ [ex_readings 90]) ex_checker)) ''search'' = None"
proof -
  have "dict_get (health ex_checker) ''git'' = None"
    "dict_get (hc_sessions ex_checker) ''git'' = Some (ex_session [''search''] [])"
    "reg_consistent (hc_registry ex_checker)"
    "\<forall>t \<in> set ([ex_readings 30, ex_readings 60] @ [ex_readings 90]).
       t_admit_after t < t_record t + hc_cooldown ex_checker"
    "int (length [ex_readings 30, ex_readings 60]) + 1 = hc_failure_threshold ex_checker"
    by (simp_all add: ex_checker_def ex_readings_def discover_consistent)
  from hidden_after_threshold_failures [OF this, of TimeoutError "''search''"] ex_checker_resolves
  show ?thesis by simp
qed

section \<open>Recovery\<close>

lemma phase_map_not_from_FAILED:
  "phase_map st = Some p \<Longrightarrow> p \<noteq> FAILED \<Longrightarrow> \<not> is_valid_backend_transition FAILED p"
  by (cases st) (auto simp: is_valid_backend_transition_def)

lemma sync_keeps_FAILED:
  assumes "dict_get (status_records hc) b = Some r" "phase r = FAILED"
  shows "\<exists>r'. dict_get (status_records (sync_status_record n name h hc)) b = Some r' \<and> phase r' = FAILED"
proof (cases "name = b")
  case True
  show ?thesis
  proof (cases "phase_map (health_state h)")
    case (Some p)
    show ?thesis
    proof (cases "p = FAILED")
      case False
      with Some assms(2) have "\<exists>e. transition n p (sync_message h) r = Inl e"
        using phase_map_not_from_FAILED by (auto simp: transition_def)
      with True Some False assms show ?thesis
        by (auto simp: sync_status_record_def Let_def add_condition_def)
    qed (use True Some assms in \<open>simp add: sync_status_record_def\<close>)
  qed (use True assms in \<open>simp add: sync_status_record_def\<close>)
next
  case False
  with assms show ?thesis
    by (auto simp: sync_status_record_def Let_def split: option.split)
qed

lemma check_keeps_FAILED:
  assumes "dict_get (status_records hc) b = Some r" "phase r = FAILED"
  shows "\<exists>r'. dict_get (status_records (check t name outcome hc)) b = Some r' \<and> phase r' = FAILED"
proof -
  have "\<exists>r'. dict_get (status_records (sync_status_record n name h hc')) b = Some r' \<and> phase r' = FAILED"
    if "status_records hc' = status_records hc" for n h hc'
    using sync_keeps_FAILED [of hc' b r n name h] assms that by simp
  with assms show ?thesis
    by (simp add: check_def Let_def case_prod_beta split: option.split)
qed

text \<open>
  A backend that the health checker once reported as failed stays failed in its status
  record for good. The checker maps a recovered backend to the phases ready or degraded, but
  the transition table has no edge from failed to either, so every later check of any backend,
  with any outcome, leaves the phase at failed (only a warning condition is appended) even
  when the health state is healthy again and its capabilities are served.
\<close>

theorem failed_phase_is_a_trap:
  assumes "dict_get (status_records hc) b = Some r" "phase r = FAILED"
  shows "\<exists>r'. dict_get (status_records (fold (\<lambda>(t, name, outcome). check t name outcome) cs hc)) b = Some r' \<and>
    phase r' = FAILED \<and> \<not> is_operational r'"
  using assms
proof (induction cs arbitrary: hc r)
  case Nil
  then show ?case by (simp add: is_operational_def)
next
  case (Cons c cs)
  obtain t name outcome where c: "c = (t, name, outcome)" by (cases c)
  from check_keeps_FAILED [OF Cons.prems, of t name outcome] obtain r' where
    "dict_get (status_records (check t name outcome hc)) b = Some r'" "phase r' = FAILED" by blast
  from Cons.IH [OF this] show ?case by (simp add: c)
qed

text \<open>Three failed probes, then a successful one after the cooldown: healthy, but reported failed.\<close>

definition ex_failed :: HealthChecker where
  "ex_failed = failing_checks ''git'' TimeoutError [ex_readings 30, ex_readings 60, ex_readings 90] ex_checker"

lemma ex_failed_state:
  "map_option phase (dict_get (status_records ex_failed) ''git'') = Some FAILED"
  "map_option health_state (dict_get (health ex_failed) ''git'') = Some UNHEALTHY"
  "map_option health_state (dict_get (health (check (ex_readings 200) ''git'' None ex_failed)) ''git'')
     = Some HEALTHY"
  unfolding ex_failed_def ex_checker_def ex_readings_def by code_simp+

theorem failed_phase_is_a_trap_witness:
  "map_option health_state (dict_get (health (check (ex_readings 200) ''git'' None ex_failed)) ''git'')
     = Some HEALTHY \<and>
   (\<exists>r'. dict_get (status_records (check (ex_readings 200) ''git'' None ex_failed)) ''git'' = Some r' \<and>
     phase r' = FAILED \<and> \<not> is_operational r')"
proof -
  obtain r where "dict_get (status_records ex_failed) ''git'' = Some r" "phase r = FAILED"
    using ex_failed_state(1) by auto
  from failed_phase_is_a_trap [OF this, of "[(ex_readings 200, ''git'', None)]"] ex_failed_state(3)
  show ?thesis by simp
qed

text \<open>
  A successful probe of an unhealthy backend closes its breaker with no failures on
  record, reports it healthy (degraded when slower than the latency limit), notifies the
  change and schedules exactly one re-discovery of its capabilities; nothing else of the
  registry changes until that task runs.
\<close>

theorem recovery_schedules_rediscovery:
  assumes "dict_get (health hc) name = Some h" "health_state h = UNHEALTHY"
    and "fst (allows_request (t_admit t) (circuit h))"
    and "dict_get (hc_sessions hc) name = Some s"
  defines "hc' \<equiv> check t name None hc"
  shows "\<exists>h'. dict_get (health hc') name = Some h' \<and>
    health_state h' = (if (t_end t - t_start t) * 1000 > degraded_latency_ms hc then HsDEGRADED else HEALTHY) \<and>
    cb_state (circuit h') = CLOSED \<and> consecutive_failures (circuit h') = 0 \<and>
    restores hc' = restores hc @ [name] \<and> hc_registry hc' = hc_registry hc \<and>
    notified hc' = notified hc @ [(name, UNHEALTHY, health_state h')]"
  using assms(1-4)
  by (simp add: hc'_def check_def probe_health_def probed_def Let_def case_prod_beta notify_def
      sync_status_record_def restore_backend_capabilities_def record_success_def split: option.split)

theorem recovery_schedules_rediscovery_witness:
  "restores (check (ex_readings 200) ''git'' None ex_failed) = restores ex_failed @ [''git'']"
proof -
  obtain h where h: "dict_get (health ex_failed) ''git'' = Some h" "health_state h = UNHEALTHY"
    using ex_failed_state(2) by auto
  have "map_option (\<lambda>h. fst (allows_request (t_admit (ex_readings 200)) (circuit h)))
      (dict_get (health ex_failed) ''git'') = Some True"
    unfolding ex_failed_def ex_checker_def ex_readings_def by code_simp
  with h have "fst (allows_request (t_admit (ex_readings 200)) (circuit h))" by simp
  moreover have "dict_get (hc_sessions ex_failed) ''git'' = Some (ex_session [''search''] [])"
    by (simp add: ex_failed_def ex_checker_def)
  ultimately show ?thesis
    using recovery_schedules_rediscovery [OF h] by blast
qed

end
