(* ===== verification/Session_Pool.thy ===== *)
theory Session_Pool
  imports Circuit_Breaker "HOL-Library.Multiset"
begin

text \<open>
  \<open>bridge/session_pool.py\<close>: MCP sessions pooled per key, with a time to live, a capacity per
  key and a circuit breaker per key. Pool entries are objects the pool shares with whoever
  acquired them, so they live in a store (\<open>heap\<close>, addressed by numbers) and the pool holds
  addresses. The data class compares by value, so \<open>in\<close> and \<open>remove\<close> find the first entry that
  is the given one or has equal fields. Sessions and exit stacks are opaque numbers. An operation
  up to the end of its lock section is a function of the pool; \<open>taken_out\<close> lists the entries it has
  set aside to close. No lock section awaits anything, so that none is entered late or cancelled.
  The loops that close what was set aside run afterwards, entry by entry, next to other calls, and
  the task they run in may be cancelled: they are steps of their own at the end of this theory.
  The readings of the clock within one lock section are taken to be equal.
\<close>

section \<open>Definitions\<close>

type_synonym SessionKey = "string \<times> string \<times> string"
type_synonym addr = nat

record PoolEntry =
  pe_session :: nat
  pe_stack :: nat
  created_at :: rat
  last_used :: rat
  in_use :: bool

record SessionPool =
  per_key_max :: int
  ttl :: rat
  reap_interval :: rat
  cb_threshold :: int
  pool :: "(SessionKey, addr list) dict"
  circuit_breakers :: "(SessionKey, CircuitBreaker) dict"
  reaper_running :: bool
  pool_closed :: bool
  heap :: "addr \<Rightarrow> PoolEntry"
  next_addr :: addr
  taken_out :: "addr list"

definition new_pool :: "int \<Rightarrow> rat \<Rightarrow> rat \<Rightarrow> int \<Rightarrow> SessionPool" where
  "new_pool k t ri cbt =
     \<lparr>per_key_max = max 1 k, ttl = max 1 t, reap_interval = max 5 ri, cb_threshold = max 1 cbt,
      pool = [], circuit_breakers = [], reaper_running = False, pool_closed = False,
      heap = (\<lambda>_. \<lparr>pe_session = 0, pe_stack = 0, created_at = 0, last_used = 0, in_use = False\<rparr>),
      next_addr = 0, taken_out = []\<rparr>"

definition pool_start :: "SessionPool \<Rightarrow> SessionPool" where
  "pool_start p = (if reaper_running p then p else p\<lparr>pool_closed := False, reaper_running := True\<rparr>)"

text \<open>
  \<open>stop\<close> closes the pool for \<open>acquire\<close>, cancels the reaper and waits for it (whatever ends the wait,
  its own cancellation included, is swallowed), and then empties the pool.
\<close>

definition pool_stop_begin :: "SessionPool \<Rightarrow> SessionPool" where
  "pool_stop_begin p = p\<lparr>pool_closed := True\<rparr>"

definition pool_stop_end :: "SessionPool \<Rightarrow> SessionPool" where
  "pool_stop_end p =
     p\<lparr>reaper_running := False, pool := [], circuit_breakers := [], taken_out := taken_out p @ concat (map snd (pool p))\<rparr>"

definition pool_stop :: "SessionPool \<Rightarrow> SessionPool" where
  "pool_stop p = pool_stop_end (pool_stop_begin p)"

definition get_circuit_breaker :: "SessionKey \<Rightarrow> SessionPool \<Rightarrow> CircuitBreaker \<times> SessionPool" where
  "get_circuit_breaker key p =
     (case dict_get (circuit_breakers p) key of
        Some cb \<Rightarrow> (cb, p)
      | None \<Rightarrow>
          (let cb = new_breaker (''pool:'' @ fst key) (cb_threshold p) DEFAULT_COOLDOWN_SECONDS
           in (cb, p\<lparr>circuit_breakers := dict_set key cb (circuit_breakers p)\<rparr>)))"

definition entries_of :: "SessionPool \<Rightarrow> SessionKey \<Rightarrow> addr list" where
  "entries_of p key = dict_get_or [] (pool p) key"

text \<open>The scan of \<open>acquire\<close>: the first entry that is idle and younger than the time to live.\<close>

definition usable :: "SessionPool \<Rightarrow> rat \<Rightarrow> addr \<Rightarrow> bool" where
  "usable p now a \<longleftrightarrow> \<not> in_use (heap p a) \<and> now - created_at (heap p a) < ttl p"

definition pool_acquire :: "rat \<Rightarrow> rat \<Rightarrow> SessionKey \<Rightarrow> SessionPool \<Rightarrow> addr option \<times> SessionPool" where
  "pool_acquire t_cb now key p =
     (if pool_closed p then (None, p)
      else case get_circuit_breaker key p of (cb, p1) \<Rightarrow>
        (case allows_request t_cb cb of (ok, cb') \<Rightarrow>
          (let p2 = p1\<lparr>circuit_breakers := dict_set key cb' (circuit_breakers p1)\<rparr>
           in if \<not> ok then (None, p2)
              else case find (usable p2 now) (entries_of p2 key) of
                None \<Rightarrow> (None, p2)
              | Some a \<Rightarrow>
                  (Some a, p2\<lparr>heap := (heap p2)(a := (heap p2 a)\<lparr>in_use := True, last_used := now\<rparr>)\<rparr>))))"

text \<open>\<open>entries.remove(entry)\<close>: the first entry that is the same object or equal.\<close>

fun remove_entry :: "(addr \<Rightarrow> PoolEntry) \<Rightarrow> addr \<Rightarrow> addr list \<Rightarrow> addr list" where
  "remove_entry hp a [] = []"
| "remove_entry hp a (b # bs) = (if b = a \<or> hp b = hp a then bs else b # remove_entry hp a bs)"

definition member_entry :: "(addr \<Rightarrow> PoolEntry) \<Rightarrow> addr \<Rightarrow> addr list \<Rightarrow> bool" where
  "member_entry hp a bs \<longleftrightarrow> (\<exists>b \<in> set bs. b = a \<or> hp b = hp a)"

definition pool_release :: "rat \<Rightarrow> rat \<Rightarrow> bool \<Rightarrow> SessionKey \<Rightarrow> addr \<Rightarrow> SessionPool \<Rightarrow> SessionPool" where
  "pool_release t_cb now failed key a p =
     (case get_circuit_breaker key p of (cb, p1) \<Rightarrow>
       (if failed then
          (let p2 = p1\<lparr>circuit_breakers := dict_set key (record_failure t_cb cb) (circuit_breakers p1)\<rparr>;
               p3 = (case dict_get (pool p2) key of
                       None \<Rightarrow> p2
                     | Some es \<Rightarrow>
                         (if member_entry (heap p2) a es
                          then p2\<lparr>pool := dict_set key (remove_entry (heap p2) a es) (pool p2)\<rparr>
                          else p2))
           in p3\<lparr>taken_out := taken_out p3 @ [a]\<rparr>)
        else
          p1\<lparr>circuit_breakers := dict_set key (record_success t_cb cb) (circuit_breakers p1),
             heap := (heap p1)(a := (heap p1 a)\<lparr>in_use := False, last_used := now\<rparr>)\<rparr>))"

lemma remove_entry_length: "a \<in> set bs \<Longrightarrow> length (remove_entry hp a bs) < length bs"
  by (induction bs) auto

text \<open>The eviction loop of \<open>add\<close>: while the key is full and something is idle, the least
  recently used idle entry goes.\<close>

function evict :: "(addr \<Rightarrow> PoolEntry) \<Rightarrow> int \<Rightarrow> addr list \<Rightarrow> addr list \<times> addr list" where
  "evict hp m es =
     (if m \<le> int (length es) then
        (case filter (\<lambda>a. \<not> in_use (hp a)) es of
           [] \<Rightarrow> (es, [])
         | i # rest \<Rightarrow>
             (let oldest = arg_min_list (\<lambda>a. last_used (hp a)) (i # rest)
              in case evict hp m (remove_entry hp oldest es) of (es', ev) \<Rightarrow> (es', oldest # ev)))
      else (es, []))"
  by pat_completeness auto
termination
proof (relation "measure (\<lambda>(hp, m, es). length es)")
  fix hp :: "addr \<Rightarrow> PoolEntry" and m :: int and es i rest x
  assume f: "filter (\<lambda>a. \<not> in_use (hp a)) es = i # rest"
    and x: "x = arg_min_list (\<lambda>a. last_used (hp a)) (i # rest)"
  have "x \<in> set (i # rest)" unfolding x by (rule arg_min_list_in) simp
  then have "x \<in> set es" unfolding f [symmetric] by simp
  then show "((hp, m, remove_entry hp x es), hp, m, es) \<in> measure (\<lambda>(hp, m, es). length es)"
    by (simp add: remove_entry_length)
qed simp

declare evict.simps [simp del]

definition pool_add :: "rat \<Rightarrow> SessionKey \<Rightarrow> nat \<Rightarrow> nat \<Rightarrow> SessionPool \<Rightarrow> addr \<times> SessionPool" where
  "pool_add now key session stack p =
     (let a = next_addr p;
          hp = (heap p)(a := \<lparr>pe_session = session, pe_stack = stack, created_at = now, last_used = now,
                              in_use = False\<rparr>)
      in case evict hp (per_key_max p) (entries_of p key) of (es, evicted) \<Rightarrow>
        (a, p\<lparr>heap := hp, next_addr := Suc a, pool := dict_set key (es @ [a]) (pool p),
              taken_out := taken_out p @ evicted\<rparr>))"

definition pool_remove_all :: "SessionKey \<Rightarrow> SessionPool \<Rightarrow> nat \<times> SessionPool" where
  "pool_remove_all key p =
     (let es = entries_of p key
      in (length es, p\<lparr>pool := dict_del key (pool p), taken_out := taken_out p @ es\<rparr>))"

definition total_sessions :: "SessionPool \<Rightarrow> nat" where
  "total_sessions p = sum_list (map (\<lambda>(k, es). length es) (pool p))"

definition active_sessions :: "SessionPool \<Rightarrow> nat" where
  "active_sessions p = length (filter (\<lambda>a. in_use (heap p a)) (concat (map snd (pool p))))"

definition pool_stats :: "SessionPool \<Rightarrow> nat \<times> nat \<times> nat \<times> int \<times> rat" where
  "pool_stats p = (total_sessions p, active_sessions p, length (pool p), per_key_max p, ttl p)"

definition expired :: "SessionPool \<Rightarrow> rat \<Rightarrow> addr \<Rightarrow> bool" where
  "expired p now a \<longleftrightarrow> \<not> in_use (heap p a) \<and> now - created_at (heap p a) \<ge> ttl p"

text \<open>One pass of the reaper over the keys.\<close>

fun reap_keys :: "SessionPool \<Rightarrow> rat \<Rightarrow> (SessionKey, addr list) dict \<Rightarrow> (SessionKey, addr list) dict \<times> addr list" where
  "reap_keys p now [] = ([], [])"
| "reap_keys p now ((key, es) # rest) =
     (let ex = filter (expired p now) es;
          es' = fold (remove_entry (heap p)) ex es
      in case reap_keys p now rest of (rest', cl) \<Rightarrow>
        (if es' = [] then rest' else (key, es') # rest', ex @ cl))"

definition reap_expired :: "rat \<Rightarrow> SessionPool \<Rightarrow> SessionPool" where
  "reap_expired now p =
     (case reap_keys p now (pool p) of (pl, to_close) \<Rightarrow>
       p\<lparr>pool := pl, taken_out := taken_out p @ to_close\<rparr>)"

section \<open>The pool's invariant\<close>

abbreviation pooled :: "SessionPool \<Rightarrow> addr list" where
  "pooled p \<equiv> concat (map snd (pool p))"

text \<open>
  Every pooled address is allocated and pooled once; different allocated entries hold
  different sessions; every allocated entry is pooled or has been taken out, and no pooled entry
  has been taken out. Every breaker has the threshold of the pool and its own invariant.
\<close>

definition pool_ok :: "SessionPool \<Rightarrow> bool" where
  "pool_ok p \<longleftrightarrow> dict_wf (pool p) \<and> distinct (pooled p) \<and>
     inj_on (\<lambda>a. pe_session (heap p a)) {..<next_addr p} \<and>
     set (pooled p) \<union> set (taken_out p) = {..<next_addr p} \<and>
     set (pooled p) \<inter> set (taken_out p) = {}"

definition pool_breaker :: "SessionPool \<Rightarrow> CircuitBreaker \<Rightarrow> bool" where
  "pool_breaker p cb \<longleftrightarrow> breaker_ok cb \<and> failure_threshold cb = cb_threshold p \<and>
     cooldown_seconds cb = DEFAULT_COOLDOWN_SECONDS"

definition breakers_ok :: "SessionPool \<Rightarrow> bool" where
  "breakers_ok p \<longleftrightarrow> (\<forall>cb \<in> ran (dict_get (circuit_breakers p)). pool_breaker p cb)"

lemma mset_dict_set:
  "mset (concat (map snd (dict_set k v d))) + mset (dict_get_or [] d k) = mset (concat (map snd d)) + mset v"
  by (induction d) (auto simp: dict_get_or_def split: option.splits)

lemma dict_del_absent: "k \<notin> fst ` set d \<Longrightarrow> dict_del k d = d"
  by (simp add: AList.delete_eq filter_id_conv case_prod_beta) (metis image_eqI)

lemma mset_dict_del:
  "dict_wf d \<Longrightarrow> mset (concat (map snd (dict_del k d))) + mset (dict_get_or [] d k) = mset (concat (map snd d))"
proof (induction d)
  case (Cons x d)
  show ?case
  proof (cases "fst x = k")
    case True
    with Cons.prems have "dict_del k (x # d) = d" by (cases x) (simp add: dict_del_absent)
    with True show ?thesis by (simp add: dict_get_or_def)
  next
    case False
    with Cons show ?thesis by (cases x) (auto simp: dict_get_or_def)
  qed
qed (simp add: dict_get_or_def)

lemma entries_of_pooled: "set (entries_of p key) \<subseteq> set (pooled p)"
  by (cases "dict_get (pool p) key") (force simp: entries_of_def dict_get_or_def dest: map_of_SomeD)+

lemma mset_shift:
  fixes A B C D E :: "'a multiset"
  shows "A + (B + C) = D + B \<Longrightarrow> D = A + C"
    and "A + E = D + (B + C) \<Longrightarrow> A' + E = D + B \<Longrightarrow> A = A' + C"
  by (metis add.assoc add.commute add_right_cancel)+

lemma mset_add_one:
  assumes "mset xs = mset ys + mset [a]"
  shows "set xs = insert a (set ys)" "distinct xs \<longleftrightarrow> a \<notin> set ys \<and> distinct ys"
proof -
  have "mset xs = mset (a # ys)" using assms by simp
  then show "set xs = insert a (set ys)" "distinct xs \<longleftrightarrow> a \<notin> set ys \<and> distinct ys"
    by (metis list.simps(15) mset_eq_setD, metis distinct.simps(2) mset_eq_imp_distinct_iff)
qed

text \<open>An operation that moves some pooled entries to \<open>taken_out\<close> keeps the invariant.\<close>

lemma pool_ok_move:
  assumes ok: "pool_ok p"
    and move: "mset (pooled p) = mset (pooled p') + mset ev" "set (taken_out p') = set (taken_out p) \<union> set ev"
    and keep: "dict_wf (pool p')" "next_addr p' = next_addr p"
      "\<And>a. pe_session (heap p' a) = pe_session (heap p a)"
  shows "pool_ok p'"
proof -
  have m: "mset (pooled p) = mset (pooled p' @ ev)" using move(1) by simp
  then have s: "set (pooled p) = set (pooled p') \<union> set ev" by (metis set_append set_mset_mset)
  have d: "distinct (pooled p' @ ev)" using ok m by (metis mset_eq_imp_distinct_iff pool_ok_def)
  have o: "set (pooled p) \<union> set (taken_out p) = {..<next_addr p}" "set (pooled p) \<inter> set (taken_out p) = {}"
    using ok by (simp_all add: pool_ok_def)
  then have "set (pooled p') \<union> set (taken_out p') = {..<next_addr p'}"
    unfolding move(2) keep(2) s by auto
  moreover have "set (pooled p') \<inter> set (taken_out p') = {}"
    using o d unfolding move(2) s distinct_append by auto
  ultimately show ?thesis using ok d keep by (simp add: pool_ok_def)
qed

lemma remove_entry_inj:
  assumes "inj_on hp S" "set bs \<subseteq> S" "a \<in> S"
  shows "remove_entry hp a bs = remove1 a bs"
  using assms by (induction bs) (auto simp: inj_on_def)

lemma inj_heap: "pool_ok p \<Longrightarrow> inj_on (heap p) {..<next_addr p}"
  by (auto simp: pool_ok_def inj_on_def)

lemma entries_allocated: "pool_ok p \<Longrightarrow> set (entries_of p key) \<subseteq> {..<next_addr p}"
  using entries_of_pooled [of p key] by (auto simp: pool_ok_def)

section \<open>Eviction\<close>

lemma arg_min_list_least:
  fixes f :: "'a \<Rightarrow> 'b :: linorder"
  shows "x \<in> set xs \<Longrightarrow> f (arg_min_list f xs) \<le> f x"
  by (metis Min_le f_arg_min_list_f finite_imageI image_eqI list.set_cases list.distinct(1) finite_set)

text \<open>What evicting promises: \<open>es\<close> is split into the kept and the evicted entries, only idle
  entries go, the least recently used first, none goes below the capacity, and afterwards
  there is room unless every kept entry is in use.\<close>

definition eviction :: "(addr \<Rightarrow> PoolEntry) \<Rightarrow> int \<Rightarrow> addr list \<Rightarrow> addr list \<Rightarrow> addr list \<Rightarrow> bool" where
  "eviction hp m es es' ev \<longleftrightarrow> mset es = mset es' + mset ev \<and>
     (\<forall>a \<in> set ev. \<not> in_use (hp a) \<and>
        (\<forall>b \<in> set es'. \<not> in_use (hp b) \<longrightarrow> last_used (hp a) \<le> last_used (hp b))) \<and>
     (int (length es') < m \<or> (\<forall>b \<in> set es'. in_use (hp b))) \<and>
     (int (length es) < m \<longrightarrow> ev = [])"

lemma evict_stop:
  "int (length es) < m \<or> (\<forall>b \<in> set es. in_use (hp b)) \<Longrightarrow> evict hp m es = (es, [])"
  by (subst evict.simps) (auto split: list.split simp: filter_eq_Cons_iff)

lemma evict_go:
  assumes "m \<le> int (length es)" "b \<in> set es" "\<not> in_use (hp b)" "inj_on hp (set es)"
  obtains x where "x \<in> set es" "\<not> in_use (hp x)"
    "\<forall>b \<in> set es. \<not> in_use (hp b) \<longrightarrow> last_used (hp x) \<le> last_used (hp b)"
    "evict hp m es = (case evict hp m (remove1 x es) of (es', ev) \<Rightarrow> (es', x # ev))"
proof -
  let ?idle = "filter (\<lambda>a. \<not> in_use (hp a)) es"
  let ?x = "arg_min_list (\<lambda>a. last_used (hp a)) ?idle"
  have ne: "?idle \<noteq> []" using assms(2,3) by (auto simp: filter_empty_conv)
  then have x: "?x \<in> set ?idle" by (rule arg_min_list_in)
  then have "remove_entry hp ?x es = remove1 ?x es"
    using assms(4) by (intro remove_entry_inj) auto
  then have "evict hp m es = (case evict hp m (remove1 ?x es) of (es', ev) \<Rightarrow> (es', ?x # ev))"
    using assms(1) ne by (subst evict.simps) (auto split: list.split simp: Let_def)
  with x show ?thesis by (intro that) (auto intro: arg_min_list_least)
qed

lemma evict_eviction:
  assumes "inj_on hp (set es)" "evict hp m es = (es', ev)"
  shows "eviction hp m es es' ev"
  using assms
proof (induction es arbitrary: es' ev rule: measure_induct_rule [of length])
  case (less es)
  show ?case
  proof (cases "int (length es) < m \<or> (\<forall>b \<in> set es. in_use (hp b))")
    case True
    with less.prems show ?thesis by (auto simp: evict_stop eviction_def)
  next
    case False
    with less.prems obtain x where x: "x \<in> set es" "\<not> in_use (hp x)"
      "\<forall>b \<in> set es. \<not> in_use (hp b) \<longrightarrow> last_used (hp x) \<le> last_used (hp b)"
      and e: "evict hp m es = (case evict hp m (remove1 x es) of (es', ev) \<Rightarrow> (es', x # ev))"
      by (metis evict_go not_le)
    from e less.prems(2) obtain ev' where e': "evict hp m (remove1 x es) = (es', ev')" "ev = x # ev'"
      by (auto split: prod.splits)
    have "length (remove1 x es) < length es" 
      using x(1) length_pos_if_in_set [OF x(1)] by (simp add: length_remove1)
    moreover have "inj_on hp (set (remove1 x es))"
      using less.prems(1) by (rule inj_on_subset) (rule set_remove1_subset)
    ultimately have IH: "eviction hp m (remove1 x es) es' ev'" using less.IH e'(1) by blast
    then have "set es' \<subseteq> set es"
      by (metis eviction_def mset_subset_eq_add_left set_mset_mono set_mset_mset set_remove1_subset subset_trans)
    moreover have "mset es = add_mset x (mset (remove1 x es))" using x(1) by simp
    ultimately show ?thesis using IH x e'(2) False by (auto simp: eviction_def subset_iff simp del: mset_remove1)
  qed
qed

section \<open>Reaping\<close>

lemma fold_remove1:
  "distinct es \<Longrightarrow> fold remove1 xs es = filter (\<lambda>a. a \<notin> set xs) es"
  by (induction xs arbitrary: es)
    (auto simp: distinct_remove1_removeAll removeAll_filter_not_eq intro!: filter_cong)

lemma fold_remove_entry:
  "inj_on hp S \<Longrightarrow> set es \<subseteq> S \<Longrightarrow> set xs \<subseteq> S \<Longrightarrow> fold (remove_entry hp) xs es = fold remove1 xs es"
proof (induction xs arbitrary: es)
  case (Cons x xs)
  have "remove_entry hp x es = remove1 x es" using Cons.prems by (intro remove_entry_inj) auto
  moreover have "set (remove1 x es) \<subseteq> S" using Cons.prems(2) set_remove1_subset by (rule subset_trans [rotated])
  ultimately show ?case using Cons by simp
qed simp

lemma reap_keys_eq:
  assumes "inj_on (heap p) S" "set (concat (map snd d)) \<subseteq> S" "distinct (concat (map snd d))"
  shows "reap_keys p now d =
    (filter (\<lambda>(k, es). es \<noteq> []) (map (\<lambda>(k, es). (k, filter (\<lambda>a. \<not> expired p now a) es)) d),
     filter (expired p now) (concat (map snd d)))"
  using assms(2,3)
proof (induction d)
  case (Cons x d)
  obtain k es where x: "x = (k, es)" by (cases x)
  have "fold (remove_entry (heap p)) (filter (expired p now) es) es =
      fold remove1 (filter (expired p now) es) es"
    using Cons.prems assms(1) by (intro fold_remove_entry [of _ S]) (auto simp: x)
  also have "\<dots> = filter (\<lambda>a. \<not> expired p now a) es"
    using Cons.prems by (auto simp: x fold_remove1 intro!: filter_cong)
  finally show ?case using Cons by (simp add: x Let_def)
qed simp

lemma reap_expired_eq:
  assumes "pool_ok p"
  shows "pool (reap_expired now p) =
      filter (\<lambda>(k, es). es \<noteq> []) (map (\<lambda>(k, es). (k, filter (\<lambda>a. \<not> expired p now a) es)) (pool p))"
    and "taken_out (reap_expired now p) = taken_out p @ filter (expired p now) (pooled p)"
proof -
  have "set (pooled p) \<subseteq> {..<next_addr p}" "distinct (pooled p)" using assms by (auto simp: pool_ok_def)
  then show "pool (reap_expired now p) =
      filter (\<lambda>(k, es). es \<noteq> []) (map (\<lambda>(k, es). (k, filter (\<lambda>a. \<not> expired p now a) es)) (pool p))"
    and "taken_out (reap_expired now p) = taken_out p @ filter (expired p now) (pooled p)"
    using reap_keys_eq [OF inj_heap [OF assms]] by (simp_all add: reap_expired_def)
qed

lemma concat_drop_empty:
  "concat (map snd (filter (\<lambda>(k, es). es \<noteq> []) (map (\<lambda>(k, es). (k, filter P es)) d))) = filter P (concat (map snd d))"
  by (induction d) auto

lemma dict_wf_reaped:
  "dict_wf d \<Longrightarrow> dict_wf (filter (\<lambda>(k, es). es \<noteq> []) (map (\<lambda>(k, es). (k, filter P es)) d))"
  by (induction d) (auto simp: image_iff)

lemma dict_get_or_reaped:
  assumes "dict_wf d"
  shows "dict_get_or [] (filter (\<lambda>(k, es). es \<noteq> []) (map (\<lambda>(k, es). (k, filter P es)) d)) key
      = filter P (dict_get_or [] d key)"
  using assms
proof (induction d)
  case (Cons x d)
  have "fst x \<notin> fst ` set (filter (\<lambda>(k, es). es \<noteq> []) (map (\<lambda>(k, es). (k, filter P es)) d))"
    using Cons.prems by (force simp: image_iff)
  then have "map_of (filter (\<lambda>(k, es). es \<noteq> []) (map (\<lambda>(k, es). (k, filter P es)) d)) (fst x) = None"
    by (simp only: map_of_eq_None_iff not_False_eq_True)
  with Cons show ?case by (cases x) (auto simp: dict_get_or_def)
qed (simp add: dict_get_or_def)

text \<open>
  A pass of the reaper closes exactly the idle entries whose age has reached the time to
  live and keeps all others under their keys; no entry in use is ever reaped, and a key with
  no entry left is dropped.
\<close>

theorem reap_exact:
  assumes "pool_ok p"
  shows "entries_of (reap_expired now p) key = filter (\<lambda>a. \<not> expired p now a) (entries_of p key) \<and>
    taken_out (reap_expired now p) = taken_out p @ filter (expired p now) (pooled p) \<and>
    (key, []) \<notin> set (pool (reap_expired now p))"
  using assms
  by (simp add: entries_of_def reap_expired_eq dict_get_or_reaped pool_ok_def)

section \<open>Operations keep the invariant\<close>

lemma get_circuit_breaker_keep [simp]:
  "pool (snd (get_circuit_breaker key p)) = pool p"
  "heap (snd (get_circuit_breaker key p)) = heap p"
  "next_addr (snd (get_circuit_breaker key p)) = next_addr p"
  "taken_out (snd (get_circuit_breaker key p)) = taken_out p"
  "pool_closed (snd (get_circuit_breaker key p)) = pool_closed p"
  "ttl (snd (get_circuit_breaker key p)) = ttl p"
  "per_key_max (snd (get_circuit_breaker key p)) = per_key_max p"
  "cb_threshold (snd (get_circuit_breaker key p)) = cb_threshold p"
  by (simp_all add: get_circuit_breaker_def Let_def split: option.split)

lemmas pool_op_defs = pool_acquire_def pool_release_def pool_add_def pool_remove_all_def
  pool_stop_begin_def pool_stop_end_def pool_start_def Let_def case_prod_beta

lemma pool_ok_new: "pool_ok (new_pool k t ri c)"
  by (simp add: pool_ok_def new_pool_def)

lemma pool_ok_start: "pool_ok p \<Longrightarrow> pool_ok (pool_start p)"
  by (simp add: pool_ok_def pool_start_def)

lemma pool_ok_wf: "pool_ok p \<Longrightarrow> dict_wf (pool p)"
  by (simp add: pool_ok_def)

lemma pool_ok_stop_begin: "pool_ok p \<Longrightarrow> pool_ok (pool_stop_begin p)"
  by (simp add: pool_ok_def pool_stop_begin_def)

lemma pool_ok_stop_end:
  assumes "pool_ok p"
  shows "pool_ok (pool_stop_end p)"
  by (rule pool_ok_move [OF assms, where ev = "pooled p"]) (simp_all add: pool_stop_end_def)

lemma pool_acquire_keep [simp]:
  "pool (snd (pool_acquire t now key p)) = pool p"
  "next_addr (snd (pool_acquire t now key p)) = next_addr p"
  "taken_out (snd (pool_acquire t now key p)) = taken_out p"
  "pe_session (heap (snd (pool_acquire t now key p)) a) = pe_session (heap p a)"
  by (simp_all add: pool_op_defs split: option.split)

lemma pool_ok_acquire:
  assumes "pool_ok p"
  shows "pool_ok (snd (pool_acquire t now key p))"
  by (rule pool_ok_move [OF assms, where ev = "[]"]) (simp_all add: pool_ok_wf [OF assms])

lemma pool_ok_remove_all:
  assumes "pool_ok p"
  shows "pool_ok (snd (pool_remove_all key p))"
  by (rule pool_ok_move [OF assms, where ev = "entries_of p key"])
    (simp_all add: pool_remove_all_def entries_of_def mset_dict_del pool_ok_wf [OF assms] Let_def)

lemma pool_ok_reap:
  assumes "pool_ok p"
  shows "pool_ok (reap_expired now p)"
proof (rule pool_ok_move [OF assms, where ev = "filter (expired p now) (pooled p)"])
  show "mset (pooled p) = mset (pooled (reap_expired now p)) + mset (filter (expired p now) (pooled p))"
    by (simp only: reap_expired_eq [OF assms] concat_drop_empty mset_filter)
      (simp add: union_commute flip: multiset_partition)
qed (simp_all add: reap_expired_eq [OF assms] dict_wf_reaped pool_ok_wf [OF assms],
     simp_all add: reap_expired_def case_prod_beta)

lemma pool_release_keep [simp]:
  "next_addr (pool_release t now failed key a p) = next_addr p"
  "pe_session (heap (pool_release t now failed key a p) b) = pe_session (heap p b)"
  "taken_out (pool_release t now failed key a p) = taken_out p @ (if failed then [a] else [])"
  by (simp_all add: pool_op_defs split: option.split)

lemma entries_of_Some: "a \<in> set (entries_of p key) \<Longrightarrow> dict_get (pool p) key = Some (entries_of p key)"
  by (cases "dict_get (pool p) key") (simp_all add: entries_of_def dict_get_or_def)

text \<open>Releasing changes the pool only when it gives up an entry: the entry goes.\<close>

lemma pool_release_pool:
  assumes ok: "pool_ok p" and a: "a < next_addr p"
  shows "pool (pool_release t now failed key a p) =
    (if failed \<and> a \<in> set (entries_of p key) then dict_set key (remove1 a (entries_of p key)) (pool p) else pool p)"
proof -
  have inj: "b = a" if "b \<in> set (entries_of p key)" "heap p b = heap p a" for b
    using that a inj_heap [OF ok] entries_allocated [OF ok, of key] by (auto simp: inj_on_def)
  then have m: "member_entry (heap p) a (entries_of p key) \<longleftrightarrow> a \<in> set (entries_of p key)"
    by (auto simp: member_entry_def)
  have r: "remove_entry (heap p) a (entries_of p key) = remove1 a (entries_of p key)"
    using a inj_heap [OF ok] entries_allocated [OF ok, of key] by (intro remove_entry_inj) auto
  show ?thesis
  proof (cases "dict_get (pool p) key")
    case None
    then show ?thesis by (simp add: pool_op_defs entries_of_def dict_get_or_def)
  next
    case (Some es)
    then have "entries_of p key = es" by (simp add: entries_of_def dict_get_or_def)
    with Some m r show ?thesis by (simp add: pool_op_defs)
  qed
qed

text \<open>The caller of \<open>release\<close> holds an entry of this key, or one no longer pooled.\<close>

lemma pool_ok_release:
  assumes ok: "pool_ok p" and a: "a < next_addr p" "a \<in> set (pooled p) \<Longrightarrow> a \<in> set (entries_of p key)"
  shows "pool_ok (pool_release t now failed key a p)"
proof (cases "failed \<and> a \<in> set (entries_of p key)")
  case True
  let ?es = "entries_of p key"
  let ?d = "dict_set key (remove1 a ?es) (pool p)"
  have "mset (concat (map snd ?d)) + mset ?es = mset (pooled p) + mset (remove1 a ?es)"
    using mset_dict_set [of key "remove1 a ?es" "pool p"] by (simp only: entries_of_def)
  moreover have "mset ?es = mset (remove1 a ?es) + mset [a]" using True by simp
  ultimately have "mset (pooled p) = mset (concat (map snd ?d)) + mset [a]"
    by (metis mset_shift(1))
  then show ?thesis
    using True pool_ok_wf [OF ok]
    by (intro pool_ok_move [OF ok, where ev = "[a]"]) (simp_all only: pool_release_pool [OF ok a(1)], simp_all)
next
  case False
  have p: "pool (pool_release t now failed key a p) = pool p"
    using False by (simp only: pool_release_pool [OF ok a(1)] if_False)
  have "failed \<Longrightarrow> a \<in> set (taken_out p)"
    using False a ok by (auto simp: pool_ok_def)
  then show ?thesis using ok unfolding pool_ok_def p by auto
qed

lemma pool_ok_add:
  assumes ok: "pool_ok p" and fresh: "\<forall>a < next_addr p. pe_session (heap p a) \<noteq> session"
  shows "pool_ok (snd (pool_add now key session stack p))"
proof -
  let ?a = "next_addr p"
  let ?hp = "(heap p)(?a := \<lparr>pe_session = session, pe_stack = stack, created_at = now, last_used = now, in_use = False\<rparr>)"
  obtain es ev where e: "evict ?hp (per_key_max p) (entries_of p key) = (es, ev)" by (cases "evict ?hp (per_key_max p) (entries_of p key)")
  have "inj_on ?hp (set (entries_of p key))"
    using inj_heap [OF ok] entries_allocated [OF ok, of key] by (fastforce simp: inj_on_def)
  then have m: "mset (entries_of p key) = mset es + mset ev" using e evict_eviction by (auto simp: eviction_def)
  let ?q = "p\<lparr>pool := dict_set key es (pool p), taken_out := taken_out p @ ev\<rparr>"
  have q: "mset (pooled ?q) + mset (entries_of p key) = mset (pooled p) + mset es"
    using mset_dict_set [of key es "pool p"] by (simp add: entries_of_def)
  have "pool_ok ?q"
  proof (rule pool_ok_move [OF ok, where ev = ev])
    show "mset (pooled p) = mset (pooled ?q) + mset ev" using q unfolding m by (rule mset_shift(1))
  qed (simp_all add: pool_ok_wf [OF ok])
  moreover have pl: "pool (snd (pool_add now key session stack p)) = dict_set key (es @ [?a]) (pool p)"
    by (simp add: pool_add_def e Let_def)
  have "mset (pooled (snd (pool_add now key session stack p))) = mset (pooled ?q) + mset [?a]"
    using mset_shift(2) [OF _ q, of _ "mset [?a]"] mset_dict_set [of key "es @ [?a]" "pool p"]
    unfolding pl by (simp add: entries_of_def)
  note s = mset_add_one [OF this]
  moreover have "pe_session (heap (snd (pool_add now key session stack p)) b) =
      (if b = ?a then session else pe_session (heap p b))" for b
    by (simp add: pool_add_def e Let_def)
  moreover have "next_addr (snd (pool_add now key session stack p)) = Suc ?a"
    "dict_wf (pool (snd (pool_add now key session stack p)))"
    "taken_out (snd (pool_add now key session stack p)) = taken_out ?q"
    using pool_ok_wf [OF ok] by (simp_all add: pool_add_def e Let_def)
  ultimately show ?thesis
    using fresh unfolding pool_ok_def s by (auto simp: inj_on_def lessThan_Suc)
qed

section \<open>Runs of the pool\<close>

text \<open>
  The calls a client and the reaper make, up to the end of their lock sections. A client adds
  sessions it has just created (an object no earlier entry holds) and releases an entry that is
  still pooled under the key it is pooled for.
\<close>

inductive pool_call :: "SessionPool \<Rightarrow> SessionPool \<Rightarrow> bool" where
  start: "pool_call p (pool_start p)"
| stop_begin: "pool_call p (pool_stop_begin p)"
| stop_end: "pool_call p (pool_stop_end p)"
| acquire: "pool_call p (snd (pool_acquire t now key p))"
| release: "a < next_addr p \<Longrightarrow> (a \<in> set (pooled p) \<Longrightarrow> a \<in> set (entries_of p key)) \<Longrightarrow>
    pool_call p (pool_release t now failed key a p)"
| add: "\<forall>a < next_addr p. pe_session (heap p a) \<noteq> session \<Longrightarrow>
    pool_call p (snd (pool_add now key session stack p))"
| remove_all: "pool_call p (snd (pool_remove_all key p))"
| reap: "pool_call p (reap_expired now p)"

inductive pool_reach :: "SessionPool \<Rightarrow> bool" where
  init: "pool_reach (new_pool k t ri c)"
| call: "pool_reach p \<Longrightarrow> pool_call p p' \<Longrightarrow> pool_reach p'"

lemma pool_call_ok: "pool_call p p' \<Longrightarrow> pool_ok p \<Longrightarrow> pool_ok p'"
  by (induction rule: pool_call.induct)
    (blast intro: pool_ok_start pool_ok_stop_begin pool_ok_stop_end pool_ok_acquire pool_ok_release pool_ok_add
      pool_ok_remove_all pool_ok_reap)+

lemma pool_reach_ok: "pool_reach p \<Longrightarrow> pool_ok p"
  by (induction rule: pool_reach.induct) (auto intro: pool_ok_new pool_call_ok)

section \<open>Closing what was taken out\<close>

text \<open>
  After its lock section a call closes the entries it has taken out, one after the other, outside
  the lock (\<open>_close_entry\<close> swallows what closing a stack raises or that it takes too long, but not
  the cancellation of the task). The state is the pool with the entries each call has still to
  close, those whose closing has begun, and those that were dropped because their call was
  cancelled: \<open>stop\<close> cancels the reaper, also when it is closing what it has reaped.
\<close>

record pool_run =
  pr_pool :: SessionPool
  pr_closing :: "addr list list"
  pr_closed :: "addr list"
  pr_dropped :: "addr list"

definition close_next :: "nat \<Rightarrow> pool_run \<Rightarrow> pool_run" where
  "close_next i r =
     (if i < length (pr_closing r)
      then case pr_closing r ! i of
             [] \<Rightarrow> r
           | a # as \<Rightarrow> r\<lparr>pr_closing := (pr_closing r)[i := as], pr_closed := pr_closed r @ [a]\<rparr>
      else r)"

definition cancel_closing :: "nat \<Rightarrow> pool_run \<Rightarrow> pool_run" where
  "cancel_closing i r =
     (if i < length (pr_closing r)
      then r\<lparr>pr_closing := (pr_closing r)[i := []], pr_dropped := pr_dropped r @ pr_closing r ! i\<rparr>
      else r)"

definition start_closing :: "SessionPool \<Rightarrow> pool_run \<Rightarrow> pool_run" where
  "start_closing p r = r\<lparr>pr_pool := p, pr_closing := pr_closing r @ [drop (length (taken_out (pr_pool r))) (taken_out p)]\<rparr>"

inductive pool_runs :: "bool \<Rightarrow> pool_run \<Rightarrow> bool" for cancels where
  new: "pool_runs cancels \<lparr>pr_pool = new_pool k t ri c, pr_closing = [], pr_closed = [], pr_dropped = []\<rparr>"
| called: "pool_runs cancels r \<Longrightarrow> pool_call (pr_pool r) p \<Longrightarrow> pool_runs cancels (start_closing p r)"
| closes: "pool_runs cancels r \<Longrightarrow> pool_runs cancels (close_next i r)"
| cancelled: "pool_runs cancels r \<Longrightarrow> cancels \<Longrightarrow> pool_runs cancels (cancel_closing i r)"

lemma pool_call_takes_out: "pool_call p p' \<Longrightarrow> \<exists>ev. taken_out p' = taken_out p @ ev"
  by (induction rule: pool_call.induct)
    (auto simp: pool_op_defs reap_expired_def split: option.split)

lemma set_concat_update:
  "i < length xss \<Longrightarrow> set (concat (xss[i := ys])) = set ys \<union> set (concat (xss[i := []]))"
proof (induction xss arbitrary: i)
  case (Cons xs xss)
  then show ?case by (cases i) auto
qed simp

lemma set_concat_split: "i < length xss \<Longrightarrow> set (concat xss) = set (xss ! i) \<union> set (concat (xss[i := []]))"
  using set_concat_update [of i xss "xss ! i"] by simp

definition run_ok :: "bool \<Rightarrow> pool_run \<Rightarrow> bool" where
  "run_ok cancels r \<longleftrightarrow> pool_ok (pr_pool r) \<and>
     set (taken_out (pr_pool r)) = set (concat (pr_closing r)) \<union> set (pr_closed r) \<union> set (pr_dropped r) \<and>
     (cancels \<or> pr_dropped r = [])"

lemma run_ok_closes: "run_ok cancels r \<Longrightarrow> run_ok cancels (close_next i r)"
  using set_concat_split [of i "pr_closing r"] set_concat_update [of i "pr_closing r" "tl (pr_closing r ! i)"]
  unfolding run_ok_def close_next_def by (cases "pr_closing r ! i") (simp_all del: set_concat, blast?)

lemma run_ok_cancelled: "run_ok cancels r \<Longrightarrow> cancels \<Longrightarrow> run_ok cancels (cancel_closing i r)"
  using set_concat_split [of i "pr_closing r"]
  unfolding run_ok_def cancel_closing_def by (simp del: set_concat) blast

lemma pool_runs_ok: "pool_runs cancels r \<Longrightarrow> run_ok cancels r"
proof (induction rule: pool_runs.induct)
  case (called r p)
  obtain ev where "taken_out p = taken_out (pr_pool r) @ ev" using pool_call_takes_out [OF called(2)] by blast
  with called show ?case using pool_call_ok [OF called(2)] by (auto simp: run_ok_def start_closing_def)
next
  case (new k t ri c)
  show ?case by (simp add: run_ok_def pool_ok_new) (simp add: new_pool_def)
qed (simp_all add: run_ok_closes run_ok_cancelled)

text \<open>
  C6: No session is forgotten. After any sequence of calls, in any interleaving with the closing of
  what earlier calls have taken out, every session ever added is in the pool, exactly once, or
  some call is about to close it, or its closing has begun, or the call that was to close it was
  cancelled; no session in the pool is any of the others. Without such a cancellation none is
  lost, and once every call has ended each session is pooled or closed. Callers are taken to add
  a session once and to release an entry that is pooled under the key it is pooled for.
\<close>

theorem pool_never_leaks:
  assumes "pool_runs cancels r"
  shows "distinct (pooled (pr_pool r)) \<and>
    set (pooled (pr_pool r)) \<union> (set (concat (pr_closing r)) \<union> set (pr_closed r) \<union> set (pr_dropped r)) = {..<next_addr (pr_pool r)} \<and>
    set (pooled (pr_pool r)) \<inter> (set (concat (pr_closing r)) \<union> set (pr_closed r) \<union> set (pr_dropped r)) = {} \<and>
    (cancels \<or> pr_dropped r = []) \<and>
    (\<not> cancels \<and> concat (pr_closing r) = [] \<longrightarrow> set (pooled (pr_pool r)) \<union> set (pr_closed r) = {..<next_addr (pr_pool r)})"
proof -
  have ok: "run_ok cancels r" using assms by (rule pool_runs_ok)
  then have t: "set (taken_out (pr_pool r)) = set (concat (pr_closing r)) \<union> set (pr_closed r) \<union> set (pr_dropped r)"
    and d: "cancels \<or> pr_dropped r = []" unfolding run_ok_def by blast+
  have "distinct (pooled (pr_pool r))" "set (pooled (pr_pool r)) \<union> set (taken_out (pr_pool r)) = {..<next_addr (pr_pool r)}"
    "set (pooled (pr_pool r)) \<inter> set (taken_out (pr_pool r)) = {}"
    using ok unfolding run_ok_def pool_ok_def by blast+
  then show ?thesis using d unfolding t by (auto simp del: set_concat concat_eq_Nil_conv)
qed

definition ex_key :: SessionKey where
  "ex_key = (''http://git'', ''anon'', ''sse'')"

definition ex_pool :: SessionPool where
  "ex_pool = snd (pool_add 12 ex_key 8 8 (snd (pool_add 10 ex_key 7 7 (new_pool 2 300 30 3))))"

lemma ex_pool_reach: "pool_reach ex_pool"
  unfolding ex_pool_def
  by (intro pool_reach.init pool_reach.call [OF _ pool_call.add])
    (simp_all add: new_pool_def pool_add_def evict_stop entries_of_def dict_get_or_def ex_key_def)

lemma ex_pool_eval:
  "pool ex_pool = [(ex_key, [0, 1])]" "taken_out ex_pool = []" "next_addr ex_pool = 2"
  "heap ex_pool 0 = \<lparr>pe_session = 7, pe_stack = 7, created_at = 10, last_used = 10, in_use = False\<rparr>"
  "heap ex_pool (Suc 0) = \<lparr>pe_session = 8, pe_stack = 8, created_at = 12, last_used = 12, in_use = False\<rparr>"
  "ttl ex_pool = 300" "per_key_max ex_pool = 2" "pool_closed ex_pool = False"
  "circuit_breakers ex_pool = []" "cb_threshold ex_pool = 3"
  by (simp_all add: ex_pool_def new_pool_def pool_add_def evict_stop entries_of_def dict_get_or_def ex_key_def)

text \<open>Both sessions expire and are reaped, and the closing of the first has begun.\<close>

definition ex_reaped :: pool_run where
  "ex_reaped = close_next 2 (start_closing (reap_expired 400 ex_pool)
     \<lparr>pr_pool = ex_pool, pr_closing = [[], []], pr_closed = [], pr_dropped = []\<rparr>)"

lemma ex_reaped_runs: "pool_runs cancels ex_reaped"
proof -
  let ?p0 = "new_pool 2 300 30 3" and ?p1 = "snd (pool_add 10 ex_key 7 7 (new_pool 2 300 30 3))"
  let ?r0 = "\<lparr>pr_pool = ?p0, pr_closing = [], pr_closed = [], pr_dropped = []\<rparr>"
  have "pool_runs cancels (start_closing ex_pool (start_closing ?p1 ?r0))"
    unfolding ex_pool_def
    by (intro pool_runs.called pool_runs.new; simp add: start_closing_def; intro pool_call.add)
      (simp_all add: new_pool_def pool_add_def evict_stop entries_of_def dict_get_or_def ex_key_def)
  moreover have "start_closing ex_pool (start_closing ?p1 ?r0) = \<lparr>pr_pool = ex_pool, pr_closing = [[], []], pr_closed = [], pr_dropped = []\<rparr>"
    by (simp add: start_closing_def ex_pool_eval)
      (simp add: new_pool_def pool_add_def evict_stop entries_of_def dict_get_or_def ex_key_def)
  ultimately have "pool_runs cancels \<lparr>pr_pool = ex_pool, pr_closing = [[], []], pr_closed = [], pr_dropped = []\<rparr>" by simp
  then show ?thesis unfolding ex_reaped_def by (intro pool_runs.closes pool_runs.called) (simp_all add: pool_call.reap)
qed

lemma ex_reap_eval: "pool (reap_expired 400 ex_pool) = []" "taken_out (reap_expired 400 ex_pool) = [0, 1]" "next_addr (reap_expired 400 ex_pool) = 2"
  by (simp_all add: reap_expired_def ex_pool_eval expired_def Let_def ex_key_def)

lemma ex_reaped_eval: "pr_closed ex_reaped = [0]" "pr_closing ex_reaped = [[], [], [1]]" "pr_pool ex_reaped = reap_expired 400 ex_pool"
  by (simp_all add: ex_reaped_def close_next_def start_closing_def ex_reap_eval ex_pool_eval nth_append list_update_append)

theorem pool_never_leaks_witness:
  "set (pooled (pr_pool ex_reaped)) \<union> (set (concat (pr_closing ex_reaped)) \<union> set (pr_closed ex_reaped) \<union> set (pr_dropped ex_reaped)) =
     {..<next_addr (pr_pool ex_reaped)} \<and> pr_dropped ex_reaped = [] \<and> next_addr (pr_pool ex_reaped) = 2"
proof -
  have "next_addr (pr_pool ex_reaped) = 2" by (simp add: ex_reaped_eval ex_reap_eval)
  then show ?thesis using pool_never_leaks [OF ex_reaped_runs [of False]] by blast
qed

text \<open>
  When \<open>stop\<close> cancels the reaper at this point, the second session is dropped: it is no longer
  pooled, so that \<open>stop\<close> does not find it, and nobody closes it.
\<close>

lemma stop_drops_reaped_session:
  "let r = start_closing (pool_stop (pr_pool ex_reaped)) (cancel_closing 2 ex_reaped)
   in pr_dropped r = [1] \<and> pooled (pr_pool r) = [] \<and> concat (pr_closing r) = [] \<and> pr_closed r = [0]"
  by (simp add: Let_def cancel_closing_def start_closing_def ex_reaped_eval ex_reap_eval pool_stop_def pool_stop_begin_def pool_stop_end_def)
    (simp add: ex_reaped_def close_next_def start_closing_def ex_reap_eval ex_pool_eval nth_append)

theorem reap_exact_witness:
  "taken_out (reap_expired 311 ex_pool) = [0]"
  using reap_exact [OF pool_reach_ok [OF ex_pool_reach], of 311]
  by (simp add: ex_pool_eval expired_def)

text \<open>
  Adding a session never exceeds the capacity of its key unless every other entry of the
  key is in use; entries are evicted only when the key is full, only idle ones, and the least
  recently used first; the new entry and the entries of all other keys are kept.
\<close>

theorem add_evicts_idle_lru:
  assumes "pool_ok p" "\<forall>a < next_addr p. pe_session (heap p a) \<noteq> session"
    and "pool_add now key session stack p = (a, p')"
  shows "\<exists>kept ev. entries_of p' key = kept @ [a] \<and> taken_out p' = taken_out p @ ev \<and>
    mset (entries_of p key) = mset kept + mset ev \<and>
    (\<forall>e \<in> set ev. \<not> in_use (heap p e) \<and>
      (\<forall>b \<in> set kept. \<not> in_use (heap p b) \<longrightarrow> last_used (heap p e) \<le> last_used (heap p b))) \<and>
    (int (length (entries_of p key)) < per_key_max p \<longrightarrow> ev = []) \<and>
    (int (length (entries_of p' key)) \<le> per_key_max p \<or> (\<forall>b \<in> set kept. in_use (heap p b))) \<and>
    (\<forall>key'. key' \<noteq> key \<longrightarrow> entries_of p' key' = entries_of p key')"
proof -
  let ?hp = "(heap p)(next_addr p := \<lparr>pe_session = session, pe_stack = stack, created_at = now, last_used = now, in_use = False\<rparr>)"
  obtain kept ev where e: "evict ?hp (per_key_max p) (entries_of p key) = (kept, ev)"
    by (cases "evict ?hp (per_key_max p) (entries_of p key)")
  have sub: "set (entries_of p key) \<subseteq> {..<next_addr p}" using assms(1) by (rule entries_allocated)
  then have "inj_on ?hp (set (entries_of p key))"
    using inj_heap [OF assms(1)] by (fastforce simp: inj_on_def)
  then have ev: "eviction ?hp (per_key_max p) (entries_of p key) kept ev" using e by (rule evict_eviction)
  then have "set (entries_of p key) = set kept \<union> set ev"
    by (metis eviction_def set_mset_mset set_mset_union)
  with sub have old: "?hp b = heap p b" if "b \<in> set kept \<union> set ev" for b using that by fastforce
  from assms(3) have p': "a = next_addr p" "p' = p\<lparr>heap := ?hp, next_addr := Suc a,
      pool := dict_set key (kept @ [a]) (pool p), taken_out := taken_out p @ ev\<rparr>"
    by (auto simp: pool_add_def e Let_def)
  show ?thesis
    by (rule exI [of _ kept], rule exI [of _ ev])
      (use ev old in \<open>auto simp: p' entries_of_def dict_get_or_def eviction_def\<close>)
qed

theorem add_evicts_idle_lru_witness:
  "length (entries_of (snd (pool_add 20 ex_key 9 9 ex_pool)) ex_key) \<le> 2"
proof -
  have fresh: "\<forall>a < next_addr ex_pool. pe_session (heap ex_pool a) \<noteq> 9"
    by (auto simp: ex_pool_eval less_2_cases_iff)
  have es: "entries_of ex_pool ex_key = [0, Suc 0]" by (simp add: entries_of_def dict_get_or_def ex_pool_eval)
  let ?q = "pool_add 20 ex_key 9 9 ex_pool"
  from add_evicts_idle_lru [OF pool_reach_ok [OF ex_pool_reach] fresh, of 20 ex_key 9 "fst ?q" "snd ?q"]
  obtain kept ev where k: "entries_of (snd ?q) ex_key = kept @ [fst ?q]" "mset [0, Suc 0] = mset kept + mset ev"
    and c: "int (length (entries_of (snd ?q) ex_key)) \<le> 2 \<or> (\<forall>b \<in> set kept. in_use (heap ex_pool b))"
    by (auto simp: es ex_pool_eval)
  have "set kept \<subseteq> {0, Suc 0}"
    by (metis k(2) list.set(1) list.simps(15) mset_subset_eq_add_left set_mset_mono set_mset_mset)
  then have "kept = [] \<or> (\<exists>b \<in> set kept. \<not> in_use (heap ex_pool b))"
    by (cases kept) (auto simp: ex_pool_eval)
  with c k(1) show ?thesis by auto
qed

text \<open>The breaker of a key, as the next call finds or creates it.\<close>

definition breaker_of :: "SessionPool \<Rightarrow> SessionKey \<Rightarrow> CircuitBreaker" where
  "breaker_of p key = fst (get_circuit_breaker key p)"

lemma breaker_of_get: "dict_get (circuit_breakers p) key = Some cb \<Longrightarrow> breaker_of p key = cb"
  by (simp add: breaker_of_def get_circuit_breaker_def)

lemma pool_release_breaker:
  "breaker_of (pool_release t now failed key a p) key =
     (if failed then record_failure t (breaker_of p key) else record_success t (breaker_of p key))"
  by (rule breaker_of_get) (auto simp: pool_op_defs breaker_of_def split: option.split)

lemma breaker_of_ok: "breakers_ok p \<Longrightarrow> pool_breaker p (breaker_of p key)"
  by (auto simp: breakers_ok_def pool_breaker_def breaker_of_def get_circuit_breaker_def Let_def new_breaker_ok
      ranI new_breaker_def breaker_ok_def split: option.split)

text \<open>Every call leaves the breakers alone, clears them, or sets the breaker of a key to
  what a breaker operation makes of it.\<close>

lemma breakers_ok_set:
  assumes "breakers_ok p" "pool_breaker p cb" "cb_threshold p' = cb_threshold p"
    and "\<And>k. dict_get (circuit_breakers p') k = (if k = key then Some cb else dict_get (circuit_breakers p) k)"
  shows "breakers_ok p'"
  using assms(1-3) unfolding breakers_ok_def pool_breaker_def ran_def
  by (auto simp: assms(4) split: if_splits)

lemma get_circuit_breaker_breakers:
  "k \<noteq> key \<Longrightarrow> dict_get (circuit_breakers (snd (get_circuit_breaker key p))) k = dict_get (circuit_breakers p) k"
  by (simp add: get_circuit_breaker_def Let_def split: option.split)

lemma breakers_ok_acquire: "breakers_ok p \<Longrightarrow> breakers_ok (snd (pool_acquire t now key p))"
proof (cases "pool_closed p")
  case False
  assume ok: "breakers_ok p"
  then have "pool_breaker p (snd (allows_request t (breaker_of p key)))"
    using breaker_of_ok [OF ok, of key] by (simp add: pool_breaker_def cb.good_allows cb.limit_keep cb.cool_keep)
  then show ?thesis
    by (rule breakers_ok_set [OF ok, where key = key])
      (use False in \<open>simp_all add: pool_op_defs breaker_of_def get_circuit_breaker_breakers split: option.split\<close>)
qed (simp add: pool_acquire_def)

lemma breakers_ok_release:
  assumes ok: "breakers_ok p"
  shows "breakers_ok (pool_release t now failed key a p)"
proof -
  have "pool_breaker p (breaker_of (pool_release t now failed key a p) key)"
    using breaker_of_ok [OF ok, of key]
    by (simp add: pool_release_breaker pool_breaker_def cb.good_failure cb.good_success cb.limit_keep cb.cool_keep)
  then show ?thesis
    by (rule breakers_ok_set [OF ok, where key = key])
      (simp_all add: pool_release_breaker, auto simp: pool_op_defs breaker_of_def get_circuit_breaker_breakers split: option.split)
qed

lemma breakers_ok_keep:
  "breakers_ok p \<Longrightarrow> circuit_breakers p' = circuit_breakers p \<or> circuit_breakers p' = [] \<Longrightarrow>
   cb_threshold p' = cb_threshold p \<Longrightarrow> breakers_ok p'"
  by (auto simp: breakers_ok_def pool_breaker_def)

lemma pool_call_breakers: "pool_call p p' \<Longrightarrow> breakers_ok p \<Longrightarrow> breakers_ok p'"
proof (induction rule: pool_call.induct)
qed (simp_all add: breakers_ok_acquire breakers_ok_release,
     (erule breakers_ok_keep; simp add: pool_op_defs reap_expired_def)+)

lemma pool_reach_breakers: "pool_reach p \<Longrightarrow> breakers_ok p"
proof (induction rule: pool_reach.induct)
  case (init k t ri c)
  show ?case by (simp add: breakers_ok_def new_pool_def)
qed (rule pool_call_breakers)

text \<open>
  An acquire hands out an idle entry of the key that is younger than the time to live and
  marks it in use, so that a second acquire before the release, whatever the clock says,
  never hands out the same entry.
\<close>

theorem acquire_exclusive:
  assumes "pool_acquire t now key p = (Some a, p')"
  shows "a \<in> set (entries_of p key) \<and> \<not> in_use (heap p a) \<and> now - created_at (heap p a) < ttl p \<and>
    in_use (heap p' a) \<and> fst (pool_acquire t2 now2 key2 p') \<noteq> Some a"
proof -
  from assms have a: "a \<in> set (entries_of p key)" "\<not> in_use (heap p a)" "now - created_at (heap p a) < ttl p"
    and u: "in_use (heap p' a)"
    by (auto simp: pool_op_defs find_Some_iff usable_def entries_of_def split: if_splits option.splits)
  from u have "fst (pool_acquire t2 now2 key2 p') \<noteq> Some a"
    by (auto simp: pool_op_defs find_Some_iff usable_def split: option.splits)
  with a u show ?thesis by blast
qed

theorem acquire_exclusive_witness:
  "fst (pool_acquire 20 20 ex_key ex_pool) = Some 0 \<and>
   fst (pool_acquire 21 21 ex_key (snd (pool_acquire 20 20 ex_key ex_pool))) \<noteq> Some 0"
proof -
  have one: "fst (pool_acquire 20 20 ex_key ex_pool) = Some 0"
    by (simp add: pool_acquire_def ex_pool_eval get_circuit_breaker_def new_breaker_def breaker_defs
        entries_of_def dict_get_or_def usable_def)
  then have "pool_acquire 20 20 ex_key ex_pool = (Some 0, snd (pool_acquire 20 20 ex_key ex_pool))"
    by (metis prod.collapse)
  from acquire_exclusive [OF this] one show ?thesis by simp
qed

text \<open>
  A key whose sessions keep failing is cut off: after as many failed releases in a row as
  the pool's threshold, the pool hands out no session for the key until the cooldown has
  passed since the last of them.
\<close>

theorem failed_releases_cut_off:
  assumes "pool_reach p" "rs \<noteq> []" "cb_threshold p \<le> int (length rs)"
    and "t' < fst (last rs) + DEFAULT_COOLDOWN_SECONDS"
  shows "fst (pool_acquire t' now' key
    (fold (\<lambda>(t, now, a). pool_release t now True key a) rs p)) = None"
proof -
  let ?q = "fold (\<lambda>(t, now, a). pool_release t now True key a) rs p"
  have b: "breaker_of (fold (\<lambda>(t, now, a). pool_release t now True key a) rs p) key =
      fold record_failure (map fst rs) (breaker_of p key)" for rs p
    by (induction rs arbitrary: p) (auto simp: pool_release_breaker)
  have ok: "pool_breaker p (breaker_of p key)" using assms(1) by (intro breaker_of_ok pool_reach_breakers)
  then have "\<not> fst (allows_request t' (fold record_failure (map fst rs) (breaker_of p key)))"
    using assms(2-4) by (intro cb.burst_blocks) (auto simp: last_map pool_breaker_def breaker_ok_def)
  then have "\<not> fst (allows_request t' (fst (get_circuit_breaker key ?q)))"
    unfolding breaker_of_def [symmetric] b .
  then show ?thesis by (simp add: pool_acquire_def case_prod_beta Let_def)
qed

theorem failed_releases_cut_off_witness:
  "fst (pool_acquire 80 80 ex_key
    (fold (\<lambda>(t, now, a). pool_release t now True ex_key a) [(30, 30, 0), (31, 31, 1), (32, 32, 1)] ex_pool)) = None"
  by (rule failed_releases_cut_off [OF ex_pool_reach])
    (simp_all add: ex_pool_eval DEFAULT_COOLDOWN_SECONDS_def)

end
