(* ===== verification/Py_String.thy ===== *)
theory Py_String
  imports Argus_Prelude
begin

text \<open>
  Python's string operations as the components use them. A string is a list of characters
  with code points below 256: case mapping and white space are those of that range.
\<close>

section \<open>Characters\<close>

definition code :: "char \<Rightarrow> nat" where
  "code c = of_char c"

definition is_digit :: "char \<Rightarrow> bool" where
  "is_digit c \<longleftrightarrow> 48 \<le> code c \<and> code c \<le> 57"

definition digit_val :: "char \<Rightarrow> nat" where
  "digit_val c = code c - 48"

definition is_space :: "char \<Rightarrow> bool" where
  "is_space c \<longleftrightarrow> code c \<in> {9, 10, 11, 12, 13, 28, 29, 30, 31, 32, 133, 160}"

definition is_ascii :: "char \<Rightarrow> bool" where
  "is_ascii c \<longleftrightarrow> code c < 128"

definition lower_char :: "char \<Rightarrow> char" where
  "lower_char c =
     (if 65 \<le> code c \<and> code c \<le> 90 \<or> 192 \<le> code c \<and> code c \<le> 222 \<and> code c \<noteq> 215
      then char_of (code c + 32) else c)"

section \<open>Strings\<close>

definition str_lower :: "string \<Rightarrow> string" where
  "str_lower s = map lower_char s"

definition lstrip_by :: "(char \<Rightarrow> bool) \<Rightarrow> string \<Rightarrow> string" where
  "lstrip_by P s = dropWhile P s"

definition rstrip_by :: "(char \<Rightarrow> bool) \<Rightarrow> string \<Rightarrow> string" where
  "rstrip_by P s = rev (dropWhile P (rev s))"

definition str_strip :: "string \<Rightarrow> string" where
  "str_strip s = rstrip_by is_space (lstrip_by is_space s)"

definition starts_with :: "string \<Rightarrow> string \<Rightarrow> bool" where
  "starts_with p s \<longleftrightarrow> take (length p) s = p"

definition ends_with :: "string \<Rightarrow> string \<Rightarrow> bool" where
  "ends_with p s \<longleftrightarrow> starts_with (rev p) (rev s)"

text \<open>\<open>sub in s\<close>.\<close>

fun str_contains :: "string \<Rightarrow> string \<Rightarrow> bool" where
  "str_contains sub [] = (sub = [])"
| "str_contains sub (c # s) = (starts_with sub (c # s) \<or> str_contains sub s)"

text \<open>\<open>s.split(c)\<close> for a single character, and \<open>sep.join(xs)\<close>.\<close>

fun split_on :: "char \<Rightarrow> string \<Rightarrow> string list" where
  "split_on c [] = [[]]"
| "split_on c (x # s) =
     (if x = c then [] # split_on c s
      else case split_on c s of [] \<Rightarrow> [[x]] | w # ws \<Rightarrow> (x # w) # ws)"

fun join_with :: "string \<Rightarrow> string list \<Rightarrow> string" where
  "join_with sep [] = []"
| "join_with sep [x] = x"
| "join_with sep (x # y # xs) = x @ sep @ join_with sep (y # xs)"

lemma split_on_nonempty [simp]: "split_on c s \<noteq> []"
  by (cases s) (auto split: list.split)

lemma join_split_on: "join_with [c] (split_on c s) = s"
proof (induction s)
  case (Cons x s)
  obtain w ws where "split_on c s = w # ws" by (meson list.exhaust split_on_nonempty)
  with Cons show ?case by (cases ws) auto
qed simp

lemma starts_with_iff: "starts_with p s \<longleftrightarrow> (\<exists>t. s = p @ t)"
  by (auto simp: starts_with_def) (metis append_take_drop_id)

lemma str_contains_iff: "str_contains sub s \<longleftrightarrow> (\<exists>a b. s = a @ sub @ b)"
proof (induction s)
  case (Cons c s)
  have "(\<exists>a b. c # s = a @ sub @ b) \<longleftrightarrow> starts_with sub (c # s) \<or> (\<exists>a b. s = a @ sub @ b)"
    by (auto simp: starts_with_iff append_eq_Cons_conv Cons_eq_append_conv)
  with Cons show ?case by simp
qed auto

section \<open>Numbers\<close>

text \<open>\<open>float(s)\<close>: white space around, a sign, digits that may be grouped by single underscores,
  a fraction, an exponent, or an infinity or NaN in any case. Values are exact.\<close>

datatype py_float = Fin rat | PosInf | NegInf | NaN

fun take_digits :: "string \<Rightarrow> nat list \<times> string" where
  "take_digits [] = ([], [])"
| "take_digits (c # cs) =
     (if is_digit c then
        (case cs of
           u # d # ds \<Rightarrow>
             (if u = CHR ''_'' \<and> is_digit d
              then (case take_digits (d # ds) of (ns, r) \<Rightarrow> (digit_val c # ns, r))
              else (case take_digits cs of (ns, r) \<Rightarrow> (digit_val c # ns, r)))
         | _ \<Rightarrow> (case take_digits cs of (ns, r) \<Rightarrow> (digit_val c # ns, r)))
      else ([], c # cs))"

definition digits_nat :: "nat list \<Rightarrow> nat" where
  "digits_nat ds = fold (\<lambda>d n. 10 * n + d) ds 0"

definition take_sign :: "string \<Rightarrow> bool \<times> string" where
  "take_sign s = (case s of
     c # cs \<Rightarrow> (if c = CHR ''-'' then (True, cs) else if c = CHR ''+'' then (False, cs) else (False, s))
   | [] \<Rightarrow> (False, []))"

definition scale10 :: "int \<Rightarrow> rat" where
  "scale10 e = (if 0 \<le> e then 10 ^ nat e else 1 / 10 ^ nat (- e))"

definition parse_exponent :: "string \<Rightarrow> int option" where
  "parse_exponent s = (case s of
     [] \<Rightarrow> Some 0
   | c # cs \<Rightarrow>
       (if c = CHR ''e'' then
          (case take_sign cs of (neg, r) \<Rightarrow>
            (case take_digits r of (ds, rest) \<Rightarrow>
              (if ds = [] \<or> rest \<noteq> [] then None
               else Some (if neg then - int (digits_nat ds) else int (digits_nat ds)))))
        else None))"

definition parse_number :: "string \<Rightarrow> rat option" where
  "parse_number s =
     (case take_digits s of (ip, r) \<Rightarrow>
       (case (case r of
                c # cs \<Rightarrow> (if c = CHR ''.'' then take_digits cs else ([], r))
              | [] \<Rightarrow> ([], [])) of (fp, r') \<Rightarrow>
         (if ip = [] \<and> fp = [] then None
          else map_option (\<lambda>e. of_nat (digits_nat (ip @ fp)) * scale10 (e - int (length fp)))
                 (parse_exponent r'))))"

definition py_float_of :: "string \<Rightarrow> py_float option" where
  "py_float_of s =
     (case take_sign (str_lower (str_strip s)) of (neg, r) \<Rightarrow>
       (if r = ''inf'' \<or> r = ''infinity'' then Some (if neg then NegInf else PosInf)
        else if r = ''nan'' then Some NaN
        else map_option (\<lambda>x. Fin (if neg then - x else x)) (parse_number r)))"

section \<open>Printing values\<close>

definition hex_char :: "nat \<Rightarrow> char" where
  "hex_char n = (if n < 10 then char_of (48 + n) else char_of (87 + n))"

definition is_printable :: "char \<Rightarrow> bool" where
  "is_printable c \<longleftrightarrow> 32 \<le> code c \<and> code c < 127 \<or> 161 \<le> code c \<and> code c \<noteq> 173"

definition repr_char :: "char \<Rightarrow> char \<Rightarrow> string" where
  "repr_char q c =
     (if c = q \<or> c = CHR 0x5C then [CHR 0x5C, c]
      else if code c = 10 then [CHR 0x5C, CHR ''n'']
      else if code c = 13 then [CHR 0x5C, CHR ''r'']
      else if code c = 9 then [CHR 0x5C, CHR ''t'']
      else if is_printable c then [c]
      else [CHR 0x5C, CHR ''x'', hex_char (code c div 16), hex_char (code c mod 16)])"

definition repr_str :: "string \<Rightarrow> string" where
  "repr_str s =
     (let q = (if CHR 0x27 \<in> set s \<and> CHR 0x22 \<notin> set s then CHR 0x22 else CHR 0x27)
      in q # concat (map (repr_char q) s) @ [q])"

text \<open>\<open>repr(v)\<close> and \<open>str(v)\<close>.\<close>

fun py_repr :: "pyval \<Rightarrow> string" where
  "py_repr PNone = ''None''"
| "py_repr (PBool b) = (if b then ''True'' else ''False'')"
| "py_repr (PInt i) = show_int i"
| "py_repr (PStr s) = repr_str s"
| "py_repr (PList vs) = CHR ''['' # join_with '', '' (map py_repr vs) @ '']''"
| "py_repr (PDict d) =
     CHR ''{'' # join_with '', '' (map (\<lambda>kv. repr_str (fst kv) @ '': '' @ py_repr (snd kv)) d) @ ''}''"
| "py_repr (PObj c s) = s"

definition py_str :: "pyval \<Rightarrow> string" where
  "py_str v = (case v of PStr s \<Rightarrow> s | _ \<Rightarrow> py_repr v)"

text \<open>\<open>list(v)\<close>: lists, the characters of a string, the keys of a dictionary.\<close>

definition py_list :: "pyval \<Rightarrow> pyval list res" where
  "py_list v = (case v of
     PList vs \<Rightarrow> Inr vs
   | PStr s \<Rightarrow> Inr (map (\<lambda>c. PStr [c]) s)
   | PDict d \<Rightarrow> Inr (map (PStr \<circ> fst) d)
   | _ \<Rightarrow> Inl (TypeError ''object is not iterable''))"

definition py_get :: "pyval \<Rightarrow> string \<Rightarrow> pyval \<Rightarrow> pyval res" where
  "py_get v k d = (case v of
     PDict e \<Rightarrow> Inr (dict_get_or d e k)
   | _ \<Rightarrow> Inl (OtherException ''AttributeError'' ''object has no attribute get''))"

text \<open>\<open>json.dumps(v, indent=2)\<close>: ASCII output, two spaces per level.\<close>

definition json_char :: "char \<Rightarrow> string" where
  "json_char c =
     (if c = CHR 0x22 \<or> c = CHR 0x5C then [CHR 0x5C, c]
      else if code c = 10 then [CHR 0x5C, CHR ''n'']
      else if code c = 13 then [CHR 0x5C, CHR ''r'']
      else if code c = 9 then [CHR 0x5C, CHR ''t'']
      else if code c = 8 then [CHR 0x5C, CHR ''b'']
      else if code c = 12 then [CHR 0x5C, CHR ''f'']
      else if 32 \<le> code c \<and> code c < 128 then [c]
      else CHR 0x5C # ''u00'' @ [hex_char (code c div 16), hex_char (code c mod 16)])"

definition json_str :: "string \<Rightarrow> string" where
  "json_str s = CHR 0x22 # concat (map json_char s) @ [CHR 0x22]"

definition json_break :: "nat \<Rightarrow> string" where
  "json_break level = CHR 0x0A # replicate (2 * level) (CHR '' '')"

fun json_at :: "nat \<Rightarrow> pyval \<Rightarrow> string" where
  "json_at n PNone = ''null''"
| "json_at n (PBool b) = (if b then ''true'' else ''false'')"
| "json_at n (PInt i) = show_int i"
| "json_at n (PStr s) = json_str s"
| "json_at n (PList vs) =
     (if vs = [] then ''[]''
      else CHR ''['' # json_break (Suc n) @ join_with (CHR '','' # json_break (Suc n)) (map (json_at (Suc n)) vs)
           @ json_break n @ '']'')"
| "json_at n (PDict d) =
     (if d = [] then ''{}''
      else CHR ''{'' # json_break (Suc n) @
           join_with (CHR '','' # json_break (Suc n))
             (map (\<lambda>kv. json_str (fst kv) @ '': '' @ json_at (Suc n) (snd kv)) d)
           @ json_break n @ ''}'')"
| "json_at n (PObj c s) = []"

fun json_ok :: "pyval \<Rightarrow> bool" where
  "json_ok (PList vs) = list_all json_ok vs"
| "json_ok (PDict d) = list_all (\<lambda>kv. json_ok (snd kv)) d"
| "json_ok (PObj c s) = False"
| "json_ok v = True"

definition json_dumps :: "pyval \<Rightarrow> string res" where
  "json_dumps v = (if json_ok v then Inr (json_at 0 v) else Inl (TypeError ''Object is not JSON serializable''))"

section \<open>Slices and bytes\<close>

text \<open>\<open>xs[:n]\<close>, and the bytes of a text in UTF-8.\<close>

definition py_take :: "int \<Rightarrow> 'a list \<Rightarrow> 'a list" where
  "py_take limit xs = (if 0 \<le> limit then take (nat limit) xs else take (length xs - nat (- limit)) xs)"

definition utf8 :: "string \<Rightarrow> nat list" where
  "utf8 s = concat (map (\<lambda>c. if code c < 128 then [code c] else [192 + code c div 64, 128 + code c mod 64]) s)"

end
