(* ===== verification/Retry.thy ===== *)
theory Retry
  imports Py_String
begin

text \<open>
  \<open>bridge/retry.py\<close>: HTTP requests retried with exponential backoff, jitter and the
  \<open>Retry-After\<close> header. The client is an argument that gives the outcome of the \<open>n\<close>-th attempt;
  \<open>rand\<close> gives the reading of \<open>random.random()\<close> in the wait after the \<open>n\<close>-th attempt. A run is a
  trace of requests and sleeps with its result. Durations are rational numbers.
\<close>

section \<open>Definitions\<close>

definition RETRYABLE_STATUS_CODES :: "int list" where
  "RETRYABLE_STATUS_CODES = [408, 429, 502, 503, 504]"

definition NON_RETRYABLE_STATUS_CODES :: "int list" where
  "NON_RETRYABLE_STATUS_CODES = [400, 401, 403, 404]"

record RetryManager =
  max_retries :: int
  base_delay :: rat
  backoff_factor :: rat
  max_delay :: rat
  rm_jitter :: rat

definition default_retry :: RetryManager where
  "default_retry = \<lparr>max_retries = 3, base_delay = 1, backoff_factor = 2, max_delay = 60, rm_jitter = 1 / 2\<rparr>"

datatype http_outcome =
    TransportError string
  | Response (status_code: int) (retry_after_header: "string option")

datatype retry_result =
    Returned int
  | NonRetryableError int
  | RetriesExhaustedError int int
  | HTTPError string

datatype retry_event = Request int | Sleep rat

definition parse_retry_after :: "string option \<Rightarrow> py_float option" where
  "parse_retry_after raw = (case raw of None \<Rightarrow> None | Some s \<Rightarrow> py_float_of s)"

text \<open>\<open>random.uniform(a, b)\<close> for a reading \<open>r\<close> of \<open>random()\<close>, which lies in \<open>[0, 1)\<close>.\<close>

definition uniform :: "rat \<Rightarrow> rat \<Rightarrow> rat \<Rightarrow> rat" where
  "uniform r a b = a + (b - a) * r"

definition backoff_delay :: "RetryManager \<Rightarrow> rat \<Rightarrow> int \<Rightarrow> rat" where
  "backoff_delay m r attempt =
     (let delay = min (base_delay m * backoff_factor m ^ nat (attempt - 1)) (max_delay m);
          jitter_amount = delay * rm_jitter m
      in max (1 / 100) (delay + uniform r (- jitter_amount) jitter_amount))"

definition wait :: "RetryManager \<Rightarrow> rat \<Rightarrow> int \<Rightarrow> py_float option \<Rightarrow> rat" where
  "wait m r attempt retry_after =
     (case retry_after of
        Some (Fin x) \<Rightarrow> (if x > 0 then min x (max_delay m) else backoff_delay m r attempt)
      | Some PosInf \<Rightarrow> max_delay m
      | _ \<Rightarrow> backoff_delay m r attempt)"

text \<open>The body of the loop over the attempts; \<open>last_status\<close> is the status of the last retryable
  response.\<close>

fun execute_from :: "RetryManager \<Rightarrow> (int \<Rightarrow> http_outcome) \<Rightarrow> (int \<Rightarrow> rat) \<Rightarrow> int list \<Rightarrow> int \<Rightarrow>
    retry_event list \<times> retry_result" where
  "execute_from m client rand [] last_status = ([], RetriesExhaustedError last_status (max_retries m + 1))"
| "execute_from m client rand (attempt # rest) last_status =
     (let (tr, res) =
        (case client attempt of
           TransportError e \<Rightarrow>
             (if attempt > max_retries m then ([], HTTPError e)
              else (let (tr, res) = execute_from m client rand rest last_status
                    in (Sleep (wait m (rand attempt) attempt None) # tr, res)))
         | Response status header \<Rightarrow>
             (if 200 \<le> status \<and> status < 300 then ([], Returned status)
              else if status \<in> set NON_RETRYABLE_STATUS_CODES then ([], NonRetryableError status)
              else if status \<in> set RETRYABLE_STATUS_CODES then
                (if attempt > max_retries m then ([], RetriesExhaustedError status attempt)
                 else (let (tr, res) = execute_from m client rand rest status
                       in (Sleep (wait m (rand attempt) attempt (parse_retry_after header)) # tr, res)))
              else ([], NonRetryableError status)))
      in (Request attempt # tr, res))"

definition execute :: "RetryManager \<Rightarrow> (int \<Rightarrow> http_outcome) \<Rightarrow> (int \<Rightarrow> rat) \<Rightarrow> retry_event list \<times> retry_result" where
  "execute m client rand = execute_from m client rand [1..max_retries m + 1] 0"

section \<open>What a run does\<close>

text \<open>An outcome the manager tries again, and what the caller gets from a final outcome.\<close>

definition retryable :: "http_outcome \<Rightarrow> bool" where
  "retryable oc = (case oc of TransportError _ \<Rightarrow> True | Response s _ \<Rightarrow> s \<in> set RETRYABLE_STATUS_CODES)"

definition final_result :: "http_outcome \<Rightarrow> int \<Rightarrow> retry_result" where
  "final_result oc attempts = (case oc of
     TransportError e \<Rightarrow> HTTPError e
   | Response s _ \<Rightarrow>
       (if s \<in> set RETRYABLE_STATUS_CODES then RetriesExhaustedError s attempts
        else if 200 \<le> s \<and> s < 300 then Returned s else NonRetryableError s))"

fun requests :: "retry_event list \<Rightarrow> int list" where
  "requests [] = []"
| "requests (Request n # tr) = n # requests tr"
| "requests (Sleep d # tr) = requests tr"

fun sleeps :: "retry_event list \<Rightarrow> rat list" where
  "sleeps [] = []"
| "sleeps (Request n # tr) = sleeps tr"
| "sleeps (Sleep d # tr) = d # sleeps tr"

lemmas status_defs = RETRYABLE_STATUS_CODES_def NON_RETRYABLE_STATUS_CODES_def

text \<open>One attempt that is the last allowed or not retryable ends the run; any other goes on.\<close>

lemma execute_from_stop:
  assumes "attempt > max_retries m \<or> \<not> retryable (client attempt)"
  shows "execute_from m client rand (attempt # rest) l = ([Request attempt], final_result (client attempt) attempt)"
  using assms by (auto simp: retryable_def final_result_def status_defs split: http_outcome.splits)

lemma execute_from_go:
  assumes "attempt \<le> max_retries m" "retryable (client attempt)"
  obtains l' ra where "execute_from m client rand (attempt # rest) l =
    (Request attempt # Sleep (wait m (rand attempt) attempt ra) # fst (execute_from m client rand rest l'),
     snd (execute_from m client rand rest l'))"
  using assms
  by (auto simp: retryable_def status_defs case_prod_beta Let_def split: http_outcome.splits)

lemma execute_from_requests:
  assumes "i \<le> k" "k \<le> max_retries m + 1"
    and "\<forall>j. i \<le> j \<and> j < k \<longrightarrow> retryable (client j)" "k = max_retries m + 1 \<or> \<not> retryable (client k)"
  shows "requests (fst (execute_from m client rand [i..max_retries m + 1] l)) = [i..k]
    \<and> snd (execute_from m client rand [i..max_retries m + 1] l) = final_result (client k) k"
  using assms
proof (induction "nat (k - i)" arbitrary: i l)
  case 0
  then have "i = k" by simp
  moreover have "[k..max_retries m + 1] = k # [k + 1..max_retries m + 1]" using 0 by (simp add: upto_rec1)
  ultimately show ?case using 0 execute_from_stop [of m k client] by auto
next
  case (Suc n)
  then have lt: "i < k" by simp
  then have up: "[i..max_retries m + 1] = i # [i + 1..max_retries m + 1]" "[i..k] = i # [i + 1..k]"
    using Suc.prems by (simp_all add: upto_rec1)
  have "i \<le> max_retries m" "retryable (client i)" using lt Suc.prems by simp_all
  then obtain l' ra where e: "execute_from m client rand (i # [i + 1..max_retries m + 1]) l =
    (Request i # Sleep (wait m (rand i) i ra) # fst (execute_from m client rand [i + 1..max_retries m + 1] l'),
     snd (execute_from m client rand [i + 1..max_retries m + 1] l'))"
    by (rule execute_from_go)
  have "n = nat (k - (i + 1))" using Suc.hyps(2) by simp
  from Suc.hyps(1) [OF this _ Suc.prems(2) _ Suc.prems(4), of l'] lt Suc.prems(3)
  show ?case unfolding up e by simp
qed

text \<open>
  C11: A run sends attempts 1, 2, ... in order and stops at the first one whose outcome is not
  retryable, or at attempt \<open>max_retries + 1\<close>; its result is that of this attempt: a response
  with a success status is returned, a retryable status that outlasts the budget is reported
  with the number of attempts made, a transport error is re-raised and every other status is
  an error at once.
\<close>

theorem execute_stops_at_first_final:
  assumes "1 \<le> k" "k \<le> max_retries m + 1"
    and "\<forall>j. 1 \<le> j \<and> j < k \<longrightarrow> retryable (client j)" "k = max_retries m + 1 \<or> \<not> retryable (client k)"
  shows "requests (fst (execute m client rand)) = [1..k] \<and> snd (execute m client rand) = final_result (client k) k"
  using execute_from_requests [OF assms, of rand 0] by (simp add: execute_def)

theorem execute_stops_at_first_final_witness:
  "let client = (\<lambda>n. if n = 1 then TransportError ''refused'' else if n = 2 then Response 503 None else Response 200 None)
   in requests (fst (execute default_retry client (\<lambda>_. 0))) = [1..3] \<and>
      snd (execute default_retry client (\<lambda>_. 0)) = Returned 200"
proof -
  let ?client = "\<lambda>n. if n = (1::int) then TransportError ''refused'' else if n = 2 then Response 503 None else Response 200 None"
  have "\<forall>j. 1 \<le> j \<and> j < 3 \<longrightarrow> retryable (?client j)" by (auto simp: retryable_def status_defs)
  then have "requests (fst (execute default_retry ?client (\<lambda>_. 0))) = [1..3]"
    "snd (execute default_retry ?client (\<lambda>_. 0)) = final_result (?client 3) 3"
    using execute_stops_at_first_final [of 3 default_retry ?client "\<lambda>_. 0"]
    by (simp_all add: default_retry_def retryable_def status_defs)
  then show ?thesis by (simp add: final_result_def status_defs Let_def)
qed

section \<open>How long it sleeps\<close>

definition retry_ok :: "RetryManager \<Rightarrow> bool" where
  "retry_ok m \<longleftrightarrow> 0 \<le> base_delay m \<and> 0 \<le> backoff_factor m \<and> 0 < max_delay m \<and> 0 \<le> rm_jitter m"

lemma backoff_delay_bound:
  assumes "retry_ok m" "0 \<le> r" "r \<le> 1"
  shows "1 / 100 \<le> backoff_delay m r n" "backoff_delay m r n \<le> max (1 / 100) (max_delay m * (1 + rm_jitter m))"
proof -
  let ?d = "min (base_delay m * backoff_factor m ^ nat (n - 1)) (max_delay m)"
  have d: "0 \<le> ?d" "?d \<le> max_delay m" using assms(1) by (simp_all add: retry_ok_def)
  have "?d * rm_jitter m * (2 * r - 1) \<le> ?d * rm_jitter m * 1"
    using assms d(1) by (intro mult_left_mono) (simp_all add: retry_ok_def)
  then have "?d + uniform r (- (?d * rm_jitter m)) (?d * rm_jitter m) \<le> ?d * (1 + rm_jitter m)"
    by (simp add: uniform_def algebra_simps)
  also have "\<dots> \<le> max_delay m * (1 + rm_jitter m)"
    using d assms(1) by (intro mult_right_mono) (simp_all add: retry_ok_def)
  finally show "backoff_delay m r n \<le> max (1 / 100) (max_delay m * (1 + rm_jitter m))"
    unfolding backoff_delay_def Let_def by (intro max.mono order_refl)
qed (simp add: backoff_delay_def Let_def)

lemma wait_bound:
  assumes "retry_ok m" "0 \<le> r" "r \<le> 1"
  shows "0 < wait m r n ra" "wait m r n ra \<le> max (1 / 100) (max_delay m * (1 + rm_jitter m))"
proof -
  have "max_delay m * 1 \<le> max_delay m * (1 + rm_jitter m)"
    using assms(1) by (intro mult_left_mono) (simp_all add: retry_ok_def)
  then show "wait m r n ra \<le> max (1 / 100) (max_delay m * (1 + rm_jitter m))"
    using backoff_delay_bound(2) [OF assms, of n]
    by (auto simp: wait_def split: option.splits py_float.splits)
  show "0 < wait m r n ra"
    using assms(1) backoff_delay_bound(1) [OF assms, of n]
    by (auto simp: wait_def retry_ok_def split: option.splits py_float.splits)
qed

lemma execute_from_sleeps:
  assumes "retry_ok m" "\<And>n. 0 \<le> rand n \<and> rand n < 1"
  shows "(\<forall>d \<in> set (sleeps (fst (execute_from m client rand as l))).
      0 < d \<and> d \<le> max (1 / 100) (max_delay m * (1 + rm_jitter m))) \<and>
    length (sleeps (fst (execute_from m client rand as l))) \<le> length (filter (\<lambda>a. a \<le> max_retries m) as)"
proof (induction as arbitrary: l)
  case (Cons a as)
  have w: "0 < wait m (rand a) a ra \<and> wait m (rand a) a ra \<le> max (1 / 100) (max_delay m * (1 + rm_jitter m))" for ra
    using wait_bound [OF assms(1), of "rand a"] assms(2) [of a] by simp
  show ?case
  proof (cases "a > max_retries m \<or> \<not> retryable (client a)")
    case True
    then show ?thesis by (simp only: execute_from_stop) simp
  next
    case False
    then obtain l' ra where "execute_from m client rand (a # as) l =
      (Request a # Sleep (wait m (rand a) a ra) # fst (execute_from m client rand as l'),
       snd (execute_from m client rand as l'))"
      using execute_from_go [of a m client rand as l] by (metis not_le)
    with Cons [of l'] w False show ?thesis by simp
  qed
qed simp

text \<open>
  Every sleep of a run is positive and at most \<open>max_delay\<close> times one plus the jitter
  fraction (or a hundredth of a second when that is less), whatever the server's
  \<open>Retry-After\<close> headers say, and there are at most \<open>max_retries\<close> of them.
\<close>

theorem execute_sleep_bounds:
  assumes "retry_ok m" "\<And>n. 0 \<le> rand n \<and> rand n < 1" "0 \<le> max_retries m"
  shows "(\<forall>d \<in> set (sleeps (fst (execute m client rand))).
      0 < d \<and> d \<le> max (1 / 100) (max_delay m * (1 + rm_jitter m))) \<and>
    int (length (sleeps (fst (execute m client rand)))) \<le> max_retries m"
proof (rule conjI)
  note e = execute_from_sleeps [where rand = rand and client = client and as = "[1..max_retries m + 1]" and l = 0, OF assms(1,2), folded execute_def]
  show "\<forall>d \<in> set (sleeps (fst (execute m client rand))).
      0 < d \<and> d \<le> max (1 / 100) (max_delay m * (1 + rm_jitter m))"
    using e by (rule conjunct1)
  have "filter (\<lambda>a. a \<le> max_retries m) [1..max_retries m + 1] = [1..max_retries m]"
    using assms(3) by (simp add: upto_rec2)
  then show "int (length (sleeps (fst (execute m client rand)))) \<le> max_retries m"
    using conjunct2 [OF e] assms(3) by simp
qed

theorem execute_sleep_bounds_witness:
  "int (length (sleeps (fst (execute default_retry (\<lambda>_. Response 429 (Some ''120'')) (\<lambda>_. 1 / 3))))) \<le> 3"
  using execute_sleep_bounds [THEN conjunct2, of default_retry "\<lambda>_. 1 / 3" "\<lambda>_. Response 429 (Some ''120'')"]
  by (simp add: default_retry_def retry_ok_def)

text \<open>\<open>max_delay\<close> does not bound the sleep: the jitter is added after the cap.\<close>

lemma jitter_exceeds_max_delay:
  assumes "retry_ok m" "0 < rm_jitter m" "max_delay m \<le> base_delay m" "1 / 2 < r"
  shows "max_delay m < backoff_delay m r 1"
proof -
  have "0 < max_delay m * rm_jitter m * (2 * r - 1)"
    using assms by (intro mult_pos_pos) (simp_all add: retry_ok_def)
  then have "max_delay m < max_delay m + uniform r (- (max_delay m * rm_jitter m)) (max_delay m * rm_jitter m)"
    by (simp add: uniform_def algebra_simps)
  then show ?thesis using assms(3) by (simp add: backoff_delay_def Let_def min_def less_max_iff_disj)
qed

end
