(* ===== verification/Auth.thy ===== *)
theory Auth
  imports Py_String
begin

text \<open>
  Incoming authentication: \<open>server/auth/providers.py\<close>, \<open>server/auth/jwt.py\<close> and the gate of
  \<open>server/transport.py\<close> that runs before a connection reaches the MCP server. PyJWT is
  third-party code: what decoding a token with a key client gives is the argument \<open>decode\<close>,
  which sees the options the code passes and the key client (numbered in the order the
  validator makes them, because a new client fetches the keys again).
\<close>

section \<open>Definitions\<close>

record UserIdentity =
  subject :: pyval
  email :: pyval
  user_name :: pyval
  roles :: "pyval list"
  provider :: string
  claims :: "(string, pyval) dict"

definition anonymous_user :: UserIdentity where
  "anonymous_user = \<lparr>subject = PStr ''anonymous'', email = PStr [], user_name = PStr [], roles = [],
     provider = ''anonymous'', claims = []\<rparr>"

definition is_anonymous :: "UserIdentity \<Rightarrow> bool" where
  "is_anonymous u \<longleftrightarrow> provider u = ''anonymous''"

subsection \<open>\<open>server/auth/jwt.py\<close>\<close>

record JWTConfig =
  jwks_uri :: "string option"
  issuer :: "string option"
  audience :: "string option"
  algorithms :: "string list"
  key_ttl :: rat

record TokenClaims =
  tc_sub :: pyval
  tc_iss :: pyval
  tc_aud :: pyval
  tc_email :: pyval
  tc_name :: pyval
  tc_roles :: pyval
  tc_raw :: "(string, pyval) dict"

record JWTValidator =
  jwt_config :: JWTConfig
  key_client :: "nat option"
  clients_made :: nat
  keys_fetched_at :: rat

datatype jwt_outcome =
    JwtClaims "(string, pyval) dict"
  | InvalidSignatureError string
  | ExpiredSignatureError string
  | InvalidTokenError string
  | JwtOther exn

record decode_options =
  opt_algorithms :: "string list"
  opt_issuer :: "string option"
  opt_audience :: "string option"
  opt_verify_aud :: bool

type_synonym jwt_lib = "decode_options \<Rightarrow> nat \<Rightarrow> string \<Rightarrow> jwt_outcome"

definition new_validator :: "JWTConfig \<Rightarrow> JWTValidator" where
  "new_validator cfg = \<lparr>jwt_config = cfg, key_client = None, clients_made = 0, keys_fetched_at = 0\<rparr>"

definition str_truthy :: "string option \<Rightarrow> bool" where
  "str_truthy s \<longleftrightarrow> s \<noteq> None \<and> s \<noteq> Some []"

definition jwt_options :: "JWTConfig \<Rightarrow> decode_options" where
  "jwt_options cfg =
     \<lparr>opt_algorithms = algorithms cfg,
      opt_issuer = (if str_truthy (issuer cfg) then issuer cfg else None),
      opt_audience = (if str_truthy (audience cfg) then audience cfg else None),
      opt_verify_aud = str_truthy (audience cfg)\<rparr>"

definition jwt_decode :: "jwt_lib \<Rightarrow> JWTValidator \<Rightarrow> nat \<Rightarrow> string \<Rightarrow> jwt_outcome" where
  "jwt_decode decode v client token = decode (jwt_options (jwt_config v)) client token"

definition keys_expired :: "rat \<Rightarrow> JWTValidator \<Rightarrow> bool" where
  "keys_expired now v \<longleftrightarrow> now - keys_fetched_at v > key_ttl (jwt_config v)"

definition fetch_keys :: "rat \<Rightarrow> JWTValidator \<Rightarrow> JWTValidator" where
  "fetch_keys now v = v\<lparr>key_client := Some (clients_made v), clients_made := Suc (clients_made v), keys_fetched_at := now\<rparr>"

definition norm_aud :: "pyval \<Rightarrow> pyval" where
  "norm_aud aud = (case aud of
     PList [] \<Rightarrow> PStr []
   | PList (a # _) \<Rightarrow> a
   | _ \<Rightarrow> if py_truthy aud then PStr (py_str aud) else PStr [])"

definition jwt_error :: "string \<Rightarrow> exn" where
  "jwt_error m = OtherException ''JWTValidationError'' m"

text \<open>\<open>claims.get("roles") or claims.get("realm_access", {}).get("roles", [])\<close>.\<close>

definition claim_roles :: "(string, pyval) dict \<Rightarrow> pyval res" where
  "claim_roles c =
     (let r = dict_get_or PNone c ''roles''
      in if py_truthy r then Inr r
         else py_get (dict_get_or (PDict []) c ''realm_access'') ''roles'' (PList []))"

definition token_claims :: "(string, pyval) dict \<Rightarrow> TokenClaims res" where
  "token_claims c =
     (case claim_roles c of
        Inl e \<Rightarrow> Inl e
      | Inr rs \<Rightarrow> Inr
          \<lparr>tc_sub = dict_get_or (PStr []) c ''sub'', tc_iss = dict_get_or (PStr []) c ''iss'',
           tc_aud = norm_aud (dict_get_or (PStr []) c ''aud''), tc_email = dict_get_or (PStr []) c ''email'',
           tc_name = dict_get_or (PStr []) c ''name'', tc_roles = rs, tc_raw = c\<rparr>)"

fun jwt_outcome_str :: "jwt_outcome \<Rightarrow> string" where
  "jwt_outcome_str (JwtClaims _) = []"
| "jwt_outcome_str (InvalidSignatureError m) = m"
| "jwt_outcome_str (ExpiredSignatureError m) = m"
| "jwt_outcome_str (InvalidTokenError m) = m"
| "jwt_outcome_str (JwtOther e) = exn_str e"

text \<open>\<open>validate\<close>, with PyJWT installed. Only a bad signature makes the validator fetch the keys
  and decode again; the exceptions that are not PyJWT's \<open>InvalidTokenError\<close> pass through the
  first decoding.\<close>

definition validate :: "jwt_lib \<Rightarrow> rat \<Rightarrow> string \<Rightarrow> JWTValidator \<Rightarrow> TokenClaims res \<times> JWTValidator" where
  "validate decode now token v =
     (let v1 = (if key_client v = None \<or> keys_expired now v then fetch_keys now v else v)
      in case jwt_decode decode v1 (the (key_client v1)) token of
           JwtClaims c \<Rightarrow> (token_claims c, v1)
         | InvalidSignatureError m \<Rightarrow>
             (let v2 = fetch_keys now v1
              in case jwt_decode decode v2 (the (key_client v2)) token of
                   JwtClaims c \<Rightarrow> (token_claims c, v2)
                 | bad \<Rightarrow> (Inl (jwt_error (''JWT validation failed after key refresh: '' @ jwt_outcome_str bad)), v2))
         | ExpiredSignatureError m \<Rightarrow> (Inl (jwt_error ''Token has expired''), v1)
         | InvalidTokenError m \<Rightarrow> (Inl (jwt_error (''Invalid token: '' @ m)), v1)
         | JwtOther e \<Rightarrow> (Inl e, v1))"

subsection \<open>\<open>server/auth/providers.py\<close>\<close>

datatype AuthProvider =
    AnonymousProvider
  | LocalTokenProvider string
  | JWTAuthProvider JWTValidator

definition anonymous_authenticate :: "string option \<Rightarrow> UserIdentity res" where
  "anonymous_authenticate token = Inr anonymous_user"

definition missing_token :: "string option \<Rightarrow> bool" where
  "missing_token token \<longleftrightarrow> \<not> str_truthy token"

text \<open>\<open>hmac.compare_digest\<close> on strings: equality, but only for ASCII strings.\<close>

definition compare_digest :: "string \<Rightarrow> string \<Rightarrow> bool res" where
  "compare_digest a b =
     (if list_all is_ascii a \<and> list_all is_ascii b then Inr (a = b)
      else Inl (TypeError ''comparing strings with non-ASCII characters is not supported''))"

definition local_authenticate :: "string \<Rightarrow> string option \<Rightarrow> UserIdentity res" where
  "local_authenticate expected token =
     (if missing_token token then Inl (AuthenticationError ''Missing bearer token'')
      else case compare_digest (the token) expected of
             Inl e \<Rightarrow> Inl e
           | Inr ok \<Rightarrow>
               (if \<not> ok then Inl (AuthenticationError ''Invalid bearer token'')
                else Inr (anonymous_user\<lparr>subject := PStr ''local-user'', provider := ''local''\<rparr>)))"

definition jwt_authenticate ::
    "jwt_lib \<Rightarrow> rat \<Rightarrow> string option \<Rightarrow> JWTValidator \<Rightarrow> UserIdentity res \<times> JWTValidator" where
  "jwt_authenticate decode now token v =
     (if missing_token token then (Inl (AuthenticationError ''Missing bearer token''), v)
      else case validate decode now (the token) v of
             (Inl e, v') \<Rightarrow>
               (if exn_class e = ''JWTValidationError'' then (Inl (AuthenticationError (exn_str e)), v') else (Inl e, v'))
           | (Inr c, v') \<Rightarrow>
               (case py_list (tc_roles c) of
                  Inl e \<Rightarrow> (Inl e, v')
                | Inr rs \<Rightarrow>
                    (Inr \<lparr>subject = tc_sub c, email = tc_email c, user_name = tc_name c, roles = rs,
                          provider = ''jwt'', claims = tc_raw c\<rparr>, v')))"

definition authenticate ::
    "jwt_lib \<Rightarrow> rat \<Rightarrow> string option \<Rightarrow> AuthProvider \<Rightarrow> UserIdentity res \<times> AuthProvider" where
  "authenticate decode now token p = (case p of
     AnonymousProvider \<Rightarrow> (anonymous_authenticate token, p)
   | LocalTokenProvider expected \<Rightarrow> (local_authenticate expected token, p)
   | JWTAuthProvider v \<Rightarrow>
       (case jwt_authenticate decode now token v of (r, v') \<Rightarrow> (r, JWTAuthProvider v')))"

record IncomingAuthConfig =
  auth_type :: string
  auth_mode :: string
  auth_token :: "string option"
  auth_jwks_uri :: "string option"
  auth_issuer :: "string option"
  auth_audience :: "string option"
  auth_algorithms :: "string list"

definition DEFAULT_KEY_TTL :: rat where "DEFAULT_KEY_TTL = 3600"

definition from_config :: "IncomingAuthConfig option \<Rightarrow> AuthProvider res" where
  "from_config config = (case config of
     None \<Rightarrow> Inl (ConfigurationError ''Auth provider config is required'')
   | Some c \<Rightarrow>
       (if auth_type c = ''anonymous'' then Inr AnonymousProvider
        else if auth_type c = ''local'' then
          (if \<not> str_truthy (auth_token c) then Inl (ConfigurationError ''Local auth requires 'token' in config'')
           else Inr (LocalTokenProvider (the (auth_token c))))
        else if auth_type c \<in> {''jwt'', ''oidc''} then
          (if auth_type c = ''oidc'' \<and> \<not> str_truthy (auth_jwks_uri c) then
             (if \<not> str_truthy (auth_issuer c)
              then Inl (ConfigurationError ''OIDC auth requires 'issuer' in config for auto-discovery'')
              else Inr (JWTAuthProvider (new_validator
                \<lparr>jwks_uri = Some (rstrip_by (\<lambda>x. x = CHR ''/'') (the (auth_issuer c)) @ ''/.well-known/openid-configuration''),
                 issuer = auth_issuer c, audience = auth_audience c, algorithms = auth_algorithms c,
                 key_ttl = DEFAULT_KEY_TTL\<rparr>)))
           else Inr (JWTAuthProvider (new_validator
                \<lparr>jwks_uri = auth_jwks_uri c, issuer = auth_issuer c, audience = auth_audience c,
                 algorithms = auth_algorithms c, key_ttl = DEFAULT_KEY_TTL\<rparr>)))
        else Inl (ConfigurationError (''Unknown incoming auth type: '' @ repr_str (auth_type c)))))"

subsection \<open>The gate of \<open>server/transport.py\<close>\<close>

type_synonym headers = "(string \<times> string) list"

fun extract_bearer_token :: "headers \<Rightarrow> string option" where
  "extract_bearer_token [] = None"
| "extract_bearer_token ((name, value) # hs) =
     (if name = ''authorization'' then
        (if starts_with ''bearer '' (str_lower value) then Some (drop 7 value) else None)
      else extract_bearer_token hs)"

text \<open>The context variables of \<open>server/auth_context.py\<close>.\<close>

record auth_context =
  current_user :: "UserIdentity option"
  current_auth_token :: "string option"
  current_session_id :: "string option"
  current_client_ip :: "string option"
  current_auth_mode :: string

definition empty_auth_context :: auth_context where
  "empty_auth_context = \<lparr>current_user = None, current_auth_token = None, current_session_id = None,
     current_client_ip = None, current_auth_mode = ''strict''\<rparr>"

text \<open>The module-level settings of the transport that \<open>lifespan\<close> fills in.\<close>

record transport_state =
  incoming_auth_provider :: "AuthProvider option"
  transport_auth_mode :: string
  transport_auth_issuer :: "string option"

definition authenticate_request ::
    "jwt_lib \<Rightarrow> rat \<Rightarrow> headers \<Rightarrow> string option \<Rightarrow> transport_state \<Rightarrow> auth_context \<Rightarrow>
     unit res \<times> transport_state \<times> auth_context" where
  "authenticate_request decode now hs client ts ac =
     (let ac1 = ac\<lparr>current_auth_mode := transport_auth_mode ts\<rparr>;
          ac2 = (case map_of hs ''mcp-session-id'' of None \<Rightarrow> ac1 | Some v \<Rightarrow> ac1\<lparr>current_session_id := Some v\<rparr>);
          ac3 = (case client of None \<Rightarrow> ac2 | Some ip \<Rightarrow> ac2\<lparr>current_client_ip := Some ip\<rparr>)
      in case incoming_auth_provider ts of
           None \<Rightarrow> (Inr (), ts, ac3)
         | Some p \<Rightarrow>
             (let token = extract_bearer_token hs
              in case authenticate decode now token p of (r, p') \<Rightarrow>
                (let ts' = ts\<lparr>incoming_auth_provider := Some p'\<rparr>
                 in case r of
                      Inl e \<Rightarrow> (Inl e, ts', ac3)
                    | Inr user \<Rightarrow>
                        (let ac4 = ac3\<lparr>current_user := Some user\<rparr>
                         in (Inr (), ts', if token = None then ac4 else ac4\<lparr>current_auth_token := token\<rparr>)))))"

definition build_www_authenticate :: "string option \<Rightarrow> string option \<Rightarrow> string" where
  "build_www_authenticate iss error =
     (let params = (if str_truthy iss then [''realm=\"'' @ the iss @ ''\"''] else [])
                 @ (if str_truthy error then [''error=\"'' @ the error @ ''\"''] else [])
      in ''Bearer'' @ (if params = [] then [] else '' '' @ join_with '', '' params))"

text \<open>The part of \<open>handle_sse\<close> before the connection is handed over.\<close>

datatype gate_result = Unauthorized string | GateFailure exn | ServiceNotReady | Admitted

definition handle_sse_gate ::
    "jwt_lib \<Rightarrow> rat \<Rightarrow> headers \<Rightarrow> string option \<Rightarrow> bool \<Rightarrow> transport_state \<Rightarrow> auth_context \<Rightarrow>
     gate_result \<times> transport_state \<times> auth_context" where
  "handle_sse_gate decode now hs client ready ts ac =
     (case authenticate_request decode now hs client ts ac of
        (Inl e, ts', ac') \<Rightarrow>
          (if exn_class e = ''AuthenticationError'' then
             (Unauthorized (build_www_authenticate (transport_auth_issuer ts')
                (if str_truthy (extract_bearer_token hs) then Some ''invalid_token'' else None)), ts', ac')
           else (GateFailure e, ts', ac'))
      | (Inr _, ts', ac') \<Rightarrow> (if ready then Admitted else ServiceNotReady, ts', ac'))"

section \<open>The contract of a token provider\<close>

text \<open>\<open>auth\<close> authenticates a request with its bearer token, if any; \<open>valid s t\<close> says that the
  provider in state \<open>s\<close> may accept \<open>t\<close>. The clients are the transport gate and the
  authentication middleware.\<close>

locale token_provider =
  fixes auth :: "string option \<Rightarrow> 's \<Rightarrow> UserIdentity res \<times> 's"
    and valid :: "'s \<Rightarrow> string \<Rightarrow> bool"
  assumes rejects_missing: "missing_token tok \<Longrightarrow> fst (auth tok s) = Inl (AuthenticationError ''Missing bearer token'')"
    and accepts_valid: "fst (auth (Some t) s) = Inr u \<Longrightarrow> valid s t \<and> \<not> is_anonymous u"
begin

lemma admitted:
  assumes "fst (auth tok s) = Inr u"
  shows "\<exists>t. tok = Some t \<and> t \<noteq> [] \<and> valid s t" "\<not> is_anonymous u"
proof -
  have "\<not> missing_token tok" using assms rejects_missing [of tok s] by auto
  then obtain t where t: "tok = Some t" "t \<noteq> []" by (auto simp: missing_token_def str_truthy_def)
  with assms accepts_valid [of t s u] show "\<exists>t. tok = Some t \<and> t \<noteq> [] \<and> valid s t" "\<not> is_anonymous u" by auto
qed

end

text \<open>A token is accepted by a local provider only when it is the configured one, and by a JWT
  provider only when PyJWT verifies it, under the configured issuer, audience and
  algorithms, with one of the key clients.\<close>

definition jwt_valid :: "jwt_lib \<Rightarrow> JWTValidator \<Rightarrow> string \<Rightarrow> bool" where
  "jwt_valid decode v t \<longleftrightarrow> (\<exists>client c. decode (jwt_options (jwt_config v)) client t = JwtClaims c)"

fun token_valid :: "jwt_lib \<Rightarrow> AuthProvider \<Rightarrow> string \<Rightarrow> bool" where
  "token_valid decode AnonymousProvider t = True"
| "token_valid decode (LocalTokenProvider expected) t = (t = expected)"
| "token_valid decode (JWTAuthProvider v) t = jwt_valid decode v t"

lemma fetch_keys_config [simp]: "jwt_config (fetch_keys now v) = jwt_config v"
  by (simp add: fetch_keys_def)

lemma validate_valid: "validate decode now t v = (Inr c, v') \<Longrightarrow> jwt_valid decode v t"
  by (auto simp: validate_def Let_def jwt_decode_def jwt_valid_def split: jwt_outcome.splits if_splits)
    blast+

interpretation local_provider: token_provider "\<lambda>tok expected. (local_authenticate expected tok, expected)"
  "\<lambda>expected t. t = expected"
  by unfold_locales
    (auto simp: local_authenticate_def compare_digest_def is_anonymous_def split: if_splits sum.splits)

interpretation jwt_provider: token_provider "jwt_authenticate decode now" "jwt_valid decode" for decode now
  by unfold_locales
    (auto simp: jwt_authenticate_def is_anonymous_def split: if_splits sum.splits prod.splits
      intro: validate_valid)

lemma authenticate_rejects_missing:
  "p \<noteq> AnonymousProvider \<Longrightarrow> missing_token tok \<Longrightarrow>
   fst (authenticate decode now tok p) = Inl (AuthenticationError ''Missing bearer token'')"
  by (cases p) (auto simp: authenticate_def case_prod_beta local_provider.rejects_missing [simplified]
      jwt_provider.rejects_missing)

lemma authenticate_admitted:
  assumes "p \<noteq> AnonymousProvider" "fst (authenticate decode now tok p) = Inr u"
  shows "\<exists>t. tok = Some t \<and> t \<noteq> [] \<and> token_valid decode p t" "\<not> is_anonymous u"
proof -
  have "(\<exists>t. tok = Some t \<and> t \<noteq> [] \<and> token_valid decode p t) \<and> \<not> is_anonymous u"
  proof (cases p)
    case (LocalTokenProvider e)
    with assms local_provider.admitted [of e tok u] show ?thesis by (simp add: authenticate_def)
  next
    case (JWTAuthProvider v)
    with assms jwt_provider.admitted [of decode now tok v u] show ?thesis
      by (simp add: authenticate_def case_prod_beta)
  qed (use assms in simp)
  then show "\<exists>t. tok = Some t \<and> t \<noteq> [] \<and> token_valid decode p t" "\<not> is_anonymous u" by simp_all
qed

section \<open>The gate\<close>

text \<open>
  C4: With an authentication provider configured, a connection passes the transport gate only
  with a non-empty bearer token that the provider accepts (the configured token, or a JWT
  that verifies under the configured issuer, audience and algorithms); the request context
  then carries that token and an identity that is not anonymous.
\<close>

theorem gate_admits_only_valid_tokens:
  assumes "incoming_auth_provider ts = Some p" "p \<noteq> AnonymousProvider"
    and "handle_sse_gate decode now hs client ready ts ac = (Admitted, ts', ac')"
  shows "\<exists>t u. extract_bearer_token hs = Some t \<and> t \<noteq> [] \<and> token_valid decode p t \<and>
    current_auth_token ac' = Some t \<and> current_user ac' = Some u \<and> \<not> is_anonymous u"
proof -
  obtain u where u: "fst (authenticate decode now (extract_bearer_token hs) p) = Inr u"
    and c: "current_user ac' = Some u"
      "extract_bearer_token hs \<noteq> None \<Longrightarrow> current_auth_token ac' = extract_bearer_token hs"
    using assms
    by (auto simp: handle_sse_gate_def authenticate_request_def Let_def case_prod_beta split: sum.splits if_splits prod.splits)
  from authenticate_admitted [OF assms(2) u] c show ?thesis by auto
qed

theorem gate_admits_only_valid_tokens_witness:
  "let hs = [(''host'', ''argus''), (''authorization'', ''Bearer s3cret'')];
       ts = \<lparr>incoming_auth_provider = Some (LocalTokenProvider ''s3cret''), transport_auth_mode = ''strict'',
             transport_auth_issuer = None\<rparr>
   in \<exists>t. extract_bearer_token hs = Some t \<and> token_valid (\<lambda>_ _ _. InvalidTokenError []) (LocalTokenProvider ''s3cret'') t"
proof -
  let ?hs = "[(''host'', ''argus''), (''authorization'', ''Bearer s3cret'')]"
  let ?ts = "\<lparr>incoming_auth_provider = Some (LocalTokenProvider ''s3cret''), transport_auth_mode = ''strict'',
             transport_auth_issuer = None\<rparr>"
  let ?g = "handle_sse_gate (\<lambda>_ _ _. InvalidTokenError []) 0 ?hs None True ?ts empty_auth_context"
  have "extract_bearer_token ?hs = Some ''s3cret''" "list_all is_ascii ''s3cret''" by code_simp+
  then have "fst ?g = Admitted"
    by (simp add: handle_sse_gate_def authenticate_request_def authenticate_def local_authenticate_def
        missing_token_def str_truthy_def compare_digest_def del: extract_bearer_token.simps)
  then have "?g = (Admitted, fst (snd ?g), snd (snd ?g))" by (metis prod.collapse)
  from gate_admits_only_valid_tokens [OF _ _ this] show ?thesis by auto
qed

text \<open>
  The gate does not know the permissive mode. Whatever the configured mode, a request
  without a bearer token is answered with 401 as soon as a provider other than the anonymous
  one is configured, although permissive mode is documented to let it through.
\<close>

theorem permissive_mode_rejects_missing_token:
  assumes "incoming_auth_provider ts = Some p" "p \<noteq> AnonymousProvider"
    and "transport_auth_mode ts = ''permissive''" "extract_bearer_token hs = None"
  shows "fst (handle_sse_gate decode now hs client ready ts ac) =
    Unauthorized (build_www_authenticate (transport_auth_issuer ts) None)"
  using authenticate_rejects_missing [OF assms(2), of None decode now] assms
  by (auto simp: handle_sse_gate_def authenticate_request_def Let_def case_prod_beta missing_token_def
      str_truthy_def split: prod.split)

theorem permissive_mode_rejects_missing_token_witness:
  "fst (handle_sse_gate (\<lambda>_ _ _. InvalidTokenError []) 0 [(''host'', ''argus'')] None True
     \<lparr>incoming_auth_provider = Some (LocalTokenProvider ''s3cret''), transport_auth_mode = ''permissive'',
      transport_auth_issuer = None\<rparr> empty_auth_context) = Unauthorized ''Bearer''"
  using permissive_mode_rejects_missing_token [of
      "\<lparr>incoming_auth_provider = Some (LocalTokenProvider ''s3cret''), transport_auth_mode = ''permissive'',
        transport_auth_issuer = None\<rparr>" "LocalTokenProvider ''s3cret''" "[(''host'', ''argus'')]"
      "\<lambda>_ _ _. InvalidTokenError []" 0 None True empty_auth_context]
  by (simp add: build_www_authenticate_def str_truthy_def)

section \<open>Key rotation\<close>

text \<open>
  A rotation of the signing keys does not interrupt service. When the keys published now
  verify a token and the cached key client either still verifies it or finds its signature
  wrong, the token is accepted with its claims, whatever the age of the cache, and at most
  one new key client is made.
\<close>

theorem validate_survives_key_rotation:
  assumes now: "\<And>n. clients_made v \<le> n \<Longrightarrow> decode (jwt_options (jwt_config v)) n t = JwtClaims c"
    and cached: "\<And>k. key_client v = Some k \<Longrightarrow> decode (jwt_options (jwt_config v)) k t = JwtClaims c \<or>
      (\<exists>m. decode (jwt_options (jwt_config v)) k t = InvalidSignatureError m)"
  shows "fst (validate decode now' t v) = token_claims c \<and> clients_made (snd (validate decode now' t v)) \<le> Suc (clients_made v)"
proof (cases "key_client v = None \<or> keys_expired now' v")
  case True
  then show ?thesis using now by (simp add: validate_def jwt_decode_def fetch_keys_def)
next
  case False
  then obtain k where "key_client v = Some k" by auto
  with False cached [of k] now show ?thesis
    by (auto simp: validate_def jwt_decode_def fetch_keys_def Let_def)
qed

definition ex_validator :: JWTValidator where
  "ex_validator = \<lparr>jwt_config = \<lparr>jwks_uri = Some ''https://idp/keys'', issuer = None, audience = None,
     algorithms = [''RS256''], key_ttl = 3600\<rparr>, key_client = Some 0, clients_made = 1, keys_fetched_at = 5\<rparr>"

theorem validate_survives_key_rotation_witness:
  "fst (validate (\<lambda>_ n _. if n = 0 then InvalidSignatureError ''old key'' else JwtClaims [(''sub'', PStr ''ann'')])
     10 ''tok'' ex_validator) = token_claims [(''sub'', PStr ''ann'')]"
  by (rule validate_survives_key_rotation [THEN conjunct1]) (simp_all add: ex_validator_def)

text \<open>An exception that is not an \<open>InvalidTokenError\<close>, such as the key client's own for a key id
  it does not know, leaves \<open>validate\<close> as it is: it is no \<open>JWTValidationError\<close>, the keys are not
  fetched again, and the provider does not turn it into an \<open>AuthenticationError\<close>.\<close>

lemma key_client_error_escapes:
  assumes "key_client v = Some k" "\<not> keys_expired now v"
    and "decode (jwt_options (jwt_config v)) k t = JwtOther e" "t \<noteq> []" "exn_class e \<noteq> ''JWTValidationError''"
  shows "jwt_authenticate decode now (Some t) v = (Inl e, v)"
  using assms by (simp add: jwt_authenticate_def validate_def jwt_decode_def missing_token_def str_truthy_def)

text \<open>OIDC discovery is not performed: without a configured key URI the discovery document itself
  is used as the key set.\<close>

lemma oidc_uses_discovery_document_as_keys:
  assumes "auth_type c = ''oidc''" "\<not> str_truthy (auth_jwks_uri c)" "auth_issuer c = Some iss" "iss \<noteq> []"
  shows "\<exists>v. from_config (Some c) = Inr (JWTAuthProvider v) \<and>
    jwks_uri (jwt_config v) = Some (rstrip_by (\<lambda>x. x = CHR ''/'') iss @ ''/.well-known/openid-configuration'')"
  using assms by (simp add: from_config_def str_truthy_def new_validator_def)

end
