(* ===== verification/Middleware_Chain.thy ===== *)
theory Middleware_Chain
  imports Auth
begin

text \<open>
  \<open>bridge/middleware/chain.py\<close>: the request context and the composition of middleware. A
  handler takes the state of the world and the request context (an object every layer may
  change) and gives both back with a result or an exception; a middleware takes the next
  handler too. The state of the world is a type parameter here.
\<close>

section \<open>Definitions\<close>

text \<open>What a handler returns: the result types of the MCP library the code distinguishes, with
  their contents, or any other value.\<close>

datatype mcp_result =
    CallToolResult pyval bool
  | ReadResourceResult pyval
  | GetPromptResult pyval
  | OtherResult pyval

datatype meta_val = MVal pyval | MUser UserIdentity

record RequestContext =
  capability_name :: string
  mcp_method :: string
  arguments :: "(string, pyval) dict option"
  request_id :: string
  server_name :: "string option"
  original_name :: "string option"
  start_time :: rat
  metadata :: "(string, meta_val) dict"
  ctx_error :: "exn option"

definition new_context ::
    "string \<Rightarrow> rat \<Rightarrow> string \<Rightarrow> string \<Rightarrow> (string, pyval) dict option \<Rightarrow> (string, meta_val) dict \<Rightarrow> RequestContext" where
  "new_context rid now cap meth args meta =
     \<lparr>capability_name = cap, mcp_method = meth, arguments = args, request_id = rid, server_name = None,
      original_name = None, start_time = now, metadata = meta, ctx_error = None\<rparr>"

definition elapsed_ms :: "rat \<Rightarrow> RequestContext \<Rightarrow> rat" where
  "elapsed_ms now ctx = (now - start_time ctx) * 1000"

type_synonym 'w outcome = "'w \<times> RequestContext \<times> mcp_result res"
type_synonym 'w handler = "'w \<Rightarrow> RequestContext \<Rightarrow> 'w outcome"
type_synonym 'w middleware = "'w handler \<Rightarrow> 'w handler"

text \<open>The wrapper \<open>build_chain\<close> puts around each middleware: a middleware that returns \<open>None\<close>
  fails an assertion.\<close>

definition wrap :: "'w middleware \<Rightarrow> 'w middleware" where
  "wrap mw next w ctx =
     (case mw next w ctx of
        (w', ctx', Inl e) \<Rightarrow> (w', ctx', Inl e)
      | (w', ctx', Inr r) \<Rightarrow>
          (if r = OtherResult PNone then (w', ctx', Inl (AssertionError ''middleware must return a response or raise.''))
           else (w', ctx', Inr r)))"

definition build_chain :: "'w middleware list \<Rightarrow> 'w handler \<Rightarrow> 'w handler" where
  "build_chain mws handler = fold (\<lambda>mw chain. wrap mw chain) (rev mws) handler"

abbreviation out_world :: "'w outcome \<Rightarrow> 'w" where "out_world oc \<equiv> fst oc"
abbreviation out_ctx :: "'w outcome \<Rightarrow> RequestContext" where "out_ctx oc \<equiv> fst (snd oc)"
abbreviation out_res :: "'w outcome \<Rightarrow> mcp_result res" where "out_res oc \<equiv> snd (snd oc)"

section \<open>Composition\<close>

lemma build_chain_Nil [simp]: "build_chain [] h = h"
  by (simp add: build_chain_def)

lemma build_chain_Cons [simp]: "build_chain (mw # mws) h = wrap mw (build_chain mws h)"
  by (simp add: build_chain_def)

lemma build_chain_append: "build_chain (mws @ mws') h = build_chain mws (build_chain mws' h)"
  by (simp add: build_chain_def)

lemma wrap_world [simp]: "out_world (wrap mw next w ctx) = out_world (mw next w ctx)"
  by (auto simp: wrap_def split: prod.split sum.split)

lemma wrap_ctx [simp]: "out_ctx (wrap mw next w ctx) = out_ctx (mw next w ctx)"
  by (auto simp: wrap_def split: prod.split sum.split)

lemma wrap_raises: "out_res (mw next w ctx) = Inl e \<Longrightarrow> out_res (wrap mw next w ctx) = Inl e"
  by (auto simp: wrap_def split: prod.splits sum.splits)

lemma wrap_returns: "out_res (wrap mw next w ctx) = Inr r \<longleftrightarrow> out_res (mw next w ctx) = Inr r \<and> r \<noteq> OtherResult PNone"
  by (auto simp: wrap_def split: prod.splits sum.splits)

lemma wrap_eq: "(\<And>r. out_res (mw next w ctx) = Inr r \<Longrightarrow> r \<noteq> OtherResult PNone) \<Longrightarrow> wrap mw next w ctx = mw next w ctx"
  by (auto simp: wrap_def split: prod.splits sum.splits)

text \<open>
  The contract of a layer that guards the rest of the chain: it lets a request through to the
  next handler only when \<open>ok\<close> holds of it, possibly with a changed context, and otherwise
  raises without touching the rest of the world.
\<close>

locale guard_layer =
  fixes mw :: "'w middleware"
    and ok :: "'w \<Rightarrow> RequestContext \<Rightarrow> bool"
    and enter :: "'w \<Rightarrow> RequestContext \<Rightarrow> 'w \<times> RequestContext"
    and side :: "'w \<Rightarrow> 'v"
  assumes lets_through: "ok w ctx \<Longrightarrow> mw next w ctx = next (fst (enter w ctx)) (snd (enter w ctx))"
    and blocks: "\<not> ok w ctx \<Longrightarrow> \<exists>e. out_res (mw next w ctx) = Inl e"
    and blocks_side: "\<not> ok w ctx \<Longrightarrow> side (out_world (mw next w ctx)) = side w"
begin

lemma chain_blocked:
  assumes "\<not> ok w ctx"
  shows "\<exists>e. out_res (build_chain (mw # mws) h w ctx) = Inl e"
    and "side (out_world (build_chain (mw # mws) h w ctx)) = side w"
  using blocks [OF assms, of "build_chain mws h"] blocks_side [OF assms, of "build_chain mws h"]
  by (auto dest: wrap_raises)

lemma chain_returns_only_ok:
  "out_res (build_chain (mw # mws) h w ctx) = Inr r \<Longrightarrow> ok w ctx"
  using chain_blocked(1) [of w ctx mws h] by (metis Inl_Inr_False)

end

end
