(* ===== verification/Plugins.thy ===== *)
theory Plugins
  imports Middleware_Chain
begin

text \<open>
  The plugin framework: \<open>plugins/base.py\<close>, \<open>plugins/models.py\<close>, \<open>plugins/registry.py\<close>,
  \<open>plugins/manager.py\<close> and \<open>plugins/middleware.py\<close>. A plugin's hook is any function from the
  context snapshot it gets to a context or an exception; a hook that outlasts its timeout is
  one that raises \<open>TimeoutError\<close>, as \<open>asyncio.wait_for\<close> does. Contexts are values: what a hook
  does to the snapshot before it raises is lost, as it is for the copied dictionaries in the
  code (a result object changed in place is not modelled).
\<close>

section \<open>Definitions\<close>

subsection \<open>Models\<close>

datatype ExecutionMode = enforce | enforce_ignore_error | permissive | disabled

record PluginCondition =
  cond_servers :: "string list"
  cond_tools :: "string list"
  cond_methods :: "string list"

record PluginConfig =
  plugin_name :: string
  plugin_enabled :: bool
  execution_mode :: ExecutionMode
  plugin_priority :: int
  plugin_timeout :: rat
  conditions :: PluginCondition

record PluginContext =
  pc_capability :: string
  pc_method :: string
  pc_arguments :: "(string, pyval) dict"
  pc_server :: string
  pc_metadata :: "(string, meta_val) dict"
  pc_result :: mcp_result

type_synonym hook = "PluginContext \<Rightarrow> PluginContext res"

definition new_plugin_context ::
    "string \<Rightarrow> string \<Rightarrow> (string, pyval) dict option \<Rightarrow> string option \<Rightarrow> (string, meta_val) dict \<Rightarrow> mcp_result \<Rightarrow>
     PluginContext" where
  "new_plugin_context cap meth args srv meta r =
     \<lparr>pc_capability = cap, pc_method = meth, pc_arguments = (case args of None \<Rightarrow> [] | Some d \<Rightarrow> d),
      pc_server = (case srv of None \<Rightarrow> [] | Some s \<Rightarrow> s), pc_metadata = meta, pc_result = r\<rparr>"

definition copy_context :: "PluginContext \<Rightarrow> PluginContext" where
  "copy_context c = new_plugin_context (pc_capability c) (pc_method c) (Some (pc_arguments c)) (Some (pc_server c))
     (pc_metadata c) (pc_result c)"

subsection \<open>Registry\<close>

text \<open>A plugin class: the hooks it overrides and whether its constructor raises.\<close>

record plugin_class =
  class_hooks :: "(string \<times> (PluginConfig \<Rightarrow> hook)) list"
  class_init :: "PluginConfig \<Rightarrow> exn option"

record plugin =
  pl_config :: PluginConfig
  pl_hooks :: "(string, hook) dict"

record PluginRegistry =
  plugins :: "(string, plugin) dict"
  load_order :: "string list"

definition empty_plugins :: PluginRegistry where
  "empty_plugins = \<lparr>plugins = [], load_order = []\<rparr>"

definition register_plugin :: "string \<Rightarrow> plugin_class \<Rightarrow> (string, plugin_class) dict \<Rightarrow> (string, plugin_class) dict" where
  "register_plugin name cls classes = dict_set name cls classes"

fun load_from_config ::
    "(string, plugin_class) dict \<Rightarrow> PluginConfig list \<Rightarrow> PluginRegistry \<Rightarrow> PluginRegistry res" where
  "load_from_config classes [] reg = Inr reg"
| "load_from_config classes (entry # rest) reg =
     (if \<not> plugin_enabled entry then load_from_config classes rest reg
      else case dict_get classes (plugin_name entry) of
             None \<Rightarrow> load_from_config classes rest reg
           | Some cls \<Rightarrow>
               (case class_init cls entry of
                  Some e \<Rightarrow> Inl e
                | None \<Rightarrow>
                    (let pl = \<lparr>pl_config = entry, pl_hooks = map (\<lambda>(h, f). (h, f entry)) (class_hooks cls)\<rparr>
                     in load_from_config classes rest
                          (reg\<lparr>plugins := dict_set (plugin_name entry) pl (plugins reg),
                               load_order := load_order reg @ [plugin_name entry]\<rparr>))))"

definition all_plugins :: "PluginRegistry \<Rightarrow> plugin list" where
  "all_plugins reg = List.map_filter (dict_get (plugins reg)) (load_order reg)"

definition BASE_HOOKS :: "string list" where
  "BASE_HOOKS = [''tool_pre_invoke'', ''tool_post_invoke'', ''prompt_pre_fetch'', ''prompt_post_fetch'',
     ''resource_pre_fetch'', ''resource_post_fetch'']"

definition get_by_hook :: "string \<Rightarrow> PluginRegistry \<Rightarrow> plugin list" where
  "get_by_hook hook_name reg =
     (if hook_name \<notin> set BASE_HOOKS then []
      else sort_key (\<lambda>p. plugin_priority (pl_config p))
             (filter (\<lambda>p. dict_get (pl_hooks p) hook_name \<noteq> None) (map snd (plugins reg))))"

text \<open>\<open>load_all\<close> and \<open>unload_all\<close> call a life-cycle hook of every plugin whatever it raises: the
  names in the order of the calls.\<close>

definition load_all :: "PluginRegistry \<Rightarrow> string list" where
  "load_all reg = map (\<lambda>p. plugin_name (pl_config p)) (all_plugins reg)"

definition unload_all :: "PluginRegistry \<Rightarrow> string list" where
  "unload_all reg = map (\<lambda>p. plugin_name (pl_config p)) (rev (all_plugins reg))"

subsection \<open>Manager\<close>

definition matches_conditions :: "PluginCondition \<Rightarrow> string \<Rightarrow> string \<Rightarrow> string \<Rightarrow> bool" where
  "matches_conditions c cap srv meth =
     (if cond_servers c \<noteq> [] \<and> srv \<notin> set (cond_servers c) then False
      else if cond_tools c \<noteq> [] \<and> cap \<notin> set (cond_tools c) then False
      else if cond_methods c \<noteq> [] \<and> meth \<notin> set (cond_methods c) then False
      else True)"

definition str_or :: "string option \<Rightarrow> string \<Rightarrow> string" where
  "str_or s d = (case s of None \<Rightarrow> d | Some x \<Rightarrow> if x = [] then d else x)"

definition is_plugin_error :: "exn \<Rightarrow> bool" where
  "is_plugin_error e = (case e of PluginError _ _ _ \<Rightarrow> True | _ \<Rightarrow> False)"

text \<open>What a failing hook means in the plugin's mode: \<open>None\<close> to go on.\<close>

definition hook_failure :: "string \<Rightarrow> plugin \<Rightarrow> exn \<Rightarrow> exn option" where
  "hook_failure hook_name p e =
     (if e = TimeoutError then
        (if execution_mode (pl_config p) = enforce
         then Some (PluginError (plugin_name (pl_config p)) hook_name (OtherException ''TimeoutError'' ''timeout'')) else None)
      else if is_plugin_error e then Some e
      else if execution_mode (pl_config p) = enforce
      then Some (PluginError (plugin_name (pl_config p)) hook_name e) else None)"

text \<open>The loop over the plugins, with the accumulated context and metadata.\<close>

fun run_plugins ::
    "string \<Rightarrow> string \<Rightarrow> string \<Rightarrow> string \<Rightarrow> plugin list \<Rightarrow> PluginContext \<Rightarrow> (string, meta_val) dict \<Rightarrow>
     (PluginContext \<times> (string, meta_val) dict) res" where
  "run_plugins hook_name cap srv meth [] acc agg = Inr (acc, agg)"
| "run_plugins hook_name cap srv meth (p # ps) acc agg =
     (if \<not> matches_conditions (conditions (pl_config p)) cap srv meth
      then run_plugins hook_name cap srv meth ps acc agg
      else if execution_mode (pl_config p) = disabled then run_plugins hook_name cap srv meth ps acc agg
      else case the (dict_get (pl_hooks p) hook_name) (copy_context acc) of
             Inr r \<Rightarrow> run_plugins hook_name cap srv meth ps r (dict_update agg (pc_metadata r))
           | Inl e \<Rightarrow>
               (case hook_failure hook_name p e of
                  Some e' \<Rightarrow> Inl e'
                | None \<Rightarrow> run_plugins hook_name cap srv meth ps acc agg))"

definition run_hook ::
    "PluginRegistry \<Rightarrow> string \<Rightarrow> PluginContext \<Rightarrow> string option \<Rightarrow> string option \<Rightarrow> string option \<Rightarrow> PluginContext res" where
  "run_hook reg hook_name ctx cap srv meth =
     (let ps = get_by_hook hook_name reg
      in if ps = [] then Inr ctx
         else case run_plugins hook_name (str_or cap (pc_capability ctx)) (str_or srv (pc_server ctx))
                     (str_or meth (pc_method ctx)) ps ctx [] of
                Inl e \<Rightarrow> Inl e
              | Inr (acc, agg) \<Rightarrow> Inr (acc\<lparr>pc_metadata := dict_update (pc_metadata acc) agg\<rparr>))"

subsection \<open>Middleware\<close>

definition PRE_HOOKS :: "(string, string) dict" where
  "PRE_HOOKS = [(''call_tool'', ''tool_pre_invoke''), (''read_resource'', ''resource_pre_fetch''),
     (''get_prompt'', ''prompt_pre_fetch'')]"

definition POST_HOOKS :: "(string, string) dict" where
  "POST_HOOKS = [(''call_tool'', ''tool_post_invoke''), (''read_resource'', ''resource_post_fetch''),
     (''get_prompt'', ''prompt_post_fetch'')]"

definition request_to_plugin_ctx :: "RequestContext \<Rightarrow> mcp_result \<Rightarrow> PluginContext" where
  "request_to_plugin_ctx ctx r =
     new_plugin_context (capability_name ctx) (mcp_method ctx) (arguments ctx) (server_name ctx) (metadata ctx) r"

definition apply_plugin_ctx :: "RequestContext \<Rightarrow> PluginContext \<Rightarrow> RequestContext" where
  "apply_plugin_ctx ctx pc =
     ctx\<lparr>arguments := Some (pc_arguments pc), metadata := dict_update (metadata ctx) (pc_metadata pc)\<rparr>"

definition plugin_phase ::
    "PluginRegistry \<Rightarrow> string \<Rightarrow> string \<Rightarrow> RequestContext \<Rightarrow> mcp_result \<Rightarrow> PluginContext res" where
  "plugin_phase reg hook_name meth ctx r =
     run_hook reg hook_name (request_to_plugin_ctx ctx r) (Some (capability_name ctx))
       (Some (str_or (server_name ctx) [])) (Some meth)"

definition PluginMiddleware :: "PluginRegistry \<Rightarrow> 'w middleware" where
  "PluginMiddleware reg next w ctx =
     (let pre = (case dict_get PRE_HOOKS (mcp_method ctx) of
                   None \<Rightarrow> Inr ctx
                 | Some h \<Rightarrow> (case plugin_phase reg h (mcp_method ctx) ctx (OtherResult PNone) of
                     Inl e \<Rightarrow> Inl e | Inr pc \<Rightarrow> Inr (apply_plugin_ctx ctx pc)))
      in case pre of
           Inl e \<Rightarrow> (w, ctx, Inl e)
         | Inr ctx1 \<Rightarrow>
             (case next w ctx1 of
                (w', ctx2, Inl e) \<Rightarrow> (w', ctx2, Inl e)
              | (w', ctx2, Inr r) \<Rightarrow>
                  (case dict_get POST_HOOKS (mcp_method ctx) of
                     None \<Rightarrow> (w', ctx2, Inr r)
                   | Some h \<Rightarrow> (case plugin_phase reg h (mcp_method ctx) ctx2 r of
                       Inl e \<Rightarrow> (w', ctx2, Inl e)
                     | Inr pc \<Rightarrow> (w', apply_plugin_ctx ctx2 pc, Inr (pc_result pc))))))"

section \<open>Order\<close>

lemma get_by_hook_plugins:
  "p \<in> set (get_by_hook h reg) \<Longrightarrow> dict_get (pl_hooks p) h \<noteq> None \<and> p \<in> snd ` set (plugins reg)"
  by (auto simp: get_by_hook_def split: if_splits)

text \<open>
  The plugins of a hook run in ascending priority, those of equal priority in the order
  they were loaded, and every loaded plugin that overrides the hook is among them exactly as
  often as it is registered.
\<close>

theorem hooks_in_priority_order:
  assumes "h \<in> set BASE_HOOKS"
  shows "sorted (map (\<lambda>p. plugin_priority (pl_config p)) (get_by_hook h reg)) \<and>
    filter (\<lambda>p. plugin_priority (pl_config p) = k) (get_by_hook h reg) =
      filter (\<lambda>p. plugin_priority (pl_config p) = k \<and> dict_get (pl_hooks p) h \<noteq> None) (map snd (plugins reg))"
  using assms by (simp add: get_by_hook_def sort_key_stable conj_commute)

section \<open>Failing plugins\<close>

text \<open>A plugin whose hook fails on every context and whose mode ignores errors.\<close>

definition silent :: "string \<Rightarrow> plugin \<Rightarrow> bool" where
  "silent h p \<longleftrightarrow> execution_mode (pl_config p) \<noteq> enforce \<and>
     (\<exists>f. dict_get (pl_hooks p) h = Some f \<and> (\<forall>c. \<exists>e. f c = Inl e \<and> \<not> is_plugin_error e))"

definition without :: "(plugin \<Rightarrow> bool) \<Rightarrow> PluginRegistry \<Rightarrow> PluginRegistry" where
  "without P reg = reg\<lparr>plugins := filter (\<lambda>kp. \<not> P (snd kp)) (plugins reg)\<rparr>"

lemma get_by_hook_without: "get_by_hook h (without P reg) = filter (\<lambda>p. \<not> P p) (get_by_hook h reg)"
  by (simp add: get_by_hook_def without_def filter_sort filter_map o_def conj_commute)

lemma run_plugins_skip:
  assumes "\<And>p acc. P p \<Longrightarrow> matches_conditions (conditions (pl_config p)) cap srv meth \<Longrightarrow>
      execution_mode (pl_config p) \<noteq> disabled \<Longrightarrow>
      \<exists>e. the (dict_get (pl_hooks p) h) (copy_context acc) = Inl e \<and> hook_failure h p e = None"
  shows "run_plugins h cap srv meth ps acc agg = run_plugins h cap srv meth (filter (\<lambda>p. \<not> P p) ps) acc agg"
proof (induction ps arbitrary: acc agg)
  case (Cons p ps)
  show ?case
  proof (cases "P p \<and> matches_conditions (conditions (pl_config p)) cap srv meth \<and> execution_mode (pl_config p) \<noteq> disabled")
    case True
    then obtain e where "the (dict_get (pl_hooks p) h) (copy_context acc) = Inl e" "hook_failure h p e = None"
      using assms by blast
    with True Cons show ?thesis by simp
  next
    case False
    with Cons show ?thesis by (auto split: sum.split option.split)
  qed
qed simp

lemma run_hook_skip:
  assumes "\<And>p acc. P p \<Longrightarrow> matches_conditions (conditions (pl_config p)) (str_or cap (pc_capability ctx))
        (str_or srv (pc_server ctx)) (str_or meth (pc_method ctx)) \<Longrightarrow> execution_mode (pl_config p) \<noteq> disabled \<Longrightarrow>
      \<exists>e. the (dict_get (pl_hooks p) h) (copy_context acc) = Inl e \<and> hook_failure h p e = None"
  shows "run_hook reg h ctx cap srv meth = run_hook (without P reg) h ctx cap srv meth"
proof (cases "get_by_hook h reg = []")
  case True
  then show ?thesis by (simp add: run_hook_def get_by_hook_without)
next
  case False
  have "run_plugins h (str_or cap (pc_capability ctx)) (str_or srv (pc_server ctx)) (str_or meth (pc_method ctx))
      (get_by_hook h reg) ctx [] = run_plugins h (str_or cap (pc_capability ctx)) (str_or srv (pc_server ctx))
      (str_or meth (pc_method ctx)) (filter (\<lambda>p. \<not> P p) (get_by_hook h reg)) ctx []"
    using assms by (rule run_plugins_skip)
  with False show ?thesis
    by (simp add: run_hook_def get_by_hook_without Let_def)
qed

text \<open>
  Plugins that fail in a mode that ignores errors are isolated: a run of a hook is the
  same as if those plugins were not registered, whatever they did to their snapshot, and
  whether they raised or timed out.
\<close>

theorem ignored_failures_are_transparent:
  "run_hook reg h ctx cap srv meth = run_hook (without (silent h) reg) h ctx cap srv meth"
proof (rule run_hook_skip)
  fix p acc
  assume "silent h p"
  then obtain f e where "dict_get (pl_hooks p) h = Some f" "f (copy_context acc) = Inl e" "\<not> is_plugin_error e"
    "execution_mode (pl_config p) \<noteq> enforce"
    unfolding silent_def by blast
  then show "\<exists>e. the (dict_get (pl_hooks p) h) (copy_context acc) = Inl e \<and> hook_failure h p e = None"
    by (simp add: hook_failure_def)
qed

text \<open>The run up to a plugin, and from there on.\<close>

lemma run_plugins_append:
  "run_plugins h cap srv meth (ps @ qs) acc agg =
     (case run_plugins h cap srv meth ps acc agg of Inl e \<Rightarrow> Inl e | Inr (acc', agg') \<Rightarrow> run_plugins h cap srv meth qs acc' agg')"
  by (induction ps arbitrary: acc agg) (auto split: sum.split option.split)

lemma enforced_failure: "execution_mode (pl_config p) = enforce \<Longrightarrow> \<exists>e'. hook_failure h p e = Some e'"
  by (simp add: hook_failure_def)

lemma run_plugins_enforced:
  assumes "matches_conditions (conditions (pl_config p)) cap srv meth" "execution_mode (pl_config p) = enforce"
    and "\<And>acc' agg'. run_plugins h cap srv meth before acc agg = Inr (acc', agg') \<Longrightarrow>
      \<exists>e. the (dict_get (pl_hooks p) h) (copy_context acc') = Inl e"
  shows "\<exists>e. run_plugins h cap srv meth (before @ p # after) acc agg = Inl e"
proof (cases "run_plugins h cap srv meth before acc agg")
  case (Inr r)
  obtain acc' agg' where r: "r = (acc', agg')" by (cases r)
  obtain e where "the (dict_get (pl_hooks p) h) (copy_context acc') = Inl e" using assms(3) Inr r by blast
  moreover obtain e' where "hook_failure h p e = Some e'" using enforced_failure [OF assms(2)] by blast
  ultimately show ?thesis using assms(1,2) by (simp add: run_plugins_append Inr r)
qed (simp add: run_plugins_append)

text \<open>
  A plugin in \<open>enforce\<close> mode whose hook before the call fails on this request: on the context that
  the plugins before it, when none of them ends the phase, hand to it.
\<close>

definition rejects_request :: "PluginRegistry \<Rightarrow> string \<Rightarrow> plugin \<Rightarrow> RequestContext \<Rightarrow> bool" where
  "rejects_request reg h p ctx \<longleftrightarrow>
     (\<exists>before after. get_by_hook h reg = before @ p # after \<and>
        (\<forall>acc agg. run_plugins h (capability_name ctx) (str_or (server_name ctx) []) (mcp_method ctx) before
           (request_to_plugin_ctx ctx (OtherResult PNone)) [] = Inr (acc, agg) \<longrightarrow>
           (\<exists>e. the (dict_get (pl_hooks p) h) (copy_context acc) = Inl e)))"

lemma rejected_phase_raises:
  assumes "dict_get PRE_HOOKS (mcp_method ctx) = Some h" "rejects_request reg h p ctx" "execution_mode (pl_config p) = enforce"
    and "matches_conditions (conditions (pl_config p)) (capability_name ctx) (str_or (server_name ctx) []) (mcp_method ctx)"
    and "capability_name ctx \<noteq> []"
  shows "\<exists>e. plugin_phase reg h (mcp_method ctx) ctx (OtherResult PNone) = Inl e"
proof -
  have "mcp_method ctx \<noteq> []" using assms(1) by (auto simp: PRE_HOOKS_def split: if_splits)
  then have "str_or (Some (mcp_method ctx)) d = mcp_method ctx" "str_or (Some (capability_name ctx)) d = capability_name ctx" for d
    using assms(5) by (simp_all add: str_or_def)
  moreover have "str_or (Some (str_or (server_name ctx) [])) (pc_server (request_to_plugin_ctx ctx r)) = str_or (server_name ctx) []" for r
    by (auto simp: str_or_def request_to_plugin_ctx_def new_plugin_context_def split: option.split)
  moreover obtain before after where split: "get_by_hook h reg = before @ p # after"
    and fails: "\<And>acc agg. run_plugins h (capability_name ctx) (str_or (server_name ctx) []) (mcp_method ctx) before
           (request_to_plugin_ctx ctx (OtherResult PNone)) [] = Inr (acc, agg) \<Longrightarrow> \<exists>e. the (dict_get (pl_hooks p) h) (copy_context acc) = Inl e"
    using assms(2) unfolding rejects_request_def by blast
  moreover have "\<exists>e. run_plugins h (capability_name ctx) (str_or (server_name ctx) []) (mcp_method ctx)
      (before @ p # after) (request_to_plugin_ctx ctx (OtherResult PNone)) [] = Inl e"
    by (rule run_plugins_enforced [OF assms(4,3)]) (rule fails)
  ultimately show ?thesis by (auto simp: plugin_phase_def run_hook_def Let_def)
qed

text \<open>A plugin whose hook fails on every context.\<close>

lemma enforced_hook_blocks:
  fixes nxt :: "'w handler"
  assumes "dict_get PRE_HOOKS (mcp_method ctx) = Some h" "p \<in> set (get_by_hook h reg)"
    and "execution_mode (pl_config p) = enforce" "\<And>c. \<exists>e. the (dict_get (pl_hooks p) h) c = Inl e"
    and "matches_conditions (conditions (pl_config p)) (capability_name ctx) (str_or (server_name ctx) []) (mcp_method ctx)"
    and "capability_name ctx \<noteq> []"
  shows "\<exists>e. PluginMiddleware reg nxt w ctx = (w, ctx, Inl e)"
proof -
  have "rejects_request reg h p ctx" using split_list [OF assms(2)] assms(4) by (auto simp: rejects_request_def)
  from rejected_phase_raises [OF assms(1) this assms(3,5,6)] assms(1) show ?thesis by (auto simp: PluginMiddleware_def)
qed

text \<open>
  C10: A plugin in \<open>enforce\<close> mode that rejects is fail-closed: when its conditions match and its
  pre-hook raises or times out on this request, with the context the plugins before it hand to it,
  the middleware raises one and the same exception whatever handler follows and whatever state
  that handler would act on: the request goes to no handler behind. What hooks do besides returning
  a context or raising is not part of the model.
\<close>

theorem enforcing_plugin_blocks:
  assumes "dict_get PRE_HOOKS (mcp_method ctx) = Some h" "rejects_request reg h p ctx" "execution_mode (pl_config p) = enforce"
    and "matches_conditions (conditions (pl_config p)) (capability_name ctx) (str_or (server_name ctx) []) (mcp_method ctx)"
    and "capability_name ctx \<noteq> []"
  shows "\<exists>e ctx'. \<forall>nxt :: 'w handler. \<forall>w. PluginMiddleware reg nxt w ctx = (w, ctx', Inl e)"
  using rejected_phase_raises [OF assms] assms(1) by (auto simp: PluginMiddleware_def)

section \<open>Server conditions\<close>

text \<open>
  A condition on backend servers switches a plugin's pre-hooks off. The backend of a
  request is not known before routing, so with no server in the context every plugin that is
  restricted to servers is skipped, in \<open>enforce\<close> mode too: the phase before the call runs as
  if those plugins were not registered.
\<close>

theorem server_condition_disables_pre_hooks:
  assumes "server_name ctx = None"
  shows "plugin_phase reg h meth ctx r =
    plugin_phase (without (\<lambda>p. cond_servers (conditions (pl_config p)) \<noteq> [] \<and>
      [] \<notin> set (cond_servers (conditions (pl_config p)))) reg) h meth ctx r"
  unfolding plugin_phase_def
  by (rule run_hook_skip)
    (auto simp: assms str_or_def request_to_plugin_ctx_def new_plugin_context_def matches_conditions_def split: if_splits)

section \<open>Instances\<close>

text \<open>A registry with a plugin that rejects every tool call and one that marks the metadata.\<close>

definition ex_guard :: "string list \<Rightarrow> plugin" where
  "ex_guard servers =
     \<lparr>pl_config = \<lparr>plugin_name = ''guard'', plugin_enabled = True, execution_mode = enforce, plugin_priority = 10,
        plugin_timeout = 30, conditions = \<lparr>cond_servers = servers, cond_tools = [], cond_methods = []\<rparr>\<rparr>,
      pl_hooks = [(''tool_pre_invoke'', \<lambda>_. Inl (ValueError ''rejected''))]\<rparr>"

definition ex_marker :: plugin where
  "ex_marker =
     \<lparr>pl_config = \<lparr>plugin_name = ''marker'', plugin_enabled = True, execution_mode = permissive, plugin_priority = 5,
        plugin_timeout = 30, conditions = \<lparr>cond_servers = [], cond_tools = [], cond_methods = []\<rparr>\<rparr>,
      pl_hooks = [(''tool_pre_invoke'', \<lambda>c. Inr (c\<lparr>pc_metadata := dict_set ''seen'' (MVal (PBool True)) (pc_metadata c)\<rparr>))]\<rparr>"

definition ex_plugins :: "string list \<Rightarrow> PluginRegistry" where
  "ex_plugins servers = \<lparr>plugins = [(''guard'', ex_guard servers), (''marker'', ex_marker)], load_order = [''guard'', ''marker'']\<rparr>"

definition ex_call :: RequestContext where
  "ex_call = new_context ''r1'' 0 ''read'' ''call_tool'' None []"

lemma ex_plugins_by_hook: "get_by_hook ''tool_pre_invoke'' (ex_plugins servers) = [ex_marker, ex_guard servers]"
  by (simp add: get_by_hook_def BASE_HOOKS_def ex_plugins_def ex_guard_def ex_marker_def)

theorem hooks_in_priority_order_witness:
  "sorted (map (\<lambda>p. plugin_priority (pl_config p)) (get_by_hook ''tool_pre_invoke'' (ex_plugins [])))"
  by (rule hooks_in_priority_order [THEN conjunct1]) (simp add: BASE_HOOKS_def)

lemma ex_guard_rejects: "rejects_request (ex_plugins []) ''tool_pre_invoke'' (ex_guard []) ex_call"
  unfolding rejects_request_def ex_plugins_by_hook
  by (rule exI [of _ "[ex_marker]"], rule exI [of _ "[]"]) (simp add: ex_guard_def)

theorem enforcing_plugin_blocks_witness:
  "\<exists>e c. PluginMiddleware (ex_plugins []) (\<lambda>w c. (Suc w, c, Inr (CallToolResult PNone False))) (0::nat) ex_call = (0, c, Inl e)"
proof -
  have "\<exists>e c. \<forall>nxt :: nat handler. \<forall>w. PluginMiddleware (ex_plugins []) nxt w ex_call = (w, c, Inl e)"
    by (rule enforcing_plugin_blocks [where h = "''tool_pre_invoke''" and p = "ex_guard []"])
      (simp_all add: ex_guard_rejects, simp_all add: ex_call_def new_context_def PRE_HOOKS_def ex_guard_def matches_conditions_def)
  then show ?thesis by blast
qed

theorem server_condition_disables_pre_hooks_witness:
  "\<exists>c. plugin_phase (ex_plugins [''git'']) ''tool_pre_invoke'' ''call_tool'' ex_call (OtherResult PNone) = Inr c"
proof -
  have c: "server_name ex_call = None" by (simp add: ex_call_def new_context_def)
  have "get_by_hook ''tool_pre_invoke'' (without (\<lambda>p. cond_servers (conditions (pl_config p)) \<noteq> [] \<and>
      [] \<notin> set (cond_servers (conditions (pl_config p)))) (ex_plugins [''git''])) = [ex_marker]"
    by (simp only: get_by_hook_without ex_plugins_by_hook) (simp add: ex_guard_def ex_marker_def)
  then show ?thesis
    by (subst server_condition_disables_pre_hooks [OF c])
      (simp add: plugin_phase_def run_hook_def, simp add: ex_marker_def matches_conditions_def)
qed

end
