(* ===== verification/Authz.thy ===== *)
theory Authz
  imports Glob Auth
begin

text \<open>
  Role-based authorization: the policies of \<open>server/authz/policies.py\<close> and the first-match
  engine of \<open>server/authz/engine.py\<close>. A configured policy is a dictionary whose absent keys
  take the defaults of \<open>from_dict\<close>; a user's roles are the values of the token's claim and
  match a policy's role when they are equal strings.
\<close>

section \<open>Definitions\<close>

datatype PolicyDecision = ALLOW | DENY | NO_MATCH

record AuthzPolicy =
  effect :: string
  policy_roles :: "string list"
  policy_resources :: "string list"
  policy_description :: string

record policy_dict =
  d_effect :: "string option"
  d_roles :: "string list option"
  d_resources :: "string list option"
  d_description :: "string option"

definition policy_from_dict :: "policy_dict \<Rightarrow> AuthzPolicy" where
  "policy_from_dict d =
     \<lparr>effect = (case d_effect d of None \<Rightarrow> ''deny'' | Some e \<Rightarrow> e),
      policy_roles = (case d_roles d of None \<Rightarrow> [''*''] | Some rs \<Rightarrow> rs),
      policy_resources = (case d_resources d of None \<Rightarrow> [''*''] | Some rs \<Rightarrow> rs),
      policy_description = (case d_description d of None \<Rightarrow> [] | Some s \<Rightarrow> s)\<rparr>"

definition resource_matches :: "string \<Rightarrow> string \<Rightarrow> bool" where
  "resource_matches pat resource = (if pat = ''*'' then True else fnmatch resource pat)"

definition policy_matches :: "AuthzPolicy \<Rightarrow> pyval list \<Rightarrow> string \<Rightarrow> bool" where
  "policy_matches p user_roles resource =
     (let role_match = (''*'' \<in> set (policy_roles p) \<or> (\<exists>r \<in> set user_roles. r \<in> PStr ` set (policy_roles p)))
      in if \<not> role_match then False
         else ''*'' \<in> set (policy_resources p) \<or> (\<exists>pat \<in> set (policy_resources p). resource_matches pat resource))"

definition load_policies :: "policy_dict list \<Rightarrow> AuthzPolicy list" where
  "load_policies ds = map policy_from_dict ds"

record PolicyEngine =
  engine_policies :: "AuthzPolicy list"
  engine_default :: PolicyDecision

definition new_engine :: "AuthzPolicy list \<Rightarrow> string \<Rightarrow> PolicyEngine" where
  "new_engine ps default_effect =
     \<lparr>engine_policies = ps, engine_default = (if default_effect = ''allow'' then ALLOW else DENY)\<rparr>"

fun evaluate_policies :: "PolicyDecision \<Rightarrow> AuthzPolicy list \<Rightarrow> pyval list \<Rightarrow> string \<Rightarrow> PolicyDecision" where
  "evaluate_policies dflt [] user_roles resource = dflt"
| "evaluate_policies dflt (p # ps) user_roles resource =
     (if policy_matches p user_roles resource
      then (if effect p = ''allow'' then ALLOW else DENY)
      else evaluate_policies dflt ps user_roles resource)"

definition evaluate :: "PolicyEngine \<Rightarrow> pyval list \<Rightarrow> string \<Rightarrow> PolicyDecision" where
  "evaluate e user_roles resource = evaluate_policies (engine_default e) (engine_policies e) user_roles resource"

definition filter_allowed :: "PolicyEngine \<Rightarrow> pyval list \<Rightarrow> string list \<Rightarrow> string list" where
  "filter_allowed e user_roles resources = filter (\<lambda>r. evaluate e user_roles r = ALLOW) resources"

definition reload_policies :: "policy_dict list \<Rightarrow> PolicyEngine \<Rightarrow> PolicyEngine" where
  "reload_policies ds e = e\<lparr>engine_policies := load_policies ds\<rparr>"

definition engine_from_config :: "policy_dict list option \<Rightarrow> string option \<Rightarrow> PolicyEngine" where
  "engine_from_config policies default_effect =
     new_engine (load_policies (case policies of None \<Rightarrow> [] | Some ds \<Rightarrow> ds))
       (case default_effect of None \<Rightarrow> ''deny'' | Some e \<Rightarrow> e)"

section \<open>First match decides\<close>

definition engine_ok :: "PolicyEngine \<Rightarrow> bool" where
  "engine_ok e \<longleftrightarrow> engine_default e \<noteq> NO_MATCH"

lemma engine_ok_new: "engine_ok (new_engine ps d)"
  by (simp add: engine_ok_def new_engine_def)

lemma engine_ok_reload: "engine_ok e \<Longrightarrow> engine_ok (reload_policies ds e)"
  by (simp add: engine_ok_def reload_policies_def)

lemma evaluate_total: "engine_ok e \<Longrightarrow> evaluate e us r = ALLOW \<or> evaluate e us r = DENY"
proof -
  have "dflt \<noteq> NO_MATCH \<Longrightarrow> evaluate_policies dflt ps us r \<noteq> NO_MATCH" for dflt ps
    by (induction ps) auto
  then show "engine_ok e \<Longrightarrow> ?thesis"
    by (metis PolicyDecision.exhaust engine_ok_def evaluate_def)
qed

lemma evaluate_policies_append:
  "evaluate_policies dflt (ps @ qs) us r = evaluate_policies (evaluate_policies dflt qs us r) ps us r"
  by (induction ps) auto

lemma evaluate_policies_none:
  "(\<forall>p \<in> set ps. \<not> policy_matches p us r) \<Longrightarrow> evaluate_policies dflt ps us r = dflt"
  by (induction ps) auto

text \<open>
  The decision is that of the first policy, in configuration order, whose roles and
  resources match; policies after it have no say. Without a matching policy the default
  decides, and a default other than \<open>allow\<close> denies: access is granted only when the first
  matching policy says \<open>allow\<close>, or none matches and the default is \<open>allow\<close>.
\<close>

theorem evaluate_allow_iff:
  "evaluate (engine_from_config (Some ds) dflt) us r = ALLOW \<longleftrightarrow>
     (\<exists>before p after. load_policies ds = before @ p # after \<and> (\<forall>q \<in> set before. \<not> policy_matches q us r) \<and>
        policy_matches p us r \<and> effect p = ''allow'') \<or>
     (\<forall>q \<in> set (load_policies ds). \<not> policy_matches q us r) \<and> dflt = Some ''allow''"
    (is "?lhs \<longleftrightarrow> ?first \<or> ?none")
proof (cases "\<exists>p \<in> set (load_policies ds). policy_matches p us r")
  case True
  then obtain before p after where s: "load_policies ds = before @ p # after"
    and b: "\<forall>q \<in> set before. \<not> policy_matches q us r" and p: "policy_matches p us r"
    using split_list_first_prop [of "load_policies ds" "\<lambda>p. policy_matches p us r"] by blast
  have e: "?lhs \<longleftrightarrow> effect p = ''allow''"
    using b p by (simp add: evaluate_def engine_from_config_def new_engine_def s evaluate_policies_append evaluate_policies_none)
  have "effect p = ''allow''" if "load_policies ds = before' @ p' # after'" "\<forall>q \<in> set before'. \<not> policy_matches q us r"
    "policy_matches p' us r" "effect p' = ''allow''" for before' p' after'
  proof -
    have "evaluate_policies DENY (load_policies ds) us r = ALLOW"
      using that by (simp add: evaluate_policies_append evaluate_policies_none)
    with b p show ?thesis by (simp add: s evaluate_policies_append evaluate_policies_none split: if_splits)
  qed
  with e s b p True show ?thesis by blast
next
  case False
  then show ?thesis
    by (auto simp: evaluate_def engine_from_config_def new_engine_def evaluate_policies_none split: option.split)
qed

theorem evaluate_allow_iff_witness:
  "evaluate (engine_from_config (Some [\<lparr>d_effect = Some ''deny'', d_roles = Some [''viewer''],
       d_resources = Some [''tool:rm''], d_description = None\<rparr>]) (Some ''allow'')) [PStr ''admin''] ''tool:rm'' = ALLOW"
  unfolding evaluate_allow_iff by (simp add: load_policies_def policy_from_dict_def policy_matches_def)

end
