(* ===== verification/Middleware.thy ===== *)
theory Middleware
  imports Plugins Authz Capability_Registry
begin

text \<open>
  The layers of the request path, \<open>bridge/middleware/\<close>, and the stack \<open>server/lifespan.py\<close>
  builds from them. The world a request runs in holds the registry and the sessions the
  routing layer was given, the authentication provider, the calls made to backends, the
  audit events and the recorded metrics. What a backend answers is the argument \<open>backend\<close>,
  which may depend on all earlier calls.
\<close>

section \<open>Definitions\<close>

record backend_call =
  bc_server :: string
  bc_session :: nat
  bc_method :: string
  bc_name :: string
  bc_arguments :: "(string, pyval) dict option"

record AuditEvent =
  event_id :: string
  source_session :: "meta_val option"
  source_ip :: "meta_val option"
  source_user :: "meta_val option"
  target_backend :: "string option"
  target_method :: string
  target_capability :: string
  target_original :: "string option"
  outcome_status :: string
  outcome_latency :: rat
  outcome_error :: "(string \<times> string) option"

record request_metric =
  rm_tool :: string
  rm_backend :: string
  rm_duration :: rat
  rm_success :: bool

record gateway =
  gw_registry :: "registry option"
  gw_sessions :: "(string, nat) dict option"
  gw_provider :: AuthProvider
  gw_calls :: "backend_call list"
  gw_audit :: "AuditEvent list"
  gw_metrics :: "request_metric list"

type_synonym backend = "backend_call list \<Rightarrow> backend_call \<Rightarrow> mcp_result res"

subsection \<open>\<open>routing.py\<close>\<close>

definition ALLOWED_MCP_METHODS :: "string list" where
  "ALLOWED_MCP_METHODS = [''call_tool'', ''read_resource'', ''get_prompt'']"

definition backend_request :: "RequestContext \<Rightarrow> string \<Rightarrow> nat \<Rightarrow> string \<Rightarrow> backend_call" where
  "backend_request ctx svr session orig =
     \<lparr>bc_server = svr, bc_session = session, bc_method = mcp_method ctx, bc_name = orig,
      bc_arguments =
        (if mcp_method ctx = ''call_tool'' then Some (case arguments ctx of None \<Rightarrow> [] | Some d \<Rightarrow> d)
         else if mcp_method ctx = ''read_resource'' then None
         else arguments ctx)\<rparr>"

definition RoutingMiddleware :: "backend \<Rightarrow> gateway handler" where
  "RoutingMiddleware backend w ctx =
     (case (gw_registry w, gw_sessions w) of
        (Some reg, Some sessions) \<Rightarrow>
          (case resolve_capability reg (capability_name ctx) of
             None \<Rightarrow> (w, ctx, Inl (ValueError (''Capability '' @ repr_str (capability_name ctx) @ '' does not exist.'')))
           | Some (svr, orig) \<Rightarrow>
               (let ctx1 = ctx\<lparr>server_name := Some svr, original_name := Some orig\<rparr>
                in case dict_get sessions svr of
                     None \<Rightarrow> (w, ctx1, Inl (RuntimeError (''Unable to connect to backend server '' @ repr_str svr)))
                   | Some session \<Rightarrow>
                       (if mcp_method ctx \<notin> set ALLOWED_MCP_METHODS
                        then (w, ctx1, Inl (NotImplementedError (''Internal server error: unsupported method '' @ repr_str (mcp_method ctx))))
                        else (let call = backend_request ctx svr session orig
                              in (w\<lparr>gw_calls := gw_calls w @ [call]\<rparr>, ctx1, backend (gw_calls w) call)))))
      | _ \<Rightarrow> (w, ctx, Inl (BackendServerError ''Internal server error: core components not initialized.'')))"

subsection \<open>\<open>auth.py\<close> and \<open>authz.py\<close>\<close>

definition meta_token :: "RequestContext \<Rightarrow> string option" where
  "meta_token ctx = (case dict_get (metadata ctx) ''auth_token'' of Some (MVal (PStr t)) \<Rightarrow> Some t | _ \<Rightarrow> None)"

definition admit_user :: "string \<Rightarrow> UserIdentity \<Rightarrow> RequestContext \<Rightarrow> RequestContext" where
  "admit_user mode user ctx =
     (let m1 = dict_set ''user'' (MUser user) (metadata ctx);
          m2 = dict_set ''auth_mode'' (MVal (PStr mode)) m1
      in ctx\<lparr>metadata := (if py_truthy (subject user) then dict_set ''user_subject'' (MVal (subject user)) m2 else m2)\<rparr>)"

definition AuthMiddleware :: "jwt_lib \<Rightarrow> rat \<Rightarrow> string \<Rightarrow> gateway middleware" where
  "AuthMiddleware decode now mode nxt w ctx =
     (let token = meta_token ctx
      in case (if token = None \<and> mode = ''permissive'' then (Inr anonymous_user, gw_provider w)
               else authenticate decode now token (gw_provider w)) of
           (Inl e, p) \<Rightarrow> (w\<lparr>gw_provider := p\<rparr>, ctx, Inl e)
         | (Inr user, p) \<Rightarrow> nxt (w\<lparr>gw_provider := p\<rparr>) (admit_user mode user ctx))"

definition meta_user :: "RequestContext \<Rightarrow> UserIdentity option" where
  "meta_user ctx = (case dict_get (metadata ctx) ''user'' of Some (MUser u) \<Rightarrow> Some u | _ \<Rightarrow> None)"

definition AuthzMiddleware :: "PolicyEngine \<Rightarrow> gateway middleware" where
  "AuthzMiddleware engine nxt w ctx =
     (let user_roles = (case meta_user ctx of None \<Rightarrow> [] | Some u \<Rightarrow> roles u);
          decision = evaluate engine user_roles (''tool:'' @ capability_name ctx)
      in if decision = DENY
         then (w, ctx, Inl (AuthorizationError (''Access denied for '' @ repr_str (capability_name ctx))))
         else nxt w ctx)"

subsection \<open>\<open>recovery.py\<close>, \<open>audit.py\<close>, \<open>telemetry.py\<close>\<close>

definition RecoveryMiddleware :: "gateway middleware" where
  "RecoveryMiddleware nxt w ctx =
     (case nxt w ctx of
        (w', ctx', Inr r) \<Rightarrow> (w', ctx', Inr r)
      | (w', ctx', Inl e) \<Rightarrow>
          (w', ctx'\<lparr>ctx_error := Some e\<rparr>,
           Inr (CallToolResult (PStr (''Internal error processing '' @ mcp_method ctx')) True)))"

definition round2 :: "rat \<Rightarrow> rat" where
  "round2 x = of_int (round_even (x * 100)) / 100"

definition AuditMiddleware :: "bool \<Rightarrow> rat \<Rightarrow> gateway middleware" where
  "AuditMiddleware has_logger now nxt w ctx =
     (case nxt w ctx of
        (w', ctx', Inl e) \<Rightarrow> (w', ctx', Inl e)
      | (w', ctx', Inr r) \<Rightarrow>
          (if has_logger then
             (let event =
                \<lparr>event_id = request_id ctx',
                 source_session = dict_get (metadata ctx') ''session_id'',
                 source_ip = dict_get (metadata ctx') ''client_ip'',
                 source_user = dict_get (metadata ctx') ''user_subject'',
                 target_backend = server_name ctx', target_method = mcp_method ctx',
                 target_capability = capability_name ctx', target_original = original_name ctx',
                 outcome_status = (if ctx_error ctx' \<noteq> None then ''error'' else ''success''),
                 outcome_latency = round2 (elapsed_ms now ctx'),
                 outcome_error = map_option (\<lambda>e. (exn_str e, exn_class e)) (ctx_error ctx')\<rparr>
              in (w'\<lparr>gw_audit := gw_audit w' @ [event]\<rparr>, ctx', Inr r))
           else (w', ctx', Inr r)))"

definition TelemetryMiddleware :: "rat \<Rightarrow> gateway middleware" where
  "TelemetryMiddleware now nxt w ctx =
     (case nxt w ctx of (w', ctx', r) \<Rightarrow>
       (w'\<lparr>gw_metrics := gw_metrics w' @
          [\<lparr>rm_tool = capability_name ctx', rm_backend = str_or (server_name ctx') ''unknown'',
            rm_duration = elapsed_ms now ctx', rm_success = (\<not> isl r)\<rparr>]\<rparr>, ctx', r))"

subsection \<open>The stack of \<open>lifespan.py\<close>\<close>

text \<open>\<open>_setup_auth\<close>: whether an authentication layer is wanted, with its provider and mode, and
  what the transport gate is given.\<close>

definition setup_auth ::
    "IncomingAuthConfig option \<Rightarrow> transport_state \<Rightarrow> (AuthProvider option \<times> string \<times> transport_state) res" where
  "setup_auth cfg ts = (case cfg of
     None \<Rightarrow> Inl (ConfigurationError ''Auth configuration is required'')
   | Some c \<Rightarrow>
       (if auth_type c \<noteq> ''anonymous'' then
          (case from_config (Some c) of
             Inl e \<Rightarrow> Inl e
           | Inr p \<Rightarrow> Inr (Some p, auth_mode c,
               ts\<lparr>incoming_auth_provider := Some p, transport_auth_mode := auth_mode c, transport_auth_issuer := auth_issuer c\<rparr>))
        else if auth_mode c = ''permissive'' then
          (case from_config (Some c) of
             Inl e \<Rightarrow> Inl e
           | Inr p \<Rightarrow> Inr (Some p, auth_mode c, ts\<lparr>transport_auth_mode := auth_mode c\<rparr>))
        else Inr (None, auth_mode c, ts)))"

record stack_config =
  sc_auth :: bool
  sc_mode :: string
  sc_plugins_enabled :: bool
  sc_plugin_entries :: "PluginConfig list"
  sc_telemetry :: bool
  sc_audit_logger :: bool

definition plugin_layer :: "(string, plugin_class) dict \<Rightarrow> stack_config \<Rightarrow> gateway middleware list" where
  "plugin_layer classes cfg =
     (if sc_plugins_enabled cfg \<and> sc_plugin_entries cfg \<noteq> []
      then (case load_from_config classes (sc_plugin_entries cfg) empty_plugins of
              Inl e \<Rightarrow> [] | Inr reg \<Rightarrow> [PluginMiddleware reg])
      else [])"

definition middleware_stack ::
    "jwt_lib \<Rightarrow> rat \<Rightarrow> (string, plugin_class) dict \<Rightarrow> stack_config \<Rightarrow> gateway middleware list" where
  "middleware_stack decode now classes cfg =
     (if sc_auth cfg then [AuthMiddleware decode now (sc_mode cfg)] else [])
     @ [RecoveryMiddleware]
     @ plugin_layer classes cfg
     @ (if sc_telemetry cfg then [TelemetryMiddleware now] else [])
     @ [AuditMiddleware (sc_audit_logger cfg) now]"

definition build_middleware_stack ::
    "jwt_lib \<Rightarrow> backend \<Rightarrow> rat \<Rightarrow> (string, plugin_class) dict \<Rightarrow> stack_config \<Rightarrow> gateway handler" where
  "build_middleware_stack decode backend now classes cfg =
     build_chain (middleware_stack decode now classes cfg) (RoutingMiddleware backend)"

section \<open>Guards\<close>

text \<open>What a request does to the world outside the gateway's own authentication state.\<close>

definition effects :: "gateway \<Rightarrow> backend_call list \<times> AuditEvent list \<times> request_metric list" where
  "effects w = (gw_calls w, gw_audit w, gw_metrics w)"

text \<open>The authentication layer lets a request through when the provider accepts its token, or
  when there is none and the mode is permissive.\<close>

definition auth_result :: "jwt_lib \<Rightarrow> rat \<Rightarrow> string \<Rightarrow> gateway \<Rightarrow> RequestContext \<Rightarrow> UserIdentity res \<times> AuthProvider" where
  "auth_result decode now mode w ctx =
     (if meta_token ctx = None \<and> mode = ''permissive'' then (Inr anonymous_user, gw_provider w)
      else authenticate decode now (meta_token ctx) (gw_provider w))"

lemma AuthMiddleware_result:
  "AuthMiddleware decode now mode nxt w ctx =
     (case auth_result decode now mode w ctx of
        (Inl e, p) \<Rightarrow> (w\<lparr>gw_provider := p\<rparr>, ctx, Inl e)
      | (Inr u, p) \<Rightarrow> nxt (w\<lparr>gw_provider := p\<rparr>) (admit_user mode u ctx))"
  by (simp add: AuthMiddleware_def auth_result_def Let_def)

interpretation auth_layer: guard_layer "AuthMiddleware decode now mode"
  "\<lambda>w ctx. \<not> isl (fst (auth_result decode now mode w ctx))"
  "\<lambda>w ctx. (w\<lparr>gw_provider := snd (auth_result decode now mode w ctx)\<rparr>,
     admit_user mode (projr (fst (auth_result decode now mode w ctx))) ctx)"
  effects for decode now mode
  by unfold_locales (auto simp: AuthMiddleware_result effects_def split: prod.split sum.split)

interpretation authz_layer: guard_layer "AuthzMiddleware engine"
  "\<lambda>w ctx. evaluate engine (case meta_user ctx of None \<Rightarrow> [] | Some u \<Rightarrow> roles u) (''tool:'' @ capability_name ctx) \<noteq> DENY"
  "\<lambda>w ctx. (w, ctx)" effects for engine
  by unfold_locales (auto simp: AuthzMiddleware_def Let_def)

lemma unauthenticated_no_effect:
  assumes "sc_auth cfg" "gw_provider w \<noteq> AnonymousProvider"
    and "(meta_token ctx = None \<and> sc_mode cfg \<noteq> ''permissive'') \<or>
      (\<exists>t. meta_token ctx = Some t \<and> \<not> token_valid decode (gw_provider w) t)"
  shows "\<exists>e. out_res (build_middleware_stack decode backend now classes cfg w ctx) = Inl e"
    and "effects (out_world (build_middleware_stack decode backend now classes cfg w ctx)) = effects w"
proof -
  have "isl (fst (auth_result decode now (sc_mode cfg) w ctx))"
  proof (rule ccontr)
    assume n: "\<not> isl (fst (auth_result decode now (sc_mode cfg) w ctx))"
    have a: "auth_result decode now (sc_mode cfg) w ctx = authenticate decode now (meta_token ctx) (gw_provider w)"
      using assms(3) by (auto simp: auth_result_def)
    then obtain u where "fst (authenticate decode now (meta_token ctx) (gw_provider w)) = Inr u"
      using n by (metis sum.collapse(2))
    from authenticate_admitted [OF assms(2) this] assms(3) show False by auto
  qed
  then have "\<not> \<not> isl (fst (auth_result decode now (sc_mode cfg) w ctx))" by simp
  note b = auth_layer.chain_blocked [OF this]
  have st: "middleware_stack decode now classes cfg =
      AuthMiddleware decode now (sc_mode cfg) # tl (middleware_stack decode now classes cfg)"
    using assms(1) by (simp add: middleware_stack_def)
  show "\<exists>e. out_res (build_middleware_stack decode backend now classes cfg w ctx) = Inl e"
    and "effects (out_world (build_middleware_stack decode backend now classes cfg w ctx)) = effects w"
    unfolding build_middleware_stack_def by (subst st, rule b)+
qed

text \<open>
  C3: No unauthenticated request has an effect. Behind a stack with an authentication layer
  and a provider other than the anonymous one, a request without a token in strict mode, or
  with a token the provider does not accept in any mode, gets an exception, and no backend is
  called, no plugin hook, audit event or metric follows, whatever the rest of the stack is.
\<close>

theorem unauthenticated_has_no_effect:
  assumes "sc_auth cfg" "gw_provider w \<noteq> AnonymousProvider"
    and "(meta_token ctx = None \<and> sc_mode cfg \<noteq> ''permissive'') \<or>
      (\<exists>t. meta_token ctx = Some t \<and> \<not> token_valid decode (gw_provider w) t)"
  shows "isl (out_res (build_middleware_stack decode backend now classes cfg w ctx)) \<and>
    effects (out_world (build_middleware_stack decode backend now classes cfg w ctx)) = effects w"
  using unauthenticated_no_effect [OF assms] by (metis sum.disc(1))

text \<open>
  The authorization layer, where it is in a chain, lets nothing denied through: when the
  policies deny the user's roles the capability, the rest of the chain is not run.
\<close>

theorem denied_request_has_no_effect:
  assumes "evaluate engine (case meta_user ctx of None \<Rightarrow> [] | Some u \<Rightarrow> roles u) (''tool:'' @ capability_name ctx) = DENY"
  shows "isl (out_res (build_chain (AuthzMiddleware engine # mws) h w ctx)) \<and>
    effects (out_world (build_chain (AuthzMiddleware engine # mws) h w ctx)) = effects w"
  using assms authz_layer.chain_blocked [where engine = engine and ctx = ctx] by (metis sum.disc(1))

section \<open>Routing through the stack\<close>

text \<open>
  What the chain promises of a request that starts without an error: the registry and the
  sessions stay, at most one backend is called, namely the one the registry routes the
  capability to, over its live session and with the method of the request, and a result
  without an error comes from such a call.
\<close>

definition route_call :: "gateway \<Rightarrow> RequestContext \<Rightarrow> backend_call \<Rightarrow> bool" where
  "route_call w ctx call \<longleftrightarrow> (\<exists>reg sessions. gw_registry w = Some reg \<and> gw_sessions w = Some sessions \<and>
     resolve_capability reg (capability_name ctx) = Some (bc_server call, bc_name call) \<and>
     dict_get sessions (bc_server call) = Some (bc_session call) \<and>
     bc_method call = mcp_method ctx \<and> mcp_method ctx \<in> set ALLOWED_MCP_METHODS)"

definition one_call :: "gateway \<Rightarrow> RequestContext \<Rightarrow> gateway \<Rightarrow> bool" where
  "one_call w ctx w' \<longleftrightarrow> (\<exists>call. gw_calls w' = gw_calls w @ [call] \<and> route_call w ctx call)"

definition routed :: "gateway handler \<Rightarrow> bool" where
  "routed h \<longleftrightarrow> (\<forall>w ctx w' ctx' r. ctx_error ctx = None \<and> h w ctx = (w', ctx', r) \<longrightarrow>
     (gw_calls w' = gw_calls w \<or> one_call w ctx w') \<and>
     (\<not> isl r \<and> ctx_error ctx' = None \<longrightarrow> one_call w ctx w'))"

text \<open>And of the audit log: at most one event is added, and it reports success.\<close>

definition success_event :: "gateway \<Rightarrow> gateway \<Rightarrow> bool" where
  "success_event w w' \<longleftrightarrow>
     (\<exists>ev. gw_audit w' = gw_audit w @ [ev] \<and> outcome_status ev = ''success'' \<and> outcome_error ev = None)"

definition audits_success :: "gateway handler \<Rightarrow> bool" where
  "audits_success h \<longleftrightarrow> (\<forall>w ctx w' ctx' r. ctx_error ctx = None \<and> h w ctx = (w', ctx', r) \<longrightarrow>
     gw_audit w' = gw_audit w \<or> success_event w w')"

text \<open>
  The contract of a layer that frames the rest of the chain: it runs the next handler at most
  once, on a context for the same capability and method, raises if it does not run it, and
  touches neither calls and audit log nor registry and sessions itself. Every layer but
  routing and audit is one.
\<close>

definition same_core :: "gateway \<Rightarrow> gateway \<Rightarrow> bool" where
  "same_core w v \<longleftrightarrow> gw_calls w = gw_calls v \<and> gw_audit w = gw_audit v \<and>
     gw_registry w = gw_registry v \<and> gw_sessions w = gw_sessions v"

definition same_request :: "RequestContext \<Rightarrow> RequestContext \<Rightarrow> bool" where
  "same_request c d \<longleftrightarrow> capability_name c = capability_name d \<and> mcp_method c = mcp_method d"

lemma same_core_refl [simp]: "same_core w w"
  by (simp add: same_core_def)

lemma same_request_refl [simp]: "same_request c c"
  by (simp add: same_request_def)

definition framed :: "gateway handler \<Rightarrow> gateway \<Rightarrow> RequestContext \<Rightarrow> gateway outcome \<Rightarrow> bool" where
  "framed h w ctx oc = (case oc of (w', ctx', r) \<Rightarrow>
    (isl r \<and> same_core w' w \<and> same_request ctx' ctx) \<or>
    (\<exists>w1 c1 w2 c2 r2. same_core w1 w \<and> same_request c1 ctx \<and> ctx_error c1 = ctx_error ctx \<and>
      h w1 c1 = (w2, c2, r2) \<and> same_core w' w2 \<and> same_request ctx' c2 \<and>
      (\<not> isl r \<and> ctx_error ctx' = None \<longrightarrow> \<not> isl r2 \<and> ctx_error c2 = None)))"

lemma framed_ran:
  "same_core w1 w \<Longrightarrow> same_request c1 ctx \<Longrightarrow> ctx_error c1 = ctx_error ctx \<Longrightarrow> h w1 c1 = (w2, c2, r2) \<Longrightarrow>
   same_core w' w2 \<Longrightarrow> same_request ctx' c2 \<Longrightarrow>
   (\<not> isl r \<and> ctx_error ctx' = None \<Longrightarrow> \<not> isl r2 \<and> ctx_error c2 = None) \<Longrightarrow> framed h w ctx (w', ctx', r)"
  unfolding framed_def prod.case by blast

locale frame_layer =
  fixes mw :: "gateway middleware"
  assumes frame: "framed h w ctx (mw h w ctx)"
begin

lemma keeps_routed:
  assumes "routed h"
  shows "routed (mw h)"
  unfolding routed_def
proof (intro allI impI, elim conjE)
  fix w ctx w' ctx' r
  assume e: "ctx_error ctx = None" and m: "mw h w ctx = (w', ctx', r)"
  from frame [of h w ctx, unfolded m framed_def prod.case] show "(gw_calls w' = gw_calls w \<or> one_call w ctx w') \<and>
     (\<not> isl r \<and> ctx_error ctx' = None \<longrightarrow> one_call w ctx w')"
  proof (elim disjE exE conjE)
    fix w1 c1 w2 c2 r2
    assume s: "same_core w1 w" "same_request c1 ctx" "ctx_error c1 = ctx_error ctx" "same_core w' w2"
      and h: "h w1 c1 = (w2, c2, r2)"
      and r: "\<not> isl r \<and> ctx_error ctx' = None \<longrightarrow> \<not> isl r2 \<and> ctx_error c2 = None"
    have "one_call w1 c1 w2 = one_call w ctx w'"
      using s by (simp add: one_call_def route_call_def same_core_def same_request_def)
    moreover have "(gw_calls w2 = gw_calls w1 \<or> one_call w1 c1 w2) \<and>
        (\<not> isl r2 \<and> ctx_error c2 = None \<longrightarrow> one_call w1 c1 w2)"
      using assms h s(3) e unfolding routed_def by metis
    ultimately show ?thesis using s r by (auto simp: same_core_def)
  qed (auto simp: same_core_def)
qed

lemma keeps_audits_success:
  assumes "audits_success h"
  shows "audits_success (mw h)"
  unfolding audits_success_def
proof (intro allI impI, elim conjE)
  fix w ctx w' ctx' r
  assume e: "ctx_error ctx = None" and m: "mw h w ctx = (w', ctx', r)"
  from frame [of h w ctx, unfolded m framed_def prod.case] show "gw_audit w' = gw_audit w \<or> success_event w w'"
  proof (elim disjE exE conjE)
    fix w1 c1 w2 c2 r2
    assume s: "same_core w1 w" "ctx_error c1 = ctx_error ctx" "same_core w' w2" and h: "h w1 c1 = (w2, c2, r2)"
    have "gw_audit w2 = gw_audit w1 \<or> success_event w1 w2"
      using assms h s(2) e unfolding audits_success_def by metis
    then show ?thesis using s by (simp add: success_event_def same_core_def)
  qed (auto simp: same_core_def)
qed

end

lemma frame_layer_wrap:
  assumes "frame_layer mw"
  shows "frame_layer (wrap mw)"
proof
  fix h :: "gateway handler" and w ctx
  obtain w' ctx' r1 where m: "mw h w ctx = (w', ctx', r1)" by (cases "mw h w ctx")
  then obtain r where "wrap mw h w ctx = (w', ctx', r)" and "isl r1 \<longrightarrow> isl r"
    by (cases r1; cases "r1 = Inr (OtherResult PNone)") (auto simp: wrap_def)
  with frame_layer.frame [OF assms, of h w ctx] m show "framed h w ctx (wrap mw h w ctx)"
    unfolding framed_def by (simp only: prod.case) blast
qed

lemma frame_build_chain:
  assumes "\<forall>mw \<in> set mws. frame_layer mw"
  shows "routed h \<Longrightarrow> routed (build_chain mws h)" "audits_success h \<Longrightarrow> audits_success (build_chain mws h)"
  using assms
  by (induction mws) (auto intro: frame_layer.keeps_routed frame_layer.keeps_audits_success frame_layer_wrap)

subsection \<open>The layers\<close>

interpretation auth_frame: frame_layer "AuthMiddleware decode now mode" for decode now mode
proof
  fix h :: "gateway handler" and w ctx
  obtain x p where a: "auth_result decode now mode w ctx = (x, p)" by (cases "auth_result decode now mode w ctx")
  show "framed h w ctx (AuthMiddleware decode now mode h w ctx)"
  proof (cases x)
    case (Inl e)
    with a show ?thesis by (simp add: AuthMiddleware_result framed_def same_core_def)
  next
    case (Inr u)
    obtain w' ctx' r where h: "h (w\<lparr>gw_provider := p\<rparr>) (admit_user mode u ctx) = (w', ctx', r)"
      by (cases "h (w\<lparr>gw_provider := p\<rparr>) (admit_user mode u ctx)")
    have "framed h w ctx (w', ctx', r)"
      by (rule framed_ran [where h = h, OF _ _ _ h]) (simp_all add: same_core_def same_request_def admit_user_def Let_def)
    with Inr a h show ?thesis by (simp add: AuthMiddleware_result)
  qed
qed

interpretation recovery_frame: frame_layer RecoveryMiddleware
proof
  fix h :: "gateway handler" and w ctx
  obtain w2 c2 r2 where h: "h w ctx = (w2, c2, r2)" by (cases "h w ctx")
  show "framed h w ctx (RecoveryMiddleware h w ctx)"
    by (cases r2) (simp_all add: RecoveryMiddleware_def h, (rule framed_ran [where h = h, OF _ _ _ h], simp_all add: same_request_def)+)
qed

interpretation telemetry_frame: frame_layer "TelemetryMiddleware now" for now
proof
  fix h :: "gateway handler" and w ctx
  obtain w2 c2 r2 where h: "h w ctx = (w2, c2, r2)" by (cases "h w ctx")
  show "framed h w ctx (TelemetryMiddleware now h w ctx)"
    unfolding TelemetryMiddleware_def h prod.case by (rule framed_ran [where h = h, OF _ _ _ h]) (simp_all add: same_core_def)
qed

interpretation plugin_frame: frame_layer "PluginMiddleware reg" for reg
proof
  fix h :: "gateway handler" and w ctx
  let ?pre = "case dict_get PRE_HOOKS (mcp_method ctx) of
      None \<Rightarrow> Inr ctx
    | Some hk \<Rightarrow> (case plugin_phase reg hk (mcp_method ctx) ctx (OtherResult PNone) of
        Inl e \<Rightarrow> Inl e | Inr pc \<Rightarrow> Inr (apply_plugin_ctx ctx pc))"
  obtain w' ctx' r where m: "PluginMiddleware reg h w ctx = (w', ctx', r)" by (cases "PluginMiddleware reg h w ctx")
  show "framed h w ctx (PluginMiddleware reg h w ctx)"
  proof (cases ?pre)
    case (Inl e)
    then show ?thesis by (simp add: PluginMiddleware_def framed_def)
  next
    case (Inr c1)
    then have c1: "same_request c1 ctx" "ctx_error c1 = ctx_error ctx"
      by (auto simp: same_request_def apply_plugin_ctx_def split: option.splits sum.splits)
    obtain w2 c2 r2 where h: "h w c1 = (w2, c2, r2)" by (cases "h w c1")
    have "w' = w2" "same_request ctx' c2" "\<not> isl r \<and> ctx_error ctx' = None \<longrightarrow> \<not> isl r2 \<and> ctx_error c2 = None"
      using m Inr h by (cases r2; auto simp: PluginMiddleware_def same_request_def apply_plugin_ctx_def
          split: option.splits sum.splits)+
    then show ?thesis unfolding m by (intro framed_ran [where h = h, OF _ c1 h]) simp_all
  qed
qed

lemma one_call_request:
  "gw_registry w = Some reg \<Longrightarrow> gw_sessions w = Some sessions \<Longrightarrow>
   resolve_capability reg (capability_name ctx) = Some (svr, orig) \<Longrightarrow> dict_get sessions svr = Some session \<Longrightarrow>
   mcp_method ctx \<in> set ALLOWED_MCP_METHODS \<Longrightarrow>
   one_call w ctx (w\<lparr>gw_calls := gw_calls w @ [backend_request ctx svr session orig]\<rparr>)"
  unfolding one_call_def route_call_def by (rule exI [of _ "backend_request ctx svr session orig"]) (simp add: backend_request_def)

lemma Routing_facts:
  assumes "RoutingMiddleware backend w ctx = (w', ctx', r)"
  shows "gw_calls w' = gw_calls w \<and> isl r \<or> one_call w ctx w'" "gw_audit w' = gw_audit w" "ctx_error ctx' = ctx_error ctx"
  using assms by (auto simp: RoutingMiddleware_def Let_def one_call_request split: option.splits if_splits)

text \<open>The innermost two layers: audit around routing.\<close>

lemma audited_routing:
  shows "routed (wrap (AuditMiddleware lg now) (RoutingMiddleware backend))"
    and "audits_success (wrap (AuditMiddleware lg now) (RoutingMiddleware backend))"
proof -
  have f: "(gw_calls w' = gw_calls w \<and> isl r \<or> one_call w ctx w') \<and> (gw_audit w' = gw_audit w \<or> success_event w w')"
    if e: "ctx_error ctx = None" and m: "wrap (AuditMiddleware lg now) (RoutingMiddleware backend) w ctx = (w', ctx', r)"
    for w ctx w' ctx' r
  proof -
    obtain w2 c2 r2 where h: "RoutingMiddleware backend w ctx = (w2, c2, r2)" by (cases "RoutingMiddleware backend w ctx")
    note r = Routing_facts [OF h]
    have "gw_calls w' = gw_calls w2" "isl r2 \<longrightarrow> isl r" "gw_audit w' = gw_audit w2 \<or> success_event w2 w'"
      using m h r(3) e
      by (cases r2; auto simp: wrap_def AuditMiddleware_def Let_def success_event_def split: if_splits)+
    then show ?thesis using r by (auto simp: one_call_def success_event_def)
  qed
  show "routed (wrap (AuditMiddleware lg now) (RoutingMiddleware backend))"
    unfolding routed_def using f by blast
  show "audits_success (wrap (AuditMiddleware lg now) (RoutingMiddleware backend))"
    unfolding audits_success_def using f by blast
qed

lemmas frame_layers = auth_frame.frame_layer_axioms recovery_frame.frame_layer_axioms
  telemetry_frame.frame_layer_axioms plugin_frame.frame_layer_axioms

lemma plugin_layer_frame: "\<forall>mw \<in> set (plugin_layer classes cfg). frame_layer mw"
proof (cases "load_from_config classes (sc_plugin_entries cfg) empty_plugins")
  case (Inl e)
  then have "plugin_layer classes cfg = []" by (simp only: plugin_layer_def sum.case if_cancel)
  then show ?thesis by simp
next
  case (Inr reg)
  then have "plugin_layer classes cfg = (if sc_plugins_enabled cfg \<and> sc_plugin_entries cfg \<noteq> [] then [PluginMiddleware reg] else [])"
    by (simp only: plugin_layer_def sum.case)
  then show ?thesis using plugin_frame.frame_layer_axioms by simp
qed

lemma stack_facts:
  shows routed_stack: "routed (build_middleware_stack decode backend now classes cfg)"
    and audits_success_stack: "audits_success (build_middleware_stack decode backend now classes cfg)"
proof -
  let ?outer = "(if sc_auth cfg then [AuthMiddleware decode now (sc_mode cfg)] else []) @ [RecoveryMiddleware]
     @ plugin_layer classes cfg @ (if sc_telemetry cfg then [TelemetryMiddleware now] else [])"
  have s: "build_middleware_stack decode backend now classes cfg =
      build_chain ?outer (wrap (AuditMiddleware (sc_audit_logger cfg) now) (RoutingMiddleware backend))"
    by (simp add: build_middleware_stack_def middleware_stack_def build_chain_append)
  have "\<forall>mw \<in> set ?outer. frame_layer mw" by (simp add: ball_Un plugin_layer_frame frame_layers)
  note frame_build_chain [OF this]
  with s audited_routing show "routed (build_middleware_stack decode backend now classes cfg)"
    "audits_success (build_middleware_stack decode backend now classes cfg)" by metis+
qed

section \<open>Instances\<close>

definition ex_cfg :: stack_config where
  "ex_cfg = \<lparr>sc_auth = True, sc_mode = ''strict'', sc_plugins_enabled = False, sc_plugin_entries = [],
     sc_telemetry = False, sc_audit_logger = True\<rparr>"

definition ex_gateway :: gateway where
  "ex_gateway = \<lparr>gw_registry = Some ((init_registry None None None)\<lparr>route_map :=
       [(''clone'', ''git'', ''clone''), (''search'', ''web'', ''search'')]\<rparr>),
     gw_sessions = Some [(''git'', 1), (''web'', 2)], gw_provider = LocalTokenProvider ''s3cret'',
     gw_calls = [], gw_audit = [], gw_metrics = []\<rparr>"

theorem unauthenticated_has_no_effect_witness:
  "effects (out_world (build_middleware_stack (\<lambda>_ _ _. InvalidTokenError []) (\<lambda>_ _. Inr (CallToolResult PNone False)) 0 []
     ex_cfg ex_gateway (new_context ''r1'' 0 ''search'' ''call_tool'' None []))) = effects ex_gateway"
  by (rule unauthenticated_has_no_effect [THEN conjunct2])
    (simp_all add: ex_cfg_def ex_gateway_def meta_token_def new_context_def)

theorem denied_request_has_no_effect_witness:
  "effects (out_world (build_chain [AuthzMiddleware (new_engine [] ''deny'')] (RoutingMiddleware (\<lambda>_ _. Inr (CallToolResult PNone False)))
     ex_gateway (new_context ''r1'' 0 ''search'' ''call_tool'' None []))) = effects ex_gateway"
  by (rule denied_request_has_no_effect [THEN conjunct2]) (simp add: evaluate_def new_engine_def)

end
