(* ===== verification/Handlers.thy ===== *)
theory Handlers
  imports Middleware
begin

text \<open>
  \<open>server/handlers.py\<close>: the MCP request handlers and \<open>_dispatch\<close>, which runs a request through
  the middleware chain with the identity the transport gate left in the context variables.
  A request id and the time of the request are arguments.
\<close>

section \<open>Definitions\<close>

definition context_metadata :: "auth_context \<Rightarrow> (string, meta_val) dict" where
  "context_metadata ac =
     (let m0 = (case current_user ac of
                  None \<Rightarrow> []
                | Some u \<Rightarrow> dict_set ''user_subject'' (MVal (subject u)) (dict_set ''user'' (MUser u) []));
          m1 = (case current_auth_token ac of None \<Rightarrow> m0 | Some t \<Rightarrow> dict_set ''auth_token'' (MVal (PStr t)) m0);
          m2 = (case current_session_id ac of None \<Rightarrow> m1 | Some i \<Rightarrow> dict_set ''session_id'' (MVal (PStr i)) m1)
      in case current_client_ip ac of None \<Rightarrow> m2 | Some ip \<Rightarrow> dict_set ''client_ip'' (MVal (PStr ip)) m2)"

text \<open>The end of \<open>_dispatch\<close> and of \<open>_invoke_via_chain\<close>: an error the chain recorded is raised.\<close>

definition raise_ctx_error :: "gateway outcome \<Rightarrow> gateway \<times> mcp_result res" where
  "raise_ctx_error oc = (case oc of
     (w, ctx, Inl e) \<Rightarrow> (w, Inl e)
   | (w, ctx, Inr r) \<Rightarrow> (case ctx_error ctx of Some e \<Rightarrow> (w, Inl e) | None \<Rightarrow> (w, Inr r)))"

definition dispatch ::
    "gateway handler option \<Rightarrow> auth_context \<Rightarrow> string \<Rightarrow> rat \<Rightarrow> string \<Rightarrow> string \<Rightarrow> (string, pyval) dict option \<Rightarrow>
     gateway \<Rightarrow> gateway \<times> mcp_result res" where
  "dispatch chain ac rid now cap meth args w = (case chain of
     None \<Rightarrow> (w, Inl (RuntimeError ''Middleware chain is not initialised on the MCP server instance.''))
   | Some h \<Rightarrow> raise_ctx_error (h w (new_context rid now cap meth args (context_metadata ac))))"

text \<open>\<open>_invoke_via_chain\<close> of \<open>lifespan.py\<close>: how a workflow step calls a tool.\<close>

definition invoke_via_chain ::
    "gateway handler \<Rightarrow> string \<Rightarrow> rat \<Rightarrow> string \<Rightarrow> (string, pyval) dict \<Rightarrow> gateway \<Rightarrow> gateway \<times> mcp_result res" where
  "invoke_via_chain h rid now tool args w = raise_ctx_error (h w (new_context rid now tool ''call_tool'' (Some args) []))"

record composite_tool =
  ct_name :: string
  ct_description :: string
  ct_invoke :: "(string, pyval) dict \<Rightarrow> gateway \<Rightarrow> gateway \<times> pyval res"

record server_state =
  ss_registry :: "registry option"
  ss_chain :: "gateway handler option"
  ss_composite :: "composite_tool list"
  ss_optimizer :: bool
  ss_keep_list :: "string list"

definition FIND_TOOL_NAME :: string where "FIND_TOOL_NAME = ''find_tool''"
definition CALL_TOOL_NAME :: string where "CALL_TOOL_NAME = ''call_tool''"

definition META_TOOLS :: "cap list" where
  "META_TOOLS =
     [\<lparr>cap_name = FIND_TOOL_NAME, cap_description = Some ''Search across all available tools by keyword or description. Returns the top matching tool definitions with their schemas. Use this first to discover relevant tools before calling them.''\<rparr>,
      \<lparr>cap_name = CALL_TOOL_NAME, cap_description = Some ''Call any tool by its exact name with the given arguments. Use find_tool first to discover the tool name and required arguments.''\<rparr>]"

definition handle_list_tools :: "server_state \<Rightarrow> cap list res" where
  "handle_list_tools st = (case ss_registry st of
     None \<Rightarrow> Inl (BackendServerError ''Registry is not initialized'')
   | Some reg \<Rightarrow>
       (let tools = get_aggregated_tools reg
              @ map (\<lambda>ct. \<lparr>cap_name = ct_name ct, cap_description = Some (ct_description ct)\<rparr>) (ss_composite st)
        in if ss_optimizer st
           then Inr (META_TOOLS @ filter (\<lambda>t. cap_name t \<in> set (ss_keep_list st)) tools)
           else Inr tools))"

definition handle_list_resources :: "server_state \<Rightarrow> cap list res" where
  "handle_list_resources st = (case ss_registry st of
     None \<Rightarrow> Inl (BackendServerError ''Registry is not initialized'')
   | Some reg \<Rightarrow> Inr (get_aggregated_resources reg))"

definition handle_list_prompts :: "server_state \<Rightarrow> cap list res" where
  "handle_list_prompts st = (case ss_registry st of
     None \<Rightarrow> Inl (BackendServerError ''Registry is not initialized'')
   | Some reg \<Rightarrow> Inr (get_aggregated_prompts reg))"

definition as_call_tool_result :: "string \<Rightarrow> mcp_result res \<Rightarrow> mcp_result res" where
  "as_call_tool_result name r = (case r of
     Inr (CallToolResult c err) \<Rightarrow> Inr (CallToolResult c err)
   | Inr _ \<Rightarrow> Inl (BackendServerError (''Backend returned invalid type for tool call '' @ repr_str name @ ''.''))
   | Inl e \<Rightarrow> Inl e)"

text \<open>The text content of a composite tool's answer: strings as they are, other values as JSON,
  which objects such as the result of a tool call are not.\<close>

definition output_text :: "pyval \<Rightarrow> string res" where
  "output_text out = (case out of PStr s \<Rightarrow> Inr s | v \<Rightarrow> json_dumps v)"

definition call_composite :: "composite_tool \<Rightarrow> (string, pyval) dict \<Rightarrow> gateway \<Rightarrow> gateway \<times> mcp_result res" where
  "call_composite ct args w =
     (let fail = (\<lambda>e. Inl (BackendServerError (''Composite workflow '' @ repr_str (ct_name ct) @ '' execution failed: '' @ exn_str e)))
      in case ct_invoke ct args w of
           (w', Inl e) \<Rightarrow> (w', fail e)
         | (w', Inr out) \<Rightarrow>
             (case output_text out of
                Inl e \<Rightarrow> (w', fail e)
              | Inr text \<Rightarrow> (w', Inr (CallToolResult (PStr text) False))))"

text \<open>The MCP library validates the arguments of the meta tool \<open>call_tool\<close> against its schema (a
  string \<open>name\<close>, an object \<open>arguments\<close>) before the handler runs.\<close>

definition handle_call_tool ::
    "server_state \<Rightarrow> auth_context \<Rightarrow> string \<Rightarrow> rat \<Rightarrow> string \<Rightarrow> (string, pyval) dict \<Rightarrow> gateway \<Rightarrow> gateway \<times> mcp_result res" where
  "handle_call_tool st ac rid now name args w =
     (let run = (\<lambda>cap a. case dispatch (ss_chain st) ac rid now cap ''call_tool'' (Some a) w of
                            (w', r) \<Rightarrow> (w', as_call_tool_result cap r))
      in if ss_optimizer st \<and> name = FIND_TOOL_NAME then run name args
         else if ss_optimizer st \<and> name = CALL_TOOL_NAME then
           (case (dict_get_or (PStr []) args ''name'', dict_get_or (PDict []) args ''arguments'') of
              (PStr real_name, PDict real_args) \<Rightarrow>
                (if real_name = [] then (w, Inl (BackendServerError ''call_tool requires a 'name' argument''))
                 else run real_name real_args)
            | (v, a) \<Rightarrow> (w, Inl (if py_truthy v then TypeError ''invalid call_tool arguments''
                               else BackendServerError ''call_tool requires a 'name' argument'')))
         else case find (\<lambda>ct. ct_name ct = name) (ss_composite st) of
                Some ct \<Rightarrow> call_composite ct args w
              | None \<Rightarrow> run name args)"

definition handle_read_resource ::
    "server_state \<Rightarrow> auth_context \<Rightarrow> string \<Rightarrow> rat \<Rightarrow> string \<Rightarrow> gateway \<Rightarrow> gateway \<times> mcp_result res" where
  "handle_read_resource st ac rid now name w =
     (case dispatch (ss_chain st) ac rid now name ''read_resource'' None w of
        (w', Inr (ReadResourceResult c)) \<Rightarrow> (w', Inr (ReadResourceResult c))
      | (w', Inr _) \<Rightarrow> (w', Inl (BackendServerError (''Backend returned invalid type for resource read '' @ repr_str name @ ''.'')))
      | (w', Inl e) \<Rightarrow> (w', Inl e))"

definition handle_get_prompt ::
    "server_state \<Rightarrow> auth_context \<Rightarrow> string \<Rightarrow> rat \<Rightarrow> string \<Rightarrow> (string, pyval) dict option \<Rightarrow> gateway \<Rightarrow> gateway \<times> mcp_result res" where
  "handle_get_prompt st ac rid now name args w =
     (case dispatch (ss_chain st) ac rid now name ''get_prompt''
             (map_option (map (\<lambda>(k, v). (k, PStr (py_str v)))) args) w of
        (w', Inr (GetPromptResult c)) \<Rightarrow> (w', Inr (GetPromptResult c))
      | (w', Inr _) \<Rightarrow> (w', Inl (BackendServerError (''Backend returned invalid type for prompt '' @ repr_str name @ ''.'')))
      | (w', Inl e) \<Rightarrow> (w', Inl e))"

section \<open>Requests\<close>

lemma dispatch_one_call:
  fixes decode backend classes
  assumes "dispatch (Some (build_middleware_stack decode backend now classes cfg)) ac rid now cap meth args w = (w', r)"
  shows "(gw_calls w' = gw_calls w \<and> isl r) \<or> one_call w (new_context rid now cap meth args (context_metadata ac)) w'"
proof -
  let ?ctx = "new_context rid now cap meth args (context_metadata ac)"
  obtain ctx' r' where h: "build_middleware_stack decode backend now classes cfg w ?ctx = (w', ctx', r')"
    and r: "r = Inr x \<Longrightarrow> \<not> isl r' \<and> ctx_error ctx' = None" for x
    using assms by (cases "build_middleware_stack decode backend now classes cfg w ?ctx")
      (auto simp: dispatch_def raise_ctx_error_def split: sum.splits option.splits)
  have c: "ctx_error ?ctx = None" by (simp add: new_context_def)
  have o: "(gw_calls w' = gw_calls w \<or> one_call w ?ctx w') \<and> (\<not> isl r' \<and> ctx_error ctx' = None \<longrightarrow> one_call w ?ctx w')"
    using routed_stack [of decode backend now classes cfg] c h unfolding routed_def by blast
  have "isl r \<or> one_call w ?ctx w'" using o r by (cases r) auto
  with o show ?thesis by blast
qed

text \<open>
  C2: A request is forwarded at most once and only where it belongs. Under any configuration
  of the stack, dispatching a request calls at most one backend; the call goes to the server
  and the original name the registry holds for the requested capability, over that server's
  session and with the requested method; and whenever the client gets a result, exactly one
  such call was made.
\<close>

theorem dispatch_routes_once:
  fixes decode backend classes
  assumes "dispatch (Some (build_middleware_stack decode backend now classes cfg)) ac rid now cap meth args w = (w', r)"
  shows "(gw_calls w' = gw_calls w \<and> isl r) \<or>
    (\<exists>call reg sessions. gw_calls w' = gw_calls w @ [call] \<and> gw_registry w = Some reg \<and> gw_sessions w = Some sessions \<and>
      resolve_capability reg cap = Some (bc_server call, bc_name call) \<and>
      dict_get sessions (bc_server call) = Some (bc_session call) \<and> bc_method call = meth)"
  using dispatch_one_call [OF assms] by (auto simp: one_call_def route_call_def new_context_def)

text \<open>
  The message the recovery layer prepares for clients is never sent. An exception raised
  behind the recovery layer is caught there and turned into a generic result, but dispatch
  raises the caught exception again: the caller gets the original exception with its message.
\<close>

theorem recovered_error_is_raised_again:
  fixes decode backend classes
  assumes "\<not> sc_auth cfg"
    and "out_res (build_chain (tl (middleware_stack decode now classes cfg)) (RoutingMiddleware backend) w
      (new_context rid now cap meth args (context_metadata ac))) = Inl e"
  shows "snd (dispatch (Some (build_middleware_stack decode backend now classes cfg)) ac rid now cap meth args w) = Inl e"
proof -
  let ?rest = "build_chain (tl (middleware_stack decode now classes cfg)) (RoutingMiddleware backend)"
  let ?ctx = "new_context rid now cap meth args (context_metadata ac)"
  have s: "middleware_stack decode now classes cfg = RecoveryMiddleware # tl (middleware_stack decode now classes cfg)"
    using assms(1) by (simp add: middleware_stack_def)
  have b: "build_middleware_stack decode backend now classes cfg = wrap RecoveryMiddleware ?rest"
    unfolding build_middleware_stack_def by (subst s) simp
  obtain w2 c2 where "?rest w ?ctx = (w2, c2, Inl e)" using assms(2) by (metis prod.collapse)
  then show ?thesis
    by (simp add: dispatch_def b wrap_def RecoveryMiddleware_def raise_ctx_error_def)
qed

text \<open>
  The audit log holds successes only. Under any configuration a request adds at most one
  event and its outcome is \<open>success\<close>; in particular a request the routing layer fails leaves
  no event, because the audit layer sits behind the recovery layer and gives up when the
  exception passes through it.
\<close>

theorem audit_reports_only_success:
  fixes decode backend classes
  assumes "dispatch (Some (build_middleware_stack decode backend now classes cfg)) ac rid now cap meth args w = (w', r)"
  shows "gw_audit w' = gw_audit w \<or>
    (\<exists>ev. gw_audit w' = gw_audit w @ [ev] \<and> outcome_status ev = ''success'' \<and> outcome_error ev = None)"
proof -
  let ?ctx = "new_context rid now cap meth args (context_metadata ac)"
  obtain ctx' r' where h: "build_middleware_stack decode backend now classes cfg w ?ctx = (w', ctx', r')"
    using assms by (cases "build_middleware_stack decode backend now classes cfg w ?ctx")
      (auto simp: dispatch_def raise_ctx_error_def split: sum.splits option.splits)
  have "ctx_error ?ctx = None" by (simp add: new_context_def)
  with h audits_success_stack [of decode backend now classes cfg] have "gw_audit w' = gw_audit w \<or> success_event w w'"
    unfolding audits_success_def by blast
  then show ?thesis by (simp add: success_event_def)
qed

text \<open>
  The steps of a composite tool carry no identity. With an authentication layer in strict
  mode and a provider other than the anonymous one, every tool call a workflow makes through
  the chain fails and reaches no backend, also when the client that invoked the composite
  tool was authenticated.
\<close>

theorem workflow_steps_fail_under_strict_auth:
  assumes "sc_auth cfg" "sc_mode cfg \<noteq> ''permissive''" "gw_provider w \<noteq> AnonymousProvider"
  shows "isl (snd (invoke_via_chain (build_middleware_stack decode backend now classes cfg) rid now tool args w)) \<and>
    effects (fst (invoke_via_chain (build_middleware_stack decode backend now classes cfg) rid now tool args w)) = effects w"
proof -
  let ?ctx = "new_context rid now tool ''call_tool'' (Some args) []"
  have "meta_token ?ctx = None" by (simp add: meta_token_def new_context_def)
  then have "(meta_token ?ctx = None \<and> sc_mode cfg \<noteq> ''permissive'') \<or>
      (\<exists>t. meta_token ?ctx = Some t \<and> \<not> token_valid decode (gw_provider w) t)"
    using assms(2) by simp
  note u = unauthenticated_no_effect [OF assms(1,3) this, of backend now classes]
  then show ?thesis
    by (auto simp: invoke_via_chain_def raise_ctx_error_def split: prod.splits sum.splits option.splits)
qed

section \<open>Instances\<close>

text \<open>Two backends behind a stack that asks for no token; one of them answers with its name.\<close>

definition ex_backend :: backend where
  "ex_backend = (\<lambda>calls call. if bc_server call = ''web'' then Inl (ConnectionError ''lost'')
     else Inr (CallToolResult (PStr (bc_server call)) False))"

definition ex_open_cfg :: stack_config where
  "ex_open_cfg = ex_cfg\<lparr>sc_auth := False\<rparr>"

definition ex_dispatch :: "string \<Rightarrow> gateway \<times> mcp_result res" where
  "ex_dispatch cap = dispatch (Some (build_middleware_stack (\<lambda>_ _ _. InvalidTokenError []) ex_backend 0 [] ex_open_cfg))
     empty_auth_context ''r1'' 0 cap ''call_tool'' None ex_gateway"

lemmas ex_dispatch_defs = dispatch_def build_middleware_stack_def middleware_stack_def plugin_layer_def ex_open_cfg_def
  ex_cfg_def ex_gateway_def ex_backend_def wrap_def RecoveryMiddleware_def AuditMiddleware_def RoutingMiddleware_def
  new_context_def context_metadata_def empty_auth_context_def resolve_capability_def backend_request_def ALLOWED_MCP_METHODS_def
  raise_ctx_error_def

theorem dispatch_routes_once_witness: "\<exists>call. gw_calls (fst (ex_dispatch ''clone'')) = [call]"
proof -
  have r: "snd (ex_dispatch ''clone'') = Inr (CallToolResult (PStr ''git'') False)"
    by (simp add: ex_dispatch_def ex_dispatch_defs)
  have g: "gw_calls ex_gateway = []" by (simp add: ex_gateway_def)
  have d: "dispatch (Some (build_middleware_stack (\<lambda>_ _ _. InvalidTokenError []) ex_backend 0 [] ex_open_cfg))
      empty_auth_context ''r1'' 0 ''clone'' ''call_tool'' None ex_gateway = (fst (ex_dispatch ''clone''), snd (ex_dispatch ''clone''))"
    unfolding ex_dispatch_def by (rule prod.collapse [symmetric])
  from dispatch_routes_once [OF d] show ?thesis by (simp only: g r sum.disc) auto
qed

theorem recovered_error_is_raised_again_witness:
  "snd (ex_dispatch ''search'') = Inl (ConnectionError ''lost'')"
  unfolding ex_dispatch_def by (rule recovered_error_is_raised_again) (simp_all add: ex_dispatch_defs)

theorem audit_reports_only_success_witness:
  "gw_audit (fst (ex_dispatch ''search'')) = [] \<or>
   (\<exists>ev. gw_audit (fst (ex_dispatch ''search'')) = [ev] \<and> outcome_status ev = ''success'' \<and> outcome_error ev = None)"
proof -
  have "gw_audit ex_gateway = []" by (simp add: ex_gateway_def)
  then show ?thesis
    using audit_reports_only_success [of "\<lambda>_ _ _. InvalidTokenError []" ex_backend 0 "[]" ex_open_cfg empty_auth_context
        "''r1''" "''search''" "''call_tool''" None ex_gateway "fst (ex_dispatch ''search'')" "snd (ex_dispatch ''search'')"]
    by (simp add: ex_dispatch_def)
qed

theorem workflow_steps_fail_under_strict_auth_witness:
  "effects (fst (invoke_via_chain (build_middleware_stack (\<lambda>_ _ _. InvalidTokenError []) ex_backend 0 [] ex_cfg)
     ''r1'' 0 ''clone'' [] ex_gateway)) = effects ex_gateway"
  by (rule workflow_steps_fail_under_strict_auth [THEN conjunct2]) (simp_all add: ex_cfg_def ex_gateway_def)

end
