(* ===== verification/Workflow.thy ===== *)
theory Workflow
  imports Py_String "HOL-Library.Multiset"
begin

text \<open>
  Composite workflows: \<open>workflows/steps.py\<close>, \<open>workflows/dsl.py\<close>, \<open>workflows/executor.py\<close> and
  \<open>workflows/composite_tool.py\<close>. A definition read from YAML has the declared types. The order
  in which Python iterates over the set of step identifiers is the argument \<open>order\<close>, any
  enumeration of them. The outcome of a tool call is the argument \<open>invoke\<close> of the step and the
  attempt: every run makes each of these calls at most once, so that any behaviour of the
  tools, and any interleaving of the steps of a level, is such a function.
\<close>

section \<open>Steps\<close>

datatype StepStatus = PENDING | RUNNING | COMPLETED | FAILED | SKIPPED

fun status_value :: "StepStatus \<Rightarrow> string" where
  "status_value PENDING = ''pending''"
| "status_value RUNNING = ''running''"
| "status_value COMPLETED = ''completed''"
| "status_value FAILED = ''failed''"
| "status_value SKIPPED = ''skipped''"

record StepResult =
  sr_id :: string
  sr_status :: StepStatus
  sr_output :: pyval
  sr_error :: "string option"

record Step =
  step_id :: string
  tool :: string
  step_args :: "(string, pyval) dict"
  depends_on :: "string list"
  condition :: string
  retry :: int
  on_error :: string
  step_description :: string

record raw_step =
  raw_id :: "string option"
  raw_tool :: "string option"
  raw_args :: "(string, pyval) dict option"
  raw_depends_on :: "string list option"
  raw_condition :: "string option"
  raw_retry :: "int option"
  raw_on_error :: "string option"
  raw_step_description :: "string option"

definition option_or :: "'a \<Rightarrow> 'a option \<Rightarrow> 'a" where
  "option_or d x = (case x of None \<Rightarrow> d | Some v \<Rightarrow> v)"

definition step_from_dict :: "string \<Rightarrow> raw_step \<Rightarrow> Step" where
  "step_from_dict sid d =
     \<lparr>step_id = sid, tool = option_or [] (raw_tool d), step_args = option_or [] (raw_args d),
      depends_on = option_or [] (raw_depends_on d), condition = option_or [] (raw_condition d),
      retry = option_or 0 (raw_retry d), on_error = option_or ''fail'' (raw_on_error d),
      step_description = option_or [] (raw_step_description d)\<rparr>"

section \<open>Definitions as graphs\<close>

record WorkflowDefinition =
  wf_name :: string
  wf_description :: string
  wf_steps :: "Step list"
  wf_inputs :: "(string, pyval) dict"
  wf_output :: string

definition step_map :: "Step list \<Rightarrow> (string, Step) dict" where
  "step_map steps = fold (\<lambda>s. dict_set (step_id s) s) steps []"

definition ready_ids :: "(string, Step) dict \<Rightarrow> string list \<Rightarrow> string list \<Rightarrow> string list" where
  "ready_ids sm remaining completed =
     filter (\<lambda>sid. list_all (\<lambda>dep. dep \<in> set completed) (depends_on (the (dict_get sm sid)))) remaining"

lemma length_filter_removed:
  assumes "filter P xs \<noteq> []"
  shows "length (filter (\<lambda>x. x \<notin> set (filter P xs)) xs) < length xs"
proof -
  obtain x where "x \<in> set xs" "P x" using assms by (auto simp: filter_empty_conv)
  then show ?thesis by (intro length_filter_less [of x]) auto
qed

text \<open>The loop of \<open>topological_order\<close>.\<close>

function topo_levels :: "string \<Rightarrow> (string, Step) dict \<Rightarrow> string list \<Rightarrow> string list \<Rightarrow> Step list list res" where
  "topo_levels name sm remaining completed =
     (if remaining = [] then Inr []
      else let ready = ready_ids sm remaining completed
           in if ready = [] then Inl (WorkflowValidationError (''Cycle detected in workflow '' @ repr_str name))
              else case topo_levels name sm (filter (\<lambda>sid. sid \<notin> set ready) remaining) (completed @ ready) of
                     Inl e \<Rightarrow> Inl e
                   | Inr levels \<Rightarrow> Inr (map (\<lambda>sid. the (dict_get sm sid)) ready # levels))"
  by pat_completeness auto

termination
  by (relation "measure (\<lambda>(name, sm, remaining, completed). length remaining)")
    (auto simp: ready_ids_def dest!: length_filter_removed simp del: set_filter)

declare topo_levels.simps [simp del]

definition topological_order :: "string list \<Rightarrow> WorkflowDefinition \<Rightarrow> Step list list res" where
  "topological_order order wfd = topo_levels (wf_name wfd) (step_map (wf_steps wfd)) order []"

record raw_workflow =
  rw_name :: "string option"
  rw_steps :: "raw_step list option"
  rw_description :: "string option"
  rw_inputs :: "(string, pyval) dict option"
  rw_output :: "string option"

fun parse_steps :: "string \<Rightarrow> raw_step list \<Rightarrow> string list \<Rightarrow> Step list \<Rightarrow> Step list res" where
  "parse_steps name [] seen steps = Inr steps"
| "parse_steps name (raw # rest) seen steps =
     (case raw_id raw of
        None \<Rightarrow> Inl (WorkflowValidationError (''Step missing 'id' in workflow '' @ repr_str name))
      | Some sid \<Rightarrow>
          (if sid \<in> set seen
           then Inl (WorkflowValidationError (''Duplicate step ID '' @ repr_str sid @ '' in workflow '' @ repr_str name))
           else parse_steps name rest (seen @ [sid]) (steps @ [step_from_dict sid raw])))"

fun check_deps :: "string \<Rightarrow> string list \<Rightarrow> Step list \<Rightarrow> unit res" where
  "check_deps name seen [] = Inr ()"
| "check_deps name seen (s # rest) =
     (case find (\<lambda>dep. dep \<notin> set seen) (depends_on s) of
        Some dep \<Rightarrow> Inl (WorkflowValidationError
          (''Step '' @ repr_str (step_id s) @ '' depends on unknown step '' @ repr_str dep @ '' in workflow '' @ repr_str name))
      | None \<Rightarrow> check_deps name seen rest)"

definition parse_workflow :: "(string list \<Rightarrow> string list) \<Rightarrow> raw_workflow \<Rightarrow> WorkflowDefinition res" where
  "parse_workflow order data =
     (let name = option_or [] (rw_name data); raw_steps = option_or [] (rw_steps data)
      in if name = [] then Inl (WorkflowValidationError ''Workflow must have a 'name' field'')
         else if raw_steps = [] then Inl (WorkflowValidationError (''Workflow '' @ repr_str name @ '' has no steps''))
         else case parse_steps name raw_steps [] [] of
                Inl e \<Rightarrow> Inl e
              | Inr steps \<Rightarrow>
                  (case check_deps name (map step_id steps) steps of
                     Inl e \<Rightarrow> Inl e
                   | Inr _ \<Rightarrow>
                       (let wfd = \<lparr>wf_name = name, wf_description = option_or [] (rw_description data), wf_steps = steps,
                                  wf_inputs = option_or [] (rw_inputs data), wf_output = option_or [] (rw_output data)\<rparr>
                        in case topological_order (order (map step_id steps)) wfd of
                             Inl e \<Rightarrow> Inl e | Inr _ \<Rightarrow> Inr wfd)))"

section \<open>References in strings\<close>

definition is_word_char :: "char \<Rightarrow> bool" where
  "is_word_char c \<longleftrightarrow> is_digit c \<or> 65 \<le> code c \<and> code c \<le> 90 \<or> 97 \<le> code c \<and> code c \<le> 122 \<or> c = CHR ''_''"

text \<open>A match of \<open>_INTERPOLATION_RE\<close> at the start of a string: scope, path and the rest.\<close>

definition match_ref :: "string \<Rightarrow> (string \<times> string \<times> string) option" where
  "match_ref s =
     (if \<not> starts_with ''${'' s then None
      else let s1 = drop 2 s; scope = takeWhile is_word_char s1; s2 = dropWhile is_word_char s1
           in if scope = [] \<or> \<not> starts_with ''.'' s2 then None
              else let s3 = drop 1 s2; path = takeWhile (\<lambda>c. is_word_char c \<or> c = CHR ''.'') s3;
                       s4 = dropWhile (\<lambda>c. is_word_char c \<or> c = CHR ''.'') s3
                   in if path = [] \<or> \<not> starts_with ''}'' s4 then None else Some (scope, path, drop 1 s4))"

lemma match_ref_shorter: "match_ref s = Some (scope, path, rest) \<Longrightarrow> length rest < length s"
proof -
  assume "match_ref s = Some (scope, path, rest)"
  then have r: "rest = drop 1 (dropWhile (\<lambda>c. is_word_char c \<or> c = CHR ''.'') (drop 1 (dropWhile is_word_char (drop 2 s))))"
    and s: "starts_with ''${'' s"
    by (auto simp: match_ref_def Let_def split: if_splits)
  have "length rest \<le> length (drop 2 s)"
    unfolding r using length_dropWhile_le [of is_word_char "drop 2 s"]
      length_dropWhile_le [of "\<lambda>c. is_word_char c \<or> c = CHR ''.''" "drop 1 (dropWhile is_word_char (drop 2 s))"]
    by simp
  moreover have "2 \<le> length s" using s by (auto simp: starts_with_iff)
  ultimately show ?thesis by simp
qed

fun follow_path :: "pyval \<Rightarrow> string list \<Rightarrow> pyval" where
  "follow_path obj [] = obj"
| "follow_path obj (part # parts) = (case obj of
     PDict d \<Rightarrow> follow_path (dict_get_or PNone d part) parts
   | _ \<Rightarrow> PNone)"

definition resolve_ref :: "string \<Rightarrow> string \<Rightarrow> (string, pyval) dict \<Rightarrow> pyval" where
  "resolve_ref scope path context =
     (case dict_get_or PNone context scope of
        PNone \<Rightarrow> PNone
      | obj \<Rightarrow> follow_path obj (split_on (CHR ''.'') path))"

text \<open>\<open>_INTERPOLATION_RE.sub\<close> with the replacer.\<close>

function substitute :: "(string, pyval) dict \<Rightarrow> string \<Rightarrow> string" where
  "substitute context s = (case match_ref s of
     Some (scope, path, rest) \<Rightarrow>
       (let v = resolve_ref scope path context
        in (if v = PNone then ''${'' @ scope @ ''.'' @ path @ ''}'' else py_str v) @ substitute context rest)
   | None \<Rightarrow> (case s of [] \<Rightarrow> [] | c # cs \<Rightarrow> c # substitute context cs))"
  by pat_completeness auto
termination
  by (relation "measure (\<lambda>(context, s). length s)") (auto dest: match_ref_shorter)

declare substitute.simps [simp del]

definition interpolate_string :: "(string, pyval) dict \<Rightarrow> string \<Rightarrow> pyval" where
  "interpolate_string context value =
     (case match_ref value of
        Some (scope, path, []) \<Rightarrow>
          (let v = resolve_ref scope path context in if v \<noteq> PNone then v else PStr (substitute context value))
      | _ \<Rightarrow> PStr (substitute context value))"

fun interpolate_value :: "(string, pyval) dict \<Rightarrow> pyval \<Rightarrow> pyval" where
  "interpolate_value context (PStr s) = interpolate_string context s"
| "interpolate_value context (PDict d) = PDict (map (\<lambda>kv. (fst kv, interpolate_value context (snd kv))) d)"
| "interpolate_value context (PList vs) =
     PList (map (\<lambda>v. case v of PStr s \<Rightarrow> interpolate_string context s | _ \<Rightarrow> v) vs)"
| "interpolate_value context v = v"

definition interpolate :: "(string, pyval) dict \<Rightarrow> (string, pyval) dict \<Rightarrow> (string, pyval) dict" where
  "interpolate context args = map (\<lambda>kv. (fst kv, interpolate_value context (snd kv))) args"

text \<open>A comparison \<open>${ref.path} == 'value'\<close> at the start of a condition, for the operator \<open>op\<close>.\<close>

definition match_compare :: "string \<Rightarrow> string \<Rightarrow> (string \<times> string \<times> string) option" where
  "match_compare op s = (case match_ref s of
     None \<Rightarrow> None
   | Some (scope, path, rest) \<Rightarrow>
       (let r1 = dropWhile is_space rest
        in if \<not> starts_with op r1 then None
           else let r2 = dropWhile is_space (drop (length op) r1)
                in if \<not> starts_with [CHR 0x27] r2 then None
                   else let body = drop 1 r2; lit = takeWhile (\<lambda>c. c \<noteq> CHR 0x27) body
                        in if length lit < length body then Some (scope, path, lit) else None))"

definition evaluate_condition :: "(string, pyval) dict \<Rightarrow> string \<Rightarrow> bool" where
  "evaluate_condition context c = (case match_compare ''=='' c of
     Some (scope, path, lit) \<Rightarrow> py_str (resolve_ref scope path context) = lit
   | None \<Rightarrow> (case match_compare ''!='' c of
       Some (scope, path, lit) \<Rightarrow> py_str (resolve_ref scope path context) \<noteq> lit
     | None \<Rightarrow> (case match_ref c of
         Some (scope, path, _) \<Rightarrow> py_truthy (resolve_ref scope path context)
       | None \<Rightarrow> str_strip c \<noteq> [])))"

section \<open>Execution\<close>

datatype call_outcome = Returns pyval | Raises exn | Cancelled

type_synonym invoker = "string \<Rightarrow> nat \<Rightarrow> (string, pyval) dict \<Rightarrow> call_outcome"

datatype step_outcome = StepDone StepResult | StepCancelled

definition plain_result :: "string \<Rightarrow> StepStatus \<Rightarrow> string option \<Rightarrow> StepResult" where
  "plain_result sid st err = \<lparr>sr_id = sid, sr_status = st, sr_output = PNone, sr_error = err\<rparr>"

text \<open>The attempts of a step, with the outcome and the number of calls made.\<close>

fun run_attempts :: "invoker \<Rightarrow> string \<Rightarrow> (string, pyval) dict \<Rightarrow> nat list \<Rightarrow> string option \<Rightarrow> step_outcome \<times> nat" where
  "run_attempts invoke sid args [] last_error = (StepDone (plain_result sid FAILED last_error), 0)"
| "run_attempts invoke sid args (n # ns) last_error = (case invoke sid n args of
     Returns v \<Rightarrow> (StepDone \<lparr>sr_id = sid, sr_status = COMPLETED, sr_output = v, sr_error = None\<rparr>, 1)
   | Raises e \<Rightarrow> (case run_attempts invoke sid args ns (Some (exn_str e)) of (oc, k) \<Rightarrow> (oc, Suc k))
   | Cancelled \<Rightarrow> (StepCancelled, 1))"

fun failed_dependency :: "string \<Rightarrow> string list \<Rightarrow> (string, StepResult) dict \<Rightarrow> string \<Rightarrow> StepResult option" where
  "failed_dependency sid [] results oe = None"
| "failed_dependency sid (dep # deps) results oe =
     (if map_option sr_status (dict_get results dep) = Some FAILED then
        (if oe = ''skip'' then Some (plain_result sid SKIPPED None)
         else if oe = ''fail'' then Some (plain_result sid FAILED (Some (''Dependency '' @ repr_str dep @ '' failed'')))
         else failed_dependency sid deps results oe)
      else failed_dependency sid deps results oe)"

definition execute_step ::
    "invoker \<Rightarrow> Step \<Rightarrow> (string, pyval) dict \<Rightarrow> (string, StepResult) dict \<Rightarrow> step_outcome \<times> nat" where
  "execute_step invoke s context results =
     (if condition s \<noteq> [] \<and> \<not> evaluate_condition context (condition s)
      then (StepDone (plain_result (step_id s) SKIPPED None), 0)
      else case failed_dependency (step_id s) (depends_on s) results (on_error s) of
             Some r \<Rightarrow> (StepDone r, 0)
           | None \<Rightarrow> run_attempts invoke (step_id s) (interpolate context (step_args s)) [0..<nat (1 + retry s)] None)"

text \<open>Recording the outcomes of a level, in its order.\<close>

type_synonym wf_state = "(string, pyval) dict \<times> (string, StepResult) dict"

fun record_level :: "(Step \<times> step_outcome) list \<Rightarrow> wf_state \<Rightarrow> wf_state res" where
  "record_level [] st = Inr st"
| "record_level ((s, oc) # rest) (context, results) = (case oc of
     StepCancelled \<Rightarrow>
       (if on_error s = ''fail'' then Inl (WorkflowExecutionError (''Step '' @ repr_str (step_id s) @ '' failed: ''))
        else record_level rest
          (dict_set (step_id s) (PDict [(''output'', PNone), (''status'', PStr ''failed''), (''error'', PStr [])]) context,
           dict_set (step_id s) (plain_result (step_id s) FAILED (Some [])) results))
   | StepDone r \<Rightarrow>
       record_level rest
         (dict_set (step_id s) (PDict [(''output'', sr_output r), (''status'', PStr (status_value (sr_status r)))]) context,
          dict_set (step_id s) r results))"

fun execute_levels :: "invoker \<Rightarrow> Step list list \<Rightarrow> wf_state \<Rightarrow> wf_state res" where
  "execute_levels invoke [] st = Inr st"
| "execute_levels invoke (level # levels) st =
     (case record_level (map (\<lambda>s. (s, fst (execute_step invoke s (fst st) (snd st)))) level) st of
        Inl e \<Rightarrow> Inl e
      | Inr st' \<Rightarrow> execute_levels invoke levels st')"

definition execute_workflow ::
    "string list \<Rightarrow> invoker \<Rightarrow> WorkflowDefinition \<Rightarrow> (string, pyval) dict \<Rightarrow> (string, StepResult) dict res" where
  "execute_workflow order invoke wfd inputs = (case topological_order order wfd of
     Inl e \<Rightarrow> Inl e
   | Inr levels \<Rightarrow>
       (case execute_levels invoke levels ([(''inputs'', PDict inputs)], []) of
          Inl e \<Rightarrow> Inl e | Inr (_, results) \<Rightarrow> Inr results))"

subsection \<open>Composite tools\<close>

definition tool_description :: "WorkflowDefinition \<Rightarrow> string" where
  "tool_description wfd = (if wf_description wfd \<noteq> [] then wf_description wfd else ''Composite workflow: '' @ wf_name wfd)"

definition param_schema :: "pyval \<Rightarrow> pyval" where
  "param_schema def = (case def of
     PDict d \<Rightarrow> PDict [(''type'', dict_get_or (PStr ''string'') d ''type''), (''description'', dict_get_or (PStr []) d ''description'')]
   | _ \<Rightarrow> PDict [(''type'', PStr ''string'')])"

definition param_required :: "pyval \<Rightarrow> bool" where
  "param_required def = (case def of PDict d \<Rightarrow> py_truthy (dict_get_or (PBool True) d ''required'') | _ \<Rightarrow> False)"

definition input_schema :: "WorkflowDefinition \<Rightarrow> pyval" where
  "input_schema wfd =
     (if wf_inputs wfd = [] then PDict [(''type'', PStr ''object''), (''properties'', PDict [])]
      else let required = map (PStr \<circ> fst) (filter (\<lambda>kv. param_required (snd kv)) (wf_inputs wfd))
           in PDict ([(''type'', PStr ''object''),
                      (''properties'', PDict (map (\<lambda>kv. (fst kv, param_schema (snd kv))) (wf_inputs wfd)))]
                     @ (if required = [] then [] else [(''required'', PList required)])))"

definition result_context :: "(string, StepResult) dict \<Rightarrow> (string, pyval) dict" where
  "result_context results =
     map (\<lambda>(sid, r). (sid, PDict [(''output'', sr_output r), (''status'', PStr (status_value (sr_status r)))])) results"

definition composite_invoke :: "string list \<Rightarrow> invoker \<Rightarrow> WorkflowDefinition \<Rightarrow> (string, pyval) dict \<Rightarrow> pyval res" where
  "composite_invoke order invoke wfd args = (case execute_workflow order invoke wfd args of
     Inl e \<Rightarrow> Inl e
   | Inr results \<Rightarrow>
       (if wf_output wfd \<noteq> []
        then Inr (interpolate_string (dict_set ''inputs'' (PDict args) (result_context results)) (wf_output wfd))
        else if wf_steps wfd = [] then Inr PNone
        else case dict_get results (step_id (last (wf_steps wfd))) of
               Some r \<Rightarrow> Inr (sr_output r)
             | None \<Rightarrow> Inr PNone))"

definition load_composite_tools :: "(string list \<Rightarrow> string list) \<Rightarrow> raw_workflow list \<Rightarrow> WorkflowDefinition list" where
  "load_composite_tools order defs =
     List.map_filter (\<lambda>d. case parse_workflow order d of Inl e \<Rightarrow> None | Inr wfd \<Rightarrow> Some wfd) defs"

section \<open>The levels of a workflow\<close>

abbreviation step_ids :: "Step list \<Rightarrow> string list" where
  "step_ids \<equiv> map step_id"

text \<open>What parsing establishes: identifiers are distinct and dependencies exist.\<close>

definition steps_ok :: "Step list \<Rightarrow> bool" where
  "steps_ok steps \<longleftrightarrow> distinct (step_ids steps) \<and> (\<forall>s \<in> set steps. set (depends_on s) \<subseteq> set (step_ids steps))"

definition dep_rel :: "Step list \<Rightarrow> (string \<times> string) set" where
  "dep_rel steps = {(d, step_id s) | d s. s \<in> set steps \<and> d \<in> set (depends_on s)}"

lemma step_map_get:
  assumes "distinct (step_ids steps)" "s \<in> set steps"
  shows "dict_get (step_map steps) (step_id s) = Some s"
proof -
  have "dict_get (fold (\<lambda>s. dict_set (step_id s) s) steps d) k =
      (case find (\<lambda>s. step_id s = k) steps of Some s \<Rightarrow> Some s | None \<Rightarrow> dict_get d k)"
    if "distinct (step_ids steps)" for d k
    using that
  proof (induction steps arbitrary: d)
    case (Cons x xs)
    have "find (\<lambda>s. step_id s = step_id x) xs = None" using Cons.prems by (simp add: find_None_iff) (metis imageI)
    with Cons show ?case by (auto split: option.splits)
  qed simp
  moreover have "find (\<lambda>t. step_id t = step_id s) steps = Some s"
    using assms by (induction steps) (auto simp: image_iff)
  ultimately show ?thesis using assms(1) by (simp add: step_map_def)
qed

text \<open>The levels partition what remains, and a step's dependencies lie in earlier levels.\<close>

lemma topo_levels_Inr:
  assumes "topo_levels name sm todo done_ids = Inr levels" "\<And>i. i \<in> set todo \<Longrightarrow> step_id (the (dict_get sm i)) = i"
  shows "mset (step_ids (concat levels)) = mset todo"
    and "\<forall>pre lv post. levels = pre @ lv # post \<longrightarrow>
      (\<forall>s \<in> set lv. \<exists>i \<in> set todo. s = the (dict_get sm i) \<and> set (depends_on s) \<subseteq> set done_ids \<union> step_id ` set (concat pre))"
proof -
  have "mset (step_ids (concat levels)) = mset todo \<and> (\<forall>pre lv post. levels = pre @ lv # post \<longrightarrow>
      (\<forall>s \<in> set lv. \<exists>i \<in> set todo. s = the (dict_get sm i) \<and> set (depends_on s) \<subseteq> set done_ids \<union> step_id ` set (concat pre)))"
    using assms
  proof (induction name sm todo done_ids arbitrary: levels rule: topo_levels.induct)
    case (1 name sm todo done_ids)
    let ?ready = "ready_ids sm todo done_ids"
    let ?rest = "filter (\<lambda>i. i \<notin> set ?ready) todo"
    show ?case
    proof (cases "todo = []")
      case True
      with "1.prems" show ?thesis by (simp add: topo_levels.simps)
    next
      case False
      with "1.prems"(1) obtain lvs where r: "?ready \<noteq> []" and l: "topo_levels name sm ?rest (done_ids @ ?ready) = Inr lvs"
        and lv: "levels = map (\<lambda>i. the (dict_get sm i)) ?ready # lvs"
        by (subst (asm) topo_levels.simps) (auto simp: Let_def split: if_splits sum.splits)
      have "i \<in> set ?rest \<Longrightarrow> step_id (the (dict_get sm i)) = i" for i using "1.prems"(2) by simp
      note IH0 = "1.IH" [OF False refl r l this]
      have IH: "mset (step_ids (concat lvs)) = mset ?rest" "\<And>pre lv post. lvs = pre @ lv # post \<Longrightarrow>
          (\<forall>s \<in> set lv. \<exists>i \<in> set ?rest. s = the (dict_get sm i) \<and>
            set (depends_on s) \<subseteq> set (done_ids @ ?ready) \<union> step_id ` set (concat pre))"
        using IH0 by blast+
      have ids: "map (\<lambda>i. step_id (the (dict_get sm i))) ?ready = ?ready"
        by (rule map_idI) (auto simp: ready_ids_def intro: "1.prems"(2))
      have "?rest = filter (\<lambda>i. \<not> list_all (\<lambda>dep. dep \<in> set done_ids) (depends_on (the (dict_get sm i)))) todo"
        by (rule filter_cong) (auto simp: ready_ids_def)
      then have "mset ?ready + mset ?rest = mset todo"
        by (simp add: ready_ids_def flip: multiset_partition)
      then have "mset (step_ids (concat levels)) = mset todo" using IH(1) by (simp add: lv ids o_def)
      moreover have "\<exists>i \<in> set todo. s = the (dict_get sm i) \<and> set (depends_on s) \<subseteq> set done_ids \<union> step_id ` set (concat pre)"
        if p: "levels = pre @ l2 # post" and s: "s \<in> set l2" for pre l2 post s
      proof (cases pre)
        case Nil
        with p s lv obtain i where "i \<in> set ?ready" "s = the (dict_get sm i)" by auto
        then show ?thesis by (auto simp: ready_ids_def list_all_iff)
      next
        case (Cons l1 pre')
        with p lv have "lvs = pre' @ l2 # post" and l1: "l1 = map (\<lambda>i. the (dict_get sm i)) ?ready" by auto
        with IH(2) s obtain i where i: "i \<in> set ?rest" "s = the (dict_get sm i)"
          "set (depends_on s) \<subseteq> set (done_ids @ ?ready) \<union> step_id ` set (concat pre')" by blast
        have "step_id ` set l1 = set (map (\<lambda>i. step_id (the (dict_get sm i))) ?ready)" by (auto simp: l1)
        then have "step_id ` set l1 = set ?ready" by (simp only: ids)
        with i(3) Cons have "set (depends_on s) \<subseteq> set done_ids \<union> step_id ` set (concat pre)" by auto
        with i(1,2) show ?thesis by auto
      qed
      ultimately show ?thesis by blast
    qed
  qed
  then show "mset (step_ids (concat levels)) = mset todo"
    and "\<forall>pre lv post. levels = pre @ lv # post \<longrightarrow>
      (\<forall>s \<in> set lv. \<exists>i \<in> set todo. s = the (dict_get sm i) \<and> set (depends_on s) \<subseteq> set done_ids \<union> step_id ` set (concat pre))"
    by simp_all
qed

text \<open>When the loop gives up, every step of a non-empty rest waits for something outside what is
  done.\<close>

lemma topo_levels_Inl:
  assumes "topo_levels name sm todo done_ids = Inl e"
  shows "\<exists>R \<noteq> {}. R \<subseteq> set todo \<and>
    (\<forall>i \<in> R. \<exists>d \<in> set (depends_on (the (dict_get sm i))). d \<in> R \<or> d \<notin> set done_ids \<union> set todo)"
  using assms
proof (induction name sm todo done_ids rule: topo_levels.induct)
  case (1 name sm todo done_ids)
  let ?ready = "ready_ids sm todo done_ids"
  have ne: "todo \<noteq> []" using "1.prems" by (auto simp: topo_levels.simps)
  show ?case
  proof (cases "?ready = []")
    case True
    then have "\<forall>i \<in> set todo. \<exists>d \<in> set (depends_on (the (dict_get sm i))). d \<notin> set done_ids"
      by (auto simp: ready_ids_def filter_empty_conv list_all_iff)
    with ne show ?thesis by (intro exI [of _ "set todo"]) auto
  next
    case False
    let ?rest = "filter (\<lambda>i. i \<notin> set ?ready) todo"
    have "topo_levels name sm ?rest (done_ids @ ?ready) = Inl e"
      using "1.prems" ne False by (subst (asm) topo_levels.simps) (auto simp: Let_def split: sum.splits)
    from "1.IH" [OF ne refl False this] obtain R where R: "R \<noteq> {}" "R \<subseteq> set ?rest"
      "\<forall>i \<in> R. \<exists>d \<in> set (depends_on (the (dict_get sm i))). d \<in> R \<or> d \<notin> set (done_ids @ ?ready) \<union> set ?rest"
      by blast
    have "set ?ready \<subseteq> set todo" by (auto simp: ready_ids_def)
    with R show ?thesis by (intro exI [of _ R]) fastforce
  qed
qed

definition enumerates :: "string list \<Rightarrow> Step list \<Rightarrow> bool" where
  "enumerates order steps \<longleftrightarrow> mset order = mset (step_ids steps)"

lemma the_step: "distinct (step_ids steps) \<Longrightarrow> i \<in> set (step_ids steps) \<Longrightarrow>
  \<exists>s \<in> set steps. step_id s = i \<and> the (dict_get (step_map steps) i) = s"
  using step_map_get by fastforce

lemma topological_order_levels:
  assumes "distinct (step_ids (wf_steps wfd))" "enumerates order (wf_steps wfd)"
    and "topological_order order wfd = Inr levels"
  shows "mset (concat levels) = mset (wf_steps wfd)"
    and "levels = pre @ lv # post \<Longrightarrow> s \<in> set lv \<Longrightarrow> set (depends_on s) \<subseteq> step_id ` set (concat pre)"
proof -
  let ?sm = "step_map (wf_steps wfd)"
  have so: "set order = set (step_ids (wf_steps wfd))" using assms(2) unfolding enumerates_def by (rule mset_eq_setD)
  have i: "step_id (the (dict_get ?sm i)) = i" if "i \<in> set order" for i
    using the_step [OF assms(1), of i] that so by auto
  note t = topo_levels_Inr [OF assms(3) [unfolded topological_order_def] i]
  show "set (depends_on s) \<subseteq> step_id ` set (concat pre)" if "levels = pre @ lv # post" "s \<in> set lv"
    using t(2) that by fastforce
  have sub: "set (concat levels) \<subseteq> set (wf_steps wfd)"
  proof
    fix s
    assume "s \<in> set (concat levels)"
    then obtain pre lv post where "levels = pre @ lv # post" "s \<in> set lv" by (auto dest: split_list)
    with t(2) obtain i where "i \<in> set order" "s = the (dict_get ?sm i)" by blast
    with the_step [OF assms(1), of i] so show "s \<in> set (wf_steps wfd)" by auto
  qed
  have ids: "mset (step_ids (concat levels)) = mset (step_ids (wf_steps wfd))"
    using t(1) assms(2) by (simp add: enumerates_def)
  then have d: "distinct (step_ids (concat levels))" using assms(1) by (metis mset_eq_imp_distinct_iff)
  have "length (concat levels) = length (wf_steps wfd)" using ids by (metis length_map size_mset)
  moreover have "distinct (concat levels)" "distinct (wf_steps wfd)" using d assms(1) by (simp_all add: distinct_map)
  ultimately have "set (concat levels) = set (wf_steps wfd)"
    using sub by (metis card_subset_eq distinct_card finite_set)
  with \<open>distinct (concat levels)\<close> \<open>distinct (wf_steps wfd)\<close> show "mset (concat levels) = mset (wf_steps wfd)"
    by (metis set_eq_iff_mset_eq_distinct)
qed

text \<open>
  The levels of a workflow schedule every step exactly once and no step before what it
  depends on: for distinct step identifiers the levels together are a permutation of the
  steps, and the dependencies of a step of a level all belong to earlier levels.
\<close>

theorem topological_order_schedules:
  assumes "distinct (step_ids (wf_steps wfd))" "enumerates order (wf_steps wfd)"
    and "topological_order order wfd = Inr levels"
  shows "mset (concat levels) = mset (wf_steps wfd) \<and>
    (\<forall>pre lv post s. levels = pre @ lv # post \<and> s \<in> set lv \<longrightarrow> set (depends_on s) \<subseteq> step_id ` set (concat pre))"
  using topological_order_levels [OF assms] by blast

lemma takeWhile_shorter: "\<exists>x \<in> set xs. \<not> P x \<Longrightarrow> length (takeWhile P xs) < length xs"
  by (induction xs) auto

lemma levels_disjoint:
  assumes "distinct (step_ids (concat (pre @ lv # post)))"
  shows "step_id ` set (concat pre) \<inter> step_id ` set lv = {}"
    "step_id ` set (concat pre) \<inter> step_id ` set (concat post) = {}"
    "step_id ` set lv \<inter> step_id ` set (concat post) = {}"
  using assms
  by (simp_all only: concat_append concat.simps map_append distinct_append set_append set_map image_Un) blast+

lemma topological_order_acyclic:
  assumes "steps_ok (wf_steps wfd)" "enumerates order (wf_steps wfd)"
  shows "(\<exists>levels. topological_order order wfd = Inr levels) \<longleftrightarrow> acyclic (dep_rel (wf_steps wfd))"
proof
  let ?sm = "step_map (wf_steps wfd)"
  have d: "distinct (step_ids (wf_steps wfd))" using assms(1) by (simp add: steps_ok_def)
  have so: "set order = set (step_ids (wf_steps wfd))" using assms(2) unfolding enumerates_def by (rule mset_eq_setD)
  assume ac: "acyclic (dep_rel (wf_steps wfd))"
  show "\<exists>levels. topological_order order wfd = Inr levels"
  proof (rule ccontr)
    assume "\<not> ?thesis"
    then obtain e where "topo_levels (wf_name wfd) ?sm order [] = Inl e"
      unfolding topological_order_def by (meson sum.exhaust)
    from topo_levels_Inl [OF this] obtain R where R: "R \<noteq> {}" "R \<subseteq> set order"
      "\<forall>i \<in> R. \<exists>d \<in> set (depends_on (the (dict_get ?sm i))). d \<in> R \<or> d \<notin> set order" by auto
    have "finite (dep_rel (wf_steps wfd))"
    proof (rule finite_subset)
      show "dep_rel (wf_steps wfd) \<subseteq> set (step_ids (wf_steps wfd)) \<times> set (step_ids (wf_steps wfd))"
        using assms(1) by (auto simp: dep_rel_def steps_ok_def)
    qed simp
    then have w: "wf (dep_rel (wf_steps wfd))" using ac by (rule finite_acyclic_wf)
    from R(1) obtain i0 where "i0 \<in> R" by blast
    from wfE_min [OF w this] obtain m where m: "m \<in> R" "\<And>y. (y, m) \<in> dep_rel (wf_steps wfd) \<Longrightarrow> y \<notin> R" by blast
    then obtain s where s: "s \<in> set (wf_steps wfd)" "step_id s = m" "the (dict_get ?sm m) = s"
      using the_step [OF d, of m] R(2) so by blast
    then obtain dep where "dep \<in> set (depends_on s)" "dep \<in> R \<or> dep \<notin> set order"
      using bspec [OF R(3) m(1)] unfolding s(3) by blast
    moreover have "set (depends_on s) \<subseteq> set order" using assms(1) s(1) so by (auto simp: steps_ok_def)
    ultimately show False using m(2) s by (auto simp: dep_rel_def)
  qed
next
  assume "\<exists>levels. topological_order order wfd = Inr levels"
  then obtain levels where l: "topological_order order wfd = Inr levels" by blast
  have d: "distinct (step_ids (wf_steps wfd))" using assms(1) by (simp add: steps_ok_def)
  note lv = topological_order_levels [OF d assms(2) l]
  define rank where "rank i = length (takeWhile (\<lambda>lv. i \<notin> step_id ` set lv) levels)" for i
  have dl: "distinct (step_ids (concat levels))"
    using d lv(1) by (metis mset_eq_imp_distinct_iff mset_map)
  have "rank dep < rank (step_id s)" if s: "s \<in> set (wf_steps wfd)" and dep: "dep \<in> set (depends_on s)" for s dep
  proof -
    have "s \<in> set (concat levels)" using s lv(1) by (metis set_mset_mset)
    then obtain pre lev post where p: "levels = pre @ lev # post" "s \<in> set lev" by (auto dest: split_list)
    have "step_id ` set (concat pre) \<inter> step_id ` set lev = {}" using dl unfolding p(1) by (rule levels_disjoint)
    moreover have "step_id s \<in> step_id ` set (concat pre)" if "l \<in> set pre" "step_id s \<in> step_id ` set l" for l
      using that by auto
    ultimately have "\<forall>l \<in> set pre. step_id s \<notin> step_id ` set l" using p(2) by blast
    then have "rank (step_id s) = length pre" using p by (simp add: rank_def takeWhile_append2)
    moreover have ex: "\<exists>l \<in> set pre. \<not> dep \<notin> step_id ` set l" 
    proof -
      have "dep \<in> step_id ` set (concat pre)" using lv(2) [OF p] dep by blast
      then show ?thesis by auto
    qed
    then obtain l where "l \<in> set pre" "\<not> dep \<notin> step_id ` set l" by blast
    then have "takeWhile (\<lambda>l. dep \<notin> step_id ` set l) levels = takeWhile (\<lambda>l. dep \<notin> step_id ` set l) pre"
      unfolding p(1) by (rule takeWhile_append1)
    ultimately show ?thesis using takeWhile_shorter [OF ex] by (simp add: rank_def)
  qed
  then have "dep_rel (wf_steps wfd) \<subseteq> measure rank" by (auto simp: dep_rel_def)
  then show "acyclic (dep_rel (wf_steps wfd))" by (meson wf_acyclic wf_measure wf_subset)
qed

text \<open>
  C8: Cycle detection is exact: the steps of a definition that passed the checks on
  identifiers and dependencies can be ordered exactly when the dependency relation has no
  cycle, whatever the order in which the set of identifiers is iterated.
\<close>

theorem topological_order_iff_acyclic:
  assumes "steps_ok (wf_steps wfd)" "enumerates order (wf_steps wfd)"
  shows "(\<exists>levels. topological_order order wfd = Inr levels) \<longleftrightarrow> acyclic (dep_rel (wf_steps wfd))"
  using assms by (rule topological_order_acyclic)

section \<open>Runs\<close>

text \<open>The result a level records for a step.\<close>

definition outcome_result :: "Step \<Rightarrow> step_outcome \<Rightarrow> StepResult" where
  "outcome_result s oc = (case oc of StepDone r \<Rightarrow> r | StepCancelled \<Rightarrow> plain_result (step_id s) FAILED (Some []))"

lemma record_level_results:
  assumes "record_level socs (ctx, results) = Inr (ctx', results')" "distinct (map (step_id \<circ> fst) socs)"
  shows "dict_get results' k = (case find (\<lambda>so. step_id (fst so) = k) socs of
    Some (s, oc) \<Rightarrow> Some (outcome_result s oc) | None \<Rightarrow> dict_get results k)"
  using assms
proof (induction socs arbitrary: ctx results)
  case (Cons so socs)
  obtain s oc where so: "so = (s, oc)" by (cases so)
  have n: "find (\<lambda>so. step_id (fst so) = step_id s) socs = None"
    using Cons.prems(2) by (auto simp: so find_None_iff image_iff)
  from Cons.prems(1) obtain c1 r1 where r: "record_level socs (c1, r1) = Inr (ctx', results')"
    and r1: "r1 = dict_set (step_id s) (outcome_result s oc) results"
    by (auto simp: so outcome_result_def split: step_outcome.splits if_splits)
  from Cons.IH [OF r] Cons.prems(2) n show ?case by (auto simp: so r1 split: option.split)
qed simp

lemma execute_levels_append:
  "execute_levels invoke (as @ bs) st =
     (case execute_levels invoke as st of Inl e \<Rightarrow> Inl e | Inr st' \<Rightarrow> execute_levels invoke bs st')"
  by (induction as arbitrary: st) (auto split: sum.split)

text \<open>A level leaves the results of other steps alone and records for its own what
  \<open>_execute_step\<close> gives on the state before the level.\<close>

lemma execute_level_results:
  assumes "execute_levels invoke [lv] st = Inr st'" "distinct (step_ids lv)"
  shows "k \<notin> step_id ` set lv \<Longrightarrow> dict_get (snd st') k = dict_get (snd st) k"
    and "s \<in> set lv \<Longrightarrow> dict_get (snd st') (step_id s) = Some (outcome_result s (fst (execute_step invoke s (fst st) (snd st))))"
proof -
  let ?socs = "map (\<lambda>s. (s, fst (execute_step invoke s (fst st) (snd st)))) lv"
  have "record_level ?socs (fst st, snd st) = Inr (fst st', snd st')"
    using assms(1) by (auto split: sum.splits)
  from record_level_results [OF this] assms(2)
  have r: "dict_get (snd st') k = (case find (\<lambda>so. step_id (fst so) = k) ?socs of
      Some (s, oc) \<Rightarrow> Some (outcome_result s oc) | None \<Rightarrow> dict_get (snd st) k)" for k by (simp add: o_def)
  have f: "find (\<lambda>so. step_id (fst so) = k) (map (\<lambda>s. (s, g s)) lv) = map_option (\<lambda>s. (s, g s)) (find (\<lambda>s. step_id s = k) lv)"
    for g :: "Step \<Rightarrow> step_outcome" and k
    by (induction lv) auto
  show "dict_get (snd st') k = dict_get (snd st) k" if "k \<notin> step_id ` set lv"
  proof -
    have "find (\<lambda>s. step_id s = k) lv = None" using that by (auto simp: find_None_iff)
    then show ?thesis by (simp add: r f)
  qed
  have "find (\<lambda>t. step_id t = step_id s) lv = Some s" if "s \<in> set lv"
    using that assms(2) by (induction lv) (auto simp: image_iff)
  then show "s \<in> set lv \<Longrightarrow> dict_get (snd st') (step_id s) = Some (outcome_result s (fst (execute_step invoke s (fst st) (snd st))))"
    by (simp add: r f)
qed

lemma execute_levels_keep:
  assumes "execute_levels invoke levels st = Inr st'" "distinct (step_ids (concat levels))" "k \<notin> step_id ` set (concat levels)"
  shows "dict_get (snd st') k = dict_get (snd st) k"
  using assms
proof (induction levels arbitrary: st)
  case (Cons lv levels)
  from Cons.prems(1) obtain st1 where s1: "execute_levels invoke [lv] st = Inr st1" "execute_levels invoke levels st1 = Inr st'"
    using execute_levels_append [of invoke "[lv]" levels st] by (auto split: sum.splits)
  have "dict_get (snd st1) k = dict_get (snd st) k"
    using Cons.prems(2,3) by (intro execute_level_results(1) [OF s1(1)]) auto
  with Cons.IH [OF s1(2)] Cons.prems(2,3) show ?case by auto
qed simp

text \<open>The final result of a step is what \<open>_execute_step\<close> gave on a state that already holds the
  final results of all steps of earlier levels.\<close>

lemma execute_levels_step:
  assumes "execute_levels invoke (pre @ lv # post) st = Inr st'" "distinct (step_ids (concat (pre @ lv # post)))" "s \<in> set lv"
  shows "\<exists>st1. dict_get (snd st') (step_id s) = Some (outcome_result s (fst (execute_step invoke s (fst st1) (snd st1)))) \<and>
    (\<forall>k \<in> step_id ` set (concat pre). dict_get (snd st1) k = dict_get (snd st') k)"
proof -
  from assms(1) obtain st1 st2 where e: "execute_levels invoke pre st = Inr st1" "execute_levels invoke [lv] st1 = Inr st2"
    "execute_levels invoke post st2 = Inr st'"
    using execute_levels_append [of invoke pre "lv # post" st] execute_levels_append [of invoke "[lv]" post]
    by (auto split: sum.splits)
  have d: "distinct (step_ids lv)" "distinct (step_ids (concat post))" using assms(2) by auto
  have "step_id s \<notin> step_id ` set (concat post)" using levels_disjoint(3) [OF assms(2)] assms(3) by blast
  then have "dict_get (snd st') (step_id s) = dict_get (snd st2) (step_id s)" by (rule execute_levels_keep [OF e(3) d(2)])
  moreover have "dict_get (snd st1) k = dict_get (snd st') k" if "k \<in> step_id ` set (concat pre)" for k
  proof -
    have "k \<notin> step_id ` set lv" "k \<notin> step_id ` set (concat post)" using levels_disjoint [OF assms(2)] that by blast+
    then show ?thesis
      using execute_level_results(1) [OF e(2) d(1)] execute_levels_keep [OF e(3) d(2)] by simp
  qed
  ultimately show ?thesis using execute_level_results(2) [OF e(2) d(1) assms(3)] by (intro exI [of _ st1]) simp
qed

text \<open>Without a cancellation no level raises.\<close>

lemma run_attempts_not_cancelled:
  "(\<And>n args. invoke sid n args \<noteq> Cancelled) \<Longrightarrow> fst (run_attempts invoke sid args ns err) \<noteq> StepCancelled"
  by (induction ns arbitrary: err) (auto split: call_outcome.split prod.split simp: plain_result_def, metis fst_conv)

lemma execute_step_not_cancelled:
  "(\<And>sid n args. invoke sid n args \<noteq> Cancelled) \<Longrightarrow> fst (execute_step invoke s c r) \<noteq> StepCancelled"
  by (auto simp: execute_step_def run_attempts_not_cancelled split: option.split)

lemma record_level_total:
  "\<forall>so \<in> set socs. snd so \<noteq> StepCancelled \<Longrightarrow> \<exists>st'. record_level socs st = Inr st'"
  by (induction socs st rule: record_level.induct) (auto split: step_outcome.split)

lemma execute_levels_total:
  assumes "\<And>sid n args. invoke sid n args \<noteq> Cancelled"
  shows "\<exists>st'. execute_levels invoke levels st = Inr st'"
proof (induction levels arbitrary: st)
  case (Cons lv levels)
  have "\<exists>st'. record_level (map (\<lambda>s. (s, fst (execute_step invoke s (fst st) (snd st)))) lv) st = Inr st'"
    by (rule record_level_total) (auto simp: execute_step_not_cancelled [OF assms])
  with Cons show ?case by auto
qed simp

text \<open>
  C9: A run of an acyclic workflow ends with a result for every step, whatever the tools
  return or raise. In particular a failing step with the default error strategy \<open>fail\<close> does
  not stop the workflow: as long as no call is cancelled the executor never raises and every
  later level is still processed.
\<close>

theorem execute_gives_every_result:
  assumes "steps_ok (wf_steps wfd)" "enumerates order (wf_steps wfd)" "acyclic (dep_rel (wf_steps wfd))"
    and "\<And>sid n args. invoke sid n args \<noteq> Cancelled"
  shows "\<exists>results. execute_workflow order invoke wfd inputs = Inr results \<and>
    (\<forall>s \<in> set (wf_steps wfd). \<exists>r. dict_get results (step_id s) = Some r)"
proof -
  obtain levels where l: "topological_order order wfd = Inr levels"
    using topological_order_acyclic [OF assms(1,2)] assms(3) by blast
  have d: "distinct (step_ids (wf_steps wfd))" using assms(1) by (simp add: steps_ok_def)
  note lv = topological_order_levels [OF d assms(2) l]
  have dl: "distinct (step_ids (concat levels))" using d lv(1) by (metis mset_eq_imp_distinct_iff mset_map)
  obtain st' where e: "execute_levels invoke levels ([(''inputs'', PDict inputs)], []) = Inr st'"
    using execute_levels_total [of invoke, OF assms(4)] by blast
  have "\<exists>r. dict_get (snd st') (step_id s) = Some r" if "s \<in> set (wf_steps wfd)" for s
  proof -
    have "s \<in> set (concat levels)" using that lv(1) by (metis set_mset_mset)
    then obtain pre lev post where "levels = pre @ lev # post" "s \<in> set lev" by (auto dest: split_list)
    with execute_levels_step e dl show ?thesis by metis
  qed
  with l e show ?thesis by (simp add: execute_workflow_def split: prod.split) (metis snd_conv)
qed

text \<open>
  Failures propagate along dependencies. In the results of a run, a step without a
  condition whose dependency failed is \<open>FAILED\<close> when its error strategy is \<open>fail\<close>, and
  \<open>SKIPPED\<close> when it is \<open>skip\<close>; its tool is not called.
\<close>

theorem failed_dependency_propagates:
  assumes "steps_ok (wf_steps wfd)" "enumerates order (wf_steps wfd)"
    and "execute_workflow order invoke wfd inputs = Inr results"
    and "s \<in> set (wf_steps wfd)" "condition s = []" "dep \<in> set (depends_on s)"
    and "map_option sr_status (dict_get results dep) = Some FAILED"
  shows "(on_error s = ''fail'' \<longrightarrow> map_option sr_status (dict_get results (step_id s)) = Some FAILED) \<and>
    (on_error s = ''skip'' \<longrightarrow> map_option sr_status (dict_get results (step_id s)) = Some SKIPPED)"
proof -
  from assms(3) obtain levels st' where l: "topological_order order wfd = Inr levels"
    and e: "execute_levels invoke levels ([(''inputs'', PDict inputs)], []) = Inr st'" "results = snd st'"
    by (auto simp: execute_workflow_def split: sum.splits)
  have d: "distinct (step_ids (wf_steps wfd))" using assms(1) by (simp add: steps_ok_def)
  note lv = topological_order_levels [OF d assms(2) l]
  have dl: "distinct (step_ids (concat levels))" using d lv(1) by (metis mset_eq_imp_distinct_iff mset_map)
  have "s \<in> set (concat levels)" using assms(4) lv(1) by (metis set_mset_mset)
  then obtain pre lev post where p: "levels = pre @ lev # post" "s \<in> set lev" by (auto dest: split_list)
  from execute_levels_step [OF e(1) [unfolded p(1)] dl [unfolded p(1)] p(2)]
  obtain st1 where st1: "dict_get results (step_id s) = Some (outcome_result s (fst (execute_step invoke s (fst st1) (snd st1))))"
    "\<forall>k \<in> step_id ` set (concat pre). dict_get (snd st1) k = dict_get results k"
    unfolding e(2) by blast
  have "map_option sr_status (dict_get (snd st1) dep) = Some FAILED"
    using st1(2) lv(2) [OF p] assms(6,7) by (metis subsetD)
  then have "on_error s = ''fail'' \<Longrightarrow> \<exists>r. failed_dependency (step_id s) deps (snd st1) (on_error s) = Some r \<and> sr_status r = FAILED"
    "on_error s = ''skip'' \<Longrightarrow> \<exists>r. failed_dependency (step_id s) deps (snd st1) (on_error s) = Some r \<and> sr_status r = SKIPPED"
    if "dep \<in> set deps" for deps
    using that by (induction deps) (auto simp: plain_result_def)
  from this [OF assms(6)] assms(5) st1(1)
  show ?thesis
    by (auto simp: execute_step_def outcome_result_def)
qed

lemma run_attempts_none:
  "run_attempts invoke sid args ns err = (StepDone r, 0) \<Longrightarrow> sr_status r = FAILED"
  by (cases ns) (auto simp: plain_result_def split: call_outcome.splits prod.splits)

text \<open>
  A step calls its tool until the first success and at most \<open>1 + retry\<close> times, always
  with the same resolved arguments: it completes with the output of attempt \<open>k\<close> exactly when
  attempt \<open>k\<close> is within the budget and returns it and all earlier attempts raised.
\<close>

theorem attempts_until_first_success:
  "(\<exists>r. run_attempts invoke sid args [0..<n] None = (StepDone r, Suc k) \<and> sr_status r = COMPLETED \<and> sr_output r = v) \<longleftrightarrow>
     k < n \<and> invoke sid k args = Returns v \<and> (\<forall>j < k. \<exists>e. invoke sid j args = Raises e)"
proof -
  have "(\<exists>r. run_attempts invoke sid args [i..<n] err = (StepDone r, Suc k) \<and> sr_status r = COMPLETED \<and> sr_output r = v) \<longleftrightarrow>
     i + k < n \<and> invoke sid (i + k) args = Returns v \<and> (\<forall>j < k. \<exists>e. invoke sid (i + j) args = Raises e)" for i err
  proof (induction k arbitrary: i err)
    case 0
    show ?case
      by (cases "i < n") (auto simp: upt_conv_Cons split: call_outcome.split prod.split dest: run_attempts_none)
  next
    case (Suc k)
    show ?case
    proof (cases "i < n")
      case True
      have all: "(\<forall>j < Suc k. \<exists>e. invoke sid (i + j) args = Raises e) \<longleftrightarrow>
          (\<exists>e. invoke sid i args = Raises e) \<and> (\<forall>j < k. \<exists>e. invoke sid (Suc i + j) args = Raises e)"
        by (auto simp: less_Suc_eq_0_disj)
      show ?thesis
        unfolding all using True Suc.IH [of "Suc i"]
        by (auto simp: upt_conv_Cons split: call_outcome.split prod.split)
    qed simp
  qed
  from this [of 0 None] show ?thesis by simp
qed

section \<open>Instances\<close>

definition ex_step :: "string \<Rightarrow> string list \<Rightarrow> Step" where
  "ex_step sid deps = \<lparr>step_id = sid, tool = ''db.'' @ sid, step_args = [], depends_on = deps, condition = [],
     retry = 1, on_error = ''fail'', step_description = []\<rparr>"

definition ex_wf :: WorkflowDefinition where
  "ex_wf = \<lparr>wf_name = ''pipeline'', wf_description = [], wf_steps = [ex_step ''transform'' [''fetch''], ex_step ''fetch'' []],
     wf_inputs = [], wf_output = []\<rparr>"

definition ex_order :: "string list" where
  "ex_order = [''transform'', ''fetch'']"

text \<open>A tool that always raises.\<close>

definition ex_failing :: invoker where
  "ex_failing sid n args = Raises (ConnectionError ''lost'')"

lemma ex_wf_ok: "steps_ok (wf_steps ex_wf)" "enumerates ex_order (wf_steps ex_wf)"
  by (simp_all add: steps_ok_def enumerates_def ex_wf_def ex_step_def ex_order_def)

lemma ex_wf_levels:
  "topological_order ex_order ex_wf = Inr [[ex_step ''fetch'' []], [ex_step ''transform'' [''fetch'']]]"
  by (simp add: topological_order_def topo_levels.simps ready_ids_def step_map_def ex_wf_def ex_step_def ex_order_def)

lemma ex_wf_run:
  "execute_workflow ex_order ex_failing ex_wf [] = Inr
     [(''fetch'', plain_result ''fetch'' FAILED (Some ''lost'')),
      (''transform'', plain_result ''transform'' FAILED (Some ''Dependency 'fetch' failed''))]"
  by (simp add: execute_workflow_def ex_wf_levels) (code_simp)

theorem topological_order_schedules_witness:
  "mset (concat [[ex_step ''fetch'' []], [ex_step ''transform'' [''fetch'']]]) = mset (wf_steps ex_wf)"
  by (rule topological_order_schedules [OF _ ex_wf_ok(2) ex_wf_levels, THEN conjunct1])
    (use ex_wf_ok(1) in \<open>simp add: steps_ok_def\<close>)

theorem topological_order_iff_acyclic_witness:
  "(\<exists>levels. topological_order ex_order ex_wf = Inr levels) \<longleftrightarrow> acyclic (dep_rel (wf_steps ex_wf))"
  by (rule topological_order_iff_acyclic [OF ex_wf_ok])

theorem execute_gives_every_result_witness:
  "\<exists>results. execute_workflow ex_order ex_failing ex_wf [] = Inr results \<and>
    (\<forall>s \<in> set (wf_steps ex_wf). \<exists>r. dict_get results (step_id s) = Some r)"
proof (rule execute_gives_every_result [OF ex_wf_ok])
  show "acyclic (dep_rel (wf_steps ex_wf))"
    using ex_wf_levels topological_order_acyclic [OF ex_wf_ok] by blast
qed (simp add: ex_failing_def)

theorem failed_dependency_propagates_witness:
  "map_option sr_status (dict_get [(''fetch'', plain_result ''fetch'' FAILED (Some ''lost'')),
      (''transform'', plain_result ''transform'' FAILED (Some ''Dependency 'fetch' failed''))] (step_id (ex_step ''transform'' [''fetch'']))) = Some FAILED"
  by (rule failed_dependency_propagates [OF ex_wf_ok ex_wf_run, where dep = "''fetch''", THEN conjunct1, rule_format])
    (simp_all add: ex_wf_def ex_step_def plain_result_def)

theorem attempts_until_first_success_witness:
  "\<exists>r. run_attempts (\<lambda>sid n args. if n = 0 then Raises TimeoutError else Returns (PInt 7)) ''fetch'' [] [0..<2] None =
     (StepDone r, Suc 1) \<and> sr_status r = COMPLETED \<and> sr_output r = PInt 7"
  unfolding attempts_until_first_success by simp

end
