(* ===== verification/Config_Reload.thy ===== *)
theory Config_Reload
  imports Argus_Prelude
begin

text \<open>
  What decides whether a changed configuration file changes the running service:
  \<open>config/diff.py\<close>, which compares two backend configurations, and \<open>config/watcher.py\<close>, which
  polls the file. A backend configuration is the dictionary \<open>_backend_to_dict\<close> makes; the
  \<open>StdioServerParameters\<close> object under \<open>params\<close> is the dictionary of its attributes. What \<open>os.stat\<close>
  gives at each poll is an argument.
\<close>

section \<open>Comparing configurations\<close>

type_synonym backend_conf = "(string, pyval) dict"

text \<open>Python's \<open>==\<close>: dictionaries compare without regard to order, truth values as numbers.\<close>

fun py_int :: "pyval \<Rightarrow> int option" where
  "py_int (PBool b) = Some (if b then 1 else 0)"
| "py_int (PInt i) = Some i"
| "py_int _ = None"

function (sequential) py_eq :: "pyval \<Rightarrow> pyval \<Rightarrow> bool" where
  "py_eq (PList vs) (PList ws) \<longleftrightarrow> list_all2 py_eq vs ws"
| "py_eq (PDict d) (PDict e) \<longleftrightarrow>
     length d = length e \<and>
     list_all (\<lambda>kv. case dict_get e (fst kv) of None \<Rightarrow> False | Some w \<Rightarrow> py_eq (snd kv) w) d"
| "py_eq v w \<longleftrightarrow> (case (py_int v, py_int w) of (Some i, Some j) \<Rightarrow> i = j | _ \<Rightarrow> v = w)"
  by pat_completeness auto
termination
proof (relation "measure (size \<circ> fst)", goal_cases)
  case (2 vs ws z za)
  then show ?case by (auto simp: less_Suc_eq_le elim: size_list_estimation')
next
  case (3 d e z w)
  then have "size_prod (\<lambda>_. 0) size z \<le> size_list (size_prod (\<lambda>_. 0) size) d"
    by (auto intro: size_list_estimation')
  moreover have "size (snd z) \<le> size_prod (\<lambda>_. 0) size z"
    by (cases z) simp
  ultimately show ?case by (simp add: less_Suc_eq_le size_char_def)
qed simp

abbreviation conf_get :: "backend_conf \<Rightarrow> string \<Rightarrow> pyval" where
  "conf_get c k \<equiv> dict_get_or PNone c k"

text \<open>\<open>getattr(params, a, dflt)\<close>.\<close>

definition params_attr :: "pyval \<Rightarrow> string \<Rightarrow> pyval \<Rightarrow> pyval" where
  "params_attr p a dflt = (case p of PDict d \<Rightarrow> dict_get_or dflt d a | _ \<Rightarrow> dflt)"

definition stdio_configs_differ :: "backend_conf \<Rightarrow> backend_conf \<Rightarrow> bool" where
  "stdio_configs_differ old new =
     (let old_params = conf_get old ''params''; new_params = conf_get new ''params''
      in if old_params = PNone \<or> new_params = PNone then old_params \<noteq> new_params
         else \<not> py_eq (params_attr old_params ''command'' PNone) (params_attr new_params ''command'' PNone)
            \<or> \<not> py_eq (params_attr old_params ''args'' (PList [])) (params_attr new_params ''args'' (PList []))
            \<or> \<not> py_eq (params_attr old_params ''env'' PNone) (params_attr new_params ''env'' PNone))"

definition sse_configs_differ :: "backend_conf \<Rightarrow> backend_conf \<Rightarrow> bool" where
  "sse_configs_differ old new \<longleftrightarrow>
     \<not> py_eq (conf_get old ''url'') (conf_get new ''url'')
   \<or> \<not> py_eq (conf_get old ''command'') (conf_get new ''command'')
   \<or> \<not> py_eq (conf_get old ''args'') (conf_get new ''args'')
   \<or> \<not> py_eq (conf_get old ''env'') (conf_get new ''env'')
   \<or> \<not> py_eq (conf_get old ''headers'') (conf_get new ''headers'')
   \<or> \<not> py_eq (conf_get old ''auth'') (conf_get new ''auth'')"

definition streamable_configs_differ :: "backend_conf \<Rightarrow> backend_conf \<Rightarrow> bool" where
  "streamable_configs_differ old new \<longleftrightarrow>
     \<not> py_eq (conf_get old ''url'') (conf_get new ''url'')
   \<or> \<not> py_eq (conf_get old ''headers'') (conf_get new ''headers'')
   \<or> \<not> py_eq (conf_get old ''auth'') (conf_get new ''auth'')"

definition configs_differ :: "backend_conf \<Rightarrow> backend_conf \<Rightarrow> bool" where
  "configs_differ old new =
     (let svr_type = conf_get old ''type''
      in if \<not> py_eq svr_type (conf_get new ''type'') then True
         else if svr_type = PStr ''stdio'' then stdio_configs_differ old new
         else if svr_type = PStr ''sse'' then sse_configs_differ old new
         else if svr_type = PStr ''streamable-http'' then streamable_configs_differ old new
         else False)"

record ConfigDiff =
  added :: "string set"
  removed :: "string set"
  changed :: "string set"

definition has_changes :: "ConfigDiff \<Rightarrow> bool" where
  "has_changes d \<longleftrightarrow> added d \<noteq> {} \<or> removed d \<noteq> {} \<or> changed d \<noteq> {}"

definition diff_summary :: "ConfigDiff \<Rightarrow> string" where
  "diff_summary d =
     ''+'' @ show_nat (card (added d)) @ '' -'' @ show_nat (card (removed d)) @ '' ~'' @ show_nat (card (changed d))"

definition compute_diff :: "(string, backend_conf) dict \<Rightarrow> (string, backend_conf) dict \<Rightarrow> ConfigDiff" where
  "compute_diff old_config new_config =
     (let old_names = set (dict_keys old_config); new_names = set (dict_keys new_config)
      in \<lparr>added = new_names - old_names,
          removed = old_names - new_names,
          changed = {name \<in> old_names \<inter> new_names.
            configs_differ (dict_get_or [] old_config name) (dict_get_or [] new_config name)}\<rparr>)"

section \<open>Watching the file\<close>

text \<open>\<open>os.stat\<close> fails or gives the modification time.\<close>

definition current_mtime :: "rat option \<Rightarrow> rat" where
  "current_mtime st = (case st of None \<Rightarrow> 0 | Some t \<Rightarrow> t)"

record ConfigWatcher =
  last_mtime :: rat

definition start_watcher :: "rat option \<Rightarrow> ConfigWatcher" where
  "start_watcher st = \<lparr>last_mtime = current_mtime st\<rparr>"

text \<open>
  One turn of the poll loop: what \<open>os.stat\<close> gives after the poll interval and, when that differs
  from the last time seen, after the debounce interval. The result says whether the callback
  was invoked; what it raises is swallowed.
\<close>

definition poll_turn :: "rat option \<times> rat option \<Rightarrow> ConfigWatcher \<Rightarrow> ConfigWatcher \<times> bool" where
  "poll_turn sts w =
     (case sts of (st, debounced) \<Rightarrow>
       (let mtime = current_mtime st
        in if mtime = 0 then (w, False)
           else if mtime \<noteq> last_mtime w then
             (let w1 = w\<lparr>last_mtime := mtime\<rparr>; new_mtime = current_mtime debounced
              in if new_mtime \<noteq> mtime then (w1\<lparr>last_mtime := new_mtime\<rparr>, False)
                 else (w1, True))
           else (w, False)))"

fun poll_loop :: "(rat option \<times> rat option) list \<Rightarrow> ConfigWatcher \<Rightarrow> ConfigWatcher \<times> bool list" where
  "poll_loop [] w = (w, [])"
| "poll_loop (sts # rest) w =
     (case poll_turn sts w of (w', fired) \<Rightarrow>
       (case poll_loop rest w' of (w'', fs) \<Rightarrow> (w'', fired # fs)))"

section \<open>Equality of values\<close>

fun val_wf :: "pyval \<Rightarrow> bool" where
  "val_wf (PList vs) \<longleftrightarrow> list_all val_wf vs"
| "val_wf (PDict d) \<longleftrightarrow> dict_wf d \<and> list_all (\<lambda>kv. val_wf (snd kv)) d"
| "val_wf _ \<longleftrightarrow> True"

lemma py_eq_refl: "val_wf v \<Longrightarrow> py_eq v v"
proof (induction v rule: val_wf.induct)
  case (1 vs)
  then show ?case by (auto simp: list_all2_conv_all_nth list_all_length)
next
  case (2 d)
  have "case dict_get d (fst kv) of None \<Rightarrow> False | Some w \<Rightarrow> py_eq (snd kv) w" if "kv \<in> set d" for kv
  proof -
    have "dict_get d (fst kv) = Some (snd kv)" using 2 that by simp
    moreover have "py_eq (snd kv) (snd kv)" using 2 that by (simp add: list_all_iff)
    ultimately show ?thesis by (simp only: option.case)
  qed
  then show ?case by (simp add: list_all_iff)
qed simp_all

definition conf_wf :: "backend_conf \<Rightarrow> bool" where
  "conf_wf c \<longleftrightarrow> val_wf (PDict c)"

lemma conf_get_wf: "conf_wf c \<Longrightarrow> val_wf (conf_get c k)"
  by (auto simp: conf_wf_def list_all_iff dict_get_or_def dest!: map_of_SomeD split: option.split)

lemma params_attr_wf: "val_wf p \<Longrightarrow> val_wf d \<Longrightarrow> val_wf (params_attr p a d)"
  by (cases p) (auto simp: params_attr_def list_all_iff dict_get_or_def
      dest!: map_of_SomeD split: option.split)

lemma conf_get_set [simp]: "k \<noteq> k' \<Longrightarrow> conf_get (dict_set k v c) k' = conf_get c k'"
  by (simp add: dict_get_or_def)

text \<open>The settings each kind of backend is compared by.\<close>

definition compared_keys :: "string set" where
  "compared_keys = {''type'', ''params'', ''url'', ''command'', ''args'', ''env'', ''headers'', ''auth''}"

lemma configs_differ_cong:
  assumes "conf_wf c" "\<And>k. k \<in> compared_keys \<Longrightarrow> conf_get c' k = conf_get c k"
  shows "\<not> configs_differ c c'"
proof -
  have eq: "py_eq (conf_get c k) (conf_get c k)" for k
    using assms(1) by (simp add: conf_get_wf py_eq_refl)
  have peq: "val_wf d \<Longrightarrow> py_eq (params_attr (conf_get c k) a d) (params_attr (conf_get c k) a d)" for k a d
    using assms(1) by (simp add: conf_get_wf params_attr_wf py_eq_refl)
  show ?thesis
    using assms(2)
    by (simp add: configs_differ_def stdio_configs_differ_def sse_configs_differ_def
        streamable_configs_differ_def compared_keys_def eq peq Let_def)
qed

text \<open>
  The difference of two configurations splits the names correctly: every name of either
  is in exactly one of added, removed, kept, a kept backend counts as changed exactly when
  its connection settings differ, and a configuration does not differ from itself.
\<close>

theorem compute_diff_partitions:
  "(let d = compute_diff old new in
     added d \<union> set (dict_keys old) = removed d \<union> set (dict_keys new) \<and>
     added d \<inter> set (dict_keys old) = {} \<and> removed d \<inter> set (dict_keys new) = {} \<and>
     changed d \<subseteq> set (dict_keys old) \<inter> set (dict_keys new) \<and>
     (\<forall>n c c'. dict_get old n = Some c \<longrightarrow> dict_get new n = Some c' \<longrightarrow>
        (n \<in> changed d \<longleftrightarrow> configs_differ c c'))) \<and>
   ((\<forall>n c. dict_get old n = Some c \<longrightarrow> conf_wf c) \<longrightarrow> \<not> has_changes (compute_diff old old))"
proof (rule conjI)
  show "let d = compute_diff old new in
     added d \<union> set (dict_keys old) = removed d \<union> set (dict_keys new) \<and>
     added d \<inter> set (dict_keys old) = {} \<and> removed d \<inter> set (dict_keys new) = {} \<and>
     changed d \<subseteq> set (dict_keys old) \<inter> set (dict_keys new) \<and>
     (\<forall>n c c'. dict_get old n = Some c \<longrightarrow> dict_get new n = Some c' \<longrightarrow>
        (n \<in> changed d \<longleftrightarrow> configs_differ c c'))"
    by (auto simp: compute_diff_def Let_def dict_get_or_def dest: map_of_SomeD intro: rev_image_eqI)
  show "(\<forall>n c. dict_get old n = Some c \<longrightarrow> conf_wf c) \<longrightarrow> \<not> has_changes (compute_diff old old)"
  proof
    assume wfs: "\<forall>n c. dict_get old n = Some c \<longrightarrow> conf_wf c"
    have "\<not> configs_differ (dict_get_or [] old n) (dict_get_or [] old n)"
      if n: "n \<in> fst ` set old" for n
    proof -
      from n obtain c where "dict_get old n = Some c"
        by (meson not_None_eq dict_get_None_iff)
      with wfs show ?thesis by (simp add: dict_get_or_def configs_differ_cong)
    qed
    then show "\<not> has_changes (compute_diff old old)"
      by (simp add: has_changes_def compute_diff_def Let_def)
  qed
qed

text \<open>A configuration of one container backend.\<close>

definition ex_conf :: backend_conf where
  "ex_conf = [(''type'', PStr ''stdio''),
     (''params'', PDict [(''command'', PStr ''uvx''), (''args'', PList [PStr ''mcp-git'']), (''env'', PNone)]),
     (''container'', PDict [(''enabled'', PBool True)])]"

theorem compute_diff_partitions_witness:
  "\<not> has_changes (compute_diff [(''git'', ex_conf)] [(''git'', ex_conf)])"
  using compute_diff_partitions [of "[(''git'', ex_conf)]" "[(''git'', ex_conf)]"]
  by (simp add: conf_wf_def ex_conf_def split: if_splits)

text \<open>
  Settings outside the compared ones never count as a change: whatever a reload sets for
  the isolation of a container backend, its network, its timeouts or its retries, the
  configuration of the backend is not different and a reload will keep the old connection.
\<close>

theorem other_settings_not_compared:
  assumes "conf_wf c" "k \<notin> compared_keys"
  shows "\<not> configs_differ c (dict_set k v c)"
proof (rule configs_differ_cong)
  fix k' assume "k' \<in> compared_keys"
  with assms(2) have "k \<noteq> k'" by blast
  then show "conf_get (dict_set k v c) k' = conf_get c k'" by (rule conf_get_set)
qed (rule assms(1))

theorem other_settings_not_compared_witness:
  "\<not> configs_differ ex_conf (dict_set ''container'' (PDict [(''enabled'', PBool False)]) ex_conf)"
  by (rule other_settings_not_compared) (simp_all add: conf_wf_def ex_conf_def compared_keys_def)

section \<open>Edits and reloads\<close>

lemma poll_loop_quiet:
  "m \<noteq> 0 \<Longrightarrow> poll_loop (replicate n (Some m, d)) \<lparr>last_mtime = m\<rparr> = (\<lparr>last_mtime = m\<rparr>, replicate n False)"
  by (induction n) (simp_all add: poll_turn_def current_mtime_def)

text \<open>
  An edit that is over when the watcher first sees it triggers exactly one reload, however
  many polls follow.
\<close>

theorem settled_edit_reloads_once:
  assumes "m \<noteq> 0" "m \<noteq> last_mtime w" "0 < n"
  shows "snd (poll_loop (replicate n (Some m, Some m)) w) = True # replicate (n - 1) False"
proof -
  obtain k where n: "n = Suc k" using assms(3) gr0_implies_Suc by blast
  have "poll_turn (Some m, Some m) w = (\<lparr>last_mtime = m\<rparr>, True)"
    using assms by (simp add: poll_turn_def current_mtime_def Let_def)
  then show ?thesis
    by (simp add: n poll_loop_quiet assms(1))
qed

theorem settled_edit_reloads_once_witness:
  "snd (poll_loop (replicate 3 (Some 7, Some 7)) (start_watcher (Some 5))) = [True, False, False]"
  using settled_edit_reloads_once [of 7 "start_watcher (Some 5)" 3]
  by (simp add: start_watcher_def current_mtime_def numeral_eq_Suc)

text \<open>
  An edit that goes on during the debounce interval is lost: the watcher notes the new
  modification time without a reload, and as long as the file stays as it is no later poll
  triggers one, so that the service keeps running the configuration from before both edits.
\<close>

theorem edit_during_debounce_is_lost:
  assumes "m \<noteq> 0" "m \<noteq> last_mtime w" "m' \<noteq> m" "m' \<noteq> 0"
  shows "snd (poll_loop ((Some m, Some m') # replicate n (Some m', Some m')) w) = replicate (Suc n) False"
proof -
  have "poll_turn (Some m, Some m') w = (\<lparr>last_mtime = m'\<rparr>, False)"
    using assms by (simp add: poll_turn_def current_mtime_def Let_def)
  then show ?thesis by (simp add: poll_loop_quiet assms(4))
qed

theorem edit_during_debounce_is_lost_witness:
  "snd (poll_loop ((Some 7, Some 8) # replicate 2 (Some 8, Some 8)) (start_watcher (Some 5))) = [False, False, False]"
  using edit_during_debounce_is_lost [of 7 "start_watcher (Some 5)" 8 2]
  by (simp add: start_watcher_def current_mtime_def numeral_eq_Suc)

end
