(* ===== verification/Client_Manager.thy ===== *)
theory Client_Manager
  imports Backend_Lifecycle Config_Reload Py_String "HOL-Library.Multiset"
begin

text \<open>
  The connections to the backends: \<open>bridge/client_manager.py\<close>, \<open>bridge/backend_connection.py\<close>,
  \<open>bridge/startup_coordinator.py\<close>, the dispatch of \<open>bridge/transport_factory.py\<close> and the task
  tracking of \<open>bridge/auth_discovery.py\<close>.

  What a connection attempt meets (the container build, the transport, the MCP handshake,
  cancellation by a signal, the deadline of \<open>asyncio.wait_for\<close>) is the record \<open>attempt\<close>, an
  argument. Attempts of different backends touch different keys of every dictionary, so one
  attempt is one step and the order in which the attempts of a round run is an argument.
  Exit stacks are numbered in the order they are made; \<open>cm_closed\<close> lists the stacks \<open>aclose\<close> was
  called on, \<open>cm_attempts\<close> the backends an attempt was made for. Characters outside Latin-1
  in messages are written in ASCII.
\<close>

section \<open>State and environment\<close>

text \<open>What an awaited call raises: the cancellation of the task, the cancellation the enclosing
  deadline issues, or any other exception with its HTTP status code and its sub-exceptions.\<close>

datatype base_exn =
    CancelledError
  | Deadline
  | Exc exn int "(exn \<times> int) list"

text \<open>An authentication discovery task: running, or done with its result.\<close>

datatype auth_task = Running | Done bool

record ClientManager =
  cm_sessions :: "(string, nat) dict"
  cm_backend_stacks :: "(string, nat) dict"
  cm_devnull :: bool
  cm_status_records :: "(string, BackendStatusRecord) dict"
  cm_progress_cb :: bool
  cm_shutdown_requested :: bool
  cm_discovered_auth :: "(string, pyval) dict"
  cm_auth_tasks :: "(string, auth_task) dict"
  cm_auth_providers :: "(string, nat) dict"
  cm_refresh_service :: bool
  cm_active_containers :: "(string, string \<times> string) dict"
  cm_next_stack :: nat
  cm_closed :: "nat list"
  cm_progress_log :: "(string \<times> string \<times> string) list"
  cm_attempts :: "string list"

definition new_client_manager :: ClientManager where
  "new_client_manager =
     \<lparr>cm_sessions = [], cm_backend_stacks = [], cm_devnull = True, cm_status_records = [],
      cm_progress_cb = False, cm_shutdown_requested = False, cm_discovered_auth = [],
      cm_auth_tasks = [], cm_auth_providers = [], cm_refresh_service = False,
      cm_active_containers = [], cm_next_stack = 0, cm_closed = [], cm_progress_log = [],
      cm_attempts = []\<rparr>"

text \<open>The outcome of \<open>session.initialize()\<close> under its own time limit.\<close>

datatype init_outcome = InitOk | InitTimeout | InitRaises base_exn

text \<open>
  What one attempt meets, in order: discovery tasks that finished before it, a shutdown
  signal, cancellation at the semaphore, the two container builds (what \<open>wrap_backend\<close> raises
  or returns, and the container it registers), the provider made from an authentication
  block, its headers, closing the previous stack, the session, the handshake, the lock, and
  the readings of the clock for the first and the last transition.
\<close>

record attempt =
  a_auth_done :: "(string \<times> bool \<times> pyval) list"
  a_signal :: bool
  a_gate :: bool
  a_build1 :: "base_exn + pyval \<times> bool"
  a_build2 :: "base_exn + pyval \<times> bool"
  a_container :: "(string \<times> string) option"
  a_provider :: "nat option"
  a_headers :: "base_exn option"
  a_close :: "base_exn option"
  a_session :: "base_exn + nat"
  a_init :: init_outcome
  a_lock :: "base_exn option"
  a_t0 :: rat
  a_t1 :: rat

section \<open>Per-backend connection\<close>

definition progress :: "string \<Rightarrow> string \<Rightarrow> string \<Rightarrow> ClientManager \<Rightarrow> ClientManager" where
  "progress name ph msg m =
     (if cm_progress_cb m then m\<lparr>cm_progress_log := cm_progress_log m @ [(name, ph, msg)]\<rparr> else m)"

definition ensure_status_record :: "string \<Rightarrow> ClientManager \<Rightarrow> ClientManager" where
  "ensure_status_record name m =
     (case dict_get (cm_status_records m) name of
        None \<Rightarrow> m\<lparr>cm_status_records := dict_set name (new_status_record name) (cm_status_records m)\<rparr>
      | Some r \<Rightarrow> m)"

text \<open>\<open>try: record.transition(...) except ValueError: pass\<close>, for the record of a backend.\<close>

definition try_transition :: "rat \<Rightarrow> BackendPhase \<Rightarrow> string \<Rightarrow> string \<Rightarrow> ClientManager \<Rightarrow> ClientManager" where
  "try_transition now ph msg name m =
     (case dict_get (cm_status_records m) name of
        None \<Rightarrow> m
      | Some r \<Rightarrow>
          (case transition now ph msg r of
             Inl e \<Rightarrow> m
           | Inr r' \<Rightarrow> m\<lparr>cm_status_records := dict_set name r' (cm_status_records m)\<rparr>))"

definition record_connect_failure :: "rat \<Rightarrow> string \<Rightarrow> string \<Rightarrow> ClientManager \<Rightarrow> ClientManager" where
  "record_connect_failure now name msg m =
     progress name ''failed'' msg (try_transition now FAILED msg name m)"

definition record_auth_pending_or_failure :: "rat \<Rightarrow> string \<Rightarrow> string \<Rightarrow> ClientManager \<Rightarrow> ClientManager" where
  "record_auth_pending_or_failure now name msg m =
     (if dict_get (cm_auth_tasks m) name = Some Running
      then progress name ''initializing'' msg (try_transition now INITIALIZING msg name m)
      else record_connect_failure now name msg m)"

definition is_auth_status :: "exn \<Rightarrow> int \<Rightarrow> bool" where
  "is_auth_status e status =
     (if exn_class e = ''HTTPStatusError'' then status \<in> {401, 403}
      else let msg = str_lower (exn_str e)
           in str_contains ''401'' msg \<or> str_contains ''unauthorized'' msg \<or> str_contains ''403'' msg)"

definition looks_like_auth_failure :: "exn \<Rightarrow> int \<Rightarrow> (exn \<times> int) list \<Rightarrow> bool" where
  "looks_like_auth_failure e status subs \<longleftrightarrow>
     is_auth_status e status \<or> (\<exists>s \<in> set subs. is_auth_status (fst s) (snd s))"

definition attempt_auth_discovery :: "string \<Rightarrow> pyval \<Rightarrow> string \<Rightarrow> ClientManager \<Rightarrow> ClientManager \<times> string" where
  "attempt_auth_discovery name svr_type reason m =
     (if svr_type \<notin> {PStr ''sse'', PStr ''streamable-http''} then (m, reason)
      else if dict_get (cm_auth_tasks m) name = Some Running
      then (m, ''Auth discovery already running -- will retry after browser authentication completes.'')
      else (m\<lparr>cm_auth_tasks := dict_set name Running (cm_auth_tasks m)\<rparr>,
            ''Auth required -- PKCE browser flow started. Will retry after authentication completes.''))"

definition handle_cancelled_error :: "string \<Rightarrow> pyval \<Rightarrow> bool \<Rightarrow> ClientManager \<Rightarrow> ClientManager \<times> string" where
  "handle_cancelled_error name svr_type shutdown m =
     (if shutdown then (m, ''Startup cancelled (shutdown requested)'')
      else attempt_auth_discovery name svr_type
             ''Connection rejected -- possible auth failure (OAuth/API key). Attempting auto-discovery...'' m)"

definition handle_base_exception ::
    "string \<Rightarrow> pyval \<Rightarrow> exn \<Rightarrow> int \<Rightarrow> (exn \<times> int) list \<Rightarrow> bool \<Rightarrow> ClientManager \<Rightarrow> ClientManager \<times> string" where
  "handle_base_exception name svr_type e status subs shutdown m =
     (if looks_like_auth_failure e status subs \<and> \<not> shutdown
      then attempt_auth_discovery name svr_type (exn_str e) m
      else (m, exn_str e))"

text \<open>An absent or falsy block in the configuration leaves the discovered one.\<close>

definition resolve_auth_provider :: "string \<Rightarrow> backend_conf \<Rightarrow> (string, pyval) dict \<Rightarrow> nat option \<Rightarrow> nat option" where
  "resolve_auth_provider name conf discovered made =
     (let auth_cfg = (if py_truthy (conf_get conf ''auth'') then conf_get conf ''auth''
                      else dict_get_or PNone discovered name)
      in if py_truthy auth_cfg then made else None)"

definition prepare_backend_stack :: "string \<Rightarrow> base_exn option \<Rightarrow> ClientManager \<Rightarrow> ClientManager \<times> base_exn option" where
  "prepare_backend_stack name close m =
     (let m1 = (case dict_get (cm_backend_stacks m) name of
                  None \<Rightarrow> m
                | Some old \<Rightarrow> m\<lparr>cm_backend_stacks := dict_del name (cm_backend_stacks m),
                              cm_closed := cm_closed m @ [old]\<rparr>);
          interrupted = (dict_get (cm_backend_stacks m) name \<noteq> None \<and>
                         (close = Some CancelledError \<or> close = Some Deadline))
      in if interrupted then (m1, close)
         else (m1\<lparr>cm_backend_stacks := dict_set name (cm_next_stack m1) (cm_backend_stacks m1),
                 cm_next_stack := Suc (cm_next_stack m1)\<rparr>, None))"

text \<open>The checks of \<open>create_transport_session\<close> before it opens the transport.\<close>

definition create_transport_session ::
    "string \<Rightarrow> backend_conf \<Rightarrow> pyval \<Rightarrow> base_exn + nat \<Rightarrow> base_exn + nat" where
  "create_transport_session name conf svr_type opened =
     (let bad_url = (case conf_get conf ''url'' of PStr u \<Rightarrow> u = [] | _ \<Rightarrow> True);
          err = (\<lambda>msg. Inl (Exc (ConfigurationError msg) 0 []))
      in if svr_type = PStr ''stdio'' then
           (case conf_get conf ''params'' of PDict ps \<Rightarrow> opened
            | _ \<Rightarrow> err (''Invalid stdio config for server '' @ repr_str name @ '' ('params' type mismatch).''))
         else if svr_type = PStr ''sse'' then
           (if bad_url then err (''Invalid SSE 'url' configuration for server '' @ repr_str name @ ''.'') else opened)
         else if svr_type = PStr ''streamable-http'' then
           (if bad_url then err (''Invalid streamable-http 'url' configuration for server '' @ repr_str name @ ''.'') else opened)
         else err (''Unsupported server type '' @ repr_str (py_str svr_type) @ '' for server '' @ repr_str name @ ''.''))"

definition init_timeout_text :: "backend_conf \<Rightarrow> pyval \<Rightarrow> string" where
  "init_timeout_text conf svr_type =
     py_str (dict_get_or (if svr_type = PStr ''stdio'' then PInt 60 else PInt 15) conf ''init_timeout'')
       @ ''s'' @ (if svr_type = PStr ''stdio'' then '' (post-build)'' else [])"

text \<open>The parts of \<open>connect_backend\<close> before and after the exit stack is made.\<close>

definition store_provider :: "string \<Rightarrow> nat option \<Rightarrow> ClientManager \<Rightarrow> ClientManager" where
  "store_provider name provider m =
     (case provider of
        None \<Rightarrow> m
      | Some p \<Rightarrow> m\<lparr>cm_auth_providers := dict_set name p (cm_auth_providers m)\<rparr>)"

definition open_session ::
    "attempt \<Rightarrow> string \<Rightarrow> backend_conf \<Rightarrow> pyval \<Rightarrow> ClientManager \<Rightarrow> ClientManager \<times> base_exn option" where
  "open_session a name conf svr_type m =
     (case create_transport_session name conf svr_type (a_session a) of
        Inl e \<Rightarrow> (m, Some e)
      | Inr session \<Rightarrow>
          (case a_init a of
             InitTimeout \<Rightarrow>
               (m, Some (Exc (BackendServerError (CHR ''['' # name @ ''] MCP initialization timed out after ''
                                @ init_timeout_text conf svr_type)) 0 []))
           | InitRaises e \<Rightarrow> (m, Some e)
           | InitOk \<Rightarrow>
               (case a_lock a of
                  Some e \<Rightarrow> (m, Some e)
                | None \<Rightarrow>
                    (progress name ''ready'' []
                       (try_transition (a_t1 a) READY ''Connection established'' name
                          (m\<lparr>cm_sessions := dict_set name session (cm_sessions m)\<rparr>)),
                     None))))"

definition connect_backend ::
    "attempt \<Rightarrow> string \<Rightarrow> backend_conf \<Rightarrow> pyval \<Rightarrow> ClientManager \<Rightarrow> ClientManager \<times> base_exn option" where
  "connect_backend a name conf svr_type m =
     (let provider = resolve_auth_provider name conf (cm_discovered_auth m) (a_provider a);
          m1 = store_provider name provider m
      in case (if provider \<noteq> None then a_headers a else None) of
           Some e \<Rightarrow> (m1, Some e)
         | None \<Rightarrow>
             (case prepare_backend_stack name (a_close a) m1 of
                (m2, Some e) \<Rightarrow> (m2, Some e)
              | (m2, None) \<Rightarrow> open_session a name conf svr_type m2))"

definition pre_build_container_image ::
    "base_exn + pyval \<times> bool \<Rightarrow> (string \<times> string) option \<Rightarrow> string \<Rightarrow> backend_conf \<Rightarrow> ClientManager \<Rightarrow>
     ClientManager \<times> backend_conf \<times> base_exn option" where
  "pre_build_container_image outcome container name conf m =
     (case conf_get conf ''params'' of
        PDict params \<Rightarrow>
          (let m1 = progress name ''building'' ''Building container image...'' m;
               m2 = (case container of
                       None \<Rightarrow> m1
                     | Some c \<Rightarrow> m1\<lparr>cm_active_containers := dict_set name c (cm_active_containers m1)\<rparr>)
           in case outcome of
                Inl e \<Rightarrow> (m2, conf, Some e)
              | Inr (wrapped, isolated) \<Rightarrow>
                  (m2, dict_set ''_prebuild_isolated'' (PBool isolated) (dict_set ''_prebuild_params'' wrapped conf), None))
      | _ \<Rightarrow> (m, conf, None))"

text \<open>The three exception handlers of \<open>start_backend_svr\<close>.\<close>

definition connect_failed ::
    "attempt \<Rightarrow> string \<Rightarrow> backend_conf \<Rightarrow> pyval \<Rightarrow> bool \<Rightarrow> base_exn \<Rightarrow> ClientManager \<Rightarrow> ClientManager" where
  "connect_failed a name conf svr_type shutdown e m =
     (let startup_timeout = (if svr_type \<noteq> PStr ''stdio'' then dict_get_or (PInt 90) conf ''startup_timeout'' else PNone);
          timed_out = record_connect_failure (a_t1 a) name
            (''Overall startup timed out after '' @ py_str startup_timeout @ ''s (subprocess spawn + MCP init)'') m;
          pending = (\<lambda>(m', reason). record_auth_pending_or_failure (a_t1 a) name reason m');
          cancelled = pending (handle_cancelled_error name svr_type shutdown m)
      in case e of
           Deadline \<Rightarrow> (if svr_type \<noteq> PStr ''stdio'' then timed_out else cancelled)
         | CancelledError \<Rightarrow> cancelled
         | Exc x status subs \<Rightarrow>
             (if x = TimeoutError then timed_out
              else pending (handle_base_exception name svr_type x status subs shutdown m)))"

definition announce_attempt :: "attempt \<Rightarrow> string \<Rightarrow> pyval \<Rightarrow> ClientManager \<Rightarrow> ClientManager" where
  "announce_attempt a name svr_type m =
     (let connecting = ''Connecting ('' @ py_str svr_type @ '')''
      in progress name ''initializing'' connecting
           (try_transition (a_t0 a) INITIALIZING connecting name
             (ensure_status_record name (m\<lparr>cm_attempts := cm_attempts m @ [name]\<rparr>))))"

definition build_if_missing ::
    "attempt \<Rightarrow> string \<Rightarrow> backend_conf \<Rightarrow> ClientManager \<Rightarrow> ClientManager \<times> backend_conf \<times> base_exn option" where
  "build_if_missing a name conf m =
     (if conf_get conf ''type'' = PStr ''stdio'' \<and> dict_get conf ''_prebuild_params'' = None
      then pre_build_container_image (a_build2 a) (a_container a) name conf m
      else (m, conf, None))"

text \<open>
  \<open>resolve_stdio_params\<close>, which is reached once the exit stack is made, takes what the build left out of
  the configuration object, so that a further attempt builds again.
\<close>

definition conf_after_connect :: "attempt \<Rightarrow> string \<Rightarrow> backend_conf \<Rightarrow> pyval \<Rightarrow> ClientManager \<Rightarrow> backend_conf" where
  "conf_after_connect a name conf svr_type m =
     (let provider = resolve_auth_provider name conf (cm_discovered_auth m) (a_provider a);
          reached = (provider = None \<or> a_headers a = None) \<and>
                    snd (prepare_backend_stack name (a_close a) (store_provider name provider m)) = None;
          valid = (case conf_get conf ''params'' of PDict ps \<Rightarrow> True | _ \<Rightarrow> False)
      in if svr_type = PStr ''stdio'' \<and> reached \<and> valid
         then dict_del ''_prebuild_isolated'' (dict_del ''_prebuild_params'' conf) else conf)"

definition start_backend_svr ::
    "attempt \<Rightarrow> string \<Rightarrow> backend_conf \<Rightarrow> ClientManager \<Rightarrow> ClientManager \<times> backend_conf \<times> (base_exn + bool)" where
  "start_backend_svr a name conf m =
     (let svr_type = conf_get conf ''type'';
          shutdown = cm_shutdown_requested m
      in case build_if_missing a name conf (announce_attempt a name svr_type m) of
           (m2, conf', Some (Exc x status subs)) \<Rightarrow>
             (record_connect_failure (a_t1 a) name (''Container image pre-build failed: '' @ exn_str x) m2, conf', Inr False)
         | (m2, conf', Some e) \<Rightarrow> (m2, conf', Inl e)
         | (m2, conf', None) \<Rightarrow>
             (let conf2 = conf_after_connect a name conf' svr_type m2
              in case connect_backend a name conf' svr_type m2 of
                   (m3, None) \<Rightarrow> (m3, conf2, Inr True)
                 | (m3, Some e) \<Rightarrow> (connect_failed a name conf2 svr_type shutdown e m3, conf2, Inr False)))"

section \<open>Startup\<close>

type_synonym confs = "(string, backend_conf) dict"
type_synonym startup = "ClientManager \<times> confs"

definition type_priority :: "backend_conf \<Rightarrow> nat" where
  "type_priority conf =
     (let t = dict_get_or (PStr ''stdio'') conf ''type''
      in if t = PStr ''streamable-http'' then 0 else if t = PStr ''sse'' then 1 else 2)"

definition sort_backends :: "confs \<Rightarrow> confs \<times> confs" where
  "sort_backends config_data =
     (let sorted_items = sort_key (\<lambda>kv. type_priority (snd kv)) config_data
      in (filter (\<lambda>kv. conf_get (snd kv) ''type'' \<noteq> PStr ''stdio'') sorted_items,
          filter (\<lambda>kv. conf_get (snd kv) ''type'' = PStr ''stdio'') sorted_items))"

text \<open>A discovery task that finishes stores what it found.\<close>

definition finish_auth_task :: "string \<times> bool \<times> pyval \<Rightarrow> ClientManager \<Rightarrow> ClientManager" where
  "finish_auth_task t m = (case t of (name, ok, cfg) \<Rightarrow>
     (if dict_get (cm_auth_tasks m) name = Some Running
      then m\<lparr>cm_auth_tasks := dict_set name (Done ok) (cm_auth_tasks m),
             cm_discovered_auth := (if ok then dict_set name cfg (cm_discovered_auth m) else cm_discovered_auth m)\<rparr>
      else m))"

text \<open>The signal handler.\<close>

definition cancel_startup :: "ClientManager \<Rightarrow> ClientManager" where
  "cancel_startup m = m\<lparr>cm_shutdown_requested := True\<rparr>"

definition before_attempt :: "attempt \<Rightarrow> ClientManager \<Rightarrow> ClientManager" where
  "before_attempt a m =
     (let m1 = fold finish_auth_task (a_auth_done a) m in if a_signal a then cancel_startup m1 else m1)"

text \<open>\<open>start_one\<close> on the configuration object of the backend, which a container build changes.\<close>

definition start_one :: "attempt \<Rightarrow> string \<Rightarrow> startup \<Rightarrow> startup \<times> (base_exn + bool)" where
  "start_one a name st = (case st of (m, cs) \<Rightarrow>
     (case start_backend_svr a name (dict_get_or [] cs name) m of
        (m', conf', r) \<Rightarrow> ((m', dict_set name conf' cs), r)))"

text \<open>
  \<open>_gated_remote\<close> and \<open>_gated_retry\<close>: cancellation may hit the task while it waits for the
  semaphore. In the collected results an exception counts as a failure, but the
  cancellation of a task, which is no \<open>Exception\<close>, counts as true.
\<close>

definition gated :: "attempt \<Rightarrow> string \<Rightarrow> startup \<Rightarrow> startup \<times> bool" where
  "gated a name st = (case st of (m, cs) \<Rightarrow>
     (let m1 = before_attempt a m
      in if a_gate a then ((m1, cs), True)
         else case start_one a name (m1, cs) of
                (st', Inr ok) \<Rightarrow> (st', ok)
              | (st', Inl (Exc e status subs)) \<Rightarrow> (st', False)
              | (st', Inl e) \<Rightarrow> (st', True)))"

text \<open>\<open>_stdio_build_and_connect\<close> as a task: its own build may fail, then \<open>start_one\<close> tries again.\<close>

definition stdio_build_and_connect :: "attempt \<Rightarrow> string \<Rightarrow> startup \<Rightarrow> startup \<times> bool" where
  "stdio_build_and_connect a name st = (case st of (m, cs) \<Rightarrow>
     (case pre_build_container_image (a_build1 a) (a_container a) name (dict_get_or [] cs name) (before_attempt a m) of
        (m1, conf', raised) \<Rightarrow>
          (let st1 = (m1, dict_set name conf' cs)
           in if raised = Some CancelledError \<or> raised = Some Deadline then (st1, False)
              else case start_one a name st1 of
                     (st', Inr ok) \<Rightarrow> (st', ok)
                   | (st', Inl e) \<Rightarrow> (st', False))))"

fun run_tasks ::
    "(string \<Rightarrow> startup \<Rightarrow> startup \<times> bool) \<Rightarrow> string list \<Rightarrow> startup \<Rightarrow> startup \<times> (string, bool) dict" where
  "run_tasks f [] st = (st, [])"
| "run_tasks f (n # ns) st =
     (case f n st of (st1, ok) \<Rightarrow> (case run_tasks f ns st1 of (st2, res) \<Rightarrow> (st2, (n, ok) # res)))"

text \<open>
  The first pass: every remote backend, and every container backend unless a shutdown was
  requested, each once, in the order the tasks happen to run; the result is the names whose
  result is false, remote backends first. Under a requested shutdown the parallel mode notes
  a failure for each container backend and the serial one for the first.
\<close>

definition first_pass ::
    "(string \<Rightarrow> attempt) \<Rightarrow> (string list \<Rightarrow> string list) \<Rightarrow> bool \<Rightarrow> startup \<Rightarrow> startup \<times> string list" where
  "first_pass env order parallel st = (case st of (m, cs) \<Rightarrow>
     (case sort_backends cs of (remote_items, stdio_items) \<Rightarrow>
       (let remote = dict_keys remote_items;
            stdio = dict_keys stdio_items;
            stop = cm_shutdown_requested m;
            run = (\<lambda>n. if n \<in> set stdio then stdio_build_and_connect (env n) n else gated (env n) n)
        in case run_tasks run (order (remote @ (if stop then [] else stdio))) st of
             (st', res) \<Rightarrow>
               (st', filter (\<lambda>n. dict_get res n = Some False) (remote @ stdio)
                     @ (if stop then (if parallel \<and> length stdio > 1 then stdio else take 1 stdio) else [])))))"

definition conf_retries :: "confs \<Rightarrow> string \<Rightarrow> int" where
  "conf_retries cs n = (case dict_get_or (PInt 3) (dict_get_or [] cs n) ''retries'' of PInt i \<Rightarrow> i | _ \<Rightarrow> 0)"

definition num_of :: "pyval \<Rightarrow> rat" where
  "num_of v = (case v of
     PInt i \<Rightarrow> of_int i
   | PObj c s \<Rightarrow> (case py_float_of s of Some (Fin x) \<Rightarrow> x | _ \<Rightarrow> 0)
   | _ \<Rightarrow> 0)"

definition retry_delay :: "confs \<Rightarrow> string list \<Rightarrow> nat \<Rightarrow> rat" where
  "retry_delay cs failed k =
     (let base_delay = Max ((\<lambda>n. num_of (dict_get_or (PInt 5) (dict_get_or [] cs n) ''retry_delay'')) ` set failed);
          backoff = num_of (dict_get_or (PObj ''float'' ''1.5'') (dict_get_or [] cs (hd failed)) ''retry_backoff'')
      in base_delay * backoff ^ (k - 1))"

definition signal_retry_phase :: "rat \<Rightarrow> string list \<Rightarrow> nat \<Rightarrow> int \<Rightarrow> rat \<Rightarrow> ClientManager \<Rightarrow> ClientManager" where
  "signal_retry_phase now failed k max_retries delay m =
     (let msg = ''Retry '' @ show_nat k @ ''/'' @ show_int max_retries
      in fold (\<lambda>n m. progress n ''retrying'' (msg @ '' in '' @ fmt0 delay @ ''s...'')
                      (try_transition now RETRYING msg n m)) failed m)"

text \<open>\<open>await_auth_discoveries\<close>: which of the awaited tasks finish within the time limit, and how, is an argument.\<close>

definition await_auth_discoveries :: "(string \<Rightarrow> (bool \<times> pyval) option) \<Rightarrow> string list \<Rightarrow> ClientManager \<Rightarrow> ClientManager" where
  "await_auth_discoveries finished failed m =
     (let names = filter (\<lambda>n. dict_get (cm_auth_tasks m) n = Some Running) failed;
          m1 = fold (\<lambda>n. progress n ''initializing'' ''Waiting for browser authentication...'') names m;
          m2 = fold (\<lambda>n m. case finished n of None \<Rightarrow> m | Some r \<Rightarrow> finish_auth_task (n, r) m) names m1
      in fold (\<lambda>n m. case dict_get (cm_auth_tasks m) n of
                 Some (Done ok) \<Rightarrow>
                   progress n ''initializing''
                     (if ok then ''Authenticated -- retrying connection...'' else ''Authentication incomplete -- retrying...'') m
               | _ \<Rightarrow> m) names m2)"

definition launch_retry_tasks ::
    "(string \<Rightarrow> attempt) \<Rightarrow> (string list \<Rightarrow> string list) \<Rightarrow> string list \<Rightarrow> nat \<Rightarrow> startup \<Rightarrow> startup" where
  "launch_retry_tasks env order failed k st =
     (let due = filter (\<lambda>n. int k \<le> conf_retries (snd st) n) failed
      in fst (run_tasks (\<lambda>n. gated (env n) n) (order due) st))"

record retry_env =
  re_attempt :: "nat \<Rightarrow> string \<Rightarrow> attempt"
  re_order :: "nat \<Rightarrow> string list \<Rightarrow> string list"
  re_finished :: "nat \<Rightarrow> string \<Rightarrow> (bool \<times> pyval) option"
  re_now :: "nat \<Rightarrow> rat"

text \<open>The loop \<open>for attempt in range(1, max_retries + 1)\<close>, by the number of rounds left.\<close>

fun retry_rounds :: "retry_env \<Rightarrow> int \<Rightarrow> nat \<Rightarrow> nat \<Rightarrow> string list \<Rightarrow> startup \<Rightarrow> startup" where
  "retry_rounds re max_retries 0 k failed st = st"
| "retry_rounds re max_retries (Suc left) k failed st =
     (if failed = [] \<or> cm_shutdown_requested (fst st) then st
      else let m1 = signal_retry_phase (re_now re k) failed k max_retries (retry_delay (snd st) failed k) (fst st);
               m2 = await_auth_discoveries (re_finished re k) failed m1;
               st' = launch_retry_tasks (re_attempt re k) (re_order re k) failed k (m2, snd st)
           in retry_rounds re max_retries left (Suc k)
                (filter (\<lambda>n. dict_get (cm_sessions (fst st')) n = None) failed) st')"

definition retry_failed_backends :: "retry_env \<Rightarrow> string list \<Rightarrow> startup \<Rightarrow> startup" where
  "retry_failed_backends re failed st =
     (let max_retries = Max (conf_retries (snd st) ` set failed)
      in retry_rounds re max_retries (nat max_retries) 1 failed st)"

definition start_all :: "retry_env \<Rightarrow> bool \<Rightarrow> bool \<Rightarrow> startup \<Rightarrow> startup" where
  "start_all re callback parallel st =
     (case first_pass (re_attempt re 0) (re_order re 0) parallel ((fst st)\<lparr>cm_progress_cb := callback\<rparr>, snd st) of
        (st1, failed) \<Rightarrow>
          (let st2 = (if failed \<noteq> [] \<and> \<not> cm_shutdown_requested (fst st1)
                      then retry_failed_backends re failed st1 else st1)
           in ((fst st2)\<lparr>cm_progress_cb := False\<rparr>, snd st2)))"

section \<open>Disconnecting and stopping\<close>

definition start_refresh_service :: "bool \<Rightarrow> ClientManager \<Rightarrow> ClientManager" where
  "start_refresh_service enabled m =
     (if \<not> enabled \<or> cm_auth_providers m = [] then m else m\<lparr>cm_refresh_service := True\<rparr>)"

text \<open>Whatever closing a stack or removing a container raises is logged and dropped.\<close>

definition disconnect_one :: "string \<Rightarrow> ClientManager \<Rightarrow> ClientManager" where
  "disconnect_one name m =
     (let m1 = (case dict_get (cm_backend_stacks m) name of
                  None \<Rightarrow> m
                | Some s \<Rightarrow> m\<lparr>cm_backend_stacks := dict_del name (cm_backend_stacks m), cm_closed := cm_closed m @ [s]\<rparr>)
      in m1\<lparr>cm_active_containers := dict_del name (cm_active_containers m1),
            cm_sessions := dict_del name (cm_sessions m1),
            cm_auth_providers := dict_del name (cm_auth_providers m1)\<rparr>)"

definition stop_all :: "rat \<Rightarrow> ClientManager \<Rightarrow> ClientManager" where
  "stop_all now m =
     (let m1 = fold (\<lambda>(n, r) m. if is_operational r then try_transition now SHUTTING_DOWN ''Graceful shutdown'' n m else m)
                 (cm_status_records m) m
      in m1\<lparr>cm_refresh_service := False,
            cm_closed := cm_closed m1 @ map snd (cm_backend_stacks m1),
            cm_backend_stacks := [],
            cm_sessions := [],
            cm_auth_providers := [],
            cm_active_containers := [],
            cm_devnull := False\<rparr>)"

definition get_session :: "string \<Rightarrow> ClientManager \<Rightarrow> nat option" where
  "get_session name m = dict_get (cm_sessions m) name"

definition get_active_session_count :: "ClientManager \<Rightarrow> nat" where
  "get_active_session_count m = length (cm_sessions m)"

definition get_all_sessions :: "ClientManager \<Rightarrow> (string, nat) dict" where
  "get_all_sessions m = cm_sessions m"

definition get_status_record :: "string \<Rightarrow> ClientManager \<Rightarrow> BackendStatusRecord option" where
  "get_status_record name m = dict_get (cm_status_records m) name"

section \<open>What the bookkeeping leaves alone\<close>

text \<open>Progress messages, status records and discovery tasks do not touch the connections.\<close>

lemma progress_frame [simp]:
  "cm_sessions (progress n ph msg m) = cm_sessions m"
  "cm_backend_stacks (progress n ph msg m) = cm_backend_stacks m"
  "cm_closed (progress n ph msg m) = cm_closed m"
  "cm_next_stack (progress n ph msg m) = cm_next_stack m"
  "cm_attempts (progress n ph msg m) = cm_attempts m"
  "cm_shutdown_requested (progress n ph msg m) = cm_shutdown_requested m"
  by (simp_all add: progress_def)

lemma ensure_frame [simp]:
  "cm_sessions (ensure_status_record n m) = cm_sessions m"
  "cm_backend_stacks (ensure_status_record n m) = cm_backend_stacks m"
  "cm_closed (ensure_status_record n m) = cm_closed m"
  "cm_next_stack (ensure_status_record n m) = cm_next_stack m"
  "cm_attempts (ensure_status_record n m) = cm_attempts m"
  "cm_shutdown_requested (ensure_status_record n m) = cm_shutdown_requested m"
  by (simp_all add: ensure_status_record_def split: option.split)

lemma try_transition_frame [simp]:
  "cm_sessions (try_transition now ph msg n m) = cm_sessions m"
  "cm_backend_stacks (try_transition now ph msg n m) = cm_backend_stacks m"
  "cm_closed (try_transition now ph msg n m) = cm_closed m"
  "cm_next_stack (try_transition now ph msg n m) = cm_next_stack m"
  "cm_attempts (try_transition now ph msg n m) = cm_attempts m"
  "cm_shutdown_requested (try_transition now ph msg n m) = cm_shutdown_requested m"
  by (simp_all add: try_transition_def split: option.split sum.split)

lemma record_connect_failure_frame [simp]:
  "cm_sessions (record_connect_failure now n msg m) = cm_sessions m"
  "cm_backend_stacks (record_connect_failure now n msg m) = cm_backend_stacks m"
  "cm_closed (record_connect_failure now n msg m) = cm_closed m"
  "cm_next_stack (record_connect_failure now n msg m) = cm_next_stack m"
  "cm_attempts (record_connect_failure now n msg m) = cm_attempts m"
  "cm_shutdown_requested (record_connect_failure now n msg m) = cm_shutdown_requested m"
  by (simp_all add: record_connect_failure_def)

lemma record_auth_pending_frame [simp]:
  "cm_sessions (record_auth_pending_or_failure now n msg m) = cm_sessions m"
  "cm_backend_stacks (record_auth_pending_or_failure now n msg m) = cm_backend_stacks m"
  "cm_closed (record_auth_pending_or_failure now n msg m) = cm_closed m"
  "cm_next_stack (record_auth_pending_or_failure now n msg m) = cm_next_stack m"
  "cm_attempts (record_auth_pending_or_failure now n msg m) = cm_attempts m"
  "cm_shutdown_requested (record_auth_pending_or_failure now n msg m) = cm_shutdown_requested m"
  by (simp_all add: record_auth_pending_or_failure_def)

lemma attempt_auth_discovery_frame [simp]:
  "cm_sessions (fst (attempt_auth_discovery n t reason m)) = cm_sessions m"
  "cm_backend_stacks (fst (attempt_auth_discovery n t reason m)) = cm_backend_stacks m"
  "cm_closed (fst (attempt_auth_discovery n t reason m)) = cm_closed m"
  "cm_next_stack (fst (attempt_auth_discovery n t reason m)) = cm_next_stack m"
  "cm_attempts (fst (attempt_auth_discovery n t reason m)) = cm_attempts m"
  "cm_shutdown_requested (fst (attempt_auth_discovery n t reason m)) = cm_shutdown_requested m"
  by (simp_all add: attempt_auth_discovery_def)

lemma handle_cancelled_frame [simp]:
  "cm_sessions (fst (handle_cancelled_error n t sd m)) = cm_sessions m"
  "cm_backend_stacks (fst (handle_cancelled_error n t sd m)) = cm_backend_stacks m"
  "cm_closed (fst (handle_cancelled_error n t sd m)) = cm_closed m"
  "cm_next_stack (fst (handle_cancelled_error n t sd m)) = cm_next_stack m"
  "cm_attempts (fst (handle_cancelled_error n t sd m)) = cm_attempts m"
  "cm_shutdown_requested (fst (handle_cancelled_error n t sd m)) = cm_shutdown_requested m"
  by (simp_all add: handle_cancelled_error_def)

lemma handle_base_exception_frame [simp]:
  "cm_sessions (fst (handle_base_exception n t e status subs sd m)) = cm_sessions m"
  "cm_backend_stacks (fst (handle_base_exception n t e status subs sd m)) = cm_backend_stacks m"
  "cm_closed (fst (handle_base_exception n t e status subs sd m)) = cm_closed m"
  "cm_next_stack (fst (handle_base_exception n t e status subs sd m)) = cm_next_stack m"
  "cm_attempts (fst (handle_base_exception n t e status subs sd m)) = cm_attempts m"
  "cm_shutdown_requested (fst (handle_base_exception n t e status subs sd m)) = cm_shutdown_requested m"
  by (simp_all add: handle_base_exception_def)

lemma connect_failed_frame [simp]:
  "cm_sessions (connect_failed a n conf t sd e m) = cm_sessions m"
  "cm_backend_stacks (connect_failed a n conf t sd e m) = cm_backend_stacks m"
  "cm_closed (connect_failed a n conf t sd e m) = cm_closed m"
  "cm_next_stack (connect_failed a n conf t sd e m) = cm_next_stack m"
  "cm_attempts (connect_failed a n conf t sd e m) = cm_attempts m"
  "cm_shutdown_requested (connect_failed a n conf t sd e m) = cm_shutdown_requested m"
  by (auto simp: connect_failed_def Let_def case_prod_beta split: base_exn.split)

lemma pre_build_frame [simp]:
  "cm_sessions (fst (pre_build_container_image out c n conf m)) = cm_sessions m"
  "cm_backend_stacks (fst (pre_build_container_image out c n conf m)) = cm_backend_stacks m"
  "cm_closed (fst (pre_build_container_image out c n conf m)) = cm_closed m"
  "cm_next_stack (fst (pre_build_container_image out c n conf m)) = cm_next_stack m"
  "cm_attempts (fst (pre_build_container_image out c n conf m)) = cm_attempts m"
  "cm_shutdown_requested (fst (pre_build_container_image out c n conf m)) = cm_shutdown_requested m"
  by (auto simp: pre_build_container_image_def Let_def split: pyval.split sum.split option.split)

lemma store_provider_frame [simp]:
  "cm_sessions (store_provider n p m) = cm_sessions m"
  "cm_backend_stacks (store_provider n p m) = cm_backend_stacks m"
  "cm_closed (store_provider n p m) = cm_closed m"
  "cm_next_stack (store_provider n p m) = cm_next_stack m"
  "cm_attempts (store_provider n p m) = cm_attempts m"
  "cm_shutdown_requested (store_provider n p m) = cm_shutdown_requested m"
  by (simp_all add: store_provider_def split: option.split)

lemma announce_frame [simp]:
  "cm_sessions (announce_attempt a n t m) = cm_sessions m"
  "cm_backend_stacks (announce_attempt a n t m) = cm_backend_stacks m"
  "cm_closed (announce_attempt a n t m) = cm_closed m"
  "cm_next_stack (announce_attempt a n t m) = cm_next_stack m"
  "cm_shutdown_requested (announce_attempt a n t m) = cm_shutdown_requested m"
  by (simp_all add: announce_attempt_def Let_def)

lemma announce_attempts [simp]: "cm_attempts (announce_attempt a n t m) = cm_attempts m @ [n]"
  by (simp add: announce_attempt_def Let_def)

lemma build_if_missing_frame [simp]:
  "cm_sessions (fst (build_if_missing a n conf m)) = cm_sessions m"
  "cm_backend_stacks (fst (build_if_missing a n conf m)) = cm_backend_stacks m"
  "cm_closed (fst (build_if_missing a n conf m)) = cm_closed m"
  "cm_next_stack (fst (build_if_missing a n conf m)) = cm_next_stack m"
  "cm_attempts (fst (build_if_missing a n conf m)) = cm_attempts m"
  "cm_shutdown_requested (fst (build_if_missing a n conf m)) = cm_shutdown_requested m"
  by (simp_all add: build_if_missing_def)

lemma open_session_frame [simp]:
  "cm_backend_stacks (fst (open_session a n conf t m)) = cm_backend_stacks m"
  "cm_closed (fst (open_session a n conf t m)) = cm_closed m"
  "cm_next_stack (fst (open_session a n conf t m)) = cm_next_stack m"
  "cm_attempts (fst (open_session a n conf t m)) = cm_attempts m"
  "cm_shutdown_requested (fst (open_session a n conf t m)) = cm_shutdown_requested m"
  by (simp_all add: open_session_def split: sum.split init_outcome.split option.split)

lemma finish_auth_task_frame [simp]:
  "cm_sessions (finish_auth_task t m) = cm_sessions m"
  "cm_backend_stacks (finish_auth_task t m) = cm_backend_stacks m"
  "cm_closed (finish_auth_task t m) = cm_closed m"
  "cm_next_stack (finish_auth_task t m) = cm_next_stack m"
  "cm_attempts (finish_auth_task t m) = cm_attempts m"
  "cm_shutdown_requested (finish_auth_task t m) = cm_shutdown_requested m"
  by (simp_all add: finish_auth_task_def split: prod.split)

definition conn_frame :: "(ClientManager \<Rightarrow> ClientManager) \<Rightarrow> bool" where
  "conn_frame f \<longleftrightarrow> (\<forall>m. cm_sessions (f m) = cm_sessions m \<and> cm_backend_stacks (f m) = cm_backend_stacks m \<and>
     cm_closed (f m) = cm_closed m \<and> cm_next_stack (f m) = cm_next_stack m \<and>
     cm_attempts (f m) = cm_attempts m \<and> cm_shutdown_requested (f m) = cm_shutdown_requested m)"

lemma conn_frame_fold: "(\<And>x. conn_frame (f x)) \<Longrightarrow> conn_frame (fold f xs)"
  by (induction xs) (simp_all add: conn_frame_def)

lemma conn_frame_signal: "conn_frame (signal_retry_phase now failed k mx d)"
  unfolding signal_retry_phase_def [abs_def] Let_def
  by (intro conn_frame_fold) (simp add: conn_frame_def)

lemma conn_frame_await: "conn_frame (await_auth_discoveries fin failed)"
proof -
  have "conn_frame (fold (\<lambda>n. progress n a b) ns)" for ns a b
    by (intro conn_frame_fold) (simp add: conn_frame_def)
  moreover have "conn_frame (fold (\<lambda>n m. case fin n of None \<Rightarrow> m | Some r \<Rightarrow> finish_auth_task (n, r) m) ns)" for ns
    by (intro conn_frame_fold) (simp add: conn_frame_def split: option.split)
  moreover have "conn_frame (fold (\<lambda>n m. case dict_get (cm_auth_tasks m) n of
        Some (Done ok) \<Rightarrow> progress n ''initializing'' (if ok then a else b) m | _ \<Rightarrow> m) ns)" for ns a b
    by (intro conn_frame_fold) (simp add: conn_frame_def split: option.split auth_task.split)
  ultimately show ?thesis
    by (simp add: conn_frame_def await_auth_discoveries_def Let_def)
qed

lemmas conn_frameD = conn_frame_def [THEN iffD1, rule_format]
lemmas signal_frame [simp] = conn_frameD [OF conn_frame_signal]
lemmas await_frame [simp] = conn_frameD [OF conn_frame_await]

lemma fold_finish_frame: "conn_frame (fold finish_auth_task ts)"
  by (intro conn_frame_fold) (simp add: conn_frame_def)

lemma before_attempt_frame [simp]:
  "cm_sessions (before_attempt a m) = cm_sessions m"
  "cm_backend_stacks (before_attempt a m) = cm_backend_stacks m"
  "cm_closed (before_attempt a m) = cm_closed m"
  "cm_next_stack (before_attempt a m) = cm_next_stack m"
  "cm_attempts (before_attempt a m) = cm_attempts m"
  "cm_shutdown_requested (before_attempt a m) = (a_signal a \<or> cm_shutdown_requested m)"
  using conn_frameD [OF fold_finish_frame]
  by (simp_all add: before_attempt_def cancel_startup_def Let_def)

section \<open>Exit stacks\<close>

text \<open>Every stack made so far is recorded for its backend or closed, once.\<close>

definition stacks_ok :: "ClientManager \<Rightarrow> bool" where
  "stacks_ok m \<longleftrightarrow> dict_wf (cm_backend_stacks m) \<and>
     mset (cm_closed m) + mset (map snd (cm_backend_stacks m)) = mset [0..<cm_next_stack m]"

lemma mset_values_del:
  "dict_wf d \<Longrightarrow> dict_get d k = Some v \<Longrightarrow> add_mset v (mset (map snd (dict_del k d))) = mset (map snd d)"
proof (induction d)
  case (Cons p d)
  show ?case
  proof (cases "fst p = k")
    case True
    with Cons.prems have "k \<notin> fst ` set d" "v = snd p"
      by (simp_all split: if_splits)
    then show ?thesis using True by simp
  next
    case False
    with Cons show ?thesis by (simp split: if_splits)
  qed
qed simp

lemma stacks_ok_close:
  assumes "stacks_ok m" "dict_get (cm_backend_stacks m) n = Some s"
    "cm_backend_stacks m' = dict_del n (cm_backend_stacks m)" "cm_closed m' = cm_closed m @ [s]"
    "cm_next_stack m' = cm_next_stack m"
  shows "stacks_ok m'"
  using assms mset_values_del [of "cm_backend_stacks m" n s] unfolding stacks_ok_def
  by (metis add_mset_add_single dict_wf_del mset_append mset_single_iff_right union_assoc union_mset_add_mset_left
      union_mset_add_mset_right mset.simps mset_append)

lemma stacks_ok_open:
  assumes "stacks_ok m" "n \<notin> fst ` set (cm_backend_stacks m)"
    "cm_backend_stacks m' = dict_set n (cm_next_stack m) (cm_backend_stacks m)" "cm_closed m' = cm_closed m"
    "cm_next_stack m' = Suc (cm_next_stack m)"
  shows "stacks_ok m'"
  using assms by (simp add: stacks_ok_def dict_set_new)

lemma stacks_ok_frame:
  "stacks_ok m \<Longrightarrow> cm_backend_stacks m' = cm_backend_stacks m \<Longrightarrow> cm_closed m' = cm_closed m \<Longrightarrow>
   cm_next_stack m' = cm_next_stack m \<Longrightarrow> stacks_ok m'"
  by (simp add: stacks_ok_def)

lemma stacks_ok_prepare:
  assumes "stacks_ok m"
  shows "stacks_ok (fst (prepare_backend_stack n c m))"
proof (cases "dict_get (cm_backend_stacks m) n")
  case None
  then have "n \<notin> fst ` set (cm_backend_stacks m)" by (simp add: dict_get_None_iff)
  from stacks_ok_open [OF assms this] None show ?thesis
    by (simp add: prepare_backend_stack_def Let_def)
next
  case (Some s)
  define m1 where "m1 = m\<lparr>cm_backend_stacks := dict_del n (cm_backend_stacks m), cm_closed := cm_closed m @ [s]\<rparr>"
  have "stacks_ok m1" by (rule stacks_ok_close [OF assms Some]) (simp_all add: m1_def)
  moreover have "n \<notin> fst ` set (cm_backend_stacks m1)" by (simp add: m1_def)
  ultimately have "stacks_ok (m1\<lparr>cm_backend_stacks := dict_set n (cm_next_stack m1) (cm_backend_stacks m1),
      cm_next_stack := Suc (cm_next_stack m1)\<rparr>)"
    by (rule stacks_ok_open) simp_all
  with \<open>stacks_ok m1\<close> Some show ?thesis
    by (simp add: prepare_backend_stack_def Let_def m1_def)
qed

section \<open>Invariants of connection attempts\<close>

text \<open>
  An invariant that only depends on the stacks and that every single attempt keeps is kept by
  a whole startup, whatever its attempts meet and in whatever order they run.
\<close>

locale attempt_invariant =
  fixes P :: "ClientManager \<Rightarrow> bool"
  assumes frame: "P m \<Longrightarrow> cm_backend_stacks m' = cm_backend_stacks m \<Longrightarrow> cm_closed m' = cm_closed m \<Longrightarrow>
      cm_next_stack m' = cm_next_stack m \<Longrightarrow> P m'"
    and prepare: "P m \<Longrightarrow> P (fst (prepare_backend_stack n c m))"
begin

lemma connect: "P m \<Longrightarrow> P (fst (connect_backend a n conf t m))"
proof -
  assume "P m"
  define p where "p = resolve_auth_provider n conf (cm_discovered_auth m) (a_provider a)"
  define m1 where "m1 = store_provider n p m"
  have m1: "P m1" by (rule frame [OF \<open>P m\<close>]) (simp_all add: m1_def)
  obtain m2 e where pr: "prepare_backend_stack n (a_close a) m1 = (m2, e)" by fastforce
  have m2: "P m2" using prepare [OF m1, of n "a_close a"] by (simp add: pr)
  have "P (fst (open_session a n conf t m2))" by (rule frame [OF m2]) simp_all
  moreover have "connect_backend a n conf t m =
      (case (if p \<noteq> None then a_headers a else None) of Some e \<Rightarrow> (m1, Some e)
       | None \<Rightarrow> (case e of Some e \<Rightarrow> (m2, Some e) | None \<Rightarrow> open_session a n conf t m2))"
    unfolding connect_backend_def Let_def p_def [symmetric] m1_def [symmetric] pr by (simp split: option.split)
  ultimately show ?thesis using m1 m2 by (simp split: option.split)
qed

lemma start_backend: "P m \<Longrightarrow> P (fst (start_backend_svr a n conf m))"
proof -
  assume "P m"
  obtain m2 conf' e where b: "build_if_missing a n conf (announce_attempt a n (conf_get conf ''type'') m) = (m2, conf', e)"
    using prod_cases3 by blast
  then have m2_eq: "m2 = fst (build_if_missing a n conf (announce_attempt a n (conf_get conf ''type'') m))" by simp
  have m2: "P m2" by (rule frame [OF \<open>P m\<close>]) (simp_all add: m2_eq)
  obtain m3 e' where c: "connect_backend a n conf' (conf_get conf ''type'') m2 = (m3, e')" by fastforce
  have m3: "P m3" using connect [OF m2, of a n conf' "conf_get conf ''type''"] by (simp add: c)
  show ?thesis
    by (auto simp: start_backend_svr_def Let_def b c m2 m3
        split: option.split base_exn.split intro: frame [OF m2] frame [OF m3])
qed

lemma task: "P (fst st) \<Longrightarrow> P (fst (fst (gated a n st)))" "P (fst st) \<Longrightarrow> P (fst (fst (stdio_build_and_connect a n st)))"
proof -
  assume "P (fst st)"
  have one: "P m \<Longrightarrow> P (fst (fst (start_one a n (m, cs))))" for m cs
    using start_backend [of m a n "dict_get_or [] cs n"] by (simp add: start_one_def case_prod_beta)
  have b: "P (before_attempt a (fst st))" by (rule frame [OF \<open>P (fst st)\<close>]) simp_all
  show "P (fst (fst (gated a n st)))"
    using b one [OF b, of "snd st"]
    by (auto simp: gated_def Let_def case_prod_beta split: sum.split base_exn.split)
  define b1 where "b1 = pre_build_container_image (a_build1 a) (a_container a) n (dict_get_or [] (snd st) n) (before_attempt a (fst st))"
  have "P (fst b1)" by (rule frame [OF b]) (simp_all add: b1_def)
  then show "P (fst (fst (stdio_build_and_connect a n st)))"
    using one [of "fst b1"]
    by (auto simp: stdio_build_and_connect_def Let_def case_prod_beta b1_def [symmetric] split: sum.split)
qed

lemma tasks: "(\<And>n st. P (fst st) \<Longrightarrow> P (fst (fst (f n st)))) \<Longrightarrow> P (fst st) \<Longrightarrow> P (fst (fst (run_tasks f ns st)))"
proof (induction ns arbitrary: st)
  case (Cons n ns)
  then have "P (fst (fst (f n st)))" by blast
  with Cons show ?case by (simp add: case_prod_beta)
qed simp

lemma rounds: "P (fst st) \<Longrightarrow> P (fst (retry_rounds re mx left k failed st))"
proof (induction re mx left k failed st rule: retry_rounds.induct)
  case (2 re mx left k failed st)
  show ?case
  proof (cases "failed = [] \<or> cm_shutdown_requested (fst st)")
    case False
    define m2 where "m2 = await_auth_discoveries (re_finished re k) failed
        (signal_retry_phase (re_now re k) failed k mx (retry_delay (snd st) failed k) (fst st))"
    have "P m2" by (rule frame [OF 2(2)]) (simp_all add: m2_def)
    then have "P (fst (launch_retry_tasks (re_attempt re k) (re_order re k) failed k (m2, snd st)))"
      by (simp add: launch_retry_tasks_def Let_def tasks task)
    with 2(1) [OF False refl refl refl] False show ?thesis
      by (simp add: m2_def Let_def)
  qed (use 2 in simp)
qed simp

lemma startup: "P (fst st) \<Longrightarrow> P (fst (start_all re cb par st))"
proof -
  assume "P (fst st)"
  let ?st0 = "((fst st)\<lparr>cm_progress_cb := cb\<rparr>, snd st)"
  have "P (fst ?st0)" by (rule frame [OF \<open>P (fst st)\<close>]) simp_all
  then have fp: "P (fst (fst (first_pass (re_attempt re 0) (re_order re 0) par ?st0)))"
    by (auto simp: first_pass_def Let_def case_prod_beta intro!: tasks task)
  obtain st1 failed where eq: "first_pass (re_attempt re 0) (re_order re 0) par ?st0 = (st1, failed)" by fastforce
  from fp eq have st1: "P (fst st1)" by simp
  then have "P (fst (retry_failed_backends re failed st1))"
    by (simp add: retry_failed_backends_def Let_def rounds)
  with st1 have "P (fst (if failed \<noteq> [] \<and> \<not> cm_shutdown_requested (fst st1)
      then retry_failed_backends re failed st1 else st1))" by simp
  from frame [OF this] show ?thesis by (simp add: start_all_def eq Let_def)
qed

end

interpretation stacks: attempt_invariant stacks_ok
  by unfold_locales (blast intro: stacks_ok_frame stacks_ok_prepare)+

section \<open>No exit stack leaks\<close>

text \<open>Everything that is done to a manager between its creation and its end.\<close>

datatype cm_op =
    StartOne attempt string backend_conf
  | StartAll retry_env bool bool confs
  | FinishAuth "string \<times> bool \<times> pyval"
  | Signal
  | StartRefresh bool
  | DisconnectOne string
  | StopAll rat

fun cm_step :: "cm_op \<Rightarrow> ClientManager \<Rightarrow> ClientManager" where
  "cm_step (StartOne a n conf) m = fst (start_backend_svr a n conf m)"
| "cm_step (StartAll re cb par cs) m = fst (start_all re cb par (m, cs))"
| "cm_step (FinishAuth t) m = finish_auth_task t m"
| "cm_step Signal m = cancel_startup m"
| "cm_step (StartRefresh b) m = start_refresh_service b m"
| "cm_step (DisconnectOne n) m = disconnect_one n m"
| "cm_step (StopAll now) m = stop_all now m"

lemma stacks_ok_disconnect [inv_intros]:
  assumes "stacks_ok m"
  shows "stacks_ok (disconnect_one n m)"
proof (cases "dict_get (cm_backend_stacks m) n")
  case None
  then show ?thesis by (intro stacks_ok_frame [OF assms]) (simp_all add: disconnect_one_def)
next
  case (Some s)
  then show ?thesis by (intro stacks_ok_close [OF assms Some]) (simp_all add: disconnect_one_def)
qed

lemma shutdown_records_frame:
  "conn_frame (fold (\<lambda>(n, r) m. if is_operational r then try_transition now SHUTTING_DOWN msg n m else m) rs)"
  by (intro conn_frame_fold) (auto simp: conn_frame_def split: prod.split)

lemma stop_all_conn:
  "cm_sessions (stop_all now m) = []" "cm_backend_stacks (stop_all now m) = []"
  "cm_closed (stop_all now m) = cm_closed m @ map snd (cm_backend_stacks m)"
  "cm_next_stack (stop_all now m) = cm_next_stack m"
  "cm_auth_providers (stop_all now m) = []" "cm_active_containers (stop_all now m) = []"
  "\<not> cm_devnull (stop_all now m)" "\<not> cm_refresh_service (stop_all now m)"
  using conn_frameD [OF shutdown_records_frame] by (simp_all add: stop_all_def Let_def)

lemma stacks_ok_stop [inv_intros]: "stacks_ok m \<Longrightarrow> stacks_ok (stop_all now m)"
  by (simp add: stacks_ok_def stop_all_conn)

lemma stacks_ok_step [inv_intros]: "stacks_ok m \<Longrightarrow> stacks_ok (cm_step op m)"
proof (cases op)
  case (StartOne a n c)
  then show "stacks_ok m \<Longrightarrow> ?thesis" by (simp add: stacks.start_backend)
next
  case (StartAll re cb par cs)
  then show "stacks_ok m \<Longrightarrow> ?thesis" using stacks.startup [of "(m, cs)"] by simp
next
  case (FinishAuth t)
  then show "stacks_ok m \<Longrightarrow> ?thesis" by (simp add: stacks_ok_def)
next
  case Signal
  then show "stacks_ok m \<Longrightarrow> ?thesis" by (simp add: stacks_ok_def cancel_startup_def)
next
  case (StartRefresh b)
  then show "stacks_ok m \<Longrightarrow> ?thesis" by (simp add: stacks_ok_def start_refresh_service_def)
next
  case (DisconnectOne n)
  then show "stacks_ok m \<Longrightarrow> ?thesis" by (simp add: stacks_ok_disconnect)
next
  case (StopAll now)
  then show "stacks_ok m \<Longrightarrow> ?thesis" by (simp add: stacks_ok_stop)
qed

lemma stacks_ok_run: "stacks_ok (fold cm_step ops new_client_manager)"
proof -
  have "stacks_ok m \<Longrightarrow> stacks_ok (fold cm_step ops m)" for m
    by (induction ops arbitrary: m) (simp_all add: stacks_ok_step)
  then show ?thesis by (simp add: stacks_ok_def new_client_manager_def)
qed

text \<open>
  C12: Whatever connection attempts, startups, disconnections and stops a manager goes through
  and whatever they meet, every exit stack it ever made is either recorded for one backend or
  has been closed, exactly once and never both; after a stop every one of them is closed and
  no session, token provider or container is left.
\<close>

theorem exit_stacks_never_leak:
  fixes ops now
  defines "m \<equiv> fold cm_step ops new_client_manager"
  shows "distinct (cm_closed m @ map snd (cm_backend_stacks m)) \<and>
    set (cm_closed m) \<union> snd ` set (cm_backend_stacks m) = {..<cm_next_stack m} \<and>
    set (cm_closed (stop_all now m)) = {..<cm_next_stack m} \<and> distinct (cm_closed (stop_all now m)) \<and>
    cm_sessions (stop_all now m) = [] \<and> cm_auth_providers (stop_all now m) = [] \<and>
    cm_active_containers (stop_all now m) = []"
proof -
  have "mset (cm_closed m @ map snd (cm_backend_stacks m)) = mset [0..<cm_next_stack m]"
    using stacks_ok_run [of ops] by (simp add: stacks_ok_def m_def)
  then have "distinct (cm_closed m @ map snd (cm_backend_stacks m))"
    and "set (cm_closed m @ map snd (cm_backend_stacks m)) = {..<cm_next_stack m}"
    using mset_eq_imp_distinct_iff [of _ "[0..<cm_next_stack m]"] mset_eq_setD [of _ "[0..<cm_next_stack m]"]
    by (fastforce simp: lessThan_atLeast0)+
  then show ?thesis by (simp add: stop_all_conn image_image)
qed

end
