(* ===== verification/Client_Startup.thy ===== *)
theory Client_Startup
  imports Client_Manager
begin

text \<open>
  Properties of the startup of all backends (\<open>bridge/startup_coordinator.py\<close>): how often each
  backend is tried, and what is left of the ones that are given up.
\<close>

section \<open>How often a backend is tried\<close>

text \<open>An attempt that neither a signal nor the cancellation of its task interrupts.\<close>

definition uninterrupted :: "attempt \<Rightarrow> bool" where
  "uninterrupted a \<longleftrightarrow> \<not> a_gate a \<and> \<not> a_signal a \<and>
     a_build1 a \<notin> {Inl CancelledError, Inl Deadline} \<and> a_build2 a \<notin> {Inl CancelledError, Inl Deadline}"

abbreviation connected :: "ClientManager \<Rightarrow> string set" where
  "connected m \<equiv> fst ` set (cm_sessions m)"

text \<open>What one task does to the names connected, the attempts made and the retry budgets.\<close>

definition one_try :: "string \<Rightarrow> bool \<Rightarrow> startup \<Rightarrow> startup \<Rightarrow> bool" where
  "one_try n ok st st' \<longleftrightarrow>
     cm_attempts (fst st') = cm_attempts (fst st) @ [n] \<and>
     connected (fst st') = connected (fst st) \<union> (if ok then {n} else {}) \<and>
     cm_shutdown_requested (fst st') = cm_shutdown_requested (fst st) \<and>
     conf_retries (snd st') = conf_retries (snd st)"

lemma prepare_frame [simp]:
  "cm_sessions (fst (prepare_backend_stack n c m)) = cm_sessions m"
  "cm_attempts (fst (prepare_backend_stack n c m)) = cm_attempts m"
  "cm_shutdown_requested (fst (prepare_backend_stack n c m)) = cm_shutdown_requested m"
  by (simp_all add: prepare_backend_stack_def Let_def split: option.split)

lemma open_session_connected:
  "connected (fst (open_session a n conf t m)) =
     connected m \<union> (if snd (open_session a n conf t m) = None then {n} else {})"
  by (simp add: open_session_def split: sum.split init_outcome.split option.split)

lemma connect_backend_effect:
  "cm_attempts (fst (connect_backend a n conf t m)) = cm_attempts m"
  "cm_shutdown_requested (fst (connect_backend a n conf t m)) = cm_shutdown_requested m"
  "connected (fst (connect_backend a n conf t m)) =
     connected m \<union> (if snd (connect_backend a n conf t m) = None then {n} else {})"
proof -
  define p where "p = resolve_auth_provider n conf (cm_discovered_auth m) (a_provider a)"
  obtain m2 e where pr: "prepare_backend_stack n (a_close a) (store_provider n p m) = (m2, e)" by fastforce
  then have m2: "m2 = fst (prepare_backend_stack n (a_close a) (store_provider n p m))" by simp
  have eq: "connect_backend a n conf t m =
      (case (if p \<noteq> None then a_headers a else None) of Some e \<Rightarrow> (store_provider n p m, Some e)
       | None \<Rightarrow> (case e of Some e \<Rightarrow> (m2, Some e) | None \<Rightarrow> open_session a n conf t m2))"
    unfolding connect_backend_def Let_def p_def [symmetric] pr by (simp split: option.split)
  show "cm_attempts (fst (connect_backend a n conf t m)) = cm_attempts m"
    "cm_shutdown_requested (fst (connect_backend a n conf t m)) = cm_shutdown_requested m"
    "connected (fst (connect_backend a n conf t m)) =
       connected m \<union> (if snd (connect_backend a n conf t m) = None then {n} else {})"
    unfolding eq by (auto simp: m2 open_session_connected split: option.split)
qed

lemma pre_build_retries:
  "dict_get (fst (snd (pre_build_container_image out c n conf m))) ''retries'' = dict_get conf ''retries''"
  by (auto simp: pre_build_container_image_def Let_def split: pyval.split sum.split option.split)

lemma pre_build_raised:
  "snd (snd (pre_build_container_image out c n conf m)) = Some e \<Longrightarrow> out = Inl e"
  by (auto simp: pre_build_container_image_def Let_def split: pyval.splits sum.splits option.splits)

lemma conf_after_connect_retries: "dict_get (conf_after_connect a n conf t m) ''retries'' = dict_get conf ''retries''"
  by (simp add: conf_after_connect_def Let_def)

lemma start_backend_effect:
  assumes "uninterrupted a" "start_backend_svr a n conf m = (m', conf', r)"
  shows "\<exists>ok. r = Inr ok \<and> cm_attempts m' = cm_attempts m @ [n] \<and>
    connected m' = connected m \<union> (if ok then {n} else {}) \<and>
    cm_shutdown_requested m' = cm_shutdown_requested m \<and> dict_get conf' ''retries'' = dict_get conf ''retries''"
proof -
  obtain m2 conf2 e where b: "build_if_missing a n conf (announce_attempt a n (conf_get conf ''type'') m) = (m2, conf2, e)"
    using prod_cases3 by blast
  then have "m2 = fst (build_if_missing a n conf (announce_attempt a n (conf_get conf ''type'') m))" by simp
  then have m2: "cm_attempts m2 = cm_attempts m @ [n]" "cm_sessions m2 = cm_sessions m"
    "cm_shutdown_requested m2 = cm_shutdown_requested m" by simp_all
  have c2: "dict_get conf2 ''retries'' = dict_get conf ''retries''"
    using b pre_build_retries [of "a_build2 a" "a_container a" n conf "announce_attempt a n (conf_get conf ''type'') m"]
    by (auto simp: build_if_missing_def split: if_splits)
  have e: "e \<noteq> Some CancelledError" "e \<noteq> Some Deadline"
    using assms(1) b pre_build_raised [of "a_build2 a" "a_container a" n conf "announce_attempt a n (conf_get conf ''type'') m"]
    by (auto simp: build_if_missing_def uninterrupted_def split: if_splits)
  obtain m3 e3 where c: "connect_backend a n conf2 (conf_get conf ''type'') m2 = (m3, e3)" by fastforce
  have m3: "cm_attempts m3 = cm_attempts m @ [n]" "cm_shutdown_requested m3 = cm_shutdown_requested m"
    "connected m3 = connected m \<union> (if e3 = None then {n} else {})"
    using connect_backend_effect [of a n conf2 "conf_get conf ''type''" m2] unfolding c
    by (simp_all add: m2)
  show ?thesis
  proof (cases e)
    case None
    define conf3 where "conf3 = conf_after_connect a n conf2 (conf_get conf ''type'') m2"
    have c3: "dict_get conf3 ''retries'' = dict_get conf ''retries''" by (simp add: conf3_def conf_after_connect_retries c2)
    from None have "start_backend_svr a n conf m =
        (case e3 of None \<Rightarrow> (m3, conf3, Inr True)
         | Some e \<Rightarrow> (connect_failed a n conf3 (conf_get conf ''type'') (cm_shutdown_requested m) e m3, conf3, Inr False))"
      unfolding start_backend_svr_def Let_def b by (simp add: c conf3_def [symmetric] split: option.split)
    with assms(2) c3 m3 show ?thesis by (cases e3) auto
  next
    case (Some x)
    with e obtain y st subs where "x = Exc y st subs" by (cases x) auto
    with Some have "start_backend_svr a n conf m =
        (record_connect_failure (a_t1 a) n (''Container image pre-build failed: '' @ exn_str y) m2, conf2, Inr False)"
      unfolding start_backend_svr_def Let_def b by simp
    with assms(2) have "m' = record_connect_failure (a_t1 a) n (''Container image pre-build failed: '' @ exn_str y) m2"
      "conf' = conf2" "r = Inr False" by simp_all
    with c2 m2 show ?thesis by auto
  qed
qed

lemma conf_retries_set:
  "dict_get conf ''retries'' = dict_get (dict_get_or [] cs n) ''retries'' \<Longrightarrow>
   conf_retries (dict_set n conf cs) = conf_retries cs"
  by (auto simp: conf_retries_def dict_get_or_def fun_eq_iff)

lemma start_one_try:
  assumes "uninterrupted a" "start_one a n st = (st', r)"
  shows "\<exists>ok. r = Inr ok \<and> one_try n ok st st'"
proof -
  obtain m' conf' r' where s: "start_backend_svr a n (dict_get_or [] (snd st) n) (fst st) = (m', conf', r')"
    using prod_cases3 by blast
  from start_backend_effect [OF assms(1) s] obtain ok where
    "r' = Inr ok" "cm_attempts m' = cm_attempts (fst st) @ [n]"
    "connected m' = connected (fst st) \<union> (if ok then {n} else {})"
    "cm_shutdown_requested m' = cm_shutdown_requested (fst st)"
    "dict_get conf' ''retries'' = dict_get (dict_get_or [] (snd st) n) ''retries''" by blast
  moreover have "st' = (m', dict_set n conf' (snd st))" "r = r'"
    using assms(2) by (simp_all add: start_one_def case_prod_beta s)
  ultimately show ?thesis by (auto simp: one_try_def conf_retries_set)
qed

lemma gated_try:
  assumes "uninterrupted a" "gated a n st = (st', ok)"
  shows "one_try n ok st st'"
proof -
  obtain st1 r where s: "start_one a n (before_attempt a (fst st), snd st) = (st1, r)" by fastforce
  from start_one_try [OF assms(1) s] obtain ok' where "r = Inr ok'" "one_try n ok' (before_attempt a (fst st), snd st) st1"
    by blast
  with assms s show ?thesis
    by (simp add: gated_def Let_def case_prod_beta uninterrupted_def one_try_def)
qed

lemma stdio_try:
  assumes "uninterrupted a" "stdio_build_and_connect a n st = (st', ok)"
  shows "one_try n ok st st'"
proof -
  obtain m1 conf1 e where b: "pre_build_container_image (a_build1 a) (a_container a) n (dict_get_or [] (snd st) n)
      (before_attempt a (fst st)) = (m1, conf1, e)" using prod_cases3 by blast
  then have m1: "m1 = fst (pre_build_container_image (a_build1 a) (a_container a) n (dict_get_or [] (snd st) n)
      (before_attempt a (fst st)))" by simp
  have cr: "conf_retries (dict_set n conf1 (snd st)) = conf_retries (snd st)"
    using pre_build_retries [of "a_build1 a" "a_container a" n "dict_get_or [] (snd st) n" "before_attempt a (fst st)"]
    by (intro conf_retries_set) (simp add: b)
  have e: "e \<noteq> Some CancelledError" "e \<noteq> Some Deadline"
    using assms(1) b pre_build_raised [of "a_build1 a" "a_container a" n "dict_get_or [] (snd st) n" "before_attempt a (fst st)"]
    by (auto simp: uninterrupted_def)
  obtain st1 r where s: "start_one a n (m1, dict_set n conf1 (snd st)) = (st1, r)" by fastforce
  from start_one_try [OF assms(1) s] obtain ok' where "r = Inr ok'" "one_try n ok' (m1, dict_set n conf1 (snd st)) st1"
    by blast
  moreover from this(1) have "(st', ok) = (st1, ok')"
    using assms(2) e by (simp add: stdio_build_and_connect_def Let_def case_prod_beta b s)
  moreover have "cm_attempts m1 = cm_attempts (fst st)" "cm_sessions m1 = cm_sessions (fst st)"
    "cm_shutdown_requested m1 = cm_shutdown_requested (fst st)"
    using assms(1) by (simp_all add: m1 uninterrupted_def)
  ultimately show ?thesis by (simp add: one_try_def cr)
qed

lemma run_tasks_try:
  assumes "\<And>n st st' ok. f n st = (st', ok) \<Longrightarrow> n \<in> set ns \<Longrightarrow> one_try n ok st st'"
    and "run_tasks f ns st = (st', res)" "distinct ns" "connected (fst st) \<inter> set ns = {}"
  shows "cm_attempts (fst st') = cm_attempts (fst st) @ ns \<and> dict_keys res = ns \<and>
    connected (fst st') = connected (fst st) \<union> {n. dict_get res n = Some True} \<and>
    cm_shutdown_requested (fst st') = cm_shutdown_requested (fst st) \<and> conf_retries (snd st') = conf_retries (snd st)"
  using assms
proof (induction ns arbitrary: st res)
  case (Cons n ns)
  obtain st1 ok where 1: "f n st = (st1, ok)" by fastforce
  obtain res2 where 2: "run_tasks f ns st1 = (st', res2)" "res = (n, ok) # res2"
    using Cons.prems(2) by (auto simp: 1 split: prod.splits)
  have t: "one_try n ok st st1" using Cons.prems(1) [OF 1] by simp
  with Cons.prems(3,4) have "connected (fst st1) \<inter> set ns = {}" by (auto simp: one_try_def)
  then have IH: "cm_attempts (fst st') = cm_attempts (fst st1) @ ns \<and> dict_keys res2 = ns \<and>
    connected (fst st') = connected (fst st1) \<union> {n. dict_get res2 n = Some True} \<and>
    cm_shutdown_requested (fst st') = cm_shutdown_requested (fst st1) \<and> conf_retries (snd st') = conf_retries (snd st1)"
    using Cons.IH [OF _ 2(1)] Cons.prems(1,3) by simp
  have "dict_get res2 n = None"
    using IH Cons.prems(3) by (metis distinct.simps(2) dict_get_None_iff list.set_map)
  with t IH show ?case by (auto simp: one_try_def 2(2))
qed simp

lemma subset_chain: "A \<subseteq> B \<union> F' \<Longrightarrow> B \<subseteq> C \<union> F \<Longrightarrow> F' \<subseteq> F \<Longrightarrow> A \<subseteq> C \<union> F"
  by blast

text \<open>The rounds a failing backend takes part in when \<open>left\<close> rounds follow from round \<open>k\<close> on.\<close>

definition budget :: "int \<Rightarrow> nat \<Rightarrow> nat \<Rightarrow> nat" where
  "budget r k left = nat (min r (int k + int left - 1) - int k + 1)"

lemma budget_Suc: "budget r k (Suc left) = (if int k \<le> r then 1 else 0) + budget r (Suc k) left"
  by (auto simp: budget_def min_def)

lemma budget_0 [simp]: "budget r k 0 = 0"
  by (simp add: budget_def)

text \<open>Every name is tried within its budget, and given up only when the budget is spent.\<close>

definition spends :: "(string \<Rightarrow> nat) \<Rightarrow> string set \<Rightarrow> startup \<Rightarrow> startup \<Rightarrow> bool" where
  "spends b ns st st' \<longleftrightarrow> (\<exists>tries. cm_attempts (fst st') = cm_attempts (fst st) @ tries \<and> set tries \<subseteq> ns \<and>
     (\<forall>n \<in> ns. count_list tries n \<le> b n \<and> (n \<in> connected (fst st') \<or> count_list tries n = b n))) \<and>
     connected (fst st) \<subseteq> connected (fst st') \<and> connected (fst st') \<subseteq> connected (fst st) \<union> ns"

lemma spendsE:
  assumes "spends b ns st st'"
  obtains tries where "cm_attempts (fst st') = cm_attempts (fst st) @ tries" "set tries \<subseteq> ns"
    "\<forall>n \<in> ns. count_list tries n \<le> b n \<and> (n \<in> connected (fst st') \<or> count_list tries n = b n)"
    "connected (fst st) \<subseteq> connected (fst st')" "connected (fst st') \<subseteq> connected (fst st) \<union> ns"
  using assms unfolding spends_def by (elim conjE exE) (rule that)

definition fair :: "retry_env \<Rightarrow> bool" where
  "fair re \<longleftrightarrow> (\<forall>k n. uninterrupted (re_attempt re k n)) \<and> (\<forall>k ns. mset (re_order re k ns) = mset ns)"

lemma fairD:
  assumes "fair re"
  shows "uninterrupted (re_attempt re k n)" "set (re_order re k ns) = set ns"
    "distinct (re_order re k ns) \<longleftrightarrow> distinct ns" "count_list (re_order re k ns) n = count_list ns n"
proof -
  have m: "mset (re_order re k ns) = mset ns" using assms by (simp add: fair_def)
  show "uninterrupted (re_attempt re k n)" using assms by (simp add: fair_def)
  show "set (re_order re k ns) = set ns" using m by (rule mset_eq_setD)
  show "distinct (re_order re k ns) \<longleftrightarrow> distinct ns" using m by (rule mset_eq_imp_distinct_iff)
  show "count_list (re_order re k ns) n = count_list ns n" using m by (metis count_mset)
qed

lemma count_list_distinct: "distinct xs \<Longrightarrow> count_list xs x = (if x \<in> set xs then 1 else 0)"
  by (induction xs) auto

lemma launch_effect:
  fixes st :: startup and k :: nat
  assumes "fair re" "distinct failed" "connected (fst st) \<inter> set failed = {}"
  defines "due \<equiv> filter (\<lambda>n. int k \<le> conf_retries (snd st) n) failed"
    and "st' \<equiv> launch_retry_tasks (re_attempt re k) (re_order re k) failed k st"
  shows "cm_attempts (fst st') = cm_attempts (fst st) @ re_order re k due"
    "connected (fst st) \<subseteq> connected (fst st')" "connected (fst st') \<subseteq> connected (fst st) \<union> set due"
    "cm_shutdown_requested (fst st') = cm_shutdown_requested (fst st)" "conf_retries (snd st') = conf_retries (snd st)"
proof -
  obtain st2 res where r2: "run_tasks (\<lambda>n. gated (re_attempt re k n) n) (re_order re k due) st = (st2, res)"
    by fastforce
  have "st2 = st'" by (simp only: st'_def launch_retry_tasks_def Let_def due_def [symmetric] r2 fst_conv)
  with r2 have r: "run_tasks (\<lambda>n. gated (re_attempt re k n) n) (re_order re k due) st = (st', res)" by simp
  have "cm_attempts (fst st') = cm_attempts (fst st) @ re_order re k due \<and> dict_keys res = re_order re k due \<and>
    connected (fst st') = connected (fst st) \<union> {n. dict_get res n = Some True} \<and>
    cm_shutdown_requested (fst st') = cm_shutdown_requested (fst st) \<and> conf_retries (snd st') = conf_retries (snd st)"
    using assms(2,3) by (intro run_tasks_try [OF _ r])
      (auto simp: fairD [OF assms(1)] due_def intro: gated_try [OF fairD(1) [OF assms(1)]])
  moreover from this have "{n. dict_get res n = Some True} \<subseteq> set due"
    using fairD(2) [OF assms(1), of k due] by (metis (mono_tags, lifting) dict_get_None_iff list.set_map mem_Collect_eq
        option.distinct(1) subsetI)
  ultimately show "cm_attempts (fst st') = cm_attempts (fst st) @ re_order re k due"
    "connected (fst st) \<subseteq> connected (fst st')" "connected (fst st') \<subseteq> connected (fst st) \<union> set due"
    "cm_shutdown_requested (fst st') = cm_shutdown_requested (fst st)" "conf_retries (snd st') = conf_retries (snd st)"
    by auto
qed

lemma retry_rounds_spends:
  "fair re \<Longrightarrow> distinct failed \<Longrightarrow> connected (fst st) \<inter> set failed = {} \<Longrightarrow> \<not> cm_shutdown_requested (fst st) \<Longrightarrow>
   spends (\<lambda>n. budget (conf_retries (snd st) n) k left) (set failed) st (retry_rounds re mx left k failed st)"
proof (induction left arbitrary: k failed st)
  case 0
  then show ?case by (auto simp: spends_def)
next
  case (Suc left)
  show ?case
  proof (cases "failed = []")
    case False
    define m2 where "m2 = await_auth_discoveries (re_finished re k) failed
        (signal_retry_phase (re_now re k) failed k mx (retry_delay (snd st) failed k) (fst st))"
    define st1 where "st1 = launch_retry_tasks (re_attempt re k) (re_order re k) failed k (m2, snd st)"
    define due where "due = filter (\<lambda>n. int k \<le> conf_retries (snd st) n) failed"
    define failed' where "failed' = filter (\<lambda>n. dict_get (cm_sessions (fst st1)) n = None) failed"
    have m2: "cm_sessions m2 = cm_sessions (fst st)" "cm_attempts m2 = cm_attempts (fst st)"
      "cm_shutdown_requested m2 = cm_shutdown_requested (fst st)"
      by (simp_all add: m2_def)
    note le = launch_effect [OF Suc.prems(1,2), of "(m2, snd st)" k, folded st1_def, simplified, folded due_def,
        unfolded m2, OF Suc.prems(3)]
    have f': "connected (fst st1) \<inter> set failed' = {}" "set failed' = set failed - connected (fst st1)"
      by (auto simp: failed'_def dict_get_None_iff)
    have sp: "spends (\<lambda>n. budget (conf_retries (snd st) n) (Suc k) left) (set failed') st1
        (retry_rounds re mx left (Suc k) failed' st1)"
      using Suc.IH [OF Suc.prems(1) _ f'(1)] Suc.prems(2,4) le(4,5) by (simp add: failed'_def)
    have eq: "retry_rounds re mx (Suc left) k failed st = retry_rounds re mx left (Suc k) failed' st1"
    proof -
      from False Suc.prems(4) have "(failed = [] \<or> cm_shutdown_requested (fst st)) = False" by simp
      then show ?thesis by (simp only: retry_rounds.simps Let_def if_False m2_def st1_def failed'_def)
    qed
    from sp obtain tries where tr: "cm_attempts (fst (retry_rounds re mx left (Suc k) failed' st1)) = cm_attempts (fst st1) @ tries"
      "set tries \<subseteq> set failed'" "\<forall>n \<in> set failed'. count_list tries n \<le> budget (conf_retries (snd st) n) (Suc k) left \<and>
        (n \<in> connected (fst (retry_rounds re mx left (Suc k) failed' st1)) \<or> count_list tries n = budget (conf_retries (snd st) n) (Suc k) left)"
      "connected (fst st1) \<subseteq> connected (fst (retry_rounds re mx left (Suc k) failed' st1))"
      "connected (fst (retry_rounds re mx left (Suc k) failed' st1)) \<subseteq> connected (fst st1) \<union> set failed'"
      by (rule spendsE)
    have cnt: "count_list (re_order re k due @ tries) n = (if int k \<le> conf_retries (snd st) n then 1 else 0) + count_list tries n"
      if "n \<in> set failed" for n
      using that Suc.prems(1,2) by (simp add: fairD count_list_distinct due_def)
    have out: "count_list tries n = 0" if "n \<notin> set failed'" for n
      using that tr(2) by (auto simp: count_list_0_iff)
    show ?thesis
      unfolding eq spends_def
    proof (intro conjI exI [of _ "re_order re k due @ tries"] ballI)
      show "cm_attempts (fst (retry_rounds re mx left (Suc k) failed' st1)) = cm_attempts (fst st) @ re_order re k due @ tries"
        by (simp add: tr(1) le(1))
      show "set (re_order re k due @ tries) \<subseteq> set failed"
        using tr(2) f'(2) by (auto simp: fairD [OF Suc.prems(1)] due_def)
      show "connected (fst st) \<subseteq> connected (fst (retry_rounds re mx left (Suc k) failed' st1))"
        using le(2) tr(4) by blast
      show "connected (fst (retry_rounds re mx left (Suc k) failed' st1)) \<subseteq> connected (fst st) \<union> set failed"
      proof -
        have "connected (fst st1) \<subseteq> connected (fst st) \<union> set failed" by (rule subset_chain [OF le(3)]) auto
        moreover have "set failed' \<subseteq> set failed" using f'(2) by simp
        ultimately show ?thesis by (rule subset_chain [OF tr(5)])
      qed
      fix n assume n: "n \<in> set failed"
      show "count_list (re_order re k due @ tries) n \<le> budget (conf_retries (snd st) n) k (Suc left)"
        unfolding cnt [OF n] budget_Suc using tr(3) out [of n] by (cases "n \<in> set failed'") auto
      show "n \<in> connected (fst (retry_rounds re mx left (Suc k) failed' st1)) \<or>
          count_list (re_order re k due @ tries) n = budget (conf_retries (snd st) n) k (Suc left)"
        unfolding cnt [OF n] budget_Suc using tr(3) tr(4) f'(2) n by (cases "n \<in> set failed'") auto
    qed
  qed (auto simp: spends_def)
qed

lemma sort_backends_names:
  assumes "dict_wf cs"
  shows "distinct (dict_keys (fst (sort_backends cs)) @ dict_keys (snd (sort_backends cs)))"
    "set (dict_keys (fst (sort_backends cs)) @ dict_keys (snd (sort_backends cs))) = fst ` set cs"
proof -
  let ?xs = "sort_key (\<lambda>kv. type_priority (snd kv)) cs"
  let ?P = "\<lambda>kv. conf_get (snd kv) ''type'' \<noteq> PStr ''stdio''"
  have "mset (filter ?P ?xs @ filter (\<lambda>kv. \<not> ?P kv) ?xs) = mset cs"
    using multiset_partition [of "mset ?xs" ?P] by simp
  from arg_cong [OF this, of "image_mset fst"]
  have "mset (map fst (filter ?P ?xs @ filter (\<lambda>kv. \<not> ?P kv) ?xs)) = mset (map fst cs)"
    by (simp only: mset_map)
  moreover have "dict_keys (fst (sort_backends cs)) @ dict_keys (snd (sort_backends cs)) =
      map fst (filter ?P ?xs @ filter (\<lambda>kv. \<not> ?P kv) ?xs)"
    by (simp add: sort_backends_def Let_def)
  ultimately have eq: "mset (dict_keys (fst (sort_backends cs)) @ dict_keys (snd (sort_backends cs))) = mset (dict_keys cs)"
    by simp
  from mset_eq_imp_distinct_iff [OF this] assms
  show "distinct (dict_keys (fst (sort_backends cs)) @ dict_keys (snd (sort_backends cs)))" by blast
  from mset_eq_setD [OF eq]
  show "set (dict_keys (fst (sort_backends cs)) @ dict_keys (snd (sort_backends cs))) = fst ` set cs" by simp
qed

lemma first_pass_effect:
  assumes "fair re" "dict_wf cs" "cm_sessions m = []" "\<not> cm_shutdown_requested m"
    and "first_pass (re_attempt re 0) (re_order re 0) par (m, cs) = (st1, failed)"
  shows "\<exists>ns. cm_attempts (fst st1) = cm_attempts m @ ns \<and> distinct ns \<and> set ns = fst ` set cs"
    "set failed = fst ` set cs - connected (fst st1)" "distinct failed" "connected (fst st1) \<subseteq> fst ` set cs"
    "\<not> cm_shutdown_requested (fst st1)" "conf_retries (snd st1) = conf_retries cs"
proof -
  obtain remote_items stdio_items where sb: "sort_backends cs = (remote_items, stdio_items)" by fastforce
  define names where "names = dict_keys remote_items @ dict_keys stdio_items"
  have names: "distinct names" "set names = fst ` set cs"
    using sort_backends_names [OF assms(2)] by (simp_all add: sb names_def)
  define run where "run = (\<lambda>n. if n \<in> set (dict_keys stdio_items) then stdio_build_and_connect (re_attempt re 0 n) n
      else gated (re_attempt re 0 n) n)"
  obtain st2 res where r: "run_tasks run (re_order re 0 names) (m, cs) = (st2, res)" by fastforce
  have fp: "st1 = st2" "failed = filter (\<lambda>n. dict_get res n = Some False) names"
  proof -
    have "first_pass (re_attempt re 0) (re_order re 0) par (m, cs) =
        (case run_tasks run (re_order re 0 names) (m, cs) of
           (st', res) \<Rightarrow> (st', filter (\<lambda>n. dict_get res n = Some False) names))"
      using assms(4) by (simp add: first_pass_def Let_def sb run_def names_def split: prod.split)
    with assms(5) show "st1 = st2" "failed = filter (\<lambda>n. dict_get res n = Some False) names"
      by (simp_all add: r)
  qed
  have eff: "cm_attempts (fst st2) = cm_attempts m @ re_order re 0 names \<and> dict_keys res = re_order re 0 names \<and>
    connected (fst st2) = connected m \<union> {n. dict_get res n = Some True} \<and>
    cm_shutdown_requested (fst st2) = cm_shutdown_requested m \<and> conf_retries (snd st2) = conf_retries cs"
  proof -
    have "one_try n ok st st'" if "run n st = (st', ok)" for n st st' ok
      using that fairD(1) [OF assms(1), of 0 n]
      by (auto simp: run_def split: if_splits intro: stdio_try gated_try)
    then show ?thesis
      using run_tasks_try [OF _ r] assms(3) names(1) by (simp add: fairD [OF assms(1)])
  qed
  have dom: "fst ` set res = fst ` set cs"
    using eff names(2) fairD(2) [OF assms(1), of 0 names] by (metis list.set_map)
  have conn: "connected (fst st2) = {n. dict_get res n = Some True}" using eff assms(3) by simp
  show "\<exists>ns. cm_attempts (fst st1) = cm_attempts m @ ns \<and> distinct ns \<and> set ns = fst ` set cs"
    using eff names by (intro exI [of _ "re_order re 0 names"]) (simp add: fp fairD [OF assms(1)])
  have val: "n \<in> fst ` set cs \<Longrightarrow> dict_get res n = Some True \<or> dict_get res n = Some False" for n
    using dom by (metis (full_types) dict_get_None_iff not_Some_eq)
  show "set failed = fst ` set cs - connected (fst st1)"
    unfolding fp conn using val names(2) by auto
  show "distinct failed" using names(1) by (simp add: fp)
  show "connected (fst st1) \<subseteq> fst ` set cs"
    unfolding fp conn using dom by (metis (mono_tags, lifting) dict_get_None_iff mem_Collect_eq option.distinct(1) subsetI)
  show "\<not> cm_shutdown_requested (fst st1)" "conf_retries (snd st1) = conf_retries cs"
    using eff assms(4) by (simp_all add: fp)
qed

text \<open>
  C13: A startup that is not interrupted tries every configured backend at least once and at
  most once more than its configured number of retries, gives a backend up only when these
  attempts are spent, and connects no other backend, whatever the attempts meet and in
  whatever order the tasks of a round run.
\<close>

theorem startup_spends_retry_budget:
  fixes re cb par m cs
  assumes "fair re" "dict_wf cs" "cm_sessions m = []" "cm_attempts m = []" "\<not> cm_shutdown_requested m"
  defines "m' \<equiv> fst (start_all re cb par (m, cs))"
  shows "connected m' \<subseteq> fst ` set cs \<and>
    (\<forall>n \<in> fst ` set cs.
       1 \<le> count_list (cm_attempts m') n \<and>
       count_list (cm_attempts m') n \<le> 1 + nat (conf_retries cs n) \<and>
       (n \<in> connected m' \<or> count_list (cm_attempts m') n = 1 + nat (conf_retries cs n)))"
proof -
  let ?m0 = "m\<lparr>cm_progress_cb := cb\<rparr>"
  obtain st1 failed where fp: "first_pass (re_attempt re 0) (re_order re 0) par (?m0, cs) = (st1, failed)" by fastforce
  note fe = first_pass_effect [OF assms(1,2) _ _ fp, simplified, OF assms(3,5), unfolded assms(4)]
  obtain ns where ns: "cm_attempts (fst st1) = ns" "distinct ns" "set ns = fst ` set cs" using fe(1) by auto
  define mx where "mx = Max (conf_retries cs ` set failed)"
  define st2 where "st2 = (if failed \<noteq> [] then retry_rounds re mx (nat mx) 1 failed st1 else st1)"
  have m': "cm_attempts m' = cm_attempts (fst st2)" "cm_sessions m' = cm_sessions (fst st2)"
    using fe(5) by (simp_all add: m'_def start_all_def fp Let_def st2_def retry_failed_backends_def mx_def fe(6))
  have "spends (\<lambda>n. budget (conf_retries cs n) 1 (nat mx)) (set failed) st1 st2"
    using retry_rounds_spends [OF assms(1) fe(3) _ fe(5), of 1 "nat mx" mx] fe(2,6)
    by (auto simp: st2_def spends_def)
  then obtain tries where tr: "cm_attempts (fst st2) = cm_attempts (fst st1) @ tries" "set tries \<subseteq> set failed"
    "\<forall>n \<in> set failed. count_list tries n \<le> budget (conf_retries cs n) 1 (nat mx) \<and>
       (n \<in> connected (fst st2) \<or> count_list tries n = budget (conf_retries cs n) 1 (nat mx))"
    "connected (fst st1) \<subseteq> connected (fst st2)" "connected (fst st2) \<subseteq> connected (fst st1) \<union> set failed"
    by (rule spendsE)
  have b: "budget (conf_retries cs n) 1 (nat mx) = nat (conf_retries cs n)" if "n \<in> set failed" for n
  proof -
    have "conf_retries cs n \<le> mx" using that by (simp add: mx_def)
    then show ?thesis by (auto simp: budget_def min_def)
  qed
  have cnt: "count_list (cm_attempts m') n = 1 + count_list tries n" if "n \<in> fst ` set cs" for n
    using that ns by (simp add: m' tr(1) count_list_distinct)
  have out: "count_list tries n = 0" if "n \<notin> set failed" for n
    using that tr(2) by (auto simp: count_list_0_iff)
  show ?thesis
  proof (intro conjI ballI)
    show "connected m' \<subseteq> fst ` set cs" unfolding m' using tr(5) fe(2,4) by blast
    fix n assume n: "n \<in> fst ` set cs"
    show "1 \<le> count_list (cm_attempts m') n" by (simp add: cnt [OF n])
    show "count_list (cm_attempts m') n \<le> 1 + nat (conf_retries cs n)"
      unfolding cnt [OF n] using tr(3) b [of n] out [of n] by (cases "n \<in> set failed") auto
    show "n \<in> connected m' \<or> count_list (cm_attempts m') n = 1 + nat (conf_retries cs n)"
      unfolding cnt [OF n] m'(2) using tr(3,4) b [of n] fe(2) n by (cases "n \<in> set failed") auto
  qed
qed

text \<open>One remote backend that accepts the connection at once.\<close>

definition ex_attempt :: attempt where
  "ex_attempt =
     \<lparr>a_auth_done = [], a_signal = False, a_gate = False, a_build1 = Inr (PNone, False), a_build2 = Inr (PNone, False),
      a_container = None, a_provider = None, a_headers = None, a_close = None, a_session = Inr 7, a_init = InitOk,
      a_lock = None, a_t0 = 1, a_t1 = 2\<rparr>"

definition ex_refused :: attempt where
  "ex_refused = ex_attempt\<lparr>a_session := Inl (Exc (ConnectionError ''refused'') 0 [])\<rparr>"

definition ex_remote :: backend_conf where
  "ex_remote = [(''type'', PStr ''streamable-http''), (''url'', PStr ''http://web/mcp''), (''retries'', PInt 1)]"

definition ex_env :: "attempt \<Rightarrow> retry_env" where
  "ex_env a = \<lparr>re_attempt = (\<lambda>k n. a), re_order = (\<lambda>k ns. ns), re_finished = (\<lambda>k n. None), re_now = (\<lambda>k. 0)\<rparr>"

theorem startup_spends_retry_budget_witness:
  "count_list (cm_attempts (fst (start_all (ex_env ex_refused) False False (new_client_manager, [(''web'', ex_remote)])))) ''web'' \<le> 2"
  using startup_spends_retry_budget [of "ex_env ex_refused" "[(''web'', ex_remote)]" new_client_manager False False]
  by (simp add: fair_def ex_env_def uninterrupted_def ex_refused_def ex_attempt_def new_client_manager_def
      conf_retries_def ex_remote_def dict_get_or_def)

section \<open>Backends that are given up\<close>

abbreviation record_of :: "ClientManager \<Rightarrow> string \<Rightarrow> BackendStatusRecord option" where
  "record_of m n \<equiv> dict_get (cm_status_records m) n"

lemma progress_records [simp]: "cm_status_records (progress n ph msg m) = cm_status_records m"
  by (simp add: progress_def)

lemma ensure_records [simp]: "n \<noteq> o1 \<Longrightarrow> record_of (ensure_status_record n m) o1 = record_of m o1"
  by (simp add: ensure_status_record_def split: option.split)

lemma try_transition_records [simp]: "n \<noteq> o1 \<Longrightarrow> record_of (try_transition now ph msg n m) o1 = record_of m o1"
  by (simp add: try_transition_def split: option.split sum.split)

lemma record_connect_failure_records [simp]: "n \<noteq> o1 \<Longrightarrow> record_of (record_connect_failure now n msg m) o1 = record_of m o1"
  by (simp add: record_connect_failure_def)

lemma record_auth_pending_records [simp]: "n \<noteq> o1 \<Longrightarrow> record_of (record_auth_pending_or_failure now n msg m) o1 = record_of m o1"
  by (simp add: record_auth_pending_or_failure_def)

lemma attempt_auth_discovery_records [simp]: "cm_status_records (fst (attempt_auth_discovery n t reason m)) = cm_status_records m"
  by (simp add: attempt_auth_discovery_def)

lemma handle_cancelled_records [simp]: "cm_status_records (fst (handle_cancelled_error n t sd m)) = cm_status_records m"
  by (simp add: handle_cancelled_error_def)

lemma handle_base_exception_records [simp]: "cm_status_records (fst (handle_base_exception n t e status subs sd m)) = cm_status_records m"
  by (simp add: handle_base_exception_def)

lemma connect_failed_records [simp]: "n \<noteq> o1 \<Longrightarrow> record_of (connect_failed a n conf t sd e m) o1 = record_of m o1"
  by (auto simp: connect_failed_def Let_def case_prod_beta split: base_exn.split)

lemma pre_build_records [simp]: "cm_status_records (fst (pre_build_container_image out c n conf m)) = cm_status_records m"
  by (auto simp: pre_build_container_image_def Let_def split: pyval.split sum.split option.split)

lemma store_provider_records [simp]: "cm_status_records (store_provider n p m) = cm_status_records m"
  by (simp add: store_provider_def split: option.split)

lemma announce_records [simp]: "n \<noteq> o1 \<Longrightarrow> record_of (announce_attempt a n t m) o1 = record_of m o1"
  by (simp add: announce_attempt_def Let_def)

lemma build_if_missing_records [simp]: "cm_status_records (fst (build_if_missing a n conf m)) = cm_status_records m"
  by (simp add: build_if_missing_def)

lemma prepare_records [simp]: "cm_status_records (fst (prepare_backend_stack n c m)) = cm_status_records m"
  by (simp add: prepare_backend_stack_def Let_def split: option.split)

lemma open_session_records [simp]: "n \<noteq> o1 \<Longrightarrow> record_of (fst (open_session a n conf t m)) o1 = record_of m o1"
  by (simp add: open_session_def split: sum.split init_outcome.split option.split)

lemma finish_auth_task_records [simp]: "cm_status_records (finish_auth_task t m) = cm_status_records m"
  by (simp add: finish_auth_task_def split: prod.split)

lemma before_attempt_records [simp]: "cm_status_records (before_attempt a m) = cm_status_records m"
proof -
  have "cm_status_records (fold finish_auth_task ts m) = cm_status_records m" for ts
    by (induction ts arbitrary: m) simp_all
  then show ?thesis by (simp add: before_attempt_def cancel_startup_def Let_def)
qed

lemma connect_backend_records [simp]:
  "n \<noteq> o1 \<Longrightarrow> record_of (fst (connect_backend a n conf t m)) o1 = record_of m o1"
  by (auto simp: connect_backend_def Let_def case_prod_beta split: option.split)

text \<open>An attempt for one backend leaves the others alone.\<close>

definition untouched :: "string \<Rightarrow> ClientManager \<Rightarrow> ClientManager \<Rightarrow> bool" where
  "untouched o1 m m' \<longleftrightarrow> record_of m' o1 = record_of m o1 \<and> (o1 \<in> connected m' \<longleftrightarrow> o1 \<in> connected m) \<and>
     count_list (cm_attempts m') o1 = count_list (cm_attempts m) o1"

lemma start_backend_untouched:
  assumes "n \<noteq> o1"
  shows "untouched o1 m (fst (start_backend_svr a n conf m))"
proof -
  obtain m2 conf2 e where b: "build_if_missing a n conf (announce_attempt a n (conf_get conf ''type'') m) = (m2, conf2, e)"
    using prod_cases3 by blast
  then have m2eq: "m2 = fst (build_if_missing a n conf (announce_attempt a n (conf_get conf ''type'') m))" by simp
  have m2: "untouched o1 m m2" using assms by (simp add: untouched_def m2eq)
  obtain m3 e3 where c: "connect_backend a n conf2 (conf_get conf ''type'') m2 = (m3, e3)" by fastforce
  then have "m3 = fst (connect_backend a n conf2 (conf_get conf ''type'') m2)" by simp
  with m2 assms have m3: "untouched o1 m m3" by (simp add: untouched_def connect_backend_effect)
  show ?thesis
    using m2 m3 assms by (auto simp: start_backend_svr_def Let_def b c untouched_def split: option.split base_exn.split)
qed

lemma gated_untouched:
  assumes "n \<noteq> o1"
  shows "untouched o1 (fst st) (fst (fst (gated a n st)))"
    "conf_retries (snd (fst (gated a n st))) o1 = conf_retries (snd st) o1"
proof -
  have "untouched o1 (fst st) (fst (start_backend_svr a n (dict_get_or [] (snd st) n) (before_attempt a (fst st))))"
    using start_backend_untouched [OF assms, of "before_attempt a (fst st)"] by (simp add: untouched_def)
  then show "untouched o1 (fst st) (fst (fst (gated a n st)))"
    by (auto simp: gated_def Let_def start_one_def case_prod_beta untouched_def split: sum.split base_exn.split)
  show "conf_retries (snd (fst (gated a n st))) o1 = conf_retries (snd st) o1"
    using assms by (auto simp: gated_def Let_def start_one_def case_prod_beta conf_retries_def dict_get_or_def split: sum.split base_exn.split)
qed

lemma run_gated_untouched:
  "o1 \<notin> set ns \<Longrightarrow> untouched o1 (fst st) (fst (fst (run_tasks (\<lambda>n. gated (env n) n) ns st))) \<and>
   conf_retries (snd (fst (run_tasks (\<lambda>n. gated (env n) n) ns st))) o1 = conf_retries (snd st) o1"
proof (induction ns arbitrary: st)
  case (Cons n ns)
  then have "n \<noteq> o1" by auto
  from Cons gated_untouched(1) [OF this, of st "env n"] gated_untouched(2) [OF this, of "env n" st] show ?case
    by (simp add: case_prod_beta untouched_def)
qed (simp add: untouched_def)

definition phase_of :: "ClientManager \<Rightarrow> string \<Rightarrow> BackendPhase option" where
  "phase_of m n = map_option phase (record_of m n)"

lemma retrying_phase:
  assumes "phase_of m o1 \<in> {Some FAILED, Some RETRYING}"
  shows "phase_of (try_transition now RETRYING msg n m) o1 = (if n = o1 then Some RETRYING else phase_of m o1)"
proof (cases "n = o1")
  case True
  from assms obtain r where "record_of m o1 = Some r" "phase r = FAILED \<or> phase r = RETRYING"
    by (auto simp: phase_of_def)
  with True show ?thesis
    by (auto simp: phase_of_def try_transition_def transition_def is_valid_backend_transition_def Let_def)
qed (simp add: phase_of_def)

lemma signal_retry_phase_of:
  assumes "phase_of m o1 \<in> {Some FAILED, Some RETRYING}" "o1 \<in> set failed"
  shows "phase_of (signal_retry_phase now failed k mx d m) o1 = Some RETRYING"
proof -
  have "phase_of (fold (\<lambda>n m. progress n ''retrying'' p (try_transition now RETRYING msg n m)) ns m) o1 =
      (if o1 \<in> set ns then Some RETRYING else phase_of m o1)"
    if "phase_of m o1 \<in> {Some FAILED, Some RETRYING}" for m p msg ns
    using that
  proof (induction ns arbitrary: m)
    case (Cons n ns)
    have "phase_of (progress n ''retrying'' p (try_transition now RETRYING msg n m)) o1 =
        (if n = o1 then Some RETRYING else phase_of m o1)"
      using retrying_phase [OF Cons.prems, of now msg n] by (simp add: phase_of_def)
    with Cons show ?case by auto
  qed simp
  with assms show ?thesis by (simp add: signal_retry_phase_def Let_def)
qed

lemma await_records [simp]: "cm_status_records (await_auth_discoveries fin failed m) = cm_status_records m"
proof -
  have f: "(\<And>x m. cm_status_records (f x m) = cm_status_records m) \<Longrightarrow> cm_status_records (fold f xs m) = cm_status_records m"
    for f :: "'x \<Rightarrow> ClientManager \<Rightarrow> ClientManager" and xs m by (induction xs arbitrary: m) simp_all
  show ?thesis
    unfolding await_auth_discoveries_def Let_def
    by (simp add: f split: option.split auth_task.split)
qed

lemma exhausted_rounds:
  assumes "\<forall>k ns. set (re_order re k ns) = set ns"
  shows "phase_of (fst st) o1 \<in> {Some FAILED, Some RETRYING} \<Longrightarrow> o1 \<in> set failed \<Longrightarrow> o1 \<notin> connected (fst st) \<Longrightarrow>
    conf_retries (snd st) o1 < int k \<Longrightarrow>
    (let m' = fst (retry_rounds re mx left k failed st) in
      phase_of m' o1 = (if left = 0 \<or> cm_shutdown_requested (fst st) then phase_of (fst st) o1 else Some RETRYING) \<and>
      o1 \<notin> connected m' \<and> count_list (cm_attempts m') o1 = count_list (cm_attempts (fst st)) o1)"
proof (induction left arbitrary: k failed st)
  case (Suc left)
  show ?case
  proof (cases "cm_shutdown_requested (fst st)")
    case False
    define m2 where "m2 = await_auth_discoveries (re_finished re k) failed
        (signal_retry_phase (re_now re k) failed k mx (retry_delay (snd st) failed k) (fst st))"
    define st1 where "st1 = launch_retry_tasks (re_attempt re k) (re_order re k) failed k (m2, snd st)"
    define failed' where "failed' = filter (\<lambda>n. dict_get (cm_sessions (fst st1)) n = None) failed"
    have eq: "retry_rounds re mx (Suc left) k failed st = retry_rounds re mx left (Suc k) failed' st1"
    proof -
      from False Suc.prems(2) have "(failed = [] \<or> cm_shutdown_requested (fst st)) = False" by auto
      then show ?thesis by (simp only: retry_rounds.simps Let_def if_False m2_def st1_def failed'_def)
    qed
    have m2: "phase_of m2 o1 = Some RETRYING" "cm_sessions m2 = cm_sessions (fst st)" "cm_attempts m2 = cm_attempts (fst st)"
      using signal_retry_phase_of [OF Suc.prems(1,2)] by (simp_all add: m2_def phase_of_def)
    have "o1 \<notin> set (re_order re k (filter (\<lambda>n. int k \<le> conf_retries (snd st) n) failed))"
      using assms Suc.prems(4) by simp
    from run_gated_untouched [OF this, of "(m2, snd st)" "re_attempt re k"]
    have st1: "untouched o1 m2 (fst st1)" "conf_retries (snd st1) o1 = conf_retries (snd st) o1"
      by (simp_all add: st1_def launch_retry_tasks_def Let_def)
    then have st1': "phase_of (fst st1) o1 = Some RETRYING" "o1 \<notin> connected (fst st1)"
      "count_list (cm_attempts (fst st1)) o1 = count_list (cm_attempts (fst st)) o1"
      using m2 Suc.prems(3) by (simp_all add: untouched_def phase_of_def)
    then have "o1 \<in> set failed'" using Suc.prems(2) by (simp add: failed'_def dict_get_None_iff)
    from Suc.IH [OF _ this st1'(2), of "Suc k"] st1 st1' Suc.prems(4) False
    show ?thesis unfolding eq by (simp add: Let_def)
  qed (use Suc.prems in simp)
qed simp

text \<open>
  A failed backend whose retries are used up while another still has some is put into the
  phase RETRYING by every further round, is never tried again, and stays in that phase when
  the startup is over: its status says that a retry is coming, and it is not FAILED.
\<close>

theorem exhausted_backend_left_retrying:
  assumes "\<forall>k ns. set (re_order re k ns) = set ns"
    and "phase_of m n = Some FAILED" "n \<in> set failed" "dict_get (cm_sessions m) n = None"
    and "conf_retries cs n < int k" "0 < left" "\<not> cm_shutdown_requested m"
  shows "phase_of (fst (retry_rounds re mx left k failed (m, cs))) n = Some RETRYING \<and>
    dict_get (cm_sessions (fst (retry_rounds re mx left k failed (m, cs)))) n = None \<and>
    count_list (cm_attempts (fst (retry_rounds re mx left k failed (m, cs)))) n = count_list (cm_attempts m) n"
  using exhausted_rounds [OF assms(1), of "(m, cs)" n failed k mx left] assms(2-)
  by (simp add: Let_def dict_get_None_iff)

text \<open>Two refused backends, \<open>git\<close> without retries and \<open>web\<close> with one, after the first pass.\<close>

definition ex_given_up :: "startup \<times> string list" where
  "ex_given_up = first_pass (re_attempt (ex_env ex_refused) 0) (re_order (ex_env ex_refused) 0) False
     (new_client_manager, [(''git'', dict_set ''retries'' (PInt 0) ex_remote), (''web'', ex_remote)])"

lemmas ex_startup_defs = ex_env_def ex_refused_def ex_attempt_def ex_remote_def new_client_manager_def

lemma ex_given_up_facts:
  "phase_of (fst (fst ex_given_up)) ''git'' = Some FAILED" "snd ex_given_up = [''git'', ''web'']"
  "dict_get (cm_sessions (fst (fst ex_given_up))) ''git'' = None"
  "conf_retries (snd (fst ex_given_up)) ''git'' = 0" "\<not> cm_shutdown_requested (fst (fst ex_given_up))"
  by code_simp+

theorem exhausted_backend_left_retrying_witness:
  "phase_of (fst (retry_rounds (ex_env ex_refused) 1 1 1 [''git'', ''web''] (fst ex_given_up))) ''git'' = Some RETRYING"
  using exhausted_backend_left_retrying [of "ex_env ex_refused" "fst (fst ex_given_up)" "''git''" "[''git'', ''web'']"
      "snd (fst ex_given_up)" 1 1 1] ex_given_up_facts
  by (simp add: ex_env_def)

end
