(* ===== verification/Server_Groups.thy ===== *)
theory Server_Groups
  imports Argus_Prelude "HOL-Library.Char_ord" "HOL-Library.List_Lexorder"
begin

text \<open>
  \<open>bridge/groups.py\<close>: the manager of server groups, two indexes of one relation (server to
  group, group to servers). The locale \<open>server_index\<close> is what its clients rely on: a map from
  servers to groups and its inverse image.
\<close>

section \<open>Definitions\<close>

definition DEFAULT_GROUP :: string where "DEFAULT_GROUP = ''default''"

record GroupManager =
  server_group :: "(string, string) dict"
  group_servers :: "(string, string set) dict"

text \<open>\<open>self._group_servers[g].add(s)\<close> on a \<open>defaultdict(set)\<close>.\<close>

definition group_add :: "string \<Rightarrow> string \<Rightarrow> (string, string set) dict \<Rightarrow> (string, string set) dict" where
  "group_add g s d = dict_set g (insert s (dict_get_or {} d g)) d"

text \<open>\<open>discard\<close>, then \<open>del\<close> when the group is empty.\<close>

definition group_discard :: "string \<Rightarrow> string \<Rightarrow> (string, string set) dict \<Rightarrow> (string, string set) dict" where
  "group_discard g s d =
     (let members = dict_get_or {} d g - {s}
      in if members = {} then dict_del g (dict_set g members d) else dict_set g members d)"

definition enter_server :: "string \<Rightarrow> string \<Rightarrow> GroupManager \<Rightarrow> GroupManager" where
  "enter_server s g m =
     m\<lparr>server_group := dict_set s g (server_group m), group_servers := group_add g s (group_servers m)\<rparr>"

text \<open>The constructor: a backend whose group is absent or empty is in the default group.\<close>

definition new_group_manager :: "(string, string option) dict \<Rightarrow> GroupManager" where
  "new_group_manager backends =
     fold (\<lambda>(name, grp) m.
             enter_server name (case grp of None \<Rightarrow> DEFAULT_GROUP | Some g \<Rightarrow> if g = [] then DEFAULT_GROUP else g) m)
       backends \<lparr>server_group = [], group_servers = []\<rparr>"

definition groups :: "GroupManager \<Rightarrow> string list" where
  "groups m = sort (dict_keys (group_servers m))"

definition group_count :: "GroupManager \<Rightarrow> nat" where
  "group_count m = length (group_servers m)"

definition group_of :: "GroupManager \<Rightarrow> string \<Rightarrow> string" where
  "group_of m s = dict_get_or DEFAULT_GROUP (server_group m) s"

definition servers_in :: "GroupManager \<Rightarrow> string \<Rightarrow> string set" where
  "servers_in m g = dict_get_or {} (group_servers m) g"

definition all_servers :: "GroupManager \<Rightarrow> string set" where
  "all_servers m = set (dict_keys (server_group m))"

definition group_summary :: "GroupManager \<Rightarrow> (string, string list) dict" where
  "group_summary m = map (\<lambda>g. (g, sorted_list_of_set (servers_in m g))) (groups m)"

definition add_server :: "string \<Rightarrow> string \<Rightarrow> GroupManager \<Rightarrow> GroupManager" where
  "add_server s g m =
     (case dict_get (server_group m) s of
        Some old \<Rightarrow>
          (if old \<noteq> g then enter_server s g (m\<lparr>group_servers := group_discard old s (group_servers m)\<rparr>)
           else enter_server s g m)
      | None \<Rightarrow> enter_server s g m)"

definition remove_server :: "string \<Rightarrow> GroupManager \<Rightarrow> GroupManager" where
  "remove_server s m =
     (case dict_get (server_group m) s of
        None \<Rightarrow> m
      | Some g \<Rightarrow> m\<lparr>server_group := dict_del s (server_group m),
                   group_servers := group_discard g s (group_servers m)\<rparr>)"

definition groups_to_dict :: "GroupManager \<Rightarrow> (string, string list \<times> nat) dict \<times> nat \<times> nat" where
  "groups_to_dict m =
     (map (\<lambda>g. (g, sorted_list_of_set (servers_in m g), card (servers_in m g))) (groups m),
      group_count m, length (server_group m))"

section \<open>The two indexes agree\<close>

definition groups_ok :: "GroupManager \<Rightarrow> bool" where
  "groups_ok m \<longleftrightarrow> dict_wf (server_group m) \<and> dict_wf (group_servers m) \<and>
     (\<forall>s g. dict_get (server_group m) s = Some g \<longleftrightarrow> s \<in> servers_in m g) \<and>
     (\<forall>g members. dict_get (group_servers m) g = Some members \<longrightarrow> members \<noteq> {})"

lemma groups_ok_members: "groups_ok m \<Longrightarrow> s \<in> servers_in m g \<longleftrightarrow> dict_get (server_group m) s = Some g"
  unfolding groups_ok_def by blast

lemma group_add_simps [simp]:
  "dict_get_or {} (group_add g s d) g' = (if g' = g then insert s (dict_get_or {} d g) else dict_get_or {} d g')"
  "dict_wf d \<Longrightarrow> dict_wf (group_add g s d)"
  by (simp_all add: group_add_def dict_get_or_def)

lemma group_discard_simps [simp]:
  "dict_get_or {} (group_discard g s d) g' = dict_get_or {} d g' - (if g' = g then {s} else {})"
  "dict_wf d \<Longrightarrow> dict_wf (group_discard g s d)"
  by (auto simp: group_discard_def dict_get_or_def Let_def)

lemma group_add_nonempty:
  "(\<And>g' m. dict_get d g' = Some m \<Longrightarrow> m \<noteq> {}) \<Longrightarrow> dict_get (group_add g s d) g' = Some m \<Longrightarrow> m \<noteq> {}"
  by (auto simp: group_add_def split: if_splits)

lemma group_discard_nonempty:
  "(\<And>g' m. dict_get d g' = Some m \<Longrightarrow> m \<noteq> {}) \<Longrightarrow> dict_get (group_discard g s d) g' = Some m \<Longrightarrow> m \<noteq> {}"
  by (auto simp: group_discard_def Let_def split: if_splits)

lemma groups_ok_enter [inv_intros]:
  assumes "groups_ok m" "\<And>g'. dict_get (server_group m) s = Some g' \<Longrightarrow> g' = g"
  shows "groups_ok (enter_server s g m)"
  unfolding groups_ok_def
proof (intro conjI allI impI)
  fix s' g'
  show "dict_get (server_group (enter_server s g m)) s' = Some g' \<longleftrightarrow> s' \<in> servers_in (enter_server s g m) g'"
    using assms by (auto simp: groups_ok_def enter_server_def servers_in_def)
next
  fix g' members assume "dict_get (group_servers (enter_server s g m)) g' = Some members"
  with assms(1) show "members \<noteq> {}"
    by (simp add: groups_ok_def enter_server_def del: map_of_eq_Some_iff) (metis group_add_nonempty)
qed (use assms(1) in \<open>simp_all add: groups_ok_def enter_server_def\<close>)

lemma groups_ok_discard:
  assumes "groups_ok m" "dict_get (server_group m) s = Some g"
  shows "groups_ok (m\<lparr>server_group := dict_del s (server_group m),
                     group_servers := group_discard g s (group_servers m)\<rparr>)"
  unfolding groups_ok_def
proof (intro conjI allI impI)
  let ?m = "m\<lparr>server_group := dict_del s (server_group m), group_servers := group_discard g s (group_servers m)\<rparr>"
  fix s' g'
  have "s \<in> dict_get_or {} (group_servers m) g'' \<longleftrightarrow> g'' = g" for g''
    using groups_ok_members [OF assms(1), of s g''] assms(2) unfolding servers_in_def by auto
  then show "dict_get (server_group ?m) s' = Some g' \<longleftrightarrow> s' \<in> servers_in ?m g'"
    using assms by (auto simp: groups_ok_def servers_in_def simp del: map_of_eq_Some_iff)
  fix members assume "dict_get (group_servers ?m) g' = Some members"
  with assms(1) show "members \<noteq> {}"
    by (simp add: groups_ok_def del: map_of_eq_Some_iff) (metis group_discard_nonempty)
qed (use assms(1) in \<open>simp_all add: groups_ok_def\<close>)

lemma groups_ok_empty: "groups_ok \<lparr>server_group = [], group_servers = []\<rparr>"
  by (simp add: groups_ok_def servers_in_def dict_get_or_def)

lemma groups_ok_remove [inv_intros]: "groups_ok m \<Longrightarrow> groups_ok (remove_server s m)"
  by (auto simp: remove_server_def groups_ok_discard split: option.split)

text \<open>Moving a server is removing it and entering it again.\<close>

lemma add_server_via_remove:
  "groups_ok m \<Longrightarrow> dict_get (server_group m) s = Some old \<Longrightarrow> old \<noteq> g \<Longrightarrow>
   dict_get (server_group (add_server s g m)) = dict_get (server_group (enter_server s g (remove_server s m))) \<and>
   group_servers (add_server s g m) = group_servers (enter_server s g (remove_server s m))"
  by (auto simp: add_server_def remove_server_def enter_server_def)

lemma groups_ok_cong:
  "groups_ok m \<Longrightarrow> dict_get (server_group m') = dict_get (server_group m) \<Longrightarrow>
   group_servers m' = group_servers m \<Longrightarrow> dict_wf (server_group m') \<Longrightarrow> groups_ok m'"
  by (simp add: groups_ok_def servers_in_def)

lemma groups_ok_add [inv_intros]:
  assumes "groups_ok m"
  shows "groups_ok (add_server s g m)"
proof (cases "\<exists>old. dict_get (server_group m) s = Some old \<and> old \<noteq> g")
  case True
  then obtain old where old: "dict_get (server_group m) s = Some old" "old \<noteq> g" by blast
  have "dict_get (server_group (remove_server s m)) s = None"
    using old by (simp add: remove_server_def)
  then have "groups_ok (enter_server s g (remove_server s m))"
    using assms by (intro groups_ok_enter groups_ok_remove) simp_all
  moreover have "dict_wf (server_group (add_server s g m))"
    using assms by (auto simp: add_server_def enter_server_def groups_ok_def split: option.split)
  ultimately show ?thesis
    using add_server_via_remove [OF assms old] by (rule_tac groups_ok_cong) simp_all
next
  case False
  with assms show ?thesis
    by (auto simp: add_server_def split: option.split intro: groups_ok_enter)
qed

section \<open>The abstract index\<close>

locale server_index =
  fixes ok :: "'m \<Rightarrow> bool"
    and look :: "'m \<Rightarrow> 's \<Rightarrow> 'g option"
    and members :: "'m \<Rightarrow> 'g \<Rightarrow> 's set"
    and put :: "'s \<Rightarrow> 'g \<Rightarrow> 'm \<Rightarrow> 'm"
    and drop_server :: "'s \<Rightarrow> 'm \<Rightarrow> 'm"
  assumes members_look: "ok m \<Longrightarrow> s \<in> members m g \<longleftrightarrow> look m s = Some g"
    and put_ok: "ok m \<Longrightarrow> ok (put s g m)"
    and drop_ok: "ok m \<Longrightarrow> ok (drop_server s m)"
    and look_put: "look (put s g m) = (look m)(s \<mapsto> g)"
    and look_drop: "look (drop_server s m) = (look m)(s := None)"
begin

definition step :: "'s \<times> 'g option \<Rightarrow> 'm \<Rightarrow> 'm" where
  "step op m = (case op of (s, None) \<Rightarrow> drop_server s m | (s, Some g) \<Rightarrow> put s g m)"

lemma step_ok: "ok m \<Longrightarrow> ok (step op m)"
  by (auto simp: step_def put_ok drop_ok split: prod.split option.split)

lemma look_step: "look (step op m) = (look m)(fst op := snd op)"
  by (auto simp: step_def look_put look_drop split: prod.split option.split)

lemma run_ok: "ok m \<Longrightarrow> ok (fold step ops m)"
  by (induction ops arbitrary: m) (simp_all add: step_ok)

lemma look_run: "look (fold step ops m) = fold (\<lambda>op f. f(fst op := snd op)) ops (look m)"
  by (induction ops arbitrary: m) (simp_all add: look_step)

lemma members_run:
  "ok m \<Longrightarrow> members (fold step ops m) g = {s. fold (\<lambda>op f. f(fst op := snd op)) ops (look m) s = Some g}"
  by (auto simp: members_look run_ok look_run)

end

interpretation gm: server_index groups_ok "\<lambda>m. dict_get (server_group m)" servers_in add_server remove_server
proof
  show "groups_ok m \<Longrightarrow> s \<in> servers_in m g \<longleftrightarrow> dict_get (server_group m) s = Some g" for m s g
    by (simp add: groups_ok_def)
  show "dict_get (server_group (add_server s g m)) = (dict_get (server_group m))(s \<mapsto> g)" for s g m
    by (auto simp: add_server_def enter_server_def fun_eq_iff split: option.split)
  show "dict_get (server_group (remove_server s m)) = (dict_get (server_group m))(s := None)" for s m
    by (auto simp: remove_server_def fun_eq_iff split: option.split)
qed (rule groups_ok_add groups_ok_remove; assumption)+

text \<open>One call of the manager: \<open>Some g\<close> adds the server to a group, \<open>None\<close> removes it.\<close>

fun group_call :: "string \<times> string option \<Rightarrow> GroupManager \<Rightarrow> GroupManager" where
  "group_call (s, Some g) m = add_server s g m"
| "group_call (s, None) m = remove_server s m"

lemma gm_step: "gm.step = group_call"
proof (intro ext)
  show "gm.step op m = group_call op m" for op m
    by (cases op; cases "snd op") (auto simp: gm.step_def)
qed

lemma new_group_manager_ok:
  assumes "dict_wf backends"
  shows "groups_ok (new_group_manager backends)"
proof -
  have "groups_ok (fold (\<lambda>(name, grp) m. enter_server name (f grp) m) bs m)"
    if "groups_ok m" "dict_wf bs" "\<And>n. n \<in> fst ` set bs \<Longrightarrow> dict_get (server_group m) n = None"
    for bs m and f :: "string option \<Rightarrow> string"
    using that
  proof (induction bs arbitrary: m)
    case (Cons p bs)
    have "groups_ok (enter_server (fst p) (f (snd p)) m)"
      using Cons.prems by (intro groups_ok_enter) simp_all
    moreover have "dict_get (server_group (enter_server (fst p) (f (snd p)) m)) n = None"
      if "n \<in> fst ` set bs" for n
    proof -
      from that Cons.prems(2) have "n \<noteq> fst p" by (metis distinct.simps(2) list.set_map list.simps(9))
      with that Cons.prems(3) show ?thesis by (simp add: enter_server_def)
    qed
    ultimately show ?case
      using Cons.IH Cons.prems(2) by (simp add: case_prod_beta)
  qed simp
  with assms show ?thesis
    by (simp add: new_group_manager_def groups_ok_empty)
qed

text \<open>
  C17: However servers are added, moved and removed, the members of a group are exactly the
  servers last added to it and not removed since, and the listed groups are exactly those
  with a member.
\<close>

theorem groups_follow_last_assignment:
  fixes backends calls
  assumes "dict_wf backends"
  defines "m0 \<equiv> new_group_manager backends"
  defines "m \<equiv> fold group_call calls m0"
  defines "final \<equiv> fold (\<lambda>op f. f(fst op := snd op)) calls (dict_get (server_group m0))"
  shows "(\<forall>g. servers_in m g = {s. final s = Some g}) \<and> set (groups m) = ran final \<and> all_servers m = dom final"
proof (intro conjI allI)
  have ok: "groups_ok m0" using assms(1) by (simp add: m0_def new_group_manager_ok)
  show mem: "servers_in m g = {s. final s = Some g}" for g
    unfolding m_def final_def by (rule gm.members_run [OF ok, unfolded gm_step])
  have okm: "groups_ok m" unfolding m_def by (rule gm.run_ok [OF ok, unfolded gm_step])
  have "g \<in> set (groups m) \<longleftrightarrow> servers_in m g \<noteq> {}" for g
  proof (cases "dict_get (group_servers m) g")
    case None
    then show ?thesis by (simp add: groups_def servers_in_def dict_get_or_def dict_get_None_iff [symmetric])
  next
    case (Some ms)
    moreover from Some okm have "ms \<noteq> {}" unfolding groups_ok_def by blast
    ultimately show ?thesis
      by (simp add: groups_def servers_in_def dict_get_or_def dict_dom [symmetric] domI)
  qed
  with mem show "set (groups m) = ran final" by (auto simp: ran_def)
  have "dict_get (server_group m) = final"
    unfolding m_def final_def by (rule gm.look_run [unfolded gm_step])
  then show "all_servers m = dom final" by (auto simp: all_servers_def dict_dom [symmetric])
qed

theorem groups_follow_last_assignment_witness:
  "servers_in (fold group_call [(''git'', Some ''ops''), (''web'', None)]
     (new_group_manager [(''git'', None), (''web'', Some ''dev'')])) ''ops'' = {''git''}"
proof -
  let ?f = "fold (\<lambda>op f. f(fst op := snd op)) [(''git'', Some ''ops''), (''web'', None)]
      (dict_get (server_group (new_group_manager [(''git'', None), (''web'', Some ''dev'')])))"
  have "servers_in (fold group_call [(''git'', Some ''ops''), (''web'', None)]
     (new_group_manager [(''git'', None), (''web'', Some ''dev'')])) ''ops'' = {s. ?f s = Some ''ops''}"
    using groups_follow_last_assignment [of "[(''git'', None), (''web'', Some ''dev'')]"
      "[(''git'', Some ''ops''), (''web'', None)]"] by simp
  also have "\<dots> = {''git''}"
    by (auto simp: new_group_manager_def enter_server_def DEFAULT_GROUP_def split: if_splits)
  finally show ?thesis .
qed

end
