(* ===== verification/Event_Log.thy ===== *)
theory Event_Log
  imports Argus_Prelude "HOL-Library.Char_ord" "HOL-Library.List_Lexorder" "HOL-Library.Sublist"
begin

text \<open>
  The event system of \<open>runtime/service.py\<close>: a buffer of the latest events and bounded queues of
  subscribers that lose events when they are slow. The identifier and the time stamp of the
  \<open>n\<close>-th event are given by \<open>el_stamp\<close>. Queues are numbered in the order they are made.
\<close>

section \<open>Definitions\<close>

record event =
  ev_id :: string
  ev_timestamp :: string
  ev_stage :: string
  ev_message :: string
  ev_severity :: string
  ev_backend :: "string option"
  ev_details :: pyval

record event_log =
  el_events :: "event list"
  el_subscribers :: "(nat, event list) dict"
  el_next_queue :: nat
  el_stamp :: "nat \<Rightarrow> string \<times> string"
  el_emitted :: nat

definition new_event_log :: "(nat \<Rightarrow> string \<times> string) \<Rightarrow> event_log" where
  "new_event_log stamp = \<lparr>el_events = [], el_subscribers = [], el_next_queue = 0, el_stamp = stamp, el_emitted = 0\<rparr>"

text \<open>The last \<open>n\<close> elements: what \<open>deque(maxlen=n)\<close> keeps and \<open>xs[-n:]\<close> gives for positive \<open>n\<close>.\<close>

definition last_n :: "nat \<Rightarrow> 'a list \<Rightarrow> 'a list" where
  "last_n n xs = drop (length xs - n) xs"

definition put_nowait :: "nat \<Rightarrow> event \<Rightarrow> event list \<Rightarrow> event list" where
  "put_nowait maxsize e q = (if length q < maxsize then q @ [e] else q)"

definition emit_event ::
    "string \<Rightarrow> string \<Rightarrow> string \<Rightarrow> string option \<Rightarrow> pyval \<Rightarrow> event_log \<Rightarrow> event_log" where
  "emit_event stage message severity backend details l =
     (let (i, t) = el_stamp l (el_emitted l);
          e = \<lparr>ev_id = i, ev_timestamp = t, ev_stage = stage, ev_message = message, ev_severity = severity,
               ev_backend = backend, ev_details = details\<rparr>
      in l\<lparr>el_events := last_n 500 (el_events l @ [e]),
           el_subscribers := map (\<lambda>(k, q). (k, put_nowait 256 e q)) (el_subscribers l),
           el_emitted := Suc (el_emitted l)\<rparr>)"

definition get_events :: "int \<Rightarrow> string option \<Rightarrow> string option \<Rightarrow> event_log \<Rightarrow> event list" where
  "get_events limit since severity l =
     (let r1 = (case since of
                  Some s \<Rightarrow> (if s \<noteq> [] then filter (\<lambda>e. s < ev_timestamp e) (el_events l) else el_events l)
                | None \<Rightarrow> el_events l);
          r2 = (case severity of
                  Some s \<Rightarrow> (if s \<noteq> [] then filter (\<lambda>e. ev_severity e = s) r1 else r1)
                | None \<Rightarrow> r1)
      in if limit = 0 then r2 else if 0 < limit then last_n (nat limit) r2 else drop (nat (- limit)) r2)"

definition subscribe :: "event_log \<Rightarrow> nat \<times> event_log" where
  "subscribe l = (el_next_queue l,
     l\<lparr>el_subscribers := el_subscribers l @ [(el_next_queue l, [])], el_next_queue := Suc (el_next_queue l)\<rparr>)"

definition unsubscribe :: "nat \<Rightarrow> event_log \<Rightarrow> event_log" where
  "unsubscribe k l = l\<lparr>el_subscribers := dict_del k (el_subscribers l)\<rparr>"

text \<open>A consumer takes the oldest event of its queue.\<close>

definition take_event :: "nat \<Rightarrow> event_log \<Rightarrow> event option \<times> event_log" where
  "take_event k l =
     (case dict_get (el_subscribers l) k of
        Some (e # q) \<Rightarrow> (Some e, l\<lparr>el_subscribers := dict_set k q (el_subscribers l)\<rparr>)
      | _ \<Rightarrow> (None, l))"

section \<open>What the buffer and the queues hold\<close>

lemma length_last_n [simp]: "length (last_n n xs) = min n (length xs)"
  by (simp add: last_n_def)

lemma last_n_last_n: "last_n n (last_n n xs @ [x]) = last_n n (xs @ [x])"
  by (cases "length xs < n") (auto simp: last_n_def Suc_diff_le not_less)

lemma set_dict_set: "set (dict_set k v d) \<subseteq> insert (k, v) (set d)"
  by (induction d) auto

datatype log_op = Emit string string string "string option" pyval | Subscribe | Unsubscribe nat | Take nat

fun log_step :: "log_op \<Rightarrow> event_log \<Rightarrow> event_log" where
  "log_step (Emit st msg sev b d) l = emit_event st msg sev b d l"
| "log_step Subscribe l = snd (subscribe l)"
| "log_step (Unsubscribe k) l = unsubscribe k l"
| "log_step (Take k) l = snd (take_event k l)"

text \<open>The events a history emits, numbered from \<open>n\<close> on.\<close>

fun emitted :: "(nat \<Rightarrow> string \<times> string) \<Rightarrow> nat \<Rightarrow> log_op list \<Rightarrow> event list" where
  "emitted stamp n [] = []"
| "emitted stamp n (Emit st msg sev b d # ops) =
     \<lparr>ev_id = fst (stamp n), ev_timestamp = snd (stamp n), ev_stage = st, ev_message = msg, ev_severity = sev,
      ev_backend = b, ev_details = d\<rparr> # emitted stamp (Suc n) ops"
| "emitted stamp n (op # ops) = emitted stamp n ops"

lemma log_step_frame:
  "el_stamp (log_step op l) = el_stamp l"
  by (cases op) (auto simp: emit_event_def subscribe_def unsubscribe_def take_event_def Let_def
      split: prod.split option.split list.split)

definition log_ok :: "event list \<Rightarrow> event_log \<Rightarrow> bool" where
  "log_ok es l \<longleftrightarrow> el_events l = last_n 500 es \<and> length es = el_emitted l \<and>
     (\<forall>(k, q) \<in> set (el_subscribers l). length q \<le> 256 \<and> subseq q es)"

lemma log_ok_step:
  assumes "log_ok es l"
  shows "log_ok (es @ emitted (el_stamp l) (el_emitted l) [op]) (log_step op l)"
proof (cases op)
  case (Emit st msg sev b d)
  have put: "length (put_nowait 256 e q) \<le> 256 \<and> subseq (put_nowait 256 e q) (es @ [e])"
    if "length q \<le> 256" "subseq q es" for e q
    using that by (auto simp: put_nowait_def list_emb_append_mono intro: list_emb_prefix)
  with assms Emit show ?thesis
    by (auto simp: log_ok_def emit_event_def Let_def case_prod_beta last_n_last_n)
next
  case (Take k)
  with assms show ?thesis
  proof (cases "dict_get (el_subscribers l) k")
    case (Some q)
    then have kq: "(k, q) \<in> set (el_subscribers l)" by (rule map_of_SomeD)
    show ?thesis
    proof (cases q)
      case (Cons e q')
      have "length q' \<le> 256 \<and> subseq q' es"
        using assms kq Cons by (auto simp: log_ok_def dest!: bspec intro: subseq_Cons')
      then show ?thesis
        using assms Take Some Cons
        by (auto simp: log_ok_def take_event_def dest: subsetD [OF set_dict_set])
    qed (use assms Take Some in \<open>simp add: log_ok_def take_event_def\<close>)
  qed (simp add: log_ok_def take_event_def)
qed (use assms in \<open>auto simp: log_ok_def subscribe_def unsubscribe_def AList.delete_eq\<close>)

text \<open>
  Whatever is emitted, subscribed, unsubscribed and consumed, the event buffer is exactly
  the last 500 events emitted, in order, and every subscriber's queue holds at most 256
  events, all of them emitted ones in the order of emission.
\<close>

theorem event_buffer_keeps_latest:
  fixes stamp ops
  defines "l \<equiv> fold log_step ops (new_event_log stamp)"
  shows "el_events l = last_n 500 (emitted stamp 0 ops) \<and>
    (\<forall>k q. dict_get (el_subscribers l) k = Some q \<longrightarrow> length q \<le> 256 \<and> subseq q (emitted stamp 0 ops))"
proof -
  have emitted_append: "emitted stamp n (op # ops) =
      emitted stamp n [op] @ emitted stamp (n + length (emitted stamp n [op])) ops" for n op ops
    by (cases op) simp_all
  have "log_ok (es @ emitted stamp (el_emitted l0) ops) (fold log_step ops l0)"
    if "log_ok es l0" "el_stamp l0 = stamp" for es l0
    using that
  proof (induction ops arbitrary: es l0)
    case (Cons op ops)
    have ok: "log_ok (es @ emitted stamp (el_emitted l0) [op]) (log_step op l0)"
      using log_ok_step [OF Cons.prems(1)] Cons.prems(2) by simp
    moreover have "el_emitted (log_step op l0) = el_emitted l0 + length (emitted stamp (el_emitted l0) [op])"
      using ok Cons.prems(1) by (simp add: log_ok_def)
    moreover have "el_stamp (log_step op l0) = stamp" using Cons.prems(2) by (simp add: log_step_frame)
    ultimately have "log_ok ((es @ emitted stamp (el_emitted l0) [op]) @
        emitted stamp (el_emitted l0 + length (emitted stamp (el_emitted l0) [op])) ops) (fold log_step ops (log_step op l0))"
      using Cons.IH [of _ "log_step op l0"] by metis
    then show ?case
      by (simp only: emitted_append [of "el_emitted l0" op ops] fold_simps append_assoc)
  qed simp
  from this [of "[]" "new_event_log stamp"] have "log_ok (emitted stamp 0 ops) l"
    by (simp add: l_def log_ok_def new_event_log_def last_n_def)
  then show ?thesis by (auto simp: log_ok_def dest: map_of_SomeD)
qed

theorem event_buffer_keeps_latest_witness:
  "length (el_events (fold log_step [Emit ''status'' ''a'' ''info'' None PNone, Subscribe, Emit ''status'' ''b'' ''info'' None PNone]
     (new_event_log (\<lambda>n. (show_nat n, show_nat n))))) = 2"
  using event_buffer_keeps_latest [of "[Emit ''status'' ''a'' ''info'' None PNone, Subscribe, Emit ''status'' ''b'' ''info'' None PNone]"
      "\<lambda>n. (show_nat n, show_nat n)"]
  by simp

end
