(* ===== verification/Argus_Service.thy ===== *)
theory Argus_Service
  imports Client_Manager Server_Groups Event_Log Capability_Registry
begin

text \<open>
  \<open>runtime/service.py\<close>: the service that owns the client manager and the capability registry,
  its state machine, start, stop, reload, reconnect and shutdown.

  Registries are objects: the middleware, the MCP server and the health checker keep the one
  they were given, so the registries the service made are a list and \<open>sv_registry\<close> is the position
  of the current one. What loading the configuration, connecting, discovering and closing
  gives is an argument of each operation. Reload and reconnect hold a lock, so each is one
  step. Characters outside Latin-1 in messages are written in ASCII.
\<close>

section \<open>Configuration model\<close>

record cap_rules =
  cr_allow :: "string list"
  cr_deny :: "string list"

record backend_model =
  bm_tools :: cap_rules
  bm_resources :: cap_rules
  bm_prompts :: cap_rules
  bm_overrides :: "(string, override) dict"
  bm_group :: "string option"

record ArgusConfig =
  ac_strategy :: string
  ac_separator :: string
  ac_order :: "string list"
  ac_backends :: "(string, backend_model) dict"
  ac_refresh_enabled :: bool
  ac_reconnect_timeout :: "string option"

section \<open>State\<close>

record ArgusService =
  sv_state :: ServiceState
  sv_started_at :: "rat option"
  sv_error_message :: "string option"
  sv_config_path :: "string option"
  sv_config_data :: "confs option"
  sv_full_config :: "ArgusConfig option"
  sv_parallel :: bool
  sv_manager :: ClientManager
  sv_registries :: "registry list"
  sv_registry :: nat
  sv_health_checker :: "nat option"
  sv_group_manager :: "GroupManager option"
  sv_config_watcher :: bool
  sv_ready_event :: bool
  sv_tools :: "cap list"
  sv_resources :: "cap list"
  sv_prompts :: "cap list"
  sv_backends_total :: nat
  sv_backends_connected :: nat
  sv_log :: event_log

definition new_service :: "(nat \<Rightarrow> string \<times> string) \<Rightarrow> ArgusService" where
  "new_service stamp =
     \<lparr>sv_state = SvcPENDING, sv_started_at = None, sv_error_message = None, sv_config_path = None,
      sv_config_data = None, sv_full_config = None, sv_parallel = False, sv_manager = new_client_manager,
      sv_registries = [init_registry None None None], sv_registry = 0, sv_health_checker = None,
      sv_group_manager = None, sv_config_watcher = False, sv_ready_event = False, sv_tools = [],
      sv_resources = [], sv_prompts = [], sv_backends_total = 0, sv_backends_connected = 0,
      sv_log = new_event_log stamp\<rparr>"

fun state_value :: "ServiceState \<Rightarrow> string" where
  "state_value SvcPENDING = ''pending''"
| "state_value SvcSTARTING = ''starting''"
| "state_value SvcRUNNING = ''running''"
| "state_value SvcSTOPPING = ''stopping''"
| "state_value SvcSTOPPED = ''stopped''"
| "state_value SvcERROR = ''error''"

definition emit :: "string \<Rightarrow> string \<Rightarrow> string \<Rightarrow> string option \<Rightarrow> ArgusService \<Rightarrow> ArgusService" where
  "emit stage message severity backend s = s\<lparr>sv_log := emit_event stage message severity backend PNone (sv_log s)\<rparr>"

definition current_registry :: "ArgusService \<Rightarrow> registry" where
  "current_registry s = sv_registries s ! sv_registry s"

text \<open>\<open>self._registry = registry\<close> for a new object.\<close>

definition install_registry :: "registry \<Rightarrow> ArgusService \<Rightarrow> ArgusService" where
  "install_registry r s = s\<lparr>sv_registries := sv_registries s @ [r], sv_registry := length (sv_registries s)\<rparr>"

definition InvalidStateTransition :: "ServiceState \<Rightarrow> ServiceState \<Rightarrow> exn" where
  "InvalidStateTransition current target =
     OtherException ''_InvalidStateTransition''
       (''Invalid state transition: '' @ state_value current @ '' -> '' @ state_value target)"

definition svc_transition :: "ServiceState \<Rightarrow> ArgusService \<Rightarrow> exn + ArgusService" where
  "svc_transition target s =
     (if \<not> is_valid_transition (sv_state s) target then Inl (InvalidStateTransition (sv_state s) target)
      else Inr (emit ''status'' (''State changed: '' @ state_value (sv_state s) @ '' -> '' @ state_value target) ''info'' None
                 (s\<lparr>sv_state := target\<rparr>)))"

section \<open>Building a registry\<close>

text \<open>The exceptions \<open>except (OSError, yaml.YAMLError, AttributeError, KeyError, ValueError)\<close> catches:
  \<open>ConfigurationError\<close> is not one of them.\<close>

definition config_caught :: "exn \<Rightarrow> bool" where
  "config_caught e = (case e of
     ValueError m \<Rightarrow> True
   | KeyError m \<Rightarrow> True
   | TimeoutError \<Rightarrow> True
   | ConnectionError m \<Rightarrow> True
   | OtherException c m \<Rightarrow>
       c \<in> {''OSError'', ''FileNotFoundError'', ''PermissionError'', ''IsADirectoryError'', ''NotADirectoryError'',
            ''InterruptedError'', ''BlockingIOError'', ''YAMLError'', ''MarkedYAMLError'', ''ScannerError'', ''ParserError'',
            ''ComposerError'', ''ConstructorError'', ''ReaderError'', ''AttributeError'', ''UnicodeDecodeError'',
            ''UnicodeEncodeError'', ''ValidationError'', ''JSONDecodeError''}
   | _ \<Rightarrow> False)"

definition capability_filters :: "ArgusConfig \<Rightarrow> (string, (cap_type, CapabilityFilter) dict) dict" where
  "capability_filters cfg =
     (let rule = (\<lambda>ct r. if cr_allow r \<noteq> [] \<or> cr_deny r \<noteq> []
                         then [(ct, \<lparr>allow = cr_allow r, deny = cr_deny r\<rparr>)] else [])
      in filter (\<lambda>kv. snd kv \<noteq> [])
           (map (\<lambda>(n, b). (n, rule Tools (bm_tools b) @ rule Resources (bm_resources b) @ rule Prompts (bm_prompts b)))
             (ac_backends cfg)))"

definition config_rename_maps :: "ArgusConfig \<Rightarrow> (string, RenameMap) dict" where
  "config_rename_maps cfg =
     map (\<lambda>(n, b). (n, build_rename_map (Some (bm_overrides b))))
       (filter (\<lambda>(n, b). bm_overrides b \<noteq> []) (ac_backends cfg))"

definition registry_of_config :: "ArgusConfig \<Rightarrow> registry res" where
  "registry_of_config cfg =
     (case create_strategy (ac_strategy cfg) (ac_separator cfg) (if ac_order cfg \<noteq> [] then Some (ac_order cfg) else None) of
        Inl e \<Rightarrow> Inl e
      | Inr st \<Rightarrow>
          Inr (init_registry (Some st)
                 (let f = capability_filters cfg in if f \<noteq> [] then Some f else None)
                 (let r = config_rename_maps cfg in if r \<noteq> [] then Some r else None)))"

definition build_registry :: "ArgusConfig res \<Rightarrow> ArgusService \<Rightarrow> registry res" where
  "build_registry loaded s =
     (if sv_config_path s \<in> {None, Some []} then Inr (init_registry None None None)
      else case (case loaded of Inl e \<Rightarrow> Inl e | Inr cfg \<Rightarrow> registry_of_config cfg) of
             Inl e \<Rightarrow> (if config_caught e then Inr (init_registry None None None) else Inl e)
           | Inr r \<Rightarrow> Inr r)"

definition build_group_manager :: "ArgusConfig res \<Rightarrow> ArgusService \<Rightarrow> GroupManager res" where
  "build_group_manager loaded s =
     (if sv_config_path s \<in> {None, Some []} then Inr (new_group_manager [])
      else case loaded of
             Inl e \<Rightarrow> (if config_caught e then Inr (new_group_manager []) else Inl e)
           | Inr cfg \<Rightarrow> Inr (new_group_manager (map (\<lambda>(n, b). (n, bm_group b)) (ac_backends cfg))))"

text \<open>
  \<open>discover_and_register\<close> on the current registry and the snapshots taken after it. What the
  sessions answer and the order in which the calls complete are arguments.
\<close>

definition live_sessions :: "(nat \<Rightarrow> session) \<Rightarrow> ArgusService \<Rightarrow> (string \<times> session option) list" where
  "live_sessions answers s = map (\<lambda>(n, h). (n, Some (answers h))) (get_all_sessions (sv_manager s))"

definition take_snapshots :: "ArgusService \<Rightarrow> ArgusService" where
  "take_snapshots s =
     s\<lparr>sv_tools := get_aggregated_tools (current_registry s),
       sv_resources := get_aggregated_resources (current_registry s),
       sv_prompts := get_aggregated_prompts (current_registry s)\<rparr>"

definition discover :: "(nat \<Rightarrow> session) \<Rightarrow> task list \<Rightarrow> ArgusService \<Rightarrow> ArgusService" where
  "discover answers order s =
     take_snapshots
       (s\<lparr>sv_registries := (sv_registries s)[sv_registry s :=
            discover_and_register (live_sessions answers s) order (current_registry s)]\<rparr>)"

section \<open>Start\<close>

record start_env =
  se_config :: "confs res"
  se_full :: "ArgusConfig res"
  se_registry :: "ArgusConfig res"
  se_groups :: "ArgusConfig res"
  se_settings :: "ArgusConfig res"
  se_startup :: retry_env
  se_startup_raises :: "exn option"
  se_answers :: "nat \<Rightarrow> session"
  se_order :: "task list"
  se_now :: rat
  se_health_raises :: "exn option"
  se_watcher_raises :: "exn option"

definition load_config :: "start_env \<Rightarrow> string \<Rightarrow> ArgusService \<Rightarrow> ArgusService \<times> confs res" where
  "load_config env path s =
     (let s1 = emit ''config'' (''Loading configuration: '' @ path) ''info'' None s
      in case se_config env of
           Inl e \<Rightarrow> (s1, Inl e)
         | Inr config \<Rightarrow>
             (let s2 = s1\<lparr>sv_config_data := Some config, sv_backends_total := length config,
                          sv_full_config := (case se_full env of Inl e \<Rightarrow> sv_full_config s1 | Inr c \<Rightarrow> Some c)\<rparr>
              in (emit ''config'' (''Configuration loaded: '' @ show_nat (length config) @ '' backend(s) defined.'') ''info'' None s2,
                  Inr config)))"

definition build_components :: "start_env \<Rightarrow> ArgusService \<Rightarrow> ArgusService \<times> unit res" where
  "build_components env s =
     (case build_registry (se_registry env) s of
        Inl e \<Rightarrow> (s, Inl e)
      | Inr r \<Rightarrow>
          (let s1 = install_registry r s
           in case build_group_manager (se_groups env) s1 of
                Inl e \<Rightarrow> (s1, Inl e)
              | Inr g \<Rightarrow> (s1\<lparr>sv_group_manager := Some g\<rparr>, Inr ())))"

text \<open>The events the progress callback emits for the manager's messages.\<close>

definition progress_event :: "string \<times> string \<times> string \<Rightarrow> ArgusService \<Rightarrow> ArgusService" where
  "progress_event p s = (case p of (name, ph, msg) \<Rightarrow>
     emit (''backend_'' @ ph) (CHR ''['' # name @ ''] '' @ (if msg \<noteq> [] then msg else ph))
       (if ph = ''failed'' then ''error'' else if ph = ''retrying'' then ''warning'' else ''info'') (Some name) s)"

definition connect_all :: "start_env \<Rightarrow> confs \<Rightarrow> ArgusService \<Rightarrow> ArgusService \<times> unit res" where
  "connect_all env config s =
     (let s1 = emit ''backend_init'' (''Connecting '' @ show_nat (sv_backends_total s) @ '' backend service(s)...'') ''info'' None s
      in case se_startup_raises env of
           Some e \<Rightarrow> (s1, Inl e)
         | None \<Rightarrow>
             (case start_all (se_startup env) True (sv_parallel s1) (sv_manager s1, config) of
                (m, config') \<Rightarrow>
                  (let news = drop (length (cm_progress_log (sv_manager s1))) (cm_progress_log m);
                       s2 = fold progress_event news
                              (s1\<lparr>sv_manager := m, sv_config_data := Some config',
                                 sv_backends_connected := length (get_all_sessions m)\<rparr>)
                   in if sv_backends_connected s2 = 0 \<and> 0 < sv_backends_total s2
                      then (s2, Inl (BackendServerError (''Unable to connect to any backend server (''
                             @ show_nat (sv_backends_total s2) @ '' configured). Server cannot start.'')))
                      else (emit ''backend_connected'' (''Backend connections: '' @ show_nat (sv_backends_connected s2) @ ''/''
                              @ show_nat (sv_backends_total s2) @ '' active.'') ''info'' None s2, Inr ()))))"

definition start_refresh :: "start_env \<Rightarrow> ArgusService \<Rightarrow> ArgusService" where
  "start_refresh env s =
     (case se_settings env of
        Inl e \<Rightarrow> s
      | Inr cfg \<Rightarrow> s\<lparr>sv_manager := start_refresh_service (ac_refresh_enabled cfg) (sv_manager s)\<rparr>)"

definition start_discovery :: "start_env \<Rightarrow> ArgusService \<Rightarrow> ArgusService" where
  "start_discovery env s =
     (if 0 < sv_backends_connected s
      then let s1 = discover (se_answers env) (se_order env) s
           in emit ''capability_change'' (''Capabilities: '' @ show_nat (length (sv_tools s1)) @ '' tools, ''
                @ show_nat (length (sv_resources s1)) @ '' resources, '' @ show_nat (length (sv_prompts s1)) @ '' prompts.'')
                ''info'' None s1
      else s)"

text \<open>The health checker and the watcher are stored before they are started.\<close>

definition go_running :: "start_env \<Rightarrow> ArgusService \<Rightarrow> ArgusService \<times> unit res" where
  "go_running env s =
     (case svc_transition SvcRUNNING (s\<lparr>sv_started_at := Some (se_now env)\<rparr>) of
        Inl e \<Rightarrow> (s\<lparr>sv_started_at := Some (se_now env)\<rparr>, Inl e)
      | Inr s1 \<Rightarrow>
          (let s2 = s1\<lparr>sv_ready_event := True, sv_health_checker := Some (sv_registry s1)\<rparr>
           in case se_health_raises env of
                Some e \<Rightarrow> (s2, Inl e)
              | None \<Rightarrow>
                  (if sv_config_path s2 \<in> {None, Some []} then (s2, Inr ())
                   else let s3 = s2\<lparr>sv_config_watcher := True\<rparr>
                        in case se_watcher_raises env of Some e \<Rightarrow> (s3, Inl e) | None \<Rightarrow> (s3, Inr ()))))"

text \<open>The body of the \<open>try\<close> block of \<open>start\<close>.\<close>

definition start_body :: "start_env \<Rightarrow> string \<Rightarrow> ArgusService \<Rightarrow> ArgusService \<times> unit res" where
  "start_body env path s =
     (case load_config env path s of
        (s1, Inl e) \<Rightarrow> (s1, Inl e)
      | (s1, Inr config) \<Rightarrow>
          (case build_components env s1 of
             (s2, Inl e) \<Rightarrow> (s2, Inl e)
           | (s2, Inr u) \<Rightarrow>
               (case connect_all env config s2 of
                  (s3, Inl e) \<Rightarrow> (s3, Inl e)
                | (s3, Inr v) \<Rightarrow> go_running env (start_discovery env (start_refresh env s3)))))"

text \<open>Its \<open>except\<close> block.\<close>

definition start_failed :: "exn \<Rightarrow> ArgusService \<Rightarrow> ArgusService \<times> unit res" where
  "start_failed e s =
     (let s1 = s\<lparr>sv_error_message := Some (exn_class e @ '': '' @ exn_str e)\<rparr>
      in case svc_transition SvcERROR s1 of
           Inl e' \<Rightarrow> (s1, Inl e')
         | Inr s2 \<Rightarrow> (s2\<lparr>sv_ready_event := False\<rparr>, Inl e))"

definition start :: "start_env \<Rightarrow> string \<Rightarrow> ArgusService \<Rightarrow> ArgusService \<times> unit res" where
  "start env path s =
     (case svc_transition SvcSTARTING s of
        Inl e \<Rightarrow> (s, Inl e)
      | Inr s0 \<Rightarrow>
          (case start_body env path (s0\<lparr>sv_error_message := None, sv_config_path := Some path\<rparr>) of
             (s1, Inr u) \<Rightarrow> (s1, Inr u)
           | (s1, Inl e) \<Rightarrow> start_failed e s1))"

text \<open>
  A cancelled start. \<open>except Exception\<close> does not catch \<open>CancelledError\<close>: the state is left as it is
  at the await the cancellation arrives at. These are the two loads in a thread, connecting
  (the manager and the configuration object are given as the interrupted call leaves them,
  its messages have become events) and discovering (with the registry it leaves). A start that
  ends before that await is not interrupted there.
\<close>

datatype cancel_point =
    InConfig
  | InFullConfig
  | InConnecting ClientManager confs
  | InDiscovery registry

definition cancelled_config :: "start_env \<Rightarrow> string \<Rightarrow> ArgusService \<Rightarrow> ArgusService option" where
  "cancelled_config env path s =
     (case se_config env of
        Inl e \<Rightarrow> None
      | Inr config \<Rightarrow>
          Some ((emit ''config'' (''Loading configuration: '' @ path) ''info'' None s)
                  \<lparr>sv_config_data := Some config, sv_backends_total := length config\<rparr>))"

definition cancelled_connecting :: "ClientManager \<Rightarrow> confs \<Rightarrow> ArgusService \<Rightarrow> ArgusService" where
  "cancelled_connecting m config s =
     fold progress_event (drop (length (cm_progress_log (sv_manager s))) (cm_progress_log m))
       ((emit ''backend_init'' (''Connecting '' @ show_nat (sv_backends_total s) @ '' backend service(s)...'') ''info'' None s)
          \<lparr>sv_manager := m, sv_config_data := Some config\<rparr>)"

definition start_body_cancelled :: "cancel_point \<Rightarrow> start_env \<Rightarrow> string \<Rightarrow> ArgusService \<Rightarrow> ArgusService option" where
  "start_body_cancelled pt env path s =
     (case pt of
        InConfig \<Rightarrow> Some (emit ''config'' (''Loading configuration: '' @ path) ''info'' None s)
      | InFullConfig \<Rightarrow> cancelled_config env path s
      | InConnecting m config' \<Rightarrow>
          (case load_config env path s of
             (s1, Inl e) \<Rightarrow> None
           | (s1, Inr config) \<Rightarrow>
               (case build_components env s1 of
                  (s2, Inl e) \<Rightarrow> None
                | (s2, Inr u) \<Rightarrow> Some (cancelled_connecting m config' s2)))
      | InDiscovery r \<Rightarrow>
          (case load_config env path s of
             (s1, Inl e) \<Rightarrow> None
           | (s1, Inr config) \<Rightarrow>
               (case build_components env s1 of
                  (s2, Inl e) \<Rightarrow> None
                | (s2, Inr u) \<Rightarrow>
                    (case connect_all env config s2 of
                       (s3, Inl e) \<Rightarrow> None
                     | (s3, Inr v) \<Rightarrow>
                         (if 0 < sv_backends_connected s3
                          then let s4 = start_refresh env s3
                               in Some (s4\<lparr>sv_registries := (sv_registries s4)[sv_registry s4 := r]\<rparr>)
                          else None)))))"

definition start_cancelled :: "cancel_point \<Rightarrow> start_env \<Rightarrow> string \<Rightarrow> ArgusService \<Rightarrow> ArgusService \<times> base_exn option" where
  "start_cancelled pt env path s =
     (case svc_transition SvcSTARTING s of
        Inl e \<Rightarrow> (s, Some (Exc e 0 []))
      | Inr s0 \<Rightarrow>
          (case start_body_cancelled pt env path (s0\<lparr>sv_error_message := None, sv_config_path := Some path\<rparr>) of
             Some s1 \<Rightarrow> (s1, Some CancelledError)
           | None \<Rightarrow> (case start env path s of (s1, Inl e) \<Rightarrow> (s1, Some (Exc e 0 [])) | (s1, Inr u) \<Rightarrow> (s1, None))))"

section \<open>Stop and shutdown\<close>

text \<open>
  What stopping the watcher, the health checker and the manager raises. A manager that is
  interrupted is given with the state it is left in.
\<close>

record stop_env =
  so_watcher :: "base_exn option"
  so_health :: "base_exn option"
  so_manager :: "(ClientManager \<times> base_exn) option"
  so_now :: rat

definition stop_components :: "stop_env \<Rightarrow> ArgusService \<Rightarrow> ArgusService \<times> base_exn option" where
  "stop_components env s =
     (case (if sv_config_watcher s then so_watcher env else None) of
        Some e \<Rightarrow> (s, Some e)
      | None \<Rightarrow>
          (let s1 = s\<lparr>sv_config_watcher := False\<rparr>
           in case (if sv_health_checker s1 \<noteq> None then so_health env else None) of
                Some e \<Rightarrow> (s1, Some e)
              | None \<Rightarrow>
                  (let s2 = s1\<lparr>sv_health_checker := None\<rparr>
                   in case so_manager env of
                        Some (m, e) \<Rightarrow> (s2\<lparr>sv_manager := m\<rparr>, Some e)
                      | None \<Rightarrow> (s2\<lparr>sv_manager := stop_all (so_now env) (sv_manager s2)\<rparr>, None))))"

text \<open>\<open>self._transition(target)\<close> where an exception leaves the function.\<close>

definition transition_or_raise :: "ServiceState \<Rightarrow> ArgusService \<Rightarrow> ArgusService \<times> base_exn option" where
  "transition_or_raise target s =
     (case svc_transition target s of Inl e \<Rightarrow> (s, Some (Exc e 0 [])) | Inr s' \<Rightarrow> (s', None))"

definition stop_body :: "stop_env \<Rightarrow> ArgusService \<Rightarrow> ArgusService \<times> base_exn option" where
  "stop_body env s =
     (let (s1, raised) = stop_components env s;
          (s2, r) = (case raised of
                       None \<Rightarrow> transition_or_raise SvcSTOPPED s1
                     | Some (Exc e status subs) \<Rightarrow>
                         (case e of
                            RuntimeError msg \<Rightarrow> transition_or_raise SvcSTOPPED s1
                          | _ \<Rightarrow> transition_or_raise SvcERROR
                                 (s1\<lparr>sv_error_message := Some (''Shutdown error: '' @ exn_class e @ '': '' @ exn_str e)\<rparr>))
                     | Some e \<Rightarrow> (s1, Some e))
      in (s2\<lparr>sv_ready_event := False\<rparr>, r))"

definition stop :: "stop_env \<Rightarrow> ArgusService \<Rightarrow> ArgusService \<times> base_exn option" where
  "stop env s =
     (case sv_state s of
        SvcRUNNING \<Rightarrow>
          (case svc_transition SvcSTOPPING s of Inl e \<Rightarrow> (s, Some (Exc e 0 [])) | Inr s1 \<Rightarrow> stop_body env s1)
      | SvcERROR \<Rightarrow>
          (case svc_transition SvcSTOPPING s of Inl e \<Rightarrow> (s, Some (Exc e 0 [])) | Inr s1 \<Rightarrow> stop_body env s1)
      | SvcSTARTING \<Rightarrow>
          (case svc_transition SvcSTOPPING (s\<lparr>sv_state := SvcERROR\<rparr>) of
             Inl e \<Rightarrow> (s\<lparr>sv_state := SvcERROR\<rparr>, Some (Exc e 0 [])) | Inr s1 \<Rightarrow> stop_body env s1)
      | _ \<Rightarrow> (s, None))"

text \<open>The deadline of \<open>asyncio.wait_for\<close> cancels \<open>stop\<close> and appears as \<open>TimeoutError\<close>.\<close>

definition shutdown :: "stop_env \<Rightarrow> nat \<Rightarrow> ArgusService \<Rightarrow> ArgusService \<times> base_exn option" where
  "shutdown env timeout_seconds s =
     (case stop env (emit ''status'' ''Shutdown requested via management API.'' ''info'' None s) of
        (s1, Some Deadline) \<Rightarrow>
          (s1\<lparr>sv_error_message := Some (''Shutdown timed out after '' @ show_nat timeout_seconds @ ''s''),
              sv_state := SvcERROR\<rparr>, None)
      | (s1, r) \<Rightarrow> (s1, r))"

section \<open>Reload\<close>

definition disconnect_backend :: "string \<Rightarrow> ArgusService \<Rightarrow> ArgusService" where
  "disconnect_backend name s =
     (if get_session name (sv_manager s) \<noteq> None
      then s\<lparr>sv_manager := disconnect_one name (sv_manager s)\<rparr> else s)"

text \<open>\<open>_connect_backend\<close> with the configuration object, which a container build changes.\<close>

definition connect_one :: "attempt \<Rightarrow> string \<Rightarrow> confs \<Rightarrow> ArgusService \<Rightarrow> ArgusService \<times> confs \<times> (base_exn + bool)" where
  "connect_one a name cs s =
     (case start_backend_svr a name (dict_get_or [] cs name) (sv_manager s) of
        (m, conf', r) \<Rightarrow>
          (s\<lparr>sv_manager := m\<rparr>, dict_set name conf' cs,
           (case r of Inl (Exc e status subs) \<Rightarrow> Inr False | _ \<Rightarrow> r)))"

record reload_result =
  rr_reloaded :: bool
  rr_added :: "string list"
  rr_removed :: "string list"
  rr_changed :: "string list"
  rr_errors :: "string list"

definition refused :: "string \<Rightarrow> reload_result" where
  "refused msg = \<lparr>rr_reloaded = False, rr_added = [], rr_removed = [], rr_changed = [], rr_errors = [msg]\<rparr>"

definition reconnect_failed :: "string \<Rightarrow> string" where
  "reconnect_failed n = ''Failed to reconnect backend '' @ repr_str n @ ''.''"

definition connect_new_failed :: "string \<Rightarrow> string" where
  "connect_new_failed n = ''Failed to connect new backend '' @ repr_str n @ ''.''"

text \<open>
  One of the loops over changed and added backends: each is disconnected first when it is a
  changed one, then connected; a cancellation ends the loop.
\<close>

fun connect_each ::
    "(string \<Rightarrow> attempt) \<Rightarrow> bool \<Rightarrow> (string \<Rightarrow> string) \<Rightarrow> string list \<Rightarrow> ArgusService \<times> confs \<times> string list \<Rightarrow>
     (ArgusService \<times> confs \<times> string list) \<times> base_exn option" where
  "connect_each env changed_ones msg [] st = (st, None)"
| "connect_each env changed_ones msg (n # ns) (s, cs, errs) =
     (case connect_one (env n) n cs (if changed_ones then disconnect_backend n s else s) of
        (s', cs', Inl e) \<Rightarrow> ((s', cs', errs), Some e)
      | (s', cs', Inr ok) \<Rightarrow> connect_each env changed_ones msg ns (s', cs', if ok then errs else errs @ [msg n]))"

record reload_env =
  rl_config :: "confs res"
  rl_iterate :: "string set \<Rightarrow> string list"
  rl_attempt :: "string \<Rightarrow> attempt"
  rl_registry :: "ArgusConfig res"
  rl_answers :: "nat \<Rightarrow> session"
  rl_order :: "task list"

text \<open>After the connections: new configuration, new registry when any backend is connected.\<close>

definition rediscover :: "ArgusConfig res \<Rightarrow> (nat \<Rightarrow> session) \<Rightarrow> task list \<Rightarrow> ArgusService \<Rightarrow> ArgusService \<times> unit res" where
  "rediscover loaded answers order s =
     (case build_registry loaded s of
        Inl e \<Rightarrow> (s, Inl e)
      | Inr r \<Rightarrow> (discover answers order (install_registry r s), Inr ()))"

definition finish_reload :: "reload_env \<Rightarrow> confs \<Rightarrow> ConfigDiff \<Rightarrow> reload_result \<Rightarrow> ArgusService \<Rightarrow> ArgusService \<times> (base_exn + reload_result)" where
  "finish_reload env new_config diff result s =
     (let s1 = s\<lparr>sv_config_data := Some new_config, sv_backends_total := length new_config,
                 sv_backends_connected := get_active_session_count (sv_manager s)\<rparr>
      in case (if get_all_sessions (sv_manager s1) \<noteq> []
               then rediscover (rl_registry env) (rl_answers env) (rl_order env) s1 else (s1, Inr ())) of
           (s2, Inl e) \<Rightarrow> (s2, Inl (Exc e 0 []))
         | (s2, Inr u) \<Rightarrow>
             (emit ''config_reloaded'' (''Config reloaded: '' @ diff_summary diff) ''info'' None s2,
              Inr (result\<lparr>rr_reloaded := True\<rparr>)))"

definition apply_diff :: "reload_env \<Rightarrow> confs \<Rightarrow> ArgusService \<Rightarrow> ArgusService \<times> (base_exn + reload_result)" where
  "apply_diff env new_config s =
     (let old_config = (case sv_config_data s of None \<Rightarrow> [] | Some c \<Rightarrow> c);
          diff = compute_diff old_config new_config;
          s1 = fold disconnect_backend (rl_iterate env (removed diff)) s
      in case connect_each (rl_attempt env) True reconnect_failed
                (rl_iterate env (changed diff)) (s1, new_config, []) of
           ((s2, cs2, errs2), Some e) \<Rightarrow> (s2, Inl e)
         | ((s2, cs2, errs2), None) \<Rightarrow>
             (case connect_each (rl_attempt env) False connect_new_failed
                     (rl_iterate env (added diff)) (s2, cs2, errs2) of
                ((s3, cs3, errs3), Some e) \<Rightarrow> (s3, Inl e)
              | ((s3, cs3, errs3), None) \<Rightarrow>
                  finish_reload env cs3 diff
                    \<lparr>rr_reloaded = False, rr_added = sorted_list_of_set (added diff),
                     rr_removed = sorted_list_of_set (removed diff), rr_changed = sorted_list_of_set (changed diff),
                     rr_errors = errs3\<rparr> s3))"

definition reload :: "reload_env \<Rightarrow> ArgusService \<Rightarrow> ArgusService \<times> (base_exn + reload_result)" where
  "reload env s =
     (if sv_state s \<noteq> SvcRUNNING then (s, Inr (refused (''Cannot reload in state: '' @ state_value (sv_state s))))
      else if sv_config_path s = None then (s, Inr (refused ''No config path available.''))
      else let s1 = emit ''config_reloaded'' ''Reloading configuration...'' ''info'' None s
           in case rl_config env of
                Inl e \<Rightarrow>
                  (if config_caught e
                   then let msg = ''Config reload failed: '' @ exn_class e @ '': '' @ exn_str e
                        in (emit ''config_reloaded'' msg ''error'' None s1, Inr (refused msg))
                   else (s1, Inl (Exc e 0 [])))
              | Inr new_config \<Rightarrow> apply_diff env new_config s1)"

text \<open>The watcher's callback: a reload, then an event that reports it.\<close>

definition on_config_file_changed :: "reload_env \<Rightarrow> ArgusService \<Rightarrow> ArgusService \<times> base_exn option" where
  "on_config_file_changed env s =
     (case reload env s of
        (s1, Inl e) \<Rightarrow> (s1, Some e)
      | (s1, Inr res) \<Rightarrow>
          (let has_errors = rr_errors res \<noteq> []
           in (emit ''config_sync'' (if has_errors then ''Config reloaded with errors'' else ''Config reloaded successfully'')
                 (if has_errors then ''warning'' else ''info'') None s1, None)))"

section \<open>Reconnect and re-authentication\<close>

record reconnect_result =
  rc_name :: string
  rc_reconnected :: bool
  rc_error :: "string option"

text \<open>Where the time limit of a reconnect hits: nowhere, while the old connection is closed, or
  during discovery, with the discovery tasks that completed before. A limit that hits during
  the connection attempt is a cancellation inside the attempt, which the attempt handles.\<close>

datatype reconnect_limit = NoLimit | WhileClosing | WhileDiscovering "task list"

record reconnect_env =
  rn_attempt :: attempt
  rn_settings :: "ArgusConfig res"
  rn_limit :: reconnect_limit
  rn_registry :: "ArgusConfig res"
  rn_answers :: "nat \<Rightarrow> session"
  rn_order :: "task list"

definition reconnect_timeout :: "reconnect_env \<Rightarrow> ArgusService \<Rightarrow> string" where
  "reconnect_timeout env s =
     (if sv_config_path s \<in> {None, Some []} then ''60''
      else case rn_settings env of
             Inl e \<Rightarrow> ''60''
           | Inr cfg \<Rightarrow> (case ac_reconnect_timeout cfg of None \<Rightarrow> ''60'' | Some t \<Rightarrow> t))"

definition count_connected :: "ArgusService \<Rightarrow> ArgusService" where
  "count_connected s = s\<lparr>sv_backends_connected := get_active_session_count (sv_manager s)\<rparr>"

text \<open>\<open>_do_reconnect\<close>; \<open>Deadline\<close> when the limit hit it.\<close>

definition do_reconnect :: "reconnect_env \<Rightarrow> string \<Rightarrow> ArgusService \<Rightarrow> ArgusService \<times> (base_exn + reconnect_result)" where
  "do_reconnect env name s =
     (let s1 = emit ''backend_disconnected'' (''Reconnecting backend '' @ repr_str name @ ''...'') ''info'' (Some name) s
      in if rn_limit env = WhileClosing \<and> get_session name (sv_manager s1) \<noteq> None
         then (s1\<lparr>sv_manager := (let m = sv_manager s1 in case dict_get (cm_backend_stacks m) name of
                     None \<Rightarrow> m
                   | Some k \<Rightarrow> m\<lparr>cm_backend_stacks := dict_del name (cm_backend_stacks m), cm_closed := cm_closed m @ [k]\<rparr>)\<rparr>,
               Inl Deadline)
         else case connect_one (rn_attempt env) name (case sv_config_data s1 of None \<Rightarrow> [] | Some c \<Rightarrow> c)
                     (disconnect_backend name s1) of
                (s2, cs, Inl e) \<Rightarrow> (s2\<lparr>sv_config_data := Some cs\<rparr>, Inl e)
              | (s2, cs, Inr False) \<Rightarrow>
                  (count_connected (s2\<lparr>sv_config_data := Some cs\<rparr>),
                   Inr \<lparr>rc_name = name, rc_reconnected = False,
                        rc_error = Some (reconnect_failed name)\<rparr>)
              | (s2, cs, Inr True) \<Rightarrow>
                  (let s3 = s2\<lparr>sv_config_data := Some cs\<rparr>
                   in case build_registry (rn_registry env) s3 of
                        Inl e \<Rightarrow> (s3, Inl (Exc e 0 []))
                      | Inr r \<Rightarrow>
                          (let s4 = install_registry r s3
                           in case rn_limit env of
                                WhileDiscovering done \<Rightarrow>
                                  (s4\<lparr>sv_registries := (sv_registries s4)[sv_registry s4 :=
                                       live (fold complete_task done (begin_discovery (live_sessions (rn_answers env) s4) r))]\<rparr>,
                                   Inl Deadline)
                              | _ \<Rightarrow>
                                  (emit ''backend_connected'' (''Backend '' @ repr_str name @ '' reconnected.'') ''info'' (Some name)
                                     (count_connected (discover (rn_answers env) (rn_order env) s4)),
                                   Inr \<lparr>rc_name = name, rc_reconnected = True, rc_error = None\<rparr>))))"

definition reconnect_backend :: "reconnect_env \<Rightarrow> string \<Rightarrow> ArgusService \<Rightarrow> ArgusService \<times> (base_exn + reconnect_result)" where
  "reconnect_backend env name s =
     (let failed = (\<lambda>msg. Inr \<lparr>rc_name = name, rc_reconnected = False, rc_error = Some msg\<rparr>)
      in if sv_state s \<noteq> SvcRUNNING then (s, failed (''Cannot reconnect in state: '' @ state_value (sv_state s)))
         else if sv_config_data s \<in> {None, Some []} \<or> dict_get (the (sv_config_data s)) name = None
         then (s, failed (''Backend '' @ repr_str name @ '' not found in configuration.''))
         else case do_reconnect env name s of
                (s1, Inl Deadline) \<Rightarrow>
                  (count_connected (disconnect_backend name s1),
                   failed (''Reconnect timed out after '' @ reconnect_timeout env s @ ''s.''))
              | (s1, Inl CancelledError) \<Rightarrow> (s1, Inl CancelledError)
              | (s1, Inl (Exc e status subs)) \<Rightarrow> (s1, failed (exn_class e @ '': '' @ exn_str e))
              | (s1, Inr r) \<Rightarrow> (s1, Inr r))"

text \<open>What \<open>trigger_reauth\<close> does is an argument: \<open>None\<close> when the provider has no such method.\<close>

definition reauth_backend :: "unit res option \<Rightarrow> string \<Rightarrow> ArgusService \<Rightarrow> ArgusService \<times> bool \<times> string option" where
  "reauth_backend outcome name s =
     (if sv_state s \<noteq> SvcRUNNING then (s, False, Some (''Cannot re-authenticate in state: '' @ state_value (sv_state s)))
      else if sv_config_data s \<in> {None, Some []} \<or> dict_get (the (sv_config_data s)) name = None
      then (s, False, Some (''Backend '' @ repr_str name @ '' not found in configuration.''))
      else if dict_get (cm_auth_providers (sv_manager s)) name = None
      then (s, False, Some (''Backend '' @ repr_str name @ '' has no auth provider.''))
      else case outcome of
             None \<Rightarrow> (s, False, Some (''Backend '' @ repr_str name @ '' does not support interactive re-auth.''))
           | Some (Inl e) \<Rightarrow> (s, False, Some (exn_class e @ '': '' @ exn_str e))
           | Some (Inr u) \<Rightarrow>
               (emit ''backend_reauth'' (''Re-authentication completed for backend '' @ repr_str name @ ''.'') ''info'' (Some name) s,
                True, None))"

section \<open>Status\<close>

record service_status =
  ss_state :: ServiceState
  ss_started_at :: "rat option"
  ss_config_path :: "string option"
  ss_backends :: "(string \<times> pyval \<times> bool) list"
  ss_total :: nat
  ss_connected :: nat
  ss_tool_names :: "string list"
  ss_resource_names :: "string list"
  ss_prompt_names :: "string list"
  ss_route_map :: routes
  ss_error :: "string option"

definition get_status :: "ArgusService \<Rightarrow> service_status" where
  "get_status s =
     \<lparr>ss_state = sv_state s, ss_started_at = sv_started_at s, ss_config_path = sv_config_path s,
      ss_backends = (case sv_config_data s of
          None \<Rightarrow> []
        | Some cs \<Rightarrow> map (\<lambda>(n, c). (n, dict_get_or (PStr ''unknown'') c ''type'',
                                    dict_get (get_all_sessions (sv_manager s)) n \<noteq> None)) cs),
      ss_total = sv_backends_total s, ss_connected = sv_backends_connected s,
      ss_tool_names = map cap_name (sv_tools s), ss_resource_names = map cap_name (sv_resources s),
      ss_prompt_names = map cap_name (sv_prompts s), ss_route_map = route_map (current_registry s),
      ss_error = sv_error_message s\<rparr>"

end
