(* ===== verification/Service_Properties.thy ===== *)
theory Service_Properties
  imports Argus_Service Client_Startup
begin

text \<open>
  The properties of the service of \<open>runtime/service.py\<close>: its state machine over any sequence of
  calls, what a start and a reload achieve, and what they leave behind.
\<close>

section \<open>What the operations leave alone\<close>

text \<open>The life-cycle part of the state: only start, stop and shutdown change it.\<close>

definition core :: "ArgusService \<Rightarrow> ServiceState \<times> bool \<times> nat option \<times> bool \<times> string option" where
  "core s = (sv_state s, sv_ready_event s, sv_health_checker s, sv_config_watcher s, sv_config_path s)"

named_theorems core_simps "operations that keep the life-cycle part"

lemma core_state: "core s' = core s \<Longrightarrow> sv_state s' = sv_state s"
  by (simp add: core_def)

lemma core_ready: "core s' = core s \<Longrightarrow> sv_ready_event s' = sv_ready_event s"
  by (simp add: core_def)

lemma core_path: "core s' = core s \<Longrightarrow> sv_config_path s' = sv_config_path s"
  by (simp add: core_def)

lemma core_emit [core_simps]: "core (emit st msg sev b s) = core s"
  by (simp add: core_def emit_def)

lemma core_progress [core_simps]: "core (fold progress_event ps s) = core s"
  by (induction ps arbitrary: s) (auto simp: progress_event_def core_simps split: prod.split)

lemma core_install [core_simps]: "core (install_registry r s) = core s"
  by (simp add: core_def install_registry_def)

lemma core_discover [core_simps]: "core (discover an ord s) = core s"
  by (simp add: core_def discover_def take_snapshots_def)

lemma core_updates [core_simps]:
  "core (s\<lparr>sv_config_data := cd\<rparr>) = core s" "core (s\<lparr>sv_manager := m\<rparr>) = core s"
  "core (s\<lparr>sv_group_manager := g\<rparr>) = core s" "core (s\<lparr>sv_backends_total := k\<rparr>) = core s"
  "core (s\<lparr>sv_backends_connected := k\<rparr>) = core s" "core (s\<lparr>sv_full_config := f\<rparr>) = core s"
  "core (s\<lparr>sv_error_message := em\<rparr>) = core s" "core (s\<lparr>sv_started_at := t\<rparr>) = core s"
  "core (s\<lparr>sv_registries := rs\<rparr>) = core s"
  by (simp_all add: core_def)

lemma core_disconnect [core_simps]: "core (disconnect_backend n s) = core s"
  by (simp add: disconnect_backend_def core_simps)

lemma core_disconnect_all [core_simps]: "core (fold disconnect_backend ns s) = core s"
  by (induction ns arbitrary: s) (simp_all add: core_simps)

lemma core_connect_one [core_simps]: "core (fst (connect_one a n cs s)) = core s"
  by (simp add: connect_one_def core_simps split: prod.split)

lemma core_connect_each [core_simps]: "core (fst (fst (connect_each env ch msg ns st))) = core (fst st)"
proof (induction env ch msg ns st rule: connect_each.induct)
  case (2 env ch msg n ns s cs errs)
  obtain s' cs' r where c: "connect_one (env n) n cs (if ch then disconnect_backend n s else s) = (s', cs', r)"
    using prod_cases3 by blast
  have "core s' = core s"
    using core_connect_one [of "env n" n cs "if ch then disconnect_backend n s else s"]
    by (simp add: c core_simps split: if_splits)
  with 2 c show ?case by (cases r) auto
qed simp

lemma core_rediscover [core_simps]: "core (fst (rediscover l an ord s)) = core s"
  by (simp add: rediscover_def core_simps split: sum.split)

lemma core_finish [core_simps]: "core (fst (finish_reload env cs d res s)) = core s"
proof -
  define s1 where "s1 = s\<lparr>sv_config_data := Some cs, sv_backends_total := length cs,
                 sv_backends_connected := get_active_session_count (sv_manager s)\<rparr>"
  have s1: "core s1 = core s" by (simp add: s1_def core_def)
  obtain s2 u where r: "(if get_all_sessions (sv_manager s1) \<noteq> []
      then rediscover (rl_registry env) (rl_answers env) (rl_order env) s1 else (s1, Inr ())) = (s2, u)" by fastforce
  have "core s2 = core s"
    using r core_rediscover [of "rl_registry env" "rl_answers env" "rl_order env" s1] s1
    by (auto split: if_splits)
  then show ?thesis
    by (auto simp: finish_reload_def Let_def s1_def [symmetric] r core_simps split: sum.split)
qed

lemma core_apply_diff [core_simps]: "core (fst (apply_diff env cs s)) = core s"
proof -
  define d where "d = compute_diff (case sv_config_data s of None \<Rightarrow> [] | Some c \<Rightarrow> c) cs"
  define s1 where "s1 = fold disconnect_backend (rl_iterate env (removed d)) s"
  obtain s2 cs2 errs2 e2 where 2: "connect_each (rl_attempt env) True reconnect_failed
      (rl_iterate env (changed d)) (s1, cs, []) = ((s2, cs2, errs2), e2)" by (metis prod.exhaust)
  obtain s3 cs3 errs3 e3 where 3: "connect_each (rl_attempt env) False connect_new_failed
      (rl_iterate env (added d)) (s2, cs2, errs2) = ((s3, cs3, errs3), e3)" by (metis prod.exhaust)
  have "core s2 = core s" using arg_cong [OF 2, of "\<lambda>x. core (fst (fst x))"] by (simp add: core_simps s1_def)
  moreover have "core s3 = core s2" using arg_cong [OF 3, of "\<lambda>x. core (fst (fst x))"] by (simp add: core_simps)
  ultimately show ?thesis
    by (cases e2; cases e3)
      (simp_all only: apply_diff_def Let_def d_def [symmetric] s1_def [symmetric] 2 3 prod.case option.case fst_conv core_finish)
qed

lemma core_reload [core_simps]: "core (fst (reload env s)) = core s"
  by (simp add: reload_def Let_def core_simps split: sum.split)

lemma core_config_changed [core_simps]: "core (fst (on_config_file_changed env s)) = core s"
proof -
  obtain s1 r where d: "reload env s = (s1, r)" by fastforce
  with core_reload [of env s] have "core s1 = core s" by simp
  with d show ?thesis
    by (auto simp: on_config_file_changed_def Let_def core_simps split: sum.split)
qed

lemma core_count [core_simps]: "core (count_connected s) = core s"
  by (simp add: count_connected_def core_simps)

lemma core_reauth [core_simps]: "core (fst (reauth_backend oc n s)) = core s"
  by (simp add: reauth_backend_def core_simps split: option.split sum.split)

lemma core_do_reconnect [core_simps]: "core (fst (do_reconnect env n s)) = core s"
proof -
  define s1 where "s1 = emit ''backend_disconnected'' (''Reconnecting backend '' @ repr_str n @ ''...'') ''info'' (Some n) s"
  have s1: "core s1 = core s" by (simp add: s1_def core_simps)
  obtain s2 cs r where c: "connect_one (rn_attempt env) n (case sv_config_data s1 of None \<Rightarrow> [] | Some c \<Rightarrow> c)
      (disconnect_backend n s1) = (s2, cs, r)" using prod_cases3 by blast
  have "core s2 = core s"
    using arg_cong [OF c, of "\<lambda>x. core (fst x)"] by (simp add: core_simps s1)
  then show ?thesis
    unfolding do_reconnect_def Let_def s1_def [symmetric] c
    by (auto simp: core_simps s1 split: sum.split bool.split reconnect_limit.split)
qed

lemma core_reconnect [core_simps]: "core (fst (reconnect_backend env n s)) = core s"
proof -
  obtain s1 r where d: "do_reconnect env n s = (s1, r)" by fastforce
  with core_do_reconnect [of env n s] have "core s1 = core s" by simp
  with d show ?thesis
    by (simp add: reconnect_backend_def Let_def core_simps split: sum.split base_exn.split)
qed

section \<open>Start\<close>

lemma svc_transition_Inr:
  "svc_transition t s = Inr s' \<Longrightarrow> is_valid_transition (sv_state s) t \<and> sv_state s' = t \<and>
     sv_ready_event s' = sv_ready_event s \<and> sv_config_path s' = sv_config_path s \<and>
     sv_health_checker s' = sv_health_checker s \<and> sv_config_watcher s' = sv_config_watcher s \<and>
     sv_registry s' = sv_registry s \<and> sv_registries s' = sv_registries s \<and> sv_manager s' = sv_manager s"
  by (auto simp: svc_transition_def emit_def split: if_splits)

lemma svc_transition_Inl:
  "svc_transition t s = Inl e \<longleftrightarrow> \<not> is_valid_transition (sv_state s) t \<and> e = InvalidStateTransition (sv_state s) t"
  by (auto simp: svc_transition_def)

lemma core_load_config [core_simps]: "core (fst (load_config env path s)) = core s"
proof (cases "se_config env")
  case (Inr config)
  then show ?thesis by (cases "se_full env") (simp_all add: load_config_def Let_def core_def emit_def)
qed (simp add: load_config_def core_simps)

lemma core_build_components [core_simps]: "core (fst (build_components env s)) = core s"
  by (auto simp: build_components_def Let_def core_simps split: sum.split)

lemma core_connect_all [core_simps]: "core (fst (connect_all env config s)) = core s"
  unfolding connect_all_def Let_def
  by (simp add: core_simps split: option.split prod.split)

lemma core_start_refresh [core_simps]: "core (start_refresh env s) = core s"
  by (simp add: start_refresh_def core_simps split: sum.split)

lemma core_start_discovery [core_simps]: "core (start_discovery env s) = core s"
  by (simp add: start_discovery_def Let_def core_simps)

text \<open>The body before the service is declared running.\<close>

definition prepare_start :: "start_env \<Rightarrow> string \<Rightarrow> ArgusService \<Rightarrow> ArgusService \<times> unit res" where
  "prepare_start env path s =
     (case load_config env path s of
        (s1, Inl e) \<Rightarrow> (s1, Inl e)
      | (s1, Inr config) \<Rightarrow>
          (case build_components env s1 of
             (s2, Inl e) \<Rightarrow> (s2, Inl e)
           | (s2, Inr u) \<Rightarrow>
               (case connect_all env config s2 of
                  (s3, Inl e) \<Rightarrow> (s3, Inl e)
                | (s3, Inr v) \<Rightarrow> (start_discovery env (start_refresh env s3), Inr ()))))"

lemma start_body_prepare:
  "start_body env path s = (case prepare_start env path s of (s1, Inl e) \<Rightarrow> (s1, Inl e) | (s1, Inr u) \<Rightarrow> go_running env s1)"
  unfolding start_body_def prepare_start_def by (simp split: prod.split sum.split)

lemma core_prepare_start [core_simps]: "core (fst (prepare_start env path s)) = core s"
proof -
  obtain s1 r1 where 1: "load_config env path s = (s1, r1)" by fastforce
  have c1: "core s1 = core s" using core_load_config [of env path s] by (simp add: 1)
  obtain s2 r2 where 2: "build_components env s1 = (s2, r2)" by fastforce
  have c2: "core s2 = core s" using core_build_components [of env s1] by (simp add: 2 c1)
  show ?thesis
  proof (cases r1)
    case (Inr config)
    obtain s3 r3 where 3: "connect_all env config s2 = (s3, r3)" by fastforce
    have "core s3 = core s" using core_connect_all [of env config s2] by (simp add: 3 c2)
    with Inr 1 2 3 c2 show ?thesis
      by (cases r2; cases r3) (simp_all add: prepare_start_def core_simps)
  qed (simp add: prepare_start_def 1 c1)
qed

lemma go_running_effect:
  assumes "sv_state s = SvcSTARTING"
  shows "sv_state (fst (go_running env s)) = SvcRUNNING" "sv_ready_event (fst (go_running env s))"
    "(\<exists>e. snd (go_running env s) = Inl e) \<longleftrightarrow> se_health_raises env \<noteq> None \<or>
       (sv_config_path s \<notin> {None, Some []} \<and> se_watcher_raises env \<noteq> None)"
  using assms
  by (auto simp: go_running_def svc_transition_def is_valid_transition_def emit_def Let_def split: option.split)

lemma start_failed_early:
  "sv_state s = SvcSTARTING \<Longrightarrow> sv_state (fst (start_failed e s)) = SvcERROR \<and> \<not> sv_ready_event (fst (start_failed e s)) \<and>
     sv_error_message (fst (start_failed e s)) = Some (exn_class e @ '': '' @ exn_str e) \<and> snd (start_failed e s) = Inl e \<and>
     sv_manager (fst (start_failed e s)) = sv_manager s"
  by (simp add: start_failed_def svc_transition_def is_valid_transition_def emit_def Let_def)

lemma start_failed_late:
  "sv_state s = SvcRUNNING \<Longrightarrow>
   start_failed e s = (s\<lparr>sv_error_message := Some (exn_class e @ '': '' @ exn_str e)\<rparr>,
     Inl (InvalidStateTransition SvcRUNNING SvcERROR))"
  by (simp add: start_failed_def svc_transition_def is_valid_transition_def Let_def)

text \<open>The three ways a start ends: refused, failed, running (with or without a late failure).\<close>

lemma start_refused:
  "\<not> is_valid_transition (sv_state s) SvcSTARTING \<Longrightarrow>
   start env path s = (s, Inl (InvalidStateTransition (sv_state s) SvcSTARTING))"
  by (simp add: start_def svc_transition_def)

lemma start_cases:
  assumes "is_valid_transition (sv_state s) SvcSTARTING"
  obtains (failed) t e where "sv_state t = SvcSTARTING" "start env path s = start_failed e t"
  | (late) t g e where "sv_state t = SvcSTARTING" "sv_config_path t = Some path" "go_running env t = (g, Inl e)"
      "start env path s = start_failed e g"
  | (running) t g where "sv_state t = SvcSTARTING" "sv_config_path t = Some path" "go_running env t = (g, Inr ())"
      "start env path s = (g, Inr ())"
      "\<exists>s0. prepare_start env path s0 = (t, Inr ()) \<and> sv_manager s0 = sv_manager s"
proof -
  obtain s0 where s0: "svc_transition SvcSTARTING s = Inr s0"
    using assms by (simp add: svc_transition_def)
  define t where "t = s0\<lparr>sv_error_message := None, sv_config_path := Some path\<rparr>"
  have t: "sv_state t = SvcSTARTING" "sv_config_path t = Some path" "sv_manager t = sv_manager s"
    using svc_transition_Inr [OF s0] by (simp_all add: t_def)
  obtain t1 r where p: "prepare_start env path t = (t1, r)" by fastforce
  have t1: "sv_state t1 = SvcSTARTING" "sv_config_path t1 = Some path"
    using core_state [OF core_prepare_start [of env path t]] core_path [OF core_prepare_start [of env path t]]
    by (simp_all add: p t)
  show thesis
  proof (cases r)
    case (Inl e)
    then show thesis
      using failed [OF t1(1)] by (simp add: start_def s0 t_def [symmetric] start_body_prepare p)
  next
    case (Inr u)
    obtain g gr where g: "go_running env t1 = (g, gr)" by fastforce
    show thesis
    proof (cases gr)
      case (Inl e)
      with late [OF t1] g Inr show thesis by (simp add: start_def s0 t_def [symmetric] start_body_prepare p)
    next
      case gr: (Inr v)
      have "\<exists>s0. prepare_start env path s0 = (t1, Inr ()) \<and> sv_manager s0 = sv_manager s"
        using p Inr t(3) by (intro exI [of _ t]) simp
      with running [OF t1] g Inr gr show thesis by (simp add: start_def s0 t_def [symmetric] start_body_prepare p)
    qed
  qed
qed

lemma start_accepted:
  assumes "is_valid_transition (sv_state s) SvcSTARTING"
  shows "sv_state (fst (start env path s)) \<in> {SvcRUNNING, SvcERROR} \<and>
    (sv_ready_event (fst (start env path s)) \<longleftrightarrow> sv_state (fst (start env path s)) = SvcRUNNING)"
  using assms
proof (cases rule: start_cases [where env = env and path = path])
  case (failed t e)
  then show ?thesis using start_failed_early [of t e] by simp
next
  case (late t g e)
  then have "sv_state g = SvcRUNNING" "sv_ready_event g"
    using go_running_effect(1,2) [of t env] by simp_all
  with late show ?thesis by (simp add: start_failed_late)
next
  case (running t g)
  then show ?thesis using go_running_effect(1,2) [of t env] by simp
qed

text \<open>A start that is cancelled where it waits is left starting, not ready.\<close>

lemma core_body_cancelled:
  assumes "start_body_cancelled pt env path s = Some t"
  shows "core t = core s"
proof -
  obtain s1 r1 where 1: "load_config env path s = (s1, r1)" by fastforce
  obtain s2 r2 where 2: "build_components env s1 = (s2, r2)" by fastforce
  define config where "config = projr r1"
  obtain s3 r3 where 3: "connect_all env config s2 = (s3, r3)" by fastforce
  have r1: "r1 = Inr x \<Longrightarrow> x = config" for x by (simp add: config_def)
  have c: "core s1 = core s" "core s2 = core s1" "core s3 = core s2"
    using core_load_config [of env path s] core_build_components [of env s1] core_connect_all [of env config s2]
    by (simp_all add: 1 2 3)
  show ?thesis
    using assms c
    by (cases r1; cases r2; cases r3)
      (auto dest!: r1 simp: start_body_cancelled_def cancelled_config_def cancelled_connecting_def 1 2 3 Let_def core_simps
        split: cancel_point.splits sum.splits if_splits)
qed

lemma start_cancelled_cases:
  obtains (refused) "\<not> is_valid_transition (sv_state s) SvcSTARTING" "fst (start_cancelled pt env path s) = s"
  | (completed) "is_valid_transition (sv_state s) SvcSTARTING" "fst (start_cancelled pt env path s) = fst (start env path s)"
  | (interrupted) "is_valid_transition (sv_state s) SvcSTARTING" "snd (start_cancelled pt env path s) = Some CancelledError"
      "sv_state (fst (start_cancelled pt env path s)) = SvcSTARTING"
      "sv_ready_event (fst (start_cancelled pt env path s)) = sv_ready_event s"
proof (cases "is_valid_transition (sv_state s) SvcSTARTING")
  case True
  then obtain s0 where s0: "svc_transition SvcSTARTING s = Inr s0" "sv_state s0 = SvcSTARTING" "sv_ready_event s0 = sv_ready_event s"
    by (auto simp: svc_transition_def emit_def)
  let ?t = "s0\<lparr>sv_error_message := None, sv_config_path := Some path\<rparr>"
  show thesis
  proof (cases "start_body_cancelled pt env path ?t")
    case None
    with True s0 completed show thesis by (simp add: start_cancelled_def split: prod.splits sum.splits)
  next
    case (Some t)
    from core_body_cancelled [OF this] have "sv_state t = SvcSTARTING" "sv_ready_event t = sv_ready_event s"
      by (simp_all add: core_def s0)
    with True s0 Some interrupted show thesis by (simp add: start_cancelled_def)
  qed
qed (use refused in \<open>simp add: start_cancelled_def svc_transition_def\<close>)

section \<open>Stop\<close>

lemma stop_components_state:
  "sv_state (fst (stop_components env s)) = sv_state s"
  by (simp add: stop_components_def Let_def split: option.split prod.split)

lemma stop_components_raised:
  "snd (stop_components env s) = None \<Longrightarrow>
     sv_manager (fst (stop_components env s)) = stop_all (so_now env) (sv_manager s) \<and>
     sv_health_checker (fst (stop_components env s)) = None \<and> \<not> sv_config_watcher (fst (stop_components env s))"
  by (auto simp: stop_components_def Let_def split: option.splits prod.splits if_splits)

lemma transition_or_raise_stopping:
  "sv_state s = SvcSTOPPING \<Longrightarrow> t \<in> {SvcSTOPPED, SvcERROR} \<Longrightarrow>
   sv_state (fst (transition_or_raise t s)) = t \<and> snd (transition_or_raise t s) = None \<and>
   sv_manager (fst (transition_or_raise t s)) = sv_manager s"
  by (auto simp: transition_or_raise_def svc_transition_def is_valid_transition_def emit_def)

lemma stop_body_effect:
  assumes "sv_state s = SvcSTOPPING"
  shows "\<not> sv_ready_event (fst (stop_body env s))"
    "sv_state (fst (stop_body env s)) = (case snd (stop_components env s) of
        None \<Rightarrow> SvcSTOPPED
      | Some (Exc e st subs) \<Rightarrow> (case e of RuntimeError m \<Rightarrow> SvcSTOPPED | _ \<Rightarrow> SvcERROR)
      | Some e \<Rightarrow> SvcSTOPPING)"
    "snd (stop_body env s) = (case snd (stop_components env s) of
        Some CancelledError \<Rightarrow> Some CancelledError | Some Deadline \<Rightarrow> Some Deadline | _ \<Rightarrow> None)"
    "sv_manager (fst (stop_body env s)) = sv_manager (fst (stop_components env s))"
proof -
  obtain s1 r where c: "stop_components env s = (s1, r)" by fastforce
  have s1: "sv_state s1 = SvcSTOPPING" using stop_components_state [of env s] assms by (simp add: c)
  have u: "sv_state (s1\<lparr>sv_error_message := em\<rparr>) = SvcSTOPPING" for em using s1 by simp
  note tr = transition_or_raise_stopping [OF s1] transition_or_raise_stopping [OF u]
  show "\<not> sv_ready_event (fst (stop_body env s))"
    by (simp add: stop_body_def c Let_def case_prod_beta)
  show "sv_state (fst (stop_body env s)) = (case snd (stop_components env s) of
        None \<Rightarrow> SvcSTOPPED
      | Some (Exc e st subs) \<Rightarrow> (case e of RuntimeError m \<Rightarrow> SvcSTOPPED | _ \<Rightarrow> SvcERROR)
      | Some e \<Rightarrow> SvcSTOPPING)"
    "snd (stop_body env s) = (case snd (stop_components env s) of
        Some CancelledError \<Rightarrow> Some CancelledError | Some Deadline \<Rightarrow> Some Deadline | _ \<Rightarrow> None)"
    "sv_manager (fst (stop_body env s)) = sv_manager (fst (stop_components env s))"
    using tr s1 by (auto simp: stop_body_def c Let_def case_prod_beta split: option.split base_exn.split exn.split)
qed

lemma stop_cases:
  obtains (ignored) "sv_state s \<in> {SvcPENDING, SvcSTOPPED, SvcSTOPPING}" "stop env s = (s, None)"
  | (body) s1 where "sv_state s \<in> {SvcRUNNING, SvcERROR, SvcSTARTING}" "sv_state s1 = SvcSTOPPING"
      "sv_manager s1 = sv_manager s" "stop env s = stop_body env s1"
proof -
  have "\<exists>s1. svc_transition SvcSTOPPING s = Inr s1 \<and> sv_state s1 = SvcSTOPPING \<and> sv_manager s1 = sv_manager s"
    if "sv_state s \<in> {SvcRUNNING, SvcERROR}"
    using that by (auto simp: svc_transition_def is_valid_transition_def emit_def)
  moreover have "\<exists>s1. svc_transition SvcSTOPPING (s\<lparr>sv_state := SvcERROR\<rparr>) = Inr s1 \<and> sv_state s1 = SvcSTOPPING \<and>
      sv_manager s1 = sv_manager s"
    by (auto simp: svc_transition_def is_valid_transition_def emit_def)
  ultimately show thesis
    using ignored body by (cases "sv_state s") (auto simp: stop_def)
qed

section \<open>The state machine\<close>

datatype sv_op =
    Start start_env string
  | CancelledStart cancel_point start_env string
  | Stop stop_env
  | Shutdown stop_env nat
  | Reload reload_env
  | ConfigChanged reload_env
  | Reconnect reconnect_env string
  | Reauth "unit res option" string
  | SetParallel bool

fun sv_step :: "sv_op \<Rightarrow> ArgusService \<Rightarrow> ArgusService" where
  "sv_step (Start env path) s = fst (start env path s)"
| "sv_step (CancelledStart pt env path) s = fst (start_cancelled pt env path s)"
| "sv_step (Stop env) s = fst (stop env s)"
| "sv_step (Shutdown env t) s = fst (shutdown env t s)"
| "sv_step (Reload env) s = fst (reload env s)"
| "sv_step (ConfigChanged env) s = fst (on_config_file_changed env s)"
| "sv_step (Reconnect env n) s = fst (reconnect_backend env n s)"
| "sv_step (Reauth oc n) s = fst (reauth_backend oc n s)"
| "sv_step (SetParallel b) s = s\<lparr>sv_parallel := b\<rparr>"

lemma emit_state [simp]: "sv_state (emit a b c d s) = sv_state s" "sv_ready_event (emit a b c d s) = sv_ready_event s"
    "sv_manager (emit a b c d s) = sv_manager s" "sv_registries (emit a b c d s) = sv_registries s"
    "sv_registry (emit a b c d s) = sv_registry s" "sv_config_path (emit a b c d s) = sv_config_path s"
    "sv_tools (emit a b c d s) = sv_tools s" "sv_config_data (emit a b c d s) = sv_config_data s"
  by (simp_all add: emit_def)

definition ready_ok :: "ArgusService \<Rightarrow> bool" where
  "ready_ok s \<longleftrightarrow> (sv_ready_event s \<longleftrightarrow> sv_state s = SvcRUNNING)"

lemma ready_ok_core: "ready_ok s \<Longrightarrow> core s' = core s \<Longrightarrow> ready_ok s'"
  by (simp add: ready_ok_def core_def)

lemma ready_ok_stop: "ready_ok s \<Longrightarrow> ready_ok (fst (stop env s))"
proof (cases rule: stop_cases [where s = s and env = env])
  case (body s1)
  then show ?thesis using stop_body_effect(1,2) [OF body(2), of env]
    by (auto simp: ready_ok_def split: option.splits base_exn.splits exn.splits)
qed simp

lemma stop_not_starting: "sv_state (fst (stop env s)) \<noteq> SvcSTARTING"
proof (cases rule: stop_cases [where s = s and env = env])
  case (body s1)
  then show ?thesis using stop_body_effect(2) [OF body(2), of env]
    by (auto split: option.splits base_exn.splits exn.splits)
qed auto

lemma stop_deadline:
  "snd (stop env s) = Some Deadline \<Longrightarrow> sv_state (fst (stop env s)) = SvcSTOPPING \<and> \<not> sv_ready_event (fst (stop env s))"
proof (cases rule: stop_cases [where s = s and env = env])
  case (body s1)
  assume "snd (stop env s) = Some Deadline"
  with body stop_body_effect [OF body(2), of env] show ?thesis
    by (auto split: option.splits base_exn.splits)
qed simp

lemma shutdown_eq:
  "shutdown env t s = (let (s1, r) = stop env (emit ''status'' ''Shutdown requested via management API.'' ''info'' None s)
     in if r = Some Deadline
        then (s1\<lparr>sv_error_message := Some (''Shutdown timed out after '' @ show_nat t @ ''s''), sv_state := SvcERROR\<rparr>, None)
        else (s1, r))"
  by (simp add: shutdown_def Let_def split: prod.split option.split base_exn.split)

lemma ready_ok_shutdown:
  assumes "ready_ok s"
  shows "ready_ok (fst (shutdown env t s))"
proof -
  let ?s = "emit ''status'' ''Shutdown requested via management API.'' ''info'' None s"
  have "ready_ok ?s" using assms by (simp add: ready_ok_def)
  then have "ready_ok (fst (stop env ?s))" by (rule ready_ok_stop)
  with stop_deadline [of env ?s] show ?thesis
    by (simp add: shutdown_eq Let_def case_prod_beta ready_ok_def)
qed

lemma ready_ok_step [inv_intros]:
  assumes "ready_ok s"
  shows "ready_ok (sv_step op s)"
proof (cases op)
  case (Start env path)
  show ?thesis
  proof (cases "is_valid_transition (sv_state s) SvcSTARTING")
    case True
    with start_accepted [OF True, of env path] Start show ?thesis by (auto simp: ready_ok_def)
  qed (use assms Start in \<open>simp add: start_refused\<close>)
next
  case (CancelledStart pt env path)
  show ?thesis
  proof (cases rule: start_cancelled_cases [where pt = pt and env = env and path = path and s = s])
    case refused
    with assms CancelledStart show ?thesis by simp
  next
    case completed
    with start_accepted [of s env path] CancelledStart show ?thesis by (auto simp: ready_ok_def)
  next
    case interrupted
    with assms CancelledStart show ?thesis by (auto simp: ready_ok_def is_valid_transition_def)
  qed
next
  case (SetParallel b)
  with assms show ?thesis by (simp add: ready_ok_def)
qed (use assms in \<open>auto intro: ready_ok_stop ready_ok_shutdown ready_ok_core [OF assms] simp: core_simps\<close>)

lemma ready_ok_run: "ready_ok (fold sv_step ops (new_service stamp))"
proof -
  have "ready_ok s \<Longrightarrow> ready_ok (fold sv_step ops s)" for s
    by (induction ops arbitrary: s) (simp_all add: ready_ok_step)
  then show ?thesis by (simp add: ready_ok_def new_service_def)
qed

text \<open>Only a cancelled start ends with the service starting, and any stop gets it out of that state.\<close>

lemma starting_step:
  assumes "sv_state (sv_step op s) = SvcSTARTING" "sv_state s \<noteq> SvcSTARTING"
  shows "\<exists>pt env path. op = CancelledStart pt env path"
proof (cases op)
  case (Start env path)
  show ?thesis
  proof (cases "is_valid_transition (sv_state s) SvcSTARTING")
    case True
    with start_accepted [OF True, of env path] assms Start show ?thesis by auto
  qed (use assms Start in \<open>simp add: start_refused\<close>)
next
  case (Stop env)
  with assms stop_not_starting [of env s] show ?thesis by simp
next
  case (Shutdown env t)
  with assms stop_not_starting [of env "emit ''status'' ''Shutdown requested via management API.'' ''info'' None s"]
  show ?thesis by (simp add: shutdown_eq Let_def case_prod_beta split: if_splits)
next
  case (Reload env)
  with assms core_state [OF core_reload [of env s]] show ?thesis by simp
next
  case (ConfigChanged env)
  with assms core_state [OF core_config_changed [of env s]] show ?thesis by simp
next
  case (Reconnect env n)
  with assms core_state [OF core_reconnect [of env n s]] show ?thesis by simp
next
  case (Reauth oc n)
  with assms core_state [OF core_reauth [of oc n s]] show ?thesis by simp
qed (use assms in auto)

lemma starting_run:
  assumes "sv_state (fold sv_step ops s) = SvcSTARTING" "sv_state s \<noteq> SvcSTARTING"
  shows "\<exists>pt env path. CancelledStart pt env path \<in> set ops"
  using assms
proof (induction ops arbitrary: s)
  case (Cons op ops)
  then show ?case
    using starting_step [of op s] Cons.IH [of "sv_step op s"]
    by (cases "sv_state (sv_step op s) = SvcSTARTING") fastforce+
qed simp

text \<open>
  C14: Calls of the service that do not overlap: after any sequence of starts, stops, shutdowns,
  reloads, reconnects and re-authentications, with any outcome of everything they wait for,
  also of starts that are cancelled at one of their awaits, the readiness event is set exactly
  when the service is running. The service is found starting only if some start was cancelled,
  and a stop always gets it out of that state.
\<close>

theorem ready_exactly_when_running:
  fixes ops stamp senv
  defines "s \<equiv> fold sv_step ops (new_service stamp)"
  shows "(sv_ready_event s \<longleftrightarrow> sv_state s = SvcRUNNING) \<and>
    (sv_state s = SvcSTARTING \<longrightarrow> (\<exists>pt env path. CancelledStart pt env path \<in> set ops)) \<and>
    sv_state (fst (stop senv s)) \<noteq> SvcSTARTING"
  unfolding s_def
  using ready_ok_run [of ops stamp] starting_run [of ops "new_service stamp"]
    stop_not_starting [of senv "fold sv_step ops (new_service stamp)"]
  by (simp add: ready_ok_def new_service_def)

text \<open>A configuration with one backend that offers one tool.\<close>

definition ex_tool_session :: session where
  "ex_tool_session = (\<lambda>ct. case ct of
       Tools \<Rightarrow> Inr (WithAttr [Item \<lparr>cap_name = ''fetch'', cap_description = None\<rparr>])
     | _ \<Rightarrow> Inr ReturnedNone)"

definition ex_argus_config :: ArgusConfig where
  "ex_argus_config = \<lparr>ac_strategy = ''first-wins'', ac_separator = ''_'', ac_order = [], ac_backends = [],
     ac_refresh_enabled = False, ac_reconnect_timeout = None\<rparr>"

definition ex_start :: start_env where
  "ex_start = \<lparr>se_config = Inr [(''web'', ex_remote)], se_full = Inr ex_argus_config, se_registry = Inr ex_argus_config,
     se_groups = Inr ex_argus_config, se_settings = Inr ex_argus_config, se_startup = ex_env ex_attempt, se_startup_raises = None,
     se_answers = (\<lambda>h. ex_tool_session), se_order = [(''web'', Tools, ex_tool_session Tools)], se_now = 0,
     se_health_raises = None, se_watcher_raises = None\<rparr>"

text \<open>A start cancelled while it reads the configuration leaves the service starting.\<close>

theorem ready_exactly_when_running_witness:
  "sv_state (fold sv_step [CancelledStart InFullConfig ex_start ''c''] (new_service (\<lambda>n. ([], [])))) = SvcSTARTING \<and>
   \<not> sv_ready_event (fold sv_step [CancelledStart InFullConfig ex_start ''c''] (new_service (\<lambda>n. ([], []))))"
proof -
  have "sv_state (fold sv_step [CancelledStart InFullConfig ex_start ''c''] (new_service (\<lambda>n. ([], [])))) = SvcSTARTING"
    by (simp add: ex_start_def new_service_def start_cancelled_def svc_transition_def is_valid_transition_def
      start_body_cancelled_def cancelled_config_def emit_def)
  with ready_exactly_when_running [of "[CancelledStart InFullConfig ex_start ''c'']" "\<lambda>n. ([], [])"]
  show ?thesis by simp
qed

lemmas kept_states = core_reload [THEN core_state] core_config_changed [THEN core_state]
  core_reconnect [THEN core_state] core_reauth [THEN core_state]

lemma final_step:
  assumes "sv_state s \<in> {SvcSTOPPED, SvcSTOPPING}"
  shows "sv_state (sv_step op s) = sv_state s"
proof (cases op)
  case (Start env path)
  have "\<not> is_valid_transition (sv_state s) SvcSTARTING" using assms by (auto simp: is_valid_transition_def)
  with Start show ?thesis by (simp add: start_refused)
next
  case (CancelledStart pt env path)
  have "\<not> is_valid_transition (sv_state s) SvcSTARTING" using assms by (auto simp: is_valid_transition_def)
  with CancelledStart show ?thesis
    by (cases rule: start_cancelled_cases [where pt = pt and env = env and path = path and s = s]) auto
next
  case (Stop env)
  with assms show ?thesis by (cases rule: stop_cases [where s = s and env = env]) auto
next
  case (Shutdown env t)
  let ?s = "emit ''status'' ''Shutdown requested via management API.'' ''info'' None s"
  have "sv_state ?s \<in> {SvcSTOPPED, SvcSTOPPING}" using assms by simp
  then have "stop env ?s = (?s, None)" by (cases rule: stop_cases [where s = ?s and env = env]) auto
  with Shutdown show ?thesis by (simp add: shutdown_eq)
qed (simp_all add: kept_states)

text \<open>
  A stopped service stays stopped: no call leaves the state STOPPED, and a start raises
  without effect. The same holds of STOPPING: when a stop is cancelled, its service is left
  in that state and neither a further stop nor a start gets it out again.
\<close>

theorem stopped_is_final:
  assumes "sv_state s \<in> {SvcSTOPPED, SvcSTOPPING}"
  shows "sv_state (fold sv_step ops s) = sv_state s \<and>
    start env path (fold sv_step ops s) = (fold sv_step ops s, Inl (InvalidStateTransition (sv_state s) SvcSTARTING)) \<and>
    fst (stop senv (fold sv_step ops s)) = fold sv_step ops s"
proof -
  have st: "sv_state (fold sv_step ops s) = sv_state s"
    using assms
  proof (induction ops arbitrary: s)
    case (Cons op ops)
    with final_step [OF Cons.prems, of op] show ?case by simp
  qed simp
  moreover have "\<not> is_valid_transition (sv_state s) SvcSTARTING" using assms by (auto simp: is_valid_transition_def)
  ultimately show ?thesis
    using assms start_refused [of "fold sv_step ops s" env path]
    by (cases rule: stop_cases [where s = "fold sv_step ops s" and env = senv]) auto
qed

text \<open>A service that a stop was cancelled in, and one that was stopped.\<close>

definition ex_stopped :: "base_exn option \<Rightarrow> ArgusService" where
  "ex_stopped raised = fst (stop \<lparr>so_watcher = None, so_health = None,
       so_manager = map_option (Pair new_client_manager) raised, so_now = 0\<rparr>
     ((new_service (\<lambda>n. ([], [])))\<lparr>sv_state := SvcRUNNING, sv_ready_event := True\<rparr>))"

theorem stopped_is_final_witness:
  "sv_state (fold sv_step [SetParallel True] (ex_stopped (Some CancelledError))) = SvcSTOPPING \<and>
   sv_state (fold sv_step [SetParallel True] (ex_stopped None)) = SvcSTOPPED"
proof -
  have c: "sv_state (ex_stopped (Some CancelledError)) = SvcSTOPPING" "sv_state (ex_stopped None) = SvcSTOPPED"
    by code_simp+
  then show ?thesis
    using stopped_is_final [of "ex_stopped (Some CancelledError)" "[SetParallel True]"]
      stopped_is_final [of "ex_stopped None" "[SetParallel True]"] by simp
qed

section \<open>What a successful start has achieved\<close>

lemma build_registry_consistent: "build_registry l s = Inr r \<Longrightarrow> reg_consistent r"
  by (auto simp: build_registry_def registry_of_config_def init_consistent Let_def split: if_splits sum.splits)

lemma load_config_total:
  "load_config env path s = (s1, Inr config) \<Longrightarrow> sv_backends_total s1 = length config"
  by (auto simp: load_config_def Let_def emit_def split: sum.splits)

lemma build_components_registry:
  assumes "build_components env s = (s2, Inr u)"
  shows "reg_consistent (current_registry s2) \<and> sv_registry s2 < length (sv_registries s2) \<and> sv_backends_total s2 = sv_backends_total s"
proof -
  obtain r g where "build_registry (se_registry env) s = Inr r" "s2 = (install_registry r s)\<lparr>sv_group_manager := Some g\<rparr>"
    using assms by (auto simp: build_components_def Let_def split: sum.splits)
  then show ?thesis
    using build_registry_consistent by (simp add: install_registry_def current_registry_def)
qed

lemma progress_frame_sv:
  "sv_registries (fold progress_event ps s) = sv_registries s \<and> sv_registry (fold progress_event ps s) = sv_registry s \<and>
   sv_manager (fold progress_event ps s) = sv_manager s \<and> sv_backends_connected (fold progress_event ps s) = sv_backends_connected s \<and>
   sv_backends_total (fold progress_event ps s) = sv_backends_total s"
  by (induction ps arbitrary: s) (auto simp: progress_event_def emit_def split: prod.split)

lemma connect_all_counts:
  assumes "connect_all env config s = (s3, Inr u)"
  shows "sv_registries s3 = sv_registries s \<and> sv_registry s3 = sv_registry s \<and>
    sv_backends_connected s3 = length (cm_sessions (sv_manager s3)) \<and> (0 < sv_backends_connected s3 \<or> sv_backends_total s3 = 0) \<and>
    sv_backends_total s3 = sv_backends_total s"
proof -
  define s1 where "s1 = emit ''backend_init'' (''Connecting '' @ show_nat (sv_backends_total s) @ '' backend service(s)...'') ''info'' None s"
  obtain m c' where sa: "start_all (se_startup env) True (sv_parallel s1) (sv_manager s1, config) = (m, c')" by fastforce
  define ps where "ps = drop (length (cm_progress_log (sv_manager s1))) (cm_progress_log m)"
  define s2 where "s2 = fold progress_event ps (s1\<lparr>sv_manager := m, sv_config_data := Some c',
      sv_backends_connected := length (get_all_sessions m)\<rparr>)"
  have s2: "sv_registries s2 = sv_registries s" "sv_registry s2 = sv_registry s" "sv_manager s2 = m"
    "sv_backends_connected s2 = length (cm_sessions m)" "sv_backends_total s2 = sv_backends_total s"
    by (simp_all add: s2_def progress_frame_sv s1_def get_all_sessions_def) (simp add: emit_def)
  have "\<not> (sv_backends_connected s2 = 0 \<and> 0 < sv_backends_total s2)"
    "s3 = emit ''backend_connected'' (''Backend connections: '' @ show_nat (sv_backends_connected s2) @ ''/''
       @ show_nat (sv_backends_total s2) @ '' active.'') ''info'' None s2"
    using assms unfolding connect_all_def Let_def s1_def [symmetric] sa prod.case ps_def [symmetric] s2_def [symmetric]
    by (auto split: option.splits if_splits)
  then show ?thesis using s2 by (auto simp: emit_def)
qed

lemma advertised_tool_resolves:
  assumes "reg_consistent reg" "x \<in> set (tools reg)"
  shows "resolve_capability reg (cap_name x) \<noteq> None"
proof -
  have "cap_name x \<in> names_of (caps_of reg Tools)" using assms(2) by simp
  then have "cap_name x \<in> (\<Union>ct. names_of (caps_of reg ct))" by blast
  then have "cap_name x \<in> fst ` set (route_map reg)" using assms(1) by (simp only: reg_consistent_def)
  then show ?thesis unfolding resolve_capability_def by (simp only: dict_get_None_iff not_not)
qed

lemma prepare_startE:
  assumes "prepare_start env path s0 = (t, Inr ())"
  obtains s1 config s2 u s3 v where "load_config env path s0 = (s1, Inr config)" "build_components env s1 = (s2, Inr u)"
    "connect_all env config s2 = (s3, Inr v)" "t = start_discovery env (start_refresh env s3)"
proof -
  obtain s1 r1 where 1: "load_config env path s0 = (s1, r1)" by fastforce
  obtain s2 r2 where 2: "build_components env s1 = (s2, r2)" by fastforce
  show thesis
  proof (cases r1)
    case (Inl e)
    with assms show thesis by (simp add: prepare_start_def 1)
  next
    case r1: (Inr config)
    obtain s3 r3 where 3: "connect_all env config s2 = (s3, r3)" by fastforce
    from assms show thesis
      by (cases r2; cases r3) (simp_all add: prepare_start_def 1 2 3 r1 that)
  qed
qed

text \<open>
  A start that returns leaves the service running and ready with at least one backend
  connected, or none configured; the number of connected backends is the number of sessions,
  the health checker watches the current registry, and every tool the service lists resolves
  to a backend.
\<close>

theorem successful_start:
  assumes "start env path s = (s', Inr ())"
  shows "sv_state s' = SvcRUNNING \<and> sv_ready_event s' \<and>
    sv_backends_connected s' = length (cm_sessions (sv_manager s')) \<and>
    (sv_backends_connected s' = 0 \<longrightarrow> sv_backends_total s' = 0) \<and>
    sv_health_checker s' = Some (sv_registry s') \<and>
    (0 < sv_backends_connected s' \<longrightarrow>
       (\<forall>t \<in> set (sv_tools s'). resolve_capability (current_registry s') (cap_name t) \<noteq> None))"
proof -
  have valid: "is_valid_transition (sv_state s) SvcSTARTING"
    using assms start_refused [of s env path] by (cases "is_valid_transition (sv_state s) SvcSTARTING") auto
  from valid show ?thesis
  proof (cases rule: start_cases [where env = env and path = path])
    case (failed t e)
    with start_failed_early [of t e] assms show ?thesis by simp
  next
    case (late t g e)
    then have "sv_state g = SvcRUNNING" using go_running_effect(1) [of t env] by simp
    with late assms show ?thesis by (simp add: start_failed_late)
  next
    case (running t g)
    then have s': "s' = g" using assms by simp
    obtain s0 where p: "prepare_start env path s0 = (t, Inr ())" using running(5) by blast
    obtain s1 config s2 u s3 v where 1: "load_config env path s0 = (s1, Inr config)" "build_components env s1 = (s2, Inr u)"
      "connect_all env config s2 = (s3, Inr v)" "t = start_discovery env (start_refresh env s3)"
      using p by (rule prepare_startE)
    note c = connect_all_counts [OF 1(3)] build_components_registry [OF 1(2)]
    define r where "r = start_refresh env s3"
    have r: "sv_registries r = sv_registries s3" "sv_registry r = sv_registry s3" "sv_backends_connected r = sv_backends_connected s3"
      "cm_sessions (sv_manager r) = cm_sessions (sv_manager s3)" "sv_backends_total r = sv_backends_total s3"
      by (simp_all add: r_def start_refresh_def start_refresh_service_def split: sum.split)
    have cr: "reg_consistent (current_registry r)" "sv_registry r < length (sv_registries r)"
      using c r by (simp_all add: current_registry_def)
    have t: "cm_sessions (sv_manager t) = cm_sessions (sv_manager r)" "sv_backends_connected t = sv_backends_connected r"
      "sv_backends_total t = sv_backends_total r"
      by (simp_all add: 1(4) r_def [symmetric] start_discovery_def discover_def take_snapshots_def emit_def Let_def)
    have tools: "resolve_capability (current_registry t) (cap_name x) \<noteq> None"
      if "x \<in> set (sv_tools t)" "0 < sv_backends_connected t" for x
    proof -
      define reg where "reg = discover_and_register (live_sessions (se_answers env) r) (se_order env) (current_registry r)"
      have "reg_consistent reg" using discover_consistent cr(1) by (simp add: reg_def)
      moreover have "current_registry t = reg" "sv_tools t = tools reg"
        using that(2) t(2) cr(2)
        by (simp_all add: 1(4) r_def [symmetric] start_discovery_def discover_def take_snapshots_def emit_def Let_def
            current_registry_def reg_def get_aggregated_tools_def)
      ultimately show ?thesis using that(1) advertised_tool_resolves by simp
    qed
    have g: "sv_state g = SvcRUNNING" "sv_ready_event g" using go_running_effect(1,2) [OF running(1), of env] running(3) by simp_all
    have gf: "sv_manager g = sv_manager t" "sv_backends_connected g = sv_backends_connected t"
      "sv_backends_total g = sv_backends_total t" "sv_tools g = sv_tools t" "current_registry g = current_registry t"
      "sv_health_checker g = Some (sv_registry g)"
      using running(3) by (auto simp: go_running_def svc_transition_def emit_def current_registry_def Let_def
          split: if_splits option.splits)
    show ?thesis unfolding s' using g gf t r c tools by (auto simp: gf(4,5))
  qed
qed

text \<open>A start with one remote backend that offers the tool \<open>fetch\<close>.\<close>

definition ex_started :: "start_env \<Rightarrow> ArgusService \<times> unit res" where
  "ex_started env = start env ''argus.yaml'' (new_service (\<lambda>n. ([], [])))"

lemma ex_started_ok:
  "isl (snd (ex_started ex_start)) = False" "map cap_name (sv_tools (fst (ex_started ex_start))) = [''fetch'']"
  "sv_backends_connected (fst (ex_started ex_start)) = 1"
  by code_simp+

lemma ex_started_eq: "start ex_start ''argus.yaml'' (new_service (\<lambda>n. ([], []))) = (fst (ex_started ex_start), Inr ())"
  using ex_started_ok(1) by (cases "snd (ex_started ex_start)") (simp_all add: ex_started_def [symmetric] prod_eq_iff)

theorem successful_start_witness:
  "resolve_capability (current_registry (fst (ex_started ex_start))) ''fetch'' \<noteq> None"
proof -
  have "\<exists>t \<in> set (sv_tools (fst (ex_started ex_start))). cap_name t = ''fetch''"
    using ex_started_ok(2) by (cases "sv_tools (fst (ex_started ex_start))") auto
  moreover have "\<forall>t \<in> set (sv_tools (fst (ex_started ex_start))).
      resolve_capability (current_registry (fst (ex_started ex_start))) (cap_name t) \<noteq> None"
    using successful_start [OF ex_started_eq] ex_started_ok(3) by simp
  ultimately show ?thesis by (metis (full_types))
qed

text \<open>
  When the configuration, the components or the connections fail, a start raises the
  exception it met, and the service is in the state ERROR, not ready, with the exception as
  its error message; from there both a new start and a stop are accepted.
\<close>

theorem failed_start_reports_error:
  assumes "is_valid_transition (sv_state s) SvcSTARTING" "start env path s = (s', Inl e)"
    and "se_health_raises env = None" "se_watcher_raises env = None"
  shows "sv_state s' = SvcERROR \<and> \<not> sv_ready_event s' \<and> sv_error_message s' = Some (exn_class e @ '': '' @ exn_str e) \<and>
    is_valid_transition (sv_state s') SvcSTARTING \<and> is_valid_transition (sv_state s') SvcSTOPPING"
  using assms(1)
proof (cases rule: start_cases [where env = env and path = path])
  case (failed t e')
  then have "snd (start env path s) = Inl e'" using start_failed_early [of t e'] by simp
  with assms(2) have "e' = e" by simp
  with failed(2) assms(2) have "s' = fst (start_failed e t)" by (metis fst_conv)
  with start_failed_early [OF failed(1), of e] show ?thesis by (simp add: is_valid_transition_def)
next
  case (late t g e')
  with go_running_effect(3) [OF late(1), of env] assms(3,4) show ?thesis by auto
qed (use assms in simp)

theorem failed_start_reports_error_witness:
  "sv_state (fst (ex_started (ex_start\<lparr>se_config := Inl (ConfigurationError ''bad'')\<rparr>))) = SvcERROR"
proof -
  let ?env = "ex_start\<lparr>se_config := Inl (ConfigurationError ''bad'')\<rparr>"
  have "isl (snd (ex_started ?env))" by code_simp
  then obtain e where "start ?env ''argus.yaml'' (new_service (\<lambda>n. ([], []))) = (fst (ex_started ?env), Inl e)"
    by (cases "snd (ex_started ?env)") (simp_all add: ex_started_def [symmetric] prod_eq_iff)
  from failed_start_reports_error [OF _ this] show ?thesis
    by (simp add: new_service_def is_valid_transition_def ex_start_def)
qed

lemma prepare_start_late [simp]:
  "prepare_start (env\<lparr>se_health_raises := h\<rparr>) path s = prepare_start env path s"
proof -
  have sel: "se_config (env\<lparr>se_health_raises := h\<rparr>) = se_config env" "se_full (env\<lparr>se_health_raises := h\<rparr>) = se_full env"
    "se_registry (env\<lparr>se_health_raises := h\<rparr>) = se_registry env" "se_groups (env\<lparr>se_health_raises := h\<rparr>) = se_groups env"
    "se_settings (env\<lparr>se_health_raises := h\<rparr>) = se_settings env" "se_startup (env\<lparr>se_health_raises := h\<rparr>) = se_startup env"
    "se_startup_raises (env\<lparr>se_health_raises := h\<rparr>) = se_startup_raises env"
    "se_answers (env\<lparr>se_health_raises := h\<rparr>) = se_answers env" "se_order (env\<lparr>se_health_raises := h\<rparr>) = se_order env"
    by simp_all
  have "load_config (env\<lparr>se_health_raises := h\<rparr>) = load_config env"
    "build_components (env\<lparr>se_health_raises := h\<rparr>) = build_components env"
    "connect_all (env\<lparr>se_health_raises := h\<rparr>) = connect_all env"
    "start_refresh (env\<lparr>se_health_raises := h\<rparr>) = start_refresh env"
    "start_discovery (env\<lparr>se_health_raises := h\<rparr>) = start_discovery env"
    by (simp_all only: fun_eq_iff load_config_def build_components_def connect_all_def start_refresh_def start_discovery_def
        sel HOL.simp_thms)
  then show ?thesis by (simp only: prepare_start_def)
qed

text \<open>
  When the health checker cannot be started, the service has been declared running before:
  the handler of the failure asks for a transition from RUNNING to ERROR, which the table does
  not have, so that the start raises the complaint about the transition instead of the failure,
  and the service stays in the state RUNNING, ready, without a configuration watcher.
\<close>

theorem late_start_failure_masks_the_error:
  assumes "start env path s = (s0, Inr ())" "\<not> sv_config_watcher s"
  shows "(let (s', r) = start (env\<lparr>se_health_raises := Some e\<rparr>) path s in
     r = Inl (InvalidStateTransition SvcRUNNING SvcERROR) \<and> sv_state s' = SvcRUNNING \<and> sv_ready_event s' \<and>
     \<not> sv_config_watcher s' \<and>
     sv_error_message s' = Some (exn_class e @ '': '' @ exn_str e))"
proof -
  let ?env = "env\<lparr>se_health_raises := Some e\<rparr>"
  have valid: "is_valid_transition (sv_state s) SvcSTARTING"
    using assms(1) start_refused [of s env path] by (cases "is_valid_transition (sv_state s) SvcSTARTING") auto
  then obtain st where st: "svc_transition SvcSTARTING s = Inr st" by (simp add: svc_transition_def)
  define t where "t = st\<lparr>sv_error_message := None, sv_config_path := Some path\<rparr>"
  have t: "sv_state t = SvcSTARTING" "core t = (SvcSTARTING, sv_ready_event s, sv_health_checker s, False, Some path)"
    using svc_transition_Inr [OF st] assms(2) by (simp_all add: t_def core_def)
  obtain t1 r where p: "prepare_start env path t = (t1, r)" by fastforce
  have t1: "core t1 = core t" using core_prepare_start [of env path t] by (simp add: p)
  have "r = Inr ()"
  proof (cases r)
    case (Inl x)
    then have "start env path s = start_failed x t1" by (simp add: start_def st t_def [symmetric] start_body_prepare p)
    with assms(1) start_failed_early [of t1 x] t t1 show ?thesis by (simp add: core_def)
  qed simp
  then have "start ?env path s = (case go_running ?env t1 of (g, Inr u) \<Rightarrow> (g, Inr u) | (g, Inl x) \<Rightarrow> start_failed x g)"
    by (simp add: start_def st t_def [symmetric] start_body_prepare p split: prod.split sum.split)
  moreover obtain g where g: "go_running ?env t1 = (g, Inl e)" "sv_state g = SvcRUNNING" "sv_ready_event g"
    "\<not> sv_config_watcher g"
    using t t1 by (auto simp: go_running_def svc_transition_def is_valid_transition_def emit_def core_def Let_def)
  ultimately show ?thesis by (simp add: start_failed_late)
qed

theorem late_start_failure_masks_the_error_witness:
  "snd (ex_started (ex_start\<lparr>se_health_raises := Some (RuntimeError ''no loop'')\<rparr>)) = Inl (InvalidStateTransition SvcRUNNING SvcERROR)"
  using late_start_failure_masks_the_error [OF ex_started_eq, of "RuntimeError ''no loop''"]
  by (simp add: ex_started_def new_service_def case_prod_beta Let_def)

end
