(* ===== verification/Service_Reload.thy ===== *)
theory Service_Reload
  imports Service_Properties
begin

text \<open>
  What a reload of the configuration (\<open>runtime/service.py\<close>) does to the connections, the registry
  and the exit stacks, and what it leaves as it was.
\<close>

section \<open>Connections of other backends\<close>

lemma open_session_sessions:
  "o1 \<noteq> n \<Longrightarrow> dict_get (cm_sessions (fst (open_session a n conf t m))) o1 = dict_get (cm_sessions m) o1"
  by (simp add: open_session_def split: sum.split init_outcome.split option.split)

lemma prepare_stacks:
  "o1 \<noteq> n \<Longrightarrow> dict_get (cm_backend_stacks (fst (prepare_backend_stack n c m))) o1 = dict_get (cm_backend_stacks m) o1"
  by (simp add: prepare_backend_stack_def Let_def split: option.split)

lemma prepare_sessions: "cm_sessions (fst (prepare_backend_stack n c m)) = cm_sessions m"
  by (simp add: prepare_backend_stack_def Let_def split: option.split)

text \<open>An attempt for one backend keeps the session and the exit stack of every other.\<close>

definition keeps_connection :: "string \<Rightarrow> ClientManager \<Rightarrow> ClientManager \<Rightarrow> bool" where
  "keeps_connection o1 m m' \<longleftrightarrow> dict_get (cm_sessions m') o1 = dict_get (cm_sessions m) o1 \<and>
     dict_get (cm_backend_stacks m') o1 = dict_get (cm_backend_stacks m) o1"

lemma keeps_connection_trans:
  "keeps_connection o1 m m' \<Longrightarrow> keeps_connection o1 m' m'' \<Longrightarrow> keeps_connection o1 m m''"
  by (simp add: keeps_connection_def)

lemma connect_backend_keeps:
  assumes "o1 \<noteq> n"
  shows "keeps_connection o1 m (fst (connect_backend a n conf t m))"
proof -
  define p where "p = resolve_auth_provider n conf (cm_discovered_auth m) (a_provider a)"
  obtain m2 e where pr: "prepare_backend_stack n (a_close a) (store_provider n p m) = (m2, e)" by fastforce
  have m2: "keeps_connection o1 m m2"
    using prepare_stacks [OF assms, of "a_close a" "store_provider n p m"] prepare_sessions [of n "a_close a" "store_provider n p m"]
    by (simp add: pr keeps_connection_def)
  then have "keeps_connection o1 m (fst (open_session a n conf t m2))"
    using open_session_sessions [OF assms, of a conf t m2] by (simp add: keeps_connection_def)
  moreover have "connect_backend a n conf t m =
      (case (if p \<noteq> None then a_headers a else None) of Some e \<Rightarrow> (store_provider n p m, Some e)
       | None \<Rightarrow> (case e of Some e \<Rightarrow> (m2, Some e) | None \<Rightarrow> open_session a n conf t m2))"
    unfolding connect_backend_def Let_def p_def [symmetric] pr by (simp split: option.split)
  ultimately show ?thesis using m2 by (simp add: keeps_connection_def split: option.split)
qed

lemma start_backend_keeps:
  assumes "o1 \<noteq> n"
  shows "keeps_connection o1 m (fst (start_backend_svr a n conf m))"
proof -
  obtain m2 conf2 e where b: "build_if_missing a n conf (announce_attempt a n (conf_get conf ''type'') m) = (m2, conf2, e)"
    using prod_cases3 by blast
  then have "m2 = fst (build_if_missing a n conf (announce_attempt a n (conf_get conf ''type'') m))" by simp
  then have m2: "keeps_connection o1 m m2" by (simp add: keeps_connection_def)
  obtain m3 e3 where c: "connect_backend a n conf2 (conf_get conf ''type'') m2 = (m3, e3)" by fastforce
  have m3: "keeps_connection o1 m m3"
    using keeps_connection_trans [OF m2 connect_backend_keeps [OF assms, of m2 a conf2 "conf_get conf ''type''"]]
    by (simp add: c)
  show ?thesis
    using m2 m3 by (auto simp: start_backend_svr_def Let_def b c keeps_connection_def split: option.split base_exn.split)
qed

lemma connect_one_keeps:
  "o1 \<noteq> n \<Longrightarrow> keeps_connection o1 (sv_manager s) (sv_manager (fst (connect_one a n cs s)))"
  using start_backend_keeps [of o1 n "sv_manager s" a "dict_get_or [] cs n"]
  by (simp add: connect_one_def case_prod_beta)

lemma disconnect_one_get:
  "dict_get (cm_sessions (disconnect_one n m)) o1 = (if o1 = n then None else dict_get (cm_sessions m) o1)"
  "dict_get (cm_backend_stacks (disconnect_one n m)) o1 = (if o1 = n then None else dict_get (cm_backend_stacks m) o1)"
  by (auto simp: disconnect_one_def Let_def split: option.split)

lemma disconnect_backend_keeps:
  "o1 \<noteq> n \<Longrightarrow> keeps_connection o1 (sv_manager s) (sv_manager (disconnect_backend n s))"
  by (simp add: disconnect_backend_def keeps_connection_def disconnect_one_get)

lemma disconnect_backend_session:
  "dict_get (cm_sessions (sv_manager (disconnect_backend n s))) n = None"
  by (simp add: disconnect_backend_def disconnect_one_get get_session_def)

text \<open>A backend that is not connected is not disconnected: its exit stack stays.\<close>

lemma disconnect_unconnected:
  "dict_get (cm_sessions (sv_manager s)) n = None \<Longrightarrow> disconnect_backend n s = s"
  by (simp add: disconnect_backend_def get_session_def)

lemma disconnect_all_keeps:
  "o1 \<notin> set ns \<or> dict_get (cm_sessions (sv_manager s)) o1 = None \<Longrightarrow>
   keeps_connection o1 (sv_manager s) (sv_manager (fold disconnect_backend ns s))"
proof (induction ns arbitrary: s)
  case (Cons n ns)
  have k: "keeps_connection o1 (sv_manager s) (sv_manager (disconnect_backend n s))"
    using Cons.prems disconnect_backend_keeps [of o1 n s] disconnect_unconnected [of s n]
    by (cases "o1 = n") (auto simp: keeps_connection_def)
  then have "o1 \<notin> set ns \<or> dict_get (cm_sessions (sv_manager (disconnect_backend n s))) o1 = None"
    using Cons.prems by (auto simp: keeps_connection_def)
  from keeps_connection_trans [OF k Cons.IH [OF this]] show ?case by simp
qed (simp add: keeps_connection_def)

lemma disconnect_all_session:
  "n \<in> set ns \<Longrightarrow> dict_get (cm_sessions (sv_manager (fold disconnect_backend ns s))) n = None"
proof (induction ns arbitrary: s)
  case (Cons m ns)
  show ?case
  proof (cases "n \<in> set ns")
    case False
    with Cons.prems have "m = n" by simp
    have "keeps_connection n (sv_manager (disconnect_backend m s)) (sv_manager (fold disconnect_backend ns (disconnect_backend m s)))"
      using False by (intro disconnect_all_keeps) simp
    with \<open>m = n\<close> show ?thesis by (simp add: keeps_connection_def disconnect_backend_session)
  qed (use Cons.IH in simp)
qed simp

lemma connect_each_keeps:
  "o1 \<notin> set ns \<Longrightarrow> connect_each env ch msg ns (s, cs, errs) = ((s', cs', errs'), r) \<Longrightarrow>
   keeps_connection o1 (sv_manager s) (sv_manager s')"
proof (induction ns arbitrary: s cs errs)
  case (Cons n ns)
  define s0 where "s0 = (if ch then disconnect_backend n s else s)"
  obtain s1 cs1 r1 where c: "connect_one (env n) n cs s0 = (s1, cs1, r1)" using prod_cases3 by blast
  have "keeps_connection o1 (sv_manager s) (sv_manager s0)"
    using Cons.prems(1) disconnect_backend_keeps [of o1 n s] by (simp add: s0_def keeps_connection_def)
  moreover have "keeps_connection o1 (sv_manager s0) (sv_manager s1)"
    using Cons.prems(1) connect_one_keeps [of o1 n s0 "env n" cs] by (simp add: c)
  ultimately have k: "keeps_connection o1 (sv_manager s) (sv_manager s1)" by (rule keeps_connection_trans)
  show ?case
  proof (cases r1)
    case (Inl e)
    with Cons.prems(2) k show ?thesis by (simp add: s0_def [symmetric] c)
  next
    case (Inr ok)
    with Cons.prems(2) have "connect_each env ch msg ns (s1, cs1, if ok then errs else errs @ [msg n]) = ((s', cs', errs'), r)"
      by (simp add: s0_def [symmetric] c)
    from keeps_connection_trans [OF k Cons.IH [OF _ this]] Cons.prems(1) show ?thesis by simp
  qed
qed (simp add: keeps_connection_def)

text \<open>The connection loops change the manager and add no key to the configuration.\<close>

lemma connect_each_frame:
  "connect_each env ch msg ns (s, cs, errs) = ((s', cs', errs'), r) \<Longrightarrow> set ns \<subseteq> fst ` set cs \<Longrightarrow>
   sv_registries s' = sv_registries s \<and> sv_registry s' = sv_registry s \<and> sv_tools s' = sv_tools s \<and>
   sv_config_path s' = sv_config_path s \<and> fst ` set cs' = fst ` set cs"
proof (induction ns arbitrary: s cs errs)
  case (Cons n ns)
  define s0 where "s0 = (if ch then disconnect_backend n s else s)"
  obtain s1 cs1 r1 where c: "connect_one (env n) n cs s0 = (s1, cs1, r1)" using prod_cases3 by blast
  have f: "sv_registries s1 = sv_registries s" "sv_registry s1 = sv_registry s" "sv_tools s1 = sv_tools s"
      "sv_config_path s1 = sv_config_path s"
    using c by (auto simp: connect_one_def s0_def disconnect_backend_def split: prod.splits if_splits)
  obtain x where "cs1 = dict_set n x cs" using c by (auto simp: connect_one_def split: prod.splits)
  with Cons.prems(2) have k: "fst ` set cs1 = fst ` set cs" by (simp add: insert_absorb)
  show ?case
  proof (cases r1)
    case (Inl e)
    with Cons.prems f k show ?thesis by (simp add: s0_def [symmetric] c)
  next
    case (Inr ok)
    with Cons.prems(1) have "connect_each env ch msg ns (s1, cs1, if ok then errs else errs @ [msg n]) = ((s', cs', errs'), r)"
      by (simp add: s0_def [symmetric] c)
    from Cons.IH [OF this] Cons.prems(2) f k show ?thesis by simp
  qed
qed simp

lemma disconnect_all_frame:
  "sv_registries (fold disconnect_backend ns s) = sv_registries s \<and> sv_registry (fold disconnect_backend ns s) = sv_registry s \<and>
   sv_tools (fold disconnect_backend ns s) = sv_tools s \<and> sv_config_path (fold disconnect_backend ns s) = sv_config_path s"
  by (induction ns arbitrary: s) (simp_all add: disconnect_backend_def)

section \<open>The steps of a successful reload\<close>

text \<open>The iteration over a set visits each of its elements once.\<close>

definition visits_all :: "reload_env \<Rightarrow> bool" where
  "visits_all env \<longleftrightarrow> (\<forall>A. finite A \<longrightarrow> set (rl_iterate env A) = A \<and> distinct (rl_iterate env A))"

definition old_config :: "ArgusService \<Rightarrow> confs" where
  "old_config s = (case sv_config_data s of None \<Rightarrow> [] | Some c \<Rightarrow> c)"

lemma reload_reloadedE:
  assumes "reload env s = (s', Inr res)" "rr_reloaded res"
  obtains new d s1 s2 cs2 errs2 s3 cs3 errs3 s4 where "rl_config env = Inr new" "d = compute_diff (old_config s) new"
    "sv_state s = SvcRUNNING" "sv_config_path s \<noteq> None"
    "s1 = fold disconnect_backend (rl_iterate env (removed d)) (emit ''config_reloaded'' ''Reloading configuration...'' ''info'' None s)"
    "connect_each (rl_attempt env) True reconnect_failed (rl_iterate env (changed d)) (s1, new, []) = ((s2, cs2, errs2), None)"
    "connect_each (rl_attempt env) False connect_new_failed (rl_iterate env (added d)) (s2, cs2, errs2) = ((s3, cs3, errs3), None)"
    "s4 = s3\<lparr>sv_config_data := Some cs3, sv_backends_total := length cs3,
              sv_backends_connected := get_active_session_count (sv_manager s3)\<rparr>"
    "\<exists>s5. (if cm_sessions (sv_manager s3) \<noteq> [] then rediscover (rl_registry env) (rl_answers env) (rl_order env) s4 = (s5, Inr ())
           else s5 = s4) \<and> s' = emit ''config_reloaded'' (''Config reloaded: '' @ diff_summary d) ''info'' None s5"
    "rr_errors res = errs3"
proof -
  let ?s0 = "emit ''config_reloaded'' ''Reloading configuration...'' ''info'' None s"
  obtain new where new: "rl_config env = Inr new" "sv_state s = SvcRUNNING" "sv_config_path s \<noteq> None"
    "apply_diff env new ?s0 = (s', Inr res)"
    using assms by (auto simp: reload_def Let_def refused_def split: if_splits sum.splits)
  define d where "d = compute_diff (old_config s) new"
  have d: "d = compute_diff (case sv_config_data ?s0 of None \<Rightarrow> [] | Some c \<Rightarrow> c) new"
    by (simp add: d_def old_config_def)
  define s1 where "s1 = fold disconnect_backend (rl_iterate env (removed d)) ?s0"
  obtain s2 cs2 errs2 e2 where 2: "connect_each (rl_attempt env) True reconnect_failed
      (rl_iterate env (changed d)) (s1, new, []) = ((s2, cs2, errs2), e2)" by (metis prod.exhaust)
  obtain s3 cs3 errs3 e3 where 3: "connect_each (rl_attempt env) False connect_new_failed
      (rl_iterate env (added d)) (s2, cs2, errs2) = ((s3, cs3, errs3), e3)" by (metis prod.exhaust)
  let ?res = "\<lparr>rr_reloaded = False, rr_added = sorted_list_of_set (added d),
      rr_removed = sorted_list_of_set (removed d), rr_changed = sorted_list_of_set (changed d), rr_errors = errs3\<rparr>"
  have ad: "apply_diff env new ?s0 = (case e2 of Some e \<Rightarrow> (s2, Inl e) | None \<Rightarrow>
      (case e3 of Some e \<Rightarrow> (s3, Inl e) | None \<Rightarrow> finish_reload env cs3 d ?res s3))"
    by (cases e2; cases e3)
      (simp_all only: apply_diff_def Let_def d [symmetric] s1_def [symmetric] 2 3 prod.case option.case)
  have e: "e2 = None" "e3 = None" "finish_reload env cs3 d ?res s3 = (s', Inr res)"
    using new(4) unfolding ad by (auto split: option.splits)
  define s4 where "s4 = s3\<lparr>sv_config_data := Some cs3, sv_backends_total := length cs3,
              sv_backends_connected := get_active_session_count (sv_manager s3)\<rparr>"
  obtain s5 u where r: "(if get_all_sessions (sv_manager s4) \<noteq> []
      then rediscover (rl_registry env) (rl_answers env) (rl_order env) s4 else (s4, Inr ())) = (s5, u)" by fastforce
  have "s' = emit ''config_reloaded'' (''Config reloaded: '' @ diff_summary d) ''info'' None s5" "u = Inr ()" "rr_errors res = errs3"
    using e(3) unfolding finish_reload_def Let_def s4_def [symmetric] r by (auto split: sum.splits)
  moreover have "cm_sessions (sv_manager s3) = get_all_sessions (sv_manager s4)" by (simp add: s4_def get_all_sessions_def)
  ultimately show thesis
    using that [OF new(1) d_def new(2,3) s1_def 2 [unfolded e(1)] 3 [unfolded e(2)] s4_def] r by (auto split: if_splits)
qed

lemma compute_diff_sets:
  "added (compute_diff old new) = fst ` set new - fst ` set old"
  "removed (compute_diff old new) = fst ` set old - fst ` set new"
  "changed (compute_diff old new) \<subseteq> fst ` set old \<inter> fst ` set new"
  "finite (added (compute_diff old new))" "finite (removed (compute_diff old new))" "finite (changed (compute_diff old new))"
  by (auto simp: compute_diff_def Let_def)

lemma rediscover_manager: "sv_manager (fst (rediscover l an ord s)) = sv_manager s"
  "sv_config_data (fst (rediscover l an ord s)) = sv_config_data s"
  by (auto simp: rediscover_def discover_def take_snapshots_def install_registry_def split: sum.split)

lemma reload_connections:
  assumes r: "reload env s = (s', Inr res)" "rr_reloaded res" and v: "visits_all env" and new: "rl_config env = Inr new"
  defines "d \<equiv> compute_diff (old_config s) new"
  shows "o1 \<notin> added d \<Longrightarrow> o1 \<notin> changed d \<Longrightarrow> o1 \<notin> removed d \<or> dict_get (cm_sessions (sv_manager s)) o1 = None \<Longrightarrow>
      keeps_connection o1 (sv_manager s) (sv_manager s')"
    and "o1 \<in> removed d \<Longrightarrow> dict_get (cm_sessions (sv_manager s')) o1 = None"
    and "\<exists>cs. sv_config_data s' = Some cs \<and> fst ` set cs = fst ` set new"
proof -
  from r obtain d' new' s1 s2 cs2 errs2 s3 cs3 errs3 s4 where *: "rl_config env = Inr new'" "d' = compute_diff (old_config s) new'"
    "s1 = fold disconnect_backend (rl_iterate env (removed d')) (emit ''config_reloaded'' ''Reloading configuration...'' ''info'' None s)"
    "connect_each (rl_attempt env) True reconnect_failed (rl_iterate env (changed d')) (s1, new', []) = ((s2, cs2, errs2), None)"
    "connect_each (rl_attempt env) False connect_new_failed (rl_iterate env (added d')) (s2, cs2, errs2) = ((s3, cs3, errs3), None)"
    "s4 = s3\<lparr>sv_config_data := Some cs3, sv_backends_total := length cs3,
              sv_backends_connected := get_active_session_count (sv_manager s3)\<rparr>"
    "\<exists>s5. (if cm_sessions (sv_manager s3) \<noteq> [] then rediscover (rl_registry env) (rl_answers env) (rl_order env) s4 = (s5, Inr ())
           else s5 = s4) \<and> s' = emit ''config_reloaded'' (''Config reloaded: '' @ diff_summary d') ''info'' None s5"
    by (rule reload_reloadedE)
  have dd: "new' = new" "d' = d" using * new by (simp_all add: d_def)
  have vis: "set (rl_iterate env (added d)) = added d" "set (rl_iterate env (removed d)) = removed d"
    "set (rl_iterate env (changed d)) = changed d"
    using v by (simp_all add: visits_all_def d_def compute_diff_sets)
  obtain s5 where s5: "s' = emit ''config_reloaded'' (''Config reloaded: '' @ diff_summary d') ''info'' None s5"
    "if cm_sessions (sv_manager s3) \<noteq> [] then rediscover (rl_registry env) (rl_answers env) (rl_order env) s4 = (s5, Inr ())
     else s5 = s4" using *(7) by blast
  have "sv_manager s5 = sv_manager s4" "sv_config_data s5 = sv_config_data s4"
    using s5(2) rediscover_manager [of "rl_registry env" "rl_answers env" "rl_order env" s4] by (auto split: if_splits)
  then have mgr: "sv_manager s' = sv_manager s3" "sv_config_data s' = Some cs3"
    by (simp_all add: s5(1) *(6))
  have tail: "o1 \<notin> added d \<Longrightarrow> o1 \<notin> changed d \<Longrightarrow> keeps_connection o1 (sv_manager s1) (sv_manager s3)"
    using connect_each_keeps [OF _ *(4), of o1] connect_each_keeps [OF _ *(5), of o1] keeps_connection_trans
    by (simp add: vis dd)
  show "o1 \<notin> added d \<Longrightarrow> o1 \<notin> changed d \<Longrightarrow> o1 \<notin> removed d \<or> dict_get (cm_sessions (sv_manager s)) o1 = None \<Longrightarrow>
      keeps_connection o1 (sv_manager s) (sv_manager s')"
    using disconnect_all_keeps [of o1 "rl_iterate env (removed d)" "emit ''config_reloaded'' ''Reloading configuration...'' ''info'' None s"]
      tail keeps_connection_trans [of o1 "sv_manager s" "sv_manager s1" "sv_manager s3"]
    unfolding mgr *(3) dd by (simp add: vis)
  show "o1 \<in> removed d \<Longrightarrow> dict_get (cm_sessions (sv_manager s')) o1 = None"
  proof -
    assume o1: "o1 \<in> removed d"
    then have "o1 \<notin> added d" "o1 \<notin> changed d" using compute_diff_sets(3) [of "old_config s" new]
      by (auto simp: d_def compute_diff_sets(1,2))
    moreover have "dict_get (cm_sessions (sv_manager s1)) o1 = None"
      unfolding *(3) dd using o1 vis(2) by (simp add: disconnect_all_session)
    ultimately show ?thesis using tail by (simp add: mgr keeps_connection_def)
  qed
  have sub: "changed d \<subseteq> fst ` set new" "added d \<subseteq> fst ` set new"
    using compute_diff_sets(3) [of "old_config s" new] by (auto simp: d_def compute_diff_sets(1))
  have "fst ` set cs2 = fst ` set new"
    using connect_each_frame [OF *(4)] sub(1) by (simp add: vis dd)
  moreover from this have "fst ` set cs3 = fst ` set cs2"
    using connect_each_frame [OF *(5)] sub(2) by (simp add: vis dd)
  ultimately show "\<exists>cs. sv_config_data s' = Some cs \<and> fst ` set cs = fst ` set new"
    by (simp add: mgr)
qed

text \<open>
  C15: A completed reload (one that reports that it reloaded) makes the connections follow the
  change of the configuration, whatever the attempts for added and changed backends meet: the
  stored configuration has exactly the backends of the file, a backend of the old configuration
  that the file no longer names is disconnected, a backend whose connection settings did not
  change keeps the very session it had, and so does a connected backend that neither
  configuration names (such sessions are left by a start that failed and was repeated with
  another file: no reload closes them).
\<close>

theorem reload_reconciles_connections:
  assumes "reload env s = (s', Inr res)" "rr_reloaded res" "visits_all env" "rl_config env = Inr new"
  shows "(\<exists>cs. sv_config_data s' = Some cs \<and> fst ` set cs = fst ` set new) \<and>
    (\<forall>n. n \<notin> fst ` set new \<longrightarrow> dict_get (cm_sessions (sv_manager s')) n =
       (if n \<in> fst ` set (old_config s) then None else dict_get (cm_sessions (sv_manager s)) n)) \<and>
    (\<forall>n c c'. dict_get (old_config s) n = Some c \<longrightarrow> dict_get new n = Some c' \<longrightarrow> \<not> configs_differ c c' \<longrightarrow>
       dict_get (cm_sessions (sv_manager s')) n = dict_get (cm_sessions (sv_manager s)) n)"
proof (intro conjI allI impI)
  let ?old = "old_config s"
  let ?d = "compute_diff ?old new"
  note rc = reload_connections [OF assms]
  show "\<exists>cs. sv_config_data s' = Some cs \<and> fst ` set cs = fst ` set new" by (rule rc(3))
  fix n
  show "dict_get (cm_sessions (sv_manager s')) n =
      (if n \<in> fst ` set ?old then None else dict_get (cm_sessions (sv_manager s)) n)" if "n \<notin> fst ` set new"
  proof (cases "n \<in> fst ` set ?old")
    case True
    with that have "n \<in> removed ?d" by (simp add: compute_diff_sets)
    with True rc(2) show ?thesis by simp
  next
    case False
    then have "n \<notin> added ?d" "n \<notin> changed ?d" "n \<notin> removed ?d"
      using that compute_diff_sets(3) [of ?old new] by (auto simp: compute_diff_sets(1,2))
    with False rc(1) [of n] show ?thesis by (simp add: keeps_connection_def)
  qed
  show "dict_get (cm_sessions (sv_manager s')) n = dict_get (cm_sessions (sv_manager s)) n"
    if "dict_get ?old n = Some c" "dict_get new n = Some c'" "\<not> configs_differ c c'" for c c'
  proof -
    have "n \<in> fst ` set ?old" "n \<in> fst ` set new" using that by (auto simp: dict_dom [symmetric] domI)
    then have "n \<notin> added ?d" "n \<notin> removed ?d" by (simp_all add: compute_diff_sets)
    moreover have "n \<notin> changed ?d" using that by (simp add: compute_diff_def Let_def dict_get_or_def)
    ultimately show ?thesis using rc(1) [of n] by (simp add: keeps_connection_def)
  qed
qed

text \<open>A running service with one connected backend.\<close>

definition ex_web :: backend_conf where
  "ex_web = [(''type'', PStr ''streamable-http''), (''url'', PStr ''http://web/mcp'')]"

definition ex_running :: ArgusService where
  "ex_running = (new_service (\<lambda>n. ([], [])))\<lparr>sv_state := SvcRUNNING, sv_ready_event := True, sv_config_path := Some ''argus.yaml'',
     sv_config_data := Some [(''web'', ex_web)],
     sv_manager := new_client_manager\<lparr>cm_sessions := [(''web'', 7)], cm_backend_stacks := [(''web'', 0)], cm_next_stack := 1\<rparr>\<rparr>"

definition ex_open :: attempt where
  "ex_open =
     \<lparr>a_auth_done = [], a_signal = False, a_gate = False, a_build1 = Inr (PNone, False), a_build2 = Inr (PNone, False),
      a_container = None, a_provider = None, a_headers = None, a_close = None, a_session = Inr 8, a_init = InitOk,
      a_lock = None, a_t0 = 1, a_t1 = 2\<rparr>"

definition ex_config :: ArgusConfig where
  "ex_config = \<lparr>ac_strategy = ''first-wins'', ac_separator = ''_'', ac_order = [], ac_backends = [],
     ac_refresh_enabled = False, ac_reconnect_timeout = None\<rparr>"

definition ex_reload :: "confs \<Rightarrow> reload_env" where
  "ex_reload new = \<lparr>rl_config = Inr new, rl_iterate = sorted_list_of_set, rl_attempt = (\<lambda>n. ex_open),
     rl_registry = Inr ex_config, rl_answers = (\<lambda>h ct. Inr ReturnedNone), rl_order = []\<rparr>"

lemma ex_reload_visits: "visits_all (ex_reload new)"
  by (simp add: visits_all_def ex_reload_def)

definition ex_reloaded :: "ArgusService \<times> (base_exn + reload_result)" where
  "ex_reloaded = reload (ex_reload [(''web'', ex_web), (''git'', ex_web)]) ex_running"

lemma ex_reloaded_ok: "rr_reloaded (projr (snd ex_reloaded))" "isl (snd ex_reloaded) = False"
  by code_simp+

lemma ex_reloaded_eq: "reload (ex_reload [(''web'', ex_web), (''git'', ex_web)]) ex_running = (fst ex_reloaded, Inr (projr (snd ex_reloaded)))"
  using ex_reloaded_ok(2) by (simp add: ex_reloaded_def [symmetric] prod_eq_iff)

theorem reload_reconciles_connections_witness:
  "dict_get (cm_sessions (sv_manager (fst ex_reloaded))) ''web'' = Some 7"
proof -
  have c: "old_config ex_running = [(''web'', ex_web)]" "cm_sessions (sv_manager ex_running) = [(''web'', 7)]"
    by (simp_all add: ex_running_def old_config_def)
  have "\<not> configs_differ ex_web ex_web"
    by (rule configs_differ_cong) (simp_all add: conf_wf_def ex_web_def)
  with reload_reconciles_connections [OF ex_reloaded_eq ex_reloaded_ok(1) ex_reload_visits,
      of "[(''web'', ex_web), (''git'', ex_web)]"]
  show ?thesis by (simp add: ex_reload_def c)
qed

section \<open>What a reload leaves behind\<close>

text \<open>
  The gateway process: the service, and the registry object that \<open>_attach_to_mcp_server\<close> of
  \<open>server/lifespan.py\<close> stores in the MCP server and gives to the routing layer, once, after the
  start (\<open>None\<close> before it). Handlers list and route from that object. The calls of the service that
  the management API and the file watcher make do not store another one. The health checker
  writes into the registry it was given and is not a call of the service.
\<close>

record gateway_process =
  gp_service :: ArgusService
  gp_attached :: "nat option"

definition attach_to_mcp_server :: "gateway_process \<Rightarrow> gateway_process" where
  "attach_to_mcp_server g = g\<lparr>gp_attached := Some (sv_registry (gp_service g))\<rparr>"

definition lifespan_start :: "start_env \<Rightarrow> string \<Rightarrow> gateway_process \<Rightarrow> gateway_process \<times> unit res" where
  "lifespan_start env path g =
     (case start env path (gp_service g) of
        (s, Inl e) \<Rightarrow> (g\<lparr>gp_service := s\<rparr>, Inl e)
      | (s, Inr u) \<Rightarrow> (attach_to_mcp_server (g\<lparr>gp_service := s\<rparr>), Inr ()))"

definition service_call :: "sv_op \<Rightarrow> gateway_process \<Rightarrow> gateway_process" where
  "service_call op g = g\<lparr>gp_service := sv_step op (gp_service g)\<rparr>"

definition served_registry :: "gateway_process \<Rightarrow> registry option" where
  "served_registry g = map_option (\<lambda>i. sv_registries (gp_service g) ! i) (gp_attached g)"

lemma reload_registries:
  assumes r: "reload env s = (s', Inr res)" "rr_reloaded res" and v: "visits_all env" and new: "rl_config env = Inr new"
  shows "if cm_sessions (sv_manager s') = [] then sv_registries s' = sv_registries s \<and> sv_registry s' = sv_registry s \<and> sv_tools s' = sv_tools s
    else \<exists>reg. sv_registries s' = sv_registries s @ [reg] \<and> sv_registry s' = length (sv_registries s)"
proof -
  from r obtain d new' s1 s2 cs2 errs2 s3 cs3 errs3 s4 where *: "rl_config env = Inr new'" "d = compute_diff (old_config s) new'"
    "s1 = fold disconnect_backend (rl_iterate env (removed d)) (emit ''config_reloaded'' ''Reloading configuration...'' ''info'' None s)"
    "connect_each (rl_attempt env) True reconnect_failed (rl_iterate env (changed d)) (s1, new', []) = ((s2, cs2, errs2), None)"
    "connect_each (rl_attempt env) False connect_new_failed (rl_iterate env (added d)) (s2, cs2, errs2) = ((s3, cs3, errs3), None)"
    "s4 = s3\<lparr>sv_config_data := Some cs3, sv_backends_total := length cs3,
              sv_backends_connected := get_active_session_count (sv_manager s3)\<rparr>"
    "\<exists>s5. (if cm_sessions (sv_manager s3) \<noteq> [] then rediscover (rl_registry env) (rl_answers env) (rl_order env) s4 = (s5, Inr ())
           else s5 = s4) \<and> s' = emit ''config_reloaded'' (''Config reloaded: '' @ diff_summary d) ''info'' None s5"
    by (rule reload_reloadedE)
  have vis: "set (rl_iterate env (added d)) = added d" "set (rl_iterate env (changed d)) = changed d"
    using v by (simp_all add: visits_all_def *(2) compute_diff_sets)
  have sub: "changed d \<subseteq> fst ` set new'" "added d \<subseteq> fst ` set new'"
    using compute_diff_sets(3) [of "old_config s" new'] by (auto simp: *(2) compute_diff_sets(1))
  have f1: "sv_registries s1 = sv_registries s" "sv_registry s1 = sv_registry s" "sv_tools s1 = sv_tools s"
    unfolding *(3) by (simp_all add: disconnect_all_frame)
  have f2: "sv_registries s2 = sv_registries s1" "sv_registry s2 = sv_registry s1" "sv_tools s2 = sv_tools s1" "fst ` set cs2 = fst ` set new'"
    using connect_each_frame [OF *(4)] sub(1) by (simp_all add: vis)
  have f3: "sv_registries s3 = sv_registries s2" "sv_registry s3 = sv_registry s2" "sv_tools s3 = sv_tools s2"
    using connect_each_frame [OF *(5)] sub(2) by (simp_all add: vis f2(4))
  obtain s5 where s5: "s' = emit ''config_reloaded'' (''Config reloaded: '' @ diff_summary d) ''info'' None s5"
    "if cm_sessions (sv_manager s3) \<noteq> [] then rediscover (rl_registry env) (rl_answers env) (rl_order env) s4 = (s5, Inr ())
     else s5 = s4" using *(7) by blast
  have mgr: "sv_manager s5 = sv_manager s3"
    using s5(2) rediscover_manager(1) [of "rl_registry env" "rl_answers env" "rl_order env" s4] *(6) by (auto split: if_splits)
  show ?thesis
  proof (cases "cm_sessions (sv_manager s3) = []")
    case True
    with s5 mgr f1 f2 f3 show ?thesis by (simp add: *(6))
  next
    case False
    with s5(2) have "rediscover (rl_registry env) (rl_answers env) (rl_order env) s4 = (s5, Inr ())" by simp
    then obtain reg where "s5 = discover (rl_answers env) (rl_order env) (install_registry reg s4)"
      by (auto simp: rediscover_def split: sum.splits)
    with False s5(1) mgr f1 f2 f3 show ?thesis
      by (simp add: discover_def take_snapshots_def install_registry_def *(6))
  qed
qed

text \<open>Registry objects that exist are left alone: operations install new ones and fill those.\<close>

definition regs :: "ArgusService \<Rightarrow> registry list \<times> nat" where
  "regs s = (sv_registries s, sv_registry s)"

definition grows :: "ArgusService \<Rightarrow> ArgusService \<Rightarrow> bool" where
  "grows s s' \<longleftrightarrow> take (length (sv_registries s)) (sv_registries s') = sv_registries s \<and>
     (sv_registry s < length (sv_registries s) \<longrightarrow> sv_registry s' < length (sv_registries s'))"

named_theorems regs_simps "operations that keep the registries"

lemma grows_regs: "regs s' = regs s \<Longrightarrow> grows s s'"
  by (simp add: grows_def regs_def)

lemma grows_regs_right: "regs s'' = regs s' \<Longrightarrow> grows s s' \<Longrightarrow> grows s s''"
  by (simp add: grows_def regs_def)

lemma grows_regs_left: "regs s' = regs s \<Longrightarrow> grows s' s'' \<Longrightarrow> grows s s''"
  by (simp add: grows_def regs_def)

lemma grows_nth:
  assumes "grows s s'" "i < length (sv_registries s)"
  shows "sv_registries s' ! i = sv_registries s ! i" "i < length (sv_registries s')"
proof -
  have "take (length (sv_registries s)) (sv_registries s') = sv_registries s" using assms(1) by (simp add: grows_def)
  with assms(2) show "sv_registries s' ! i = sv_registries s ! i" "i < length (sv_registries s')"
    by (metis nth_take, metis length_take min_less_iff_conj)
qed

lemma grows_trans: "grows s s' \<Longrightarrow> grows s' s'' \<Longrightarrow> grows s s''"
  unfolding grows_def by (metis length_take min.absorb2 min.cobounded1 take_take)

lemma grows_install: "grows s (install_registry r s)"
  by (simp add: grows_def install_registry_def)

lemma grows_install_fill:
  "regs s2 = regs (install_registry r s) \<Longrightarrow>
   grows s (s2\<lparr>sv_registries := (sv_registries s2)[sv_registry s2 := q]\<rparr>)"
  by (simp add: grows_def regs_def install_registry_def)

lemma grows_install_discover: "regs s2 = regs (install_registry r s) \<Longrightarrow> grows s (discover an ord s2)"
  by (simp add: grows_def regs_def install_registry_def discover_def take_snapshots_def)

lemma regs_emit [regs_simps]: "regs (emit st msg sev b s) = regs s"
  by (simp add: regs_def)

lemma regs_progress [regs_simps]: "regs (fold progress_event ps s) = regs s"
  by (induction ps arbitrary: s) (auto simp: progress_event_def regs_simps split: prod.split)

lemma regs_updates [regs_simps]:
  "regs (s\<lparr>sv_config_data := cd\<rparr>) = regs s" "regs (s\<lparr>sv_manager := m\<rparr>) = regs s" "regs (s\<lparr>sv_state := st\<rparr>) = regs s"
  "regs (s\<lparr>sv_group_manager := g\<rparr>) = regs s" "regs (s\<lparr>sv_backends_total := k\<rparr>) = regs s"
  "regs (s\<lparr>sv_backends_connected := k\<rparr>) = regs s" "regs (s\<lparr>sv_full_config := f\<rparr>) = regs s"
  "regs (s\<lparr>sv_error_message := em\<rparr>) = regs s" "regs (s\<lparr>sv_started_at := t\<rparr>) = regs s"
  "regs (s\<lparr>sv_config_path := p\<rparr>) = regs s" "regs (s\<lparr>sv_ready_event := b\<rparr>) = regs s"
  "regs (s\<lparr>sv_health_checker := h\<rparr>) = regs s" "regs (s\<lparr>sv_config_watcher := b\<rparr>) = regs s" "regs (s\<lparr>sv_parallel := b\<rparr>) = regs s"
  by (simp_all add: regs_def)

lemma regs_disconnect [regs_simps]: "regs (disconnect_backend n s) = regs s" "regs (fold disconnect_backend ns s) = regs s"
proof -
  show 1: "regs (disconnect_backend n s) = regs s" for n s by (simp add: disconnect_backend_def regs_simps)
  show "regs (fold disconnect_backend ns s) = regs s" by (induction ns arbitrary: s) (simp_all add: 1)
qed

lemma regs_connect_one [regs_simps]: "regs (fst (connect_one a n cs s)) = regs s"
  by (simp add: connect_one_def regs_simps split: prod.split)

lemma regs_connect_each [regs_simps]: "regs (fst (fst (connect_each env ch msg ns st))) = regs (fst st)"
proof (induction env ch msg ns st rule: connect_each.induct)
  case (2 env ch msg n ns s cs errs)
  obtain s' cs' r where c: "connect_one (env n) n cs (if ch then disconnect_backend n s else s) = (s', cs', r)"
    using prod_cases3 by blast
  have "regs s' = regs s"
    using regs_connect_one [of "env n" n cs "if ch then disconnect_backend n s else s"]
    by (simp add: c regs_simps split: if_splits)
  with 2 c show ?case by (cases r) auto
qed simp

lemma regs_transition [regs_simps]: "svc_transition t s = Inr s' \<Longrightarrow> regs s' = regs s"
  by (auto simp: svc_transition_def regs_simps split: if_splits)

lemma grows_rediscover: "grows s (fst (rediscover l an ord s))"
  by (simp add: rediscover_def grows_regs grows_install_discover split: sum.split)

lemma grows_finish: "grows s (fst (finish_reload env cs d res s))"
proof -
  define s1 where "s1 = s\<lparr>sv_config_data := Some cs, sv_backends_total := length cs,
                 sv_backends_connected := get_active_session_count (sv_manager s)\<rparr>"
  obtain s2 u where r: "(if get_all_sessions (sv_manager s1) \<noteq> []
      then rediscover (rl_registry env) (rl_answers env) (rl_order env) s1 else (s1, Inr ())) = (s2, u)" by fastforce
  have "grows s1 s2"
    using r grows_rediscover [of s1 "rl_registry env" "rl_answers env" "rl_order env"] grows_regs [of s1 s1]
    by (auto split: if_splits)
  then have "grows s s2" by (rule grows_regs_left [rotated]) (simp add: s1_def regs_simps)
  then show ?thesis
    by (auto simp: finish_reload_def Let_def s1_def [symmetric] r regs_simps split: sum.split intro: grows_regs_right)
qed

lemma grows_apply_diff: "grows s (fst (apply_diff env cs s))"
proof -
  define d where "d = compute_diff (case sv_config_data s of None \<Rightarrow> [] | Some c \<Rightarrow> c) cs"
  define s1 where "s1 = fold disconnect_backend (rl_iterate env (removed d)) s"
  obtain s2 cs2 errs2 e2 where 2: "connect_each (rl_attempt env) True reconnect_failed
      (rl_iterate env (changed d)) (s1, cs, []) = ((s2, cs2, errs2), e2)" by (metis prod.exhaust)
  obtain s3 cs3 errs3 e3 where 3: "connect_each (rl_attempt env) False connect_new_failed
      (rl_iterate env (added d)) (s2, cs2, errs2) = ((s3, cs3, errs3), e3)" by (metis prod.exhaust)
  have r2: "regs s2 = regs s" using arg_cong [OF 2, of "\<lambda>x. regs (fst (fst x))"] by (simp add: regs_simps s1_def)
  have r3: "regs s3 = regs s" using arg_cong [OF 3, of "\<lambda>x. regs (fst (fst x))"] by (simp add: regs_simps r2)
  show ?thesis
    using grows_regs [OF r2] grows_regs [OF r3] grows_regs_left [OF r3 grows_finish]
    by (cases e2; cases e3)
      (simp_all only: apply_diff_def Let_def d_def [symmetric] s1_def [symmetric] 2 3 prod.case option.case fst_conv)
qed

lemma grows_reload: "grows s (fst (reload env s))"
  using grows_regs_left [OF regs_emit grows_apply_diff]
  by (auto simp: reload_def Let_def regs_simps split: sum.split intro: grows_regs)

lemma grows_config_changed: "grows s (fst (on_config_file_changed env s))"
proof -
  obtain s1 r where d: "reload env s = (s1, r)" by fastforce
  with grows_reload [of s env] have "grows s s1" by simp
  with d show ?thesis
    by (auto simp: on_config_file_changed_def Let_def regs_simps split: sum.split intro: grows_regs_right)
qed

lemma regs_count [regs_simps]: "regs (count_connected s) = regs s"
  by (simp add: count_connected_def regs_simps)

lemma grows_do_reconnect: "grows s (fst (do_reconnect env n s))"
proof -
  define s1 where "s1 = emit ''backend_disconnected'' (''Reconnecting backend '' @ repr_str n @ ''...'') ''info'' (Some n) s"
  have s1: "regs s1 = regs s" by (simp add: s1_def regs_simps)
  obtain s2 cs r where c: "connect_one (rn_attempt env) n (case sv_config_data s1 of None \<Rightarrow> [] | Some c \<Rightarrow> c)
      (disconnect_backend n s1) = (s2, cs, r)" using prod_cases3 by blast
  define s3 where "s3 = s2\<lparr>sv_config_data := Some cs\<rparr>"
  have s3: "regs s3 = regs s"
    using arg_cong [OF c, of "\<lambda>x. regs (fst x)"] by (simp add: regs_simps s1 s3_def)
  have disc: "grows s (emit a b c d (count_connected (discover an ord (install_registry r s3))))" for a b c d an ord r
    by (rule grows_regs_right [OF _ grows_regs_left [OF s3 grows_install_discover [OF refl]]]) (simp add: regs_simps)
  have fill: "grows s ((install_registry r s3)\<lparr>sv_registries := (sv_registries (install_registry r s3))
      [sv_registry (install_registry r s3) := q]\<rparr>)" for r q
    by (rule grows_regs_left [OF s3 grows_install_fill [OF refl]])
  show ?thesis
    unfolding do_reconnect_def Let_def s1_def [symmetric] c s3_def [symmetric] prod.case
    by (auto simp: disc fill regs_simps s1 s3 split: sum.split bool.split reconnect_limit.split intro: grows_regs)
qed

lemma grows_reconnect: "grows s (fst (reconnect_backend env n s))"
proof -
  obtain s1 r where d: "do_reconnect env n s = (s1, r)" by fastforce
  with grows_do_reconnect [of s env n] have "grows s s1" by simp
  with d show ?thesis
    by (auto simp: reconnect_backend_def Let_def regs_simps split: sum.split base_exn.split
        intro: grows_regs grows_regs_right)
qed

lemma regs_stop_components [regs_simps]: "regs (fst (stop_components env s)) = regs s"
  by (simp add: stop_components_def Let_def regs_simps split: option.split prod.split)

lemma regs_transition_or_raise [regs_simps]: "regs (fst (transition_or_raise t s)) = regs s"
  by (auto simp: transition_or_raise_def dest: regs_transition split: sum.split)

lemma regs_stop_body [regs_simps]: "regs (fst (stop_body env s)) = regs s"
proof -
  obtain s1 r where c: "stop_components env s = (s1, r)" by fastforce
  have "regs s1 = regs s" using regs_stop_components [of env s] by (simp add: c)
  then show ?thesis
    by (simp add: stop_body_def c Let_def case_prod_beta regs_simps split: option.split base_exn.split exn.split)
qed

lemma regs_stop [regs_simps]: "regs (fst (stop env s)) = regs s"
proof -
  have t: "regs (fst (case svc_transition t s0 of Inl e \<Rightarrow> (s0, Some (Exc e 0 [])) | Inr s1 \<Rightarrow> stop_body env s1)) = regs s0"
    for t s0 by (auto simp: regs_simps dest: regs_transition split: sum.split)
  show ?thesis by (cases "sv_state s") (simp_all add: stop_def t regs_simps)
qed

lemma regs_shutdown [regs_simps]: "regs (fst (shutdown env t s)) = regs s"
  by (simp add: shutdown_eq Let_def case_prod_beta regs_simps)

lemma regs_load_config [regs_simps]: "regs (fst (load_config env path s)) = regs s"
  by (cases "se_config env"; cases "se_full env") (simp_all add: load_config_def Let_def regs_simps)

lemma regs_connect_all [regs_simps]: "regs (fst (connect_all env config s)) = regs s"
  unfolding connect_all_def Let_def
  by (simp add: regs_simps split: option.split prod.split)

lemma regs_start_refresh [regs_simps]: "regs (start_refresh env s) = regs s"
  by (simp add: start_refresh_def regs_simps split: sum.split)

lemma regs_go_running: "regs (fst (go_running env s)) = regs s"
  by (auto simp: go_running_def Let_def regs_simps dest: regs_transition split: sum.split option.split)

lemma regs_start_failed: "regs (fst (start_failed e s)) = regs s"
  by (auto simp: start_failed_def Let_def regs_simps dest: regs_transition split: sum.split)

lemma build_components_cases:
  obtains (none) "regs (fst (build_components env s)) = regs s" "\<not> (\<exists>u. snd (build_components env s) = Inr u)"
  | (built) r where "regs (fst (build_components env s)) = regs (install_registry r s)"
proof (cases "build_registry (se_registry env) s")
  case (Inr r)
  then have "regs (fst (build_components env s)) = regs (install_registry r s)"
    by (auto simp: build_components_def Let_def regs_simps split: sum.split)
  then show thesis by (rule built)
qed (use none in \<open>simp add: build_components_def\<close>)

text \<open>A start, also a cancelled one, installs one registry at most and fills only that one.\<close>

lemma grows_start_parts:
  assumes "load_config env path s = (s1, r1)" "build_components env s1 = (s2, r2)" "connect_all env config s2 = (s3, r3)"
  shows "grows s s1" "grows s s2" "grows s s3" "r2 = Inr u \<Longrightarrow> grows s (start_discovery env (start_refresh env s3))"
    "r2 = Inr u \<Longrightarrow> grows s ((start_refresh env s3)\<lparr>sv_registries := (sv_registries (start_refresh env s3))
       [sv_registry (start_refresh env s3) := q]\<rparr>)"
    "r2 = Inr u \<Longrightarrow> grows s (cancelled_connecting m cs s2)"
proof -
  have 1: "regs s1 = regs s" using regs_load_config [of env path s] by (simp add: assms(1))
  have 3: "regs s3 = regs s2" using regs_connect_all [of env config s2] by (simp add: assms(3))
  have 2: "(regs s2 = regs s1 \<and> r2 \<noteq> Inr u) \<or> (\<exists>r. regs s2 = regs (install_registry r s1))"
    by (cases rule: build_components_cases [where env = env and s = s1]) (auto simp: assms(2))
  have g2: "grows s1 s2" using 2 grows_regs [of s2 s1] grows_regs_right [OF _ grows_install] by blast
  show "grows s s1" by (rule grows_regs [OF 1])
  show s2: "grows s s2" by (rule grows_regs_left [OF 1 g2])
  show s3: "grows s s3" by (rule grows_regs_right [OF 3 s2])
  assume "r2 = Inr u"
  with 2 obtain r where r: "regs s2 = regs (install_registry r s1)" by blast
  then have r4: "regs (start_refresh env s3) = regs (install_registry r s1)" by (simp add: regs_simps 3)
  note left = grows_regs_left [OF 1]
  have "grows s (start_refresh env s3)" using s3 by (rule grows_regs_right [rotated]) (simp add: regs_simps)
  then show "grows s (start_discovery env (start_refresh env s3))"
    using left [OF grows_install_discover [OF r4]]
    by (auto simp: start_discovery_def Let_def regs_simps intro: grows_regs_right)
  show "grows s ((start_refresh env s3)\<lparr>sv_registries := (sv_registries (start_refresh env s3))
       [sv_registry (start_refresh env s3) := q]\<rparr>)"
    by (rule left [OF grows_install_fill [OF r4]])
  show "grows s (cancelled_connecting m cs s2)"
    using s2 by (rule grows_regs_right [rotated]) (simp add: cancelled_connecting_def regs_simps)
qed

lemma grows_prepare_start: "grows s (fst (prepare_start env path s))"
proof -
  obtain s1 r1 where 1: "load_config env path s = (s1, r1)" by fastforce
  obtain s2 r2 where 2: "build_components env s1 = (s2, r2)" by fastforce
  define config where "config = projr r1"
  obtain s3 r3 where 3: "connect_all env config s2 = (s3, r3)" by fastforce
  have r1: "r1 = Inr x \<Longrightarrow> x = config" for x by (simp add: config_def)
  from grows_start_parts [OF 1 2 3] show ?thesis
    by (cases r1; cases r2; cases r3) (auto dest!: r1 simp: prepare_start_def 1 2 3)
qed

lemma grows_start: "grows s (fst (start env path s))"
proof (cases "svc_transition SvcSTARTING s")
  case (Inr s0)
  let ?t = "s0\<lparr>sv_error_message := None, sv_config_path := Some path\<rparr>"
  obtain t1 r where p: "prepare_start env path ?t = (t1, r)" by fastforce
  have t: "regs ?t = regs s" using regs_transition [OF Inr] by (simp add: regs_simps)
  have g: "grows s t1" using grows_regs_left [OF t] grows_prepare_start [of ?t env path] by (simp add: p)
  obtain g1 gr where gr: "go_running env t1 = (g1, gr)" by fastforce
  have "grows s g1" using regs_go_running [of env t1] g by (auto simp: gr intro: grows_regs_right)
  with g show ?thesis
    by (cases r; cases gr)
      (auto simp: start_def Inr start_body_prepare p gr intro: grows_regs_right [OF regs_start_failed])
qed (simp add: start_def grows_regs)

lemma grows_body_cancelled:
  assumes "start_body_cancelled pt env path s = Some t"
  shows "grows s t"
proof -
  obtain s1 r1 where 1: "load_config env path s = (s1, r1)" by fastforce
  obtain s2 r2 where 2: "build_components env s1 = (s2, r2)" by fastforce
  define config where "config = projr r1"
  obtain s3 r3 where 3: "connect_all env config s2 = (s3, r3)" by fastforce
  have r1: "r1 = Inr x \<Longrightarrow> x = config" for x by (simp add: config_def)
  from assms show ?thesis
    using grows_start_parts(5,6) [OF 1 2 3]
    by (cases r1; cases r2; cases r3)
      (auto dest!: r1 simp: start_body_cancelled_def cancelled_config_def 1 2 3 Let_def regs_simps
        split: cancel_point.splits sum.splits if_splits intro: grows_regs)
qed

lemma grows_start_cancelled: "grows s (fst (start_cancelled pt env path s))"
proof (cases "svc_transition SvcSTARTING s")
  case (Inr s0)
  let ?t = "s0\<lparr>sv_error_message := None, sv_config_path := Some path\<rparr>"
  have t: "regs ?t = regs s" using regs_transition [OF Inr] by (simp add: regs_simps)
  have "fst (case start env path s of (s1, Inl e) \<Rightarrow> (s1, Some (Exc e 0 [])) | (s1, Inr u) \<Rightarrow> (s1, None)) = fst (start env path s)"
    by (simp split: prod.split sum.split)
  then show ?thesis
    using grows_start [of s env path] grows_regs_left [OF t grows_body_cancelled]
    by (auto simp: start_cancelled_def Inr split: option.split)
qed (simp add: start_cancelled_def grows_regs)

lemma regs_reauth [regs_simps]: "regs (fst (reauth_backend oc n s)) = regs s"
  by (simp add: reauth_backend_def regs_simps split: option.split sum.split)

lemma grows_step: "grows s (sv_step op s)"
  by (cases op)
    (simp_all add: grows_start grows_start_cancelled grows_reload grows_config_changed grows_reconnect
      grows_regs regs_simps)

lemma grows_run: "grows s (fold sv_step ops s)"
proof (induction ops arbitrary: s)
  case (Cons op ops)
  from grows_trans [OF grows_step Cons.IH] show ?case by simp
qed (simp add: grows_regs)

lemma service_calls:
  "gp_attached (fold service_call ops g) = gp_attached g" "gp_service (fold service_call ops g) = fold sv_step ops (gp_service g)"
  by (induction ops arbitrary: g) (simp_all add: service_call_def)

text \<open>
  C16: A reload does not reach the requests. Of a gateway whose service, after any calls before,
  starts successfully: no sequence of further calls of the service changes the registry object the MCP server and
  the routing layer were given, neither which one it is nor its contents, so that what is
  listed and routed stays as it was (but for what the health checker, no call of the service,
  writes). A further reload that reports it reloaded and leaves at least one backend
  connected makes another registry object the current one of the service.
\<close>

theorem reload_does_not_reach_the_gateway:
  fixes stamp before
  assumes "lifespan_start env path \<lparr>gp_service = fold sv_step before (new_service stamp), gp_attached = None\<rparr> = (g, Inr ())"
    and "g' = fold service_call ops g"
    and "reload renv (gp_service g') = (s', Inr res)" "rr_reloaded res" "visits_all renv" "rl_config renv = Inr new"
    and "cm_sessions (sv_manager s') \<noteq> []"
  shows "gp_attached g' = gp_attached g \<and> served_registry g' = served_registry g \<and> served_registry g \<noteq> None \<and>
    served_registry (g'\<lparr>gp_service := s'\<rparr>) = served_registry g \<and> gp_attached g \<noteq> Some (sv_registry s')"
proof -
  let ?s0 = "fold sv_step before (new_service stamp)"
  obtain s where st: "start env path ?s0 = (s, Inr ())" "gp_service g = s" "gp_attached g = Some (sv_registry s)"
    using assms(1) by (auto simp: lifespan_start_def attach_to_mcp_server_def split: prod.splits sum.splits)
  have "grows (new_service stamp) s"
    using grows_trans [OF grows_run [of "new_service stamp" before] grows_start [of _ env path]] st(1) by simp
  then have lt: "sv_registry s < length (sv_registries s)" by (simp add: grows_def new_service_def)
  have g': "gp_attached g' = Some (sv_registry s)" "grows s (gp_service g')"
    using grows_run [of s ops] by (simp_all add: assms(2) service_calls st)
  have "grows (gp_service g') s'" using grows_reload [of "gp_service g'" renv] by (simp add: assms(3))
  with g' lt have "sv_registries s' ! sv_registry s = sv_registries s ! sv_registry s"
    "sv_registries (gp_service g') ! sv_registry s = sv_registries s ! sv_registry s" "sv_registry s < length (sv_registries (gp_service g'))"
    using grows_nth [of s "gp_service g'" "sv_registry s"] grows_nth [of "gp_service g'" s' "sv_registry s"] by simp_all
  moreover obtain reg where "sv_registries s' = sv_registries (gp_service g') @ [reg]"
      "sv_registry s' = length (sv_registries (gp_service g'))"
    using reload_registries [OF assms(3-6)] assms(7) by auto
  ultimately show ?thesis by (simp add: served_registry_def g' st)
qed

text \<open>A gateway with one backend, reloaded after it was given a second one.\<close>

definition ex_process :: gateway_process where
  "ex_process = fst (lifespan_start ex_start ''argus.yaml'' \<lparr>gp_service = new_service (\<lambda>n. ([], [])), gp_attached = None\<rparr>)"

definition ex_process_reloaded :: "ArgusService \<times> (base_exn + reload_result)" where
  "ex_process_reloaded = reload (ex_reload [(''web'', ex_remote), (''git'', ex_web)]) (gp_service ex_process)"

lemma ex_process_ok:
  "isl (snd (lifespan_start ex_start ''argus.yaml'' \<lparr>gp_service = new_service (\<lambda>n. ([], [])), gp_attached = None\<rparr>)) = False"
  "rr_reloaded (projr (snd ex_process_reloaded))" "isl (snd ex_process_reloaded) = False"
  "cm_sessions (sv_manager (fst ex_process_reloaded)) \<noteq> []"
  by code_simp+

lemma ex_process_eq:
  "lifespan_start ex_start ''argus.yaml'' \<lparr>gp_service = fold sv_step [] (new_service (\<lambda>n. ([], []))), gp_attached = None\<rparr> = (ex_process, Inr ())"
  "reload (ex_reload [(''web'', ex_remote), (''git'', ex_web)]) (gp_service ex_process) =
     (fst ex_process_reloaded, Inr (projr (snd ex_process_reloaded)))"
proof -
  have unit: "isl (x :: exn + unit) = False \<Longrightarrow> x = Inr ()" for x by (cases x) simp_all
  show "lifespan_start ex_start ''argus.yaml'' \<lparr>gp_service = fold sv_step [] (new_service (\<lambda>n. ([], []))), gp_attached = None\<rparr> =
      (ex_process, Inr ())"
    using unit [OF ex_process_ok(1)] by (simp add: ex_process_def prod_eq_iff)
  show "reload (ex_reload [(''web'', ex_remote), (''git'', ex_web)]) (gp_service ex_process) =
      (fst ex_process_reloaded, Inr (projr (snd ex_process_reloaded)))"
    using ex_process_ok(3) by (simp add: ex_process_reloaded_def prod_eq_iff)
qed

theorem reload_does_not_reach_the_gateway_witness:
  "gp_attached ex_process \<noteq> Some (sv_registry (fst ex_process_reloaded)) \<and>
   served_registry (ex_process\<lparr>gp_service := fst ex_process_reloaded\<rparr>) = served_registry ex_process"
  using reload_does_not_reach_the_gateway [where ops = "[]", OF ex_process_eq(1) refl]
    ex_process_eq(2) ex_process_ok(2,4) ex_reload_visits [of "[(''web'', ex_remote), (''git'', ex_web)]"]
  by (simp add: ex_reload_def)

text \<open>
  A reload after which no backend is connected keeps the old registry and the old tool
  list: the capabilities of the removed backends stay listed.
\<close>

theorem reload_to_nothing_keeps_old_tools:
  assumes "reload env s = (s', Inr res)" "rr_reloaded res" "visits_all env" "rl_config env = Inr new"
    and "cm_sessions (sv_manager s') = []"
  shows "ss_tool_names (get_status s') = ss_tool_names (get_status s) \<and> current_registry s' = current_registry s"
  using reload_registries [OF assms(1-4)] assms(5) by (simp add: get_status_def current_registry_def)

definition ex_stale :: ArgusService where
  "ex_stale = ex_running\<lparr>sv_tools := [\<lparr>cap_name = ''fetch'', cap_description = None\<rparr>]\<rparr>"

definition ex_emptied :: "ArgusService \<times> (base_exn + reload_result)" where
  "ex_emptied = reload (ex_reload []) ex_stale"

lemma ex_emptied_ok: "rr_reloaded (projr (snd ex_emptied))" "isl (snd ex_emptied) = False"
    "cm_sessions (sv_manager (fst ex_emptied)) = []"
  by code_simp+

theorem reload_to_nothing_keeps_old_tools_witness:
  "ss_tool_names (get_status (fst ex_emptied)) = [''fetch'']"
proof -
  have eq: "reload (ex_reload []) ex_stale = (fst ex_emptied, Inr (projr (snd ex_emptied)))"
    using ex_emptied_ok(2) by (simp add: ex_emptied_def [symmetric] prod_eq_iff)
  have "ss_tool_names (get_status (fst ex_emptied)) = ss_tool_names (get_status ex_stale)"
    using reload_to_nothing_keeps_old_tools [OF eq ex_emptied_ok(1) ex_reload_visits _ ex_emptied_ok(3), of "[]"]
    by (simp add: ex_reload_def)
  then show ?thesis by (simp add: get_status_def ex_stale_def)
qed

lemma stacks_ok_disconnect_all: "stacks_ok (sv_manager s) \<Longrightarrow> stacks_ok (sv_manager (fold disconnect_backend ns s))"
  by (induction ns arbitrary: s) (simp_all add: disconnect_backend_def stacks_ok_disconnect)

lemma stacks_ok_connect_each:
  "stacks_ok (sv_manager s) \<Longrightarrow> connect_each env ch msg ns (s, cs, errs) = ((s', cs', errs'), r) \<Longrightarrow> stacks_ok (sv_manager s')"
proof (induction ns arbitrary: s cs errs)
  case (Cons n ns)
  define s0 where "s0 = (if ch then disconnect_backend n s else s)"
  obtain s1 cs1 r1 where c: "connect_one (env n) n cs s0 = (s1, cs1, r1)" using prod_cases3 by blast
  have "stacks_ok (sv_manager s0)"
    using Cons.prems(1) by (simp add: s0_def disconnect_backend_def stacks_ok_disconnect)
  then have k: "stacks_ok (sv_manager s1)"
    using stacks.start_backend [of "sv_manager s0" "env n" n "dict_get_or [] cs n"] c
    by (auto simp: connect_one_def split: prod.splits)
  show ?case
  proof (cases r1)
    case (Inl e)
    with Cons.prems(2) k show ?thesis by (simp add: s0_def [symmetric] c)
  next
    case (Inr ok)
    with Cons.prems(2) have "connect_each env ch msg ns (s1, cs1, if ok then errs else errs @ [msg n]) = ((s', cs', errs'), r)"
      by (simp add: s0_def [symmetric] c)
    from Cons.IH [OF k this] show ?thesis .
  qed
qed simp

lemma stacks_ok_reload:
  assumes "reload env s = (s', Inr res)" "rr_reloaded res" "stacks_ok (sv_manager s)"
  shows "stacks_ok (sv_manager s')"
proof -
  from assms(1,2) obtain d new s1 s2 cs2 errs2 s3 cs3 errs3 s4 where *:
    "s1 = fold disconnect_backend (rl_iterate env (removed d)) (emit ''config_reloaded'' ''Reloading configuration...'' ''info'' None s)"
    "connect_each (rl_attempt env) True reconnect_failed (rl_iterate env (changed d)) (s1, new, []) = ((s2, cs2, errs2), None)"
    "connect_each (rl_attempt env) False connect_new_failed (rl_iterate env (added d)) (s2, cs2, errs2) = ((s3, cs3, errs3), None)"
    "s4 = s3\<lparr>sv_config_data := Some cs3, sv_backends_total := length cs3,
              sv_backends_connected := get_active_session_count (sv_manager s3)\<rparr>"
    "\<exists>s5. (if cm_sessions (sv_manager s3) \<noteq> [] then rediscover (rl_registry env) (rl_answers env) (rl_order env) s4 = (s5, Inr ())
           else s5 = s4) \<and> s' = emit ''config_reloaded'' (''Config reloaded: '' @ diff_summary d) ''info'' None s5"
    by (rule reload_reloadedE)
  have "stacks_ok (sv_manager s1)" unfolding *(1) using assms(3) by (simp add: stacks_ok_disconnect_all)
  then have "stacks_ok (sv_manager s3)" using *(2,3) by (blast intro: stacks_ok_connect_each)
  moreover have "sv_manager s' = sv_manager s3"
    using *(5) rediscover_manager(1) [of "rl_registry env" "rl_answers env" "rl_order env" s4] *(4) by (auto split: if_splits)
  ultimately show ?thesis by simp
qed

lemma recorded_not_closed:
  assumes "stacks_ok m" "dict_get (cm_backend_stacks m) n = Some k"
  shows "k \<notin> set (cm_closed m)"
proof -
  have "mset (cm_closed m @ map snd (cm_backend_stacks m)) = mset [0..<cm_next_stack m]"
    using assms(1) by (simp add: stacks_ok_def)
  from mset_eq_imp_distinct_iff [OF this] have "distinct (cm_closed m @ map snd (cm_backend_stacks m))" by simp
  moreover have "k \<in> set (map snd (cm_backend_stacks m))" using map_of_SomeD [OF assms(2)] by force
  ultimately show ?thesis by auto
qed

text \<open>
  A backend whose connection attempts failed keeps its exit stack, with the transport and
  the process opened on it, and a reload that removes the backend from the configuration does
  not close it: only connected backends are disconnected. The stack is left until the whole
  service stops.
\<close>

theorem removed_unconnected_backend_keeps_its_stack:
  assumes "reload env s = (s', Inr res)" "rr_reloaded res" "visits_all env" "rl_config env = Inr new"
    and "n \<in> removed (compute_diff (old_config s) new)"
    and "dict_get (cm_sessions (sv_manager s)) n = None" "dict_get (cm_backend_stacks (sv_manager s)) n = Some k"
    and "stacks_ok (sv_manager s)"
  shows "dict_get (cm_backend_stacks (sv_manager s')) n = Some k \<and> k \<notin> set (cm_closed (sv_manager s'))"
proof -
  have "n \<notin> added (compute_diff (old_config s) new)" "n \<notin> changed (compute_diff (old_config s) new)"
    using assms(5) compute_diff_sets(3) [of "old_config s" new] by (auto simp: compute_diff_sets(1,2))
  from reload_connections(1) [OF assms(1-4) this] assms(6,7)
  have "dict_get (cm_backend_stacks (sv_manager s')) n = Some k" by (simp add: keeps_connection_def)
  with recorded_not_closed [OF stacks_ok_reload [OF assms(1,2,8)]] show ?thesis by blast
qed

definition ex_half_open :: ArgusService where
  "ex_half_open = ex_running\<lparr>sv_manager := new_client_manager\<lparr>cm_backend_stacks := [(''web'', 0)], cm_next_stack := 1\<rparr>\<rparr>"

definition ex_removed :: "ArgusService \<times> (base_exn + reload_result)" where
  "ex_removed = reload (ex_reload []) ex_half_open"

lemma ex_removed_ok: "rr_reloaded (projr (snd ex_removed))" "isl (snd ex_removed) = False"
  by code_simp+

theorem removed_unconnected_backend_keeps_its_stack_witness:
  "dict_get (cm_backend_stacks (sv_manager (fst ex_removed))) ''web'' = Some 0"
proof -
  have eq: "reload (ex_reload []) ex_half_open = (fst ex_removed, Inr (projr (snd ex_removed)))"
    using ex_removed_ok(2) by (simp add: ex_removed_def [symmetric] prod_eq_iff)
  show ?thesis
    using removed_unconnected_backend_keeps_its_stack [OF eq ex_removed_ok(1) ex_reload_visits, of "[]" "''web''" 0]
    by (simp add: ex_reload_def compute_diff_sets(2) old_config_def ex_half_open_def ex_running_def new_client_manager_def stacks_ok_def)
qed

text \<open>
  A configuration file that does not validate makes a reload raise \<open>ConfigurationError\<close>
  instead of returning a result with the error in it, also when the watcher calls it; the
  service goes on with the old configuration.
\<close>

theorem invalid_config_makes_reload_raise:
  assumes "sv_state s = SvcRUNNING" "sv_config_path s = Some path" "rl_config env = Inl (ConfigurationError msg)"
  shows "snd (reload env s) = Inl (Exc (ConfigurationError msg) 0 []) \<and>
    snd (on_config_file_changed env s) = Some (Exc (ConfigurationError msg) 0 []) \<and>
    sv_config_data (fst (reload env s)) = sv_config_data s \<and> sv_manager (fst (reload env s)) = sv_manager s \<and>
    sv_registries (fst (reload env s)) = sv_registries s"
  using assms by (simp add: reload_def on_config_file_changed_def config_caught_def Let_def)

theorem invalid_config_makes_reload_raise_witness:
  "snd (reload ((ex_reload [])\<lparr>rl_config := Inl (ConfigurationError ''bad'')\<rparr>) ex_running) = Inl (Exc (ConfigurationError ''bad'') 0 [])"
  using invalid_config_makes_reload_raise [of ex_running "''argus.yaml''" "(ex_reload [])\<lparr>rl_config := Inl (ConfigurationError ''bad'')\<rparr>" "''bad''"]
  by (simp add: ex_running_def)

end
