(* ===== verification/Rate_Limit.thy ===== *)
theory Rate_Limit
  imports Py_String
begin

text \<open>
  \<open>server/rate_limit.py\<close>: the sliding-window rate limiter with authentication lockout, an ASGI
  layer in front of the application. The three \<open>TTLCache\<close> objects are third-party code: their
  operations are arguments (\<open>cache_ops\<close>) and what the limiter relies on is the locale
  \<open>ttl_cache\<close>: an entry is found until its time to live is over, and other entries are not
  lost as long as at most \<open>maxsize\<close> keys are in use. Address parsing and the membership in the
  trusted networks are the argument \<open>trusted\<close> (\<open>None\<close> for a string that is no address).
\<close>

section \<open>Definitions\<close>

record ('c, 'v) cache_ops =
  co_new :: 'c
  co_get :: "'c \<Rightarrow> string \<Rightarrow> rat \<Rightarrow> 'c \<times> 'v option"
  co_set :: "'c \<Rightarrow> string \<Rightarrow> 'v \<Rightarrow> rat \<Rightarrow> 'c"
  co_pop :: "'c \<Rightarrow> string \<Rightarrow> rat \<Rightarrow> 'c"

record RateLimitsConfig =
  rl_enabled :: bool
  rl_requests :: int
  rl_window_seconds :: rat
  rl_auth_lockout_threshold :: int
  rl_auth_lockout_window_seconds :: rat
  rl_auth_lockout_duration_seconds :: rat

record ('c, 'f, 'l) limiter =
  request_log :: 'c
  auth_failure_log :: 'f
  lockouts :: 'l

text \<open>The caches of the limiter: request times, failure times, lockouts.\<close>

record ('c, 'f, 'l) caches =
  req_ops :: "('c, rat list) cache_ops"
  fail_ops :: "('f, rat list) cache_ops"
  lock_ops :: "('l, bool) cache_ops"

definition new_limiter :: "('c, 'f, 'l) caches \<Rightarrow> ('c, 'f, 'l) limiter" where
  "new_limiter cs = \<lparr>request_log = co_new (req_ops cs), auth_failure_log = co_new (fail_ops cs), lockouts = co_new (lock_ops cs)\<rparr>"

definition first_untrusted :: "(string \<Rightarrow> bool option) \<Rightarrow> string list \<Rightarrow> string option" where
  "first_untrusted trusted parts = find (\<lambda>p. trusted p = Some False) parts"

definition get_client_ip ::
    "(string \<Rightarrow> bool option) \<Rightarrow> bool \<Rightarrow> string option \<Rightarrow> (string, string) dict \<Rightarrow> string" where
  "get_client_ip trusted has_proxies client headers =
     (case client of
        None \<Rightarrow> ''unknown''
      | Some direct_ip \<Rightarrow>
          (if has_proxies \<and> trusted direct_ip = Some True
           then let xff = dict_get_or [] (dict_update [] headers) ''x-forwarded-for''
                in if xff = [] then direct_ip
                   else case first_untrusted trusted (rev (map str_strip (split_on (CHR '','') xff))) of
                          Some ip \<Rightarrow> ip
                        | None \<Rightarrow> direct_ip
           else direct_ip))"

definition is_locked_out :: "('c, 'f, 'l) caches \<Rightarrow> string \<Rightarrow> rat \<Rightarrow> ('c, 'f, 'l) limiter \<Rightarrow> ('c, 'f, 'l) limiter \<times> bool" where
  "is_locked_out cs ip now l =
     (case co_get (lock_ops cs) (lockouts l) ip now of (c, v) \<Rightarrow> (l\<lparr>lockouts := c\<rparr>, v \<noteq> None))"

definition prune_window :: "rat list \<Rightarrow> rat \<Rightarrow> rat list" where
  "prune_window timestamps window_start = filter (\<lambda>ts. window_start \<le> ts) timestamps"

definition check_rate_limit ::
    "('c, 'f, 'l) caches \<Rightarrow> RateLimitsConfig \<Rightarrow> string \<Rightarrow> rat \<Rightarrow> ('c, 'f, 'l) limiter \<Rightarrow> ('c, 'f, 'l) limiter \<times> bool" where
  "check_rate_limit cs cfg ip now l =
     (case co_get (req_ops cs) (request_log l) ip now of
        (c, v) \<Rightarrow>
          (let timestamps = prune_window (case v of None \<Rightarrow> [] | Some ts \<Rightarrow> ts) (now - rl_window_seconds cfg)
           in if int (length timestamps) \<ge> rl_requests cfg
              then (l\<lparr>request_log := co_set (req_ops cs) c ip timestamps now\<rparr>, False)
              else (l\<lparr>request_log := co_set (req_ops cs) c ip (timestamps @ [now]) now\<rparr>, True)))"

text \<open>\<open>now\<close> is the time the request arrived, \<open>t\<close> the time its answer was seen.\<close>

definition record_auth_failure ::
    "('c, 'f, 'l) caches \<Rightarrow> RateLimitsConfig \<Rightarrow> string \<Rightarrow> rat \<Rightarrow> rat \<Rightarrow> ('c, 'f, 'l) limiter \<Rightarrow> ('c, 'f, 'l) limiter" where
  "record_auth_failure cs cfg ip now t l =
     (case co_get (fail_ops cs) (auth_failure_log l) ip t of
        (c, v) \<Rightarrow>
          (let timestamps = prune_window (case v of None \<Rightarrow> [] | Some ts \<Rightarrow> ts) (now - rl_auth_lockout_window_seconds cfg) @ [now];
               l1 = l\<lparr>auth_failure_log := co_set (fail_ops cs) c ip timestamps t\<rparr>
           in if int (length timestamps) \<ge> rl_auth_lockout_threshold cfg
              then l1\<lparr>lockouts := co_set (lock_ops cs) (lockouts l1) ip True t,
                      auth_failure_log := co_pop (fail_ops cs) (auth_failure_log l1) ip t\<rparr>
              else l1))"

datatype decision = PassedThrough | LockedOut | RateLimited

text \<open>An HTTP request up to the call of the application, for an enabled limiter.\<close>

definition on_request ::
    "('c, 'f, 'l) caches \<Rightarrow> RateLimitsConfig \<Rightarrow> string \<Rightarrow> rat \<Rightarrow> ('c, 'f, 'l) limiter \<Rightarrow> ('c, 'f, 'l) limiter \<times> decision" where
  "on_request cs cfg ip now l =
     (if \<not> rl_enabled cfg then (l, PassedThrough)
      else case is_locked_out cs ip now l of
             (l1, True) \<Rightarrow> (l1, LockedOut)
           | (l1, False) \<Rightarrow>
               (case check_rate_limit cs cfg ip now l1 of
                  (l2, True) \<Rightarrow> (l2, PassedThrough)
                | (l2, False) \<Rightarrow> (l2, RateLimited)))"

text \<open>What follows the call: the first status the application sent decides.\<close>

definition on_response ::
    "('c, 'f, 'l) caches \<Rightarrow> RateLimitsConfig \<Rightarrow> string \<Rightarrow> rat \<Rightarrow> rat \<Rightarrow> int list \<Rightarrow> ('c, 'f, 'l) limiter \<Rightarrow> ('c, 'f, 'l) limiter" where
  "on_response cs cfg ip now t captured_status l =
     (if rl_enabled cfg \<and> captured_status \<noteq> [] \<and> hd captured_status \<in> {401, 403}
      then record_auth_failure cs cfg ip now t l else l)"

text \<open>
  What happens to the limiter in the course of time: a request of a client arrives, or the
  application has answered one; each event at its time of the monotone clock.
\<close>

datatype rl_event =
    Request (ev_ip: string) (ev_now: rat)
  | Response (ev_ip: string) (ev_now: rat) (ev_seen: rat) (ev_status: "int list")

fun ev_time :: "rl_event \<Rightarrow> rat" where
  "ev_time (Request ip now) = now"
| "ev_time (Response ip now t st) = t"

fun rl_step :: "('c, 'f, 'l) caches \<Rightarrow> RateLimitsConfig \<Rightarrow> rl_event \<Rightarrow> ('c, 'f, 'l) limiter \<Rightarrow> ('c, 'f, 'l) limiter" where
  "rl_step cs cfg (Request ip now) l = fst (on_request cs cfg ip now l)"
| "rl_step cs cfg (Response ip now t st) l = on_response cs cfg ip now t st l"

fun rl_run :: "('c, 'f, 'l) caches \<Rightarrow> RateLimitsConfig \<Rightarrow> rl_event list \<Rightarrow> ('c, 'f, 'l) limiter \<Rightarrow> ('c, 'f, 'l) limiter" where
  "rl_run cs cfg [] l = l"
| "rl_run cs cfg (e # es) l = rl_run cs cfg es (rl_step cs cfg e l)"

text \<open>The times at which requests of a client were passed on to the application.\<close>

fun passed :: "('c, 'f, 'l) caches \<Rightarrow> RateLimitsConfig \<Rightarrow> string \<Rightarrow> rl_event list \<Rightarrow> ('c, 'f, 'l) limiter \<Rightarrow> rat list" where
  "passed cs cfg j [] l = []"
| "passed cs cfg j (e # es) l =
     (case e of
        Request ip now \<Rightarrow> if ip = j \<and> snd (on_request cs cfg ip now l) = PassedThrough then [now] else []
      | Response ip now t st \<Rightarrow> []) @ passed cs cfg j es (rl_step cs cfg e l)"

text \<open>Events in the order of the clock, of clients of a set \<open>K\<close>; an answer is seen after its request.\<close>

fun ordered :: "string set \<Rightarrow> rat \<Rightarrow> rl_event list \<Rightarrow> bool" where
  "ordered K t0 [] = True"
| "ordered K t0 (e # es) = (t0 \<le> ev_time e \<and> ev_now e \<le> ev_time e \<and> ev_ip e \<in> K \<and> ordered K (ev_time e) es)"

definition auth_failures :: "string \<Rightarrow> rl_event list \<Rightarrow> rat list" where
  "auth_failures j es = concat (map (\<lambda>e. case e of
       Request ip now \<Rightarrow> []
     | Response ip now t st \<Rightarrow> if ip = j \<and> st \<noteq> [] \<and> hd st \<in> {401, 403} then [now] else []) es)"

section \<open>What the limiter relies on\<close>

locale ttl_cache =
  fixes ops :: "('c, 'v) cache_ops" and ttl :: rat and maxsize :: nat and keys :: "'c \<Rightarrow> string set" and valid :: "'c \<Rightarrow> bool"
  assumes get_new: "snd (co_get ops (co_new ops) k t) = None"
    and get_set_same: "valid c \<Longrightarrow> t \<le> t' \<Longrightarrow> snd (co_get ops (co_set ops c k v t) k t') = (if t' < t + ttl then Some v else None)"
    and get_set_other: "valid c \<Longrightarrow> k \<noteq> j \<Longrightarrow> t \<le> t' \<Longrightarrow> card (insert k (keys c)) \<le> maxsize \<Longrightarrow>
          snd (co_get ops (co_set ops c k v t) j t') = snd (co_get ops c j t')"
    and get_pop_same: "valid c \<Longrightarrow> t \<le> t' \<Longrightarrow> snd (co_get ops (co_pop ops c k t) k t') = None"
    and get_pop_other: "valid c \<Longrightarrow> k \<noteq> j \<Longrightarrow> t \<le> t' \<Longrightarrow> snd (co_get ops (co_pop ops c k t) j t') = snd (co_get ops c j t')"
    and get_pure: "valid c \<Longrightarrow> t \<le> t' \<Longrightarrow> snd (co_get ops (fst (co_get ops c k t)) j t') = snd (co_get ops c j t')"
    and keys_new: "keys (co_new ops) = {}"
    and keys_set: "keys (co_set ops c k v t) \<subseteq> insert k (keys c)"
    and keys_get: "keys (fst (co_get ops c k t)) \<subseteq> keys c"
    and keys_pop: "keys (co_pop ops c k t) \<subseteq> keys c"
    and keys_finite: "finite (keys c)"
    and valid_new: "valid (co_new ops)"
    and valid_set: "valid c \<Longrightarrow> valid (co_set ops c k v t)"
    and valid_get: "valid c \<Longrightarrow> valid (fst (co_get ops c k t))"
    and valid_pop: "valid c \<Longrightarrow> valid (co_pop ops c k t)"
begin

text \<open>As long as all keys come from a set of at most \<open>maxsize\<close> keys nothing is evicted early.\<close>

definition fitting :: "string set \<Rightarrow> 'c \<Rightarrow> bool" where
  "fitting K c = (valid c \<and> keys c \<subseteq> K \<and> finite K \<and> card K \<le> maxsize)"

lemma fitting_new: "finite K \<Longrightarrow> card K \<le> maxsize \<Longrightarrow> fitting K (co_new ops)"
  by (simp add: fitting_def valid_new keys_new)

lemma fitting_set: "fitting K c \<Longrightarrow> k \<in> K \<Longrightarrow> fitting K (co_set ops c k v t)"
  using keys_set [of c k v t] by (auto simp: fitting_def valid_set)

lemma fitting_get: "fitting K c \<Longrightarrow> fitting K (fst (co_get ops c k t))"
  using keys_get [of c k t] by (auto simp: fitting_def valid_get)

lemma fitting_pop: "fitting K c \<Longrightarrow> fitting K (co_pop ops c k t)"
  using keys_pop [of c k t] by (auto simp: fitting_def valid_pop)

lemma get_fst:
  "fitting K c \<Longrightarrow> t \<le> t' \<Longrightarrow> snd (co_get ops (fst (co_get ops c k t)) j t') = snd (co_get ops c j t')"
  by (simp add: fitting_def get_pure)

lemma get_set:
  assumes "fitting K c" "k \<in> K" "t \<le> t'"
  shows "snd (co_get ops (co_set ops c k v t) j t') =
    (if j = k then (if t' < t + ttl then Some v else None) else snd (co_get ops c j t'))"
proof -
  have "insert k (keys c) \<subseteq> K" "finite K" "card K \<le> maxsize" using assms(1,2) by (auto simp: fitting_def)
  then have "card (insert k (keys c)) \<le> maxsize" using card_mono [of K "insert k (keys c)"] by simp
  with assms show ?thesis using get_set_same [of c t t'] get_set_other [of c k j t t'] by (auto simp: fitting_def)
qed

lemma get_pop:
  "fitting K c \<Longrightarrow> t \<le> t' \<Longrightarrow>
   snd (co_get ops (co_pop ops c k t) j t') = (if j = k then None else snd (co_get ops c j t'))"
  using get_pop_same [of c t t'] get_pop_other [of c k j t t'] by (auto simp: fitting_def)

lemmas fitting_ops = fitting_set fitting_get fitting_pop

end

text \<open>The three caches with the lifetimes that \<open>__init__\<close> gives them.\<close>

locale rate_limiter =
  req: ttl_cache "req_ops cs" "rl_window_seconds cfg * 2" maxsize rk rv +
  fail: ttl_cache "fail_ops cs" "rl_auth_lockout_window_seconds cfg" maxsize fk fv +
  lock: ttl_cache "lock_ops cs" "rl_auth_lockout_duration_seconds cfg" maxsize lk lv
  for cs :: "('c, 'f, 'l) caches" and cfg :: RateLimitsConfig and maxsize :: nat
    and rk :: "'c \<Rightarrow> string set" and rv :: "'c \<Rightarrow> bool" and fk :: "'f \<Rightarrow> string set" and fv :: "'f \<Rightarrow> bool"
    and lk :: "'l \<Rightarrow> string set" and lv :: "'l \<Rightarrow> bool"
begin

definition fits :: "string set \<Rightarrow> ('c, 'f, 'l) limiter \<Rightarrow> bool" where
  "fits K l = (req.fitting K (request_log l) \<and> fail.fitting K (auth_failure_log l) \<and> lock.fitting K (lockouts l))"

lemmas fitting_ops = req.fitting_ops fail.fitting_ops lock.fitting_ops

lemma fits_new: "finite K \<Longrightarrow> card K \<le> maxsize \<Longrightarrow> fits K (new_limiter cs)"
  by (simp add: fits_def new_limiter_def req.fitting_new fail.fitting_new lock.fitting_new)

lemma fits_request: "fits K l \<Longrightarrow> ip \<in> K \<Longrightarrow> fits K (fst (on_request cs cfg ip now l))"
  by (auto simp: fits_def on_request_def is_locked_out_def check_rate_limit_def Let_def fitting_ops
      split: prod.splits bool.splits) (metis fst_conv fitting_ops)+

lemma fits_response: "fits K l \<Longrightarrow> ip \<in> K \<Longrightarrow> fits K (on_response cs cfg ip now t st l)"
  by (auto simp: fits_def on_response_def record_auth_failure_def Let_def fitting_ops split: prod.splits)
    (metis fst_conv fitting_ops)+

lemma fits_step: "fits K l \<Longrightarrow> ev_ip e \<in> K \<Longrightarrow> fits K (rl_step cs cfg e l)"
  by (cases e) (simp_all add: fits_request fits_response)

text \<open>The request log of a client as a check reads it, and how one event changes it.\<close>

definition logged :: "string \<Rightarrow> rat \<Rightarrow> ('c, 'f, 'l) limiter \<Rightarrow> rat list" where
  "logged j t l = (case snd (co_get (req_ops cs) (request_log l) j t) of None \<Rightarrow> [] | Some ts \<Rightarrow> ts)"

definition in_window :: "string \<Rightarrow> rat \<Rightarrow> ('c, 'f, 'l) limiter \<Rightarrow> rat list" where
  "in_window j t l = prune_window (logged j t l) (t - rl_window_seconds cfg)"

definition is_locked :: "string \<Rightarrow> rat \<Rightarrow> ('c, 'f, 'l) limiter \<Rightarrow> bool" where
  "is_locked j t l = (snd (co_get (lock_ops cs) (lockouts l) j t) \<noteq> None)"

lemma on_request_decision:
  "snd (on_request cs cfg ip now l) =
    (if \<not> rl_enabled cfg then PassedThrough
     else if is_locked ip now l then LockedOut
     else if int (length (in_window ip now l)) \<ge> rl_requests cfg then RateLimited else PassedThrough)"
  by (auto simp: on_request_def is_locked_out_def check_rate_limit_def is_locked_def in_window_def logged_def Let_def
      split: prod.splits bool.splits)

lemma on_request_log:
  "request_log (fst (on_request cs cfg ip now l)) =
    (if \<not> rl_enabled cfg \<or> is_locked ip now l then request_log l
     else co_set (req_ops cs) (fst (co_get (req_ops cs) (request_log l) ip now)) ip
       (in_window ip now l @ (if snd (on_request cs cfg ip now l) = PassedThrough then [now] else [])) now)"
  by (auto simp: on_request_def is_locked_out_def check_rate_limit_def is_locked_def in_window_def logged_def Let_def
      split: prod.splits bool.splits)

lemma on_request_lockouts:
  "lockouts (fst (on_request cs cfg ip now l)) =
    (if rl_enabled cfg then fst (co_get (lock_ops cs) (lockouts l) ip now) else lockouts l)"
  "auth_failure_log (fst (on_request cs cfg ip now l)) = auth_failure_log l"
  by (auto simp: on_request_def is_locked_out_def check_rate_limit_def Let_def split: prod.splits bool.splits)

lemma on_response_log [simp]: "request_log (on_response cs cfg ip now t st l) = request_log l"
  by (simp add: on_response_def record_auth_failure_def Let_def split: prod.split)

lemma logged_request:
  assumes "fits K l" "ip \<in> K" "now \<le> t" "rl_enabled cfg" "\<not> is_locked ip now l"
  shows "logged j t (fst (on_request cs cfg ip now l)) =
    (if j = ip then (if t < now + rl_window_seconds cfg * 2
       then in_window ip now l @ (if snd (on_request cs cfg ip now l) = PassedThrough then [now] else []) else [])
     else logged j t l)"
proof -
  have f: "req.fitting K (request_log l)" using assms(1) by (simp add: fits_def)
  show ?thesis unfolding logged_def on_request_log using assms f
    by (simp add: req.get_set [OF req.fitting_get [OF f] assms(2,3)] req.get_fst [OF f])
qed

text \<open>The log agrees with the history \<open>h\<close> of passed requests on every later window.\<close>

definition agrees :: "rat \<Rightarrow> (string \<Rightarrow> rat list) \<Rightarrow> ('c, 'f, 'l) limiter \<Rightarrow> bool" where
  "agrees t0 h l = (\<forall>j. (\<forall>x \<in> set (h j). x \<le> t0) \<and>
     (\<forall>t \<ge> t0. in_window j t l = prune_window (h j) (t - rl_window_seconds cfg)))"

lemma prune_prune: "a \<le> b \<Longrightarrow> prune_window (prune_window xs a) b = prune_window xs b"
  by (auto simp: prune_window_def intro: filter_cong)

lemma prune_append: "prune_window (xs @ ys) a = prune_window xs a @ prune_window ys a"
  by (simp add: prune_window_def)

lemma prune_old: "(\<And>x. x \<in> set xs \<Longrightarrow> x < a) \<Longrightarrow> prune_window xs a = []"
  by (force simp: prune_window_def filter_empty_conv)

lemma history_request:
  assumes ag: "agrees t0 h l" and w: "0 < rl_window_seconds cfg" and en: "rl_enabled cfg"
    and f: "fits K l" "ip \<in> K" and t0: "t0 \<le> now"
  defines "h' \<equiv> h(ip := h ip @ (if snd (on_request cs cfg ip now l) = PassedThrough then [now] else []))"
  shows "agrees now h' (fst (on_request cs cfg ip now l))"
  unfolding agrees_def
proof (intro allI conjI impI ballI)
  fix j x assume "x \<in> set (h' j)"
  then show "x \<le> now" using ag t0 unfolding agrees_def h'_def by (fastforce split: if_splits)
next
  fix j t assume t: "now \<le> t"
  let ?l = "fst (on_request cs cfg ip now l)"
  have old: "in_window j t l = prune_window (h j) (t - rl_window_seconds cfg)" for j
    using ag t t0 unfolding agrees_def by simp
  show "in_window j t ?l = prune_window (h' j) (t - rl_window_seconds cfg)"
  proof (cases "is_locked ip now l")
    case True
    then have "request_log ?l = request_log l" "h' = h" using en by (simp_all add: on_request_log on_request_decision h'_def)
    then show ?thesis using old [of j] by (simp add: in_window_def logged_def)
  next
    case False
    note lg = logged_request [OF f t en False, of j]
    have now: "in_window ip now l = prune_window (h ip) (now - rl_window_seconds cfg)"
      using ag t0 unfolding agrees_def by simp
    have le: "x \<le> now" if "x \<in> set (h' ip)" for x
      using that ag t0 unfolding agrees_def h'_def by (fastforce split: if_splits)
    consider "j \<noteq> ip" | "j = ip" "t < now + rl_window_seconds cfg * 2" | "j = ip" "\<not> t < now + rl_window_seconds cfg * 2" by blast
    then show ?thesis
    proof cases
      case 1
      then show ?thesis using lg old [of j] by (simp add: in_window_def h'_def)
    next
      case 2
      then have "logged j t ?l = prune_window (h ip) (now - rl_window_seconds cfg) @
          (if snd (on_request cs cfg ip now l) = PassedThrough then [now] else [])" using lg now by simp
      then show ?thesis using 2(1) t by (simp add: in_window_def h'_def prune_append prune_prune)
    next
      case 3
      then have "logged j t ?l = []" using lg by simp
      moreover have "prune_window (h' ip) (t - rl_window_seconds cfg) = []"
        by (rule prune_old) (use le w 3 in fastforce)
      ultimately show ?thesis using 3(1) by (simp add: in_window_def prune_window_def)
    qed
  qed
qed

lemma history_response: "agrees t0 h l \<Longrightarrow> t0 \<le> t1 \<Longrightarrow> agrees t1 h (on_response cs cfg ip now t st l)"
  unfolding agrees_def in_window_def logged_def by (force intro: order_trans)

lemma history_run:
  assumes "agrees t0 h l" "fits K l" "ordered K t0 es" "0 < rl_window_seconds cfg" "rl_enabled cfg"
  shows "agrees (last (t0 # map ev_time es)) (\<lambda>j. h j @ passed cs cfg j es l) (rl_run cs cfg es l) \<and> fits K (rl_run cs cfg es l)"
  using assms
proof (induction es arbitrary: t0 h l)
  case (Cons e es)
  define h' where "h' = (\<lambda>j. h j @ (case e of
        Request ip now \<Rightarrow> if ip = j \<and> snd (on_request cs cfg ip now l) = PassedThrough then [now] else []
      | Response ip now t st \<Rightarrow> []))"
  have "agrees (ev_time e) h' (rl_step cs cfg e l)"
  proof (cases e)
    case (Request ip now)
    moreover have "h' = h(ip := h ip @ (if snd (on_request cs cfg ip now l) = PassedThrough then [now] else []))"
      unfolding h'_def Request by auto
    ultimately show ?thesis using history_request [OF Cons.prems(1,4,5,2)] Cons.prems(3) by simp
  next
    case (Response ip now t st)
    then show ?thesis using history_response [OF Cons.prems(1)] Cons.prems(3) by (simp add: h'_def)
  qed
  moreover have "fits K (rl_step cs cfg e l)" using Cons.prems by (simp add: fits_step)
  ultimately have "agrees (last (ev_time e # map ev_time es)) (\<lambda>j. h' j @ passed cs cfg j es (rl_step cs cfg e l))
      (rl_run cs cfg es (rl_step cs cfg e l)) \<and> fits K (rl_run cs cfg es (rl_step cs cfg e l))"
    using Cons.IH Cons.prems by simp
  moreover have "(\<lambda>j. h' j @ passed cs cfg j es (rl_step cs cfg e l)) = (\<lambda>j. h j @ passed cs cfg j (e # es) l)"
    by (simp add: h'_def)
  ultimately show ?case by simp
qed simp

lemma history_new: "agrees t0 (\<lambda>j. []) (new_limiter cs)"
  by (simp add: agrees_def in_window_def logged_def new_limiter_def req.get_new prune_window_def)

lemma decision_by_history:
  assumes "finite K" "card K \<le> maxsize" "ordered K t0 (es @ [Request ip now])" "0 < rl_window_seconds cfg" "rl_enabled cfg"
    and "snd (on_request cs cfg ip now (rl_run cs cfg es (new_limiter cs))) \<noteq> LockedOut"
  shows "snd (on_request cs cfg ip now (rl_run cs cfg es (new_limiter cs))) = PassedThrough \<longleftrightarrow>
    int (length (filter (\<lambda>x. now - rl_window_seconds cfg \<le> x) (passed cs cfg ip es (new_limiter cs)))) < rl_requests cfg"
proof -
  have split: "ordered K a (xs @ [e]) \<Longrightarrow> ordered K a xs \<and> last (a # map ev_time xs) \<le> ev_time e" for a xs e
    by (induction xs arbitrary: a) auto
  have ord: "ordered K t0 es" "last (t0 # map ev_time es) \<le> now" using split [OF assms(3)] by simp_all
  have "agrees (last (t0 # map ev_time es)) (\<lambda>j. [] @ passed cs cfg j es (new_limiter cs)) (rl_run cs cfg es (new_limiter cs))"
    using history_run [OF history_new fits_new ord(1) assms(4,5)] assms(1,2) by blast
  then have "in_window ip now (rl_run cs cfg es (new_limiter cs)) =
      prune_window (passed cs cfg ip es (new_limiter cs)) (now - rl_window_seconds cfg)"
    using ord(2) unfolding agrees_def by simp
  then show ?thesis using assms(5,6) by (simp add: on_request_decision prune_window_def not_le split: if_splits)
qed

text \<open>Failures are counted until the threshold, and a lockout lasts for its duration.\<close>

definition failed_at :: "string \<Rightarrow> rat \<Rightarrow> ('c, 'f, 'l) limiter \<Rightarrow> rat list option" where
  "failed_at j t l = snd (co_get (fail_ops cs) (auth_failure_log l) j t)"

definition failures_after :: "string \<Rightarrow> rat \<Rightarrow> rat \<Rightarrow> ('c, 'f, 'l) limiter \<Rightarrow> rat list" where
  "failures_after j now t l = prune_window (case failed_at j t l of None \<Rightarrow> [] | Some ts \<Rightarrow> ts)
     (now - rl_auth_lockout_window_seconds cfg) @ [now]"

definition auth_failed :: "int list \<Rightarrow> bool" where
  "auth_failed st = (st \<noteq> [] \<and> hd st \<in> {401, 403})"

lemma on_response_failures:
  assumes "rl_enabled cfg"
  shows "auth_failure_log (on_response cs cfg ip now t st l) =
    (if \<not> auth_failed st then auth_failure_log l
     else let c = co_set (fail_ops cs) (fst (co_get (fail_ops cs) (auth_failure_log l) ip t)) ip (failures_after ip now t l) t
       in if int (length (failures_after ip now t l)) \<ge> rl_auth_lockout_threshold cfg then co_pop (fail_ops cs) c ip t else c)"
    and "lockouts (on_response cs cfg ip now t st l) =
    (if auth_failed st \<and> int (length (failures_after ip now t l)) \<ge> rl_auth_lockout_threshold cfg
     then co_set (lock_ops cs) (lockouts l) ip True t else lockouts l)"
  using assms by (simp_all add: on_response_def record_auth_failure_def failures_after_def failed_at_def auth_failed_def
      Let_def split: prod.split)

lemma failed_at_request: "failed_at j t (fst (on_request cs cfg ip now l)) = failed_at j t l"
  by (simp add: failed_at_def on_request_lockouts)

lemma is_locked_request:
  "fits K l \<Longrightarrow> now \<le> t \<Longrightarrow> is_locked j t (fst (on_request cs cfg ip now l)) = is_locked j t l"
  using lock.get_fst [of K "lockouts l" now t ip j] by (simp add: is_locked_def on_request_lockouts fits_def)

lemma failed_at_response:
  assumes "fits K l" "ip \<in> K" "t \<le> t'" "rl_enabled cfg"
  shows "failed_at j t' (on_response cs cfg ip now t st l) =
    (if auth_failed st \<and> j = ip then
       (if int (length (failures_after ip now t l)) \<ge> rl_auth_lockout_threshold cfg then None
        else if t' < t + rl_auth_lockout_window_seconds cfg then Some (failures_after ip now t l) else None)
     else failed_at j t' l)"
proof -
  have f: "fail.fitting K (auth_failure_log l)" using assms(1) by (simp add: fits_def)
  note g = fail.fitting_get [OF f, of ip t]
  show ?thesis using assms(3)
    by (simp add: failed_at_def on_response_failures [OF assms(4)] Let_def fail.get_pop [OF fail.fitting_set [OF g assms(2)] assms(3)]
        fail.get_set [OF g assms(2,3)] fail.get_fst [OF f])
qed

lemma is_locked_response:
  assumes "fits K l" "ip \<in> K" "t \<le> t'" "rl_enabled cfg"
  shows "is_locked j t' (on_response cs cfg ip now t st l) =
    (if auth_failed st \<and> j = ip \<and> int (length (failures_after ip now t l)) \<ge> rl_auth_lockout_threshold cfg
     then t' < t + rl_auth_lockout_duration_seconds cfg else is_locked j t' l)"
proof -
  have f: "lock.fitting K (lockouts l)" using assms(1) by (simp add: fits_def)
  show ?thesis by (auto simp: is_locked_def on_response_failures(2) [OF assms(4)] lock.get_set [OF f assms(2,3)])
qed

definition locked_until :: "string \<Rightarrow> rat \<Rightarrow> rat \<Rightarrow> ('c, 'f, 'l) limiter \<Rightarrow> bool" where
  "locked_until j u t0 l = (u \<le> t0 + rl_auth_lockout_duration_seconds cfg \<and> (\<forall>t. t0 \<le> t \<and> t < u \<longrightarrow> is_locked j t l))"

lemma locked_step:
  assumes "locked_until j u t0 l" "fits K l" "ev_ip e \<in> K" "t0 \<le> ev_time e" "rl_enabled cfg"
  shows "locked_until j u (ev_time e) (rl_step cs cfg e l)"
  using assms by (cases e) (auto simp: locked_until_def is_locked_request is_locked_response)

lemma locked_run:
  "locked_until j u t0 l \<Longrightarrow> fits K l \<Longrightarrow> ordered K t0 es \<Longrightarrow> rl_enabled cfg \<Longrightarrow>
   locked_until j u (last (t0 # map ev_time es)) (rl_run cs cfg es l)"
proof (induction es arbitrary: t0 l)
  case (Cons e es)
  then have "locked_until j u (ev_time e) (rl_step cs cfg e l)" "fits K (rl_step cs cfg e l)" "ordered K (ev_time e) es"
    by (simp_all add: locked_step fits_step)
  from Cons.IH [OF this Cons.prems(4)] show ?case by simp
qed simp

text \<open>Below the threshold the log holds every failure since \<open>s\<close> and nobody is locked out.\<close>

definition counting :: "string \<Rightarrow> rat \<Rightarrow> rat \<Rightarrow> rat list \<Rightarrow> ('c, 'f, 'l) limiter \<Rightarrow> bool" where
  "counting j s t0 fs l = ((\<forall>x \<in> set fs. s \<le> x) \<and>
     (\<forall>t. t0 \<le> t \<longrightarrow> \<not> is_locked j t l \<and>
        (t < s + rl_auth_lockout_window_seconds cfg \<longrightarrow> failed_at j t l = (if fs = [] then None else Some fs))))"

lemma failures_counting:
  assumes "counting j s t0 fs l" "t0 \<le> t" "now \<le> t" "t < s + rl_auth_lockout_window_seconds cfg"
  shows "failures_after j now t l = fs @ [now]"
proof -
  have "filter (\<lambda>x. now - rl_auth_lockout_window_seconds cfg \<le> x) fs = fs"
    by (rule filter_True) (use assms in \<open>force simp: counting_def\<close>)
  then show ?thesis using assms by (simp add: failures_after_def counting_def prune_window_def)
qed

lemma counting_step:
  assumes c: "counting j s t0 fs l" and f: "fits K l" "ev_ip e \<in> K" "rl_enabled cfg"
    and o: "t0 \<le> ev_time e" "ev_now e \<le> ev_time e" "ev_time e < s + rl_auth_lockout_window_seconds cfg"
    and n: "int (length (fs @ auth_failures j [e])) < rl_auth_lockout_threshold cfg" "\<forall>x \<in> set (auth_failures j [e]). s \<le> x"
  shows "counting j s (ev_time e) (fs @ auth_failures j [e]) (rl_step cs cfg e l)"
proof (cases e)
  case (Request ip now)
  then show ?thesis using c f o by (simp add: counting_def auth_failures_def failed_at_request is_locked_request)
next
  case (Response ip now t st)
  note o = o [unfolded Response, simplified]
  show ?thesis
  proof (cases "auth_failed st \<and> ip = j")
    case True
    then have fs: "auth_failures j [e] = [now]" by (simp add: auth_failures_def Response auth_failed_def)
    have fa: "failures_after j now t l = fs @ [now]" by (rule failures_counting [OF c o])
    have s: "s \<le> now" "s \<le> t" using n(2) fs o by auto
    have "failed_at j t' (rl_step cs cfg e l) = Some (fs @ [now])" "\<not> is_locked j t' (rl_step cs cfg e l)"
      if "t \<le> t'" "t' < s + rl_auth_lockout_window_seconds cfg" for t'
      using that True fa f n(1) s fs c o
      by (simp_all add: Response failed_at_response is_locked_response counting_def)
    moreover have "\<not> is_locked j t' (rl_step cs cfg e l)" if "t \<le> t'" for t'
      using that True fa f n(1) fs c o by (simp add: Response is_locked_response counting_def)
    ultimately show ?thesis using c s fs by (auto simp: counting_def Response)
  next
    case False
    then have "auth_failures j [e] = []" by (auto simp: auth_failures_def Response auth_failed_def)
    moreover have "failed_at j t' (rl_step cs cfg e l) = failed_at j t' l" "is_locked j t' (rl_step cs cfg e l) = is_locked j t' l"
      if "t \<le> t'" for t' using that False f by (auto simp: Response failed_at_response is_locked_response)
    ultimately show ?thesis using c o by (simp add: counting_def Response)
  qed
qed

lemma auth_failures_Cons: "auth_failures j (e # es) = auth_failures j [e] @ auth_failures j es"
  by (simp add: auth_failures_def)

lemma counting_run:
  assumes "counting j s t0 fs l" "fits K l" "rl_enabled cfg" "ordered K t0 es"
    "\<forall>e \<in> set es. ev_time e < s + rl_auth_lockout_window_seconds cfg"
    "int (length (fs @ auth_failures j es)) < rl_auth_lockout_threshold cfg" "\<forall>x \<in> set (auth_failures j es). s \<le> x"
  shows "counting j s (last (t0 # map ev_time es)) (fs @ auth_failures j es) (rl_run cs cfg es l) \<and> fits K (rl_run cs cfg es l)"
  using assms
proof (induction es arbitrary: t0 fs l)
  case Nil
  then show ?case by (simp add: auth_failures_def)
next
  case (Cons e es)
  note af = auth_failures_Cons [of j e es]
  have "counting j s (ev_time e) (fs @ auth_failures j [e]) (rl_step cs cfg e l)"
    by (rule counting_step [where K = K]) (use Cons.prems af in auto)
  moreover have "fits K (rl_step cs cfg e l)" using Cons.prems by (simp add: fits_step)
  ultimately show ?case using Cons.IH [of "ev_time e" "fs @ auth_failures j [e]" "rl_step cs cfg e l"] Cons.prems af by simp
qed

lemma ordered_append:
  "ordered K a (xs @ ys) \<longleftrightarrow> ordered K a xs \<and> ordered K (last (a # map ev_time xs)) ys"
  by (induction xs arbitrary: a) auto

lemma ordered_before: "ordered K a (xs @ [e]) \<Longrightarrow> x \<in> set xs \<Longrightarrow> ev_time x \<le> ev_time e"
proof (induction xs arbitrary: a)
  case (Cons y ys)
  have "ordered K b (zs @ [e]) \<Longrightarrow> b \<le> ev_time e" for b zs by (induction zs arbitrary: b) force+
  then show ?case using Cons by auto
qed simp

lemma rl_run_append: "rl_run cs cfg (xs @ ys) l = rl_run cs cfg ys (rl_run cs cfg xs l)"
  by (induction xs arbitrary: l) auto

lemma lockout_by_history:
  assumes K: "finite K" "card K \<le> maxsize" and en: "rl_enabled cfg"
    and ord: "ordered K t0 (es @ Response ip n t st # later @ [Request ip now])"
    and st: "auth_failed st" and th: "int (length (auth_failures ip es)) + 1 = rl_auth_lockout_threshold cfg"
    and s: "\<forall>x \<in> set (auth_failures ip es). s \<le> x" "t < s + rl_auth_lockout_window_seconds cfg"
    and now: "now < t + rl_auth_lockout_duration_seconds cfg"
  shows "\<not> is_locked ip t (rl_run cs cfg es (new_limiter cs)) \<and>
    is_locked ip now (rl_run cs cfg (es @ Response ip n t st # later) (new_limiter cs))"
proof -
  let ?l = "rl_run cs cfg es (new_limiter cs)" and ?e = "Response ip n t st"
  have o: "ordered K t0 es" "last (t0 # map ev_time es) \<le> t" "n \<le> t" "ip \<in> K" "ordered K t (later @ [Request ip now])"
    "ordered K t0 (es @ [?e])" using ord by (simp_all add: ordered_append)
  have o': "ordered K t later" "last (t # map ev_time later) \<le> now" using o(5) by (simp_all add: ordered_append)
  have new: "counting ip s t0 [] (new_limiter cs)"
    by (simp add: counting_def is_locked_def failed_at_def new_limiter_def lock.get_new fail.get_new)
  have early: "\<forall>e \<in> set es. ev_time e < s + rl_auth_lockout_window_seconds cfg"
    using ordered_before [OF o(6)] s(2) by fastforce
  have run: "counting ip s (last (t0 # map ev_time es)) (auth_failures ip es) ?l" "fits K ?l"
    using counting_run [OF new fits_new [OF K] en o(1) early] th s(1) by simp_all
  have fa: "failures_after ip n t ?l = auth_failures ip es @ [n]" by (rule failures_counting [OF run(1) o(2,3) s(2)])
  have "is_locked ip t' (rl_step cs cfg ?e ?l)" if "t \<le> t'" "t' < t + rl_auth_lockout_duration_seconds cfg" for t'
    using that fa th st is_locked_response [OF run(2) o(4) that(1) en] by simp
  then have "locked_until ip (t + rl_auth_lockout_duration_seconds cfg) t (rl_step cs cfg ?e ?l)" by (simp add: locked_until_def)
  moreover have "fits K (rl_step cs cfg ?e ?l)" using run(2) o(4) by (simp add: fits_response)
  ultimately have "locked_until ip (t + rl_auth_lockout_duration_seconds cfg) (last (t # map ev_time later))
      (rl_run cs cfg later (rl_step cs cfg ?e ?l))" using o'(1) en by (intro locked_run)
  then have "is_locked ip now (rl_run cs cfg later (rl_step cs cfg ?e ?l))" using o'(2) now by (simp add: locked_until_def)
  moreover have "\<not> is_locked ip t ?l" using run(1) o(2) by (simp add: counting_def)
  ultimately show ?thesis by (simp add: rl_run_append)
qed

end

section \<open>A cache that keeps the contract\<close>

text \<open>
  The documented behaviour of \<open>cachetools.TTLCache\<close>: entries in the order of their last write,
  each with the time at which it expires; a write first drops what has expired and, when a new key
  finds the cache full, the entry written longest ago.
\<close>

type_synonym 'v ttl_entries = "(string \<times> 'v \<times> rat) list"

definition ttl_get :: "'v ttl_entries \<Rightarrow> string \<Rightarrow> rat \<Rightarrow> 'v ttl_entries \<times> 'v option" where
  "ttl_get c k t = (c, case map_of c k of None \<Rightarrow> None | Some (v, e) \<Rightarrow> if t < e then Some v else None)"

definition ttl_set :: "rat \<Rightarrow> nat \<Rightarrow> 'v ttl_entries \<Rightarrow> string \<Rightarrow> 'v \<Rightarrow> rat \<Rightarrow> 'v ttl_entries" where
  "ttl_set ttl maxsize c k v t =
     (let rest = filter (\<lambda>(j, _, e). t < e \<and> j \<noteq> k) c
      in (if length rest < maxsize then rest else tl rest) @ [(k, v, t + ttl)])"

definition ttl_pop :: "'v ttl_entries \<Rightarrow> string \<Rightarrow> rat \<Rightarrow> 'v ttl_entries" where
  "ttl_pop c k t = filter (\<lambda>(j, _, e). t < e \<and> j \<noteq> k) c"

definition ttl_ops :: "rat \<Rightarrow> nat \<Rightarrow> ('v ttl_entries, 'v) cache_ops" where
  "ttl_ops ttl maxsize = \<lparr>co_new = [], co_get = ttl_get, co_set = ttl_set ttl maxsize, co_pop = ttl_pop\<rparr>"

abbreviation ttl_keys :: "'v ttl_entries \<Rightarrow> string set" where
  "ttl_keys c \<equiv> fst ` set c"

abbreviation ttl_valid :: "'v ttl_entries \<Rightarrow> bool" where
  "ttl_valid c \<equiv> distinct (map fst c)"

lemma map_of_live:
  "ttl_valid c \<Longrightarrow> map_of (filter (\<lambda>(j, _, e). t < e \<and> j \<noteq> k) c) i =
    (case map_of c i of Some (v, e) \<Rightarrow> if t < e \<and> i \<noteq> k then Some (v, e) else None | None \<Rightarrow> None)"
proof (induction c)
  case (Cons a c)
  obtain j v e where a: "a = (j, v, e)" by (cases a)
  have "i = j \<Longrightarrow> map_of (filter (\<lambda>(j, _, e). t < e \<and> j \<noteq> k) c) i = None"
    using Cons.prems unfolding map_of_eq_None_iff a by auto
  then show ?case using Cons by (auto simp: a)
qed simp

lemma ttl_get_live:
  "ttl_valid c \<Longrightarrow> t \<le> t' \<Longrightarrow>
   snd (ttl_get (filter (\<lambda>(j, _, e). t < e \<and> j \<noteq> k) c) i t') = (if i = k then None else snd (ttl_get c i t'))"
  by (auto simp: ttl_get_def map_of_live split: option.splits)

lemma distinct_live: "ttl_valid c \<Longrightarrow> ttl_valid (filter P c)"
  by (simp add: distinct_map_filter)

lemma live_room:
  assumes "ttl_valid c" "card (insert k (ttl_keys c)) \<le> maxsize"
  shows "length (filter (\<lambda>(j, _, e). t < e \<and> j \<noteq> k) c) < maxsize"
proof -
  let ?r = "filter (\<lambda>(j, _, e). t < e \<and> j \<noteq> k) c"
  have "length ?r = card (ttl_keys ?r)" using distinct_card [OF distinct_live [OF assms(1)]] by (metis length_map list.set_map)
  also have "\<dots> \<le> card (ttl_keys c - {k})" by (rule card_mono) auto
  also have "\<dots> < card (insert k (ttl_keys c))" by (intro psubset_card_mono) auto
  finally show ?thesis using assms(2) by simp
qed

lemma ttl_get_snoc:
  "snd (ttl_get (c @ [(k, v, e)]) j t) =
    (if j \<in> ttl_keys c then snd (ttl_get c j t) else if j = k \<and> t < e then Some v else None)"
  by (auto simp: ttl_get_def map_add_def map_of_eq_None_iff split: option.splits) (force simp: image_iff dest: map_of_SomeD)+

lemma keys_tl: "ttl_keys (tl c) \<subseteq> ttl_keys c"
  by (cases c) auto

lemma keys_live: "ttl_keys (filter (\<lambda>(j, _, e). t < e \<and> j \<noteq> k) c) \<subseteq> ttl_keys c - {k}"
  by auto

interpretation tc: ttl_cache "ttl_ops ttl maxsize" ttl maxsize ttl_keys ttl_valid for ttl maxsize
proof
  fix c :: "'v ttl_entries" and k j :: string and v :: 'v and t t' :: rat
  let ?r = "filter (\<lambda>(j, _, e). t < e \<and> j \<noteq> k) c"
  have k: "k \<notin> ttl_keys ?r" "k \<notin> ttl_keys (tl ?r)" using keys_tl [of ?r] keys_live [of t k c] by blast+
  show "snd (co_get (ttl_ops ttl maxsize) (co_set (ttl_ops ttl maxsize) c k v t) k t') = (if t' < t + ttl then Some v else None)"
    using k by (simp add: ttl_ops_def ttl_set_def Let_def ttl_get_snoc)
  show "ttl_valid (co_set (ttl_ops ttl maxsize) c k v t)" if "ttl_valid c"
    using that k by (simp add: ttl_ops_def ttl_set_def Let_def distinct_live distinct_tl map_tl)
  show "snd (co_get (ttl_ops ttl maxsize) (co_set (ttl_ops ttl maxsize) c k v t) j t') = snd (co_get (ttl_ops ttl maxsize) c j t')"
    if "ttl_valid c" "k \<noteq> j" "t \<le> t'" "card (insert k (ttl_keys c)) \<le> maxsize"
  proof -
    have "co_set (ttl_ops ttl maxsize) c k v t = ?r @ [(k, v, t + ttl)]"
      using live_room [OF that(1,4)] by (simp add: ttl_ops_def ttl_set_def Let_def)
    moreover have "j \<notin> ttl_keys ?r \<Longrightarrow> snd (ttl_get ?r j t') = None" by (simp add: ttl_get_def map_of_eq_None_iff [THEN iffD2])
    ultimately show ?thesis using that ttl_get_live [OF that(1,3), of k j]
      by (auto simp: ttl_ops_def ttl_get_snoc)
  qed
  show "snd (co_get (ttl_ops ttl maxsize) (co_pop (ttl_ops ttl maxsize) c k t) k t') = None"
    "k \<noteq> j \<Longrightarrow> snd (co_get (ttl_ops ttl maxsize) (co_pop (ttl_ops ttl maxsize) c k t) j t') = snd (co_get (ttl_ops ttl maxsize) c j t')"
    if "ttl_valid c" "t \<le> t'"
    using ttl_get_live [OF that, of k] by (auto simp: ttl_ops_def ttl_pop_def)
  show "ttl_keys (co_set (ttl_ops ttl maxsize) c k v t) \<subseteq> insert k (ttl_keys c)"
    using keys_tl [of ?r] keys_live [of t k c] by (auto simp: ttl_ops_def ttl_set_def Let_def)
qed (auto simp: ttl_ops_def ttl_get_def ttl_pop_def distinct_live)

text \<open>The caches \<open>__init__\<close> makes; the limiter's contract holds for them.\<close>

definition init_caches :: "RateLimitsConfig \<Rightarrow> nat \<Rightarrow> (rat list ttl_entries, rat list ttl_entries, bool ttl_entries) caches" where
  "init_caches cfg maxsize =
     \<lparr>req_ops = ttl_ops (rl_window_seconds cfg * 2) maxsize,
      fail_ops = ttl_ops (rl_auth_lockout_window_seconds cfg) maxsize,
      lock_ops = ttl_ops (rl_auth_lockout_duration_seconds cfg) maxsize\<rparr>"

interpretation rl: rate_limiter "init_caches cfg maxsize" cfg maxsize ttl_keys ttl_valid ttl_keys ttl_valid ttl_keys ttl_valid
  for cfg maxsize
  by (simp add: rate_limiter_def init_caches_def tc.ttl_cache_axioms)

section \<open>Theorems\<close>

text \<open>
  C18: The limiter is a sliding window. With at most as many clients as the caches hold and a monotone
  clock, after any sequence of requests and answers, a request that is not locked out is passed on
  exactly when fewer than the configured number of requests of that client were passed on within
  the window that ends now.
\<close>

theorem sliding_window_limit:
  assumes "rate_limiter cs cfg maxsize rk rv fk fv lk lv"
    and "finite K" "card K \<le> maxsize" "ordered K t0 (es @ [Request ip now])"
    and "0 < rl_window_seconds cfg" "rl_enabled cfg"
    and "snd (on_request cs cfg ip now (rl_run cs cfg es (new_limiter cs))) \<noteq> LockedOut"
  shows "snd (on_request cs cfg ip now (rl_run cs cfg es (new_limiter cs))) = PassedThrough \<longleftrightarrow>
    int (length (filter (\<lambda>x. now - rl_window_seconds cfg \<le> x) (passed cs cfg ip es (new_limiter cs)))) < rl_requests cfg"
  using rate_limiter.decision_by_history [OF assms] .

definition ex_limits :: RateLimitsConfig where
  "ex_limits = \<lparr>rl_enabled = True, rl_requests = 2, rl_window_seconds = 60, rl_auth_lockout_threshold = 2,
     rl_auth_lockout_window_seconds = 300, rl_auth_lockout_duration_seconds = 900\<rparr>"

definition ex_caches :: "(rat list ttl_entries, rat list ttl_entries, bool ttl_entries) caches" where
  "ex_caches = init_caches ex_limits 10000"

definition ex_requests :: "rl_event list" where
  "ex_requests = [Request ''10.0.0.1'' 0, Request ''10.0.0.2'' 5, Request ''10.0.0.1'' 10]"

lemma ex_limiter: "rate_limiter ex_caches ex_limits 10000 ttl_keys ttl_valid ttl_keys ttl_valid ttl_keys ttl_valid"
  unfolding ex_caches_def by (rule rl.rate_limiter_axioms)

lemma ex_decisions:
  "snd (on_request ex_caches ex_limits ''10.0.0.1'' 60 (rl_run ex_caches ex_limits ex_requests (new_limiter ex_caches))) = RateLimited"
  "snd (on_request ex_caches ex_limits ''10.0.0.1'' 61 (rl_run ex_caches ex_limits ex_requests (new_limiter ex_caches))) = PassedThrough"
  by code_simp+

theorem sliding_window_limit_witness:
  "int (length (filter (\<lambda>x. 60 - 60 \<le> x) (passed ex_caches ex_limits ''10.0.0.1'' ex_requests (new_limiter ex_caches)))) \<ge> 2 \<and>
   int (length (filter (\<lambda>x. 61 - 60 \<le> x) (passed ex_caches ex_limits ''10.0.0.1'' ex_requests (new_limiter ex_caches)))) < 2"
proof -
  have o: "ordered {''10.0.0.1'', ''10.0.0.2''} 0 (ex_requests @ [Request ''10.0.0.1'' now])" if "10 \<le> now" for now
    using that by (simp add: ex_requests_def)
  have c: "card {''10.0.0.1'', ''10.0.0.2''} \<le> 10000" by simp
  note t = sliding_window_limit [OF ex_limiter _ c o]
  show ?thesis using t [of 60] t [of 61] ex_decisions by (simp add: ex_limits_def [abs_def])
qed

text \<open>
  C19: Lockout. The first authentication failures of a client (answers 401 or 403), as many as the
  threshold and within the lockout window, lock it out: before the last of them its requests are
  not refused as locked out, and after it every request within the lockout duration is, whatever
  the clients do in between.
\<close>

theorem lockout_after_threshold_failures:
  assumes "rate_limiter cs cfg maxsize rk rv fk fv lk lv"
    and "finite K" "card K \<le> maxsize" "rl_enabled cfg"
    and "ordered K t0 (es @ Response ip n t st # later @ [Request ip now])"
    and "st \<noteq> []" "hd st \<in> {401, 403}" "int (length (auth_failures ip es)) + 1 = rl_auth_lockout_threshold cfg"
    and "\<forall>x \<in> set (auth_failures ip es). s \<le> x" "t < s + rl_auth_lockout_window_seconds cfg"
    and "now < t + rl_auth_lockout_duration_seconds cfg"
  shows "snd (on_request cs cfg ip t (rl_run cs cfg es (new_limiter cs))) \<noteq> LockedOut \<and>
    snd (on_request cs cfg ip now (rl_run cs cfg (es @ Response ip n t st # later) (new_limiter cs))) = LockedOut"
proof -
  have "rate_limiter.auth_failed st" using assms(6,7) rate_limiter.auth_failed_def [OF assms(1)] by simp
  from rate_limiter.lockout_by_history [OF assms(1-5) this assms(8-11)] show ?thesis
    using assms(4) by (simp add: rate_limiter.on_request_decision [OF assms(1)])
qed

definition ex_failures :: "rl_event list" where
  "ex_failures = [Request ''10.0.0.1'' 0, Response ''10.0.0.1'' 0 1 [401], Request ''10.0.0.1'' 2]"

theorem lockout_after_threshold_failures_witness:
  "snd (on_request ex_caches ex_limits ''10.0.0.1'' 3 (rl_run ex_caches ex_limits ex_failures (new_limiter ex_caches))) \<noteq> LockedOut \<and>
   snd (on_request ex_caches ex_limits ''10.0.0.1'' 902
     (rl_run ex_caches ex_limits (ex_failures @ Response ''10.0.0.1'' 2 3 [403] # [Request ''10.0.0.2'' 500]) (new_limiter ex_caches))) = LockedOut"
  by (rule lockout_after_threshold_failures [OF ex_limiter, where K = "{''10.0.0.1'', ''10.0.0.2''}" and ?t0.0 = 0 and s = 0])
    (simp_all add: ex_failures_def ex_limits_def auth_failures_def)

text \<open>
  A forwarded address is believed only behind a trusted proxy. The client address is the
  address of the peer unless the peer is a trusted proxy, and then it is the rightmost valid entry
  of X-Forwarded-For that is not a trusted proxy: what a client writes to the left of it is ignored.
\<close>

theorem client_ip_not_spoofable:
  assumes "get_client_ip trusted has_proxies (Some direct_ip) headers \<noteq> direct_ip"
  shows "has_proxies \<and> trusted direct_ip = Some True \<and>
    (\<exists>left right. split_on (CHR '','') (dict_get_or [] (dict_update [] headers) ''x-forwarded-for'') = left @ right \<and>
       right \<noteq> [] \<and> get_client_ip trusted has_proxies (Some direct_ip) headers = str_strip (hd right) \<and>
       trusted (str_strip (hd right)) = Some False \<and> list_all (\<lambda>p. trusted (str_strip p) \<noteq> Some False) (tl right))"
proof -
  let ?parts = "split_on (CHR '','') (dict_get_or [] (dict_update [] headers) ''x-forwarded-for'')"
  obtain ip where ip: "find (\<lambda>p. trusted p = Some False) (rev (map str_strip ?parts)) = Some ip"
    and g: "get_client_ip trusted has_proxies (Some direct_ip) headers = ip" "has_proxies" "trusted direct_ip = Some True"
    using assms by (auto simp: get_client_ip_def first_untrusted_def Let_def split: if_splits option.splits)
  obtain i where i: "i < length ?parts" "ip = rev (map str_strip ?parts) ! i" "trusted ip = Some False"
    "\<forall>j < i. trusted (rev (map str_strip ?parts) ! j) \<noteq> Some False"
    using ip by (auto simp: find_Some_iff)
  define k where "k = length ?parts - Suc i"
  have k: "k < length ?parts" "ip = str_strip (?parts ! k)" using i(1,2) by (simp_all add: k_def rev_nth)
  have later: "trusted (str_strip (?parts ! m)) \<noteq> Some False" if "k < m" "m < length ?parts" for m
  proof -
    have "length ?parts - Suc m < i" "rev (map str_strip ?parts) ! (length ?parts - Suc m) = str_strip (?parts ! m)"
      using that i(1) by (simp_all add: k_def rev_nth)
    then show ?thesis using i(4) by metis
  qed
  have "list_all (\<lambda>p. trusted (str_strip p) \<noteq> Some False) (tl (drop k ?parts))"
    using later by (auto simp: list_all_length nth_tl)
  then show ?thesis using g k i(3) by (intro conjI exI [of _ "take k ?parts"] exI [of _ "drop k ?parts"]) (auto simp: hd_drop_conv_nth)
qed

theorem client_ip_not_spoofable_witness:
  "get_client_ip (\<lambda>p. if p = ''10.0.0.9'' then Some True else if p = ''junk'' then None else Some False) True (Some ''10.0.0.9'')
     [(''x-forwarded-for'', ''1.1.1.1, 2.2.2.2,junk, 10.0.0.9'')] = ''2.2.2.2'' \<and>
   (\<exists>left right. split_on (CHR '','') ''1.1.1.1, 2.2.2.2,junk, 10.0.0.9'' = left @ right \<and> right \<noteq> [] \<and> str_strip (hd right) = ''2.2.2.2'')"
proof -
  let ?tr = "\<lambda>p. if p = ''10.0.0.9'' then Some True else if p = ''junk'' then None else Some False"
    and ?h = "[(''x-forwarded-for'', ''1.1.1.1, 2.2.2.2,junk, 10.0.0.9'')]"
  have g: "get_client_ip ?tr True (Some ''10.0.0.9'') ?h = ''2.2.2.2''" by code_simp
  have x: "dict_get_or [] (dict_update [] ?h) ''x-forwarded-for'' = ''1.1.1.1, 2.2.2.2,junk, 10.0.0.9''" by code_simp
  have "get_client_ip ?tr True (Some ''10.0.0.9'') ?h \<noteq> ''10.0.0.9''" unfolding g by simp
  from client_ip_not_spoofable [OF this] show ?thesis unfolding g x by metis
qed

end
