(* ===== verification/Outgoing_Auth.thy ===== *)
theory Outgoing_Auth
  imports Py_String "HOL-Library.Multiset"
begin

text \<open>
  Tokens for the connections to the backends: \<open>bridge/auth/token_cache.py\<close> and its Rust twin,
  \<open>bridge/auth/store.py\<close>, \<open>bridge/auth/provider.py\<close>, the refresh request of \<open>bridge/auth/pkce.py\<close>,
  \<open>bridge/auth/httpx_auth.py\<close> and \<open>bridge/auth/refresh_service.py\<close>.

  Both clocks are arguments: \<open>time.monotonic()\<close> of the cache and \<open>time.time()\<close> of the store. The
  answers of a token endpoint and the outcome of the browser flow are arguments. The token
  directory is a dictionary from file stems to contents.
\<close>

section \<open>The token cache\<close>

record TokenCache =
  tc_token :: "string option"
  tc_expires_at :: rat
  tc_expiry_buffer :: rat

definition new_token_cache :: "rat \<Rightarrow> TokenCache" where
  "new_token_cache buffer = \<lparr>tc_token = None, tc_expires_at = 0, tc_expiry_buffer = buffer\<rparr>"

definition cache_valid :: "rat \<Rightarrow> TokenCache \<Rightarrow> bool" where
  "cache_valid now c \<longleftrightarrow> tc_token c \<noteq> None \<and> now < tc_expires_at c"

definition cache_get :: "rat \<Rightarrow> TokenCache \<Rightarrow> string option" where
  "cache_get now c = (if cache_valid now c then tc_token c else None)"

definition cache_set :: "rat \<Rightarrow> string \<Rightarrow> rat \<Rightarrow> TokenCache \<Rightarrow> TokenCache" where
  "cache_set now token expires_in c =
     (let effective_ttl = max 0 (expires_in - tc_expiry_buffer c)
      in c\<lparr>tc_token := Some token, tc_expires_at := now + effective_ttl\<rparr>)"

definition cache_invalidate :: "TokenCache \<Rightarrow> TokenCache" where
  "cache_invalidate c = c\<lparr>tc_token := None, tc_expires_at := 0\<rparr>"

text \<open>The Rust class, which replaces the one above when the extension is installed.\<close>

record RustTokenCache =
  rc_token :: "string option"
  rc_expires_at :: "rat option"
  rc_expiry_buffer :: rat

definition rust_new :: "rat \<Rightarrow> RustTokenCache" where
  "rust_new buffer = \<lparr>rc_token = None, rc_expires_at = None, rc_expiry_buffer = buffer\<rparr>"

definition rust_get :: "rat \<Rightarrow> RustTokenCache \<Rightarrow> string option" where
  "rust_get now c =
     (case rc_expires_at c of
        None \<Rightarrow> None
      | Some e \<Rightarrow> if rc_token c \<noteq> None \<and> now < e then rc_token c else None)"

definition rust_set :: "rat \<Rightarrow> string \<Rightarrow> rat \<Rightarrow> RustTokenCache \<Rightarrow> RustTokenCache res" where
  "rust_set now token expires_in c =
     (if expires_in < 0 then Inl (ValueError ''expires_in must be finite and non-negative'')
      else Inr (c\<lparr>rc_token := Some token, rc_expires_at := Some (now + max (expires_in - rc_expiry_buffer c) 0)\<rparr>))"

definition rust_invalidate :: "RustTokenCache \<Rightarrow> RustTokenCache" where
  "rust_invalidate c = c\<lparr>rc_token := None, rc_expires_at := None\<rparr>"

section \<open>The token store\<close>

record TokenSet =
  access_token :: string
  token_type :: string
  refresh_token :: string
  expires_in :: rat
  scope :: string

text \<open>The JSON object in a token file; a key may be missing.\<close>

record token_data =
  td_access_token :: "string option"
  td_token_type :: "string option"
  td_refresh_token :: "string option"
  td_expires_in :: "rat option"
  td_scope :: "string option"
  td_saved_at :: "rat option"

datatype token_file = Unreadable | Corrupt | TokenData token_data

type_synonym token_dir = "(string, token_file) dict"

definition DEFAULT_TOKEN_EXPIRES_IN :: rat where
  "DEFAULT_TOKEN_EXPIRES_IN = 3600"

definition safe_char :: "char \<Rightarrow> bool" where
  "safe_char c \<longleftrightarrow> 97 \<le> code c \<and> code c \<le> 122 \<or> 65 \<le> code c \<and> code c \<le> 90 \<or> is_digit c \<or> c \<in> {CHR ''.'', CHR ''_'', CHR ''-''}"

definition path_for :: "string \<Rightarrow> string" where
  "path_for backend_name = map (\<lambda>c. if safe_char c then c else CHR ''_'') backend_name"

definition store_save :: "bool \<Rightarrow> rat \<Rightarrow> string \<Rightarrow> TokenSet \<Rightarrow> token_dir \<Rightarrow> token_dir" where
  "store_save writable wall backend_name tokens dir =
     (if writable
      then dict_set (path_for backend_name)
             (TokenData \<lparr>td_access_token = Some (access_token tokens), td_token_type = Some (token_type tokens),
                         td_refresh_token = Some (refresh_token tokens), td_expires_in = Some (expires_in tokens),
                         td_scope = Some (scope tokens), td_saved_at = Some wall\<rparr>) dir
      else dir)"

abbreviation or_else :: "'a option \<Rightarrow> 'a \<Rightarrow> 'a" where
  "or_else v d \<equiv> (case v of None \<Rightarrow> d | Some x \<Rightarrow> x)"

text \<open>After an \<open>OSError\<close> the function goes on without \<open>data\<close>.\<close>

definition store_load :: "rat \<Rightarrow> string \<Rightarrow> token_dir \<Rightarrow> TokenSet option res" where
  "store_load wall backend_name dir =
     (case dict_get dir (path_for backend_name) of
        None \<Rightarrow> Inr None
      | Some Unreadable \<Rightarrow> Inl (OtherException ''UnboundLocalError'' ''cannot access local variable data'')
      | Some Corrupt \<Rightarrow> Inr None
      | Some (TokenData d) \<Rightarrow>
          (let saved_at = or_else (td_saved_at d) 0;
               lifetime = or_else (td_expires_in d) 0
           in if saved_at \<noteq> 0 \<and> lifetime \<noteq> 0 \<and> lifetime - 60 \<le> wall - saved_at
              then let refresh = or_else (td_refresh_token d) []
                   in if refresh \<noteq> []
                      then Inr (Some \<lparr>access_token = [], token_type = or_else (td_token_type d) ''Bearer'',
                                      refresh_token = refresh, expires_in = 0, scope = or_else (td_scope d) []\<rparr>)
                      else Inr None
              else case td_access_token d of
                     None \<Rightarrow> Inl (KeyError ''access_token'')
                   | Some a \<Rightarrow>
                       Inr (Some \<lparr>access_token = a, token_type = or_else (td_token_type d) ''Bearer'',
                                  refresh_token = or_else (td_refresh_token d) [],
                                  expires_in = or_else (td_expires_in d) DEFAULT_TOKEN_EXPIRES_IN,
                                  scope = or_else (td_scope d) []\<rparr>)))"

definition store_delete :: "string \<Rightarrow> token_dir \<Rightarrow> token_dir \<times> bool" where
  "store_delete backend_name dir =
     (dict_del (path_for backend_name) dir, dict_get dir (path_for backend_name) \<noteq> None)"

definition list_backends :: "token_dir \<Rightarrow> string list" where
  "list_backends dir = dict_keys dir"

section \<open>Providers\<close>

type_synonym headers = "(string, string) dict"

text \<open>
  The JSON answer of a token endpoint. For \<open>expires_in\<close> it has what \<open>float\<close> makes of the value: a number, or
  the \<open>ValueError\<close> or \<open>TypeError\<close> it raises; \<open>None\<close> when the field is missing.
\<close>

record token_payload =
  pl_access_token :: "string option"
  pl_token_type :: "string option"
  pl_refresh_token :: "string option"
  pl_expires_in :: "rat res option"
  pl_scope :: "string option"

definition payload_lifetime :: "token_payload \<Rightarrow> rat res" where
  "payload_lifetime payload = (case pl_expires_in payload of None \<Rightarrow> Inr DEFAULT_TOKEN_EXPIRES_IN | Some r \<Rightarrow> r)"

definition bearer :: "string \<Rightarrow> headers" where
  "bearer token = [(''Authorization'', ''Bearer '' @ token)]"

record OAuth2Provider =
  oa_token_url :: string
  oa_client_id :: string
  oa_client_secret :: string
  oa_scopes :: "string list"
  oa_cache :: TokenCache

definition token_form :: "OAuth2Provider \<Rightarrow> (string, string) dict" where
  "token_form p =
     [(''grant_type'', ''client_credentials''), (''client_id'', oa_client_id p), (''client_secret'', oa_client_secret p)]
     @ (if oa_scopes p \<noteq> [] then [(''scope'', join_with '' '' (oa_scopes p))] else [])"

definition fetch_token ::
    "(string \<Rightarrow> (string, string) dict \<Rightarrow> token_payload res) \<Rightarrow> rat \<Rightarrow> OAuth2Provider \<Rightarrow> OAuth2Provider \<times> string res" where
  "fetch_token post now p =
     (case post (oa_token_url p) (token_form p) of
        Inl e \<Rightarrow> (p, Inl e)
      | Inr payload \<Rightarrow>
          (case pl_access_token payload of
             None \<Rightarrow> (p, Inl (KeyError ''access_token''))
           | Some t \<Rightarrow>
               (case payload_lifetime payload of
                  Inl e \<Rightarrow> (p, Inl e)
                | Inr life \<Rightarrow> (p\<lparr>oa_cache := cache_set now t life (oa_cache p)\<rparr>, Inr t))))"

text \<open>\<open>get_headers\<close> without other callers; \<open>t0\<close> is the time of the call, \<open>t1\<close> that of the answer.\<close>

definition oauth2_get_headers ::
    "(string \<Rightarrow> (string, string) dict \<Rightarrow> token_payload res) \<Rightarrow> rat \<Rightarrow> rat \<Rightarrow> OAuth2Provider \<Rightarrow> OAuth2Provider \<times> headers res" where
  "oauth2_get_headers post t0 t1 p =
     (case cache_get t0 (oa_cache p) of
        Some token \<Rightarrow> (p, Inr (bearer token))
      | None \<Rightarrow>
          (case fetch_token post t1 p of
             (p', Inl e) \<Rightarrow> (p', Inl e)
           | (p', Inr token) \<Rightarrow> (p', Inr (bearer token))))"

definition oauth2_invalidate :: "OAuth2Provider \<Rightarrow> OAuth2Provider" where
  "oauth2_invalidate p = p\<lparr>oa_cache := cache_invalidate (oa_cache p)\<rparr>"

record pkce_client =
  pc_auth_endpoint :: string
  pc_token_endpoint :: string
  pc_client_id :: string
  pc_client_secret :: string
  pc_scopes :: "string list"

record PKCEAuthProvider =
  pk_backend_name :: string
  pk_client :: pkce_client
  pk_cache :: TokenCache

definition refresh_form :: "pkce_client \<Rightarrow> string \<Rightarrow> (string, string) dict" where
  "refresh_form cl refresh =
     [(''grant_type'', ''refresh_token''), (''client_id'', pc_client_id cl), (''refresh_token'', refresh)]
     @ (if pc_client_secret cl \<noteq> [] then [(''client_secret'', pc_client_secret cl)] else [])"

definition refresh_access_token ::
    "(string \<Rightarrow> (string, string) dict \<Rightarrow> token_payload res) \<Rightarrow> pkce_client \<Rightarrow> string \<Rightarrow> TokenSet res" where
  "refresh_access_token post cl refresh =
     (case post (pc_token_endpoint cl) (refresh_form cl refresh) of
        Inl e \<Rightarrow> Inl e
      | Inr payload \<Rightarrow>
          (case pl_access_token payload of
             None \<Rightarrow> Inl (KeyError ''access_token'')
           | Some t \<Rightarrow>
               (case payload_lifetime payload of
                  Inl e \<Rightarrow> Inl e
                | Inr life \<Rightarrow>
                    Inr \<lparr>access_token = t, token_type = or_else (pl_token_type payload) ''Bearer'',
                         refresh_token = or_else (pl_refresh_token payload) refresh, expires_in = life,
                         scope = or_else (pl_scope payload) []\<rparr>)))"

text \<open>\<open>except (OSError, ConnectionError)\<close>; \<open>TimeoutError\<close> is an \<open>OSError\<close>, the errors of httpx are not.\<close>

definition os_error :: "exn \<Rightarrow> bool" where
  "os_error e =
     (case e of
        ConnectionError m \<Rightarrow> True
      | TimeoutError \<Rightarrow> True
      | OtherException c m \<Rightarrow> c \<in> {''OSError'', ''FileNotFoundError'', ''PermissionError'', ''gaierror''}
      | _ \<Rightarrow> False)"

text \<open>What one call meets: the clocks at the call and at the answer, the answers, the disk.\<close>

record pkce_env =
  pe_now :: rat
  pe_now1 :: rat
  pe_wall :: rat
  pe_wall1 :: rat
  pe_post :: "string \<Rightarrow> (string, string) dict \<Rightarrow> token_payload res"
  pe_flow :: "pkce_client \<Rightarrow> TokenSet res"
  pe_writable :: bool

definition keep_tokens :: "pkce_env \<Rightarrow> TokenSet \<Rightarrow> PKCEAuthProvider \<times> token_dir \<Rightarrow> PKCEAuthProvider \<times> token_dir" where
  "keep_tokens env tokens st = (case st of (p, dir) \<Rightarrow>
     (p\<lparr>pk_cache := cache_set (pe_now1 env) (access_token tokens) (expires_in tokens) (pk_cache p)\<rparr>,
      store_save (pe_writable env) (pe_wall1 env) (pk_backend_name p) tokens dir))"

definition run_flow :: "pkce_env \<Rightarrow> PKCEAuthProvider \<times> token_dir \<Rightarrow> (PKCEAuthProvider \<times> token_dir) \<times> string res" where
  "run_flow env st =
     (case pe_flow env (pk_client (fst st)) of
        Inl e \<Rightarrow> (st, Inl e)
      | Inr tokens \<Rightarrow> (keep_tokens env tokens st, Inr (access_token tokens)))"

definition resolve_token :: "pkce_env \<Rightarrow> PKCEAuthProvider \<times> token_dir \<Rightarrow> (PKCEAuthProvider \<times> token_dir) \<times> string res" where
  "resolve_token env st = (case st of (p, dir) \<Rightarrow>
     (case store_load (pe_wall env) (pk_backend_name p) dir of
        Inl e \<Rightarrow> (st, Inl e)
      | Inr None \<Rightarrow> run_flow env st
      | Inr (Some stored) \<Rightarrow>
          (if access_token stored \<noteq> []
           then ((p\<lparr>pk_cache := cache_set (pe_now env) (access_token stored) (expires_in stored) (pk_cache p)\<rparr>, dir),
                 Inr (access_token stored))
           else if refresh_token stored \<noteq> []
           then (case refresh_access_token (pe_post env) (pk_client p) (refresh_token stored) of
                   Inr refreshed \<Rightarrow> (keep_tokens env refreshed st, Inr (access_token refreshed))
                 | Inl e \<Rightarrow> if os_error e then run_flow env st else (st, Inl e))
           else run_flow env st)))"

definition pkce_get_headers :: "pkce_env \<Rightarrow> PKCEAuthProvider \<times> token_dir \<Rightarrow> (PKCEAuthProvider \<times> token_dir) \<times> headers res" where
  "pkce_get_headers env st =
     (let token = or_else (cache_get (pe_now env) (pk_cache (fst st))) []
      in if token \<noteq> [] then (st, Inr (bearer token))
         else case resolve_token env st of
                (st', Inl e) \<Rightarrow> (st', Inl e)
              | (st', Inr t) \<Rightarrow> (st', Inr (bearer t)))"

definition pkce_invalidate :: "PKCEAuthProvider \<times> token_dir \<Rightarrow> PKCEAuthProvider \<times> token_dir" where
  "pkce_invalidate st = (case st of (p, dir) \<Rightarrow> (p\<lparr>pk_cache := cache_invalidate (pk_cache p)\<rparr>, dir))"

definition trigger_reauth :: "pkce_env \<Rightarrow> PKCEAuthProvider \<times> token_dir \<Rightarrow> (PKCEAuthProvider \<times> token_dir) \<times> string res" where
  "trigger_reauth env st = run_flow env (pkce_invalidate st)"

section \<open>Authenticated requests\<close>

definition MAX_401_RETRIES :: nat where
  "MAX_401_RETRIES = 1"

text \<open>
  \<open>async_auth_flow\<close> over a provider with state \<open>'p\<close>: \<open>get i\<close> is its \<open>i\<close>-th call of \<open>get_headers\<close>,
  \<open>status i\<close> the status of the answer to the \<open>i\<close>-th request. The result is the provider, the
  headers of the requests in the order they were sent, and the last status or the exception.
\<close>

function auth_loop ::
    "(nat \<Rightarrow> 'p \<Rightarrow> 'p \<times> headers res) \<Rightarrow> ('p \<Rightarrow> 'p) \<Rightarrow> (nat \<Rightarrow> int) \<Rightarrow> bool \<Rightarrow> nat \<Rightarrow> headers \<Rightarrow> 'p \<Rightarrow> headers list \<Rightarrow>
     'p \<times> headers list \<times> int res" where
  "auth_loop get inval status retry_on_401 retries hs p sent =
     (if retry_on_401 \<and> status retries = 401 \<and> retries < MAX_401_RETRIES
      then case get (Suc retries) (inval p) of
             (p', Inl e) \<Rightarrow> (p', sent, Inl e)
           | (p', Inr new) \<Rightarrow>
               (let hs' = dict_update hs new
                in auth_loop get inval status retry_on_401 (Suc retries) hs' p' (sent @ [hs']))
      else (p, sent, Inr (status retries)))"
  by auto
termination
  by (relation "measure (\<lambda>(get, inval, status, r, retries, hs, p, sent). MAX_401_RETRIES - retries)") auto

definition async_auth_flow ::
    "(nat \<Rightarrow> 'p \<Rightarrow> 'p \<times> headers res) \<Rightarrow> ('p \<Rightarrow> 'p) \<Rightarrow> (nat \<Rightarrow> int) \<Rightarrow> bool \<Rightarrow> headers \<Rightarrow> 'p \<Rightarrow> 'p \<times> headers list \<times> int res" where
  "async_auth_flow get inval status retry_on_401 hs p =
     (case get 0 p of
        (p', Inl e) \<Rightarrow> (p', [], Inl e)
      | (p', Inr new) \<Rightarrow>
          (let hs' = dict_update hs new in auth_loop get inval status retry_on_401 0 hs' p' [hs']))"

declare auth_loop.simps [simp del]

section \<open>The factory\<close>

text \<open>The \<open>auth\<close> block of a backend, with the value types its schema gives.\<close>

record auth_config =
  ac_type :: string
  ac_headers :: "headers option"
  ac_token_url :: "string option"
  ac_authorization_endpoint :: "string option"
  ac_token_endpoint :: "string option"
  ac_client_id :: "string option"
  ac_client_secret :: "string option"
  ac_scopes :: "string list option"
  ac_backend_name :: "string option"
  ac_expiry_buffer :: "rat option"

datatype outgoing_provider =
    StaticToken headers
  | OAuth2 OAuth2Provider
  | PKCE PKCEAuthProvider

text \<open>The first key of a list whose value is missing or empty.\<close>

definition missing_key :: "(string \<times> string option) list \<Rightarrow> string option" where
  "missing_key kvs = map_option fst (find (\<lambda>(k, v). or_else v [] = []) kvs)"

definition create_auth_provider :: "auth_config \<Rightarrow> string \<Rightarrow> outgoing_provider res" where
  "create_auth_provider cfg backend_name =
     (let text = (\<lambda>v. or_else v []);
          scopes = or_else (ac_scopes cfg) [];
          cache = new_token_cache (or_else (ac_expiry_buffer cfg) 300)
      in if ac_type cfg = ''static'' then
           (if or_else (ac_headers cfg) [] = [] then Inl (ValueError ''Static auth requires non-empty 'headers' dict.'')
            else Inr (StaticToken (or_else (ac_headers cfg) [])))
         else if ac_type cfg = ''oauth2'' then
           (case missing_key [(''token_url'', ac_token_url cfg), (''client_id'', ac_client_id cfg), (''client_secret'', ac_client_secret cfg)] of
              Some k \<Rightarrow> Inl (ValueError (''OAuth2 auth requires '' @ repr_str k @ ''.''))
            | None \<Rightarrow>
                Inr (OAuth2 \<lparr>oa_token_url = text (ac_token_url cfg), oa_client_id = text (ac_client_id cfg),
                             oa_client_secret = text (ac_client_secret cfg), oa_scopes = scopes, oa_cache = cache\<rparr>))
         else if ac_type cfg = ''pkce'' then
           (case missing_key [(''authorization_endpoint'', ac_authorization_endpoint cfg), (''token_endpoint'', ac_token_endpoint cfg), (''client_id'', ac_client_id cfg)] of
              Some k \<Rightarrow> Inl (ValueError (''PKCE auth requires '' @ repr_str k @ ''.''))
            | None \<Rightarrow>
                Inr (PKCE \<lparr>pk_backend_name = (if backend_name \<noteq> [] then backend_name else or_else (ac_backend_name cfg) ''unknown''),
                           pk_client = \<lparr>pc_auth_endpoint = text (ac_authorization_endpoint cfg), pc_token_endpoint = text (ac_token_endpoint cfg),
                                        pc_client_id = text (ac_client_id cfg), pc_client_secret = text (ac_client_secret cfg),
                                        pc_scopes = scopes\<rparr>,
                           pk_cache = cache\<rparr>))
         else Inl (ValueError (''Unknown auth type: '' @ repr_str (ac_type cfg))))"

definition redact :: "string \<Rightarrow> string" where
  "redact value =
     (if length value \<le> 4 then ''****'' else replicate (length value - 4) (CHR ''*'') @ drop (length value - 4) value)"

section \<open>Background refresh\<close>

record provider_env =
  pv_post :: "string \<Rightarrow> (string, string) dict \<Rightarrow> token_payload res"
  pv_now :: rat
  pv_now1 :: rat
  pv_pkce :: pkce_env

definition provider_get_headers ::
    "provider_env \<Rightarrow> outgoing_provider \<times> token_dir \<Rightarrow> (outgoing_provider \<times> token_dir) \<times> headers res" where
  "provider_get_headers env st = (case st of (prov, dir) \<Rightarrow>
     (case prov of
        StaticToken hs \<Rightarrow> (st, Inr hs)
      | OAuth2 p \<Rightarrow> (case oauth2_get_headers (pv_post env) (pv_now env) (pv_now1 env) p of (p', r) \<Rightarrow> ((OAuth2 p', dir), r))
      | PKCE p \<Rightarrow> (case pkce_get_headers (pv_pkce env) (p, dir) of ((p', dir'), r) \<Rightarrow> ((PKCE p', dir'), r))))"

record refresh_sweep =
  sw_providers :: "(string, outgoing_provider) dict"
  sw_dir :: token_dir
  sw_refreshed :: "string list"
  sw_reauth :: "string list"

text \<open>A provider that left the dictionary while the sweep was under way is still refreshed.\<close>

definition sweep_one :: "(string \<Rightarrow> provider_env) \<Rightarrow> bool \<Rightarrow> string \<times> outgoing_provider \<Rightarrow> refresh_sweep \<Rightarrow> refresh_sweep" where
  "sweep_one envs callback np w = (case np of (name, prov) \<Rightarrow>
     (case prov of
        StaticToken hs \<Rightarrow> w
      | _ \<Rightarrow>
          (case provider_get_headers (envs name) (prov, sw_dir w) of
             ((prov', dir'), r) \<Rightarrow>
               (let w1 = w\<lparr>sw_providers := (if dict_get (sw_providers w) name = None then sw_providers w
                                          else dict_set name prov' (sw_providers w)),
                            sw_dir := dir'\<rparr>
                in case r of
                     Inr hs \<Rightarrow> w1\<lparr>sw_refreshed := sw_refreshed w1 @ [name]\<rparr>
                   | Inl e \<Rightarrow> if callback then w1\<lparr>sw_reauth := sw_reauth w1 @ [name]\<rparr> else w1))))"

definition sweep :: "(string \<Rightarrow> provider_env) \<Rightarrow> bool \<Rightarrow> (string, outgoing_provider) dict \<Rightarrow> token_dir \<Rightarrow> refresh_sweep" where
  "sweep envs callback providers dir =
     fold (sweep_one envs callback) providers
       \<lparr>sw_providers = providers, sw_dir = dir, sw_refreshed = [], sw_reauth = []\<rparr>"

section \<open>Concurrent callers\<close>

text \<open>
  Callers of one \<open>OAuth2Provider.get_headers\<close>: a caller looks into the cache, waits for the
  lock, looks again, and holds the lock while its request for a token is under way.
\<close>

datatype caller = Calling | Waiting | Posting | Returned "headers res"

record callers =
  cl_provider :: OAuth2Provider
  cl_callers :: "caller list"
  cl_posts :: nat

definition lock_free :: "callers \<Rightarrow> bool" where
  "lock_free s \<longleftrightarrow> Posting \<notin> set (cl_callers s)"

inductive caller_step :: "(string \<Rightarrow> (string, string) dict \<Rightarrow> token_payload res) \<Rightarrow> rat \<Rightarrow> callers \<Rightarrow> callers \<Rightarrow> bool"
  for post :: "string \<Rightarrow> (string, string) dict \<Rightarrow> token_payload res" and now :: rat where
  hit: "i < length (cl_callers s) \<Longrightarrow> cl_callers s ! i = Calling \<or> cl_callers s ! i = Waiting \<and> lock_free s \<Longrightarrow>
    cache_get now (oa_cache (cl_provider s)) = Some t \<Longrightarrow>
    caller_step post now s (s\<lparr>cl_callers := (cl_callers s)[i := Returned (Inr (bearer t))]\<rparr>)"
| miss: "i < length (cl_callers s) \<Longrightarrow> cl_callers s ! i = Calling \<Longrightarrow> cache_get now (oa_cache (cl_provider s)) = None \<Longrightarrow>
    caller_step post now s (s\<lparr>cl_callers := (cl_callers s)[i := Waiting]\<rparr>)"
| request: "i < length (cl_callers s) \<Longrightarrow> cl_callers s ! i = Waiting \<Longrightarrow> lock_free s \<Longrightarrow> cache_get now (oa_cache (cl_provider s)) = None \<Longrightarrow>
    caller_step post now s (s\<lparr>cl_callers := (cl_callers s)[i := Posting], cl_posts := Suc (cl_posts s)\<rparr>)"
| answer: "i < length (cl_callers s) \<Longrightarrow> cl_callers s ! i = Posting \<Longrightarrow> fetch_token post now (cl_provider s) = (p', r) \<Longrightarrow>
    caller_step post now s (s\<lparr>cl_provider := p', cl_callers := (cl_callers s)[i := Returned (map_sum id bearer r)]\<rparr>)"

text \<open>Steps at times between \<open>lo\<close> and \<open>hi\<close>.\<close>

inductive caller_run :: "(string \<Rightarrow> (string, string) dict \<Rightarrow> token_payload res) \<Rightarrow> rat \<Rightarrow> rat \<Rightarrow> callers \<Rightarrow> callers \<Rightarrow> bool"
  for post :: "string \<Rightarrow> (string, string) dict \<Rightarrow> token_payload res" and lo :: rat and hi :: rat and s :: callers where
  start: "caller_run post lo hi s s"
| step: "caller_run post lo hi s s' \<Longrightarrow> lo \<le> now \<Longrightarrow> now \<le> hi \<Longrightarrow> caller_step post now s' s'' \<Longrightarrow> caller_run post lo hi s s''"

section \<open>What a cache promises\<close>

locale token_cache =
  fixes new :: "rat \<Rightarrow> 'c" and get :: "rat \<Rightarrow> 'c \<Rightarrow> string option"
    and put :: "rat \<Rightarrow> string \<Rightarrow> rat \<Rightarrow> 'c \<Rightarrow> 'c" and drop_token :: "'c \<Rightarrow> 'c" and buffer :: "'c \<Rightarrow> rat"
  assumes get_new: "get now (new b) = None"
    and get_put: "0 \<le> life \<Longrightarrow> get now' (put now t life c) = (if now' < now + max 0 (life - buffer c) then Some t else None)"
    and get_drop: "get now (drop_token c) = None"
    and buffer_new: "buffer (new b) = b"
    and buffer_put: "0 \<le> life \<Longrightarrow> buffer (put now t life c) = buffer c"
    and buffer_drop: "buffer (drop_token c) = buffer c"

datatype cache_op = SetToken rat string rat | Invalidate

fun op_ok :: "cache_op \<Rightarrow> bool" where
  "op_ok (SetToken now t life) = (0 \<le> life)"
| "op_ok Invalidate = True"

text \<open>What a history leaves in the cache: the last token until its lifetime less the buffer is over.\<close>

definition token_at :: "rat \<Rightarrow> cache_op list \<Rightarrow> rat \<Rightarrow> string option" where
  "token_at b ops now =
     (if ops = [] then None
      else case last ops of
             Invalidate \<Rightarrow> None
           | SetToken s t life \<Rightarrow> if now < s + max 0 (life - b) then Some t else None)"

context token_cache
begin

fun apply_op :: "cache_op \<Rightarrow> 'c \<Rightarrow> 'c" where
  "apply_op (SetToken now t life) c = put now t life c"
| "apply_op Invalidate c = drop_token c"

lemma buffer_run: "list_all op_ok ops \<Longrightarrow> buffer (fold apply_op ops c) = buffer c"
proof (induction ops arbitrary: c)
  case (Cons op ops)
  then show ?case by (cases op) (simp_all add: buffer_put buffer_drop)
qed simp

lemma get_run:
  assumes "list_all op_ok ops"
  shows "get now (fold apply_op ops (new b)) = token_at b ops now"
proof (cases ops rule: rev_cases)
  case Nil
  then show ?thesis by (simp add: get_new token_at_def)
next
  case (snoc ops' op)
  have "buffer (fold apply_op ops' (new b)) = b" using assms buffer_run [of ops' "new b"] by (simp add: snoc buffer_new)
  then show ?thesis using assms by (cases op) (simp_all add: snoc token_at_def get_put get_drop)
qed

end

interpretation pc: token_cache new_token_cache cache_get cache_set cache_invalidate tc_expiry_buffer
  by unfold_locales
    (auto simp: new_token_cache_def cache_get_def cache_valid_def cache_set_def cache_invalidate_def Let_def)

abbreviation rust_put :: "rat \<Rightarrow> string \<Rightarrow> rat \<Rightarrow> RustTokenCache \<Rightarrow> RustTokenCache" where
  "rust_put now t life c \<equiv> (case rust_set now t life c of Inr c' \<Rightarrow> c' | Inl e \<Rightarrow> c)"

interpretation rc: token_cache rust_new rust_get rust_put rust_invalidate rc_expiry_buffer
  by unfold_locales (auto simp: rust_new_def rust_get_def rust_set_def rust_invalidate_def max.commute)

section \<open>Theorems\<close>

text \<open>
  The cache and its Rust replacement behave alike: after any history of stores (with
  non-negative lifetimes) and invalidations both hand out the last token stored, and only until
  its lifetime less the safety buffer is over.
\<close>

theorem token_cache_implementations_agree:
  assumes "list_all op_ok ops"
  shows "cache_get now (fold pc.apply_op ops (new_token_cache b)) = token_at b ops now \<and>
    rust_get now (fold rc.apply_op ops (rust_new b)) = token_at b ops now"
  using pc.get_run [OF assms] rc.get_run [OF assms] by simp

theorem token_cache_implementations_agree_witness:
  "cache_get 50 (fold pc.apply_op [SetToken 0 ''a'' 60, SetToken 10 ''b'' 90] (new_token_cache 30)) = Some ''b'' \<and>
   rust_get 70 (fold rc.apply_op [SetToken 0 ''a'' 60, SetToken 10 ''b'' 90] (rust_new 30)) = None"
  using token_cache_implementations_agree [of "[SetToken 0 ''a'' 60, SetToken 10 ''b'' 90]" 50 30]
    token_cache_implementations_agree [of "[SetToken 0 ''a'' 60, SetToken 10 ''b'' 90]" 70 30]
  by (simp add: token_at_def)

subsection \<open>One request for a token\<close>

text \<open>The endpoint answers with a token that outlives the run.\<close>

definition grants :: "(string \<Rightarrow> (string, string) dict \<Rightarrow> token_payload res) \<Rightarrow> rat \<Rightarrow> bool" where
  "grants post life \<longleftrightarrow> (\<forall>url form. \<exists>pl t lasts. post url form = Inr pl \<and> pl_access_token pl = Some t \<and>
     payload_lifetime pl = Inr lasts \<and> life < lasts)"

definition single_flight :: "rat \<Rightarrow> callers \<Rightarrow> bool" where
  "single_flight hi s \<longleftrightarrow>
     (let returned = {r. Returned r \<in> set (cl_callers s)};
          c = oa_cache (cl_provider s)
      in (cl_posts s = 0 \<and> tc_token c = None \<and> lock_free s \<and> returned = {}) \<or>
         (cl_posts s = 1 \<and> tc_token c = None \<and> count_list (cl_callers s) Posting = 1 \<and> returned = {}) \<or>
         (cl_posts s = 1 \<and> lock_free s \<and> hi < tc_expires_at c \<and> (\<exists>t. tc_token c = Some t \<and> returned \<subseteq> {Inr (bearer t)})))"

lemma count_list_update:
  "i < length xs \<Longrightarrow> xs ! i \<noteq> y \<Longrightarrow> count_list (xs[i := x]) y = count_list xs y + (if x = y then 1 else 0)"
  "i < length xs \<Longrightarrow> xs ! i = y \<Longrightarrow> x \<noteq> y \<Longrightarrow> Suc (count_list (xs[i := x]) y) = count_list xs y"
  by (induction xs arbitrary: i) (auto split: nat.splits simp: nth_Cons)

lemma lock_free_count: "lock_free s \<longleftrightarrow> count_list (cl_callers s) Posting = 0"
  by (simp add: lock_free_def count_list_0_iff)

lemma returned_update:
  "{r. Returned r \<in> set (xs[i := x])} \<subseteq> {r. Returned r \<in> set xs} \<union> {r. x = Returned r}"
  using set_update_subset_insert [of xs i x] by auto

lemma update_frame:
  "i < length xs \<Longrightarrow> xs ! i \<noteq> Posting \<Longrightarrow> x \<noteq> Posting \<Longrightarrow> count_list (xs[i := x]) Posting = count_list xs Posting"
  by (simp add: count_list_update)

lemma cached_until: "tc_token c = Some t \<Longrightarrow> hi < tc_expires_at c \<Longrightarrow> now \<le> hi \<Longrightarrow> cache_get now c = Some t"
  by (simp add: cache_get_def cache_valid_def)

lemma cache_get_Some: "cache_get now c = Some t \<Longrightarrow> tc_token c = Some t"
  by (simp add: cache_get_def split: if_splits)

lemma fetch_granted:
  assumes "grants post (hi - lo + tc_expiry_buffer (oa_cache p))" "lo \<le> now" "fetch_token post now p = (p', r)"
  obtains t where "r = Inr t" "tc_token (oa_cache p') = Some t" "hi < tc_expires_at (oa_cache p')"
    "tc_expiry_buffer (oa_cache p') = tc_expiry_buffer (oa_cache p)"
proof -
  obtain pl t life where pl: "post (oa_token_url p) (token_form p) = Inr pl" "pl_access_token pl = Some t"
    "payload_lifetime pl = Inr life" "hi - lo + tc_expiry_buffer (oa_cache p) < life"
    using assms(1) unfolding grants_def by blast
  have p': "p' = p\<lparr>oa_cache := cache_set now t life (oa_cache p)\<rparr>" "r = Inr t"
    using assms(3) pl(1-3) by (simp_all add: fetch_token_def)
  have "hi < now + max 0 (life - tc_expiry_buffer (oa_cache p))" using pl(4) assms(2) by linarith
  then show thesis using that p' by (simp add: cache_set_def Let_def)
qed

lemma single_flight_step:
  assumes inv: "single_flight hi s" and st: "caller_step post now s s'" and t: "lo \<le> now" "now \<le> hi"
    and g: "grants post (hi - lo + tc_expiry_buffer (oa_cache (cl_provider s)))"
  shows "single_flight hi s' \<and> tc_expiry_buffer (oa_cache (cl_provider s')) = tc_expiry_buffer (oa_cache (cl_provider s))"
  using st
proof cases
  case (hit i t)
  have tok: "tc_token (oa_cache (cl_provider s)) = Some t" by (rule cache_get_Some [OF hit(4)])
  have "lock_free s' = lock_free s" using hit(2,3) unfolding lock_free_count hit(1) by (auto simp: update_frame)
  moreover have "{r. Returned r \<in> set (cl_callers s')} \<subseteq> {r. Returned r \<in> set (cl_callers s)} \<union> {Inr (bearer t)}"
    using returned_update [of "cl_callers s" i "Returned (Inr (bearer t))"] by (simp add: hit(1))
  ultimately show ?thesis using inv tok unfolding single_flight_def Let_def by (auto simp: hit(1))
next
  case (miss i)
  have ret: "{r. Returned r \<in> set (cl_callers s')} \<subseteq> {r. Returned r \<in> set (cl_callers s)}"
    using returned_update [of "cl_callers s" i Waiting] by (simp add: miss(1))
  have "count_list (cl_callers s') Posting = count_list (cl_callers s) Posting" using miss by (simp add: update_frame)
  then show ?thesis using inv ret unfolding single_flight_def Let_def lock_free_count by (auto simp: miss(1))
next
  case (request i)
  have "count_list (cl_callers s) Posting = 0" using request(4) by (simp add: lock_free_count)
  moreover have "\<not> (\<exists>t. hi < tc_expires_at (oa_cache (cl_provider s)) \<and> tc_token (oa_cache (cl_provider s)) = Some t)"
    using request(5) cached_until t(2) by fastforce
  ultimately have old: "cl_posts s = 0" "tc_token (oa_cache (cl_provider s)) = None" "{r. Returned r \<in> set (cl_callers s)} = {}"
    using inv unfolding single_flight_def Let_def by auto
  have "{r. Returned r \<in> set (cl_callers s')} = {}"
    using returned_update [of "cl_callers s" i Posting] old(3) by (simp add: request(1))
  moreover have "count_list (cl_callers s') Posting = 1"
    using request \<open>count_list (cl_callers s) Posting = 0\<close> by (simp add: count_list_update)
  ultimately show ?thesis using old unfolding single_flight_def Let_def by (simp add: request(1))
next
  case (answer i p' r)
  then have "Posting \<in> set (cl_callers s)" by (metis nth_mem)
  then have old: "cl_posts s = 1" "count_list (cl_callers s) Posting = 1" "{r. Returned r \<in> set (cl_callers s)} = {}"
    using inv unfolding single_flight_def Let_def lock_free_def by auto
  obtain t where r: "r = Inr t" "tc_token (oa_cache p') = Some t" "hi < tc_expires_at (oa_cache p')"
    "tc_expiry_buffer (oa_cache p') = tc_expiry_buffer (oa_cache (cl_provider s))"
    by (rule fetch_granted [OF g t(1) answer(4)])
  have "lock_free s'" using answer(2,3) old(2) count_list_update(2) [of i "cl_callers s" Posting]
    unfolding lock_free_count by (simp add: answer(1))
  moreover have "{r. Returned r \<in> set (cl_callers s')} \<subseteq> {Inr (bearer t)}"
    using returned_update [of "cl_callers s" i "Returned (Inr (bearer t))"] old(3) by (simp add: answer(1) r(1))
  ultimately show ?thesis using old(1) r unfolding single_flight_def Let_def by (simp add: answer(1))
qed

text \<open>
  C20: One request for a token: however many callers ask an OAuth2 provider with an empty cache for
  headers at the same time and however they interleave, at most one request goes to the token
  endpoint while the token it grants lasts, and every caller that returns gets that token.
\<close>

theorem concurrent_callers_share_one_token:
  fixes s0 :: callers
  assumes "caller_run post lo hi s0 s"
    and "cl_posts s0 = 0" "tc_token (oa_cache (cl_provider s0)) = None" "set (cl_callers s0) \<subseteq> {Calling}"
    and "grants post (hi - lo + tc_expiry_buffer (oa_cache (cl_provider s0)))"
  shows "cl_posts s \<le> 1 \<and>
    (\<forall>r r'. Returned r \<in> set (cl_callers s) \<longrightarrow> Returned r' \<in> set (cl_callers s) \<longrightarrow> r = r' \<and> (\<exists>t. r = Inr (bearer t)))"
proof -
  have "single_flight hi s \<and> tc_expiry_buffer (oa_cache (cl_provider s)) = tc_expiry_buffer (oa_cache (cl_provider s0))"
    using assms(1)
  proof induction
    case start
    then show ?case using assms(2-4) unfolding single_flight_def Let_def lock_free_def by auto
  next
    case (step s' now s'')
    then show ?case using single_flight_step [of hi s' post now s'' lo] assms(5) by simp
  qed
  then show ?thesis unfolding single_flight_def Let_def by auto
qed

definition ex_post :: "string \<Rightarrow> (string, string) dict \<Rightarrow> token_payload res" where
  "ex_post url form = Inr \<lparr>pl_access_token = Some ''tok'', pl_token_type = None, pl_refresh_token = None,
     pl_expires_in = Some (Inr 3600), pl_scope = None\<rparr>"

definition ex_oauth :: OAuth2Provider where
  "ex_oauth = \<lparr>oa_token_url = ''https://idp/token'', oa_client_id = ''id'', oa_client_secret = ''s'', oa_scopes = [],
     oa_cache = new_token_cache 300\<rparr>"

definition ex_callers :: "OAuth2Provider \<Rightarrow> caller list \<Rightarrow> nat \<Rightarrow> callers" where
  "ex_callers p cs n = \<lparr>cl_provider = p, cl_callers = cs, cl_posts = n\<rparr>"

lemma ex_grants: "grants ex_post (9 - 0 + tc_expiry_buffer (oa_cache ex_oauth))"
  by (simp add: grants_def ex_post_def payload_lifetime_def ex_oauth_def new_token_cache_def)

abbreviation "ex_tok \<equiv> Returned (Inr (bearer ''tok''))"

lemma ex_caller_run:
  "caller_run ex_post 0 9 (ex_callers ex_oauth [Calling, Calling] 0)
     (ex_callers (fst (fetch_token ex_post 3 ex_oauth)) [ex_tok, ex_tok] 1)"
proof -
  let ?p = "fst (fetch_token ex_post 3 ex_oauth)"
  have none: "cache_get now (oa_cache ex_oauth) = None" for now by (simp add: ex_oauth_def pc.get_new)
  have s1: "caller_step ex_post 0 (ex_callers ex_oauth [Calling, Calling] 0) (ex_callers ex_oauth [Waiting, Calling] 0)"
    using caller_step.miss [of 0 "ex_callers ex_oauth [Calling, Calling] 0" 0 ex_post] by (simp add: ex_callers_def none)
  have s2: "caller_step ex_post 1 (ex_callers ex_oauth [Waiting, Calling] 0) (ex_callers ex_oauth [Waiting, Waiting] 0)"
    using caller_step.miss [of 1 "ex_callers ex_oauth [Waiting, Calling] 0" 1 ex_post] by (simp add: ex_callers_def none)
  have s3: "caller_step ex_post 2 (ex_callers ex_oauth [Waiting, Waiting] 0) (ex_callers ex_oauth [Posting, Waiting] 1)"
    using caller_step.request [of 0 "ex_callers ex_oauth [Waiting, Waiting] 0" 2 ex_post]
    by (simp add: ex_callers_def none lock_free_def)
  have s4: "caller_step ex_post 3 (ex_callers ex_oauth [Posting, Waiting] 1) (ex_callers ?p [ex_tok, Waiting] 1)"
    using caller_step.answer [of 0 "ex_callers ex_oauth [Posting, Waiting] 1" ex_post 3 ?p "Inr ''tok''"]
    by (simp add: ex_callers_def fetch_token_def ex_post_def payload_lifetime_def)
  have "cache_get 4 (oa_cache ?p) = Some ''tok''"
    by (simp add: fetch_token_def ex_post_def payload_lifetime_def pc.get_put ex_oauth_def new_token_cache_def)
  then have s5: "caller_step ex_post 4 (ex_callers ?p [ex_tok, Waiting] 1) (ex_callers ?p [ex_tok, ex_tok] 1)"
    using caller_step.hit [of 1 "ex_callers ?p [ex_tok, Waiting] 1" 4 "''tok''" ex_post] by (simp add: ex_callers_def lock_free_def)
  have "caller_run ex_post 0 9 (ex_callers ex_oauth [Calling, Calling] 0) (ex_callers ex_oauth [Posting, Waiting] 1)"
    using caller_run.step [OF caller_run.step [OF caller_run.step [OF caller_run.start _ _ s1] _ _ s2] _ _ s3] by simp
  then show ?thesis using caller_run.step [OF caller_run.step [OF _ _ _ s4] _ _ s5] by simp
qed

theorem concurrent_callers_share_one_token_witness:
  "cl_posts (ex_callers (fst (fetch_token ex_post 3 ex_oauth)) [ex_tok, ex_tok] 1) \<le> 1 \<and> (\<exists>t. Inr (bearer ''tok'') = (Inr (bearer t) :: headers res))"
  using concurrent_callers_share_one_token [OF ex_caller_run] ex_grants
  by (simp add: ex_callers_def ex_oauth_def new_token_cache_def)

subsection \<open>The retry after 401\<close>

lemma async_auth_flow_eq:
  "async_auth_flow get inval status retry hs p =
    (case get 0 p of
       (p0, Inl e) \<Rightarrow> (p0, [], Inl e)
     | (p0, Inr h0) \<Rightarrow>
         (if retry \<and> status 0 = 401
          then case get 1 (inval p0) of
                 (p1, Inl e) \<Rightarrow> (p1, [dict_update hs h0], Inl e)
               | (p1, Inr h1) \<Rightarrow> (p1, [dict_update hs h0, dict_update (dict_update hs h0) h1], Inr (status 1))
          else (p0, [dict_update hs h0], Inr (status 0))))"
  by (auto simp: async_auth_flow_def auth_loop.simps MAX_401_RETRIES_def Let_def split: prod.splits sum.splits)

abbreviation oauth2_get :: "(string \<Rightarrow> (string, string) dict \<Rightarrow> token_payload res) \<Rightarrow> (nat \<Rightarrow> rat) \<Rightarrow> nat \<Rightarrow> OAuth2Provider \<Rightarrow> OAuth2Provider \<times> headers res" where
  "oauth2_get post time n p \<equiv> oauth2_get_headers post (time n) (time n) p"

lemma token_form_cache [simp]: "token_form (p\<lparr>oa_cache := c\<rparr>) = token_form p"
  by (simp add: token_form_def)

text \<open>
  A rejected token is replaced: a request that is answered 401 is sent once more with a token
  newly requested from the endpoint, whatever the cache held, and no request is sent more than
  twice; any other answer is returned as it is.
\<close>

theorem oauth2_rejected_token_is_replaced:
  assumes "async_auth_flow (oauth2_get post time) oauth2_invalidate status True hs p = (p', sent, r)"
  shows "length sent \<le> 2 \<and> (length sent = 2 \<longrightarrow> status 0 = 401) \<and>
    (status 0 \<noteq> 401 \<longrightarrow> length sent \<le> 1 \<and> (sent \<noteq> [] \<longrightarrow> r = Inr (status 0))) \<and>
    (\<forall>pl t life. status 0 = 401 \<longrightarrow> sent \<noteq> [] \<longrightarrow> post (oa_token_url p) (token_form p) = Inr pl \<longrightarrow> pl_access_token pl = Some t \<longrightarrow>
       payload_lifetime pl = Inr life \<longrightarrow> r = Inr (status 1) \<and> dict_get (last sent) ''Authorization'' = Some (''Bearer '' @ t))"
proof -
  have keeps: "oa_token_url p0 = oa_token_url p \<and> token_form p0 = token_form p"
    if "oauth2_get_headers post a b p = (p0, x)" for a b p0 x
    using that by (auto simp: oauth2_get_headers_def fetch_token_def split: option.splits sum.splits prod.splits)
  have again: "oauth2_get_headers post a b (oauth2_invalidate p0) =
      (case fetch_token post b (oauth2_invalidate p0) of (q, Inl e) \<Rightarrow> (q, Inl e) | (q, Inr t) \<Rightarrow> (q, Inr (bearer t)))" for a b p0
    by (simp add: oauth2_get_headers_def oauth2_invalidate_def pc.get_drop)
  obtain p0 h where g: "oauth2_get_headers post (time 0) (time 0) p = (p0, h)" by fastforce
  note k = keeps [OF g]
  show ?thesis
  proof (cases h)
    case (Inl e)
    then show ?thesis using assms g by (auto simp: async_auth_flow_eq)
  next
    case (Inr h0)
    show ?thesis
    proof (cases "status 0 = 401")
      case False
      then show ?thesis using assms g Inr by (auto simp: async_auth_flow_eq)
    next
      case True
      obtain q x where q: "fetch_token post (time 1) (oauth2_invalidate p0) = (q, x)" by fastforce
      have "x = Inr t" if "post (oa_token_url p) (token_form p) = Inr pl" "pl_access_token pl = Some t"
        "payload_lifetime pl = Inr life" for pl t life
        using q that k by (auto simp: fetch_token_def oauth2_invalidate_def)
      then show ?thesis using assms g Inr True q
        by (auto simp: async_auth_flow_eq again bearer_def dict_get_update split: sum.splits)
    qed
  qed
qed

theorem oauth2_rejected_token_is_replaced_witness:
  "\<exists>p' r. async_auth_flow (oauth2_get ex_post of_nat) oauth2_invalidate (\<lambda>i. if i = 0 then 401 else 200) True [] ex_oauth =
     (p', [bearer ''tok'', bearer ''tok''], r) \<and> r = Inr 200"
proof -
  let ?f = "async_auth_flow (oauth2_get ex_post of_nat) oauth2_invalidate (\<lambda>i. if i = 0 then 401 else 200) True [] ex_oauth"
  have sent: "fst (snd ?f) = [bearer ''tok'', bearer ''tok'']"
    by (simp add: async_auth_flow_eq oauth2_get_headers_def oauth2_invalidate_def pc.get_drop pc.get_new ex_oauth_def
        fetch_token_def ex_post_def payload_lifetime_def bearer_def)
  obtain p' r where f: "?f = (p', [bearer ''tok'', bearer ''tok''], r)" using sent by (cases ?f) auto
  from oauth2_rejected_token_is_replaced [OF f] have "r = Inr 200" by (auto simp: ex_post_def payload_lifetime_def)
  with f show ?thesis by blast
qed

subsection \<open>The store\<close>

text \<open>
  Tokens survive a restart: what was saved for a backend is what is loaded for it, until a minute
  before the access token expires; after that only the refresh token comes back, if there is
  one; backends whose file names differ do not see each other's tokens.
\<close>

theorem token_store_roundtrip:
  assumes "saved \<noteq> 0" "expires_in tokens \<noteq> 0"
  shows "(wall - saved < expires_in tokens - 60 \<longrightarrow>
       store_load wall name (store_save True saved name tokens dir) = Inr (Some tokens)) \<and>
    (expires_in tokens - 60 \<le> wall - saved \<longrightarrow>
       store_load wall name (store_save True saved name tokens dir) =
         Inr (if refresh_token tokens = [] then None else Some (tokens\<lparr>access_token := [], expires_in := 0\<rparr>))) \<and>
    (path_for other \<noteq> path_for name \<longrightarrow>
       store_load wall other (store_save True saved name tokens dir) = store_load wall other dir)"
  using assms by (simp add: store_load_def store_save_def Let_def)

definition ex_tokens :: TokenSet where
  "ex_tokens = \<lparr>access_token = ''tok'', token_type = ''Bearer'', refresh_token = ''ref'', expires_in = 3600, scope = []\<rparr>"

theorem token_store_roundtrip_witness:
  "store_load 1500 ''github'' (store_save True 1000 ''github'' ex_tokens []) = Inr (Some ex_tokens) \<and>
   store_load 1500 ''gitlab'' (store_save True 1000 ''github'' ex_tokens []) = store_load 1500 ''gitlab'' []"
proof -
  have p: "path_for ''gitlab'' \<noteq> path_for ''github''" by code_simp
  have e: "expires_in ex_tokens = 3600" by (simp add: ex_tokens_def)
  show ?thesis using token_store_roundtrip [of 1000 ex_tokens 1500 "''github''" "[]" "''gitlab''"] p by (simp add: e)
qed

text \<open>Two backends whose names differ only in replaced characters share one file.\<close>

lemma token_files_collide: "path_for ''my backend'' = path_for ''my_backend''"
  by code_simp

text \<open>
  A rejected token is sent again: when the store still holds an unexpired token, the retry
  after a 401 of a browser-authenticated backend clears only the memory cache, loads the same
  token from disk and sends the request with it a second time.
\<close>

theorem rejected_stored_token_is_sent_again:
  fixes env :: pkce_env
  assumes "store_load (pe_wall env) (pk_backend_name p) dir = Inr (Some stored)" "access_token stored \<noteq> []"
    and "tc_token (pk_cache p) = None" "status 0 = 401"
  shows "\<exists>st'. async_auth_flow (\<lambda>n. pkce_get_headers env) pkce_invalidate status True hs (p, dir) =
     (st', [dict_update hs (bearer (access_token stored)), dict_update (dict_update hs (bearer (access_token stored))) (bearer (access_token stored))],
      Inr (status 1)) \<and> snd st' = dir"
proof -
  have get: "\<exists>c. pkce_get_headers env (q, dir) = ((q\<lparr>pk_cache := c\<rparr>, dir), Inr (bearer (access_token stored)))"
    if "tc_token (pk_cache q) = None" "pk_backend_name q = pk_backend_name p" for q
    using that assms(1,2) by (auto simp: pkce_get_headers_def resolve_token_def cache_get_def cache_valid_def Let_def)
  obtain c where c: "pkce_get_headers env (p, dir) = ((p\<lparr>pk_cache := c\<rparr>, dir), Inr (bearer (access_token stored)))"
    using get [OF assms(3)] by blast
  let ?q = "p\<lparr>pk_cache := cache_invalidate c\<rparr>"
  have q: "tc_token (pk_cache ?q) = None" "pk_backend_name ?q = pk_backend_name p" by (simp_all add: cache_invalidate_def)
  obtain c' where "pkce_get_headers env (?q, dir) = ((?q\<lparr>pk_cache := c'\<rparr>, dir), Inr (bearer (access_token stored)))"
    using get [OF q] by blast
  then show ?thesis using c assms(4) by (simp add: async_auth_flow_eq pkce_invalidate_def)
qed

definition ex_pkce :: PKCEAuthProvider where
  "ex_pkce = \<lparr>pk_backend_name = ''github'',
     pk_client = \<lparr>pc_auth_endpoint = ''https://idp/auth'', pc_token_endpoint = ''https://idp/token'', pc_client_id = ''id'',
                  pc_client_secret = [], pc_scopes = []\<rparr>,
     pk_cache = new_token_cache 300\<rparr>"

definition ex_pkce_env :: "rat \<Rightarrow> pkce_env" where
  "ex_pkce_env t = \<lparr>pe_now = t, pe_now1 = t, pe_wall = 1000 + t, pe_wall1 = 1000 + t,
     pe_post = \<lambda>url form. Inl (OtherException ''HTTPStatusError'' ''400''),
     pe_flow = \<lambda>cl. Inr (ex_tokens\<lparr>access_token := ''new''\<rparr>), pe_writable = True\<rparr>"

definition ex_token_dir :: token_dir where
  "ex_token_dir = store_save True 1000 ''github'' ex_tokens []"

lemma ex_load:
  "t < 3540 \<Longrightarrow> store_load (1000 + t) ''github'' ex_token_dir = Inr (Some ex_tokens)"
  "3540 \<le> t \<Longrightarrow> store_load (1000 + t) ''github'' ex_token_dir = Inr (Some (ex_tokens\<lparr>access_token := [], expires_in := 0\<rparr>))"
  by (simp_all add: ex_token_dir_def ex_tokens_def store_load_def store_save_def Let_def)

theorem rejected_stored_token_is_sent_again_witness:
  "fst (snd (async_auth_flow (\<lambda>n. pkce_get_headers (ex_pkce_env 10)) pkce_invalidate (\<lambda>i. 401) True [] (ex_pkce, ex_token_dir))) =
     [bearer ''tok'', bearer ''tok'']"
proof -
  have "store_load (pe_wall (ex_pkce_env 10)) (pk_backend_name ex_pkce) ex_token_dir = Inr (Some ex_tokens)"
    using ex_load(1) [of 10] by (simp add: ex_pkce_env_def ex_pkce_def)
  from rejected_stored_token_is_sent_again [OF this, of "\<lambda>i. 401" "[]"]
  obtain st' where "async_auth_flow (\<lambda>n. pkce_get_headers (ex_pkce_env 10)) pkce_invalidate (\<lambda>i. 401) True [] (ex_pkce, ex_token_dir) =
     (st', [dict_update [] (bearer ''tok''), dict_update (dict_update [] (bearer ''tok'')) (bearer ''tok'')], Inr 401)"
    by (auto simp: ex_tokens_def ex_pkce_def new_token_cache_def)
  then show ?thesis by (simp add: bearer_def)
qed

text \<open>
  A stored token is used after it expired: loading it caches it for its whole lifetime counted
  from the load, not from when it was saved, so that calls after the expiry still get it. Here
  \<open>d\<close> is the age of the token when it is loaded and \<open>d'\<close> its age at the later call.
\<close>

theorem stored_token_outlives_its_expiry:
  assumes "saved \<noteq> 0" "0 < expires_in tokens" "access_token tokens \<noteq> []"
    and "d < expires_in tokens - 60" "expires_in tokens \<le> d'" "d' < d + expires_in tokens - tc_expiry_buffer (pk_cache p)"
    and "tc_token (pk_cache p) = None"
    and "pe_wall env = saved + d" "pe_now env = start + d" "pe_now later = start + d'"
  defines "dir \<equiv> store_save True saved (pk_backend_name p) tokens []"
  shows "\<exists>st. pkce_get_headers env (p, dir) = (st, Inr (bearer (access_token tokens))) \<and>
    pkce_get_headers later st = (st, Inr (bearer (access_token tokens)))"
proof -
  have load: "store_load (pe_wall env) (pk_backend_name p) dir = Inr (Some tokens)"
    using assms by (simp add: dir_def store_load_def store_save_def Let_def)
  define c where "c = cache_set (pe_now env) (access_token tokens) (expires_in tokens) (pk_cache p)"
  have "pkce_get_headers env (p, dir) = ((p\<lparr>pk_cache := c\<rparr>, dir), Inr (bearer (access_token tokens)))"
    using assms(3,7) load by (simp add: pkce_get_headers_def resolve_token_def cache_get_def cache_valid_def Let_def c_def)
  moreover have "cache_get (pe_now later) c = Some (access_token tokens)"
    using assms(2,6,9,10) by (simp add: c_def pc.get_put)
  ultimately show ?thesis using assms(3) by (simp add: pkce_get_headers_def Let_def)
qed

theorem stored_token_outlives_its_expiry_witness:
  "\<exists>st. pkce_get_headers (ex_pkce_env 3000) (ex_pkce, ex_token_dir) = (st, Inr (bearer ''tok'')) \<and>
     pkce_get_headers (ex_pkce_env 6000) st = (st, Inr (bearer ''tok''))"
  using stored_token_outlives_its_expiry [of 1000 ex_tokens 3000 6000 ex_pkce "ex_pkce_env 3000" 0 "ex_pkce_env 6000"]
  by (simp add: ex_tokens_def ex_pkce_def ex_pkce_env_def new_token_cache_def ex_token_dir_def)

text \<open>
  A revoked refresh token blocks the backend: the endpoint answers the refresh request with an
  error status, which is no \<open>OSError\<close>, so that the call raises and the browser flow that the
  code announces is not started, at this and at every later call.
\<close>

theorem revoked_refresh_token_blocks:
  assumes "store_load (pe_wall env) (pk_backend_name p) dir = Inr (Some stored)" "access_token stored = []" "refresh_token stored \<noteq> []"
    and "cache_get (pe_now env) (pk_cache p) = None"
    and "pe_post env (pc_token_endpoint (pk_client p)) (refresh_form (pk_client p) (refresh_token stored)) = Inl (OtherException ''HTTPStatusError'' msg)"
  shows "pkce_get_headers env (p, dir) = ((p, dir), Inl (OtherException ''HTTPStatusError'' msg))"
  using assms by (simp add: pkce_get_headers_def resolve_token_def refresh_access_token_def os_error_def)

theorem revoked_refresh_token_blocks_witness:
  "pkce_get_headers (ex_pkce_env 4000) (ex_pkce, ex_token_dir) = ((ex_pkce, ex_token_dir), Inl (OtherException ''HTTPStatusError'' ''400''))"
  using ex_load(2) [of 4000]
  by (intro revoked_refresh_token_blocks [where stored = "ex_tokens\<lparr>access_token := [], expires_in := 0\<rparr>"])
    (simp_all add: ex_pkce_env_def ex_pkce_def pc.get_new, simp_all add: ex_tokens_def)

text \<open>A token file that cannot be read raises instead of counting as absent.\<close>

lemma unreadable_token_file_raises:
  "dict_get dir (path_for name) = Some Unreadable \<Longrightarrow>
   store_load wall name dir = Inl (OtherException ''UnboundLocalError'' ''cannot access local variable data'')"
  by (simp add: store_load_def)

subsection \<open>Redaction and refresh\<close>

text \<open>A redacted secret keeps its length from five characters on and shows at most the last four.\<close>

lemma redact_hides: "4 < length v \<Longrightarrow> length (redact v) = length v \<and> take (length v - 4) (redact v) = replicate (length v - 4) (CHR ''*'')"
  by (simp add: redact_def)

text \<open>A sweep asks every provider that is not static, whatever the others raise.\<close>

lemma sweep_asks_all:
  "mset (sw_refreshed (sweep envs True ps dir)) + mset (sw_reauth (sweep envs True ps dir)) =
   mset (map fst (filter (\<lambda>(n, p). \<forall>hs. p \<noteq> StaticToken hs) ps))"
proof -
  have "mset (sw_refreshed (fold (sweep_one envs True) xs w)) + mset (sw_reauth (fold (sweep_one envs True) xs w)) =
      mset (sw_refreshed w) + mset (sw_reauth w) + mset (map fst (filter (\<lambda>(n, p). \<forall>hs. p \<noteq> StaticToken hs) xs))" for xs w
  proof (induction xs arbitrary: w)
    case (Cons np xs)
    obtain n p where np: "np = (n, p)" by fastforce
    have "mset (sw_refreshed (sweep_one envs True np w)) + mset (sw_reauth (sweep_one envs True np w)) =
        mset (sw_refreshed w) + mset (sw_reauth w) + (if \<forall>hs. p \<noteq> StaticToken hs then {#n#} else {#})"
      by (cases p) (simp_all add: np sweep_one_def Let_def split: prod.splits sum.splits)
    then show ?case using Cons [of "sweep_one envs True np w"] by (simp add: np)
  qed simp
  then show ?thesis by (simp add: sweep_def)
qed

end
