(* ===== verification/Client_Sessions.thy ===== *)
theory Client_Sessions
  imports Argus_Prelude "HOL-Library.Multiset"
begin

text \<open>
  The sessions of the clients: \<open>server/session/models.py\<close>, \<open>server/session/manager.py\<close> and what
  \<open>handle_sse\<close> of \<open>server/transport.py\<close> does with them. The readings of the monotonic clock and the
  generated identifiers are arguments; the cleanup loop is a sequence of passes.
\<close>

section \<open>A session\<close>

record MCPSession =
  ms_id :: string
  routing_table :: "(string, string) dict"
  capability_snapshot :: "(string, nat) dict"
  created_at :: rat
  last_active :: rat
  ms_ttl :: rat
  transport_type :: string

definition ms_expired :: "rat \<Rightarrow> MCPSession \<Rightarrow> bool" where
  "ms_expired now s \<longleftrightarrow> now - last_active s > ms_ttl s"

definition age_seconds :: "rat \<Rightarrow> MCPSession \<Rightarrow> rat" where
  "age_seconds now s = now - created_at s"

definition idle_seconds :: "rat \<Rightarrow> MCPSession \<Rightarrow> rat" where
  "idle_seconds now s = now - last_active s"

definition touch :: "rat \<Rightarrow> MCPSession \<Rightarrow> MCPSession" where
  "touch now s = s\<lparr>last_active := now\<rparr>"

definition resolve_backend :: "string \<Rightarrow> MCPSession \<Rightarrow> string option" where
  "resolve_backend tool_name s = dict_get (routing_table s) tool_name"

text \<open>\<open>round(x, 1)\<close>, which rounds half to even.\<close>

definition round1 :: "rat \<Rightarrow> rat" where
  "round1 x = of_int (round_even (10 * x)) / 10"

record session_summary =
  su_id :: string
  su_transport_type :: string
  su_tool_count :: nat
  su_capability_snapshot :: "(string, nat) dict"
  su_age_seconds :: rat
  su_idle_seconds :: rat
  su_ttl :: rat
  su_expired :: bool

definition session_to_dict :: "rat \<Rightarrow> MCPSession \<Rightarrow> session_summary" where
  "session_to_dict now s =
     \<lparr>su_id = ms_id s, su_transport_type = transport_type s, su_tool_count = length (routing_table s),
      su_capability_snapshot = capability_snapshot s, su_age_seconds = round1 (age_seconds now s),
      su_idle_seconds = round1 (idle_seconds now s), su_ttl = ms_ttl s, su_expired = ms_expired now s\<rparr>"

section \<open>The manager\<close>

record SessionManager =
  sm_sessions :: "(string, MCPSession) dict"
  sm_default_ttl :: rat
  sm_cleanup_task :: bool

definition new_session_manager :: "rat \<Rightarrow> SessionManager" where
  "new_session_manager default_ttl = \<lparr>sm_sessions = [], sm_default_ttl = default_ttl, sm_cleanup_task = False\<rparr>"

definition sm_start :: "SessionManager \<Rightarrow> SessionManager" where
  "sm_start m = m\<lparr>sm_cleanup_task := True\<rparr>"

definition sm_stop :: "SessionManager \<Rightarrow> SessionManager" where
  "sm_stop m = m\<lparr>sm_cleanup_task := False, sm_sessions := []\<rparr>"

text \<open>\<open>created\<close> and \<open>active\<close> are the two readings of the clock when the object is made.\<close>

definition create_session ::
    "string \<Rightarrow> rat \<Rightarrow> rat \<Rightarrow> (string, string) dict \<Rightarrow> (string, nat) dict option \<Rightarrow> string \<Rightarrow> string option \<Rightarrow> SessionManager \<Rightarrow>
     SessionManager \<times> MCPSession" where
  "create_session uuid created active table snapshot transport session_id m =
     (let s = \<lparr>ms_id = (case session_id of Some sid \<Rightarrow> if sid \<noteq> [] then sid else uuid | None \<Rightarrow> uuid),
               routing_table = table, capability_snapshot = (case snapshot of None \<Rightarrow> [] | Some c \<Rightarrow> c),
               created_at = created, last_active = active, ms_ttl = sm_default_ttl m, transport_type = transport\<rparr>
      in (m\<lparr>sm_sessions := dict_set (ms_id s) s (sm_sessions m)\<rparr>, s))"

definition sm_remove :: "string \<Rightarrow> SessionManager \<Rightarrow> SessionManager \<times> bool" where
  "sm_remove sid m =
     (if dict_get (sm_sessions m) sid \<noteq> None then (m\<lparr>sm_sessions := dict_del sid (sm_sessions m)\<rparr>, True) else (m, False))"

text \<open>\<open>now\<close> is read for the expiry, \<open>now'\<close> by \<open>touch\<close>.\<close>

definition get_client_session :: "rat \<Rightarrow> rat \<Rightarrow> string \<Rightarrow> SessionManager \<Rightarrow> SessionManager \<times> MCPSession option" where
  "get_client_session now now' sid m =
     (case dict_get (sm_sessions m) sid of
        None \<Rightarrow> (m, None)
      | Some s \<Rightarrow>
          if ms_expired now s then (fst (sm_remove sid m), None)
          else (m\<lparr>sm_sessions := dict_set sid (touch now' s) (sm_sessions m)\<rparr>, Some (touch now' s)))"

definition remove_session :: "string \<Rightarrow> SessionManager \<Rightarrow> SessionManager \<times> bool" where
  "remove_session sid m = sm_remove sid m"

definition active_count :: "rat \<Rightarrow> SessionManager \<Rightarrow> nat" where
  "active_count now m = length (filter (\<lambda>s. \<not> ms_expired now s) (map snd (sm_sessions m)))"

definition list_sessions :: "rat \<Rightarrow> SessionManager \<Rightarrow> session_summary list" where
  "list_sessions now m = map (session_to_dict now) (filter (\<lambda>s. \<not> ms_expired now s) (map snd (sm_sessions m)))"

definition cleanup_pass :: "rat \<Rightarrow> SessionManager \<Rightarrow> SessionManager" where
  "cleanup_pass now m =
     fold (\<lambda>sid m. fst (sm_remove sid m)) (map fst (filter (\<lambda>(sid, s). ms_expired now s) (sm_sessions m))) m"

section \<open>Server-sent event connections\<close>

text \<open>
  The session of a connection: made from the route map of the registry before the connection is
  served and removed when serving it returns. When it raises, the rest of \<open>handle_sse\<close> is left.
\<close>

definition sse_open ::
    "string \<Rightarrow> rat \<Rightarrow> rat \<Rightarrow> (string, string \<times> string) dict \<Rightarrow> nat \<Rightarrow> nat \<Rightarrow> nat \<Rightarrow> SessionManager \<Rightarrow> SessionManager \<times> MCPSession" where
  "sse_open uuid created active routes n_tools n_resources n_prompts m =
     create_session uuid created active (map (\<lambda>(k, v). (k, fst v)) routes)
       (Some [(''tools'', n_tools), (''resources'', n_resources), (''prompts'', n_prompts)]) ''sse'' None m"

definition sse_closed :: "unit res \<Rightarrow> MCPSession \<Rightarrow> SessionManager \<Rightarrow> SessionManager" where
  "sse_closed served s m = (case served of Inr u \<Rightarrow> fst (remove_session (ms_id s) m) | Inl e \<Rightarrow> m)"

section \<open>Calls\<close>

datatype session_call =
    Create string "(string, string) dict" "(string, nat) dict option" string "string option"
  | Get string
  | Remove string
  | Count
  | ListAll
  | Cleanup
  | StopAll

datatype session_answer = Nothing | Got "MCPSession option" | Counted nat | Listed "session_summary multiset"

text \<open>One call at one reading of the clock.\<close>

fun session_step :: "rat \<times> session_call \<Rightarrow> SessionManager \<Rightarrow> SessionManager \<times> session_answer" where
  "session_step (now, Create uuid table snapshot transport sid) m =
     (case create_session uuid now now table snapshot transport sid m of (m', s) \<Rightarrow> (m', Got (Some s)))"
| "session_step (now, Get sid) m = (case get_client_session now now sid m of (m', r) \<Rightarrow> (m', Got r))"
| "session_step (now, Remove sid) m = (fst (remove_session sid m), Nothing)"
| "session_step (now, Count) m = (m, Counted (active_count now m))"
| "session_step (now, ListAll) m = (m, Listed (mset (list_sessions now m)))"
| "session_step (now, Cleanup) m = (cleanup_pass now m, Nothing)"
| "session_step (now, StopAll) m = (sm_stop m, Nothing)"

fun session_answers :: "(rat \<times> session_call) list \<Rightarrow> SessionManager \<Rightarrow> session_answer list" where
  "session_answers [] m = []"
| "session_answers (c # cs) m =
     (case session_step c m of (m', a) \<Rightarrow> if snd c = Cleanup then session_answers cs m' else a # session_answers cs m')"

section \<open>Expired sessions are as good as removed\<close>

definition live :: "rat \<Rightarrow> SessionManager \<Rightarrow> string \<Rightarrow> MCPSession option" where
  "live now m sid = (case dict_get (sm_sessions m) sid of Some s \<Rightarrow> if ms_expired now s then None else Some s | None \<Rightarrow> None)"

definition same_live :: "rat \<Rightarrow> SessionManager \<Rightarrow> SessionManager \<Rightarrow> bool" where
  "same_live now m m' \<longleftrightarrow> live now m = live now m' \<and> sm_default_ttl m = sm_default_ttl m' \<and>
     dict_wf (sm_sessions m) \<and> dict_wf (sm_sessions m')"

lemma same_liveI:
  "(\<And>sid. live now m sid = live now m' sid) \<Longrightarrow> sm_default_ttl m = sm_default_ttl m' \<Longrightarrow>
   dict_wf (sm_sessions m) \<Longrightarrow> dict_wf (sm_sessions m') \<Longrightarrow> same_live now m m'"
  by (auto simp: same_live_def)

lemma ms_expired_mono: "ms_expired now s \<Longrightarrow> now \<le> later \<Longrightarrow> ms_expired later s"
  by (simp add: ms_expired_def)

lemma live_later: "now \<le> later \<Longrightarrow> live later m sid = (case live now m sid of Some s \<Rightarrow> if ms_expired later s then None else Some s | None \<Rightarrow> None)"
  by (auto simp: live_def ms_expired_mono split: option.splits)

lemma same_live_later: "same_live now m m' \<Longrightarrow> now \<le> later \<Longrightarrow> same_live later m m'"
  by (auto simp: same_live_def fun_eq_iff live_later [of now later])

lemma sm_remove_simps [simp]:
  "dict_get (sm_sessions (fst (sm_remove sid m))) = (dict_get (sm_sessions m))(sid := None)"
  "sm_default_ttl (fst (sm_remove sid m)) = sm_default_ttl m"
  "dict_wf (sm_sessions m) \<Longrightarrow> dict_wf (sm_sessions (fst (sm_remove sid m)))"
  by (auto simp: sm_remove_def fun_eq_iff)

lemma live_remove [simp]: "live now (fst (sm_remove sid m)) = (live now m)(sid := None)"
  by (auto simp: live_def fun_eq_iff)

lemma fold_remove:
  "live now (fold (\<lambda>sid m. fst (sm_remove sid m)) sids m) = (\<lambda>sid. if sid \<in> set sids then None else live now m sid)"
  "sm_default_ttl (fold (\<lambda>sid m. fst (sm_remove sid m)) sids m) = sm_default_ttl m"
  "dict_wf (sm_sessions m) \<Longrightarrow> dict_wf (sm_sessions (fold (\<lambda>sid m. fst (sm_remove sid m)) sids m))"
  by (induction sids arbitrary: m) (auto simp: fun_eq_iff)

lemma cleanup_keeps_live:
  assumes "dict_wf (sm_sessions m)"
  shows "same_live now (cleanup_pass now m) m"
proof (rule same_liveI)
  fix sid
  have "live now m sid = None" if "(sid, s) \<in> set (sm_sessions m)" "ms_expired now s" for s
    using that dict_get_Some_iff [OF assms, of sid s] by (simp add: live_def)
  then show "live now (cleanup_pass now m) sid = live now m sid"
    by (auto simp: cleanup_pass_def fold_remove)
qed (use assms in \<open>auto simp: cleanup_pass_def fold_remove\<close>)

text \<open>The sessions that are not expired, as a multiset, depend on \<open>live\<close> only.\<close>

lemma dict_get_filter:
  "dict_wf d \<Longrightarrow> dict_get (filter (\<lambda>(k, v). P v) d) k = (case dict_get d k of Some v \<Rightarrow> if P v then Some v else None | None \<Rightarrow> None)"
proof (induction d)
  case (Cons kv d)
  have "dict_get (filter (\<lambda>(k, v). P v) d) (fst kv) = None" using Cons.prems by (force simp: dict_get_None_iff)
  then show ?case using Cons by (cases kv) auto
qed simp

lemma dict_values_mset: "dict_wf d \<Longrightarrow> mset (map snd d) = image_mset (\<lambda>k. the (dict_get d k)) (mset_set (dom (dict_get d)))"
proof -
  assume w: "dict_wf d"
  have "map snd d = map (\<lambda>k. the (dict_get d k)) (dict_keys d)" using w by (auto simp: map_of_is_SomeI)
  then have "mset (map snd d) = image_mset (\<lambda>k. the (dict_get d k)) (mset (dict_keys d))" by (metis mset_map)
  also have "mset (dict_keys d) = mset_set (dom (dict_get d))" using w mset_set_set [of "dict_keys d"] by (simp add: dict_dom)
  finally show ?thesis .
qed

definition unexpired_sessions :: "rat \<Rightarrow> SessionManager \<Rightarrow> MCPSession list" where
  "unexpired_sessions now m = filter (\<lambda>s. \<not> ms_expired now s) (map snd (sm_sessions m))"

lemma live_entries:
  assumes "dict_wf (sm_sessions m)"
  shows "mset (unexpired_sessions now m) = image_mset (\<lambda>sid. the (live now m sid)) (mset_set (dom (live now m)))"
proof -
  define d where "d = filter (\<lambda>(k, s). \<not> ms_expired now s) (sm_sessions m)"
  have d: "dict_wf d" unfolding d_def using assms by (simp add: distinct_map_filter)
  have "dict_get d = live now m"
    unfolding d_def live_def fun_eq_iff dict_get_filter [OF assms] by (auto split: option.splits)
  moreover have "unexpired_sessions now m = map snd d" unfolding d_def unexpired_sessions_def filter_map by (simp add: comp_def case_prod_beta')
  ultimately show ?thesis using dict_values_mset [OF d] by simp
qed

lemma same_live_answers:
  assumes "same_live now m m'"
  shows "active_count now m = active_count now m'" "mset (list_sessions now m) = mset (list_sessions now m')"
proof -
  have eq: "mset (unexpired_sessions now m) = mset (unexpired_sessions now m')"
    using assms live_entries [of m now] live_entries [of m' now] unfolding same_live_def by metis
  then show "mset (list_sessions now m) = mset (list_sessions now m')"
    unfolding list_sessions_def unexpired_sessions_def [symmetric] mset_map by simp
  show "active_count now m = active_count now m'"
    using arg_cong [OF eq, of size] unfolding active_count_def unexpired_sessions_def [symmetric] size_mset .
qed

lemma get_session_live:
  "snd (get_client_session now now sid m) = map_option (touch now) (live now m sid)"
  "live now (fst (get_client_session now now sid m)) sid' =
     (if sid' = sid then (case live now m sid of Some s \<Rightarrow> if ms_expired now (touch now s) then None else Some (touch now s) | None \<Rightarrow> None)
      else live now m sid')"
  by (auto simp: get_client_session_def live_def split: option.splits)

lemma get_session_frame:
  "sm_default_ttl (fst (get_client_session now now' sid m)) = sm_default_ttl m"
  "dict_wf (sm_sessions m) \<Longrightarrow> dict_wf (sm_sessions (fst (get_client_session now now' sid m)))"
  by (auto simp: get_client_session_def split: option.splits)

text \<open>Two managers with the same live sessions answer every call alike and stay so.\<close>

lemma same_live_step:
  assumes "same_live now m m'"
  shows "snd (session_step (now, c) m) = snd (session_step (now, c) m') \<and>
    same_live now (fst (session_step (now, c) m)) (fst (session_step (now, c) m'))"
proof -
  have l: "live now m sid = live now m' sid" and ttl: "sm_default_ttl m = sm_default_ttl m'"
    and w: "dict_wf (sm_sessions m)" "dict_wf (sm_sessions m')" for sid
    using assms by (simp_all add: same_live_def)
  show ?thesis
  proof (cases c)
    case (Create uuid table snapshot transport sid)
    then show ?thesis using l w ttl
      by (auto simp: create_session_def Let_def live_def fun_eq_iff intro!: same_liveI)
  next
    case (Get sid)
    have "same_live now (fst (get_client_session now now sid m)) (fst (get_client_session now now sid m'))"
      by (rule same_liveI) (simp_all add: get_session_live get_session_frame l ttl w)
    then show ?thesis using Get by (simp add: case_prod_beta get_session_live l)
  next
    case (Remove sid)
    then show ?thesis using l w ttl by (auto simp: remove_session_def intro!: same_liveI)
  next
    case Cleanup
    have "same_live now (cleanup_pass now m) (cleanup_pass now m')"
      using cleanup_keeps_live [OF w(1)] cleanup_keeps_live [OF w(2)] assms by (auto simp: same_live_def)
    then show ?thesis using Cleanup by simp
  next
    case StopAll
    then show ?thesis using ttl by (auto simp: sm_stop_def live_def intro!: same_liveI)
  qed (use assms same_live_answers in auto)
qed

lemma sorted_times: "sorted (now # map fst cs) \<Longrightarrow> cs = (t, c) # cs' \<Longrightarrow> now \<le> t \<and> sorted (t # map fst cs')"
  by simp

lemma answers_without_cleanup:
  assumes "sorted (now # map fst cs)" "same_live now m m'"
  shows "session_answers cs m = session_answers (filter (\<lambda>c. snd c \<noteq> Cleanup) cs) m'"
  using assms
proof (induction cs arbitrary: now m m')
  case (Cons tc cs)
  obtain t c where tc: "tc = (t, c)" by (cases tc)
  have t: "now \<le> t" "sorted (t # map fst cs)" using Cons.prems(1) by (simp_all add: tc)
  have same: "same_live t m m'" by (rule same_live_later [OF Cons.prems(2) t(1)])
  show ?case
  proof (cases "c = Cleanup")
    case True
    have "dict_wf (sm_sessions m)" using same by (simp add: same_live_def)
    then have "same_live t (cleanup_pass t m) m'" using cleanup_keeps_live [of m t] same by (simp add: same_live_def)
    then show ?thesis using Cons.IH [OF t(2)] by (simp add: tc True)
  next
    case False
    then show ?thesis using same_live_step [OF same, of c] Cons.IH [OF t(2)]
      by (auto simp: tc split: prod.splits)
  qed
qed simp

section \<open>Theorems\<close>

text \<open>
  The cleanup loop is invisible: whatever calls are made at times that do not decrease, and
  wherever cleanup passes fall between them, every look-up, count and listing gives the same
  as without any cleanup; the loop only frees memory.
\<close>

theorem session_cleanup_is_invisible:
  assumes "sorted (0 # map fst cs)"
  shows "session_answers cs (new_session_manager ttl) =
    session_answers (filter (\<lambda>c. snd c \<noteq> Cleanup) cs) (new_session_manager ttl)"
  by (rule answers_without_cleanup [OF assms]) (simp add: same_live_def new_session_manager_def)

theorem session_cleanup_is_invisible_witness:
  "session_answers [(0, Create ''a'' [] None ''sse'' None), (20, Cleanup), (21, Get ''a''), (22, Count)] (new_session_manager 10) =
   session_answers [(0, Create ''a'' [] None ''sse'' None), (21, Get ''a''), (22, Count)] (new_session_manager 10)"
  using session_cleanup_is_invisible [of "[(0, Create ''a'' [] None ''sse'' None), (20, Cleanup), (21, Get ''a''), (22, Count)]" 10]
  by simp

end
