(* ===== verification/Skills.thy ===== *)
theory Skills
  imports Py_String "HOL-Library.List_Lexorder" "HOL-Library.Char_ord"
begin

text \<open>
  Installed skills: \<open>skills/manifest.py\<close> and \<open>skills/manager.py\<close>. The skills directory is part of
  the state: its entries with their manifest files, and the file that records which skills are
  enabled. A manifest is a JSON object with the types the class declares; a key may be missing.
\<close>

section \<open>Manifests\<close>

record manifest_data =
  md_name :: "string option"
  md_version :: "string option"
  md_description :: "string option"
  md_tools :: "pyval list option"
  md_workflows :: "pyval list option"
  md_config :: "(string, pyval) dict option"
  md_dependencies :: "string list option"
  md_author :: "string option"
  md_license :: "string option"

datatype manifest_file = NoJson | NoObject | Manifest manifest_data

record SkillManifest =
  sk_name :: string
  sk_version :: string
  sk_description :: string
  sk_tools :: "pyval list"
  sk_workflows :: "pyval list"
  sk_config :: "(string, pyval) dict"
  sk_dependencies :: "string list"
  sk_author :: string
  sk_license :: string

definition SkillManifestError :: "string \<Rightarrow> exn" where
  "SkillManifestError m = OtherException ''SkillManifestError'' m"

definition value_or :: "'a \<Rightarrow> 'a option \<Rightarrow> 'a" where
  "value_or x v = (case v of None \<Rightarrow> x | Some y \<Rightarrow> y)"

definition manifest_from_dict :: "manifest_data \<Rightarrow> SkillManifest res" where
  "manifest_from_dict d =
     (if value_or [] (md_name d) = [] then Inl (SkillManifestError ''Skill manifest must have a 'name' field'')
      else Inr \<lparr>sk_name = value_or [] (md_name d), sk_version = value_or ''0.0.0'' (md_version d),
                sk_description = value_or [] (md_description d), sk_tools = value_or [] (md_tools d),
                sk_workflows = value_or [] (md_workflows d), sk_config = value_or [] (md_config d),
                sk_dependencies = value_or [] (md_dependencies d), sk_author = value_or [] (md_author d),
                sk_license = value_or [] (md_license d)\<rparr>)"

definition manifest_from_file :: "manifest_file \<Rightarrow> SkillManifest res" where
  "manifest_from_file f =
     (case f of
        NoJson \<Rightarrow> Inl (SkillManifestError ''Failed to read manifest'')
      | NoObject \<Rightarrow> Inl (SkillManifestError ''Manifest must be a JSON object'')
      | Manifest d \<Rightarrow> manifest_from_dict d)"

definition manifest_to_dict :: "SkillManifest \<Rightarrow> manifest_data" where
  "manifest_to_dict m =
     \<lparr>md_name = Some (sk_name m), md_version = Some (sk_version m), md_description = Some (sk_description m),
      md_tools = Some (sk_tools m), md_workflows = Some (sk_workflows m), md_config = Some (sk_config m),
      md_dependencies = Some (sk_dependencies m), md_author = Some (sk_author m), md_license = Some (sk_license m)\<rparr>"

definition tool_has_name :: "pyval \<Rightarrow> bool" where
  "tool_has_name tool = (case tool of PDict d \<Rightarrow> dict_get d ''name'' \<noteq> None | _ \<Rightarrow> False)"

definition manifest_validate :: "SkillManifest \<Rightarrow> string list" where
  "manifest_validate m =
     (if sk_name m = [] then [''Missing '' @ repr_str ''name''] else []) @
     (if sk_version m = [] then [''Missing '' @ repr_str ''version''] else []) @
     map (\<lambda>(i, tool). ''Tool '' @ show_nat i @ '': must be an object with '' @ repr_str ''name'')
       (filter (\<lambda>(i, tool). \<not> tool_has_name tool) (enumerate 0 (sk_tools m)))"

section \<open>The skills directory\<close>

datatype SkillStatus = ENABLED | DISABLED

fun status_value :: "SkillStatus \<Rightarrow> string" where
  "status_value ENABLED = ''enabled''"
| "status_value DISABLED = ''disabled''"

text \<open>An entry of the directory has a manifest file or not; \<open>None\<close> is a state file that is missing or broken.\<close>

record skills_disk =
  sd_exists :: bool
  sd_entries :: "(string, manifest_file option) dict"
  sd_state :: "(string, string) dict option"
  sd_outside :: "string list"

text \<open>\<open>install_entry\<close> is the entry of the directory a skill is in, None when its path leads elsewhere.\<close>

record InstalledSkill =
  is_manifest :: SkillManifest
  is_status :: SkillStatus
  install_entry :: "string option"

type_synonym skills = "(string, InstalledSkill) dict"

type_synonym skill_state = "skills \<times> skills_disk"

text \<open>\<open>os.path.join(skills_dir, name)\<close> is an entry of the directory only for a plain name.\<close>

definition plain_name :: "string \<Rightarrow> bool" where
  "plain_name name \<longleftrightarrow> name \<noteq> [] \<and> CHR ''/'' \<notin> set name \<and> name \<noteq> ''.'' \<and> name \<noteq> ''..''"

definition load_state :: "skills_disk \<Rightarrow> (string, string) dict" where
  "load_state disk = value_or [] (sd_state disk)"

text \<open>\<open>writable\<close> says whether the state file can be written.\<close>

definition save_state :: "bool \<Rightarrow> skill_state \<Rightarrow> skill_state \<times> unit res" where
  "save_state writable st = (case st of (sk, disk) \<Rightarrow>
     (if writable
      then ((sk, disk\<lparr>sd_exists := True, sd_state := Some (map (\<lambda>(n, s). (n, status_value (is_status s))) sk)\<rparr>), Inr ())
      else (st, Inl (OtherException ''OSError'' ''skills-state.json''))))"

definition load_skill :: "(string, string) dict \<Rightarrow> string \<times> manifest_file option \<Rightarrow> skills \<Rightarrow> skills" where
  "load_skill state e sk = (case e of
     (entry, None) \<Rightarrow> sk
   | (entry, Some f) \<Rightarrow>
       (case manifest_from_file f of
          Inl err \<Rightarrow> sk
        | Inr manifest \<Rightarrow>
            (let status = (if dict_get_or ''enabled'' state (sk_name manifest) = ''disabled'' then DISABLED else ENABLED)
             in dict_set (sk_name manifest) \<lparr>is_manifest = manifest, is_status = status, install_entry = Some entry\<rparr> sk)))"

definition sorted_entries :: "skills_disk \<Rightarrow> (string \<times> manifest_file option) list" where
  "sorted_entries disk = map (\<lambda>e. (e, the (dict_get (sd_entries disk) e))) (sort (dict_keys (sd_entries disk)))"

definition skills_discover :: "skill_state \<Rightarrow> skill_state" where
  "skills_discover st = (case st of (sk, disk) \<Rightarrow>
     (if \<not> sd_exists disk then ([], disk)
      else (fold (load_skill (load_state disk)) (sorted_entries disk) [], disk)))"

text \<open>\<open>source\<close> is the manifest file of the source directory.\<close>

definition skills_install :: "bool \<Rightarrow> manifest_file option \<Rightarrow> skill_state \<Rightarrow> skill_state \<times> InstalledSkill res" where
  "skills_install writable source st = (case st of (sk, disk) \<Rightarrow>
     (case source of
        None \<Rightarrow> (st, Inl (SkillManifestError ''No manifest.json found''))
      | Some f \<Rightarrow>
          (case manifest_from_file f of
             Inl e \<Rightarrow> (st, Inl e)
           | Inr manifest \<Rightarrow>
               (if manifest_validate manifest \<noteq> []
                then (st, Inl (SkillManifestError (''Invalid manifest for '' @ repr_str (sk_name manifest) @ '': '' @
                                                   join_with ''; '' (manifest_validate manifest))))
                else let name = sk_name manifest;
                         disk' = (if plain_name name
                                  then disk\<lparr>sd_exists := True, sd_entries := dict_set name (Some f) (sd_entries disk)\<rparr>
                                  else disk\<lparr>sd_exists := True, sd_outside := sd_outside disk @ [name]\<rparr>);
                         skill = \<lparr>is_manifest = manifest, is_status = ENABLED,
                                  install_entry = (if plain_name name then Some name else None)\<rparr>
                     in case save_state writable (dict_set name skill sk, disk') of
                          (st', Inl e) \<Rightarrow> (st', Inl e)
                        | (st', Inr u) \<Rightarrow> (st', Inr skill)))))"

definition not_installed :: "string \<Rightarrow> exn" where
  "not_installed name = ValueError (''Skill '' @ repr_str name @ '' is not installed'')"

text \<open>A path outside the directory that still is a directory is refused; \<open>gone\<close> says that it no longer is one.\<close>

definition skills_uninstall :: "bool \<Rightarrow> bool \<Rightarrow> string \<Rightarrow> skill_state \<Rightarrow> skill_state \<times> unit res" where
  "skills_uninstall writable gone name st = (case st of (sk, disk) \<Rightarrow>
     (case dict_get sk name of
        None \<Rightarrow> (st, Inl (not_installed name))
      | Some skill \<Rightarrow>
          (case install_entry skill of
             None \<Rightarrow> if gone then save_state writable (dict_del name sk, disk)
                     else (st, Inl (ValueError ''Refusing to remove: not within skills directory''))
           | Some e \<Rightarrow> save_state writable (dict_del name sk, disk\<lparr>sd_entries := dict_del e (sd_entries disk)\<rparr>))))"

definition set_status :: "SkillStatus \<Rightarrow> bool \<Rightarrow> string \<Rightarrow> skill_state \<Rightarrow> skill_state \<times> unit res" where
  "set_status status writable name st = (case st of (sk, disk) \<Rightarrow>
     (case dict_get sk name of
        None \<Rightarrow> (st, Inl (not_installed name))
      | Some skill \<Rightarrow> save_state writable (dict_set name (skill\<lparr>is_status := status\<rparr>) sk, disk)))"

definition skills_enable :: "bool \<Rightarrow> string \<Rightarrow> skill_state \<Rightarrow> skill_state \<times> unit res" where
  "skills_enable = set_status ENABLED"

definition skills_disable :: "bool \<Rightarrow> string \<Rightarrow> skill_state \<Rightarrow> skill_state \<times> unit res" where
  "skills_disable = set_status DISABLED"

definition skills_get :: "string \<Rightarrow> skills \<Rightarrow> InstalledSkill option" where
  "skills_get name sk = dict_get sk name"

definition list_skills :: "skills \<Rightarrow> InstalledSkill list" where
  "list_skills sk = map snd sk"

definition list_enabled :: "skills \<Rightarrow> InstalledSkill list" where
  "list_enabled sk = filter (\<lambda>s. is_status s = ENABLED) (map snd sk)"

definition get_skill_config :: "string \<Rightarrow> skills \<Rightarrow> (string, pyval) dict" where
  "get_skill_config name sk = (case dict_get sk name of None \<Rightarrow> [] | Some s \<Rightarrow> sk_config (is_manifest s))"

text \<open>The definitions are objects; any other value makes \<open>dict(...)\<close> raise, and None stands for that.\<close>

definition mark_skill :: "string \<Rightarrow> bool \<Rightarrow> pyval \<Rightarrow> pyval option" where
  "mark_skill name only_named d =
     (case d of
        PDict kvs \<Rightarrow> Some (PDict (if only_named \<and> dict_get kvs ''name'' = None then kvs else dict_set ''_skill'' (PStr name) kvs))
      | _ \<Rightarrow> None)"

definition get_all_tools :: "skills \<Rightarrow> pyval option list" where
  "get_all_tools sk = concat (map (\<lambda>s. map (mark_skill (sk_name (is_manifest s)) True) (sk_tools (is_manifest s))) (list_enabled sk))"

definition get_all_workflows :: "skills \<Rightarrow> pyval option list" where
  "get_all_workflows sk = concat (map (\<lambda>s. map (mark_skill (sk_name (is_manifest s)) False) (sk_workflows (is_manifest s))) (list_enabled sk))"

section \<open>The directory holds what the manager knows\<close>

text \<open>The skill an entry of the directory stands for, given the contents of the state file.\<close>

definition skill_of :: "(string, string) dict \<Rightarrow> string \<Rightarrow> manifest_file option \<Rightarrow> InstalledSkill option" where
  "skill_of state entry mf =
     (case mf of
        None \<Rightarrow> None
      | Some f \<Rightarrow>
          (case manifest_from_file f of
             Inl e \<Rightarrow> None
           | Inr m \<Rightarrow> Some \<lparr>is_manifest = m,
                            is_status = (if dict_get_or ''enabled'' state (sk_name m) = ''disabled'' then DISABLED else ENABLED),
                            install_entry = Some entry\<rparr>))"

definition entry_skill :: "skills_disk \<Rightarrow> (string, string) dict \<Rightarrow> string \<Rightarrow> InstalledSkill option" where
  "entry_skill disk state n = Option.bind (dict_get (sd_entries disk) n) (skill_of state n)"

text \<open>Every skill lies in the entry that has its name.\<close>

definition named_entries :: "skills_disk \<Rightarrow> bool" where
  "named_entries disk \<longleftrightarrow> dict_wf (sd_entries disk) \<and>
     (\<forall>n s. entry_skill disk [] n = Some s \<longrightarrow> sk_name (is_manifest s) = n)"

text \<open>The files of the skills are those the manager knows, with or without their status.\<close>

definition same_files :: "skill_state \<Rightarrow> bool" where
  "same_files st = (case st of (sk, disk) \<Rightarrow>
     dict_wf sk \<and> named_entries disk \<and>
     (\<forall>n. map_option (\<lambda>s. s\<lparr>is_status := ENABLED\<rparr>) (dict_get sk n) = entry_skill disk [] n))"

definition mirrored :: "skill_state \<Rightarrow> bool" where
  "mirrored st = (case st of (sk, disk) \<Rightarrow>
     dict_wf sk \<and> named_entries disk \<and> (sk \<noteq> [] \<longrightarrow> sd_exists disk) \<and>
     (\<forall>n. dict_get sk n = entry_skill disk (load_state disk) n))"

lemma dict_get_or_Nil [simp]: "dict_get_or x [] k = x"
  by (simp add: dict_get_or_def)

lemma skill_of_status:
  "skill_of state n mf = map_option (\<lambda>s. s\<lparr>is_status := (if dict_get_or ''enabled'' state (sk_name (is_manifest s)) = ''disabled'' then DISABLED else ENABLED)\<rparr>) (skill_of [] n mf)"
  by (auto simp: skill_of_def split: option.splits sum.splits)

lemma skill_of_enabled: "skill_of [] n mf = Some s \<Longrightarrow> is_status s = ENABLED \<and> install_entry s = Some n"
  by (auto simp: skill_of_def split: option.splits sum.splits)

lemma entry_skill_status:
  "entry_skill disk state n = map_option (\<lambda>s. s\<lparr>is_status := (if dict_get_or ''enabled'' state (sk_name (is_manifest s)) = ''disabled'' then DISABLED else ENABLED)\<rparr>) (entry_skill disk [] n)"
  unfolding entry_skill_def by (cases "dict_get (sd_entries disk) n") (simp_all add: skill_of_status [of state])

lemma entry_skill_entry: "entry_skill disk state n = Some s \<Longrightarrow> install_entry s = Some n"
  using skill_of_enabled [of n] by (subst (asm) entry_skill_status) (auto simp: entry_skill_def split: bind_splits)

lemma named_entry: "named_entries disk \<Longrightarrow> entry_skill disk state n = Some s \<Longrightarrow> sk_name (is_manifest s) = n"
  by (subst (asm) entry_skill_status) (auto simp: named_entries_def)

lemma mirrored_files: "mirrored st \<Longrightarrow> same_files st"
  unfolding mirrored_def same_files_def
proof (clarsimp split: prod.splits)
  fix sk disk n
  assume "\<forall>n. dict_get sk n = entry_skill disk (load_state disk) n"
  have "map_option (\<lambda>s. s\<lparr>is_status := ENABLED\<rparr>) (entry_skill disk (load_state disk) n) = entry_skill disk [] n"
    by (subst entry_skill_status)
      (auto simp: option.map_comp comp_def entry_skill_def dest!: skill_of_enabled split: bind_splits intro!: option.map_ident_strong)
  then show "map_option (\<lambda>s. s\<lparr>is_status := ENABLED\<rparr>) (entry_skill disk (load_state disk) n) = entry_skill disk [] n" .
qed

lemma dict_get_map_snd: "dict_get (map (\<lambda>(n, s). (n, f s)) d) n = map_option f (dict_get d n)"
  by (induction d) auto

lemma status_value_disabled: "(if status_value st = ''disabled'' then DISABLED else ENABLED) = st"
  by (cases st) simp_all

text \<open>Writing the state file completes the mirror.\<close>

lemma save_mirrors:
  assumes "same_files (sk, disk)"
  shows "mirrored (fst (save_state True (sk, disk)))"
proof -
  define state where "state = map (\<lambda>(n, s). (n, status_value (is_status s))) sk"
  have files: "map_option (\<lambda>s. s\<lparr>is_status := ENABLED\<rparr>) (dict_get sk n) = entry_skill disk [] n" for n
    using assms by (simp add: same_files_def)
  have "dict_get sk n = entry_skill disk state n" for n
  proof (cases "dict_get sk n")
    case None
    then show ?thesis using files [of n] by (subst entry_skill_status) simp
  next
    case (Some s)
    then have e: "entry_skill disk [] n = Some (s\<lparr>is_status := ENABLED\<rparr>)" using files [of n] by simp
    then have "sk_name (is_manifest s) = n" using assms named_entry [of disk "[]" n] by (simp add: same_files_def)
    then show ?thesis using Some
      by (subst entry_skill_status)
        (simp add: e state_def dict_get_or_def dict_get_map_snd status_value_disabled)
  qed
  moreover have "named_entries (disk\<lparr>sd_exists := True, sd_state := Some state\<rparr>)"
    using assms by (simp add: same_files_def named_entries_def entry_skill_def)
  ultimately show ?thesis using assms
    by (simp add: save_state_def mirrored_def same_files_def load_state_def value_or_def entry_skill_def state_def)
qed

text \<open>Discovery reads back the skills of the entries.\<close>

lemma load_skill_of:
  assumes "\<And>s. skill_of state entry mf = Some s \<Longrightarrow> sk_name (is_manifest s) = entry"
  shows "load_skill state (entry, mf) sk = (case skill_of state entry mf of None \<Rightarrow> sk | Some s \<Rightarrow> dict_set entry s sk)"
  using assms by (auto simp: load_skill_def skill_of_def split: option.splits sum.splits)

lemma fold_load_skill:
  assumes "\<And>entry mf s. (entry, mf) \<in> set es \<Longrightarrow> skill_of state entry mf = Some s \<Longrightarrow> sk_name (is_manifest s) = entry"
    and "dict_wf es" "dict_wf sk" "fst ` set es \<inter> fst ` set sk = {}"
  shows "dict_wf (fold (load_skill state) es sk)" and
    "dict_get (fold (load_skill state) es sk) n =
      (case dict_get sk n of Some s \<Rightarrow> Some s | None \<Rightarrow> Option.bind (dict_get es n) (skill_of state n))"
proof -
  have "dict_wf (fold (load_skill state) es sk) \<and> dict_get (fold (load_skill state) es sk) n =
      (case dict_get sk n of Some s \<Rightarrow> Some s | None \<Rightarrow> Option.bind (dict_get es n) (skill_of state n))"
    using assms
  proof (induction es arbitrary: sk)
    case (Cons e es)
    obtain entry mf where e: "e = (entry, mf)" by (cases e)
    have step: "load_skill state (entry, mf) sk = (case skill_of state entry mf of None \<Rightarrow> sk | Some s \<Rightarrow> dict_set entry s sk)"
      by (rule load_skill_of) (use Cons.prems(1) [of entry mf] in \<open>simp add: e\<close>)
    have fresh: "dict_get sk entry = None" "dict_get es entry = None"
      using Cons.prems(2,4) by (auto simp: e dict_get_None_iff)
    let ?sk = "load_skill state (entry, mf) sk"
    have w: "dict_wf ?sk" "fst ` set es \<inter> fst ` set ?sk = {}"
      using Cons.prems(2-4) fresh(2) by (auto simp: step e split: option.splits)
    have ih: "dict_wf (fold (load_skill state) es ?sk) \<and> dict_get (fold (load_skill state) es ?sk) n =
        (case dict_get ?sk n of Some s \<Rightarrow> Some s | None \<Rightarrow> Option.bind (dict_get es n) (skill_of state n))"
      by (rule Cons.IH) (use Cons.prems(1,2) w in auto)
    then show ?case using fresh by (auto simp: step e split: option.splits)
  qed (simp split: option.splits)
  then show "dict_wf (fold (load_skill state) es sk)" and
    "dict_get (fold (load_skill state) es sk) n =
      (case dict_get sk n of Some s \<Rightarrow> Some s | None \<Rightarrow> Option.bind (dict_get es n) (skill_of state n))"
    by simp_all
qed

lemma sorted_entries_get:
  assumes "dict_wf (sd_entries disk)"
  shows "dict_wf (sorted_entries disk)" "dict_get (sorted_entries disk) n = dict_get (sd_entries disk) n"
proof -
  show w: "dict_wf (sorted_entries disk)" using assms by (simp add: sorted_entries_def comp_def)
  show "dict_get (sorted_entries disk) n = dict_get (sd_entries disk) n"
    using dict_dom [of "sd_entries disk"] by (auto simp: sorted_entries_def map_of_map_restrict restrict_map_def dom_def set_eq_iff)
qed

lemma discover_reads:
  assumes "named_entries disk" "sd_exists disk"
  shows "dict_get (fst (skills_discover (sk, disk))) n = entry_skill disk (load_state disk) n"
    and "dict_wf (fst (skills_discover (sk, disk)))"
proof -
  have w: "dict_wf (sd_entries disk)" using assms(1) by (simp add: named_entries_def)
  have named: "sk_name (is_manifest s) = entry"
    if "(entry, mf) \<in> set (sorted_entries disk)" "skill_of (load_state disk) entry mf = Some s" for entry mf s
  proof -
    have "dict_get (sd_entries disk) entry = Some mf"
      using that(1) sorted_entries_get [OF w] by (metis dict_get_Some_iff)
    then have "entry_skill disk (load_state disk) entry = Some s" using that(2) by (simp add: entry_skill_def)
    then show ?thesis by (rule named_entry [OF assms(1)])
  qed
  have ws: "dict_wf (sorted_entries disk)" by (rule sorted_entries_get(1) [OF w])
  have "dict_get (fold (load_skill (load_state disk)) (sorted_entries disk) []) n =
    Option.bind (dict_get (sorted_entries disk) n) (skill_of (load_state disk) n)"
    using fold_load_skill(2) [of "sorted_entries disk" "load_state disk" "[]", OF named ws] by simp
  then show "dict_get (fst (skills_discover (sk, disk))) n = entry_skill disk (load_state disk) n"
    using assms(2) by (simp add: skills_discover_def sorted_entries_get(2) [OF w] entry_skill_def)
  show "dict_wf (fst (skills_discover (sk, disk)))"
    using assms(2) fold_load_skill(1) [of "sorted_entries disk" "load_state disk" "[]", OF named ws] by (simp add: skills_discover_def)
qed

lemma discover_mirrors:
  assumes "named_entries disk" "sd_exists disk"
  shows "mirrored (skills_discover (sk, disk))"
proof -
  have "snd (skills_discover (sk, disk)) = disk" by (simp add: skills_discover_def)
  then show ?thesis using discover_reads [OF assms, of sk] assms
    by (cases "skills_discover (sk, disk)") (simp add: mirrored_def)
qed

section \<open>Calls\<close>

text \<open>
  The calls of the manager. The flags say whether the state file can be written in that call
  and, for a removal, whether a directory outside is gone.
\<close>

datatype skill_call = Install bool "manifest_file option" | Uninstall bool bool string | Enable bool string | Disable bool string | Discover

fun skill_step :: "skill_call \<Rightarrow> skill_state \<Rightarrow> skill_state" where
  "skill_step (Install writable source) st = fst (skills_install writable source st)"
| "skill_step (Uninstall writable gone n) st = fst (skills_uninstall writable gone n st)"
| "skill_step (Enable writable n) st = fst (skills_enable writable n st)"
| "skill_step (Disable writable n) st = fst (skills_disable writable n st)"
| "skill_step Discover st = skills_discover st"

text \<open>The state file could be written, and no manifest has a name that leads out of the skills directory.\<close>

fun saved_call :: "skill_call \<Rightarrow> bool" where
  "saved_call (Install writable source) = (writable \<and> (case source of None \<Rightarrow> True | Some f \<Rightarrow>
     (case manifest_from_file f of Inl e \<Rightarrow> True | Inr m \<Rightarrow> plain_name (sk_name m))))"
| "saved_call (Uninstall writable gone n) = writable"
| "saved_call (Enable writable n) = writable"
| "saved_call (Disable writable n) = writable"
| "saved_call Discover = True"

lemma set_status_mirrors:
  assumes "mirrored st"
  shows "mirrored (fst (set_status status True n st))"
proof -
  obtain sk disk where st: "st = (sk, disk)" by (cases st)
  show ?thesis
  proof (cases "dict_get sk n")
    case None
    then show ?thesis using assms by (simp add: set_status_def st)
  next
    case (Some s)
    have old: "same_files (sk, disk)" using mirrored_files [OF assms] by (simp add: st)
    then have "map_option (\<lambda>s. s\<lparr>is_status := ENABLED\<rparr>) (dict_get sk n) = entry_skill disk [] n" by (simp add: same_files_def)
    then have n: "entry_skill disk [] n = Some (s\<lparr>is_status := ENABLED\<rparr>)" using Some by simp
    have "same_files (dict_set n (s\<lparr>is_status := status\<rparr>) sk, disk)"
      using old n by (auto simp: same_files_def)
    then show ?thesis using Some save_mirrors by (simp add: set_status_def st)
  qed
qed

lemma install_mirrors:
  assumes "mirrored st" "saved_call (Install True source)"
  shows "mirrored (fst (skills_install True source st))"
proof (cases source)
  case None
  with assms(1) show ?thesis by (simp add: skills_install_def split: prod.split)
next
  case f: (Some f)
  obtain sk disk where st: "st = (sk, disk)" by (cases st)
  show ?thesis
  proof (cases "\<exists>m. manifest_from_file f = Inr m \<and> manifest_validate m = []")
    case False
    then show ?thesis using assms(1) by (auto simp: skills_install_def st f split: sum.splits)
  next
    case True
    then obtain m where m: "manifest_from_file f = Inr m" "manifest_validate m = []" by blast
    define skill where "skill = \<lparr>is_manifest = m, is_status = ENABLED, install_entry = Some (sk_name m)\<rparr>"
    define disk' where "disk' = disk\<lparr>sd_exists := True, sd_entries := dict_set (sk_name m) (Some f) (sd_entries disk)\<rparr>"
    have entry: "entry_skill disk' [] n = (if n = sk_name m then Some skill else entry_skill disk [] n)" for n
      by (simp add: entry_skill_def disk'_def skill_of_def m(1) skill_def)
    have old: "same_files (sk, disk)" using mirrored_files [OF assms(1)] by (simp add: st)
    have "named_entries disk'" using old unfolding named_entries_def same_files_def entry by (auto simp: disk'_def skill_def)
    then have "same_files (dict_set (sk_name m) skill sk, disk')"
      using old unfolding same_files_def by (auto simp: entry skill_def)
    then have "mirrored (fst (save_state True (dict_set (sk_name m) skill sk, disk')))" by (rule save_mirrors)
    then show ?thesis using assms(2) m by (simp add: skills_install_def st f skill_def disk'_def Let_def save_state_def)
  qed
qed

lemma uninstall_mirrors:
  assumes "mirrored st"
  shows "mirrored (fst (skills_uninstall True gone n st))"
proof -
  obtain sk disk where st: "st = (sk, disk)" by (cases st)
  show ?thesis
  proof (cases "dict_get sk n")
    case None
    then show ?thesis using assms by (simp add: skills_uninstall_def st)
  next
    case (Some s)
    then have e: "install_entry s = Some n"
      using assms entry_skill_entry [of disk "load_state disk" n s] by (simp add: mirrored_def st)
    define disk' where "disk' = disk\<lparr>sd_entries := dict_del n (sd_entries disk)\<rparr>"
    have entry: "entry_skill disk' [] k = (if k = n then None else entry_skill disk [] k)" for k
      by (simp add: entry_skill_def disk'_def)
    have old: "same_files (sk, disk)" using mirrored_files [OF assms(1)] by (simp add: st)
    then have "named_entries disk'" unfolding named_entries_def same_files_def entry by (auto simp: disk'_def)
    then have "same_files (dict_del n sk, disk')" using old unfolding same_files_def by (auto simp: entry)
    then show ?thesis using save_mirrors e Some by (simp add: skills_uninstall_def st disk'_def)
  qed
qed

lemma mirrored_discover: "mirrored st \<Longrightarrow> mirrored (skills_discover st) \<and> dict_get (fst (skills_discover st)) = dict_get (fst st)"
proof -
  assume m: "mirrored st"
  obtain sk disk where st: "st = (sk, disk)" by (cases st)
  show ?thesis
  proof (cases "sd_exists disk")
    case True
    have "named_entries disk" using m by (simp add: st mirrored_def)
    then show ?thesis using discover_mirrors discover_reads(1) m True by (fastforce simp: st mirrored_def fun_eq_iff)
  next
    case False
    then have "sk = []" using m by (auto simp: st mirrored_def)
    then show ?thesis using m False by (simp add: st skills_discover_def)
  qed
qed

lemma skill_step_mirrors:
  assumes "mirrored st" "saved_call c"
  shows "mirrored (skill_step c st)"
proof (cases c)
  case (Install writable source)
  with assms have "writable" by simp
  with install_mirrors [OF assms(1)] assms(2) Install show ?thesis by simp
qed (use assms in \<open>simp_all add: uninstall_mirrors skills_enable_def skills_disable_def set_status_mirrors mirrored_discover\<close>)

lemma skill_run_mirrors: "mirrored st \<Longrightarrow> list_all saved_call cs \<Longrightarrow> mirrored (fold skill_step cs st)"
  by (induction cs arbitrary: st) (simp_all add: skill_step_mirrors)

section \<open>Theorems\<close>

text \<open>
  C25: Skills survive a restart: from an existing directory whose skills lie in the entries that
  have their names, after any sequence of installations of manifests with plain names, removals,
  enabling, disabling and scans in which the state file could be written, a new manager that
  scans the directory knows exactly the skills the old one had, each with its manifest, its place
  and its status.
\<close>

theorem skills_survive_restart:
  assumes "named_entries disk" "sd_exists disk" "list_all saved_call cs"
  shows "dict_get (fst (skills_discover ([], snd (fold skill_step cs (skills_discover ([], disk)))))) =
    dict_get (fst (fold skill_step cs (skills_discover ([], disk))))"
proof -
  define st where "st = fold skill_step cs (skills_discover ([], disk))"
  have "mirrored st" unfolding st_def by (rule skill_run_mirrors [OF discover_mirrors [OF assms(1,2)] assms(3)])
  moreover have "skills_discover ([], snd st) = skills_discover st" by (simp add: skills_discover_def case_prod_beta)
  ultimately show ?thesis using mirrored_discover [of st] by (simp add: st_def)
qed

definition ex_manifest :: "string \<Rightarrow> manifest_file" where
  "ex_manifest n = Manifest \<lparr>md_name = Some n, md_version = Some ''1.0'', md_description = None, md_tools = None, md_workflows = None,
     md_config = None, md_dependencies = None, md_author = None, md_license = None\<rparr>"

theorem skills_survive_restart_witness:
  "dict_get (fst (skills_discover ([], snd (fold skill_step [Install True (Some (ex_manifest ''b'')), Disable True ''a'']
     (skills_discover ([], \<lparr>sd_exists = True, sd_entries = [(''a'', Some (ex_manifest ''a'')), (''x'', None)], sd_state = None, sd_outside = []\<rparr>)))))) =
   dict_get (fst (fold skill_step [Install True (Some (ex_manifest ''b'')), Disable True ''a'']
     (skills_discover ([], \<lparr>sd_exists = True, sd_entries = [(''a'', Some (ex_manifest ''a'')), (''x'', None)], sd_state = None, sd_outside = []\<rparr>))))"
  by (rule skills_survive_restart)
    (auto simp: named_entries_def entry_skill_def skill_of_def ex_manifest_def manifest_from_file_def manifest_from_dict_def value_or_def
      plain_name_def split: if_splits)

text \<open>When the state file cannot be written, the manager has the new status and the restarted one the old.\<close>

lemma unsaved_status_is_lost:
  "let st = skill_step (Disable False ''a'') (skills_discover ([], \<lparr>sd_exists = True,
       sd_entries = [(''a'', Some (ex_manifest ''a''))], sd_state = None, sd_outside = []\<rparr>))
   in map_option is_status (dict_get (fst st) ''a'') = Some DISABLED \<and>
      map_option is_status (dict_get (fst (skills_discover ([], snd st))) ''a'') = Some ENABLED"
  by code_simp

text \<open>
  A manifest whose name is no plain file name is installed anyway: a file of the archive is
  copied to a path outside the skills directory.
\<close>

lemma install_escapes_directory:
  "sd_outside (snd (fst (skills_install True (Some (ex_manifest ''../x'')) ([], \<lparr>sd_exists = True, sd_entries = [], sd_state = None, sd_outside = []\<rparr>)))) = [''../x'']"
  by (simp add: skills_install_def ex_manifest_def manifest_from_file_def manifest_from_dict_def value_or_def manifest_validate_def
      plain_name_def Let_def save_state_def)

text \<open>A manifest that is written out and read again is the same.\<close>

lemma manifest_roundtrip: "sk_name m \<noteq> [] \<Longrightarrow> manifest_from_dict (manifest_to_dict m) = Inr m"
  by (simp add: manifest_from_dict_def manifest_to_dict_def value_or_def)

end
