(* ===== verification/Http_Guards.thy ===== *)
theory Http_Guards
  imports Py_String
begin

text \<open>
  Two ASGI layers in front of the application: \<open>server/payload_limits.py\<close>, which reads the whole
  body, checks its size and the nesting of its JSON and replays it, and \<open>server/origin.py\<close>, which
  checks the \<open>Origin\<close> header of MCP requests.

  \<open>receive\<close> is the infinite sequence of messages its calls return. The loop that reads the body
  may run forever, so that it is a partial function and \<open>None\<close> is a call that never returns.
  \<open>json.loads\<close> is an argument. \<open>urlparse(...).hostname\<close> is written out; the validity of an IPv6
  address inside brackets is an argument.
\<close>

section \<open>ASGI\<close>

datatype asgi_msg = HttpRequest (msg_body: string) (more_body: bool) | HttpDisconnect

type_synonym receive = "nat \<Rightarrow> asgi_msg"

record scope =
  sc_type :: string
  sc_method :: string
  sc_path :: string
  sc_headers :: "(string \<times> string) list"

text \<open>What a layer does with a request: it calls the application, answers itself or raises.\<close>

datatype outcome = Forward receive | Respond int | Raise exn

definition upper_char :: "char \<Rightarrow> char" where
  "upper_char c = (if 97 \<le> code c \<and> code c \<le> 122 then char_of (code c - 32) else c)"

definition bytes_lower :: "string \<Rightarrow> string" where
  "bytes_lower s = map (\<lambda>c. if 65 \<le> code c \<and> code c \<le> 90 then char_of (code c + 32) else c) s"

definition first_header :: "string \<Rightarrow> (string \<times> string) list \<Rightarrow> string option" where
  "first_header k hs = map_option snd (find (\<lambda>h. fst h = k) hs)"

section \<open>Payload limits\<close>

record PayloadLimitsConfig =
  pl_enabled :: bool
  max_body_bytes :: nat
  max_json_depth :: int

fun check_json_depth :: "pyval \<Rightarrow> int \<Rightarrow> int \<Rightarrow> bool" where
  "check_json_depth (PDict d) max_depth current =
     (current > max_depth \<or> list_ex (\<lambda>kv. check_json_depth (snd kv) max_depth (current + 1)) d)"
| "check_json_depth (PList vs) max_depth current =
     (current > max_depth \<or> list_ex (\<lambda>v. check_json_depth v max_depth (current + 1)) vs)"
| "check_json_depth PNone max_depth current = (current > max_depth)"
| "check_json_depth (PBool b) max_depth current = (current > max_depth)"
| "check_json_depth (PInt i) max_depth current = (current > max_depth)"
| "check_json_depth (PStr s) max_depth current = (current > max_depth)"
| "check_json_depth (PObj c s) max_depth current = (current > max_depth)"

text \<open>
  The loop over \<open>buffering_receive\<close>: the size received when the limit is exceeded, or the chunks
  and the number of messages read.
\<close>

partial_function (option) buffer_body ::
    "receive \<Rightarrow> nat \<Rightarrow> nat \<Rightarrow> string list \<Rightarrow> nat \<Rightarrow> (nat + string list \<times> nat) option" where
  "buffer_body recv limit i body_chunks total_size =
     (case recv i of
        HttpDisconnect \<Rightarrow> buffer_body recv limit (Suc i) body_chunks total_size
      | HttpRequest chunk again \<Rightarrow>
          (let total' = total_size + length chunk
           in if total' > limit then Some (Inl total')
              else if again then buffer_body recv limit (Suc i) (body_chunks @ [chunk]) total'
              else Some (Inr (body_chunks @ [chunk], Suc i))))"

definition is_json_content :: "scope \<Rightarrow> bool" where
  "is_json_content sc =
     (case first_header ''content-type'' (sc_headers sc) of
        None \<Rightarrow> False
      | Some v \<Rightarrow> str_contains ''json'' (bytes_lower v))"

definition replay_receive :: "string \<Rightarrow> receive \<Rightarrow> nat \<Rightarrow> receive" where
  "replay_receive full_body recv consumed n = (if n = 0 then HttpRequest full_body False else recv (consumed + (n - 1)))"

text \<open>\<open>except (ValueError, TypeError)\<close>; \<open>JSONDecodeError\<close> and \<open>UnicodeDecodeError\<close> are \<open>ValueError\<close>s.\<close>

definition malformed :: "exn \<Rightarrow> bool" where
  "malformed e =
     (case e of
        ValueError m \<Rightarrow> True
      | TypeError m \<Rightarrow> True
      | OtherException c m \<Rightarrow> c \<in> {''JSONDecodeError'', ''UnicodeDecodeError''}
      | _ \<Rightarrow> False)"

definition payload_limits ::
    "PayloadLimitsConfig \<Rightarrow> (string \<Rightarrow> pyval res) \<Rightarrow> scope \<Rightarrow> receive \<Rightarrow> outcome option" where
  "payload_limits cfg loads sc recv =
     (if sc_type sc \<noteq> ''http'' \<or> \<not> pl_enabled cfg then Some (Forward recv)
      else if map upper_char (sc_method sc) \<in> {''GET'', ''HEAD'', ''OPTIONS'', ''DELETE''} then Some (Forward recv)
      else case buffer_body recv (max_body_bytes cfg) 0 [] 0 of
             None \<Rightarrow> None
           | Some (Inl received) \<Rightarrow> Some (Respond 413)
           | Some (Inr (body_chunks, consumed)) \<Rightarrow>
               (let full_body = concat body_chunks;
                    forward = Some (Forward (replay_receive full_body recv consumed))
                in if full_body \<noteq> [] \<and> is_json_content sc
                   then case loads full_body of
                          Inl e \<Rightarrow> if malformed e then forward else Some (Raise e)
                        | Inr parsed \<Rightarrow> if check_json_depth parsed (max_json_depth cfg) 0 then Some (Respond 400) else forward
                   else forward))"

section \<open>Origin validation\<close>

text \<open>\<open>urlparse(origin).hostname\<close>: None is a raised \<open>ValueError\<close>, the empty string a missing host.\<close>

definition partition_at :: "char \<Rightarrow> string \<Rightarrow> string \<times> string" where
  "partition_at c s = (takeWhile (\<lambda>x. x \<noteq> c) s, drop 1 (dropWhile (\<lambda>x. x \<noteq> c) s))"

definition rpartition_tail :: "char \<Rightarrow> string \<Rightarrow> string" where
  "rpartition_tail c s = rev (takeWhile (\<lambda>x. x \<noteq> c) (rev s))"

definition scheme_char :: "char \<Rightarrow> bool" where
  "scheme_char c \<longleftrightarrow> 97 \<le> code c \<and> code c \<le> 122 \<or> 65 \<le> code c \<and> code c \<le> 90 \<or> is_digit c \<or> c \<in> {CHR ''+'', CHR ''-'', CHR ''.''}"

definition drop_scheme :: "string \<Rightarrow> string" where
  "drop_scheme url =
     (let scheme = takeWhile (\<lambda>x. x \<noteq> CHR '':'') url
      in if CHR '':'' \<in> set url \<and> scheme \<noteq> [] \<and> \<not> is_digit (hd scheme) \<and> hd scheme \<notin> {CHR ''+'', CHR ''-'', CHR ''.''} \<and> list_all scheme_char scheme
         then drop (Suc (length scheme)) url else url)"

definition url_netloc :: "string \<Rightarrow> string" where
  "url_netloc url =
     (let cleaned = filter (\<lambda>c. code c \<notin> {9, 10, 13}) (dropWhile (\<lambda>c. code c \<le> 32) url);
          rest = drop_scheme cleaned
      in if starts_with ''//'' rest then takeWhile (\<lambda>c. c \<notin> {CHR ''/'', CHR ''?'', CHR ''#''}) (drop 2 rest) else [])"

definition url_hostname :: "(string \<Rightarrow> bool) \<Rightarrow> string \<Rightarrow> string option" where
  "url_hostname ipv6 url =
     (let netloc = url_netloc url;
          hostinfo = rpartition_tail (CHR ''@'') netloc;
          bracketed = fst (partition_at (CHR '']'') (snd (partition_at (CHR ''['') netloc)));
          host = (if CHR ''['' \<in> set hostinfo then fst (partition_at (CHR '']'') (snd (partition_at (CHR ''['') hostinfo)))
                  else fst (partition_at (CHR '':'') hostinfo));
          zone = dropWhile (\<lambda>x. x \<noteq> CHR ''%'') host
      in if (CHR ''['' \<in> set netloc) \<noteq> (CHR '']'' \<in> set netloc) then None
         else if CHR ''['' \<in> set netloc \<and> \<not> ipv6 bracketed then None
         else Some (str_lower (takeWhile (\<lambda>x. x \<noteq> CHR ''%'') host) @ zone))"

definition MCP_PATH_PREFIXES :: "string list" where
  "MCP_PATH_PREFIXES = [''/mcp'', ''/sse'', ''/messages'']"

definition LOCALHOST_HOSTS :: "string list" where
  "LOCALHOST_HOSTS = [''localhost'', ''127.0.0.1'', ''::1'', ''[::1]'']"

definition parse_allowed_origins :: "string option \<Rightarrow> string set" where
  "parse_allowed_origins env =
     (let raw = str_strip (case env of None \<Rightarrow> [] | Some v \<Rightarrow> v)
      in if raw = [] then {}
         else set (map (\<lambda>o'. str_lower (str_strip o')) (filter (\<lambda>o'. str_strip o' \<noteq> []) (split_on (CHR '','') raw))))"

definition is_localhost_origin :: "(string \<Rightarrow> bool) \<Rightarrow> string \<Rightarrow> bool" where
  "is_localhost_origin ipv6 origin =
     (case url_hostname ipv6 origin of
        None \<Rightarrow> False
      | Some host \<Rightarrow> str_lower host \<in> set LOCALHOST_HOSTS)"

record OriginValidation =
  ov_require_origin :: string
  ov_allowed_origins :: "string set"

definition new_origin_validation :: "string option \<Rightarrow> string \<Rightarrow> OriginValidation" where
  "new_origin_validation env require_origin =
     \<lparr>ov_require_origin = str_lower require_origin, ov_allowed_origins = parse_allowed_origins env\<rparr>"

definition origin_validation :: "(string \<Rightarrow> bool) \<Rightarrow> OriginValidation \<Rightarrow> scope \<Rightarrow> receive \<Rightarrow> outcome" where
  "origin_validation ipv6 ov sc recv =
     (if sc_type sc \<noteq> ''http'' then Forward recv
      else if \<not> list_ex (\<lambda>p. starts_with p (sc_path sc)) MCP_PATH_PREFIXES then Forward recv
      else let origin = (case first_header ''origin'' (sc_headers sc) of None \<Rightarrow> [] | Some v \<Rightarrow> v)
           in if origin = [] then (if ov_require_origin ov = ''strict'' then Respond 403 else Forward recv)
              else if is_localhost_origin ipv6 (str_lower origin) then Forward recv
              else if ''*'' \<in> ov_allowed_origins ov then Forward recv
              else if str_lower origin \<in> ov_allowed_origins ov then Forward recv
              else Respond 403)"

section \<open>Reading the body\<close>

text \<open>The bytes of a sequence of messages, and the message that ends the body.\<close>

fun msg_bytes :: "asgi_msg \<Rightarrow> string" where
  "msg_bytes (HttpRequest b m) = b"
| "msg_bytes HttpDisconnect = []"

fun is_last :: "asgi_msg \<Rightarrow> bool" where
  "is_last (HttpRequest b m) = (\<not> m)"
| "is_last HttpDisconnect = False"

definition sent :: "receive \<Rightarrow> nat \<Rightarrow> string" where
  "sent recv n = concat (map (\<lambda>k. msg_bytes (recv k)) [0..<n])"

definition body_ends :: "receive \<Rightarrow> nat \<Rightarrow> bool" where
  "body_ends recv n \<longleftrightarrow> is_last (recv n) \<and> (\<forall>k < n. \<not> is_last (recv k))"

lemma sent_simps [simp]: "sent recv 0 = []" "sent recv (Suc n) = sent recv n @ msg_bytes (recv n)"
  by (simp_all add: sent_def)

lemma sent_mono: "i \<le> n \<Longrightarrow> length (sent recv i) \<le> length (sent recv n)"
  by (induction n) (auto simp: le_Suc_eq)

text \<open>While the body goes on and the limit is kept the loop only collects.\<close>

lemma buffer_body_go:
  "(\<forall>k < n. \<not> is_last (recv k)) \<Longrightarrow> length (sent recv n) \<le> limit \<Longrightarrow>
   \<exists>cs. concat cs = sent recv n \<and> buffer_body recv limit 0 [] 0 = buffer_body recv limit n cs (length (sent recv n))"
proof (induction n)
  case 0
  have "concat [] = sent recv 0" by simp
  then show ?case by (metis list.size(3) sent_simps(1))
next
  case (Suc n)
  then obtain cs where cs: "concat cs = sent recv n"
    "buffer_body recv limit 0 [] 0 = buffer_body recv limit n cs (length (sent recv n))" by auto
  show ?case
  proof (cases "recv n")
    case (HttpRequest b m)
    then have "m" using Suc.prems(1) by (metis is_last.simps(1) lessI)
    then have "buffer_body recv limit n cs (length (sent recv n)) = buffer_body recv limit (Suc n) (cs @ [b]) (length (sent recv (Suc n)))"
      using Suc.prems(2) HttpRequest by (subst buffer_body.simps) (simp add: Let_def)
    then show ?thesis using cs HttpRequest by (intro exI [of _ "cs @ [b]"]) simp
  next
    case HttpDisconnect
    then have "buffer_body recv limit n cs (length (sent recv n)) = buffer_body recv limit (Suc n) cs (length (sent recv (Suc n)))"
      by (subst buffer_body.simps) simp
    then show ?thesis using cs HttpDisconnect by (intro exI [of _ cs]) simp
  qed
qed

lemma buffer_body_ends:
  assumes "body_ends recv n" "length (sent recv (Suc n)) \<le> limit"
  shows "\<exists>cs. concat cs = sent recv (Suc n) \<and> buffer_body recv limit 0 [] 0 = Some (Inr (cs, Suc n))"
proof -
  obtain b where b: "recv n = HttpRequest b False" using assms(1) by (cases "recv n") (auto simp: body_ends_def)
  obtain cs where "concat cs = sent recv n" "buffer_body recv limit 0 [] 0 = buffer_body recv limit n cs (length (sent recv n))"
    using buffer_body_go [of n recv limit] assms by (auto simp: body_ends_def)
  moreover have "buffer_body recv limit n cs (length (sent recv n)) = Some (Inr (cs @ [b], Suc n))"
    using assms(2) b by (subst buffer_body.simps) (simp add: Let_def)
  ultimately show ?thesis using b by (intro exI [of _ "cs @ [b]"]) simp
qed

lemma buffer_body_exceeds:
  assumes "\<forall>k < n. \<not> is_last (recv k)" "limit < length (sent recv (Suc n))"
  shows "\<exists>t. buffer_body recv limit 0 [] 0 = Some (Inl t)"
proof -
  define m where "m = (LEAST m. limit < length (sent recv (Suc m)))"
  have m: "limit < length (sent recv (Suc m))" "m \<le> n" using assms(2) unfolding m_def by (rule LeastI, rule Least_le)
  have le: "length (sent recv m) \<le> limit"
  proof (cases m)
    case (Suc j)
    then have "j < m" by simp
    then have "\<not> limit < length (sent recv (Suc j))" unfolding m_def by (rule not_less_Least)
    then show ?thesis using Suc by (simp only: not_less)
  qed simp
  obtain cs where "buffer_body recv limit 0 [] 0 = buffer_body recv limit m cs (length (sent recv m))"
    using buffer_body_go [of m recv limit] assms(1) m(2) le by auto
  moreover have "\<exists>t. buffer_body recv limit m cs (length (sent recv m)) = Some (Inl t)"
    using m(1) le by (subst buffer_body.simps) (cases "recv m"; simp add: Let_def)
  ultimately show ?thesis by simp
qed

text \<open>The loop returns only at a last message or when the limit is exceeded.\<close>

definition received :: "receive \<Rightarrow> nat \<Rightarrow> nat \<Rightarrow> nat" where
  "received recv i n = length (concat (map (\<lambda>k. msg_bytes (recv k)) [i..<n]))"

lemma received_Cons: "i < n \<Longrightarrow> received recv i n = length (msg_bytes (recv i)) + received recv (Suc i) n"
  by (simp add: received_def upt_conv_Cons)

lemma buffer_body_returns:
  assumes "buffer_body recv limit i cs sz = Some r"
  shows "\<exists>n \<ge> i. is_last (recv n) \<or> limit < sz + received recv i (Suc n)"
proof (rule buffer_body.raw_induct
    [where P = "\<lambda>recv limit i cs sz r. \<exists>n \<ge> i. is_last (recv n) \<or> limit < sz + received recv i (Suc n)", OF _ assms])
  fix f recv limit i cs sz r
  assume IH: "\<And>recv limit i cs sz r. f recv limit i cs sz = Some r \<Longrightarrow> \<exists>n \<ge> i. is_last (recv n) \<or> limit < sz + received recv i (Suc n)"
    and st: "(case recv i of
        HttpRequest chunk again \<Rightarrow>
          (let total' = sz + length chunk
           in if limit < total' then Some (Inl total')
              else if again then f recv limit (Suc i) (cs @ [chunk]) total'
              else Some (Inr (cs @ [chunk], Suc i)))
      | HttpDisconnect \<Rightarrow> f recv limit (Suc i) cs sz) = Some r"
  have go: "\<exists>n \<ge> i. is_last (recv n) \<or> limit < sz + received recv i (Suc n)"
    if f: "f recv limit (Suc i) cs' (sz + length (msg_bytes (recv i))) = Some r" for cs'
  proof -
    obtain n where n: "n \<ge> Suc i" "is_last (recv n) \<or> limit < sz + length (msg_bytes (recv i)) + received recv (Suc i) (Suc n)"
      using IH [OF f] by blast
    then have "received recv i (Suc n) = length (msg_bytes (recv i)) + received recv (Suc i) (Suc n)" by (intro received_Cons) simp
    then show ?thesis using n by (intro exI [of _ n]) auto
  qed
  show "\<exists>n \<ge> i. is_last (recv n) \<or> limit < sz + received recv i (Suc n)"
  proof (cases "recv i")
    case HttpDisconnect
    then show ?thesis using go [of cs] st by simp
  next
    case (HttpRequest b m)
    show ?thesis
    proof (cases "limit < sz + length b \<or> \<not> m")
      case True
      then show ?thesis using HttpRequest by (intro exI [of _ i]) (auto simp: received_def)
    next
      case False
      then show ?thesis using go [of "cs @ [b]"] st HttpRequest by (simp add: Let_def)
    qed
  qed
qed

section \<open>Nesting\<close>

text \<open>The reference definition: the number of containers around the deepest value.\<close>

fun nesting :: "pyval \<Rightarrow> nat" where
  "nesting (PDict d) = Max (insert 0 (set (map (\<lambda>kv. Suc (nesting (snd kv))) d)))"
| "nesting (PList vs) = Max (insert 0 (set (map (\<lambda>v. Suc (nesting v)) vs)))"
| "nesting PNone = 0"
| "nesting (PBool b) = 0"
| "nesting (PInt i) = 0"
| "nesting (PStr s) = 0"
| "nesting (PObj c s) = 0"

lemma less_int_Max:
  assumes "finite A" "A \<noteq> {}"
  shows "m < cur + int (Max A) \<longleftrightarrow> (\<exists>x \<in> A. m < cur + int x)"
proof
  assume "\<exists>x \<in> A. m < cur + int x"
  then obtain x where "x \<in> A" "m < cur + int x" by blast
  moreover from this assms have "x \<le> Max A" by simp
  ultimately show "m < cur + int (Max A)" by linarith
qed (use assms Max_in in blast)

lemma check_json_depth_nesting: "check_json_depth v m cur \<longleftrightarrow> m < cur + int (nesting v)"
proof (induction v m cur rule: check_json_depth.induct)
  case (1 d m cur)
  have "m < cur + int (nesting (PDict d)) \<longleftrightarrow> m < cur \<or> (\<exists>kv \<in> set d. m < cur + 1 + int (nesting (snd kv)))"
    unfolding nesting.simps by (subst less_int_Max) (auto simp: algebra_simps)
  then show ?case using 1 by (auto simp: list_ex_iff simp del: nesting.simps)
next
  case (2 vs m cur)
  have "m < cur + int (nesting (PList vs)) \<longleftrightarrow> m < cur \<or> (\<exists>v \<in> set vs. m < cur + 1 + int (nesting v))"
    unfolding nesting.simps by (subst less_int_Max) (auto simp: algebra_simps)
  then show ?case using 2 by (auto simp: list_ex_iff simp del: nesting.simps)
qed simp_all

section \<open>Theorems\<close>

definition carries_body :: "PayloadLimitsConfig \<Rightarrow> scope \<Rightarrow> bool" where
  "carries_body cfg sc \<longleftrightarrow> sc_type sc = ''http'' \<and> pl_enabled cfg \<and>
     map upper_char (sc_method sc) \<notin> {''GET'', ''HEAD'', ''OPTIONS'', ''DELETE''}"

text \<open>
  C21: A complete body is checked and then replayed unchanged: when the client ends its body with
  message \<open>n\<close>, the layer answers 413 exactly when the whole body is larger than the limit, 400
  exactly when it is JSON nested deeper than the limit, and otherwise the application receives
  the very same bytes in one message, followed by the messages after the body.
\<close>

theorem complete_body_is_checked_and_replayed:
  fixes recv :: receive
  assumes "carries_body cfg sc" "body_ends recv n"
  defines "b \<equiv> sent recv (Suc n)"
  defines "replay \<equiv> replay_receive b recv (Suc n)"
  shows "payload_limits cfg loads sc recv = Some
      (if max_body_bytes cfg < length b then Respond 413
       else if b \<noteq> [] \<and> is_json_content sc
       then (case loads b of
               Inl e \<Rightarrow> if malformed e then Forward replay else Raise e
             | Inr v \<Rightarrow> if max_json_depth cfg < int (nesting v) then Respond 400 else Forward replay)
       else Forward replay) \<and>
    body_ends replay 0 \<and> sent replay (Suc 0) = b \<and> (\<forall>k. replay (Suc k) = recv (Suc n + k))"
proof (intro conjI allI)
  show "body_ends replay 0" "sent replay (Suc 0) = b" "replay (Suc k) = recv (Suc n + k)" for k
    by (simp_all add: replay_def replay_receive_def body_ends_def)
  have c: "\<not> (sc_type sc \<noteq> ''http'' \<or> \<not> pl_enabled cfg)" "map upper_char (sc_method sc) \<notin> {''GET'', ''HEAD'', ''OPTIONS'', ''DELETE''}"
    using assms(1) unfolding carries_body_def by (simp, elim conjE)
  note eq = payload_limits_def [of cfg loads sc recv, unfolded if_not_P [OF c(1)] if_not_P [OF c(2)]]
  show "payload_limits cfg loads sc recv = Some
      (if max_body_bytes cfg < length b then Respond 413
       else if b \<noteq> [] \<and> is_json_content sc
       then (case loads b of
               Inl e \<Rightarrow> if malformed e then Forward replay else Raise e
             | Inr v \<Rightarrow> if max_json_depth cfg < int (nesting v) then Respond 400 else Forward replay)
       else Forward replay)"
  proof (cases "max_body_bytes cfg < length b")
    case True
    then obtain t where "buffer_body recv (max_body_bytes cfg) 0 [] 0 = Some (Inl t)"
      using buffer_body_exceeds [of n recv] assms(2) unfolding b_def body_ends_def by blast
    then show ?thesis using True by (simp add: eq)
  next
    case False
    then obtain cs where "concat cs = b" "buffer_body recv (max_body_bytes cfg) 0 [] 0 = Some (Inr (cs, Suc n))"
      using buffer_body_ends [OF assms(2), of "max_body_bytes cfg"] unfolding b_def by auto
    then show ?thesis using False
      by (auto simp: eq Let_def replay_def check_json_depth_nesting split: sum.split)
  qed
qed

definition ex_scope :: "string \<Rightarrow> scope" where
  "ex_scope m = \<lparr>sc_type = ''http'', sc_method = m, sc_path = ''/mcp'', sc_headers = [(''content-type'', ''application/json'')]\<rparr>"

definition ex_limits_conf :: PayloadLimitsConfig where
  "ex_limits_conf = \<lparr>pl_enabled = True, max_body_bytes = 1024, max_json_depth = 1\<rparr>"

definition ex_receive :: receive where
  "ex_receive n = (if n = 0 then HttpRequest ''[['' True else if n = 1 then HttpRequest '']]'' False else HttpDisconnect)"

theorem complete_body_is_checked_and_replayed_witness:
  "payload_limits ex_limits_conf (\<lambda>s. Inr (PList [PList [PInt 1]])) (ex_scope ''post'') ex_receive = Some (Respond 400) \<and>
   sent ex_receive 2 = ''[[]]''"
proof -
  have c: "carries_body ex_limits_conf (ex_scope ''post'')" by code_simp
  have e: "body_ends ex_receive 1" by (simp add: body_ends_def ex_receive_def)
  have s: "sent ex_receive (Suc 1) = ''[[]]''" "is_json_content (ex_scope ''post'')" by code_simp+
  from complete_body_is_checked_and_replayed [OF c e, of "\<lambda>s. Inr (PList [PList [PInt 1]])"] show ?thesis
    unfolding s(1) using s by (simp add: ex_limits_conf_def numeral_2_eq_2)
qed

text \<open>
  A client that disconnects before its body is complete leaves the layer in its loop: the
  disconnect message is not looked at, so that the call never returns, although every call of
  \<open>receive\<close> does.
\<close>

theorem disconnect_during_body_never_returns:
  fixes recv :: receive
  assumes "carries_body cfg sc" "\<forall>k < n. \<not> is_last (recv k)" "\<forall>k \<ge> n. recv k = HttpDisconnect"
    and "length (sent recv n) \<le> max_body_bytes cfg"
  shows "payload_limits cfg loads sc recv = None"
proof -
  have rec: "received recv 0 m = length (sent recv m)" for m by (simp add: received_def sent_def)
  have flat: "length (sent recv m) \<le> length (sent recv n)" for m
  proof (cases "m \<le> n")
    case False
    then have "n \<le> m" by simp
    then show ?thesis by (induction m rule: dec_induct) (simp_all add: assms(3))
  qed (rule sent_mono)
  have "buffer_body recv (max_body_bytes cfg) 0 [] 0 = None"
  proof (rule ccontr)
    assume "buffer_body recv (max_body_bytes cfg) 0 [] 0 \<noteq> None"
    then obtain m where "is_last (recv m) \<or> max_body_bytes cfg < 0 + received recv 0 (Suc m)"
      using buffer_body_returns [of recv "max_body_bytes cfg" 0 "[]" 0] by blast
    moreover have "\<not> is_last (recv m)" using assms(2,3) by (cases "m < n") auto
    moreover have "received recv 0 (Suc m) \<le> max_body_bytes cfg" unfolding rec using flat [of "Suc m"] assms(4) by (rule le_trans)
    ultimately show False by simp
  qed
  then show ?thesis using assms(1) unfolding payload_limits_def carries_body_def by simp
qed

theorem disconnect_during_body_never_returns_witness:
  "payload_limits ex_limits_conf (\<lambda>s. Inr PNone) (ex_scope ''post'') (\<lambda>n. if n = 0 then HttpRequest ''[['' True else HttpDisconnect) = None"
proof -
  have c: "carries_body ex_limits_conf (ex_scope ''post'')" by code_simp
  show ?thesis by (rule disconnect_during_body_never_returns [OF c, of 1]) (simp_all add: ex_limits_conf_def)
qed

text \<open>Host names and ports as they stand in an origin.\<close>

definition host_char :: "char \<Rightarrow> bool" where
  "host_char c \<longleftrightarrow> 97 \<le> code c \<and> code c \<le> 122 \<or> 65 \<le> code c \<and> code c \<le> 90 \<or> is_digit c \<or> c = CHR ''-'' \<or> c = CHR ''.''"

definition letter :: "char \<Rightarrow> bool" where
  "letter c \<longleftrightarrow> 97 \<le> code c \<and> code c \<le> 122 \<or> 65 \<le> code c \<and> code c \<le> 90"

definition port_text :: "string \<Rightarrow> bool" where
  "port_text p \<longleftrightarrow> p = [] \<or> (hd p = CHR '':'' \<and> list_all is_digit (tl p))"

lemma code_char [simp]: "code (char_of n) = n mod 256" "code c < 256"
  by (simp_all add: code_def)

lemma code_literals [simp]:
  "code (CHR ''-'') = 45" "code (CHR ''.'') = 46" "code (CHR '':'') = 58" "code (CHR ''/'') = 47" "code (CHR ''?'') = 63"
  "code (CHR ''#'') = 35" "code (CHR ''@'') = 64" "code (CHR ''['') = 91" "code (CHR '']'') = 93" "code (CHR ''%'') = 37"
  "code (CHR ''+'') = 43"
  by (simp_all add: code_def)

lemma char_classes:
  "host_char c \<Longrightarrow> host_char (lower_char c)" "letter c \<Longrightarrow> letter (lower_char c)" "is_digit c \<Longrightarrow> lower_char c = c"
  by (auto simp: host_char_def letter_def lower_char_def is_digit_def)

lemma char_exclusions:
  "host_char c \<or> letter c \<Longrightarrow> 32 < code c \<and> c \<notin> {CHR ''/'', CHR ''?'', CHR ''#'', CHR ''@'', CHR ''['', CHR '']'', CHR '':'', CHR ''%''}"
  "is_digit c \<Longrightarrow> 32 < code c \<and> c \<notin> {CHR ''/'', CHR ''?'', CHR ''#'', CHR ''@'', CHR ''['', CHR '']'', CHR '':'', CHR ''%''}"
  by (auto simp: host_char_def letter_def is_digit_def)

lemma port_chars: "port_text p \<Longrightarrow> c \<in> set p \<Longrightarrow> 32 < code c \<and> c \<notin> {CHR ''/'', CHR ''?'', CHR ''#'', CHR ''@'', CHR ''['', CHR '']'', CHR ''%''}"
proof (cases p)
  case (Cons x xs)
  assume "port_text p" "c \<in> set p"
  then have "c = CHR '':'' \<or> is_digit c" using Cons by (auto simp: port_text_def list_all_iff)
  then show ?thesis using char_exclusions(2) [of c] by auto
qed simp

lemma takeWhile_all: "(\<And>c. c \<in> set s \<Longrightarrow> P c) \<Longrightarrow> takeWhile P s = s" "(\<And>c. c \<in> set s \<Longrightarrow> P c) \<Longrightarrow> dropWhile P s = []"
  by (simp_all add: takeWhile_eq_all_conv)

lemma hostname_of_origin:
  assumes "scheme \<noteq> []" "list_all letter scheme" "list_all host_char host" "port_text port"
  shows "url_hostname ipv6 (scheme @ ''://'' @ host @ port) = Some (str_lower host)"
proof -
  let ?o = "scheme @ ''://'' @ host @ port"
  have sc: "c \<in> set scheme \<Longrightarrow> 32 < code c \<and> c \<noteq> CHR '':'' \<and> scheme_char c" for c
    using assms(2) char_exclusions(1) [of c] by (auto simp: list_all_iff letter_def scheme_char_def)
  have ho: "c \<in> set host \<Longrightarrow> 32 < code c \<and> c \<notin> {CHR ''/'', CHR ''?'', CHR ''#'', CHR ''@'', CHR ''['', CHR '']'', CHR '':'', CHR ''%''}" for c
    using assms(3) char_exclusions(1) [of c] by (auto simp: list_all_iff)
  note po = port_chars [OF assms(4)]
  obtain x xs where x: "scheme = x # xs" using assms(1) by (cases scheme) auto
  have big: "c \<in> set ?o \<Longrightarrow> 32 < code c" for c using sc ho po by auto
  have clean: "filter (\<lambda>c. code c \<notin> {9, 10, 13}) (dropWhile (\<lambda>c. code c \<le> 32) ?o) = ?o"
  proof -
    have "dropWhile (\<lambda>c. code c \<le> 32) ?o = ?o" using big [of x] by (simp add: x)
    moreover have "filter (\<lambda>c. code c \<notin> {9, 10, 13}) ?o = ?o" by (rule filter_True) (use big in fastforce)
    ultimately show ?thesis by simp
  qed
  have tw: "takeWhile (\<lambda>c. c \<noteq> CHR '':'') ?o = scheme" using sc by (subst takeWhile_append2) auto
  have "letter x" using assms(2) by (simp add: x)
  then have "\<not> is_digit x \<and> x \<notin> {CHR ''+'', CHR ''-'', CHR ''.''}" by (auto simp: letter_def is_digit_def)
  then have scheme: "drop_scheme ?o = ''//'' @ host @ port"
    unfolding drop_scheme_def Let_def tw using sc x by (auto simp: list_all_iff)
  have "takeWhile (\<lambda>c. c \<notin> {CHR ''/'', CHR ''?'', CHR ''#''}) (host @ port) = host @ port"
    by (rule takeWhile_all) (use ho po in auto)
  then have netloc: "url_netloc ?o = host @ port"
    unfolding url_netloc_def Let_def clean scheme by (simp add: starts_with_def)
  have info: "rpartition_tail (CHR ''@'') (host @ port) = host @ port"
    unfolding rpartition_tail_def by (subst takeWhile_all) (use ho po in auto)
  have br: "CHR ''['' \<notin> set (host @ port)" "CHR '']'' \<notin> set (host @ port)" using ho po by auto
  have "takeWhile (\<lambda>c. c \<noteq> CHR '':'') (host @ port) = host @ takeWhile (\<lambda>c. c \<noteq> CHR '':'') port"
    using ho by (intro takeWhile_append2) auto
  also have "takeWhile (\<lambda>c. c \<noteq> CHR '':'') port = []" using assms(4) by (cases port) (auto simp: port_text_def)
  finally have host: "fst (partition_at (CHR '':'') (host @ port)) = host" by (simp add: partition_at_def)
  have pc: "takeWhile (\<lambda>c. c \<noteq> CHR ''%'') host = host" "dropWhile (\<lambda>c. c \<noteq> CHR ''%'') host = []"
    by (rule takeWhile_all; use ho in auto)+
  show ?thesis unfolding url_hostname_def Let_def netloc info using br by (simp add: host pc del: dropWhile_eq_Nil_conv takeWhile_eq_all_conv)
qed

lemma str_lower_append: "str_lower (a @ b) = str_lower a @ str_lower b"
  by (simp add: str_lower_def)

lemma str_lower_idem: "list_all host_char s \<Longrightarrow> str_lower (str_lower s) = str_lower s"
  by (auto simp: str_lower_def list_all_iff host_char_def lower_char_def is_digit_def)

text \<open>
  Origins that are not allowed do not get through: a request for an MCP path with the origin
  \<open>scheme://host[:port]\<close> reaches the application exactly when the host is a local one, when the
  wildcard is configured or when this origin is, all without regard to case; a name that only
  begins with a local name, or carries it elsewhere, is not local.
\<close>

theorem only_allowed_origins_pass:
  fixes scheme host port :: string and sc :: scope
  assumes "sc_type sc = ''http''" "list_ex (\<lambda>p. starts_with p (sc_path sc)) MCP_PATH_PREFIXES"
    and "first_header ''origin'' (sc_headers sc) = Some (scheme @ ''://'' @ host @ port)"
    and "scheme \<noteq> []" "list_all letter scheme" "list_all host_char host" "port_text port"
  shows "origin_validation ipv6 (new_origin_validation env mode) sc recv =
    (if str_lower host \<in> {''localhost'', ''127.0.0.1''} \<or> ''*'' \<in> parse_allowed_origins env \<or>
        str_lower (scheme @ ''://'' @ host @ port) \<in> parse_allowed_origins env
     then Forward recv else Respond 403)"
proof -
  let ?o = "scheme @ ''://'' @ host @ port"
  have port: "str_lower port = port" using assms(7)
    by (cases port) (auto simp: port_text_def str_lower_def list_all_iff char_classes(3) lower_char_def [of "CHR '':''"] intro: map_idI)
  have sep: "str_lower ''://'' = ''://''" by code_simp
  have low: "str_lower ?o = str_lower scheme @ ''://'' @ str_lower host @ port" unfolding str_lower_append port sep ..
  have "url_hostname ipv6 (str_lower ?o) = Some (str_lower (str_lower host))"
    unfolding low by (rule hostname_of_origin)
      (use assms(4-7) in \<open>auto simp: str_lower_def list_all_iff char_classes\<close>)
  moreover have "str_lower host \<notin> {''::1'', ''[::1]''}"
  proof
    assume "str_lower host \<in> {''::1'', ''[::1]''}"
    then have "CHR '':'' \<in> set (str_lower host)" by auto
    then obtain c where "c \<in> set host" "lower_char c = CHR '':''" by (auto simp: str_lower_def)
    then show False using assms(6) char_classes(1) [of c] char_exclusions(1) [of "CHR '':''"] by (auto simp: list_all_iff)
  qed
  ultimately have loc: "is_localhost_origin ipv6 (str_lower ?o) \<longleftrightarrow> str_lower host \<in> {''localhost'', ''127.0.0.1''}"
    using str_lower_idem [OF assms(6)] by (auto simp: is_localhost_origin_def LOCALHOST_HOSTS_def)
  have "?o \<noteq> []" using assms(4) by simp
  then show ?thesis using assms(1-3) loc
    unfolding origin_validation_def Let_def new_origin_validation_def by simp
qed

definition ex_mcp :: "string \<Rightarrow> scope" where
  "ex_mcp origin = \<lparr>sc_type = ''http'', sc_method = ''POST'', sc_path = ''/mcp'', sc_headers = [(''origin'', origin)]\<rparr>"

theorem only_allowed_origins_pass_witness:
  "origin_validation (\<lambda>s. False) (new_origin_validation (Some ''https://app.example:8443'') ''strict'')
     (ex_mcp ''http://localhost.evil.com:80'') (\<lambda>n. HttpDisconnect) = Respond 403"
proof -
  have a: "sc_type (ex_mcp ''http://localhost.evil.com:80'') = ''http''" by (simp add: ex_mcp_def)
  have b: "list_ex (\<lambda>p. starts_with p (sc_path (ex_mcp ''http://localhost.evil.com:80''))) MCP_PATH_PREFIXES" by code_simp
  have c: "first_header ''origin'' (sc_headers (ex_mcp ''http://localhost.evil.com:80'')) = Some (''http'' @ ''://'' @ ''localhost.evil.com'' @ '':80'')"
    by (simp add: first_header_def ex_mcp_def)
  have d: "list_all letter ''http''" "list_all host_char ''localhost.evil.com''" "port_text '':80''" by code_simp+
  have e: "parse_allowed_origins (Some ''https://app.example:8443'') = {''https://app.example:8443''}" by code_simp
  have f: "str_lower ''localhost.evil.com'' = ''localhost.evil.com''" "str_lower (''http'' @ ''://'' @ ''localhost.evil.com'' @ '':80'') = ''http://localhost.evil.com:80''"
    by code_simp+
  show ?thesis
    using only_allowed_origins_pass [OF a b c _ d, of "\<lambda>s. False" "Some ''https://app.example:8443''" "''strict''" "\<lambda>n. HttpDisconnect"]
    unfolding e f by simp
qed

end
