(* ===== verification/Management_Api.thy ===== *)
theory Management_Api
  imports Service_Properties Health_Checker Handlers Client_Sessions Skills Http_Guards
begin

text \<open>
  The management API: \<open>server/management/auth.py\<close>, \<open>server/management/__init__.py\<close> and the handlers of
  \<open>server/management/router.py\<close> over the service, the sessions and the skills.

  The record \<open>mgmt\<close> has the token of the middleware and what the handlers reach through
  \<open>app.state\<close> and the server state. A response is its status and body; an exception that leaves a
  handler is the left injection. Matching a path with the routes is done by Starlette, an
  argument with the laws of the locale \<open>router\<close>. Reading the request body, the pydantic check of
  the shutdown request, the calls of a backend and of a catalogue are arguments.
\<close>

section \<open>Tokens\<close>

definition KNOWN_PLACEHOLDERS :: "string list" where
  "KNOWN_PLACEHOLDERS = [''my-secret-token'', ''changeme'', ''changeme-changeme'', ''secret'', ''password'', ''token'', ''replace-me'', ''your-token-here'']"

definition MIN_TOKEN_LENGTH :: nat where
  "MIN_TOKEN_LENGTH = 16"

definition validate_token_entropy :: "bool \<Rightarrow> string option \<Rightarrow> string option res" where
  "validate_token_entropy allow_weak token =
     (case token of
        None \<Rightarrow> Inr None
      | Some t \<Rightarrow>
          if str_strip t = [] then Inr None
          else if str_lower t \<in> set KNOWN_PLACEHOLDERS then Inl (ValueError ''Refusing to use a known placeholder token.'')
          else if \<not> allow_weak \<and> length t < MIN_TOKEN_LENGTH then Inl (ValueError ''Management API token is too short'')
          else Inr (Some t))"

text \<open>\<open>env_token\<close> is the value of \<open>ARGUS_MGMT_TOKEN\<close>.\<close>

definition resolve_mgmt_token :: "string option \<Rightarrow> string option \<Rightarrow> string option" where
  "resolve_mgmt_token env_token config_token =
     (let e = str_strip (case env_token of None \<Rightarrow> [] | Some t \<Rightarrow> t)
      in if e \<noteq> [] then Some e
         else case config_token of
                None \<Rightarrow> None
              | Some c \<Rightarrow> if str_strip c \<noteq> [] then Some (str_strip c) else None)"

definition create_management_app :: "string option \<Rightarrow> string option \<Rightarrow> bool \<Rightarrow> string option res" where
  "create_management_app env_token config_token allow_weak_tokens =
     validate_token_entropy allow_weak_tokens (resolve_mgmt_token env_token config_token)"

text \<open>The application is created without a config token; the token of the config file is applied at startup.\<close>

definition attach_token :: "string option \<Rightarrow> string option \<Rightarrow> string option" where
  "attach_token token cfg_token =
     (case (token, cfg_token) of (None, Some c) \<Rightarrow> if c \<noteq> [] then Some c else None | _ \<Rightarrow> token)"

definition startup_token :: "string option \<Rightarrow> string option \<Rightarrow> string option res" where
  "startup_token env_token cfg_token = map_sum id (\<lambda>t. attach_token t cfg_token) (create_management_app env_token None False)"

section \<open>The bearer check\<close>

definition public_path :: "string \<Rightarrow> bool" where
  "public_path path = (let stripped = rstrip_by (\<lambda>c. c = CHR ''/'') path in ends_with ''/health'' stripped \<or> ends_with ''/ready'' stripped)"

text \<open>\<open>hmac.compare_digest\<close> raises on texts that are not ASCII; nothing in the middleware catches that.\<close>

datatype auth_verdict = Pass | Unauthorized string | CheckRaised exn

definition bearer_auth :: "string option \<Rightarrow> scope \<Rightarrow> auth_verdict" where
  "bearer_auth token sc =
     (if sc_type sc \<noteq> ''http'' then Pass
      else if public_path (sc_path sc) then Pass
      else case token of
             None \<Rightarrow> Pass
           | Some tok \<Rightarrow>
               (let auth_header = (case first_header ''authorization'' (sc_headers sc) of None \<Rightarrow> [] | Some v \<Rightarrow> v)
                in if \<not> starts_with ''Bearer '' auth_header
                   then Unauthorized ''Missing or malformed Authorization header. Expected: Bearer <token>''
                   else case compare_digest (drop 7 auth_header) tok of
                          Inl e \<Rightarrow> CheckRaised e
                        | Inr ok \<Rightarrow> if \<not> ok then Unauthorized ''Invalid bearer token.'' else Pass))"

section \<open>Routes\<close>

datatype endpoint = Health | Ready | Status | Backends | Groups | Capabilities | Sessions | Events | EventsStream | Batch
  | Reload | Reconnect | Reauth | Shutdown | RegistrySearch | SkillsList | SkillsEnable | SkillsDisable | ToolsCall | ResourcesRead

datatype segment = Lit string | Name

datatype meth = GET | POST | OtherMethod string

definition management_routes :: "(segment list \<times> endpoint \<times> meth) list" where
  "management_routes =
     [([Lit ''health''], Health, GET), ([Lit ''ready''], Ready, GET), ([Lit ''status''], Status, GET), ([Lit ''backends''], Backends, GET),
      ([Lit ''groups''], Groups, GET), ([Lit ''capabilities''], Capabilities, GET), ([Lit ''sessions''], Sessions, GET),
      ([Lit ''events''], Events, GET), ([Lit ''events'', Lit ''stream''], EventsStream, GET), ([Lit ''batch''], Batch, GET),
      ([Lit ''reload''], Reload, POST), ([Lit ''reconnect'', Name], Reconnect, POST), ([Lit ''reauth'', Name], Reauth, POST),
      ([Lit ''shutdown''], Shutdown, POST), ([Lit ''registry'', Lit ''search''], RegistrySearch, GET), ([Lit ''skills''], SkillsList, GET),
      ([Lit ''skills'', Name, Lit ''enable''], SkillsEnable, POST), ([Lit ''skills'', Name, Lit ''disable''], SkillsDisable, POST),
      ([Lit ''tools'', Lit ''call''], ToolsCall, POST), ([Lit ''resources'', Lit ''read''], ResourcesRead, POST)]"

text \<open>The path of a pattern with a value for its placeholder.\<close>

definition route_path :: "segment list \<Rightarrow> string \<Rightarrow> string" where
  "route_path segs name = concat (map (\<lambda>s. CHR ''/'' # (case s of Lit l \<Rightarrow> l | Name \<Rightarrow> name)) segs)"

definition path_value :: "segment list \<Rightarrow> string \<Rightarrow> bool" where
  "path_value segs name \<longleftrightarrow> (if Name \<in> set segs then name \<noteq> [] \<and> CHR ''/'' \<notin> set name else name = [])"

datatype routed = Found endpoint string | NoRoute int

type_synonym dispatcher = "(segment list \<times> endpoint \<times> meth) list \<Rightarrow> meth \<Rightarrow> string \<Rightarrow> routed"

text \<open>At most one placeholder, and literals without slashes.\<close>

fun good_route :: "segment list \<Rightarrow> bool" where
  "good_route [] = True"
| "good_route (Lit l # ss) = (CHR ''/'' \<notin> set l \<and> good_route ss)"
| "good_route (Name # ss) = (Name \<notin> set ss \<and> good_route ss)"

text \<open>A route serves the paths of its pattern, where a placeholder stands for one non-empty segment.\<close>

locale router =
  fixes route :: dispatcher
  assumes found: "(\<And>segs ep m. (segs, ep, m) \<in> set rs \<Longrightarrow> segs \<noteq> [] \<and> good_route segs) \<Longrightarrow> route rs m path = Found ep name \<Longrightarrow>
      \<exists>segs meth. (segs, ep, meth) \<in> set rs \<and> path = route_path segs name \<and> path_value segs name"
    and serves: "(\<And>segs ep m. (segs, ep, m) \<in> set rs \<Longrightarrow> segs \<noteq> [] \<and> good_route segs) \<Longrightarrow>
      (segs, ep, m) \<in> set rs \<Longrightarrow> path_value segs name \<Longrightarrow>
      (\<And>segs' ep' m' name'. (segs', ep', m') \<in> set rs \<Longrightarrow> path_value segs' name' \<Longrightarrow> route_path segs' name' = route_path segs name \<Longrightarrow>
        ep' = ep \<and> name' = name) \<Longrightarrow>
      route rs m (route_path segs name) = Found ep name"

section \<open>State, requests, responses\<close>

record mgmt =
  mg_token :: "string option"
  mg_service :: "ArgusService option"
  mg_health :: "(string, BackendHealth) dict"
  mg_sessions :: "SessionManager option"
  mg_skills :: "skill_state option"
  mg_optimizer :: bool
  mg_keep_list :: "string list"
  mg_flags :: "(string, bool) dict option"
  mg_host :: string
  mg_port :: int
  mg_redact :: bool
  mg_shutdowns :: "int list"

record status_response =
  sr_name :: string
  sr_version :: string
  sr_state :: string
  sr_uptime :: "rat option"
  sr_started_at :: "rat option"
  sr_file_path :: "string option"
  sr_backend_count :: nat
  sr_sse_url :: string
  sr_streamable_http_url :: string
  sr_host :: string
  sr_port :: int
  sr_flags :: "(string, bool) dict"

record BackendDetail =
  bd_name :: string
  bd_type :: pyval
  bd_group :: string
  bd_phase :: string
  bd_connected :: bool
  bd_error :: "string option"
  bd_tools :: nat
  bd_resources :: nat
  bd_prompts :: nat
  bd_health :: string
  bd_conditions :: "BackendCondition list"

text \<open>\<open>ToolDetail\<close>, \<open>ResourceDetail\<close> and \<open>PromptDetail\<close>: exposed name, original name, description, backend.\<close>

record cap_detail =
  cd_name :: string
  cd_original :: string
  cd_description :: string
  cd_backend :: string

record CapabilitiesResponse =
  cp_tools :: "cap_detail list"
  cp_resources :: "cap_detail list"
  cp_prompts :: "cap_detail list"
  cp_route_map :: routes
  cp_optimizer_active :: bool
  cp_visible_tools :: nat

datatype body =
    ErrorResponse string string
  | HealthResponse string "rat option" nat nat nat
  | ReadyResponse bool string
  | StatusResponse status_response
  | BackendsResponse "BackendDetail list"
  | GroupsResponse "(string, string list \<times> nat) dict" nat nat
  | CapabilitiesBody CapabilitiesResponse
  | EventsResponse "event list"
  | EventStream nat
  | BatchResponse status_response "BackendDetail list" CapabilitiesResponse "event list"
  | ReloadResponse reload_result
  | ReconnectResponse reconnect_result
  | ReAuthResponse string bool "string option"
  | ShutdownResponse
  | SessionsResponse nat "session_summary list"
  | RegistrySearchResponse "pyval list" string nat
  | SkillsListResponse "InstalledSkill list"
  | SkillActionResponse string string
  | ToolResult string string "(string \<times> string) list" bool
  | ResourceResult string string "(string \<times> string) list"
  | Unmatched

datatype response = Response (rs_status: int) (rs_body: body)

type_synonym handled = "mgmt \<times> (base_exn + response)"

record request =
  rq_scope :: scope
  rq_method :: meth
  rq_query :: "(string, string) dict"
  rq_json :: "pyval res"

text \<open>What the handlers meet: clocks, the environments of the service's operations, foreign calls.\<close>

record mgmt_env =
  me_now :: rat
  me_mono :: rat
  me_reload :: reload_env
  me_reconnect :: reconnect_env
  me_reauth :: "unit res option"
  me_shutdown_request :: "(string, pyval) dict \<Rightarrow> int res"
  me_call_tool :: "nat \<Rightarrow> string \<Rightarrow> (string, pyval) dict \<Rightarrow> ((string \<times> string) list \<times> bool) res"
  me_read_resource :: "nat \<Rightarrow> string \<Rightarrow> (string \<times> string) list res"
  me_registries :: "(string \<times> string \<times> string) list"
  me_search :: "string \<Rightarrow> string \<Rightarrow> string \<Rightarrow> int \<Rightarrow> pyval list res"
  me_writable :: bool

abbreviation raised :: "exn \<Rightarrow> base_exn" where
  "raised e \<equiv> Exc e 0 []"

definition ok :: "body \<Rightarrow> base_exn + response" where
  "ok b = Inr (Response 200 b)"

definition error_json :: "string \<Rightarrow> string \<Rightarrow> int \<Rightarrow> base_exn + response" where
  "error_json err message status = Inr (Response status (ErrorResponse err message))"

definition get_service :: "mgmt \<Rightarrow> ArgusService res" where
  "get_service mg = (case mg_service mg of None \<Rightarrow> Inl (RuntimeError ''ArgusService not found on app.state'') | Some s \<Rightarrow> Inr s)"

text \<open>A handler that begins with \<open>_get_service\<close>.\<close>

definition with_service :: "mgmt \<Rightarrow> (ArgusService \<Rightarrow> handled) \<Rightarrow> handled" where
  "with_service mg f = (case get_service mg of Inl e \<Rightarrow> (mg, Inl (raised e)) | Inr s \<Rightarrow> f s)"

section \<open>Checks of names and parameters\<close>

definition name_char :: "char \<Rightarrow> bool" where
  "name_char c \<longleftrightarrow> 97 \<le> code c \<and> code c \<le> 122 \<or> 65 \<le> code c \<and> code c \<le> 90 \<or> is_digit c \<or> c \<in> {CHR ''_'', CHR ''-'', CHR ''.''}"

definition newline :: char where
  "newline = CHR 0x0A"

text \<open>\<open>$\<close> also matches before a final newline.\<close>

definition full_match :: "(char \<Rightarrow> bool) \<Rightarrow> string \<Rightarrow> bool" where
  "full_match P s \<longleftrightarrow>
     (s \<noteq> [] \<and> list_all P s) \<or> (1 < length s \<and> last s = newline \<and> list_all P (butlast s))"

definition backend_name_re :: "string \<Rightarrow> bool" where
  "backend_name_re = full_match name_char"

definition safe_query_re :: "string \<Rightarrow> bool" where
  "safe_query_re = full_match (\<lambda>c. name_char c \<or> is_space c \<or> c = CHR ''/'' \<or> c = CHR ''*'')"

definition py_int_of :: "string \<Rightarrow> int option" where
  "py_int_of s =
     (case take_sign (str_strip s) of
        (neg, r) \<Rightarrow>
          (case take_digits r of
             (ds, rest) \<Rightarrow> if ds = [] \<or> rest \<noteq> [] then None else Some (if neg then - int (digits_nat ds) else int (digits_nat ds))))"

definition MGMT_QUERY_PARAM_MAX_LEN :: nat where "MGMT_QUERY_PARAM_MAX_LEN = 255"
definition MGMT_BACKEND_NAME_MAX_LEN :: nat where "MGMT_BACKEND_NAME_MAX_LEN = 255"
definition MGMT_EVENTS_LIMIT_MIN :: int where "MGMT_EVENTS_LIMIT_MIN = 1"
definition MGMT_EVENTS_LIMIT_MAX :: int where "MGMT_EVENTS_LIMIT_MAX = 10000"
definition MGMT_SHUTDOWN_TIMEOUT_MIN :: int where "MGMT_SHUTDOWN_TIMEOUT_MIN = 1"
definition MGMT_SHUTDOWN_TIMEOUT_MAX :: int where "MGMT_SHUTDOWN_TIMEOUT_MAX = 300"

section \<open>Health, readiness, status\<close>

definition uptime :: "rat \<Rightarrow> service_status \<Rightarrow> rat option" where
  "uptime now st = map_option (\<lambda>t. now - t) (ss_started_at st)"

definition SERVER_NAME :: string where "SERVER_NAME = ''Argus MCP''"
definition SERVER_VERSION :: string where "SERVER_VERSION = ''0.8.6''"

definition handle_health :: "mgmt_env \<Rightarrow> mgmt \<Rightarrow> handled" where
  "handle_health env mg = with_service mg (\<lambda>s.
     let st = get_status s;
         health_str = (if ss_connected st = ss_total st \<and> ss_total st > 0 then ''healthy''
                       else if ss_connected st > 0 then ''degraded''
                       else if ss_total st = 0 then ''healthy''
                       else ''unhealthy'');
         healthy_count = (if sv_health_checker s \<noteq> None
                          then length (filter (\<lambda>h. health_state h = HEALTHY) (map snd (mg_health mg)))
                          else ss_connected st)
     in (mg, ok (HealthResponse health_str (uptime (me_now env) st) (ss_total st) (ss_connected st) healthy_count)))"

definition handle_ready :: "mgmt \<Rightarrow> handled" where
  "handle_ready mg = with_service mg (\<lambda>s.
     if sv_ready_event s then (mg, ok (ReadyResponse True ''accepting traffic''))
     else (mg, Inr (Response 503 (ReadyResponse False ''backends not connected''))))"

definition http_url :: "string \<Rightarrow> int \<Rightarrow> string \<Rightarrow> string" where
  "http_url host port path =
     ''http://'' @ host @ '':'' @ show_int port @ path"

definition build_status :: "mgmt_env \<Rightarrow> mgmt \<Rightarrow> ArgusService \<Rightarrow> status_response" where
  "build_status env mg s =
     (let st = get_status s
      in \<lparr>sr_name = SERVER_NAME, sr_version = SERVER_VERSION, sr_state = state_value (ss_state st), sr_uptime = uptime (me_now env) st,
          sr_started_at = ss_started_at st, sr_file_path = ss_config_path st, sr_backend_count = ss_total st,
          sr_sse_url = http_url (mg_host mg) (mg_port mg) ''/sse'',
          sr_streamable_http_url = http_url (mg_host mg) (mg_port mg) ''/mcp'',
          sr_host = mg_host mg, sr_port = mg_port mg, sr_flags = (case mg_flags mg of None \<Rightarrow> [] | Some f \<Rightarrow> f)\<rparr>)"

definition redacted :: string where "redacted = ''[redacted]''"

definition redact_status_response :: "status_response \<Rightarrow> status_response" where
  "redact_status_response r =
     r\<lparr>sr_file_path := Some redacted, sr_host := redacted, sr_port := 0, sr_sse_url := redacted, sr_streamable_http_url := redacted\<rparr>"

definition redact_backends_response :: "BackendDetail list \<Rightarrow> BackendDetail list" where
  "redact_backends_response bs = map (\<lambda>b. b\<lparr>bd_error := None, bd_conditions := []\<rparr>) bs"

definition handle_status :: "mgmt_env \<Rightarrow> mgmt \<Rightarrow> handled" where
  "handle_status env mg = with_service mg (\<lambda>s.
     let r = build_status env mg s in (mg, ok (StatusResponse (if mg_redact mg then redact_status_response r else r))))"

fun health_value :: "HealthState \<Rightarrow> string" where
  "health_value HEALTHY = ''healthy''"
| "health_value HsDEGRADED = ''degraded''"
| "health_value UNHEALTHY = ''unhealthy''"
| "health_value UNKNOWN = ''unknown''"

definition count_by_backend :: "routes \<Rightarrow> cap list \<Rightarrow> string \<Rightarrow> nat" where
  "count_by_backend rm items b = length (filter (\<lambda>c. map_option fst (dict_get rm (cap_name c)) = Some b) items)"

definition backend_detail :: "mgmt \<Rightarrow> ArgusService \<Rightarrow> string \<times> pyval \<times> bool \<Rightarrow> BackendDetail" where
  "backend_detail mg s bi = (case bi of (name, ty, conn) \<Rightarrow>
     let rm = route_map (current_registry s);
         sr = get_status_record name (sv_manager s)
     in \<lparr>bd_name = name, bd_type = ty,
         bd_group = (case sv_group_manager s of None \<Rightarrow> ''default'' | Some gm \<Rightarrow> group_of gm name),
         bd_phase = (case sr of None \<Rightarrow> ''pending'' | Some r \<Rightarrow> phase_value (phase r)),
         bd_connected = conn,
         bd_error = (case sr of None \<Rightarrow> None | Some r \<Rightarrow> rec_error r),
         bd_tools = count_by_backend rm (sv_tools s) name, bd_resources = count_by_backend rm (sv_resources s) name,
         bd_prompts = count_by_backend rm (sv_prompts s) name,
         bd_health = (case (if sv_health_checker s = None then None else dict_get (mg_health mg) name) of
                        Some h \<Rightarrow> health_value (health_state h)
                      | None \<Rightarrow> if conn then ''healthy'' else ''unknown''),
         bd_conditions = (case sr of None \<Rightarrow> [] | Some r \<Rightarrow> rev (last_n 10 (BackendStatusRecord.conditions r)))\<rparr>)"

definition build_backends :: "mgmt \<Rightarrow> ArgusService \<Rightarrow> BackendDetail list" where
  "build_backends mg s = map (backend_detail mg s) (ss_backends (get_status s))"

definition handle_backends :: "mgmt \<Rightarrow> handled" where
  "handle_backends mg = with_service mg (\<lambda>s.
     let r = build_backends mg s in (mg, ok (BackendsResponse (if mg_redact mg then redact_backends_response r else r))))"

definition handle_groups :: "request \<Rightarrow> mgmt \<Rightarrow> handled" where
  "handle_groups rq mg = with_service mg (\<lambda>s.
     let filter_group = dict_get_or [] (rq_query rq) ''group''
     in if filter_group \<noteq> [] \<and> length filter_group > MGMT_QUERY_PARAM_MAX_LEN
        then (mg, error_json ''bad_request'' ''Group name is too long.'' 400)
        else if filter_group \<noteq> [] \<and> \<not> safe_query_re filter_group
        then (mg, error_json ''bad_request'' ''Group name contains invalid characters.'' 400)
        else case sv_group_manager s of
               None \<Rightarrow> (mg, ok (GroupsResponse [] 0 0))
             | Some gm \<Rightarrow>
                 if filter_group \<noteq> []
                 then let servers = sorted_list_of_set (servers_in gm filter_group)
                      in (mg, ok (GroupsResponse [(filter_group, servers, length servers)] (if servers = [] then 0 else 1) (length servers)))
                 else (case groups_to_dict gm of (gs, n, k) \<Rightarrow> (mg, ok (GroupsResponse gs n k))))"

section \<open>Capabilities and events\<close>

definition filter_caps :: "routes \<Rightarrow> string option \<Rightarrow> string option \<Rightarrow> string \<Rightarrow> string \<Rightarrow> cap list \<Rightarrow> cap_detail list" where
  "filter_caps rm filter_type filter_backend filter_search type_name items =
     (if filter_type \<noteq> None \<and> filter_type \<noteq> Some type_name then []
      else let backend = (\<lambda>c. case dict_get rm (cap_name c) of None \<Rightarrow> [] | Some e \<Rightarrow> fst e);
               keep = (\<lambda>c. (case filter_backend of None \<Rightarrow> True | Some b \<Rightarrow> b = [] \<or> backend c = b) \<and>
                          (filter_search = [] \<or> str_contains filter_search (str_lower (cap_name c))))
           in map (\<lambda>c. \<lparr>cd_name = cap_name c,
                        cd_original = (case dict_get rm (cap_name c) of None \<Rightarrow> cap_name c | Some e \<Rightarrow> snd e),
                        cd_description = (case cap_description c of None \<Rightarrow> [] | Some d \<Rightarrow> d), cd_backend = backend c\<rparr>)
                (filter keep items))"

definition build_capabilities :: "mgmt \<Rightarrow> string option \<Rightarrow> string option \<Rightarrow> string \<Rightarrow> ArgusService \<Rightarrow> CapabilitiesResponse" where
  "build_capabilities mg filter_type filter_backend filter_search s =
     (let rm = route_map (current_registry s);
          caps = filter_caps rm filter_type filter_backend filter_search;
          ts = caps ''tools'' (sv_tools s)
      in \<lparr>cp_tools = ts, cp_resources = caps ''resources'' (sv_resources s), cp_prompts = caps ''prompts'' (sv_prompts s),
          cp_route_map = rm, cp_optimizer_active = mg_optimizer mg,
          cp_visible_tools = (if mg_optimizer mg
                              then length META_TOOLS + length (filter (\<lambda>t. cap_name t \<in> set (mg_keep_list mg)) (sv_tools s))
                              else length ts)\<rparr>)"

definition handle_capabilities :: "request \<Rightarrow> mgmt \<Rightarrow> handled" where
  "handle_capabilities rq mg = with_service mg (\<lambda>s.
     let filter_type = dict_get (rq_query rq) ''type'';
         filter_backend = dict_get (rq_query rq) ''backend'';
         filter_search = str_lower (dict_get_or [] (rq_query rq) ''search'');
         too_long = find (\<lambda>(n, v). case v of None \<Rightarrow> False | Some x \<Rightarrow> length x > MGMT_QUERY_PARAM_MAX_LEN)
                      [(''type'', filter_type), (''backend'', filter_backend), (''search'', Some filter_search)]
     in case too_long of
          Some (n, v) \<Rightarrow> (mg, error_json ''bad_request'' (''Query parameter '' @ repr_str n @ '' is too long.'') 400)
        | None \<Rightarrow>
            if filter_backend \<notin> {None, Some []} \<and> \<not> backend_name_re (the filter_backend)
            then (mg, error_json ''bad_request'' ''Backend name contains invalid characters.'' 400)
            else if filter_type \<notin> {None, Some []} \<and> filter_type \<notin> {Some ''tools'', Some ''resources'', Some ''prompts''}
            then (mg, error_json ''bad_request'' ''Type must be one of: tools, resources, prompts.'' 400)
            else (mg, ok (CapabilitiesBody (build_capabilities mg filter_type filter_backend filter_search s))))"

definition handle_events :: "request \<Rightarrow> mgmt \<Rightarrow> handled" where
  "handle_events rq mg = with_service mg (\<lambda>s.
     case py_int_of (dict_get_or ''100'' (rq_query rq) ''limit'') of
       None \<Rightarrow> (mg, error_json ''bad_request'' (repr_str ''limit'' @ '' must be an integer.'') 400)
     | Some limit \<Rightarrow>
         if limit < MGMT_EVENTS_LIMIT_MIN \<or> MGMT_EVENTS_LIMIT_MAX < limit
         then (mg, error_json ''bad_request'' (repr_str ''limit'' @ '' must be between 1 and 10000.'') 400)
         else (mg, ok (EventsResponse (get_events limit (dict_get (rq_query rq) ''since'') (dict_get (rq_query rq) ''severity'') (sv_log s)))))"

definition handle_batch :: "mgmt_env \<Rightarrow> request \<Rightarrow> mgmt \<Rightarrow> handled" where
  "handle_batch env rq mg = with_service mg (\<lambda>s.
     let parsed = (case py_int_of (dict_get_or ''20'' (rq_query rq) ''events_limit'') of None \<Rightarrow> 20 | Some n \<Rightarrow> n);
         limit = max MGMT_EVENTS_LIMIT_MIN (min parsed MGMT_EVENTS_LIMIT_MAX);
         st = build_status env mg s; bs = build_backends mg s
     in (mg, ok (BatchResponse (if mg_redact mg then redact_status_response st else st)
                   (if mg_redact mg then redact_backends_response bs else bs)
                   (build_capabilities mg None None [] s) (get_events limit None None (sv_log s)))))"

text \<open>The stream of events: its queue is subscribed when it starts and unsubscribed when it ends.\<close>

definition handle_events_stream :: "mgmt \<Rightarrow> handled" where
  "handle_events_stream mg = with_service mg (\<lambda>s.
     case subscribe (sv_log s) of (q, l) \<Rightarrow> (mg\<lparr>mg_service := Some (s\<lparr>sv_log := l\<rparr>)\<rparr>, ok (EventStream q)))"

definition end_events_stream :: "nat \<Rightarrow> mgmt \<Rightarrow> mgmt" where
  "end_events_stream q mg =
     (case mg_service mg of None \<Rightarrow> mg | Some s \<Rightarrow> mg\<lparr>mg_service := Some (s\<lparr>sv_log := unsubscribe q (sv_log s)\<rparr>)\<rparr>)"

text \<open>One event of the stream; \<open>data\<close> is its JSON text.\<close>

definition sse_format :: "string \<Rightarrow> string \<Rightarrow> string option \<Rightarrow> string" where
  "sse_format event_type data eid =
     join_with [newline] ([''event: '' @ event_type, ''data: '' @ data] @
       (case eid of None \<Rightarrow> [] | Some i \<Rightarrow> if i = [] then [] else [''id: '' @ i]) @ [[newline]])"

section \<open>Operations on the service\<close>

definition is_running :: "ArgusService \<Rightarrow> bool" where
  "is_running s \<longleftrightarrow> sv_state s = SvcRUNNING"

definition handle_reload :: "mgmt_env \<Rightarrow> mgmt \<Rightarrow> handled" where
  "handle_reload env mg = with_service mg (\<lambda>s.
     if \<not> is_running s then (mg, error_json ''service_unavailable'' ''Service is not running.'' 503)
     else case reload (me_reload env) s of
            (s', Inl e) \<Rightarrow> (mg\<lparr>mg_service := Some s'\<rparr>, Inl e)
          | (s', Inr r) \<Rightarrow> (mg\<lparr>mg_service := Some s'\<rparr>, ok (ReloadResponse r)))"

text \<open>The checks \<open>handle_reconnect\<close> and \<open>handle_reauth\<close> make: the answer of the first that fails.\<close>

definition backend_refused :: "string \<Rightarrow> ArgusService \<Rightarrow> (base_exn + response) option" where
  "backend_refused name s =
     (if name = [] then Some (error_json ''bad_request'' ''Backend name is required.'' 400)
      else if length name > MGMT_BACKEND_NAME_MAX_LEN then Some (error_json ''bad_request'' ''Backend name is too long.'' 400)
      else if \<not> backend_name_re name then Some (error_json ''bad_request'' ''Backend name contains invalid characters.'' 400)
      else if \<not> is_running s then Some (error_json ''service_unavailable'' ''Service is not running.'' 503)
      else if sv_config_data s \<notin> {None, Some []} \<and> dict_get (the (sv_config_data s)) name = None
      then Some (error_json ''not_found'' (''Backend '' @ repr_str name @ '' not found.'') 404)
      else None)"

definition handle_reconnect :: "mgmt_env \<Rightarrow> string \<Rightarrow> mgmt \<Rightarrow> handled" where
  "handle_reconnect env name mg = with_service mg (\<lambda>s.
     case backend_refused name s of
       Some r \<Rightarrow> (mg, r)
     | None \<Rightarrow>
         (case reconnect_backend (me_reconnect env) name s of
            (s', Inl e) \<Rightarrow> (mg\<lparr>mg_service := Some s'\<rparr>, Inl e)
          | (s', Inr r) \<Rightarrow> (mg\<lparr>mg_service := Some s'\<rparr>, Inr (Response (if rc_reconnected r then 200 else 500) (ReconnectResponse r)))))"

definition handle_reauth :: "mgmt_env \<Rightarrow> string \<Rightarrow> mgmt \<Rightarrow> handled" where
  "handle_reauth env name mg = with_service mg (\<lambda>s.
     case backend_refused name s of
       Some r \<Rightarrow> (mg, r)
     | None \<Rightarrow>
         (case reauth_backend (me_reauth env) name s of
            (s', initiated, err) \<Rightarrow>
              (mg\<lparr>mg_service := Some s'\<rparr>, Inr (Response (if initiated then 200 else 500) (ReAuthResponse name initiated err)))))"

text \<open>\<open>except (JSONDecodeError, ValueError)\<close> around the body, \<open>except (ValueError, TypeError)\<close> around the model.\<close>

definition handle_shutdown :: "mgmt_env \<Rightarrow> request \<Rightarrow> mgmt \<Rightarrow> handled" where
  "handle_shutdown env rq mg = with_service mg (\<lambda>s.
     let go = (\<lambda>timeout.
           if timeout < MGMT_SHUTDOWN_TIMEOUT_MIN \<or> MGMT_SHUTDOWN_TIMEOUT_MAX < timeout
           then (mg, error_json ''bad_request'' (repr_str ''timeout_seconds'' @ '' must be between 1 and 300.'') 400)
           else (mg\<lparr>mg_shutdowns := mg_shutdowns mg @ [timeout]\<rparr>, ok ShutdownResponse));
         given = (\<lambda>d. case me_shutdown_request env d of
             Inr timeout \<Rightarrow> go timeout
           | Inl (ValueError m) \<Rightarrow> (mg, error_json ''bad_request'' ''Invalid shutdown request body.'' 400)
           | Inl (TypeError m) \<Rightarrow> (mg, error_json ''bad_request'' ''Invalid shutdown request body.'' 400)
           | Inl e \<Rightarrow> (mg, Inl (raised e)))
     in case rq_json rq of
          Inl (ValueError m) \<Rightarrow> given []
        | Inl e \<Rightarrow> (mg, Inl (raised e))
        | Inr (PDict d) \<Rightarrow> given d
        | Inr v \<Rightarrow> go 30)"

text \<open>The task started by \<open>handle_shutdown\<close>, when its delay is over.\<close>

definition deferred_shutdown :: "stop_env \<Rightarrow> mgmt \<Rightarrow> mgmt \<times> base_exn option" where
  "deferred_shutdown env mg =
     (case (mg_shutdowns mg, mg_service mg) of
        (timeout # rest, Some s) \<Rightarrow>
          (case shutdown env (nat timeout) s of (s', r) \<Rightarrow> (mg\<lparr>mg_service := Some s', mg_shutdowns := rest\<rparr>, r))
      | _ \<Rightarrow> (mg, None))"

section \<open>Sessions, catalogues, skills\<close>

definition handle_sessions :: "mgmt_env \<Rightarrow> mgmt \<Rightarrow> handled" where
  "handle_sessions env mg =
     (case mg_sessions mg of
        None \<Rightarrow> (mg, ok (SessionsResponse 0 []))
      | Some m \<Rightarrow> (mg, ok (SessionsResponse (active_count (me_mono env) m) (list_sessions (me_mono env) m))))"

text \<open>The registries are asked in order until one returns something; a failing one is skipped.\<close>

fun search_registries ::
    "(string \<Rightarrow> string \<Rightarrow> string \<Rightarrow> int \<Rightarrow> pyval list res) \<Rightarrow> string \<Rightarrow> int \<Rightarrow> (string \<times> string \<times> string) list \<Rightarrow> pyval list \<times> string" where
  "search_registries search q limit [] = ([], [])"
| "search_registries search q limit ((name, url, ty) # rs) =
     (if url = [] then search_registries search q limit rs
      else case search url ty q limit of
             Inr (x # xs) \<Rightarrow> (x # xs, name)
           | _ \<Rightarrow> search_registries search q limit rs)"

definition handle_registry_search :: "mgmt_env \<Rightarrow> request \<Rightarrow> mgmt \<Rightarrow> handled" where
  "handle_registry_search env rq mg = with_service mg (\<lambda>s.
     let q = str_strip (dict_get_or [] (rq_query rq) ''q'');
         limit = (case py_int_of (dict_get_or ''20'' (rq_query rq) ''limit'') of None \<Rightarrow> 20 | Some n \<Rightarrow> max 1 (min n 100));
         registry_name = str_strip (dict_get_or [] (rq_query rq) ''registry'');
         chosen = (if registry_name = [] then me_registries env else filter (\<lambda>r. fst r = registry_name) (me_registries env))
     in if q = [] then (mg, error_json ''bad_request'' (''Query parameter '' @ repr_str ''q'' @ '' is required.'') 400)
        else if length q > MGMT_QUERY_PARAM_MAX_LEN \<or> \<not> safe_query_re q then (mg, error_json ''bad_request'' ''Invalid query parameter.'' 400)
        else if me_registries env = [] then (mg, error_json ''not_configured'' ''No registries configured.'' 404)
        else if chosen = [] then (mg, error_json ''not_found'' (''Registry '' @ repr_str registry_name @ '' not found.'') 404)
        else case search_registries (me_search env) q limit chosen of
               (servers, used) \<Rightarrow> (mg, ok (RegistrySearchResponse (take (nat limit) servers) used (length servers))))"

definition handle_skills_list :: "mgmt \<Rightarrow> handled" where
  "handle_skills_list mg =
     (case mg_skills mg of
        None \<Rightarrow> (mg, error_json ''not_available'' ''Skill manager not initialized.'' 503)
      | Some st \<Rightarrow> (let st' = skills_discover st in (mg\<lparr>mg_skills := Some st'\<rparr>, ok (SkillsListResponse (list_skills (fst st'))))))"

definition handle_skill_action :: "SkillStatus \<Rightarrow> mgmt_env \<Rightarrow> string \<Rightarrow> mgmt \<Rightarrow> handled" where
  "handle_skill_action status env name mg =
     (case mg_skills mg of
        None \<Rightarrow> (mg, error_json ''not_available'' ''Skill manager not initialized.'' 503)
      | Some st \<Rightarrow>
          if name = [] \<or> \<not> backend_name_re name then (mg, error_json ''bad_request'' ''Invalid skill name.'' 400)
          else if skills_get name (fst st) = None then (mg, error_json ''not_found'' (''Skill '' @ repr_str name @ '' not found.'') 404)
          else case (case status of ENABLED \<Rightarrow> skills_enable | DISABLED \<Rightarrow> skills_disable) (me_writable env) name st of
                 (st', Inl e) \<Rightarrow> (mg\<lparr>mg_skills := Some st'\<rparr>, Inl (raised e))
               | (st', Inr u) \<Rightarrow> (mg\<lparr>mg_skills := Some st'\<rparr>, ok (SkillActionResponse name (status_value status))))"

section \<open>Calls of backends\<close>

definition no_attribute :: "string \<Rightarrow> exn" where
  "no_attribute a = OtherException ''AttributeError'' (''object has no attribute '' @ repr_str a)"

text \<open>\<open>body.get(key, "").strip()\<close>.\<close>

definition text_field :: "string \<Rightarrow> pyval \<Rightarrow> string res" where
  "text_field key v =
     (case v of
        PDict d \<Rightarrow> (case dict_get d key of None \<Rightarrow> Inr [] | Some (PStr s) \<Rightarrow> Inr (str_strip s) | Some w \<Rightarrow> Inl (no_attribute ''strip''))
      | w \<Rightarrow> Inl (no_attribute ''get''))"

text \<open>The route and the session of a capability, or the answer when there is none.\<close>

definition backend_session :: "string \<Rightarrow> string \<Rightarrow> ArgusService \<Rightarrow> (base_exn + response) + string \<times> string \<times> nat" where
  "backend_session kind name s =
     (case resolve_capability (current_registry s) name of
        None \<Rightarrow> Inl (error_json ''not_found'' (kind @ '' '' @ repr_str name @ '' not found.'') 404)
      | Some (svr, orig) \<Rightarrow>
          (case get_session svr (sv_manager s) of
             None \<Rightarrow> Inl (error_json ''backend_unavailable'' (''Backend '' @ repr_str svr @ '' session not available.'') 503)
           | Some h \<Rightarrow> Inr (svr, orig, h)))"

definition handle_tools_call :: "mgmt_env \<Rightarrow> request \<Rightarrow> mgmt \<Rightarrow> handled" where
  "handle_tools_call env rq mg = with_service mg (\<lambda>s.
     case rq_json rq of
       Inl e \<Rightarrow> (mg, error_json ''bad_request'' ''Invalid JSON body.'' 400)
     | Inr v \<Rightarrow>
         (case text_field ''tool'' v of
            Inl e \<Rightarrow> (mg, Inl (raised e))
          | Inr [] \<Rightarrow> (mg, error_json ''bad_request'' (''Field '' @ repr_str ''tool'' @ '' is required.'') 400)
          | Inr tool \<Rightarrow>
              (case (case v of PDict d \<Rightarrow> dict_get_or (PDict []) d ''arguments'' | w \<Rightarrow> w) of
                 PDict args \<Rightarrow>
                   (case backend_session ''Tool'' tool s of
                      Inl r \<Rightarrow> (mg, r)
                    | Inr (svr, orig, h) \<Rightarrow>
                        (case me_call_tool env h orig args of
                           Inl e \<Rightarrow> (mg, error_json ''call_failed'' (exn_str e) 502)
                         | Inr (content, is_error) \<Rightarrow> (mg, ok (ToolResult tool svr content is_error))))
               | w \<Rightarrow> (mg, error_json ''bad_request'' (repr_str ''arguments'' @ '' must be an object.'') 400))))"

definition handle_resources_read :: "mgmt_env \<Rightarrow> request \<Rightarrow> mgmt \<Rightarrow> handled" where
  "handle_resources_read env rq mg = with_service mg (\<lambda>s.
     case rq_json rq of
       Inl e \<Rightarrow> (mg, error_json ''bad_request'' ''Invalid JSON body.'' 400)
     | Inr v \<Rightarrow>
         (case text_field ''uri'' v of
            Inl e \<Rightarrow> (mg, Inl (raised e))
          | Inr [] \<Rightarrow> (mg, error_json ''bad_request'' (''Field '' @ repr_str ''uri'' @ '' is required.'') 400)
          | Inr uri \<Rightarrow>
              (case backend_session ''Resource'' uri s of
                 Inl r \<Rightarrow> (mg, r)
               | Inr (svr, orig, h) \<Rightarrow>
                   (case me_read_resource env h orig of
                      Inl e \<Rightarrow> (mg, error_json ''read_failed'' (exn_str e) 502)
                    | Inr contents \<Rightarrow> (mg, ok (ResourceResult uri svr contents))))))"

section \<open>The application\<close>

definition MANAGEMENT_API_PREFIX :: string where "MANAGEMENT_API_PREFIX = ''/manage/v1''"

definition handle :: "mgmt_env \<Rightarrow> request \<Rightarrow> endpoint \<Rightarrow> string \<Rightarrow> mgmt \<Rightarrow> handled" where
  "handle env rq ep name mg =
     (case ep of
        Health \<Rightarrow> handle_health env mg
      | Ready \<Rightarrow> handle_ready mg
      | Status \<Rightarrow> handle_status env mg
      | Backends \<Rightarrow> handle_backends mg
      | Groups \<Rightarrow> handle_groups rq mg
      | Capabilities \<Rightarrow> handle_capabilities rq mg
      | Sessions \<Rightarrow> handle_sessions env mg
      | Events \<Rightarrow> handle_events rq mg
      | EventsStream \<Rightarrow> handle_events_stream mg
      | Batch \<Rightarrow> handle_batch env rq mg
      | Reload \<Rightarrow> handle_reload env mg
      | Reconnect \<Rightarrow> handle_reconnect env name mg
      | Reauth \<Rightarrow> handle_reauth env name mg
      | Shutdown \<Rightarrow> handle_shutdown env rq mg
      | RegistrySearch \<Rightarrow> handle_registry_search env rq mg
      | SkillsList \<Rightarrow> handle_skills_list mg
      | SkillsEnable \<Rightarrow> handle_skill_action ENABLED env name mg
      | SkillsDisable \<Rightarrow> handle_skill_action DISABLED env name mg
      | ToolsCall \<Rightarrow> handle_tools_call env rq mg
      | ResourcesRead \<Rightarrow> handle_resources_read env rq mg)"

definition management_app :: "dispatcher \<Rightarrow> mgmt_env \<Rightarrow> request \<Rightarrow> mgmt \<Rightarrow> handled" where
  "management_app route env rq mg =
     (case bearer_auth (mg_token mg) (rq_scope rq) of
        Unauthorized m \<Rightarrow> (mg, error_json ''unauthorized'' m 401)
      | CheckRaised e \<Rightarrow> (mg, Inl (Exc e 0 []))
      | Pass \<Rightarrow>
          (case route management_routes (rq_method rq) (drop (length MANAGEMENT_API_PREFIX) (sc_path (rq_scope rq))) of
             Found ep name \<Rightarrow> handle env rq ep name mg
           | NoRoute status \<Rightarrow> (mg, Inr (Response status Unmatched))))"

section \<open>Matching paths\<close>

text \<open>A router that compares the segments of the path.\<close>

fun match_segs :: "segment list \<Rightarrow> string list \<Rightarrow> string option" where
  "match_segs [] [] = Some []"
| "match_segs (Lit l # ss) (x # xs) = (if l = x then match_segs ss xs else None)"
| "match_segs (Name # ss) (x # xs) = (if x = [] \<or> match_segs ss xs = None then None else Some x)"
| "match_segs ss xs = None"

definition match_path :: "segment list \<Rightarrow> string \<Rightarrow> string option" where
  "match_path segs path = (case path of [] \<Rightarrow> None | c # cs \<Rightarrow> if c = CHR ''/'' then match_segs segs (split_on (CHR ''/'') cs) else None)"

definition match_route :: dispatcher where
  "match_route rs m path =
     (case find (\<lambda>(segs, ep, meth). match_path segs path \<noteq> None \<and> meth = m) rs of
        Some (segs, ep, meth) \<Rightarrow> Found ep (the (match_path segs path))
      | None \<Rightarrow> NoRoute (if list_ex (\<lambda>(segs, ep, meth). match_path segs path \<noteq> None) rs then 405 else 404))"

lemma split_on_parts: "x \<in> set (split_on c s) \<Longrightarrow> c \<notin> set x"
proof (induction s arbitrary: x)
  case (Cons y s)
  obtain w ws where "split_on c s = w # ws" by (meson list.exhaust split_on_nonempty)
  with Cons show ?case by (fastforce split: if_splits)
qed simp

lemma concat_split_on: "concat (map (\<lambda>x. c # x) (split_on c s)) = c # s"
proof (induction s)
  case (Cons y s)
  obtain w ws where "split_on c s = w # ws" by (meson list.exhaust split_on_nonempty)
  with Cons show ?case by simp
qed simp

lemma split_on_concat:
  assumes "xs \<noteq> []" "\<And>x. x \<in> set xs \<Longrightarrow> c \<notin> set x"
  shows "split_on c (tl (concat (map (\<lambda>x. c # x) xs))) = xs"
proof -
  have one: "c \<notin> set x \<Longrightarrow> split_on c (x @ c # r) = x # split_on c r \<and> split_on c x = [x]" for x r
    by (induction x) (auto split: list.splits)
  show ?thesis using assms
  proof (induction xs)
    case (Cons x xs)
    then show ?case
    proof (cases xs)
      case (Cons y ys)
      then show ?thesis using Cons.IH Cons.prems one [of x "y @ concat (map (\<lambda>x. c # x) ys)"] by simp
    qed (use one in simp)
  qed simp
qed

lemma route_path_Cons [simp]:
  "route_path [] name = []"
  "route_path (Lit l # ss) name = CHR ''/'' # l @ route_path ss name"
  "route_path (Name # ss) name = CHR ''/'' # name @ route_path ss name"
  by (simp_all add: route_path_def)

lemma route_path_closed: "Name \<notin> set segs \<Longrightarrow> route_path segs a = route_path segs b"
  unfolding route_path_def by (rule arg_cong [of _ _ concat]) (auto split: segment.splits)

lemma match_segs_sound:
  "match_segs segs xs = Some name \<Longrightarrow> good_route segs \<Longrightarrow> (\<And>x. x \<in> set xs \<Longrightarrow> CHR ''/'' \<notin> set x) \<Longrightarrow>
   concat (map (\<lambda>x. CHR ''/'' # x) xs) = route_path segs name \<and> path_value segs name"
proof (induction segs xs arbitrary: name rule: match_segs.induct)
  case (3 ss x xs)
  have c: "\<not> (x = [] \<or> match_segs ss xs = None)" using "3.prems"(1) by (metis match_segs.simps(3) option.distinct(1))
  then obtain n where n: "match_segs ss xs = Some n" "x \<noteq> []" by blast
  have name: "name = x" using "3.prems"(1) c by simp
  have "concat (map (\<lambda>x. CHR ''/'' # x) xs) = route_path ss n" using "3.IH" [OF n(1)] "3.prems"(2,3) by simp
  moreover have "route_path ss n = route_path ss x" by (rule route_path_closed) (use "3.prems"(2) in simp)
  ultimately show ?case using n name "3.prems"(3) [of x] by (simp add: path_value_def)
qed (auto simp: path_value_def split: if_splits)

lemma match_path_sound:
  assumes "match_path segs path = Some name" "good_route segs"
  shows "path = route_path segs name \<and> path_value segs name"
proof -
  obtain cs where cs: "path = CHR ''/'' # cs" "match_segs segs (split_on (CHR ''/'') cs) = Some name"
    using assms(1) by (auto simp: match_path_def split: list.splits if_splits)
  show ?thesis using match_segs_sound [OF cs(2) assms(2) split_on_parts] concat_split_on [of "CHR ''/''" cs] cs(1) by simp
qed

definition fill :: "string \<Rightarrow> segment \<Rightarrow> string" where
  "fill name s = (case s of Lit l \<Rightarrow> l | Name \<Rightarrow> name)"

lemma fill_simps [simp]: "fill name (Lit l) = l" "fill name Name = name"
  by (simp_all add: fill_def)

lemma match_segs_fill: "(Name \<in> set segs \<Longrightarrow> name \<noteq> []) \<Longrightarrow> good_route segs \<Longrightarrow>
  match_segs segs (map (fill name) segs) = Some (if Name \<in> set segs then name else [])"
  by (induction segs rule: good_route.induct) auto

lemma good_route_lit: "good_route segs \<Longrightarrow> Lit l \<in> set segs \<Longrightarrow> CHR ''/'' \<notin> set l"
  by (induction segs rule: good_route.induct) auto

lemma good_route_fill: "good_route segs \<Longrightarrow> path_value segs name \<Longrightarrow> s \<in> set segs \<Longrightarrow> CHR ''/'' \<notin> set (fill name s)"
  using good_route_lit by (cases s) (auto simp: path_value_def)

lemma match_path_complete:
  assumes "path_value segs name" "good_route segs" "segs \<noteq> []"
  shows "match_path segs (route_path segs name) = Some name"
proof -
  have path: "route_path segs name = concat (map (\<lambda>x. CHR ''/'' # x) (map (fill name) segs))"
    by (simp add: route_path_def fill_def comp_def)
  have "x \<in> set (map (fill name) segs) \<Longrightarrow> CHR ''/'' \<notin> set x" for x
    using good_route_fill [OF assms(2,1)] by auto
  then have "split_on (CHR ''/'') (tl (route_path segs name)) = map (fill name) segs"
    unfolding path using assms(3) by (intro split_on_concat) auto
  moreover obtain cs where "route_path segs name = CHR ''/'' # cs" using assms(3) unfolding path by (cases segs) auto
  ultimately show ?thesis using match_segs_fill [of segs name] assms(1,2) by (simp add: match_path_def path_value_def split: if_splits)
qed

lemma find_SomeD: "find P xs = Some x \<Longrightarrow> x \<in> set xs \<and> P x"
  by (induction xs) (auto split: if_splits)

interpretation mr: router match_route
proof
  fix rs :: "(segment list \<times> endpoint \<times> meth) list" and m path ep name
  assume good: "\<And>segs ep m. (segs, ep, m) \<in> set rs \<Longrightarrow> segs \<noteq> [] \<and> good_route segs" and "match_route rs m path = Found ep name"
  then obtain segs meth where f: "find (\<lambda>(segs, ep, meth). match_path segs path \<noteq> None \<and> meth = m) rs = Some (segs, ep, meth)"
    "name = the (match_path segs path)"
    by (auto simp: match_route_def split: option.splits)
  have "(segs, ep, meth) \<in> set rs" "match_path segs path = Some name" using find_SomeD [OF f(1)] f(2) by auto
  then show "\<exists>segs meth. (segs, ep, meth) \<in> set rs \<and> path = route_path segs name \<and> path_value segs name"
    using match_path_sound good by blast
next
  fix rs :: "(segment list \<times> endpoint \<times> meth) list" and segs ep m name
  assume good: "\<And>segs ep m. (segs, ep, m) \<in> set rs \<Longrightarrow> segs \<noteq> [] \<and> good_route segs" and r: "(segs, ep, m) \<in> set rs" and v: "path_value segs name"
    and unique: "\<And>segs' ep' m' name'. (segs', ep', m') \<in> set rs \<Longrightarrow> path_value segs' name' \<Longrightarrow> route_path segs' name' = route_path segs name \<Longrightarrow>
        ep' = ep \<and> name' = name"
  let ?path = "route_path segs name"
  have "match_path segs ?path \<noteq> None" using match_path_complete [OF v] good [OF r] by simp
  then have "find (\<lambda>(segs, ep, meth). match_path segs ?path \<noteq> None \<and> meth = m) rs \<noteq> None" using r by (auto simp: find_None_iff)
  then obtain segs' ep' meth' where f: "find (\<lambda>(segs, ep, meth). match_path segs ?path \<noteq> None \<and> meth = m) rs = Some (segs', ep', meth')" by auto
  then have f': "(segs', ep', meth') \<in> set rs" "match_path segs' ?path \<noteq> None" by (auto dest!: find_SomeD)
  then obtain name' where "match_path segs' ?path = Some name'" by auto
  moreover from this have "ep' = ep \<and> name' = name"
    using match_path_sound [of segs' ?path name'] good [OF f'(1)] unique [OF f'(1), of name'] by simp
  ultimately show "match_route rs m ?path = Found ep name" using f by (simp add: match_route_def)
qed

end
