(* ===== verification/Management_Properties.thy ===== *)
theory Management_Properties
  imports Management_Api
begin

text \<open>
  Properties of the management API: what a request without the token can do, which paths the
  suffix rule makes public, when the gateway reports that it is ready, and which tokens it
  accepts at startup.
\<close>

section \<open>Which paths are public\<close>

lemma management_routes_good: "(segs, ep, m) \<in> set management_routes \<Longrightarrow> segs \<noteq> [] \<and> good_route segs"
  by (auto simp: management_routes_def)

lemma starts_with_append: "starts_with p (p @ s)"
  by (auto simp: starts_with_iff)

lemma ends_with_iff: "ends_with p s \<longleftrightarrow> (\<exists>t. s = t @ p)"
  by (auto simp: ends_with_def starts_with_iff) (metis rev_append rev_rev_ident)

lemma last_segment:
  assumes "ends_with (c # l) (a @ c # n)" "c \<notin> set l" "c \<notin> set n"
  shows "l = n"
proof -
  have "a @ c # n = b @ c # l \<Longrightarrow> l = n" for b
    using assms(2,3)
  proof (induction a arbitrary: b)
    case Nil
    then show ?case by (cases b) auto
  next
    case (Cons x a)
    then show ?case by (cases b) auto
  qed
  then show ?thesis using assms(1) unfolding ends_with_iff by metis
qed

lemma route_path_last:
  assumes "segs \<noteq> []"
  shows "route_path segs name = route_path (butlast segs) name @ CHR ''/'' # fill name (last segs)"
  using assms by (induction segs rule: rev_induct) (simp_all add: route_path_def fill_def)

lemma rstrip_slash: "n \<noteq> [] \<Longrightarrow> CHR ''/'' \<notin> set n \<Longrightarrow> rstrip_by (\<lambda>c. c = CHR ''/'') (a @ n) = a @ n"
  by (cases n rule: rev_cases) (auto simp: rstrip_by_def)

lemma public_route:
  assumes "public_path path" "drop k path = route_path segs name" "segs \<noteq> []" "good_route segs" "path_value segs name"
    "fill name (last segs) \<noteq> []"
  shows "fill name (last segs) \<in> {''health'', ''ready''}"
proof -
  let ?n = "fill name (last segs)"
  have "path = take k path @ route_path segs name" using assms(2) by (metis append_take_drop_id)
  then obtain a where path: "path = a @ CHR ''/'' # ?n" using route_path_last [OF assms(3), of name] by (metis append.assoc)
  have n: "CHR ''/'' \<notin> set ?n" using good_route_fill [OF assms(4,5)] assms(3) by simp
  have "rstrip_by (\<lambda>c. c = CHR ''/'') path = path"
    unfolding path using rstrip_slash [OF assms(6) n, of "a @ [CHR ''/'']"] by simp
  then have "ends_with (CHR ''/'' # ''health'') path \<or> ends_with (CHR ''/'' # ''ready'') path"
    using assms(1) by (simp add: public_path_def Let_def)
  then show ?thesis using last_segment [of "CHR ''/''" _ a ?n] n unfolding path by fastforce
qed

lemma public_endpoints:
  "(segs, ep, m) \<in> set management_routes \<Longrightarrow> fill name (last segs) \<in> {''health'', ''ready''} \<Longrightarrow>
   ep \<in> {Health, Ready} \<or> ep \<in> {Reconnect, Reauth} \<and> name \<in> {''health'', ''ready''}"
  by (auto simp: management_routes_def)

lemma last_not_empty:
  "(segs, ep, m) \<in> set management_routes \<Longrightarrow> path_value segs name \<Longrightarrow> fill name (last segs) \<noteq> []"
  by (auto simp: management_routes_def path_value_def)

text \<open>What the suffix rule lets through: the two probes, and two operations on backends with such a name.\<close>

lemma public_dispatch:
  assumes "router route" "public_path path" "route management_routes m (drop k path) = Found ep name"
  shows "ep \<in> {Health, Ready} \<or> ep \<in> {Reconnect, Reauth} \<and> name \<in> {''health'', ''ready''}"
proof -
  obtain segs meth where r: "(segs, ep, meth) \<in> set management_routes" "drop k path = route_path segs name" "path_value segs name"
    using router.found [OF assms(1) _ assms(3)] management_routes_good by blast
  show ?thesis
    using public_route [OF assms(2) r(2) _ _ r(3)] management_routes_good [OF r(1)] last_not_empty [OF r(1,3)] public_endpoints [OF r(1)]
    by blast
qed

section \<open>Requests without the token\<close>

definition presents :: "string \<Rightarrow> scope \<Rightarrow> bool" where
  "presents tok sc \<longleftrightarrow> first_header ''authorization'' (sc_headers sc) = Some (''Bearer '' @ tok)"

lemma bearer_drop: "starts_with ''Bearer '' h \<Longrightarrow> drop 7 h = tok \<Longrightarrow> h = ''Bearer '' @ tok"
  by (auto simp: starts_with_iff)

lemma bearer_auth_pass:
  assumes "bearer_auth (Some tok) sc = Pass" "sc_type sc = ''http''" "\<not> presents tok sc"
  shows "public_path (sc_path sc)"
  using assms bearer_drop
  by (auto simp: bearer_auth_def presents_def compare_digest_def Let_def split: if_splits option.splits sum.splits)

text \<open>The check raises only on a token, the presented or the configured one, that is not ASCII.\<close>

definition ascii_tokens :: "string \<Rightarrow> scope \<Rightarrow> bool" where
  "ascii_tokens tok sc \<longleftrightarrow> list_all is_ascii tok \<and>
     (case first_header ''authorization'' (sc_headers sc) of None \<Rightarrow> True | Some h \<Rightarrow> list_all is_ascii (drop 7 h))"

lemma bearer_auth_raised:
  "bearer_auth (Some tok) sc = CheckRaised e \<Longrightarrow>
   e = TypeError ''comparing strings with non-ASCII characters is not supported'' \<and> \<not> ascii_tokens tok sc"
  by (auto simp: bearer_auth_def compare_digest_def ascii_tokens_def Let_def split: if_splits option.splits sum.splits)

definition unnamed :: "ArgusService \<Rightarrow> bool" where
  "unnamed s \<longleftrightarrow> (case sv_config_data s of None \<Rightarrow> True | Some cs \<Rightarrow> dict_get cs ''health'' = None \<and> dict_get cs ''ready'' = None)"

lemma reconnect_unknown:
  "sv_config_data s \<in> {None, Some []} \<or> dict_get (the (sv_config_data s)) name = None \<Longrightarrow> fst (reconnect_backend env name s) = s"
  by (auto simp: reconnect_backend_def Let_def)

lemma reauth_unknown:
  "sv_config_data s \<in> {None, Some []} \<or> dict_get (the (sv_config_data s)) name = None \<Longrightarrow> fst (reauth_backend r name s) = s"
  by (auto simp: reauth_backend_def)

lemma mgmt_same: "mg_service mg = Some s \<Longrightarrow> mg\<lparr>mg_service := Some s\<rparr> = mg"
  by simp

lemma reconnect_keeps:
  assumes "mg_service mg = Some s" "unnamed s" "name \<in> {''health'', ''ready''}"
  shows "fst (handle_reconnect env name mg) = mg" "fst (handle_reauth env name mg) = mg"
proof -
  have u: "sv_config_data s \<in> {None, Some []} \<or> dict_get (the (sv_config_data s)) name = None"
    using assms(2,3) by (auto simp: unnamed_def split: option.splits)
  show "fst (handle_reconnect env name mg) = mg"
    using reconnect_unknown [OF u, of "me_reconnect env"] mgmt_same [OF assms(1)]
    by (auto simp: handle_reconnect_def with_service_def get_service_def assms(1) split: option.splits prod.splits sum.splits)
  show "fst (handle_reauth env name mg) = mg"
    using reauth_unknown [OF u, of "me_reauth env"] mgmt_same [OF assms(1)]
    by (auto simp: handle_reauth_def with_service_def get_service_def assms(1) split: option.splits prod.splits)
qed

section \<open>Theorems\<close>

text \<open>
  C22: A request without the token changes nothing: with a token configured, and no backend called
  health or ready, an HTTP request that does not present the token leaves the service, its
  skills and the scheduled shutdowns as they are, whatever its path, method and body; on every
  path that does not end in one of the two public suffixes it is answered with 401, or, when the
  presented or the configured token has a character outside ASCII, ends in the \<open>TypeError\<close> of the
  comparison.
\<close>

theorem unauthenticated_requests_change_nothing:
  assumes "router route" "mg_token mg = Some tok" "sc_type (rq_scope rq) = ''http''" "\<not> presents tok (rq_scope rq)"
    and "mg_service mg = Some s" "unnamed s"
  shows "fst (management_app route env rq mg) = mg \<and>
    (\<not> public_path (sc_path (rq_scope rq)) \<longrightarrow>
      (\<exists>m. management_app route env rq mg = (mg, Inr (Response 401 (ErrorResponse ''unauthorized'' m)))) \<or>
      \<not> ascii_tokens tok (rq_scope rq) \<and>
        management_app route env rq mg =
          (mg, Inl (Exc (TypeError ''comparing strings with non-ASCII characters is not supported'') 0 [])))"
proof (cases "bearer_auth (mg_token mg) (rq_scope rq)")
  case Pass
  let ?path = "drop (length MANAGEMENT_API_PREFIX) (sc_path (rq_scope rq))"
  have public: "public_path (sc_path (rq_scope rq))" using bearer_auth_pass Pass assms(2-4) by simp
  have "fst (management_app route env rq mg) = mg"
  proof (cases "route management_routes (rq_method rq) ?path")
    case (Found ep name)
    have "ep \<in> {Health, Ready} \<or> ep \<in> {Reconnect, Reauth} \<and> name \<in> {''health'', ''ready''}"
      by (rule public_dispatch [OF assms(1) public Found])
    then show ?thesis
      using reconnect_keeps [OF assms(5,6), of name env]
      by (auto simp: management_app_def Pass Found handle_def handle_health_def handle_ready_def with_service_def get_service_def assms(5) Let_def)
  qed (simp add: management_app_def Pass)
  then show ?thesis using public by simp
next
  case (CheckRaised e)
  with bearer_auth_raised [of tok "rq_scope rq" e] assms(2) show ?thesis by (simp add: management_app_def)
qed (simp add: management_app_def error_json_def)

definition ex_mgmt :: "string option \<Rightarrow> ArgusService \<Rightarrow> mgmt" where
  "ex_mgmt tok s = \<lparr>mg_token = tok, mg_service = Some s, mg_health = [], mg_sessions = None, mg_skills = None, mg_optimizer = False,
     mg_keep_list = [], mg_flags = None, mg_host = ''127.0.0.1'', mg_port = 9000, mg_redact = False, mg_shutdowns = []\<rparr>"

definition ex_request :: "meth \<Rightarrow> string \<Rightarrow> request" where
  "ex_request m path = \<lparr>rq_scope = \<lparr>sc_type = ''http'', sc_method = ''POST'', sc_path = path, sc_headers = []\<rparr>, rq_method = m,
     rq_query = [], rq_json = Inl (ValueError [])\<rparr>"

definition ex_service :: ArgusService where
  "ex_service = new_service (\<lambda>n. ([], []))"

theorem unauthenticated_requests_change_nothing_witness:
  "\<forall>env. \<exists>m. management_app match_route env (ex_request POST ''/manage/v1/shutdown'') (ex_mgmt (Some ''t0ken'') ex_service) =
     (ex_mgmt (Some ''t0ken'') ex_service, Inr (Response 401 (ErrorResponse ''unauthorized'' m)))"
proof -
  have "\<not> public_path ''/manage/v1/shutdown''" by (simp add: public_path_def rstrip_by_def ends_with_def starts_with_def)
  moreover have "list_all is_ascii ''t0ken''" by code_simp
  ultimately show ?thesis
    using unauthenticated_requests_change_nothing [OF mr.router_axioms, of "ex_mgmt (Some ''t0ken'') ex_service" "''t0ken''"
        "ex_request POST ''/manage/v1/shutdown''" ex_service]
    by (simp add: ex_mgmt_def ex_request_def presents_def first_header_def unnamed_def ex_service_def new_service_def
        ascii_tokens_def)
qed

text \<open>
  The suffix rule opens an operation: when a backend is called health, a request without any
  token to reconnect it is not refused but disconnects and reconnects the backend.
\<close>

theorem reconnect_of_health_needs_no_token:
  assumes "router route" "mg_service mg = Some s" "sv_state s = SvcRUNNING"
    and "sv_config_data s = Some cs" "dict_get cs ''health'' \<noteq> None"
    and "rq_method rq = POST" "sc_path (rq_scope rq) = ''/manage/v1/reconnect/health''" "sc_type (rq_scope rq) = ''http''"
  shows "fst (management_app route env rq mg) = mg\<lparr>mg_service := Some (fst (reconnect_backend (me_reconnect env) ''health'' s))\<rparr>"
proof -
  have path: "drop (length MANAGEMENT_API_PREFIX) (sc_path (rq_scope rq)) = route_path [Lit ''reconnect'', Name] ''health''"
    by (simp add: MANAGEMENT_API_PREFIX_def assms(7))
  have "route management_routes POST (route_path [Lit ''reconnect'', Name] ''health'') = Found Reconnect ''health''"
  proof (rule router.serves [OF assms(1) management_routes_good])
    show "([Lit ''reconnect'', Name], Reconnect, POST) \<in> set management_routes" by (simp add: management_routes_def)
    show "path_value [Lit ''reconnect'', Name] ''health''" by (simp add: path_value_def)
  qed (auto simp: management_routes_def path_value_def)
  moreover have "bearer_auth (mg_token mg) (rq_scope rq) = Pass"
    by (simp add: bearer_auth_def assms(7) public_path_def rstrip_by_def ends_with_def starts_with_def)
  moreover have "backend_refused ''health'' s = None"
    using assms(3-5)
    by (auto simp: backend_refused_def MGMT_BACKEND_NAME_MAX_LEN_def backend_name_re_def full_match_def name_char_def code_def is_running_def)
  ultimately show ?thesis
    unfolding management_app_def path
    by (simp add: assms(2,6) handle_def handle_reconnect_def with_service_def get_service_def split: prod.splits sum.splits)
qed

definition ex_running :: ArgusService where
  "ex_running = ex_service\<lparr>sv_state := SvcRUNNING, sv_config_data := Some [(''health'', [])]\<rparr>"

theorem reconnect_of_health_needs_no_token_witness:
  "\<forall>env. mg_service (fst (management_app match_route env (ex_request POST ''/manage/v1/reconnect/health'') (ex_mgmt (Some ''t0ken'') ex_running))) =
     Some (fst (reconnect_backend (me_reconnect env) ''health'' ex_running))"
  using reconnect_of_health_needs_no_token [OF mr.router_axioms, of "ex_mgmt (Some ''t0ken'') ex_running" ex_running "[(''health'', [])]"
      "ex_request POST ''/manage/v1/reconnect/health''"]
  by (simp add: ex_mgmt_def ex_request_def ex_running_def)

text \<open>
  The readiness probe tells the truth: after any sequence of calls of the service a request for
  the probe, with or without a token, is answered with 200 when the service is running and with
  503 otherwise, and changes nothing.
\<close>

theorem ready_probe_follows_state:
  assumes "router route" "mg_service mg = Some (fold sv_step ops (new_service stamp))"
    and "rq_method rq = GET" "sc_path (rq_scope rq) = ''/manage/v1/ready''" "sc_type (rq_scope rq) = ''http''"
  shows "management_app route env rq mg =
    (mg, Inr (if sv_state (fold sv_step ops (new_service stamp)) = SvcRUNNING
              then Response 200 (ReadyResponse True ''accepting traffic'')
              else Response 503 (ReadyResponse False ''backends not connected'')))"
proof -
  have path: "drop (length MANAGEMENT_API_PREFIX) (sc_path (rq_scope rq)) = route_path [Lit ''ready''] []"
    by (simp add: MANAGEMENT_API_PREFIX_def assms(4))
  have "route management_routes GET (route_path [Lit ''ready''] []) = Found Ready []"
  proof (rule router.serves [OF assms(1) management_routes_good])
    show "([Lit ''ready''], Ready, GET) \<in> set management_routes" by (simp add: management_routes_def)
    show "path_value [Lit ''ready''] []" by (simp add: path_value_def)
  qed (auto simp: management_routes_def path_value_def)
  moreover have "bearer_auth (mg_token mg) (rq_scope rq) = Pass"
    by (simp add: bearer_auth_def assms(4) public_path_def rstrip_by_def ends_with_def starts_with_def)
  moreover have "sv_ready_event (fold sv_step ops (new_service stamp)) \<longleftrightarrow> sv_state (fold sv_step ops (new_service stamp)) = SvcRUNNING"
    using ready_ok_run [of ops stamp] by (simp add: ready_ok_def)
  ultimately show ?thesis
    unfolding management_app_def path
    by (simp add: assms(2,3) handle_def handle_ready_def with_service_def get_service_def ok_def)
qed

theorem ready_probe_follows_state_witness:
  "\<forall>env. rs_status (projr (snd (management_app match_route env (ex_request GET ''/manage/v1/ready'') (ex_mgmt (Some ''t0ken'') ex_service)))) = 503"
  using ready_probe_follows_state [OF mr.router_axioms, of "ex_mgmt (Some ''t0ken'') ex_service" "[]" "\<lambda>n. ([], [])"
      "ex_request GET ''/manage/v1/ready''"]
  by (simp add: ex_mgmt_def ex_request_def ex_service_def new_service_def)

lemma str_strip_empty: "str_strip s = [] \<longleftrightarrow> list_all is_space s"
  by (auto simp: str_strip_def lstrip_by_def rstrip_by_def list_all_iff dest: set_dropWhileD)
    (metis dropWhile_eq_Nil_conv hd_dropWhile list.set_sel(1) set_rev)

lemma str_strip_again: "str_strip s \<noteq> [] \<Longrightarrow> str_strip (str_strip s) \<noteq> []"
proof -
  assume n: "str_strip s \<noteq> []"
  define r where "r = dropWhile is_space (rev (dropWhile is_space s))"
  have "r \<noteq> []" "str_strip s = rev r" using n by (simp_all add: r_def str_strip_def lstrip_by_def rstrip_by_def)
  moreover from this have "\<not> is_space (hd r)" unfolding r_def using hd_dropWhile by blast
  ultimately show ?thesis unfolding str_strip_empty list_all_iff using list.set_sel(1) by fastforce
qed

lemma startup_token_env:
  assumes "str_strip e \<noteq> []" "startup_token (Some e) c = Inr (Some t)"
  shows "t = str_strip e \<and> 16 \<le> length t \<and> str_lower t \<notin> set KNOWN_PLACEHOLDERS"
proof -
  obtain v where v: "validate_token_entropy False (Some (str_strip e)) = Inr v" "attach_token v c = Some t"
    using assms by (auto simp: startup_token_def create_management_app_def resolve_mgmt_token_def Let_def map_sum_def split: sum.splits)
  have "v = Some (str_strip e) \<and> 16 \<le> length (str_strip e) \<and> str_lower (str_strip e) \<notin> set KNOWN_PLACEHOLDERS"
    using v(1) str_strip_again [OF assms(1)] unfolding validate_token_entropy_def MIN_TOKEN_LENGTH_def
    by (simp split: if_splits)
  then show ?thesis using v(2) by (simp add: attach_token_def)
qed

text \<open>
  Weak tokens: a token from the environment is used only when it is no placeholder and has at
  least sixteen characters; a token from the configuration file is used without any check.
\<close>

theorem config_token_is_not_checked:
  "(\<forall>e t c. str_strip e \<noteq> [] \<longrightarrow> startup_token (Some e) c = Inr (Some t) \<longrightarrow>
      t = str_strip e \<and> 16 \<le> length t \<and> str_lower t \<notin> set KNOWN_PLACEHOLDERS) \<and>
   (\<forall>c. c \<noteq> [] \<longrightarrow> startup_token None (Some c) = Inr (Some c))"
proof (intro conjI allI impI)
  fix c :: string
  assume "c \<noteq> []"
  then show "startup_token None (Some c) = Inr (Some c)"
    by (simp add: startup_token_def create_management_app_def resolve_mgmt_token_def validate_token_entropy_def attach_token_def
        str_strip_def lstrip_by_def rstrip_by_def)
qed (use startup_token_env in blast)+

theorem config_token_is_not_checked_witness:
  "startup_token None (Some ''secret'') = Inr (Some ''secret'')"
  using config_token_is_not_checked [THEN conjunct2, rule_format, of "''secret''"] by simp

text \<open>Redaction removes the path of the configuration, the addresses and the error texts from the answers.\<close>

lemma redaction_hides:
  assumes "mg_redact mg"
  shows "handle_status env mg = (mg', Inr (Response st (StatusResponse r))) \<Longrightarrow>
      sr_file_path r = Some redacted \<and> sr_host r = redacted \<and> sr_sse_url r = redacted \<and> sr_streamable_http_url r = redacted"
    and "handle_backends mg = (mg', Inr (Response st (BackendsResponse bs))) \<Longrightarrow> b \<in> set bs \<Longrightarrow> bd_error b = None \<and> bd_conditions b = []"
    and "handle_batch env rq mg = (mg', Inr (Response st (BatchResponse r bs c ev))) \<Longrightarrow> b \<in> set bs \<Longrightarrow>
      sr_file_path r = Some redacted \<and> bd_error b = None"
  using assms
  by (auto simp: handle_status_def handle_backends_def handle_batch_def with_service_def ok_def Let_def redact_status_response_def
      redact_backends_response_def split: sum.splits)

end
