(* ===== verification/Py_Regex.thy ===== *)
theory Py_Regex
  imports Py_String
begin

text \<open>
  The fragment of Python's \<open>re\<close> the program uses: character classes, sequences, alternatives,
  bounded and unbounded repetitions (greedy and lazy), word boundaries, line and text anchors and
  one capturing group. A match is the list of all ways to match at a position in the order in
  which the backtracking matcher tries them; the first of them is the match.
\<close>

section \<open>Expressions\<close>

datatype regex =
    Cls "char \<Rightarrow> bool"
  | Eps
  | Sq regex regex
  | Or regex regex
  | Rep nat "nat option" bool regex
  | Boundary
  | LineStart
  | LineEnd
  | TextStart
  | TextEnd
  | Group regex

text \<open>A position and the span of the group.\<close>

type_synonym span = "(nat \<times> nat) option"
type_synonym ends = "(nat \<times> span) list"

definition is_word :: "char \<Rightarrow> bool" where
  "is_word c \<longleftrightarrow> 97 \<le> code c \<and> code c \<le> 122 \<or> 65 \<le> code c \<and> code c \<le> 90 \<or> is_digit c \<or> c = CHR ''_'' \<or>
     code c \<in> {170, 178, 179, 181, 185, 186, 188, 189, 190} \<or> 192 \<le> code c \<and> code c \<noteq> 215 \<and> code c \<noteq> 247"

definition is_newline :: "char \<Rightarrow> bool" where
  "is_newline c \<longleftrightarrow> code c = 10"

definition word_at :: "string \<Rightarrow> nat \<Rightarrow> bool" where
  "word_at s i \<longleftrightarrow> i < length s \<and> is_word (s ! i)"

definition boundary :: "string \<Rightarrow> nat \<Rightarrow> bool" where
  "boundary s i \<longleftrightarrow> word_at s i \<noteq> (0 < i \<and> word_at s (i - 1))"

text \<open>
  Repetition of a step: \<open>k\<close> iterations are still required and at most \<open>n\<close> are possible. An
  iteration that is not required and consumes nothing is not tried.
\<close>

fun rep :: "(nat \<Rightarrow> span \<Rightarrow> ends) \<Rightarrow> bool \<Rightarrow> nat \<Rightarrow> nat \<Rightarrow> nat \<Rightarrow> span \<Rightarrow> ends" where
  "rep m greedy k 0 i g = (if k = 0 then [(i, g)] else [])"
| "rep m greedy k (Suc n) i g =
     (let again = concat (map (\<lambda>(j, g'). if k = 0 \<and> j = i then [] else rep m greedy (k - 1) n j g') (m i g));
          stop = (if k = 0 then [(i, g)] else [])
      in if greedy then again @ stop else stop @ again)"

text \<open>Without an upper bound there are no more iterations than required ones and remaining characters.\<close>

fun match_at :: "regex \<Rightarrow> string \<Rightarrow> nat \<Rightarrow> span \<Rightarrow> ends" where
  "match_at (Cls P) s i g = (if i < length s \<and> P (s ! i) then [(i + 1, g)] else [])"
| "match_at Eps s i g = [(i, g)]"
| "match_at (Sq r1 r2) s i g = concat (map (\<lambda>(j, g'). match_at r2 s j g') (match_at r1 s i g))"
| "match_at (Or r1 r2) s i g = match_at r1 s i g @ match_at r2 s i g"
| "match_at (Rep k n greedy r) s i g =
     rep (match_at r s) greedy k (case n of Some n \<Rightarrow> n | None \<Rightarrow> k + (length s - i)) i g"
| "match_at Boundary s i g = (if boundary s i then [(i, g)] else [])"
| "match_at LineStart s i g = (if i = 0 \<or> is_newline (s ! (i - 1)) then [(i, g)] else [])"
| "match_at LineEnd s i g = (if i = length s \<or> is_newline (s ! i) then [(i, g)] else [])"
| "match_at TextStart s i g = (if i = 0 then [(i, g)] else [])"
| "match_at TextEnd s i g = (if i = length s \<or> i + 1 = length s \<and> is_newline (s ! i) then [(i, g)] else [])"
| "match_at (Group r) s i g = map (\<lambda>(j, g'). (j, Some (i, j))) (match_at r s i g)"

section \<open>Searching and replacing\<close>

definition first_match :: "regex \<Rightarrow> string \<Rightarrow> nat \<Rightarrow> (nat \<times> span) option" where
  "first_match r s i = (case match_at r s i None of [] \<Rightarrow> None | e # es \<Rightarrow> Some e)"

definition search :: "regex \<Rightarrow> string \<Rightarrow> bool" where
  "search r s \<longleftrightarrow> list_ex (\<lambda>i. first_match r s i \<noteq> None) [0..<Suc (length s)]"

definition group_text :: "string \<Rightarrow> span \<Rightarrow> string" where
  "group_text s g = (case g of None \<Rightarrow> [] | Some (a, b) \<Rightarrow> drop a (take b s))"

text \<open>\<open>r.match(s)\<close>, with the text of the group.\<close>

definition re_match :: "regex \<Rightarrow> string \<Rightarrow> string option" where
  "re_match r s = map_option (\<lambda>(j, g). group_text s g) (first_match r s 0)"

text \<open>
  \<open>r.subn(f, s)\<close> from position \<open>i\<close> on, for expressions that match no empty string: the text and
  the number of replacements. \<open>f\<close> gets the text of the match and of its group.
\<close>

function subn_from :: "regex \<Rightarrow> (string \<Rightarrow> string \<Rightarrow> string) \<Rightarrow> string \<Rightarrow> nat \<Rightarrow> string \<times> nat" where
  "subn_from r f s i =
     (if length s \<le> i then ([], 0)
      else case first_match r s i of
             Some (j, g) \<Rightarrow>
               if i < j then (case subn_from r f s j of (t, n) \<Rightarrow> (f (drop i (take j s)) (group_text s g) @ t, Suc n))
               else (case subn_from r f s (Suc i) of (t, n) \<Rightarrow> (s ! i # t, n))
           | None \<Rightarrow> (case subn_from r f s (Suc i) of (t, n) \<Rightarrow> (s ! i # t, n)))"
  by auto
termination
  by (relation "measure (\<lambda>(r, f, s, i). length s - i)") auto

declare subn_from.simps [simp del]

definition subn :: "regex \<Rightarrow> string \<Rightarrow> string \<Rightarrow> string \<times> nat" where
  "subn r repl s = subn_from r (\<lambda>m g. repl) s 0"

definition sub :: "regex \<Rightarrow> string \<Rightarrow> string \<Rightarrow> string" where
  "sub r repl s = fst (subn r repl s)"

definition sub_group :: "regex \<Rightarrow> string \<Rightarrow> string" where
  "sub_group r s = fst (subn_from r (\<lambda>m g. g) s 0)"

section \<open>Building expressions\<close>

definition dot :: regex where
  "dot = Cls (\<lambda>c. \<not> is_newline c)"

definition any_of :: "string \<Rightarrow> regex" where
  "any_of cs = Cls (\<lambda>c. c \<in> set cs)"

definition lit :: "string \<Rightarrow> regex" where
  "lit s = foldr (\<lambda>c r. Sq (Cls ((=) c)) r) s Eps"

definition ilit :: "string \<Rightarrow> regex" where
  "ilit s = foldr (\<lambda>c r. Sq (Cls (\<lambda>d. lower_char d = lower_char c)) r) s Eps"

definition seq :: "regex list \<Rightarrow> regex" where
  "seq rs = foldr Sq rs Eps"

definition plus :: "regex \<Rightarrow> regex" where
  "plus r = Rep 1 None True r"

definition star :: "regex \<Rightarrow> regex" where
  "star r = Rep 0 None True r"

definition opt :: "regex \<Rightarrow> regex" where
  "opt r = Rep 0 (Some 1) True r"

definition times :: "nat \<Rightarrow> regex \<Rightarrow> regex" where
  "times n r = Rep n (Some n) True r"

definition alnum :: "char \<Rightarrow> bool" where
  "alnum c \<longleftrightarrow> 97 \<le> code c \<and> code c \<le> 122 \<or> 65 \<le> code c \<and> code c \<le> 90 \<or> is_digit c"

definition upper :: "char \<Rightarrow> bool" where
  "upper c \<longleftrightarrow> 65 \<le> code c \<and> code c \<le> 90"

section \<open>Laws\<close>

lemma rep_ends:
  assumes "\<And>i g j g'. (j, g') \<in> set (m i g) \<Longrightarrow> i \<le> j \<and> (i \<le> len \<longrightarrow> j \<le> len)"
  shows "(j, g') \<in> set (rep m greedy k n i g) \<Longrightarrow> i \<le> j \<and> (i \<le> len \<longrightarrow> j \<le> len)"
proof (induction n arbitrary: k i g)
  case (Suc n)
  consider "(j, g') = (i, g)" | x h where "(x, h) \<in> set (m i g)" "(j, g') \<in> set (rep m greedy (k - 1) n x h)"
    using Suc.prems by (auto simp: Let_def split: if_splits)
  then show ?case
  proof cases
    case 2
    then show ?thesis using assms [OF 2(1)] Suc.IH [OF 2(2)] by auto
  qed simp
qed (simp split: if_splits)

text \<open>A match ends at or after the position where it starts, and within the text.\<close>

lemma match_at_ends: "(j, g') \<in> set (match_at r s i g) \<Longrightarrow> i \<le> j \<and> (i \<le> length s \<longrightarrow> j \<le> length s)"
proof (induction r arbitrary: i g j g')
  case (Sq r1 r2)
  then show ?case by fastforce
next
  case (Rep k n greedy r)
  then show ?case using rep_ends [of "match_at r s" "length s" j g' greedy k _ i g] by fastforce
qed (auto split: if_splits)

text \<open>Where nothing matches a replacement changes nothing.\<close>

lemma subn_from_none:
  assumes "\<And>k. i \<le> k \<Longrightarrow> k < length s \<Longrightarrow> first_match r s k = None"
  shows "subn_from r f s i = (drop i s, 0)"
  using assms
proof (induction "length s - i" arbitrary: i)
  case 0
  then show ?case by (subst subn_from.simps) simp
next
  case (Suc n)
  then have "subn_from r f s (Suc i) = (drop (Suc i) s, 0)" by simp
  moreover have "i < length s" using Suc(2) by simp
  ultimately show ?case using Suc.prems [of i] by (subst subn_from.simps) (simp add: Cons_nth_drop_Suc)
qed

lemma subn_no_match: "\<not> search r s \<Longrightarrow> subn r repl s = (s, 0)"
proof -
  assume "\<not> search r s"
  then have "first_match r s k = None" if "k < length s" for k
    using that by (cases "first_match r s k") (force simp: search_def list_ex_iff)+
  then show ?thesis unfolding subn_def by (subst subn_from_none) simp_all
qed

text \<open>When nothing was replaced, no match at a later position consumed anything.\<close>

lemma subn_from_zero:
  assumes "snd (subn_from r f s i) = 0" "i \<le> k" "k < length s" "first_match r s k = Some (j, g)"
  shows "j \<le> k"
  using assms
proof (induction "length s - i" arbitrary: i)
  case (Suc n)
  have i: "i < length s" using Suc(2) by simp
  have step: "\<not> (\<exists>j g. first_match r s i = Some (j, g) \<and> i < j) \<and> snd (subn_from r f s (Suc i)) = 0"
    using Suc.prems(1) i by (subst (asm) subn_from.simps) (auto split: option.splits prod.splits if_splits)
  then show ?case
  proof (cases "k = i")
    case False
    then show ?thesis using Suc.hyps(1) [of "Suc i"] Suc(2) step Suc.prems(2-4) by simp
  qed (use Suc.prems(4) in force)
qed simp

text \<open>A literal matches in one way, and a greedy repetition first as far as its class goes.\<close>

lemma match_lit: "match_at (lit p) s i g = (if take (length p) (drop i s) = p then [(i + length p, g)] else [])"
proof (induction p arbitrary: i)
  case (Cons c p)
  have "match_at (lit (c # p)) s i g = (if i < length s \<and> c = s ! i then match_at (lit p) s (i + 1) g else [])"
    by (cases "i < length s \<and> c = s ! i") (auto simp: lit_def)
  also have "\<dots> = (if take (length (c # p)) (drop i s) = c # p then [(i + length (c # p), g)] else [])"
    by (cases "i < length s") (auto simp: Cons Cons_nth_drop_Suc [symmetric])
  finally show ?case .
qed (simp add: lit_def)

lemma rep_greedy_all:
  assumes m: "\<And>j h. m j h = (if j < length s \<and> P (s ! j) then [(j + 1, h)] else [])"
    and "i \<le> length s" "\<And>j. i \<le> j \<Longrightarrow> j < length s \<Longrightarrow> P (s ! j)" "k \<le> length s - i" "length s - i \<le> n"
  shows "\<exists>es. rep m True k n i g = (length s, g) # es"
  using assms(2-)
proof (induction n arbitrary: i k)
  case (Suc n)
  show ?case
  proof (cases "i = length s")
    case False
    then have "i + 1 \<le> length s" "\<And>j. i + 1 \<le> j \<Longrightarrow> j < length s \<Longrightarrow> P (s ! j)" "k - 1 \<le> length s - (i + 1)" "length s - (i + 1) \<le> n"
      using Suc.prems by auto
    from Suc.IH [OF this] obtain es where "rep m True (k - 1) n (i + 1) g = (length s, g) # es" by blast
    moreover have "m i g = [(i + 1, g)]" using m [of i g] Suc.prems(1) Suc.prems(2) [of i] False by simp
    ultimately show ?thesis by simp
  next
    case True
    then show ?thesis using Suc.prems(3) m [of i g] by simp
  qed
qed simp

text \<open>Groups do not change where an expression matches.\<close>

lemma concat_fst:
  "map fst xs = map fst ys \<Longrightarrow> (\<And>j g h. map fst (F (j, g)) = map fst (G (j, h))) \<Longrightarrow>
   map fst (concat (map F xs)) = map fst (concat (map G ys))"
proof (induction xs arbitrary: ys)
  case (Cons x xs)
  then obtain y zs where "ys = y # zs" "fst x = fst y" "map fst xs = map fst zs" by (cases ys) auto
  then show ?case using Cons.IH [of zs] Cons.prems(2) by (cases x, cases y) auto
qed simp

lemma rep_fst:
  assumes "\<And>i g h. map fst (m i g) = map fst (m' i h)"
  shows "map fst (rep m greedy k n i g) = map fst (rep m' greedy k n i h)"
proof (induction n arbitrary: k i g h)
  case (Suc n)
  have "map fst (concat (map (\<lambda>(j, g'). if k = 0 \<and> j = i then [] else rep m greedy (k - 1) n j g') (m i g))) =
      map fst (concat (map (\<lambda>(j, g'). if k = 0 \<and> j = i then [] else rep m' greedy (k - 1) n j g') (m' i h)))"
    by (rule concat_fst [OF assms]) (use Suc in auto)
  then show ?case by (simp add: Let_def)
qed simp

lemma match_at_fst: "map fst (match_at r s i g) = map fst (match_at r s i h)"
proof (induction r arbitrary: i g h)
  case (Sq r1 r2)
  show ?case unfolding match_at.simps by (rule concat_fst [OF Sq(1)]) (use Sq(2) in auto)
next
  case (Or r1 r2)
  show ?case unfolding match_at.simps map_append by (rule arg_cong2 [OF Or(1,2)])
next
  case (Rep k n greedy r)
  then show ?case by (auto intro!: rep_fst)
next
  case (Group r)
  have "map fst (match_at (Group r) s i g') = map fst (match_at r s i g')" for g' by (simp add: comp_def case_prod_beta)
  then show ?case using Group by metis
qed auto

lemma match_at_Group: "map fst (match_at (Group r) s i g) = map fst (match_at r s i h)"
  using match_at_fst [of r s i g h] by (simp add: comp_def case_prod_beta)

lemma match_at_Sq:
  "(\<And>i g h. map fst (match_at r1 s i g) = map fst (match_at r1' s i h)) \<Longrightarrow>
   (\<And>i g h. map fst (match_at r2 s i g) = map fst (match_at r2' s i h)) \<Longrightarrow>
   map fst (match_at (Sq r1 r2) s i g) = map fst (match_at (Sq r1' r2') s i h)"
  unfolding match_at.simps by (rule concat_fst) auto

lemma re_match_None: "re_match r s = None \<longleftrightarrow> map fst (match_at r s 0 None) = []"
  by (simp add: re_match_def first_match_def split: list.split)

end
