(* ===== verification/Builtin_Plugins.thy ===== *)
theory Builtin_Plugins
  imports Plugins Py_Regex Circuit_Breaker
begin

text \<open>
  The built-in plugins of \<open>plugins/builtins/\<close>. A hook of a plugin that keeps state is a function
  from the state and the context to the new state and the result; the framework of the theory
  \<open>Plugins\<close> calls it with the state of the moment. Readings of the clock and of \<open>random\<close> are
  arguments. What a hook writes into its snapshot before it raises is lost and left out.
\<close>

section \<open>Contexts\<close>

definition put :: "string \<Rightarrow> pyval \<Rightarrow> PluginContext \<Rightarrow> PluginContext" where
  "put k v ctx = ctx\<lparr>pc_metadata := dict_set k (MVal v) (pc_metadata ctx)\<rparr>"

definition meta_true :: "string \<Rightarrow> PluginContext \<Rightarrow> bool" where
  "meta_true k ctx = (case dict_get (pc_metadata ctx) k of None \<Rightarrow> False | Some (MVal v) \<Rightarrow> py_truthy v | Some (MUser u) \<Rightarrow> True)"

definition call_key :: "PluginContext \<Rightarrow> string \<times> string" where
  "call_key ctx = (pc_server ctx, pc_capability ctx)"

text \<open>The format \<open>:.1f\<close>.\<close>

definition fmt1 :: "rat \<Rightarrow> string" where
  "fmt1 x = (let n = round_even (10 * x); m = \<bar>n\<bar>
             in (if n < 0 then ''-'' else []) @ show_int (m div 10) @ ''.'' @ show_int (m mod 10))"

text \<open>How a number rounded to thousandths prints (below 10 to the 16th).\<close>

definition show_milli :: "rat \<Rightarrow> string" where
  "show_milli x =
     (let n = round_even (1000 * x); m = \<bar>n\<bar> mod 1000;
          ds = [m div 100, m div 10 mod 10, m mod 10];
          kept = (if m mod 100 = 0 then take 1 ds else if m mod 10 = 0 then take 2 ds else ds)
      in (if n < 0 then ''-'' else []) @ show_int (\<bar>n\<bar> div 1000) @ ''.'' @ concat (map show_int kept))"

text \<open>
  The regular expressions of the optional compiled engine (\<open>plugins/builtins_rust\<close>, on a
  third-party library): how many matches the pattern of a name has in a text, and the text with
  all of them replaced.
\<close>

record regex_crate =
  rx_count :: "string \<Rightarrow> string \<Rightarrow> nat"
  rx_replace_all :: "string \<Rightarrow> string \<Rightarrow> string \<Rightarrow> string"

section \<open>Rate limiter\<close>

record RateLimiterPlugin =
  rp_max_requests :: int
  rp_window_seconds :: int
  rp_windows :: "(string \<times> string, int \<times> rat) dict"

definition new_rate_limiter :: "int \<Rightarrow> int \<Rightarrow> RateLimiterPlugin" where
  "new_rate_limiter max_requests window_seconds = \<lparr>rp_max_requests = max_requests, rp_window_seconds = window_seconds, rp_windows = []\<rparr>"

text \<open>The counter a call finds: the one of the key, or a new one when there is none or its window is over.\<close>

definition window_counter :: "rat \<Rightarrow> RateLimiterPlugin \<Rightarrow> string \<times> string \<Rightarrow> int \<times> rat" where
  "window_counter now p key =
     (case dict_get (rp_windows p) key of
        Some (count, start) \<Rightarrow> if now - start \<ge> of_int (rp_window_seconds p) then (0, now) else (count, start)
      | None \<Rightarrow> (0, now))"

definition rate_limited :: "PluginContext \<Rightarrow> int \<Rightarrow> rat \<Rightarrow> RateLimiterPlugin \<Rightarrow> exn" where
  "rate_limited ctx count remaining p =
     ValueError (''Rate limit exceeded for '' @ pc_server ctx @ ''/'' @ pc_capability ctx @ '': '' @ show_int count @ ''/'' @
       show_int (rp_max_requests p) @ '' in '' @ show_int (rp_window_seconds p) @ ''s window. Retry after '' @ fmt1 remaining @ ''s.'')"

definition rate_pre_invoke :: "rat \<Rightarrow> RateLimiterPlugin \<Rightarrow> PluginContext \<Rightarrow> RateLimiterPlugin \<times> PluginContext res" where
  "rate_pre_invoke now p ctx =
     (case window_counter now p (call_key ctx) of
        (c, start) \<Rightarrow>
          (let count = c + 1;
               p' = p\<lparr>rp_windows := dict_set (call_key ctx) (count, start) (rp_windows p)\<rparr>
           in if count > rp_max_requests p then (p', Inl (rate_limited ctx count (of_int (rp_window_seconds p) - (now - start)) p))
              else (p', Inr (put ''rate_limit_remaining'' (PInt (rp_max_requests p - count)) ctx))))"

definition rate_unload :: "RateLimiterPlugin \<Rightarrow> RateLimiterPlugin" where
  "rate_unload p = p\<lparr>rp_windows := []\<rparr>"

section \<open>Circuit breaker\<close>

datatype tool_state = tb_closed | tb_open | tb_half_open

record PerToolBreaker =
  tb_state :: tool_state
  tb_failures :: int
  tb_last_failure :: rat
  tb_threshold :: int
  tb_cooldown :: rat

definition new_tool_breaker :: "int \<Rightarrow> rat \<Rightarrow> PerToolBreaker" where
  "new_tool_breaker threshold cooldown =
     \<lparr>tb_state = tb_closed, tb_failures = 0, tb_last_failure = 0, tb_threshold = threshold, tb_cooldown = cooldown\<rparr>"

definition tool_allows :: "rat \<Rightarrow> PerToolBreaker \<Rightarrow> bool \<times> PerToolBreaker" where
  "tool_allows now b =
     (if tb_state b = tb_open
      then if now - tb_last_failure b \<ge> tb_cooldown b then (True, b\<lparr>tb_state := tb_half_open\<rparr>) else (False, b)
      else (True, b))"

definition tool_success :: "PerToolBreaker \<Rightarrow> PerToolBreaker" where
  "tool_success b = b\<lparr>tb_state := tb_closed, tb_failures := 0\<rparr>"

definition tool_failure :: "rat \<Rightarrow> PerToolBreaker \<Rightarrow> PerToolBreaker" where
  "tool_failure now b =
     (let b1 = b\<lparr>tb_failures := tb_failures b + 1, tb_last_failure := now\<rparr>
      in if tb_failures b1 \<ge> tb_threshold b1 then b1\<lparr>tb_state := tb_open\<rparr> else b1)"

fun tool_state_value :: "tool_state \<Rightarrow> string" where
  "tool_state_value tb_closed = ''closed''"
| "tool_state_value tb_open = ''open''"
| "tool_state_value tb_half_open = ''half_open''"

text \<open>\<open>cp_cooldown_text\<close> is the cooldown as it is printed.\<close>

record CircuitBreakerPlugin =
  cp_threshold :: int
  cp_cooldown :: rat
  cp_cooldown_text :: string
  cp_breakers :: "(string \<times> string, PerToolBreaker) dict"

definition get_tool_breaker :: "PluginContext \<Rightarrow> CircuitBreakerPlugin \<Rightarrow> PerToolBreaker" where
  "get_tool_breaker ctx p =
     (case dict_get (cp_breakers p) (call_key ctx) of Some b \<Rightarrow> b | None \<Rightarrow> new_tool_breaker (cp_threshold p) (cp_cooldown p))"

definition set_tool_breaker :: "PluginContext \<Rightarrow> PerToolBreaker \<Rightarrow> CircuitBreakerPlugin \<Rightarrow> CircuitBreakerPlugin" where
  "set_tool_breaker ctx b p = p\<lparr>cp_breakers := dict_set (call_key ctx) b (cp_breakers p)\<rparr>"

definition breaker_pre_invoke :: "rat \<Rightarrow> CircuitBreakerPlugin \<Rightarrow> PluginContext \<Rightarrow> CircuitBreakerPlugin \<times> PluginContext res" where
  "breaker_pre_invoke now p ctx =
     (case tool_allows now (get_tool_breaker ctx p) of
        (allowed, b) \<Rightarrow>
          (set_tool_breaker ctx b p,
           if allowed then Inr (put ''circuit_state'' (PStr (tool_state_value (tb_state b))) ctx)
           else Inl (ValueError (''Circuit open for '' @ pc_server ctx @ ''/'' @ pc_capability ctx @ '' ('' @ show_int (tb_failures b) @
                   '' failures, cooldown '' @ cp_cooldown_text p @ ''s)''))))"

definition breaker_post_invoke :: "rat \<Rightarrow> CircuitBreakerPlugin \<Rightarrow> PluginContext \<Rightarrow> CircuitBreakerPlugin \<times> PluginContext res" where
  "breaker_post_invoke now p ctx =
     (let b = (if meta_true ''error'' ctx then tool_failure now (get_tool_breaker ctx p) else tool_success (get_tool_breaker ctx p))
      in (set_tool_breaker ctx b p, Inr (put ''circuit_state'' (PStr (tool_state_value (tb_state b))) ctx)))"

section \<open>Response cache\<close>

record ResponseCachePlugin =
  rc_ttl :: int
  rc_max_entries :: int
  rc_cache :: "(string, mcp_result \<times> rat) dict"

text \<open>\<open>key\<close> stands for the hash of server, capability and arguments.\<close>

definition evict_expired :: "rat \<Rightarrow> ResponseCachePlugin \<Rightarrow> ResponseCachePlugin" where
  "evict_expired now p = p\<lparr>rc_cache := filter (\<lambda>(k, r, ts). \<not> now - ts > of_int (rc_ttl p)) (rc_cache p)\<rparr>"

text \<open>\<open>min\<close> of an empty dictionary raises.\<close>

fun oldest_key :: "(string, mcp_result \<times> rat) dict \<Rightarrow> string option" where
  "oldest_key [] = None"
| "oldest_key ((k, r, ts) # d) =
     (case oldest_key d of
        None \<Rightarrow> Some k
      | Some k' \<Rightarrow> if snd (the (dict_get d k')) < ts then Some k' else Some k)"

definition evict_oldest :: "ResponseCachePlugin \<Rightarrow> ResponseCachePlugin res" where
  "evict_oldest p =
     (if int (length (rc_cache p)) \<ge> rc_max_entries p
      then case oldest_key (rc_cache p) of
             None \<Rightarrow> Inl (ValueError ''min() arg is an empty sequence'')
           | Some k \<Rightarrow> Inr (p\<lparr>rc_cache := dict_del k (rc_cache p)\<rparr>)
      else Inr p)"

definition cache_pre_invoke ::
    "(string \<Rightarrow> string \<Rightarrow> (string, pyval) dict \<Rightarrow> string) \<Rightarrow> rat \<Rightarrow> rat \<Rightarrow> ResponseCachePlugin \<Rightarrow> PluginContext \<Rightarrow>
     ResponseCachePlugin \<times> PluginContext res" where
  "cache_pre_invoke key now now' p ctx =
     (let p1 = evict_expired now p;
          k = key (pc_server ctx) (pc_capability ctx) (pc_arguments ctx);
          miss = (\<lambda>p. (p, Inr (put ''_cache_key'' (PStr k) (put ''cache_hit'' (PBool False) ctx))))
      in case dict_get (rc_cache p1) k of
           Some (r, ts) \<Rightarrow>
             if now' - ts \<le> of_int (rc_ttl p1) then (p1, Inr (put ''cache_hit'' (PBool True) (ctx\<lparr>pc_result := r\<rparr>)))
             else miss (p1\<lparr>rc_cache := dict_del k (rc_cache p1)\<rparr>)
         | None \<Rightarrow> miss p1)"

definition cache_post_invoke :: "rat \<Rightarrow> ResponseCachePlugin \<Rightarrow> PluginContext \<Rightarrow> ResponseCachePlugin \<times> PluginContext res" where
  "cache_post_invoke now p ctx =
     (if meta_true ''cache_hit'' ctx then (p, Inr ctx)
      else case dict_get (pc_metadata ctx) ''_cache_key'' of
             Some (MVal (PStr k)) \<Rightarrow>
               (let ctx1 = ctx\<lparr>pc_metadata := dict_del ''_cache_key'' (pc_metadata ctx)\<rparr>
                in if meta_true ''error'' ctx1 then (p, Inr ctx1)
                   else case evict_oldest p of
                          Inl e \<Rightarrow> (p, Inl e)
                        | Inr p1 \<Rightarrow> (p1\<lparr>rc_cache := dict_set k (pc_result ctx1, now) (rc_cache p1)\<rparr>, Inr (put ''cache_stored'' (PBool True) ctx1)))
           | _ \<Rightarrow> (p, Inr ctx))"

section \<open>Texts of results\<close>

text \<open>\<open>isinstance(ctx.result, str)\<close>.\<close>

definition result_text :: "PluginContext \<Rightarrow> string option" where
  "result_text ctx = (case pc_result ctx of OtherResult (PStr s) \<Rightarrow> Some s | _ \<Rightarrow> None)"

definition set_text :: "string \<Rightarrow> PluginContext \<Rightarrow> PluginContext" where
  "set_text s ctx = ctx\<lparr>pc_result := OtherResult (PStr s)\<rparr>"

text \<open>Output length guard: \<open>max_length\<close> and the suffix are settings.\<close>

definition guard_post_invoke :: "int \<Rightarrow> string \<Rightarrow> PluginContext \<Rightarrow> PluginContext res" where
  "guard_post_invoke max_length suffix ctx =
     (case result_text ctx of
        None \<Rightarrow> Inr ctx
      | Some s \<Rightarrow>
          if int (length s) \<le> max_length then Inr (put ''output_truncated'' (PBool False) ctx)
          else let cut_at = max 0 (max_length - int (length suffix))
               in Inr (put ''output_original_length'' (PInt (int (length s)))
                    (put ''output_truncated'' (PBool True) (set_text (take (nat cut_at) s @ suffix) ctx))))"

section \<open>Retry suggestions\<close>

record RetryWithBackoffPlugin =
  rb_max_retries :: int
  rb_base_delay :: rat
  rb_backoff_factor :: rat
  rb_max_delay :: rat

text \<open>\<open>u\<close> is the reading of \<open>random.random()\<close>.\<close>

definition backoff_delay :: "RetryWithBackoffPlugin \<Rightarrow> nat \<Rightarrow> rat \<Rightarrow> rat" where
  "backoff_delay p attempt u =
     (let delay = min (rb_base_delay p * rb_backoff_factor p ^ attempt) (rb_max_delay p);
          jitter = delay * (1/4) * (2 * u - 1)
      in max 0 (delay + jitter))"

definition retry_attempt :: "PluginContext \<Rightarrow> nat" where
  "retry_attempt ctx = (case dict_get (pc_metadata ctx) ''retry_attempt'' of Some (MVal (PInt n)) \<Rightarrow> nat n | _ \<Rightarrow> 0)"

text \<open>The hook and the time it sleeps; the delay in the metadata is rounded.\<close>

definition retry_post_invoke :: "rat \<Rightarrow> RetryWithBackoffPlugin \<Rightarrow> PluginContext \<Rightarrow> rat \<times> PluginContext res" where
  "retry_post_invoke u p ctx =
     (if \<not> meta_true ''error'' ctx then (0, Inr (ctx\<lparr>pc_metadata := dict_del ''retry_attempt'' (pc_metadata ctx)\<rparr>))
      else let attempt = retry_attempt ctx
           in if int attempt \<ge> rb_max_retries p then (0, Inr (put ''retries_exhausted'' (PBool True) ctx))
              else let delay = backoff_delay p attempt u
                   in (delay, Inr (put ''retry_suggested'' (PBool True)
                                (put ''retry_delay'' (PObj ''float'' (show_milli delay))
                                   (put ''retry_attempt'' (PInt (int attempt + 1)) ctx)))))"

section \<open>Personal data\<close>

definition digit :: regex where "digit = Cls is_digit"
definition opt_sep :: regex where "opt_sep = opt (Cls (\<lambda>c. c = CHR ''-'' \<or> c = CHR ''.'' \<or> is_space c))"

definition PII_PATTERNS :: "(string \<times> regex \<times> string) list" where
  "PII_PATTERNS =
     [(''email'', seq [plus (Cls (\<lambda>c. alnum c \<or> c \<in> set ''_.+-'')), lit ''@'', plus (Cls (\<lambda>c. alnum c \<or> c = CHR ''-'')), lit ''.'',
         plus (Cls (\<lambda>c. alnum c \<or> c \<in> set ''-.''))], ''***EMAIL***''),
      (''ssn'', seq [Boundary, times 3 digit, lit ''-'', times 2 digit, lit ''-'', times 4 digit, Boundary], ''***SSN***''),
      (''credit_card'', seq [Boundary, Rep 13 (Some 19) True (Sq digit (Rep 0 None False (any_of '' -''))), Boundary], ''***CC***''),
      (''phone_us'', seq [Boundary, opt (seq [lit ''+1'', opt_sep]), opt (lit ''(''), times 3 digit, opt (lit '')''), opt_sep, times 3 digit,
         opt_sep, times 4 digit, Boundary], ''***PHONE***''),
      (''passport'', seq [Boundary, Rep 1 (Some 2) True (Cls upper), Rep 6 (Some 9) True digit, Boundary], ''***PASSPORT***'')]"

definition active_patterns :: "string list \<Rightarrow> (string \<times> regex \<times> string) list" where
  "active_patterns categories = (if categories \<noteq> [] then filter (\<lambda>(n, r, m). n \<in> set categories) PII_PATTERNS else PII_PATTERNS)"

fun mask_string :: "(string \<times> regex \<times> string) list \<Rightarrow> string \<Rightarrow> string \<times> (string, nat) dict" where
  "mask_string [] s = (s, [])"
| "mask_string ((name, r, repl) # ps) s =
     (case subn r repl s of
        (t, n) \<Rightarrow> if n = 0 then mask_string ps s else (case mask_string ps t of (u, counts) \<Rightarrow> (u, (name, n) # counts)))"

text \<open>The compiled engine: its patterns by name, and one pass over a text that has any match.\<close>

definition PII_DEFS :: "(string \<times> string) list" where
  "PII_DEFS = [(''email'', ''***EMAIL***''), (''ssn'', ''***SSN***''), (''credit_card'', ''***CC***''), (''phone_us'', ''***PHONE***''),
     (''passport'', ''***PASSPORT***'')]"

definition rust_patterns :: "string list \<Rightarrow> (string \<times> string) list" where
  "rust_patterns categories = (if categories \<noteq> [] then filter (\<lambda>(n, m). n \<in> set categories) PII_DEFS else PII_DEFS)"

fun rust_mask :: "regex_crate \<Rightarrow> (string \<times> string) list \<Rightarrow> string \<Rightarrow> string \<times> (string, nat) dict" where
  "rust_mask rx [] s = (s, [])"
| "rust_mask rx ((name, repl) # ps) s =
     (let n = rx_count rx name s
      in if n = 0 then rust_mask rx ps s
         else case rust_mask rx ps (rx_replace_all rx name repl s) of (u, counts) \<Rightarrow> (u, (name, n) # counts))"

definition rust_mask_string :: "regex_crate \<Rightarrow> (string \<times> string) list \<Rightarrow> string \<Rightarrow> string \<times> (string, nat) dict" where
  "rust_mask_string rx ps s = (if \<not> list_ex (\<lambda>(n, m). 0 < rx_count rx n s) ps then (s, []) else rust_mask rx ps s)"

definition mask_text :: "regex_crate option \<Rightarrow> string list \<Rightarrow> string \<Rightarrow> string \<times> (string, nat) dict" where
  "mask_text engine categories s =
     (case engine of
        Some rx \<Rightarrow> rust_mask_string rx (rust_patterns categories) s
      | None \<Rightarrow> mask_string (active_patterns categories) s)"

definition add_counts :: "(string, nat) dict \<Rightarrow> (string, nat) dict \<Rightarrow> (string, nat) dict" where
  "add_counts tot counts = fold (\<lambda>(cat, n) t. dict_set cat (dict_get_or 0 t cat + n) t) counts tot"

definition mask_value :: "regex_crate option \<Rightarrow> string list \<Rightarrow> pyval \<Rightarrow> pyval \<times> (string, nat) dict" where
  "mask_value engine cats v =
     (case v of PStr s \<Rightarrow> (case mask_text engine cats s of (t, c) \<Rightarrow> (if c = [] then v else PStr t, c)) | _ \<Rightarrow> (v, []))"

definition mask_dict ::
  "regex_crate option \<Rightarrow> string list \<Rightarrow> (string, pyval) dict \<Rightarrow> (string, pyval) dict \<times> (string, nat) dict" where
  "mask_dict engine cats d =
     (map (\<lambda>(k, v). (k, fst (mask_value engine cats v))) d, fold (\<lambda>(k, v) t. add_counts t (snd (mask_value engine cats v))) d [])"

definition counts_value :: "(string, nat) dict \<Rightarrow> pyval" where
  "counts_value c = PDict (map (\<lambda>(k, n). (k, PInt (int n))) c)"

definition pii_pre_invoke :: "regex_crate option \<Rightarrow> string list \<Rightarrow> PluginContext \<Rightarrow> PluginContext res" where
  "pii_pre_invoke engine categories ctx =
     (case mask_dict engine categories (pc_arguments ctx) of
        (args, counts) \<Rightarrow>
          (let ctx1 = ctx\<lparr>pc_arguments := args\<rparr>
           in Inr (if counts = [] then ctx1 else put ''pii_pre_masked'' (counts_value counts) ctx1)))"

definition pii_post_invoke :: "regex_crate option \<Rightarrow> string list \<Rightarrow> PluginContext \<Rightarrow> PluginContext res" where
  "pii_post_invoke engine categories ctx =
     (case result_text ctx of
        None \<Rightarrow> Inr ctx
      | Some s \<Rightarrow>
          (case mask_text engine categories s of
             (t, counts) \<Rightarrow> if counts = [] then Inr ctx else Inr (put ''pii_post_masked'' (counts_value counts) (set_text t ctx))))"

section \<open>Secrets\<close>

definition not_alnum :: regex where "not_alnum = Cls (\<lambda>c. \<not> alnum c)"
definition jwt_char :: regex where "jwt_char = Cls (\<lambda>c. alnum c \<or> c \<in> set ''_-'')"

definition SECRET_PATTERNS :: "(string \<times> regex) list" where
  "SECRET_PATTERNS =
     [(''AWS Access Key'', seq [Or TextStart not_alnum, Or (lit ''AKIA'') (lit ''ASIA''), times 16 (Cls (\<lambda>c. upper c \<or> is_digit c)), Or not_alnum TextEnd]),
      (''AWS Secret Key'', seq [Or (ilit ''aws_secret_access_key'') (ilit ''secret_key''), star (Cls is_space), any_of '':='', star (Cls is_space),
         Rep 20 None True (Cls (\<lambda>c. \<not> is_space c))]),
      (''JWT'', seq [lit ''eyJ'', Rep 10 None True jwt_char, lit ''.eyJ'', Rep 10 None True jwt_char, lit ''.'', Rep 10 None True jwt_char]),
      (''Private Key'', seq [lit ''-----BEGIN '', opt (Or (lit ''RSA '') (Or (lit ''EC '') (Or (lit ''DSA '') (lit ''OPENSSH '')))), lit ''PRIVATE KEY-----'']),
      (''GitHub Token'', seq [lit ''gh'', any_of ''ps'', lit ''_'', Rep 36 None True (Cls (\<lambda>c. alnum c \<or> c = CHR ''_''))]),
      (''Generic Bearer'', seq [ilit ''Bearer'', plus (Cls is_space), Rep 20 None True (Cls (\<lambda>c. alnum c \<or> c \<in> set ''._~+/=-''))])]"

definition REDACTION :: string where
  "REDACTION = ''***REDACTED***''"

text \<open>The message of a refusal.\<close>

definition blocked :: "string \<Rightarrow> string \<Rightarrow> exn" where
  "blocked label key = ValueError (''Blocked: '' @ label @ '' detected in argument '' @ CHR 0x27 # key @ [CHR 0x27])"

text \<open>One argument: the patterns are tried on the value the argument had, not on what was redacted so far.\<close>

fun scan_argument :: "bool \<Rightarrow> string \<Rightarrow> string \<Rightarrow> (string \<times> regex) list \<Rightarrow> pyval \<times> bool \<Rightarrow> (pyval \<times> bool) res" where
  "scan_argument block key value [] acc = Inr acc"
| "scan_argument block key value ((label, r) # ps) acc =
     (if search r value
      then if block then Inl (blocked label key) else scan_argument block key value ps (PStr (sub r REDACTION value), True)
      else scan_argument block key value ps acc)"

text \<open>The compiled engine.\<close>

definition SECRET_DEFS :: "string list" where
  "SECRET_DEFS = [''AWS Access Key'', ''AWS Secret Key'', ''JWT'', ''Private Key'', ''GitHub Token'', ''Generic Bearer'']"

definition rust_scan :: "regex_crate \<Rightarrow> string \<Rightarrow> string list" where
  "rust_scan rx s = filter (\<lambda>label. 0 < rx_count rx label s) SECRET_DEFS"

definition has_secrets :: "regex_crate \<Rightarrow> string \<Rightarrow> bool" where
  "has_secrets rx s = list_ex (\<lambda>label. 0 < rx_count rx label s) SECRET_DEFS"

definition rust_redact :: "regex_crate \<Rightarrow> string \<Rightarrow> string" where
  "rust_redact rx s = (if \<not> has_secrets rx s then s else fold (\<lambda>label. rx_replace_all rx label REDACTION) SECRET_DEFS s)"

fun scan_value :: "regex_crate option \<Rightarrow> bool \<Rightarrow> string \<Rightarrow> pyval \<Rightarrow> (pyval \<times> bool) res" where
  "scan_value (Some rx) block key (PStr s) =
     (case rust_scan rx s of
        [] \<Rightarrow> Inr (PStr s, False)
      | label # ls \<Rightarrow> if block then Inl (blocked label key) else Inr (PStr (rust_redact rx s), True))"
| "scan_value None block key (PStr s) = scan_argument block key s SECRET_PATTERNS (PStr s, False)"
| "scan_value engine block key v = Inr (v, False)"

fun scan_arguments :: "regex_crate option \<Rightarrow> bool \<Rightarrow> (string, pyval) dict \<Rightarrow> ((string, pyval) dict \<times> bool) res" where
  "scan_arguments engine block [] = Inr ([], False)"
| "scan_arguments engine block ((key, v) # d) =
     (case scan_value engine block key v of
        Inl e \<Rightarrow> Inl e
      | Inr (v', found) \<Rightarrow>
          (case scan_arguments engine block d of Inl e \<Rightarrow> Inl e | Inr (d', found') \<Rightarrow> Inr ((key, v') # d', found \<or> found')))"

definition secrets_pre_invoke :: "regex_crate option \<Rightarrow> bool \<Rightarrow> PluginContext \<Rightarrow> PluginContext res" where
  "secrets_pre_invoke engine block ctx =
     (case scan_arguments engine block (pc_arguments ctx) of
        Inl e \<Rightarrow> Inl e
      | Inr (args, found) \<Rightarrow>
          (let ctx1 = ctx\<lparr>pc_arguments := args\<rparr> in Inr (if found then put ''secrets_redacted'' (PBool True) ctx1 else ctx1)))"

text \<open>Results: here each pattern is tried on what the patterns before it left.\<close>

definition redact_text :: "regex_crate option \<Rightarrow> string \<Rightarrow> string \<times> bool" where
  "redact_text engine s =
     (case engine of
        Some rx \<Rightarrow> if has_secrets rx s then (rust_redact rx s, True) else (s, False)
      | None \<Rightarrow> fold (\<lambda>(label, r) (t, found). if search r t then (sub r REDACTION t, True) else (t, found)) SECRET_PATTERNS (s, False))"

definition secrets_post_invoke :: "regex_crate option \<Rightarrow> PluginContext \<Rightarrow> PluginContext res" where
  "secrets_post_invoke engine ctx =
     (case result_text ctx of
        None \<Rightarrow> Inr ctx
      | Some s \<Rightarrow>
          (case redact_text engine s of
             (t, found) \<Rightarrow> Inr (if found then put ''secrets_redacted_result'' (PBool True) (set_text t ctx) else ctx)))"

section \<open>Markdown\<close>

definition not_in :: "string \<Rightarrow> regex" where "not_in cs = Cls (\<lambda>c. c \<notin> set cs)"
definition url_part :: regex where "url_part = seq [lit '']('', plus (not_in '')''), lit '')'']"

definition IMAGE_RE :: regex where "IMAGE_RE = seq [lit ''!['', Group (star (not_in '']'')), url_part]"
definition LINK_RE :: regex where "LINK_RE = seq [lit ''['', Group (plus (not_in '']'')), url_part]"
definition HTML_TAG_RE :: regex where "HTML_TAG_RE = seq [lit ''<'', plus (not_in ''>''), lit ''>'']"
definition HEADING_RE :: regex where "HEADING_RE = seq [LineStart, Rep 1 (Some 6) True (lit ''#''), plus (Cls is_space)]"
definition BOLD_RE :: regex where "BOLD_RE = seq [lit ''**'', Group (Rep 1 None False dot), lit ''**'']"
definition ITALIC_RE :: regex where "ITALIC_RE = seq [lit ''*'', Group (Rep 1 None False dot), lit ''*'']"
definition STRIKETHROUGH_RE :: regex where "STRIKETHROUGH_RE = seq [lit ''~~'', Group (Rep 1 None False dot), lit ''~~'']"
definition INLINE_CODE_RE :: regex where "INLINE_CODE_RE = seq [lit ''`'', Group (plus (not_in ''`'')), lit ''`'']"
definition HR_RE :: regex where "HR_RE = seq [LineStart, Rep 3 None True (any_of ''-*_''), star (Cls is_space), LineEnd]"

definition markdown_clean :: "bool \<Rightarrow> bool \<Rightarrow> bool \<Rightarrow> string \<Rightarrow> string" where
  "markdown_clean strip_images strip_links strip_html s =
     (let s1 = (if strip_images then sub_group IMAGE_RE s else s);
          s2 = (if strip_links then sub_group LINK_RE s1 else s1);
          s3 = (if strip_html then sub HTML_TAG_RE [] s2 else s2)
      in sub HR_RE [] (sub_group INLINE_CODE_RE (sub_group STRIKETHROUGH_RE (sub_group ITALIC_RE (sub_group BOLD_RE (sub HEADING_RE [] s3))))))"

definition markdown_post_invoke :: "bool \<Rightarrow> bool \<Rightarrow> bool \<Rightarrow> PluginContext \<Rightarrow> PluginContext res" where
  "markdown_post_invoke images links html ctx =
     (case result_text ctx of
        None \<Rightarrow> Inr ctx
      | Some s \<Rightarrow>
          (let t = markdown_clean images links html s
           in Inr (if t \<noteq> s then put ''markdown_cleaned'' (PBool True) (set_text t ctx) else put ''markdown_cleaned'' (PBool False) ctx)))"

end
