(* ===== verification/Container_Build.thy ===== *)
theory Container_Build
  imports Py_Regex Http_Guards
begin

text \<open>
  Images for backends that run in containers: \<open>bridge/container/image_builder.py\<close> and
  \<open>bridge/container/templates/\<close> (validation, models, generators). Rendering a template (Jinja), the
  hash of a text, the images a container runtime knows, the outcome of a build and the files on
  disk are arguments, collected in a record. What is computed is which image is used, with which
  arguments, and which images are built on the way.
\<close>

section \<open>Texts\<close>

definition after_last :: "char \<Rightarrow> string \<Rightarrow> string" where
  "after_last c s = rev (takeWhile (\<lambda>x. x \<noteq> c) (rev s))"

definition before_last :: "char \<Rightarrow> string \<Rightarrow> string" where
  "before_last c s = rev (drop 1 (dropWhile (\<lambda>x. x \<noteq> c) (rev s)))"

definition removesuffix :: "string \<Rightarrow> string \<Rightarrow> string" where
  "removesuffix suf s = (if suf \<noteq> [] \<and> ends_with suf s then take (length s - length suf) s else s)"

section \<open>Validation\<close>

definition shell_unsafe :: "char \<Rightarrow> bool" where
  "shell_unsafe c \<longleftrightarrow> c \<in> set '';&|`$(){}[]<>!#~'' \<or> code c \<in> {10, 13, 92}"

abbreviation ValidationError :: "string \<Rightarrow> exn" where
  "ValidationError m \<equiv> OtherException ''ValidationError'' m"

definition ENV_KEY_PATTERN :: regex where
  "ENV_KEY_PATTERN = seq [TextStart, Cls upper, star (Cls (\<lambda>c. upper c \<or> is_digit c \<or> c = CHR ''_'')), TextEnd]"

definition SYSDEP_PATTERN :: regex where
  "SYSDEP_PATTERN = seq [TextStart, Cls alnum, star (Cls (\<lambda>c. alnum c \<or> c \<in> set ''._+-'')), TextEnd]"

definition RESERVED_ENV_KEYS :: "string list" where
  "RESERVED_ENV_KEYS = [''PATH'', ''HOME'', ''USER'', ''SHELL'', ''HOSTNAME'', ''UV_TOOL_DIR'', ''UV_TOOL_BIN_DIR'', ''NODE_PATH'']"

definition validate_package_name :: "string \<Rightarrow> string res" where
  "validate_package_name raw =
     (let name = str_strip raw
      in if name = [] then Inl (ValidationError ''Package name must not be empty'')
         else if list_ex shell_unsafe name then Inl (ValidationError (''Package name contains unsafe characters: '' @ repr_str name))
         else if length name > 256 then Inl (ValidationError (''Package name too long ('' @ show_nat (length name) @ '' > 256 chars)''))
         else Inr name)"

fun validate_system_deps :: "string list \<Rightarrow> string list res" where
  "validate_system_deps [] = Inr []"
| "validate_system_deps (raw # deps) =
     (let dep = str_strip raw
      in if dep = [] then validate_system_deps deps
         else if list_ex shell_unsafe dep then Inl (ValidationError (''System dependency contains unsafe characters: '' @ repr_str dep))
         else if re_match SYSDEP_PATTERN dep = None
         then Inl (ValidationError (''System dependency name is not a valid package name: '' @ repr_str dep))
         else if length dep > 128
         then Inl (ValidationError (''System dependency name too long ('' @ show_nat (length dep) @ '' > 128 chars): '' @ repr_str dep))
         else case validate_system_deps deps of Inl e \<Rightarrow> Inl e | Inr ds \<Rightarrow> Inr (dep # ds))"

definition validate_build_env_key :: "string \<Rightarrow> unit res" where
  "validate_build_env_key key =
     (if re_match ENV_KEY_PATTERN key = None
      then Inl (ValidationError (''Build env key must be uppercase letters, digits, and underscore (starting with a letter): '' @ repr_str key))
      else if key \<in> set RESERVED_ENV_KEYS then Inl (ValidationError (''Build env key is reserved: '' @ repr_str key))
      else Inr ())"

text \<open>The message lists the characters found; their order in the set is not specified and left out.\<close>

definition validate_build_env_value :: "string \<Rightarrow> unit res" where
  "validate_build_env_value value =
     (if list_ex (\<lambda>c. c \<in> set '';&|`$(){}'') value
      then Inl (ValidationError (''Build env value contains dangerous characters: '' @ repr_str value))
      else Inr ())"

section \<open>Packages\<close>

definition is_vcs_specifier :: "string \<Rightarrow> bool" where
  "is_vcs_specifier name =
     list_ex (\<lambda>p. starts_with p (str_lower name)) [''github:'', ''bitbucket:'', ''gitlab:'', ''git+https://'', ''git+ssh://'', ''git://'']"

text \<open>The part before the first \<open>sep\<close>, and after it.\<close>

fun split_at_text :: "string \<Rightarrow> string \<Rightarrow> (string \<times> string) option" where
  "split_at_text sep [] = (if sep = [] then Some ([], []) else None)"
| "split_at_text sep (c # s) =
     (if starts_with sep (c # s) then Some ([], drop (length sep) (c # s))
      else map_option (\<lambda>(a, b). (c # a, b)) (split_at_text sep s))"

definition vcs_repo_name :: "string \<Rightarrow> string" where
  "vcs_repo_name specifier =
     (let name = takeWhile (\<lambda>c. c \<noteq> CHR ''#'') specifier
      in case find (\<lambda>p. starts_with p (str_lower name)) [''github:'', ''bitbucket:'', ''gitlab:''] of
           Some p \<Rightarrow> removesuffix ''.git'' (after_last (CHR ''/'') (drop (length p) name))
         | None \<Rightarrow>
             (case split_at_text ''://'' name of
                None \<Rightarrow> name
              | Some (scheme, rest) \<Rightarrow>
                  (let path = (if CHR ''@'' \<in> set (hd (split_on (CHR ''/'') rest)) then drop 1 (dropWhile (\<lambda>c. c \<noteq> CHR ''@'') rest) else rest)
                   in removesuffix ''.git'' (after_last (CHR ''/'') (rstrip_by (\<lambda>c. c = CHR ''/'') path)))))"

definition strip_version :: "string \<Rightarrow> string" where
  "strip_version name =
     (if name = [] \<or> is_vcs_specifier name then name
      else let parts = split_on (CHR ''@'') name
           in if length parts \<le> 1 then name
              else if starts_with ''@'' name then (if length parts = 2 then name else CHR ''@'' # parts ! 1)
              else hd parts)"

definition sanitize_image_name :: "string \<Rightarrow> string" where
  "sanitize_image_name name =
     (let s = map (\<lambda>c. if alnum c \<or> c \<in> set ''._-'' then c else CHR ''-'') (lstrip_by (\<lambda>c. c = CHR ''@'') name)
      in rstrip_by (\<lambda>c. c = CHR ''-'') (lstrip_by (\<lambda>c. c = CHR ''-'') (str_lower s)))"

definition npm_bin_name :: "string \<Rightarrow> string" where
  "npm_bin_name clean_name =
     (if is_vcs_specifier clean_name then vcs_repo_name clean_name
      else if starts_with ''@'' clean_name \<and> CHR ''/'' \<in> set clean_name then drop 1 (dropWhile (\<lambda>c. c \<noteq> CHR ''/'') clean_name)
      else clean_name)"

definition compute_uvx_install_cmd :: "string \<Rightarrow> string" where
  "compute_uvx_install_cmd package =
     (if CHR ''@'' \<in> set package \<and> \<not> starts_with ''@'' package
      then let pkg_name = before_last (CHR ''@'') package; ver = after_last (CHR ''@'') package
           in if ver \<noteq> ''latest'' then ''uv tool install '' @ CHR 0x27 # pkg_name @ ''=='' @ ver @ [CHR 0x27]
              else ''uv tool install '' @ pkg_name
      else ''uv tool install '' @ package)"

definition strip_go_version :: "string \<Rightarrow> string" where
  "strip_go_version m = (if CHR ''@'' \<in> set m then before_last (CHR ''@'') m else m)"

section \<open>Arguments of the commands\<close>

definition uvx_flags_standalone :: "string list" where "uvx_flags_standalone = [''--force'', ''--reinstall'']"
definition uvx_flags_with_value :: "string list" where "uvx_flags_with_value = [''--python'', ''--with'', ''--index-url'']"

fun skip_uvx_flags :: "string list \<Rightarrow> string list" where
  "skip_uvx_flags [] = []"
| "skip_uvx_flags [f] = (if f \<in> set uvx_flags_standalone \<or> f \<in> set uvx_flags_with_value then [] else [f])"
| "skip_uvx_flags (f # g # rest) =
     (if f \<in> set uvx_flags_with_value then skip_uvx_flags rest
      else if f \<in> set uvx_flags_standalone then skip_uvx_flags (g # rest)
      else f # g # rest)"

text \<open>The pattern \<open>--from PACKAGE BINARY\<close>; an empty text counts as missing.\<close>

definition take_from :: "string list \<Rightarrow> string \<times> string \<times> string list" where
  "take_from args =
     (let idx = length (takeWhile (\<lambda>a. a \<noteq> ''--from'') args)
      in if idx + 2 < length args then (args ! (idx + 1), args ! (idx + 2), take idx args @ drop (idx + 3) args)
         else if idx + 1 < length args then (args ! (idx + 1), [], take idx args @ drop (idx + 2) args)
         else ([], [], args))"

definition parse_uvx_args :: "string list \<Rightarrow> string \<times> string \<times> string list" where
  "parse_uvx_args args =
     (case take_from args of
        (package, binary, remaining) \<Rightarrow>
          (let rest = skip_uvx_flags remaining;
               (package1, rest1) = (if package = [] \<and> rest \<noteq> [] then (hd rest, tl rest) else (package, rest));
               binary1 = (if binary = [] \<and> package1 \<noteq> [] then strip_version package1 else binary);
               package2 = (if package1 = [] then ''unknown'' else package1);
               binary2 = (if binary1 = [] then strip_version package2 else binary1)
           in (package2, binary2, rest1)))"

definition parse_npx_args :: "string list \<Rightarrow> string \<times> string list \<times> bool" where
  "parse_npx_args args =
     (let remaining = dropWhile (\<lambda>a. a \<in> {''-y'', ''--yes'', ''-q'', ''--quiet''}) args;
          package = (if remaining = [] then ''unknown'' else hd remaining)
      in (package, drop 1 remaining, is_vcs_specifier package))"

definition parse_go_args :: "string list \<Rightarrow> string option \<Rightarrow> (string \<times> string list) res" where
  "parse_go_args args go_package =
     (case go_package of
        Some p \<Rightarrow>
          if str_strip p = []
          then Inl (ValueError (''Go transport requires '' @ CHR 0x27 # ''go_package'' @ CHR 0x27 #
                 '' in the container config (the Go module import path for building from source).''))
          else Inr (str_strip p, args)
      | None \<Rightarrow>
          Inl (ValueError (''Go transport requires '' @ CHR 0x27 # ''go_package'' @ CHR 0x27 #
            '' in the container config (the Go module import path for building from source).'')))"

section \<open>What the templates get\<close>

record RuntimeConfig =
  rc_builder_image :: string
  rc_additional_packages :: "string list"

definition RUNTIME_DEFAULTS :: "(string, RuntimeConfig) dict" where
  "RUNTIME_DEFAULTS =
     [(''uvx'', \<lparr>rc_builder_image = ''python:3.13-slim'', rc_additional_packages = [''ca-certificates'', ''git'']\<rparr>),
      (''npx'', \<lparr>rc_builder_image = ''node:22-alpine'', rc_additional_packages = [''ca-certificates'', ''git'']\<rparr>),
      (''go'', \<lparr>rc_builder_image = ''golang:1.24-alpine'', rc_additional_packages = [''ca-certificates'', ''git'']\<rparr>)]"

definition DHI_RUNTIME_DEFAULTS :: "(string, RuntimeConfig) dict" where
  "DHI_RUNTIME_DEFAULTS =
     [(''uvx'', \<lparr>rc_builder_image = ''cgr.dev/chainguard/python:latest-dev'', rc_additional_packages = []\<rparr>),
      (''npx'', \<lparr>rc_builder_image = ''cgr.dev/chainguard/node:latest-dev'', rc_additional_packages = []\<rparr>),
      (''go'', \<lparr>rc_builder_image = ''cgr.dev/chainguard/go:latest-dev'', rc_additional_packages = []\<rparr>)]"

definition for_transport :: "string \<Rightarrow> string \<Rightarrow> string list \<Rightarrow> bool \<Rightarrow> RuntimeConfig" where
  "for_transport transport builder_image additional_packages use_dhi =
     (let c = dict_get_or \<lparr>rc_builder_image = [], rc_additional_packages = []\<rparr> (if use_dhi then DHI_RUNTIME_DEFAULTS else RUNTIME_DEFAULTS) transport
      in \<lparr>rc_builder_image = (if builder_image \<noteq> [] then builder_image else rc_builder_image c),
          rc_additional_packages = (if additional_packages \<noteq> [] then additional_packages else rc_additional_packages c)\<rparr>)"

record TemplateData =
  td_package :: string
  td_package_clean :: string
  td_binary :: string
  td_builder_image :: string
  td_install_cmd :: string
  td_system_deps :: "string list"
  td_build_system_deps :: "string list"
  td_build_env :: "(string, string) dict"
  td_additional_packages :: "string list"
  td_bin_name :: string
  td_go_package :: string
  td_go_package_clean :: string
  td_runtime_args :: "string list"
  td_source_url :: string
  td_source_ref :: string
  td_build_steps :: "string list"
  td_entrypoint :: "string list"
  td_source_url_host :: string

definition td_is_alpine :: "TemplateData \<Rightarrow> bool" where
  "td_is_alpine d = str_contains ''alpine'' (str_lower (td_builder_image d))"

definition CONTAINER_HOME :: string where
  "CONTAINER_HOME = ''/home/nonroot''"

definition no_data :: TemplateData where
  "no_data = \<lparr>td_package = [], td_package_clean = [], td_binary = [], td_builder_image = [], td_install_cmd = [], td_system_deps = [],
     td_build_system_deps = [], td_build_env = [], td_additional_packages = [], td_bin_name = [], td_go_package = [],
     td_go_package_clean = [], td_runtime_args = [], td_source_url = [], td_source_ref = [], td_build_steps = [], td_entrypoint = [],
     td_source_url_host = []\<rparr>"

fun validate_build_env :: "(string, string) dict \<Rightarrow> unit res" where
  "validate_build_env [] = Inr ()"
| "validate_build_env ((k, v) # env) =
     (case validate_build_env_key k of
        Inl e \<Rightarrow> Inl e
      | Inr u \<Rightarrow> (case validate_build_env_value v of Inl e \<Rightarrow> Inl e | Inr u' \<Rightarrow> validate_build_env env))"

text \<open>\<open>_validate_build_inputs\<close> and the dependencies of the build stage after it.\<close>

definition validate_build_inputs ::
    "string \<Rightarrow> (string, string) dict \<Rightarrow> string list \<Rightarrow> string list \<Rightarrow> (string \<times> string list \<times> string list) res" where
  "validate_build_inputs package build_env system_deps build_system_deps =
     (case validate_package_name package of
        Inl e \<Rightarrow> Inl e
      | Inr name \<Rightarrow>
          (case validate_system_deps system_deps of
             Inl e \<Rightarrow> Inl e
           | Inr deps \<Rightarrow>
               (case validate_build_env build_env of
                  Inl e \<Rightarrow> Inl e
                | Inr u \<Rightarrow> (case validate_system_deps build_system_deps of Inl e \<Rightarrow> Inl e | Inr bdeps \<Rightarrow> Inr (name, deps, bdeps)))))"

definition generate_uvx_data ::
    "string \<Rightarrow> string \<Rightarrow> (string, string) dict \<Rightarrow> string list \<Rightarrow> string list \<Rightarrow> RuntimeConfig \<Rightarrow> TemplateData res" where
  "generate_uvx_data package binary build_env system_deps build_system_deps rc =
     (case validate_build_inputs package build_env system_deps build_system_deps of
        Inl e \<Rightarrow> Inl e
      | Inr (name, deps, bdeps) \<Rightarrow>
          Inr (no_data\<lparr>td_package := name, td_package_clean := strip_version name, td_binary := binary, td_builder_image := rc_builder_image rc,
                 td_install_cmd := compute_uvx_install_cmd name, td_system_deps := deps, td_build_system_deps := bdeps,
                 td_build_env := build_env, td_additional_packages := rc_additional_packages rc\<rparr>))"

definition generate_npx_data ::
    "string \<Rightarrow> (string, string) dict \<Rightarrow> string list \<Rightarrow> string list \<Rightarrow> RuntimeConfig \<Rightarrow> TemplateData res" where
  "generate_npx_data package build_env system_deps build_system_deps rc =
     (case validate_build_inputs package build_env system_deps build_system_deps of
        Inl e \<Rightarrow> Inl e
      | Inr (name, deps, bdeps) \<Rightarrow>
          Inr (no_data\<lparr>td_package := name, td_package_clean := strip_version name, td_binary := ''__argus_entry'',
                 td_builder_image := rc_builder_image rc, td_install_cmd := ''npm install --save '' @ name, td_system_deps := deps,
                 td_build_system_deps := bdeps, td_build_env := build_env, td_additional_packages := rc_additional_packages rc,
                 td_bin_name := npm_bin_name (strip_version name)\<rparr>))"

definition generate_go_data ::
    "string \<Rightarrow> (string, string) dict \<Rightarrow> string list \<Rightarrow> string list \<Rightarrow> RuntimeConfig \<Rightarrow> TemplateData res" where
  "generate_go_data go_package build_env system_deps build_system_deps rc =
     (case validate_build_inputs go_package build_env system_deps build_system_deps of
        Inl e \<Rightarrow> Inl e
      | Inr (name, deps, bdeps) \<Rightarrow>
          Inr (no_data\<lparr>td_package := name, td_package_clean := strip_go_version name, td_binary := ''/app/mcp-server'',
                 td_builder_image := rc_builder_image rc, td_install_cmd := ''go install '' @ name, td_system_deps := deps,
                 td_build_system_deps := bdeps, td_build_env := build_env, td_additional_packages := rc_additional_packages rc,
                 td_go_package := name, td_go_package_clean := strip_go_version name\<rparr>))"

definition repo_name :: "string \<Rightarrow> string" where
  "repo_name url = removesuffix ''.git'' (after_last (CHR ''/'') (rstrip_by (\<lambda>c. c = CHR ''/'') url))"

definition generate_source_data ::
    "(string \<Rightarrow> bool) \<Rightarrow> string \<Rightarrow> string list \<Rightarrow> string list \<Rightarrow> string \<Rightarrow> (string, string) dict \<Rightarrow> string list \<Rightarrow> string list \<Rightarrow>
     RuntimeConfig \<Rightarrow> TemplateData res" where
  "generate_source_data ipv6 url steps entry ref build_env system_deps build_system_deps rc =
     (case validate_system_deps system_deps of
        Inl e \<Rightarrow> Inl e
      | Inr deps \<Rightarrow>
          (case validate_system_deps build_system_deps of
             Inl e \<Rightarrow> Inl e
           | Inr bdeps \<Rightarrow>
               (case validate_build_env build_env of
                  Inl e \<Rightarrow> Inl e
                | Inr u \<Rightarrow>
                    Inr (no_data\<lparr>td_package := repo_name url, td_package_clean := repo_name url, td_binary := (if entry = [] then [] else hd entry),
                           td_builder_image := rc_builder_image rc, td_system_deps := deps,
                           td_build_system_deps := (if ''git'' \<in> set bdeps then bdeps else ''git'' # bdeps), td_build_env := build_env,
                           td_additional_packages := rc_additional_packages rc, td_source_url := url, td_source_ref := ref,
                           td_build_steps := steps, td_entrypoint := entry,
                           td_source_url_host := (if starts_with ''https://'' url then case url_hostname ipv6 url of Some h \<Rightarrow> h | None \<Rightarrow> [] else [])\<rparr>))))"

section \<open>Images\<close>

definition COMMAND_TRANSPORT :: "(string, string) dict" where
  "COMMAND_TRANSPORT = [(''uvx'', ''uvx''), (''uv'', ''uvx''), (''pip'', ''uvx''), (''pipx'', ''uvx''), (''python'', ''uvx''), (''python3'', ''uvx''),
     (''npx'', ''npx''), (''node'', ''npx''), (''tsx'', ''npx''), (''go'', ''go'')]"

definition command_basename :: "string \<Rightarrow> string" where
  "command_basename command = str_lower (str_strip (after_last (CHR ''/'') command))"

definition classify_command :: "string \<Rightarrow> string option" where
  "classify_command command =
     (if command_basename command = ''docker'' then Some ''docker'' else dict_get COMMAND_TRANSPORT (command_basename command))"

definition is_already_containerised :: "string \<Rightarrow> string list \<Rightarrow> bool" where
  "is_already_containerised command args \<longleftrightarrow>
     command_basename command \<in> {''docker'', ''podman''} \<and> args \<noteq> [] \<and> hd args \<in> {''run'', ''exec'', ''start'', ''compose''}"

text \<open>The files, the container runtime and the libraries.\<close>

record image_env =
  ie_render :: "string \<Rightarrow> TemplateData \<Rightarrow> string"
  ie_hash :: "string \<Rightarrow> string"
  ie_exists :: "string \<Rightarrow> bool"
  ie_build :: "string \<Rightarrow> bool"
  ie_file :: "string \<Rightarrow> string option"
  ie_ipv6 :: "string \<Rightarrow> bool"

definition compute_image_tag :: "image_env \<Rightarrow> string \<Rightarrow> string \<Rightarrow> string \<Rightarrow> string" where
  "compute_image_tag env transport package dockerfile_content =
     ''arguslocal/'' @ transport @ ''-'' @ sanitize_image_name (strip_version package) @ '':'' @ ie_hash env dockerfile_content"

text \<open>
  The image of a tag if it exists or, where allowed, can be built: the tags built and the
  outcome, which names no image when there is none.
\<close>

type_synonym image_result = "string option \<times> string \<times> string list"

definition obtain_image :: "image_env \<Rightarrow> bool \<Rightarrow> string \<Rightarrow> string \<times> string list \<Rightarrow> string \<times> string list \<Rightarrow> string list \<times> image_result" where
  "obtain_image env build tag found missing =
     (if ie_exists env tag then ([], Some tag, found)
      else if \<not> build then ([], None, missing)
      else if ie_build env tag then ([tag], Some tag, found)
      else ([tag], None, missing))"

definition image_from ::
    "image_env \<Rightarrow> bool \<Rightarrow> string \<Rightarrow> string \<Rightarrow> string \<Rightarrow> TemplateData res \<Rightarrow> string \<times> string list \<Rightarrow> string \<times> string list \<Rightarrow>
     string list \<times> image_result res" where
  "image_from env build transport package template data found missing =
     (case data of
        Inl e \<Rightarrow> ([], Inl e)
      | Inr d \<Rightarrow> map_prod id Inr (obtain_image env build (compute_image_tag env transport package (ie_render env template d)) found missing))"

record image_request =
  iq_system_deps :: "string list"
  iq_build_system_deps :: "string list"
  iq_builder_image :: string
  iq_additional_packages :: "string list"
  iq_transport :: string
  iq_go_package :: "string option"
  iq_source_url :: string
  iq_build_steps :: "string list"
  iq_entrypoint :: "string list"
  iq_build_env :: "(string, string) dict"
  iq_source_ref :: string
  iq_dockerfile :: string

definition ensure_uvx_image :: "image_env \<Rightarrow> bool \<Rightarrow> string list \<Rightarrow> image_request \<Rightarrow> RuntimeConfig \<Rightarrow> string list \<times> image_result res" where
  "ensure_uvx_image env build args q rc =
     (case parse_uvx_args args of
        (package, binary, runtime_args) \<Rightarrow>
          image_from env build ''uvx'' package ''uvx.dockerfile.j2''
            (generate_uvx_data package binary [] (iq_system_deps q) (iq_build_system_deps q) rc) (binary, runtime_args) (''uvx'', args))"

definition ensure_npx_image :: "image_env \<Rightarrow> bool \<Rightarrow> string list \<Rightarrow> image_request \<Rightarrow> RuntimeConfig \<Rightarrow> string list \<times> image_result res" where
  "ensure_npx_image env build args q rc =
     (case parse_npx_args args of
        (package, runtime_args, is_vcs) \<Rightarrow>
          (let bdeps = iq_build_system_deps q;
               bdeps' = (if is_vcs \<and> ''git'' \<notin> set bdeps then bdeps @ [''git''] else bdeps)
           in image_from env build ''npx'' package ''npx.dockerfile.j2'' (generate_npx_data package [] (iq_system_deps q) bdeps' rc)
                (package, runtime_args) (''npx'', args)))"

definition ensure_go_image :: "image_env \<Rightarrow> bool \<Rightarrow> string list \<Rightarrow> image_request \<Rightarrow> RuntimeConfig \<Rightarrow> string list \<times> image_result res" where
  "ensure_go_image env build args q rc =
     (if iq_go_package q = None \<or> iq_go_package q = Some [] then ([], Inr (None, ''go'', args))
      else case parse_go_args args (iq_go_package q) of
             Inl e \<Rightarrow> ([], Inl e)
           | Inr (module_path, runtime_args) \<Rightarrow>
               image_from env build ''go'' module_path ''go.dockerfile.j2''
                 (generate_go_data module_path [] (iq_system_deps q) (iq_build_system_deps q) rc) (''/app/mcp-server'', runtime_args) (''go'', args))"

definition source_transport :: "string list \<Rightarrow> string list \<Rightarrow> string" where
  "source_transport steps entry =
     (if list_ex (\<lambda>ind. str_contains ind (str_lower (join_with '' '' steps))) [''npm '', ''npx '', ''yarn '', ''pnpm '', ''node '']
         \<or> entry \<noteq> [] \<and> str_lower (hd entry) = ''node''
      then ''npx'' else ''uvx'')"

definition ensure_source_image :: "image_env \<Rightarrow> bool \<Rightarrow> image_request \<Rightarrow> string list \<times> image_result res" where
  "ensure_source_image env build q =
     (let rc = for_transport (source_transport (iq_build_steps q) (iq_entrypoint q)) (iq_builder_image q) (iq_additional_packages q) False
      in image_from env build ''source'' (repo_name (iq_source_url q)) ''source.dockerfile.j2''
           (generate_source_data (ie_ipv6 env) (iq_source_url q) (iq_build_steps q) (iq_entrypoint q) (iq_source_ref q) (iq_build_env q)
              (iq_system_deps q) (iq_build_system_deps q) rc)
           (hd (iq_entrypoint q), []) (hd (iq_entrypoint q), []))"

definition ensure_custom_dockerfile_image :: "image_env \<Rightarrow> bool \<Rightarrow> string \<Rightarrow> string list \<times> image_result res" where
  "ensure_custom_dockerfile_image env build path =
     (case ie_file env path of
        None \<Rightarrow> ([], Inr (None, [], []))
      | Some content \<Rightarrow>
          (let base = str_lower (map (\<lambda>c. if c = CHR ''.'' then CHR ''-'' else c) (after_last (CHR ''/'') path));
               tag = ''arguslocal/'' @ base @ '':'' @ ie_hash env content
           in map_prod id Inr (obtain_image env build tag ([], []) ([], []))))"

definition ensure_image :: "image_env \<Rightarrow> bool \<Rightarrow> string \<Rightarrow> string list \<Rightarrow> image_request \<Rightarrow> string list \<times> image_result res" where
  "ensure_image env build command args q =
     (let transport = (if iq_transport q \<noteq> [] then Some (iq_transport q) else classify_command command)
      in if iq_source_url q \<noteq> [] \<and> iq_build_steps q \<noteq> [] \<and> iq_entrypoint q \<noteq> [] then ensure_source_image env build q
         else if iq_dockerfile q \<noteq> [] then ensure_custom_dockerfile_image env build (iq_dockerfile q)
         else case transport of
                None \<Rightarrow> ([], Inr (None, command, args))
              | Some t \<Rightarrow>
                  (let rc = for_transport t (iq_builder_image q) (iq_additional_packages q) False
                   in if t = ''uvx'' then ensure_uvx_image env build args q rc
                      else if t = ''npx'' then ensure_npx_image env build args q rc
                      else if t = ''go'' then ensure_go_image env build args q rc
                      else ([], Inr (None, command, args))))"

end
