(* ===== verification/Container_Isolation.thy ===== *)
theory Container_Isolation
  imports Container_Build "HOL-Library.Char_ord" "HOL-Library.List_Lexorder" "HOL-Library.Product_Lexorder"
begin

text \<open>
  Running stdio backends in containers: the container section of a backend and its validators
  (\<open>config/schema_backends.py\<close>), the choice of a runtime (\<open>bridge/container/runtime.py\<close>), and
  \<open>bridge/container/wrapper.py\<close>, which turns the command of a backend into a pre-created
  container. The state has the runtime the factory found, the containers tracked for clean-up and
  a record of what was asked of the runtime. What the runtime answers is an argument of each call.
\<close>

section \<open>The container section\<close>

record ContainerConfig =
  cc_enabled :: bool
  cc_runtime :: "string option"
  cc_network :: "string option"
  cc_memory :: "string option"
  cc_cpus :: "string option"
  cc_volumes :: "string list"
  cc_extra_args :: "string list"
  cc_system_deps :: "string list"
  cc_build_system_deps :: "string list"
  cc_builder_image :: "string option"
  cc_additional_packages :: "string list"
  cc_transport :: "string option"
  cc_go_package :: "string option"
  cc_source_url :: "string option"
  cc_build_steps :: "string list"
  cc_entrypoint :: "string list option"
  cc_build_env :: "(string, string) dict"
  cc_source_ref :: "string option"
  cc_dockerfile :: "string option"

definition default_container :: ContainerConfig where
  "default_container =
     \<lparr>cc_enabled = True, cc_runtime = None, cc_network = None, cc_memory = None, cc_cpus = None, cc_volumes = [], cc_extra_args = [],
      cc_system_deps = [], cc_build_system_deps = [], cc_builder_image = None, cc_additional_packages = [], cc_transport = None,
      cc_go_package = None, cc_source_url = None, cc_build_steps = [], cc_entrypoint = None, cc_build_env = [], cc_source_ref = None,
      cc_dockerfile = None\<rparr>"

definition DANGEROUS_DOCKER_FLAGS :: "string list" where
  "DANGEROUS_DOCKER_FLAGS = [''--privileged'', ''--cap-add'', ''--security-opt'', ''--device'', ''--pid'', ''--ipc'', ''--userns'', ''--uts'',
     ''--network=host'', ''--net=host'', ''--add-host'', ''--volume'', ''-v'', ''--mount'']"

text \<open>
  The file system (\<open>Path.resolve\<close>), the variable with the allowed prefixes, and the library for
  addresses: whether a text is an address, and whether that is private, loopback or reserved.
\<close>

record path_env =
  pe_resolve :: "string \<Rightarrow> string"
  pe_allowed :: "string option"
  pe_ip :: "string \<Rightarrow> bool option"
  pe_ipv6 :: "string \<Rightarrow> bool"
  pe_url_error :: "string \<Rightarrow> string"

definition quoted :: "string \<Rightarrow> string" where
  "quoted s = CHR 0x27 # s @ [CHR 0x27]"

fun validate_extra_args :: "string list \<Rightarrow> unit res" where
  "validate_extra_args [] = Inr ()"
| "validate_extra_args (arg # rest) =
     (let flag = str_strip (takeWhile (\<lambda>c. c \<noteq> CHR ''='') arg)
      in if arg \<in> set DANGEROUS_DOCKER_FLAGS \<or> flag \<in> set DANGEROUS_DOCKER_FLAGS
         then Inl (ValueError (''Dangerous Docker flag '' @ quoted (if arg \<in> set DANGEROUS_DOCKER_FLAGS then arg else flag) @
                '' not allowed in extra_args. Use explicit ContainerConfig fields instead.''))
         else validate_extra_args rest)"

definition allowed_raw :: "path_env \<Rightarrow> string" where
  "allowed_raw env = (case pe_allowed env of None \<Rightarrow> ''/tmp:/data:/workspace'' | Some s \<Rightarrow> s)"

definition within_allowed :: "path_env \<Rightarrow> string \<Rightarrow> bool" where
  "within_allowed env host_path =
     list_ex (\<lambda>a. host_path = a \<or> starts_with (a @ ''/'') host_path)
       (map (pe_resolve env) (filter (\<lambda>p. p \<noteq> []) (split_on (CHR '':'') (allowed_raw env))))"

definition host_part :: "string \<Rightarrow> string" where
  "host_part vol = takeWhile (\<lambda>c. c \<noteq> CHR '':'') vol"

fun validate_volumes :: "path_env \<Rightarrow> string list \<Rightarrow> unit res" where
  "validate_volumes env [] = Inr ()"
| "validate_volumes env (vol # rest) =
     (if host_part vol = [] \<or> within_allowed env (pe_resolve env (host_part vol)) then validate_volumes env rest
      else Inl (ValueError (''Volume host path '' @ quoted (pe_resolve env (host_part vol)) @ '' is not within allowed prefixes: '' @ allowed_raw env)))"

definition validate_transport :: "string option \<Rightarrow> string option res" where
  "validate_transport v =
     (case v of
        None \<Rightarrow> Inr None
      | Some t \<Rightarrow>
          (let t' = str_lower (str_strip t)
           in if t' \<in> {''uvx'', ''npx'', ''go''} then Inr (Some t')
              else Inl (ValueError (''Invalid transport '' @ quoted t' @ ''. Must be one of: '' @ py_repr (PList [PStr ''go'', PStr ''npx'', PStr ''uvx''])))))"

text \<open>The scheme of \<open>urlparse\<close>.\<close>

definition url_scheme :: "string \<Rightarrow> string" where
  "url_scheme url =
     (let cleaned = filter (\<lambda>c. code c \<notin> {9, 10, 13}) (dropWhile (\<lambda>c. code c \<le> 32) url)
      in if drop_scheme cleaned = cleaned then [] else str_lower (takeWhile (\<lambda>c. c \<noteq> CHR '':'') cleaned))"

definition validate_source_url :: "path_env \<Rightarrow> string option \<Rightarrow> string option res" where
  "validate_source_url env url =
     (case url of
        None \<Rightarrow> Inr None
      | Some raw \<Rightarrow>
          (let v = str_strip raw
           in if v = [] then Inr None
              else case url_hostname (pe_ipv6 env) v of
                     None \<Rightarrow> Inl (ValueError (pe_url_error env v))
                   | Some hostname \<Rightarrow>
                       (if url_scheme v \<notin> {''https'', ''git+ssh''}
                        then Inl (ValueError (''source_url scheme must be one of '' @ py_repr (PList [PStr ''git+ssh'', PStr ''https'']) @
                               '', got '' @ quoted (url_scheme v) @ '' in '' @ quoted v))
                        else if hostname = [] then Inr (Some v)
                        else let not_an_ip = repr_str hostname @ '' does not appear to be an IPv4 or IPv6 address''
                             in case pe_ip env hostname of
                                  Some True \<Rightarrow> Inl (ValueError (''source_url must not point to private/loopback addresses: '' @ quoted hostname))
                                | Some False \<Rightarrow> Inr (Some v)
                                | None \<Rightarrow>
                                    (if str_contains ''private'' not_an_ip \<or> str_contains ''loopback'' not_an_ip then Inl (ValueError not_an_ip)
                                     else if str_lower hostname \<in> {''localhost'', ''localhost.localdomain''}
                                     then Inl (ValueError (''source_url must not point to localhost: '' @ quoted hostname))
                                     else Inr (Some v)))))"

fun validate_build_steps :: "string list \<Rightarrow> unit res" where
  "validate_build_steps [] = Inr ()"
| "validate_build_steps (step # rest) =
     (if list_ex (\<lambda>c. c \<in> set ''`$()'') step then Inl (ValueError (''build_steps entry contains unsafe characters: '' @ repr_str step))
      else validate_build_steps rest)"

fun validate_entrypoint :: "string list \<Rightarrow> unit res" where
  "validate_entrypoint [] = Inr ()"
| "validate_entrypoint (e # rest) =
     (if list_ex shell_unsafe e then Inl (ValueError (''entrypoint element contains unsafe characters: '' @ repr_str e))
      else validate_entrypoint rest)"

fun validate_env_keys :: "(string, string) dict \<Rightarrow> unit res" where
  "validate_env_keys [] = Inr ()"
| "validate_env_keys ((key, v) # env) =
     (if re_match ENV_KEY_PATTERN key = None
      then Inl (ValueError (''build_env key must be uppercase letters/digits/underscore starting with a letter: '' @ repr_str key))
      else validate_env_keys env)"

definition validate_dockerfile :: "string option \<Rightarrow> string option res" where
  "validate_dockerfile path =
     (case path of
        None \<Rightarrow> Inr None
      | Some raw \<Rightarrow>
          (let v = str_strip raw
           in if v = [] then Inr None
              else if starts_with ''/'' v then Inl (ValueError (''dockerfile must be a relative path, got absolute: '' @ quoted v))
              else if ''..'' \<in> set (split_on (CHR ''/'') v)
              then Inl (ValueError (''dockerfile must not contain '' @ quoted ''..'' @ '' path components: '' @ quoted v))
              else Inr (Some v)))"

text \<open>
  All validators of the section, as the validation library runs them: each field by itself, in
  the order of the fields, and the check across fields only when every field passed.
\<close>

definition field_error :: "string \<Rightarrow> 'a res \<Rightarrow> (string \<times> string) list" where
  "field_error name r = (case r of Inl e \<Rightarrow> [(name, ''Value error, '' @ exn_str e)] | Inr x \<Rightarrow> [])"

definition container_errors :: "path_env \<Rightarrow> ContainerConfig \<Rightarrow> (string \<times> string) list" where
  "container_errors env c =
     field_error ''volumes'' (validate_volumes env (cc_volumes c)) @
     field_error ''extra_args'' (validate_extra_args (cc_extra_args c)) @
     field_error ''transport'' (validate_transport (cc_transport c)) @
     field_error ''source_url'' (validate_source_url env (cc_source_url c)) @
     field_error ''build_steps'' (validate_build_steps (cc_build_steps c)) @
     field_error ''entrypoint'' (case cc_entrypoint c of None \<Rightarrow> Inr () | Some e \<Rightarrow> validate_entrypoint e) @
     field_error ''build_env'' (validate_env_keys (cc_build_env c)) @
     field_error ''dockerfile'' (validate_dockerfile (cc_dockerfile c))"

definition validate_container :: "path_env \<Rightarrow> ContainerConfig \<Rightarrow> (string \<times> string) list + ContainerConfig" where
  "validate_container env c =
     (if container_errors env c \<noteq> [] then Inl (container_errors env c)
      else let c' = c\<lparr>cc_network := map_option str_strip (cc_network c), cc_transport := projr (validate_transport (cc_transport c)),
                      cc_source_url := projr (validate_source_url env (cc_source_url c)),
                      cc_dockerfile := projr (validate_dockerfile (cc_dockerfile c))\<rparr>
           in if cc_source_url c' \<noteq> None \<and> cc_build_steps c' = []
              then Inl [([], ''Value error, build_steps is required when source_url is set'')]
              else if cc_source_url c' \<noteq> None \<and> (cc_entrypoint c' = None \<or> cc_entrypoint c' = Some [])
              then Inl [([], ''Value error, entrypoint is required when source_url is set'')]
              else Inr c')"

section \<open>Runtimes\<close>

datatype runtime = DockerRuntime string | KubernetesRuntime

fun runtime_name :: "runtime \<Rightarrow> string" where
  "runtime_name (DockerRuntime binary) = binary"
| "runtime_name KubernetesRuntime = ''kubernetes''"

datatype RuntimeType = DOCKER | PODMAN | KUBERNETES

fun runtime_type :: "runtime \<Rightarrow> RuntimeType" where
  "runtime_type (DockerRuntime binary) = (if binary = ''podman'' then PODMAN else DOCKER)"
| "runtime_type KubernetesRuntime = KUBERNETES"

definition runtime_type_from_str :: "string \<Rightarrow> RuntimeType res" where
  "runtime_type_from_str value =
     (let n = str_lower (str_strip value); m = (if n \<in> {''k8s'', ''kube''} then ''kubernetes'' else n)
      in if m = ''docker'' then Inr DOCKER
         else if m = ''podman'' then Inr PODMAN
         else if m = ''kubernetes'' then Inr KUBERNETES
         else Inl (ValueError (''Unknown container runtime '' @ quoted value @ ''. Valid: docker, podman, kubernetes'')))"

record runtime_env =
  re_which :: "string \<Rightarrow> bool"
  re_kubernetes :: bool
  re_argus_runtime :: string

definition create_explicit :: "runtime_env \<Rightarrow> string \<Rightarrow> runtime option" where
  "create_explicit env name =
     (let n = str_lower (str_strip name)
      in if n \<in> {''docker'', ''podman''} then (if re_which env n then Some (DockerRuntime n) else None)
         else if n \<in> {''kubernetes'', ''k8s'', ''kube''} then (if re_kubernetes env then Some KubernetesRuntime else None)
         else None)"

text \<open>The entries of the factory in the order of their priorities.\<close>

definition auto_detect :: "runtime_env \<Rightarrow> runtime option" where
  "auto_detect env =
     (if re_which env ''docker'' then Some (DockerRuntime ''docker'')
      else if re_which env ''podman'' then Some (DockerRuntime ''podman'')
      else if re_kubernetes env then Some KubernetesRuntime
      else None)"

definition detect_runtime :: "runtime_env \<Rightarrow> string option \<Rightarrow> runtime option \<Rightarrow> runtime option" where
  "detect_runtime env override cached =
     (case cached of
        Some rt \<Rightarrow> Some rt
      | None \<Rightarrow>
          (let explicit = (case override of Some o' \<Rightarrow> if o' \<noteq> [] then o' else str_strip (re_argus_runtime env)
                           | None \<Rightarrow> str_strip (re_argus_runtime env))
           in case (if explicit \<noteq> [] then create_explicit env explicit else None) of
                Some rt \<Rightarrow> Some rt
              | None \<Rightarrow> auto_detect env))"

section \<open>Network and labels\<close>

definition effective_network :: "string option \<Rightarrow> string" where
  "effective_network configured =
     (case configured of Some n \<Rightarrow> if str_strip n \<noteq> [] then str_strip n else ''bridge'' | None \<Rightarrow> ''bridge'')"

definition default_labels :: "string \<Rightarrow> string \<Rightarrow> string \<Rightarrow> (string, string) dict" where
  "default_labels server_id project session_id =
     [(''argus.managed'', ''true''), (''argus.server_id'', server_id)] @
     (if project \<noteq> [] then [(''argus.project'', project)] else []) @
     (if session_id \<noteq> [] then [(''argus.session_id'', session_id)] else [])"

section \<open>Creating a container\<close>

record stdio_params =
  sp_command :: string
  sp_args :: "string list"
  sp_env :: "(string, string) dict option"

fun check_extra_args :: "string list \<Rightarrow> string list res" where
  "check_extra_args [] = Inr []"
| "check_extra_args (flag # rest) =
     (let bare = takeWhile (\<lambda>c. c \<noteq> CHR ''='') (lstrip_by (\<lambda>c. c = CHR ''-'') flag)
      in if flag \<in> set DANGEROUS_DOCKER_FLAGS \<or> ''--'' @ bare \<in> set DANGEROUS_DOCKER_FLAGS
         then Inl (RuntimeError (''Dangerous Docker flag '' @ quoted flag @ '' rejected in extra_args. Blocked flags: '' @
                py_repr (PList (map PStr (sort DANGEROUS_DOCKER_FLAGS)))))
         else case check_extra_args rest of Inl e \<Rightarrow> Inl e | Inr r \<Rightarrow> Inr (flag # r))"

definition hardening_args :: "string list" where
  "hardening_args = [''--read-only'', ''--cap-drop'', ''ALL'', ''--security-opt'', ''no-new-privileges'', ''--security-opt'', ''label=disable'']"

definition setting :: "string \<Rightarrow> string \<times> string \<Rightarrow> string list" where
  "setting flag kv = [flag, fst kv @ ''='' @ snd kv]"

definition build_create_args ::
    "string \<Rightarrow> string list \<Rightarrow> (string, string) dict \<Rightarrow> string \<Rightarrow> string \<Rightarrow> string \<Rightarrow> string list \<Rightarrow> string list \<Rightarrow>
     (string, string) dict \<Rightarrow> string list res" where
  "build_create_args image_tag runtime_args env network memory cpus volumes extra_args labels =
     (case check_extra_args extra_args of
        Inl e \<Rightarrow> Inl e
      | Inr extra \<Rightarrow>
          Inr ([''create'', ''--rm'', ''-i'', ''--init'', ''--network'', network, ''--memory'', memory, ''--cpus'', cpus] @ hardening_args @
               [''--tmpfs'', ''/tmp:rw,nosuid,size=64m,mode=1777'', ''--tmpfs'', CONTAINER_HOME @ '':rw,nosuid,size=64m,mode=1777'',
                ''-e'', ''HOME='' @ CONTAINER_HOME, ''-e'', ''TMPDIR=/tmp''] @
               concat (map (\<lambda>vol. [''-v'', vol]) volumes) @
               concat (map (setting ''--label'') (sort labels)) @
               concat (map (setting ''-e'') (sort env)) @
               extra @ image_tag # runtime_args))"

text \<open>What the compiled adapter is asked for; numbers that do not parse make the request fail.\<close>

record go_request =
  gr_image :: string
  gr_name :: string
  gr_cmd :: "string list"
  gr_env :: "(string, string) dict"
  gr_network :: string
  gr_memory :: string
  gr_cpus :: string
  gr_volumes :: "string list"
  gr_read_only :: bool
  gr_cap_drop :: "string list"
  gr_labels :: "(string, string) dict"

definition go_adapter_request ::
    "string \<Rightarrow> string \<Rightarrow> string list \<Rightarrow> (string, string) dict \<Rightarrow> string \<Rightarrow> string \<Rightarrow> string \<Rightarrow> string list \<Rightarrow> (string, string) dict \<Rightarrow> go_request" where
  "go_adapter_request image_tag svr runtime_args env network memory cpus volumes labels =
     \<lparr>gr_image = image_tag, gr_name = svr, gr_cmd = runtime_args,
      gr_env = dict_update [(''HOME'', CONTAINER_HOME), (''TMPDIR'', ''/tmp'')] env, gr_network = network, gr_memory = memory, gr_cpus = cpus,
      gr_volumes = [''/tmp:/tmp:rw'', CONTAINER_HOME @ '':'' @ CONTAINER_HOME @ '':rw''] @ volumes, gr_read_only = True, gr_cap_drop = [''ALL''],
      gr_labels = labels\<rparr>"

text \<open>
  What the runtime did or was asked for, and the state of the wrapper: a container or an image that
  is recorded exists, a removal is recorded when it was asked for (the code ignores its failure).
  \<open>Lost\<close> is no request: it marks a container that exists and that the wrapper no longer knows.
\<close>

datatype creation = ByCommand "string list" | ByAdapter go_request

datatype runtime_op =
    Created string string creation
  | RemovedContainer string string
  | RemovedName string string
  | Built string
  | Lost string string

record container_world =
  cw_runtime :: "runtime option"
  cw_health :: "bool option"
  cw_active :: "(string, string \<times> string) dict"
  cw_ops :: "runtime_op list"

text \<open>
  How an attempt to create a container ends: with its identifier, without a container (the
  command cannot be run, exits with an error or prints nothing), with a wait that is given up, or
  with a cancellation of the task. The last two do not stop the request, which may still create a
  container.
\<close>

datatype create_outcome = Answered string | NotCreated | GaveUp "string option" | CutOff "string option"

text \<open>Where else the task is cancelled; at the image with the tags built until then.\<close>

datatype wrap_cut = NoCut | AtHealth | AtImage "string list" | AtCleanup | AtStaleName

text \<open>The outcomes one call meets: \<open>we_adapter\<close> is what the adapter answers, when there is one.\<close>

record wrap_env =
  we_isolation :: string
  we_runtime :: runtime_env
  we_healthy :: bool
  we_images :: image_env
  we_adapter :: "go_request \<Rightarrow> create_outcome"
  we_create :: "string list \<Rightarrow> create_outcome"
  we_cut :: wrap_cut

datatype wrap_exit = WrapRaised exn | WrapCancelled

type_synonym wrap_result = "wrap_exit + stdio_params \<times> bool"

definition log_op :: "runtime_op \<Rightarrow> container_world \<Rightarrow> container_world" where
  "log_op op w = w\<lparr>cw_ops := cw_ops w @ [op]\<rparr>"

definition cleanup_container :: "string \<Rightarrow> container_world \<Rightarrow> container_world" where
  "cleanup_container svr w =
     (case dict_get (cw_active w) svr of
        None \<Rightarrow> w
      | Some (rt, cid) \<Rightarrow> log_op (RemovedContainer rt cid) (w\<lparr>cw_active := dict_del svr (cw_active w)\<rparr>))"

definition cleanup_all_containers :: "container_world \<Rightarrow> container_world" where
  "cleanup_all_containers w = fold cleanup_container (dict_keys (cw_active w)) w"

text \<open>
  A clean-up that is cancelled before the removal is sent: the container is no longer tracked. The
  loop over all backends ends there.
\<close>

definition cleanup_cancelled :: "string \<Rightarrow> container_world \<Rightarrow> container_world" where
  "cleanup_cancelled svr w =
     (case dict_get (cw_active w) svr of
        None \<Rightarrow> w
      | Some (rt, cid) \<Rightarrow> log_op (Lost rt cid) (w\<lparr>cw_active := dict_del svr (cw_active w)\<rparr>))"

definition cleanup_all_cancelled :: "nat \<Rightarrow> container_world \<Rightarrow> container_world" where
  "cleanup_all_cancelled k w =
     (let names = dict_keys (cw_active w); w1 = fold cleanup_container (take k names) w
      in if k < length names then cleanup_cancelled (names ! k) w1 else w1)"

definition isolation_off :: "string \<Rightarrow> bool" where
  "isolation_off value \<longleftrightarrow> str_lower (str_strip value) \<in> {''0'', ''false'', ''no'', ''off'', ''disabled''}"

definition image_request_of :: "ContainerConfig \<Rightarrow> image_request" where
  "image_request_of c =
     \<lparr>iq_system_deps = cc_system_deps c, iq_build_system_deps = cc_build_system_deps c,
      iq_builder_image = (case cc_builder_image c of None \<Rightarrow> [] | Some i \<Rightarrow> i), iq_additional_packages = cc_additional_packages c,
      iq_transport = (case cc_transport c of None \<Rightarrow> [] | Some t \<Rightarrow> t), iq_go_package = cc_go_package c,
      iq_source_url = (case cc_source_url c of None \<Rightarrow> [] | Some u \<Rightarrow> u), iq_build_steps = cc_build_steps c,
      iq_entrypoint = (case cc_entrypoint c of None \<Rightarrow> [] | Some e \<Rightarrow> e), iq_build_env = cc_build_env c,
      iq_source_ref = (case cc_source_ref c of None \<Rightarrow> [] | Some r \<Rightarrow> r), iq_dockerfile = (case cc_dockerfile c of None \<Rightarrow> [] | Some d \<Rightarrow> d)\<rparr>"

definition or_default :: "string \<Rightarrow> string option \<Rightarrow> string" where
  "or_default d v = (case v of None \<Rightarrow> d | Some s \<Rightarrow> if s = [] then d else s)"

text \<open>
  The adapter first, then the command; \<open>None\<close> when neither gives a container. The first component
  lists the containers that come to exist without the caller learning of them.
\<close>

definition orphan :: "string option \<Rightarrow> creation \<Rightarrow> (string \<times> creation) list" where
  "orphan cid how = (case cid of None \<Rightarrow> [] | Some i \<Rightarrow> [(i, how)])"

definition create_by_command ::
    "wrap_env \<Rightarrow> string list res \<Rightarrow> (string \<times> creation) list \<Rightarrow> (string \<times> creation) list \<times> (wrap_exit + (string \<times> creation) option)" where
  "create_by_command env built orphans =
     (case built of
        Inl e \<Rightarrow> (orphans, Inl (WrapRaised e))
      | Inr args \<Rightarrow>
          (case we_create env args of
             Answered cid \<Rightarrow> (orphans, Inr (Some (cid, ByCommand args)))
           | NotCreated \<Rightarrow> (orphans, Inr None)
           | GaveUp cid \<Rightarrow> (orphans @ orphan cid (ByCommand args), Inr None)
           | CutOff cid \<Rightarrow> (orphans @ orphan cid (ByCommand args), Inl WrapCancelled)))"

definition create_container ::
    "wrap_env \<Rightarrow> ContainerConfig \<Rightarrow> string \<Rightarrow> stdio_params \<Rightarrow> string \<Rightarrow> string list \<Rightarrow>
     (string \<times> creation) list \<times> (wrap_exit + (string \<times> creation) option)" where
  "create_container env c svr params image_tag runtime_args =
     (let vars = (case sp_env params of None \<Rightarrow> [] | Some e \<Rightarrow> e); net = effective_network (cc_network c);
          mem = or_default ''512m'' (cc_memory c); cpu = or_default ''1'' (cc_cpus c); labels = default_labels svr [] [];
          request = go_adapter_request image_tag svr runtime_args vars net mem cpu (cc_volumes c) labels;
          built = build_create_args image_tag runtime_args vars net mem cpu (cc_volumes c) (cc_extra_args c) labels
      in case we_adapter env request of
           Answered cid \<Rightarrow> ([], Inr (Some (cid, ByAdapter request)))
         | NotCreated \<Rightarrow> create_by_command env built []
         | GaveUp cid \<Rightarrow> create_by_command env built (orphan cid (ByAdapter request))
         | CutOff cid \<Rightarrow> (orphan cid (ByAdapter request), Inl WrapCancelled))"

definition lose :: "string \<Rightarrow> string \<times> creation \<Rightarrow> container_world \<Rightarrow> container_world" where
  "lose rt x w = log_op (Lost rt (fst x)) (log_op (Created rt (fst x) (snd x)) w)"

definition finish_wrap ::
    "wrap_env \<Rightarrow> ContainerConfig \<Rightarrow> string \<Rightarrow> stdio_params \<Rightarrow> string \<Rightarrow> string \<Rightarrow> string list \<Rightarrow> container_world \<Rightarrow>
     container_world \<times> wrap_result" where
  "finish_wrap env c svr params rt image_tag runtime_args w =
     (if we_cut env = AtCleanup \<and> dict_get (cw_active w) svr \<noteq> None then (cleanup_cancelled svr w, Inl WrapCancelled)
      else if we_cut env = AtStaleName then (cleanup_container svr w, Inl WrapCancelled)
      else let w1 = log_op (RemovedName rt svr) (cleanup_container svr w);
               (orphans, r) = create_container env c svr params image_tag runtime_args;
               w2 = fold (lose rt) orphans w1
           in case r of
                Inl e \<Rightarrow> (w2, Inl e)
              | Inr None \<Rightarrow> (w2, Inr (params, False))
              | Inr (Some (cid, how)) \<Rightarrow>
                  (log_op (Created rt cid how) (w2\<lparr>cw_active := dict_set svr (rt, cid) (cw_active w2)\<rparr>),
                   Inr (\<lparr>sp_command = rt, sp_args = [''start'', ''-ai'', cid], sp_env = None\<rparr>, True)))"

definition wrap_image ::
    "wrap_env \<Rightarrow> bool \<Rightarrow> ContainerConfig \<Rightarrow> string \<Rightarrow> stdio_params \<Rightarrow> string \<Rightarrow> container_world \<Rightarrow> container_world \<times> wrap_result" where
  "wrap_image env build c svr params rt w =
     (case we_cut env of
        AtImage tags \<Rightarrow> (w\<lparr>cw_ops := cw_ops w @ map Built tags\<rparr>, Inl WrapCancelled)
      | _ \<Rightarrow>
          (case ensure_image (we_images env) build (sp_command params) (sp_args params) (image_request_of c) of
             (tags, r) \<Rightarrow>
               (let w1 = w\<lparr>cw_ops := cw_ops w @ map Built tags\<rparr>
                in case r of
                     Inl e \<Rightarrow> (w1, Inl (WrapRaised e))
                   | Inr (None, binary, args) \<Rightarrow> (w1, Inr (params, False))
                   | Inr (Some image_tag, binary, runtime_args) \<Rightarrow> finish_wrap env c svr params rt image_tag runtime_args w1)))"

definition wrap_backend ::
    "wrap_env \<Rightarrow> bool \<Rightarrow> ContainerConfig \<Rightarrow> string \<Rightarrow> stdio_params \<Rightarrow> container_world \<Rightarrow> container_world \<times> wrap_result" where
  "wrap_backend env build c svr params w =
     (if \<not> cc_enabled c \<or> isolation_off (we_isolation env) \<or> is_already_containerised (sp_command params) (sp_args params)
      then (w, Inr (params, False))
      else case detect_runtime (we_runtime env) (cc_runtime c) (cw_runtime w) of
             None \<Rightarrow> (w, Inr (params, False))
           | Some rt \<Rightarrow>
               (let healthy = (case cw_health w of Some h \<Rightarrow> h | None \<Rightarrow> we_healthy env);
                    w1 = w\<lparr>cw_runtime := Some rt, cw_health := Some healthy\<rparr>;
                    q = image_request_of c;
                    transport = (if iq_transport q \<noteq> [] then Some (iq_transport q) else classify_command (sp_command params))
                in if cw_health w = None \<and> we_cut env = AtHealth then (w\<lparr>cw_runtime := Some rt\<rparr>, Inl WrapCancelled)
                   else if \<not> healthy then (w1, Inr (params, False))
                   else if iq_source_url q = [] \<and> iq_dockerfile q = [] \<and> (transport = None \<or> transport = Some ''docker'')
                   then (w1, Inr (params, False))
                   else wrap_image env build c svr params (runtime_name rt) w1))"

end
