(* ===== verification/Container_Properties.thy ===== *)
theory Container_Properties
  imports Container_Isolation
begin

text \<open>
  Properties of the container isolation: what a wrapped backend runs as, that no container is
  left behind, which characters reach the shell of an image build, and which settings get around
  the checks.
\<close>

section \<open>Wrapping\<close>

lemma check_extra_args_eq: "check_extra_args xs = Inr ys \<Longrightarrow> ys = xs \<and> (\<forall>a \<in> set xs. a \<notin> set DANGEROUS_DOCKER_FLAGS)"
  by (induction xs arbitrary: ys) (auto simp: Let_def split: if_splits sum.splits)

text \<open>
  How docker reads the options of the create command: a switch stands alone, any other option
  takes the next argument as its value, and the first argument that is no option is the image.
  (The module writes no option with its value attached by \<open>=\<close>.)
\<close>

definition docker_switches :: "string list" where
  "docker_switches = [''--rm'', ''-i'', ''--init'', ''--read-only'', ''--privileged'']"

fun docker_options :: "string list \<Rightarrow> (string \<times> string) list \<times> string list" where
  "docker_options [] = ([], [])"
| "docker_options (a # rest) =
     (if \<not> starts_with ''-'' a then ([], a # rest)
      else if a \<in> set docker_switches then apfst (Cons (a, ''true'')) (docker_options rest)
      else case rest of [] \<Rightarrow> ([(a, [])], []) | v # rest' \<Rightarrow> apfst (Cons (a, v)) (docker_options rest'))"

definition option_values :: "string \<Rightarrow> (string \<times> string) list \<Rightarrow> string list" where
  "option_values flag opts = map snd (filter (\<lambda>kv. fst kv = flag) opts)"

text \<open>
  What confines a container: the values of the security options are these and no others, the only
  host paths are the configured volumes (the adapter adds two), and no option but the listed ones
  is set, so no capability, device or name space is added.
\<close>

fun hardened :: "ContainerConfig \<Rightarrow> creation \<Rightarrow> bool" where
  "hardened c (ByCommand args) \<longleftrightarrow> (case docker_options (tl args) of (opts, image_and_args) \<Rightarrow>
     hd args = ''create'' \<and> image_and_args \<noteq> [] \<and> starts_with ''arguslocal/'' (hd image_and_args) \<and>
     option_values ''--read-only'' opts = [''true''] \<and> option_values ''--cap-drop'' opts = [''ALL''] \<and>
     option_values ''--security-opt'' opts = [''no-new-privileges'', ''label=disable''] \<and>
     option_values ''--network'' opts = [effective_network (cc_network c)] \<and>
     option_values ''--memory'' opts = [or_default ''512m'' (cc_memory c)] \<and>
     option_values ''--cpus'' opts = [or_default ''1'' (cc_cpus c)] \<and>
     option_values ''-v'' opts = cc_volumes c \<and>
     list_all (\<lambda>kv. fst kv \<in> set [''--rm'', ''-i'', ''--init'', ''--read-only'', ''--cap-drop'', ''--security-opt'', ''--network'',
       ''--memory'', ''--cpus'', ''-v'', ''--tmpfs'', ''-e'', ''--label'']) opts)"
| "hardened c (ByAdapter r) \<longleftrightarrow> gr_read_only r \<and> gr_cap_drop r = [''ALL''] \<and> gr_network r = effective_network (cc_network c) \<and>
     gr_memory r = or_default ''512m'' (cc_memory c) \<and> gr_cpus r = or_default ''1'' (cc_cpus c) \<and>
     gr_volumes r = [''/tmp:/tmp:rw'', ''/home/nonroot:/home/nonroot:rw''] @ cc_volumes c \<and> starts_with ''arguslocal/'' (gr_image r)"

lemma option_values_append [simp]:
  "option_values f (xs @ ys) = option_values f xs @ option_values f ys" "option_values f [] = []"
  "option_values f (kv # ys) = (if fst kv = f then snd kv # option_values f ys else option_values f ys)"
  by (simp_all add: option_values_def)

lemma docker_options_pairs:
  "\<exists>c cs. f = CHR ''-'' # c # cs \<Longrightarrow> f \<notin> set docker_switches \<Longrightarrow>
   docker_options (concat (map (\<lambda>x. [f, v x]) xs) @ rest) = apfst ((@) (map (\<lambda>x. (f, v x)) xs)) (docker_options rest)"
  by (induction xs) (auto simp: starts_with_def apfst_def map_prod_def split: prod.split)

lemma docker_options_settings:
  "docker_options (concat (map (\<lambda>vol. [''-v'', vol]) vols) @ rest) = apfst ((@) (map (\<lambda>x. (''-v'', x)) vols)) (docker_options rest)"
  "docker_options (concat (map (setting ''--label'') ls) @ rest) =
     apfst ((@) (map (\<lambda>x. (''--label'', fst x @ ''='' @ snd x)) ls)) (docker_options rest)"
  "docker_options (concat (map (setting ''-e'') es) @ rest) =
     apfst ((@) (map (\<lambda>x. (''-e'', fst x @ ''='' @ snd x)) es)) (docker_options rest)"
  unfolding setting_def by (rule docker_options_pairs, simp, simp add: docker_switches_def)+

lemma docker_options_image:
  "starts_with ''arguslocal/'' tag \<Longrightarrow> docker_options (tag # args) = ([], tag # args)"
  by (auto simp: starts_with_iff)

lemma docker_options_switch: "a \<in> set docker_switches \<Longrightarrow> docker_options (a # rest) = apfst (Cons (a, ''true'')) (docker_options rest)"
  by (auto simp: docker_switches_def starts_with_def)

lemma docker_options_value:
  "a \<notin> set docker_switches \<Longrightarrow> hd a = CHR ''-'' \<Longrightarrow> a \<noteq> [] \<Longrightarrow>
   docker_options (a # v # rest) = apfst (Cons (a, v)) (docker_options rest)"
  by (cases a) (auto simp: starts_with_def)

lemma option_values_map [simp]: "option_values f (map (\<lambda>x. (g, v x)) xs) = (if f = g then map v xs else [])"
  "option_values f (map (Pair g) ys) = (if f = g then ys else [])"
proof -
  show "option_values f (map (\<lambda>x. (g, v x)) xs) = (if f = g then map v xs else [])" by (induction xs) auto
  show "option_values f (map (Pair g) ys) = (if f = g then ys else [])" by (induction ys) auto
qed

lemma create_args_hardened:
  assumes "build_create_args tag args env (effective_network (cc_network c)) (or_default ''512m'' (cc_memory c))
      (or_default ''1'' (cc_cpus c)) (cc_volumes c) [] labels = Inr cmd" "starts_with ''arguslocal/'' tag"
  shows "hardened c (ByCommand cmd)"
proof -
  note image = docker_options_image [OF assms(2), of args]
  show ?thesis
    using assms
    by (auto simp: build_create_args_def hardening_args_def docker_options_switch docker_options_value docker_switches_def
        docker_options_settings image list_all_iff simp del: docker_options.simps(2))
qed

lemma create_container_hardened:
  assumes "create_container env c svr params image_tag args = (orphans, r)" "starts_with ''arguslocal/'' image_tag"
    and "r = Inr (Some (cid, how)) \<or> (cid, how) \<in> set orphans" "cc_extra_args c = []"
  shows "hardened c how"
  using assms create_args_hardened [where c = c]
  by (auto simp: create_container_def create_by_command_def orphan_def Let_def go_adapter_request_def CONTAINER_HOME_def
      split: option.splits sum.splits create_outcome.splits simp del: hardened.simps(1))

definition started :: "string \<Rightarrow> string \<Rightarrow> stdio_params" where
  "started rt cid = \<lparr>sp_command = rt, sp_args = [''start'', ''-ai'', cid], sp_env = None\<rparr>"

definition new_ops :: "container_world \<Rightarrow> container_world \<Rightarrow> runtime_op list" where
  "new_ops w w' = drop (length (cw_ops w)) (cw_ops w')"

fun is_created :: "runtime_op \<Rightarrow> bool" where
  "is_created (Created rt cid how) = True"
| "is_created op = False"

fun is_lost :: "runtime_op \<Rightarrow> bool" where
  "is_lost (Lost rt cid) = True"
| "is_lost op = False"

lemma log_op_sel [simp]:
  "cw_ops (log_op op w) = cw_ops w @ [op]" "cw_active (log_op op w) = cw_active w"
  "cw_runtime (log_op op w) = cw_runtime w" "cw_health (log_op op w) = cw_health w"
  by (simp_all add: log_op_def)

text \<open>The images are those the module names itself.\<close>

lemma obtain_image_tag:
  "obtain_image env build tag found missing = (tags, Some t, x) \<Longrightarrow> t = tag"
  by (auto simp: obtain_image_def split: if_splits)

lemma image_from_tag:
  "image_from env build tr pkg tpl data found missing = (tags, Inr (Some t, x)) \<Longrightarrow> starts_with ''arguslocal/'' t"
  by (auto simp: image_from_def compute_image_tag_def starts_with_def map_prod_def dest!: obtain_image_tag split: sum.splits prod.splits)

lemma custom_image_tag:
  "ensure_custom_dockerfile_image env build path = (tags, Inr (Some t, x)) \<Longrightarrow> starts_with ''arguslocal/'' t"
  by (auto simp: ensure_custom_dockerfile_image_def starts_with_def map_prod_def Let_def dest!: obtain_image_tag split: option.splits prod.splits)

lemmas image_makers = ensure_uvx_image_def ensure_npx_image_def ensure_go_image_def ensure_source_image_def

lemma ensure_image_tag:
  "ensure_image env build cmd args q = (tags, Inr (Some t, x)) \<Longrightarrow> starts_with ''arguslocal/'' t"
  unfolding ensure_image_def Let_def image_makers
  by (auto dest: image_from_tag custom_image_tag split: if_splits option.splits prod.splits sum.splits)

text \<open>
  A call either leaves the tracked containers alone and creates none, with an exception or the
  parameters as they were, or it goes on to create a container.
\<close>

definition bystander :: "container_world \<Rightarrow> container_world \<Rightarrow> bool" where
  "bystander w w' \<longleftrightarrow> cw_active w' = cw_active w \<and>
     (\<exists>ops. cw_ops w' = cw_ops w @ ops \<and> list_all (\<lambda>op. \<not> is_created op \<and> \<not> is_lost op) ops)"

lemma bystander_built: "bystander w w1 \<Longrightarrow> bystander w (w1\<lparr>cw_ops := cw_ops w1 @ map Built tags\<rparr>)"
  by (auto simp: bystander_def list_all_iff)

lemma wrap_image_cases:
  assumes "wrap_image env build c svr params rt w = (w', r)" "bystander w0 w"
  obtains (stays) "bystander w0 w'" "r = Inr (params, False) \<or> isl r"
  | (creates) w1 image_tag args where "bystander w0 w1" "starts_with ''arguslocal/'' image_tag"
      "finish_wrap env c svr params rt image_tag args w1 = (w', r)"
proof -
  obtain tags i where i: "ensure_image (we_images env) build (sp_command params) (sp_args params) (image_request_of c) = (tags, i)"
    by fastforce
  note built = bystander_built [OF assms(2)]
  show thesis
  proof (cases "\<exists>t. we_cut env = AtImage t")
    case True
    with assms(1) built show thesis by (intro stays) (auto simp: wrap_image_def)
  next
    case cut: False
    let ?w1 = "w\<lparr>cw_ops := cw_ops w @ map Built tags\<rparr>"
    have eq: "wrap_image env build c svr params rt w = (case i of Inl e \<Rightarrow> (?w1, Inl (WrapRaised e))
        | Inr (None, binary, args) \<Rightarrow> (?w1, Inr (params, False))
        | Inr (Some image_tag, binary, runtime_args) \<Rightarrow> finish_wrap env c svr params rt image_tag runtime_args ?w1)"
      using cut by (simp add: wrap_image_def i Let_def split: wrap_cut.split)
    show thesis
    proof (cases "\<exists>tag x. i = Inr (Some tag, x)")
      case True
      then obtain tag binary args where t: "i = Inr (Some tag, binary, args)" by auto
      show thesis
        using creates [OF built] ensure_image_tag [OF i [unfolded t]] assms(1) eq t by simp
    next
      case False
      with assms(1) eq built show thesis by (intro stays) (auto split: sum.splits option.splits)
    qed
  qed
qed

lemma wrap_backend_cases:
  assumes "wrap_backend env build c svr params w = (w', r)"
  obtains (stays) "bystander w w'" "r = Inr (params, False) \<or> isl r"
  | (creates) w1 rt image_tag args where "bystander w w1" "starts_with ''arguslocal/'' image_tag"
      "finish_wrap env c svr params rt image_tag args w1 = (w', r)"
proof (cases "\<not> cc_enabled c \<or> isolation_off (we_isolation env) \<or> is_already_containerised (sp_command params) (sp_args params)")
  case True
  then show ?thesis using assms by (intro stays) (auto simp: wrap_backend_def bystander_def)
next
  case False
  show ?thesis
  proof (cases "detect_runtime (we_runtime env) (cc_runtime c) (cw_runtime w)")
    case None
    then show ?thesis using assms False by (intro stays) (auto simp: wrap_backend_def bystander_def)
  next
    case (Some rt)
    define w1 where "w1 = w\<lparr>cw_runtime := Some rt, cw_health := Some (case cw_health w of Some h \<Rightarrow> h | None \<Rightarrow> we_healthy env)\<rparr>"
    have w1: "bystander w w1" "bystander w (w\<lparr>cw_runtime := Some rt\<rparr>)" by (simp_all add: w1_def bystander_def)
    consider (no) "w' \<in> {w1, w\<lparr>cw_runtime := Some rt\<rparr>}" "r = Inr (params, False) \<or> isl r"
      | (yes) "wrap_image env build c svr params (runtime_name rt) w1 = (w', r)"
      using assms False Some by (auto simp: wrap_backend_def Let_def w1_def split: if_splits)
    then show ?thesis
    proof cases
      case no
      then show ?thesis using w1 by (intro stays) auto
    next
      case yes
      then show ?thesis by (rule wrap_image_cases [OF _ w1(1)]) (auto intro: stays creates)
    qed
  qed
qed

text \<open>What a list of lost containers adds to the record.\<close>

definition lost_ops :: "string \<Rightarrow> (string \<times> creation) list \<Rightarrow> runtime_op list" where
  "lost_ops rt orphans = concat (map (\<lambda>x. [Created rt (fst x) (snd x), Lost rt (fst x)]) orphans)"

lemma lose_all [simp]:
  "cw_ops (fold (lose rt) orphans w) = cw_ops w @ lost_ops rt orphans" "cw_active (fold (lose rt) orphans w) = cw_active w"
  by (induction orphans arbitrary: w) (simp_all add: lose_def lost_ops_def)

lemma lost_ops_set:
  "Created r i how \<in> set (lost_ops rt orphans) \<longleftrightarrow> r = rt \<and> (i, how) \<in> set orphans"
  "Lost r i \<in> set (lost_ops rt orphans) \<longleftrightarrow> r = rt \<and> i \<in> fst ` set orphans"
  "RemovedContainer r i \<notin> set (lost_ops rt orphans)"
  by (auto simp: lost_ops_def) force+

lemma lost_ops_lost: "Created r i how \<in> set (lost_ops rt orphans) \<Longrightarrow> Lost r i \<in> set (lost_ops rt orphans)"
  by (force simp: lost_ops_set)

lemma finish_wrap_cases:
  assumes "finish_wrap env c svr params rt image_tag args w = (w', r)" "starts_with ''arguslocal/'' image_tag"
  obtains (cut) "w' = cleanup_cancelled svr w" "r = Inl WrapCancelled" "we_cut env = AtCleanup"
  | (stale) "w' = cleanup_container svr w" "r = Inl WrapCancelled"
  | (fails) orphans where "fst (create_container env c svr params image_tag args) = orphans"
      "cw_active w' = cw_active (cleanup_container svr w)"
      "cw_ops w' = cw_ops (cleanup_container svr w) @ RemovedName rt svr # lost_ops rt orphans" "r = Inr (params, False) \<or> isl r"
  | (created) orphans cid how where "fst (create_container env c svr params image_tag args) = orphans"
      "cc_extra_args c = [] \<longrightarrow> hardened c how"
      "cw_active w' = dict_set svr (rt, cid) (cw_active (cleanup_container svr w))"
      "cw_ops w' = cw_ops (cleanup_container svr w) @ RemovedName rt svr # lost_ops rt orphans @ [Created rt cid how]"
      "r = Inr (started rt cid, True)"
proof -
  obtain orphans x where x: "create_container env c svr params image_tag args = (orphans, x)" by fastforce
  consider (c1) "we_cut env = AtCleanup" "dict_get (cw_active w) svr \<noteq> None"
    | (c2) "we_cut env = AtStaleName"
    | (c3) "we_cut env \<noteq> AtStaleName" "\<not> (we_cut env = AtCleanup \<and> dict_get (cw_active w) svr \<noteq> None)" by blast
  then show thesis
  proof cases
    case c3
    then have "finish_wrap env c svr params rt image_tag args w =
        (let w2 = fold (lose rt) orphans (log_op (RemovedName rt svr) (cleanup_container svr w)) in case x of
           Inl e \<Rightarrow> (w2, Inl e)
         | Inr None \<Rightarrow> (w2, Inr (params, False))
         | Inr (Some (cid, how)) \<Rightarrow> (log_op (Created rt cid how) (w2\<lparr>cw_active := dict_set svr (rt, cid) (cw_active w2)\<rparr>),
              Inr (started rt cid, True)))"
      unfolding finish_wrap_def x Let_def started_def prod.case by auto
    moreover have "cc_extra_args c = [] \<longrightarrow> hardened c how" if "x = Inr (Some (cid, how))" for cid how
      using create_container_hardened [OF x assms(2)] that by blast
    ultimately show thesis
      using assms(1) fails [of orphans] created [of orphans] x
      by (auto simp: Let_def split: sum.splits option.splits)
  qed (use assms cut stale in \<open>auto simp: finish_wrap_def\<close>)
qed

lemma cleanup_ops:
  "\<exists>ops. cw_ops (cleanup_container svr w) = cw_ops w @ ops \<and> list_all (\<lambda>op. \<not> is_created op \<and> \<not> is_lost op) ops"
  by (cases "dict_get (cw_active w) svr") (auto simp: cleanup_container_def)

text \<open>
  C30: Isolation of a backend. A call that reports isolation has created a container, tracks it for
  clean-up, and makes the backend run as nothing but the start of that container. If the backend
  configures no extra arguments, the options of that container, read the way docker reads them, are
  a read-only root, all capabilities dropped, no new privileges, the configured network, memory and
  CPU limits or their defaults, of the host only the configured volumes, and none that add to them;
  what the compiled adapter is asked for is the same without the bar on new privileges and with
  \<open>/tmp\<close> and the home directory of the host mounted as well. A call that reports
  none returns the parameters of the backend unchanged, and a container it created is one that came
  to exist after the wrapper had stopped waiting for it.
\<close>

theorem isolation_baseline:
  assumes "wrap_backend env build c svr params w = (w', Inr (p', isolated))"
  shows "if isolated
    then \<exists>rt cid how. p' = started rt cid \<and> dict_get (cw_active w') svr = Some (rt, cid) \<and> Created rt cid how \<in> set (new_ops w w') \<and>
           (cc_extra_args c = [] \<longrightarrow> hardened c how)
    else p' = params \<and> (\<forall>rt cid how. Created rt cid how \<in> set (new_ops w w') \<longrightarrow> Lost rt cid \<in> set (new_ops w w'))"
  using assms
proof (cases rule: wrap_backend_cases)
  case stays
  then show ?thesis by (fastforce simp: bystander_def new_ops_def list_all_iff)
next
  case (creates w1 rt image_tag args)
  obtain ops where ops: "cw_ops w1 = cw_ops w @ ops" "list_all (\<lambda>op. \<not> is_created op \<and> \<not> is_lost op) ops"
    using creates(1) by (auto simp: bystander_def)
  obtain ops' where ops': "cw_ops (cleanup_container svr w1) = cw_ops w1 @ ops'" "list_all (\<lambda>op. \<not> is_created op \<and> \<not> is_lost op) ops'"
    using cleanup_ops by blast
  have none: "Created r i how \<notin> set ops" "Created r i how \<notin> set ops'" for r i how
    using ops(2) ops'(2) by (auto simp: list_all_iff)
  from creates(3,2) show ?thesis
  proof (cases rule: finish_wrap_cases)
    case (fails orphans)
    have "set (new_ops w w') = set ops \<union> set ops' \<union> {RemovedName rt svr} \<union> set (lost_ops rt orphans)"
      using fails(3) ops(1) ops'(1) by (auto simp: new_ops_def)
    then show ?thesis using fails(4) none lost_ops_lost by auto
  next
    case (created orphans cid how)
    have "Created rt cid how \<in> set (new_ops w w')" using created(4) ops(1) ops'(1) by (simp add: new_ops_def)
    then show ?thesis using created by auto
  qed simp_all
qed

definition ex_images :: image_env where
  "ex_images = \<lparr>ie_render = (\<lambda>t d. t), ie_hash = (\<lambda>s. ''0''), ie_exists = (\<lambda>t. True), ie_build = (\<lambda>t. False), ie_file = (\<lambda>p. None),
     ie_ipv6 = (\<lambda>h. False)\<rparr>"

definition ex_wrap_env :: wrap_env where
  "ex_wrap_env =
     \<lparr>we_isolation = [], we_runtime = \<lparr>re_which = (\<lambda>b. b = ''docker''), re_kubernetes = False, re_argus_runtime = []\<rparr>, we_healthy = True,
      we_images = ex_images, we_adapter = (\<lambda>r. NotCreated), we_create = (\<lambda>args. Answered ''c1''), we_cut = NoCut\<rparr>"

definition ex_params :: stdio_params where
  "ex_params = \<lparr>sp_command = ''uvx'', sp_args = [''srv''], sp_env = None\<rparr>"

definition no_containers :: container_world where
  "no_containers = \<lparr>cw_runtime = None, cw_health = None, cw_active = [], cw_ops = []\<rparr>"

lemma ex_wrap: "snd (wrap_backend ex_wrap_env True default_container ''fs'' ex_params no_containers) = Inr (started ''docker'' ''c1'', True)"
  by code_simp

theorem isolation_baseline_witness:
  "\<exists>how. hardened default_container how \<and>
     dict_get (cw_active (fst (wrap_backend ex_wrap_env True default_container ''fs'' ex_params no_containers))) ''fs'' = Some (''docker'', ''c1'')"
proof -
  let ?r = "wrap_backend ex_wrap_env True default_container ''fs'' ex_params no_containers"
  have "?r = (fst ?r, Inr (started ''docker'' ''c1'', True))" using ex_wrap by (metis prod.collapse)
  from isolation_baseline [OF this] show ?thesis by (auto simp: started_def default_container_def)
qed

section \<open>Containers and their removal\<close>

text \<open>
  The calls of the wrapper over the life of a service. \<open>CleanupCancelled\<close> and \<open>CleanupAllCancelled\<close> are
  clean-ups whose task is cancelled, the latter at the given backend.
\<close>

datatype wrapper_call =
    Wrap wrap_env bool ContainerConfig string stdio_params
  | Cleanup string
  | CleanupAll
  | CleanupCancelled string
  | CleanupAllCancelled nat

fun wrapper_step :: "wrapper_call \<Rightarrow> container_world \<Rightarrow> container_world" where
  "wrapper_step (Wrap env build c svr params) w = fst (wrap_backend env build c svr params w)"
| "wrapper_step (Cleanup svr) w = cleanup_container svr w"
| "wrapper_step CleanupAll w = cleanup_all_containers w"
| "wrapper_step (CleanupCancelled svr) w = cleanup_cancelled svr w"
| "wrapper_step (CleanupAllCancelled k) w = cleanup_all_cancelled k w"

definition run_wrapper :: "wrapper_call list \<Rightarrow> container_world" where
  "run_wrapper calls = fold wrapper_step calls no_containers"

text \<open>A call without a cancelled clean-up, in which no request creates a container after the wrapper stopped waiting.\<close>

fun keeps_up :: "create_outcome \<Rightarrow> bool" where
  "keeps_up (GaveUp cid) \<longleftrightarrow> cid = None"
| "keeps_up (CutOff cid) \<longleftrightarrow> cid = None"
| "keeps_up o1 \<longleftrightarrow> True"

fun undisturbed :: "wrapper_call \<Rightarrow> bool" where
  "undisturbed (Wrap env build c svr params) \<longleftrightarrow>
     we_cut env \<noteq> AtCleanup \<and> (\<forall>r. keeps_up (we_adapter env r)) \<and> (\<forall>args. keeps_up (we_create env args))"
| "undisturbed (CleanupCancelled svr) \<longleftrightarrow> False"
| "undisturbed (CleanupAllCancelled k) \<longleftrightarrow> False"
| "undisturbed call \<longleftrightarrow> True"

text \<open>Every container that was created is tracked, its removal was asked for, or it is lost.\<close>

definition settled :: "string \<Rightarrow> string \<Rightarrow> runtime_op list \<Rightarrow> bool" where
  "settled rt cid ops \<longleftrightarrow> RemovedContainer rt cid \<in> set ops \<or> Lost rt cid \<in> set ops"

definition accounted :: "container_world \<Rightarrow> bool" where
  "accounted w \<longleftrightarrow> dict_wf (cw_active w) \<and>
     (\<forall>rt cid how. Created rt cid how \<in> set (cw_ops w) \<longrightarrow> (rt, cid) \<in> snd ` set (cw_active w) \<or> settled rt cid (cw_ops w))"

lemma accountedD:
  "accounted w \<Longrightarrow> Created rt cid how \<in> set (cw_ops w) \<Longrightarrow> (rt, cid) \<in> snd ` set (cw_active w) \<or> settled rt cid (cw_ops w)"
  unfolding accounted_def by blast

lemma settled_append [simp]: "settled rt cid (xs @ ys) \<longleftrightarrow> settled rt cid xs \<or> settled rt cid ys"
  by (auto simp: settled_def)

text \<open>Taking a container off the list with an entry that settles it.\<close>

lemma accounted_untrack:
  assumes "accounted w" "dict_get (cw_active w) svr = Some (rt, cid)" "op \<in> {RemovedContainer rt cid, Lost rt cid}"
  shows "accounted (log_op op (w\<lparr>cw_active := dict_del svr (cw_active w)\<rparr>))"
proof -
  have wf: "dict_wf (cw_active w)" using assms(1) by (simp add: accounted_def)
  have "snd ` set (cw_active w) \<subseteq> insert (rt, cid) (snd ` set (dict_del svr (cw_active w)))"
  proof
    fix y
    assume "y \<in> snd ` set (cw_active w)"
    then obtain n where n: "(n, y) \<in> set (cw_active w)" by auto
    then have "dict_get (cw_active w) n = Some y" using wf by (simp add: dict_get_Some_iff)
    then show "y \<in> insert (rt, cid) (snd ` set (dict_del svr (cw_active w)))"
      using n assms(2) by (cases "n = svr") (force simp: AList.delete_eq)+
  qed
  moreover have "settled rt cid [op]" using assms(3) by (auto simp: settled_def)
  ultimately have "(r, i) \<in> snd ` set (dict_del svr (cw_active w)) \<or> settled r i (cw_ops w @ [op])"
    if "Created r i how \<in> set (cw_ops w)" for r i how
    using accountedD [OF assms(1) that] by auto
  then show ?thesis using wf assms(3) by (auto simp: accounted_def)
qed

lemma accounted_cleanup [inv_intros]:
  assumes "accounted w"
  shows "accounted (cleanup_container svr w)" "accounted (cleanup_cancelled svr w)"
  using assms accounted_untrack [OF assms]
  by (auto simp: cleanup_container_def cleanup_cancelled_def split: option.split)

text \<open>Entries are added and no tracked container is dropped.\<close>

lemma accounted_extend:
  assumes "accounted w" "dict_wf (cw_active w')" "snd ` set (cw_active w) \<subseteq> snd ` set (cw_active w')" "cw_ops w' = cw_ops w @ ops"
    and "\<And>rt cid how. Created rt cid how \<in> set ops \<Longrightarrow> (rt, cid) \<in> snd ` set (cw_active w') \<or> settled rt cid ops"
  shows "accounted w'"
  unfolding accounted_def assms(4)
proof (intro conjI allI impI)
  show "dict_wf (cw_active w')" by (rule assms(2))
  fix rt cid how
  assume "Created rt cid how \<in> set (cw_ops w @ ops)"
  then have "Created rt cid how \<in> set (cw_ops w) \<or> Created rt cid how \<in> set ops" by simp
  then show "(rt, cid) \<in> snd ` set (cw_active w') \<or> settled rt cid (cw_ops w @ ops)"
    using accountedD [OF assms(1)] assms(3,5) unfolding settled_append by blast
qed

lemma accounted_bystander:
  assumes "accounted w" "bystander w w'"
  shows "accounted w'"
proof -
  obtain ops where ops: "cw_active w' = cw_active w" "cw_ops w' = cw_ops w @ ops" "list_all (\<lambda>op. \<not> is_created op \<and> \<not> is_lost op) ops"
    using assms(2) by (auto simp: bystander_def)
  show ?thesis
    by (rule accounted_extend [OF assms(1) _ _ ops(2)]) (use assms(1) ops(1,3) in \<open>auto simp: accounted_def list_all_iff\<close>)
qed

lemma lost_ops_settled: "Created r i how \<in> set (lost_ops rt orphans) \<Longrightarrow> settled r i (lost_ops rt orphans)"
  using lost_ops_lost by (simp add: settled_def)

lemma settled_Cons: "settled rt cid (x # xs) \<longleftrightarrow> x = RemovedContainer rt cid \<or> x = Lost rt cid \<or> settled rt cid xs"
  by (auto simp: settled_def)

lemma accounted_finish:
  assumes "accounted w" "finish_wrap env c svr params rt image_tag args w = (w', r)" "starts_with ''arguslocal/'' image_tag"
  shows "accounted w'"
proof -
  let ?w = "cleanup_container svr w"
  have acc: "accounted ?w" "accounted (cleanup_cancelled svr w)" using accounted_cleanup [OF assms(1)] by simp_all
  have "dict_get (cw_active ?w) svr = None"
    by (cases "dict_get (cw_active w) svr") (auto simp: cleanup_container_def)
  then have free: "svr \<notin> fst ` set (cw_active ?w)" by (simp add: dict_get_None_iff)
  from assms(2,3) show ?thesis
  proof (cases rule: finish_wrap_cases)
    case (fails orphans)
    show ?thesis by (rule accounted_extend [OF acc(1) _ _ fails(3)]) (use fails(2) acc(1) lost_ops_settled in \<open>auto simp: accounted_def settled_Cons\<close>)
  next
    case (created orphans cid how)
    have active: "cw_active w' = cw_active ?w @ [(svr, rt, cid)]" using created(3) free by (simp add: dict_set_new)
    show ?thesis
      by (rule accounted_extend [OF acc(1) _ _ created(4)])
        (use active free acc(1) lost_ops_settled in \<open>auto simp: accounted_def settled_Cons\<close>)
  qed (use acc in simp_all)
qed

lemma accounted_wrap: "accounted w \<Longrightarrow> wrap_backend env build c svr params w = (w', r) \<Longrightarrow> accounted w'"
  by (erule wrap_backend_cases) (auto intro: accounted_bystander accounted_finish)

lemma accounted_fold: "accounted w \<Longrightarrow> accounted (fold cleanup_container svrs w)"
  by (induction svrs arbitrary: w) (simp_all add: accounted_cleanup)

lemma accounted_step: "accounted w \<Longrightarrow> accounted (wrapper_step call w)"
  by (cases call)
    (auto simp: cleanup_all_containers_def cleanup_all_cancelled_def Let_def accounted_cleanup accounted_fold
      intro: accounted_wrap prod.collapse [symmetric])

lemma accounted_run: "accounted (run_wrapper calls)"
proof -
  have "accounted w \<Longrightarrow> accounted (fold wrapper_step calls w)" for w
    by (induction calls arbitrary: w) (simp_all add: accounted_step)
  then show ?thesis by (simp add: run_wrapper_def no_containers_def accounted_def)
qed

text \<open>An undisturbed call loses nothing.\<close>

definition nothing_lost :: "container_world \<Rightarrow> bool" where
  "nothing_lost w \<longleftrightarrow> list_all (\<lambda>op. \<not> is_lost op) (cw_ops w)"

lemma create_container_orphans:
  "undisturbed (Wrap env build c svr params) \<Longrightarrow> fst (create_container env c' svr' params' image_tag args) = []"
proof -
  assume u: "undisturbed (Wrap env build c svr params)"
  have k: "keeps_up (we_adapter env r)" "keeps_up (we_create env a)" for r a using u by simp_all
  have "orphan cid how = []" if "we_adapter env r = GaveUp cid \<or> we_adapter env r = CutOff cid \<or> we_create env a = GaveUp cid \<or> we_create env a = CutOff cid" for cid how r a
    using that k(1) [of r] k(2) [of a] by (auto simp: orphan_def)
  then show ?thesis
    by (auto simp: create_container_def create_by_command_def Let_def split: create_outcome.split sum.split)
qed

lemma nothing_lost_cleanup: "nothing_lost w \<Longrightarrow> nothing_lost (cleanup_container svr w)"
  by (auto simp: nothing_lost_def cleanup_container_def split: option.split)

lemma nothing_lost_fold: "nothing_lost w \<Longrightarrow> nothing_lost (fold cleanup_container svrs w)"
  by (induction svrs arbitrary: w) (simp_all add: nothing_lost_cleanup)

lemma nothing_lost_wrap:
  assumes "nothing_lost w" "undisturbed (Wrap env build c svr params)" "wrap_backend env build c svr params w = (w', r)"
  shows "nothing_lost w'"
  using assms(3)
proof (cases rule: wrap_backend_cases)
  case stays
  then show ?thesis using assms(1) by (auto simp: nothing_lost_def bystander_def list_all_iff)
next
  case (creates w1 rt image_tag args)
  have "nothing_lost w1" using creates(1) assms(1) by (auto simp: nothing_lost_def bystander_def list_all_iff)
  then have w1: "nothing_lost (cleanup_container svr w1)" by (rule nothing_lost_cleanup)
  note none = create_container_orphans [OF assms(2), of c svr params image_tag args]
  from creates(3,2) show ?thesis
    by (cases rule: finish_wrap_cases) (use w1 none assms(2) in \<open>auto simp: nothing_lost_def lost_ops_def\<close>)
qed

lemma nothing_lost_run: "list_all undisturbed calls \<Longrightarrow> nothing_lost (run_wrapper calls)"
proof -
  have step: "nothing_lost w \<Longrightarrow> undisturbed call \<Longrightarrow> nothing_lost (wrapper_step call w)" for call w
    by (cases call)
      (auto simp: cleanup_all_containers_def nothing_lost_cleanup nothing_lost_fold simp del: undisturbed.simps(1)
        intro: nothing_lost_wrap prod.collapse [symmetric])
  have "nothing_lost w \<Longrightarrow> list_all undisturbed calls \<Longrightarrow> nothing_lost (fold wrapper_step calls w)" for w
    by (induction calls arbitrary: w) (simp_all add: step)
  then show "list_all undisturbed calls \<Longrightarrow> ?thesis" by (simp add: run_wrapper_def no_containers_def nothing_lost_def)
qed

text \<open>Cleaning up everything leaves nothing tracked.\<close>

lemma cleanup_active: "cw_active (cleanup_container svr w) = dict_del svr (cw_active w)"
proof (cases "dict_get (cw_active w) svr")
  case None
  then have "filter (\<lambda>(k', _). svr \<noteq> k') (cw_active w) = cw_active w" by (force simp: dict_get_None_iff intro!: filter_True)
  then show ?thesis using None by (simp add: cleanup_container_def AList.delete_eq)
qed (auto simp: cleanup_container_def)

lemma cleanup_all_active: "cw_active (cleanup_all_containers w) = []"
proof -
  have "cw_active (fold cleanup_container svrs w) = filter (\<lambda>kv. fst kv \<notin> set svrs) (cw_active w)" for svrs
    by (induction svrs arbitrary: w) (auto simp: cleanup_active AList.delete_eq intro!: filter_cong)
  then show ?thesis by (auto simp: cleanup_all_containers_def filter_empty_conv)
qed

text \<open>
  C31: No container outlives the service unnoticed. After any calls for any backends, with failed
  builds, repeated wraps of the same backend, creations that time out, and clean-ups and wraps
  whose task is cancelled, the clean-up at shutdown leaves only containers of which the removal
  was asked for, or that were lost before: created by a request the wrapper no longer waited for,
  or taken off its list by a clean-up that was cancelled. Without such an event, none is lost.
\<close>

theorem no_container_outlives_shutdown:
  "(\<forall>rt cid how. Created rt cid how \<in> set (cw_ops (run_wrapper (calls @ [CleanupAll]))) \<longrightarrow>
      RemovedContainer rt cid \<in> set (cw_ops (run_wrapper (calls @ [CleanupAll]))) \<or>
      Lost rt cid \<in> set (cw_ops (run_wrapper (calls @ [CleanupAll])))) \<and>
   (list_all undisturbed calls \<longrightarrow> (\<forall>rt cid. Lost rt cid \<notin> set (cw_ops (run_wrapper (calls @ [CleanupAll])))))"
proof (intro conjI allI impI)
  let ?w = "run_wrapper (calls @ [CleanupAll])"
  have "cw_active ?w = []" by (simp add: run_wrapper_def cleanup_all_active)
  then show "RemovedContainer rt cid \<in> set (cw_ops ?w) \<or> Lost rt cid \<in> set (cw_ops ?w)"
    if "Created rt cid how \<in> set (cw_ops ?w)" for rt cid how
    using accountedD [OF accounted_run that] by (simp add: settled_def)
  show "Lost rt cid \<notin> set (cw_ops ?w)" if "list_all undisturbed calls" for rt cid
    using nothing_lost_run [of "calls @ [CleanupAll]"] that by (auto simp: nothing_lost_def list_all_iff)
qed

text \<open>A backend wrapped twice: both containers are removed, the first by the second wrap.\<close>

lemma ex_wrapped_twice:
  "Created ''docker'' ''c1'' (ByCommand [''create'']) \<notin> set (cw_ops no_containers)"
  "list_ex is_created (cw_ops (run_wrapper [Wrap ex_wrap_env True default_container ''fs'' ex_params, CleanupAll]))"
  by code_simp+

theorem no_container_outlives_shutdown_witness:
  "\<exists>rt cid. RemovedContainer rt cid \<in> set (cw_ops (run_wrapper ([Wrap ex_wrap_env True default_container ''fs'' ex_params] @ [CleanupAll])))"
proof -
  let ?calls = "[Wrap ex_wrap_env True default_container ''fs'' ex_params]"
  have "list_all undisturbed ?calls" by (simp add: ex_wrap_env_def)
  moreover obtain rt cid how where "Created rt cid how \<in> set (cw_ops (run_wrapper (?calls @ [CleanupAll])))"
    using ex_wrapped_twice(2) by (auto simp: list_ex_iff elim!: is_created.elims)
  ultimately show ?thesis using no_container_outlives_shutdown [of ?calls] by blast
qed

text \<open>A creation that times out leaves a container behind that no clean-up removes.\<close>

lemma timed_out_create_is_lost:
  "map is_lost (cw_ops (run_wrapper [Wrap (ex_wrap_env\<lparr>we_create := (\<lambda>args. GaveUp (Some ''c1''))\<rparr>) True default_container ''fs'' ex_params,
     CleanupAll])) = [False, False, True]"
  by code_simp

section \<open>Getting around the checks\<close>

text \<open>
  Extra arguments undo the hardening: neither the validator of the configuration nor the check
  before the container is created refuses a writable root, the network of the host as two
  arguments, or the root of the host mounted with the value attached to the flag.
\<close>

definition undo_args :: "string list" where
  "undo_args = [''--read-only=false'', ''--network'', ''host'', ''-v/:/host'']"

theorem extra_args_undo_hardening:
  "validate_extra_args undo_args = Inr () \<and> check_extra_args undo_args = Inr undo_args"
  by code_simp

text \<open>The value of a build variable may end its line and add another instruction.\<close>

lemma build_env_value_injects:
  "validate_build_env_value (''1'' @ [CHR 0x22, CHR 0x0A] @ ''RUN id'') = Inr ()"
  by code_simp

text \<open>A public host is refused as a source because its name contains the word private.\<close>

definition ex_path_env :: path_env where
  "ex_path_env = \<lparr>pe_resolve = (\<lambda>p. p), pe_allowed = None, pe_ip = (\<lambda>h. None), pe_ipv6 = (\<lambda>h. False), pe_url_error = (\<lambda>u. u)\<rparr>"

lemma private_in_name_is_refused:
  "isl (validate_source_url ex_path_env (Some ''https://private.example.com/a.git''))"
  "\<not> isl (validate_source_url ex_path_env (Some ''https://example.com/a.git''))"
  by code_simp+

section \<open>What reaches the shell of a build\<close>

text \<open>
  The characters with which a POSIX shell, outside quotes, ends or joins commands, redirects,
  groups, escapes or expands parameters and commands.
\<close>

definition shell_operator :: "char \<Rightarrow> bool" where
  "shell_operator c \<longleftrightarrow> c \<in> {CHR '';'', CHR ''&'', CHR ''|'', CHR ''<'', CHR ''>'', CHR ''('', CHR '')'', CHR ''$'', CHR 0x60, CHR 0x5C, CHR 0x0A}"

definition one_command :: "string \<Rightarrow> bool" where
  "one_command s \<longleftrightarrow> list_all (\<lambda>c. \<not> shell_operator c) s"

abbreviation shell_safe :: "string \<Rightarrow> bool" where
  "shell_safe s \<equiv> list_all (\<lambda>c. \<not> shell_unsafe c) s"

lemma operator_unsafe: "shell_operator c \<Longrightarrow> shell_unsafe c"
  unfolding shell_operator_def by (elim insertE emptyE) (simp_all add: shell_unsafe_def code_def)

lemma shell_safe_one_command: "shell_safe s \<Longrightarrow> one_command s"
  unfolding one_command_def list_all_iff using operator_unsafe by blast

lemma not_list_ex: "\<not> list_ex P xs \<longleftrightarrow> list_all (\<lambda>x. \<not> P x) xs"
  by (simp add: list_all_iff list_ex_iff)

lemma validate_package_name_safe: "validate_package_name raw = Inr name \<Longrightarrow> shell_safe name"
  by (auto simp: validate_package_name_def Let_def not_list_ex split: if_splits)

lemma validate_system_deps_safe: "validate_system_deps raw = Inr deps \<Longrightarrow> list_all shell_safe deps"
  by (induction raw arbitrary: deps) (auto simp: Let_def not_list_ex split: if_splits sum.splits)

lemma validate_build_inputs_safe:
  "validate_build_inputs p env deps bdeps = Inr (name, deps', bdeps') \<Longrightarrow> shell_safe name \<and> list_all shell_safe deps' \<and> list_all shell_safe bdeps'"
  by (auto simp: validate_build_inputs_def dest: validate_package_name_safe validate_system_deps_safe split: sum.splits)

lemma last_parts_safe: "shell_safe s \<Longrightarrow> shell_safe (before_last c s) \<and> shell_safe (after_last c s)"
  by (auto simp: list_all_iff before_last_def after_last_def dest!: set_takeWhileD in_set_dropD set_dropWhileD)

lemma install_cmd_safe: "shell_safe p \<Longrightarrow> shell_safe (compute_uvx_install_cmd p)"
  using last_parts_safe [of p "CHR ''@''"]
  by (auto simp: compute_uvx_install_cmd_def Let_def shell_unsafe_def code_def)


lemma package_name_adds_arguments:
  "validate_package_name ''a --index-url=http://x'' = Inr ''a --index-url=http://x''"
  by code_simp

text \<open>The additional packages of the configuration reach the same shell unchecked.\<close>

lemma additional_packages_unchecked:
  "generate_uvx_data package binary env deps bdeps (for_transport ''uvx'' img [pkg] False) = Inr d \<Longrightarrow> td_additional_packages d = [pkg]"
  by (auto simp: generate_uvx_data_def for_transport_def Let_def split: sum.splits)

end
