(* ===== verification/Config_Values.thy ===== *)
theory Config_Values
  imports Py_Regex
begin

text \<open>
  Walks over configuration values, the nested dictionaries, lists and texts a YAML file gives
  (keys are texts): what the expansion of environment variables (\<open>config/migration.py\<close>) and the
  resolution of secrets (\<open>secrets/resolver.py\<close>) have in common, and the first of them.
\<close>

section \<open>Calls and values\<close>

text \<open>A call whose exception is passed on, \<open>a or b\<close>, and \<open>s in v\<close> for a text.\<close>

definition on_ok :: "'a res \<Rightarrow> ('a \<Rightarrow> 'b res) \<Rightarrow> 'b res" where
  "on_ok r f = (case r of Inl e \<Rightarrow> Inl e | Inr x \<Rightarrow> f x)"

definition py_or :: "pyval \<Rightarrow> pyval \<Rightarrow> pyval" where
  "py_or a b = (if py_truthy a then a else b)"

definition py_in :: "string \<Rightarrow> pyval \<Rightarrow> bool res" where
  "py_in s v =
     (case v of
        PList vs \<Rightarrow> Inr (PStr s \<in> set vs)
      | PStr t \<Rightarrow> Inr (str_contains s t)
      | PDict d \<Rightarrow> Inr (s \<in> set (dict_keys d))
      | _ \<Rightarrow> Inl (TypeError ''argument is not iterable''))"

lemma on_ok_simps [simp]: "on_ok (Inr x) f = f x" "on_ok (Inl e) f = Inl e"
  by (simp_all add: on_ok_def)

section \<open>Walks\<close>

text \<open>A loop that applies a call to every item and stops at the first exception.\<close>

fun map_res :: "('a \<Rightarrow> 'b res) \<Rightarrow> 'a list \<Rightarrow> 'b list res" where
  "map_res f [] = Inr []"
| "map_res f (x # xs) =
     (case f x of Inl e \<Rightarrow> Inl e | Inr y \<Rightarrow> (case map_res f xs of Inl e \<Rightarrow> Inl e | Inr ys \<Rightarrow> Inr (y # ys)))"

lemma map_res_cong [fundef_cong]: "xs = ys \<Longrightarrow> (\<And>x. x \<in> set ys \<Longrightarrow> f x = g x) \<Longrightarrow> map_res f xs = map_res g ys"
  by (induction ys arbitrary: xs) (auto split: sum.split)

lemma map_res_ok: "(\<And>x. x \<in> set xs \<Longrightarrow> f x = Inr (g x)) \<Longrightarrow> map_res f xs = Inr (map g xs)"
  by (induction xs) auto

text \<open>The loop succeeds exactly when every call does.\<close>

lemma map_res_Inr: "map_res f xs = Inr ys \<longleftrightarrow> length ys = length xs \<and> (\<forall>i < length xs. f (xs ! i) = Inr (ys ! i))"
proof (induction xs arbitrary: ys)
  case (Cons x xs)
  show ?case
  proof (cases "f x")
    case (Inr y)
    have "map_res f (x # xs) = Inr ys \<longleftrightarrow> (\<exists>zs. ys = y # zs \<and> map_res f xs = Inr zs)"
      by (cases "map_res f xs") (auto simp: Inr)
    also have "\<dots> \<longleftrightarrow> length ys = length (x # xs) \<and> (\<forall>i < length (x # xs). f ((x # xs) ! i) = Inr (ys ! i))"
      unfolding Cons.IH by (cases ys) (auto simp: Inr All_less_Suc2)
    finally show ?thesis .
  qed (auto intro: exI [of _ 0])
qed auto

lemma map_res_fails: "x \<in> set xs \<Longrightarrow> f x = Inl e \<Longrightarrow> \<exists>e'. map_res f xs = Inl e'"
  by (induction xs) (auto split: sum.split)

lemma map_res_uniform:
  "(\<And>x. x \<in> set xs \<Longrightarrow> f x = (if P x then Inr (g x) else Inl e)) \<Longrightarrow>
   map_res f xs = (if \<forall>x \<in> set xs. P x then Inr (map g xs) else Inl e)"
  by (induction xs) auto

fun map_strings :: "(string \<Rightarrow> string) \<Rightarrow> pyval \<Rightarrow> pyval" where
  "map_strings f (PStr s) = PStr (f s)"
| "map_strings f (PList vs) = PList (map (map_strings f) vs)"
| "map_strings f (PDict d) = PDict (map (\<lambda>kv. (fst kv, map_strings f (snd kv))) d)"
| "map_strings f v = v"

text \<open>How deep lists and dictionaries are nested, and the texts in the order of the walk.\<close>

fun tree_depth :: "pyval \<Rightarrow> nat" where
  "tree_depth (PList vs) = foldr max (map (\<lambda>v. Suc (tree_depth v)) vs) 0"
| "tree_depth (PDict d) = foldr max (map (\<lambda>kv. Suc (tree_depth (snd kv))) d) 0"
| "tree_depth v = 0"

fun texts :: "pyval \<Rightarrow> string list" where
  "texts (PStr s) = [s]"
| "texts (PList vs) = concat (map texts vs)"
| "texts (PDict d) = concat (map (\<lambda>kv. texts (snd kv)) d)"
| "texts v = []"

text \<open>The structure of a value without its texts.\<close>

definition shape :: "pyval \<Rightarrow> pyval" where
  "shape v = map_strings (\<lambda>s. []) v"

lemma shape_simps [simp]:
  "shape (PList vs) = PList (map shape vs)"
  "shape (PDict d) = PDict (map (\<lambda>kv. (fst kv, shape (snd kv))) d)"
  "shape (PStr s) = PStr []" "shape PNone = PNone" "shape (PBool b) = PBool b" "shape (PInt n) = PInt n" "shape (PObj c s) = PObj c s"
  by (auto simp: shape_def)

lemma map_strings_map_strings: "map_strings f (map_strings g v) = map_strings (f \<circ> g) v"
  by (induction g v rule: map_strings.induct) auto

lemma shape_map_strings [simp]: "shape (map_strings f v) = shape v"
  by (simp add: shape_def map_strings_map_strings comp_def)

lemma map_strings_id: "(\<And>s. s \<in> set (texts v) \<Longrightarrow> f s = s) \<Longrightarrow> map_strings f v = v"
  by (induction f v rule: map_strings.induct) (force intro!: map_idI simp: prod_eq_iff)+

lemma foldr_max_le: "foldr max (map f xs) 0 \<le> (n::nat) \<longleftrightarrow> (\<forall>x \<in> set xs. f x \<le> n)"
  by (induction xs) auto

lemma tree_depth_le:
  "tree_depth (PList vs) \<le> n \<longleftrightarrow> (\<forall>v \<in> set vs. Suc (tree_depth v) \<le> n)"
  "tree_depth (PDict d) \<le> n \<longleftrightarrow> (\<forall>kv \<in> set d. Suc (tree_depth (snd kv)) \<le> n)"
  by (simp_all add: foldr_max_le)

text \<open>The name of the type of a value.\<close>

fun type_name :: "pyval \<Rightarrow> string" where
  "type_name PNone = ''NoneType''"
| "type_name (PBool b) = ''bool''"
| "type_name (PInt n) = ''int''"
| "type_name (PStr s) = ''str''"
| "type_name (PList vs) = ''list''"
| "type_name (PDict d) = ''dict''"
| "type_name (PObj c s) = c"

section \<open>Environment variables\<close>

type_synonym environment = "(string, string) dict"

definition ENV_VAR_RE :: regex where
  "ENV_VAR_RE = seq [lit ''${'', Group (plus (Cls is_word)), lit ''}'']"

definition MAX_RECURSION_DEPTH :: nat where
  "MAX_RECURSION_DEPTH = 20"

definition expand_str :: "environment \<Rightarrow> string \<Rightarrow> string" where
  "expand_str env s = fst (subn_from ENV_VAR_RE (\<lambda>m g. dict_get_or m env g) s 0)"

definition expand_too_deep :: exn where
  "expand_too_deep = ValueError (''expand_env_vars: recursion depth limit exceeded (max '' @ show_nat MAX_RECURSION_DEPTH @ '')'')"

fun expand_env_vars :: "environment \<Rightarrow> nat \<Rightarrow> pyval \<Rightarrow> pyval res" where
  "expand_env_vars env d (PStr s) = (if d > MAX_RECURSION_DEPTH then Inl expand_too_deep else Inr (PStr (expand_str env s)))"
| "expand_env_vars env d (PDict kvs) =
     (if d > MAX_RECURSION_DEPTH then Inl expand_too_deep
      else case map_res (\<lambda>kv. map_sum id (Pair (fst kv)) (expand_env_vars env (d + 1) (snd kv))) kvs of
             Inl e \<Rightarrow> Inl e | Inr kvs' \<Rightarrow> Inr (PDict kvs'))"
| "expand_env_vars env d (PList vs) =
     (if d > MAX_RECURSION_DEPTH then Inl expand_too_deep
      else case map_res (expand_env_vars env (d + 1)) vs of Inl e \<Rightarrow> Inl e | Inr vs' \<Rightarrow> Inr (PList vs'))"
| "expand_env_vars env d v = (if d > MAX_RECURSION_DEPTH then Inl expand_too_deep else Inr v)"

text \<open>
  The expansion as a whole: it replaces the references in every text and keeps everything else,
  or fails when the value is nested more than twenty levels deep.
\<close>

lemma expand_env_vars_eq:
  "expand_env_vars env d v =
     (if d + tree_depth v \<le> MAX_RECURSION_DEPTH then Inr (map_strings (expand_str env) v) else Inl expand_too_deep)"
proof (induction env d v rule: expand_env_vars.induct)
  case (2 env d kvs)
  show ?case
  proof (cases "d > MAX_RECURSION_DEPTH")
    case False
    have "map_res (\<lambda>kv. map_sum id (Pair (fst kv)) (expand_env_vars env (d + 1) (snd kv))) kvs =
        (if \<forall>kv \<in> set kvs. d + 1 + tree_depth (snd kv) \<le> MAX_RECURSION_DEPTH
         then Inr (map (\<lambda>kv. (fst kv, map_strings (expand_str env) (snd kv))) kvs) else Inl expand_too_deep)"
      by (rule map_res_uniform) (simp add: 2 [OF False, simplified])
    moreover have "(\<forall>kv \<in> set kvs. d + 1 + tree_depth (snd kv) \<le> MAX_RECURSION_DEPTH) \<longleftrightarrow> d + tree_depth (PDict kvs) \<le> MAX_RECURSION_DEPTH"
      using tree_depth_le(2) [of kvs "MAX_RECURSION_DEPTH - d"] False by fastforce
    ultimately show ?thesis using False by simp
  qed simp
next
  case (3 env d vs)
  show ?case
  proof (cases "d > MAX_RECURSION_DEPTH")
    case False
    have "map_res (expand_env_vars env (d + 1)) vs =
        (if \<forall>v \<in> set vs. d + 1 + tree_depth v \<le> MAX_RECURSION_DEPTH
         then Inr (map (map_strings (expand_str env)) vs) else Inl expand_too_deep)"
      by (rule map_res_uniform) (simp add: 3 [OF False, simplified])
    moreover have "(\<forall>v \<in> set vs. d + 1 + tree_depth v \<le> MAX_RECURSION_DEPTH) \<longleftrightarrow> d + tree_depth (PList vs) \<le> MAX_RECURSION_DEPTH"
      using tree_depth_le(1) [of vs "MAX_RECURSION_DEPTH - d"] False by fastforce
    ultimately show ?thesis using False by simp
  qed simp
qed auto

end
