(* ===== verification/Secrets.thy ===== *)
theory Secrets
  imports Config_Values "HOL-Library.Char_ord" "HOL-Library.List_Lexorder"
begin

text \<open>
  Secrets: the providers and the store of \<open>secrets/providers.py\<close> and \<open>secrets/store.py\<close>, and the
  resolver of \<open>secrets/resolver.py\<close>. The process environment, the secrets files and the keyring
  of the system are the state. The encryption, JSON and keyring libraries are arguments;
  \<open>secret_libraries\<close> lists what is relied on. The file provider makes its key object once; the
  model reads the variable at every use.
\<close>

section \<open>State and libraries\<close>

datatype write_outcome = WriteOk | WriteFails exn | ChmodFails exn

text \<open>
  \<open>sl_unseal\<close> stands for reading, decrypting and decoding a file, \<open>sl_seal\<close> for the way back, both
  with the key; \<open>sl_fernet\<close> is the exception for a malformed key.
\<close>

record ('c, 'k) secret_libs =
  sl_cryptography :: bool
  sl_fernet :: "string \<Rightarrow> exn option"
  sl_seal :: "string \<Rightarrow> (string, string) dict \<Rightarrow> 'c"
  sl_unseal :: "string \<Rightarrow> 'c \<Rightarrow> (string, string) dict res"
  sl_write :: "string \<Rightarrow> write_outcome"
  sl_keyring :: bool
  sl_get_password :: "'k \<Rightarrow> string \<Rightarrow> string option res"
  sl_set_password :: "'k \<Rightarrow> string \<Rightarrow> string \<Rightarrow> 'k res"
  sl_delete_password :: "'k \<Rightarrow> string \<Rightarrow> 'k res"
  sl_dumps :: "string list \<Rightarrow> string"
  sl_loads :: "string \<Rightarrow> string list option"

record ('c, 'k) secret_world =
  environ :: environment
  secret_files :: "(string, 'c) dict"
  keyring :: 'k

section \<open>Environment variables\<close>

text \<open>\<open>upper()\<close> of a character; the upper case of the codes 181 and 255 is outside the range of the model.\<close>

definition upper_text :: "char \<Rightarrow> string" where
  "upper_text c =
     (if 97 \<le> code c \<and> code c \<le> 122 \<or> 224 \<le> code c \<and> code c \<le> 254 \<and> code c \<noteq> 247 then [char_of (code c - 32)]
      else if code c = 223 then ''SS'' else [c])"

definition replace_char :: "char \<Rightarrow> char \<Rightarrow> string \<Rightarrow> string" where
  "replace_char a b s = map (\<lambda>c. if c = a then b else c) s"

definition env_key :: "string \<Rightarrow> string" where
  "env_key name = ''SECRET_'' @ replace_char (CHR ''-'') (CHR ''_'') (concat (map upper_text name))"

definition env_get :: "('c, 'k) secret_world \<Rightarrow> string \<Rightarrow> string option res" where
  "env_get w name = Inr (dict_get (environ w) (env_key name))"

text \<open>The operating system refuses names with an equals sign and zero bytes.\<close>

definition env_set :: "('c, 'k) secret_world \<Rightarrow> string \<Rightarrow> string \<Rightarrow> ('c, 'k) secret_world \<times> unit res" where
  "env_set w name value =
     (if CHR 0x00 \<in> set (env_key name @ value) then (w, Inl (ValueError ''embedded null byte''))
      else if CHR ''='' \<in> set (env_key name) then (w, Inl (ValueError ''illegal environment variable name''))
      else (w\<lparr>environ := dict_set (env_key name) value (environ w)\<rparr>, Inr ()))"

definition env_delete :: "('c, 'k) secret_world \<Rightarrow> string \<Rightarrow> ('c, 'k) secret_world \<times> unit res" where
  "env_delete w name = (w\<lparr>environ := dict_del (env_key name) (environ w)\<rparr>, Inr ())"

definition env_list_names :: "('c, 'k) secret_world \<Rightarrow> string list res" where
  "env_list_names w =
     Inr (map (\<lambda>k. replace_char (CHR ''_'') (CHR ''-'') (str_lower (drop 7 k))) (filter (starts_with ''SECRET_'') (dict_keys (environ w))))"

section \<open>Encrypted files\<close>

definition ensure_fernet :: "('c, 'k) secret_libs \<Rightarrow> ('c, 'k) secret_world \<Rightarrow> string res" where
  "ensure_fernet L w =
     (if \<not> sl_cryptography L
      then Inl (RuntimeError ''cryptography package required for encrypted secrets. Install with: pip install cryptography'')
      else case dict_get (environ w) ''ARGUS_SECRET_KEY'' of
             None \<Rightarrow> Inl (RuntimeError ''ARGUS_SECRET_KEY environment variable must be set for encrypted secret storage.'')
           | Some key \<Rightarrow>
               if key = [] then Inl (RuntimeError ''ARGUS_SECRET_KEY environment variable must be set for encrypted secret storage.'')
               else case sl_fernet L key of Some e \<Rightarrow> Inl e | None \<Rightarrow> Inr key)"

text \<open>The exceptions \<open>_load\<close> turns into its own; the one of a wrong key is not among them.\<close>

fun os_or_value_error :: "exn \<Rightarrow> bool" where
  "os_or_value_error (ValueError m) = True"
| "os_or_value_error (ConnectionError m) = True"
| "os_or_value_error TimeoutError = True"
| "os_or_value_error (OtherException c m) = (c \<in> {''OSError'', ''FileNotFoundError'', ''PermissionError'', ''IsADirectoryError'',
     ''JSONDecodeError'', ''UnicodeDecodeError''})"
| "os_or_value_error e = False"

definition file_load :: "('c, 'k) secret_libs \<Rightarrow> string \<Rightarrow> ('c, 'k) secret_world \<Rightarrow> (string, string) dict res" where
  "file_load L path w =
     (case dict_get (secret_files w) path of
        None \<Rightarrow> Inr []
      | Some content \<Rightarrow>
          (case ensure_fernet L w of
             Inl e \<Rightarrow> Inl e
           | Inr key \<Rightarrow>
               (case sl_unseal L key content of
                  Inr d \<Rightarrow> Inr d
                | Inl e \<Rightarrow>
                    if os_or_value_error e
                    then Inl (RuntimeError (''Failed to load/decrypt secrets file '' @ path @ '': '' @ exn_str e @
                           ''. Check that ARGUS_SECRET_KEY is correct and the file is not corrupted.''))
                    else Inl e)))"

definition file_save :: "('c, 'k) secret_libs \<Rightarrow> string \<Rightarrow> (string, string) dict \<Rightarrow> ('c, 'k) secret_world \<Rightarrow> ('c, 'k) secret_world \<times> unit res" where
  "file_save L path d w =
     (case ensure_fernet L w of
        Inl e \<Rightarrow> (w, Inl e)
      | Inr key \<Rightarrow>
          (let w' = w\<lparr>secret_files := dict_set path (sl_seal L key d) (secret_files w)\<rparr>
           in case sl_write L path of
                WriteOk \<Rightarrow> (w', Inr ())
              | WriteFails e \<Rightarrow> (w, Inl e)
              | ChmodFails e \<Rightarrow> (w', Inl e)))"

definition file_get :: "('c, 'k) secret_libs \<Rightarrow> string \<Rightarrow> ('c, 'k) secret_world \<Rightarrow> string \<Rightarrow> string option res" where
  "file_get L path w name = map_sum id (\<lambda>d. dict_get d name) (file_load L path w)"

definition file_set :: "('c, 'k) secret_libs \<Rightarrow> string \<Rightarrow> ('c, 'k) secret_world \<Rightarrow> string \<Rightarrow> string \<Rightarrow> ('c, 'k) secret_world \<times> unit res" where
  "file_set L path w name value =
     (case file_load L path w of Inl e \<Rightarrow> (w, Inl e) | Inr d \<Rightarrow> file_save L path (dict_set name value d) w)"

definition file_delete :: "('c, 'k) secret_libs \<Rightarrow> string \<Rightarrow> ('c, 'k) secret_world \<Rightarrow> string \<Rightarrow> ('c, 'k) secret_world \<times> unit res" where
  "file_delete L path w name =
     (case file_load L path w of Inl e \<Rightarrow> (w, Inl e) | Inr d \<Rightarrow> file_save L path (dict_del name d) w)"

definition file_list_names :: "('c, 'k) secret_libs \<Rightarrow> string \<Rightarrow> ('c, 'k) secret_world \<Rightarrow> string list res" where
  "file_list_names L path w = map_sum id dict_keys (file_load L path w)"

section \<open>The keyring of the system\<close>

definition names_key :: string where
  "names_key = ''__argus_mcp_secret_names__''"

definition no_keyring :: exn where
  "no_keyring = RuntimeError ''keyring package required. Install with: pip install keyring''"

definition kr_get :: "('c, 'k) secret_libs \<Rightarrow> ('c, 'k) secret_world \<Rightarrow> string \<Rightarrow> string option res" where
  "kr_get L w name = (if \<not> sl_keyring L then Inl no_keyring else sl_get_password L (keyring w) name)"

definition kr_list_names :: "('c, 'k) secret_libs \<Rightarrow> ('c, 'k) secret_world \<Rightarrow> string list res" where
  "kr_list_names L w =
     (case kr_get L w names_key of
        Inl e \<Rightarrow> Inl e
      | Inr None \<Rightarrow> Inr []
      | Inr (Some raw) \<Rightarrow> Inr (if raw = [] then [] else case sl_loads L raw of None \<Rightarrow> [] | Some names \<Rightarrow> names))"

text \<open>The entry with the names, written in order and without duplicates.\<close>

definition kr_save_names ::
  "('c, 'k) secret_libs \<Rightarrow> (string set \<Rightarrow> string set) \<Rightarrow> ('c, 'k) secret_world \<Rightarrow> ('c, 'k) secret_world \<times> unit res" where
  "kr_save_names L change w =
     (case kr_list_names L w of
        Inl e \<Rightarrow> (w, Inl e)
      | Inr names \<Rightarrow>
          (case sl_set_password L (keyring w) names_key (sl_dumps L (sorted_list_of_set (change (set names)))) of
             Inl e \<Rightarrow> (w, Inl e)
           | Inr k \<Rightarrow> (w\<lparr>keyring := k\<rparr>, Inr ())))"

definition kr_set :: "('c, 'k) secret_libs \<Rightarrow> ('c, 'k) secret_world \<Rightarrow> string \<Rightarrow> string \<Rightarrow> ('c, 'k) secret_world \<times> unit res" where
  "kr_set L w name value =
     (if \<not> sl_keyring L then (w, Inl no_keyring)
      else case sl_set_password L (keyring w) name value of
             Inl e \<Rightarrow> (w, Inl e)
           | Inr k \<Rightarrow> kr_save_names L (insert name) (w\<lparr>keyring := k\<rparr>))"

definition kr_delete :: "('c, 'k) secret_libs \<Rightarrow> ('c, 'k) secret_world \<Rightarrow> string \<Rightarrow> ('c, 'k) secret_world \<times> unit res" where
  "kr_delete L w name =
     (if \<not> sl_keyring L then (w, Inl no_keyring)
      else let w1 = (case sl_delete_password L (keyring w) name of Inl e \<Rightarrow> w | Inr k \<Rightarrow> w\<lparr>keyring := k\<rparr>)
           in kr_save_names L (\<lambda>names. names - {name}) w1)"

section \<open>The store\<close>

datatype SecretProvider = EnvProvider | FileProvider string | KeyringProvider

definition create_provider :: "string \<Rightarrow> (string, string) dict \<Rightarrow> SecretProvider res" where
  "create_provider provider_type kwargs =
     (if provider_type = ''env'' then Inr EnvProvider
      else if provider_type = ''file'' then Inr (FileProvider (dict_get_or ''secrets.enc'' kwargs ''path''))
      else if provider_type = ''keyring'' then Inr KeyringProvider
      else Inl (ValueError (''Unknown secret provider type: '' @ repr_str provider_type)))"

fun store_get :: "('c, 'k) secret_libs \<Rightarrow> SecretProvider \<Rightarrow> ('c, 'k) secret_world \<Rightarrow> string \<Rightarrow> string option res" where
  "store_get L EnvProvider = env_get"
| "store_get L (FileProvider path) = file_get L path"
| "store_get L KeyringProvider = kr_get L"

fun store_set ::
  "('c, 'k) secret_libs \<Rightarrow> SecretProvider \<Rightarrow> ('c, 'k) secret_world \<Rightarrow> string \<Rightarrow> string \<Rightarrow> ('c, 'k) secret_world \<times> unit res" where
  "store_set L EnvProvider = env_set"
| "store_set L (FileProvider path) = file_set L path"
| "store_set L KeyringProvider = kr_set L"

fun store_delete ::
  "('c, 'k) secret_libs \<Rightarrow> SecretProvider \<Rightarrow> ('c, 'k) secret_world \<Rightarrow> string \<Rightarrow> ('c, 'k) secret_world \<times> unit res" where
  "store_delete L EnvProvider = env_delete"
| "store_delete L (FileProvider path) = file_delete L path"
| "store_delete L KeyringProvider = kr_delete L"

fun store_list_names :: "('c, 'k) secret_libs \<Rightarrow> SecretProvider \<Rightarrow> ('c, 'k) secret_world \<Rightarrow> string list res" where
  "store_list_names L EnvProvider = env_list_names"
| "store_list_names L (FileProvider path) = file_list_names L path"
| "store_list_names L KeyringProvider = kr_list_names L"

definition store_exists :: "('c, 'k) secret_libs \<Rightarrow> SecretProvider \<Rightarrow> ('c, 'k) secret_world \<Rightarrow> string \<Rightarrow> bool res" where
  "store_exists L p w name = map_sum id (\<lambda>v. v \<noteq> None) (store_get L p w name)"

definition store_from_config :: "(string, string) dict \<Rightarrow> SecretProvider res" where
  "store_from_config config =
     (let provider_type = dict_get_or ''env'' config ''provider''
      in create_provider provider_type
           (case dict_get config ''path'' of Some p \<Rightarrow> if provider_type = ''file'' then [(''path'', p)] else [] | None \<Rightarrow> []))"

section \<open>References\<close>

definition SECRET_REF :: regex where
  "SECRET_REF = seq [TextStart, lit ''secret:'', Group (plus dot), TextEnd]"

definition MAX_WALK_DEPTH :: nat where
  "MAX_WALK_DEPTH = 20"

definition resolve_string :: "(string \<Rightarrow> string option res) \<Rightarrow> bool \<Rightarrow> string \<Rightarrow> string \<Rightarrow> string res" where
  "resolve_string get strict path value =
     (case re_match SECRET_REF value of
        None \<Rightarrow> Inr value
      | Some secret_name \<Rightarrow>
          (case get secret_name of
             Inl e \<Rightarrow> Inl e
           | Inr None \<Rightarrow>
               if strict
               then Inl (OtherException ''SecretResolutionError''
                      (''Secret '' @ CHR 0x27 # secret_name @ CHR 0x27 # '' not found (referenced at '' @ path @ '')''))
               else Inr value
           | Inr (Some resolved) \<Rightarrow> Inr resolved))"

definition walk_too_deep :: "string \<Rightarrow> exn" where
  "walk_too_deep path = ValueError (''_walk: recursion depth limit exceeded at path '' @ CHR 0x27 # path @ CHR 0x27 # '' (max '' @
     show_nat MAX_WALK_DEPTH @ '')'')"

lemma size_enumerate: "i < length vs \<Longrightarrow> size (vs ! i) \<le> size_list size vs"
  by (rule size_list_estimation' [OF nth_mem order_refl])

function walk :: "(string \<Rightarrow> string option res) \<Rightarrow> bool \<Rightarrow> string \<Rightarrow> nat \<Rightarrow> pyval \<Rightarrow> pyval res" where
  "walk get strict path d (PDict kvs) =
     (if d > MAX_WALK_DEPTH then Inl (walk_too_deep path)
      else map_sum id PDict (map_res (\<lambda>kv. map_sum id (Pair (fst kv)) (walk get strict (path @ ''.'' @ fst kv) (d + 1) (snd kv))) kvs))"
| "walk get strict path d (PList vs) =
     (if d > MAX_WALK_DEPTH then Inl (walk_too_deep path)
      else map_sum id PList (map_res (\<lambda>iv. walk get strict (path @ ''['' @ show_nat (fst iv) @ '']'') (d + 1) (snd iv)) (List.enumerate 0 vs)))"
| "walk get strict path d (PStr s) =
     (if d > MAX_WALK_DEPTH then Inl (walk_too_deep path) else map_sum id PStr (resolve_string get strict path s))"
| "walk get strict path d PNone = (if d > MAX_WALK_DEPTH then Inl (walk_too_deep path) else Inr PNone)"
| "walk get strict path d (PBool b) = (if d > MAX_WALK_DEPTH then Inl (walk_too_deep path) else Inr (PBool b))"
| "walk get strict path d (PInt n) = (if d > MAX_WALK_DEPTH then Inl (walk_too_deep path) else Inr (PInt n))"
| "walk get strict path d (PObj c s) = (if d > MAX_WALK_DEPTH then Inl (walk_too_deep path) else Inr (PObj c s))"
  by pat_completeness auto
termination
  by (relation "measure (\<lambda>(get, strict, path, d, v). size v)")
    (auto simp: in_set_enumerate_eq less_Suc_eq_le size_enumerate intro: size_list_estimation' size_list_estimation)

definition resolve_secrets :: "(string \<Rightarrow> string option res) \<Rightarrow> bool \<Rightarrow> pyval \<Rightarrow> pyval res" where
  "resolve_secrets get strict config = walk get strict [] 0 config"

definition find_secret_references :: "pyval \<Rightarrow> string list" where
  "find_secret_references config = List.map_filter (re_match SECRET_REF) (texts config)"

section \<open>Provider contracts\<close>

text \<open>
  What a store promises its clients: a name that was stored gives its value until it is stored
  again under the same key. Of some providers also that a name that was deleted is gone.
\<close>

definition reference :: "string \<Rightarrow> bool" where
  "reference n \<longleftrightarrow> n \<noteq> [] \<and> list_all (\<lambda>c. \<not> is_newline c) n"

lemma re_match_reference:
  assumes "reference n"
  shows "re_match SECRET_REF (''secret:'' @ n) = Some n"
proof -
  let ?s = "''secret:'' @ n"
  have len: "length ?s = 7 + length n" by simp
  have ok: "\<not> is_newline (?s ! j)" if "7 \<le> j" "j < length ?s" for j
    using assms that by (auto simp: reference_def list_all_length nth_append)
  obtain es where es: "rep (match_at dot ?s) True 1 (1 + (length ?s - 7)) 7 None = (length ?s, None) # es"
    using rep_greedy_all [of "match_at dot ?s" ?s "\<lambda>c. \<not> is_newline c" 7 1 "1 + (length ?s - 7)" None] ok assms
    by (auto simp: dot_def reference_def Suc_le_eq)
  have "match_at (lit ''secret:'') ?s 0 None = [(7, None)]" by (simp add: match_lit)
  moreover have "match_at (Group (plus dot)) ?s 7 None = (length ?s, Some (7, length ?s)) # map (\<lambda>(j, g). (j, Some (7, j))) es"
    using es by (simp add: plus_def)
  moreover have "match_at TextEnd ?s (length ?s) g = [(length ?s, g)]" for g by simp
  ultimately have "first_match SECRET_REF ?s 0 = Some (length ?s, Some (7, length ?s))"
    by (simp add: first_match_def SECRET_REF_def seq_def del: length_append)
  then show ?thesis by (simp add: re_match_def group_text_def)
qed

locale secret_provider =
  fixes get :: "'w \<Rightarrow> string \<Rightarrow> string option res" and put :: "'w \<Rightarrow> string \<Rightarrow> string \<Rightarrow> 'w \<times> unit res"
    and same :: "string \<Rightarrow> string \<Rightarrow> bool" and ok :: "string \<Rightarrow> bool"
  assumes same_refl: "same n n"
    and put_same: "put w n v = (w', Inr ()) \<Longrightarrow> ok n \<Longrightarrow> ok m \<Longrightarrow> same n m \<Longrightarrow> get w' m = Inr (Some v)"
    and put_other: "put w n v = (w', Inr ()) \<Longrightarrow> ok n \<Longrightarrow> ok m \<Longrightarrow> \<not> same n m \<Longrightarrow> get w' m = get w m"
begin

lemma stored_resolves:
  assumes "put w n v = (w', Inr ())" "ok n" "reference n"
  shows "resolve_string (get w') strict path (''secret:'' @ n) = Inr v"
  using put_same [OF assms(1,2,2) same_refl] unfolding resolve_string_def re_match_reference [OF assms(3)] by simp

lemma other_resolves:
  assumes "put w n v = (w', Inr ())" "ok n" "ok m" "reference m" "\<not> same n m"
  shows "resolve_string (get w') strict path (''secret:'' @ m) = resolve_string (get w) strict path (''secret:'' @ m)"
  using put_other [OF assms(1,2,3,5)] unfolding resolve_string_def re_match_reference [OF assms(4)] by simp

end

locale deleting_provider = secret_provider +
  fixes del :: "'a \<Rightarrow> string \<Rightarrow> 'a \<times> unit res"
  assumes del_same: "del w n = (w', Inr ()) \<Longrightarrow> ok n \<Longrightarrow> ok m \<Longrightarrow> same n m \<Longrightarrow> get w' m = Inr None"
    and del_other: "del w n = (w', Inr ()) \<Longrightarrow> ok n \<Longrightarrow> ok m \<Longrightarrow> \<not> same n m \<Longrightarrow> get w' m = get w m"
begin

lemma deleted_does_not_resolve:
  assumes "del w n = (w', Inr ())" "ok n" "reference n"
  shows "resolve_string (get w') False path (''secret:'' @ n) = Inr (''secret:'' @ n)"
  using del_same [OF assms(1,2,2) same_refl] unfolding resolve_string_def re_match_reference [OF assms(3)] by simp

end

interpretation ep: deleting_provider env_get env_set "\<lambda>n m. env_key n = env_key m" "\<lambda>n. True" env_delete
  by unfold_locales (auto simp: env_get_def env_set_def env_delete_def split: if_splits)

text \<open>What the libraries promise: decrypting gives back what was encrypted with the same key, and a keyring is a map.\<close>

locale secret_libraries =
  fixes L :: "('c, 'k) secret_libs"
  assumes unseal_seal: "dict_wf d \<Longrightarrow> sl_unseal L key (sl_seal L key d) = Inr d"
    and unseal_wf: "sl_unseal L key c = Inr d \<Longrightarrow> dict_wf d"
    and set_password: "sl_set_password L k n v = Inr k' \<Longrightarrow> sl_get_password L k' m = (if m = n then Inr (Some v) else sl_get_password L k m)"
begin

lemma file_load_wf: "file_load L path w = Inr d \<Longrightarrow> dict_wf d"
  using unseal_wf by (auto simp: file_load_def split: option.splits sum.splits if_splits)

lemma file_save_load:
  assumes "file_save L path d w = (w', Inr ())" "dict_wf d"
  shows "file_load L path w' = Inr d"
  using assms unseal_seal
  by (auto simp: file_save_def file_load_def ensure_fernet_def Let_def split: sum.splits write_outcome.splits option.splits if_splits)

lemma file_set_load:
  assumes "file_set L path w n v = (w', Inr ())"
  shows "\<exists>d. file_load L path w = Inr d \<and> file_load L path w' = Inr (dict_set n v d)"
proof (cases "file_load L path w")
  case (Inr d)
  then show ?thesis using file_save_load [of path "dict_set n v d" w w'] file_load_wf [OF Inr] assms by (simp add: file_set_def)
qed (use assms in \<open>simp add: file_set_def\<close>)

lemma file_delete_load:
  assumes "file_delete L path w n = (w', Inr ())"
  shows "\<exists>d. file_load L path w = Inr d \<and> file_load L path w' = Inr (dict_del n d)"
proof (cases "file_load L path w")
  case (Inr d)
  then show ?thesis using file_save_load [of path "dict_del n d" w w'] file_load_wf [OF Inr] assms by (simp add: file_delete_def)
qed (use assms in \<open>simp add: file_delete_def\<close>)

lemma kr_save_names_get:
  "kr_save_names L change w = (w', Inr ()) \<Longrightarrow> m \<noteq> names_key \<Longrightarrow> kr_get L w' m = kr_get L w m"
  using set_password by (auto simp: kr_save_names_def kr_get_def split: sum.splits)

end

sublocale secret_libraries \<subseteq> sealed: deleting_provider "file_get L path" "file_set L path" "(=)" "\<lambda>n. True" "file_delete L path" for path
  by unfold_locales (auto simp: file_get_def dest!: file_set_load file_delete_load)

sublocale secret_libraries \<subseteq> kr: secret_provider "kr_get L" "kr_set L" "(=)" "\<lambda>n. n \<noteq> names_key"
proof unfold_locales
  fix w w' n v m
  assume put: "kr_set L w n v = (w', Inr ())" and ok: "m \<noteq> names_key"
  then obtain k where k: "sl_set_password L (keyring w) n v = Inr k" "kr_save_names L (insert n) (w\<lparr>keyring := k\<rparr>) = (w', Inr ())" "sl_keyring L"
    by (auto simp: kr_set_def split: if_splits sum.splits)
  have get: "kr_get L w' m = (if m = n then Inr (Some v) else kr_get L w m)"
    using kr_save_names_get [OF k(2) ok] set_password [OF k(1), of m] k(3) by (simp add: kr_get_def)
  show "n = m \<Longrightarrow> kr_get L w' m = Inr (Some v)" "n \<noteq> m \<Longrightarrow> kr_get L w' m = kr_get L w m" using get by simp_all
qed simp

context secret_libraries
begin

lemma file_stored_resolves:
  "file_set L file_path w n v = (w', Inr ()) \<Longrightarrow> reference n \<Longrightarrow> resolve_string (file_get L file_path w') strict path (''secret:'' @ n) = Inr v"
  by (rule sealed.stored_resolves [OF _ TrueI])

lemma keyring_stored_resolves:
  "kr_set L w n v = (w', Inr ()) \<Longrightarrow> n \<noteq> names_key \<Longrightarrow> reference n \<Longrightarrow> resolve_string (kr_get L w') strict path (''secret:'' @ n) = Inr v"
  by (rule kr.stored_resolves)

end

text \<open>
  Libraries that behave as documented: a sealed file is the data with the key it was encrypted
  with, a keyring is a dictionary.
\<close>

definition documented_libs :: "(string \<times> (string, string) dict, (string, string) dict) secret_libs" where
  "documented_libs =
     \<lparr>sl_cryptography = True, sl_fernet = (\<lambda>key. None), sl_seal = Pair,
      sl_unseal = (\<lambda>key (k, d). if k = key \<and> dict_wf d then Inr d else Inl (OtherException ''InvalidToken'' [])),
      sl_write = (\<lambda>path. WriteOk), sl_keyring = True, sl_get_password = (\<lambda>k n. Inr (dict_get k n)),
      sl_set_password = (\<lambda>k n v. Inr (dict_set n v k)),
      sl_delete_password = (\<lambda>k n. if dict_get k n = None then Inl (OtherException ''PasswordDeleteError'' []) else Inr (dict_del n k)),
      sl_dumps = join_with [CHR 0x0A], sl_loads = (\<lambda>s. Some (split_on (CHR 0x0A) s))\<rparr>"

interpretation dl: secret_libraries documented_libs
  by unfold_locales (auto simp: documented_libs_def split: if_splits)

text \<open>
  C28: Stored secrets resolve: after a secret was stored successfully through any of the three
  providers, with libraries that behave as documented, a reference to its name in the
  configuration resolves to exactly the stored value, in strict mode and otherwise. The name is
  not empty, has no line break (a reference is one line) and is not the one under which the
  keyring provider keeps its list of names.
\<close>

theorem stored_secret_is_resolved:
  fixes L :: "('c, 'k) secret_libs"
  assumes "secret_libraries L" "store_set L p w n v = (w', Inr ())" "reference n" "n \<noteq> names_key"
  shows "resolve_string (store_get L p w') strict path (''secret:'' @ n) = Inr v"
proof (cases p)
  case EnvProvider
  then show ?thesis using ep.stored_resolves [of w n v w'] assms(2,3) by simp
next
  case (FileProvider file_path)
  then show ?thesis using secret_libraries.file_stored_resolves [OF assms(1), of file_path w n v w'] assms(2,3) by simp
next
  case KeyringProvider
  then show ?thesis using secret_libraries.keyring_stored_resolves [OF assms(1), of w n v w'] assms(2,3,4) by simp
qed

definition ex_world :: "(string \<times> (string, string) dict, (string, string) dict) secret_world" where
  "ex_world = \<lparr>environ = [(''ARGUS_SECRET_KEY'', ''k'')], secret_files = [], keyring = []\<rparr>"

theorem stored_secret_is_resolved_witness:
  "resolve_string (store_get documented_libs (FileProvider ''s'') (fst (store_set documented_libs (FileProvider ''s'') ex_world ''api'' ''42'')))
     True [] (''secret:'' @ ''api'') = Inr ''42''"
proof (rule stored_secret_is_resolved)
  show "secret_libraries documented_libs" by (rule dl.secret_libraries_axioms)
  show "store_set documented_libs (FileProvider ''s'') ex_world ''api'' ''42'' =
      (fst (store_set documented_libs (FileProvider ''s'') ex_world ''api'' ''42''), Inr ())"
    by (simp add: file_set_def file_load_def file_save_def ensure_fernet_def documented_libs_def ex_world_def Let_def)
qed (simp_all add: reference_def is_newline_def code_def names_key_def)

section \<open>Resolution of a configuration\<close>

text \<open>What a text becomes when the store holds what \<open>st\<close> says.\<close>

definition resolved_text :: "(string \<Rightarrow> string option) \<Rightarrow> string \<Rightarrow> string" where
  "resolved_text st s = (case re_match SECRET_REF s of None \<Rightarrow> s | Some n \<Rightarrow> (case st n of None \<Rightarrow> s | Some r \<Rightarrow> r))"

lemma resolve_string_store:
  "resolve_string (\<lambda>n. Inr (st n)) strict path s =
     (if strict \<and> (\<exists>n. re_match SECRET_REF s = Some n \<and> st n = None) then
        Inl (OtherException ''SecretResolutionError''
               (''Secret '' @ CHR 0x27 # the (re_match SECRET_REF s) @ CHR 0x27 # '' not found (referenced at '' @ path @ '')''))
      else Inr (resolved_text st s))"
  by (auto simp: resolve_string_def resolved_text_def split: option.splits)

lemma enumerate_snd: "iv \<in> set (List.enumerate 0 vs) \<Longrightarrow> snd iv \<in> set vs"
  by (metis add_0_right diff_zero in_set_enumerate_eq nth_mem)

lemma enumerate_ex: "v \<in> set vs \<Longrightarrow> \<exists>i. (i, v) \<in> set (List.enumerate 0 vs)"
  by (metis add_0_right diff_zero fst_conv in_set_conv_nth in_set_enumerate_eq snd_conv zero_le)

lemma walk_ok:
  assumes "d + tree_depth v \<le> MAX_WALK_DEPTH" "\<And>p s. s \<in> set (texts v) \<Longrightarrow> resolve_string get strict p s = Inr (f s)"
  shows "walk get strict path d v = Inr (map_strings f v)"
  using assms
proof (induction get strict path d v rule: walk.induct)
  case (1 get strict path d kvs)
  have depth: "\<forall>kv \<in> set kvs. d + 1 + tree_depth (snd kv) \<le> MAX_WALK_DEPTH"
    using 1(2) tree_depth_le(2) [of kvs "MAX_WALK_DEPTH - d"] by fastforce
  have "map_res (\<lambda>kv. map_sum id (Pair (fst kv)) (walk get strict (path @ ''.'' @ fst kv) (d + 1) (snd kv))) kvs =
      Inr (map (\<lambda>kv. (fst kv, map_strings f (snd kv))) kvs)"
  proof (rule map_res_ok)
    fix kv
    assume kv: "kv \<in> set kvs"
    have "walk get strict (path @ ''.'' @ fst kv) (d + 1) (snd kv) = Inr (map_strings f (snd kv))"
      by (rule 1(1)) (use kv depth 1(2,3) in auto)
    then show "map_sum id (Pair (fst kv)) (walk get strict (path @ ''.'' @ fst kv) (d + 1) (snd kv)) = Inr (fst kv, map_strings f (snd kv))"
      by simp
  qed
  then show ?case using 1(2) by simp
next
  case (2 get strict path d vs)
  have depth: "\<forall>v \<in> set vs. d + 1 + tree_depth v \<le> MAX_WALK_DEPTH"
    using 2(2) tree_depth_le(1) [of vs "MAX_WALK_DEPTH - d"] by fastforce
  have "map_res (\<lambda>iv. walk get strict (path @ ''['' @ show_nat (fst iv) @ '']'') (d + 1) (snd iv)) (List.enumerate 0 vs) =
      Inr (map (\<lambda>iv. map_strings f (snd iv)) (List.enumerate 0 vs))"
  proof (rule map_res_ok)
    fix iv
    assume iv: "iv \<in> set (List.enumerate 0 vs)"
    then have "snd iv \<in> set vs" by (rule enumerate_snd)
    then show "walk get strict (path @ ''['' @ show_nat (fst iv) @ '']'') (d + 1) (snd iv) = Inr (map_strings f (snd iv))"
      by (intro 2(1)) (use iv depth 2(2,3) in auto)
  qed
  moreover have "map (\<lambda>iv. map_strings f (snd iv)) (List.enumerate 0 vs) = map (map_strings f) vs"
    by (simp flip: map_map [unfolded comp_def] add: comp_def)
  ultimately show ?case using 2(2) by simp
qed auto

text \<open>A resolution that succeeds keeps the structure, and one that meets a problem fails.\<close>

lemma walk_shape: "walk get strict path d v = Inr v' \<Longrightarrow> shape v' = shape v"
proof (induction get strict path d v arbitrary: v' rule: walk.induct)
  case (1 get strict path d kvs)
  then obtain kvs' where kvs': "map_res (\<lambda>kv. map_sum id (Pair (fst kv)) (walk get strict (path @ ''.'' @ fst kv) (d + 1) (snd kv))) kvs = Inr kvs'"
    and v': "v' = PDict kvs'" and d: "\<not> d > MAX_WALK_DEPTH" by (auto split: if_splits simp: map_sum_def split: sum.splits)
  have "(fst (kvs' ! i), shape (snd (kvs' ! i))) = (fst (kvs ! i), shape (snd (kvs ! i)))" if i: "i < length kvs" for i
  proof -
    have "map_sum id (Pair (fst (kvs ! i))) (walk get strict (path @ ''.'' @ fst (kvs ! i)) (d + 1) (snd (kvs ! i))) = Inr (kvs' ! i)"
      using kvs' i unfolding map_res_Inr by blast
    then obtain u where "walk get strict (path @ ''.'' @ fst (kvs ! i)) (d + 1) (snd (kvs ! i)) = Inr u" "kvs' ! i = (fst (kvs ! i), u)"
      by (cases "walk get strict (path @ ''.'' @ fst (kvs ! i)) (d + 1) (snd (kvs ! i))") auto
    then show ?thesis using 1(1) [OF d nth_mem [OF i]] by simp
  qed
  moreover have "length kvs' = length kvs" using kvs' by (simp add: map_res_Inr)
  ultimately have "map (\<lambda>kv. (fst kv, shape (snd kv))) kvs' = map (\<lambda>kv. (fst kv, shape (snd kv))) kvs"
    by (intro nth_equalityI) simp_all
  then show ?case by (simp add: v')
next
  case (2 get strict path d vs)
  then obtain vs' where vs': "map_res (\<lambda>iv. walk get strict (path @ ''['' @ show_nat (fst iv) @ '']'') (d + 1) (snd iv)) (List.enumerate 0 vs) = Inr vs'"
    and v': "v' = PList vs'" and d: "\<not> d > MAX_WALK_DEPTH" by (auto split: if_splits simp: map_sum_def split: sum.splits)
  have "shape (vs' ! i) = shape (vs ! i)" if i: "i < length vs" for i
    using vs' i 2(1) [OF d nth_mem [of i "List.enumerate 0 vs"]] by (fastforce simp: map_res_Inr nth_enumerate_eq)
  moreover have "length vs' = length vs" using vs' by (simp add: map_res_Inr)
  ultimately have "map shape vs' = map shape vs" by (intro nth_equalityI) simp_all
  then show ?case by (simp add: v')
qed (auto simp: map_sum_def split: if_splits sum.splits)

lemma walk_fails:
  assumes "\<not> d + tree_depth v \<le> MAX_WALK_DEPTH \<or> (\<exists>s \<in> set (texts v). \<forall>p. isl (resolve_string get strict p s))"
  shows "isl (walk get strict path d v)"
  using assms
proof (induction get strict path d v rule: walk.induct)
  case (1 get strict path d kvs)
  show ?case
  proof (cases "d > MAX_WALK_DEPTH")
    case False
    then obtain kv where kv: "kv \<in> set kvs" "\<not> d + 1 + tree_depth (snd kv) \<le> MAX_WALK_DEPTH \<or>
        (\<exists>s \<in> set (texts (snd kv)). \<forall>p. isl (resolve_string get strict p s))"
      using 1(2) tree_depth_le(2) [of kvs "MAX_WALK_DEPTH - d"] by fastforce
    then obtain e where "walk get strict (path @ ''.'' @ fst kv) (d + 1) (snd kv) = Inl e"
      using 1(1) [OF False] by (meson isl_def)
    then obtain e' where "map_res (\<lambda>kv. map_sum id (Pair (fst kv)) (walk get strict (path @ ''.'' @ fst kv) (d + 1) (snd kv))) kvs = Inl e'"
      using map_res_fails [OF kv(1), of "\<lambda>kv. map_sum id (Pair (fst kv)) (walk get strict (path @ ''.'' @ fst kv) (d + 1) (snd kv))"] by auto
    then show ?thesis by simp
  qed simp
next
  case (2 get strict path d vs)
  show ?case
  proof (cases "d > MAX_WALK_DEPTH")
    case False
    then obtain v where "v \<in> set vs" and bad: "\<not> d + 1 + tree_depth v \<le> MAX_WALK_DEPTH \<or>
        (\<exists>s \<in> set (texts v). \<forall>p. isl (resolve_string get strict p s))"
      using 2(2) tree_depth_le(1) [of vs "MAX_WALK_DEPTH - d"] by fastforce
    then obtain i where iv: "(i, v) \<in> set (List.enumerate 0 vs)" using enumerate_ex [OF \<open>v \<in> set vs\<close>] by blast
    then obtain e where "walk get strict (path @ ''['' @ show_nat i @ '']'') (d + 1) v = Inl e"
      using 2(1) [OF False iv] bad by (auto simp: isl_def)
    then obtain e' where "map_res (\<lambda>iv. walk get strict (path @ ''['' @ show_nat (fst iv) @ '']'') (d + 1) (snd iv)) (List.enumerate 0 vs) = Inl e'"
      using map_res_fails [OF iv, of "\<lambda>iv. walk get strict (path @ ''['' @ show_nat (fst iv) @ '']'') (d + 1) (snd iv)"] by auto
    then show ?thesis by simp
  qed simp
qed (auto simp: isl_map_sum)

lemma strict_resolution_iff:
  "resolve_secrets (\<lambda>n. Inr (st n)) True v = Inr v' \<longleftrightarrow>
     tree_depth v \<le> 20 \<and> list_all (\<lambda>n. st n \<noteq> None) (find_secret_references v) \<and> v' = map_strings (resolved_text st) v"
proof -
  have refs: "list_all (\<lambda>n. st n \<noteq> None) (find_secret_references v) \<longleftrightarrow>
      \<not> (\<exists>s \<in> set (texts v). \<exists>n. re_match SECRET_REF s = Some n \<and> st n = None)"
    by (auto simp: find_secret_references_def list_all_iff List.map_filter_def)
  show ?thesis
  proof (cases "tree_depth v \<le> 20 \<and> list_all (\<lambda>n. st n \<noteq> None) (find_secret_references v)")
    case True
    have "walk (\<lambda>n. Inr (st n)) True [] 0 v = Inr (map_strings (resolved_text st) v)"
      by (rule walk_ok) (use True refs in \<open>auto simp: MAX_WALK_DEPTH_def resolve_string_store\<close>)
    then show ?thesis using True by (auto simp: resolve_secrets_def)
  next
    case False
    then have "\<not> tree_depth v \<le> 20 \<or> (\<exists>s \<in> set (texts v). \<exists>n. re_match SECRET_REF s = Some n \<and> st n = None)" using refs by blast
    then have "isl (walk (\<lambda>n. Inr (st n)) True [] 0 v)"
      by (intro walk_fails) (auto simp: MAX_WALK_DEPTH_def resolve_string_store)
    then show ?thesis using False by (auto simp: resolve_secrets_def)
  qed
qed

text \<open>
  C29: Strict resolution is all or nothing: it succeeds exactly when the configuration is nested at
  most twenty levels deep and the store has every secret it refers to, and then every reference
  is replaced by its secret and everything else is kept. The references are those that
  \<open>find_secret_references\<close> lists.
\<close>

theorem strict_resolution:
  "resolve_secrets (\<lambda>n. Inr (st n)) True v = Inr v' \<longleftrightarrow>
     tree_depth v \<le> 20 \<and> list_all (\<lambda>n. st n \<noteq> None) (find_secret_references v) \<and> v' = map_strings (resolved_text st) v"
  by (rule strict_resolution_iff)

text \<open>Without strict mode a secret that is missing leaves its reference in place.\<close>

lemma lenient_resolution:
  "tree_depth v \<le> 20 \<Longrightarrow> resolve_secrets (\<lambda>n. Inr (st n)) False v = Inr (map_strings (resolved_text st) v)"
  unfolding resolve_secrets_def by (rule walk_ok) (simp_all add: MAX_WALK_DEPTH_def resolve_string_store)

end
