(* ===== verification/Config_Loading.thy ===== *)
theory Config_Loading
  imports Secrets Container_Isolation Config_Reload
begin

text \<open>
  From the configuration file to the configuration of the service: feature flags
  (\<open>config/flags.py\<close>), the validators of the backend sections (\<open>config/schema_backends.py\<close>,
  \<open>config/schema.py\<close>), and the loader (\<open>config/loader.py\<close>). The YAML parser and the declared part of the
  models (types, defaults and bounds of fields, checked by the validation library) are
  arguments; the validators the program adds to them are written out. Three characters of messages
  that are outside the range of the model, a bullet, an arrow and a dash, are written \<open>*\<close>, \<open>->\<close>
  and \<open>-\<close>.
\<close>

section \<open>Feature flags\<close>

record FlagSpec =
  fs_default :: bool
  fs_risk :: string
  fs_description :: string

abbreviation flag :: "bool \<Rightarrow> string \<Rightarrow> string \<Rightarrow> FlagSpec" where
  "flag d r t \<equiv> \<lparr>fs_default = d, fs_risk = r, fs_description = t\<rparr>"

definition FLAG_REGISTRY :: "(string, FlagSpec) dict" where
  "FLAG_REGISTRY =
     [(''optimizer'', flag False ''high'' ''Experimental prompt/request optimizer. May alter tool payloads.''),
      (''hot_reload'', flag True ''low'' ''Watch config file for changes and reload backends automatically.''),
      (''outgoing_auth'', flag True ''low'' ''Attach OAuth/API-key headers to outgoing backend requests.''),
      (''session_management'', flag True ''low'' ''Enable per-client session tracking and lifecycle management.''),
      (''yaml_config'', flag True ''low'' ''Load configuration from YAML file (config.yaml).''),
      (''container_isolation'', flag True ''low'' ''Run stdio backends inside isolated containers when available.''),
      (''build_on_startup'', flag True ''low'' ''Pre-build container images for stdio backends at server startup.''),
      (''use_dhi_images'', flag False ''high''
         ''Use Docker Hardened Images (Chainguard) as base images for container-isolated backends. Requires registry access to cgr.dev.'')]"

definition flag_defaults :: "(string, bool) dict" where
  "flag_defaults = map (\<lambda>(k, v). (k, fs_default v)) FLAG_REGISTRY"

fun validate_registry :: "(string, FlagSpec) dict \<Rightarrow> unit res" where
  "validate_registry [] = Inr ()"
| "validate_registry ((name, spec) # rest) =
     (if fs_risk spec = ''high'' \<and> fs_default spec then Inl (AssertionError (''High-risk flag '' @ quoted name @ '' must default to False, got True''))
      else if fs_risk spec \<notin> {''high'', ''low''} then Inl (AssertionError (''Flag '' @ quoted name @ '' has invalid risk level '' @ quoted (fs_risk spec)))
      else validate_registry rest)"

text \<open>\<open>FeatureFlags(overrides)\<close>: values that are no booleans are skipped.\<close>

definition feature_flags :: "(string, pyval) dict \<Rightarrow> (string, bool) dict" where
  "feature_flags overrides = fold (\<lambda>(k, v) fl. case v of PBool b \<Rightarrow> dict_set k b fl | _ \<Rightarrow> fl) overrides flag_defaults"

definition is_enabled :: "(string, bool) dict \<Rightarrow> string \<Rightarrow> bool" where
  "is_enabled fl name = dict_get_or False fl name"

definition describe_flag :: "string \<Rightarrow> FlagSpec option" where
  "describe_flag name = dict_get FLAG_REGISTRY name"

definition flags_repr :: "(string, bool) dict \<Rightarrow> string" where
  "flags_repr fl = ''FeatureFlags(enabled='' @ py_repr (PList (map (\<lambda>(k, v). PStr k) (filter snd fl))) @ '')''"

section \<open>Backend sections\<close>

record TimeoutConfig =
  tc_init :: "pyval option"
  tc_cap_fetch :: "pyval option"
  tc_sse_startup :: "pyval option"
  tc_startup :: "pyval option"
  tc_retries :: "pyval option"
  tc_retry_delay :: "pyval option"

datatype BackendConfig =
    StdioBackendConfig string "string list" "(string, string) dict option" ContainerConfig TimeoutConfig
  | SseBackendConfig string "string option" "string list" "(string, string) dict option" "(string, string) dict option" "pyval option" TimeoutConfig
  | StreamableHttpBackendConfig string "(string, string) dict option" "pyval option" TimeoutConfig

type_synonym errors = "(string list \<times> string) list"

definition validate_url :: "string \<Rightarrow> string res" where
  "validate_url raw =
     (let v = str_strip raw
      in if starts_with ''http://'' v \<or> starts_with ''https://'' v then Inr v
         else Inl (ValueError (''URL '' @ quoted v @ '' must start with http:// or https://'')))"

definition strip_command :: "string option \<Rightarrow> string option res" where
  "strip_command c =
     (case c of
        None \<Rightarrow> Inr None
      | Some v \<Rightarrow> if str_strip v = [] then Inl (ValueError ''command must be a non-empty string if provided'') else Inr (Some (str_strip v)))"

definition at_field :: "string list \<Rightarrow> (string \<times> string) list \<Rightarrow> errors" where
  "at_field loc es = map (\<lambda>(f, m). (loc @ (if f = [] then [] else [f]), m)) es"

fun validate_backend :: "path_env \<Rightarrow> string \<Rightarrow> BackendConfig \<Rightarrow> errors + BackendConfig" where
  "validate_backend env name (StdioBackendConfig command args vars container timeouts) =
     (case validate_container env container of
        Inl es \<Rightarrow> Inl (at_field [''backends'', name, ''stdio'', ''container''] es)
      | Inr c \<Rightarrow> Inr (StdioBackendConfig (str_strip command) args vars c timeouts))"
| "validate_backend env name (SseBackendConfig url command args vars headers auth timeouts) =
     (case (validate_url url, strip_command command) of
        (Inr u, Inr c) \<Rightarrow> Inr (SseBackendConfig u c args vars headers auth timeouts)
      | (ru, rc) \<Rightarrow> Inl (at_field [''backends'', name, ''sse''] (field_error ''url'' ru @ field_error ''command'' rc)))"
| "validate_backend env name (StreamableHttpBackendConfig url headers auth timeouts) =
     (case validate_url url of
        Inr u \<Rightarrow> Inr (StreamableHttpBackendConfig u headers auth timeouts)
      | Inl e \<Rightarrow> Inl (at_field [''backends'', name, ''streamable-http''] (field_error ''url'' (Inl e :: string res))))"

definition backend_errors :: "path_env \<Rightarrow> (string, BackendConfig) dict \<Rightarrow> errors" where
  "backend_errors env bs = concat (map (\<lambda>(n, b). case validate_backend env n b of Inl es \<Rightarrow> es | Inr b' \<Rightarrow> []) bs)"

fun validate_backend_names :: "string list \<Rightarrow> unit res" where
  "validate_backend_names [] = Inr ()"
| "validate_backend_names (name # rest) =
     (if str_strip name = [] then Inl (ValueError ''Backend name must be a non-empty string'')
      else if str_strip name \<noteq> name then Inl (ValueError (''Backend name '' @ quoted name @ '' has leading/trailing whitespace''))
      else validate_backend_names rest)"

section \<open>The whole configuration\<close>

definition VALID_BACKEND_TYPES :: "string list" where
  "VALID_BACKEND_TYPES = [''sse'', ''stdio'', ''streamable-http'']"

definition BACKEND_TYPE_HINTS :: "(string, string) dict" where
  "BACKEND_TYPE_HINTS = [(''remote'', ''streamable-http''), (''http'', ''streamable-http''), (''https'', ''streamable-http''),
     (''streamable_http'', ''streamable-http''), (''streamablehttp'', ''streamable-http''), (''server-sent-events'', ''sse'')]"

text \<open>The complaint about the type of one backend, if any; a type that is no text raises.\<close>

definition check_type :: "string \<Rightarrow> pyval \<Rightarrow> string option res" where
  "check_type name v =
     (let valid = ''Valid types: '' @ join_with '', '' VALID_BACKEND_TYPES; spot = ''  * backends -> '' @ name @ '': ''
      in case v of
           PNone \<Rightarrow> Inr (Some (spot @ ''missing required field '' @ quoted ''type'' @ ''. '' @ valid))
         | PStr t \<Rightarrow>
             (if t \<in> set VALID_BACKEND_TYPES then Inr None
              else let hint = dict_get_or [] BACKEND_TYPE_HINTS (str_strip (str_lower t));
                       msg = spot @ ''unknown backend type '' @ quoted t @ ''. '' @ valid
                   in Inr (Some (if hint = [] then msg
                                 else msg @ ''. Hint: '' @ quoted t @ '' is not an argus-mcp type - did you mean '' @ quoted hint @ ''?'')))
         | PList vs \<Rightarrow> Inl (TypeError (''unhashable type: '' @ quoted ''list''))
         | PDict d \<Rightarrow> Inl (TypeError (''unhashable type: '' @ quoted ''dict''))
         | _ \<Rightarrow> Inl (OtherException ''AttributeError'' (quoted (type_name v) @ '' object has no attribute '' @ quoted ''lower'')))"

definition check_backend_types :: "pyval \<Rightarrow> unit res" where
  "check_backend_types backends =
     (case backends of
        PDict d \<Rightarrow>
          (case map_res (\<lambda>(name, cfg). case cfg of PDict c \<Rightarrow> check_type name (dict_get_or PNone c ''type'') | _ \<Rightarrow> Inr None) d of
             Inl e \<Rightarrow> Inl e
           | Inr found \<Rightarrow>
               (let bad = List.map_filter id found
                in if bad = [] then Inr ()
                   else Inl (ConfigurationError (''Configuration validation failed ('' @ show_nat (length bad) @ '' error(s)):'' @ [CHR 0x0A] @
                          join_with [CHR 0x0A] bad))))
      | _ \<Rightarrow> Inr ())"

record ArgusConfig =
  ac_version :: string
  ac_backends :: "(string, BackendConfig) dict"
  ac_feature_flags :: "(string, bool) dict"
  ac_other :: pyval

text \<open>The keys that may be left empty in the file.\<close>

definition drop_null :: "string \<Rightarrow> (string, pyval) dict \<Rightarrow> (string, pyval) dict" where
  "drop_null k d = (if dict_get d k = Some PNone then dict_del k d else d)"

definition coerce_none_to_default :: "pyval \<Rightarrow> pyval res" where
  "coerce_none_to_default data =
     (case data of
        PDict d \<Rightarrow>
          (let d' = drop_null ''backends'' (drop_null ''registries'' d)
           in case check_backend_types (dict_get_or PNone d' ''backends'') of Inl e \<Rightarrow> Inl e | Inr u \<Rightarrow> Inr (PDict d'))
      | _ \<Rightarrow> Inr data)"

text \<open>
  \<open>ArgusConfig.model_validate\<close>: the check before validation, the declared part (an argument that
  gives the errors it finds), and the program's validators on what was read.
\<close>

definition model_validate :: "(pyval \<Rightarrow> errors + ArgusConfig) \<Rightarrow> path_env \<Rightarrow> pyval \<Rightarrow> (errors + ArgusConfig) res" where
  "model_validate declared env raw =
     (case coerce_none_to_default raw of
        Inl e \<Rightarrow> Inl e
      | Inr data \<Rightarrow>
          Inr (case declared data of
                 Inl es \<Rightarrow> Inl es
               | Inr cfg \<Rightarrow>
                   (let bs = ac_backends cfg
                    in if backend_errors env bs \<noteq> [] then Inl (backend_errors env bs)
                       else case validate_backend_names (dict_keys bs) of
                              Inl e \<Rightarrow> Inl [([''backends''], ''Value error, '' @ exn_str e)]
                            | Inr u \<Rightarrow> Inr (cfg\<lparr>ac_backends := map (\<lambda>(n, b). (n, projr (validate_backend env n b))) bs\<rparr>))))"

section \<open>Loading\<close>

definition container_dump :: "ContainerConfig \<Rightarrow> pyval" where
  "container_dump c =
     (let txt = (\<lambda>k v. case v of None \<Rightarrow> [] | Some s \<Rightarrow> [(k, PStr s)]); lst = (\<lambda>vs. PList (map PStr vs))
      in PDict ([(''enabled'', PBool (cc_enabled c))] @ txt ''runtime'' (cc_runtime c) @ txt ''network'' (cc_network c) @
           txt ''memory'' (cc_memory c) @ txt ''cpus'' (cc_cpus c) @ [(''volumes'', lst (cc_volumes c)), (''extra_args'', lst (cc_extra_args c)),
           (''system_deps'', lst (cc_system_deps c)), (''build_system_deps'', lst (cc_build_system_deps c))] @
           txt ''builder_image'' (cc_builder_image c) @ [(''additional_packages'', lst (cc_additional_packages c))] @
           txt ''transport'' (cc_transport c) @ txt ''go_package'' (cc_go_package c) @ txt ''source_url'' (cc_source_url c) @
           [(''build_steps'', lst (cc_build_steps c))] @ (case cc_entrypoint c of None \<Rightarrow> [] | Some e \<Rightarrow> [(''entrypoint'', lst e)]) @
           [(''build_env'', PDict (map (\<lambda>(k, v). (k, PStr v)) (cc_build_env c)))] @
           txt ''source_ref'' (cc_source_ref c) @ txt ''dockerfile'' (cc_dockerfile c)))"

abbreviation str_dict :: "(string, string) dict \<Rightarrow> pyval" where
  "str_dict d \<equiv> PDict (map (\<lambda>(k, v). (k, PStr v)) d)"

definition opt_str_dict :: "(string, string) dict option \<Rightarrow> pyval" where
  "opt_str_dict d = (case d of None \<Rightarrow> PNone | Some e \<Rightarrow> str_dict e)"

definition timeout_entries :: "TimeoutConfig \<Rightarrow> backend_conf" where
  "timeout_entries t =
     (let opt_entry = (\<lambda>k v. case v of None \<Rightarrow> [] | Some x \<Rightarrow> [(k, x)])
      in opt_entry ''init_timeout'' (tc_init t) @ opt_entry ''cap_fetch_timeout'' (tc_cap_fetch t) @
         opt_entry ''sse_startup_delay'' (tc_sse_startup t) @ opt_entry ''startup_timeout'' (tc_startup t) @
         opt_entry ''retries'' (tc_retries t) @ opt_entry ''retry_delay'' (tc_retry_delay t))"

definition header_entries :: "(string, string) dict option \<Rightarrow> backend_conf" where
  "header_entries h = (case h of None \<Rightarrow> [] | Some d \<Rightarrow> if d = [] then [] else [(''headers'', str_dict d)])"

definition auth_entries :: "pyval option \<Rightarrow> backend_conf" where
  "auth_entries a = (case a of None \<Rightarrow> [] | Some v \<Rightarrow> [(''auth'', v)])"

fun backend_to_dict :: "BackendConfig \<Rightarrow> backend_conf" where
  "backend_to_dict (StdioBackendConfig command args vars container timeouts) =
     [(''type'', PStr ''stdio''),
      (''params'', PDict [(''command'', PStr command), (''args'', PList (map PStr args)), (''env'', opt_str_dict vars)]),
      (''container'', container_dump container)] @ timeout_entries timeouts"
| "backend_to_dict (SseBackendConfig url command args vars headers auth timeouts) =
     [(''type'', PStr ''sse''), (''url'', PStr url)] @
     (case command of None \<Rightarrow> [] | Some c \<Rightarrow> [(''command'', PStr c), (''args'', PList (map PStr args)), (''env'', opt_str_dict vars)]) @
     header_entries headers @ auth_entries auth @ timeout_entries timeouts"
| "backend_to_dict (StreamableHttpBackendConfig url headers auth timeouts) =
     [(''type'', PStr ''streamable-http''), (''url'', PStr url)] @ header_entries headers @ auth_entries auth @ timeout_entries timeouts"

text \<open>\<open>os.path.splitext(path)[1]\<close>.\<close>

definition file_ext :: "string \<Rightarrow> string" where
  "file_ext path =
     (let base = lstrip_by (\<lambda>c. c = CHR ''.'') (after_last (CHR ''/'') path)
      in if CHR ''.'' \<in> set base then CHR ''.'' # after_last (CHR ''.'') base else [])"

text \<open>
  The file system and the YAML parser: the text of the file or the exception of reading it, and
  the value of a text or the exception of parsing it (\<open>YAMLError\<close>; the compiled parser, used when
  it is installed, raises \<open>ValueError\<close>).
\<close>

record load_env =
  le_exists :: bool
  le_content :: "string res"
  le_parse :: "string \<Rightarrow> pyval res"
  le_environ :: environment
  le_declared :: "pyval \<Rightarrow> errors + ArgusConfig"
  le_paths :: path_env

fun os_or_yaml_error :: "exn \<Rightarrow> bool" where
  "os_or_yaml_error (ConnectionError m) = True"
| "os_or_yaml_error TimeoutError = True"
| "os_or_yaml_error (OtherException c m) = (c \<in> {''OSError'', ''FileNotFoundError'', ''PermissionError'', ''IsADirectoryError'', ''YAMLError''})"
| "os_or_yaml_error e = False"

definition read_config_file :: "load_env \<Rightarrow> string \<Rightarrow> pyval res" where
  "read_config_file env path =
     (let ext = str_lower (file_ext path)
      in if ext \<notin> {''.yaml'', ''.yml''}
         then Inl (ConfigurationError (''Unsupported config file extension '' @ quoted ext @ ''. Only YAML files (.yaml, .yml) are supported.''))
         else case (case le_content env of Inl e \<Rightarrow> Inl e | Inr content \<Rightarrow> le_parse env content) of
                Inl e \<Rightarrow>
                  if os_or_yaml_error e
                  then Inl (ConfigurationError (''Error reading configuration file: '' @ path @ [CHR 0x0A] @ ''  '' @ exn_str e))
                  else Inl e
              | Inr (PDict d) \<Rightarrow> Inr (PDict d)
              | Inr v \<Rightarrow> Inl (ConfigurationError ''Top-level configuration content must be a YAML mapping (dictionary).''))"

text \<open>\<open>_maybe_resolve_secrets\<close>; the provider and the path of the section are texts.\<close>

definition section_text :: "(string, pyval) dict \<Rightarrow> string \<Rightarrow> string \<Rightarrow> string" where
  "section_text d k dflt = (case dict_get d k of Some v \<Rightarrow> py_str v | None \<Rightarrow> dflt)"

definition secrets_section :: "pyval \<Rightarrow> (string, pyval) dict option" where
  "secrets_section raw =
     (case raw of
        PDict d \<Rightarrow> (case dict_get d ''secrets'' of Some (PDict s) \<Rightarrow> if py_truthy (dict_get_or (PBool False) s ''enabled'') then Some s else None | _ \<Rightarrow> None)
      | _ \<Rightarrow> None)"

definition maybe_resolve_secrets :: "('c, 'k) secret_libs \<Rightarrow> ('c, 'k) secret_world \<Rightarrow> pyval \<Rightarrow> pyval res" where
  "maybe_resolve_secrets L w raw =
     (case secrets_section raw of
        None \<Rightarrow> Inr raw
      | Some s \<Rightarrow>
          (if find_secret_references raw = [] then Inr raw
           else let provider = section_text s ''provider'' ''env''; path = section_text s ''path'' []
                in case create_provider provider (if provider = ''file'' \<and> path \<noteq> [] then [(''path'', path)] else []) of
                     Inl e \<Rightarrow> Inl e
                   | Inr p \<Rightarrow>
                       (case resolve_secrets (store_get L p w) (py_truthy (dict_get_or (PBool False) s ''strict'')) raw of
                          Inl e \<Rightarrow> Inl (ConfigurationError (''Secret resolution failed: '' @ exn_str e))
                        | Inr v \<Rightarrow> Inr v)))"

text \<open>What both loading functions do before validation.\<close>

definition prepare_config :: "('c, 'k) secret_libs \<Rightarrow> ('c, 'k) secret_world \<Rightarrow> load_env \<Rightarrow> string \<Rightarrow> pyval res" where
  "prepare_config L w env path =
     (if \<not> le_exists env then Inl (ConfigurationError (''Configuration file does not exist: '' @ path))
      else case read_config_file env path of
             Inl e \<Rightarrow> Inl e
           | Inr raw \<Rightarrow>
               (case expand_env_vars (le_environ env) 0 raw of
                  Inl e \<Rightarrow> Inl e
                | Inr expanded \<Rightarrow> maybe_resolve_secrets L w expanded))"

definition format_validation_errors :: "errors \<Rightarrow> string" where
  "format_validation_errors es = join_with [CHR 0x0A] (map (\<lambda>(loc, msg). ''  * '' @ join_with '' -> '' loc @ '': '' @ msg) es)"

definition load_argus_config :: "('c, 'k) secret_libs \<Rightarrow> ('c, 'k) secret_world \<Rightarrow> load_env \<Rightarrow> string \<Rightarrow> ArgusConfig res" where
  "load_argus_config L w env path =
     (case prepare_config L w env path of
        Inl e \<Rightarrow> Inl e
      | Inr raw \<Rightarrow>
          (case model_validate (le_declared env) (le_paths env) raw of
             Inl e \<Rightarrow> Inl e
           | Inr (Inl es) \<Rightarrow>
               Inl (ConfigurationError (''Configuration validation failed ('' @ show_nat (length es) @ '' error(s)):'' @ [CHR 0x0A] @ format_validation_errors es))
           | Inr (Inr cfg) \<Rightarrow> Inr cfg))"

definition load_and_validate_config :: "('c, 'k) secret_libs \<Rightarrow> ('c, 'k) secret_world \<Rightarrow> load_env \<Rightarrow> string \<Rightarrow> (string, backend_conf) dict res" where
  "load_and_validate_config L w env path =
     (case load_argus_config L w env path of
        Inl e \<Rightarrow> Inl e
      | Inr cfg \<Rightarrow>
          (let validated = map (\<lambda>(n, b). (n, backend_to_dict b)) (ac_backends cfg)
           in if validated = [] \<and> ac_backends cfg \<noteq> [] then Inl (ConfigurationError ''No valid server configurations were found in the file.'')
              else Inr validated))"

text \<open>Where the file is looked for: the working directory, then the directory of the package.\<close>

definition find_config_file :: "(string \<Rightarrow> bool) \<Rightarrow> string \<Rightarrow> string \<Rightarrow> string" where
  "find_config_file is_file cwd pkg_parent =
     (let candidates = concat (map (\<lambda>dir. map (\<lambda>n. dir @ ''/'' @ n) [''config.yaml'', ''config.yml'']) [cwd, pkg_parent])
      in case find is_file candidates of Some c \<Rightarrow> c | None \<Rightarrow> cwd @ ''/config.yaml'')"

end
