(* ===== verification/Config_Properties.thy ===== *)
theory Config_Properties
  imports Container_Properties Config_Loading
begin

text \<open>
  Properties of the way from the configuration file to the service: high-risk features are off
  unless switched on, expansion and resolution keep the structure of the file, what is known of
  the backends of a configuration that loads, and which exceptions loading can end with.
\<close>

section \<open>Flags\<close>

lemma feature_flags_get:
  assumes "dict_wf ov"
  shows "dict_get (feature_flags ov) name = (case dict_get ov name of Some (PBool b) \<Rightarrow> Some b | _ \<Rightarrow> dict_get flag_defaults name)"
proof -
  let ?step = "\<lambda>(k, v) fl. case v of PBool b \<Rightarrow> dict_set k b fl | _ \<Rightarrow> fl"
  have "dict_get (fold ?step ov fl) name = (case dict_get ov name of Some (PBool b) \<Rightarrow> Some b | _ \<Rightarrow> dict_get fl name)" for fl
    using assms
  proof (induction ov arbitrary: fl)
    case (Cons kv ov)
    obtain k v where kv: "kv = (k, v)" by (cases kv)
    have "dict_wf ov" and new: "k = name \<Longrightarrow> dict_get ov name = None" using Cons.prems by (auto simp: kv dict_get_None_iff)
    then show ?case using Cons.IH [of "?step (k, v) fl"] new by (cases v) (auto simp: kv split: option.split pyval.split)
  qed simp
  then show ?thesis by (simp add: feature_flags_def)
qed

lemma registry_is_valid: "validate_registry FLAG_REGISTRY = Inr ()"
  by code_simp

lemma validate_registry_high: "validate_registry reg = Inr () \<Longrightarrow> (n, spec) \<in> set reg \<Longrightarrow> fs_risk spec = ''high'' \<Longrightarrow> \<not> fs_default spec"
  by (induction reg rule: validate_registry.induct) (auto split: if_splits)

text \<open>
  High-risk features need an explicit choice: whatever else the configuration overrides, a flag
  registered with high risk is enabled exactly when the configuration sets it to true.
\<close>

theorem high_risk_flags_need_opt_in:
  assumes "dict_wf ov" "describe_flag name = Some spec" "fs_risk spec = ''high''"
  shows "is_enabled (feature_flags ov) name \<longleftrightarrow> dict_get ov name = Some (PBool True)"
proof -
  have "(name, spec) \<in> set FLAG_REGISTRY" using assms(2) by (auto simp: describe_flag_def dest: map_of_SomeD)
  then have off: "\<not> fs_default spec" using validate_registry_high [OF registry_is_valid] assms(3) by blast
  have "dict_get flag_defaults name = Some (fs_default spec)"
    using assms(2) by (simp add: flag_defaults_def describe_flag_def map_of_map)
  then show ?thesis
    by (auto simp: is_enabled_def dict_get_or_def feature_flags_get [OF assms(1)] off split: option.splits pyval.splits)
qed

theorem high_risk_flags_need_opt_in_witness:
  "\<not> is_enabled (feature_flags [(''optimizer'', PStr ''yes''), (''hot_reload'', PBool False)]) ''optimizer''"
  using high_risk_flags_need_opt_in [of "[(''optimizer'', PStr ''yes''), (''hot_reload'', PBool False)]" "''optimizer''"
      "the (describe_flag ''optimizer'')"]
  by (simp add: describe_flag_def FLAG_REGISTRY_def)

section \<open>The structure of the file\<close>

lemma maybe_resolve_shape: "maybe_resolve_secrets L w raw = Inr raw' \<Longrightarrow> shape raw' = shape raw"
  by (auto simp: maybe_resolve_secrets_def resolve_secrets_def Let_def dest: walk_shape split: option.splits sum.splits if_splits)

text \<open>
  C27: Validation sees the structure of the file: what environment variables and secrets put into the
  configuration are texts in place of texts. Whatever their values, no key, list or value of
  another type is added, removed or changed between the parser and the validation.
\<close>

theorem validation_sees_structure_of_file:
  assumes "prepare_config L w env path = Inr raw'"
  shows "\<exists>raw. read_config_file env path = Inr raw \<and> shape raw' = shape raw"
proof -
  obtain raw expanded where raw: "read_config_file env path = Inr raw" "expand_env_vars (le_environ env) 0 raw = Inr expanded"
    "maybe_resolve_secrets L w expanded = Inr raw'"
    using assms by (auto simp: prepare_config_def split: if_splits sum.splits)
  have "shape expanded = shape raw" using raw(2) by (auto simp: expand_env_vars_eq split: if_splits)
  then show ?thesis using raw(1) maybe_resolve_shape [OF raw(3)] by simp
qed

definition ex_load_env :: "pyval \<Rightarrow> load_env" where
  "ex_load_env v =
     \<lparr>le_exists = True, le_content = Inr [], le_parse = (\<lambda>s. Inr v), le_environ = [(''HOST'', ''h'')],
      le_declared = (\<lambda>r. Inr \<lparr>ac_version = ''1'', ac_backends = [], ac_feature_flags = [], ac_other = r\<rparr>), le_paths = ex_path_env\<rparr>"

theorem validation_sees_structure_of_file_witness:
  "\<exists>raw'. prepare_config documented_libs ex_world (ex_load_env (PDict [(''a'', PStr ''${HOST}'')])) ''c.yaml'' = Inr raw' \<and>
     shape raw' = PDict [(''a'', PStr [])]"
proof -
  let ?env = "ex_load_env (PDict [(''a'', PStr ''${HOST}'')])"
  have read: "read_config_file ?env ''c.yaml'' = Inr (PDict [(''a'', PStr ''${HOST}'')])" by code_simp
  then obtain raw' where raw': "prepare_config documented_libs ex_world ?env ''c.yaml'' = Inr raw'"
    by (simp add: prepare_config_def ex_load_env_def expand_env_vars_eq MAX_RECURSION_DEPTH_def maybe_resolve_secrets_def secrets_section_def)
  then show ?thesis using validation_sees_structure_of_file [OF raw'] read by auto
qed

section \<open>What validation promises\<close>

definition safe_container :: "path_env \<Rightarrow> ContainerConfig \<Rightarrow> bool" where
  "safe_container env c \<longleftrightarrow>
     (\<forall>a \<in> set (cc_extra_args c). a \<notin> set DANGEROUS_DOCKER_FLAGS) \<and>
     (\<forall>vol \<in> set (cc_volumes c). host_part vol = [] \<or> within_allowed env (pe_resolve env (host_part vol))) \<and>
     (\<forall>p. cc_dockerfile c = Some p \<longrightarrow> \<not> starts_with ''/'' p \<and> ''..'' \<notin> set (split_on (CHR ''/'') p)) \<and>
     (\<forall>e. cc_entrypoint c = Some e \<longrightarrow> list_all shell_safe e) \<and>
     (cc_source_url c \<noteq> None \<longrightarrow> cc_build_steps c \<noteq> [])"

lemma field_error_Nil [simp]: "field_error n r = [] \<longleftrightarrow> (\<exists>x. r = Inr x)"
  by (cases r) (simp_all add: field_error_def)

lemma validate_extra_args_ok: "validate_extra_args xs = Inr u \<Longrightarrow> a \<in> set xs \<Longrightarrow> a \<notin> set DANGEROUS_DOCKER_FLAGS"
  by (induction xs) (auto simp: Let_def split: if_splits)

lemma validate_volumes_ok:
  "validate_volumes env xs = Inr u \<Longrightarrow> vol \<in> set xs \<Longrightarrow> host_part vol = [] \<or> within_allowed env (pe_resolve env (host_part vol))"
  by (induction xs) (auto split: if_splits)

lemma validate_entrypoint_ok: "validate_entrypoint e = Inr u \<Longrightarrow> list_all shell_safe e"
  by (induction e) (auto simp: not_list_ex split: if_splits)

lemma validate_dockerfile_ok:
  "validate_dockerfile p = Inr (Some q) \<Longrightarrow> \<not> starts_with ''/'' q \<and> ''..'' \<notin> set (split_on (CHR ''/'') q)"
  by (auto simp: validate_dockerfile_def Let_def split: option.splits if_splits)

lemma validate_container_safe:
  assumes "validate_container env c = Inr c'"
  shows "safe_container env c'"
proof -
  have none: "container_errors env c = []" and c': "cc_source_url c' \<noteq> None \<longrightarrow> cc_build_steps c' \<noteq> []"
    "cc_extra_args c' = cc_extra_args c" "cc_volumes c' = cc_volumes c" "cc_entrypoint c' = cc_entrypoint c"
    "cc_dockerfile c' = projr (validate_dockerfile (cc_dockerfile c))"
    using assms by (auto simp: validate_container_def Let_def split: if_splits)
  have fields: "validate_extra_args (cc_extra_args c) = Inr ()" "validate_volumes env (cc_volumes c) = Inr ()"
      "\<exists>d. validate_dockerfile (cc_dockerfile c) = Inr d" "\<And>e. cc_entrypoint c = Some e \<Longrightarrow> validate_entrypoint e = Inr ()"
    using none by (auto simp: container_errors_def)
  show ?thesis
    unfolding safe_container_def c'(2-5)
    using c'(1) fields validate_extra_args_ok validate_volumes_ok validate_entrypoint_ok validate_dockerfile_ok by fastforce
qed

text \<open>The entries of a backend the service relies on.\<close>

definition valid_conf :: "path_env \<Rightarrow> backend_conf \<Rightarrow> bool" where
  "valid_conf env conf \<longleftrightarrow>
     (\<exists>c. safe_container env c \<and> dict_get conf ''type'' = Some (PStr ''stdio'') \<and> dict_get conf ''container'' = Some (container_dump c)) \<or>
     (\<exists>t u. t \<in> {''sse'', ''streamable-http''} \<and> dict_get conf ''type'' = Some (PStr t) \<and> dict_get conf ''url'' = Some (PStr u) \<and>
        (starts_with ''http://'' u \<or> starts_with ''https://'' u))"

lemma validate_url_ok: "validate_url raw = Inr u \<Longrightarrow> starts_with ''http://'' u \<or> starts_with ''https://'' u"
  by (auto simp: validate_url_def Let_def split: if_splits)

lemma valid_conf_url:
  assumes "validate_url raw = Inr u" "t \<in> {''sse'', ''streamable-http''}" "dict_get conf ''type'' = Some (PStr t)" "dict_get conf ''url'' = Some (PStr u)"
  shows "valid_conf env conf"
  unfolding valid_conf_def using assms(2-) validate_url_ok [OF assms(1)] by blast

lemma valid_backend_conf:
  assumes "validate_backend env name b = Inr b'"
  shows "valid_conf env (backend_to_dict b')"
proof (cases b)
  case (StdioBackendConfig command args vars container timeouts)
  then obtain c where c: "validate_container env container = Inr c" "b' = StdioBackendConfig (str_strip command) args vars c timeouts"
    using assms by (auto split: sum.splits)
  show ?thesis unfolding valid_conf_def c(2) by (rule disjI1) (use validate_container_safe [OF c(1)] in auto)
next
  case (SseBackendConfig url command args vars headers auth timeouts)
  then obtain u cmd where u: "validate_url url = Inr u" and b': "b' = SseBackendConfig u cmd args vars headers auth timeouts"
    using assms by (auto split: sum.splits)
  show ?thesis unfolding b' by (rule valid_conf_url [OF u, where t = "''sse''"]) simp_all
next
  case (StreamableHttpBackendConfig url headers auth timeouts)
  then obtain u where u: "validate_url url = Inr u" and b': "b' = StreamableHttpBackendConfig u headers auth timeouts"
    using assms by (auto split: sum.splits)
  show ?thesis unfolding b' by (rule valid_conf_url [OF u, where t = "''streamable-http''"]) simp_all
qed

lemma validate_backend_names_ok: "validate_backend_names ns = Inr u \<Longrightarrow> n \<in> set ns \<Longrightarrow> n \<noteq> [] \<and> str_strip n = n"
  by (induction ns) (auto split: if_splits)

lemma model_validate_backends:
  assumes "model_validate declared env raw = Inr (Inr cfg)" "(name, b) \<in> set (ac_backends cfg)"
  shows "name \<noteq> [] \<and> str_strip name = name \<and> valid_conf env (backend_to_dict b)"
proof -
  obtain data where data: "coerce_none_to_default raw = Inr data" using assms(1) by (auto simp: model_validate_def split: sum.splits)
  obtain cfg0 where cfg0: "declared data = Inr cfg0" using assms(1) data by (auto simp: model_validate_def split: sum.splits)
  have none: "backend_errors env (ac_backends cfg0) = []" and names: "validate_backend_names (dict_keys (ac_backends cfg0)) = Inr ()"
    and cfg: "ac_backends cfg = map (\<lambda>(n, b). (n, projr (validate_backend env n b))) (ac_backends cfg0)"
    using assms(1) data cfg0 by (auto simp: model_validate_def Let_def split: sum.splits if_splits)
  obtain b0 where b0: "(name, b0) \<in> set (ac_backends cfg0)" "b = projr (validate_backend env name b0)" using assms(2) cfg by auto
  have name: "name \<noteq> [] \<and> str_strip name = name" using validate_backend_names_ok [OF names] b0(1) by force
  have "validate_backend env name b0 = Inr b"
  proof (cases "validate_backend env name b0")
    case (Inl es)
    have "es \<noteq> []"
    proof (cases b0)
      case (StdioBackendConfig command args vars container timeouts)
      then show ?thesis using Inl by (auto simp: validate_container_def at_field_def Let_def split: sum.splits if_splits)
    next
      case (SseBackendConfig url command args vars headers auth timeouts)
      then show ?thesis using Inl by (auto simp: at_field_def field_error_def split: sum.splits)
    next
      case (StreamableHttpBackendConfig url headers auth timeouts)
      then show ?thesis using Inl by (auto simp: at_field_def field_error_def split: sum.splits)
    qed
    then show ?thesis using none b0(1) Inl by (force simp: backend_errors_def)
  qed (use b0(2) in simp)
  then show ?thesis using name valid_backend_conf by blast
qed

text \<open>
  C26: Backends that load are valid: in a configuration that loads, every backend has a name without
  surrounding blanks, an HTTP address if it is remote, and if it is a command a container section
  without dangerous flags, with volumes below the allowed directories, a relative custom
  Dockerfile, a start command without shell characters and steps for every source build.
\<close>

theorem loaded_backends_are_valid:
  assumes "load_and_validate_config L w env path = Inr confs" "(name, conf) \<in> set confs"
  shows "name \<noteq> [] \<and> str_strip name = name \<and> valid_conf (le_paths env) conf"
proof -
  obtain raw cfg where "model_validate (le_declared env) (le_paths env) raw = Inr (Inr cfg)"
    and confs: "confs = map (\<lambda>(n, b). (n, backend_to_dict b)) (ac_backends cfg)"
    using assms(1) by (auto simp: load_and_validate_config_def load_argus_config_def Let_def split: sum.splits if_splits)
  then show ?thesis using model_validate_backends assms(2) by force
qed

definition ex_remote :: BackendConfig where
  "ex_remote = StreamableHttpBackendConfig '' https://x/mcp '' None None
     \<lparr>tc_init = None, tc_cap_fetch = None, tc_sse_startup = None, tc_startup = None, tc_retries = None, tc_retry_delay = None\<rparr>"

definition ex_full_env :: load_env where
  "ex_full_env = (ex_load_env (PDict []))\<lparr>le_declared := (\<lambda>r. Inr \<lparr>ac_version = ''1'', ac_backends = [(''web'', ex_remote)], ac_feature_flags = [], ac_other = r\<rparr>)\<rparr>"

lemma ex_full_loads:
  "load_and_validate_config documented_libs ex_world ex_full_env ''c.yaml'' =
     Inr [(''web'', [(''type'', PStr ''streamable-http''), (''url'', PStr ''https://x/mcp'')])]"
  by code_simp

theorem loaded_backends_are_valid_witness:
  "valid_conf ex_path_env [(''type'', PStr ''streamable-http''), (''url'', PStr ''https://x/mcp'')]"
  using loaded_backends_are_valid [OF ex_full_loads] by (simp add: ex_full_env_def ex_load_env_def)

section \<open>Exceptions\<close>

text \<open>
  A configuration that is nested too deeply is refused, but not with the error that loading is
  documented to raise: the \<open>ValueError\<close> of the expansion passes through.
\<close>

theorem deep_config_raises_value_error:
  assumes "le_exists env" "read_config_file env path = Inr raw" "20 < tree_depth raw"
  shows "load_and_validate_config L w env path =
    Inl (ValueError ''expand_env_vars: recursion depth limit exceeded (max 20)'')"
proof -
  have "expand_too_deep = ValueError ''expand_env_vars: recursion depth limit exceeded (max 20)''" by code_simp
  then show ?thesis using assms
    by (simp add: load_and_validate_config_def load_argus_config_def prepare_config_def expand_env_vars_eq MAX_RECURSION_DEPTH_def)
qed

definition deep_value :: pyval where
  "deep_value = PDict [(''a'', ((\<lambda>v. PList [v]) ^^ 21) PNone)]"

theorem deep_config_raises_value_error_witness:
  "load_and_validate_config documented_libs ex_world (ex_load_env deep_value) ''c.yaml'' =
     Inl (ValueError ''expand_env_vars: recursion depth limit exceeded (max 20)'')"
proof (rule deep_config_raises_value_error)
  show "le_exists (ex_load_env deep_value)" by (simp add: ex_load_env_def)
  show "read_config_file (ex_load_env deep_value) ''c.yaml'' = Inr deep_value" by code_simp
  show "20 < tree_depth deep_value" by code_simp
qed

text \<open>An unknown provider of secrets and an error of the compiled YAML parser pass through as well.\<close>

lemma unknown_provider_raises_value_error:
  "secrets_section raw = Some s \<Longrightarrow> find_secret_references raw \<noteq> [] \<Longrightarrow> section_text s ''provider'' ''env'' = ''vault'' \<Longrightarrow>
   maybe_resolve_secrets L w raw = Inl (ValueError (''Unknown secret provider type: '' @ repr_str ''vault''))"
  by (simp add: maybe_resolve_secrets_def create_provider_def Let_def)

lemma parser_error_passes:
  "le_content env = Inr txt \<Longrightarrow> le_parse env txt = Inl (ValueError m) \<Longrightarrow> str_lower (file_ext path) = ''.yaml'' \<Longrightarrow>
   read_config_file env path = Inl (ValueError m)"
  by (simp add: read_config_file_def Let_def)

end
