(* ===== verification/Config_Transfer.thy ===== *)
theory Config_Transfer
  imports Config_Properties
begin

text \<open>
  Export and import of parts of a configuration: \<open>config/export.py\<close> and \<open>config/import_handler.py\<close>.
  An import changes the configuration it is given in place, so that it is a function from the
  configuration to the changed one and its report or exception. The declared fields of the
  models, their dumps and the texts of their errors (the validation library) are arguments, as
  is the YAML parser. The random identifier and the time of a report are left out.
\<close>

section \<open>Data\<close>

record RegistryEntryConfig =
  rg_name :: string
  rg_url :: string
  rg_rest :: "(string, pyval) dict"

record TransferConfig = ArgusConfig +
  ac_registries :: "RegistryEntryConfig list"
  ac_plugins :: pyval

record transfer_env =
  te_backend :: "(string, pyval) dict \<Rightarrow> errors + BackendConfig"
  te_registry :: "(string, pyval) dict \<Rightarrow> errors + RegistryEntryConfig"
  te_paths :: path_env
  te_error_text :: "errors \<Rightarrow> string"
  te_name_error :: "pyval \<Rightarrow> string"
  te_dump_backend :: "BackendConfig \<Rightarrow> (string, pyval) dict"
  te_dump_registry :: "RegistryEntryConfig \<Rightarrow> (string, pyval) dict"

definition validate_registry_url :: "string \<Rightarrow> string res" where
  "validate_registry_url raw =
     (let v = str_strip raw
      in if starts_with ''http://'' v \<or> starts_with ''https://'' v then Inr v
         else Inl (ValueError (''Registry URL '' @ quoted v @ '' must start with http:// or https://'')))"

definition parse_registry :: "transfer_env \<Rightarrow> (string, pyval) dict \<Rightarrow> errors + RegistryEntryConfig" where
  "parse_registry env raw =
     (case te_registry env raw of
        Inl es \<Rightarrow> Inl es
      | Inr r \<Rightarrow>
          (case validate_registry_url (rg_url r) of
             Inl e \<Rightarrow> Inl (at_field [] (field_error ''url'' (Inl e :: string res)))
           | Inr u \<Rightarrow> Inr (r\<lparr>rg_url := u\<rparr>)))"

section \<open>Export\<close>

datatype SecretHandling = STRIP | MASK | PRESERVE

record ExportFilter =
  ef_entity_types :: "string list"
  ef_backend_names :: "string list option"
  ef_backend_groups :: "string list option"
  ef_backend_types :: "string list option"

definition default_filter :: ExportFilter where
  "default_filter = \<lparr>ef_entity_types = [''backends'', ''registries''], ef_backend_names = None, ef_backend_groups = None, ef_backend_types = None\<rparr>"

definition EXPORT_SECRET :: regex where
  "EXPORT_SECRET = seq [TextStart, lit ''secret:'', plus dot, TextEnd]"

definition hide_text :: "string \<Rightarrow> string \<Rightarrow> string" where
  "hide_text hidden s = (if re_match EXPORT_SECRET s \<noteq> None then hidden else s)"

definition mask_secrets :: "pyval \<Rightarrow> pyval" where
  "mask_secrets = map_strings (hide_text ''***'')"

definition strip_secrets :: "pyval \<Rightarrow> pyval" where
  "strip_secrets = map_strings (hide_text [])"

definition admits :: "string list option \<Rightarrow> pyval \<Rightarrow> bool" where
  "admits allowed v = (case allowed of None \<Rightarrow> True | Some xs \<Rightarrow> v \<in> PStr ` set xs)"

definition backend_matches_filter :: "string \<Rightarrow> (string, pyval) dict \<Rightarrow> ExportFilter \<Rightarrow> bool" where
  "backend_matches_filter name d f \<longleftrightarrow>
     admits (ef_backend_names f) (PStr name) \<and>
     admits (ef_backend_groups f) (dict_get_or (PStr ''default'') d ''group'') \<and>
     admits (ef_backend_types f) (dict_get_or (PStr []) d ''type'')"

definition exported_backends :: "transfer_env \<Rightarrow> ExportFilter \<Rightarrow> 'a TransferConfig_scheme \<Rightarrow> (string, pyval) dict" where
  "exported_backends env f cfg =
     map (\<lambda>(n, b). (n, PDict (te_dump_backend env b))) (filter (\<lambda>(n, b). backend_matches_filter n (te_dump_backend env b) f) (ac_backends cfg))"

definition export_data :: "transfer_env \<Rightarrow> ExportFilter \<Rightarrow> 'a TransferConfig_scheme \<Rightarrow> (string, pyval) dict" where
  "export_data env f cfg =
     [(''version'', PStr (ac_version cfg))] @
     (if ''backends'' \<in> set (ef_entity_types f) then [(''backends'', PDict (exported_backends env f cfg))] else []) @
     (if ''registries'' \<in> set (ef_entity_types f) then [(''registries'', PList (map (PDict \<circ> te_dump_registry env) (ac_registries cfg)))] else []) @
     (if ''feature_flags'' \<in> set (ef_entity_types f) then [(''feature_flags'', PDict (map (\<lambda>(n, b). (n, PBool b)) (ac_feature_flags cfg)))] else []) @
     (if ''plugins'' \<in> set (ef_entity_types f) then [(''plugins'', ac_plugins cfg)] else [])"

definition export_counts :: "transfer_env \<Rightarrow> ExportFilter \<Rightarrow> 'a TransferConfig_scheme \<Rightarrow> (string, nat) dict" where
  "export_counts env f cfg =
     filter (\<lambda>(k, n). k \<in> set (ef_entity_types f))
       [(''backends'', length (exported_backends env f cfg)), (''registries'', length (ac_registries cfg)),
        (''feature_flags'', length (ac_feature_flags cfg)), (''plugins'', 1)]"

fun handle_secrets :: "SecretHandling \<Rightarrow> pyval \<Rightarrow> pyval" where
  "handle_secrets MASK v = mask_secrets v"
| "handle_secrets STRIP v = strip_secrets v"
| "handle_secrets PRESERVE v = v"

definition export_config ::
    "transfer_env \<Rightarrow> ExportFilter option \<Rightarrow> SecretHandling \<Rightarrow> 'a TransferConfig_scheme \<Rightarrow> (string, nat) dict \<times> pyval" where
  "export_config env f h cfg =
     (let f' = (case f of None \<Rightarrow> default_filter | Some x \<Rightarrow> x)
      in (export_counts env f' cfg, handle_secrets h (PDict (export_data env f' cfg))))"

section \<open>Import\<close>

datatype ConflictStrategy = SKIP | UPDATE | RENAME | FAIL

datatype ImportItemStatus = ADDED | UPDATED | SKIPPED | RENAMED | REFUSED

record ImportItemResult =
  ii_name :: string
  ii_entity :: string
  ii_status :: ImportItemStatus
  ii_new_name :: "string option"
  ii_error :: "string option"

record ImportResult =
  im_dry_run :: bool
  im_strategy :: ConflictStrategy
  im_items :: "ImportItemResult list"
  im_errors :: "string list"

abbreviation import_item :: "string \<Rightarrow> string \<Rightarrow> ImportItemStatus \<Rightarrow> ImportItemResult" where
  "import_item entity name status \<equiv> \<lparr>ii_name = name, ii_entity = entity, ii_status = status, ii_new_name = None, ii_error = None\<rparr>"

abbreviation refused :: "string \<Rightarrow> string \<Rightarrow> string \<Rightarrow> ImportItemResult" where
  "refused entity name err \<equiv> (import_item entity name REFUSED)\<lparr>ii_error := Some err\<rparr>"

abbreviation renamed :: "string \<Rightarrow> string \<Rightarrow> string \<Rightarrow> ImportItemResult" where
  "renamed entity name n \<equiv> (import_item entity name RENAMED)\<lparr>ii_new_name := Some n\<rparr>"

definition count_status :: "ImportItemStatus \<Rightarrow> ImportResult \<Rightarrow> nat" where
  "count_status s r = length (filter (\<lambda>i. ii_status i = s) (im_items r))"

definition import_success :: "ImportResult \<Rightarrow> bool" where
  "import_success r \<longleftrightarrow> count_status REFUSED r = 0 \<and> im_errors r = []"

definition import_summary :: "ImportResult \<Rightarrow> string" where
  "import_summary r = ''+'' @ show_nat (count_status ADDED r) @ '' ~'' @ show_nat (count_status UPDATED r) @
     '' ='' @ show_nat (count_status SKIPPED r) @ '' !'' @ show_nat (count_status REFUSED r)"

abbreviation ImportValidationError :: "string \<Rightarrow> exn" where
  "ImportValidationError m \<equiv> OtherException ''ImportValidationError'' m"

definition generate_rename :: "string \<Rightarrow> string list \<Rightarrow> string res" where
  "generate_rename name existing =
     (case find (\<lambda>c. c \<notin> set existing) (map (\<lambda>i. name @ ''_'' @ show_nat i) [1..<1000]) of
        None \<Rightarrow> Inl (ImportValidationError (''Cannot generate unique rename for '' @ quoted name @ '' after 999 attempts''))
      | Some c \<Rightarrow> Inr c)"

text \<open>A call of the class of a backend's type with keyword arguments, which raises what validation finds.\<close>

definition model_backend :: "transfer_env \<Rightarrow> string \<Rightarrow> (string, pyval) dict \<Rightarrow> string + BackendConfig" where
  "model_backend env name raw =
     (case te_backend env raw of
        Inl es \<Rightarrow> Inl (te_error_text env es)
      | Inr b \<Rightarrow>
          (case validate_backend (te_paths env) name b of
             Inl es \<Rightarrow> Inl (te_error_text env (map (\<lambda>(loc, m). (drop 3 loc, m)) es))
           | Inr b' \<Rightarrow> Inr b'))"

definition parse_backend :: "transfer_env \<Rightarrow> string \<Rightarrow> (string, pyval) dict \<Rightarrow> string + BackendConfig" where
  "parse_backend env name raw =
     (let btype = dict_get_or PNone raw ''type''
      in if btype \<in> {PStr ''stdio'', PStr ''sse'', PStr ''streamable-http''} then model_backend env name raw
         else Inl (''Backend '' @ quoted name @ '': unsupported type '' @ quoted (py_str btype)))"

definition validate_import_limits :: "int \<Rightarrow> int \<Rightarrow> (string, pyval) dict \<Rightarrow> string list" where
  "validate_import_limits max_backends max_registries payload =
     (case dict_get payload ''backends'' of
        Some (PDict d) \<Rightarrow> if int (length d) > max_backends
          then [''Too many backends: '' @ show_nat (length d) @ '' exceeds limit '' @ show_int max_backends] else []
      | _ \<Rightarrow> []) @
     (case dict_get payload ''registries'' of
        Some (PList l) \<Rightarrow> if int (length l) > max_registries
          then [''Too many registries: '' @ show_nat (length l) @ '' exceeds limit '' @ show_int max_registries] else []
      | _ \<Rightarrow> [])"

definition parse_import_payload :: "(string \<Rightarrow> string + pyval) \<Rightarrow> int \<Rightarrow> string \<Rightarrow> (string, pyval) dict res" where
  "parse_import_payload safe_load max_size raw =
     (if int (length (utf8 raw)) > max_size then Inl (ImportValidationError (''Import payload too large: exceeds '' @ show_int max_size @ '' bytes''))
      else case safe_load raw of
             Inl m \<Rightarrow> Inl (ImportValidationError (''Invalid YAML: '' @ m))
           | Inr (PDict d) \<Rightarrow> Inr d
           | Inr v \<Rightarrow> Inl (ImportValidationError ''Import payload must be a YAML mapping''))"

text \<open>A loop over the items of a section; an exception ends it with the changes made so far.\<close>

fun run_items :: "('x \<Rightarrow> 's \<Rightarrow> 's \<times> 'i res) \<Rightarrow> 'x list \<Rightarrow> 's \<Rightarrow> 's \<times> 'i list res" where
  "run_items step [] s = (s, Inr [])"
| "run_items step (x # xs) s =
     (case step x s of
        (s', Inl e) \<Rightarrow> (s', Inl e)
      | (s', Inr i) \<Rightarrow> (case run_items step xs s' of (s'', r) \<Rightarrow> (s'', map_sum id ((#) i) r)))"

text \<open>Backends: the state has the backends of the target and the names that count as taken.\<close>

definition import_backend ::
    "transfer_env \<Rightarrow> ConflictStrategy \<Rightarrow> bool \<Rightarrow> string \<times> pyval \<Rightarrow> (string, BackendConfig) dict \<times> string list \<Rightarrow>
     ((string, BackendConfig) dict \<times> string list) \<times> ImportItemResult res" where
  "import_backend env strategy dry nr st =
     (case (nr, st) of ((name, raw), (bs, existing)) \<Rightarrow>
        (let put = (\<lambda>n b. if dry then bs else dict_set n b bs)
         in case raw of
              PDict d \<Rightarrow>
                (case parse_backend env name d of
                   Inl err \<Rightarrow> (st, Inr (refused ''backend'' name err))
                 | Inr b \<Rightarrow>
                     (if name \<in> set existing
                      then case strategy of
                             FAIL \<Rightarrow> (st, Inr (refused ''backend'' name (''Backend '' @ quoted name @ '' already exists'')))
                           | SKIP \<Rightarrow> (st, Inr (import_item ''backend'' name SKIPPED))
                           | RENAME \<Rightarrow>
                               (case generate_rename name existing of
                                  Inl e \<Rightarrow> (st, Inl e)
                                | Inr n \<Rightarrow> ((put n b, existing @ [n]), Inr (renamed ''backend'' name n)))
                           | UPDATE \<Rightarrow> ((put name b, existing), Inr (import_item ''backend'' name UPDATED))
                      else ((put name b, existing @ [name]), Inr (import_item ''backend'' name ADDED))))
            | _ \<Rightarrow> (st, Inr (refused ''backend'' name ''Backend config must be a mapping''))))"

text \<open>
  Registries: the name is taken from the raw entry. The report of an entry needs a name that is a
  text; another one raises, also where the entry is only to be reported as refused.
\<close>

definition import_registry ::
    "transfer_env \<Rightarrow> ConflictStrategy \<Rightarrow> bool \<Rightarrow> nat \<times> pyval \<Rightarrow> RegistryEntryConfig list \<times> string list \<Rightarrow>
     (RegistryEntryConfig list \<times> string list) \<times> ImportItemResult res" where
  "import_registry env strategy dry ir st =
     (case (ir, st) of ((idx, raw), (rs, existing)) \<Rightarrow>
        (let put = (\<lambda>r. if dry then rs else rs @ [r])
         in case raw of
              PDict d \<Rightarrow>
                (case dict_get_or (PStr (''registry_'' @ show_nat idx)) d ''name'' of
                   PStr name \<Rightarrow>
                     (case parse_registry env d of
                        Inl es \<Rightarrow> (st, Inr (refused ''registry'' name (te_error_text env es)))
                      | Inr r \<Rightarrow>
                          (if name \<in> set existing
                           then case strategy of
                                  FAIL \<Rightarrow> (st, Inr (refused ''registry'' name (''Registry '' @ quoted name @ '' already exists'')))
                                | SKIP \<Rightarrow> (st, Inr (import_item ''registry'' name SKIPPED))
                                | UPDATE \<Rightarrow>
                                    ((if dry then rs else map (\<lambda>q. if rg_name q = name then r else q) rs, existing),
                                     Inr (import_item ''registry'' name UPDATED))
                                | RENAME \<Rightarrow>
                                    (case generate_rename name existing of
                                       Inl e \<Rightarrow> (st, Inl e)
                                     | Inr n \<Rightarrow> ((put (r\<lparr>rg_name := n\<rparr>), existing @ [n]), Inr (renamed ''registry'' name n)))
                           else ((put r, existing @ [name]), Inr (import_item ''registry'' name ADDED))))
                 | v \<Rightarrow> (st, Inl (OtherException ''ValidationError'' (te_name_error env v))))
            | _ \<Rightarrow> (st, Inr (refused ''registry'' (''registry['' @ show_nat idx @ '']'') ''Registry entry must be a mapping''))))"

definition import_flag ::
    "ConflictStrategy \<Rightarrow> bool \<Rightarrow> string \<times> pyval \<Rightarrow> (string, bool) dict \<Rightarrow> (string, bool) dict \<times> ImportItemResult res" where
  "import_flag strategy dry nv flags =
     (case nv of (name, value) \<Rightarrow>
        (case value of
           PBool b \<Rightarrow>
             (let known = name \<in> fst ` set flags
              in if known \<and> strategy = SKIP then (flags, Inr (import_item ''feature_flag'' name SKIPPED))
                 else if known \<and> strategy = FAIL
                 then (flags, Inr (refused ''feature_flag'' name (''Feature flag '' @ quoted name @ '' already exists'')))
                 else (if dry then flags else dict_set name b flags, Inr (import_item ''feature_flag'' name (if known then UPDATED else ADDED))))
         | _ \<Rightarrow> (flags, Inr (refused ''feature_flag'' name ''Feature flag value must be boolean''))))"

definition import_backends ::
    "transfer_env \<Rightarrow> ConflictStrategy \<Rightarrow> bool \<Rightarrow> pyval \<Rightarrow> 'a TransferConfig_scheme \<Rightarrow> 'a TransferConfig_scheme \<times> ImportItemResult list res" where
  "import_backends env strategy dry raw cfg =
     (case raw of
        PDict d \<Rightarrow>
          (case run_items (import_backend env strategy dry) d (ac_backends cfg, dict_keys (ac_backends cfg)) of
             ((bs, names), r) \<Rightarrow> (cfg\<lparr>ac_backends := bs\<rparr>, r))
      | _ \<Rightarrow> (cfg, Inr []))"

definition import_registries ::
    "transfer_env \<Rightarrow> ConflictStrategy \<Rightarrow> bool \<Rightarrow> pyval \<Rightarrow> 'a TransferConfig_scheme \<Rightarrow> 'a TransferConfig_scheme \<times> ImportItemResult list res" where
  "import_registries env strategy dry raw cfg =
     (case raw of
        PList l \<Rightarrow>
          (case run_items (import_registry env strategy dry) (List.enumerate 0 l) (ac_registries cfg, map rg_name (ac_registries cfg)) of
             ((rs, names), r) \<Rightarrow> (cfg\<lparr>ac_registries := rs\<rparr>, r))
      | _ \<Rightarrow> (cfg, Inr []))"

definition import_feature_flags ::
    "ConflictStrategy \<Rightarrow> bool \<Rightarrow> pyval \<Rightarrow> 'a TransferConfig_scheme \<Rightarrow> 'a TransferConfig_scheme \<times> ImportItemResult list res" where
  "import_feature_flags strategy dry raw cfg =
     (case raw of
        PDict d \<Rightarrow>
          (case run_items (import_flag strategy dry) d (ac_feature_flags cfg) of (flags, r) \<Rightarrow> (cfg\<lparr>ac_feature_flags := flags\<rparr>, r))
      | _ \<Rightarrow> (cfg, Inr []))"

text \<open>The sections in order, those asked for and present; the reports are collected.\<close>

definition import_section ::
    "string list \<Rightarrow> (string, pyval) dict \<Rightarrow> string \<Rightarrow> (pyval \<Rightarrow> 'c \<Rightarrow> 'c \<times> 'i list res) \<Rightarrow> 'c \<times> 'i list res \<Rightarrow> 'c \<times> 'i list res" where
  "import_section types payload key run acc =
     (case acc of
        (cfg, Inl e) \<Rightarrow> (cfg, Inl e)
      | (cfg, Inr items) \<Rightarrow>
          (if key \<in> set types
           then case dict_get payload key of
                  None \<Rightarrow> (cfg, Inr items)
                | Some raw \<Rightarrow> (case run raw cfg of (cfg', r) \<Rightarrow> (cfg', map_sum id ((@) items) r))
           else (cfg, Inr items)))"

definition import_config ::
    "transfer_env \<Rightarrow> ConflictStrategy \<Rightarrow> bool \<Rightarrow> string list option \<Rightarrow> int \<Rightarrow> int \<Rightarrow> (string, pyval) dict \<Rightarrow> 'a TransferConfig_scheme \<Rightarrow>
     'a TransferConfig_scheme \<times> ImportResult res" where
  "import_config env strategy dry entity_types max_backends max_registries payload cfg =
     (let types = (case entity_types of None \<Rightarrow> [''backends'', ''registries'', ''feature_flags'', ''plugins''] | Some ts \<Rightarrow> ts);
          errors = validate_import_limits max_backends max_registries payload;
          report = (\<lambda>items errs. \<lparr>im_dry_run = dry, im_strategy = strategy, im_items = items, im_errors = errs\<rparr>)
      in if errors \<noteq> [] then (cfg, Inr (report [] errors))
         else case import_section types payload ''feature_flags'' (import_feature_flags strategy dry)
                (import_section types payload ''registries'' (import_registries env strategy dry)
                (import_section types payload ''backends'' (import_backends env strategy dry) (cfg, Inr []))) of
                (cfg', r) \<Rightarrow> (cfg', map_sum id (\<lambda>items. report items []) r))"

end
