(* ===== verification/Transfer_Properties.thy ===== *)
theory Transfer_Properties
  imports Config_Transfer
begin

text \<open>
  Properties of export and import: a dry run reports what the import does, what an import leaves
  alone, that an export can be imported again, what masking hides and what it does not.
\<close>

section \<open>Loops over items\<close>

lemma run_items_inv:
  assumes "\<And>x s. x \<in> set xs \<Longrightarrow> P s \<Longrightarrow> P (fst (step x s))" "P s"
  shows "P (fst (run_items step xs s))"
  using assms
proof (induction xs arbitrary: s)
  case (Cons x xs)
  obtain s' r where s': "step x s = (s', r)" by fastforce
  then have "P s'" using Cons.prems(1) [of x s] Cons.prems(2) by simp
  then have "P (fst (run_items step xs s'))" using Cons.IH Cons.prems(1) by simp
  then show ?case using s' \<open>P s'\<close> by (auto split: prod.splits sum.splits)
qed simp

text \<open>Two loops report the same when their states stay related as far as the remaining items need it.\<close>

lemma run_items_sim:
  assumes "\<And>x xs s t. R (x # xs) s t \<Longrightarrow> snd (f x s) = snd (g x t) \<and> R xs (fst (f x s)) (fst (g x t))" "R xs s t"
  shows "snd (run_items f xs s) = snd (run_items g xs t)"
  using assms(2)
proof (induction xs arbitrary: s t)
  case (Cons x xs)
  obtain s' r t' where s': "f x s = (s', r)" "g x t = (t', r)" "R xs s' t'"
    using assms(1) [OF Cons.prems] by (metis prod.collapse)
  then show ?case using Cons.IH [OF s'(3)] by (auto split: sum.splits prod.splits)
qed simp

section \<open>An example\<close>

text \<open>A configuration with one remote backend and one registry, and models that read back what they dump.\<close>

definition no_timeouts :: TimeoutConfig where
  "no_timeouts = \<lparr>tc_init = None, tc_cap_fetch = None, tc_sse_startup = None, tc_startup = None, tc_retries = None, tc_retry_delay = None\<rparr>"

definition ex_models :: transfer_env where
  "ex_models = \<lparr>
     te_backend = (\<lambda>raw. case (dict_get raw ''type'', dict_get raw ''url'') of
        (Some (PStr t), Some (PStr u)) \<Rightarrow> Inr (StreamableHttpBackendConfig u None None no_timeouts) | _ \<Rightarrow> Inl [([''url''], ''Field required'')]),
     te_registry = (\<lambda>raw. case (dict_get raw ''name'', dict_get raw ''url'') of
        (Some (PStr n), Some (PStr u)) \<Rightarrow> Inr \<lparr>rg_name = n, rg_url = u, rg_rest = []\<rparr> | _ \<Rightarrow> Inl [([''name''], ''Field required'')]),
     te_paths = ex_path_env, te_error_text = (\<lambda>es. ''invalid''), te_name_error = (\<lambda>v. ''invalid name''),
     te_dump_backend = (\<lambda>b. case b of StreamableHttpBackendConfig u h a t \<Rightarrow> [(''type'', PStr ''streamable-http''), (''url'', PStr u)] | _ \<Rightarrow> []),
     te_dump_registry = (\<lambda>r. [(''name'', PStr (rg_name r)), (''url'', PStr (rg_url r))])\<rparr>"

definition ex_source :: TransferConfig where
  "ex_source = \<lparr>ac_version = ''1'', ac_backends = [(''web'', StreamableHttpBackendConfig ''https://x/mcp'' None None no_timeouts)],
     ac_feature_flags = [(''optimizer'', True)], ac_other = PNone,
     ac_registries = [\<lparr>rg_name = ''main'', rg_url = ''https://r'', rg_rest = []\<rparr>], ac_plugins = PNone\<rparr>"

definition ex_target :: TransferConfig where
  "ex_target = \<lparr>ac_version = ''1'', ac_backends = [(''old'', StreamableHttpBackendConfig ''https://y/mcp'' None None no_timeouts)],
     ac_feature_flags = [], ac_other = PNone, ac_registries = [], ac_plugins = PNone\<rparr>"

definition whole_filter :: ExportFilter where
  "whole_filter = default_filter\<lparr>ef_entity_types := [''backends'', ''registries'', ''feature_flags'']\<rparr>"

definition ex_payload :: "(string, pyval) dict" where
  "ex_payload = export_data ex_models whole_filter ex_source"

section \<open>Dry runs\<close>

lemma import_backend_dry: "fst (fst (import_backend env strategy True x st)) = fst st"
  by (cases x, cases st) (simp add: import_backend_def split: pyval.split sum.split ConflictStrategy.split)

lemma import_backend_names:
  "snd (import_backend env strategy dry x (bs, ns)) = snd (import_backend env strategy dry' x (bs', ns))"
  "snd (fst (import_backend env strategy dry x (bs, ns))) = snd (fst (import_backend env strategy dry' x (bs', ns)))"
  by (cases x; simp add: import_backend_def split: pyval.split sum.split ConflictStrategy.split)+

lemma import_registry_dry: "fst (fst (import_registry env strategy True x st)) = fst st"
  by (cases x, cases st) (simp add: import_registry_def split: pyval.split sum.split ConflictStrategy.split)

lemma import_registry_names:
  "snd (import_registry env strategy dry x (rs, ns)) = snd (import_registry env strategy dry' x (rs', ns))"
  "snd (fst (import_registry env strategy dry x (rs, ns))) = snd (fst (import_registry env strategy dry' x (rs', ns)))"
  by (cases x; simp add: import_registry_def split: pyval.split sum.split ConflictStrategy.split)+

lemma import_flag_dry: "fst (import_flag strategy True x flags) = flags"
  by (cases x) (simp add: import_flag_def Let_def split: pyval.split)

lemma import_flag_report:
  "fst x \<in> fst ` set flags \<longleftrightarrow> fst x \<in> fst ` set flags' \<Longrightarrow> snd (import_flag strategy dry x flags) = snd (import_flag strategy dry' x flags')"
  by (cases x) (simp add: import_flag_def Let_def split: pyval.split)

lemma import_flag_other:
  "k \<noteq> fst x \<Longrightarrow> dict_get (fst (import_flag strategy dry x flags)) k = dict_get flags k"
  by (cases x) (simp add: import_flag_def Let_def split: pyval.split)

lemma import_backends_dry: "import_backends env strategy True raw cfg = (cfg, snd (import_backends env strategy False raw cfg))"
proof (cases raw)
  case (PDict d)
  let ?run = "\<lambda>dry. run_items (import_backend env strategy dry) d (ac_backends cfg, dict_keys (ac_backends cfg))"
  have "fst (fst (?run True)) = ac_backends cfg"
    by (rule run_items_inv [where P = "\<lambda>s. fst s = ac_backends cfg"]) (simp_all add: import_backend_dry)
  moreover have "snd (?run True) = snd (?run False)"
    by (rule run_items_sim [where R = "\<lambda>xs s t. snd s = snd t"]) (use import_backend_names in \<open>auto\<close>)
  ultimately show ?thesis by (auto simp: PDict import_backends_def split: prod.splits)
qed (simp_all add: import_backends_def)

lemma import_registries_dry: "import_registries env strategy True raw cfg = (cfg, snd (import_registries env strategy False raw cfg))"
proof (cases raw)
  case (PList l)
  let ?run = "\<lambda>dry. run_items (import_registry env strategy dry) (List.enumerate 0 l) (ac_registries cfg, map rg_name (ac_registries cfg))"
  have "fst (fst (?run True)) = ac_registries cfg"
    by (rule run_items_inv [where P = "\<lambda>s. fst s = ac_registries cfg"]) (simp_all add: import_registry_dry)
  moreover have "snd (?run True) = snd (?run False)"
    by (rule run_items_sim [where R = "\<lambda>xs s t. snd s = snd t"]) (use import_registry_names in \<open>auto\<close>)
  ultimately show ?thesis by (auto simp: PList import_registries_def split: prod.splits)
qed (simp_all add: import_registries_def)

definition flags_wf :: "pyval \<Rightarrow> bool" where
  "flags_wf raw \<longleftrightarrow> (case raw of PDict d \<Rightarrow> dict_wf d | _ \<Rightarrow> True)"

lemma import_flags_dry:
  assumes "flags_wf raw"
  shows "import_feature_flags strategy True raw cfg = (cfg, snd (import_feature_flags strategy False raw cfg))"
proof (cases raw)
  case (PDict d)
  let ?run = "\<lambda>dry. run_items (import_flag strategy dry) d (ac_feature_flags cfg)"
  define R :: "(string \<times> pyval) list \<Rightarrow> (string, bool) dict \<Rightarrow> (string, bool) dict \<Rightarrow> bool" where
    "R xs s t \<longleftrightarrow> distinct (map fst xs) \<and> (\<forall>k \<in> fst ` set xs. dict_get s k = dict_get t k)" for xs s t
  have same: "fst x \<in> fst ` set s \<longleftrightarrow> fst x \<in> fst ` set t" if "R (x # xs) s t" for x xs s t
    using that dict_get_None_iff [of s "fst x"] dict_get_None_iff [of t "fst x"] by (simp add: R_def)
  have step: "R xs (fst (import_flag strategy True x s)) (fst (import_flag strategy False x t))" if "R (x # xs) s t" for x xs s t
    unfolding R_def
  proof (intro conjI ballI)
    show "distinct (map fst xs)" using that by (simp add: R_def)
    fix k assume k: "k \<in> fst ` set xs"
    then have "k \<noteq> fst x" using that by (metis R_def distinct.simps(2) list.set_map list.simps(9))
    then show "dict_get (fst (import_flag strategy True x s)) k = dict_get (fst (import_flag strategy False x t)) k"
      using that k by (auto simp: R_def import_flag_other)
  qed
  have "R d (ac_feature_flags cfg) (ac_feature_flags cfg)" using assms by (simp add: R_def flags_wf_def PDict)
  then have "snd (?run True) = snd (?run False)"
    using import_flag_report [OF same] step by (intro run_items_sim [where R = R]) blast+
  moreover have "fst (?run True) = ac_feature_flags cfg"
    by (rule run_items_inv [where P = "\<lambda>s. s = ac_feature_flags cfg"]) (simp_all add: import_flag_dry)
  ultimately show ?thesis by (auto simp: PDict import_feature_flags_def split: prod.splits)
qed (simp_all add: import_feature_flags_def)

text \<open>Each section changes its own part of the configuration and looks at no other.\<close>

lemma import_backends_frame:
  "ac_registries (fst (import_backends env strategy dry raw cfg)) = ac_registries cfg"
  "ac_feature_flags (fst (import_backends env strategy dry raw cfg)) = ac_feature_flags cfg"
  by (simp_all add: import_backends_def split: pyval.split prod.split)

lemma import_registries_frame:
  "ac_backends (fst (import_registries env strategy dry raw cfg)) = ac_backends cfg"
  "ac_feature_flags (fst (import_registries env strategy dry raw cfg)) = ac_feature_flags cfg"
  by (simp_all add: import_registries_def split: pyval.split prod.split)

lemma import_flags_frame:
  "ac_backends (fst (import_feature_flags strategy dry raw cfg)) = ac_backends cfg"
  "ac_registries (fst (import_feature_flags strategy dry raw cfg)) = ac_registries cfg"
  by (simp_all add: import_feature_flags_def split: pyval.split prod.split)

lemma import_registries_cong: "ac_registries cfg = ac_registries cfg' \<Longrightarrow>
    snd (import_registries env strategy dry raw cfg) = snd (import_registries env strategy dry raw cfg')"
  by (simp add: import_registries_def split: pyval.split prod.split)

lemma import_flags_cong: "ac_feature_flags cfg = ac_feature_flags cfg' \<Longrightarrow>
    snd (import_feature_flags strategy dry raw cfg) = snd (import_feature_flags strategy dry raw cfg')"
  by (simp add: import_feature_flags_def split: pyval.split prod.split)

lemmas import_frame = import_backends_frame import_registries_frame import_flags_frame

lemma import_section_keeps:
  "(\<And>raw c. Q (fst (run raw c)) = Q c) \<Longrightarrow> Q (fst (import_section types payload key run acc)) = Q (fst acc)"
  by (cases acc) (simp add: import_section_def case_prod_beta split: sum.split option.split)

lemma import_section_dry:
  "(\<And>raw. dict_get payload key = Some raw \<Longrightarrow> run raw cfg = (cfg, snd (run' raw cfg'))) \<Longrightarrow>
   import_section types payload key run (cfg, r) = (cfg, snd (import_section types payload key run' (cfg', r)))"
  by (cases r) (auto simp: import_section_def split: option.split prod.split)

text \<open>
  C34: A dry run tells what the import would do: it leaves the configuration alone and gives the same
  report, item by item, or raises the same exception as the import itself, for every conflict
  strategy and whatever the payload holds.
\<close>

theorem dry_run_predicts_import:
  assumes "flags_wf (dict_get_or PNone payload ''feature_flags'')"
  shows "import_config env strategy True types max_backends max_registries payload cfg =
    (cfg, map_sum id (\<lambda>r. r\<lparr>im_dry_run := True\<rparr>) (snd (import_config env strategy False types max_backends max_registries payload cfg)))"
proof (cases "validate_import_limits max_backends max_registries payload = []")
  case True
  define ts where "ts = (case types of None \<Rightarrow> [''backends'', ''registries'', ''feature_flags'', ''plugins''] | Some ts \<Rightarrow> ts)"
  let ?bs = "\<lambda>dry acc. import_section ts payload ''backends'' (import_backends env strategy dry) acc"
  let ?rs = "\<lambda>dry acc. import_section ts payload ''registries'' (import_registries env strategy dry) acc"
  let ?fs = "\<lambda>dry acc. import_section ts payload ''feature_flags'' (import_feature_flags strategy dry) acc"
  obtain c1 r1 where 1: "?bs False (cfg, Inr []) = (c1, r1)" by fastforce
  obtain c2 r2 where 2: "?rs False (c1, r1) = (c2, r2)" by fastforce
  have c1: "ac_registries c1 = ac_registries cfg" "ac_feature_flags c1 = ac_feature_flags cfg"
    using import_section_keeps [of ac_registries "import_backends env strategy False" ts payload "''backends''" "(cfg, Inr [])"]
      import_section_keeps [of ac_feature_flags "import_backends env strategy False" ts payload "''backends''" "(cfg, Inr [])"]
    by (simp_all add: 1 import_frame)
  have c2: "ac_feature_flags c2 = ac_feature_flags cfg"
    using import_section_keeps [of ac_feature_flags "import_registries env strategy False" ts payload "''registries''" "(c1, r1)"]
    by (simp add: 2 import_frame c1)
  have "?bs True (cfg, Inr []) = (cfg, r1)"
    using import_section_dry [of payload "''backends''" "import_backends env strategy True" cfg "import_backends env strategy False" cfg ts "Inr []"]
    by (simp add: import_backends_dry 1)
  moreover have "?rs True (cfg, r1) = (cfg, r2)"
    using import_section_dry [of payload "''registries''" "import_registries env strategy True" cfg "import_registries env strategy False" c1 ts r1]
    by (simp add: import_registries_dry import_registries_cong [OF c1(1)] 2)
  moreover have "?fs True (cfg, r2) = (cfg, snd (?fs False (c2, r2)))"
    by (rule import_section_dry) (use assms in \<open>simp add: import_flags_dry import_flags_cong [OF c2] dict_get_or_def\<close>)
  ultimately show ?thesis
    using True 1 2 by (simp add: import_config_def Let_def ts_def [symmetric] case_prod_beta sum.map_comp comp_def id_def)
qed (simp add: import_config_def Let_def)

theorem dry_run_predicts_import_witness:
  "fst (import_config ex_models RENAME True None 200 50 ex_payload ex_target) = ex_target"
  using dry_run_predicts_import [of ex_payload ex_models RENAME None 200 50 ex_target]
  by (simp add: ex_payload_def export_data_def flags_wf_def dict_get_or_def whole_filter_def default_filter_def ex_source_def)

section \<open>What an import leaves alone\<close>

lemma generate_rename_new: "generate_rename name existing = Inr c \<Longrightarrow> c \<notin> set existing"
  by (auto simp: generate_rename_def find_Some_iff simp del: upt_rec_numeral split: option.splits)

text \<open>With fewer than 999 names taken there is always a new one.\<close>

lemma find_fresh:
  assumes "inj f" "card (set existing) < n - 1"
  shows "find (\<lambda>c. c \<notin> set existing) (map f [1..<n]) \<noteq> None"
proof
  assume "find (\<lambda>c. c \<notin> set existing) (map f [1..<n]) = None"
  then have "f ` {1..<n} \<subseteq> set existing" by (auto simp: find_None_iff)
  then have "card (f ` {1..<n}) \<le> card (set existing)" by (rule card_mono [rotated]) simp
  then show False using assms by (simp add: card_image inj_on_subset)
qed

lemma generate_rename_ok: "card (set existing) < 999 \<Longrightarrow> \<exists>c. generate_rename name existing = Inr c"
  using find_fresh [of "\<lambda>i. name @ ''_'' @ show_nat i" existing 1000]
  by (auto simp: generate_rename_def inj_on_def simp del: upt_rec_numeral dest: show_nat_inj split: option.split)

definition appends :: "transfer_env \<Rightarrow> (string, BackendConfig) dict \<Rightarrow> (string, BackendConfig) dict \<times> string list \<Rightarrow> bool" where
  "appends env bs0 st \<longleftrightarrow> fst ` set (fst st) \<subseteq> set (snd st) \<and>
     (\<exists>bs. fst st = bs0 @ bs \<and> list_all (\<lambda>(n, b). valid_conf (te_paths env) (backend_to_dict b)) bs)"

lemma model_backend_valid: "model_backend env name d = Inr b \<Longrightarrow> valid_conf (te_paths env) (backend_to_dict b)"
  by (auto simp: model_backend_def dest: valid_backend_conf split: sum.splits)

lemma parse_backend_valid: "parse_backend env name d = Inr b \<Longrightarrow> valid_conf (te_paths env) (backend_to_dict b)"
  by (auto simp: parse_backend_def Let_def dest: model_backend_valid split: if_splits)

lemma appends_set:
  assumes "appends env bs0 (bs, ns)" "n \<notin> set ns" "valid_conf (te_paths env) (backend_to_dict b)"
  shows "appends env bs0 (dict_set n b bs, ns @ [n])"
proof -
  have "n \<notin> fst ` set bs" using assms(1,2) by (auto simp: appends_def)
  then show ?thesis using assms by (auto simp: appends_def dict_set_new)
qed

lemma appends_names: "appends env bs0 (bs, ns) \<Longrightarrow> appends env bs0 (bs, ns @ [n])"
  by (auto simp: appends_def)

lemma import_backend_appends:
  assumes "strategy \<noteq> UPDATE" "appends env bs0 st"
  shows "appends env bs0 (fst (import_backend env strategy dry x st))"
proof -
  obtain n raw bs ns where x: "x = (n, raw)" "st = (bs, ns)" by (cases x, cases st)
  show ?thesis using assms appends_names [of env bs0 bs ns] unfolding x
    by (auto simp: import_backend_def intro!: appends_set dest: generate_rename_new parse_backend_valid
        split: pyval.split sum.split ConflictStrategy.split)
qed

lemma import_registry_appends:
  assumes "strategy \<noteq> UPDATE"
  shows "\<exists>rs. fst (fst (import_registry env strategy dry x st)) = fst st @ rs"
  using assms by (cases x, cases st) (auto simp: import_registry_def split: pyval.split sum.split ConflictStrategy.split)

lemma import_backends_appends:
  assumes "strategy \<noteq> UPDATE"
  shows "\<exists>bs. ac_backends (fst (import_backends env strategy dry raw cfg)) = ac_backends cfg @ bs \<and>
    list_all (\<lambda>(n, b). valid_conf (te_paths env) (backend_to_dict b)) bs"
proof (cases raw)
  case (PDict d)
  have "appends env (ac_backends cfg) (fst (run_items (import_backend env strategy dry) d (ac_backends cfg, dict_keys (ac_backends cfg))))"
    by (rule run_items_inv [where P = "appends env (ac_backends cfg)"]) (simp_all add: import_backend_appends assms, simp add: appends_def)
  then show ?thesis by (auto simp: PDict import_backends_def appends_def split: prod.splits)
qed (simp_all add: import_backends_def)

lemma import_registries_appends:
  assumes "strategy \<noteq> UPDATE"
  shows "\<exists>rs. ac_registries (fst (import_registries env strategy dry raw cfg)) = ac_registries cfg @ rs"
proof (cases raw)
  case (PList l)
  have "\<exists>rs. fst (fst (run_items (import_registry env strategy dry) (List.enumerate 0 l) (ac_registries cfg, map rg_name (ac_registries cfg)))) = ac_registries cfg @ rs"
    by (rule run_items_inv [where P = "\<lambda>s. \<exists>rs. fst s = ac_registries cfg @ rs"]) (metis import_registry_appends [OF assms] append.assoc, simp)
  then show ?thesis by (auto simp: PList import_registries_def split: prod.splits)
qed (simp_all add: import_registries_def)

lemma import_section_inv:
  "(\<And>raw c. P c \<Longrightarrow> P (fst (run raw c))) \<Longrightarrow> P (fst acc) \<Longrightarrow> P (fst (import_section types payload key run acc))"
  by (cases acc) (simp add: import_section_def case_prod_beta split: sum.split option.split)

text \<open>
  Unless it is to update, an import only adds: whatever the payload, and also when it ends with an
  exception, the backends and registries of the target stay as they are and in front, and every
  backend behind them satisfies what loading guarantees of a backend.
\<close>

theorem import_only_adds_valid_backends:
  assumes "strategy \<noteq> UPDATE"
  shows "\<exists>bs rs. ac_backends (fst (import_config env strategy dry types max_backends max_registries payload cfg)) = ac_backends cfg @ bs \<and>
    ac_registries (fst (import_config env strategy dry types max_backends max_registries payload cfg)) = ac_registries cfg @ rs \<and>
    list_all (\<lambda>(n, b). valid_conf (te_paths env) (backend_to_dict b)) bs"
proof -
  define P where "P c \<longleftrightarrow> (\<exists>bs rs. ac_backends c = ac_backends cfg @ bs \<and> ac_registries c = ac_registries cfg @ rs \<and>
    list_all (\<lambda>(n, b). valid_conf (te_paths env) (backend_to_dict b)) bs)" for c :: "'a TransferConfig_scheme"
  have "P (fst (import_backends env strategy dry raw c))" if "P c" for raw c
    using that import_backends_appends [OF assms, of env dry raw c] by (auto simp: P_def import_frame list_all_append)
  moreover have "P (fst (import_registries env strategy dry raw c))" if "P c" for raw c
    using that import_registries_appends [OF assms, of env dry raw c] by (auto simp: P_def import_frame)
  moreover have "P (fst (import_feature_flags strategy dry raw c))" if "P c" for raw c
    using that by (simp add: P_def import_frame)
  moreover have "P cfg" by (auto simp: P_def)
  ultimately have "P (fst (import_config env strategy dry types max_backends max_registries payload cfg))"
    by (simp add: import_config_def Let_def case_prod_beta import_section_inv)
  then show ?thesis by (simp add: P_def)
qed

theorem import_only_adds_valid_backends_witness:
  "RENAME \<noteq> UPDATE \<and> (\<exists>bs. ac_backends (fst (import_config ex_models RENAME False None 200 50 ex_payload ex_target)) = ac_backends ex_target @ bs)"
  using import_only_adds_valid_backends [of RENAME ex_models False None 200 50 ex_payload ex_target] by auto

section \<open>Importing an export\<close>

text \<open>
  What the round trip needs of the source: names are unique, the models read back what they dump,
  and the entries are as validation leaves them.
\<close>

definition dumps_back :: "transfer_env \<Rightarrow> string \<Rightarrow> BackendConfig \<Rightarrow> bool" where
  "dumps_back env n b \<longleftrightarrow> parse_backend env n (te_dump_backend env b) = Inr b"

definition registry_dumps_back :: "transfer_env \<Rightarrow> RegistryEntryConfig \<Rightarrow> bool" where
  "registry_dumps_back env r \<longleftrightarrow>
     dict_get (te_dump_registry env r) ''name'' = Some (PStr (rg_name r)) \<and> parse_registry env (te_dump_registry env r) = Inr r"

lemma run_backends_added:
  assumes "distinct (map fst bs)" "fst ` set bs \<inter> set ns = {}" "fst ` set tb \<subseteq> set ns" "\<And>n b. (n, b) \<in> set bs \<Longrightarrow> dumps_back env n b"
  shows "run_items (import_backend env strategy False) (map (\<lambda>(n, b). (n, PDict (te_dump_backend env b))) bs) (tb, ns) =
    ((tb @ bs, ns @ map fst bs), Inr (map (\<lambda>(n, b). import_item ''backend'' n ADDED) bs))"
  using assms
proof (induction bs arbitrary: tb ns)
  case (Cons x bs)
  obtain n b where x: "x = (n, b)" by (cases x)
  have "n \<notin> fst ` set tb" "n \<notin> set ns" using Cons.prems(2,3) by (auto simp: x)
  then have "import_backend env strategy False (n, PDict (te_dump_backend env b)) (tb, ns) = ((tb @ [(n, b)], ns @ [n]), Inr (import_item ''backend'' n ADDED))"
    using Cons.prems(4) [of n b] by (simp add: x import_backend_def dumps_back_def dict_set_new)
  moreover have "fst ` set bs \<inter> set (ns @ [n]) = {}" "fst ` set (tb @ [(n, b)]) \<subseteq> set (ns @ [n])"
    using Cons.prems(1-3) by (force simp: x)+
  ultimately show ?case using Cons.IH [of "ns @ [n]" "tb @ [(n, b)]"] Cons.prems(1,4) by (simp add: x)
qed simp

lemma run_registries_added:
  assumes "distinct (map rg_name rs)" "rg_name ` set rs \<inter> set ns = {}" "\<And>r. r \<in> set rs \<Longrightarrow> registry_dumps_back env r"
  shows "run_items (import_registry env strategy False) (List.enumerate k (map (PDict \<circ> te_dump_registry env) rs)) (tr, ns) =
    ((tr @ rs, ns @ map rg_name rs), Inr (map (\<lambda>r. import_item ''registry'' (rg_name r) ADDED) rs))"
  using assms
proof (induction rs arbitrary: tr ns k)
  case (Cons r rs)
  have "import_registry env strategy False (k, PDict (te_dump_registry env r)) (tr, ns) =
      ((tr @ [r], ns @ [rg_name r]), Inr (import_item ''registry'' (rg_name r) ADDED))"
    using Cons.prems(2) Cons.prems(3) [of r] by (simp add: import_registry_def registry_dumps_back_def dict_get_or_def)
  moreover have "rg_name ` set rs \<inter> set (ns @ [rg_name r]) = {}" using Cons.prems(1,2) by force
  ultimately show ?case using Cons.IH [of "ns @ [rg_name r]" "Suc k" "tr @ [r]"] Cons.prems(1,3) by simp
qed simp

lemma run_flags_added:
  assumes "distinct (map fst fs)" "fst ` set fs \<inter> fst ` set tf = {}"
  shows "run_items (import_flag strategy False) (map (\<lambda>(n, b). (n, PBool b)) fs) tf =
    (tf @ fs, Inr (map (\<lambda>(n, b). import_item ''feature_flag'' n ADDED) fs))"
  using assms
proof (induction fs arbitrary: tf)
  case (Cons x fs)
  obtain n b where x: "x = (n, b)" by (cases x)
  have "import_flag strategy False (n, PBool b) tf = (tf @ [(n, b)], Inr (import_item ''feature_flag'' n ADDED))"
    using Cons.prems(2) by (simp add: x import_flag_def Let_def dict_set_new)
  moreover have "fst ` set fs \<inter> fst ` set (tf @ [(n, b)]) = {}" using Cons.prems by (force simp: x)
  ultimately show ?case using Cons.IH [of "tf @ [(n, b)]"] Cons.prems(1) by (simp add: x)
qed simp

text \<open>
  What was exported can be imported: importing an export that keeps the references into a
  configuration that has none of its names succeeds and adds its backends, registries and feature
  flags, all of them and in their order, whatever the strategy. Of the validation library it is
  assumed that the models read back what they dump.
\<close>

theorem export_can_be_imported:
  assumes "distinct (map fst (ac_backends cfg))" "fst ` set (ac_backends cfg) \<inter> fst ` set (ac_backends tgt) = {}"
    and "list_all (\<lambda>(n, b). dumps_back env n b) (ac_backends cfg)" "int (length (ac_backends cfg)) \<le> max_backends"
    and "distinct (map rg_name (ac_registries cfg))" "rg_name ` set (ac_registries cfg) \<inter> rg_name ` set (ac_registries tgt) = {}"
    and "list_all (registry_dumps_back env) (ac_registries cfg)" "int (length (ac_registries cfg)) \<le> max_registries"
    and "distinct (map fst (ac_feature_flags cfg))" "fst ` set (ac_feature_flags cfg) \<inter> fst ` set (ac_feature_flags tgt) = {}"
    and "snd (export_config env (Some whole_filter) PRESERVE cfg) = PDict payload"
  shows "\<exists>r. import_config env strategy False None max_backends max_registries payload tgt =
    (tgt\<lparr>ac_backends := ac_backends tgt @ ac_backends cfg, ac_registries := ac_registries tgt @ ac_registries cfg,
         ac_feature_flags := ac_feature_flags tgt @ ac_feature_flags cfg\<rparr>, Inr r) \<and> import_success r"
proof -
  let ?bs = "map (\<lambda>(n, b). (n, PDict (te_dump_backend env b))) (ac_backends cfg)"
  let ?rs = "map (PDict \<circ> te_dump_registry env) (ac_registries cfg)"
  let ?fs = "map (\<lambda>(n, b). (n, PBool b)) (ac_feature_flags cfg)"
  let ?ts = "[''backends'', ''registries'', ''feature_flags'', ''plugins'']"
  define t1 where "t1 = tgt\<lparr>ac_backends := ac_backends tgt @ ac_backends cfg\<rparr>"
  define t2 where "t2 = t1\<lparr>ac_registries := ac_registries t1 @ ac_registries cfg\<rparr>"
  have "payload = [(''version'', PStr (ac_version cfg)), (''backends'', PDict ?bs), (''registries'', PList ?rs), (''feature_flags'', PDict ?fs)]"
    using assms(11)
    by (auto simp: export_config_def export_data_def exported_backends_def whole_filter_def default_filter_def backend_matches_filter_def admits_def)
  then have p: "dict_get payload ''backends'' = Some (PDict ?bs)" "dict_get payload ''registries'' = Some (PList ?rs)"
    "dict_get payload ''feature_flags'' = Some (PDict ?fs)" by simp_all
  have b: "import_backends env strategy False (PDict ?bs) tgt = (t1, Inr (map (\<lambda>(n, b). import_item ''backend'' n ADDED) (ac_backends cfg)))"
    unfolding import_backends_def t1_def
    by (subst pyval.case) (subst run_backends_added, use assms(1-3) in \<open>auto simp: list_all_iff\<close>)
  have r: "import_registries env strategy False (PList ?rs) t1 = (t2, Inr (map (\<lambda>r. import_item ''registry'' (rg_name r) ADDED) (ac_registries cfg)))"
    unfolding import_registries_def t2_def
    by (subst pyval.case) (subst run_registries_added, use assms(5-7) in \<open>auto simp: list_all_iff t1_def\<close>)
  have f: "import_feature_flags strategy False (PDict ?fs) t2 = (t2\<lparr>ac_feature_flags := ac_feature_flags tgt @ ac_feature_flags cfg\<rparr>,
      Inr (map (\<lambda>(n, b). import_item ''feature_flag'' n ADDED) (ac_feature_flags cfg)))"
    unfolding import_feature_flags_def
    by (subst pyval.case) (subst run_flags_added, use assms(9,10) in \<open>auto simp: t1_def t2_def\<close>)
  have "validate_import_limits max_backends max_registries payload = []" using assms(4,8) by (simp add: validate_import_limits_def p)
  then have "import_config env strategy False None max_backends max_registries payload tgt =
      (t2\<lparr>ac_feature_flags := ac_feature_flags tgt @ ac_feature_flags cfg\<rparr>,
       Inr \<lparr>im_dry_run = False, im_strategy = strategy,
            im_items = map (\<lambda>(n, b). import_item ''backend'' n ADDED) (ac_backends cfg) @
              map (\<lambda>r. import_item ''registry'' (rg_name r) ADDED) (ac_registries cfg) @
              map (\<lambda>(n, b). import_item ''feature_flag'' n ADDED) (ac_feature_flags cfg), im_errors = []\<rparr>)"
    by (simp add: import_config_def Let_def import_section_def p b r f)
  then show ?thesis by (auto simp: t1_def t2_def import_success_def count_status_def filter_empty_conv)
qed

theorem export_can_be_imported_witness:
  "\<exists>r. import_config ex_models FAIL False None 200 50 ex_payload ex_target =
    (ex_target\<lparr>ac_backends := ac_backends ex_target @ ac_backends ex_source, ac_registries := ac_registries ex_target @ ac_registries ex_source,
         ac_feature_flags := ac_feature_flags ex_target @ ac_feature_flags ex_source\<rparr>, Inr r) \<and> import_success r"
proof (rule export_can_be_imported)
  show "list_all (\<lambda>(n, b). dumps_back ex_models n b) (ac_backends ex_source)" by code_simp
  show "list_all (registry_dumps_back ex_models) (ac_registries ex_source)" by code_simp
  show "snd (export_config ex_models (Some whole_filter) PRESERVE ex_source) = PDict ex_payload" by (simp add: export_config_def ex_payload_def)
qed (simp_all add: ex_source_def ex_target_def)

section \<open>Secrets in exports\<close>

lemma EXPORT_SECRET_iff: "re_match EXPORT_SECRET s = None \<longleftrightarrow> re_match SECRET_REF s = None"
proof -
  have "map fst (match_at EXPORT_SECRET s i g) = map fst (match_at SECRET_REF s i h)" for i g h
    unfolding EXPORT_SECRET_def SECRET_REF_def seq_def
    by (simp del: match_at.simps) (intro match_at_Sq match_at_fst match_at_Group [symmetric])
  then show ?thesis by (metis re_match_None)
qed

lemma texts_map_strings: "texts (map_strings f v) = map f (texts v)"
  by (induction f v rule: map_strings.induct) (auto simp: map_concat intro!: arg_cong [where f = concat])

text \<open>
  Masking hides nothing of a configuration that was loaded with its secrets: loading has put the
  secrets in the place of the references, and masking and stripping only look for references. So
  exported values are the secrets themselves, unless one happens to look like a reference.
\<close>

theorem masking_after_loading_is_void:
  assumes "resolve_secrets (\<lambda>n. Inr (st n)) True raw = Inr loaded" "\<And>n v. st n = Some v \<Longrightarrow> re_match SECRET_REF v = None"
  shows "handle_secrets MASK loaded = loaded \<and> handle_secrets STRIP loaded = loaded"
proof -
  have l: "list_all (\<lambda>n. st n \<noteq> None) (find_secret_references raw)" "loaded = map_strings (resolved_text st) raw"
    using assms(1) by (simp_all add: strict_resolution_iff)
  have "re_match EXPORT_SECRET s = None" if s: "s \<in> set (texts loaded)" for s
  proof -
    obtain t where t: "t \<in> set (texts raw)" "s = resolved_text st t" using s by (auto simp: l(2) texts_map_strings)
    show ?thesis
    proof (cases "re_match SECRET_REF t")
      case (Some n)
      then have "n \<in> set (find_secret_references raw)" using t(1) by (force simp: find_secret_references_def List.map_filter_def)
      then obtain v where "st n = Some v" using l(1) by (auto simp: list_all_iff)
      then show ?thesis using Some t(2) assms(2) [of n v] by (simp add: resolved_text_def EXPORT_SECRET_iff)
    qed (use t(2) in \<open>simp add: resolved_text_def EXPORT_SECRET_iff\<close>)
  qed
  then show ?thesis by (simp add: mask_secrets_def strip_secrets_def hide_text_def map_strings_id)
qed

theorem masking_after_loading_is_void_witness:
  "handle_secrets MASK (PDict [(''token'', PStr ''hunter2'')]) = PDict [(''token'', PStr ''hunter2'')]"
proof -
  let ?st = "\<lambda>n. if n = ''api'' then Some ''hunter2'' else None"
  have "resolve_secrets (\<lambda>n. Inr (?st n)) True (PDict [(''token'', PStr ''secret:api'')]) = Inr (PDict [(''token'', PStr ''hunter2'')])"
    by code_simp
  moreover have "re_match SECRET_REF v = None" if "?st n = Some v" for n v
  proof -
    have "v = ''hunter2''" using that by (simp split: if_splits)
    moreover have "re_match SECRET_REF ''hunter2'' = None" by code_simp
    ultimately show ?thesis by simp
  qed
  ultimately show ?thesis using masking_after_loading_is_void [of ?st] by blast
qed

section \<open>Flaws\<close>

text \<open>
  Names are not checked on import: a backend with a name that loading refuses is added, so that a
  configuration saved afterwards cannot be loaded.
\<close>

lemma import_takes_unloadable_name:
  "validate_backend_names (dict_keys (ac_backends (fst (import_config ex_models SKIP False None 200 50
     [(''backends'', PDict [('' web'', PDict [(''type'', PStr ''streamable-http''), (''url'', PStr ''https://x'')])])] ex_target)))) \<noteq> Inr ()"
  by code_simp

text \<open>The plugins of an export are not imported, although they are among the sections that are by default.\<close>

lemma plugins_are_not_imported:
  "ac_plugins (fst (import_config env strategy dry types max_backends max_registries payload cfg)) = ac_plugins cfg"
proof -
  have keeps: "ac_plugins (fst (import_backends env strategy dry raw c)) = ac_plugins c"
    "ac_plugins (fst (import_registries env strategy dry raw c)) = ac_plugins c"
    "ac_plugins (fst (import_feature_flags strategy dry raw c)) = ac_plugins c" for raw and c :: "'a TransferConfig_scheme"
    by (simp_all add: import_backends_def import_registries_def import_feature_flags_def split: pyval.split prod.split)
  show ?thesis by (simp add: import_config_def Let_def case_prod_beta import_section_keeps [of ac_plugins] keeps)
qed

text \<open>The strategy that renames backends and registries overwrites feature flags, also those of high risk.\<close>

lemma rename_overwrites_flags:
  "ac_feature_flags (fst (import_config ex_models RENAME False None 200 50 [(''feature_flags'', PDict [(''optimizer'', PBool True)])]
     (ex_target\<lparr>ac_feature_flags := [(''optimizer'', False)]\<rparr>))) = [(''optimizer'', True)]"
  by code_simp

end
