(* ===== verification/External_Plugins.thy ===== *)
theory External_Plugins
  imports Builtin_Plugins Secrets Http_Guards
begin

text \<open>
  The plugins of \<open>plugins/external/\<close>, which ask other services: the policy engines (OPA, Cedar and
  the combination of several), the scanners (LLMGuard, content moderation, VirusTotal, ClamAV).
  What a service answers is an argument, \<open>None\<close> or an exception where the request or the decoding
  of the answer fails. Numbers in metadata are kept as objects with the text they print as; a
  dash outside the characters of the model is written as a hyphen. What a hook writes before it
  raises is lost and left out, as for the built-in plugins.
\<close>

section \<open>Policy engines\<close>

text \<open>What is sent of the arguments: nested at most five levels deep.\<close>

fun sanitize :: "nat \<Rightarrow> pyval \<Rightarrow> pyval" where
  "sanitize d (PDict kvs) = (if 5 \<le> d then PStr ''<truncated>'' else PDict (map (\<lambda>kv. (fst kv, sanitize (d + 1) (snd kv))) kvs))"
| "sanitize d (PList vs) = (if 5 \<le> d then PStr ''<truncated>'' else PList (map (sanitize (d + 1)) vs))"
| "sanitize d (PObj c s) = (if 5 \<le> d then PStr ''<truncated>'' else PStr s)"
| "sanitize d v = (if 5 \<le> d then PStr ''<truncated>'' else v)"

definition verdict :: "bool \<Rightarrow> pyval" where
  "verdict allowed = PStr (if allowed then ''allow'' else ''deny'')"

text \<open>An answer of the program's own kind: allow, deny, or anything else, which leaves it to the default.\<close>

definition says_allow :: "string \<Rightarrow> bool" where
  "says_allow s \<longleftrightarrow> concat (map upper_text s) = ''ALLOW''"

subsection \<open>OPA\<close>

definition opa_input :: "string \<Rightarrow> PluginContext \<Rightarrow> pyval" where
  "opa_input phase ctx =
     PDict [(''input'', PDict [(''capability'', PStr (pc_capability ctx)), (''method'', PStr (pc_method ctx)), (''server'', PStr (pc_server ctx)),
        (''phase'', PStr phase), (''arguments'', sanitize 0 (PDict (pc_arguments ctx)))])]"

definition opa_decision :: "bool \<Rightarrow> pyval option \<Rightarrow> bool" where
  "opa_decision dflt answer =
     (case answer of
        Some (PDict data) \<Rightarrow>
          (case dict_get data ''result'' of
             Some (PBool b) \<Rightarrow> b
           | Some (PDict r) \<Rightarrow> py_truthy (dict_get_or (PBool dflt) r ''allow'')
           | _ \<Rightarrow> dflt)
      | _ \<Rightarrow> dflt)"

definition opa_evaluate :: "(pyval \<Rightarrow> pyval option) option \<Rightarrow> bool \<Rightarrow> string \<Rightarrow> hook" where
  "opa_evaluate client dflt phase ctx =
     (let allowed = (case client of None \<Rightarrow> dflt | Some post \<Rightarrow> opa_decision dflt (post (opa_input phase ctx)))
      in if allowed then Inr (put (''opa_'' @ phase) (verdict True) ctx)
         else Inl (ValueError (''OPA policy denied: '' @ pc_capability ctx @ '' ('' @ phase @ '', server='' @ pc_server ctx @ '')'')))"

subsection \<open>Cedar\<close>

definition or_text :: "string \<Rightarrow> string \<Rightarrow> string" where
  "or_text s d = (if s = [] then d else s)"

definition cedar_request :: "string option \<Rightarrow> string \<Rightarrow> PluginContext \<Rightarrow> pyval" where
  "cedar_request policy_store phase ctx =
     PDict ([(''principal'', PDict [(''entityType'', PStr ''Argus::Client''), (''entityId'', PStr (or_text (pc_server ctx) ''anonymous''))]),
        (''action'', PDict [(''actionType'', PStr ''Argus::Action''), (''actionId'', PStr phase)]),
        (''resource'', PDict [(''entityType'', PStr ''Argus::Capability''), (''entityId'', PStr (or_text (pc_capability ctx) ''unknown''))]),
        (''context'', PDict [(''method'', PStr (pc_method ctx)), (''server'', PStr (pc_server ctx))])] @
      (case policy_store of Some s \<Rightarrow> if s = [] then [] else [(''policyStoreId'', PStr s)] | None \<Rightarrow> []))"

definition cedar_decision :: "bool \<Rightarrow> pyval option \<Rightarrow> bool" where
  "cedar_decision dflt answer =
     (case answer of
        Some (PDict data) \<Rightarrow>
          (case dict_get_or (dict_get_or PNone data ''isAuthorized'') data ''decision'' of
             PStr s \<Rightarrow> says_allow s
           | PBool b \<Rightarrow> b
           | _ \<Rightarrow> dflt)
      | _ \<Rightarrow> dflt)"

definition cedar_evaluate :: "(pyval \<Rightarrow> pyval option) option \<Rightarrow> string option \<Rightarrow> bool \<Rightarrow> string \<Rightarrow> hook" where
  "cedar_evaluate client policy_store dflt phase ctx =
     (let allowed = (case client of None \<Rightarrow> dflt | Some post \<Rightarrow> cedar_decision dflt (post (cedar_request policy_store phase ctx)))
      in if allowed then Inr (put (''cedar_'' @ phase) (verdict True) ctx)
         else Inl (ValueError (''Cedar policy denied: '' @ pc_capability ctx @ '' ('' @ phase @ '', server='' @ pc_server ctx @ '')'')))"

subsection \<open>Several engines\<close>

record pdp_engine =
  en_name :: string
  en_url :: string
  en_path :: string
  en_api_key :: string

record UnifiedPDP =
  up_engines :: "pdp_engine list"
  up_mode :: string
  up_cache_ttl :: int
  up_default :: bool
  up_loaded :: bool
  up_cache :: "(string, rat \<times> bool) dict"

text \<open>A request to an engine: where it goes, with which headers and what it says.\<close>

record pdp_request =
  pq_endpoint :: string
  pq_headers :: "(string, string) dict"
  pq_payload :: pyval

record pdp_answer =
  pa_engine :: string
  pa_allow :: bool
  pa_error :: "string option"

definition new_pdp :: "(pdp_engine \<times> bool) list \<Rightarrow> string \<Rightarrow> int \<Rightarrow> bool \<Rightarrow> UnifiedPDP" where
  "new_pdp engines mode ttl dflt =
     \<lparr>up_engines = map fst (filter snd engines), up_mode = mode, up_cache_ttl = ttl, up_default = dflt, up_loaded = False, up_cache = []\<rparr>"

definition pdp_on_load :: "UnifiedPDP \<Rightarrow> UnifiedPDP" where
  "pdp_on_load p = (if up_engines p = [] then p else p\<lparr>up_loaded := True\<rparr>)"

definition pdp_on_unload :: "UnifiedPDP \<Rightarrow> UnifiedPDP" where
  "pdp_on_unload p = p\<lparr>up_loaded := False, up_cache := []\<rparr>"

definition pdp_query :: "pdp_engine \<Rightarrow> string \<Rightarrow> PluginContext \<Rightarrow> pdp_request" where
  "pdp_query e phase ctx =
     \<lparr>pq_endpoint = (if en_path e = [] then en_url e
                     else rstrip_by (\<lambda>c. c = CHR ''/'') (en_url e) @ ''/'' @ lstrip_by (\<lambda>c. c = CHR ''/'') (en_path e)),
      pq_headers = (if en_api_key e = [] then [] else [(''Authorization'', ''Bearer '' @ en_api_key e)]),
      pq_payload = PDict [(''input'', PDict [(''capability'', PStr (pc_capability ctx)), (''method'', PStr (pc_method ctx)),
         (''server'', PStr (pc_server ctx)), (''phase'', PStr phase)])]\<rparr>"

definition pdp_decision :: "bool \<Rightarrow> (string, pyval) dict \<Rightarrow> bool" where
  "pdp_decision dflt data =
     (case dict_get_or (dict_get_or (dict_get_or PNone data ''allow'') data ''decision'') data ''result'' of
        PBool b \<Rightarrow> b
      | PStr s \<Rightarrow> says_allow s
      | PDict r \<Rightarrow> py_truthy (dict_get_or (PBool dflt) r ''allow'')
      | _ \<Rightarrow> dflt)"

definition query_single :: "(pdp_request \<Rightarrow> pyval res) \<Rightarrow> bool \<Rightarrow> string \<Rightarrow> PluginContext \<Rightarrow> pdp_engine \<Rightarrow> pdp_answer" where
  "query_single post dflt phase ctx e =
     (case post (pdp_query e phase ctx) of
        Inr (PDict data) \<Rightarrow> \<lparr>pa_engine = en_name e, pa_allow = pdp_decision dflt data, pa_error = None\<rparr>
      | Inr v \<Rightarrow> \<lparr>pa_engine = en_name e, pa_allow = dflt, pa_error = Some (repr_str (type_name v) @ '' object has no attribute '' @ repr_str ''get'')\<rparr>
      | Inl x \<Rightarrow> \<lparr>pa_engine = en_name e, pa_allow = dflt, pa_error = Some (exn_str x)\<rparr>)"

definition query_engines :: "(pdp_request \<Rightarrow> pyval res) \<Rightarrow> UnifiedPDP \<Rightarrow> string \<Rightarrow> PluginContext \<Rightarrow> pdp_answer list" where
  "query_engines post p phase ctx = (if up_loaded p then map (query_single post (up_default p) phase ctx) (up_engines p) else [])"

definition combine :: "UnifiedPDP \<Rightarrow> pdp_answer list \<Rightarrow> bool" where
  "combine p decisions =
     (if decisions = [] then up_default p
      else if up_mode p = ''any_allow'' then list_ex pa_allow decisions
      else if up_mode p = ''first_match'' then pa_allow (hd decisions)
      else list_all pa_allow decisions)"

definition pdp_key :: "string \<Rightarrow> PluginContext \<Rightarrow> string" where
  "pdp_key phase ctx = pc_server ctx @ '':'' @ pc_capability ctx @ '':'' @ phase"

definition answer_dict :: "pdp_answer \<Rightarrow> pyval" where
  "answer_dict a = PDict ([(''engine'', PStr (pa_engine a)), (''allow'', PBool (pa_allow a))] @
     (case pa_error a of None \<Rightarrow> [] | Some m \<Rightarrow> [(''error'', PStr m)]))"

text \<open>\<open>now\<close> is the clock when the cache is looked up, \<open>later\<close> when a new decision is stored.\<close>

definition pdp_cached :: "rat \<Rightarrow> UnifiedPDP \<Rightarrow> string \<Rightarrow> bool option" where
  "pdp_cached now p key =
     (case dict_get (up_cache p) key of
        Some (ts, decision) \<Rightarrow> if now - ts < of_int (up_cache_ttl p) then Some decision else None
      | None \<Rightarrow> None)"

definition pdp_decide :: "(pdp_request \<Rightarrow> pyval res) \<Rightarrow> rat \<Rightarrow> rat \<Rightarrow> UnifiedPDP \<Rightarrow> string \<Rightarrow> PluginContext \<Rightarrow> UnifiedPDP \<times> PluginContext res" where
  "pdp_decide post now later p phase ctx =
     (case pdp_cached now p (pdp_key phase ctx) of
        Some decision \<Rightarrow>
          (p, if decision then Inr (put (''pdp_'' @ phase) (PStr ''allow(cached)'') ctx)
              else Inl (ValueError (''Unified PDP denied (cached): '' @ pc_capability ctx @ '' ('' @ phase @ '')'')))
      | None \<Rightarrow>
          (let decisions = query_engines post p phase ctx; allowed = combine p decisions
           in (p\<lparr>up_cache := dict_set (pdp_key phase ctx) (later, allowed) (up_cache p)\<rparr>,
               if allowed then Inr (put (''pdp_'' @ phase @ ''_details'') (PList (map answer_dict decisions)) (put (''pdp_'' @ phase) (PStr ''allow'') ctx))
               else Inl (ValueError (''Unified PDP denied: '' @ pc_capability ctx @ '' ('' @ phase @ '') - denied by: '' @
                      join_with '', '' (map pa_engine (filter (\<lambda>d. \<not> pa_allow d) decisions)))))))"

section \<open>Scanners\<close>

definition text_arg :: "PluginContext \<Rightarrow> string \<Rightarrow> string option" where
  "text_arg ctx k = (case dict_get (pc_arguments ctx) k of Some (PStr s) \<Rightarrow> Some s | _ \<Rightarrow> None)"

definition py_float :: "(rat \<Rightarrow> string) \<Rightarrow> rat \<Rightarrow> pyval" where
  "py_float show x = PObj ''float'' (show x)"

subsection \<open>LLMGuard\<close>

record LLMGuard =
  lg_threshold :: rat
  lg_block :: bool
  lg_show :: "rat \<Rightarrow> string"
  lg_show2 :: "rat \<Rightarrow> string"

text \<open>The first of the named arguments that is a text, also when it is empty; else all texts.\<close>

definition llm_extract_text :: "PluginContext \<Rightarrow> string" where
  "llm_extract_text ctx =
     (case List.map_filter (text_arg ctx) [''prompt'', ''text'', ''message'', ''content'', ''query''] of
        s # ss \<Rightarrow> s
      | [] \<Rightarrow> join_with '' '' (concat (map (\<lambda>(k, v). case v of PStr s \<Rightarrow> [s] | _ \<Rightarrow> []) (pc_arguments ctx))))"

fun llm_scan :: "LLMGuard \<Rightarrow> string \<Rightarrow> (string \<times> rat) list \<Rightarrow> hook" where
  "llm_scan p phase [] ctx = Inr ctx"
| "llm_scan p phase ((scanner, score) # items) ctx =
     (if lg_threshold p \<le> score
      then if lg_block p
           then Inl (ValueError (''LLMGuard: '' @ scanner @ '' detected (score='' @ lg_show2 p score @ '', threshold='' @ lg_show2 p (lg_threshold p) @
                  '') during '' @ phase))
           else llm_scan p phase items (put (''llmguard_'' @ scanner @ ''_'' @ phase) (py_float (lg_show p) score) ctx)
      else llm_scan p phase items ctx)"

text \<open>\<open>analyze\<close> is \<open>None\<close> before the plugin is loaded; it returns \<open>None\<close> when the service fails.\<close>

definition llm_guard :: "LLMGuard \<Rightarrow> (string \<Rightarrow> (string \<times> rat) list option) option \<Rightarrow> string \<Rightarrow> string \<Rightarrow> hook" where
  "llm_guard p analyze phase text ctx =
     (case analyze of
        None \<Rightarrow> Inr ctx
      | Some f \<Rightarrow> (case f text of None \<Rightarrow> Inr ctx | Some items \<Rightarrow> llm_scan p phase items ctx))"

definition llm_pre_fetch :: "LLMGuard \<Rightarrow> (string \<Rightarrow> (string \<times> rat) list option) option \<Rightarrow> hook" where
  "llm_pre_fetch p analyze ctx =
     (if llm_extract_text ctx = [] then Inr ctx else llm_guard p analyze ''pre_fetch'' (llm_extract_text ctx) ctx)"

definition llm_post_fetch :: "LLMGuard \<Rightarrow> (string \<Rightarrow> (string \<times> rat) list option) option \<Rightarrow> hook" where
  "llm_post_fetch p analyze ctx =
     (case result_text ctx of Some s \<Rightarrow> if s = [] then Inr ctx else llm_guard p analyze ''post_fetch'' s ctx | None \<Rightarrow> Inr ctx)"

subsection \<open>Content moderation\<close>

definition DEFAULT_CATEGORIES :: "string list" where
  "DEFAULT_CATEGORIES = [''hate'', ''violence'', ''sexual'', ''self-harm'', ''harassment'', ''spam'', ''profanity'', ''toxicity'']"

text \<open>
  The services: the scores of every result, the categories with their severities, the text of a
  model. \<open>mo_order\<close> is the order in which the set of categories is walked.
\<close>

record moderation_api =
  mo_openai :: "string \<Rightarrow> (string \<times> rat) list list option"
  mo_azure :: "string \<Rightarrow> (string \<times> rat) list option"
  mo_granite :: "string \<Rightarrow> string option"
  mo_order :: "string list"

record ContentModeration =
  mp_provider :: string
  mp_threshold :: rat
  mp_categories :: "string list"
  mp_action :: string
  mp_show :: "rat \<Rightarrow> string"

definition normalized_category :: "string \<Rightarrow> string" where
  "normalized_category cat = replace_char (CHR ''_'') (CHR ''-'') (replace_char (CHR ''/'') (CHR ''-'') cat)"

definition call_provider :: "moderation_api \<Rightarrow> string \<Rightarrow> string \<Rightarrow> (string \<times> rat) list" where
  "call_provider api prov text =
     (if prov = ''openai''
      then (case mo_openai api text of None \<Rightarrow> [] | Some rs \<Rightarrow> map (\<lambda>(c, s). (normalized_category c, s)) (concat rs))
      else if prov = ''azure''
      then (case mo_azure api text of None \<Rightarrow> [] | Some cs \<Rightarrow> map (\<lambda>(c, s). (str_lower c, s / 6)) cs)
      else if prov = ''granite''
      then (case mo_granite api text of
              None \<Rightarrow> []
            | Some response \<Rightarrow> map (\<lambda>c. (c, 1)) (filter (\<lambda>c. str_contains c (str_lower response)) (mo_order api)))
      else [])"

definition moderate :: "moderation_api option \<Rightarrow> ContentModeration \<Rightarrow> string \<Rightarrow> string \<Rightarrow> hook" where
  "moderate client p phase text ctx =
     (case client of
        None \<Rightarrow> Inr ctx
      | Some api \<Rightarrow>
          (let triggered = filter (\<lambda>(c, s). c \<in> set (mp_categories p) \<and> mp_threshold p \<le> s) (call_provider api (mp_provider p) text)
           in if triggered = [] then Inr ctx
              else if mp_action p = ''block''
              then Inl (ValueError (''Content moderation: flagged categories - '' @ join_with '', '' (map fst triggered)))
              else Inr (put (''moderation_'' @ phase)
                     (PList (map (\<lambda>(c, s). PDict [(''category'', PStr c), (''score'', py_float (mp_show p) s)]) triggered)) ctx)))"

definition moderated_text :: "PluginContext \<Rightarrow> string option" where
  "moderated_text ctx =
     (case filter (\<lambda>s. s \<noteq> []) (List.map_filter (text_arg ctx) [''prompt'', ''text'', ''message'', ''content'', ''query'', ''input'']) of
        s # ss \<Rightarrow> Some s | [] \<Rightarrow> None)"

definition moderation_pre :: "moderation_api option \<Rightarrow> ContentModeration \<Rightarrow> string \<Rightarrow> hook" where
  "moderation_pre client p phase ctx = (case moderated_text ctx of Some s \<Rightarrow> moderate client p phase s ctx | None \<Rightarrow> Inr ctx)"

definition moderation_post :: "moderation_api option \<Rightarrow> ContentModeration \<Rightarrow> hook" where
  "moderation_post client p ctx =
     (case result_text ctx of Some s \<Rightarrow> if s = [] then Inr ctx else moderate client p ''tool_post_invoke'' s ctx | None \<Rightarrow> Inr ctx)"

subsection \<open>VirusTotal\<close>

record VirusTotal =
  vt_threshold :: int
  vt_cache_ttl :: int
  vt_allow_list :: "string list"
  vt_deny_list :: "string list"
  vt_loaded :: bool
  vt_cache :: "(string, rat \<times> int) dict"

definition URL_PATTERN :: regex where
  "URL_PATTERN = seq [ilit ''http'', opt (ilit ''s''), lit ''://'', plus (Cls (\<lambda>c. \<not> is_space c \<and> code c \<notin> {34, 39, 60, 62, 93, 41, 125, 123, 44}))]"

text \<open>\<open>findall\<close> from a position on, for expressions that match no empty string.\<close>

function findall_from :: "regex \<Rightarrow> string \<Rightarrow> nat \<Rightarrow> string list" where
  "findall_from r s i =
     (if length s \<le> i then []
      else case first_match r s i of
             Some (j, g) \<Rightarrow> if i < j then drop i (take j s) # findall_from r s j else findall_from r s (Suc i)
           | None \<Rightarrow> findall_from r s (Suc i))"
  by auto
termination
  by (relation "measure (\<lambda>(r, s, i). length s - i)") auto

declare findall_from.simps [simp del]

text \<open>\<open>urlparse(url).netloc.lower()\<close>, empty when the address cannot be parsed.\<close>

definition extract_domain :: "(string \<Rightarrow> bool) \<Rightarrow> string \<Rightarrow> string" where
  "extract_domain ipv6 url = (if url_hostname ipv6 url = None then [] else str_lower (url_netloc url))"

text \<open>What the service says of an address: nothing known, no answer, or a number of detections.\<close>

datatype vt_answer = VtUnknown | VtFails | VtDetections int

definition vt_lookup :: "(string \<Rightarrow> vt_answer) \<Rightarrow> rat \<times> rat \<Rightarrow> VirusTotal \<Rightarrow> string \<Rightarrow> VirusTotal \<times> int option" where
  "vt_lookup fetch readings p url =
     (case (case dict_get (vt_cache p) url of
              Some (ts, detections) \<Rightarrow> if fst readings - ts < of_int (vt_cache_ttl p) then Some detections else None
            | None \<Rightarrow> None) of
        Some detections \<Rightarrow> (p, Some detections)
      | None \<Rightarrow>
          (if \<not> vt_loaded p then (p, None)
           else case fetch url of
                  VtDetections n \<Rightarrow> (p\<lparr>vt_cache := dict_set url (snd readings, n) (vt_cache p)\<rparr>, Some n)
                | _ \<Rightarrow> (p, None)))"

definition check_url ::
    "(string \<Rightarrow> vt_answer) \<Rightarrow> (string \<Rightarrow> bool) \<Rightarrow> rat \<times> rat \<Rightarrow> VirusTotal \<Rightarrow> string \<Rightarrow> VirusTotal \<times> unit res" where
  "check_url fetch ipv6 readings p url =
     (let domain = extract_domain ipv6 url
      in if domain \<in> set (vt_allow_list p) \<or> url \<in> set (vt_allow_list p) then (p, Inr ())
         else if domain \<in> set (vt_deny_list p) \<or> url \<in> set (vt_deny_list p)
         then (p, Inl (ValueError (''VirusTotal: URL on deny list: '' @ domain)))
         else case vt_lookup fetch readings p url of
                (p', Some n) \<Rightarrow>
                  (p', if vt_threshold p \<le> n
                       then Inl (ValueError (''VirusTotal: '' @ show_int n @ '' detections for '' @ domain @ '' (threshold='' @ show_int (vt_threshold p) @ '')''))
                       else Inr ())
              | (p', None) \<Rightarrow> (p', Inr ()))"

fun check_urls ::
    "(string \<Rightarrow> vt_answer) \<Rightarrow> (string \<Rightarrow> bool) \<Rightarrow> (string \<times> rat \<times> rat) list \<Rightarrow> VirusTotal \<Rightarrow> VirusTotal \<times> unit res" where
  "check_urls fetch ipv6 [] p = (p, Inr ())"
| "check_urls fetch ipv6 ((url, readings) # rest) p =
     (case check_url fetch ipv6 readings p url of
        (p', Inl e) \<Rightarrow> (p', Inl e)
      | (p', Inr u) \<Rightarrow> check_urls fetch ipv6 rest p')"

text \<open>\<open>clock\<close> gives the readings of each check in turn.\<close>

definition vt_post :: "(string \<Rightarrow> vt_answer) \<Rightarrow> (string \<Rightarrow> bool) \<Rightarrow> (nat \<Rightarrow> rat \<times> rat) \<Rightarrow> VirusTotal \<Rightarrow> PluginContext \<Rightarrow> VirusTotal \<times> PluginContext res" where
  "vt_post fetch ipv6 clock p ctx =
     (case result_text ctx of
        None \<Rightarrow> (p, Inr ctx)
      | Some s \<Rightarrow>
          (case check_urls fetch ipv6 (map (\<lambda>(i, u). (u, clock i)) (List.enumerate 0 (take 10 (findall_from URL_PATTERN s 0)))) p of
             (p', r) \<Rightarrow> (p', map_sum id (\<lambda>u. ctx) r)))"

definition vt_resource_pre_fetch :: "(string \<Rightarrow> vt_answer) \<Rightarrow> (string \<Rightarrow> bool) \<Rightarrow> rat \<times> rat \<Rightarrow> VirusTotal \<Rightarrow> PluginContext \<Rightarrow> VirusTotal \<times> PluginContext res" where
  "vt_resource_pre_fetch fetch ipv6 readings p ctx =
     (case text_arg ctx ''uri'' of
        Some uri \<Rightarrow>
          (if starts_with ''http'' uri then (case check_url fetch ipv6 readings p uri of (p', r) \<Rightarrow> (p', map_sum id (\<lambda>u. ctx) r)) else (p, Inr ctx))
      | None \<Rightarrow> (p, Inr ctx))"

subsection \<open>ClamAV\<close>

text \<open>
  A message to the daemon is a list of bytes: the command, the data in chunks of at most 8192
  bytes, each after its length as four bytes, and a length of zero.
\<close>

definition INSTREAM_CMD :: "nat list" where
  "INSTREAM_CMD = map code ''zINSTREAM'' @ [0]"

definition MAX_CHUNK :: nat where
  "MAX_CHUNK = 8192"

definition to_bytes4 :: "nat \<Rightarrow> nat list" where
  "to_bytes4 n = [n div 16777216 mod 256, n div 65536 mod 256, n div 256 mod 256, n mod 256]"

function chunks :: "nat list \<Rightarrow> nat list" where
  "chunks data =
     (if data = [] then [] else to_bytes4 (length (take MAX_CHUNK data)) @ take MAX_CHUNK data @ chunks (drop MAX_CHUNK data))"
  by auto
termination
  by (relation "measure length") (auto simp: MAX_CHUNK_def)

declare chunks.simps [simp del]

definition instream :: "nat list \<Rightarrow> nat list" where
  "instream data = INSTREAM_CMD @ chunks data @ [0, 0, 0, 0]"

record ClamAV =
  ca_max_scan_bytes :: int
  ca_block :: bool

text \<open>\<open>clamd\<close> gives the text of the answer to a message, or \<open>None\<close> when the daemon cannot be asked.\<close>

definition clam_scan :: "(nat list \<Rightarrow> string option) \<Rightarrow> ClamAV \<Rightarrow> string \<Rightarrow> nat list \<Rightarrow> hook" where
  "clam_scan clamd p phase data ctx =
     (case clamd (instream (py_take (ca_max_scan_bytes p) data)) of
        None \<Rightarrow> Inr ctx
      | Some answer \<Rightarrow>
          (let trim = (\<lambda>c. code c \<in> {0, 10, 13, 32}); result = rstrip_by trim (lstrip_by trim answer)
           in if starts_with ''stream: '' result \<and> str_contains ''FOUND'' result
              then let virus = sub (lit '' FOUND'') [] (drop 8 result)
                   in if ca_block p then Inl (ValueError (''ClamAV: malware detected - '' @ virus))
                      else Inr (put (''clamav_'' @ phase) (PStr virus) ctx)
              else Inr ctx))"

definition clam_content :: "PluginContext \<Rightarrow> nat list" where
  "clam_content ctx =
     (case filter (\<lambda>s. s \<noteq> []) (List.map_filter (text_arg ctx) [''content'', ''data'', ''body'', ''payload'']) of s # ss \<Rightarrow> utf8 s | [] \<Rightarrow> [])"

definition clam_pre_fetch :: "(nat list \<Rightarrow> string option) \<Rightarrow> ClamAV \<Rightarrow> hook" where
  "clam_pre_fetch clamd p ctx = (if clam_content ctx = [] then Inr ctx else clam_scan clamd p ''resource_pre_fetch'' (clam_content ctx) ctx)"

definition clam_post_invoke :: "(nat list \<Rightarrow> string option) \<Rightarrow> ClamAV \<Rightarrow> hook" where
  "clam_post_invoke clamd p ctx =
     (case result_text ctx of
        Some s \<Rightarrow> if s = [] then Inr ctx else clam_scan clamd p ''tool_post_invoke'' (utf8 s) ctx
      | None \<Rightarrow> Inr ctx)"

end
