(* ===== verification/External_Properties.thy ===== *)
theory External_Properties
  imports External_Plugins
begin

text \<open>
  Properties of the external plugins: what a policy engine stops, how old a decision can be, what
  reaches the virus scanner, and what the scanners never see.
\<close>

section \<open>Policy engines\<close>

text \<open>
  What OPA and Cedar have in common: the answer to the request decides, without an answer the
  default does, and a request that passes is changed in its metadata only.
\<close>

locale policy_engine =
  fixes evaluate :: "(pyval \<Rightarrow> pyval option) option \<Rightarrow> bool \<Rightarrow> string \<Rightarrow> hook"
    and decision :: "bool \<Rightarrow> pyval option \<Rightarrow> bool"
    and request :: "string \<Rightarrow> PluginContext \<Rightarrow> pyval"
  assumes denies: "\<not> decision d (post (request phase ctx)) \<Longrightarrow> \<exists>e. evaluate (Some post) d phase ctx = Inl e"
    and allows: "decision d (post (request phase ctx)) \<Longrightarrow> \<exists>m. evaluate (Some post) d phase ctx = Inr (ctx\<lparr>pc_metadata := m\<rparr>)"
    and unanswered: "decision d None = d"
begin

lemma no_answer_fails_closed:
  assumes "\<And>q. post q = None"
  shows "\<exists>e. evaluate (Some post) False phase ctx = Inl e"
  by (rule denies) (simp add: assms unanswered)

lemma no_answer_fails_open:
  assumes "\<And>q. post q = None"
  shows "\<exists>m. evaluate (Some post) True phase ctx = Inr (ctx\<lparr>pc_metadata := m\<rparr>)"
  by (rule allows) (simp add: assms unanswered)

end

interpretation opa: policy_engine opa_evaluate opa_decision opa_input
  by unfold_locales (auto simp: opa_evaluate_def put_def opa_decision_def)

interpretation cedar: policy_engine "\<lambda>client. cedar_evaluate client store" cedar_decision "cedar_request store" for store
  by unfold_locales (auto simp: cedar_evaluate_def put_def cedar_decision_def)

text \<open>
  Policy engines fail closed when they are told to: with OPA or Cedar as an enforcing plugin whose
  default is to deny, a request that the plugin applies to goes no further while the engine does
  not answer, whatever the other plugins do. Nothing has changed then.
\<close>

theorem silent_policy_engine_blocks:
  fixes nxt :: "'w handler"
  assumes "dict_get PRE_HOOKS (mcp_method ctx) = Some h" "p \<in> set (get_by_hook h reg)" "execution_mode (pl_config p) = enforce"
    and "dict_get (pl_hooks p) h \<in> {Some (opa_evaluate (Some post) False h), Some (cedar_evaluate (Some post) store False h)}"
    and "\<And>q. post q = None"
    and "matches_conditions (conditions (pl_config p)) (capability_name ctx) (str_or (server_name ctx) []) (mcp_method ctx)"
    and "capability_name ctx \<noteq> []"
  shows "\<exists>e. PluginMiddleware reg nxt w ctx = (w, ctx, Inl e)"
proof (rule enforced_hook_blocks [OF assms(1-3) _ assms(6,7)])
  show "\<exists>e. the (dict_get (pl_hooks p) h) c = Inl e" for c
    using assms(4) opa.no_answer_fails_closed [OF assms(5)] cedar.no_answer_fails_closed [OF assms(5)] by auto
qed

definition ex_opa :: plugin where
  "ex_opa = \<lparr>pl_config = pl_config (ex_guard []), pl_hooks = [(''tool_pre_invoke'', opa_evaluate (Some (\<lambda>q. None)) False ''tool_pre_invoke'')]\<rparr>"

definition ex_policed :: PluginRegistry where
  "ex_policed = \<lparr>plugins = [(''opa_policy'', ex_opa)], load_order = [''opa_policy'']\<rparr>"

theorem silent_policy_engine_blocks_witness:
  "\<exists>e. PluginMiddleware ex_policed (\<lambda>w c. (Suc w, c, Inr (CallToolResult PNone False))) (0::nat) ex_call = (0, ex_call, Inl e)"
  by (rule silent_policy_engine_blocks [where h = "''tool_pre_invoke''" and p = ex_opa and post = "\<lambda>q. None" and store = None])
    (simp_all add: ex_policed_def get_by_hook_def BASE_HOOKS_def ex_opa_def ex_call_def new_context_def PRE_HOOKS_def ex_guard_def matches_conditions_def)

section \<open>The age of decisions\<close>

record pdp_event =
  pv_post :: "pdp_request \<Rightarrow> pyval res"
  pv_now :: rat
  pv_later :: rat
  pv_phase :: string
  pv_ctx :: PluginContext

definition pdp_step :: "pdp_event \<Rightarrow> UnifiedPDP \<Rightarrow> UnifiedPDP \<times> PluginContext res" where
  "pdp_step e p = pdp_decide (pv_post e) (pv_now e) (pv_later e) p (pv_phase e) (pv_ctx e)"

definition pdp_run :: "pdp_event list \<Rightarrow> UnifiedPDP \<Rightarrow> UnifiedPDP" where
  "pdp_run es p = fold (\<lambda>e p. fst (pdp_step e p)) es p"

text \<open>What the engines say to an event, combined as the settings of \<open>p\<close> ask.\<close>

definition engines_allow :: "UnifiedPDP \<Rightarrow> pdp_event \<Rightarrow> bool" where
  "engines_allow p e = combine p (query_engines (pv_post e) p (pv_phase e) (pv_ctx e))"

definition event_key :: "pdp_event \<Rightarrow> string" where
  "event_key e = pdp_key (pv_phase e) (pv_ctx e)"

definition backed :: "UnifiedPDP \<Rightarrow> pdp_event list \<Rightarrow> UnifiedPDP \<Rightarrow> bool" where
  "backed p0 es p \<longleftrightarrow> (\<exists>c. p = p0\<lparr>up_cache := c\<rparr>) \<and>
     (\<forall>k ts d. dict_get (up_cache p) k = Some (ts, d) \<longrightarrow>
        (\<exists>e \<in> set es. event_key e = k \<and> pv_later e = ts \<and> d = engines_allow p0 e))"

lemma engines_allow_cache [simp]: "engines_allow (p\<lparr>up_cache := c\<rparr>) e = engines_allow p e"
  by (simp add: engines_allow_def combine_def query_engines_def)

lemma pdp_step_cases:
  obtains d where "pdp_cached (pv_now e) p (event_key e) = Some d" "fst (pdp_step e p) = p" "isl (snd (pdp_step e p)) \<longleftrightarrow> \<not> d"
  | "pdp_cached (pv_now e) p (event_key e) = None" "isl (snd (pdp_step e p)) \<longleftrightarrow> \<not> engines_allow p e"
    "fst (pdp_step e p) = p\<lparr>up_cache := dict_set (event_key e) (pv_later e, engines_allow p e) (up_cache p)\<rparr>"
  by (cases "pdp_cached (pv_now e) p (event_key e)")
    (auto simp: pdp_step_def pdp_decide_def Let_def engines_allow_def event_key_def)

lemma backed_step:
  assumes "backed p0 es p"
  shows "backed p0 (es @ [e]) (fst (pdp_step e p))"
proof (cases rule: pdp_step_cases [of e p])
  case (1 d)
  then show ?thesis using assms by (auto simp: backed_def)
next
  case 2
  obtain c where c: "p = p0\<lparr>up_cache := c\<rparr>" using assms by (auto simp: backed_def)
  then have "engines_allow p e = engines_allow p0 e" by simp
  then show ?thesis unfolding 2(3) using assms c by (auto simp: backed_def)
qed

lemma backed_run: "up_cache p = [] \<Longrightarrow> backed p es (pdp_run es p)"
proof (induction es rule: rev_induct)
  case Nil
  then show ?case by (auto simp: backed_def pdp_run_def intro!: exI [of _ "[]"])
next
  case (snoc e es)
  then show ?case using backed_step [of p es "pdp_run es p" e] by (simp add: pdp_run_def)
qed

text \<open>The cache key determines server, capability and phase when neither server names nor phases have a colon.\<close>

definition colon_free :: "pdp_event \<Rightarrow> bool" where
  "colon_free e \<longleftrightarrow> CHR '':'' \<notin> set (pc_server (pv_ctx e)) \<and> CHR '':'' \<notin> set (pv_phase e)"

lemma split_at_first:
  "c \<notin> set a \<Longrightarrow> c \<notin> set b \<Longrightarrow> a @ c # xs = b @ c # ys \<longleftrightarrow> a = b \<and> xs = ys"
proof (induction a arbitrary: b)
  case Nil
  then show ?case by (cases b) auto
next
  case (Cons x a)
  then show ?case by (cases b) auto
qed

lemma event_key_parts:
  assumes "colon_free e" "colon_free e'" "event_key e = event_key e'"
  shows "pc_server (pv_ctx e) = pc_server (pv_ctx e') \<and> pc_capability (pv_ctx e) = pc_capability (pv_ctx e') \<and> pv_phase e = pv_phase e'"
proof -
  let ?tail = "\<lambda>e. pc_capability (pv_ctx e) @ CHR '':'' # pv_phase e"
  have s: "pc_server (pv_ctx e) = pc_server (pv_ctx e')" "?tail e = ?tail e'"
    using assms split_at_first [of "CHR '':''" "pc_server (pv_ctx e)" "pc_server (pv_ctx e')" "?tail e" "?tail e'"]
    by (simp_all add: colon_free_def event_key_def pdp_key_def)
  have "rev (pv_phase e) @ CHR '':'' # rev (pc_capability (pv_ctx e)) = rev (pv_phase e') @ CHR '':'' # rev (pc_capability (pv_ctx e'))"
    using arg_cong [OF s(2), of rev] by simp
  then show ?thesis
    using s(1) assms(1,2) split_at_first [of "CHR '':''" "rev (pv_phase e)" "rev (pv_phase e')"] by (simp add: colon_free_def)
qed

text \<open>
  C38: Decisions are not older than the cache allows: after any history of requests, one after the
  other, of servers whose names have no colon, a request is refused or passed on as the engines,
  combined, said to this request or to one of the history for the same server, the same capability
  and the same phase whose answers are younger than the lifetime of the cache.
\<close>

theorem pdp_decisions_are_fresh:
  assumes "up_cache p = []" "list_all colon_free (es @ [e])"
  shows "\<exists>e' \<in> set (es @ [e]). pc_server (pv_ctx e') = pc_server (pv_ctx e) \<and> pc_capability (pv_ctx e') = pc_capability (pv_ctx e) \<and>
    pv_phase e' = pv_phase e \<and> (e' = e \<or> pv_now e - pv_later e' < of_int (up_cache_ttl p)) \<and>
    (isl (snd (pdp_step e (pdp_run es p))) \<longleftrightarrow> \<not> engines_allow p e')"
proof -
  have b: "backed p es (pdp_run es p)" by (rule backed_run [OF assms(1)])
  then obtain c where c: "pdp_run es p = p\<lparr>up_cache := c\<rparr>" by (auto simp: backed_def)
  show ?thesis
  proof (cases rule: pdp_step_cases [of e "pdp_run es p"])
    case (1 d)
    then obtain ts where ts: "dict_get (up_cache (pdp_run es p)) (event_key e) = Some (ts, d)" "pv_now e - ts < of_int (up_cache_ttl p)"
      by (auto simp: pdp_cached_def c split: option.splits if_splits)
    then obtain e' where e': "e' \<in> set es" "event_key e' = event_key e" "pv_later e' = ts" "d = engines_allow p e'"
      using b unfolding backed_def by blast
    have "colon_free e'" "colon_free e" using assms(2) e'(1) by (simp_all add: list_all_iff)
    from event_key_parts [OF this e'(2)] show ?thesis using 1(3) ts(2) e' by auto
  next
    case 2
    then show ?thesis by (auto simp: c)
  qed
qed

definition ex_pdp :: UnifiedPDP where
  "ex_pdp = pdp_on_load (new_pdp [(\<lparr>en_name = ''native'', en_url = ''http://pdp'', en_path = [], en_api_key = []\<rparr>, True)] ''all_must_allow'' 60 False)"

definition ex_query :: "bool \<Rightarrow> rat \<Rightarrow> pdp_event" where
  "ex_query b t = \<lparr>pv_post = (\<lambda>q. Inr (PDict [(''result'', PBool b)])), pv_now = t, pv_later = t, pv_phase = ''tool_pre_invoke'',
     pv_ctx = request_to_plugin_ctx ex_call (OtherResult PNone)\<rparr>"

theorem pdp_decisions_are_fresh_witness:
  "up_cache ex_pdp = [] \<and> list_all colon_free [ex_query True 0, ex_query False 30] \<and> (\<exists>e' \<in> set [ex_query True 0, ex_query False 30].
     isl (snd (pdp_step (ex_query False 30) (pdp_run [ex_query True 0] ex_pdp))) \<longleftrightarrow> \<not> engines_allow ex_pdp e')"
proof -
  have "up_cache ex_pdp = []" by (simp add: ex_pdp_def new_pdp_def pdp_on_load_def)
  moreover have "list_all colon_free ([ex_query True 0] @ [ex_query False 30])" by code_simp
  ultimately show ?thesis using pdp_decisions_are_fresh [of ex_pdp "[ex_query True 0]" "ex_query False 30"] by auto
qed

text \<open>A colon in the name of a server makes the keys of different requests equal.\<close>

lemma pdp_keys_collide:
  "pdp_key ph (ctx\<lparr>pc_server := ''a:b'', pc_capability := ''c''\<rparr>) = pdp_key ph (ctx\<lparr>pc_server := ''a'', pc_capability := ''b:c''\<rparr>)"
  by (simp add: pdp_key_def)

section \<open>The message to the virus scanner\<close>

text \<open>How the daemon reads the stream after the command: lengths and chunks up to a length of zero.\<close>

function read_chunks :: "nat list \<Rightarrow> nat list option" where
  "read_chunks bs =
     (if length bs < 4 then None
      else let n = bs ! 0 * 16777216 + bs ! 1 * 65536 + bs ! 2 * 256 + bs ! 3; rest = drop 4 bs
           in if n = 0 then Some []
              else if n \<le> length rest then map_option ((@) (take n rest)) (read_chunks (drop n rest))
              else None)"
  by auto
termination
  by (relation "measure length") auto

declare read_chunks.simps [simp del]

lemma to_bytes4_value:
  assumes "n \<le> 8192"
  shows "to_bytes4 n ! 0 * 16777216 + to_bytes4 n ! 1 * 65536 + to_bytes4 n ! 2 * 256 + to_bytes4 n ! 3 = n"
  using assms by (simp add: to_bytes4_def)

lemma read_chunk:
  assumes "c \<noteq> []" "length c \<le> 8192"
  shows "read_chunks (to_bytes4 (length c) @ c @ rest) = map_option ((@) c) (read_chunks rest)"
proof -
  let ?bs = "to_bytes4 (length c) @ c @ rest"
  have four: "length (to_bytes4 (length c)) = 4" by (simp add: to_bytes4_def)
  then have "?bs ! 0 * 16777216 + ?bs ! 1 * 65536 + ?bs ! 2 * 256 + ?bs ! 3 = length c"
    using to_bytes4_value [OF assms(2)] by (simp add: nth_append)
  then show ?thesis using assms(1) four
    by (subst read_chunks.simps) (simp only: Let_def, simp)
qed

text \<open>
  The scanner gets what was to be scanned: reading a message as the protocol of the daemon
  prescribes gives back the data, of whatever length, byte for byte.
\<close>

theorem instream_roundtrip:
  "take 10 (instream data) = INSTREAM_CMD \<and> read_chunks (drop 10 (instream data)) = Some data"
proof -
  have "read_chunks (chunks data @ [0, 0, 0, 0]) = Some data"
  proof (induction data rule: chunks.induct)
    case (1 data)
    show ?case
    proof (cases "data = []")
      case True
      then show ?thesis by (simp add: chunks.simps read_chunks.simps [of "[0, 0, 0, 0]"])
    next
      case False
      have "take MAX_CHUNK data \<noteq> []" "length (take MAX_CHUNK data) \<le> 8192" using False by (simp_all add: MAX_CHUNK_def)
      from read_chunk [OF this, of "chunks (drop MAX_CHUNK data) @ [0, 0, 0, 0]"] show ?thesis
        using 1 [OF False] False by (subst chunks.simps) simp
    qed
  qed
  moreover have "length INSTREAM_CMD = 10" by (simp add: INSTREAM_CMD_def)
  ultimately show ?thesis by (simp add: instream_def)
qed

section \<open>What the scanners do not see\<close>

lemma no_text_args: "pc_arguments ctx = [] \<Longrightarrow> text_arg ctx k = None"
  by (simp add: text_arg_def)

text \<open>
  The scanners see nothing of resources and results: the request for a resource has no arguments,
  and what a backend returns is an object and no bare text. So the checks of an address or of
  content before a resource is fetched, and all checks of results, pass without asking the service.
\<close>

theorem scanners_skip_resources_and_results:
  fixes rid now uri meta
  assumes "\<And>s. r \<noteq> OtherResult (PStr s)"
  defines "before \<equiv> request_to_plugin_ctx (new_context rid now uri ''read_resource'' None meta) (OtherResult PNone)"
  shows "vt_resource_pre_fetch fetch ipv6 t p before = (p, Inr before) \<and> clam_pre_fetch clamd q before = Inr before \<and>
    vt_post fetch ipv6 clock p (ctx\<lparr>pc_result := r\<rparr>) = (p, Inr (ctx\<lparr>pc_result := r\<rparr>)) \<and>
    clam_post_invoke clamd q (ctx\<lparr>pc_result := r\<rparr>) = Inr (ctx\<lparr>pc_result := r\<rparr>) \<and>
    llm_post_fetch g analyze (ctx\<lparr>pc_result := r\<rparr>) = Inr (ctx\<lparr>pc_result := r\<rparr>) \<and>
    moderation_post api m (ctx\<lparr>pc_result := r\<rparr>) = Inr (ctx\<lparr>pc_result := r\<rparr>)"
proof -
  have "pc_arguments before = []" by (simp add: before_def request_to_plugin_ctx_def new_plugin_context_def new_context_def)
  then have "text_arg before k = None" for k by (rule no_text_args)
  moreover have "result_text (ctx\<lparr>pc_result := r\<rparr>) = None" using assms(1) by (auto simp: result_text_def split: mcp_result.splits pyval.splits)
  ultimately show ?thesis
    by (simp add: vt_resource_pre_fetch_def clam_pre_fetch_def clam_content_def map_filter_simps vt_post_def clam_post_invoke_def
        llm_post_fetch_def moderation_post_def)
qed

theorem scanners_skip_resources_and_results_witness:
  "clam_post_invoke (\<lambda>m. Some ''stream: Eicar FOUND'') \<lparr>ca_max_scan_bytes = 100, ca_block = True\<rparr>
     ((request_to_plugin_ctx ex_call (OtherResult PNone))\<lparr>pc_result := CallToolResult (PStr ''virus'') False\<rparr>) =
   Inr ((request_to_plugin_ctx ex_call (OtherResult PNone))\<lparr>pc_result := CallToolResult (PStr ''virus'') False\<rparr>)"
  using scanners_skip_resources_and_results [of "CallToolResult (PStr ''virus'') False"] by blast

text \<open>An empty prompt hides the other arguments from LLMGuard.\<close>

lemma empty_prompt_is_not_scanned: "text_arg ctx ''prompt'' = Some [] \<Longrightarrow> llm_pre_fetch p analyze ctx = Inr ctx"
  by (simp add: llm_pre_fetch_def llm_extract_text_def map_filter_simps)

text \<open>The action that is documented to redact changes neither arguments nor result.\<close>

lemma redact_does_not_redact:
  "mp_action p = ''redact'' \<Longrightarrow> moderate client p phase text ctx = Inr ctx' \<Longrightarrow> pc_arguments ctx' = pc_arguments ctx \<and> pc_result ctx' = pc_result ctx"
  by (auto simp: moderate_def Let_def put_def split: option.splits if_splits)

text \<open>Two of the documented providers find nothing.\<close>

lemma unsupported_providers_find_nothing: "mp_provider p = ''aws'' \<or> mp_provider p = ''watson'' \<Longrightarrow> moderate client p phase text ctx = Inr ctx"
  by (erule disjE) (simp_all add: moderate_def call_provider_def Let_def split: option.split)

text \<open>A port in the address gets around the deny list.\<close>

lemma port_evades_deny_list:
  assumes "vt_deny_list p = [''evil.com'']" "vt_allow_list p = []" "vt_cache p = []" "fetch ''https://evil.com:443/x'' = VtUnknown"
  shows "check_url fetch (\<lambda>h. False) t p ''https://evil.com:443/x'' = (p, Inr ())"
proof -
  have "extract_domain (\<lambda>h. False) ''https://evil.com:443/x'' = ''evil.com:443''" by code_simp
  then show ?thesis using assms by (simp add: check_url_def vt_lookup_def)
qed

text \<open>What is sent to OPA of the arguments is nested at most five levels deep.\<close>

lemma sanitize_depth: "d \<le> 5 \<Longrightarrow> d + tree_depth (sanitize d v) \<le> 5"
proof (induction d v rule: sanitize.induct)
  case (1 d kvs)
  then show ?case using tree_depth_le(2) [of "map (\<lambda>kv. (fst kv, sanitize (d + 1) (snd kv))) kvs" "5 - d"] by fastforce
next
  case (2 d vs)
  then show ?case using tree_depth_le(1) [of "map (sanitize (d + 1)) vs" "5 - d"] by fastforce
qed auto

end
