(* ===== verification/Tool_Search.thy ===== *)
theory Tool_Search
  imports Handlers
begin

text \<open>
  The search of the optimizer, \<open>bridge/optimizer/search.py\<close>: the index of tools, the scorer by
  words and the one of a library (an argument: the similarity of a query to each text of a
  corpus; building its matrix is taken not to raise), and what becomes of the meta tool \<open>find_tool\<close>, whose handler is meant to use it.
\<close>

section \<open>Scores\<close>

definition is_separator :: "char \<Rightarrow> bool" where
  "is_separator c \<longleftrightarrow> c = CHR ''_'' \<or> c = CHR ''-'' \<or> is_space c"

fun split_words :: "string \<Rightarrow> string \<Rightarrow> string list" where
  "split_words acc [] = [acc]"
| "split_words acc (c # s) = (if is_separator c then acc # split_words [] s else split_words (acc @ [c]) s)"

definition tokenize :: "string \<Rightarrow> string list" where
  "tokenize text = filter (\<lambda>t. t \<noteq> []) (split_words [] (str_lower text))"

definition word_score :: "string list \<Rightarrow> string \<Rightarrow> rat" where
  "word_score doc qt =
     (if qt \<in> set doc then 1
      else if list_ex (str_contains qt) doc then 1/2
      else if str_contains qt (join_with '' '' doc) then 1/4
      else 0)"

definition simple_score :: "string list \<Rightarrow> string list \<Rightarrow> rat" where
  "simple_score query_tokens doc_tokens =
     (if query_tokens = [] \<or> doc_tokens = [] then 0
      else sum_list (map (word_score doc_tokens) query_tokens) / of_nat (length query_tokens))"

section \<open>The index\<close>

record ToolEntry =
  te_name :: string
  te_description :: string
  te_input_schema :: pyval
  te_backend :: string

definition search_text :: "ToolEntry \<Rightarrow> string" where
  "search_text e = str_strip (te_name e @ '' '' @ te_description e)"

text \<open>
  \<open>ti_names\<close> are the names whose texts the library indexed, in order, when it is installed;
  \<open>ti_corpus\<close> are these texts.
\<close>

record ToolIndex =
  ti_tools :: "(string, ToolEntry) dict"
  ti_names :: "string list"
  ti_corpus :: "string list option"

definition new_index :: ToolIndex where
  "new_index = \<lparr>ti_tools = [], ti_names = [], ti_corpus = None\<rparr>"

record indexed_tool =
  it_name :: string
  it_description :: "string option"
  it_schema :: "pyval option"

definition entry_of :: "(string, string \<times> string) dict \<Rightarrow> indexed_tool \<Rightarrow> ToolEntry" where
  "entry_of routes t =
     \<lparr>te_name = it_name t, te_description = (case it_description t of None \<Rightarrow> [] | Some d \<Rightarrow> d),
      te_input_schema = (case it_schema t of None \<Rightarrow> PDict [] | Some s \<Rightarrow> if py_truthy s then s else PDict []),
      te_backend = (case dict_get routes (it_name t) of None \<Rightarrow> [] | Some (backend, orig) \<Rightarrow> backend)\<rparr>"

definition populate :: "indexed_tool list \<Rightarrow> (string, string \<times> string) dict \<Rightarrow> ToolIndex \<Rightarrow> ToolIndex" where
  "populate ts routes ix = ix\<lparr>ti_tools := fold (\<lambda>t d. dict_set (it_name t) (entry_of routes t) d) ts []\<rparr>"

definition build_tfidf :: "bool \<Rightarrow> ToolIndex \<Rightarrow> ToolIndex" where
  "build_tfidf has_sklearn ix =
     ix\<lparr>ti_names := dict_keys (ti_tools ix),
        ti_corpus := (if \<not> has_sklearn \<or> ti_tools ix = [] then None else Some (map (search_text \<circ> snd) (ti_tools ix)))\<rparr>"

text \<open>\<open>store\<close> does these two steps, with a suspension in between.\<close>

definition store_tools :: "bool \<Rightarrow> indexed_tool list \<Rightarrow> (string, string \<times> string) dict \<Rightarrow> ToolIndex \<Rightarrow> ToolIndex" where
  "store_tools has_sklearn ts routes ix = build_tfidf has_sklearn (populate ts routes ix)"

section \<open>Searching\<close>

text \<open>\<open>round(score, 4)\<close>.\<close>

definition round4 :: "rat \<Rightarrow> rat" where
  "round4 x = of_int (round_even (10000 * x)) / 10000"

definition best :: "int \<Rightarrow> (rat \<times> ToolEntry) list \<Rightarrow> (ToolEntry \<times> rat) list" where
  "best limit results = map (\<lambda>(score, e). (e, round4 score)) (py_take limit (sort_key (\<lambda>r. - fst r) results))"

definition search_simple :: "string \<Rightarrow> int \<Rightarrow> ToolIndex \<Rightarrow> (ToolEntry \<times> rat) list" where
  "search_simple query limit ix =
     (let q = tokenize query
      in if q = [] then []
         else best limit (filter (\<lambda>r. 0 < fst r) (map (\<lambda>(n, e). (simple_score q (tokenize (search_text e)), e)) (ti_tools ix))))"

text \<open>The names of the index are looked up in the tools; one that is gone raises.\<close>

fun look_up_scores :: "ToolIndex \<Rightarrow> (rat \<times> string) list \<Rightarrow> (rat \<times> ToolEntry) list res" where
  "look_up_scores ix [] = Inr []"
| "look_up_scores ix ((score, name) # rest) =
     (if 0 < score
      then case dict_get (ti_tools ix) name of
             None \<Rightarrow> Inl (KeyError name)
           | Some e \<Rightarrow> (case look_up_scores ix rest of Inl x \<Rightarrow> Inl x | Inr rs \<Rightarrow> Inr ((score, e) # rs))
      else look_up_scores ix rest)"

definition search_tools :: "(string \<Rightarrow> string list \<Rightarrow> rat list) \<Rightarrow> string \<Rightarrow> int \<Rightarrow> ToolIndex \<Rightarrow> (ToolEntry \<times> rat) list res" where
  "search_tools cosine query limit ix =
     (if ti_tools ix = [] then Inr []
      else case ti_corpus ix of
             Some corpus \<Rightarrow> map_sum id (best limit) (look_up_scores ix (zip (cosine query corpus) (ti_names ix)))
           | None \<Rightarrow> Inr (search_simple query limit ix))"

definition get_tool :: "ToolIndex \<Rightarrow> string \<Rightarrow> ToolEntry option" where
  "get_tool ix name = dict_get (ti_tools ix) name"

definition tool_count :: "ToolIndex \<Rightarrow> nat" where
  "tool_count ix = length (ti_tools ix)"

section \<open>Laws\<close>

lemma populate_tools:
  "dict_wf (ti_tools (populate ts routes ix))"
  "(n, e) \<in> set (ti_tools (populate ts routes ix)) \<Longrightarrow> \<exists>t \<in> set ts. n = it_name t \<and> e = entry_of routes t"
proof -
  let ?f = "\<lambda>t d. dict_set (it_name t) (entry_of routes t) d"
  have wf: "dict_wf d \<Longrightarrow> dict_wf (fold ?f ts d)" for d by (induction ts arbitrary: d) simp_all
  then show "dict_wf (ti_tools (populate ts routes ix))" by (simp add: populate_def)
  have "dict_get (fold ?f ts d) n = Some e \<Longrightarrow> dict_get d n = None \<Longrightarrow> \<exists>t \<in> set ts. n = it_name t \<and> e = entry_of routes t" for d
  proof (induction ts arbitrary: d rule: rev_induct)
    case (snoc t us)
    then show ?case by (cases "n = it_name t") auto
  qed simp
  moreover assume "(n, e) \<in> set (ti_tools (populate ts routes ix))"
  then have "dict_get (fold ?f ts []) n = Some e" using wf [of "[]"] by (simp add: populate_def map_of_eq_Some_iff)
  ultimately show "\<exists>t \<in> set ts. n = it_name t \<and> e = entry_of routes t" by fastforce
qed

lemma look_up_scores_ok:
  assumes "\<And>s n. (s, n) \<in> set rs \<Longrightarrow> dict_get (ti_tools ix) n \<noteq> None"
  shows "\<exists>out. look_up_scores ix rs = Inr out \<and> (\<forall>r \<in> set out. 0 < fst r \<and> snd r \<in> snd ` set (ti_tools ix))"
  using assms
proof (induction rs)
  case (Cons x rs)
  obtain s n where x: "x = (s, n)" by (cases x)
  obtain e where e: "dict_get (ti_tools ix) n = Some e" using Cons.prems [of s n] by (auto simp: x)
  obtain out where out: "look_up_scores ix rs = Inr out" "\<forall>r \<in> set out. 0 < fst r \<and> snd r \<in> snd ` set (ti_tools ix)"
    using Cons by (metis list.set_intros(2))
  have "e \<in> snd ` set (ti_tools ix)" using e by (force dest: map_of_SomeD)
  then show ?case using out e by (auto simp: x)
qed simp

lemma length_best: "0 \<le> limit \<Longrightarrow> int (length (best limit rs)) \<le> limit"
  by (simp add: best_def py_take_def)

lemma set_best: "fst ` set (best limit rs) \<subseteq> snd ` set rs"
proof -
  have "set (py_take limit xs) \<subseteq> set xs" for xs :: "(rat \<times> ToolEntry) list"
    by (auto simp: py_take_def dest: in_set_takeD)
  from this [of "sort_key (\<lambda>r. - fst r) rs"] show ?thesis
    by (auto simp: best_def image_image case_prod_beta)
qed

lemma round_even_mono:
  assumes "x \<le> y"
  shows "round_even x \<le> round_even y"
proof (cases "\<lfloor>x\<rfloor> = \<lfloor>y\<rfloor>")
  case True
  then show ?thesis using assms by (auto simp: round_even_def Let_def)
next
  case False
  then have "\<lfloor>x\<rfloor> < \<lfloor>y\<rfloor>" using floor_mono [OF assms] by linarith
  moreover have "round_even x \<le> \<lfloor>x\<rfloor> + 1" "\<lfloor>y\<rfloor> \<le> round_even y" by (auto simp: round_even_def Let_def)
  ultimately show ?thesis by linarith
qed

lemma round4_mono: "x \<le> y \<Longrightarrow> round4 x \<le> round4 y"
  using round_even_mono [of "10000 * x" "10000 * y"] by (simp add: round4_def divide_right_mono)

lemma best_descending: "sorted_wrt (\<ge>) (map snd (best limit rs))"
proof -
  have "sorted_wrt (\<lambda>r r'. - fst r \<le> - fst r') (sort_key (\<lambda>r. - fst r) rs)"
    using sorted_sort_key [of "\<lambda>r. - fst r" rs] by (simp add: sorted_wrt_map)
  then have "sorted_wrt (\<lambda>r r'. fst r' \<le> fst r) (py_take limit (sort_key (\<lambda>r. - fst r) rs))"
    by (auto simp: py_take_def intro: sorted_wrt_take)
  then show ?thesis
    by (auto simp: best_def sorted_wrt_map case_prod_beta intro: round4_mono elim!: sorted_wrt_mono_rel [rotated])
qed

lemma search_simple_best:
  obtains rs where "search_simple query limit ix = best limit rs" "snd ` set rs \<subseteq> snd ` set (ti_tools ix)"
proof (cases "tokenize query = []")
  case True
  then show ?thesis using that [of "[]"] by (simp add: search_simple_def best_def py_take_def)
next
  case False
  let ?rs = "filter (\<lambda>r. 0 < fst r) (map (\<lambda>(n, e). (simple_score (tokenize query) (tokenize (search_text e)), e)) (ti_tools ix))"
  have "snd ` set ?rs \<subseteq> snd ` set (ti_tools ix)" by force
  then show ?thesis using that [of ?rs] False by (simp add: search_simple_def Let_def)
qed

text \<open>
  A search of a stored index succeeds with either scorer: at most the requested number of tools,
  each of them stored and with its backend, the best first.
\<close>

theorem search_after_store:
  assumes "0 \<le> limit"
  shows "\<exists>out. search_tools cosine query limit (store_tools has_sklearn ts routes ix) = Inr out \<and> int (length out) \<le> limit \<and>
    sorted_wrt (\<ge>) (map snd out) \<and> (\<forall>(e, s) \<in> set out. e \<in> entry_of routes ` set ts)"
proof -
  let ?ix = "store_tools has_sklearn ts routes ix"
  have tls: "ti_tools ?ix = ti_tools (populate ts routes ix)" by (simp add: store_tools_def build_tfidf_def)
  have stored: "snd ` set (ti_tools ?ix) \<subseteq> entry_of routes ` set ts"
    using populate_tools(2) [of _ _ ts routes ix] unfolding tls by fastforce
  have "\<exists>rs. search_tools cosine query limit ?ix = Inr (best limit rs) \<and> (\<forall>r \<in> set rs. snd r \<in> entry_of routes ` set ts)"
  proof (cases "ti_tools ?ix = [] \<or> ti_corpus ?ix = None")
    case True
    then have "search_tools cosine query limit ?ix = Inr (search_simple query limit ?ix)"
      by (auto simp: search_tools_def search_simple_def Let_def best_def py_take_def)
    moreover obtain rs where "search_simple query limit ?ix = best limit rs" "snd ` set rs \<subseteq> snd ` set (ti_tools ?ix)"
      by (rule search_simple_best)
    ultimately show ?thesis using stored by (intro exI [of _ rs]) auto
  next
    case False
    then obtain corpus where c: "ti_tools ?ix \<noteq> []" "ti_corpus ?ix = Some corpus" by auto
    have names: "ti_names ?ix = dict_keys (ti_tools ?ix)" by (simp add: store_tools_def build_tfidf_def)
    have "n \<in> fst ` set (ti_tools ?ix)" if "(s, n) \<in> set (zip (cosine query corpus) (ti_names ?ix))" for s n
      using set_zip_rightD [OF that] unfolding names by (simp add: image_iff)
    then obtain rs where "look_up_scores ?ix (zip (cosine query corpus) (ti_names ?ix)) = Inr rs"
        "\<forall>r \<in> set rs. 0 < fst r \<and> snd r \<in> snd ` set (ti_tools ?ix)"
      using look_up_scores_ok [of "zip (cosine query corpus) (ti_names ?ix)" ?ix] by (meson dict_get_None_iff)
    then show ?thesis using c stored by (intro exI [of _ rs]) (auto simp: search_tools_def)
  qed
  then obtain rs where rs: "search_tools cosine query limit ?ix = Inr (best limit rs)" "\<forall>r \<in> set rs. snd r \<in> entry_of routes ` set ts" by blast
  have "\<forall>(e, s) \<in> set (best limit rs). e \<in> entry_of routes ` set ts"
    using set_best [of limit rs] rs(2) by fastforce
  then show ?thesis using rs(1) best_descending length_best [OF assms] by blast
qed

theorem search_after_store_witness:
  "(0 :: int) \<le> 5 \<and> (\<exists>out. search_tools (\<lambda>_ corpus. map (\<lambda>_. 1/2) corpus) ''read'' 5
     (store_tools True [\<lparr>it_name = ''read_file'', it_description = None, it_schema = None\<rparr>] [(''read_file'', (''fs'', ''read_file''))] new_index) = Inr out \<and>
     length out \<le> 5)"
  using search_after_store [of 5 "\<lambda>_ corpus. map (\<lambda>_. 1/2) corpus" "''read''" True
      "[\<lparr>it_name = ''read_file'', it_description = None, it_schema = None\<rparr>]" "[(''read_file'', (''fs'', ''read_file''))]" new_index] by force

section \<open>The meta tools\<close>

text \<open>
  C33: With the optimizer on, the other tools cannot be found: clients are shown the two meta tools,
  and besides them only tools of the keep list, and a call of \<open>find_tool\<close> is dispatched like that
  of any tool. Unless a backend happens to offer a tool of that name, it ends in an error in every
  configuration of the middleware stack, whatever its arguments.
\<close>

theorem find_tool_always_fails:
  fixes decode backend classes
  assumes "ss_optimizer st" "ss_registry st = Some reg"
    and "ss_chain st = Some (build_middleware_stack decode backend now classes cfg)"
    and "gw_registry w = Some reg" "resolve_capability reg FIND_TOOL_NAME = None"
  shows "(\<exists>kept. handle_list_tools st = Inr (META_TOOLS @ kept) \<and> list_all (\<lambda>t. cap_name t \<in> set (ss_keep_list st)) kept) \<and>
    isl (snd (handle_call_tool st ac rid now FIND_TOOL_NAME args w))"
proof -
  obtain w' r where d: "dispatch (ss_chain st) ac rid now FIND_TOOL_NAME ''call_tool'' (Some args) w = (w', r)" by fastforce
  have "\<not> one_call w (new_context rid now FIND_TOOL_NAME ''call_tool'' (Some args) (context_metadata ac)) w'"
    using assms(4,5) by (auto simp: one_call_def route_call_def new_context_def)
  then have "isl r" using dispatch_one_call [OF d [unfolded assms(3)]] by blast
  then show ?thesis using assms(1,2) d
    by (auto simp: handle_list_tools_def handle_call_tool_def Let_def as_call_tool_result_def list_all_iff split: sum.splits)
qed

definition ex_optimized :: server_state where
  "ex_optimized = \<lparr>ss_registry = gw_registry ex_gateway,
     ss_chain = Some (build_middleware_stack (\<lambda>_ _ _. InvalidTokenError []) ex_backend 0 [] ex_open_cfg),
     ss_composite = [], ss_optimizer = True, ss_keep_list = []\<rparr>"

theorem find_tool_always_fails_witness:
  "handle_list_tools ex_optimized = Inr META_TOOLS \<and>
   (\<forall>ac rid args. isl (snd (handle_call_tool ex_optimized ac rid 0 FIND_TOOL_NAME args ex_gateway)))"
proof -
  obtain reg where reg: "gw_registry ex_gateway = Some reg" "resolve_capability reg FIND_TOOL_NAME = None"
    by (simp add: ex_gateway_def resolve_capability_def FIND_TOOL_NAME_def)
  show ?thesis
    using find_tool_always_fails [of ex_optimized reg "\<lambda>_ _ _. InvalidTokenError []" ex_backend 0 "[]" ex_open_cfg ex_gateway] reg
    by (auto simp: ex_optimized_def list_all_iff)
qed

text \<open>A search between the two steps of a second \<open>store\<close> can meet a tool that is gone.\<close>

lemma search_between_steps_raises:
  "ti_names ix = [n] \<Longrightarrow> ti_corpus ix = Some c \<Longrightarrow> cosine q c = [1] \<Longrightarrow> it_name t \<noteq> n \<Longrightarrow>
   search_tools cosine q limit (populate [t] routes ix) = Inl (KeyError n)"
  by (simp add: search_tools_def populate_def)

end
