(* ===== verification/Server_Catalog.thy ===== *)
theory Server_Catalog
  imports Transfer_Properties
begin

text \<open>
  Adding servers from a catalogue: \<open>registry/catalog.py\<close>. A catalogue is parsed into entries, the
  entries are staged (a preview) and committed to the configuration, each with a report. The model
  of an entry (declared types), the models of backends and the YAML parser are arguments, as are
  the random batch identifier and the health check, which has a state of its own and may raise. The
  time of a report is left out.
\<close>

section \<open>Data\<close>

datatype CatalogEntryStatus = STAGED | ENTRY_ADDED | ENTRY_SKIPPED | ENTRY_FAILED | HEALTH_OK | HEALTH_FAILED

record CatalogEntry =
  ce_name :: string
  ce_description :: string
  ce_transport :: string
  ce_command :: "string option"
  ce_args :: "string list"
  ce_url :: "string option"
  ce_env :: "(string, string) dict option"
  ce_headers :: "(string, string) dict option"
  ce_groups :: "string list"
  ce_categories :: "string list"
  ce_filters :: "(string, pyval) dict option"
  ce_timeout :: "(string, pyval) dict option"

record CatalogItemResult =
  ci_name :: string
  ci_status :: CatalogEntryStatus
  ci_backend_type :: string
  ci_error :: "string option"

record CatalogResult =
  cr_catalog_id :: string
  cr_dry_run :: bool
  cr_total_entries :: nat
  cr_items :: "CatalogItemResult list"

definition entry_count :: "CatalogEntryStatus \<Rightarrow> CatalogResult \<Rightarrow> nat" where
  "entry_count s r = length (filter (\<lambda>i. ci_status i = s) (cr_items r))"

definition catalog_success :: "CatalogResult \<Rightarrow> bool" where
  "catalog_success r \<longleftrightarrow> entry_count ENTRY_FAILED r = 0"

definition catalog_summary :: "CatalogResult \<Rightarrow> string" where
  "catalog_summary r =
     (let part = (\<lambda>label s. if entry_count s r = 0 then [] else [label @ show_nat (entry_count s r)])
      in join_with '', '' ([''catalog='' @ cr_catalog_id r] @ (if cr_dry_run r then [''dry_run=True''] else []) @
           [''total='' @ show_nat (cr_total_entries r)] @ part ''staged='' STAGED @ part ''added='' ENTRY_ADDED @
           part ''skipped='' ENTRY_SKIPPED @ part ''failed='' ENTRY_FAILED))"

section \<open>Parsing\<close>

type_synonym entry_model = "(string, pyval) dict \<Rightarrow> string + CatalogEntry"

abbreviation CatalogParseError :: "string \<Rightarrow> exn" where
  "CatalogParseError m \<equiv> OtherException ''CatalogParseError'' m"

definition parse_entry :: "entry_model \<Rightarrow> pyval \<Rightarrow> (string, pyval) dict \<Rightarrow> CatalogEntry res" where
  "parse_entry model name raw =
     (case model ((''name'', name) # filter (\<lambda>(k, v). k \<noteq> ''name'') raw) of
        Inl m \<Rightarrow> Inl (CatalogParseError (''Invalid catalog entry '' @ quoted (py_str name) @ '': '' @ m))
      | Inr e \<Rightarrow> Inr e)"

text \<open>The entries of a list that are mappings with a name, and the values of a mapping that are mappings.\<close>

fun listed_entries :: "entry_model \<Rightarrow> pyval list \<Rightarrow> CatalogEntry list res" where
  "listed_entries model [] = Inr []"
| "listed_entries model (v # vs) =
     (case v of
        PDict d \<Rightarrow>
          (case dict_get d ''name'' of
             None \<Rightarrow> listed_entries model vs
           | Some n \<Rightarrow> (case parse_entry model n d of Inl e \<Rightarrow> Inl e | Inr x \<Rightarrow> map_sum id ((#) x) (listed_entries model vs)))
      | _ \<Rightarrow> listed_entries model vs)"

fun mapped_entries :: "entry_model \<Rightarrow> (string, pyval) dict \<Rightarrow> CatalogEntry list res" where
  "mapped_entries model [] = Inr []"
| "mapped_entries model ((n, v) # kvs) =
     (case v of
        PDict d \<Rightarrow>
          (case parse_entry model (PStr n) (if dict_get d ''name'' = None then d @ [(''name'', PStr n)] else d) of
             Inl e \<Rightarrow> Inl e
           | Inr x \<Rightarrow> map_sum id ((#) x) (mapped_entries model kvs))
      | _ \<Rightarrow> mapped_entries model kvs)"

definition catalog_entries :: "entry_model \<Rightarrow> pyval \<Rightarrow> CatalogEntry list res" where
  "catalog_entries model v =
     (case v of
        PNone \<Rightarrow> Inr []
      | PDict d \<Rightarrow>
          (case dict_get_or (PDict d) d ''servers'' of
             PDict s \<Rightarrow> mapped_entries model s
           | PList l \<Rightarrow> listed_entries model l
           | _ \<Rightarrow> Inr [])
      | PList l \<Rightarrow> listed_entries model l
      | _ \<Rightarrow> Inl (CatalogParseError ''Catalog must be a YAML mapping or list''))"

definition parse_catalog :: "(string \<Rightarrow> string + pyval) \<Rightarrow> entry_model \<Rightarrow> int \<Rightarrow> string \<Rightarrow> CatalogEntry list res" where
  "parse_catalog safe_load model max_size raw =
     (if int (length (utf8 raw)) > max_size then Inl (CatalogParseError (''Catalog exceeds maximum size ('' @ show_int max_size @ '' bytes)''))
      else case safe_load raw of
             Inl m \<Rightarrow> Inl (CatalogParseError (''Invalid YAML/JSON: '' @ m))
           | Inr v \<Rightarrow> catalog_entries model v)"

definition parse_catalog_file ::
    "(string \<Rightarrow> string option) \<Rightarrow> (string \<Rightarrow> string + pyval) \<Rightarrow> entry_model \<Rightarrow> int \<Rightarrow> string \<Rightarrow> CatalogEntry list res" where
  "parse_catalog_file files safe_load model max_size path =
     (case files path of
        None \<Rightarrow> Inl (CatalogParseError (''Catalog file not found: '' @ path))
      | Some raw \<Rightarrow> parse_catalog safe_load model max_size raw)"

section \<open>From an entry to a backend\<close>

definition kw_list :: "string \<Rightarrow> string list \<Rightarrow> (string, pyval) dict" where
  "kw_list k xs = (if xs = [] then [] else [(k, PList (map PStr xs))])"

definition kw_dict :: "string \<Rightarrow> (string, pyval) dict option \<Rightarrow> (string, pyval) dict" where
  "kw_dict k d = (case d of None \<Rightarrow> [] | Some kvs \<Rightarrow> if kvs = [] then [] else [(k, PDict kvs)])"

abbreviation text_values :: "(string, string) dict option \<Rightarrow> (string, pyval) dict option" where
  "text_values \<equiv> map_option (map (\<lambda>(k, v). (k, PStr v)))"

definition entry_to_backend :: "transfer_env \<Rightarrow> string \<Rightarrow> CatalogEntry \<Rightarrow> string + BackendConfig" where
  "entry_to_backend env cid e =
     (let provenance = [(''created_via'', PStr ''catalog''), (''import_batch_id'', PStr cid), (''metadata_version'', PInt 1)];
          transport = str_lower (ce_transport e);
          shared = kw_list ''groups'' (ce_groups e) @ kw_dict ''filters'' (ce_filters e) @ kw_dict ''timeout'' (ce_timeout e)
      in if transport = ''stdio''
         then case ce_command e of
                Some (c # cs) \<Rightarrow>
                  model_backend env (ce_name e) ([(''type'', PStr ''stdio''), (''command'', PStr (c # cs))] @ provenance @
                    kw_list ''args'' (ce_args e) @ kw_dict ''env'' (text_values (ce_env e)) @ shared)
              | _ \<Rightarrow> Inl (''stdio entry '' @ quoted (ce_name e) @ '' requires a '' @ quoted ''command'')
         else if transport \<in> {''sse'', ''streamable-http''}
         then case ce_url e of
                Some (c # cs) \<Rightarrow>
                  model_backend env (ce_name e) ([(''type'', PStr transport), (''url'', PStr (c # cs))] @ provenance @
                    kw_dict ''headers'' (text_values (ce_headers e)) @ shared)
              | _ \<Rightarrow> Inl (transport @ '' entry '' @ quoted (ce_name e) @ '' requires a '' @ quoted ''url'')
         else Inl (''Unsupported transport '' @ quoted transport @ '' for entry '' @ quoted (ce_name e)))"

section \<open>Staging and committing\<close>

definition item_result :: "CatalogEntryStatus \<Rightarrow> string option \<Rightarrow> CatalogEntry \<Rightarrow> CatalogItemResult" where
  "item_result s err e = \<lparr>ci_name = ce_name e, ci_status = s, ci_backend_type = ce_transport e, ci_error = err\<rparr>"

definition batch_id :: "string \<Rightarrow> string option \<Rightarrow> string" where
  "batch_id fresh given = (case given of Some (c # cs) \<Rightarrow> c # cs | _ \<Rightarrow> fresh)"

definition too_many :: "int \<Rightarrow> CatalogEntry list \<Rightarrow> CatalogItemResult list" where
  "too_many max_entries = map (item_result ENTRY_FAILED (Some (''Batch exceeds maximum entries ('' @ show_int max_entries @ '')'')))"

definition stage_entry :: "transfer_env \<Rightarrow> string \<Rightarrow> bool \<Rightarrow> string list \<Rightarrow> CatalogEntry \<Rightarrow> CatalogItemResult" where
  "stage_entry env cid skip existing e =
     (if skip \<and> ce_name e \<in> set existing then item_result ENTRY_SKIPPED (Some ''Already exists in config'') e
      else case entry_to_backend env cid e of
             Inl m \<Rightarrow> item_result ENTRY_FAILED (Some m) e
           | Inr b \<Rightarrow> item_result STAGED None e)"

definition stage_catalog ::
    "transfer_env \<Rightarrow> string \<Rightarrow> string option \<Rightarrow> bool \<Rightarrow> int \<Rightarrow> CatalogEntry list \<Rightarrow> 'a ArgusConfig_scheme \<Rightarrow> CatalogResult" where
  "stage_catalog env fresh given skip max_entries entries cfg =
     (let cid = batch_id fresh given
      in \<lparr>cr_catalog_id = cid, cr_dry_run = True, cr_total_entries = length entries,
          cr_items = (if int (length entries) > max_entries then too_many max_entries entries
                      else map (stage_entry env cid skip (dict_keys (ac_backends cfg))) entries)\<rparr>)"

text \<open>The check of a backend may ask the world outside; an exception counts as unhealthy.\<close>

type_synonym 'w health_check = "string \<Rightarrow> BackendConfig \<Rightarrow> 'w \<Rightarrow> bool res \<times> 'w"

definition healthy :: "'w health_check option \<Rightarrow> string \<Rightarrow> BackendConfig \<Rightarrow> 'w \<Rightarrow> bool \<times> 'w" where
  "healthy check name b w =
     (case check of
        None \<Rightarrow> (True, w)
      | Some h \<Rightarrow> (case h name b w of (Inr ok, w') \<Rightarrow> (ok, w') | (Inl e, w') \<Rightarrow> (False, w')))"

type_synonym 'w commit_state = "(string, BackendConfig) dict \<times> string list \<times> 'w"

definition commit_entry ::
    "transfer_env \<Rightarrow> string \<Rightarrow> bool \<Rightarrow> 'w health_check option \<Rightarrow> CatalogEntry \<Rightarrow> 'w commit_state \<Rightarrow> 'w commit_state \<times> CatalogItemResult" where
  "commit_entry env cid skip check e st =
     (case st of (bs, existing, w) \<Rightarrow>
        (if skip \<and> ce_name e \<in> set existing then (st, item_result ENTRY_SKIPPED (Some ''Already exists in config'') e)
         else case entry_to_backend env cid e of
                Inl m \<Rightarrow> (st, item_result ENTRY_FAILED (Some m) e)
              | Inr b \<Rightarrow>
                  (case healthy check (ce_name e) b w of (ok, w') \<Rightarrow>
                     (if ok then ((dict_set (ce_name e) b bs, ce_name e # existing, w'), item_result ENTRY_ADDED None e)
                      else ((bs, existing, w'), item_result HEALTH_FAILED (Some ''Health check failed'') e)))))"

fun commit_entries ::
    "transfer_env \<Rightarrow> string \<Rightarrow> bool \<Rightarrow> 'w health_check option \<Rightarrow> CatalogEntry list \<Rightarrow> 'w commit_state \<Rightarrow> 'w commit_state \<times> CatalogItemResult list" where
  "commit_entries env cid skip check [] st = (st, [])"
| "commit_entries env cid skip check (e # es) st =
     (case commit_entry env cid skip check e st of (st', i) \<Rightarrow>
        (case commit_entries env cid skip check es st' of (st'', is) \<Rightarrow> (st'', i # is)))"

definition commit_catalog ::
    "transfer_env \<Rightarrow> string \<Rightarrow> string option \<Rightarrow> bool \<Rightarrow> int \<Rightarrow> 'w health_check option \<Rightarrow> CatalogEntry list \<Rightarrow> 'a ArgusConfig_scheme \<times> 'w \<Rightarrow>
     ('a ArgusConfig_scheme \<times> 'w) \<times> CatalogResult" where
  "commit_catalog env fresh given skip max_entries check entries st =
     (case st of (cfg, w) \<Rightarrow>
        (let cid = batch_id fresh given;
             report = (\<lambda>items. \<lparr>cr_catalog_id = cid, cr_dry_run = False, cr_total_entries = length entries, cr_items = items\<rparr>)
         in if int (length entries) > max_entries then (st, report (too_many max_entries entries))
            else case commit_entries env cid skip check entries (ac_backends cfg, dict_keys (ac_backends cfg), w) of
                   ((bs, existing, w'), items) \<Rightarrow> ((cfg\<lparr>ac_backends := bs\<rparr>, w'), report items)))"

section \<open>Staging predicts committing\<close>

text \<open>What a report of a commit looks like to somebody who only sees whether an entry was accepted.\<close>

definition as_staged :: "CatalogItemResult \<Rightarrow> CatalogItemResult" where
  "as_staged i = (if ci_status i \<in> {ENTRY_ADDED, HEALTH_FAILED} then i\<lparr>ci_status := STAGED, ci_error := None\<rparr> else i)"

lemma as_staged_item [simp]:
  "as_staged (item_result ENTRY_ADDED err e) = item_result STAGED None e"
  "as_staged (item_result HEALTH_FAILED err e) = item_result STAGED None e"
  "as_staged (item_result ENTRY_SKIPPED err e) = item_result ENTRY_SKIPPED err e"
  "as_staged (item_result ENTRY_FAILED err e) = item_result ENTRY_FAILED err e"
  by (simp_all add: as_staged_def item_result_def)

lemma as_staged_too_many [simp]: "map as_staged (too_many n es) = too_many n es"
  by (simp add: too_many_def)

lemma commit_entry_report:
  "as_staged (snd (commit_entry env cid skip check e (bs, ns, w))) = stage_entry env cid skip ns e"
  by (simp add: commit_entry_def stage_entry_def split: sum.split prod.split)

lemma commit_entry_names:
  "k \<noteq> ce_name e \<Longrightarrow> k \<in> set (fst (snd (fst (commit_entry env cid skip check e (bs, ns, w))))) \<longleftrightarrow> k \<in> set ns"
  by (simp add: commit_entry_def split: sum.split prod.split)

lemma commit_entries_report:
  assumes "skip \<Longrightarrow> distinct (map ce_name es)" "\<And>e. skip \<Longrightarrow> e \<in> set es \<Longrightarrow> ce_name e \<in> set ns \<longleftrightarrow> ce_name e \<in> set ns0"
  shows "map as_staged (snd (commit_entries env cid skip check es (bs, ns, w))) = map (stage_entry env cid skip ns0) es"
  using assms
proof (induction es arbitrary: bs ns w)
  case (Cons e es)
  obtain bs' ns' w' i where c: "commit_entry env cid skip check e (bs, ns, w) = ((bs', ns', w'), i)" by (metis prod.exhaust)
  have "as_staged i = stage_entry env cid skip ns0 e"
    using commit_entry_report [of env cid skip check e bs ns w] Cons.prems(2) [of e] by (auto simp: c stage_entry_def)
  moreover have "ce_name x \<in> set ns' \<longleftrightarrow> ce_name x \<in> set ns0" if "skip" "x \<in> set es" for x
  proof -
    have "ce_name x \<noteq> ce_name e" using Cons.prems(1) [OF that(1)] that(2) by (metis distinct.simps(2) imageI list.set_map list.simps(9))
    then show ?thesis using commit_entry_names [of "ce_name x" e env cid skip check bs ns w, unfolded c] Cons.prems(2) [of x] that by simp
  qed
  ultimately show ?case using Cons.IH [of ns' bs' w'] Cons.prems(1) by (auto simp: c split: prod.splits)
qed simp

lemma staged_report:
  assumes "skip \<Longrightarrow> distinct (map ce_name entries)"
  shows "map as_staged (cr_items (snd (commit_catalog env fresh given skip max_entries check entries (cfg, w)))) =
    cr_items (stage_catalog env fresh given skip max_entries entries cfg)"
  using assms commit_entries_report [of skip entries "dict_keys (ac_backends cfg)" "dict_keys (ac_backends cfg)" env "batch_id fresh given" check "ac_backends cfg" w]
  by (auto simp: commit_catalog_def stage_catalog_def Let_def split: prod.splits)

definition ex_entry :: "string \<Rightarrow> string \<Rightarrow> CatalogEntry" where
  "ex_entry n u = \<lparr>ce_name = n, ce_description = [], ce_transport = ''SSE'', ce_command = None, ce_args = [], ce_url = Some u,
     ce_env = None, ce_headers = None, ce_groups = [], ce_categories = [], ce_filters = None, ce_timeout = None\<rparr>"

text \<open>
  The preview of a catalogue is right: for entries with different names (or where existing
  backends are to be replaced) the report of a commit is, item by item, that of the staging before
  it, each staged entry being added or failing its health check, whatever the check does.
\<close>

theorem staging_predicts_commit:
  assumes "skip \<Longrightarrow> distinct (map ce_name entries)"
  shows "map as_staged (cr_items (snd (commit_catalog env fresh given skip max_entries check entries (cfg, w)))) =
    cr_items (stage_catalog env fresh given skip max_entries entries cfg)"
  using assms by (rule staged_report)

theorem staging_predicts_commit_witness:
  "map as_staged (cr_items (snd (commit_catalog ex_models ''b1'' None True 500 (Some (\<lambda>n b w. (Inr (n = ''a''), w + 1)))
     [ex_entry ''a'' ''https://a'', ex_entry ''b'' ''ftp://b'', ex_entry ''c'' ''https://c'', ex_entry ''old'' ''https://d''] (ex_target, 0 :: nat)))) =
   cr_items (stage_catalog ex_models ''b1'' None True 500
     [ex_entry ''a'' ''https://a'', ex_entry ''b'' ''ftp://b'', ex_entry ''c'' ''https://c'', ex_entry ''old'' ''https://d''] ex_target)"
  by (rule staging_predicts_commit) (simp add: ex_entry_def)

section \<open>What a commit adds\<close>

lemma entry_to_backend_valid: "entry_to_backend env cid e = Inr b \<Longrightarrow> valid_conf (te_paths env) (backend_to_dict b)"
  by (auto simp: entry_to_backend_def Let_def dest: model_backend_valid split: if_splits option.splits list.splits)

text \<open>A backend that a commit may add: some entry of that name gives it, and the check has passed.\<close>

definition admitted :: "transfer_env \<Rightarrow> string \<Rightarrow> 'w health_check option \<Rightarrow> CatalogEntry list \<Rightarrow> string \<times> BackendConfig \<Rightarrow> bool" where
  "admitted env cid check es nb \<longleftrightarrow>
     (\<exists>e \<in> set es. ce_name e = fst nb \<and> entry_to_backend env cid e = Inr (snd nb)) \<and>
     valid_conf (te_paths env) (backend_to_dict (snd nb)) \<and> (\<exists>w. fst (healthy check (fst nb) (snd nb) w))"

definition added_names :: "CatalogItemResult list \<Rightarrow> string list" where
  "added_names is = map ci_name (filter (\<lambda>i. ci_status i = ENTRY_ADDED) is)"

lemma admitted_more: "admitted env cid check es nb \<Longrightarrow> admitted env cid check (e # es) nb"
  by (auto simp: admitted_def)

lemma commit_entry_adds:
  assumes "commit_entry env cid True check e (bs, ns, w) = ((bs', ns', w'), i)" "set ns = fst ` set bs"
  shows "set ns' = fst ` set bs' \<and> (\<exists>new. bs' = bs @ new \<and> map fst new = added_names [i] \<and> list_all (admitted env cid check [e]) new)"
proof (cases "ce_name e \<in> set ns \<or> (\<exists>m. entry_to_backend env cid e = Inl m)")
  case False
  then obtain b where b: "entry_to_backend env cid e = Inr b" by (cases "entry_to_backend env cid e") auto
  show ?thesis
  proof (cases "fst (healthy check (ce_name e) b w)")
    case True
    then have "admitted env cid check [e] (ce_name e, b)" using b entry_to_backend_valid by (auto simp: admitted_def)
    moreover have "bs' = bs @ [(ce_name e, b)]" "ns' = ce_name e # ns" "added_names [i] = [ce_name e]"
      using assms False b True by (auto simp: commit_entry_def added_names_def item_result_def dict_set_new split: prod.splits)
    ultimately show ?thesis using assms(2) by simp
  qed (use assms False b in \<open>auto simp: commit_entry_def added_names_def item_result_def split: prod.splits if_splits\<close>)
next
  case True
  then have "bs' = bs" "ns' = ns" "added_names [i] = []"
    using assms(1) by (auto simp: commit_entry_def added_names_def item_result_def split: if_splits)
  then show ?thesis using assms(2) by simp
qed

lemma commit_entries_add:
  assumes "set ns = fst ` set bs" "commit_entries env cid True check es (bs, ns, w) = ((bs', ns', w'), is)"
  shows "set ns' = fst ` set bs' \<and> (\<exists>new. bs' = bs @ new \<and> map fst new = added_names is \<and> list_all (admitted env cid check es) new)"
  using assms
proof (induction es arbitrary: bs ns w "is")
  case Nil
  then show ?case by (simp add: added_names_def)
next
  case (Cons e es)
  obtain b1 n1 w1 i where c: "commit_entry env cid True check e (bs, ns, w) = ((b1, n1, w1), i)" by (metis prod.exhaust)
  then obtain js where r: "commit_entries env cid True check es (b1, n1, w1) = ((bs', ns', w'), js)" "is = i # js"
    using Cons.prems(2) by (auto split: prod.splits)
  obtain x where x: "b1 = bs @ x" "map fst x = added_names [i]" "list_all (admitted env cid check [e]) x" "set n1 = fst ` set b1"
    using commit_entry_adds [OF c Cons.prems(1)] by blast
  obtain y where y: "bs' = b1 @ y" "map fst y = added_names js" "list_all (admitted env cid check es) y" "set ns' = fst ` set bs'"
    using Cons.IH [OF x(4) r(1)] by blast
  have "list_all (admitted env cid check (e # es)) (x @ y)"
    using x(3) y(3) by (auto simp: list_all_iff admitted_def)
  then show ?case using x(1,2) y(1,2,4) r(2) by (intro conjI exI [of _ "x @ y"]) (simp_all add: added_names_def)
qed

text \<open>
  C35: With existing backends to be skipped, a commit only adds: every backend of the configuration stays as it
  is, behind them come exactly the backends reported as added, in that order, and each of them
  comes from an entry of its name, satisfies what loading guarantees and has passed the health
  check. Nothing else of the configuration changes.
\<close>

theorem commit_adds_reported_backends:
  assumes "commit_catalog env fresh given True max_entries check entries (cfg, w) = ((cfg', w'), r)"
  shows "\<exists>new. cfg' = cfg\<lparr>ac_backends := ac_backends cfg @ new\<rparr> \<and> map fst new = added_names (cr_items r) \<and>
    list_all (admitted env (cr_catalog_id r) check entries) new"
proof (cases "int (length entries) > max_entries")
  case True
  then have "cfg' = cfg" "cr_items r = too_many max_entries entries" using assms by (auto simp: commit_catalog_def Let_def)
  then show ?thesis by (intro exI [of _ "[]"]) (simp add: added_names_def too_many_def item_result_def filter_map comp_def)
next
  case False
  then show ?thesis
    using assms commit_entries_add [of "dict_keys (ac_backends cfg)" "ac_backends cfg" env "batch_id fresh given" check entries w]
    by (fastforce simp: commit_catalog_def Let_def split: prod.splits)
qed

theorem commit_adds_reported_backends_witness:
  "\<exists>new. fst (fst (commit_catalog ex_models ''b1'' None True 500 (Some (\<lambda>n b w. (Inr (n = ''a''), w + 1)))
     [ex_entry ''a'' ''https://a'', ex_entry ''old'' ''https://d''] (ex_target, 0 :: nat))) =
     ex_target\<lparr>ac_backends := ac_backends ex_target @ new\<rparr> \<and> map fst new = [''a'']"
proof -
  let ?c = "commit_catalog ex_models ''b1'' None True 500 (Some (\<lambda>n b w. (Inr (n = ''a''), w + 1)))
    [ex_entry ''a'' ''https://a'', ex_entry ''old'' ''https://d''] (ex_target, 0 :: nat)"
  have "added_names (cr_items (snd ?c)) = [''a'']" by code_simp
  then show ?thesis
    using commit_adds_reported_backends [of ex_models "''b1''" None 500 _ _ ex_target 0 "fst (fst ?c)" "snd (fst ?c)" "snd ?c"] by fastforce
qed

section \<open>Committing again\<close>

lemma commit_entries_again:
  assumes "list_all (\<lambda>e. ce_name e \<in> set ns \<or> (\<exists>m. entry_to_backend env cid e = Inl m)) es"
  shows "fst (commit_entries env cid True check es (bs, ns, w)) = (bs, ns, w) \<and> added_names (snd (commit_entries env cid True check es (bs, ns, w))) = []"
  using assms
proof (induction es)
  case (Cons e es)
  then obtain i where "commit_entry env cid True check e (bs, ns, w) = ((bs, ns, w), i)" "ci_status i \<noteq> ENTRY_ADDED"
    by (cases "ce_name e \<in> set ns") (auto simp: commit_entry_def item_result_def)
  then show ?case using Cons by (auto simp: added_names_def split: prod.splits)
qed (simp add: added_names_def)

lemma commit_entries_settle:
  assumes "commit_entries env cid True None es (bs, ns, w) = ((bs', ns', w'), is)"
  shows "set ns \<subseteq> set ns' \<and> list_all (\<lambda>e. ce_name e \<in> set ns' \<or> (\<exists>m. entry_to_backend env cid e = Inl m)) es"
  using assms
proof (induction es arbitrary: bs ns w "is")
  case (Cons e es)
  obtain b1 n1 w1 i where c: "commit_entry env cid True None e (bs, ns, w) = ((b1, n1, w1), i)" by (metis prod.exhaust)
  then obtain js where "commit_entries env cid True None es (b1, n1, w1) = ((bs', ns', w'), js)" using Cons.prems by (auto split: prod.splits)
  moreover have "set ns \<subseteq> set n1 \<and> (ce_name e \<in> set n1 \<or> (\<exists>m. entry_to_backend env cid e = Inl m))"
    using c by (auto simp: commit_entry_def healthy_def split: if_splits sum.splits)
  ultimately show ?case using Cons.IH [of b1 n1 w1 js] by auto
qed simp

text \<open>
  Committing the same catalogue again, with existing backends to be skipped and no health check,
  changes nothing and adds nothing: every entry is by then a backend or cannot become one.
\<close>

theorem commit_is_idempotent:
  "let again = commit_catalog env fresh given True max_entries None entries (fst (commit_catalog env fresh given True max_entries None entries (cfg, w)))
   in fst again = fst (commit_catalog env fresh given True max_entries None entries (cfg, w)) \<and> added_names (cr_items (snd again)) = []"
proof (cases "int (length entries) > max_entries")
  case True
  then show ?thesis by (simp add: commit_catalog_def added_names_def too_many_def item_result_def filter_map comp_def)
next
  case False
  let ?cid = "batch_id fresh given"
  obtain bs' ns' w' "is" where c: "commit_entries env ?cid True None entries (ac_backends cfg, dict_keys (ac_backends cfg), w) = ((bs', ns', w'), is)"
    by (metis prod.exhaust)
  have "set ns' = set (dict_keys bs')" using commit_entries_add [OF _ c] by simp
  then have "list_all (\<lambda>e. ce_name e \<in> set (dict_keys bs') \<or> (\<exists>m. entry_to_backend env ?cid e = Inl m)) entries"
    using commit_entries_settle [OF c] by simp
  from commit_entries_again [OF this, of None bs' w'] show ?thesis using False
    by (auto simp: commit_catalog_def Let_def c split: prod.splits)
qed

section \<open>The forms of a catalogue\<close>

text \<open>What is assumed of the model of an entry: the entry has the name it was given.\<close>

definition keeps_name :: "entry_model \<Rightarrow> bool" where
  "keeps_name model \<longleftrightarrow> (\<forall>n d e. model ((''name'', n) # d) = Inr e \<longrightarrow> n = PStr (ce_name e))"

fun with_name :: "string \<times> pyval \<Rightarrow> pyval" where
  "with_name (n, PDict d) = PDict ((''name'', PStr n) # filter (\<lambda>(k, v). k \<noteq> ''name'') d)"
| "with_name (n, v) = v"

lemma parse_entry_default [simp]: "parse_entry model n (if c then d @ [(''name'', v)] else d) = parse_entry model n d"
  by (simp add: parse_entry_def)

lemma parse_entry_given [simp]:
  "parse_entry model n ((''name'', v) # filter (\<lambda>(k, v). k \<noteq> ''name'') d) = parse_entry model n d"
  by (simp add: parse_entry_def)

lemma mapped_as_listed: "mapped_entries model kvs = listed_entries model (map with_name kvs)"
proof (induction kvs)
  case (Cons nv kvs)
  obtain n v where "nv = (n, v)" by (cases nv)
  then show ?case using Cons by (cases v) (simp_all split: sum.split)
qed simp

lemma mapped_names:
  assumes "keeps_name model" "dict_wf kvs" "mapped_entries model kvs = Inr es"
  shows "distinct (map ce_name es) \<and> ce_name ` set es \<subseteq> fst ` set kvs"
  using assms(2,3)
proof (induction kvs arbitrary: es)
  case (Cons nv kvs)
  obtain n v where nv: "nv = (n, v)" by (cases nv)
  show ?case
  proof (cases "\<exists>d. v = PDict d")
    case True
    then obtain d x xs where x: "parse_entry model (PStr n) d = Inr x" "mapped_entries model kvs = Inr xs" "es = x # xs"
      using Cons.prems(2) by (auto simp: nv map_sum_def split: sum.splits)
    then have "ce_name x = n" using assms(1) by (auto simp: keeps_name_def parse_entry_def split: sum.splits)
    then show ?thesis using Cons.IH [OF _ x(2)] Cons.prems(1) x(3) by (auto simp: nv)
  next
    case False
    then have "mapped_entries model kvs = Inr es" using Cons.prems(2) by (cases v) (auto simp: nv)
    then show ?thesis using Cons.IH Cons.prems(1) by (auto simp: nv)
  qed
qed simp

text \<open>
  The forms of a catalogue agree: a mapping from names to servers, with or without the wrapping
  key, gives the entries that the list of the same servers with their names gives; and the entries
  of a mapping have different names, so that their preview is right.
\<close>

theorem catalog_forms_agree:
  assumes "keeps_name model" "dict_wf kvs" "dict_get kvs ''servers'' = None"
  shows "catalog_entries model (PDict kvs) = catalog_entries model (PList (map with_name kvs)) \<and>
    catalog_entries model (PDict [(''servers'', PDict kvs)]) = catalog_entries model (PDict kvs) \<and>
    (\<forall>es. catalog_entries model (PDict kvs) = Inr es \<longrightarrow>
      map as_staged (cr_items (snd (commit_catalog env fresh given skip max_entries check es (cfg, w)))) =
      cr_items (stage_catalog env fresh given skip max_entries es cfg))"
proof -
  have m: "catalog_entries model (PDict kvs) = mapped_entries model kvs"
    using assms(3) by (simp add: catalog_entries_def dict_get_or_def)
  have "distinct (map ce_name es)" if "catalog_entries model (PDict kvs) = Inr es" for es
    using mapped_names [OF assms(1,2)] that by (simp add: m)
  then show ?thesis
    using m by (auto simp: catalog_entries_def dict_get_or_def mapped_as_listed intro: staged_report)
qed

definition ex_entry_model :: entry_model where
  "ex_entry_model d = (case d of
     (k, PStr n) # rest \<Rightarrow> (case dict_get rest ''url'' of Some (PStr u) \<Rightarrow> Inr (ex_entry n u) | _ \<Rightarrow> Inl ''url'')
   | _ \<Rightarrow> Inl ''name'')"

theorem catalog_forms_agree_witness:
  "map as_staged (cr_items (snd (commit_catalog ex_models ''b1'' None True 500 (None :: unit health_check option) [ex_entry ''a'' ''https://a''] (ex_target, ())))) =
   cr_items (stage_catalog ex_models ''b1'' None True 500 [ex_entry ''a'' ''https://a''] ex_target)"
proof -
  let ?d = "[(''a'', PDict [(''url'', PStr ''https://a'')]), (''note'', PStr ''x'')]"
  have "keeps_name ex_entry_model"
    by (auto simp: keeps_name_def ex_entry_model_def ex_entry_def split: pyval.splits option.splits)
  moreover have "catalog_entries ex_entry_model (PDict ?d) = Inr [ex_entry ''a'' ''https://a'']" by code_simp
  ultimately show ?thesis using catalog_forms_agree [of ex_entry_model ?d ex_models "''b1''" None True 500 None ex_target "()"] by simp
qed

section \<open>Flaws\<close>

text \<open>
  Two entries of a list with the same name: the preview stages both, and the commit skips the second.
\<close>

lemma repeated_name_is_staged_twice:
  "map ci_status (cr_items (stage_catalog ex_models ''b1'' None True 500 [ex_entry ''a'' ''https://a'', ex_entry ''a'' ''https://b''] ex_target)) =
     [STAGED, STAGED] \<and>
   map ci_status (cr_items (snd (commit_catalog ex_models ''b1'' None True 500 (None :: unit health_check option)
     [ex_entry ''a'' ''https://a'', ex_entry ''a'' ''https://b''] (ex_target, ())))) = [ENTRY_ADDED, ENTRY_SKIPPED]"
  by code_simp

text \<open>
  A commit in which every entry fails its health check is a success, and its summary does not say
  that anything failed.
\<close>

lemma commit_entries_all:
  "(\<And>e st. e \<in> set es \<Longrightarrow> P (snd (commit_entry env cid skip check e st))) \<Longrightarrow> list_all P (snd (commit_entries env cid skip check es st))"
  by (induction es arbitrary: st) (simp_all add: case_prod_beta)

lemma unhealthy_batch_succeeds:
  assumes "\<And>n b w. \<not> fst (healthy check n b w)" "int (length entries) \<le> max_entries"
    and "list_all (\<lambda>e. \<exists>b. entry_to_backend env (batch_id fresh given) e = Inr b) entries"
  shows "let r = snd (commit_catalog env fresh given skip max_entries check entries st) in entry_count ENTRY_ADDED r = 0 \<and> catalog_success r"
proof -
  have "ci_status (snd (commit_entry env (batch_id fresh given) skip check e s)) \<notin> {ENTRY_ADDED, ENTRY_FAILED}" if "e \<in> set entries" for e s
    using assms(1,3) that by (cases s) (auto simp: commit_entry_def item_result_def case_prod_beta list_all_iff)
  then have "list_all (\<lambda>i. ci_status i \<notin> {ENTRY_ADDED, ENTRY_FAILED}) (snd (commit_entries env (batch_id fresh given) skip check entries s))" for s
    by (intro commit_entries_all) blast
  then show ?thesis using assms(2)
    by (cases st) (simp add: commit_catalog_def Let_def catalog_success_def entry_count_def filter_empty_conv list_all_iff case_prod_beta)
qed

text \<open>A catalogue whose servers are given as a text, or whose listed servers lack a name, is read as an empty one.\<close>

lemma malformed_servers_are_ignored:
  "catalog_entries model (PDict [(''servers'', PStr s)]) = Inr []"
  "catalog_entries model (PList [PDict [(''url'', PStr u)]]) = Inr []"
  by (simp_all add: catalog_entries_def dict_get_or_def)

text \<open>As on import, names are not checked: a commit can make a configuration that cannot be loaded.\<close>

lemma commit_takes_unloadable_name:
  "validate_backend_names (dict_keys (ac_backends (fst (fst (commit_catalog ex_models ''b1'' None True 500 (None :: unit health_check option)
     [ex_entry '' web'' ''https://x''] (ex_target, ())))))) \<noteq> Inr ()"
  by code_simp

end
