(* ===== verification/Server_Registry.thy ===== *)
theory Server_Registry
  imports Config_Values
begin

text \<open>
  Catalogues of servers on the network: \<open>registry/models.py\<close>, \<open>registry/cache.py\<close> and
  \<open>registry/client.py\<close>. Answers are JSON values whose numbers are integers and may have any shape.
  The HTTP library is an argument with a state of its own: it answers a path and parameters with
  a JSON value, or the request fails. The cache is a directory of JSON files, one per registry,
  under a hash of its address (an argument); a file that cannot be parsed is \<open>None\<close>, and the
  directory exists. Page counts are numbers or texts.
\<close>

section \<open>Entries\<close>

record ToolDefinition =
  td_name :: pyval
  td_description :: pyval
  td_input_schema :: pyval

record ServerEntry =
  en_name :: pyval
  en_description :: pyval
  en_transport :: pyval
  en_url :: pyval
  en_command :: pyval
  en_args :: pyval
  en_version :: pyval
  en_icon_url :: pyval
  en_categories :: pyval
  en_tools :: "ToolDefinition list"
  en_extra :: "(string, pyval) dict"

record ServerPage =
  sp_servers :: "ServerEntry list"
  sp_next_cursor :: pyval
  sp_total :: pyval

definition KNOWN_KEYS :: "string list" where
  "KNOWN_KEYS = [''name'', ''description'', ''transport'', ''url'', ''command'', ''args'', ''version'', ''icon_url'', ''categories'', ''tools'']"

definition tool_of :: "pyval \<Rightarrow> ToolDefinition option" where
  "tool_of v =
     (case v of
        PDict t \<Rightarrow> Some \<lparr>td_name = dict_get_or (PStr []) t ''name'', td_description = dict_get_or (PStr []) t ''description'',
          td_input_schema = py_or (dict_get_or PNone t ''inputSchema'') (py_or (dict_get_or PNone t ''input_schema'') (PDict []))\<rparr>
      | _ \<Rightarrow> None)"

definition entry_from_dict :: "(string, pyval) dict \<Rightarrow> ServerEntry res" where
  "entry_from_dict d =
     (let field = (\<lambda>k. dict_get_or (PStr []) d k); listed = (\<lambda>k. py_or (dict_get_or PNone d k) (PList []))
      in on_ok (py_list (listed ''tools'')) (\<lambda>tools_raw.
           Inr \<lparr>en_name = field ''name'', en_description = field ''description'', en_transport = dict_get_or (PStr ''stdio'') d ''transport'',
                en_url = field ''url'', en_command = field ''command'', en_args = listed ''args'', en_version = field ''version'',
                en_icon_url = field ''icon_url'', en_categories = listed ''categories'', en_tools = List.map_filter tool_of tools_raw,
                en_extra = filter (\<lambda>(k, v). k \<notin> set KNOWN_KEYS) d\<rparr>))"

definition from_dict :: "pyval \<Rightarrow> ServerEntry res" where
  "from_dict v = (case v of PDict d \<Rightarrow> entry_from_dict d | _ \<Rightarrow> Inl (OtherException ''AttributeError'' ''object has no attribute get''))"

definition to_backend_config :: "ServerEntry \<Rightarrow> (string, pyval) dict res" where
  "to_backend_config e =
     (if en_transport e = PStr ''stdio''
      then if py_truthy (en_args e)
           then on_ok (py_list (en_args e)) (\<lambda>args. Inr [(''type'', PStr ''stdio''), (''command'', en_command e), (''args'', PList args)])
           else Inr [(''type'', PStr ''stdio''), (''command'', en_command e)]
      else if en_transport e \<in> {PStr ''sse'', PStr ''streamable-http''} then Inr [(''type'', en_transport e), (''url'', en_url e)]
      else if py_truthy (en_url e) then Inr [(''type'', PStr ''streamable-http''), (''url'', en_url e)]
      else Inr [(''type'', PStr ''stdio''), (''command'', en_command e)])"

section \<open>The cache\<close>

definition tool_to_dict :: "ToolDefinition \<Rightarrow> pyval" where
  "tool_to_dict t = PDict [(''name'', td_name t), (''description'', td_description t), (''input_schema'', td_input_schema t)]"

definition entry_to_dict :: "ServerEntry \<Rightarrow> (string, pyval) dict res" where
  "entry_to_dict e =
     on_ok (py_list (en_args e)) (\<lambda>args. on_ok (py_list (en_categories e)) (\<lambda>categories.
       Inr (dict_update [(''name'', en_name e), (''description'', en_description e), (''transport'', en_transport e), (''url'', en_url e),
              (''command'', en_command e), (''args'', PList args), (''version'', en_version e), (''icon_url'', en_icon_url e),
              (''categories'', PList categories), (''tools'', PList (map tool_to_dict (en_tools e)))] (en_extra e))))"

type_synonym cache_files = "(string, pyval option) dict"

record registry_env =
  re_path_for :: "string \<Rightarrow> string"
  re_now :: int
  re_ttl :: int
  re_writable :: bool

definition cache_read :: "string \<Rightarrow> cache_files \<Rightarrow> pyval option" where
  "cache_read path disk = (case dict_get disk path of Some (Some v) \<Rightarrow> Some v | _ \<Rightarrow> None)"

definition cached_entries :: "registry_env \<Rightarrow> string \<Rightarrow> cache_files \<Rightarrow> ServerEntry list option res" where
  "cached_entries env url disk =
     (case cache_read (re_path_for env url) disk of
        None \<Rightarrow> Inr None
      | Some PNone \<Rightarrow> Inr None
      | Some payload \<Rightarrow>
          on_ok (py_get payload ''entries'' (PList [])) (\<lambda>raw. on_ok (py_list raw) (\<lambda>es. on_ok (map_res from_dict es) (\<lambda>r. Inr (Some r)))))"

definition cache_put_entries :: "registry_env \<Rightarrow> string \<Rightarrow> ServerEntry list \<Rightarrow> cache_files \<Rightarrow> cache_files res" where
  "cache_put_entries env url entries disk =
     on_ok (map_res entry_to_dict entries) (\<lambda>ds.
       Inr (if re_writable env
            then dict_set (re_path_for env url)
                   (Some (PDict [(''registry_url'', PStr url), (''fetched_at'', PInt (re_now env)), (''entries'', PList (map PDict ds))])) disk
            else disk))"

definition is_fresh :: "registry_env \<Rightarrow> string \<Rightarrow> cache_files \<Rightarrow> bool res" where
  "is_fresh env url disk =
     (case cache_read (re_path_for env url) disk of
        None \<Rightarrow> Inr False
      | Some PNone \<Rightarrow> Inr False
      | Some payload \<Rightarrow>
          on_ok (py_get payload ''fetched_at'' (PInt 0)) (\<lambda>t.
            case t of
              PInt i \<Rightarrow> Inr (re_now env - i < re_ttl env)
            | PBool b \<Rightarrow> Inr (re_now env - of_bool b < re_ttl env)
            | _ \<Rightarrow> Inl (TypeError ''unsupported operand type'')))"

text \<open>Every file of the directory is a cache file: \<open>put\<close> writes no other.\<close>

definition cache_clear_files :: "registry_env \<Rightarrow> string option \<Rightarrow> cache_files \<Rightarrow> cache_files" where
  "cache_clear_files env url disk =
     (case url of Some (c # cs) \<Rightarrow> dict_del (re_path_for env (c # cs)) disk | _ \<Rightarrow> filter (\<lambda>(p, v). \<not> ends_with ''.json'' p) disk)"

section \<open>Kinds of registries\<close>

datatype RegistryType = Glama | Smithery | Generic

definition detect_type :: "string \<Rightarrow> RegistryType" where
  "detect_type url =
     (let u = str_lower url in if str_contains ''glama.ai'' u then Glama else if str_contains ''smithery.ai'' u then Smithery else Generic)"

definition list_params :: "RegistryType \<Rightarrow> int \<Rightarrow> pyval \<Rightarrow> (string, pyval) dict" where
  "list_params rtype limit cursor =
     (case rtype of
        Glama \<Rightarrow> (''first'', PInt limit) # (if py_truthy cursor then [(''after'', cursor)] else [])
      | Smithery \<Rightarrow> (''pageSize'', PInt limit) # (if py_truthy cursor then [(''page'', cursor)] else [])
      | Generic \<Rightarrow> (''limit'', PInt limit) # (if py_truthy cursor then [(''cursor'', cursor)] else []))"

fun search_params :: "RegistryType \<Rightarrow> string \<Rightarrow> int \<Rightarrow> (string, pyval) dict" where
  "search_params Glama query limit = [(''query'', PStr query), (''first'', PInt limit)]"
| "search_params Smithery query limit = [(''q'', PStr query), (''pageSize'', PInt limit)]"
| "search_params Generic query limit = [(''q'', PStr query), (''limit'', PInt limit)]"

fun server_path :: "RegistryType \<Rightarrow> string" where
  "server_path Glama = ''/v1/servers''"
| "server_path Smithery = ''/servers''"
| "server_path Generic = ''/v0.1/servers''"

definition attributes :: "(string, pyval) dict \<Rightarrow> pyval" where
  "attributes server = py_or (dict_get_or PNone server ''attributes'') (PList [])"

definition glama_transport :: "(string, pyval) dict \<Rightarrow> string res" where
  "glama_transport server =
     map_sum id (\<lambda>remote. if remote then ''streamable-http'' else ''stdio'') (py_in ''hosting:remote-capable'' (attributes server))"

definition glama_categories :: "(string, pyval) dict \<Rightarrow> pyval list res" where
  "glama_categories server =
     on_ok (py_list (attributes server)) (\<lambda>vs.
       if list_all (\<lambda>v. case v of PStr s \<Rightarrow> True | _ \<Rightarrow> False) vs then Inr (filter (\<lambda>v. \<not> starts_with ''hosting:'' (py_str v)) vs)
       else Inl (OtherException ''AttributeError'' ''object has no attribute startswith''))"

definition entry_from_raw :: "RegistryType \<Rightarrow> pyval \<Rightarrow> ServerEntry res" where
  "entry_from_raw rtype v =
     (case v of
        PDict server \<Rightarrow>
          (let field = (\<lambda>k. dict_get_or (PStr []) server k)
           in case rtype of
                Glama \<Rightarrow>
                  on_ok (glama_transport server) (\<lambda>transport. on_ok (glama_categories server) (\<lambda>categories.
                    entry_from_dict [(''name'', field ''name''), (''description'', field ''description''), (''url'', field ''url''),
                      (''icon_url'', field ''iconUrl''), (''version'', PStr []), (''transport'', PStr transport),
                      (''tools'', py_or (dict_get_or PNone server ''tools'') (PList [])), (''categories'', PList categories), (''_source'', PStr ''glama''),
                      (''namespace'', field ''namespace''), (''slug'', field ''slug''), (''repository'', dict_get_or PNone server ''repository'')]))
              | Smithery \<Rightarrow>
                  entry_from_dict [(''name'', py_or (dict_get_or PNone server ''displayName'') (field ''qualifiedName'')),
                    (''description'', field ''description''), (''url'', field ''homepage''), (''icon_url'', field ''iconUrl''), (''version'', PStr []),
                    (''transport'', PStr (if py_truthy (dict_get_or PNone server ''remote'') then ''streamable-http'' else ''stdio'')),
                    (''tools'', PList []), (''categories'', PList []), (''_source'', PStr ''smithery''), (''qualifiedName'', field ''qualifiedName''),
                    (''namespace'', field ''namespace''), (''slug'', field ''slug''), (''verified'', dict_get_or (PBool False) server ''verified''),
                    (''useCount'', dict_get_or (PInt 0) server ''useCount'')]
              | Generic \<Rightarrow> entry_from_dict server)
      | _ \<Rightarrow> Inl (OtherException ''AttributeError'' ''object has no attribute get''))"

definition page_entry :: "RegistryType \<Rightarrow> pyval \<Rightarrow> ServerEntry option res" where
  "page_entry rtype item =
     (case item of
        PDict d \<Rightarrow> on_ok (entry_from_raw rtype (dict_get_or item d ''server'')) (\<lambda>e. Inr (Some e))
      | _ \<Rightarrow> Inr None)"

text \<open>\<open>current < total_pages\<close>, and then \<open>str(current + 1)\<close>.\<close>

definition as_number :: "pyval \<Rightarrow> int option" where
  "as_number v = (case v of PInt i \<Rightarrow> Some i | PBool b \<Rightarrow> Some (of_bool b) | _ \<Rightarrow> None)"

definition next_page :: "pyval \<Rightarrow> pyval \<Rightarrow> pyval res" where
  "next_page current pages =
     (case (as_number current, as_number pages) of
        (Some a, Some b) \<Rightarrow> Inr (if a < b then PStr (show_int (a + 1)) else PNone)
      | _ \<Rightarrow>
          (case (current, pages) of
             (PStr a, PStr b) \<Rightarrow> if lexordp (\<lambda>c d. code c < code d) a b then Inl (TypeError ''can only concatenate str'') else Inr PNone
           | _ \<Rightarrow> Inl (TypeError ''not supported between instances'')))"

definition pagination :: "RegistryType \<Rightarrow> (string, pyval) dict \<Rightarrow> (pyval \<times> pyval) res" where
  "pagination rtype data =
     (case rtype of
        Glama \<Rightarrow>
          on_ok (py_get (dict_get_or (PDict []) data ''pageInfo'') ''hasNextPage'' PNone) (\<lambda>more.
            if py_truthy more then on_ok (py_get (dict_get_or (PDict []) data ''pageInfo'') ''endCursor'' PNone) (\<lambda>c. Inr (c, PNone))
            else Inr (PNone, PNone))
      | Smithery \<Rightarrow>
          (case dict_get_or (PDict []) data ''pagination'' of
             PDict p \<Rightarrow>
               on_ok (next_page (dict_get_or (PInt 1) p ''currentPage'') (dict_get_or (PInt 1) p ''totalPages'')) (\<lambda>c.
                 Inr (c, dict_get_or PNone p ''totalCount''))
           | _ \<Rightarrow> Inl (OtherException ''AttributeError'' ''object has no attribute get''))
      | Generic \<Rightarrow> Inr (py_or (dict_get_or PNone data ''next_cursor'') (dict_get_or PNone data ''nextCursor''), dict_get_or PNone data ''total''))"

definition parse_page :: "RegistryType \<Rightarrow> pyval \<Rightarrow> ServerPage res" where
  "parse_page rtype v =
     (case v of
        PDict data \<Rightarrow>
          on_ok (py_list (py_or (dict_get_or PNone data ''servers'') (py_or (dict_get_or PNone data ''items'') (PList [])))) (\<lambda>raw.
          on_ok (map_res (page_entry rtype) raw) (\<lambda>entries.
          on_ok (pagination rtype data) (\<lambda>(cursor, total).
            Inr \<lparr>sp_servers = List.map_filter id entries, sp_next_cursor = cursor, sp_total = total\<rparr>)))
      | _ \<Rightarrow> Inl (OtherException ''AttributeError'' ''object has no attribute get''))"

section \<open>The client\<close>

type_synonym 'w fetch = "string \<Rightarrow> (string, pyval) dict \<Rightarrow> 'w \<Rightarrow> pyval res \<times> 'w"

record RegistryClient =
  rc_base_url :: string
  rc_rtype :: RegistryType
  rc_cache :: bool

definition new_registry_client :: "string \<Rightarrow> RegistryType option \<Rightarrow> bool \<Rightarrow> RegistryClient" where
  "new_registry_client base_url rtype cache =
     (let url = rstrip_by ((=) CHR ''/'') base_url
      in \<lparr>rc_base_url = url, rc_rtype = (case rtype of None \<Rightarrow> detect_type url | Some t \<Rightarrow> t), rc_cache = cache\<rparr>)"

abbreviation last_page :: "ServerEntry list \<Rightarrow> ServerPage" where
  "last_page es \<equiv> \<lparr>sp_servers = es, sp_next_cursor = PNone, sp_total = PNone\<rparr>"

definition fallback_page :: "registry_env \<Rightarrow> RegistryClient \<Rightarrow> cache_files \<Rightarrow> ServerPage res" where
  "fallback_page env c disk =
     (if rc_cache c
      then on_ok (cached_entries env (rc_base_url c) disk) (\<lambda>r. Inr (last_page (case r of Some es \<Rightarrow> es | None \<Rightarrow> [])))
      else Inr (last_page []))"

definition list_servers ::
    "registry_env \<Rightarrow> 'w fetch \<Rightarrow> RegistryClient \<Rightarrow> pyval \<Rightarrow> int \<Rightarrow> cache_files \<times> 'w \<Rightarrow> (cache_files \<times> 'w) \<times> ServerPage res" where
  "list_servers env fetch c cursor limit st =
     (case st of (disk, w) \<Rightarrow>
        (case fetch (server_path (rc_rtype c)) (list_params (rc_rtype c) limit cursor) w of (answer, w') \<Rightarrow>
           (case on_ok answer (\<lambda>v. on_ok (parse_page (rc_rtype c) v) (\<lambda>page.
                   on_ok (if rc_cache c \<and> \<not> py_truthy cursor then cache_put_entries env (rc_base_url c) (sp_servers page) disk else Inr disk)
                     (\<lambda>disk'. Inr (disk', page)))) of
              Inr (disk', page) \<Rightarrow> ((disk', w'), Inr page)
            | Inl e \<Rightarrow> ((disk, w'), fallback_page env c disk))))"

fun list_pages ::
    "registry_env \<Rightarrow> 'w fetch \<Rightarrow> RegistryClient \<Rightarrow> int \<Rightarrow> nat \<Rightarrow> pyval \<Rightarrow> cache_files \<times> 'w \<Rightarrow> (cache_files \<times> 'w) \<times> ServerEntry list res" where
  "list_pages env fetch c limit 0 cursor st = (st, Inr [])"
| "list_pages env fetch c limit (Suc n) cursor st =
     (case list_servers env fetch c cursor limit st of
        (st', Inl e) \<Rightarrow> (st', Inl e)
      | (st', Inr page) \<Rightarrow>
          (if py_truthy (sp_next_cursor page)
           then case list_pages env fetch c limit n (sp_next_cursor page) st' of (st'', r) \<Rightarrow> (st'', map_sum id ((@) (sp_servers page)) r)
           else (st', Inr (sp_servers page))))"

definition list_all_servers ::
    "registry_env \<Rightarrow> 'w fetch \<Rightarrow> RegistryClient \<Rightarrow> int \<Rightarrow> nat \<Rightarrow> cache_files \<times> 'w \<Rightarrow> (cache_files \<times> 'w) \<times> ServerEntry list res" where
  "list_all_servers env fetch c limit max_pages st =
     (case list_pages env fetch c limit max_pages PNone st of
        (st', Inl e) \<Rightarrow> (st', Inl e)
      | ((disk, w), Inr entries) \<Rightarrow>
          (if rc_cache c \<and> entries \<noteq> []
           then case cache_put_entries env (rc_base_url c) entries disk of
                  Inl e \<Rightarrow> ((disk, w), Inl e)
                | Inr disk' \<Rightarrow> ((disk', w), Inr entries)
           else ((disk, w), Inr entries)))"

definition get_server :: "registry_env \<Rightarrow> 'w fetch \<Rightarrow> RegistryClient \<Rightarrow> string \<Rightarrow> cache_files \<times> 'w \<Rightarrow> (cache_files \<times> 'w) \<times> ServerEntry option res" where
  "get_server env fetch c name st =
     (case st of (disk, w) \<Rightarrow>
        (case fetch (server_path (rc_rtype c) @ ''/'' @ name) [] w of (answer, w') \<Rightarrow>
           (case on_ok answer (entry_from_raw (rc_rtype c)) of
              Inr e \<Rightarrow> ((disk, w'), Inr (Some e))
            | Inl e \<Rightarrow> ((disk, w'), on_ok (fallback_page env c disk) (\<lambda>page. Inr (find (\<lambda>s. en_name s = PStr name) (sp_servers page)))))))"

definition matches_query :: "string \<Rightarrow> ServerEntry \<Rightarrow> bool res" where
  "matches_query q s =
     (case (en_name s, en_description s) of
        (PStr n, d) \<Rightarrow>
          (if str_contains q (str_lower n) then Inr True
           else case d of PStr t \<Rightarrow> Inr (str_contains q (str_lower t)) | _ \<Rightarrow> Inl (OtherException ''AttributeError'' ''object has no attribute lower''))
      | _ \<Rightarrow> Inl (OtherException ''AttributeError'' ''object has no attribute lower''))"

definition search_servers :: "registry_env \<Rightarrow> 'w fetch \<Rightarrow> RegistryClient \<Rightarrow> string \<Rightarrow> int \<Rightarrow> cache_files \<times> 'w \<Rightarrow> (cache_files \<times> 'w) \<times> ServerEntry list res" where
  "search_servers env fetch c query limit st =
     (case st of (disk, w) \<Rightarrow>
        (case fetch (server_path (rc_rtype c)) (search_params (rc_rtype c) query limit) w of (answer, w') \<Rightarrow>
           (case on_ok answer (parse_page (rc_rtype c)) of
              Inr page \<Rightarrow> ((disk, w'), Inr (sp_servers page))
            | Inl e \<Rightarrow> ((disk, w'), on_ok (fallback_page env c disk) (\<lambda>page.
                on_ok (map_res (matches_query (str_lower query)) (sp_servers page)) (\<lambda>ms. Inr (map fst (filter snd (zip (sp_servers page) ms)))))))))"

section \<open>What is cached is what is read\<close>

text \<open>Entries whose lists are lists, as the classes declare them.\<close>

definition typed_entry :: "ServerEntry \<Rightarrow> bool" where
  "typed_entry e \<longleftrightarrow> (case en_args e of PList a \<Rightarrow> True | _ \<Rightarrow> False) \<and> (case en_categories e of PList c \<Rightarrow> True | _ \<Rightarrow> False) \<and>
     list_all (\<lambda>t. py_truthy (td_input_schema t) \<or> td_input_schema t = PDict []) (en_tools e) \<and>
     dict_wf (en_extra e) \<and> list_all (\<lambda>k. k \<notin> set KNOWN_KEYS) (dict_keys (en_extra e))"

lemma dict_update_disjoint: "dict_wf e \<Longrightarrow> set (dict_keys d) \<inter> set (dict_keys e) = {} \<Longrightarrow> dict_update d e = d @ e"
  by (induction e arbitrary: d) (auto simp: dict_set_new)

lemma tools_read_back:
  "list_all (\<lambda>t. py_truthy (td_input_schema t) \<or> td_input_schema t = PDict []) ts \<Longrightarrow> List.map_filter tool_of (map tool_to_dict ts) = ts"
  by (induction ts) (auto simp: tool_of_def tool_to_dict_def py_or_def dict_get_or_def List.map_filter_simps)

lemma list_or_empty: "py_or (PList xs) (PList []) = PList xs"
  by (simp add: py_or_def)

lemma entry_reads_back:
  assumes "typed_entry e"
  shows "\<exists>d. entry_to_dict e = Inr d \<and> from_dict (PDict d) = Inr e"
proof -
  obtain a c where ac: "en_args e = PList a" "en_categories e = PList c"
    using assms by (auto simp: typed_entry_def split: pyval.splits)
  let ?b = "[(''name'', en_name e), (''description'', en_description e), (''transport'', en_transport e), (''url'', en_url e),
    (''command'', en_command e), (''args'', PList a), (''version'', en_version e), (''icon_url'', en_icon_url e),
    (''categories'', PList c), (''tools'', PList (map tool_to_dict (en_tools e)))]"
  have k: "set (dict_keys ?b) = set KNOWN_KEYS" by (simp add: KNOWN_KEYS_def)
  then have "dict_update ?b (en_extra e) = ?b @ en_extra e"
    using assms by (intro dict_update_disjoint) (auto simp: typed_entry_def list_all_iff)
  then have d: "entry_to_dict e = Inr (?b @ en_extra e)" using ac by (simp add: entry_to_dict_def py_list_def)
  have "filter (\<lambda>(k, v). k \<notin> set KNOWN_KEYS) (?b @ en_extra e) = en_extra e"
    using assms by (auto simp: typed_entry_def list_all_iff KNOWN_KEYS_def filter_id_conv)
  then have "from_dict (PDict (?b @ en_extra e)) = Inr e"
    using assms ac unfolding from_dict_def entry_from_dict_def typed_entry_def
    by (simp add: Let_def dict_get_or_def list_or_empty tools_read_back py_list_def)
  then show ?thesis using d by blast
qed

lemma entries_read_back:
  assumes "list_all typed_entry es"
  shows "\<exists>ds. map_res entry_to_dict es = Inr ds \<and> map_res from_dict (map PDict ds) = Inr es"
  using assms
proof (induction es)
  case (Cons e es)
  then show ?case using entry_reads_back [of e] by (auto split: sum.split)
qed simp

lemma put_then_get:
  assumes "list_all typed_entry es" "re_writable env"
  shows "\<exists>disk'. cache_put_entries env url es disk = Inr disk' \<and> cached_entries env url disk' = Inr (Some es)"
proof -
  obtain ds where "map_res entry_to_dict es = Inr ds" "map_res from_dict (map PDict ds) = Inr es" using entries_read_back [OF assms(1)] by blast
  then show ?thesis using assms(2)
    by (simp add: cache_put_entries_def cached_entries_def cache_read_def py_get_def py_list_def dict_get_or_def)
qed

text \<open>A registry with two pages that answers a given number of requests and then fails.\<close>

definition ex_page :: "string list \<Rightarrow> pyval \<Rightarrow> pyval" where
  "ex_page ns cursor = PDict [(''servers'', PList (map (\<lambda>n. PDict [(''name'', PStr n), (''url'', PStr ''https://x'')]) ns)), (''next_cursor'', cursor)]"

definition ex_fetch :: "nat fetch" where
  "ex_fetch path params n =
     (if n = 0 then (Inl TimeoutError, 0)
      else (Inr (if dict_get params ''cursor'' = None then ex_page [''a'', ''b''] (PStr ''2'') else ex_page [''c''] PNone), n - 1))"

definition ex_registry_env :: registry_env where
  "ex_registry_env = \<lparr>re_path_for = id, re_now = 0, re_ttl = 300, re_writable = True\<rparr>"

definition ex_client :: RegistryClient where
  "ex_client = new_registry_client ''https://r/'' None True"

definition ex_first :: ServerPage where
  "ex_first = (case parse_page Generic (ex_page [''a'', ''b''] (PStr ''2'')) of Inr p \<Rightarrow> p | Inl e \<Rightarrow> last_page [])"

definition ex_second :: ServerPage where
  "ex_second = (case parse_page Generic (ex_page [''c''] PNone) of Inr p \<Rightarrow> p | Inl e \<Rightarrow> last_page [])"

text \<open>
  A registry can be used offline: after a first page was fetched (its entries of the declared
  types), listing while the registry fails gives the servers of that page.
\<close>

theorem offline_listing:
  assumes "fetch (server_path (rc_rtype c)) (list_params (rc_rtype c) limit PNone) w = (Inr v, w1)" "parse_page (rc_rtype c) v = Inr page"
    and "rc_cache c" "re_writable env" "list_all typed_entry (sp_servers page)"
    and "isl (fst (fetch (server_path (rc_rtype c)) (list_params (rc_rtype c) limit' cursor) w1))"
  shows "snd (list_servers env fetch c cursor limit' (fst (list_servers env fetch c PNone limit (disk, w)))) = Inr (last_page (sp_servers page))"
proof -
  obtain disk' where d: "cache_put_entries env (rc_base_url c) (sp_servers page) disk = Inr disk'"
    "cached_entries env (rc_base_url c) disk' = Inr (Some (sp_servers page))" using put_then_get [OF assms(5,4)] by blast
  then have "fst (list_servers env fetch c PNone limit (disk, w)) = (disk', w1)" using assms(1-3) by (simp add: list_servers_def)
  moreover obtain e w2 where "fetch (server_path (rc_rtype c)) (list_params (rc_rtype c) limit' cursor) w1 = (Inl e, w2)"
    using assms(6) by (metis isl_def prod.collapse)
  ultimately show ?thesis using d(2) assms(3) by (simp add: list_servers_def fallback_page_def)
qed

theorem offline_listing_witness:
  "snd (list_servers ex_registry_env ex_fetch ex_client PNone 50 (fst (list_servers ex_registry_env ex_fetch ex_client PNone 50 ([], 1)))) =
     Inr (last_page (sp_servers ex_first))"
proof (rule offline_listing)
  show "ex_fetch (server_path (rc_rtype ex_client)) (list_params (rc_rtype ex_client) 50 PNone) 1 = (Inr (ex_page [''a'', ''b''] (PStr ''2'')), 0)" by code_simp
  show "parse_page (rc_rtype ex_client) (ex_page [''a'', ''b''] (PStr ''2'')) = Inr ex_first" by code_simp
  show "rc_cache ex_client" "re_writable ex_registry_env" "list_all typed_entry (sp_servers ex_first)" by code_simp+
  show "isl (fst (ex_fetch (server_path (rc_rtype ex_client)) (list_params (rc_rtype ex_client) 50 PNone) 0))" by code_simp
qed

section \<open>Listing all pages\<close>

text \<open>The pages a registry serves from a cursor on, the last of them without a next one.\<close>

fun serves :: "'w fetch \<Rightarrow> RegistryClient \<Rightarrow> int \<Rightarrow> pyval \<Rightarrow> ServerPage list \<Rightarrow> 'w \<Rightarrow> bool" where
  "serves fetch c limit cursor [] w = False"
| "serves fetch c limit cursor (p # ps) w =
     (case fetch (server_path (rc_rtype c)) (list_params (rc_rtype c) limit cursor) w of
        (Inl e, w') \<Rightarrow> False
      | (Inr v, w') \<Rightarrow>
          parse_page (rc_rtype c) v = Inr p \<and> (if py_truthy (sp_next_cursor p) then serves fetch c limit (sp_next_cursor p) ps w' else ps = []))"

lemma list_pages_served:
  assumes "serves fetch c limit cursor ps w" "length ps \<le> n" "list_all (\<lambda>p. list_all typed_entry (sp_servers p)) ps"
  shows "\<exists>disk' w'. list_pages env fetch c limit n cursor (disk, w) = ((disk', w'), Inr (concat (map sp_servers ps)))"
  using assms
proof (induction ps arbitrary: n cursor disk w)
  case (Cons p ps)
  obtain v w1 where f: "fetch (server_path (rc_rtype c)) (list_params (rc_rtype c) limit cursor) w = (Inr v, w1)" "parse_page (rc_rtype c) v = Inr p"
    and r: "if py_truthy (sp_next_cursor p) then serves fetch c limit (sp_next_cursor p) ps w1 else ps = []"
    using Cons.prems(1) by (auto split: prod.splits sum.splits)
  obtain m where m: "n = Suc m" using Cons.prems(2) by (cases n) auto
  obtain ds where "map_res entry_to_dict (sp_servers p) = Inr ds" using entries_read_back [of "sp_servers p"] Cons.prems(3) by auto
  then obtain d where "(if rc_cache c \<and> \<not> py_truthy cursor then cache_put_entries env (rc_base_url c) (sp_servers p) disk else Inr disk) = Inr d"
    by (cases "rc_cache c \<and> \<not> py_truthy cursor") (simp_all add: cache_put_entries_def)
  then have "list_servers env fetch c cursor limit (disk, w) = ((d, w1), Inr p)" using f by (simp add: list_servers_def)
  then show ?case using Cons.IH [of "sp_next_cursor p" w1 m d] Cons.prems(2,3) r m by auto
qed simp

text \<open>
  Listing all servers lists all servers: when a registry serves its pages one after the other, no more than the
  limit of pages, the result is the servers of all of them in order, and with a cache they are what is cached.
\<close>

theorem all_pages_are_listed:
  assumes "serves fetch c limit PNone ps w" "length ps \<le> max_pages" "list_all (\<lambda>p. list_all typed_entry (sp_servers p)) ps"
    and "re_writable env" "concat (map sp_servers ps) \<noteq> []"
  shows "\<exists>disk' w'. list_all_servers env fetch c limit max_pages (disk, w) = ((disk', w'), Inr (concat (map sp_servers ps))) \<and>
    (rc_cache c \<longrightarrow> cached_entries env (rc_base_url c) disk' = Inr (Some (concat (map sp_servers ps))))"
proof -
  obtain d1 w1 where 1: "list_pages env fetch c limit max_pages PNone (disk, w) = ((d1, w1), Inr (concat (map sp_servers ps)))"
    using list_pages_served [OF assms(1-3)] by blast
  have "list_all typed_entry (concat (map sp_servers ps))" using assms(3) by (auto simp: list_all_iff)
  then obtain d2 where "cache_put_entries env (rc_base_url c) (concat (map sp_servers ps)) d1 = Inr d2"
    "cached_entries env (rc_base_url c) d2 = Inr (Some (concat (map sp_servers ps)))" using put_then_get assms(4) by blast
  then show ?thesis using 1 assms(5) by (simp add: list_all_servers_def del: concat_eq_Nil_conv)
qed

theorem all_pages_are_listed_witness:
  "\<exists>disk' w'. list_all_servers ex_registry_env ex_fetch ex_client 50 20 ([], 5) = ((disk', w'), Inr (sp_servers ex_first @ sp_servers ex_second))"
proof -
  have "serves ex_fetch ex_client 50 PNone [ex_first, ex_second] 5" "re_writable ex_registry_env"
    "list_all (\<lambda>p. list_all typed_entry (sp_servers p)) [ex_first, ex_second]" "concat (map sp_servers [ex_first, ex_second]) \<noteq> []" by code_simp+
  then show ?thesis using all_pages_are_listed [of ex_fetch ex_client 50 "[ex_first, ex_second]" 5 20 ex_registry_env "[]"] by fastforce
qed

section \<open>Flaws\<close>

text \<open>
  A registry that fails in the middle of a listing is listed wrongly: when the second page cannot be
  fetched, the fallback gives the cached first page, so that its servers are returned twice, and cached like that.
\<close>

theorem failed_page_repeats_the_first:
  assumes "fetch (server_path (rc_rtype c)) (list_params (rc_rtype c) limit PNone) w = (Inr v, w1)" "parse_page (rc_rtype c) v = Inr page"
    and "py_truthy (sp_next_cursor page)" "fst (fetch (server_path (rc_rtype c)) (list_params (rc_rtype c) limit (sp_next_cursor page)) w1) = Inl e"
    and "rc_cache c" "re_writable env" "list_all typed_entry (sp_servers page)" "sp_servers page \<noteq> []" "2 \<le> max_pages"
  shows "\<exists>disk' w'. list_all_servers env fetch c limit max_pages (disk, w) = ((disk', w'), Inr (sp_servers page @ sp_servers page)) \<and>
    cached_entries env (rc_base_url c) disk' = Inr (Some (sp_servers page @ sp_servers page))"
proof -
  let ?url = "rc_base_url c" let ?es = "sp_servers page"
  obtain d1 where d1: "cache_put_entries env ?url ?es disk = Inr d1" "cached_entries env ?url d1 = Inr (Some ?es)" using put_then_get [OF assms(7,6)] by blast
  obtain d2 where d2: "cache_put_entries env ?url (?es @ ?es) d1 = Inr d2" "cached_entries env ?url d2 = Inr (Some (?es @ ?es))"
    using put_then_get [of "?es @ ?es" env ?url d1] assms(6,7) by auto
  obtain w2 where w2: "fetch (server_path (rc_rtype c)) (list_params (rc_rtype c) limit (sp_next_cursor page)) w1 = (Inl e, w2)"
    using assms(4) by (metis prod.collapse)
  have 1: "list_servers env fetch c PNone limit (disk, w) = ((d1, w1), Inr page)"
    using assms(1,2,5) d1(1) by (simp add: list_servers_def)
  have 2: "list_servers env fetch c (sp_next_cursor page) limit (d1, w1) = ((d1, w2), Inr (last_page ?es))"
    using w2 assms(5) d1(2) by (simp add: list_servers_def fallback_page_def)
  obtain n where "max_pages = Suc (Suc n)" using assms(9) by (metis Suc_le_D numeral_2_eq_2 Suc_le_mono)
  then have "list_pages env fetch c limit max_pages PNone (disk, w) = ((d1, w2), Inr (?es @ ?es))" using 1 2 assms(3) by simp
  then show ?thesis using d2 assms(5,8) by (simp add: list_all_servers_def)
qed

theorem failed_page_repeats_the_first_witness:
  "\<exists>disk' w'. list_all_servers ex_registry_env ex_fetch ex_client 50 20 ([], 1) = ((disk', w'), Inr (sp_servers ex_first @ sp_servers ex_first))"
proof -
  have "ex_fetch (server_path (rc_rtype ex_client)) (list_params (rc_rtype ex_client) 50 PNone) 1 = (Inr (ex_page [''a'', ''b''] (PStr ''2'')), 0)"
    "parse_page (rc_rtype ex_client) (ex_page [''a'', ''b''] (PStr ''2'')) = Inr ex_first" "py_truthy (sp_next_cursor ex_first)"
    "fst (ex_fetch (server_path (rc_rtype ex_client)) (list_params (rc_rtype ex_client) 50 (sp_next_cursor ex_first)) 0) = Inl TimeoutError"
    "rc_cache ex_client" "re_writable ex_registry_env" "list_all typed_entry (sp_servers ex_first)" "sp_servers ex_first \<noteq> []"
    by code_simp+
  then show ?thesis
    using failed_page_repeats_the_first [of ex_fetch ex_client 50 1 "ex_page [''a'', ''b''] (PStr ''2'')" 0 ex_first TimeoutError ex_registry_env 20 "[]"] by auto
qed

text \<open>A single server that the registry wraps, as it does in listings, is read as one without a name.\<close>

lemma wrapped_server_loses_its_name:
  "map_sum id (map en_name \<circ> sp_servers) (parse_page Generic (PDict [(''servers'', PList [PDict [(''server'', PDict [(''name'', PStr ''a'')])]])])) = Inr [PStr ''a''] \<and>
   map_sum id en_name (entry_from_raw Generic (PDict [(''server'', PDict [(''name'', PStr ''a'')])])) = Inr (PStr [])"
  by code_simp

text \<open>A page whose \<open>pageInfo\<close> is null counts as a failed request, although its servers were received.\<close>

lemma null_page_info_is_a_failure:
  "isl (parse_page Glama (PDict [(''servers'', PList []), (''pageInfo'', PNone)]))"
  by code_simp

end
