(* ===== verification/Server_Sessions.thy ===== *)
theory Server_Sessions
  imports Py_Regex "HOL-Library.List_Lexorder" "HOL-Library.Char_ord"
begin

text \<open>
  Servers that run in the background: \<open>sessions.py\<close> and the commands that start and stop them
  (\<open>cli/_server.py\<close>, \<open>cli/_stop.py\<close>). A server has a file in the sessions directory with its
  process id and address. The state is the host: a clock, the processes and the files. A process
  may end a while after a signal, or never; time (in milliseconds) passes only while the program
  sleeps or a server runs. Process ids are positive and not too large for the
  system: what signals to other ids do (process groups, errors) is not modelled. The reading and writing of session files (JSON) and the
  resolution of symbolic links are arguments; a file whose values have other types than the class
  declares counts as unreadable. Messages are left out, exit codes are kept.
\<close>

section \<open>The host\<close>

datatype signal = SIG_NULL | SIGTERM | SIGKILL

datatype kill_error = ProcessLookupError | PermissionError

record process =
  pr_pid :: int
  pr_ours :: bool
  pr_cmdline :: "string option"
  pr_on_term :: "nat option"
  pr_on_kill :: "nat option"
  pr_exit :: "nat option"

record host =
  h_now :: nat
  h_procs :: "process list"
  h_files :: "(string, string) dict"

definition running :: "host \<Rightarrow> process \<Rightarrow> bool" where
  "running h p \<longleftrightarrow> (case pr_exit p of None \<Rightarrow> True | Some t \<Rightarrow> h_now h < t)"

definition sooner :: "nat option \<Rightarrow> nat option \<Rightarrow> nat option" where
  "sooner a b = (case a of None \<Rightarrow> b | Some x \<Rightarrow> (case b of None \<Rightarrow> a | Some y \<Rightarrow> Some (min x y)))"

definition signalled :: "signal \<Rightarrow> nat \<Rightarrow> process \<Rightarrow> process" where
  "signalled sig now p =
     (case sig of
        SIG_NULL \<Rightarrow> p
      | SIGTERM \<Rightarrow> p\<lparr>pr_exit := sooner (pr_exit p) (map_option ((+) now) (pr_on_term p))\<rparr>
      | SIGKILL \<Rightarrow> p\<lparr>pr_exit := sooner (pr_exit p) (map_option ((+) now) (pr_on_kill p))\<rparr>)"

text \<open>\<open>os.kill(pid, sig)\<close>: the error it raises, if any, and the host afterwards.\<close>

definition os_kill :: "int \<Rightarrow> signal \<Rightarrow> host \<Rightarrow> kill_error option \<times> host" where
  "os_kill pid sig h =
     (case find (\<lambda>p. pr_pid p = pid \<and> running h p) (h_procs h) of
        None \<Rightarrow> (Some ProcessLookupError, h)
      | Some p \<Rightarrow>
          (if pr_ours p
           then (None, h\<lparr>h_procs := map (\<lambda>q. if pr_pid q = pid \<and> running h q then signalled sig (h_now h) q else q) (h_procs h)\<rparr>)
           else (Some PermissionError, h)))"

definition sleep :: "nat \<Rightarrow> host \<Rightarrow> host" where
  "sleep d h = h\<lparr>h_now := h_now h + d\<rparr>"

definition write_file :: "string \<Rightarrow> string \<Rightarrow> host \<Rightarrow> host" where
  "write_file p s h = h\<lparr>h_files := dict_set p s (h_files h)\<rparr>"

definition unlink :: "string \<Rightarrow> host \<Rightarrow> host" where
  "unlink p h = h\<lparr>h_files := dict_del p (h_files h)\<rparr>"

definition and_then :: "host \<times> 'a res \<Rightarrow> ('a \<Rightarrow> host \<Rightarrow> host \<times> 'b res) \<Rightarrow> host \<times> 'b res" where
  "and_then m f = (case m of (h, Inl e) \<Rightarrow> (h, Inl e) | (h, Inr x) \<Rightarrow> f x h)"

text \<open>\<open>int(s)\<close> and \<open>s.isdigit()\<close>, which also holds of superscript digits.\<close>

definition py_int_of :: "string \<Rightarrow> int option" where
  "py_int_of s =
     (case take_sign (str_strip s) of (neg, r) \<Rightarrow>
        (case take_digits r of (ds, rest) \<Rightarrow>
           (if ds = [] \<or> rest \<noteq> [] then None else Some (if neg then - int (digits_nat ds) else int (digits_nat ds)))))"

definition isdigit :: "string \<Rightarrow> bool" where
  "isdigit s \<longleftrightarrow> s \<noteq> [] \<and> list_all (\<lambda>c. is_digit c \<or> code c \<in> {178, 179, 185}) s"

section \<open>Sessions\<close>

record SessionInfo =
  si_name :: string
  si_pid :: int
  si_host :: string
  si_port :: int
  si_config :: string
  si_log_file :: string
  si_started_at :: string

record session_env =
  se_dir :: string
  se_realpath :: "string \<Rightarrow> string"
  se_dump :: "SessionInfo \<Rightarrow> string"
  se_parse :: "string \<Rightarrow> SessionInfo option"
  se_pid_file :: string
  se_pid :: int

definition pid_alive :: "int \<Rightarrow> host \<Rightarrow> bool" where
  "pid_alive pid h \<longleftrightarrow> fst (os_kill pid SIG_NULL h) \<noteq> Some ProcessLookupError"

definition is_alive :: "SessionInfo \<Rightarrow> host \<Rightarrow> bool" where
  "is_alive info h = pid_alive (si_pid info) h"

definition name_char :: "char \<Rightarrow> bool" where
  "name_char c \<longleftrightarrow> 97 \<le> code c \<and> code c \<le> 122 \<or> is_digit c"

definition NAME_RE :: regex where
  "NAME_RE = seq [TextStart, Cls name_char, Rep 0 (Some 31) True (Cls (\<lambda>c. name_char c \<or> c = CHR ''-'')), TextEnd]"

definition validate_name :: "string \<Rightarrow> string res" where
  "validate_name raw =
     (let name = str_strip (str_lower raw)
      in if re_match NAME_RE name \<noteq> None then Inr name else Inl (ValueError (''Invalid session name '' @ name)))"

definition auto_name :: "int \<Rightarrow> int \<Rightarrow> string" where
  "auto_name port default_port = (if port = default_port then ''default'' else ''argus-'' @ show_int port)"

definition path_join :: "string \<Rightarrow> string \<Rightarrow> string" where
  "path_join d n = (if starts_with ''/'' n then n else if ends_with ''/'' d then d @ n else d @ ''/'' @ n)"

definition session_path :: "session_env \<Rightarrow> string \<Rightarrow> string res" where
  "session_path env name =
     (let resolved_dir = se_realpath env (se_dir env);
          target = se_realpath env (path_join resolved_dir (name @ ''.json''))
      in if starts_with (resolved_dir @ ''/'') target then Inr target
         else Inl (ValueError (''Session path escapes sessions directory: '' @ name)))"

definition save_session :: "session_env \<Rightarrow> SessionInfo \<Rightarrow> host \<Rightarrow> host \<times> string res" where
  "save_session env info h =
     (case session_path env (si_name info) of
        Inl e \<Rightarrow> (h, Inl e)
      | Inr p \<Rightarrow> (write_file p (se_dump env info) h, Inr p))"

definition load_session :: "session_env \<Rightarrow> string \<Rightarrow> host \<Rightarrow> SessionInfo option res" where
  "load_session env name h =
     (case session_path env name of
        Inl e \<Rightarrow> Inl e
      | Inr p \<Rightarrow> Inr (Option.bind (dict_get (h_files h) p) (se_parse env)))"

definition remove_session :: "session_env \<Rightarrow> string \<Rightarrow> host \<Rightarrow> host \<times> unit res" where
  "remove_session env name h =
     (case session_path env name of
        Inl e \<Rightarrow> (h, Inl e)
      | Inr p \<Rightarrow> (unlink p h, Inr ()))"

text \<open>The names of the files directly in a directory, in order, and those of session files without the ending.\<close>

definition listdir :: "string \<Rightarrow> host \<Rightarrow> string list" where
  "listdir d h = filter (\<lambda>n. CHR ''/'' \<notin> set n) (map (drop (length d + 1)) (filter (starts_with (d @ ''/'')) (dict_keys (h_files h))))"

definition session_names :: "session_env \<Rightarrow> host \<Rightarrow> string list" where
  "session_names env h = map (\<lambda>f. take (length f - 5) f) (filter (ends_with ''.json'') (sort (listdir (se_realpath env (se_dir env)) h)))"

fun sessions_of :: "session_env \<Rightarrow> bool \<Rightarrow> string list \<Rightarrow> host \<Rightarrow> host \<times> SessionInfo list res" where
  "sessions_of env include_dead [] h = (h, Inr [])"
| "sessions_of env include_dead (n # ns) h =
     (case load_session env n h of
        Inl e \<Rightarrow> (h, Inl e)
      | Inr None \<Rightarrow> sessions_of env include_dead ns h
      | Inr (Some info) \<Rightarrow>
          (if is_alive info h \<or> include_dead
           then and_then (sessions_of env include_dead ns h) (\<lambda>r h'. (h', Inr (info # r)))
           else and_then (remove_session env (si_name info) h) (\<lambda>u h'. sessions_of env include_dead ns h')))"

definition list_sessions :: "session_env \<Rightarrow> bool \<Rightarrow> host \<Rightarrow> host \<times> SessionInfo list res" where
  "list_sessions env include_dead h = sessions_of env include_dead (session_names env h) h"

definition find_session :: "session_env \<Rightarrow> string option \<Rightarrow> host \<Rightarrow> host \<times> SessionInfo option res" where
  "find_session env name h =
     (case name of
        Some n \<Rightarrow>
          (h, map_sum id (\<lambda>r. case r of Some info \<Rightarrow> if is_alive info h then Some info else None | None \<Rightarrow> None) (load_session env n h))
      | None \<Rightarrow> and_then (list_sessions env False h) (\<lambda>alive h'. (h', Inr (case alive of [s] \<Rightarrow> Some s | _ \<Rightarrow> None))))"

definition check_port_conflict :: "session_env \<Rightarrow> string \<Rightarrow> int \<Rightarrow> host \<Rightarrow> host \<times> SessionInfo option res" where
  "check_port_conflict env address port h =
     and_then (list_sessions env False h) (\<lambda>alive h'.
       (h', Inr (find (\<lambda>s. si_port s = port \<and> (si_host s = address \<or> si_host s = ''0.0.0.0'')) alive)))"

section \<open>Stopping a process\<close>

text \<open>The loop that looks every tenth of a second whether a process has gone.\<close>

function wait_gone :: "int \<Rightarrow> nat \<Rightarrow> host \<Rightarrow> bool \<times> host" where
  "wait_gone pid deadline h =
     (if h_now h < deadline then if pid_alive pid h then wait_gone pid deadline (sleep 100 h) else (True, h)
      else (False, h))"
  by pat_completeness auto

termination
  by (relation "measure (\<lambda>(pid, deadline, h). deadline - h_now h)") (auto simp: sleep_def)

declare wait_gone.simps [simp del]

definition stop_session :: "session_env \<Rightarrow> SessionInfo \<Rightarrow> nat \<Rightarrow> bool \<Rightarrow> host \<Rightarrow> host \<times> bool res" where
  "stop_session env info timeout force h =
     (let pid = si_pid info; gone = (\<lambda>h. and_then (remove_session env (si_name info) h) (\<lambda>u h'. (h', Inr True)))
      in if \<not> is_alive info h then gone h
         else case os_kill pid (if force then SIGKILL else SIGTERM) h of
                (Some e, h1) \<Rightarrow> (h1, Inr False)
              | (None, h1) \<Rightarrow>
                  (case wait_gone pid (h_now h1 + timeout) h1 of
                     (True, h2) \<Rightarrow> gone h2
                   | (False, h2) \<Rightarrow>
                       (let h3 = (if force then h2 else sleep 200 (snd (os_kill pid SIGKILL h2)))
                        in and_then (remove_session env (si_name info) h3) (\<lambda>u h'. (h', Inr (\<not> is_alive info h'))))))"

text \<open>
  Here the probe of the process lets a refusal through as an exception. It is not asked for a
  process whose signal was accepted, unless its id was taken over by somebody else's.
\<close>

definition probe :: "int \<Rightarrow> host \<Rightarrow> bool res" where
  "probe pid h =
     (case fst (os_kill pid SIG_NULL h) of
        None \<Rightarrow> Inr True
      | Some ProcessLookupError \<Rightarrow> Inr False
      | Some PermissionError \<Rightarrow> Inl (OtherException ''PermissionError'' ''Operation not permitted''))"

function wait_exited :: "int \<Rightarrow> nat \<Rightarrow> host \<Rightarrow> host \<times> bool res" where
  "wait_exited pid deadline h =
     (if h_now h < deadline
      then case probe pid h of Inl e \<Rightarrow> (h, Inl e) | Inr True \<Rightarrow> wait_exited pid deadline (sleep 100 h) | Inr False \<Rightarrow> (h, Inr True)
      else (h, Inr False))"
  by pat_completeness auto

termination
  by (relation "measure (\<lambda>(pid, deadline, h). deadline - h_now h)") (auto simp: sleep_def)

declare wait_exited.simps [simp del]

definition stop_pid :: "int \<Rightarrow> nat \<Rightarrow> bool \<Rightarrow> host \<Rightarrow> host \<times> bool res" where
  "stop_pid pid timeout force h =
     (case os_kill pid (if force then SIGKILL else SIGTERM) h of
        (Some ProcessLookupError, h1) \<Rightarrow> (h1, Inr True)
      | (Some PermissionError, h1) \<Rightarrow> (h1, Inr False)
      | (None, h1) \<Rightarrow>
          and_then (wait_exited pid (h_now h1 + timeout) h1) (\<lambda>gone h2.
            if gone then (h2, Inr True)
            else let h3 = (if force then h2 else sleep 300 (snd (os_kill pid SIGKILL h2))) in (h3, map_sum id Not (probe pid h3))))"

section \<open>Servers without a session\<close>

text \<open>The scan of \<open>/proc\<close>, in the order of the processes of the host; when a process started is left out.\<close>

record OrphanProcess =
  op_pid :: int
  op_cmdline :: string

definition cmdline_text :: "string \<Rightarrow> string" where
  "cmdline_text raw = str_strip (map (\<lambda>c. if code c = 0 then CHR '' '' else c) raw)"

definition looks_like_server :: "string \<Rightarrow> bool" where
  "looks_like_server parts \<longleftrightarrow>
     parts \<noteq> [] \<and> str_contains ''argus_mcp'' parts \<and> str_contains ''server'' parts \<and>
     \<not> str_contains ''pytest'' parts \<and> \<not> str_contains ''grep'' parts \<and> \<not> str_contains ''tail '' parts"

definition orphan_of :: "int list \<Rightarrow> process \<Rightarrow> OrphanProcess option" where
  "orphan_of known p =
     (if pr_pid p \<in> set known then None
      else case pr_cmdline p of
             None \<Rightarrow> None
           | Some raw \<Rightarrow> if looks_like_server (cmdline_text raw) then Some \<lparr>op_pid = pr_pid p, op_cmdline = cmdline_text raw\<rparr> else None)"

definition discover_server_processes :: "session_env \<Rightarrow> host \<Rightarrow> host \<times> OrphanProcess list res" where
  "discover_server_processes env h =
     and_then (list_sessions env False h) (\<lambda>tracked h'.
       (h', Inr (List.map_filter (orphan_of (se_pid env # map si_pid tracked)) (filter (running h') (h_procs h')))))"

section \<open>The stop command\<close>

abbreviation SystemExit :: exn where
  "SystemExit \<equiv> OtherException ''SystemExit'' ''1''"

definition cleanup_pid_file :: "session_env \<Rightarrow> host \<Rightarrow> host" where
  "cleanup_pid_file env = unlink (se_pid_file env)"

definition exit_unless :: "host \<times> bool res \<Rightarrow> (host \<Rightarrow> host) \<Rightarrow> host \<times> unit res" where
  "exit_unless m cleanup = and_then m (\<lambda>ok h. if ok then (cleanup h, Inr ()) else (h, Inl SystemExit))"

definition stop_named_session :: "session_env \<Rightarrow> string \<Rightarrow> host \<Rightarrow> host \<times> unit res" where
  "stop_named_session env name h =
     (case load_session env name h of
        Inl e \<Rightarrow> (h, Inl e)
      | Inr None \<Rightarrow> (h, Inl SystemExit)
      | Inr (Some info) \<Rightarrow>
          (if is_alive info h then exit_unless (stop_session env info 3000 False h) (cleanup_pid_file env)
           else remove_session env name h))"

text \<open>Thirty looks, each after a tenth of a second.\<close>

fun wait_looks :: "nat \<Rightarrow> int \<Rightarrow> host \<Rightarrow> host \<times> bool res" where
  "wait_looks 0 pid h = (h, Inr False)"
| "wait_looks (Suc n) pid h =
     (let h' = sleep 100 h
      in case probe pid h' of Inl e \<Rightarrow> (h', Inl e) | Inr True \<Rightarrow> wait_looks n pid h' | Inr False \<Rightarrow> (h', Inr True))"

definition stop_legacy_pid :: "session_env \<Rightarrow> host \<Rightarrow> host \<times> unit res" where
  "stop_legacy_pid env h =
     (case Option.bind (dict_get (h_files h) (se_pid_file env)) py_int_of of
        None \<Rightarrow> (h, Inl SystemExit)
      | Some pid \<Rightarrow>
          (if \<not> pid_alive pid h then (cleanup_pid_file env h, Inr ())
           else case os_kill pid SIGTERM h of
                  (Some e, h1) \<Rightarrow> (h1, Inl SystemExit)
                | (None, h1) \<Rightarrow>
                    and_then (wait_looks 30 pid h1) (\<lambda>gone h2.
                      (cleanup_pid_file env (if gone then h2 else snd (os_kill pid SIGKILL h2)), Inr ()))))"

text \<open>Stopping one after the other; the result is the number of those that did not stop.\<close>

fun stop_each :: "('x \<Rightarrow> host \<Rightarrow> host \<times> bool res) \<Rightarrow> 'x list \<Rightarrow> host \<Rightarrow> host \<times> nat res" where
  "stop_each stop [] h = (h, Inr 0)"
| "stop_each stop (x # xs) h =
     and_then (stop x h) (\<lambda>ok h1. and_then (stop_each stop xs h1) (\<lambda>n h2. (h2, Inr (if ok then n else n + 1))))"

definition stop_all_servers :: "session_env \<Rightarrow> bool \<Rightarrow> host \<Rightarrow> host \<times> unit res" where
  "stop_all_servers env force h =
     and_then (list_sessions env False h) (\<lambda>sessions h1.
     and_then (discover_server_processes env h1) (\<lambda>orphans h2.
       if sessions = [] \<and> orphans = [] then (h2, Inr ())
       else and_then (stop_each (\<lambda>s. stop_session env s 3000 force) sessions h2) (\<lambda>m h3.
            and_then (stop_each (\<lambda>q. stop_pid (op_pid q) 3000 force) orphans h3) (\<lambda>n h4.
              (cleanup_pid_file env h4, if m + n = 0 then Inr () else Inl SystemExit)))))"

definition cmd_stop :: "session_env \<Rightarrow> bool \<Rightarrow> bool \<Rightarrow> string option \<Rightarrow> host \<Rightarrow> host \<times> unit res" where
  "cmd_stop env stop_all force session_name h =
     (if stop_all then stop_all_servers env force h
      else case session_name of
             Some (c # cs) \<Rightarrow>
               (if isdigit (c # cs)
                then case py_int_of (c # cs) of
                       None \<Rightarrow> (h, Inl (ValueError (''invalid literal for int() with base 10: '' @ repr_str (c # cs))))
                     | Some pid \<Rightarrow> exit_unless (stop_pid pid 3000 force h) (cleanup_pid_file env)
                else stop_named_session env (c # cs) h)
           | _ \<Rightarrow>
               and_then (find_session env None h) (\<lambda>found h1.
                 case found of
                   Some info \<Rightarrow> exit_unless (stop_session env info 3000 force h1) (cleanup_pid_file env)
                 | None \<Rightarrow>
                     and_then (list_sessions env False h1) (\<lambda>alive h2.
                       if length alive > 1 then (h2, Inl SystemExit)
                       else and_then (discover_server_processes env h2) (\<lambda>orphans h3.
                         if orphans \<noteq> [] then (h3, Inl SystemExit) else stop_legacy_pid env h3))))"

text \<open>What the status command lists.\<close>

definition cmd_status :: "session_env \<Rightarrow> host \<Rightarrow> host \<times> (SessionInfo list \<times> OrphanProcess list) res" where
  "cmd_status env h =
     and_then (list_sessions env False h) (\<lambda>sessions h1.
     and_then (discover_server_processes env h1) (\<lambda>orphans h2. (h2, Inr (sessions, orphans))))"

section \<open>Starting a server\<close>

definition DEFAULT_HOST :: string where "DEFAULT_HOST = ''127.0.0.1''"

definition DEFAULT_PORT :: int where "DEFAULT_PORT = 9000"

record server_args =
  sa_name :: "string option"
  sa_host :: string
  sa_port :: int
  sa_log_level :: string
  sa_config :: "string option"

definition write_pid_file :: "session_env \<Rightarrow> string \<Rightarrow> string \<Rightarrow> string \<Rightarrow> int \<Rightarrow> string \<Rightarrow> host \<Rightarrow> host \<times> unit res" where
  "write_pid_file env started name address port config h =
     and_then (save_session env \<lparr>si_name = name, si_pid = se_pid env, si_host = address, si_port = port, si_config = config,
                                 si_log_file = [], si_started_at = started\<rparr> h)
       (\<lambda>p h'. (write_file (se_pid_file env) (show_int (se_pid env)) h', Inr ()))"

definition remove_pid_file :: "session_env \<Rightarrow> string \<Rightarrow> host \<Rightarrow> host \<times> unit res" where
  "remove_pid_file env name h =
     (case load_session env name h of
        Inl e \<Rightarrow> (h, Inl e)
      | Inr found \<Rightarrow>
          and_then (if (case found of Some info \<Rightarrow> si_pid info = se_pid env | None \<Rightarrow> False) then remove_session env name h else (h, Inr ()))
            (\<lambda>u h'. (if Option.bind (dict_get (h_files h') (se_pid_file env)) py_int_of = Some (se_pid env)
                     then unlink (se_pid_file env) h' else h', Inr ())))"

text \<open>
  A server in the foreground: it is registered before it runs and its registration is removed
  when it ends. The run (serving until it ends, or failing at once where the address is taken) is an
  argument; an exception of it, other than an interrupt, becomes an exit.
\<close>

definition effective_name :: "server_args \<Rightarrow> string" where
  "effective_name args = (case sa_name args of Some (c # cs) \<Rightarrow> c # cs | _ \<Rightarrow> auto_name (sa_port args) DEFAULT_PORT)"

definition or_empty :: "string option \<Rightarrow> string" where
  "or_empty s = (case s of Some x \<Rightarrow> x | None \<Rightarrow> [])"

definition cmd_server :: "session_env \<Rightarrow> string \<Rightarrow> server_args \<Rightarrow> (host \<Rightarrow> host \<times> bool) \<Rightarrow> host \<Rightarrow> host \<times> unit res" where
  "cmd_server env started args run h =
     and_then (write_pid_file env started (effective_name args) (sa_host args) (sa_port args) (or_empty (sa_config args)) h)
       (\<lambda>u h1. case run h1 of (h2, failed) \<Rightarrow>
          and_then (remove_pid_file env (effective_name args) h2) (\<lambda>v h3. (h3, if failed then Inl SystemExit else Inr ())))"

text \<open>A server in the background: the command line of the new process, and the file that is saved for it.\<close>

definition detach_command :: "string \<Rightarrow> string \<Rightarrow> server_args \<Rightarrow> string list" where
  "detach_command python name args =
     [python, ''-m'', ''argus_mcp'', ''server'', ''--name'', name] @
     (if sa_host args \<noteq> DEFAULT_HOST then [''--host'', sa_host args] else []) @
     (if sa_port args \<noteq> DEFAULT_PORT then [''--port'', show_int (sa_port args)] else []) @
     (if sa_log_level args \<noteq> ''info'' then [''--log-level'', sa_log_level args] else []) @
     (case sa_config args of None \<Rightarrow> [] | Some c \<Rightarrow> [''--config'', c])"

definition detach_server ::
    "session_env \<Rightarrow> string \<Rightarrow> string \<Rightarrow> string \<Rightarrow> server_args \<Rightarrow> (string list \<Rightarrow> host \<Rightarrow> int \<times> host) \<Rightarrow> host \<Rightarrow> host \<times> unit res" where
  "detach_server env started python log_dir args spawn h =
     (case (case sa_name args of Some (c # cs) \<Rightarrow> validate_name (c # cs) | _ \<Rightarrow> Inr (auto_name (sa_port args) DEFAULT_PORT)) of
        Inl e \<Rightarrow> (h, Inl e)
      | Inr name \<Rightarrow>
          and_then (check_port_conflict env (sa_host args) (sa_port args) h) (\<lambda>conflict h1.
            if conflict \<noteq> None then (h1, Inl SystemExit)
            else case spawn (detach_command python name args) h1 of (pid, h2) \<Rightarrow>
                   and_then (save_session env \<lparr>si_name = name, si_pid = pid, si_host = sa_host args, si_port = sa_port args,
                       si_config = or_empty (sa_config args), si_log_file = path_join log_dir (''detached-'' @ name @ ''.log''),
                       si_started_at = started\<rparr> h2) (\<lambda>p h3. (h3, Inr ()))))"

end
