(* ===== verification/Session_Properties.thy ===== *)
theory Session_Properties
  imports Server_Sessions
begin

text \<open>
  Properties of background servers: everything the commands do moves the host forward (time passes,
  processes end and files go, never the other way), a server that is ours to stop is stopped in
  bounded time, stopping all servers leaves none, and what a name of a session can be.
\<close>

section \<open>Forward steps\<close>

definition same_process :: "process \<Rightarrow> process \<Rightarrow> bool" where
  "same_process p q \<longleftrightarrow> pr_pid q = pr_pid p \<and> pr_ours q = pr_ours p \<and> pr_cmdline q = pr_cmdline p \<and>
     pr_on_term q = pr_on_term p \<and> pr_on_kill q = pr_on_kill p \<and>
     (\<forall>t. pr_exit p = Some t \<longrightarrow> (\<exists>t' \<le> t. pr_exit q = Some t'))"

definition later :: "host \<Rightarrow> host \<Rightarrow> bool" where
  "later h h' \<longleftrightarrow> h_now h \<le> h_now h' \<and> list_all2 same_process (h_procs h) (h_procs h') \<and>
     (\<forall>k. dict_get (h_files h') k = dict_get (h_files h) k \<or> dict_get (h_files h') k = None)"

lemma same_process_refl [simp]: "same_process p p"
  by (simp add: same_process_def)

lemma same_process_trans: "same_process p q \<Longrightarrow> same_process q r \<Longrightarrow> same_process p r"
  unfolding same_process_def by (metis order_trans)

lemma later_refl [simp]: "later h h"
  by (simp add: later_def list_all2_refl)

lemma later_trans [trans]:
  assumes "later a b" "later b c"
  shows "later a c"
  unfolding later_def
proof (intro conjI allI)
  show "h_now a \<le> h_now c" using assms by (simp add: later_def)
  show "list_all2 same_process (h_procs a) (h_procs c)"
    using assms by (simp add: later_def list_all2_conv_all_nth) (metis same_process_trans)
  show "dict_get (h_files c) k = dict_get (h_files a) k \<or> dict_get (h_files c) k = None" for k
    using assms by (metis later_def)
qed

lemma later_sleep [simp]: "later h (sleep d h)"
  by (simp add: later_def sleep_def list_all2_refl)

lemma later_unlink [simp]: "later h (unlink p h)"
  by (simp add: later_def unlink_def list_all2_refl)

lemma same_process_signalled: "same_process p (signalled sig now p)"
  by (auto simp: same_process_def signalled_def sooner_def split: signal.split option.split)

lemma later_kill [simp]: "later h (snd (os_kill pid sig h))"
  by (auto simp: later_def os_kill_def list_all2_map2 same_process_signalled intro!: list_all2_refl split: option.split)

text \<open>A list of processes and what became of them.\<close>

lemma later_process:
  assumes "later h h'" "q \<in> set (h_procs h')"
  obtains p where "p \<in> set (h_procs h)" "same_process p q"
proof -
  have l: "list_all2 same_process (h_procs h) (h_procs h')" using assms(1) by (simp add: later_def)
  obtain i where "i < length (h_procs h')" "q = h_procs h' ! i" using assms(2) by (auto simp: in_set_conv_nth)
  then show ?thesis using that [of "h_procs h ! i"] l by (simp add: list_all2_conv_all_nth)
qed

lemma running_before: "later h h' \<Longrightarrow> same_process p q \<Longrightarrow> running h' q \<Longrightarrow> running h p"
  by (fastforce simp: later_def same_process_def running_def split: option.splits)

lemma found: "find P xs = Some x \<Longrightarrow> x \<in> set xs \<and> P x"
  by (induction xs) (auto split: if_splits)

lemma pid_alive_iff: "pid_alive pid h \<longleftrightarrow> (\<exists>p \<in> set (h_procs h). pr_pid p = pid \<and> running h p)"
  by (auto simp: pid_alive_def os_kill_def find_None_iff dest: found split: option.split)

lemma pid_alive_before: "later h h' \<Longrightarrow> pid_alive pid h' \<Longrightarrow> pid_alive pid h"
  unfolding pid_alive_iff by (metis later_process running_before same_process_def)

section \<open>The operations are forward steps\<close>

lemma later_wait_gone: "later h (snd (wait_gone pid deadline h))"
proof (induction pid deadline h rule: wait_gone.induct)
  case (1 pid deadline h)
  then show ?case by (subst wait_gone.simps) (auto intro: later_trans [OF later_sleep])
qed

lemma later_wait_exited: "later h (fst (wait_exited pid deadline h))"
proof (induction pid deadline h rule: wait_exited.induct)
  case (1 pid deadline h)
  then show ?case by (subst wait_exited.simps) (auto intro: later_trans [OF later_sleep] split: sum.split bool.split)
qed

lemma later_and_then: "later h (fst m) \<Longrightarrow> (\<And>x h'. later h' (fst (f x h'))) \<Longrightarrow> later h (fst (and_then m f))"
  by (cases m) (auto simp: and_then_def intro: later_trans split: sum.split)

lemma later_remove [simp]: "later h (fst (remove_session env name h))"
  by (simp add: remove_session_def split: sum.split)

lemma later_sessions_of: "later h (fst (sessions_of env include_dead ns h))"
proof (induction ns arbitrary: h)
  case (Cons n ns)
  then show ?case
    by (auto intro!: later_and_then split: sum.split option.split)
qed simp

lemma later_list [simp]: "later h (fst (list_sessions env include_dead h))"
  by (simp add: list_sessions_def later_sessions_of)

lemma later_kill_eq: "os_kill pid sig h = (r, h') \<Longrightarrow> later h h'"
  using later_kill [of h pid sig] by simp

lemma later_wait_gone_eq: "wait_gone pid deadline h = (r, h') \<Longrightarrow> later h h'"
  using later_wait_gone [of h pid deadline] by simp

lemma later_finish: "later h h' \<Longrightarrow> later h (fst (and_then (remove_session env name h') (\<lambda>u h''. (h'', Inr (f h'')))))"
  by (rule later_and_then) (auto intro: later_trans)

lemma later_escalate [simp]: "later h (sleep d (snd (os_kill pid sig h)))"
  by (rule later_trans [OF later_kill later_sleep])

lemma later_stop_session [simp]: "later h (fst (stop_session env info timeout force h))"
proof (cases "is_alive info h")
  case True
  obtain r h1 where k: "os_kill (si_pid info) (if force then SIGKILL else SIGTERM) h = (r, h1)" by fastforce
  obtain b h2 where w: "wait_gone (si_pid info) (h_now h1 + timeout) h1 = (b, h2)" by fastforce
  have "later h h1" "later h h2" using later_kill_eq [OF k] later_wait_gone_eq [OF w] later_trans by blast+
  moreover have "later h (if force then h2 else sleep 200 (snd (os_kill (si_pid info) SIGKILL h2)))"
    using \<open>later h h2\<close> by (auto intro: later_trans)
  ultimately show ?thesis using True k w by (cases r; cases b) (simp_all add: stop_session_def Let_def later_finish)
qed (simp add: stop_session_def Let_def later_finish)

lemma later_stop_pid [simp]: "later h (fst (stop_pid pid timeout force h))"
proof -
  obtain r h1 where k: "os_kill pid (if force then SIGKILL else SIGTERM) h = (r, h1)" by fastforce
  have "later h (fst (and_then (wait_exited pid (h_now h1 + timeout) h1) f))" if "\<And>x h'. later h' (fst (f x h'))" for f :: "bool \<Rightarrow> host \<Rightarrow> host \<times> bool res"
    using that later_trans [OF later_kill_eq [OF k] later_wait_exited] by (rule later_and_then [rotated])
  then show ?thesis using later_kill_eq [OF k] k
    by (auto simp: stop_pid_def Let_def split: option.split kill_error.split)
qed

section \<open>Ending a process\<close>

text \<open>A process id whose process is ours and ends soon after it was killed.\<close>

definition stoppable :: "host \<Rightarrow> int \<Rightarrow> bool" where
  "stoppable h pid \<longleftrightarrow> list_all (\<lambda>p. pr_pid p = pid \<and> running h p \<longrightarrow> pr_ours p \<and> (case pr_on_kill p of Some d \<Rightarrow> d \<le> 200 | None \<Rightarrow> False)) (h_procs h)"

definition gone_by :: "nat \<Rightarrow> int \<Rightarrow> host \<Rightarrow> bool" where
  "gone_by t pid h \<longleftrightarrow> (\<forall>p \<in> set (h_procs h). pr_pid p = pid \<longrightarrow> (\<exists>e \<le> t. pr_exit p = Some e))"

lemma stoppable_later:
  assumes "later h h'" "stoppable h pid"
  shows "stoppable h' pid"
  unfolding stoppable_def list_all_iff
proof (intro ballI impI)
  fix q assume q: "q \<in> set (h_procs h')" "pr_pid q = pid \<and> running h' q"
  obtain p where p: "p \<in> set (h_procs h)" "same_process p q" using later_process [OF assms(1) q(1)] .
  then have "running h p" using running_before [OF assms(1)] q(2) by blast
  then show "pr_ours q \<and> (case pr_on_kill q of Some d \<Rightarrow> d \<le> 200 | None \<Rightarrow> False)"
    using assms(2) p q(2) by (auto simp: stoppable_def list_all_iff same_process_def)
qed

lemma gone_by_later:
  assumes "later h h'" "gone_by t pid h"
  shows "gone_by t pid h'"
  unfolding gone_by_def
proof (intro ballI impI)
  fix q assume q: "q \<in> set (h_procs h')" "pr_pid q = pid"
  obtain p where p: "p \<in> set (h_procs h)" "same_process p q" using later_process [OF assms(1) q(1)] .
  then obtain e where "e \<le> t" "pr_exit p = Some e" using assms(2) q(2) by (auto simp: gone_by_def same_process_def)
  then show "\<exists>e \<le> t. pr_exit q = Some e" using p(2) by (meson same_process_def order_trans)
qed

lemma gone_by_dead: "gone_by t pid h \<Longrightarrow> t \<le> h_now h \<Longrightarrow> \<not> pid_alive pid h"
  by (fastforce simp: gone_by_def pid_alive_iff running_def)

lemma kill_ours: "stoppable h pid \<Longrightarrow> pid_alive pid h \<Longrightarrow> fst (os_kill pid sig h) = None"
  by (auto simp: stoppable_def list_all_iff pid_alive_iff os_kill_def find_None_iff dest!: found split: option.split)

lemma probe_ours: "stoppable h pid \<Longrightarrow> probe pid h = Inr (pid_alive pid h)"
  using kill_ours [of h pid SIG_NULL] by (auto simp: probe_def pid_alive_def split: option.split kill_error.split)

lemma kill_ends:
  assumes "stoppable h pid"
  shows "gone_by (h_now h + 200) pid (snd (os_kill pid SIGKILL h))"
proof (cases "pid_alive pid h")
  case True
  then have "fst (os_kill pid SIGKILL h) = None" using assms by (rule kill_ours [rotated])
  then have k: "snd (os_kill pid SIGKILL h) = h\<lparr>h_procs := map (\<lambda>q. if pr_pid q = pid \<and> running h q then signalled SIGKILL (h_now h) q else q) (h_procs h)\<rparr>"
    by (auto simp: os_kill_def split: option.splits if_splits)
  have "\<exists>e \<le> h_now h + 200. pr_exit (signalled SIGKILL (h_now h) q) = Some e" if "q \<in> set (h_procs h)" "pr_pid q = pid" "running h q" for q
  proof -
    have "case pr_on_kill q of Some d \<Rightarrow> d \<le> 200 | None \<Rightarrow> False" using assms that by (auto simp: stoppable_def list_all_iff)
    then show ?thesis by (auto simp: signalled_def sooner_def split: option.splits)
  qed
  moreover have "\<exists>e \<le> h_now h + 200. pr_exit q = Some e" if "\<not> running h q" for q
    using that by (auto simp: running_def split: option.splits)
  moreover have "pr_pid (signalled sig t q) = pr_pid q" for sig t q by (simp add: signalled_def split: signal.split)
  ultimately show ?thesis unfolding k gone_by_def by (auto simp del: ex_simps)
next
  case False
  then have "pr_pid q = pid \<Longrightarrow> q \<in> set (h_procs h) \<Longrightarrow> \<exists>e \<le> h_now h + 200. pr_exit q = Some e" for q
    by (fastforce simp: pid_alive_iff running_def split: option.splits)
  then have "gone_by (h_now h + 200) pid h" by (simp add: gone_by_def)
  then show ?thesis by (rule gone_by_later [OF later_kill])
qed

lemma now_kill [simp]: "h_now (snd (os_kill pid sig h)) = h_now h"
  by (simp add: os_kill_def split: option.split)

lemma wait_gone_result:
  "wait_gone pid deadline h = (b, h') \<Longrightarrow> (if b then \<not> pid_alive pid h' else deadline \<le> h_now h') \<and> h_now h' \<le> max (h_now h) (deadline + 99)"
proof (induction pid deadline h rule: wait_gone.induct)
  case (1 pid deadline h)
  show ?case
  proof (cases "h_now h < deadline \<and> pid_alive pid h")
    case True
    then have "wait_gone pid deadline (sleep 100 h) = (b, h')" using "1.prems" by (simp add: wait_gone.simps [of pid deadline h])
    then show ?thesis using "1.IH" True by (auto simp: sleep_def max_def split: if_splits)
  next
    case False
    then show ?thesis using "1.prems" by (auto simp: wait_gone.simps [of pid deadline h] split: if_splits)
  qed
qed

lemma wait_exited_ours:
  "stoppable h pid \<Longrightarrow> wait_exited pid deadline h = (case wait_gone pid deadline h of (b, h') \<Rightarrow> (h', Inr b))"
proof (induction pid deadline h rule: wait_exited.induct)
  case (1 pid deadline h)
  then show ?case
    by (subst wait_exited.simps, subst wait_gone.simps) (simp add: probe_ours stoppable_later [OF later_sleep])
qed

lemma later_now: "later h h' \<Longrightarrow> h_now h \<le> h_now h'"
  by (simp add: later_def)

lemma now_remove [simp]: "h_now (fst (remove_session env name h)) = h_now h"
  by (simp add: remove_session_def unlink_def split: sum.split)

lemma running_unlink [simp]: "running (unlink p h) q = running h q"
  by (simp add: running_def unlink_def split: option.split)

lemma procs_unlink [simp]: "h_procs (unlink p h) = h_procs h"
  by (simp add: unlink_def)

lemma pid_alive_unlink [simp]: "pid_alive pid (unlink p h) = pid_alive pid h"
  by (simp add: pid_alive_iff)

lemma finish_removes:
  "session_path env name = Inr p \<Longrightarrow> and_then (remove_session env name h) f = f () (unlink p h)"
  by (simp add: remove_session_def and_then_def)

text \<open>After a signal that was accepted and the wait, and if need be the kill, the process is gone.\<close>

lemma escalation_ends:
  assumes "stoppable h pid" "os_kill pid (if force then SIGKILL else SIGTERM) h = (None, h1)" "200 \<le> timeout" "200 \<le> d"
    and "wait_gone pid (h_now h1 + timeout) h1 = (False, h2)"
  shows "\<not> pid_alive pid (if force then h2 else sleep d (snd (os_kill pid SIGKILL h2)))"
proof (cases force)
  case True
  then have "gone_by (h_now h + 200) pid h1" using kill_ends [OF assms(1)] assms(2) by simp
  then have "gone_by (h_now h + 200) pid h2" by (rule gone_by_later [OF later_wait_gone_eq [OF assms(5)]])
  moreover have "h_now h + 200 \<le> h_now h2"
    using wait_gone_result [OF assms(5)] now_kill [of pid "if force then SIGKILL else SIGTERM" h] assms(2,3) by simp
  ultimately show ?thesis using True by (simp add: gone_by_dead)
next
  case False
  have "stoppable h2 pid"
    using assms(1) later_trans [OF later_kill_eq [OF assms(2)] later_wait_gone_eq [OF assms(5)]] stoppable_later by blast
  then have "gone_by (h_now h2 + 200) pid (sleep d (snd (os_kill pid SIGKILL h2)))"
    by (intro gone_by_later [OF later_sleep] kill_ends)
  then show ?thesis using False assms(4) gone_by_dead by (fastforce simp: sleep_def)
qed

lemma stop_session_ends:
  assumes "stoppable h (si_pid info)" "session_path env (si_name info) = Inr p" "200 \<le> timeout"
  shows "\<exists>h'. stop_session env info timeout force h = (h', Inr True) \<and> \<not> is_alive info h' \<and> dict_get (h_files h') p = None \<and>
    h_now h' \<le> h_now h + timeout + 299"
proof (cases "is_alive info h")
  case True
  let ?sig = "if force then SIGKILL else SIGTERM"
  obtain h1 where k: "os_kill (si_pid info) ?sig h = (None, h1)"
    using kill_ours [OF assms(1)] True by (metis is_alive_def prod.collapse)
  have t: "h_now h1 = h_now h" using now_kill [of "si_pid info" ?sig h] k by simp
  obtain b h2 where w: "wait_gone (si_pid info) (h_now h1 + timeout) h1 = (b, h2)" by fastforce
  let ?h3 = "if force then h2 else sleep 200 (snd (os_kill (si_pid info) SIGKILL h2))"
  show ?thesis
  proof (cases b)
    case b: True
    then show ?thesis using True k w t wait_gone_result [OF w]
      by (simp add: stop_session_def Let_def finish_removes [OF assms(2)] is_alive_def) (simp add: unlink_def)
  next
    case b: False
    have "\<not> pid_alive (si_pid info) ?h3" using escalation_ends [OF assms(1) k assms(3) order_refl] w b by simp
    moreover have "h_now ?h3 \<le> h_now h + timeout + 299" using wait_gone_result [OF w] t by (simp add: sleep_def)
    ultimately show ?thesis using True k w b
      by (simp add: stop_session_def Let_def finish_removes [OF assms(2)] is_alive_def) (simp add: unlink_def split: if_splits)
  qed
qed (simp add: stop_session_def Let_def finish_removes [OF assms(2)] is_alive_def, simp add: unlink_def)

lemma stop_pid_ends:
  assumes "stoppable h pid" "200 \<le> timeout"
  shows "\<exists>h'. stop_pid pid timeout force h = (h', Inr True) \<and> \<not> pid_alive pid h'"
proof (cases "pid_alive pid h")
  case True
  let ?sig = "if force then SIGKILL else SIGTERM"
  obtain h1 where k: "os_kill pid ?sig h = (None, h1)" using kill_ours [OF assms(1) True] by (metis prod.collapse)
  have s1: "stoppable h1 pid" using stoppable_later [OF later_kill_eq [OF k] assms(1)] .
  obtain b h2 where w: "wait_gone pid (h_now h1 + timeout) h1 = (b, h2)" by fastforce
  let ?h3 = "if force then h2 else sleep 300 (snd (os_kill pid SIGKILL h2))"
  have "later h1 ?h3" using later_trans [OF later_wait_gone_eq [OF w]] by simp
  then have "probe pid ?h3 = Inr (pid_alive pid ?h3)" by (intro probe_ours stoppable_later [OF _ s1])
  then show ?thesis using k w wait_gone_result [OF w] escalation_ends [OF assms(1) k assms(2), of 300 h2]
    by (cases b) (simp_all add: stop_pid_def wait_exited_ours [OF s1] and_then_def Let_def)
next
  case False
  then have "os_kill pid sig h = (Some ProcessLookupError, h)" for sig
    by (auto simp: pid_alive_def os_kill_def split: option.splits if_splits)
  then show ?thesis using False by (simp add: stop_pid_def)
qed

section \<open>Listing sessions\<close>

text \<open>Every session file can be read or is unreadable, and names a file of the directory.\<close>

definition proper_names :: "session_env \<Rightarrow> host \<Rightarrow> bool" where
  "proper_names env h \<longleftrightarrow> list_all (\<lambda>n. case load_session env n h of
     Inl e \<Rightarrow> False | Inr None \<Rightarrow> True | Inr (Some info) \<Rightarrow> \<not> isl (session_path env (si_name info))) (session_names env h)"

lemma load_later:
  assumes "later h h'" "load_session env n h' = Inr (Some info)"
  shows "load_session env n h = Inr (Some info)"
proof -
  obtain p where p: "session_path env n = Inr p" using assms(2) by (auto simp: load_session_def split: sum.splits)
  then have "dict_get (h_files h') p \<noteq> None" using assms(2) by (cases "dict_get (h_files h') p") (auto simp: load_session_def)
  then have "dict_get (h_files h') p = dict_get (h_files h) p" using assms(1) by (metis later_def)
  then show ?thesis using assms(2) p by (simp add: load_session_def)
qed

lemma load_error: "load_session env n h = Inl e \<longleftrightarrow> session_path env n = Inl e"
  by (simp add: load_session_def split: sum.split)

lemma names_later: "later h h' \<Longrightarrow> set (session_names env h') \<subseteq> set (session_names env h)"
proof -
  assume "later h h'"
  then have "set (dict_keys (h_files h')) \<subseteq> set (dict_keys (h_files h))"
    using dict_get_None_iff [of "h_files h"] dict_get_None_iff [of "h_files h'"] unfolding later_def by (metis list.set_map subsetI)
  then have "set (listdir d h') \<subseteq> set (listdir d h)" for d
    unfolding listdir_def by (simp only: set_filter set_map) blast
  then show ?thesis unfolding session_names_def by auto
qed

lemma proper_later:
  assumes "later h h'" "proper_names env h"
  shows "proper_names env h'"
  unfolding proper_names_def list_all_iff
proof
  fix n assume "n \<in> set (session_names env h')"
  then have "case load_session env n h of Inl e \<Rightarrow> False | Inr None \<Rightarrow> True | Inr (Some info) \<Rightarrow> \<not> isl (session_path env (si_name info))"
    using assms(2) names_later [OF assms(1)] by (auto simp: proper_names_def list_all_iff)
  then show "case load_session env n h' of Inl e \<Rightarrow> False | Inr None \<Rightarrow> True | Inr (Some info) \<Rightarrow> \<not> isl (session_path env (si_name info))"
    using load_later [OF assms(1), of env n] load_error [of env n h] load_error [of env n h']
    by (auto split: sum.splits option.splits)
qed

lemma procs_remove [simp]:
  "h_procs (fst (remove_session env name h)) = h_procs h" "running (fst (remove_session env name h)) = running h"
  by (simp_all add: remove_session_def fun_eq_iff split: sum.split)

text \<open>Listing does not raise, lists only sessions that run, and those of them whose file is still there afterwards.\<close>

lemma sessions_of_Inr:
  assumes "\<And>n. n \<in> set ns \<Longrightarrow> case load_session env n h of Inl e \<Rightarrow> False | Inr None \<Rightarrow> True | Inr (Some info) \<Rightarrow> \<not> isl (session_path env (si_name info))"
  shows "\<exists>r. snd (sessions_of env include_dead ns h) = Inr r"
  using assms
proof (induction ns arbitrary: h)
  case (Cons n ns)
  have keep: "case load_session env m h' of Inl e \<Rightarrow> False | Inr None \<Rightarrow> True | Inr (Some info) \<Rightarrow> \<not> isl (session_path env (si_name info))"
    if "m \<in> set ns" "later h h'" for m h'
    using Cons.prems [of m] that load_later [OF that(2), of env m] load_error [of env m h] load_error [of env m h']
    by (auto split: sum.splits option.splits)
  show ?case
  proof (cases "load_session env n h")
    case (Inr found)
    show ?thesis
    proof (cases found)
      case (Some info)
      obtain p where p: "session_path env (si_name info) = Inr p" using Cons.prems [of n] Inr Some by (auto simp: isl_def split: sum.splits) (metis isl_def sum.exhaust)
      then show ?thesis using Cons.IH [of h] Cons.IH [of "unlink p h"] keep Inr Some
        by (auto simp: and_then_def remove_session_def split: prod.splits sum.splits)
    qed (use Cons Inr in auto)
  qed (use Cons.prems [of n] in auto)
qed simp

lemma list_sessions_Inr: "proper_names env h \<Longrightarrow> \<exists>h' r. list_sessions env include_dead h = (h', Inr r)"
  using sessions_of_Inr [of "session_names env h" env h include_dead]
  by (metis proper_names_def list_all_iff list_sessions_def prod.collapse)

lemma sessions_of_result:
  assumes "sessions_of env False ns h = (h', Inr r)"
  shows "h_procs h' = h_procs h \<and> running h' = running h \<and>
    (\<forall>info \<in> set r. is_alive info h \<and> (\<exists>n \<in> set ns. load_session env n h = Inr (Some info))) \<and>
    (\<forall>n \<in> set ns. \<forall>info. load_session env n h' = Inr (Some info) \<longrightarrow> is_alive info h \<longrightarrow> info \<in> set r)"
  using assms
proof (induction ns arbitrary: h r)
  case (Cons n ns)
  have l: "later h h'" using later_sessions_of [of h env False "n # ns"] Cons.prems by simp
  show ?case
  proof (cases "load_session env n h")
    case (Inr found)
    show ?thesis
    proof (cases found)
      case None
      have "load_session env n h' \<noteq> Inr (Some info)" for info using load_later [OF l] Inr None by force
      then show ?thesis using Cons.IH [of h r] Cons.prems Inr None by auto
    next
      case (Some info)
      have only: "i = info" if "load_session env n h' = Inr (Some i)" for i using load_later [OF l that] Inr Some by simp
      show ?thesis
      proof (cases "is_alive info h")
        case True
        then obtain r' where "sessions_of env False ns h = (h', Inr r')" "r = info # r'"
          using Cons.prems Inr Some by (auto simp: and_then_def split: prod.splits sum.splits)
        then show ?thesis using Cons.IH [of h r'] True Inr Some only by auto
      next
        case False
        then obtain h1 where h1: "remove_session env (si_name info) h = (h1, Inr ())" "sessions_of env False ns h1 = (h', Inr r)"
          using Cons.prems Inr Some by (auto simp: and_then_def split: prod.splits sum.splits)
        have "h_procs h1 = h_procs h" "running h1 = running h" "later h h1"
          using procs_remove [of env "si_name info" h] later_remove [of h env "si_name info"] h1(1) by simp_all
        moreover from this have "is_alive i h1 = is_alive i h" for i by (simp add: is_alive_def pid_alive_iff)
        ultimately show ?thesis using Cons.IH [OF h1(2)] False only load_later [of h h1 env] by simp metis
      qed
    qed
  qed (use Cons.prems in simp)
qed simp

section \<open>Stopping all servers\<close>

text \<open>The ids of the servers that can be found: those of the session files, and of processes that look like one.\<close>

definition server_process :: "process \<Rightarrow> bool" where
  "server_process p \<longleftrightarrow> (case pr_cmdline p of None \<Rightarrow> False | Some raw \<Rightarrow> looks_like_server (cmdline_text raw))"

definition server_pids :: "session_env \<Rightarrow> host \<Rightarrow> int list" where
  "server_pids env h =
     concat (map (\<lambda>n. case load_session env n h of Inr (Some info) \<Rightarrow> [si_pid info] | _ \<Rightarrow> []) (session_names env h)) @
     map pr_pid (filter server_process (h_procs h))"

lemma orphan_of_iff:
  "orphan_of known p = Some q \<longleftrightarrow> pr_pid p \<notin> set known \<and> server_process p \<and> op_pid q = pr_pid p \<and> op_cmdline q = cmdline_text (the (pr_cmdline p))"
  by (auto simp: orphan_of_def server_process_def split: option.split)

lemma stop_each_ends:
  assumes "\<And>x h'. x \<in> set xs \<Longrightarrow> later h h' \<Longrightarrow> \<exists>h''. stop x h' = (h'', Inr True) \<and> \<not> pid_alive (f x) h''"
    and "\<And>x h'. later h' (fst (stop x h'))"
  shows "\<exists>h'. stop_each stop xs h = (h', Inr 0) \<and> later h h' \<and> (\<forall>x \<in> set xs. \<not> pid_alive (f x) h')"
  using assms(1)
proof (induction xs arbitrary: h)
  case (Cons x xs)
  obtain h1 where h1: "stop x h = (h1, Inr True)" "\<not> pid_alive (f x) h1" using Cons.prems [of x h] by auto
  have l: "later h h1" using assms(2) [of h x] h1(1) by simp
  have "\<exists>h'. stop_each stop xs h1 = (h', Inr 0) \<and> later h1 h' \<and> (\<forall>x \<in> set xs. \<not> pid_alive (f x) h')"
    using Cons.prems later_trans [OF l] by (intro Cons.IH) auto
  then obtain h2 where h2: "stop_each stop xs h1 = (h2, Inr 0)" "later h1 h2" "\<forall>x \<in> set xs. \<not> pid_alive (f x) h2" by blast
  then show ?case using h1 later_trans [OF l h2(2)] pid_alive_before [OF h2(2)] by (auto simp: and_then_def)
qed simp

lemma later_cleanup [simp]: "later h (cleanup_pid_file env h)"
  by (simp add: cleanup_pid_file_def)

text \<open>A session that can still be read and runs was listed; so none is listed once those that were have ended.\<close>

lemma listed_before:
  assumes "list_sessions env False h = (h1, Inr sessions)" "later h1 g" "n \<in> set (session_names env g)" "load_session env n g = Inr (Some s)" "is_alive s g"
  shows "s \<in> set sessions"
proof -
  have l: "later h h1" using later_list [of h env False] assms(1) by simp
  have "n \<in> set (session_names env h)" using names_later [OF later_trans [OF l assms(2)]] assms(3) by blast
  moreover have "load_session env n h1 = Inr (Some s)" using load_later [OF assms(2,4)] .
  moreover have "is_alive s h" using assms(5) pid_alive_before [OF later_trans [OF l assms(2)]] by (simp add: is_alive_def)
  ultimately show ?thesis using sessions_of_result [of env "session_names env h" h h1 sessions] assms(1) by (simp add: list_sessions_def)
qed

lemma listed_now:
  assumes "list_sessions env False g = (g', Inr r)" "s \<in> set r"
  obtains n where "n \<in> set (session_names env g)" "load_session env n g = Inr (Some s)" "is_alive s g"
  using sessions_of_result [of env "session_names env g" g g' r] assms by (auto simp: list_sessions_def)

lemma none_listed:
  assumes "list_sessions env False h = (h1, Inr sessions)" "later h1 g" "\<forall>s \<in> set sessions. \<not> pid_alive (si_pid s) g"
    and "list_sessions env False g = (g', Inr r)"
  shows "r = []"
proof (rule ccontr)
  assume "r \<noteq> []"
  then obtain s where "s \<in> set r" by (cases r) auto
  then obtain n where "n \<in> set (session_names env g)" "load_session env n g = Inr (Some s)" "is_alive s g"
    using listed_now [OF assms(4)] by blast
  then show False using listed_before [OF assms(1,2)] assms(3) by (auto simp: is_alive_def)
qed

lemma none_discovered:
  assumes "list_sessions env False h1 = (h2, Inr tracked)" "later h2 g" "\<forall>s \<in> set tracked. \<not> pid_alive (si_pid s) g"
    and "\<forall>q \<in> set (List.map_filter (orphan_of (se_pid env # map si_pid tracked)) (filter (running h2) (h_procs h2))). \<not> pid_alive (op_pid q) g"
    and "q \<in> set (h_procs g)" "running g q"
  shows "orphan_of (se_pid env # known) q = None"
proof (rule ccontr)
  assume "orphan_of (se_pid env # known) q \<noteq> None"
  then have o: "pr_pid q \<noteq> se_pid env" "server_process q" by (auto simp: orphan_of_iff)
  obtain p where p: "p \<in> set (h_procs h2)" "same_process p q" using later_process [OF assms(2,5)] .
  then have pq: "pr_pid p = pr_pid q" "server_process p" "running h2 p"
    using o(2) running_before [OF assms(2) p(2) assms(6)] by (auto simp: same_process_def server_process_def)
  have alive: "pid_alive (pr_pid q) g" using assms(5,6) by (auto simp: pid_alive_iff)
  then have "pr_pid p \<notin> si_pid ` set tracked" using assms(3) pq(1) by auto
  then have "orphan_of (se_pid env # map si_pid tracked) p = Some \<lparr>op_pid = pr_pid p, op_cmdline = cmdline_text (the (pr_cmdline p))\<rparr>"
    using pq(1,2) o(1) by (simp add: orphan_of_iff)
  then have "\<lparr>op_pid = pr_pid p, op_cmdline = cmdline_text (the (pr_cmdline p))\<rparr> \<in>
      set (List.map_filter (orphan_of (se_pid env # map si_pid tracked)) (filter (running h2) (h_procs h2)))"
    using p(1) pq(3) by (auto simp: List.map_filter_def image_iff intro!: bexI [of _ p])
  then show False using assms(4) alive pq(1) by fastforce
qed

lemma status_empty:
  assumes "proper_names env h" "list_sessions env False h = (h1, Inr sessions)" "list_sessions env False h1 = (h2, Inr tracked)" "later h2 hf"
    and "\<forall>s \<in> set sessions. \<not> pid_alive (si_pid s) hf"
    and "\<forall>q \<in> set (List.map_filter (orphan_of (se_pid env # map si_pid tracked)) (filter (running h2) (h_procs h2))). \<not> pid_alive (op_pid q) hf"
  shows "snd (cmd_status env hf) = Inr ([], [])"
proof -
  have l: "later h h1" "later h1 h2" using later_list [of h env False] later_list [of h1 env False] assms(2,3) by simp_all
  then have lf: "later h1 hf" "later h hf" using assms(4) later_trans by blast+
  obtain a r where a: "list_sessions env False hf = (a, Inr r)" using list_sessions_Inr [OF proper_later [OF lf(2) assms(1)]] by blast
  have la: "later hf a" using later_list [of hf env False] a by simp
  obtain b t where b: "list_sessions env False a = (b, Inr t)"
    using list_sessions_Inr [OF proper_later [OF later_trans [OF lf(2) la] assms(1)]] by blast
  have lb: "later hf b" "later h2 b" using later_list [of a env False] b later_trans [OF la] later_trans [OF assms(4)] by auto
  have "set tracked \<subseteq> set sessions" using listed_now [OF assms(3)] listed_before [OF assms(2) later_refl] by blast
  then have "\<forall>s \<in> set tracked. \<not> pid_alive (si_pid s) b" using assms(5) pid_alive_before [OF lb(1)] by blast
  then have "orphan_of (se_pid env # map si_pid t) q = None" if "q \<in> set (h_procs b)" "running b q" for q
    using none_discovered [OF assms(3) lb(2) _ _ that] assms(6) pid_alive_before [OF lb(1)] by blast
  then have "List.map_filter (orphan_of (se_pid env # map si_pid t)) (filter (running b) (h_procs b)) = []"
    by (auto simp: List.map_filter_def filter_empty_conv)
  moreover have "r = []" using none_listed [OF assms(2) lf(1) assms(5) a] .
  ultimately show ?thesis using a b by (simp add: cmd_status_def discover_server_processes_def and_then_def)
qed

lemma proper_path:
  assumes "proper_names env h" "n \<in> set (session_names env h)" "load_session env n h = Inr (Some x)"
  obtains p where "session_path env (si_name x) = Inr p"
proof -
  have "\<not> isl (session_path env (si_name x))" using assms by (force simp: proper_names_def list_all_iff)
  then show ?thesis using that by (cases "session_path env (si_name x)") auto
qed

lemma listed_ends:
  assumes "proper_names env h" "list_all (stoppable h) (server_pids env h)" "list_sessions env False h = (h1, Inr sessions)"
    and "x \<in> set sessions" "later h g"
  shows "\<exists>g'. stop_session env x 3000 force g = (g', Inr True) \<and> \<not> pid_alive (si_pid x) g'"
proof -
  obtain n where n: "n \<in> set (session_names env h)" "load_session env n h = Inr (Some x)" using listed_now [OF assms(3,4)] .
  then have "si_pid x \<in> set (server_pids env h)" by (force simp: server_pids_def)
  then have "stoppable g (si_pid x)" using assms(2) stoppable_later [OF assms(5)] by (simp add: list_all_iff)
  moreover obtain p where "session_path env (si_name x) = Inr p" using proper_path [OF assms(1) n] .
  ultimately show ?thesis using stop_session_ends [of g x env p 3000 force] by (auto simp: is_alive_def)
qed

lemma discovered_ends:
  assumes "list_all (stoppable h) (server_pids env h)" "later h h2" "later h g"
    and "q \<in> set (List.map_filter (orphan_of known) (filter (running h2) (h_procs h2)))"
  shows "\<exists>g'. stop_pid (op_pid q) 3000 force g = (g', Inr True) \<and> \<not> pid_alive (op_pid q) g'"
proof -
  obtain p' where "p' \<in> set (h_procs h2)" "orphan_of known p' = Some q" using assms(4) by (auto simp: List.map_filter_def)
  then have p': "p' \<in> set (h_procs h2)" "server_process p'" "op_pid q = pr_pid p'" by (simp_all add: orphan_of_iff)
  obtain p where "p \<in> set (h_procs h)" "same_process p p'" using later_process [OF assms(2) p'(1)] .
  then have "op_pid q \<in> set (server_pids env h)" using p' by (auto simp: server_pids_def same_process_def server_process_def)
  then have "stoppable g (op_pid q)" using assms(1) stoppable_later [OF assms(3)] by (simp add: list_all_iff)
  then show ?thesis by (rule stop_pid_ends) simp
qed

text \<open>
  C39: Stopping all servers leaves none: if every server that can be found is ours and ends within 200
  milliseconds of being killed, the command succeeds, and the status command afterwards finds neither a session nor a
  server process without one, whether the servers heeded the request to end or had to be killed.
\<close>

theorem stop_all_leaves_no_server:
  assumes "proper_names env h" "list_all (stoppable h) (server_pids env h)"
  shows "\<exists>h'. cmd_stop env True force name h = (h', Inr ()) \<and> snd (cmd_status env h') = Inr ([], [])"
proof -
  obtain h1 sessions where s: "list_sessions env False h = (h1, Inr sessions)" using list_sessions_Inr [OF assms(1)] by blast
  have l1: "later h h1" using later_list [of h env False] s by simp
  obtain h2 tracked where t: "list_sessions env False h1 = (h2, Inr tracked)" using list_sessions_Inr [OF proper_later [OF l1 assms(1)]] by blast
  have l2: "later h h2" using later_list [of h1 env False] t later_trans [OF l1] by simp
  let ?orphans = "List.map_filter (orphan_of (se_pid env # map si_pid tracked)) (filter (running h2) (h_procs h2))"
  obtain h3 where h3: "stop_each (\<lambda>s. stop_session env s 3000 force) sessions h2 = (h3, Inr 0)" "later h2 h3" "\<forall>x \<in> set sessions. \<not> pid_alive (si_pid x) h3"
    using stop_each_ends [of sessions h2 "\<lambda>s. stop_session env s 3000 force" si_pid] listed_ends [OF assms s] later_trans [OF l2] by auto
  have l3: "later h h3" using later_trans [OF l2 h3(2)] .
  obtain h4 where h4: "stop_each (\<lambda>q. stop_pid (op_pid q) 3000 force) ?orphans h3 = (h4, Inr 0)" "later h3 h4" "\<forall>q \<in> set ?orphans. \<not> pid_alive (op_pid q) h4"
    using stop_each_ends [of ?orphans h3 "\<lambda>q. stop_pid (op_pid q) 3000 force" op_pid] discovered_ends [OF assms(2) l2] later_trans [OF l3] by auto
  have d: "discover_server_processes env h1 = (h2, Inr ?orphans)" using t by (simp add: discover_server_processes_def and_then_def)
  define hf where "hf = (if sessions = [] \<and> ?orphans = [] then h2 else cleanup_pid_file env h4)"
  have "cmd_stop env True force name h = (hf, Inr ())"
    using s d h3(1) h4(1) by (simp add: cmd_stop_def stop_all_servers_def and_then_def hf_def)
  moreover have "later h2 hf" unfolding hf_def using later_trans [OF h3(2) later_trans [OF h4(2) later_cleanup]] by simp
  moreover have "\<forall>s \<in> set sessions. \<not> pid_alive (si_pid s) hf" "\<forall>q \<in> set ?orphans. \<not> pid_alive (op_pid q) hf"
    using h3(3) h4(3) pid_alive_before [OF later_trans [OF h4(2) later_cleanup]] pid_alive_before [OF later_cleanup [of h4 env]]
    by (auto simp: hf_def)
  ultimately show ?thesis using status_empty [OF assms(1) s t] by blast
qed

definition ex_info :: "string \<Rightarrow> int \<Rightarrow> SessionInfo" where
  "ex_info n pid = \<lparr>si_name = n, si_pid = pid, si_host = ''127.0.0.1'', si_port = 9000, si_config = [], si_log_file = [], si_started_at = []\<rparr>"

text \<open>Files that hold the name of the session alone, and no symbolic links.\<close>

definition ex_sessions :: session_env where
  "ex_sessions = \<lparr>se_dir = ''/s'', se_realpath = id, se_dump = si_name, se_parse = (\<lambda>s. Some (ex_info s (if s = ''a'' then 10 else 13))),
     se_pid_file = ''/pid'', se_pid = 12\<rparr>"

definition ex_host :: host where
  "ex_host = \<lparr>h_now = 0,
     h_procs = [\<lparr>pr_pid = 10, pr_ours = True, pr_cmdline = Some ''python'', pr_on_term = None, pr_on_kill = Some 5, pr_exit = None\<rparr>,
                \<lparr>pr_pid = 11, pr_ours = True, pr_cmdline = Some ''python -m argus_mcp server'', pr_on_term = Some 150, pr_on_kill = Some 0, pr_exit = None\<rparr>,
                \<lparr>pr_pid = 14, pr_ours = False, pr_cmdline = Some ''init'', pr_on_term = None, pr_on_kill = None, pr_exit = None\<rparr>],
     h_files = [(''/s/a.json'', ''a''), (''/s/b.json'', ''b'')]\<rparr>"

theorem stop_all_leaves_no_server_witness:
  "\<exists>h'. cmd_stop ex_sessions True False None ex_host = (h', Inr ()) \<and> snd (cmd_status ex_sessions h') = Inr ([], [])"
proof (rule stop_all_leaves_no_server)
  show "proper_names ex_sessions ex_host" by code_simp
  show "list_all (stoppable ex_host) (server_pids ex_sessions ex_host)" by code_simp
qed

section \<open>Stopping one session\<close>

text \<open>
  Stopping a session of ours ends its server in bounded time: its process is gone and its file removed
  at most 299 milliseconds after the time allowed, also where the server ignores the request to end.
\<close>

theorem stopped_in_time:
  assumes "stoppable h (si_pid info)" "session_path env (si_name info) = Inr p" "200 \<le> timeout"
  shows "\<exists>h'. stop_session env info timeout force h = (h', Inr True) \<and> \<not> is_alive info h' \<and> dict_get (h_files h') p = None \<and>
    h_now h' \<le> h_now h + timeout + 299"
  using assms by (rule stop_session_ends)

theorem stopped_in_time_witness:
  "\<exists>h'. stop_session ex_sessions (ex_info ''a'' 10) 3000 False ex_host = (h', Inr True) \<and> h_now h' \<le> 3299"
proof -
  have "stoppable ex_host (si_pid (ex_info ''a'' 10))" "session_path ex_sessions (si_name (ex_info ''a'' 10)) = Inr ''/s/a.json''" by code_simp+
  from stopped_in_time [OF this, of 3000 False] show ?thesis by (auto simp: ex_host_def)
qed

section \<open>Names\<close>

lemma rep_class_sound:
  "(j, g') \<in> set (rep (match_at (Cls P) s) True 0 n i g) \<Longrightarrow> i \<le> j \<and> j \<le> i + n \<and> (\<forall>k. i \<le> k \<and> k < j \<longrightarrow> k < length s \<and> P (s ! k))"
proof (induction n arbitrary: i g)
  case (Suc n)
  have m: "match_at (Cls P) s = (\<lambda>a b. if a < length s \<and> P (s ! a) then [(a + 1, b)] else [])" by (simp add: fun_eq_iff)
  show ?case
  proof (cases "j = i")
    case False
    then have i: "i < length s" "P (s ! i)" "(j, g') \<in> set (rep (match_at (Cls P) s) True 0 n (i + 1) g)"
      using Suc.prems by (auto simp: Let_def m split: if_splits)
    have a: "i + 1 \<le> j" "j \<le> i + 1 + n" "\<forall>k. i + 1 \<le> k \<and> k < j \<longrightarrow> k < length s \<and> P (s ! k)"
      using Suc.IH [OF i(3)] by blast+
    have "k < length s \<and> P (s ! k)" if "i \<le> k" "k < j" for k using that a(3) i(1,2) by (cases "k = i") auto
    then show ?thesis using a(1,2) by auto
  qed auto
qed auto

lemma rep_class_complete:
  "i \<le> j \<Longrightarrow> j \<le> i + n \<Longrightarrow> \<forall>k. i \<le> k \<and> k < j \<longrightarrow> k < length s \<and> P (s ! k) \<Longrightarrow> (j, g) \<in> set (rep (match_at (Cls P) s) True 0 n i g)"
proof (induction n arbitrary: i)
  case (Suc n)
  then show ?case by (cases "j = i") (auto simp: Let_def)
qed simp

definition valid_name :: "string \<Rightarrow> bool" where
  "valid_name s \<longleftrightarrow> s \<noteq> [] \<and> name_char (hd s) \<and> length s \<le> 32 \<and> list_all (\<lambda>c. name_char c \<or> c = CHR ''-'') s"

lemma name_pattern:
  assumes "s = [] \<or> \<not> is_newline (last s)"
  shows "re_match NAME_RE s \<noteq> None \<longleftrightarrow> valid_name s"
proof -
  let ?P = "\<lambda>c. name_char c \<or> c = CHR ''-''"
  let ?ends = "rep (match_at (Cls ?P) s) True 0 31 1 None"
  define tail where "tail = Sq TextEnd Eps"
  have end_iff: "match_at tail s j g = [] \<longleftrightarrow> j \<noteq> length s" for j g
    using assms by (cases s rule: rev_cases) (auto simp: tail_def nth_append)
  have ends_iff: "concat (map (\<lambda>(x, y). match_at tail s x y) es) \<noteq> [] \<longleftrightarrow> (\<exists>x \<in> set es. fst x = length s)" for es
    by (induction es) (auto simp: end_iff)
  have r: "NAME_RE = Sq TextStart (Sq (Cls name_char) (Sq (Rep 0 (Some 31) True (Cls ?P)) tail))" by (simp add: NAME_RE_def seq_def tail_def)
  have "match_at NAME_RE s 0 None = (if s \<noteq> [] \<and> name_char (s ! 0) then concat (map (\<lambda>(x, y). match_at tail s x y) ?ends) else [])"
    unfolding r by (simp del: rep.simps)
  moreover have "re_match NAME_RE s \<noteq> None \<longleftrightarrow> match_at NAME_RE s 0 None \<noteq> []"
    by (simp add: re_match_def first_match_def split: list.split)
  ultimately have "re_match NAME_RE s \<noteq> None \<longleftrightarrow> s \<noteq> [] \<and> name_char (s ! 0) \<and> (\<exists>x \<in> set ?ends. fst x = length s)"
    using ends_iff [of ?ends] by (simp del: rep.simps match_at.simps)
  also have "\<dots> \<longleftrightarrow> valid_name s" 
  proof (cases s)
    case (Cons c cs)
    have "(\<exists>x \<in> set ?ends. fst x = length s) \<longleftrightarrow> length s \<le> 32 \<and> (\<forall>k. 1 \<le> k \<and> k < length s \<longrightarrow> ?P (s ! k))"
      using rep_class_sound [of "length s" _ ?P s 31 1 None] rep_class_complete [of 1 "length s" 31 s ?P None] Cons
      by (fastforce simp del: rep.simps)
    also have "(\<forall>k. 1 \<le> k \<and> k < length s \<longrightarrow> ?P (s ! k)) \<longleftrightarrow> (\<forall>m. m < length cs \<longrightarrow> ?P (s ! Suc m))"
      using Cons by (metis One_nat_def Suc_le_D Suc_le_mono Suc_less_eq length_Cons zero_le)
    also have "\<dots> \<longleftrightarrow> list_all ?P cs" using Cons by (simp add: list_all_length)
    finally have e: "(\<exists>x \<in> set ?ends. fst x = length s) \<longleftrightarrow> length s \<le> 32 \<and> list_all ?P cs" .
    show ?thesis unfolding e using Cons by (auto simp: valid_name_def)
  qed (simp add: valid_name_def)
  finally show ?thesis .
qed

lemma name_char_plain:
  assumes "name_char c \<or> c = CHR ''-''"
  shows "\<not> is_space c" "lower_char c = c" "c \<noteq> CHR ''/''"
  using assms by (auto simp: name_char_def is_space_def lower_char_def is_digit_def code_def)

lemma strip_last: "str_strip s = [] \<or> \<not> is_space (last (str_strip s))"
  using hd_dropWhile [of is_space "rev (lstrip_by is_space s)"]
  by (auto simp: str_strip_def rstrip_by_def last_rev simp del: dropWhile_eq_Nil_conv)

lemma strip_none:
  assumes "list_all (\<lambda>c. \<not> is_space c) s"
  shows "str_strip s = s"
proof -
  have "dropWhile is_space s = s" "dropWhile is_space (rev s) = rev s"
    using assms by (auto simp: dropWhile_eq_self_iff list_all_iff hd_rev)
  then show ?thesis by (simp add: str_strip_def rstrip_by_def lstrip_by_def)
qed

lemma validate_name_valid: "validate_name raw = Inr n \<Longrightarrow> valid_name n"
  using strip_last [of "str_lower raw"] name_pattern [of "str_strip (str_lower raw)"]
  by (auto simp: validate_name_def Let_def is_space_def is_newline_def split: if_splits)

lemma valid_name_validates:
  assumes "valid_name n"
  shows "validate_name n = Inr n"
proof -
  have n: "list_all (\<lambda>c. name_char c \<or> c = CHR ''-'') n" using assms by (simp add: valid_name_def)
  then have "str_lower n = n" by (auto simp: str_lower_def list_all_iff name_char_plain intro!: map_idI)
  moreover have "str_strip n = n" using n by (intro strip_none) (auto simp: list_all_iff name_char_plain)
  moreover have "n = [] \<or> \<not> is_newline (last n)"
    using n name_char_plain(1) [of "last n"] by (cases "n = []") (auto simp: list_all_iff is_newline_def is_space_def)
  ultimately show ?thesis using assms name_pattern by (simp add: validate_name_def)
qed

lemma show_nat_digits: "list_all is_digit (show_nat n)"
proof (induction n rule: show_nat.induct)
  case (1 n)
  have "is_digit (digit_char d)" if "d < 10" for d using that by (simp add: is_digit_def digit_char_def code_def)
  then show ?case using 1 by (subst show_nat.simps) auto
qed

lemma show_nat_length: "n < 10 ^ Suc k \<Longrightarrow> length (show_nat n) \<le> Suc k"
proof (induction k arbitrary: n)
  case (Suc k)
  then show ?case using Suc.IH [of "n div 10"] by (subst show_nat.simps) auto
qed (simp add: show_nat.simps)

lemma auto_name_valid:
  assumes "0 \<le> port" "port < 65536"
  shows "valid_name (auto_name port default_port)"
proof -
  have "length (show_nat (nat port)) \<le> 5" using show_nat_length [of "nat port" 4] assms by simp
  moreover have "list_all name_char (show_nat (nat port))"
    using show_nat_digits [of "nat port"] by (auto simp: list_all_iff name_char_def)
  moreover have "list_all name_char ''default''" "list_all name_char ''argus''" by code_simp+
  ultimately show ?thesis using assms(1) by (auto simp: valid_name_def auto_name_def show_int_def list_all_iff)
qed

text \<open>What is assumed of the sessions directory: its files are not links to elsewhere.\<close>

definition no_links :: "session_env \<Rightarrow> bool" where
  "no_links env \<longleftrightarrow> (\<forall>n. CHR ''/'' \<notin> set n \<longrightarrow> se_realpath env (path_join (se_realpath env (se_dir env)) n) = se_realpath env (se_dir env) @ ''/'' @ n)"

text \<open>
  Names of sessions are safe: a name that was accepted, and one made up from a port, has only lower-case
  letters, digits and hyphens, is accepted again unchanged, and its file lies in the sessions directory, each
  name having its own.
\<close>

theorem session_names_are_safe:
  assumes "validate_name raw = Inr n \<or> 0 \<le> port \<and> port < 65536 \<and> n = auto_name port default_port" "no_links env"
  shows "valid_name n \<and> validate_name n = Inr n \<and> session_path env n = Inr (se_realpath env (se_dir env) @ ''/'' @ n @ ''.json'')"
proof -
  have v: "valid_name n" using assms(1) validate_name_valid auto_name_valid by blast
  then have "CHR ''/'' \<notin> set (n @ ''.json'')" using name_char_plain(3) by (auto simp: valid_name_def list_all_iff)
  then have "se_realpath env (path_join (se_realpath env (se_dir env)) (n @ ''.json'')) = se_realpath env (se_dir env) @ ''/'' @ n @ ''.json''"
    using assms(2) by (simp add: no_links_def)
  then show ?thesis using v valid_name_validates by (simp add: session_path_def Let_def starts_with_def)
qed

theorem session_names_are_safe_witness: "session_path ex_sessions ''web-1'' = Inr ''/s/web-1.json''"
proof -
  have "validate_name '' Web-1'' = Inr ''web-1''" by code_simp
  moreover have "path_join ''/s'' m = ''/s/'' @ m" if "CHR ''/'' \<notin> set m" for m
    using that by (cases m) (auto simp: path_join_def starts_with_def ends_with_def)
  then have "no_links ex_sessions" by (simp add: no_links_def ex_sessions_def)
  ultimately have "session_path ex_sessions ''web-1'' = Inr (se_realpath ex_sessions (se_dir ex_sessions) @ ''/'' @ ''web-1'' @ ''.json'')"
    using session_names_are_safe by blast
  then show ?thesis by (simp add: ex_sessions_def)
qed

section \<open>Flaws\<close>

text \<open>
  Starting a server twice unregisters the first: a second server of the same name overwrites the first one's
  file before it finds the address taken, and on its way out removes the file as its own. The
  first server runs on without a session.
\<close>

theorem failed_second_start_unregisters:
  assumes "load_session env (effective_name args) h = Inr (Some info)" "is_alive info h" "\<And>i. map_option si_pid (se_parse env (se_dump env i)) = Some (si_pid i)"
    and "session_path env (effective_name args) \<noteq> Inr (se_pid_file env)"
  shows "\<exists>h'. cmd_server env started args (\<lambda>g. (g, False)) h = (h', Inr ()) \<and> is_alive info h' \<and>
    load_session env (effective_name args) h' = Inr None"
proof -
  obtain p where p: "session_path env (effective_name args) = Inr p" using assms(1) by (auto simp: load_session_def split: sum.splits)
  then have ne: "p \<noteq> se_pid_file env" using assms(4) by auto
  have alive: "pid_alive pid (h\<lparr>h_files := fs\<rparr>) = pid_alive pid h" for pid fs by (simp add: pid_alive_iff running_def split: option.split)
  let ?i = "\<lparr>si_name = effective_name args, si_pid = se_pid env, si_host = sa_host args, si_port = sa_port args,
    si_config = or_empty (sa_config args), si_log_file = [], si_started_at = started\<rparr>"
  let ?h1 = "write_file (se_pid_file env) (show_int (se_pid env)) (write_file p (se_dump env ?i) h)"
  have w: "write_pid_file env started (effective_name args) (sa_host args) (sa_port args) (or_empty (sa_config args)) h = (?h1, Inr ())"
    using p by (simp add: write_pid_file_def save_session_def and_then_def)
  obtain j where j: "se_parse env (se_dump env ?i) = Some j" "si_pid j = se_pid env" using assms(3) [of ?i] by auto
  then have "load_session env (effective_name args) ?h1 = Inr (Some j)"
    using p ne by (simp add: load_session_def write_file_def)
  then have "remove_pid_file env (effective_name args) ?h1 = (if Option.bind (dict_get (h_files (unlink p ?h1)) (se_pid_file env)) py_int_of = Some (se_pid env)
      then unlink (se_pid_file env) (unlink p ?h1) else unlink p ?h1, Inr ())"
    using p j(2) by (simp add: remove_pid_file_def remove_session_def and_then_def)
  then show ?thesis using w p ne assms(2)
    by (auto simp: cmd_server_def and_then_def load_session_def is_alive_def write_file_def unlink_def alive)
qed

text \<open>Files that hold the process id in unary.\<close>

definition unary :: "int \<Rightarrow> string" where
  "unary i = (if i < 0 then CHR ''-'' # replicate (nat (- i)) CHR ''1'' else replicate (nat i) CHR ''1'')"

definition unary_value :: "string \<Rightarrow> int" where
  "unary_value s = (case s of c # r \<Rightarrow> if c = CHR ''-'' then - int (length r) else int (length s) | [] \<Rightarrow> 0)"

lemma unary_value [simp]: "unary_value (unary i) = i"
  by (cases "nat i") (auto simp: unary_value_def unary_def)

definition ex_unary :: session_env where
  "ex_unary = ex_sessions\<lparr>se_dump := unary \<circ> si_pid, se_parse := (\<lambda>s. Some (ex_info ''default'' (unary_value s)))\<rparr>"

definition ex_args :: server_args where
  "ex_args = \<lparr>sa_name = None, sa_host = DEFAULT_HOST, sa_port = DEFAULT_PORT, sa_log_level = ''info'', sa_config = None\<rparr>"

theorem failed_second_start_unregisters_witness:
  "\<exists>h'. cmd_server ex_unary [] ex_args (\<lambda>g. (g, False)) (ex_host\<lparr>h_files := [(''/s/default.json'', unary 10)]\<rparr>) = (h', Inr ()) \<and>
     is_alive (ex_info ''default'' 10) h' \<and> load_session ex_unary ''default'' h' = Inr None"
proof -
  let ?h = "ex_host\<lparr>h_files := [(''/s/default.json'', unary 10)]\<rparr>"
  have n: "effective_name ex_args = ''default''" by code_simp
  have "load_session ex_unary ''default'' ?h = Inr (Some (ex_info ''default'' 10))" "is_alive (ex_info ''default'' 10) ?h"
    "session_path ex_unary ''default'' \<noteq> Inr (se_pid_file ex_unary)" by code_simp+
  then show ?thesis
    using failed_second_start_unregisters [of ex_unary ex_args ?h "ex_info ''default'' 10" "[]"] unfolding n
    by (simp add: ex_unary_def ex_sessions_def ex_info_def)
qed

text \<open>A server on all addresses does not conflict with one on the same port of one address, though one of them cannot listen.\<close>

lemma wildcard_start_is_no_conflict:
  "snd (check_port_conflict ex_sessions ''0.0.0.0'' 9000 ex_host) = Inr None \<and>
   snd (check_port_conflict ex_sessions ''127.0.0.1'' 9000 ex_host) = Inr (Some (ex_info ''a'' 10))"
  by code_simp

text \<open>A server that cannot be ended is reported as such, but its session is removed all the same.\<close>

lemma survivor_loses_its_session:
  "let h = ex_host\<lparr>h_procs := map (\<lambda>p. p\<lparr>pr_on_kill := None\<rparr>) (h_procs ex_host)\<rparr>; r = stop_session ex_sessions (ex_info ''a'' 10) 3000 False h
   in snd r = Inr False \<and> pid_alive 10 (fst r) \<and> load_session ex_sessions ''a'' (fst r) = Inr None"
  by code_simp

text \<open>A session that is stopped by name is never stopped by force.\<close>

lemma named_stop_ignores_force:
  "\<not> isdigit (c # cs) \<Longrightarrow> cmd_stop env False True (Some (c # cs)) h = cmd_stop env False False (Some (c # cs)) h"
  by (simp add: cmd_stop_def)

text \<open>The name a server is started with is made lower-case, the one given to stop it is not.\<close>

lemma stop_does_not_normalise:
  "validate_name ''Web'' = Inr ''web'' \<and>
   snd (cmd_stop ex_sessions False False (Some ''Web'') (fst (save_session ex_sessions (ex_info ''web'' 13) ex_host))) = Inl SystemExit"
  by code_simp

text \<open>Clearing away the file of a server that is gone removes the file its content names, here that of a running server.\<close>

lemma stale_file_removes_another:
  "let env = ex_sessions\<lparr>se_parse := (\<lambda>s. Some (ex_info ''b'' (if s = ''dead'' then 13 else 10)))\<rparr>;
       h = ex_host\<lparr>h_files := [(''/s/a.json'', ''dead''), (''/s/b.json'', ''b'')]\<rparr>
   in pid_alive 10 h \<and> list_sessions env False h = (h\<lparr>h_files := [(''/s/a.json'', ''dead'')]\<rparr>, Inr [])"
  by code_simp

end
