(* ===== verification/OAuth_Discovery.thy ===== *)
theory OAuth_Discovery
  imports Container_Isolation Outgoing_Auth Config_Values
begin

text \<open>
  How a backend that asks for authentication gets a token: \<open>bridge/auth/discovery.py\<close> finds the
  authorization server, \<open>bridge/auth/dcr.py\<close> and \<open>dynamic_register\<close> register a client there,
  \<open>bridge/auth/pkce.py\<close> runs the browser flow, and \<open>try_auth_discovery\<close> of
  \<open>bridge/auth_discovery.py\<close> puts them together. The HTTP library is an argument with a state of
  its own; every address a request goes to is recorded. \<open>urljoin\<close> of an address and the location
  of a redirect is an argument about which nothing is assumed; that of a bare server address and
  an absolute path appends the path. Random texts and readings of the clocks are arguments.
\<close>

section \<open>Addresses\<close>

record discovery_env =
  de_ipv6 :: "string \<Rightarrow> bool"
  de_private :: "string \<Rightarrow> bool option"
  de_join :: "string \<Rightarrow> string \<Rightarrow> string"

definition validate_discovery_url :: "discovery_env \<Rightarrow> bool \<Rightarrow> string \<Rightarrow> unit res" where
  "validate_discovery_url env allow_private url =
     (case url_hostname (de_ipv6 env) url of
        None \<Rightarrow> Inl (ValueError ''Invalid IPv6 URL'')
      | Some host \<Rightarrow>
          (if url_scheme url \<notin> {''https'', ''http''}
           then Inl (ValueError (''Unsupported scheme '' @ quoted (url_scheme url) @ '' in discovery URL: '' @ url))
           else if host = [] then Inl (ValueError (''Missing host in discovery URL: '' @ url))
           else if allow_private then Inr ()
           else case de_private env host of
                  Some True \<Rightarrow> Inl (ValueError (''Private/loopback address not allowed: '' @ url))
                | Some False \<Rightarrow> Inr ()
                | None \<Rightarrow>
                    (let text = repr_str host @ '' does not appear to be an IPv4 or IPv6 address''
                     in if str_contains ''not allowed'' text then Inl (ValueError text) else Inr ())))"

definition server_base :: "string \<Rightarrow> string" where
  "server_base url = url_scheme url @ ''://'' @ url_netloc url"

section \<open>Requests\<close>

record http_response =
  hr_status :: int
  hr_location :: string
  hr_www_authenticate :: string
  hr_json :: "pyval res"

text \<open>The addresses requested so far and the state of the network.\<close>

type_synonym 'w net = "string list \<times> 'w"

type_synonym 'w getter = "string \<Rightarrow> 'w \<Rightarrow> http_response res \<times> 'w"

definition http_get :: "'w getter \<Rightarrow> string \<Rightarrow> 'w net \<Rightarrow> http_response res \<times> 'w net" where
  "http_get get url n = (case n of (asked, w) \<Rightarrow> (case get url w of (r, w') \<Rightarrow> (r, (asked @ [url], w'))))"

definition net_then :: "'a res \<times> 'w net \<Rightarrow> ('a \<Rightarrow> 'w net \<Rightarrow> 'b res \<times> 'w net) \<Rightarrow> 'b res \<times> 'w net" where
  "net_then m f = (case m of (Inl e, n) \<Rightarrow> (Inl e, n) | (Inr x, n) \<Rightarrow> f x n)"

text \<open>The loop over at most so many redirects, the last of which is not followed.\<close>

fun safe_get_from :: "discovery_env \<Rightarrow> 'w getter \<Rightarrow> nat \<Rightarrow> string \<Rightarrow> 'w net \<Rightarrow> http_response res \<times> 'w net" where
  "safe_get_from env get k url n =
     net_then (http_get get url n) (\<lambda>resp n1.
       if hr_status resp \<notin> {301, 302, 303, 307, 308} \<or> hr_location resp = [] then (Inr resp, n1)
       else let url' = de_join env url (hr_location resp)
            in case validate_discovery_url env True url' of
                 Inl e \<Rightarrow> (Inl e, n1)
               | Inr u \<Rightarrow> (case k of 0 \<Rightarrow> (Inr resp, n1) | Suc k' \<Rightarrow> safe_get_from env get k' url' n1))"

declare safe_get_from.simps [simp del]

definition safe_get :: "discovery_env \<Rightarrow> 'w getter \<Rightarrow> string \<Rightarrow> 'w net \<Rightarrow> http_response res \<times> 'w net" where
  "safe_get env get = safe_get_from env get 2"

text \<open>\<open>except (OSError, ConnectionError)\<close> around a step.\<close>

definition or_none :: "'a option res \<times> 'w net \<Rightarrow> 'a option res \<times> 'w net" where
  "or_none m = (case m of (Inl e, n) \<Rightarrow> (if os_error e then (Inr None, n) else (Inl e, n)) | (Inr x, n) \<Rightarrow> (Inr x, n))"

section \<open>Finding the authorization server\<close>

definition authorization_server :: "pyval \<Rightarrow> pyval option res" where
  "authorization_server data =
     on_ok (py_get data ''authorization_servers'' (PList [PNone])) (\<lambda>servers.
       case servers of
         PList (s # ss) \<Rightarrow> Inr (Some s)
       | _ \<Rightarrow>
           on_ok (py_get data ''authorization_server'' PNone) (\<lambda>url.
             Inr (case url of PStr (c # cs) \<Rightarrow> Some url | _ \<Rightarrow> None)))"

definition discover_resource_metadata :: "discovery_env \<Rightarrow> 'w getter \<Rightarrow> string \<Rightarrow> 'w net \<Rightarrow> pyval option res \<times> 'w net" where
  "discover_resource_metadata env get mcp_url n =
     or_none (net_then (safe_get env get (server_base mcp_url @ ''/.well-known/oauth-protected-resource'') n) (\<lambda>resp n1.
       (if hr_status resp = 200 then on_ok (hr_json resp) authorization_server else Inr None, n1)))"

definition AUTHORIZATION_URI :: regex where
  "AUTHORIZATION_URI = seq [lit ''authorization_uri='', lit [CHR 0x22], Group (plus (Cls (\<lambda>c. c \<noteq> CHR 0x22))), lit [CHR 0x22]]"

definition REALM :: regex where
  "REALM = seq [lit ''realm='', lit [CHR 0x22], Group (plus (Cls (\<lambda>c. c \<noteq> CHR 0x22))), lit [CHR 0x22]]"

text \<open>\<open>re.search\<close>, with the text of the group.\<close>

definition search_group :: "regex \<Rightarrow> string \<Rightarrow> string option" where
  "search_group r s =
     (case find (\<lambda>i. first_match r s i \<noteq> None) [0..<Suc (length s)] of
        None \<Rightarrow> None
      | Some i \<Rightarrow> map_option (\<lambda>(j, g). group_text s g) (first_match r s i))"

definition parse_www_authenticate :: "string \<Rightarrow> string option" where
  "parse_www_authenticate header =
     (if header = [] then None
      else case search_group AUTHORIZATION_URI header of
             Some u \<Rightarrow> Some u
           | None \<Rightarrow>
               (case search_group REALM header of
                  Some realm \<Rightarrow> if starts_with ''http://'' realm \<or> starts_with ''https://'' realm then Some realm else None
                | None \<Rightarrow> None))"

definition probe_www_authenticate :: "discovery_env \<Rightarrow> 'w getter \<Rightarrow> string \<Rightarrow> 'w net \<Rightarrow> pyval option res \<times> 'w net" where
  "probe_www_authenticate env get mcp_url n =
     or_none (net_then (safe_get env get mcp_url n) (\<lambda>resp n1.
       (Inr (if hr_status resp = 401 then map_option PStr (parse_www_authenticate (hr_www_authenticate resp)) else None), n1)))"

section \<open>Metadata\<close>

record OAuthMetadata =
  om_issuer :: pyval
  om_authorization_endpoint :: pyval
  om_token_endpoint :: pyval
  om_registration_endpoint :: pyval
  om_scopes :: pyval
  om_response_types :: pyval
  om_code_challenge_methods :: pyval
  om_raw :: "(string, pyval) dict"

definition supports_pkce :: "OAuthMetadata \<Rightarrow> bool res" where
  "supports_pkce m = py_in ''S256'' (om_code_challenge_methods m)"

definition supports_dynamic_registration :: "OAuthMetadata \<Rightarrow> bool" where
  "supports_dynamic_registration m = py_truthy (om_registration_endpoint m)"

text \<open>A discovery document; one that is no object raises where its issuer is logged.\<close>

definition fetch_document :: "discovery_env \<Rightarrow> 'w getter \<Rightarrow> string \<Rightarrow> 'w net \<Rightarrow> (string, pyval) dict option res \<times> 'w net" where
  "fetch_document env get url n =
     or_none (net_then (safe_get env get url n) (\<lambda>resp n1.
       (if hr_status resp = 200
        then on_ok (hr_json resp) (\<lambda>v. case v of PDict d \<Rightarrow> Inr (Some d) | _ \<Rightarrow> Inl (OtherException ''AttributeError'' ''object has no attribute get''))
        else Inr None, n1)))"

definition merge_documents :: "(string, pyval) dict option \<Rightarrow> (string, pyval) dict option \<Rightarrow> (string, pyval) dict option" where
  "merge_documents rfc8414 oidc =
     (let r = (case rfc8414 of Some d \<Rightarrow> d | None \<Rightarrow> []); q = (case oidc of Some d \<Rightarrow> d | None \<Rightarrow> [])
      in if r = [] \<and> q = [] then None
         else Some (fold (\<lambda>(k, v) m. if py_truthy v \<or> k \<notin> set (dict_keys m) then dict_set k v m else m) r q))"

definition metadata_of :: "(string, pyval) dict \<Rightarrow> OAuthMetadata" where
  "metadata_of merged =
     \<lparr>om_issuer = dict_get_or (PStr []) merged ''issuer'', om_authorization_endpoint = dict_get_or (PStr []) merged ''authorization_endpoint'',
      om_token_endpoint = dict_get_or (PStr []) merged ''token_endpoint'', om_registration_endpoint = dict_get_or (PStr []) merged ''registration_endpoint'',
      om_scopes = dict_get_or (PList []) merged ''scopes_supported'', om_response_types = dict_get_or (PList []) merged ''response_types_supported'',
      om_code_challenge_methods = dict_get_or (PList []) merged ''code_challenge_methods_supported'', om_raw = merged\<rparr>"

definition discover_oidc :: "discovery_env \<Rightarrow> 'w getter \<Rightarrow> string \<Rightarrow> 'w net \<Rightarrow> OAuthMetadata option res \<times> 'w net" where
  "discover_oidc env get auth_server_url n =
     net_then (fetch_document env get (server_base auth_server_url @ ''/.well-known/oauth-authorization-server'') n) (\<lambda>rfc8414 n1.
     net_then (fetch_document env get (server_base auth_server_url @ ''/.well-known/openid-configuration'') n1) (\<lambda>oidc n2.
       (case merge_documents rfc8414 oidc of
          None \<Rightarrow> Inr None
        | Some merged \<Rightarrow> on_ok (supports_pkce (metadata_of merged)) (\<lambda>b. Inr (Some (metadata_of merged))), n2)))"

definition METADATA_CACHE_TTL :: rat where "METADATA_CACHE_TTL = 3600"

type_synonym metadata_cache = "(string, OAuthMetadata \<times> rat) dict"

text \<open>The time is read when the cache is looked up and again when the result is stored.\<close>

definition discover_uncached ::
    "discovery_env \<Rightarrow> 'w getter \<Rightarrow> string \<Rightarrow> 'w net \<Rightarrow> OAuthMetadata option res \<times> 'w net" where
  "discover_uncached env get mcp_server_url n =
     net_then (discover_resource_metadata env get mcp_server_url n) (\<lambda>s n1.
     net_then (if (case s of Some v \<Rightarrow> py_truthy v | None \<Rightarrow> False) then (Inr s, n1) else probe_www_authenticate env get mcp_server_url n1) (\<lambda>t n2.
       case t of
         None \<Rightarrow> (Inr None, n2)
       | Some (PStr url) \<Rightarrow>
           (if url = [] then (Inr None, n2)
            else case validate_discovery_url env True url of
                   Inl e \<Rightarrow> (Inr None, n2)
                 | Inr u \<Rightarrow> discover_oidc env get url n2)
       | Some v \<Rightarrow>
           (if py_truthy v then (Inl (OtherException ''AttributeError'' ''object has no attribute decode''), n2) else (Inr None, n2))))"

definition discover_oauth_metadata ::
    "discovery_env \<Rightarrow> 'w getter \<Rightarrow> rat \<Rightarrow> rat \<Rightarrow> string \<Rightarrow> metadata_cache \<times> 'w net \<Rightarrow> OAuthMetadata option res \<times> (metadata_cache \<times> 'w net)" where
  "discover_oauth_metadata env get now now1 mcp_server_url st =
     (case st of (cache, n) \<Rightarrow>
        (case validate_discovery_url env True mcp_server_url of
           Inl e \<Rightarrow> (Inl e, st)
         | Inr u \<Rightarrow>
             (let fresh = (case dict_get cache mcp_server_url of Some (m, t) \<Rightarrow> if now - t < METADATA_CACHE_TTL then Some m else None | None \<Rightarrow> None);
                  cache1 = (if dict_get cache mcp_server_url \<noteq> None \<and> fresh = None then dict_del mcp_server_url cache else cache)
              in case fresh of
                   Some m \<Rightarrow> (Inr (Some m), st)
                 | None \<Rightarrow>
                     (case discover_uncached env get mcp_server_url n of
                        (Inr (Some m), n1) \<Rightarrow> (Inr (Some m), (dict_set mcp_server_url (m, now1) cache1, n1))
                      | (r, n1) \<Rightarrow> (r, (cache1, n1))))))"

section \<open>Dynamic registration\<close>

definition GATEWAY_GRANT_TYPES :: "string list" where
  "GATEWAY_GRANT_TYPES = [''authorization_code'', ''client_credentials'', ''refresh_token'']"

record ClientRegistration =
  cl_client_id :: pyval
  cl_client_secret :: pyval
  cl_issued_at :: pyval
  cl_secret_expires_at :: pyval
  cl_grant_types :: pyval
  cl_redirect_uris :: pyval
  cl_auth_method :: pyval
  cl_endpoint :: string
  cl_raw :: pyval

text \<open>An expiry that is a JSON float, which the values here do not have, is left out.\<close>

definition registration_expired :: "rat \<Rightarrow> ClientRegistration \<Rightarrow> bool res" where
  "registration_expired wall reg =
     (case cl_secret_expires_at reg of
        PInt i \<Rightarrow> Inr (i \<noteq> 0 \<and> wall > of_int i)
      | PBool b \<Rightarrow> Inr (b \<and> wall > 1)
      | _ \<Rightarrow> Inl (TypeError ''not supported between instances''))"

record DCRClient =
  dc_allowlist :: "string list"
  dc_cache_ttl :: rat
  dc_client_name :: string
  dc_redirect_uris :: "string list"

definition hashable :: "pyval \<Rightarrow> bool" where
  "hashable v = (case v of PList vs \<Rightarrow> False | PDict d \<Rightarrow> False | _ \<Rightarrow> True)"

definition negotiate_grant_types :: "OAuthMetadata \<Rightarrow> string list res" where
  "negotiate_grant_types m =
     on_ok (py_list (dict_get_or (PList []) (om_raw m) ''grant_types_supported'')) (\<lambda>supported.
       if \<not> list_all hashable supported then Inl (TypeError ''unhashable type'')
       else if supported = [] then Inr GATEWAY_GRANT_TYPES
       else Inr (filter (\<lambda>g. PStr g \<in> set supported) GATEWAY_GRANT_TYPES))"

definition build_registration_body :: "DCRClient \<Rightarrow> string list \<Rightarrow> (string, pyval) dict" where
  "build_registration_body c grant_types =
     [(''client_name'', PStr (dc_client_name c)), (''grant_types'', PList (map PStr grant_types)), (''token_endpoint_auth_method'', PStr ''client_secret_post'')] @
     (if dc_redirect_uris c = [] then [] else [(''redirect_uris'', PList (map PStr (dc_redirect_uris c)))]) @
     (if ''authorization_code'' \<in> set grant_types
      then [(''response_types'', PList [PStr ''code'']), (''code_challenge_methods_supported'', PList [PStr ''S256''])] else [])"

type_synonym registration_cache = "(string, ClientRegistration \<times> rat) dict"

text \<open>The posts made so far are recorded with their addresses; an answer has a status and a body.\<close>

type_synonym poster = "string \<Rightarrow> (string, pyval) dict \<Rightarrow> http_response res"

definition do_register ::
    "discovery_env \<Rightarrow> poster \<Rightarrow> rat \<Rightarrow> string \<Rightarrow> (string, pyval) dict \<Rightarrow> registration_cache \<times> string list \<Rightarrow>
     ClientRegistration option res \<times> (registration_cache \<times> string list)" where
  "do_register env post now endpoint body st =
     (case st of (cache, posts) \<Rightarrow>
        (case validate_discovery_url env True endpoint of
           Inl e \<Rightarrow> (Inr None, st)
         | Inr u \<Rightarrow>
             (let st1 = (cache, posts @ [endpoint])
              in case post endpoint body of
                   Inl e \<Rightarrow> (if os_error e then Inr None else Inl e, st1)
                 | Inr resp \<Rightarrow>
                     (if hr_status resp \<notin> {200, 201} then (Inr None, st1)
                      else case hr_json resp of
                             Inl e \<Rightarrow> (Inr None, st1)
                           | Inr (PDict d) \<Rightarrow>
                               (if \<not> py_truthy (dict_get_or (PStr []) d ''client_id'') then (Inr None, st1)
                                else let reg = \<lparr>cl_client_id = dict_get_or (PStr []) d ''client_id'', cl_client_secret = dict_get_or (PStr []) d ''client_secret'',
                                       cl_issued_at = dict_get_or (PInt 0) d ''client_id_issued_at'', cl_secret_expires_at = dict_get_or (PInt 0) d ''client_secret_expires_at'',
                                       cl_grant_types = dict_get_or (PList []) d ''grant_types'', cl_redirect_uris = dict_get_or (PList []) d ''redirect_uris'',
                                       cl_auth_method = dict_get_or (PStr ''client_secret_post'') d ''token_endpoint_auth_method'',
                                       cl_endpoint = endpoint, cl_raw = PDict d\<rparr>
                                     in (Inr (Some reg), (dict_set endpoint (reg, now) cache, posts @ [endpoint])))
                           | Inr v \<Rightarrow> (Inl (OtherException ''AttributeError'' ''object has no attribute get''), st1)))))"

definition dcr_register ::
    "discovery_env \<Rightarrow> poster \<Rightarrow> rat \<Rightarrow> rat \<Rightarrow> rat \<Rightarrow> DCRClient \<Rightarrow> OAuthMetadata \<Rightarrow> registration_cache \<times> string list \<Rightarrow>
     ClientRegistration option res \<times> (registration_cache \<times> string list)" where
  "dcr_register env post now wall now1 c m st =
     (case st of (cache, posts) \<Rightarrow>
        (if \<not> supports_dynamic_registration m then (Inr None, st)
         else case om_registration_endpoint m of
                PStr endpoint \<Rightarrow>
                  (case validate_discovery_url env True endpoint of
                     Inl e \<Rightarrow> (Inl e, st)
                   | Inr u \<Rightarrow>
                       (if dc_allowlist c \<noteq> [] \<and> \<not> hashable (om_issuer m) then (Inl (TypeError ''unhashable type''), st)
                        else if dc_allowlist c \<noteq> [] \<and> om_issuer m \<notin> PStr ` set (dc_allowlist c)
                        then (Inl (ValueError (''Issuer '' @ quoted (py_str (om_issuer m)) @ '' is not in the allowed issuers list.'')), st)
                        else
                          let fresh = (case dict_get cache endpoint of
                                None \<Rightarrow> Inr None
                              | Some (reg, t) \<Rightarrow>
                                  (if now - t < max 0 (dc_cache_ttl c)
                                   then on_ok (registration_expired wall reg) (\<lambda>expired. Inr (if expired then None else Some reg)) else Inr None))
                          in case fresh of
                               Inl e \<Rightarrow> (Inl e, st)
                             | Inr (Some reg) \<Rightarrow> (Inr (Some reg), st)
                             | Inr None \<Rightarrow>
                                 (case negotiate_grant_types m of
                                    Inl e \<Rightarrow> (Inl e, (dict_del endpoint cache, posts))
                                  | Inr gs \<Rightarrow>
                                      do_register env post now1 endpoint (build_registration_body c (if gs = [] then GATEWAY_GRANT_TYPES else gs))
                                        (dict_del endpoint cache, posts))))
              | v \<Rightarrow> (Inl (OtherException ''AttributeError'' ''object has no attribute decode''), st)))"

definition clear_registrations :: "registration_cache \<times> string list \<Rightarrow> registration_cache \<times> string list" where
  "clear_registrations st = ([], snd st)"

definition registration_request :: "string \<Rightarrow> string \<Rightarrow> (string, pyval) dict" where
  "registration_request svr_name redirect_uri =
     [(''client_name'', PStr (''Argus MCP ('' @ svr_name @ '')'')),
      (''redirect_uris'', PList [PStr (if redirect_uri = [] then ''http://127.0.0.1/callback'' else redirect_uri)]),
      (''grant_types'', PList [PStr ''authorization_code'', PStr ''refresh_token'']), (''response_types'', PList [PStr ''code'']),
      (''token_endpoint_auth_method'', PStr ''none''), (''application_type'', PStr ''native''), (''scope'', PStr ''openid email profile offline_access'')]"

text \<open>The length of the identifier is asked for where it is logged.\<close>

definition dynamic_register :: "poster \<Rightarrow> string \<Rightarrow> pyval \<Rightarrow> string \<Rightarrow> (pyval \<times> pyval) res" where
  "dynamic_register post svr_name endpoint redirect_uri =
     (case endpoint of
        PStr url \<Rightarrow>
          on_ok (post url (registration_request svr_name redirect_uri)) (\<lambda>resp.
            if hr_status resp \<notin> {200..299} then Inl (OtherException ''HTTPStatusError'' ''unsuccessful'')
            else on_ok (hr_json resp) (\<lambda>v. on_ok (py_get v ''client_id'' (PStr [])) (\<lambda>cid. on_ok (py_get v ''client_secret'' (PStr [])) (\<lambda>secret.
              case cid of
                PStr s \<Rightarrow> Inr (cid, secret)
              | PList l \<Rightarrow> if length l > 12 then Inl (TypeError ''can only concatenate list'') else Inr (cid, secret)
              | PDict d \<Rightarrow> if length d > 12 then Inl (TypeError ''unhashable type'') else Inr (cid, secret)
              | _ \<Rightarrow> Inl (TypeError ''object has no len()'')))))
      | v \<Rightarrow> Inl (TypeError ''Invalid type for url''))"

section \<open>The browser flow\<close>

record PKCEChallenge =
  pq_verifier :: string
  pq_challenge :: string

text \<open>The challenge is the encoded digest of the verifier; the encoding and the hash are an argument.\<close>

definition generate_pkce_challenge :: "(string \<Rightarrow> string) \<Rightarrow> string \<Rightarrow> PKCEChallenge" where
  "generate_pkce_challenge digest verifier = \<lparr>pq_verifier = verifier, pq_challenge = digest verifier\<rparr>"

definition auth_params :: "pkce_client \<Rightarrow> PKCEChallenge \<Rightarrow> string \<Rightarrow> string \<Rightarrow> (string, string) dict" where
  "auth_params cl pkce state redirect_uri =
     [(''response_type'', ''code''), (''client_id'', pc_client_id cl), (''redirect_uri'', redirect_uri), (''state'', state),
      (''code_challenge'', pq_challenge pkce), (''code_challenge_method'', ''S256'')] @
     (if pc_scopes cl = [] then [] else [(''scope'', join_with '' '' (pc_scopes cl))])"

definition exchange_form :: "pkce_client \<Rightarrow> string \<Rightarrow> string \<Rightarrow> string \<Rightarrow> (string, string) dict" where
  "exchange_form cl auth_code redirect_uri verifier =
     [(''grant_type'', ''authorization_code''), (''code'', auth_code), (''redirect_uri'', redirect_uri), (''client_id'', pc_client_id cl), (''code_verifier'', verifier)] @
     (if pc_client_secret cl = [] then [] else [(''client_secret'', pc_client_secret cl)])"

definition exchange_code ::
    "(string \<Rightarrow> (string, string) dict \<Rightarrow> token_payload res) \<Rightarrow> pkce_client \<Rightarrow> string \<Rightarrow> string \<Rightarrow> string \<Rightarrow> TokenSet res" where
  "exchange_code post cl auth_code redirect_uri verifier =
     on_ok (post (pc_token_endpoint cl) (exchange_form cl auth_code redirect_uri verifier)) (\<lambda>payload.
       case pl_access_token payload of
         None \<Rightarrow> Inl (KeyError ''access_token'')
       | Some t \<Rightarrow>
           on_ok (payload_lifetime payload) (\<lambda>life.
             Inr \<lparr>access_token = t, token_type = or_else (pl_token_type payload) ''Bearer'', refresh_token = or_else (pl_refresh_token payload) [],
                  expires_in = life, scope = or_else (pl_scope payload) []\<rparr>))"

definition callback_uri :: "int \<Rightarrow> string" where
  "callback_uri port = ''http://127.0.0.1:'' @ show_int port @ ''/callback''"

text \<open>Binding the callback server, unless it is bound; the port or the error comes from the system.\<close>

definition bind_callback_server :: "int res \<Rightarrow> string option \<Rightarrow> string res" where
  "bind_callback_server port bound = (case bound of Some uri \<Rightarrow> Inr uri | None \<Rightarrow> on_ok port (\<lambda>p. Inr (callback_uri p)))"

definition is_headless :: "(string, string) dict \<Rightarrow> string \<Rightarrow> bool" where
  "is_headless environ platform =
     (dict_get_or [] environ ''SSH_CONNECTION'' \<noteq> [] \<or> dict_get_or [] environ ''SSH_TTY'' \<noteq> [] \<or>
      starts_with ''linux'' platform \<and> dict_get_or [] environ ''DISPLAY'' = [] \<and> dict_get_or [] environ ''WAYLAND_DISPLAY'' = [])"

text \<open>
  Flows of several backends run at the same time. Each has a callback server of its own, but what
  a callback brings is kept in attributes of the handler class, which all of them share: the
  result, the error and the event to set. A flow clears the result and the error, installs its event,
  waits for it, is cut off after its time or cancelled, or looks at the shared attributes.

  The handler of a callback runs in the thread of its server, so its parts are steps of their own:
  it stores what the callback brought; then it sends the page, which may fail and end it, and
  schedules the setting of the event that is installed at that moment; and the event loop sets the
  event later. \<open>cb_handlers\<close> counts the handlers between the two parts, \<open>cb_pending\<close> has the flows whose
  event is scheduled to be set.
\<close>

datatype flow_status = Idle | Preparing | Waiting | Ended "string res" | FlowCancelled

record flow =
  fl_state :: string
  fl_status :: flow_status
  fl_event :: bool

record callback_class =
  cb_result :: "(string \<times> string) option"
  cb_error :: "string option"
  cb_ready :: "nat option"
  cb_flows :: "nat \<Rightarrow> flow"
  cb_handlers :: nat
  cb_pending :: "nat list"
  cb_seen :: "(string \<times> string) list"

definition set_flow_status :: "nat \<Rightarrow> flow_status \<Rightarrow> callback_class \<Rightarrow> callback_class" where
  "set_flow_status i st c = c\<lparr>cb_flows := (cb_flows c)(i := (cb_flows c i)\<lparr>fl_status := st\<rparr>)\<rparr>"

definition set_flow_event :: "nat \<Rightarrow> bool \<Rightarrow> callback_class \<Rightarrow> callback_class" where
  "set_flow_event i b c = c\<lparr>cb_flows := (cb_flows c)(i := (cb_flows c i)\<lparr>fl_event := b\<rparr>)\<rparr>"

definition reset_class :: "nat \<Rightarrow> callback_class \<Rightarrow> callback_class" where
  "reset_class i c = set_flow_status i Preparing (set_flow_event i False (c\<lparr>cb_result := None, cb_error := None\<rparr>))"

definition install_event :: "nat \<Rightarrow> callback_class \<Rightarrow> callback_class" where
  "install_event i c = set_flow_status i Waiting (c\<lparr>cb_ready := Some i\<rparr>)"

text \<open>A callback with the parameters of its query, each with its first value; those seen are recorded.\<close>

definition do_GET :: "string \<Rightarrow> (string, string) dict \<Rightarrow> callback_class \<Rightarrow> callback_class" where
  "do_GET path params c =
     (if path \<noteq> ''/callback'' then c
      else let c1 = c\<lparr>cb_handlers := Suc (cb_handlers c)\<rparr>
           in case dict_get params ''error'' of
                Some e \<Rightarrow> c1\<lparr>cb_error := Some e\<rparr>
              | None \<Rightarrow>
                  (case dict_get params ''code'' of
                     Some auth_code \<Rightarrow>
                       (let r = (auth_code, dict_get_or [] params ''state'')
                        in c1\<lparr>cb_result := Some r, cb_seen := cb_seen c @ [r]\<rparr>)
                   | None \<Rightarrow> c1\<lparr>cb_error := Some ''missing_code''\<rparr>))"

definition signal_ready :: "callback_class \<Rightarrow> callback_class" where
  "signal_ready c =
     (let c1 = c\<lparr>cb_handlers := cb_handlers c - 1\<rparr>
      in case cb_ready c of None \<Rightarrow> c1 | Some i \<Rightarrow> c1\<lparr>cb_pending := cb_pending c @ [i]\<rparr>)"

definition handler_fails :: "callback_class \<Rightarrow> callback_class" where
  "handler_fails c = c\<lparr>cb_handlers := cb_handlers c - 1\<rparr>"

definition run_scheduled :: "callback_class \<Rightarrow> callback_class" where
  "run_scheduled c = (case cb_pending c of [] \<Rightarrow> c | i # rest \<Rightarrow> set_flow_event i True (c\<lparr>cb_pending := rest\<rparr>))"

text \<open>What a flow that was woken makes of the shared attributes: the code to exchange, or an exception.\<close>

definition flow_outcome :: "nat \<Rightarrow> callback_class \<Rightarrow> string res" where
  "flow_outcome i c =
     (case cb_error c of
        Some (x # xs) \<Rightarrow> Inl (RuntimeError (''OAuth authorization failed: '' @ x # xs))
      | _ \<Rightarrow>
          (case cb_result c of
             None \<Rightarrow> Inl (RuntimeError ''No authorization code received.'')
           | Some (auth_code, s) \<Rightarrow>
               (if s = fl_state (cb_flows c i) then Inr auth_code else Inl (RuntimeError ''OAuth state mismatch - possible CSRF attack.''))))"

abbreviation timed_out :: exn where
  "timed_out \<equiv> RuntimeError ''OAuth authorization timed out''"

definition end_flow :: "nat \<Rightarrow> string res \<Rightarrow> callback_class \<Rightarrow> callback_class" where
  "end_flow i r c = set_flow_status i (Ended r) c"

text \<open>What \<open>execute\<close> returns once it was woken: the code of the callback is exchanged with the flow's own verifier.\<close>

definition execute_result ::
    "(string \<Rightarrow> (string, string) dict \<Rightarrow> token_payload res) \<Rightarrow> pkce_client \<Rightarrow> string \<Rightarrow> PKCEChallenge \<Rightarrow> nat \<Rightarrow> callback_class \<Rightarrow> TokenSet res" where
  "execute_result post cl redirect_uri pkce i c =
     on_ok (flow_outcome i c) (\<lambda>auth_code. exchange_code post cl auth_code redirect_uri (pq_verifier pkce))"

inductive flow_step :: "callback_class \<Rightarrow> callback_class \<Rightarrow> bool" where
  step_reset: "fl_status (cb_flows c i) = Idle \<Longrightarrow> flow_step c (reset_class i c)"
| step_install: "fl_status (cb_flows c i) = Preparing \<Longrightarrow> flow_step c (install_event i c)"
| step_callback: "flow_step c (do_GET path params c)"
| step_signal: "0 < cb_handlers c \<Longrightarrow> flow_step c (signal_ready c)"
| step_handler_fails: "0 < cb_handlers c \<Longrightarrow> flow_step c (handler_fails c)"
| step_scheduled: "flow_step c (run_scheduled c)"
| step_wake: "fl_status (cb_flows c i) = Waiting \<Longrightarrow> fl_event (cb_flows c i) \<Longrightarrow> flow_step c (end_flow i (flow_outcome i c) c)"
| step_timeout: "fl_status (cb_flows c i) = Waiting \<Longrightarrow> flow_step c (end_flow i (Inl timed_out) c)"
| step_cancel: "fl_status (cb_flows c i) = Waiting \<Longrightarrow> flow_step c (set_flow_status i FlowCancelled c)"

section \<open>Discovery of a backend's authentication\<close>

text \<open>
  The run for one backend. The port of the callback server, the posts and the browser flow, given
  the address of the callback, are arguments; the settings found, the token files, the cached
  metadata and the network change. Every exception is logged and the answer is no.
\<close>

record 'w discovery_state =
  ds_auths :: "(string, (string, pyval) dict) dict"
  ds_tokens :: token_dir
  ds_cache :: metadata_cache
  ds_net :: "'w net"

definition discovered_settings :: "OAuthMetadata \<Rightarrow> pyval \<Rightarrow> pyval \<Rightarrow> (string, pyval) dict" where
  "discovered_settings m client_id client_secret =
     [(''type'', PStr ''pkce''), (''authorization_endpoint'', om_authorization_endpoint m), (''token_endpoint'', om_token_endpoint m),
      (''client_id'', client_id), (''client_secret'', client_secret), (''scopes'', py_or (om_scopes m) (PList []))]"

definition register_and_authorize ::
    "poster \<Rightarrow> int res \<Rightarrow> (string \<Rightarrow> pyval \<Rightarrow> pyval \<Rightarrow> TokenSet res) \<Rightarrow> string \<Rightarrow> OAuthMetadata \<Rightarrow> (pyval \<times> pyval \<times> TokenSet) res" where
  "register_and_authorize post port flow name m =
     on_ok (supports_pkce m) (\<lambda>b.
       if \<not> py_truthy (om_authorization_endpoint m) \<or> \<not> py_truthy (om_token_endpoint m) then Inl (RuntimeError ''OAuth metadata incomplete'')
       else on_ok (bind_callback_server port None) (\<lambda>redirect_uri.
         on_ok (if supports_dynamic_registration m then dynamic_register post name (om_registration_endpoint m) redirect_uri else Inr (PStr [], PStr [])) (\<lambda>client.
           case client of (client_id, client_secret) \<Rightarrow>
             (if \<not> py_truthy client_id then Inl (RuntimeError ''No client_id available'')
              else on_ok (flow redirect_uri client_id client_secret) (\<lambda>tokens. Inr (client_id, client_secret, tokens))))))"

definition try_auth_discovery ::
    "discovery_env \<Rightarrow> 'w getter \<Rightarrow> rat \<Rightarrow> rat \<Rightarrow> poster \<Rightarrow> int res \<Rightarrow> (string \<Rightarrow> pyval \<Rightarrow> pyval \<Rightarrow> TokenSet res) \<Rightarrow> bool \<Rightarrow> rat \<Rightarrow> string \<Rightarrow>
     (string, pyval) dict \<Rightarrow> 'w discovery_state \<Rightarrow> bool \<times> 'w discovery_state" where
  "try_auth_discovery env get now now1 post port flow writable wall name conf s =
     (if \<not> py_truthy (dict_get_or PNone conf ''url'') \<or> py_truthy (dict_get_or PNone conf ''auth'') \<or> name \<in> set (dict_keys (ds_auths s)) then (False, s)
      else case dict_get_or PNone conf ''url'' of
             PStr url \<Rightarrow>
               (case discover_oauth_metadata env get now now1 url (ds_cache s, ds_net s) of
                  (r, (cache, n)) \<Rightarrow>
                    (let s1 = s\<lparr>ds_cache := cache, ds_net := n\<rparr>
                     in case r of
                          Inr (Some m) \<Rightarrow>
                            (case register_and_authorize post port flow name m of
                               Inl e \<Rightarrow> (False, s1)
                             | Inr (client_id, client_secret, tokens) \<Rightarrow>
                                 (True, s1\<lparr>ds_tokens := store_save writable wall name tokens (ds_tokens s1),
                                           ds_auths := dict_set name (discovered_settings m client_id client_secret) (ds_auths s1)\<rparr>))
                        | _ \<Rightarrow> (False, s1)))
           | v \<Rightarrow> (False, s))"

end
