(* ===== verification/OAuth_Properties.thy ===== *)
theory OAuth_Properties
  imports OAuth_Discovery
begin

text \<open>
  What is shown of discovery and of the browser flow: every address asked during discovery was
  validated, a flow only ends with the code of a callback that carried its own state, flows that
  run at the same time take each other's callbacks, an allow list of issuers is obeyed, and a
  token that discovery obtained is the one the backend's provider sends next.
\<close>

section \<open>Addresses asked during discovery\<close>

lemma url_hostname_cong: "url_netloc u = url_netloc v \<Longrightarrow> url_hostname ipv6 u = url_hostname ipv6 v"
  by (simp add: url_hostname_def)

lemma set_drop_scheme: "set (drop_scheme u) \<subseteq> set u"
  by (simp add: drop_scheme_def Let_def set_drop_subset)

lemma url_netloc_chars:
  assumes "c \<in> set (url_netloc url)"
  shows "code c \<notin> {9, 10, 13}" "c \<notin> {CHR ''/'', CHR ''?'', CHR ''#''}"
proof -
  let ?clean = "filter (\<lambda>c. code c \<notin> {9, 10, 13}) (dropWhile (\<lambda>c. code c \<le> 32) url)"
  have c: "c \<in> set (takeWhile (\<lambda>c. c \<notin> {CHR ''/'', CHR ''?'', CHR ''#''}) (drop 2 (drop_scheme ?clean)))"
    using assms unfolding url_netloc_def Let_def by (simp only: split: if_splits) simp
  show "c \<notin> {CHR ''/'', CHR ''?'', CHR ''#''}" using set_takeWhileD [OF c] by (rule conjunct2)
  have "c \<in> set ?clean" using in_set_dropD [OF conjunct1 [OF set_takeWhileD [OF c]]] set_drop_scheme by (rule rev_subsetD)
  then show "code c \<notin> {9, 10, 13}" unfolding set_filter mem_Collect_eq by (rule conjunct2)
qed

definition plain_scheme :: "string \<Rightarrow> bool" where
  "plain_scheme s = (s \<in> {''http'', ''https''})"

lemma plain_scheme_cases: "plain_scheme s \<Longrightarrow> (s = ''http'' \<Longrightarrow> P) \<Longrightarrow> (s = ''https'' \<Longrightarrow> P) \<Longrightarrow> P"
  by (auto simp: plain_scheme_def)

lemma plain_scheme_closed:
  assumes "plain_scheme s"
  shows "CHR '':'' \<notin> set s \<and> s \<noteq> [] \<and> \<not> is_digit (hd s) \<and> hd s \<notin> {CHR ''+'', CHR ''-'', CHR ''.''} \<and> list_all scheme_char s"
    "str_lower s = s" "filter (\<lambda>c. code c \<notin> {9, 10, 13}) (s @ ''://'') = s @ ''://''" "\<not> code (hd s) \<le> 32"
  by (rule plain_scheme_cases [OF assms]; hypsubst; code_simp)+

lemma plain_scheme_drop:
  assumes "plain_scheme s"
  shows "takeWhile (\<lambda>c. c \<noteq> CHR '':'') (s @ ''://'' @ r) = s" "drop_scheme (s @ ''://'' @ r) = ''//'' @ r"
    "dropWhile (\<lambda>c. code c \<le> 32) (s @ ''://'' @ r) = s @ ''://'' @ r"
proof -
  note s = plain_scheme_closed [OF assms]
  show tw: "takeWhile (\<lambda>c. c \<noteq> CHR '':'') (s @ ''://'' @ r) = s" using s(1) by (subst takeWhile_append2) auto
  show "drop_scheme (s @ ''://'' @ r) = ''//'' @ r" unfolding drop_scheme_def Let_def tw using s(1) by simp
  show "dropWhile (\<lambda>c. code c \<le> 32) (s @ ''://'' @ r) = s @ ''://'' @ r" using s(1,4) by (cases s) (simp_all only: append_Cons dropWhile.simps list.sel if_False simp_thms)
qed

lemma address_parts:
  assumes s: "plain_scheme s" and n: "\<And>c. c \<in> set n \<Longrightarrow> code c \<notin> {9, 10, 13}" "\<And>c. c \<in> set n \<Longrightarrow> c \<notin> {CHR ''/'', CHR ''?'', CHR ''#''}"
    and p: "filter (\<lambda>c. code c \<notin> {9, 10, 13}) path = CHR ''/'' # path'"
  shows "url_scheme (s @ ''://'' @ n @ path) = s" "url_netloc (s @ ''://'' @ n @ path) = n"
proof -
  have nn: "filter (\<lambda>c. code c \<notin> {9, 10, 13}) n = n" by (rule filter_True) (use n(1) in blast)
  have "filter (\<lambda>c. code c \<notin> {9, 10, 13}) ((s @ ''://'') @ n @ path) = (s @ ''://'') @ n @ CHR ''/'' # path'"
    unfolding filter_append [of _ "s @ ''://''"] filter_append [of _ n] p plain_scheme_closed(3) [OF s] nn by (rule refl)
  then have clean: "filter (\<lambda>c. code c \<notin> {9, 10, 13}) (dropWhile (\<lambda>c. code c \<le> 32) (s @ ''://'' @ n @ path)) = s @ ''://'' @ n @ CHR ''/'' # path'"
    unfolding plain_scheme_drop(3) [OF s] by (simp only: append_assoc)
  have "takeWhile (\<lambda>c. c \<notin> {CHR ''/'', CHR ''?'', CHR ''#''}) (n @ CHR ''/'' # path') = n"
    using n(2) by (subst takeWhile_append2) simp_all
  then show "url_netloc (s @ ''://'' @ n @ path) = n"
    unfolding url_netloc_def Let_def clean plain_scheme_drop(2) [OF s] by (simp add: starts_with_def)
  have "''//'' @ n @ CHR ''/'' # path' \<noteq> s @ ''://'' @ n @ CHR ''/'' # path'" using s by (cases rule: plain_scheme_cases) simp_all
  then show "url_scheme (s @ ''://'' @ n @ path) = s"
    unfolding url_scheme_def Let_def clean plain_scheme_drop(1,2) [OF s] plain_scheme_closed(2) [OF s] by (simp only: if_False)
qed

lemma validated_iff:
  "validate_discovery_url env True url = Inr () \<longleftrightarrow>
     plain_scheme (url_scheme url) \<and> url_hostname (de_ipv6 env) url \<notin> {None, Some []}"
  by (cases "url_hostname (de_ipv6 env) url") (simp_all add: validate_discovery_url_def plain_scheme_def disj_commute)

lemma validated_base:
  assumes v: "validate_discovery_url env True url = Inr ()" and p: "filter (\<lambda>c. code c \<notin> {9, 10, 13}) path = CHR ''/'' # path'"
  shows "validate_discovery_url env True (server_base url @ path) = Inr ()"
proof -
  have s: "plain_scheme (url_scheme url)" using v by (simp add: validated_iff)
  have parts: "url_scheme (server_base url @ path) = url_scheme url" "url_netloc (server_base url @ path) = url_netloc url"
    unfolding server_base_def append_assoc by (rule address_parts [OF s url_netloc_chars p]; assumption)+
  have "url_hostname (de_ipv6 env) (server_base url @ path) = url_hostname (de_ipv6 env) url"
    by (rule url_hostname_cong) (rule parts)
  then show ?thesis using v by (simp add: validated_iff parts(1))
qed

text \<open>The addresses in the log of a network were all validated.\<close>

definition asked_valid :: "discovery_env \<Rightarrow> 'w net \<Rightarrow> bool" where
  "asked_valid env n = list_all (\<lambda>u. validate_discovery_url env True u = Inr ()) (fst n)"

lemma asked_http_get: "asked_valid env n \<Longrightarrow> validate_discovery_url env True url = Inr () \<Longrightarrow> asked_valid env (snd (http_get get url n))"
  by (cases n) (simp add: asked_valid_def http_get_def split: prod.splits)

lemma asked_net_then:
  assumes "asked_valid env (snd m)" "\<And>x n. m = (Inr x, n) \<Longrightarrow> asked_valid env n \<Longrightarrow> asked_valid env (snd (f x n))"
  shows "asked_valid env (snd (net_then m f))"
  using assms by (cases m) (auto simp: net_then_def split: sum.splits)

lemma asked_or_none: "asked_valid env (snd m) \<Longrightarrow> asked_valid env (snd (or_none m))"
  by (auto simp: or_none_def split: prod.splits sum.splits)

lemma asked_safe_get_from:
  "asked_valid env n \<Longrightarrow> validate_discovery_url env True url = Inr () \<Longrightarrow> asked_valid env (snd (safe_get_from env get k url n))"
proof (induction env get k url n rule: safe_get_from.induct)
  case (1 env get k url n)
  show ?case unfolding safe_get_from.simps [of env get k url n]
  proof (rule asked_net_then)
    show "asked_valid env (snd (http_get get url n))" using "1.prems" by (rule asked_http_get)
  next
    fix resp n1 assume h: "http_get get url n = (Inr resp, n1)" and a: "asked_valid env n1"
    let ?next = "de_join env url (hr_location resp)"
    show "asked_valid env (snd (if hr_status resp \<notin> {301, 302, 303, 307, 308} \<or> hr_location resp = [] then (Inr resp, n1)
       else let url' = ?next in case validate_discovery_url env True url' of Inl e \<Rightarrow> (Inl e, n1)
            | Inr u \<Rightarrow> (case k of 0 \<Rightarrow> (Inr resp, n1) | Suc k' \<Rightarrow> safe_get_from env get k' url' n1)))"
      using a by (auto simp: Let_def split: sum.splits nat.splits intro: "1.IH")
  qed
qed

lemma asked_safe_get: "asked_valid env n \<Longrightarrow> validate_discovery_url env True url = Inr () \<Longrightarrow> asked_valid env (snd (safe_get env get url n))"
  by (simp add: safe_get_def asked_safe_get_from)

lemma well_known_paths:
  "filter (\<lambda>c. code c \<notin> {9, 10, 13}) ''/.well-known/oauth-protected-resource'' = CHR ''/'' # ''.well-known/oauth-protected-resource''"
  "filter (\<lambda>c. code c \<notin> {9, 10, 13}) ''/.well-known/oauth-authorization-server'' = CHR ''/'' # ''.well-known/oauth-authorization-server''"
  "filter (\<lambda>c. code c \<notin> {9, 10, 13}) ''/.well-known/openid-configuration'' = CHR ''/'' # ''.well-known/openid-configuration''"
  by code_simp+

lemmas asked_intros = asked_or_none asked_net_then asked_safe_get

lemma asked_steps:
  assumes "validate_discovery_url env True url = Inr ()" "asked_valid env n"
  shows "asked_valid env (snd (discover_resource_metadata env get url n))" "asked_valid env (snd (probe_www_authenticate env get url n))"
    "asked_valid env (snd (fetch_document env get url n))"
  unfolding discover_resource_metadata_def probe_www_authenticate_def fetch_document_def
  by (intro asked_intros assms validated_base [OF assms(1) well_known_paths(1)]; simp)+

lemma asked_oidc:
  assumes "validate_discovery_url env True url = Inr ()" "asked_valid env n"
  shows "asked_valid env (snd (discover_oidc env get url n))"
  unfolding discover_oidc_def
  by (intro asked_net_then asked_steps(3) validated_base [OF assms(1) well_known_paths(2)] validated_base [OF assms(1) well_known_paths(3)] assms(2))
    (simp_all split: option.splits)

lemma asked_uncached:
  fixes get :: "'w getter"
  assumes "validate_discovery_url env True url = Inr ()" "asked_valid env n"
  shows "asked_valid env (snd (discover_uncached env get url n))"
  unfolding discover_uncached_def
proof (intro asked_net_then)
  show "asked_valid env (snd (discover_resource_metadata env get url n))" using assms by (rule asked_steps)
next
  fix s and n1 :: "'w net" assume "asked_valid env n1"
  then show "asked_valid env (snd (if (case s of Some v \<Rightarrow> py_truthy v | None \<Rightarrow> False) then (Inr s, n1) else probe_www_authenticate env get url n1))"
    using assms by (simp add: asked_steps(2))
next
  fix t and n2 :: "'w net" assume "asked_valid env n2"
  then show "asked_valid env (snd (case t of None \<Rightarrow> (Inr None, n2)
      | Some (PStr url) \<Rightarrow> if url = [] then (Inr None, n2) else case validate_discovery_url env True url of Inl e \<Rightarrow> (Inr None, n2) | Inr u \<Rightarrow> discover_oidc env get url n2
      | Some v \<Rightarrow> if py_truthy v then (Inl (OtherException ''AttributeError'' ''object has no attribute decode''), n2) else (Inr None, n2)))"
    by (auto split: option.splits pyval.splits sum.splits intro: asked_oidc)
qed

section \<open>How many requests\<close>

definition asked_within :: "nat \<Rightarrow> 'w net \<Rightarrow> 'w net \<Rightarrow> bool" where
  "asked_within k n n' = (length (fst n') \<le> length (fst n) + k)"

lemma asked_within_none [simp]: "asked_within k n n"
  by (simp add: asked_within_def)

lemma within_http_get: "asked_within 1 n (snd (http_get get url n))"
  by (cases n) (simp add: asked_within_def http_get_def split: prod.splits)

lemma within_net_then:
  assumes "asked_within j n (snd m)" "\<And>x n1. asked_within k n1 (snd (f x n1))"
  shows "asked_within (j + k) n (snd (net_then m f))"
  using assms(1) assms(2) [of "snd m" "projr (fst m)"]
  by (cases m) (auto simp: net_then_def asked_within_def split: sum.splits)

lemma within_or_none [simp]: "asked_within k n (snd (or_none m)) = asked_within k n (snd m)"
  by (auto simp: or_none_def split: prod.splits sum.splits)

lemma within_last: "asked_within k n (snd m) \<Longrightarrow> (\<And>x n1. snd (f x n1) = n1) \<Longrightarrow> asked_within k n (snd (net_then m f))"
  using within_net_then [of k n m 0 f] by simp

lemma within_safe_get_from: "asked_within (Suc k) n (snd (safe_get_from env get k url n))"
proof (induction k arbitrary: url n)
  case 0
  show ?case by (subst safe_get_from.simps) (rule within_last [OF within_http_get [unfolded One_nat_def]], auto simp: Let_def split: sum.splits)
next
  case (Suc k)
  have "asked_within (1 + Suc k) n (snd (safe_get_from env get (Suc k) url n))"
    by (subst safe_get_from.simps) (rule within_net_then [OF within_http_get], auto simp: Let_def Suc split: sum.splits)
  then show ?case by simp
qed

lemma within_safe_get: "asked_within 3 n (snd (safe_get env get url n))"
  using within_safe_get_from [of 2 n env get url] by (simp add: safe_get_def numeral_3_eq_3 numeral_2_eq_2)

lemma within_steps:
  "asked_within 3 n (snd (discover_resource_metadata env get url n))" "asked_within 3 n (snd (probe_www_authenticate env get url n))"
  "asked_within 3 n (snd (fetch_document env get url n))"
  unfolding discover_resource_metadata_def probe_www_authenticate_def fetch_document_def within_or_none
  by (rule within_last [OF within_safe_get]; simp)+

lemma within_oidc: "asked_within 6 n (snd (discover_oidc env get url n))"
proof -
  have "asked_within (3 + (3 + 0)) n (snd (discover_oidc env get url n))"
    unfolding discover_oidc_def by (intro within_net_then within_steps) simp
  then show ?thesis by simp
qed

lemma within_uncached: "asked_within 12 n (snd (discover_uncached env get url n))"
proof -
  have "asked_within (3 + (3 + 6)) n (snd (discover_uncached env get url n))"
    unfolding discover_uncached_def
    by (intro within_net_then within_steps) (auto simp: within_steps within_oidc split: option.splits pyval.splits sum.splits)
  then show ?thesis by simp
qed

text \<open>
  C36: Whatever the servers answer, every address that discovery asks has the scheme http or https and
  names a host, redirects included, and there are at most twelve requests.
\<close>

theorem discovery_asks_valid_addresses:
  "list_all (\<lambda>u. url_scheme u \<in> {''http'', ''https''} \<and> url_hostname (de_ipv6 env) u \<notin> {None, Some []})
      (fst (snd (snd (discover_oauth_metadata env get now now1 url (cache, ([], w)))))) \<and>
   length (fst (snd (snd (discover_oauth_metadata env get now now1 url (cache, ([], w)))))) \<le> 12"
proof -
  let ?n = "snd (snd (discover_oauth_metadata env get now now1 url (cache, ([], w))))"
  have "?n = ([], w) \<or> validate_discovery_url env True url = Inr () \<and> ?n = snd (discover_uncached env get url ([], w))"
    by (auto simp: discover_oauth_metadata_def Let_def split: sum.splits option.splits prod.splits)
  then have "asked_valid env ?n \<and> asked_within 12 ([], w) ?n"
    using asked_uncached [of env url "([], w)" get] within_uncached [of "([], w)" env get url] by (auto simp: asked_valid_def)
  then show ?thesis by (simp add: asked_valid_def asked_within_def validated_iff plain_scheme_def)
qed

text \<open>The addresses are not those of public hosts: a redirect to the loopback address is followed.\<close>

definition ex_env :: discovery_env where
  "ex_env = \<lparr>de_ipv6 = (\<lambda>s. True), de_private = (\<lambda>h. if h = ''127.0.0.1'' then Some True else None), de_join = (\<lambda>base loc. loc)\<rparr>"

definition ex_redirect :: "unit getter" where
  "ex_redirect url w =
     (Inr \<lparr>hr_status = (if url = ''https://mcp.example.com/.well-known/oauth-protected-resource'' then 302 else 404), hr_location = ''http://127.0.0.1:9200/_search'',
           hr_www_authenticate = [], hr_json = Inl (ValueError ''no JSON'')\<rparr>, w)"

lemma redirect_to_loopback_is_followed:
  "snd (snd (discover_oauth_metadata ex_env ex_redirect 0 0 ''https://mcp.example.com/mcp'' ([], ([], ())))) =
     ([''https://mcp.example.com/.well-known/oauth-protected-resource'', ''http://127.0.0.1:9200/_search'', ''https://mcp.example.com/mcp''], ()) \<and>
   de_private ex_env ''127.0.0.1'' = Some True"
  by code_simp

text \<open>A document that names its server in the single field only is taken to name none.\<close>

lemma single_server_is_ignored: "authorization_server (PDict [(''authorization_server'', PStr url)]) = Inr (Some PNone)"
  by (simp add: authorization_server_def py_get_def dict_get_or_def)

section \<open>The browser flow\<close>

inductive_cases flow_stepE: "flow_step c c'"

definition no_flow_yet :: "callback_class \<Rightarrow> bool" where
  "no_flow_yet c = (cb_result c = None \<and> cb_seen c = [] \<and> range (fl_status \<circ> cb_flows c) = {Idle})"

definition codes_seen :: "callback_class \<Rightarrow> bool" where
  "codes_seen c \<longleftrightarrow>
     (\<forall>r. cb_result c = Some r \<longrightarrow> r \<in> set (cb_seen c)) \<and>
     (\<forall>i auth_code. fl_status (cb_flows c i) = Ended (Inr auth_code) \<longrightarrow> (auth_code, fl_state (cb_flows c i)) \<in> set (cb_seen c))"

lemmas flow_defs = reset_class_def install_event_def do_GET_def signal_ready_def handler_fails_def run_scheduled_def end_flow_def
  set_flow_status_def set_flow_event_def Let_def

lemma flow_outcome_code: "flow_outcome i c = Inr auth_code \<Longrightarrow> cb_result c = Some (auth_code, fl_state (cb_flows c i))"
  by (auto simp: flow_outcome_def split: option.splits list.splits if_splits)

lemma codes_seen_end: "codes_seen c \<Longrightarrow> (\<And>auth_code. r = Inr auth_code \<Longrightarrow> cb_result c = Some (auth_code, fl_state (cb_flows c i))) \<Longrightarrow> codes_seen (end_flow i r c)"
  by (auto simp: codes_seen_def end_flow_def set_flow_status_def)

lemma codes_seen_step: "flow_step c c' \<Longrightarrow> codes_seen c \<Longrightarrow> codes_seen c'"
proof (induction rule: flow_step.induct)
  case (step_wake c i)
  then show ?case by (intro codes_seen_end flow_outcome_code)
next
  case (step_timeout c i)
  then show ?case by (intro codes_seen_end) simp_all
qed (auto simp: codes_seen_def flow_defs split: option.splits list.splits)

lemma fl_state_step: "flow_step c c' \<Longrightarrow> fl_state (cb_flows c' i) = fl_state (cb_flows c i)"
  by (auto elim!: flow_stepE simp: flow_defs split: option.splits list.splits)

lemma codes_seen_run: "flow_step\<^sup>*\<^sup>* c c' \<Longrightarrow> codes_seen c \<Longrightarrow> codes_seen c' \<and> fl_state (cb_flows c' i) = fl_state (cb_flows c i)"
  by (induction rule: rtranclp_induct) (auto intro: codes_seen_step simp: fl_state_step)

text \<open>
  C37: However the flows and their callbacks interleave, a flow that ends with an authorization code got
  it in a callback that carried the state the flow itself had sent.
\<close>

theorem code_comes_with_own_state:
  assumes "no_flow_yet c" "flow_step\<^sup>*\<^sup>* c c'" "fl_status (cb_flows c' i) = Ended (Inr auth_code)"
  shows "(auth_code, fl_state (cb_flows c i)) \<in> set (cb_seen c')"
proof -
  have "fl_status (cb_flows c j) = Idle" for j using assms(1) by (auto simp: no_flow_yet_def image_def)
  then have "codes_seen c" using assms(1) by (simp add: codes_seen_def no_flow_yet_def)
  then show ?thesis using codes_seen_run [OF assms(2), of i] assms(3) by (simp add: codes_seen_def) metis
qed

text \<open>A flow that nothing will wake: its event is neither set, nor scheduled to be set, nor the one installed.\<close>

definition lost :: "nat \<Rightarrow> callback_class \<Rightarrow> bool" where
  "lost i c \<longleftrightarrow>
     (fl_status (cb_flows c i) = Waiting \<and> \<not> fl_event (cb_flows c i) \<or>
      fl_status (cb_flows c i) = Ended (Inl timed_out) \<or> fl_status (cb_flows c i) = FlowCancelled) \<and>
     cb_ready c \<noteq> Some i \<and> i \<notin> set (cb_pending c)"

lemma lost_step: "flow_step c c' \<Longrightarrow> lost i c \<Longrightarrow> lost i c'"
  by (erule flow_stepE) (auto simp: lost_def flow_defs split: option.splits list.splits)

lemma lost_run: "flow_step\<^sup>*\<^sup>* c c' \<Longrightarrow> lost i c \<Longrightarrow> lost i c'"
  by (induction rule: rtranclp_induct) (auto intro: lost_step)

text \<open>
  C40: The callback of a flow is only heard until the next flow begins. When another flow installs its
  event while a flow waits, with its own event neither set nor scheduled to be set, the waiting
  flow can only go on waiting, time out or be cancelled, whatever callbacks come and also if a
  handler has already stored the result of its callback.
\<close>

theorem overtaken_flow_only_times_out:
  assumes "fl_status (cb_flows c i) = Waiting" "\<not> fl_event (cb_flows c i)" "i \<notin> set (cb_pending c)"
    and "fl_status (cb_flows c j) = Preparing" "flow_step\<^sup>*\<^sup>* (install_event j c) c'"
  shows "fl_status (cb_flows c' i) \<in> {Waiting, Ended (Inl timed_out), FlowCancelled}"
proof -
  have "i \<noteq> j" using assms(1,4) by auto
  then have "lost i (install_event j c)" using assms(1-3) by (simp add: lost_def install_event_def set_flow_status_def)
  then have "lost i c'" by (rule lost_run [OF assms(5)])
  then show ?thesis by (auto simp: lost_def)
qed

text \<open>One flow whose callback comes in time, and two flows of which the first loses its callback to the second.\<close>

definition ex_class :: callback_class where
  "ex_class = \<lparr>cb_result = None, cb_error = None, cb_ready = None, cb_flows = (\<lambda>i. \<lparr>fl_state = (if i = 0 then ''s0'' else ''s1''), fl_status = Idle, fl_event = False\<rparr>),
               cb_handlers = 0, cb_pending = [], cb_seen = []\<rparr>"

abbreviation begun :: "nat \<Rightarrow> callback_class \<Rightarrow> callback_class" where
  "begun i c \<equiv> install_event i (reset_class i c)"

abbreviation answer_to_0 :: "callback_class \<Rightarrow> callback_class" where
  "answer_to_0 \<equiv> do_GET ''/callback'' [(''code'', ''abc''), (''state'', ''s0'')]"

definition ex_answered :: callback_class where
  "ex_answered = run_scheduled (signal_ready (answer_to_0 (begun 0 ex_class)))"

definition ex_overtaken :: callback_class where
  "ex_overtaken = run_scheduled (signal_ready (answer_to_0 (begun 1 (begun 0 ex_class))))"

lemma begun_steps:
  assumes "fl_status (cb_flows c i) = Idle"
  shows "flow_step\<^sup>*\<^sup>* c (begun i c)"
proof -
  have "flow_step c (reset_class i c)" by (rule step_reset [OF assms])
  moreover have "flow_step (reset_class i c) (begun i c)"
    by (rule step_install) (simp add: reset_class_def set_flow_status_def)
  ultimately show ?thesis by (meson converse_rtranclp_into_rtranclp rtranclp.rtrancl_refl)
qed

lemma answered_steps:
  assumes "0 < cb_handlers (do_GET path params c)"
  shows "flow_step\<^sup>*\<^sup>* c (run_scheduled (signal_ready (do_GET path params c)))"
  by (meson assms step_callback step_signal step_scheduled converse_rtranclp_into_rtranclp rtranclp.rtrancl_refl)

theorem code_comes_with_own_state_witness:
  "fl_status (cb_flows (end_flow 0 (flow_outcome 0 ex_answered) ex_answered) 0) = Ended (Inr ''abc'') \<and>
   (''abc'', ''s0'') \<in> set (cb_seen (end_flow 0 (flow_outcome 0 ex_answered) ex_answered))"
proof -
  let ?c = "end_flow 0 (flow_outcome 0 ex_answered) ex_answered"
  have e: "fl_status (cb_flows ?c 0) = Ended (Inr ''abc'')" by code_simp
  have "flow_step\<^sup>*\<^sup>* ex_class (begun 0 ex_class)" by (rule begun_steps) code_simp
  moreover have "flow_step\<^sup>*\<^sup>* (begun 0 ex_class) ex_answered" unfolding ex_answered_def by (rule answered_steps) code_simp
  moreover have "flow_step ex_answered ?c" by (rule step_wake; code_simp)
  ultimately have "flow_step\<^sup>*\<^sup>* ex_class ?c" by (meson rtranclp.rtrancl_into_rtrancl rtranclp_trans)
  moreover have "no_flow_yet ex_class" by (auto simp: no_flow_yet_def ex_class_def)
  ultimately have "(''abc'', fl_state (cb_flows ex_class 0)) \<in> set (cb_seen ?c)" using e by (intro code_comes_with_own_state [of ex_class ?c 0 "''abc''"])
  then show ?thesis using e by (simp add: ex_class_def)
qed

theorem overtaken_flow_only_times_out_witness:
  "fl_status (cb_flows ex_overtaken 0) \<in> {Waiting, Ended (Inl timed_out), FlowCancelled} \<and> \<not> fl_event (cb_flows ex_overtaken 0) \<and>
   fl_event (cb_flows ex_overtaken 1) \<and> isl (flow_outcome 1 ex_overtaken)"
proof -
  let ?c = "reset_class 1 (begun 0 ex_class)"
  have "flow_step\<^sup>*\<^sup>* (install_event 1 ?c) ex_overtaken" unfolding ex_overtaken_def by (rule answered_steps) code_simp
  moreover have "fl_status (cb_flows ?c 0) = Waiting" "\<not> fl_event (cb_flows ?c 0)" "0 \<notin> set (cb_pending ?c)"
    "fl_status (cb_flows ?c 1) = Preparing" by code_simp+
  ultimately have "fl_status (cb_flows ex_overtaken 0) \<in> {Waiting, Ended (Inl timed_out), FlowCancelled}"
    by (intro overtaken_flow_only_times_out [of ?c 0 1 ex_overtaken])
  moreover have "\<not> fl_event (cb_flows ex_overtaken 0)" "fl_event (cb_flows ex_overtaken 1)" "isl (flow_outcome 1 ex_overtaken)" by code_simp+
  ultimately show ?thesis by simp
qed

text \<open>A flow whose event was scheduled before the other cleared the attributes is woken and finds nothing.\<close>

lemma late_wake_finds_nothing:
  "let c = run_scheduled (reset_class 1 (signal_ready (answer_to_0 (begun 0 ex_class))))
   in fl_event (cb_flows c 0) \<and> flow_outcome 0 c = Inl (RuntimeError ''No authorization code received.'')"
  by code_simp

section \<open>Registration\<close>

text \<open>With an allow list, nothing is posted, cached or returned for an issuer that is not on it.\<close>

lemma registration_obeys_allow_list:
  assumes "dc_allowlist c \<noteq> []" "om_issuer m \<notin> PStr ` set (dc_allowlist c)"
  shows "snd (dcr_register env post now wall now1 c m st) = st \<and> (isl (fst (dcr_register env post now wall now1 c m st)) \<or> fst (dcr_register env post now wall now1 c m st) = Inr None)"
  using assms by (cases st) (auto simp: dcr_register_def split: pyval.splits sum.splits)

text \<open>A registration that was just made answers the next call for the same address, whatever addresses for the callback the caller asks for.\<close>

lemma do_register_caches:
  "do_register env post now endpoint body (cache, posts) = (Inr (Some reg), (cache', posts')) \<Longrightarrow> dict_get cache' endpoint = Some (reg, now) \<and> posts' = posts @ [endpoint]"
  by (auto simp: do_register_def Let_def split: sum.splits if_splits pyval.splits)

lemma registration_is_reused:
  assumes "dict_get cache endpoint = Some (reg, t)" "now - t < dc_cache_ttl c" "registration_expired wall reg = Inr False"
    "om_registration_endpoint m = PStr endpoint" "validate_discovery_url env True endpoint = Inr ()" "dc_allowlist c = []" "endpoint \<noteq> []"
  shows "dcr_register env post now wall now1 c m (cache, posts) = (Inr (Some reg), (cache, posts))"
  using assms by (auto simp: dcr_register_def supports_dynamic_registration_def)

section \<open>Discovery of a backend's authentication\<close>

text \<open>
  A discovery that fails leaves the settings and the stored tokens alone. One that succeeds records
  settings, and the next provider of the backend sends the very token it obtained, with no second
  browser flow, until a minute before the token expires.
\<close>

theorem discovered_token_is_sent:
  assumes tokens: "\<And>uri cid secret t. flow uri cid secret = Inr t \<Longrightarrow> t = tokens"
    and t: "access_token tokens \<noteq> []" "expires_in tokens \<noteq> 0" "wall \<noteq> 0"
    and p: "pk_backend_name p = name" "pe_wall penv - wall < expires_in tokens - 60"
    and run: "try_auth_discovery env get now now1 post port flow True wall name conf s = (found, s')"
  shows "if found
         then snd (resolve_token penv (p, ds_tokens s')) = Inr (access_token tokens) \<and> name \<in> set (dict_keys (ds_auths s')) \<and> name \<notin> set (dict_keys (ds_auths s))
         else ds_auths s' = ds_auths s \<and> ds_tokens s' = ds_tokens s"
proof -
  have "register_and_authorize post port flow name m = Inr (cid, secret, t') \<Longrightarrow> t' = tokens" for m cid secret t'
    using tokens by (auto simp: register_and_authorize_def on_ok_def split: sum.splits if_splits prod.splits)
  then have "(\<not> found \<and> ds_auths s' = ds_auths s \<and> ds_tokens s' = ds_tokens s) \<or>
      (found \<and> ds_tokens s' = store_save True wall name tokens (ds_tokens s) \<and> name \<in> set (dict_keys (ds_auths s')) \<and> name \<notin> set (dict_keys (ds_auths s)))"
    using run by (auto simp: try_auth_discovery_def Let_def split: if_splits pyval.splits prod.splits sum.splits option.splits)
  then show ?thesis using t p by (auto simp: resolve_token_def store_load_def store_save_def Let_def)
qed

definition ex_document :: "string \<Rightarrow> pyval option" where
  "ex_document url =
     (if url = ''https://mcp.example.com/.well-known/oauth-protected-resource''
      then Some (PDict [(''authorization_servers'', PList [PStr ''https://auth.example.com/tenant''])])
      else if url = ''https://auth.example.com/.well-known/oauth-authorization-server''
      then Some (PDict [(''authorization_endpoint'', PStr ''https://auth.example.com/authorize''), (''token_endpoint'', PStr ''https://auth.example.com/token''),
                        (''registration_endpoint'', PStr ''https://auth.example.com/register'')])
      else None)"

definition ex_getter :: "unit getter" where
  "ex_getter url w =
     (Inr \<lparr>hr_status = (if ex_document url = None then 404 else 200), hr_location = [], hr_www_authenticate = [],
           hr_json = (case ex_document url of Some v \<Rightarrow> Inr v | None \<Rightarrow> Inl (ValueError ''no JSON''))\<rparr>, w)"

definition ex_poster :: poster where
  "ex_poster url body = Inr \<lparr>hr_status = 201, hr_location = [], hr_www_authenticate = [], hr_json = Inr (PDict [(''client_id'', PStr ''c1'')])\<rparr>"

definition ex_run :: "bool \<times> unit discovery_state" where
  "ex_run = try_auth_discovery ex_env ex_getter 0 1 ex_poster (Inr 80) (\<lambda>uri cid secret. Inr ex_tokens) True 1000 ''github''
     [(''url'', PStr ''https://mcp.example.com/mcp'')] \<lparr>ds_auths = [], ds_tokens = [], ds_cache = [], ds_net = ([], ())\<rparr>"

lemma ex_run_found: "fst ex_run" "dict_keys (ds_cache (snd ex_run)) = [''https://mcp.example.com/mcp'']"
  by code_simp+

theorem discovered_token_is_sent_witness: "fst ex_run \<and> snd (resolve_token (ex_pkce_env 100) (ex_pkce, ds_tokens (snd ex_run))) = Inr ''tok''"
proof -
  have t: "access_token ex_tokens = ''tok''" "expires_in ex_tokens = 3600" "pk_backend_name ex_pkce = ''github''" "pe_wall (ex_pkce_env 100) = 1100"
    by (simp_all add: ex_tokens_def ex_pkce_def ex_pkce_env_def)
  have "snd (resolve_token (ex_pkce_env 100) (ex_pkce, ds_tokens (snd ex_run))) = Inr (access_token ex_tokens)"
    using discovered_token_is_sent [where flow = "\<lambda>uri cid secret. Inr ex_tokens" and tokens = ex_tokens and wall = 1000 and p = ex_pkce and
        penv = "ex_pkce_env 100" and name = "''github''" and env = ex_env and get = ex_getter and now = 0 and ?now1.0 = 1 and post = ex_poster and
        port = "Inr 80" and conf = "[(''url'', PStr ''https://mcp.example.com/mcp'')]" and
        s = "\<lparr>ds_auths = [], ds_tokens = [], ds_cache = [], ds_net = ([], ())\<rparr>" and found = "fst ex_run" and s' = "snd ex_run"]
    by (simp add: t ex_run_def [symmetric] ex_run_found prod_eq_iff)
  then show ?thesis by (simp add: t ex_run_found)
qed

end
