(* ===== verification/Issuer_Discovery.thy ===== *)
theory Issuer_Discovery
  imports OAuth_Properties
begin

text \<open>
  \<open>server/auth/oidc.py\<close>: the discovery document of the issuer whose tokens the gateway accepts. The
  resolver of names, the reading of an address with the question whether it is private, loopback,
  link-local or reserved (asked of the IPv4 address where one is mapped) and the HTTP library are
  arguments.
\<close>

section \<open>Parts of an address\<close>

text \<open>\<open>urlparse(url).port\<close>: a \<open>ValueError\<close> when it is no number below 65536.\<close>

definition url_port :: "string \<Rightarrow> int option res" where
  "url_port url =
     (let hostinfo = rpartition_tail (CHR ''@'') (url_netloc url);
          port = (if CHR ''['' \<in> set hostinfo
                  then snd (partition_at (CHR '':'') (snd (partition_at (CHR '']'') (snd (partition_at (CHR ''['') hostinfo)))))
                  else snd (partition_at (CHR '':'') hostinfo))
      in if port = [] then Inr None
         else if \<not> list_all is_digit port then Inl (ValueError ''Port could not be cast to integer value'')
         else if digits_nat (map digit_val port) > 65535 then Inl (ValueError ''Port out of range 0-65535'')
         else Inr (Some (int (digits_nat (map digit_val port)))))"

text \<open>What follows the host: path with parameters, query and fragment, put together again without empty parts.\<close>

definition url_tail :: "string \<Rightarrow> string" where
  "url_tail url =
     (let cleaned = filter (\<lambda>c. code c \<notin> {9, 10, 13}) (dropWhile (\<lambda>c. code c \<le> 32) url)
      in dropWhile (\<lambda>c. c \<notin> {CHR ''/'', CHR ''?'', CHR ''#''}) (drop 2 (drop_scheme cleaned)))"

definition last_segment :: "string \<Rightarrow> string" where
  "last_segment path = rev (takeWhile (\<lambda>c. c \<noteq> CHR ''/'') (rev path))"

definition joined_path :: "string \<Rightarrow> string" where
  "joined_path path =
     (case partition_at (CHR '';'') (last_segment path) of
        (before, params) \<Rightarrow> if CHR '';'' \<in> set (last_segment path) \<and> params = [] then butlast path else path)"

definition unparse_tail :: "string \<Rightarrow> string" where
  "unparse_tail t =
     (case partition_at (CHR ''#'') t of (main, fragment) \<Rightarrow>
        (case partition_at (CHR ''?'') main of (path, query) \<Rightarrow>
           joined_path path @ (if query = [] then [] else CHR ''?'' # query) @ (if fragment = [] then [] else CHR ''#'' # fragment)))"

section \<open>Discovery\<close>

record oidc_env =
  oe_ipv6 :: "string \<Rightarrow> bool"
  oe_resolve :: "string \<Rightarrow> string list res"
  oe_not_public :: "string \<Rightarrow> bool option"

record OIDCConfig =
  oc_issuer :: pyval
  oc_jwks_uri :: pyval
  oc_authorization_endpoint :: pyval
  oc_token_endpoint :: pyval
  oc_userinfo_endpoint :: pyval
  oc_raw :: "(string, pyval) dict"

record OIDCDiscovery =
  od_issuer :: string
  od_cached :: "OIDCConfig option"

definition new_oidc_discovery :: "string \<Rightarrow> OIDCDiscovery" where
  "new_oidc_discovery issuer_url = \<lparr>od_issuer = rstrip_by (\<lambda>x. x = CHR ''/'') issuer_url, od_cached = None\<rparr>"

definition OIDCDiscoveryError :: "string \<Rightarrow> exn" where
  "OIDCDiscoveryError m = OtherException ''OIDCDiscoveryError'' m"

fun public_addresses :: "(string \<Rightarrow> bool option) \<Rightarrow> string list \<Rightarrow> string list res" where
  "public_addresses not_public [] = Inr []"
| "public_addresses not_public (ip # ips) =
     (case not_public ip of
        None \<Rightarrow> public_addresses not_public ips
      | Some True \<Rightarrow> Inl (OIDCDiscoveryError (''OIDC issuer URL resolves to private/loopback/reserved address '' @ ip))
      | Some False \<Rightarrow> on_ok (public_addresses not_public ips) (\<lambda>r. Inr (ip # r)))"

definition validate_issuer_url :: "oidc_env \<Rightarrow> string \<Rightarrow> string list res" where
  "validate_issuer_url env issuer =
     (case url_hostname (oe_ipv6 env) issuer of
        None \<Rightarrow> Inl (ValueError ''Invalid IPv6 URL'')
      | Some host \<Rightarrow>
          (if host = [] then Inl (OIDCDiscoveryError ''OIDC issuer URL has no hostname'')
           else if url_scheme issuer \<notin> {''http'', ''https''} then Inl (OIDCDiscoveryError ''OIDC issuer URL must use http or https scheme'')
           else case oe_resolve env host of
                  Inl (OtherException c m) \<Rightarrow>
                    Inl (if c = ''gaierror'' then OIDCDiscoveryError (''DNS resolution failed: '' @ m) else OtherException c m)
                | Inl e \<Rightarrow> Inl e
                | Inr ips \<Rightarrow>
                    on_ok (public_addresses (oe_not_public env) ips) (\<lambda>validated.
                      if validated = [] then Inl (OIDCDiscoveryError ''DNS returned no usable addresses'') else Inr validated)))"

definition build_pinned_request :: "oidc_env \<Rightarrow> string \<Rightarrow> string \<Rightarrow> (string \<times> (string, string) dict) res" where
  "build_pinned_request env url pinned_ip =
     (if url_scheme url = ''https'' then Inr (url, [])
      else on_ok (url_port url) (\<lambda>port.
        let host = (case url_hostname (oe_ipv6 env) url of Some h \<Rightarrow> h | None \<Rightarrow> []);
            suffix = (case port of Some p \<Rightarrow> if p = 0 then [] else CHR '':'' # show_int p | None \<Rightarrow> [])
        in Inr (url_scheme url @ ''://'' @ pinned_ip @ suffix @ unparse_tail (url_tail url), [(''Host'', host @ suffix)])))"

text \<open>The errors caught around the request: those of httpx and a \<open>ValueError\<close>.\<close>

definition httpx_errors :: "string list" where
  "httpx_errors =
     [''HTTPStatusError'', ''RequestError'', ''TransportError'', ''TimeoutException'', ''ConnectTimeout'', ''ReadTimeout'', ''WriteTimeout'', ''PoolTimeout'', ''NetworkError'', ''ReadError'',
      ''WriteError'', ''ConnectError'', ''CloseError'', ''ProtocolError'', ''LocalProtocolError'', ''RemoteProtocolError'', ''ProxyError'', ''UnsupportedProtocol'', ''DecodingError'', ''TooManyRedirects'']"

definition oidc_caught :: "exn \<Rightarrow> bool" where
  "oidc_caught e = (case e of ValueError m \<Rightarrow> True | OtherException c m \<Rightarrow> c \<in> set httpx_errors | _ \<Rightarrow> False)"

definition read_document :: "string \<Rightarrow> http_response res \<Rightarrow> pyval res" where
  "read_document url answer =
     (case on_ok answer (\<lambda>resp. if hr_status resp \<notin> {200..299} then Inl (OtherException ''HTTPStatusError'' ''unsuccessful'') else hr_json resp) of
        Inl e \<Rightarrow> Inl (if oidc_caught e then OIDCDiscoveryError (''Failed to fetch OIDC discovery document from '' @ url @ '': '' @ exn_str e) else e)
      | Inr data \<Rightarrow> Inr data)"

definition oidc_config_of :: "string \<Rightarrow> pyval \<Rightarrow> OIDCConfig res" where
  "oidc_config_of issuer data =
     on_ok (py_in ''jwks_uri'' data) (\<lambda>found.
       if \<not> found then Inl (OIDCDiscoveryError ''OIDC discovery document missing required jwks_uri field'')
       else case data of
              PDict d \<Rightarrow>
                Inr \<lparr>oc_issuer = dict_get_or (PStr issuer) d ''issuer'', oc_jwks_uri = dict_get_or PNone d ''jwks_uri'',
                     oc_authorization_endpoint = dict_get_or (PStr []) d ''authorization_endpoint'', oc_token_endpoint = dict_get_or (PStr []) d ''token_endpoint'',
                     oc_userinfo_endpoint = dict_get_or (PStr []) d ''userinfo_endpoint'', oc_raw = d\<rparr>
            | _ \<Rightarrow> Inl (OtherException ''AttributeError'' ''object has no attribute get''))"

text \<open>The request, when one is made, is recorded with its headers.\<close>

type_synonym issuer_requests = "(string \<times> (string, string) dict) list"

definition oidc_fetch ::
    "oidc_env \<Rightarrow> (string \<Rightarrow> (string, string) dict \<Rightarrow> http_response res) \<Rightarrow> OIDCDiscovery \<times> issuer_requests \<Rightarrow>
     (OIDCDiscovery \<times> issuer_requests) \<times> OIDCConfig res" where
  "oidc_fetch env get st =
     (case st of (d, reqs) \<Rightarrow>
        (case od_cached d of
           Some c \<Rightarrow> (st, Inr c)
         | None \<Rightarrow>
             (let url = od_issuer d @ ''/.well-known/openid-configuration''
              in case on_ok (validate_issuer_url env (od_issuer d)) (\<lambda>ips. build_pinned_request env url (hd ips)) of
                   Inl e \<Rightarrow> (st, Inl e)
                 | Inr (request_url, extra_headers) \<Rightarrow>
                     (let reqs' = reqs @ [(request_url, extra_headers)]
                      in case on_ok (read_document url (get request_url extra_headers)) (oidc_config_of (od_issuer d)) of
                           Inl e \<Rightarrow> ((d, reqs'), Inl e)
                         | Inr c \<Rightarrow> ((d\<lparr>od_cached := Some c\<rparr>, reqs'), Inr c)))))"

definition oidc_refresh ::
    "oidc_env \<Rightarrow> (string \<Rightarrow> (string, string) dict \<Rightarrow> http_response res) \<Rightarrow> OIDCDiscovery \<times> issuer_requests \<Rightarrow>
     (OIDCDiscovery \<times> issuer_requests) \<times> OIDCConfig res" where
  "oidc_refresh env get st = oidc_fetch env get ((fst st)\<lparr>od_cached := None\<rparr>, snd st)"

section \<open>What is shown of it\<close>

lemma public_addresses_ok:
  "public_addresses np ips = Inr r \<Longrightarrow> (\<forall>ip \<in> set ips. np ip \<noteq> Some True) \<and> r = filter (\<lambda>ip. np ip = Some False) ips"
  by (induction ips arbitrary: r) (auto split: option.splits bool.splits simp: on_ok_def split: sum.splits)

lemma validated_issuer:
  assumes "validate_issuer_url env issuer = Inr ips"
  obtains host all where "url_hostname (oe_ipv6 env) issuer = Some host" "oe_resolve env host = Inr all"
    "\<forall>ip \<in> set all. oe_not_public env ip \<noteq> Some True" "ips = filter (\<lambda>ip. oe_not_public env ip = Some False) all" "ips \<noteq> []"
    "plain_scheme (url_scheme issuer)"
  using assms
  by (auto simp: validate_issuer_url_def on_ok_def plain_scheme_def dest!: public_addresses_ok split: option.splits if_splits sum.splits exn.splits)

text \<open>
  A request is made only when no address the issuer resolves to is private, loopback, link-local or
  reserved; without TLS it goes to one of the addresses that were checked, with the issuer's own host in a header.
\<close>

theorem issuer_requests_are_pinned:
  assumes "oidc_fetch env get (d, reqs) = ((d', reqs'), r)" "reqs' \<noteq> reqs"
  obtains url hs host ips ip where "reqs' = reqs @ [(url, hs)]" "url_hostname (oe_ipv6 env) (od_issuer d) = Some host" "oe_resolve env host = Inr ips"
    "\<forall>ip \<in> set ips. oe_not_public env ip \<noteq> Some True" "ip \<in> set ips" "oe_not_public env ip = Some False"
    "url_scheme (od_issuer d @ ''/.well-known/openid-configuration'') = ''https'' \<and> url = od_issuer d @ ''/.well-known/openid-configuration'' \<or>
     (\<exists>rest. url = url_scheme (od_issuer d @ ''/.well-known/openid-configuration'') @ ''://'' @ ip @ rest)"
proof -
  let ?url = "od_issuer d @ ''/.well-known/openid-configuration''"
  have "od_cached d = None" using assms by (cases "od_cached d") (auto simp: oidc_fetch_def)
  then obtain ips url hs where v: "validate_issuer_url env (od_issuer d) = Inr ips" "build_pinned_request env ?url (hd ips) = Inr (url, hs)" "reqs' = reqs @ [(url, hs)]"
    using assms by (auto simp: oidc_fetch_def Let_def on_ok_def split: sum.splits prod.splits)
  obtain host all where h: "url_hostname (oe_ipv6 env) (od_issuer d) = Some host" "oe_resolve env host = Inr all"
    "\<forall>ip \<in> set all. oe_not_public env ip \<noteq> Some True" "ips = filter (\<lambda>ip. oe_not_public env ip = Some False) all" "ips \<noteq> []"
    using validated_issuer [OF v(1)] by metis
  have "hd ips \<in> set ips" using h(5) by simp
  then have "hd ips \<in> set all" "oe_not_public env (hd ips) = Some False" using h(4) by auto
  moreover have "url_scheme ?url = ''https'' \<and> url = ?url \<or> (\<exists>rest. url = url_scheme ?url @ ''://'' @ hd ips @ rest)"
    using v(2) by (auto simp: build_pinned_request_def on_ok_def Let_def split: if_splits sum.splits)
  ultimately show thesis using that v(3) h(1-3) by blast
qed

text \<open>A document that was read is read once: later calls answer from the cache until a refresh.\<close>

lemma oidc_fetch_cached: "oidc_fetch env get st = (st', Inr c) \<Longrightarrow> oidc_fetch env' get' st' = (st', Inr c)"
  by (cases st) (auto simp: oidc_fetch_def Let_def split: option.splits sum.splits prod.splits)

text \<open>A refresh that fails leaves no document at all.\<close>

lemma failed_refresh_forgets: "oidc_refresh env get (d, reqs) = ((d', reqs'), Inl e) \<Longrightarrow> od_cached d' = None"
  by (auto simp: oidc_refresh_def oidc_fetch_def Let_def split: sum.splits prod.splits)

text \<open>An IPv6 address is put into the request without brackets, which then names another host.\<close>

definition ex_oidc_env :: oidc_env where
  "ex_oidc_env = \<lparr>oe_ipv6 = (\<lambda>s. True), oe_resolve = (\<lambda>h. Inr [''2606:4700::1111'']), oe_not_public = (\<lambda>ip. Some False)\<rparr>"

lemma pinned_ipv6_address_is_misread:
  "map fst (snd (fst (oidc_fetch ex_oidc_env (\<lambda>u h. Inl (OtherException ''ConnectError'' [])) (new_oidc_discovery ''http://idp.example.com/'', [])))) =
     [''http://2606:4700::1111/.well-known/openid-configuration''] \<and>
   url_hostname (oe_ipv6 ex_oidc_env) ''http://2606:4700::1111/.well-known/openid-configuration'' = Some ''2606''"
  by code_simp

end
