(* ===== verification/Elicitation.thy ===== *)
theory Elicitation
  imports Config_Values "HOL-Library.Multiset"
begin

text \<open>
  \<open>bridge/elicitation.py\<close>: a backend asks the user for input through the handler that the user
  interface registers. A request waits for the handler; its begin and its end are the two steps of
  \<open>handle_request\<close>, so that any number of requests can wait at the same time. What the handler
  returns or raises is an argument, and so are the random identifiers.
\<close>

section \<open>Requests and responses\<close>

datatype ElicitationStatus = PENDING | APPROVED | DENIED | TIMEOUT

fun elicitation_value :: "ElicitationStatus \<Rightarrow> string" where
  "elicitation_value PENDING = ''pending''"
| "elicitation_value APPROVED = ''approved''"
| "elicitation_value DENIED = ''denied''"
| "elicitation_value TIMEOUT = ''timeout''"

record ElicitationField =
  ef_name :: string
  ef_field_type :: pyval
  ef_description :: pyval
  ef_required :: bool
  ef_default :: pyval
  ef_enum_values :: pyval

definition from_schema :: "string \<Rightarrow> pyval \<Rightarrow> pyval \<Rightarrow> ElicitationField res" where
  "from_schema name prop required_list =
     on_ok (py_get prop ''type'' (PStr ''string'')) (\<lambda>ty.
     on_ok (py_get prop ''description'' (PStr [])) (\<lambda>description.
     on_ok (py_in name required_list) (\<lambda>required.
     on_ok (py_get prop ''default'' PNone) (\<lambda>dflt.
     on_ok (py_get prop ''enum'' (PList [])) (\<lambda>enum.
       Inr \<lparr>ef_name = name, ef_field_type = ty, ef_description = description, ef_required = required, ef_default = dflt, ef_enum_values = enum\<rparr>)))))"

record ElicitationRequest =
  er_request_id :: string
  er_tool_name :: string
  er_message :: string
  er_schema :: pyval
  er_timeout_seconds :: rat
  er_backend_name :: string

fun form_fields :: "pyval \<Rightarrow> (string, pyval) dict \<Rightarrow> ElicitationField list res" where
  "form_fields required [] = Inr []"
| "form_fields required ((name, prop) # props) =
     on_ok (from_schema name prop required) (\<lambda>f. on_ok (form_fields required props) (\<lambda>fs. Inr (f # fs)))"

definition request_fields :: "ElicitationRequest \<Rightarrow> ElicitationField list res" where
  "request_fields r =
     on_ok (py_get (er_schema r) ''properties'' (PDict [])) (\<lambda>properties.
     on_ok (py_get (er_schema r) ''required'' (PList [])) (\<lambda>required.
       case properties of
         PDict props \<Rightarrow> form_fields required props
       | _ \<Rightarrow> Inl (OtherException ''AttributeError'' ''object has no attribute items'')))"

text \<open>The fields of a message that are there.\<close>

record elicitation_message =
  em_request_id :: "string option"
  em_tool_name :: "string option"
  em_message :: "string option"
  em_schema :: "pyval option"
  em_timeout :: "rat option"

definition from_message :: "string \<Rightarrow> elicitation_message \<Rightarrow> ElicitationRequest" where
  "from_message uuid data =
     (let get = (\<lambda>v d. case v of Some x \<Rightarrow> x | None \<Rightarrow> d)
      in \<lparr>er_request_id = get (em_request_id data) (take 12 uuid), er_tool_name = get (em_tool_name data) [], er_message = get (em_message data) [],
          er_schema = (case em_schema data of Some x \<Rightarrow> x | None \<Rightarrow> PDict []),
          er_timeout_seconds = (case em_timeout data of Some t \<Rightarrow> t | None \<Rightarrow> 120), er_backend_name = []\<rparr>)"

record ElicitationResponse =
  rs_request_id :: string
  rs_status :: ElicitationStatus
  rs_data :: "(string, pyval) dict"

definition elicitation_to_message :: "ElicitationResponse \<Rightarrow> (string, pyval) dict" where
  "elicitation_to_message r =
     [(''requestId'', PStr (rs_request_id r)), (''status'', PStr (elicitation_value (rs_status r))), (''data'', PDict (rs_data r))]"

section \<open>The bridge\<close>

record ElicitationBridge =
  eb_handler :: bool
  eb_default_timeout :: rat
  eb_pending :: "(string, ElicitationRequest) dict"

definition new_elicitation_bridge :: "rat \<Rightarrow> ElicitationBridge" where
  "new_elicitation_bridge default_timeout = \<lparr>eb_handler = False, eb_default_timeout = default_timeout, eb_pending = []\<rparr>"

definition register_handler :: "ElicitationBridge \<Rightarrow> ElicitationBridge" where
  "register_handler b = b\<lparr>eb_handler := True\<rparr>"

text \<open>How long a request may wait.\<close>

definition request_timeout :: "ElicitationBridge \<Rightarrow> ElicitationRequest \<Rightarrow> rat" where
  "request_timeout b r = (if er_timeout_seconds r \<noteq> 0 then er_timeout_seconds r else eb_default_timeout b)"

definition respond :: "ElicitationRequest \<Rightarrow> ElicitationStatus \<Rightarrow> (string, pyval) dict \<Rightarrow> ElicitationResponse" where
  "respond r status data = \<lparr>rs_request_id = er_request_id r, rs_status = status, rs_data = data\<rparr>"

text \<open>The begin of a request: an answer at once when there is no handler.\<close>

definition begin_request :: "ElicitationRequest \<Rightarrow> ElicitationBridge \<Rightarrow> ElicitationBridge \<times> ElicitationResponse option" where
  "begin_request r b =
     (if \<not> eb_handler b then (b, Some (respond r DENIED [])) else (b\<lparr>eb_pending := dict_set (er_request_id r) r (eb_pending b)\<rparr>, None))"

text \<open>Its end, with what the handler returned, or the \<open>TimeoutError\<close> when it did not, or the exception it raised.\<close>

definition end_request :: "ElicitationRequest \<Rightarrow> (string, pyval) dict option res \<Rightarrow> ElicitationBridge \<Rightarrow> ElicitationBridge \<times> ElicitationResponse res" where
  "end_request r outcome b =
     (b\<lparr>eb_pending := dict_del (er_request_id r) (eb_pending b)\<rparr>,
      case outcome of
        Inl TimeoutError \<Rightarrow> Inr (respond r TIMEOUT [])
      | Inl e \<Rightarrow> Inl e
      | Inr None \<Rightarrow> Inr (respond r DENIED [])
      | Inr (Some data) \<Rightarrow> Inr (respond r APPROVED data))"

definition has_pending :: "ElicitationBridge \<Rightarrow> bool" where
  "has_pending b = (eb_pending b \<noteq> [])"

section \<open>Many requests\<close>

text \<open>The bridge with the requests that wait for the handler, those begun, and what each ended with.\<close>

record elicitation_run =
  el_bridge :: ElicitationBridge
  el_waiting :: "ElicitationRequest list"
  el_begun :: "ElicitationRequest list"
  el_ended :: "(ElicitationRequest \<times> ElicitationResponse res) list"

inductive elicit :: "elicitation_run \<Rightarrow> elicitation_run \<Rightarrow> bool" where
  elicit_register: "elicit s (s\<lparr>el_bridge := register_handler (el_bridge s)\<rparr>)"
| elicit_denied:
    "begin_request r (el_bridge s) = (b, Some resp) \<Longrightarrow>
     elicit s (s\<lparr>el_bridge := b, el_begun := el_begun s @ [r], el_ended := el_ended s @ [(r, Inr resp)]\<rparr>)"
| elicit_begin:
    "begin_request r (el_bridge s) = (b, None) \<Longrightarrow>
     elicit s (s\<lparr>el_bridge := b, el_begun := el_begun s @ [r], el_waiting := el_waiting s @ [r]\<rparr>)"
| elicit_end:
    "r \<in> set (el_waiting s) \<Longrightarrow> end_request r outcome (el_bridge s) = (b, resp) \<Longrightarrow>
     elicit s (s\<lparr>el_bridge := b, el_waiting := remove1 r (el_waiting s), el_ended := el_ended s @ [(r, resp)]\<rparr>)"

definition elicitation_start :: "rat \<Rightarrow> elicitation_run" where
  "elicitation_start default_timeout = \<lparr>el_bridge = new_elicitation_bridge default_timeout, el_waiting = [], el_begun = [], el_ended = []\<rparr>"

section \<open>What is shown of it\<close>

inductive_cases elicitE: "elicit s s'"

lemma begin_request_cases:
  "begin_request r b = (b', Some resp) \<longleftrightarrow> \<not> eb_handler b \<and> b' = b \<and> resp = respond r DENIED []"
  "begin_request r b = (b', None) \<longleftrightarrow> eb_handler b \<and> b' = b\<lparr>eb_pending := dict_set (er_request_id r) r (eb_pending b)\<rparr>"
  by (auto simp: begin_request_def)

text \<open>Every request begun either waits or has ended, once.\<close>

lemma requests_conserved:
  assumes "elicit\<^sup>*\<^sup>* (elicitation_start d) s"
  shows "mset (el_begun s) = mset (el_waiting s) + mset (map fst (el_ended s))"
  using assms
  by (induction rule: rtranclp_induct) (auto elim!: elicitE simp: elicitation_start_def)

text \<open>A response belongs to its request, no request ends as pending, and only one the handler was there for is approved.\<close>

lemma end_request_bridge: "end_request r outcome b = (b', resp) \<Longrightarrow> b' = b\<lparr>eb_pending := dict_del (er_request_id r) (eb_pending b)\<rparr>"
  by (simp add: end_request_def)

lemma end_request_response: "end_request r outcome b = (b', Inr resp) \<Longrightarrow> rs_request_id resp = er_request_id r \<and> rs_status resp \<noteq> PENDING"
  by (auto simp: end_request_def respond_def split: sum.splits option.splits exn.splits)

definition good_responses :: "elicitation_run \<Rightarrow> bool" where
  "good_responses s \<longleftrightarrow>
     (\<forall>r resp. (r, Inr resp) \<in> set (el_ended s) \<longrightarrow>
        rs_request_id resp = er_request_id r \<and> rs_status resp \<noteq> PENDING \<and> (rs_status resp = APPROVED \<longrightarrow> eb_handler (el_bridge s))) \<and>
     (el_waiting s \<noteq> [] \<longrightarrow> eb_handler (el_bridge s))"

lemma good_responses_step: "elicit s s' \<Longrightarrow> good_responses s \<Longrightarrow> good_responses s'"
proof (induction rule: elicit.induct)
  case (elicit_end r s outcome b resp)
  have "eb_handler (el_bridge s)" using elicit_end(1,3) by (auto simp: good_responses_def)
  moreover have "rs_request_id x = er_request_id r \<and> rs_status x \<noteq> PENDING" if "resp = Inr x" for x
    using elicit_end(2) that by (auto dest: end_request_response)
  ultimately show ?case using elicit_end(3) end_request_bridge [OF elicit_end(2)] by (auto simp: good_responses_def)
qed (auto simp: good_responses_def begin_request_cases register_handler_def respond_def)

lemma responses_match:
  assumes "elicit\<^sup>*\<^sup>* (elicitation_start d) s" "(r, Inr resp) \<in> set (el_ended s)"
  shows "rs_request_id resp = er_request_id r \<and> rs_status resp \<noteq> PENDING \<and> (rs_status resp = APPROVED \<longrightarrow> eb_handler (el_bridge s))"
proof -
  have "good_responses (elicitation_start d)" by (simp add: good_responses_def elicitation_start_def)
  with assms(1) have "good_responses s" by (induction rule: rtranclp_induct) (auto intro: good_responses_step)
  then show ?thesis using assms(2) by (auto simp: good_responses_def)
qed

text \<open>
  As long as no two requests have the same identifier, the pending ones are those that wait.
\<close>

theorem pending_iff_waiting:
  assumes "elicit\<^sup>*\<^sup>* (elicitation_start d) s" "distinct (map er_request_id (el_begun s))"
  shows "set (dict_keys (eb_pending (el_bridge s))) = er_request_id ` set (el_waiting s) \<and> (has_pending (el_bridge s) \<longleftrightarrow> el_waiting s \<noteq> [])"
proof -
  have "set (dict_keys (eb_pending (el_bridge s))) = er_request_id ` set (el_waiting s)"
    using assms
  proof (induction rule: rtranclp_induct)
    case base
    show ?case by (simp add: elicitation_start_def new_elicitation_bridge_def)
  next
    case (step s s')
    from step(2) show ?case
    proof cases
      case (elicit_end r outcome b resp)
      have "mset (map er_request_id (el_waiting s)) \<subseteq># mset (map er_request_id (el_begun s))"
        using requests_conserved [OF step(1)] by (simp add: image_mset_subseteq_mono)
      moreover have "distinct (map er_request_id (el_begun s))" using step.prems elicit_end by simp
      ultimately have d: "distinct (map er_request_id (el_waiting s))"
        by (metis distinct_append mset_append mset_eq_imp_distinct_iff mset_subset_eq_exists_conv ex_mset)
      then have "er_request_id ` set (remove1 r (el_waiting s)) = er_request_id ` set (el_waiting s) - {er_request_id r}"
        using elicit_end(2) by (auto simp: distinct_map inj_on_def)
      then show ?thesis using step elicit_end(1) end_request_bridge [OF elicit_end(3)] by simp
    qed (use step in \<open>auto simp: begin_request_cases register_handler_def\<close>)
  qed
  then show ?thesis by (auto simp: has_pending_def)
qed

text \<open>Identifiers come from the backends; when two requests share one, the end of the first hides the second, which still waits.\<close>

lemma shared_identifier_hides_a_request:
  assumes "eb_handler b" "er_request_id r = er_request_id r'"
  shows "dict_get (eb_pending (fst (end_request r outcome (fst (begin_request r' (fst (begin_request r b))))))) (er_request_id r') = None"
  using assms by (simp add: begin_request_def end_request_def)

end
