(* ===== verification/Stream_Guards.thy ===== *)
theory Stream_Guards
  imports Argus_Prelude
begin

text \<open>
  \<open>server/sse_resilience.py\<close>: what is put around the streams of an SSE connection. Writing has a
  time limit and its rate is watched, reading is counted, and the cleanup after a connection has a
  deadline. The stream of the library and the cleanup are arguments: what a call of theirs ends with,
  where a \<open>TimeoutError\<close> stands for the limit. Readings of the clock are arguments.
\<close>

section \<open>Streams\<close>

record SseStreamMetrics =
  sm_messages_sent :: nat
  sm_messages_received :: nat
  sm_keepalives_sent :: nat
  sm_send_timeouts :: nat
  sm_spin_loop_warnings :: nat
  sm_started_at :: rat

definition new_stream_metrics :: "rat \<Rightarrow> SseStreamMetrics" where
  "new_stream_metrics now =
     \<lparr>sm_messages_sent = 0, sm_messages_received = 0, sm_keepalives_sent = 0, sm_send_timeouts = 0, sm_spin_loop_warnings = 0, sm_started_at = now\<rparr>"

definition stream_elapsed :: "rat \<Rightarrow> SseStreamMetrics \<Rightarrow> rat" where
  "stream_elapsed now m = now - sm_started_at m"

text \<open>The two wrapped streams share their metrics, so that they are one state here.\<close>

record guarded_streams =
  gs_send_timeout :: rat
  gs_spin_window :: rat
  gs_spin_threshold :: int
  gs_metrics :: SseStreamMetrics
  gs_write_timestamps :: "rat list"

record SseResilience =
  sr_send_timeout :: rat
  sr_cleanup_deadline :: rat
  sr_keepalive_interval :: rat
  sr_spin_loop_window :: rat
  sr_spin_loop_threshold :: int

definition default_resilience :: SseResilience where
  "default_resilience =
     \<lparr>sr_send_timeout = 30, sr_cleanup_deadline = 15, sr_keepalive_interval = 30, sr_spin_loop_window = 1, sr_spin_loop_threshold = 200\<rparr>"

definition wrap_streams :: "rat \<Rightarrow> SseResilience \<Rightarrow> guarded_streams" where
  "wrap_streams now r =
     \<lparr>gs_send_timeout = sr_send_timeout r, gs_spin_window = sr_spin_loop_window r, gs_spin_threshold = sr_spin_loop_threshold r,
      gs_metrics = new_stream_metrics now, gs_write_timestamps = []\<rparr>"

definition detect_spin_loop :: "rat \<Rightarrow> guarded_streams \<Rightarrow> guarded_streams" where
  "detect_spin_loop now s =
     (let ts = filter (\<lambda>t. t > now - gs_spin_window s) (gs_write_timestamps s) @ [now];
          m = gs_metrics s
      in s\<lparr>gs_write_timestamps := ts,
           gs_metrics := (if int (length ts) > gs_spin_threshold s then m\<lparr>sm_spin_loop_warnings := sm_spin_loop_warnings m + 1\<rparr> else m)\<rparr>)"

definition guarded_send :: "rat \<Rightarrow> unit res \<Rightarrow> guarded_streams \<Rightarrow> guarded_streams \<times> unit res" where
  "guarded_send now outcome s =
     (let s1 = detect_spin_loop now s; m = gs_metrics s1
      in case outcome of
           Inr u \<Rightarrow> (s1\<lparr>gs_metrics := m\<lparr>sm_messages_sent := sm_messages_sent m + 1\<rparr>\<rparr>, Inr ())
         | Inl TimeoutError \<Rightarrow> (s1\<lparr>gs_metrics := m\<lparr>sm_send_timeouts := sm_send_timeouts m + 1\<rparr>\<rparr>, Inl TimeoutError)
         | Inl e \<Rightarrow> (s1, Inl e))"

definition guarded_receive :: "'a res \<Rightarrow> guarded_streams \<Rightarrow> guarded_streams \<times> 'a res" where
  "guarded_receive outcome s =
     (case outcome of
        Inr x \<Rightarrow> (s\<lparr>gs_metrics := (gs_metrics s)\<lparr>sm_messages_received := sm_messages_received (gs_metrics s) + 1\<rparr>\<rparr>, Inr x)
      | Inl e \<Rightarrow> (s, Inl e))"

section \<open>Cleanup\<close>

text \<open>
  What a cleanup does to the state of the server, how long it takes and how it ends; one that takes
  longer than the deadline is cancelled and leaves what it had done by then. Exceptions are logged.
\<close>

record 'w cleanup =
  cu_takes :: rat
  cu_done :: "'w \<Rightarrow> 'w"
  cu_cancelled :: "'w \<Rightarrow> 'w"

definition cleanup_with_deadline :: "SseResilience \<Rightarrow> 'w cleanup \<Rightarrow> 'w \<Rightarrow> 'w \<times> rat" where
  "cleanup_with_deadline r c w =
     (if cu_takes c < sr_cleanup_deadline r then (cu_done c w, cu_takes c) else (cu_cancelled c w, sr_cleanup_deadline r))"

section \<open>What the counters say\<close>

text \<open>A use of the streams: a write at a time with its outcome, or a read with its outcome.\<close>

datatype stream_use = Write rat "unit res" | Read "unit res"

definition use_stream :: "stream_use \<Rightarrow> guarded_streams \<Rightarrow> guarded_streams" where
  "use_stream u s = (case u of Write now r \<Rightarrow> fst (guarded_send now r s) | Read r \<Rightarrow> fst (guarded_receive r s))"

fun write_times :: "stream_use list \<Rightarrow> rat list" where
  "write_times [] = []"
| "write_times (Write now r # us) = now # write_times us"
| "write_times (Read r # us) = write_times us"

text \<open>The number of writes that, with the writes in the window before them, were more than the threshold.\<close>

definition busy :: "rat \<Rightarrow> int \<Rightarrow> rat list \<Rightarrow> nat \<Rightarrow> bool" where
  "busy window threshold ts k \<longleftrightarrow> int (Suc (length (filter (\<lambda>t. t > ts ! k - window) (take k ts)))) > threshold"

definition busy_writes :: "rat \<Rightarrow> int \<Rightarrow> rat list \<Rightarrow> nat" where
  "busy_writes window threshold ts = length (filter (busy window threshold ts) [0..<length ts])"

lemma busy_prefix: "k < length ts \<Longrightarrow> busy w n (ts @ [t]) k = busy w n ts k"
  by (simp add: busy_def nth_append)

lemma busy_writes_snoc: "busy_writes w n (ts @ [t]) = busy_writes w n ts + (if busy w n (ts @ [t]) (length ts) then 1 else 0)"
  by (auto simp: busy_writes_def busy_prefix intro!: arg_cong [where f = length] filter_cong)

lemma write_times_append [simp]: "write_times (us @ vs) = write_times us @ write_times vs"
  by (induction us rule: write_times.induct) auto

definition recent :: "rat \<Rightarrow> rat list \<Rightarrow> rat list" where
  "recent w ts = (if ts = [] then [] else filter (\<lambda>t. t > last ts - w) (butlast ts) @ [last ts])"

lemma recent_snoc: "sorted (ts @ [t]) \<Longrightarrow> filter (\<lambda>x. x > t - w) (recent w ts) @ [t] = recent w (ts @ [t])"
proof (cases ts rule: rev_cases)
  case (snoc ys y)
  have "butlast (ys @ [y, t]) = ys @ [y]" using butlast_snoc [of "ys @ [y]" t] by simp
  moreover assume "sorted (ts @ [t])"
  ultimately show ?thesis by (auto simp: snoc recent_def sorted_append intro!: filter_cong)
qed (simp add: recent_def)

lemma stream_settings [simp]:
  "gs_spin_window (use_stream u s) = gs_spin_window s" "gs_spin_threshold (use_stream u s) = gs_spin_threshold s"
  by (auto simp: use_stream_def guarded_send_def guarded_receive_def detect_spin_loop_def Let_def split: stream_use.splits sum.splits exn.splits)

lemma use_read [simp]:
  "gs_write_timestamps (use_stream (Read r) s) = gs_write_timestamps s"
  "sm_spin_loop_warnings (gs_metrics (use_stream (Read r) s)) = sm_spin_loop_warnings (gs_metrics s)"
  by (auto simp: use_stream_def guarded_receive_def split: sum.splits)

lemma use_write:
  "gs_write_timestamps (use_stream (Write now r) s) = filter (\<lambda>t. t > now - gs_spin_window s) (gs_write_timestamps s) @ [now]"
  "sm_spin_loop_warnings (gs_metrics (use_stream (Write now r) s)) =
     sm_spin_loop_warnings (gs_metrics s) +
     (if int (Suc (length (filter (\<lambda>t. t > now - gs_spin_window s) (gs_write_timestamps s)))) > gs_spin_threshold s then 1 else 0)"
  by (auto simp: use_stream_def guarded_send_def detect_spin_loop_def Let_def split: sum.splits exn.splits)

text \<open>
  Although only the times in the current window are kept, the warnings count exactly the writes
  that came too fast, for every sequence of reads and writes and a clock that does not go back.
\<close>

lemma spin_warnings_count_busy_writes:
  assumes "sorted (write_times us)"
  shows "let s = fold use_stream us (wrap_streams start r) in
     gs_write_timestamps s = recent (sr_spin_loop_window r) (write_times us) \<and>
     sm_spin_loop_warnings (gs_metrics s) = busy_writes (sr_spin_loop_window r) (sr_spin_loop_threshold r) (write_times us)"
  using assms
proof (induction us rule: rev_induct)
  case Nil
  show ?case by (simp add: wrap_streams_def new_stream_metrics_def recent_def busy_writes_def)
next
  case (snoc u us)
  let ?s = "fold use_stream us (wrap_streams start r)"
  have settings: "gs_spin_window ?s = sr_spin_loop_window r" "gs_spin_threshold ?s = sr_spin_loop_threshold r"
    by (induction us rule: rev_induct) (simp_all add: wrap_streams_def)
  show ?case
  proof (cases u)
    case (Read x)
    with snoc show ?thesis by (simp add: Let_def)
  next
    case (Write now x)
    with snoc.prems have sorted: "sorted (write_times us @ [now])" by simp
    then have ih: "gs_write_timestamps ?s = recent (sr_spin_loop_window r) (write_times us)"
      "sm_spin_loop_warnings (gs_metrics ?s) = busy_writes (sr_spin_loop_window r) (sr_spin_loop_threshold r) (write_times us)"
      using snoc.IH by (simp_all add: sorted_append Let_def)
    note kept = recent_snoc [OF sorted, of "sr_spin_loop_window r"]
    have "busy (sr_spin_loop_window r) (sr_spin_loop_threshold r) (write_times us @ [now]) (length (write_times us)) \<longleftrightarrow>
        int (Suc (length (filter (\<lambda>t. t > now - sr_spin_loop_window r) (recent (sr_spin_loop_window r) (write_times us))))) > sr_spin_loop_threshold r"
      using arg_cong [OF kept, of length] by (simp add: busy_def recent_def)
    then show ?thesis using kept by (simp add: Write Let_def use_write settings ih busy_writes_snoc)
  qed
qed

text \<open>What is counted as sent and as timed out is what was sent and timed out.\<close>

lemma stream_counters:
  "sm_messages_sent (gs_metrics (fold use_stream us s)) = sm_messages_sent (gs_metrics s) + length (filter (\<lambda>u. case u of Write t (Inr x) \<Rightarrow> True | _ \<Rightarrow> False) us)"
  "sm_send_timeouts (gs_metrics (fold use_stream us s)) = sm_send_timeouts (gs_metrics s) + length (filter (\<lambda>u. case u of Write t (Inl TimeoutError) \<Rightarrow> True | _ \<Rightarrow> False) us)"
  by (induction us arbitrary: s)
    (auto simp: use_stream_def guarded_send_def guarded_receive_def detect_spin_loop_def Let_def split: stream_use.splits sum.splits exn.splits)

text \<open>The cleanup of an SSE connection ends by the deadline.\<close>

lemma cleanup_in_time: "0 \<le> sr_cleanup_deadline r \<Longrightarrow> snd (cleanup_with_deadline r c w) \<le> sr_cleanup_deadline r"
  by (simp add: cleanup_with_deadline_def)

end
