(* ===== verification/Version_Drift.thy ===== *)
theory Version_Drift
  imports Server_Registry
begin

text \<open>
  \<open>bridge/version_checker.py\<close>: the versions of the tools against those of a registry. Numbers of more
  than 4300 digits, which Python refuses to convert, are left out. The registry is the client of
  \<open>Server_Registry\<close>, with its state, or there is none.
\<close>

section \<open>Versions\<close>

datatype DriftSeverity = CURRENT | PATCH | MINOR | MAJOR | UNKNOWN

fun severity_value :: "DriftSeverity \<Rightarrow> string" where
  "severity_value CURRENT = ''current''"
| "severity_value PATCH = ''patch''"
| "severity_value MINOR = ''minor''"
| "severity_value MAJOR = ''major''"
| "severity_value UNKNOWN = ''unknown''"

definition all_severities :: "DriftSeverity list" where
  "all_severities = [CURRENT, PATCH, MINOR, MAJOR, UNKNOWN]"

record DriftResult =
  dr_name :: string
  dr_current_version :: pyval
  dr_latest_version :: pyval
  dr_severity :: DriftSeverity
  dr_backend :: pyval

definition is_drifted :: "DriftResult \<Rightarrow> bool" where
  "is_drifted r = (dr_severity r \<notin> {CURRENT, UNKNOWN})"

text \<open>A number and what must follow it: a dot, or for the last number anything.\<close>

definition number_at :: "string \<Rightarrow> (nat \<times> string) option" where
  "number_at s =
     (let ds = takeWhile is_digit s in if ds = [] then None else Some (digits_nat (map digit_val ds), dropWhile is_digit s))"

definition dotted_number :: "string \<Rightarrow> (nat \<times> string) option" where
  "dotted_number s = (case number_at s of Some (n, c # cs) \<Rightarrow> if c = CHR ''.'' then Some (n, cs) else None | _ \<Rightarrow> None)"

definition semver_match :: "string \<Rightarrow> (nat \<times> nat \<times> nat) option" where
  "semver_match s =
     (case dotted_number (case s of c # cs \<Rightarrow> if c = CHR ''v'' then cs else s | [] \<Rightarrow> []) of
        None \<Rightarrow> None
      | Some (major, r1) \<Rightarrow>
          (case dotted_number r1 of
             None \<Rightarrow> None
           | Some (minor, r2) \<Rightarrow> map_option (\<lambda>(patch, r3). (major, minor, patch)) (number_at r2)))"

definition parse_semver :: "pyval \<Rightarrow> (nat \<times> nat \<times> nat) option res" where
  "parse_semver version =
     (case version of PStr s \<Rightarrow> Inr (semver_match (str_strip s)) | _ \<Rightarrow> Inl (OtherException ''AttributeError'' ''object has no attribute strip''))"

fun not_before :: "nat \<times> nat \<times> nat \<Rightarrow> nat \<times> nat \<times> nat \<Rightarrow> bool" where
  "not_before (a, b, c) (a', b', c') = (a > a' \<or> a = a' \<and> (b > b' \<or> b = b' \<and> c \<ge> c'))"

definition severity_of :: "nat \<times> nat \<times> nat \<Rightarrow> nat \<times> nat \<times> nat \<Rightarrow> DriftSeverity" where
  "severity_of cur lat =
     (if not_before cur lat then CURRENT
      else if fst cur < fst lat then MAJOR
      else if fst (snd cur) < fst (snd lat) then MINOR
      else PATCH)"

definition classify_drift :: "pyval \<Rightarrow> pyval \<Rightarrow> DriftSeverity res" where
  "classify_drift current latest =
     on_ok (parse_semver current) (\<lambda>cur. on_ok (parse_semver latest) (\<lambda>lat.
       Inr (case (cur, lat) of (Some c, Some l) \<Rightarrow> severity_of c l | _ \<Rightarrow> UNKNOWN)))"

section \<open>The checker\<close>

text \<open>The look-up of a server by its name in a registry with a state.\<close>

type_synonym 's lookup = "string \<Rightarrow> 's \<Rightarrow> 's \<times> ServerEntry option res"

definition get_latest_version :: "'s lookup option \<Rightarrow> string \<Rightarrow> 's \<Rightarrow> 's \<times> pyval option" where
  "get_latest_version registry name st =
     (case registry of
        None \<Rightarrow> (st, None)
      | Some look \<Rightarrow>
          (case look name st of
             (st', Inr (Some server)) \<Rightarrow> (st', if py_truthy (en_version server) then Some (en_version server) else None)
           | (st', _) \<Rightarrow> (st', None)))"

fun check_all :: "'s lookup option \<Rightarrow> (string, (string, pyval) dict) dict \<Rightarrow> 's \<Rightarrow> 's \<times> DriftResult list res" where
  "check_all registry [] st = (st, Inr [])"
| "check_all registry ((name, info) # caps) st =
     (let current = dict_get_or (PStr []) info ''version''
      in if \<not> py_truthy current then check_all registry caps st
         else case get_latest_version registry name st of
                (st1, None) \<Rightarrow> check_all registry caps st1
              | (st1, Some latest) \<Rightarrow>
                  (case classify_drift current latest of
                     Inl e \<Rightarrow> (st1, Inl e)
                   | Inr severity \<Rightarrow>
                       (case check_all registry caps st1 of
                          (st2, r) \<Rightarrow>
                            (st2, on_ok r (\<lambda>rest.
                               Inr (\<lparr>dr_name = name, dr_current_version = current, dr_latest_version = latest, dr_severity = severity,
                                     dr_backend = dict_get_or (PStr []) info ''backend''\<rparr> # rest))))))"

definition check_one :: "'s lookup option \<Rightarrow> string \<Rightarrow> pyval \<Rightarrow> 's \<Rightarrow> 's \<times> DriftResult option res" where
  "check_one registry name current st =
     (case get_latest_version registry name st of
        (st1, None) \<Rightarrow> (st1, Inr None)
      | (st1, Some latest) \<Rightarrow>
          (st1, on_ok (classify_drift current latest) (\<lambda>severity.
             Inr (Some \<lparr>dr_name = name, dr_current_version = current, dr_latest_version = latest, dr_severity = severity, dr_backend = PStr []\<rparr>))))"

definition drift_summary :: "DriftResult list \<Rightarrow> (string, nat) dict" where
  "drift_summary results =
     fold (\<lambda>r summary. dict_set (severity_value (dr_severity r)) (dict_get_or 0 summary (severity_value (dr_severity r)) + 1) summary) results
       (map (\<lambda>s. (severity_value s, 0)) all_severities)"

section \<open>What is shown of it\<close>

definition print_semver :: "nat \<times> nat \<times> nat \<Rightarrow> string" where
  "print_semver v = (case v of (a, b, c) \<Rightarrow> show_nat a @ ''.'' @ show_nat b @ ''.'' @ show_nat c)"

lemma digit_char_digit: "d < 10 \<Longrightarrow> is_digit (digit_char d) \<and> digit_val (digit_char d) = d"
  by (simp add: is_digit_def digit_char_def digit_val_def code_def)

lemma digits_nat_snoc: "digits_nat (ds @ [d]) = 10 * digits_nat ds + d"
  by (simp add: digits_nat_def)

lemma show_nat_read: "list_all is_digit (show_nat n) \<and> digits_nat (map digit_val (show_nat n)) = n"
proof (induction n rule: show_nat.induct)
  case (1 n)
  show ?case
  proof (cases "n < 10")
    case True
    then show ?thesis using digit_char_digit by (simp add: show_nat.simps [of n] digits_nat_def)
  next
    case False
    then show ?thesis using 1 digit_char_digit [of "n mod 10"] by (simp add: show_nat.simps [of n] digits_nat_snoc)
  qed
qed

lemma number_at_show: "(r = [] \<or> \<not> is_digit (hd r)) \<Longrightarrow> number_at (show_nat n @ r) = Some (n, r)"
proof -
  assume r: "r = [] \<or> \<not> is_digit (hd r)"
  have d: "\<forall>c \<in> set (show_nat n). is_digit c" using show_nat_read [of n] by (simp add: list_all_iff)
  then have "takeWhile is_digit (show_nat n @ r) = show_nat n @ takeWhile is_digit r" "dropWhile is_digit (show_nat n @ r) = dropWhile is_digit r"
    by (simp_all add: takeWhile_append2 dropWhile_append2)
  moreover have "takeWhile is_digit r = []" "dropWhile is_digit r = r" using r by (cases r; simp)+
  ultimately show ?thesis using show_nat_read [of n] by (simp add: number_at_def Let_def)
qed

lemma semver_roundtrip: "semver_match (print_semver v) = Some v" "semver_match (CHR ''v'' # print_semver v) = Some v"
proof -
  obtain a b c where v: "v = (a, b, c)" by (cases v) auto
  have dot: "\<not> is_digit (CHR ''.'')" by code_simp
  have "dotted_number (show_nat n @ CHR ''.'' # r) = Some (n, r)" for n r
    using number_at_show [of "CHR ''.'' # r" n] dot by (simp add: dotted_number_def)
  moreover have "number_at (show_nat c) = Some (c, [])" using number_at_show [of "[]" c] by simp
  moreover have "(case show_nat a @ r of c # cs \<Rightarrow> if c = CHR ''v'' then cs else show_nat a @ r | [] \<Rightarrow> []) = show_nat a @ r" for r
    using show_nat_read [of a] by (cases "show_nat a") (auto simp: is_digit_def code_def)
  ultimately show "semver_match (print_semver v) = Some v" "semver_match (CHR ''v'' # print_semver v) = Some v"
    by (auto simp: semver_match_def print_semver_def v)
qed

text \<open>A version that drifted from another is not drifted from, and drift goes on: the severities follow the order of versions.\<close>

lemma severity_exact:
  "severity_of (a, b, c) (a', b', c') =
     (if a < a' then MAJOR else if a = a' \<and> b < b' then MINOR else if a = a' \<and> b = b' \<and> c < c' then PATCH else CURRENT)"
  by (auto simp: severity_of_def)

lemma drift_is_one_way: "severity_of v w \<noteq> CURRENT \<Longrightarrow> severity_of w v = CURRENT"
  by (cases v; cases w) (auto simp: severity_exact split: if_splits)

text \<open>Every result is counted once, under its own severity.\<close>

lemma severity_value_inj: "severity_value s = severity_value t \<longleftrightarrow> s = t"
  by (cases s; cases t) simp_all

lemma drift_summary_count: "dict_get (drift_summary results) (severity_value s) = Some (length (filter (\<lambda>r. dr_severity r = s) results))"
proof (induction results rule: rev_induct)
  case Nil
  show ?case by (cases s) (simp_all add: drift_summary_def all_severities_def)
next
  case (snoc r rs)
  then show ?case by (auto simp: drift_summary_def dict_get_or_def severity_value_inj)
qed

text \<open>The checker that the gateway makes has no registry: it never finds anything.\<close>

lemma gateway_checker_finds_nothing: "check_all None caps st = (st, Inr [])" "check_one None name v st = (st, Inr None)"
  by (induction caps) (auto simp: Let_def get_latest_version_def check_one_def)

text \<open>With a registry whose versions are texts, as the tools' are, a check raises nothing and asks for tools with a version only.\<close>

lemma check_all_returns:
  assumes "\<And>name st st' e. look name st = (st', Inr (Some e)) \<Longrightarrow> \<exists>v. en_version e = PStr v"
    and "\<And>name info. (name, info) \<in> set caps \<Longrightarrow> \<exists>v. dict_get_or (PStr []) info ''version'' = PStr v"
  shows "\<exists>st' rs. check_all (Some look) caps st = (st', Inr rs) \<and> length rs \<le> length caps"
  using assms(2)
proof (induction caps arbitrary: st)
  case (Cons x caps)
  obtain name info where x: "x = (name, info)" by (cases x)
  obtain v where v: "dict_get_or (PStr []) info ''version'' = PStr v" using Cons.prems [of name info] x by auto
  have ih: "\<exists>st' rs. check_all (Some look) caps t = (st', Inr rs) \<and> length rs \<le> length caps" for t
    using Cons.IH Cons.prems by (meson list.set_intros(2))
  obtain st1 l where l: "get_latest_version (Some look) name st = (st1, l)" by (cases "get_latest_version (Some look) name st")
  have "l = None \<or> (\<exists>w. l = Some (PStr w))"
    using l assms(1) by (force simp: get_latest_version_def split: prod.splits sum.splits option.splits if_splits)
  then show ?case using ih [of st] ih [of st1] by (auto simp: x v l Let_def classify_drift_def parse_semver_def le_SucI)
qed simp

end
