(* ===== verification/Spec2Isabelle.thy ===== *)
theory Spec2Isabelle
  imports Health_Checker Session_Pool Retry Handlers Workflow Client_Startup Server_Groups Event_Log Config_Reload
    Service_Reload Rate_Limit Outgoing_Auth Management_Properties Builtin_Properties
    Transfer_Properties External_Properties Tool_Search Server_Catalog Server_Registry Session_Properties Issuer_Discovery
    Elicitation Stream_Guards Version_Drift
begin

text \<open>
  A verification development for Argus MCP, a gateway that presents the tools, resources and
  prompts of many MCP backend servers as those of one server.

  \<^bold>\<open>The program and the theories.\<close> A request arrives at the HTTP transport, where a gate checks
  its bearer token (\<open>server/transport.py\<close>, \<open>server/auth/\<close>). The MCP handlers
  (\<open>server/handlers.py\<close>) run it through a chain of middleware (\<open>bridge/middleware/\<close>): recovery,
  telemetry, authentication, plugins, audit, and at the end the routing layer, which asks the
  capability registry (\<open>bridge/capability_registry.py\<close>) for the backend and calls it over the
  session the client manager holds. Health checks (\<open>bridge/health/\<close>) withdraw and restore
  backends; composite tools (\<open>workflows/\<close>) run several tools through the same chain. The service
  (\<open>runtime/service.py\<close>) owns all of this: it loads the configuration, lets the client manager
  (\<open>bridge/client_manager.py\<close>) connect the backends, discovers their capabilities, and reloads or
  reconnects them when the configuration file changes.

  \<^item> \<open>Argus_Prelude\<close>, \<open>Py_String\<close>, \<open>Glob\<close>: Python's exceptions, values, dictionaries (in insertion
    order), strings, number formats, \<open>fnmatch\<close>.
  \<^item> \<open>Conflict\<close>, \<open>Capability_Filter\<close>, \<open>Capability_Registry\<close>: \<open>bridge/conflict.py\<close>,
    \<open>bridge/filter.py\<close>, \<open>bridge/rename.py\<close>, \<open>bridge/capability_registry.py\<close>. The record \<open>registry\<close>
    has the route map and the three aggregated lists of the class; discovery, re-discovery of
    one backend and removal are functions on it, and \<open>discover_and_register\<close> is given the order
    in which the discovery tasks complete.
  \<^item> \<open>Circuit_Breaker\<close>, \<open>Backend_Lifecycle\<close>, \<open>Health_Checker\<close>: \<open>bridge/health/circuit_breaker.py\<close>, the
    transition tables and status record of \<open>runtime/models.py\<close>, \<open>bridge/health/checker.py\<close>.
  \<^item> \<open>Session_Pool\<close>, \<open>Retry\<close>: \<open>bridge/session_pool.py\<close> with its entries in a store, because the
    pool shares them with their users, and \<open>bridge/retry.py\<close>. Closing of sessions is a sequence of
    steps, which the cancellation of the reaper can cut. Theorem: where every session is at every
    moment, and that only a cancellation drops one.
  \<^item> \<open>Auth\<close>, \<open>Authz\<close>: the token providers, JWT validation and the transport gate; the role policies.
  \<^item> \<open>Middleware_Chain\<close>, \<open>Plugins\<close>, \<open>Middleware\<close>, \<open>Handlers\<close>: the request context and \<open>build_chain\<close>, the
    plugin framework, every layer and the production stack, \<open>_dispatch\<close> and the handlers.
  \<^item> \<open>Workflow\<close>: the workflow language, its validation and topological levels, the executor.
  \<^item> \<open>Client_Manager\<close>, \<open>Client_Startup\<close>: \<open>bridge/client_manager.py\<close>, \<open>bridge/backend_connection.py\<close>,
    \<open>bridge/startup_coordinator.py\<close>. The record \<open>ClientManager\<close> has the dictionaries of the class;
    exit stacks are numbered so that each can be followed from its creation to its closing. One
    connection attempt meets the outcomes listed in a record \<open>attempt\<close>; the startup takes an
    attempt for every backend and round and an order of the tasks. Theorems: no exit stack is
    leaked or closed twice, and how many attempts a backend gets.
  \<^item> \<open>Config_Reload\<close>, \<open>Server_Groups\<close>, \<open>Event_Log\<close>: \<open>config/diff.py\<close>, \<open>config/watcher.py\<close>,
    \<open>bridge/groups.py\<close>, the event buffer of the service.
  \<^item> \<open>Argus_Service\<close>, \<open>Service_Properties\<close>, \<open>Service_Reload\<close>: \<open>runtime/service.py\<close>. Registries are
    objects: the service keeps a list of those it made and the index of the current one, because
    the gateway and the health checker go on using the object they were given; the process has the
    service and the registry the gateway holds. A start can be cancelled at each of its suspension
    points. Theorems: the state machine with its readiness event, what a start that returns, raises
    or is cancelled leaves behind, what a reload does to the connections, and that no call of the
    service reaches the registry the gateway holds.
  \<^item> \<open>Rate_Limit\<close>: \<open>server/rate_limit.py\<close>, a sliding window and a lockout over caches whose entries
    expire; theorems over all sequences of requests and answers.
  \<^item> \<open>Http_Guards\<close>: \<open>server/payload_limits.py\<close> and \<open>server/origin.py\<close> on the stream of messages of a
    request. The loop that buffers a body may not end; it is a partial function into options.
  \<^item> \<open>Client_Sessions\<close>, \<open>Skills\<close>: \<open>server/session/\<close> with its cleanup passes, \<open>skills/\<close> with the skills
    directory and the state file, which may not be writable, as part of the state; what the
    directory holds mirrors what the manager knows.
  \<^item> \<open>Management_Api\<close>, \<open>Management_Properties\<close>: \<open>server/management/\<close>, the token check, the table of routes
    and every handler, over the service, the sessions and the skills. The comparison of
    tokens raises on texts that are not ASCII. Theorems: what requests without the token can do, and what the readiness probe says.
  \<^item> \<open>Py_Regex\<close>, \<open>Builtin_Plugins\<close>, \<open>Builtin_Properties\<close>: Python's regular expressions as far as the
    program uses them, and \<open>plugins/builtins/\<close> with the compiled engine of \<open>plugins/builtins_rust/\<close>.
    Each hook is a function of the state of its plugin and the context of the framework. Theorems:
    how many calls the rate limiter admits, what blocking of secrets stops and what redacting them
    misses, and which plugins have no effect in the gateway.
  \<^item> \<open>Config_Values\<close>, \<open>Secrets\<close>: \<open>config/migration.py\<close> and \<open>secrets/\<close>: environment variables and secrets
    in the texts of a configuration. Theorems: what is stored is what a reference resolves to, with
    each provider, and when a strict resolution succeeds.
  \<^item> \<open>Container_Build\<close>, \<open>Container_Isolation\<close>, \<open>Container_Properties\<close>: \<open>bridge/container/\<close> and the container
    section of \<open>config/schema_backends.py\<close>: validation, the image of a backend, the runtime, the
    arguments a container is created with, wrapping and clean-up, with the timeouts and cancellations
    that cut them. Theorems: which options a wrapped backend runs with, read as \<open>docker\<close> reads them;
    that a container is lost only by a timeout or a cancellation; that an install command is one
    command of the shell; and which settings get around the checks.
  \<^item> \<open>Config_Loading\<close>, \<open>Config_Properties\<close>: \<open>config/loader.py\<close>, \<open>config/flags.py\<close> and the validators of
    \<open>config/schema.py\<close>, \<open>config/schema_backends.py\<close>. Theorems: what a loaded configuration guarantees of
    its backends, that only texts are put in place of texts, which exceptions pass through.
  \<^item> \<open>Config_Transfer\<close>, \<open>Transfer_Properties\<close>: \<open>config/export.py\<close> and \<open>config/import_handler.py\<close>. An
    import is a function from the target to the changed target and its report or exception.
    Theorems: dry runs tell what an import does, what an import leaves alone, that exports can be
    imported, and that masking hides no secret that was resolved.
  \<^item> \<open>Server_Catalog\<close>, \<open>Server_Registry\<close>: \<open>registry/\<close>, where servers to add come from. A catalogue is
    parsed, staged and committed to a configuration with a report for every entry; the client of
    registries on the network reads three kinds of answers and keeps a cache. Theorems: what is
    staged is what is committed, what a commit adds and leaves alone, that committing again changes
    nothing, that the forms of a catalogue agree; what is cached is what is read offline, that all
    pages are listed, and what happens when one fails.
  \<^item> \<open>Server_Sessions\<close>, \<open>Session_Properties\<close>: \<open>sessions.py\<close>, \<open>cli/_stop.py\<close> and what \<open>cli/_server.py\<close> does
    with sessions. The state is the host: a clock, processes that end some time after a signal or
    never, and files. Theorems: every operation moves the host forward, a server of ours is
    stopped in bounded time, stopping all leaves none, which names sessions have, and how a server
    loses its session.
  \<^item> \<open>External_Plugins\<close>, \<open>External_Properties\<close>: \<open>plugins/external/\<close>, the policy engines and scanners that
    ask other services. Theorems: how old a decision can be and for which server, capability and
    phase it was made, what an engine without an answer
    does, what reaches the virus scanner, and what the scanners never see.
  \<^item> \<open>Tool_Search\<close>: \<open>bridge/optimizer/search.py\<close> and what becomes of the meta tool meant to use it.
  \<^item> \<open>Outgoing_Auth\<close>: \<open>bridge/auth/\<close>, the tokens sent to the backends: the cache in Python and in
    Rust, the token files, the providers, the retry after a 401 and the refresh sweep. Callers
    that ask one provider at the same time are a step relation over the lock they share.
  \<^item> \<open>OAuth_Discovery\<close>, \<open>OAuth_Properties\<close>: \<open>bridge/auth/discovery.py\<close>, \<open>dcr.py\<close>, \<open>pkce.py\<close> and
    \<open>try_auth_discovery\<close>. The network is a state with a log of the addresses asked; the browser flows
    that run at the same time are a step relation over the attributes of the callback handler they
    share, with the events a callback schedules and the cancellation of a flow as steps. Theorems: which addresses are asked and how many, whose code a flow takes, how flows
    disturb each other, that allow lists are obeyed, that a token found is the token sent.
  \<^item> \<open>Issuer_Discovery\<close>: \<open>server/auth/oidc.py\<close>, the discovery document of the issuer of incoming tokens, with
    the requests made as part of the state. Theorems: a request is made only when no address of the
    issuer is private, to an address that was checked; the cache; IPv6 addresses.
  \<^item> \<open>Elicitation\<close>: \<open>bridge/elicitation.py\<close>, questions of backends to the user. Requests that wait at the
    same time are a step relation over the bridge they share. Theorems: every request waits or has
    ended once, with a response of its own, and the pending ones are those that wait.
  \<^item> \<open>Stream_Guards\<close>: \<open>server/sse_resilience.py\<close>. Theorem: the sliding window of the rate watch counts the
    writes that were too fast in the whole history of a connection.
  \<^item> \<open>Version_Drift\<close>: \<open>bridge/version_checker.py\<close> over the client of \<open>Server_Registry\<close>. Theorems: versions are
    read back from their texts, the severities follow the order of versions, results are counted.

  \<^bold>\<open>Conventions.\<close> Readings of a clock, of \<open>random\<close>, request identifiers, and what an awaited call
  of other code returns or raises are arguments of the definitions, universally quantified in
  the theorems. An \<open>async\<close> function is a sequence of state changes between its suspension
  points; where tasks run at the same time the order in which they complete is an argument.
  Cancellation of a task is modelled where the program itself cancels or can be interrupted in
  the middle of owning something: the pool, the start of the service, the container wrapper and
  the browser flows; elsewhere an awaited call returns or raises.
  Floating point numbers are rationals (rounding is not modelled), Python integers are \<open>int\<close>,
  strings are lists of characters with code points below 256. Log output is not modelled.
  No definition uses fuel: but for the body of a request, loops are recursive functions with
  termination proofs, on lists, on the number of remaining attempts or pages, on the time left to a deadline, on the rounds of retries,
  on the rest of a text or on the steps not yet placed in a level. The bound on repetitions in a
  regular expression is the number of characters left, so that it cuts nothing off.

  \<^bold>\<open>Interfaces.\<close> The locales are the contracts between components: \<open>keeping_strategy\<close> (conflict
  strategies that never evict), \<open>breaker\<close> (what the pool, the checker and the
  breaker plugin rely on), \<open>lifecycle\<close>
  (the two transition tables), \<open>token_provider\<close>, \<open>guard_layer\<close> (a layer that refuses without
  effect) and \<open>frame_layer\<close> (a layer that touches no backend), \<open>attempt_invariant\<close> (an invariant
  every step of a connection attempt keeps, hence every startup), \<open>server_index\<close> (a two-way index
  of servers and groups), \<open>ttl_cache\<close> (the cache with expiring entries, a third-party class),
  \<open>rate_limiter\<close> (the limiter over three of them), \<open>token_cache\<close> (the two token caches), \<open>router\<close> (matching of
  paths with routes, a third-party library), \<open>secret_provider\<close> and \<open>deleting_provider\<close> (what the
  resolver relies on of a provider of secrets), \<open>secret_libraries\<close> (encryption and keyring,
  third-party libraries, which make two of the providers secret providers) and \<open>policy_engine\<close>
  (what the two policy plugins have in common). Each is interpreted
  on the model's own definitions, \<open>ttl_cache\<close>, \<open>router\<close> and \<open>secret_libraries\<close> on functions that
  behave as documented.

  \<^bold>\<open>Not modelled.\<close> The terminal interface and the command line other than starting and stopping servers, telemetry export, the container
  runtime itself and the rendering of the templates for images (their outcomes are arguments of a
  wrap), what the servers asked during OAuth discovery answer, the services that external plugins and registries are, signals to process groups, the YAML parser and the types of the declared fields (arguments of loading).
\<close>

end
